(* ===== verification/Prelude.thy ===== *)
theory Prelude
  imports Main "HOL-Library.AList" "HOL-Library.Sublist" "HOL-Library.Word"
begin

text \<open>
  What the components share: the names of the model's basic types, the parts of Rust's standard
  library the sources use (string slices, hash maps, the trimming of a \<open>Vec\<close> from the front),
  two contracts stated as locales (a hash map, and an invariant that every operation of a component
  keeps), and the generic lemmas on them.

  Conventions of the whole development.
  \<^item> A \<open>String\<close> is the list of its UTF-8 bytes (\<^typ>\<open>char list\<close>), so \<open>len()\<close> is
    \<^const>\<open>length\<close>. Case conversion and white space are those of ASCII: bytes of
    multi-byte characters are neither upper case nor white space here.
  \<^item> A point in time is an integer number of nanoseconds (\<open>utc\<close>, for
    \<open>chrono::DateTime<Utc>\<close>) or a natural one (\<open>instant\<close>, for the monotonic clock). An
    operation that reads the clock takes the reading as an argument.
  \<^item> A \<open>HashMap\<close> whose entries are enumerated is an association list with distinct keys
    (\<open>hm_wf\<close>); one that is only looked up is a map. What is proved never depends on the order of
    the list.
  \<^item> An operation on \<open>&mut self\<close> takes the state last and returns its result and the new
    state; \<open>Result<T, E>\<close> is the sum type with \<open>Inl\<close> for the error.
\<close>

named_theorems std_defs \<open>definitions of the modelled parts of the standard library\<close>

type_synonym uuid = nat
type_synonym handle = nat
type_synonym instant = nat
type_synonym duration = nat
type_synonym utc = int
type_synonym ('e, 'a) result = "'e + 'a"

subsection \<open>Strings\<close>

definition ascii_code :: "char \<Rightarrow> nat" where
  "ascii_code c = (of_char c :: nat)"

definition is_ascii_upper :: "char \<Rightarrow> bool" where
  "is_ascii_upper c = (65 \<le> ascii_code c \<and> ascii_code c \<le> 90)"

definition is_ascii_lower :: "char \<Rightarrow> bool" where
  "is_ascii_lower c = (97 \<le> ascii_code c \<and> ascii_code c \<le> 122)"

definition is_ascii_digit :: "char \<Rightarrow> bool" where
  "is_ascii_digit c = (48 \<le> ascii_code c \<and> ascii_code c \<le> 57)"

definition is_ascii_alpha :: "char \<Rightarrow> bool" where
  "is_ascii_alpha c = (is_ascii_upper c \<or> is_ascii_lower c)"

definition is_ascii_alnum :: "char \<Rightarrow> bool" where
  "is_ascii_alnum c = (is_ascii_alpha c \<or> is_ascii_digit c)"

definition is_ascii_ws :: "char \<Rightarrow> bool" where
  "is_ascii_ws c = (ascii_code c = 32 \<or> (9 \<le> ascii_code c \<and> ascii_code c \<le> 13))"

definition lower_char :: "char \<Rightarrow> char" where
  "lower_char c = (if is_ascii_upper c then char_of (ascii_code c + 32) else c)"

definition upper_char :: "char \<Rightarrow> char" where
  "upper_char c = (if is_ascii_lower c then char_of (ascii_code c - 32) else c)"

definition to_lower :: "string \<Rightarrow> string" where
  "to_lower s = map lower_char s"

definition to_upper :: "string \<Rightarrow> string" where
  "to_upper s = map upper_char s"

definition starts_with :: "string \<Rightarrow> string \<Rightarrow> bool" where
  "starts_with p s = prefix p s"

definition ends_with :: "string \<Rightarrow> string \<Rightarrow> bool" where
  "ends_with p s = suffix p s"

definition str_contains :: "string \<Rightarrow> string \<Rightarrow> bool" where
  "str_contains p s = sublist p s"

definition strip_prefix :: "string \<Rightarrow> string \<Rightarrow> string option" where
  "strip_prefix p s = (if prefix p s then Some (drop (length p) s) else None)"

definition strip_suffix :: "string \<Rightarrow> string \<Rightarrow> string option" where
  "strip_suffix p s = (if suffix p s then Some (take (length s - length p) s) else None)"

definition trim_start :: "string \<Rightarrow> string" where
  "trim_start s = dropWhile is_ascii_ws s"

definition trim :: "string \<Rightarrow> string" where
  "trim s = rev (dropWhile is_ascii_ws (rev (dropWhile is_ascii_ws s)))"

fun split_on :: "(char \<Rightarrow> bool) \<Rightarrow> string \<Rightarrow> string list" where
  "split_on p [] = [[]]"
| "split_on p (c # s) =
     (if p c then [] # split_on p s
      else (case split_on p s of [] \<Rightarrow> [[c]] | w # ws \<Rightarrow> (c # w) # ws))"

definition split_whitespace :: "string \<Rightarrow> string list" where
  "split_whitespace s = filter (\<lambda>w. w \<noteq> []) (split_on is_ascii_ws s)"

fun str_join :: "string \<Rightarrow> string list \<Rightarrow> string" where
  "str_join sep [] = []"
| "str_join sep [w] = w"
| "str_join sep (w # ws) = w @ sep @ str_join sep ws"

fun show_nat :: "nat \<Rightarrow> string" where
  "show_nat n = (if n < 10 then [char_of (48 + n)] else show_nat (n div 10) @ [char_of (48 + n mod 10)])"

declare show_nat.simps [simp del]

subsection \<open>Vectors trimmed from the front\<close>

definition keep_last :: "nat \<Rightarrow> 'a list \<Rightarrow> 'a list" where
  "keep_last n xs = drop (length xs - n) xs"

definition map_last :: "('a \<Rightarrow> 'a) \<Rightarrow> 'a list \<Rightarrow> 'a list" where
  "map_last f xs = (if xs = [] then [] else butlast xs @ [f (last xs)])"

fun find_index :: "('a \<Rightarrow> bool) \<Rightarrow> 'a list \<Rightarrow> nat option" where
  "find_index P [] = None"
| "find_index P (x # xs) = (if P x then Some 0 else map_option Suc (find_index P xs))"

subsection \<open>Hash maps\<close>

definition hm_wf :: "('k \<times> 'v) list \<Rightarrow> bool" where
  "hm_wf m = distinct (map fst m)"

definition hm_get :: "('k \<times> 'v) list \<Rightarrow> 'k \<Rightarrow> 'v option" where
  "hm_get m k = map_of m k"

definition hm_put :: "'k \<Rightarrow> 'v \<Rightarrow> ('k \<times> 'v) list \<Rightarrow> ('k \<times> 'v) list" where
  "hm_put k v m = AList.update k v m"

definition hm_del :: "'k \<Rightarrow> ('k \<times> 'v) list \<Rightarrow> ('k \<times> 'v) list" where
  "hm_del k m = AList.delete k m"

definition hm_retain :: "('k \<Rightarrow> 'v \<Rightarrow> bool) \<Rightarrow> ('k \<times> 'v) list \<Rightarrow> ('k \<times> 'v) list" where
  "hm_retain P m = filter (\<lambda>(k, v). P k v) m"

definition count_entries :: "('v \<Rightarrow> bool) \<Rightarrow> ('k \<times> 'v) list \<Rightarrow> nat" where
  "count_entries P es = length (filter (\<lambda>(k, v). P v) es)"

subsection \<open>Reachable states\<close>

inductive reachable :: "('s \<Rightarrow> bool) \<Rightarrow> ('s \<Rightarrow> 's \<Rightarrow> bool) \<Rightarrow> 's \<Rightarrow> bool"
  for init step where
  reachable_init: "init s \<Longrightarrow> reachable init step s"
| reachable_step: "reachable init step s \<Longrightarrow> step s t \<Longrightarrow> reachable init step t"

subsection \<open>Lemmas on strings\<close>

lemma length_to_lower [simp]: "length (to_lower s) = length s"
  by (simp add: to_lower_def)

lemma ascii_code_char_of: "n < 256 \<Longrightarrow> ascii_code (char_of n) = n"
  by (simp add: ascii_code_def)

lemma lower_char_idem [simp]: "lower_char (lower_char c) = lower_char c"
proof (cases "is_ascii_upper c")
  case True
  then have "ascii_code (lower_char c) = ascii_code c + 32" and "ascii_code c \<le> 90" and "65 \<le> ascii_code c"
    by (auto simp: lower_char_def is_ascii_upper_def ascii_code_char_of)
  then have "\<not> is_ascii_upper (lower_char c)"
    by (simp add: is_ascii_upper_def)
  then show ?thesis by (simp add: lower_char_def)
next
  case False
  then show ?thesis by (simp add: lower_char_def)
qed

lemma to_lower_idem [simp]: "to_lower (to_lower s) = to_lower s"
  by (simp add: to_lower_def)

lemma to_lower_simps: "to_lower [] = []" "to_lower (c # s) = lower_char c # to_lower s"
  by (simp_all add: to_lower_def)

lemma to_lower_append: "to_lower (s @ t) = to_lower s @ to_lower t"
  by (simp add: to_lower_def)

lemma strip_prefix_Some: "strip_prefix p s = Some r \<longleftrightarrow> s = p @ r"
  by (auto simp: strip_prefix_def prefix_def)

lemma split_on_nonempty [simp]: "split_on p s \<noteq> []"
  by (induction s) (auto split: list.splits)

lemma split_on_pieces: "w \<in> set (split_on p s) \<Longrightarrow> c \<in> set w \<Longrightarrow> \<not> p c"
proof (induction s arbitrary: w)
  case Nil
  then show ?case by simp
next
  case (Cons a s)
  show ?case
  proof (cases "p a")
    case True
    with Cons show ?thesis by auto
  next
    case False
    obtain v vs where v: "split_on p s = v # vs" by (cases "split_on p s") auto
    with False Cons.prems have "w = a # v \<or> w \<in> set vs" by simp
    with v False Cons.prems(2) Cons.IH[of v] Cons.IH[of w] show ?thesis by auto
  qed
qed

lemma split_on_word: "\<forall>c\<in>set w. \<not> p c \<Longrightarrow> split_on p w = [w]"
  by (induction w) simp_all

lemma split_on_sep: "\<forall>c\<in>set w. \<not> p c \<Longrightarrow> p c \<Longrightarrow> split_on p (w @ c # s) = w # split_on p s"
  by (induction w) simp_all

text \<open>Words without the separator, joined with it, are what splitting gives back.\<close>

lemma split_on_join:
  "\<forall>w\<in>set ws. c \<notin> set w \<Longrightarrow> ws \<noteq> [] \<Longrightarrow> split_on (\<lambda>x. x = c) (str_join [c] ws) = ws"
proof (induction "[c]" ws rule: str_join.induct)
  case (2 w)
  then show ?case using split_on_word[of w "\<lambda>x. x = c"] by auto
next
  case (3 w v vs)
  then have "split_on (\<lambda>x. x = c) (w @ c # str_join [c] (v # vs)) = w # split_on (\<lambda>x. x = c) (str_join [c] (v # vs))"
    by (intro split_on_sep) auto
  with 3 show ?case by simp
qed simp

lemma split_on_snoc_sep:
  "p c \<Longrightarrow> split_on p (s @ [c]) = split_on p s @ [[]]"
proof (induction s)
  case Nil
  then show ?case by simp
next
  case (Cons a s)
  then show ?case by (cases "split_on p s") auto
qed

lemma trim_trim: "trim (trim s) = trim s"
proof (cases "dropWhile is_ascii_ws s")
  case (Cons x ys)
  then have "\<not> is_ascii_ws x" using hd_dropWhile[of is_ascii_ws s] by simp
  with Cons show ?thesis by (simp add: trim_def dropWhile_append3)
next
  case Nil
  show ?thesis unfolding trim_def Nil by simp
qed

subsection \<open>Lemmas on trimmed vectors\<close>

lemma keep_last_short [simp]: "length xs \<le> n \<Longrightarrow> keep_last n xs = xs"
  by (simp add: keep_last_def)

lemma length_keep_last [simp]: "length (keep_last n xs) = min n (length xs)"
  by (simp add: keep_last_def)

lemma suffix_keep_last: "suffix (keep_last n xs) xs"
  by (simp add: keep_last_def suffix_drop)

lemma set_keep_last: "set (keep_last n xs) \<subseteq> set xs"
  by (simp add: keep_last_def set_drop_subset)

lemma keep_last_append1: "0 < n \<Longrightarrow> keep_last n (xs @ [x]) = keep_last (n - 1) xs @ [x]"
  by (cases n) (auto simp: keep_last_def)

lemma last_keep_last: "0 < n \<Longrightarrow> last (keep_last n xs) = last xs"
  by (cases "xs = []") (auto simp: keep_last_def)

lemma length_map_last [simp]: "length (map_last f xs) = length xs"
  by (simp add: map_last_def)

lemma map_last_snoc [simp]: "map_last f (xs @ [x]) = xs @ [f x]"
  by (simp add: map_last_def)

lemma map_last_Nil [simp]: "map_last f [] = []"
  by (simp add: map_last_def)

lemma map_map_last: "(\<And>x. g (f x) = g x) \<Longrightarrow> map g (map_last f xs) = map g xs"
  by (cases xs rule: rev_cases) auto

lemma find_index_Some:
  "find_index P xs = Some i \<Longrightarrow> i < length xs \<and> P (xs ! i) \<and> (\<forall>j<i. \<not> P (xs ! j))"
proof (induction xs arbitrary: i)
  case Nil
  then show ?case by simp
next
  case (Cons x xs)
  show ?case
  proof (cases "P x")
    case True
    with Cons.prems show ?thesis by simp
  next
    case False
    with Cons.prems obtain k where k: "find_index P xs = Some k" "i = Suc k" by auto
    with Cons.IH[OF k(1)] False show ?thesis by (auto simp: nth_Cons split: nat.splits)
  qed
qed

lemma find_index_None: "find_index P xs = None \<longleftrightarrow> (\<forall>x\<in>set xs. \<not> P x)"
  by (induction xs) auto

lemma find_append: "List.find p (xs @ ys) = (case List.find p xs of None \<Rightarrow> List.find p ys | Some x \<Rightarrow> Some x)"
  by (induction xs) auto

subsection \<open>The contract of a hash map\<close>

locale hash_map =
  fixes get :: "'m \<Rightarrow> 'k \<Rightarrow> 'v option"
    and put :: "'k \<Rightarrow> 'v \<Rightarrow> 'm \<Rightarrow> 'm"
    and del :: "'k \<Rightarrow> 'm \<Rightarrow> 'm"
    and entries :: "'m \<Rightarrow> ('k \<times> 'v) list"
    and wf :: "'m \<Rightarrow> bool"
  assumes get_put: "get (put k v m) = (get m)(k \<mapsto> v)"
    and get_del: "get (del k m) = (get m)(k := None)"
    and wf_put: "wf m \<Longrightarrow> wf (put k v m)"
    and wf_del: "wf m \<Longrightarrow> wf (del k m)"
    and entries_distinct: "wf m \<Longrightarrow> distinct (map fst (entries m))"
    and entries_get: "map_of (entries m) = get m"
begin

lemma count_eq_card:
  assumes "wf m"
  shows "count_entries P (entries m) = card {k. \<exists>v. get m k = Some v \<and> P v}"
proof -
  let ?es = "filter (\<lambda>(k, v). P v) (entries m)"
  have d: "distinct (map fst ?es)"
    by (rule distinct_map_filter[OF entries_distinct[OF assms]])
  have "fst ` set ?es = {k. \<exists>v. get m k = Some v \<and> P v}"
  proof (intro set_eqI iffI)
    fix k
    assume "k \<in> fst ` set ?es"
    then obtain v where "(k, v) \<in> set (entries m)" "P v" by auto
    with map_of_is_SomeI[OF entries_distinct[OF assms]] show "k \<in> {k. \<exists>v. get m k = Some v \<and> P v}"
      by (auto simp: entries_get)
  next
    fix k
    assume "k \<in> {k. \<exists>v. get m k = Some v \<and> P v}"
    then obtain v where "map_of (entries m) k = Some v" "P v" by (auto simp: entries_get)
    then show "k \<in> fst ` set ?es" by (force dest: map_of_SomeD)
  qed
  with distinct_card[OF d] show ?thesis by (simp add: count_entries_def)
qed

lemma finite_keys: "finite {k. \<exists>v. get m k = Some v \<and> P v}"
proof -
  have "{k. \<exists>v. get m k = Some v \<and> P v} \<subseteq> dom (map_of (entries m))"
    by (auto simp: entries_get)
  then show ?thesis by (rule finite_subset) (rule finite_dom_map_of)
qed

lemma count_put:
  assumes "wf m"
  shows "count_entries P (entries (put k v m)) =
    count_entries P (entries (del k m)) + (if P v then 1 else 0)"
proof -
  let ?D = "{k'. \<exists>v'. get (del k m) k' = Some v' \<and> P v'}"
  have "{k'. \<exists>v'. get (put k v m) k' = Some v' \<and> P v'} = (if P v then insert k ?D else ?D)"
    by (auto simp: get_put get_del split: if_splits)
  moreover have "k \<notin> ?D" by (simp add: get_del)
  moreover note finite_keys[of "del k m" P]
  ultimately show ?thesis
    by (simp add: count_eq_card wf_put wf_del assms)
qed

lemma count_del:
  assumes "wf m"
  shows "count_entries P (entries m) = count_entries P (entries (del k m)) +
    (case get m k of Some v \<Rightarrow> if P v then 1 else 0 | None \<Rightarrow> 0)"
proof -
  let ?S = "{k'. \<exists>v'. get m k' = Some v' \<and> P v'}"
  let ?D = "{k'. \<exists>v'. get (del k m) k' = Some v' \<and> P v'}"
  have D: "?D = ?S - {k}" by (auto simp: get_del split: if_splits)
  have "card ?S = card (?S - {k}) + (if k \<in> ?S then 1 else 0)"
    using finite_keys[of m P] card_Suc_Diff1[of ?S k] by auto
  then show ?thesis
    by (auto simp: count_eq_card assms wf_del D split: option.splits)
qed

lemma count_del_le: "wf m \<Longrightarrow> count_entries P (entries (del k m)) \<le> count_entries P (entries m)"
  using count_del[of m P k] by simp

lemma count_put_le:
  "wf m \<Longrightarrow> count_entries P (entries (put k v m)) \<le> Suc (count_entries P (entries m))"
  using count_put[of m P k v] count_del_le[of m P k] by auto

lemma count_put_same:
  assumes "wf m" "get m k = Some v0" "P v \<Longrightarrow> P v0"
  shows "count_entries P (entries (put k v m)) \<le> count_entries P (entries m)"
  using count_put[OF assms(1), of P k v] count_del[OF assms(1), of P k] assms(2,3) by auto

end

lemma map_of_hm_del: "map_of (AList.delete k m) = (map_of m)(k := None)"
  by (rule ext) (simp add: delete_conv')

interpretation hm: hash_map hm_get hm_put hm_del "\<lambda>m. m" hm_wf
  by unfold_locales
    (auto simp: hm_get_def hm_put_def hm_del_def hm_wf_def update_conv' map_of_hm_del
      distinct_update distinct_delete fun_eq_iff)

lemma hm_get_put [simp]: "hm_get (hm_put k v m) k' = (if k' = k then Some v else hm_get m k')"
  by (simp add: hm.get_put)

lemma hm_get_del [simp]: "hm_get (hm_del k m) k' = (if k' = k then None else hm_get m k')"
  by (simp add: hm.get_del)

lemma hm_get_Nil [simp]: "hm_get [] k = None"
  by (simp add: hm_get_def)

lemma hm_wf_simps [simp, intro]:
  "hm_wf []"
  "hm_wf m \<Longrightarrow> hm_wf (hm_put k v m)"
  "hm_wf m \<Longrightarrow> hm_wf (hm_del k m)"
  "hm_wf m \<Longrightarrow> hm_wf (hm_retain P m)"
  by (auto simp: hm_wf_def hm_retain_def intro: hm.wf_put[unfolded hm_wf_def]
      hm.wf_del[unfolded hm_wf_def] distinct_map_filter)

lemma count_entries_Nil [simp]: "count_entries P [] = 0"
  by (simp add: count_entries_def)

lemma count_entries_le_length: "count_entries P m \<le> length m"
  by (simp add: count_entries_def)

lemma hm_get_retain:
  assumes "hm_wf m"
  shows "hm_get (hm_retain P m) k = (case hm_get m k of Some v \<Rightarrow> if P k v then Some v else None | None \<Rightarrow> None)"
  using assms
proof (induction m)
  case Nil
  then show ?case by (simp add: hm_retain_def hm_get_def)
next
  case (Cons e m)
  obtain a b where e: "e = (a, b)" by fastforce
  from Cons.prems have wf: "hm_wf m" and fresh: "map_of m a = None"
    by (auto simp: hm_wf_def e map_of_eq_None_iff)
  from fresh Cons.IH[OF wf] show ?case
    by (auto simp: e hm_retain_def hm_get_def split: option.splits)
qed

lemma length_hm_retain: "length (hm_retain P m) \<le> length m"
  by (simp add: hm_retain_def)

lemma count_entries_True: "count_entries (\<lambda>_. True) m = length m"
  by (simp add: count_entries_def case_prod_unfold)

lemma length_hm_put: "hm_wf m \<Longrightarrow> length (hm_put k v m) \<le> Suc (length m)"
  using hm.count_put_le[of m "\<lambda>_. True" k v] by (simp add: count_entries_True)

lemma length_hm_del:
  "hm_wf m \<Longrightarrow> hm_get m k \<noteq> None \<Longrightarrow> Suc (length (hm_del k m)) = length m"
  using hm.count_del[of m "\<lambda>_. True" k] by (auto simp: count_entries_True)

subsection \<open>Invariants\<close>

text \<open>
  The contract of a component: every operation of it keeps the invariant. Two forms, for a function
  that performs one operation and for a step relation.
\<close>

locale op_invariant =
  fixes perform :: "'op \<Rightarrow> 's \<Rightarrow> 's" and inv :: "'s \<Rightarrow> bool"
  assumes perform_inv: "inv s \<Longrightarrow> inv (perform op s)"
begin

lemma fold_inv: "inv s \<Longrightarrow> inv (fold perform ops s)"
  by (induction ops arbitrary: s) (auto intro: perform_inv)

end

locale step_invariant =
  fixes init :: "'s \<Rightarrow> bool" and step :: "'s \<Rightarrow> 's \<Rightarrow> bool" and inv :: "'s \<Rightarrow> bool"
  assumes init_inv: "init s \<Longrightarrow> inv s"
    and step_inv: "inv s \<Longrightarrow> step s t \<Longrightarrow> inv t"
begin

lemma reachable_inv: "reachable init step s \<Longrightarrow> inv s"
  by (induction rule: reachable.induct) (auto intro: init_inv step_inv)

end

sublocale op_invariant \<subseteq> steps: step_invariant inv "\<lambda>s t. \<exists>op. t = perform op s" inv
  by unfold_locales (auto intro: perform_inv)

text \<open>
  A component that implements a specification: an abstraction function commutes with every operation
  in the states of the invariant, so it does with every sequence of operations.
\<close>

locale op_refinement = op_invariant perform inv
  for perform :: "'op \<Rightarrow> 's \<Rightarrow> 's" and inv :: "'s \<Rightarrow> bool" +
  fixes abs :: "'s \<Rightarrow> 'a" and spec :: "'op \<Rightarrow> 'a \<Rightarrow> 'a"
  assumes perform_refines: "inv s \<Longrightarrow> abs (perform op s) = spec op (abs s)"
begin

lemma fold_refines: "inv s \<Longrightarrow> abs (fold perform ops s) = fold spec ops (abs s)"
  by (induction ops arbitrary: s) (simp_all add: perform_refines perform_inv)

end

subsection \<open>Octets\<close>

text \<open>A property of all octets can be evaluated.\<close>

lemma all_octets_iff: "(\<forall>b::8 word. P b) \<longleftrightarrow> list_all (\<lambda>n. P (of_nat n)) [0..<256]"
proof -
  have "P b" if "list_all (\<lambda>n. P (of_nat n)) [0..<256]" for b :: "8 word"
  proof -
    have "unat b < 2 ^ LENGTH(8)" by (rule unsigned_less)
    then have "unat b \<in> set [0..<256]" by simp
    then have "P (of_nat (unat b))" using that unfolding list_all_iff by (rule bspec [rotated])
    then show ?thesis by simp
  qed
  then show ?thesis by (auto simp: list_all_iff)
qed

end
