(* ===== verification/Json.thy ===== *)
theory Json
  imports Prelude
begin

text \<open>
  The value type of \<open>serde_json\<close>, as its documentation gives it: null, booleans, numbers (an
  unsigned or a negative 64-bit integer, or a double, kept here as its bit pattern), strings, arrays
  and objects. An object is the list of its entries in iteration order.
\<close>

datatype number = PosInt "64 word" | NegInt "64 word" | Float "64 word"

datatype json =
    JNull
  | JBool bool
  | JNumber number
  | JString string
  | JArray "json list"
  | JObject "(string \<times> json) list"

definition json_get :: "string \<Rightarrow> json \<Rightarrow> json option" where
  "json_get k v = (case v of JObject es \<Rightarrow> map_of es k | _ \<Rightarrow> None)"

text \<open>
  The entries below a value: every pair of a key and its value that occurs in it, at any depth.
\<close>

inductive json_entry :: "json \<Rightarrow> string \<Rightarrow> json \<Rightarrow> bool" where
  here: "(k, v) \<in> set es \<Longrightarrow> json_entry (JObject es) k v"
| in_object: "(k', w) \<in> set es \<Longrightarrow> json_entry w k v \<Longrightarrow> json_entry (JObject es) k v"
| in_array: "w \<in> set xs \<Longrightarrow> json_entry w k v \<Longrightarrow> json_entry (JArray xs) k v"

inductive_simps json_entry_simps [simp]:
  "json_entry JNull k v"
  "json_entry (JBool b) k v"
  "json_entry (JNumber n) k v"
  "json_entry (JString s) k v"
  "json_entry (JArray xs) k v"
  "json_entry (JObject es) k v"

end
