(* ===== verification/Job_State.thy ===== *)
theory Job_State
  imports Prelude Json
begin

text \<open>
  The job state machine of \<open>src/context/state.rs\<close>: the states and the transition table, the
  context record of a job, and every operation on it. The amounts of money (\<open>rust_decimal\<close>) are a
  type parameter of which only a zero, an addition and an order are used.
\<close>

section \<open>States\<close>

datatype job_state =
  Pending | InProgress | Completed | Submitted | Accepted | Failed | Stuck | Cancelled

fun can_transition_to :: "job_state \<Rightarrow> job_state \<Rightarrow> bool" where
  "can_transition_to Completed Completed = True"
| "can_transition_to Pending InProgress = True"
| "can_transition_to Pending Cancelled = True"
| "can_transition_to InProgress Completed = True"
| "can_transition_to InProgress Failed = True"
| "can_transition_to InProgress Stuck = True"
| "can_transition_to InProgress Cancelled = True"
| "can_transition_to Completed Submitted = True"
| "can_transition_to Completed Failed = True"
| "can_transition_to Submitted Accepted = True"
| "can_transition_to Submitted Failed = True"
| "can_transition_to Stuck InProgress = True"
| "can_transition_to Stuck Failed = True"
| "can_transition_to Stuck Cancelled = True"
| "can_transition_to _ _ = False"

definition is_terminal :: "job_state \<Rightarrow> bool" where
  "is_terminal s = (s = Accepted \<or> s = Failed \<or> s = Cancelled)"

definition is_active :: "job_state \<Rightarrow> bool" where
  "is_active s = (\<not> is_terminal s)"

definition is_parallel_blocking :: "job_state \<Rightarrow> bool" where
  "is_parallel_blocking s = (s = Pending \<or> s = InProgress \<or> s = Stuck)"

fun show_job_state :: "job_state \<Rightarrow> string" where
  "show_job_state Pending = ''pending''"
| "show_job_state InProgress = ''in_progress''"
| "show_job_state Completed = ''completed''"
| "show_job_state Submitted = ''submitted''"
| "show_job_state Accepted = ''accepted''"
| "show_job_state Failed = ''failed''"
| "show_job_state Stuck = ''stuck''"
| "show_job_state Cancelled = ''cancelled''"

section \<open>The context of a job\<close>

record state_transition =
  st_from :: job_state
  st_to :: job_state
  st_timestamp :: utc
  st_reason :: "string option"

record token_budget_exceeded =
  tbe_used :: "64 word"
  tbe_limit :: "64 word"

record 'd job_context =
  jc_job_id :: uuid
  jc_state :: job_state
  jc_user_id :: string
  jc_requester_id :: "string option"
  jc_conversation_id :: "uuid option"
  jc_title :: string
  jc_description :: string
  jc_category :: "string option"
  jc_budget :: "'d option"
  jc_budget_token :: "string option"
  jc_bid_amount :: "'d option"
  jc_estimated_cost :: "'d option"
  jc_estimated_duration :: "duration option"
  jc_actual_cost :: 'd
  jc_total_tokens_used :: "64 word"
  jc_max_tokens :: "64 word"
  jc_created_at :: utc
  jc_started_at :: "utc option"
  jc_completed_at :: "utc option"
  jc_repair_attempts :: "32 word"
  jc_transitions :: "state_transition list"
  jc_metadata :: json
  jc_extra_env :: "(string \<times> string) list"
  jc_http_interceptor :: "handle option"
  jc_tool_output_stash :: "(string \<times> string) list"
  jc_user_timezone :: string

text \<open>\<open>Uuid::new_v4\<close> and \<open>Utc::now\<close> are the arguments \<open>new_id\<close> and \<open>now\<close>.\<close>

definition with_user :: "uuid \<Rightarrow> utc \<Rightarrow> string \<Rightarrow> string \<Rightarrow> string \<Rightarrow> 'd::zero job_context" where
  "with_user new_id now user_id title description =
     \<lparr> jc_job_id = new_id, jc_state = Pending, jc_user_id = user_id, jc_requester_id = None,
       jc_conversation_id = None, jc_title = title, jc_description = description,
       jc_category = None, jc_budget = None, jc_budget_token = None, jc_bid_amount = None,
       jc_estimated_cost = None, jc_estimated_duration = None, jc_actual_cost = 0,
       jc_total_tokens_used = 0, jc_max_tokens = 0, jc_created_at = now, jc_started_at = None,
       jc_completed_at = None, jc_repair_attempts = 0, jc_transitions = [], jc_metadata = JNull,
       jc_extra_env = [], jc_http_interceptor = None, jc_tool_output_stash = [],
       jc_user_timezone = ''UTC'' \<rparr>"

definition job_context_new :: "uuid \<Rightarrow> utc \<Rightarrow> string \<Rightarrow> string \<Rightarrow> 'd::zero job_context" where
  "job_context_new new_id now title description = with_user new_id now ''default'' title description"

definition job_context_default :: "uuid \<Rightarrow> utc \<Rightarrow> 'd::zero job_context" where
  "job_context_default new_id now = with_user new_id now ''default'' ''Untitled'' ''No description''"

definition with_timezone :: "string \<Rightarrow> 'd job_context \<Rightarrow> 'd job_context" where
  "with_timezone tz c = c\<lparr>jc_user_timezone := tz\<rparr>"

definition with_requester_id :: "string \<Rightarrow> 'd job_context \<Rightarrow> 'd job_context" where
  "with_requester_id r c = c\<lparr>jc_requester_id := Some r\<rparr>"

definition MAX_TRANSITIONS :: nat where
  "MAX_TRANSITIONS = 200"

text \<open>The vector after \<open>push\<close> and, when it is over the cap, \<open>drain(..len - MAX_TRANSITIONS)\<close>.\<close>

definition push_transition :: "state_transition \<Rightarrow> state_transition list \<Rightarrow> state_transition list" where
  "push_transition t ts =
     (let ts' = ts @ [t]
      in if length ts' > MAX_TRANSITIONS then drop (length ts' - MAX_TRANSITIONS) ts' else ts')"

definition update_timestamps :: "utc \<Rightarrow> job_state \<Rightarrow> 'd job_context \<Rightarrow> 'd job_context" where
  "update_timestamps now new_state c =
     (if new_state = InProgress \<and> jc_started_at c = None then c\<lparr>jc_started_at := Some now\<rparr>
      else if new_state \<in> {Completed, Accepted, Failed, Cancelled}
      then c\<lparr>jc_completed_at := Some now\<rparr>
      else c)"

definition transition_to ::
  "utc \<Rightarrow> job_state \<Rightarrow> string option \<Rightarrow> 'd job_context \<Rightarrow> (string, unit) result \<times> 'd job_context"
where
  "transition_to now new_state reason c =
     (if \<not> can_transition_to (jc_state c) new_state
      then (Inl (''Cannot transition from '' @ show_job_state (jc_state c) @ '' to '' @
                 show_job_state new_state), c)
      else if jc_state c = new_state then (Inr (), c)
      else (Inr (),
        update_timestamps now new_state
          (c\<lparr> jc_transitions :=
                push_transition \<lparr> st_from = jc_state c, st_to = new_state, st_timestamp = now,
                                  st_reason = reason \<rparr> (jc_transitions c),
             jc_state := new_state \<rparr>)))"

definition add_cost :: "'d::plus \<Rightarrow> 'd job_context \<Rightarrow> 'd job_context" where
  "add_cost cost c = c\<lparr>jc_actual_cost := jc_actual_cost c + cost\<rparr>"

definition add_tokens ::
  "64 word \<Rightarrow> 'd job_context \<Rightarrow> (token_budget_exceeded, unit) result \<times> 'd job_context" where
  "add_tokens tokens c =
     (let c' = c\<lparr>jc_total_tokens_used := jc_total_tokens_used c + tokens\<rparr>
      in (if jc_max_tokens c' > 0 \<and> jc_total_tokens_used c' > jc_max_tokens c'
          then Inl \<lparr>tbe_used = jc_total_tokens_used c', tbe_limit = jc_max_tokens c'\<rparr>
          else Inr (), c'))"

definition budget_exceeded :: "'d::ord job_context \<Rightarrow> bool" where
  "budget_exceeded c = (case jc_budget c of Some b \<Rightarrow> b < jc_actual_cost c | None \<Rightarrow> False)"

definition nanos_per_sec :: int where
  "nanos_per_sec = 1000000000"

text \<open>\<open>num_seconds\<close> truncates; after \<open>max(0)\<close> that is the floor of a non-negative difference.\<close>

definition seconds_between :: "utc \<Rightarrow> utc \<Rightarrow> nat" where
  "seconds_between start stop = nat ((stop - start) div nanos_per_sec)"

definition elapsed :: "utc \<Rightarrow> 'd job_context \<Rightarrow> nat option" where
  "elapsed now c =
     map_option (\<lambda>start. seconds_between start
        (case jc_completed_at c of Some t \<Rightarrow> t | None \<Rightarrow> now)) (jc_started_at c)"

definition mark_stuck ::
  "utc \<Rightarrow> string \<Rightarrow> 'd job_context \<Rightarrow> (string, unit) result \<times> 'd job_context" where
  "mark_stuck now reason c = transition_to now Stuck (Some reason) c"

definition attempt_recovery ::
  "utc \<Rightarrow> 'd job_context \<Rightarrow> (string, unit) result \<times> 'd job_context" where
  "attempt_recovery now c =
     (if jc_state c \<noteq> Stuck then (Inl ''Job is not stuck'', c)
      else transition_to now InProgress (Some ''Recovery attempt'')
             (c\<lparr>jc_repair_attempts := jc_repair_attempts c + 1\<rparr>))"

section \<open>Runs of a job\<close>

text \<open>
  One call of an operation that changes a context, and its effect. The last three are the fields the
  scheduler and the command handler assign inside \<open>update_context\<close> closures.
\<close>

datatype 'd job_op =
    TransitionTo utc job_state "string option"
  | AddCost 'd
  | AddTokens "64 word"
  | MarkStuck utc string
  | AttemptRecovery utc
  | WithTimezone string
  | WithRequesterId string
  | SetMetadata json
  | SetMaxTokens "64 word"
  | SetCategory string

fun job_perform :: "'d::plus job_op \<Rightarrow> 'd job_context \<Rightarrow> 'd job_context" where
  "job_perform (TransitionTo now s r) c = snd (transition_to now s r c)"
| "job_perform (AddCost d) c = add_cost d c"
| "job_perform (AddTokens n) c = snd (add_tokens n c)"
| "job_perform (MarkStuck now r) c = snd (mark_stuck now r c)"
| "job_perform (AttemptRecovery now) c = snd (attempt_recovery now c)"
| "job_perform (WithTimezone tz) c = with_timezone tz c"
| "job_perform (WithRequesterId r) c = with_requester_id r c"
| "job_perform (SetMetadata m) c = c\<lparr>jc_metadata := m\<rparr>"
| "job_perform (SetMaxTokens n) c = c\<lparr>jc_max_tokens := n\<rparr>"
| "job_perform (SetCategory cat) c = c\<lparr>jc_category := Some cat\<rparr>"

text \<open>
  The recorded history of a job: every entry is an allowed change of state, each begins where the
  one before it ended, and the last ends in the current state.
\<close>

definition history_ok :: "job_state \<Rightarrow> state_transition list \<Rightarrow> bool" where
  "history_ok s ts =
     (length ts \<le> MAX_TRANSITIONS \<and>
      list_all (\<lambda>t. st_from t \<noteq> st_to t \<and> can_transition_to (st_from t) (st_to t)) ts \<and>
      successively (\<lambda>a b. st_to a = st_from b) ts \<and>
      (ts \<noteq> [] \<longrightarrow> st_to (last ts) = s))"

text \<open>
  The invariant of a context: its history is as above, it has a start time once it worked (it is in
  a state beyond \<open>Pending\<close> and \<open>Cancelled\<close>, or its history shows work), and it has a completion time
  exactly when it no longer takes a slot.
\<close>

definition job_inv :: "'d job_context \<Rightarrow> bool" where
  "job_inv c =
     (history_ok (jc_state c) (jc_transitions c) \<and>
      (jc_state c \<notin> {Pending, Cancelled} \<or>
       (\<exists>t\<in>set (jc_transitions c). st_from t \<noteq> Pending \<or> st_to t = InProgress) \<longrightarrow>
         jc_started_at c \<noteq> None) \<and>
      (jc_completed_at c = None \<longleftrightarrow> is_parallel_blocking (jc_state c)))"

text \<open>
  The specification of a run of calls: which change of state, if any, each call asks for and the table
  allows, and with it the whole sequence of changes, with nothing dropped. It is written without the
  context and its operations.
\<close>

fun op_change :: "'d job_op \<Rightarrow> job_state \<Rightarrow> state_transition option" where
  "op_change (TransitionTo now t r) s =
     (if can_transition_to s t \<and> s \<noteq> t
      then Some \<lparr>st_from = s, st_to = t, st_timestamp = now, st_reason = r\<rparr> else None)"
| "op_change (MarkStuck now r) s =
     (if s = InProgress
      then Some \<lparr>st_from = InProgress, st_to = Stuck, st_timestamp = now, st_reason = Some r\<rparr> else None)"
| "op_change (AttemptRecovery now) s =
     (if s = Stuck
      then Some \<lparr>st_from = Stuck, st_to = InProgress, st_timestamp = now,
                 st_reason = Some ''Recovery attempt''\<rparr> else None)"
| "op_change _ s = None"

fun state_changes :: "job_state \<Rightarrow> 'd job_op list \<Rightarrow> state_transition list" where
  "state_changes s [] = []"
| "state_changes s (op # ops) =
     (case op_change op s of
        None \<Rightarrow> state_changes s ops
      | Some e \<Rightarrow> e # state_changes (st_to e) ops)"

definition state_after :: "job_state \<Rightarrow> state_transition list \<Rightarrow> job_state" where
  "state_after s es = (if es = [] then s else st_to (last es))"

definition started_from :: "utc option \<Rightarrow> state_transition list \<Rightarrow> utc option" where
  "started_from t0 es =
     (case t0 of
        Some t \<Rightarrow> Some t
      | None \<Rightarrow> map_option st_timestamp (find (\<lambda>e. st_to e = InProgress) es))"

definition completed_from :: "utc option \<Rightarrow> state_transition list \<Rightarrow> utc option" where
  "completed_from t0 es =
     (case find (\<lambda>e. st_to e \<in> {Completed, Accepted, Failed, Cancelled}) (rev es) of
        Some e \<Rightarrow> Some (st_timestamp e)
      | None \<Rightarrow> t0)"

section \<open>The transition table\<close>

lemmas job_state_defs = is_terminal_def is_active_def is_parallel_blocking_def

lemma can_transition_cases:
  "can_transition_to s t \<Longrightarrow>
   (s = Pending \<and> t \<in> {InProgress, Cancelled}) \<or>
   (s = InProgress \<and> t \<in> {Completed, Failed, Stuck, Cancelled}) \<or>
   (s = Completed \<and> t \<in> {Completed, Submitted, Failed}) \<or>
   (s = Submitted \<and> t \<in> {Accepted, Failed}) \<or>
   (s = Stuck \<and> t \<in> {InProgress, Failed, Cancelled})"
  by (cases s; cases t) simp_all

lemma terminal_iff_stuck: "is_terminal s \<longleftrightarrow> (\<forall>t. \<not> can_transition_to s t)"
proof
  assume "is_terminal s"
  then show "\<forall>t. \<not> can_transition_to s t"
    by (auto simp: is_terminal_def dest: can_transition_cases)
next
  assume no: "\<forall>t. \<not> can_transition_to s t"
  have "\<not> is_terminal s \<Longrightarrow> \<exists>t. can_transition_to s t"
    by (cases s) (auto simp: is_terminal_def intro: exI[of _ Failed] exI[of _ Cancelled])
  with no show "is_terminal s" by blast
qed

lemma never_back_to_blocking:
  "can_transition_to s t \<Longrightarrow> is_parallel_blocking t \<Longrightarrow> is_parallel_blocking s"
  by (auto simp: is_parallel_blocking_def dest!: can_transition_cases)

lemma can_transition_self: "can_transition_to s s \<longleftrightarrow> s = Completed"
  by (cases s) simp_all

section \<open>One transition\<close>

lemma transition_to_err_iff:
  "(\<exists>e. fst (transition_to now t r c) = Inl e) \<longleftrightarrow> \<not> can_transition_to (jc_state c) t"
  by (simp add: transition_to_def)

lemma transition_to_err_same:
  "\<not> can_transition_to (jc_state c) t \<Longrightarrow> snd (transition_to now t r c) = c"
  by (simp add: transition_to_def)

lemma state_update_timestamps [simp]:
  "jc_state (update_timestamps now t c) = jc_state c"
  "jc_transitions (update_timestamps now t c) = jc_transitions c"
  "jc_user_id (update_timestamps now t c) = jc_user_id c"
  "jc_job_id (update_timestamps now t c) = jc_job_id c"
  by (simp_all add: update_timestamps_def)

lemma transition_to_state:
  "jc_state (snd (transition_to now t r c)) =
     (if can_transition_to (jc_state c) t then t else jc_state c)"
  by (auto simp: transition_to_def)

lemma push_transition_eq: "push_transition t ts = keep_last MAX_TRANSITIONS (ts @ [t])"
  by (simp add: push_transition_def keep_last_def Let_def)

lemma successively_suffix: "suffix xs ys \<Longrightarrow> successively P ys \<Longrightarrow> successively P xs"
  by (auto simp: suffix_def successively_append_iff)

lemma list_all_keep_last: "list_all P ts \<Longrightarrow> list_all P (keep_last n ts)"
  using set_keep_last[of n ts] by (auto simp: list_all_iff)

lemma history_ok_push:
  assumes "history_ok s ts" "can_transition_to s t" "s \<noteq> t"
    and e: "st_from e = s" "st_to e = t"
  shows "history_ok t (push_transition e ts)"
proof -
  have "successively (\<lambda>a b. st_to a = st_from b) (ts @ [e])"
    using assms by (auto simp: history_ok_def successively_append_iff)
  then have "successively (\<lambda>a b. st_to a = st_from b) (push_transition e ts)"
    unfolding push_transition_eq by (rule successively_suffix[OF suffix_keep_last])
  moreover have "list_all (\<lambda>t. st_from t \<noteq> st_to t \<and> can_transition_to (st_from t) (st_to t))
      (push_transition e ts)"
    unfolding push_transition_eq using assms
    by (intro list_all_keep_last) (auto simp: history_ok_def)
  moreover have "last (push_transition e ts) = e"
    by (simp add: push_transition_eq last_keep_last MAX_TRANSITIONS_def)
  ultimately show ?thesis
    using e by (simp add: history_ok_def push_transition_eq)
qed

lemma job_inv_transition:
  assumes "job_inv c"
  shows "job_inv (snd (transition_to now t r c))"
proof (cases "can_transition_to (jc_state c) t \<and> jc_state c \<noteq> t")
  case False
  then have "snd (transition_to now t r c) = c"
    by (auto simp: transition_to_def)
  with assms show ?thesis by simp
next
  case True
  then have h: "history_ok t (jc_transitions (snd (transition_to now t r c)))"
    using assms by (auto simp: transition_to_def job_inv_def intro!: history_ok_push)
  have can: "can_transition_to (jc_state c) t" using True by simp
  have old: "e \<in> set (jc_transitions c) \<or> st_from e = jc_state c \<and> st_to e = t"
    if "e \<in> set (jc_transitions (snd (transition_to now t r c)))" for e
  proof -
    let ?e = "\<lparr>st_from = jc_state c, st_to = t, st_timestamp = now, st_reason = r\<rparr>"
    have "jc_transitions (snd (transition_to now t r c)) = keep_last MAX_TRANSITIONS (jc_transitions c @ [?e])"
      using True by (simp add: transition_to_def push_transition_eq)
    with that have "e \<in> set (jc_transitions c @ [?e])"
      using set_keep_last[of MAX_TRANSITIONS "jc_transitions c @ [?e]"] by auto
    then show ?thesis by auto
  qed
  have "jc_started_at (snd (transition_to now t r c)) \<noteq> None"
    if "t \<notin> {Pending, Cancelled} \<or>
      (\<exists>e\<in>set (jc_transitions (snd (transition_to now t r c))). st_from e \<noteq> Pending \<or> st_to e = InProgress)"
  proof (cases "jc_started_at c = None \<and> t \<noteq> InProgress")
    case False
    then show ?thesis using True by (auto simp: transition_to_def update_timestamps_def)
  next
    case none: True
    with assms have "jc_state c \<in> {Pending, Cancelled}"
      and hist: "\<forall>e\<in>set (jc_transitions c). st_from e = Pending \<and> st_to e \<noteq> InProgress"
      by (auto simp: job_inv_def)
    with can none have "jc_state c = Pending" "t = Cancelled" by (auto dest: can_transition_cases)
    with that old hist show ?thesis by fastforce
  qed
  with h can True assms show ?thesis
    by (auto simp: transition_to_def job_inv_def update_timestamps_def is_parallel_blocking_def
        dest!: can_transition_cases)
qed

lemma job_inv_frame:
  "job_inv c \<Longrightarrow> job_inv (add_cost d c)"
  "job_inv c \<Longrightarrow> job_inv (snd (add_tokens n c))"
  "job_inv c \<Longrightarrow> job_inv (with_timezone tz c)"
  "job_inv c \<Longrightarrow> job_inv (with_requester_id rq c)"
  "job_inv (c\<lparr>jc_repair_attempts := k\<rparr>) = job_inv c"
  "job_inv (c\<lparr>jc_metadata := m\<rparr>) = job_inv c"
  "job_inv (c\<lparr>jc_max_tokens := mt\<rparr>) = job_inv c"
  "job_inv (c\<lparr>jc_category := cat\<rparr>) = job_inv c"
  by (auto simp: job_inv_def add_cost_def add_tokens_def with_timezone_def with_requester_id_def Let_def)

lemma job_inv_perform: "job_inv c \<Longrightarrow> job_inv (job_perform op c)"
  by (cases op)
    (auto simp: mark_stuck_def attempt_recovery_def job_inv_frame intro!: job_inv_transition)

interpretation job: op_invariant job_perform job_inv
  by unfold_locales (rule job_inv_perform)

lemma job_inv_with_user: "job_inv (with_user new_id now u t d)"
  by (simp add: job_inv_def with_user_def history_ok_def is_parallel_blocking_def)

subsection \<open>What an operation does to the state\<close>

lemma job_perform_state:
  "jc_state (job_perform op c) = jc_state c \<or>
   can_transition_to (jc_state c) (jc_state (job_perform op c))"
  by (cases op)
    (auto simp: mark_stuck_def attempt_recovery_def transition_to_state add_cost_def add_tokens_def
      with_timezone_def with_requester_id_def Let_def)

lemma job_perform_blocking:
  "is_parallel_blocking (jc_state (job_perform op c)) \<Longrightarrow> is_parallel_blocking (jc_state c)"
  using job_perform_state[of op c] never_back_to_blocking by auto

lemma job_perform_user [simp]: "jc_user_id (job_perform op c) = jc_user_id c"
  by (cases op)
    (auto simp: mark_stuck_def attempt_recovery_def transition_to_def add_cost_def add_tokens_def
      with_timezone_def with_requester_id_def Let_def)

lemma job_perform_id [simp]: "jc_job_id (job_perform op c) = jc_job_id c"
  by (cases op)
    (auto simp: mark_stuck_def attempt_recovery_def transition_to_def add_cost_def add_tokens_def
      with_timezone_def with_requester_id_def Let_def)

lemma terminal_perform: "is_terminal (jc_state c) \<Longrightarrow> jc_state (job_perform op c) = jc_state c"
  using job_perform_state[of op c] terminal_iff_stuck by metis

lemma terminal_run: "is_terminal (jc_state c) \<Longrightarrow> jc_state (fold job_perform ops c) = jc_state c"
  by (induction ops arbitrary: c) (simp_all add: terminal_perform)

subsection \<open>A run against its specification\<close>

lemma transition_changes:
  fixes c :: "'d job_context"
  shows
  "jc_transitions (snd (transition_to now t r c)) =
     (case op_change (TransitionTo now t r :: 'd job_op) (jc_state c) of
        None \<Rightarrow> jc_transitions c
      | Some e \<Rightarrow> keep_last MAX_TRANSITIONS (jc_transitions c @ [e]))"
  "jc_state (snd (transition_to now t r c)) =
     (case op_change (TransitionTo now t r :: 'd job_op) (jc_state c) of None \<Rightarrow> jc_state c | Some e \<Rightarrow> st_to e)"
  "jc_started_at (snd (transition_to now t r c)) =
     started_from (jc_started_at c) (case op_change (TransitionTo now t r :: 'd job_op) (jc_state c) of None \<Rightarrow> [] | Some e \<Rightarrow> [e])"
  "jc_completed_at (snd (transition_to now t r c)) =
     completed_from (jc_completed_at c) (case op_change (TransitionTo now t r :: 'd job_op) (jc_state c) of None \<Rightarrow> [] | Some e \<Rightarrow> [e])"
  by (auto simp: transition_to_def push_transition_eq update_timestamps_def started_from_def
      completed_from_def split: option.splits)

lemma op_change_mark_stuck:
  "op_change (MarkStuck now r :: 'd job_op) s = op_change (TransitionTo now Stuck (Some r) :: 'd job_op) s"
  by (cases s; simp)

lemma no_change [simp]:
  "started_from t0 [] = t0" "completed_from t0 [] = t0"
  by (simp_all add: started_from_def completed_from_def split: option.splits)

lemma perform_changes:
  "jc_transitions (job_perform op c) =
     (case op_change op (jc_state c) of
        None \<Rightarrow> jc_transitions c
      | Some e \<Rightarrow> keep_last MAX_TRANSITIONS (jc_transitions c @ [e])) \<and>
   jc_state (job_perform op c) = (case op_change op (jc_state c) of None \<Rightarrow> jc_state c | Some e \<Rightarrow> st_to e) \<and>
   jc_started_at (job_perform op c) =
     started_from (jc_started_at c) (case op_change op (jc_state c) of None \<Rightarrow> [] | Some e \<Rightarrow> [e]) \<and>
   jc_completed_at (job_perform op c) =
     completed_from (jc_completed_at c) (case op_change op (jc_state c) of None \<Rightarrow> [] | Some e \<Rightarrow> [e])"
proof (cases op)
  case (MarkStuck now r)
  show ?thesis
    by (simp add: MarkStuck mark_stuck_def op_change_mark_stuck transition_changes del: op_change.simps)
next
  case (AttemptRecovery now)
  show ?thesis
    by (simp add: AttemptRecovery attempt_recovery_def transition_changes)
next
  case (TransitionTo now t r)
  show ?thesis
    by (simp add: TransitionTo transition_changes del: op_change.simps)
qed (simp_all add: add_cost_def add_tokens_def with_timezone_def with_requester_id_def Let_def)

lemma find_append_case:
  "find P (xs @ ys) = (case find P xs of Some x \<Rightarrow> Some x | None \<Rightarrow> find P ys)"
  by (induction xs) auto

lemma keep_last_keep_last: "keep_last n (keep_last n xs @ ys) = keep_last n (xs @ ys)"
  by (cases "length xs \<le> n") (auto simp: keep_last_def add.commute)

lemma run_changes:
  "jc_transitions c = keep_last MAX_TRANSITIONS (jc_transitions c) \<Longrightarrow>
   jc_transitions (fold job_perform ops c) =
     keep_last MAX_TRANSITIONS (jc_transitions c @ state_changes (jc_state c) ops) \<and>
   jc_state (fold job_perform ops c) = state_after (jc_state c) (state_changes (jc_state c) ops) \<and>
   jc_started_at (fold job_perform ops c) = started_from (jc_started_at c) (state_changes (jc_state c) ops) \<and>
   jc_completed_at (fold job_perform ops c) = completed_from (jc_completed_at c) (state_changes (jc_state c) ops)"
proof (induction ops arbitrary: c)
  case Nil
  then show ?case by (simp add: state_after_def started_from_def completed_from_def split: option.splits)
next
  case (Cons op ops)
  show ?case
  proof (cases "op_change op (jc_state c)")
    case None
    have "jc_transitions (job_perform op c) = jc_transitions c"
      "jc_state (job_perform op c) = jc_state c"
      "jc_started_at (job_perform op c) = jc_started_at c"
      "jc_completed_at (job_perform op c) = jc_completed_at c"
      using None by (simp_all add: perform_changes started_from_def completed_from_def split: option.splits)
    with Cons None show ?thesis by simp
  next
    case (Some e)
    have "jc_transitions (job_perform op c) = keep_last MAX_TRANSITIONS (jc_transitions c @ [e])"
      "jc_state (job_perform op c) = st_to e"
      "jc_started_at (job_perform op c) = started_from (jc_started_at c) [e]"
      "jc_completed_at (job_perform op c) = completed_from (jc_completed_at c) [e]"
      using Some by (simp_all add: perform_changes)
    moreover have "keep_last MAX_TRANSITIONS (keep_last MAX_TRANSITIONS xs) = keep_last MAX_TRANSITIONS xs"
      for xs :: "state_transition list"
      using keep_last_keep_last[of MAX_TRANSITIONS xs "[]"] by simp
    moreover note Cons.IH[of "job_perform op c"] Some
    ultimately show ?thesis
      by (auto simp: keep_last_keep_last state_after_def started_from_def completed_from_def
          find_append_case split: option.splits)
  qed
qed

section \<open>Properties\<close>


text \<open>
  The terminal states are exactly the states without an outgoing transition, and a job in one of
  them stays there under every further operation.
\<close>

theorem terminal_is_final:
  "(is_terminal st \<longleftrightarrow> (\<forall>t. \<not> can_transition_to st t)) \<and>
   (is_terminal (jc_state c) \<longrightarrow> jc_state (fold job_perform ops c) = jc_state c)"
  using terminal_iff_stuck terminal_run by blast

theorem terminal_is_final_witness:
  "jc_state (fold job_perform [TransitionTo 9 InProgress None, AttemptRecovery 10, AddCost 4]
     ((with_user 1 0 ''u'' ''t'' ''d'' :: nat job_context)\<lparr>jc_state := Failed\<rparr>)) = Failed"
  using terminal_is_final[where c = "(with_user 1 0 ''u'' ''t'' ''d'' :: nat job_context)\<lparr>jc_state := Failed\<rparr>"
      and ops = "[TransitionTo 9 InProgress None, AttemptRecovery 10, AddCost 4]" and st = Failed]
  by (simp add: is_terminal_def)

end
