(* ===== verification/Strings.thy ===== *)
theory Strings
  imports Prelude
begin

text \<open>
  Searching in strings, as \<open>find\<close>, \<open>rfind\<close>, \<open>match_indices\<close>, \<open>lines\<close> and \<open>replace\<close> of
  Rust's \<open>str\<close> do it, with the lemmas that the scanners of the sources rest on.
\<close>

section \<open>Operations\<close>

abbreviation newline :: char where
  "newline \<equiv> CHR 0x0A"

fun find_sub :: "string \<Rightarrow> string \<Rightarrow> nat option" where
  "find_sub p [] = (if p = [] then Some 0 else None)"
| "find_sub p (c # s) = (if prefix p (c # s) then Some 0 else map_option Suc (find_sub p s))"

definition find_char :: "char \<Rightarrow> string \<Rightarrow> nat option" where
  "find_char c s = find_sub [c] s"

fun rfind_char :: "char \<Rightarrow> string \<Rightarrow> nat option" where
  "rfind_char c [] = None"
| "rfind_char c (x # s) =
     (case rfind_char c s of Some i \<Rightarrow> Some (Suc i) | None \<Rightarrow> if x = c then Some 0 else None)"

text \<open>What follows each match of a pattern; matches do not overlap. Patterns are not empty.\<close>

function match_suffixes :: "string \<Rightarrow> string \<Rightarrow> string list" where
  "match_suffixes p s =
     (case find_sub p s of
        Some i \<Rightarrow>
          if p = [] then []
          else (let rest = drop (i + length p) s in rest # match_suffixes p rest)
      | None \<Rightarrow> [])"
  by pat_completeness auto

text \<open>Lines end in a line feed, with or without a carriage return before it; a last line may be open.\<close>

definition strip_cr :: "string \<Rightarrow> string" where
  "strip_cr l = (if l \<noteq> [] \<and> last l = CHR 0x0D then butlast l else l)"

definition str_lines :: "string \<Rightarrow> string list" where
  "str_lines s =
     (let parts = split_on (\<lambda>c. c = newline) s
      in map strip_cr (butlast parts) @ (if last parts = [] then [] else [last parts]))"

definition trim_start_char :: "char \<Rightarrow> string \<Rightarrow> string" where
  "trim_start_char c s = dropWhile (\<lambda>x. x = c) s"

definition trim_end_char :: "char \<Rightarrow> string \<Rightarrow> string" where
  "trim_end_char c s = rev (dropWhile (\<lambda>x. x = c) (rev s))"

definition quoted :: "string \<Rightarrow> string" where
  "quoted s = [CHR 0x27] @ s @ [CHR 0x27]"

section \<open>Lemmas\<close>

lemma find_sub_Some:
  "find_sub p s = Some i \<Longrightarrow> prefix p (drop i s) \<and> i + length p \<le> length s"
proof (induction p s arbitrary: i rule: find_sub.induct)
  case (2 p c s)
  show ?case
  proof (cases "prefix p (c # s)")
    case True
    then show ?thesis using 2 prefix_length_le[OF True] by simp
  next
    case False
    then obtain j where "find_sub p s = Some j" "i = Suc j" using 2 by auto
    then show ?thesis using 2 False by auto
  qed
qed (auto split: if_splits)

lemma find_sub_first: "find_sub p s = Some i \<Longrightarrow> j < i \<Longrightarrow> \<not> prefix p (drop j s)"
proof (induction p s arbitrary: i j rule: find_sub.induct)
  case (2 p c s)
  then show ?case by (cases j) (auto split: if_splits)
qed (auto split: if_splits)

lemma find_sub_None: "find_sub p s = None \<longleftrightarrow> \<not> sublist p s"
proof (induction p s rule: find_sub.induct)
  case (2 p c s)
  then show ?case by (auto simp: sublist_Cons_right split: if_splits)
qed auto

lemma find_sub_sublist: "find_sub p s \<noteq> None \<longleftrightarrow> sublist p s"
  by (metis find_sub_None)

lemma length_drop_match:
  "find_sub p s = Some i \<Longrightarrow> p \<noteq> [] \<Longrightarrow> length (drop (i + length p) s) < length s"
  using find_sub_Some[of p s i] by (cases p) auto

termination match_suffixes
  by (relation "measure (\<lambda>(p, s). length s)") (auto simp: length_drop_match simp del: length_drop)

declare match_suffixes.simps [simp del]

lemma find_char_Some:
  "find_char c s = Some i \<Longrightarrow> i < length s \<and> s ! i = c \<and> c \<notin> set (take i s)"
proof (induction s arbitrary: i)
  case (Cons x s)
  show ?case
  proof (cases "x = c")
    case True
    then show ?thesis using Cons.prems by (simp add: find_char_def)
  next
    case False
    then obtain j where "find_char c s = Some j" "i = Suc j"
      using Cons.prems by (auto simp: find_char_def)
    then show ?thesis using Cons.IH[of j] False by auto
  qed
qed (simp add: find_char_def)

lemma find_char_None: "find_char c s = None \<longleftrightarrow> c \<notin> set s"
  by (induction s) (auto simp: find_char_def)

lemma rfind_char_Some:
  "rfind_char c s = Some i \<Longrightarrow> i < length s \<and> s ! i = c \<and> c \<notin> set (drop (Suc i) s)"
proof (induction s arbitrary: i)
  case (Cons x s)
  then show ?case
  proof (cases "rfind_char c s")
    case None
    moreover have "rfind_char c t = None \<Longrightarrow> c \<notin> set t" for t
      by (induction t) (auto split: option.splits if_splits)
    ultimately show ?thesis using Cons.prems by (auto split: if_splits)
  qed (auto split: if_splits)
qed simp

lemma rfind_char_None: "rfind_char c s = None \<longleftrightarrow> c \<notin> set s"
  by (induction s) (auto split: option.splits)

lemma find_sub_split:
  "find_sub p s = Some i \<Longrightarrow> s = take i s @ p @ drop (i + length p) s"
  using find_sub_Some[of p s i] by (metis append_take_drop_id append_eq_conv_conj prefix_def drop_drop add.commute)

lemma no_sub_before: "find_sub p s = Some i \<Longrightarrow> p \<noteq> [] \<Longrightarrow> \<not> sublist p (take i s)"
proof
  assume f: "find_sub p s = Some i" and p: "p \<noteq> []" and "sublist p (take i s)"
  then obtain a b where ab: "take i s = a @ p @ b" by (auto simp: sublist_def)
  then have "length a < i" using p by (metis append_is_Nil_conv length_append length_greater_0_conv length_take less_add_same_cancel1 min_less_iff_conj)
  moreover have "s = a @ p @ b @ drop i s" using ab by (metis append.assoc append_take_drop_id)
  then have "prefix p (drop (length a) s)" by (metis append_eq_conv_conj prefixI)
  ultimately show False using find_sub_first[OF f] by blast
qed

end
