(* ===== verification/String_Edit.thy ===== *)
theory String_Edit
  imports Strings
begin

text \<open>
  Changing strings, as \<open>replace\<close>, \<open>is_char_boundary\<close>, \<open>chars\<close> and \<open>rfind\<close> of Rust's \<open>str\<close> do it on
  UTF-8 bytes, with the lemmas that the escaping functions of the sources rest on.
\<close>

section \<open>Operations\<close>

text \<open>Matches are replaced from left to right and do not overlap. Patterns are not empty.\<close>

function str_replace :: "string \<Rightarrow> string \<Rightarrow> string \<Rightarrow> string" where
  "str_replace p r [] = []"
| "str_replace p r (c # s) =
     (if p \<noteq> [] \<and> prefix p (c # s) then r @ str_replace p r (drop (length p) (c # s))
      else c # str_replace p r s)"
  by pat_completeness auto
termination
  by (relation "measure (\<lambda>(p, r, s). length s)") (auto simp: neq_Nil_conv)

definition is_continuation_byte :: "char \<Rightarrow> bool" where
  "is_continuation_byte c = (128 \<le> ascii_code c \<and> ascii_code c < 192)"

definition is_char_boundary :: "string \<Rightarrow> nat \<Rightarrow> bool" where
  "is_char_boundary s i = (i = 0 \<or> i = length s \<or> (i < length s \<and> \<not> is_continuation_byte (s ! i)))"

text \<open>The characters of a text, each as its bytes.\<close>

fun str_chars :: "string \<Rightarrow> string list" where
  "str_chars [] = []"
| "str_chars (c # s) =
     (case s of
        [] \<Rightarrow> [[c]]
      | d # _ \<Rightarrow>
          (if is_continuation_byte d then (case str_chars s of w # ws \<Rightarrow> (c # w) # ws | [] \<Rightarrow> [[c]])
           else [c] # str_chars s))"

fun rfind_sub :: "string \<Rightarrow> string \<Rightarrow> nat option" where
  "rfind_sub p [] = (if p = [] then Some 0 else None)"
| "rfind_sub p (c # s) =
     (case rfind_sub p s of
        Some i \<Rightarrow> Some (Suc i)
      | None \<Rightarrow> if prefix p (c # s) then Some 0 else None)"

section \<open>Lemmas\<close>

lemma str_replace_absent: "\<not> sublist p s \<Longrightarrow> str_replace p r s = s"
  by (induction s) (auto simp: sublist_Cons_right)

lemma str_replace_head: "p \<noteq> [] \<Longrightarrow> str_replace p r (p @ s) = r @ str_replace p r s"
  by (cases p) auto

lemma str_replace_skip: "hd p \<notin> set q \<Longrightarrow> p \<noteq> [] \<Longrightarrow> str_replace p r (q @ s) = q @ str_replace p r s"
  by (induction q) (auto simp: prefix_def neq_Nil_conv)

text \<open>A text without the first character of the pattern and of its replacement is found before and after alike.\<close>

lemma str_replace_prefix:
  assumes "x \<notin> set q"
  shows "prefix q (str_replace (x # p) (x # r) s) = prefix q s"
  using assms
proof (induction s arbitrary: q)
  case (Cons c s)
  show ?case
  proof (cases q)
    case (Cons d q')
    then have "d \<noteq> x" "x \<notin> set q'" using Cons.prems by auto
    then show ?thesis using Cons \<open>q = d # q'\<close> Cons.IH[of q'] by (auto simp: prefix_def)
  qed simp
qed simp

lemma rfind_sub_last: "p \<noteq> [] \<Longrightarrow> rfind_sub p (s @ p) = Some (length s)"
proof (induction s)
  case Nil
  have "rfind_sub p t = None" if "length t < length p" for t
    using that by (induction t) (auto dest!: prefix_length_le)
  then show ?case using Nil by (cases p) auto
qed simp

lemma is_char_boundary_zero [simp]: "is_char_boundary s 0"
  by (simp add: is_char_boundary_def)

lemma lower_char_fixed: "\<not> is_ascii_lower c \<Longrightarrow> lower_char d = c \<longleftrightarrow> d = c \<and> \<not> is_ascii_upper c"
proof -
  assume c: "\<not> is_ascii_lower c"
  have "ascii_code (lower_char d) = ascii_code d + 32" if "is_ascii_upper d"
    using that by (simp add: lower_char_def is_ascii_upper_def ascii_code_char_of)
  then have "is_ascii_upper d \<Longrightarrow> is_ascii_lower (lower_char d)"
    by (simp add: is_ascii_upper_def is_ascii_lower_def)
  then show ?thesis using c by (auto simp: lower_char_def)
qed

lemma set_str_replace: "set (str_replace p r s) \<subseteq> set s \<union> set r"
proof (induction p r s rule: str_replace.induct)
  case (2 p r c s)
  then show ?case using set_drop_subset[of "length p" "c # s"] by auto
qed simp

lemma str_chars_Cons2:
  "str_chars (c # d # s) =
     (if is_continuation_byte d then (case str_chars (d # s) of w # ws \<Rightarrow> (c # w) # ws | [] \<Rightarrow> [[c]])
      else [c] # str_chars (d # s))"
  by simp

lemma concat_str_chars: "concat (str_chars s) = s"
proof (induction s rule: induct_list012)
  case (3 c d s)
  then show ?case
    by (cases "str_chars (d # s)") (simp_all add: str_chars_Cons2 del: str_chars.simps)
qed simp_all

lemma set_take_chars: "set (concat (take n (str_chars s))) \<subseteq> set s"
proof -
  have "set (concat (take n (str_chars s))) \<subseteq> set (concat (str_chars s))"
    using set_take_subset[of n "str_chars s"] by auto
  then show ?thesis by (simp add: concat_str_chars)
qed

end
