(* ===== verification/Llm_Types.thy ===== *)
theory Llm_Types
  imports String_Edit Json
begin

text \<open>
  The messages, requests and errors of \<open>src/llm/provider.rs\<close> and \<open>src/llm/error.rs\<close>, the
  generator of tool-call ids, the repair of orphaned tool results before a request, and
  \<open>truncate_preview\<close> of \<open>crates/ironclaw_common/src/util.rs\<close>.
\<close>

section \<open>Data\<close>

datatype role = System | User | Assistant | Tool

record image_url =
  iu_url :: string
  iu_detail :: "string option"

datatype content_part = TextPart string | ImageUrlPart image_url

record tool_call =
  tc_id :: string
  tc_name :: string
  tc_arguments :: json
  tc_reasoning :: "string option"

record chat_message =
  cm_role :: role
  cm_content :: string
  cm_content_parts :: "content_part list"
  cm_tool_call_id :: "string option"
  cm_name :: "string option"
  cm_tool_calls :: "tool_call list option"

definition msg_system :: "string \<Rightarrow> chat_message" where
  "msg_system content = \<lparr>cm_role = System, cm_content = content, cm_content_parts = [],
     cm_tool_call_id = None, cm_name = None, cm_tool_calls = None\<rparr>"

definition msg_user :: "string \<Rightarrow> chat_message" where
  "msg_user content = \<lparr>cm_role = User, cm_content = content, cm_content_parts = [],
     cm_tool_call_id = None, cm_name = None, cm_tool_calls = None\<rparr>"

definition msg_user_with_parts :: "string \<Rightarrow> content_part list \<Rightarrow> chat_message" where
  "msg_user_with_parts content parts = \<lparr>cm_role = User, cm_content = content,
     cm_content_parts = parts, cm_tool_call_id = None, cm_name = None, cm_tool_calls = None\<rparr>"

definition msg_assistant :: "string \<Rightarrow> chat_message" where
  "msg_assistant content = \<lparr>cm_role = Assistant, cm_content = content, cm_content_parts = [],
     cm_tool_call_id = None, cm_name = None, cm_tool_calls = None\<rparr>"

definition msg_assistant_with_tool_calls :: "string option \<Rightarrow> tool_call list \<Rightarrow> chat_message" where
  "msg_assistant_with_tool_calls content calls = \<lparr>cm_role = Assistant,
     cm_content = (case content of Some s \<Rightarrow> s | None \<Rightarrow> []), cm_content_parts = [],
     cm_tool_call_id = None, cm_name = None,
     cm_tool_calls = (if calls = [] then None else Some calls)\<rparr>"

definition msg_tool_result :: "string \<Rightarrow> string \<Rightarrow> string \<Rightarrow> chat_message" where
  "msg_tool_result call_id name content = \<lparr>cm_role = Tool, cm_content = content,
     cm_content_parts = [], cm_tool_call_id = Some call_id, cm_name = Some name,
     cm_tool_calls = None\<rparr>"

text \<open>A single-precision temperature is kept as its bit pattern.\<close>

record completion_request =
  cr_messages :: "chat_message list"
  cr_model :: "string option"
  cr_max_tokens :: "32 word option"
  cr_temperature :: "32 word option"
  cr_stop_sequences :: "string list option"
  cr_metadata :: "(string \<times> string) list"

definition completion_request_new :: "chat_message list \<Rightarrow> completion_request" where
  "completion_request_new msgs = \<lparr>cr_messages = msgs, cr_model = None, cr_max_tokens = None,
     cr_temperature = None, cr_stop_sequences = None, cr_metadata = []\<rparr>"

datatype finish_reason = Stop | Length | ToolUse | ContentFilter | Unknown

record completion_response =
  cs_content :: string
  cs_input_tokens :: "32 word"
  cs_output_tokens :: "32 word"
  cs_finish_reason :: finish_reason
  cs_cache_read_input_tokens :: "32 word"
  cs_cache_creation_input_tokens :: "32 word"

record tool_definition =
  td_name :: string
  td_description :: string
  td_parameters :: json

text \<open>The payloads of \<open>Http\<close>, \<open>Json\<close> and \<open>Io\<close> are errors of other crates: kept as text.\<close>

datatype llm_error =
    RequestFailed string string
  | RateLimited string "duration option"
  | InvalidResponse string string
  | EmptyResponse string
  | ContextLengthExceeded nat nat
  | ModelNotAvailable string string
  | AuthFailed string
  | SessionExpired string
  | SessionRenewalFailed string string
  | Http string
  | JsonError string
  | Io string

section \<open>Tool-call ids\<close>

definition base62_digit :: "64 word \<Rightarrow> char" where
  "base62_digit d =
     (if d \<le> 9 then char_of (48 + unat d)
      else if d \<le> 35 then char_of (97 + (unat d - 10))
      else char_of (65 + (unat d - 36)))"

text \<open>The loop over the buffer, from its last byte to its first.\<close>

fun base62 :: "nat \<Rightarrow> 64 word \<Rightarrow> string" where
  "base62 0 v = []"
| "base62 (Suc n) v = base62 n (v div 62) @ [base62_digit (v mod 62)]"

definition seed_mix :: "nat \<Rightarrow> nat \<Rightarrow> 64 word" where
  "seed_mix a b = word_of_nat a * 6364136223846793005 + word_of_nat b"

definition generate_tool_call_id :: "nat \<Rightarrow> nat \<Rightarrow> string" where
  "generate_tool_call_id a b = base62 9 (seed_mix a b)"

section \<open>Tool results without a call\<close>

definition known_tool_ids :: "chat_message list \<Rightarrow> string list" where
  "known_tool_ids msgs =
     concat (map (\<lambda>m. if cm_role m = Assistant
                      then (case cm_tool_calls m of Some calls \<Rightarrow> map tc_id calls | None \<Rightarrow> [])
                      else []) msgs)"

definition is_orphaned :: "string list \<Rightarrow> chat_message \<Rightarrow> bool" where
  "is_orphaned known m = (case cm_tool_call_id m of Some i \<Rightarrow> i \<notin> set known | None \<Rightarrow> True)"

definition rewrite_orphan :: "string list \<Rightarrow> chat_message \<Rightarrow> chat_message" where
  "rewrite_orphan known m =
     (if cm_role m \<noteq> Tool then m
      else if is_orphaned known m
      then m\<lparr>cm_role := User,
             cm_content := ''[Tool `'' @ (case cm_name m of Some n \<Rightarrow> n | None \<Rightarrow> ''unknown'') @
                           ''` returned: '' @ cm_content m @ '']'',
             cm_tool_call_id := None, cm_name := None\<rparr>
      else m)"

definition sanitize_tool_messages :: "chat_message list \<Rightarrow> chat_message list" where
  "sanitize_tool_messages msgs = map (rewrite_orphan (known_tool_ids msgs)) msgs"

definition strip_unsupported_completion_params ::
  "string list \<Rightarrow> completion_request \<Rightarrow> completion_request" where
  "strip_unsupported_completion_params unsupported req =
     (if unsupported = [] then req
      else
        (let r1 = (if ''temperature'' \<in> set unsupported then req\<lparr>cr_temperature := None\<rparr> else req);
             r2 = (if ''max_tokens'' \<in> set unsupported then r1\<lparr>cr_max_tokens := None\<rparr> else r1)
         in if ''stop_sequences'' \<in> set unsupported then r2\<lparr>cr_stop_sequences := None\<rparr> else r2))"

section \<open>Truncation at a character boundary\<close>

fun boundary_before :: "string \<Rightarrow> nat \<Rightarrow> nat" where
  "boundary_before s 0 = 0"
| "boundary_before s (Suc i) = (if is_char_boundary s (Suc i) then Suc i else boundary_before s i)"

definition close_tag :: string where
  "close_tag = ''</tool_output>''"

definition truncate_preview :: "string \<Rightarrow> nat \<Rightarrow> string" where
  "truncate_preview s max_bytes =
     (if length s \<le> max_bytes then s
      else
        (let result = take (boundary_before s max_bytes) s @ ''...''
         in if starts_with ''<tool_output'' s \<and> \<not> ends_with close_tag result
            then result @ ''\<newline>'' @ close_tag else result))"

definition ascii_only :: "string \<Rightarrow> bool" where
  "ascii_only s = list_all (\<lambda>c. ascii_code c < 128) s"

section \<open>Lemmas: ids\<close>

lemma length_base62 [simp]: "length (base62 n v) = n"
  by (induction n arbitrary: v) auto

lemma unat_mod62: "unat (v mod 62 :: 64 word) = unat v mod 62"
  by (simp add: unat_mod)

lemma unat_div62: "unat (v div 62 :: 64 word) = unat v div 62"
  by (simp add: unat_div)

lemma base62_digit_alt:
  "unat d < 62 \<Longrightarrow> base62_digit d =
     (if unat d \<le> 9 then char_of (48 + unat d)
      else if unat d \<le> 35 then char_of (87 + unat d) else char_of (29 + unat d))"
  by (simp add: base62_digit_def word_le_nat_alt)

lemma ascii_code_base62:
  "unat d < 62 \<Longrightarrow> ascii_code (base62_digit d) =
     (if unat d \<le> 9 then 48 + unat d else if unat d \<le> 35 then 87 + unat d else 29 + unat d)"
  by (simp add: base62_digit_alt ascii_code_char_of)

lemma base62_digit_alnum: "unat d < 62 \<Longrightarrow> is_ascii_alnum (base62_digit d)"
  by (auto simp: is_ascii_alnum_def is_ascii_alpha_def is_ascii_upper_def is_ascii_lower_def
      is_ascii_digit_def ascii_code_base62 split: if_splits)

lemma base62_digit_inj:
  assumes "unat d < 62" "unat e < 62" "base62_digit d = base62_digit e"
  shows "d = e"
proof -
  have "ascii_code (base62_digit d) = ascii_code (base62_digit e)" using assms(3) by simp
  then have "unat d = unat e"
    using assms(1,2) by (simp add: ascii_code_base62 split: if_splits)
  then show ?thesis by (simp only: unsigned_word_eqI)
qed

lemma base62_alnum: "c \<in> set (base62 n v) \<Longrightarrow> is_ascii_alnum c"
proof (induction n arbitrary: v)
  case 0
  then show ?case by simp
next
  case (Suc n)
  then show ?case by (auto simp: base62_digit_alnum unat_mod62)
qed

lemma mod_mult_cong: "(x::nat) mod (b * m) = b * (x div b mod m) + x mod b"
  by (metis mod_mult2_eq)

lemma base62_inj:
  "base62 n v = base62 n w \<Longrightarrow> unat v mod 62 ^ n = unat w mod 62 ^ n"
proof (induction n arbitrary: v w)
  case 0
  then show ?case by simp
next
  case (Suc n)
  then have hi: "base62 n (v div 62) = base62 n (w div 62)"
    and lo: "base62_digit (v mod 62) = base62_digit (w mod 62)" by auto
  have lt: "unat (v mod 62) < 62" "unat (w mod 62) < 62" by (simp_all add: unat_mod62)
  have "v mod 62 = w mod 62" by (rule base62_digit_inj[OF lt lo])
  then have m: "unat v mod 62 = unat w mod 62"
    using unat_mod62[of v] unat_mod62[of w] by simp
  have d: "unat v div 62 mod 62 ^ n = unat w div 62 mod 62 ^ n"
    using Suc.IH[OF hi] by (simp add: unat_div62)
  show ?case
    using m d mod_mult_cong[of "unat v" 62 "62 ^ n"] mod_mult_cong[of "unat w" 62 "62 ^ n"]
    by simp
qed

lemma unat_seed_mix_shift:
  assumes "b \<le> c" "c < 2 ^ 32"
  shows "unat (seed_mix a c) = unat (seed_mix a b) + (c - b) \<or>
         unat (seed_mix a c) + 2 ^ 64 = unat (seed_mix a b) + (c - b)"
proof -
  have e: "seed_mix a c = seed_mix a b + word_of_nat (c - b)"
    using assms(1) by (simp add: seed_mix_def)
  have n: "unat (word_of_nat (c - b) :: 64 word) = c - b"
    unfolding unat_of_nat by (rule mod_less) (use assms in simp)
  have "unat (seed_mix a c) = (unat (seed_mix a b) + (c - b)) mod 2 ^ 64"
    unfolding e by (simp add: unat_word_ariths n)
  moreover have "unat (seed_mix a b) < 2 ^ 64"
    using unsigned_less[of "seed_mix a b"] by simp
  ultimately show ?thesis
    using assms(2) by (auto simp: mod_if)
qed

lemma mod_shift_neq:
  fixes x d m :: nat
  assumes "0 < d" "d < m"
  shows "(x + d) mod m \<noteq> x mod m"
proof
  assume "(x + d) mod m = x mod m"
  then have "m dvd (x + d) - x" by (metis mod_eq_dvd_iff_nat le_add1)
  then have "m dvd d" by simp
  with assms show False by (auto dest: dvd_imp_le)
qed

lemma generate_tool_call_id_lt:
  assumes "b < c" "c < 2 ^ 32"
  shows "generate_tool_call_id a b \<noteq> generate_tool_call_id a c"
proof
  let ?x = "unat (seed_mix a b)"
  let ?M = "62 ^ 9 :: nat"
  assume "generate_tool_call_id a b = generate_tool_call_id a c"
  then have eq: "?x mod ?M = unat (seed_mix a c) mod ?M"
    unfolding generate_tool_call_id_def by (rule base62_inj)
  consider (stay) "unat (seed_mix a c) = ?x + (c - b)"
    | (wrap) "unat (seed_mix a c) + 2 ^ 64 = ?x + (c - b)"
    using unat_seed_mix_shift[of b c a] assms by auto
  then show False
  proof cases
    case stay
    have "(?x + (c - b)) mod ?M \<noteq> ?x mod ?M"
      using assms by (intro mod_shift_neq) auto
    with eq stay show False by simp
  next
    case wrap
    define y where "y = unat (seed_mix a c)"
    have ylow: "?x = y + (2 ^ 64 - (c - b))" using wrap assms by (simp add: y_def)
    have "2 ^ 64 - (c - b) = ?M * 1362 + (2 ^ 64 - ?M * 1362 - (c - b))"
      using assms by simp
    then have "?x mod ?M = (y + (2 ^ 64 - ?M * 1362 - (c - b))) mod ?M"
      unfolding ylow by (metis add.assoc add.commute mod_mult_self2)
    moreover have "(y + (2 ^ 64 - ?M * 1362 - (c - b))) mod ?M \<noteq> y mod ?M"
      using assms by (intro mod_shift_neq) auto
    ultimately show False using eq by (simp add: y_def)
  qed
qed

lemma generate_tool_call_id_shape:
  "length (generate_tool_call_id a b) = 9 \<and> list_all is_ascii_alnum (generate_tool_call_id a b)"
  by (auto simp: generate_tool_call_id_def list_all_iff dest: base62_alnum)

section \<open>Lemmas: orphaned results\<close>

lemma rewrite_orphan_role:
  "cm_role (rewrite_orphan known m) = Tool \<Longrightarrow>
   cm_role m = Tool \<and> (\<exists>i \<in> set known. cm_tool_call_id (rewrite_orphan known m) = Some i)"
  by (auto simp: rewrite_orphan_def is_orphaned_def split: if_splits option.splits)

lemma message_roles:
  "cm_role (msg_user s) = User" "cm_role (msg_user_with_parts s ps) = User"
  "cm_role (msg_assistant s) = Assistant" "cm_role (msg_system s) = System"
  "cm_role (msg_assistant_with_tool_calls c ts) = Assistant"
  "cm_role (msg_tool_result i n s) = Tool"
  by (simp_all add: msg_user_def msg_user_with_parts_def msg_assistant_def msg_system_def
      msg_assistant_with_tool_calls_def msg_tool_result_def)

lemma tool_result_id: "cm_tool_call_id (msg_tool_result i n c) = Some i"
  by (simp add: msg_tool_result_def)

lemma known_tool_ids_rewrite:
  "known_tool_ids (map (rewrite_orphan known) msgs) = known_tool_ids msgs"
  by (induction msgs) (auto simp: known_tool_ids_def rewrite_orphan_def)

lemma rewrite_orphan_idem: "rewrite_orphan known (rewrite_orphan known m) = rewrite_orphan known m"
  by (auto simp: rewrite_orphan_def)

lemma sanitize_id_if:
  "(\<And>m. m \<in> set msgs \<Longrightarrow> cm_role m = Tool \<Longrightarrow> \<exists>i \<in> set (known_tool_ids msgs). cm_tool_call_id m = Some i) \<Longrightarrow>
   sanitize_tool_messages msgs = msgs"
  unfolding sanitize_tool_messages_def
  by (rule map_idI) (fastforce simp: rewrite_orphan_def is_orphaned_def)

section \<open>Lemmas: truncation\<close>

lemma boundary_before_le: "boundary_before s i \<le> i"
  by (induction i) auto

lemma boundary_before_is: "is_char_boundary s (boundary_before s i)"
  by (induction i) (auto simp: is_char_boundary_def)

lemma boundary_before_id: "is_char_boundary s i \<Longrightarrow> boundary_before s i = i"
  by (cases i) auto

lemma truncate_preview_short: "length s \<le> n \<Longrightarrow> truncate_preview s n = s"
  by (simp add: truncate_preview_def)

lemma truncate_preview_length: "length (truncate_preview s n) \<le> n + 18"
  using boundary_before_le[of s n]
  by (auto simp: truncate_preview_def close_tag_def Let_def)

lemma ascii_boundary: "ascii_only s \<Longrightarrow> i \<le> length s \<Longrightarrow> is_char_boundary s i"
  by (cases "i < length s") (auto simp: ascii_only_def is_char_boundary_def is_continuation_byte_def list_all_length)

lemma truncate_preview_ascii:
  "ascii_only s \<Longrightarrow> n < length s \<Longrightarrow>
   truncate_preview s n =
     (let result = take n s @ ''...''
      in if starts_with ''<tool_output'' s \<and> \<not> ends_with close_tag result
         then result @ ''\<newline>'' @ close_tag else result)"
  by (simp add: truncate_preview_def boundary_before_id ascii_boundary)

lemma prefix_iff_take: "prefix p s \<longleftrightarrow> take (length p) s = p"
  by (auto simp: prefix_def) (metis append_take_drop_id)

lemma prefix_take_append: "length p \<le> n \<Longrightarrow> n \<le> length s \<Longrightarrow> prefix p (take n s @ t) = prefix p s"
  by (simp add: prefix_iff_take min_def)

lemma truncate_preview_idem:
  assumes "ascii_only s" "12 \<le> n"
  shows "truncate_preview (truncate_preview s n) n = truncate_preview s n"
proof (cases "length s \<le> n")
  case True
  then show ?thesis by (simp add: truncate_preview_short)
next
  case False
  obtain t where t: "truncate_preview s n = take n s @ ''...'' @ t"
      "t = (if starts_with ''<tool_output'' s \<and> \<not> ends_with close_tag (take n s @ ''...'')
            then ''\<newline>'' @ close_tag else [])"
    using False assms(1) by (simp add: truncate_preview_ascii Let_def)
  have a: "ascii_only (truncate_preview s n)"
    using assms(1) by (auto simp: t ascii_only_def list_all_iff ascii_code_def close_tag_def dest: in_set_takeD)
  have l: "n < length (truncate_preview s n)" using False by (simp add: t(1))
  have p: "starts_with ''<tool_output'' (truncate_preview s n) = starts_with ''<tool_output'' s"
    using False assms(2) by (simp add: t(1) starts_with_def prefix_take_append)
  have k: "take n (truncate_preview s n) = take n s" using False by (simp add: t(1))
  show ?thesis
    unfolding truncate_preview_ascii[OF a l] p k
    using False by (simp add: truncate_preview_ascii[OF assms(1), of n])
qed

section \<open>Properties\<close>

text \<open>
  A generated tool-call id is nine ASCII letters and digits, and two ids of the same turn whose
  second seeds differ (below \<open>2 ^ 32\<close>) differ, although the seed is mixed with wrap-around and the
  nine digits hold fewer values than 64 bits.
\<close>

theorem tool_call_ids_distinct:
  assumes "b \<noteq> c" "b < 2 ^ 32" "c < 2 ^ 32"
  shows "length (generate_tool_call_id a b) = 9 \<and>
    list_all is_ascii_alnum (generate_tool_call_id a b) \<and>
    generate_tool_call_id a b \<noteq> generate_tool_call_id a c"
  using generate_tool_call_id_shape[of a b] generate_tool_call_id_lt[of b c a]
    generate_tool_call_id_lt[of c b a] assms
  by (metis linorder_neq_iff)

theorem tool_call_ids_distinct_witness:
  "generate_tool_call_id 1 2 \<noteq> generate_tool_call_id 1 3"
  using tool_call_ids_distinct[of 2 3 1] by simp

text \<open>
  After the repair every tool result in the message list answers a tool call of an assistant
  message in it, the number of messages is unchanged, messages of other roles are untouched, and a
  second repair changes nothing.
\<close>

theorem sanitize_tool_messages_spec:
  "length (sanitize_tool_messages msgs) = length msgs \<and>
   (\<forall>m \<in> set (sanitize_tool_messages msgs). cm_role m = Tool \<longrightarrow>
      (\<exists>i \<in> set (known_tool_ids (sanitize_tool_messages msgs)). cm_tool_call_id m = Some i)) \<and>
   (\<forall>k < length msgs. cm_role (msgs ! k) \<noteq> Tool \<longrightarrow> sanitize_tool_messages msgs ! k = msgs ! k) \<and>
   sanitize_tool_messages (sanitize_tool_messages msgs) = sanitize_tool_messages msgs"
proof -
  have "\<exists>i \<in> set (known_tool_ids msgs). cm_tool_call_id m = Some i"
    if "m \<in> set (sanitize_tool_messages msgs)" "cm_role m = Tool" for m
    using that rewrite_orphan_role by (force simp: sanitize_tool_messages_def)
  then show ?thesis
    by (auto simp: sanitize_tool_messages_def known_tool_ids_rewrite rewrite_orphan_idem)
      (simp add: rewrite_orphan_def)
qed

theorem sanitize_tool_messages_spec_witness:
  "sanitize_tool_messages [msg_user ''q'', msg_tool_result ''id'' ''sh'' ''ok''] ! 0 = msg_user ''q''"
  using sanitize_tool_messages_spec[of "[msg_user ''q'', msg_tool_result ''id'' ''sh'' ''ok'']"]
  by (auto simp: msg_user_def dest: spec[of _ 0])

end
