(* ===== verification/Job_Memory.thy ===== *)
theory Job_Memory
  imports Llm_Types
begin

text \<open>
  The memory of a job, \<open>src/context/memory.rs\<close>: action records, the bounded conversation with its
  protected system message, and the numbering of actions. \<open>serde_json::to_string_pretty\<close> is the
  parameter \<open>pretty\<close>, an option because it may fail.
\<close>

section \<open>Action records\<close>

record 'd action_record =
  ar_id :: uuid
  ar_sequence :: "32 word"
  ar_tool_name :: string
  ar_input :: json
  ar_output_raw :: "string option"
  ar_output_sanitized :: "json option"
  ar_sanitization_warnings :: "string list"
  ar_cost :: "'d option"
  ar_duration :: duration
  ar_success :: bool
  ar_error :: "string option"
  ar_executed_at :: utc

definition action_record_new ::
  "uuid \<Rightarrow> utc \<Rightarrow> 32 word \<Rightarrow> string \<Rightarrow> json \<Rightarrow> 'd action_record" where
  "action_record_new new_id now sequence tool_name input =
     \<lparr> ar_id = new_id, ar_sequence = sequence, ar_tool_name = tool_name, ar_input = input,
       ar_output_raw = None, ar_output_sanitized = None, ar_sanitization_warnings = [],
       ar_cost = None, ar_duration = 0, ar_success = False, ar_error = None,
       ar_executed_at = now \<rparr>"

definition action_succeed ::
  "(json \<Rightarrow> string option) \<Rightarrow> string option \<Rightarrow> json \<Rightarrow> duration \<Rightarrow> 'd action_record \<Rightarrow> 'd action_record"
where
  "action_succeed pretty output_sanitized output_raw d a =
     a\<lparr> ar_success := True,
        ar_output_raw := Some (case pretty output_raw of Some s \<Rightarrow> s | None \<Rightarrow> []),
        ar_output_sanitized := map_option JString output_sanitized,
        ar_duration := d \<rparr>"

definition action_fail :: "string \<Rightarrow> duration \<Rightarrow> 'd action_record \<Rightarrow> 'd action_record" where
  "action_fail err d a = a\<lparr>ar_success := False, ar_error := Some err, ar_duration := d\<rparr>"

definition with_warnings :: "string list \<Rightarrow> 'd action_record \<Rightarrow> 'd action_record" where
  "with_warnings ws a = a\<lparr>ar_sanitization_warnings := ws\<rparr>"

definition with_cost :: "'d \<Rightarrow> 'd action_record \<Rightarrow> 'd action_record" where
  "with_cost cost a = a\<lparr>ar_cost := Some cost\<rparr>"

section \<open>The conversation\<close>

record conversation_memory =
  cv_messages :: "chat_message list"
  cv_max_messages :: nat

definition conversation_new :: "nat \<Rightarrow> conversation_memory" where
  "conversation_new n = \<lparr>cv_messages = [], cv_max_messages = n\<rparr>"

text \<open>The \<open>while\<close> loop of \<open>add\<close>.\<close>

fun trim_messages :: "nat \<Rightarrow> chat_message list \<Rightarrow> chat_message list" where
  "trim_messages n [] = []"
| "trim_messages n [m] =
     (if 1 \<le> n then [m] else if cm_role m = System then [m] else [])"
| "trim_messages n (m # m' # ms) =
     (if Suc (Suc (length ms)) \<le> n then m # m' # ms
      else if cm_role m = System then trim_messages n (m # ms)
      else trim_messages n (m' # ms))"

definition conversation_add :: "chat_message \<Rightarrow> conversation_memory \<Rightarrow> conversation_memory" where
  "conversation_add m cv =
     cv\<lparr>cv_messages := trim_messages (cv_max_messages cv) (cv_messages cv @ [m])\<rparr>"

definition last_n :: "nat \<Rightarrow> conversation_memory \<Rightarrow> chat_message list" where
  "last_n n cv = (let start = length (cv_messages cv) - n in drop start (cv_messages cv))"

definition conversation_clear :: "conversation_memory \<Rightarrow> conversation_memory" where
  "conversation_clear cv = cv\<lparr>cv_messages := []\<rparr>"

definition conversation_len :: "conversation_memory \<Rightarrow> nat" where
  "conversation_len cv = length (cv_messages cv)"

definition conversation_is_empty :: "conversation_memory \<Rightarrow> bool" where
  "conversation_is_empty cv = (cv_messages cv = [])"

section \<open>The memory\<close>

record 'd memory =
  mem_job_id :: uuid
  mem_conversation :: conversation_memory
  mem_actions :: "'d action_record list"
  mem_next_sequence :: "32 word"

definition memory_new :: "uuid \<Rightarrow> 'd memory" where
  "memory_new job_id = \<lparr>mem_job_id = job_id, mem_conversation = conversation_new 100,
     mem_actions = [], mem_next_sequence = 0\<rparr>"

definition add_message :: "chat_message \<Rightarrow> 'd memory \<Rightarrow> 'd memory" where
  "add_message m mem = mem\<lparr>mem_conversation := conversation_add m (mem_conversation mem)\<rparr>"

definition create_action ::
  "uuid \<Rightarrow> utc \<Rightarrow> string \<Rightarrow> json \<Rightarrow> 'd memory \<Rightarrow> 'd action_record \<times> 'd memory" where
  "create_action new_id now tool_name input mem =
     (action_record_new new_id now (mem_next_sequence mem) tool_name input,
      mem\<lparr>mem_next_sequence := mem_next_sequence mem + 1\<rparr>)"

definition record_action :: "'d action_record \<Rightarrow> 'd memory \<Rightarrow> 'd memory" where
  "record_action a mem = mem\<lparr>mem_actions := mem_actions mem @ [a]\<rparr>"

definition total_cost :: "'d::{zero,plus} memory \<Rightarrow> 'd" where
  "total_cost mem = foldl (+) 0 (List.map_filter ar_cost (mem_actions mem))"

definition total_duration :: "'d memory \<Rightarrow> duration" where
  "total_duration mem = foldl (+) 0 (map ar_duration (mem_actions mem))"

definition successful_actions :: "'d memory \<Rightarrow> nat" where
  "successful_actions mem = length (filter ar_success (mem_actions mem))"

definition failed_actions :: "'d memory \<Rightarrow> nat" where
  "failed_actions mem = length (filter (\<lambda>a. \<not> ar_success a) (mem_actions mem))"

definition last_action :: "'d memory \<Rightarrow> 'd action_record option" where
  "last_action mem = (if mem_actions mem = [] then None else Some (last (mem_actions mem)))"

definition actions_by_tool :: "string \<Rightarrow> 'd memory \<Rightarrow> 'd action_record list" where
  "actions_by_tool name mem = filter (\<lambda>a. ar_tool_name a = name) (mem_actions mem)"

text \<open>One change of a memory through \<open>update_memory\<close>.\<close>

datatype 'd memory_op =
    AddMessage chat_message
  | CreateAction uuid utc string json
  | RecordAction "'d action_record"

fun memory_perform :: "'d memory_op \<Rightarrow> 'd memory \<Rightarrow> 'd memory" where
  "memory_perform (AddMessage m) mem = add_message m mem"
| "memory_perform (CreateAction i now tool_nm input) mem = snd (create_action i now tool_nm input mem)"
| "memory_perform (RecordAction a) mem = record_action a mem"

definition conversation_inv :: "conversation_memory \<Rightarrow> bool" where
  "conversation_inv cv = (length (cv_messages cv) \<le> max 1 (cv_max_messages cv))"

section \<open>The trimmed conversation\<close>

lemma trim_messages_short: "length ms \<le> n \<Longrightarrow> trim_messages n ms = ms"
  by (cases "(n, ms)" rule: trim_messages.cases) auto

lemma length_trim_messages: "length (trim_messages n ms) \<le> max 1 n"
  by (induction n ms rule: trim_messages.induct) auto

lemma trim_messages_room:
  "0 < n \<Longrightarrow> n \<le> length ms \<Longrightarrow> length (trim_messages n ms) = n"
proof (induction n ms rule: trim_messages.induct)
  case (3 n m m' ms)
  show ?case
  proof (cases "Suc (Suc (length ms)) \<le> n")
    case True
    with 3 show ?thesis by simp
  next
    case False
    with 3 show ?thesis by auto
  qed
qed auto

lemma subseq_trim_messages: "subseq (trim_messages n ms) ms"
proof (induction n ms rule: trim_messages.induct)
  case (3 n m m' ms)
  have "subseq (m # ms) (m # m' # ms)" "subseq (m' # ms) (m # m' # ms)" by auto
  with 3 show ?case by (auto intro: subseq_order.trans)
qed auto

lemma trim_keeps_system:
  "cm_role m = System \<Longrightarrow> \<exists>ms'. trim_messages n (m # ms) = m # ms'"
  by (induction ms) auto

lemma trim_keeps_last:
  assumes "2 \<le> n" "ms \<noteq> []"
  shows "trim_messages n ms \<noteq> [] \<and> last (trim_messages n ms) = last ms"
  using assms
proof (induction n ms rule: trim_messages.induct)
  case (3 n m m' ms)
  show ?case
  proof (cases "Suc (Suc (length ms)) \<le> n")
    case True
    then show ?thesis by simp
  next
    case False
    with 3 have "ms \<noteq> []" by auto
    with 3 False show ?thesis by auto
  qed
qed auto

text \<open>With the system message in front, the loop keeps it and the newest of the others.\<close>

lemma trim_with_system:
  "cm_role m = System \<Longrightarrow> trim_messages n (m # ms) = m # keep_last (n - 1) ms"
proof (induction ms)
  case Nil
  then show ?case by simp
next
  case (Cons a ms)
  show ?case
  proof (cases "Suc (Suc (length ms)) \<le> n")
    case True
    then show ?thesis by simp
  next
    case False
    with Cons show ?thesis by (auto simp: keep_last_def Suc_diff_le)
  qed
qed

lemma trim_without_system:
  "list_all (\<lambda>m. cm_role m \<noteq> System) ms \<Longrightarrow> trim_messages n ms = keep_last n ms"
proof (induction n ms rule: trim_messages.induct)
  case (3 n m m' ms)
  then show ?case by (auto simp: keep_last_def Suc_diff_le)
qed (auto simp: keep_last_def)

lemma conversation_inv_add: "conversation_inv (conversation_add m cv)"
  using length_trim_messages by (simp add: conversation_inv_def conversation_add_def)

lemma memory_conversation_inv:
  "conversation_inv (mem_conversation mem) \<Longrightarrow>
   conversation_inv (mem_conversation (memory_perform op mem))"
  by (cases op) (auto simp: add_message_def create_action_def record_action_def conversation_inv_add)

interpretation conv: op_invariant memory_perform "\<lambda>mem. conversation_inv (mem_conversation mem)"
  by unfold_locales (rule memory_conversation_inv)

lemma memory_perform_id [simp]: "mem_job_id (memory_perform op mem) = mem_job_id mem"
  by (cases op) (auto simp: add_message_def create_action_def record_action_def)

lemma memory_run_id [simp]: "mem_job_id (fold memory_perform ops mem) = mem_job_id mem"
  by (induction ops arbitrary: mem) auto

lemma actions_partition: "successful_actions mem + failed_actions mem = length (mem_actions mem)"
  by (simp add: successful_actions_def failed_actions_def sum_length_filter_compl)

section \<open>Numbering\<close>

text \<open>The actions created by a run of \<open>create_action\<close> calls, in order.\<close>

fun create_actions ::
  "(uuid \<times> utc \<times> string \<times> json) list \<Rightarrow> 'd memory \<Rightarrow> 'd action_record list \<times> 'd memory" where
  "create_actions [] mem = ([], mem)"
| "create_actions ((i, now, t, x) # cs) mem =
     (let (a, mem1) = create_action i now t x mem; (as, mem2) = create_actions cs mem1
      in (a # as, mem2))"

lemma create_actions_sequence:
  "map ar_sequence (fst (create_actions cs mem)) =
     map (\<lambda>i. mem_next_sequence mem + word_of_nat i) [0..<length cs]"
proof (induction cs arbitrary: mem)
  case Nil
  then show ?case by simp
next
  case (Cons c cs)
  obtain i now t x where c: "c = (i, now, t, x)" by (cases c) auto
  have up: "[0..<Suc (length cs)] = 0 # map Suc [0..<length cs]"
    by (simp add: map_Suc_upt upt_conv_Cons del: upt_Suc)
  show ?case
    using Cons.IH[of "snd (create_action i now t x mem)"]
    by (simp add: c up case_prod_unfold Let_def create_action_def action_record_new_def
        comp_def algebra_simps del: upt_Suc)
qed

lemma word_of_nat_inj_on: "inj_on (\<lambda>i. a + word_of_nat i :: 32 word) {..<2 ^ 32}"
proof (rule inj_onI)
  fix i j :: nat
  assume ij: "i \<in> {..<2 ^ 32}" "j \<in> {..<2 ^ 32}"
    and "a + word_of_nat i = (a + word_of_nat j :: 32 word)"
  then have "unat (word_of_nat i :: 32 word) = unat (word_of_nat j :: 32 word)" by simp
  with ij show "i = j" by (simp add: unat_of_nat)
qed

lemma create_actions_distinct:
  assumes "length cs \<le> 2 ^ 32"
  shows "distinct (map ar_sequence (fst (create_actions cs mem)))"
proof -
  have "inj_on (\<lambda>i. mem_next_sequence mem + word_of_nat i) (set [0..<length cs])"
    using assms by (intro inj_on_subset[OF word_of_nat_inj_on]) auto
  then show ?thesis unfolding create_actions_sequence distinct_map by simp
qed

section \<open>Properties\<close>

text \<open>
  Adding a message keeps the conversation within its bound (a single system message apart, which
  is never dropped), drops messages without reordering the others, keeps a leading system message,
  and keeps the new message whenever the bound leaves room for two.
\<close>

theorem conversation_add_spec:
  "length (cv_messages (conversation_add m cv)) \<le> max 1 (cv_max_messages cv) \<and>
   subseq (cv_messages (conversation_add m cv)) (cv_messages cv @ [m]) \<and>
   (\<forall>s ms. cv_messages cv = s # ms \<and> cm_role s = System \<longrightarrow>
      cv_messages (conversation_add m cv) = s # keep_last (cv_max_messages cv - 1) (ms @ [m])) \<and>
   (2 \<le> cv_max_messages cv \<longrightarrow> last (cv_messages (conversation_add m cv)) = m)"
  using length_trim_messages[of "cv_max_messages cv" "cv_messages cv @ [m]"]
    trim_keeps_last[of "cv_max_messages cv" "cv_messages cv @ [m]"]
  by (auto simp: conversation_add_def subseq_trim_messages trim_with_system)

theorem conversation_add_spec_witness:
  "cv_messages (conversation_add (msg_user ''b'')
     \<lparr>cv_messages = [msg_system ''s'', msg_user ''a''], cv_max_messages = 2\<rparr>) =
   [msg_system ''s'', msg_user ''b'']"
  using conversation_add_spec[of "msg_user ''b''"
      "\<lparr>cv_messages = [msg_system ''s'', msg_user ''a''], cv_max_messages = 2\<rparr>"]
  by (simp add: msg_system_def keep_last_def)

text \<open>
  The actions a job creates carry consecutive sequence numbers from the next one on, and the
  numbers are distinct as long as at most \<open>2 ^ 32\<close> actions are created.
\<close>

theorem action_sequence_numbers:
  "map ar_sequence (fst (create_actions cs mem)) =
     map (\<lambda>i. mem_next_sequence mem + word_of_nat i) [0..<length cs] \<and>
   (length cs \<le> 2 ^ 32 \<longrightarrow> distinct (map ar_sequence (fst (create_actions cs mem))))"
  using create_actions_sequence create_actions_distinct by blast

theorem action_sequence_numbers_witness:
  "distinct (map ar_sequence (fst (create_actions [(1, 0, ''a'', JNull), (2, 0, ''b'', JNull)]
     (memory_new 5 :: nat memory))))"
  using action_sequence_numbers[of "[(1, 0, ''a'', JNull), (2, 0, ''b'', JNull)]" "memory_new 5 :: nat memory"]
  by simp

end
