(* ===== verification/Context_Manager.thy ===== *)
theory Context_Manager
  imports Job_State Job_Memory
begin

text \<open>
  The manager of job contexts, \<open>src/context/manager.rs\<close>: two hash maps, each behind its own lock,
  and a bound on the jobs that take a slot. An operation that takes both locks takes them one after
  the other, so it is modelled as two phases; the sequential operation is their composition, and the
  step relation at the end interleaves the phases of concurrent calls.
\<close>

section \<open>Errors and state\<close>

datatype job_error =
    NotFound uuid
  | InvalidTransition uuid string string
  | JobFailed uuid string
  | JobStuck uuid duration
  | MaxJobsExceeded nat
  | ContextError uuid string

record 'd context_manager =
  mgr_contexts :: "(uuid \<times> 'd job_context) list"
  mgr_memories :: "(uuid \<times> 'd memory) list"
  mgr_max_jobs :: nat

definition context_manager_new :: "nat \<Rightarrow> 'd context_manager" where
  "context_manager_new max_jobs = \<lparr>mgr_contexts = [], mgr_memories = [], mgr_max_jobs = max_jobs\<rparr>"

definition context_manager_default :: "'d context_manager" where
  "context_manager_default = context_manager_new 10"

section \<open>Creating and removing jobs\<close>

definition parallel_count :: "(uuid \<times> 'd job_context) list \<Rightarrow> nat" where
  "parallel_count contexts = count_entries (\<lambda>c. is_parallel_blocking (jc_state c)) contexts"

text \<open>\<open>insert_context\<close>: under the lock of the contexts, then under the lock of the memories.\<close>

definition insert_checked ::
  "'d job_context \<Rightarrow> 'd context_manager \<Rightarrow> (job_error, uuid) result \<times> 'd context_manager" where
  "insert_checked c s =
     (if parallel_count (mgr_contexts s) \<ge> mgr_max_jobs s
      then (Inl (MaxJobsExceeded (mgr_max_jobs s)), s)
      else (Inr (jc_job_id c), s\<lparr>mgr_contexts := hm_put (jc_job_id c) c (mgr_contexts s)\<rparr>))"

definition allocate_memory :: "uuid \<Rightarrow> 'd context_manager \<Rightarrow> 'd context_manager" where
  "allocate_memory job_id s = s\<lparr>mgr_memories := hm_put job_id (memory_new job_id) (mgr_memories s)\<rparr>"

definition insert_context ::
  "'d job_context \<Rightarrow> 'd context_manager \<Rightarrow> (job_error, unit) result \<times> 'd context_manager" where
  "insert_context c s =
     (case insert_checked c s of
        (Inl e, s') \<Rightarrow> (Inl e, s')
      | (Inr job_id, s') \<Rightarrow> (Inr (), allocate_memory job_id s'))"

definition create_job_for_user ::
  "uuid \<Rightarrow> utc \<Rightarrow> string \<Rightarrow> string \<Rightarrow> string \<Rightarrow> 'd::zero context_manager \<Rightarrow>
   (job_error, uuid) result \<times> 'd context_manager" where
  "create_job_for_user new_id now user_id title description s =
     (let c = with_user new_id now user_id title description
      in (case insert_context c s of
            (Inl e, s') \<Rightarrow> (Inl e, s')
          | (Inr _, s') \<Rightarrow> (Inr (jc_job_id c), s')))"

definition create_job ::
  "uuid \<Rightarrow> utc \<Rightarrow> string \<Rightarrow> string \<Rightarrow> 'd::zero context_manager \<Rightarrow>
   (job_error, uuid) result \<times> 'd context_manager" where
  "create_job new_id now title description s =
     create_job_for_user new_id now ''default'' title description s"

definition sandbox_context ::
  "uuid \<Rightarrow> uuid \<Rightarrow> utc \<Rightarrow> string \<Rightarrow> string \<Rightarrow> string \<Rightarrow> 'd::zero job_context" where
  "sandbox_context job_id new_id now user_id title description =
     (with_user new_id now user_id title description)
       \<lparr>jc_job_id := job_id, jc_state := InProgress, jc_started_at := Some now\<rparr>"

definition register_sandbox_job ::
  "uuid \<Rightarrow> uuid \<Rightarrow> utc \<Rightarrow> string \<Rightarrow> string \<Rightarrow> string \<Rightarrow> 'd::zero context_manager \<Rightarrow>
   (job_error, unit) result \<times> 'd context_manager" where
  "register_sandbox_job job_id new_id now user_id title description s =
     insert_context (sandbox_context job_id new_id now user_id title description) s"

text \<open>\<open>remove_job\<close>, in the same two phases.\<close>

definition remove_from_contexts ::
  "uuid \<Rightarrow> 'd context_manager \<Rightarrow> (job_error, 'd job_context) result \<times> 'd context_manager" where
  "remove_from_contexts job_id s =
     (case hm_get (mgr_contexts s) job_id of
        None \<Rightarrow> (Inl (NotFound job_id), s)
      | Some c \<Rightarrow> (Inr c, s\<lparr>mgr_contexts := hm_del job_id (mgr_contexts s)\<rparr>))"

definition remove_from_memories ::
  "uuid \<Rightarrow> 'd context_manager \<Rightarrow> (job_error, 'd memory) result \<times> 'd context_manager" where
  "remove_from_memories job_id s =
     (case hm_get (mgr_memories s) job_id of
        None \<Rightarrow> (Inl (NotFound job_id), s)
      | Some m \<Rightarrow> (Inr m, s\<lparr>mgr_memories := hm_del job_id (mgr_memories s)\<rparr>))"

definition remove_job ::
  "uuid \<Rightarrow> 'd context_manager \<Rightarrow>
   (job_error, 'd job_context \<times> 'd memory) result \<times> 'd context_manager" where
  "remove_job job_id s =
     (case remove_from_contexts job_id s of
        (Inl e, s1) \<Rightarrow> (Inl e, s1)
      | (Inr c, s1) \<Rightarrow>
          (case remove_from_memories job_id s1 of
             (Inl e, s2) \<Rightarrow> (Inl e, s2)
           | (Inr m, s2) \<Rightarrow> (Inr (c, m), s2)))"

section \<open>Reading and updating\<close>

definition get_context :: "uuid \<Rightarrow> 'd context_manager \<Rightarrow> (job_error, 'd job_context) result" where
  "get_context job_id s =
     (case hm_get (mgr_contexts s) job_id of Some c \<Rightarrow> Inr c | None \<Rightarrow> Inl (NotFound job_id))"

definition update_context ::
  "uuid \<Rightarrow> ('d job_context \<Rightarrow> 'r \<times> 'd job_context) \<Rightarrow> 'd context_manager \<Rightarrow>
   (job_error, 'r) result \<times> 'd context_manager" where
  "update_context job_id f s =
     (case hm_get (mgr_contexts s) job_id of
        None \<Rightarrow> (Inl (NotFound job_id), s)
      | Some c \<Rightarrow> (let (r, c') = f c
                   in (Inr r, s\<lparr>mgr_contexts := hm_put job_id c' (mgr_contexts s)\<rparr>)))"

definition update_context_and_get ::
  "uuid \<Rightarrow> ('d job_context \<Rightarrow> 'd job_context) \<Rightarrow> 'd context_manager \<Rightarrow>
   (job_error, 'd job_context) result \<times> 'd context_manager" where
  "update_context_and_get job_id f s =
     (case hm_get (mgr_contexts s) job_id of
        None \<Rightarrow> (Inl (NotFound job_id), s)
      | Some c \<Rightarrow> (Inr (f c), s\<lparr>mgr_contexts := hm_put job_id (f c) (mgr_contexts s)\<rparr>))"

definition get_memory :: "uuid \<Rightarrow> 'd context_manager \<Rightarrow> (job_error, 'd memory) result" where
  "get_memory job_id s =
     (case hm_get (mgr_memories s) job_id of Some m \<Rightarrow> Inr m | None \<Rightarrow> Inl (NotFound job_id))"

definition update_memory ::
  "uuid \<Rightarrow> ('d memory \<Rightarrow> 'r \<times> 'd memory) \<Rightarrow> 'd context_manager \<Rightarrow>
   (job_error, 'r) result \<times> 'd context_manager" where
  "update_memory job_id f s =
     (case hm_get (mgr_memories s) job_id of
        None \<Rightarrow> (Inl (NotFound job_id), s)
      | Some m \<Rightarrow> (let (r, m') = f m
                   in (Inr r, s\<lparr>mgr_memories := hm_put job_id m' (mgr_memories s)\<rparr>)))"

section \<open>Queries\<close>

definition select_jobs :: "('d job_context \<Rightarrow> bool) \<Rightarrow> 'd context_manager \<Rightarrow> uuid list" where
  "select_jobs P s = map fst (filter (\<lambda>(i, c). P c) (mgr_contexts s))"

definition active_jobs :: "'d context_manager \<Rightarrow> uuid list" where
  "active_jobs s = select_jobs (\<lambda>c. is_active (jc_state c)) s"

definition all_jobs :: "'d context_manager \<Rightarrow> uuid list" where
  "all_jobs s = map fst (mgr_contexts s)"

definition active_jobs_for :: "string \<Rightarrow> 'd context_manager \<Rightarrow> uuid list" where
  "active_jobs_for user s = select_jobs (\<lambda>c. jc_user_id c = user \<and> is_active (jc_state c)) s"

definition parallel_blocking_count_for :: "string \<Rightarrow> 'd context_manager \<Rightarrow> nat" where
  "parallel_blocking_count_for user s =
     count_entries (\<lambda>c. jc_user_id c = user \<and> is_parallel_blocking (jc_state c)) (mgr_contexts s)"

definition all_jobs_for :: "string \<Rightarrow> 'd context_manager \<Rightarrow> uuid list" where
  "all_jobs_for user s = select_jobs (\<lambda>c. jc_user_id c = user) s"

definition active_count :: "'d context_manager \<Rightarrow> nat" where
  "active_count s = count_entries (\<lambda>c. is_active (jc_state c)) (mgr_contexts s)"

text \<open>The threshold is \<open>Duration::as_secs\<close> of the argument: whole seconds.\<close>

definition looks_stuck :: "utc \<Rightarrow> nat option \<Rightarrow> 'd job_context \<Rightarrow> bool" where
  "looks_stuck now threshold c =
     (if jc_state c = Stuck then True
      else (case (threshold, jc_started_at c) of
              (Some th, Some started) \<Rightarrow> jc_state c = InProgress \<and> seconds_between started now > th
            | _ \<Rightarrow> False))"

definition find_stuck_jobs_with_threshold ::
  "utc \<Rightarrow> nat option \<Rightarrow> 'd context_manager \<Rightarrow> uuid list" where
  "find_stuck_jobs_with_threshold now threshold s = select_jobs (looks_stuck now threshold) s"

definition find_stuck_jobs :: "utc \<Rightarrow> 'd context_manager \<Rightarrow> uuid list" where
  "find_stuck_jobs now s = find_stuck_jobs_with_threshold now None s"

record context_summary =
  sm_total :: nat
  sm_pending :: nat
  sm_in_progress :: nat
  sm_completed :: nat
  sm_submitted :: nat
  sm_accepted :: nat
  sm_failed :: nat
  sm_stuck :: nat
  sm_cancelled :: nat

definition summary_default :: context_summary where
  "summary_default = \<lparr>sm_total = 0, sm_pending = 0, sm_in_progress = 0, sm_completed = 0,
     sm_submitted = 0, sm_accepted = 0, sm_failed = 0, sm_stuck = 0, sm_cancelled = 0\<rparr>"

fun summary_count :: "job_state \<Rightarrow> context_summary \<Rightarrow> context_summary" where
  "summary_count Pending m = m\<lparr>sm_pending := sm_pending m + 1\<rparr>"
| "summary_count InProgress m = m\<lparr>sm_in_progress := sm_in_progress m + 1\<rparr>"
| "summary_count Completed m = m\<lparr>sm_completed := sm_completed m + 1\<rparr>"
| "summary_count Submitted m = m\<lparr>sm_submitted := sm_submitted m + 1\<rparr>"
| "summary_count Accepted m = m\<lparr>sm_accepted := sm_accepted m + 1\<rparr>"
| "summary_count Failed m = m\<lparr>sm_failed := sm_failed m + 1\<rparr>"
| "summary_count Stuck m = m\<lparr>sm_stuck := sm_stuck m + 1\<rparr>"
| "summary_count Cancelled m = m\<lparr>sm_cancelled := sm_cancelled m + 1\<rparr>"

definition tally :: "'d job_context list \<Rightarrow> context_summary" where
  "tally cs = fold (\<lambda>c. summary_count (jc_state c)) cs summary_default"

definition summary :: "'d context_manager \<Rightarrow> context_summary" where
  "summary s = (tally (map snd (mgr_contexts s)))\<lparr>sm_total := length (mgr_contexts s)\<rparr>"

definition summary_sum :: "context_summary \<Rightarrow> nat" where
  "summary_sum m = sm_pending m + sm_in_progress m + sm_completed m + sm_submitted m +
     sm_accepted m + sm_failed m + sm_stuck m + sm_cancelled m"

definition summary_for :: "string \<Rightarrow> 'd context_manager \<Rightarrow> context_summary" where
  "summary_for user s =
     (let m = tally (filter (\<lambda>c. jc_user_id c = user) (map snd (mgr_contexts s)))
      in m\<lparr>sm_total := summary_sum m\<rparr>)"

section \<open>Runs of the manager\<close>

datatype 'd manager_op =
    CreateJobForUser uuid utc string string string
  | RegisterSandboxJob uuid uuid utc string string string
  | UpdateContext uuid "'d job_op list"
  | UpdateMemory uuid "'d memory_op list"
  | RemoveJob uuid

fun manager_perform :: "'d::{zero,plus} manager_op \<Rightarrow> 'd context_manager \<Rightarrow> 'd context_manager" where
  "manager_perform (CreateJobForUser i now u t d) s = snd (create_job_for_user i now u t d s)"
| "manager_perform (RegisterSandboxJob j i now u t d) s = snd (register_sandbox_job j i now u t d s)"
| "manager_perform (UpdateContext i ops) s = snd (update_context i (\<lambda>c. ((), fold job_perform ops c)) s)"
| "manager_perform (UpdateMemory i ops) s = snd (update_memory i (\<lambda>m. ((), fold memory_perform ops m)) s)"
| "manager_perform (RemoveJob i) s = snd (remove_job i s)"

text \<open>
  The invariant of the manager between calls: the maps are maps, the bound on parallel jobs holds,
  every context and memory is stored under its own id, every context is one the state machine allows,
  and the two maps have the same keys.
\<close>

definition contexts_inv :: "'d context_manager \<Rightarrow> bool" where
  "contexts_inv s =
     (hm_wf (mgr_contexts s) \<and> hm_wf (mgr_memories s) \<and>
      parallel_count (mgr_contexts s) \<le> mgr_max_jobs s \<and>
      (\<forall>i c. hm_get (mgr_contexts s) i = Some c \<longrightarrow> jc_job_id c = i \<and> job_inv c) \<and>
      (\<forall>i m. hm_get (mgr_memories s) i = Some m \<longrightarrow>
         mem_job_id m = i \<and> conversation_inv (mem_conversation m)))"

definition same_keys :: "'d context_manager \<Rightarrow> bool" where
  "same_keys s = (\<forall>i. hm_get (mgr_contexts s) i = None \<longleftrightarrow> hm_get (mgr_memories s) i = None)"

definition manager_inv :: "'d context_manager \<Rightarrow> bool" where
  "manager_inv s = (contexts_inv s \<and> same_keys s)"

text \<open>
  The manager with the calls in flight: those that inserted a context and have still to allocate its
  memory, and those that removed a context and have still to remove its memory. A step is one
  critical section of one call.
\<close>

record 'd manager_sys =
  sys_mgr :: "'d context_manager"
  sys_inserting :: "uuid list"
  sys_removing :: "uuid list"

definition fresh_context :: "'d::zero job_context \<Rightarrow> bool" where
  "fresh_context c =
     (\<exists>i j now u t d. c = with_user i now u t d \<or> c = sandbox_context j i now u t d)"

inductive manager_step :: "'d::{zero,plus} manager_sys \<Rightarrow> 'd manager_sys \<Rightarrow> bool" where
  insert_ok: "fresh_context c \<Longrightarrow> insert_checked c m = (Inr i, m') \<Longrightarrow>
    manager_step \<lparr>sys_mgr = m, sys_inserting = ins, sys_removing = rem\<rparr>
      \<lparr>sys_mgr = m', sys_inserting = i # ins, sys_removing = rem\<rparr>"
| insert_full: "fresh_context c \<Longrightarrow> insert_checked c m = (Inl e, m') \<Longrightarrow>
    manager_step \<lparr>sys_mgr = m, sys_inserting = ins, sys_removing = rem\<rparr>
      \<lparr>sys_mgr = m', sys_inserting = ins, sys_removing = rem\<rparr>"
| insert_done: "i \<in> set ins \<Longrightarrow>
    manager_step \<lparr>sys_mgr = m, sys_inserting = ins, sys_removing = rem\<rparr>
      \<lparr>sys_mgr = allocate_memory i m, sys_inserting = remove1 i ins, sys_removing = rem\<rparr>"
| remove_ok: "remove_from_contexts i m = (Inr c, m') \<Longrightarrow>
    manager_step \<lparr>sys_mgr = m, sys_inserting = ins, sys_removing = rem\<rparr>
      \<lparr>sys_mgr = m', sys_inserting = ins, sys_removing = i # rem\<rparr>"
| remove_done: "i \<in> set rem \<Longrightarrow> remove_from_memories i m = (r, m') \<Longrightarrow>
    manager_step \<lparr>sys_mgr = m, sys_inserting = ins, sys_removing = rem\<rparr>
      \<lparr>sys_mgr = m', sys_inserting = ins, sys_removing = remove1 i rem\<rparr>"
| update_ctx: "update_context i (\<lambda>c. ((), fold job_perform ops c)) m = (r, m') \<Longrightarrow>
    manager_step \<lparr>sys_mgr = m, sys_inserting = ins, sys_removing = rem\<rparr>
      \<lparr>sys_mgr = m', sys_inserting = ins, sys_removing = rem\<rparr>"
| update_mem: "update_memory i (\<lambda>x. ((), fold memory_perform mops x)) m = (r, m') \<Longrightarrow>
    manager_step \<lparr>sys_mgr = m, sys_inserting = ins, sys_removing = rem\<rparr>
      \<lparr>sys_mgr = m', sys_inserting = ins, sys_removing = rem\<rparr>"

inductive_cases manager_stepE: "manager_step s t"

definition manager_init :: "nat \<Rightarrow> 'd manager_sys \<Rightarrow> bool" where
  "manager_init n s =
     (s = \<lparr>sys_mgr = context_manager_new n, sys_inserting = [], sys_removing = []\<rparr>)"

text \<open>The count a summary holds for a state, and a sample context.\<close>

definition summary_field :: "job_state \<Rightarrow> context_summary \<Rightarrow> nat" where
  "summary_field st m = (case st of Pending \<Rightarrow> sm_pending m | InProgress \<Rightarrow> sm_in_progress m
     | Completed \<Rightarrow> sm_completed m | Submitted \<Rightarrow> sm_submitted m | Accepted \<Rightarrow> sm_accepted m
     | Failed \<Rightarrow> sm_failed m | Stuck \<Rightarrow> sm_stuck m | Cancelled \<Rightarrow> sm_cancelled m)"

definition wit_ctx :: "uuid \<Rightarrow> nat job_context" where
  "wit_ctx i = with_user i 0 ''u'' ''t'' ''d''"

section \<open>Each critical section keeps the invariant\<close>

lemma job_run_id [simp]: "jc_job_id (fold job_perform ops c) = jc_job_id c"
  by (induction ops arbitrary: c) auto

lemma job_run_user [simp]: "jc_user_id (fold job_perform ops c) = jc_user_id c"
  by (induction ops arbitrary: c) auto

lemma job_run_blocking:
  "is_parallel_blocking (jc_state (fold job_perform ops c)) \<Longrightarrow> is_parallel_blocking (jc_state c)"
  by (induction ops arbitrary: c) (auto dest: job_perform_blocking)

lemma fresh_context_inv:
  "fresh_context c \<Longrightarrow> job_inv c"
  "fresh_context c \<Longrightarrow> is_parallel_blocking (jc_state c)"
  by (auto simp: fresh_context_def sandbox_context_def job_inv_with_user)
    (auto simp: job_inv_def with_user_def history_ok_def is_parallel_blocking_def)

lemma fresh_context_intros [simp]:
  "fresh_context (with_user i now u t d)"
  "fresh_context (sandbox_context j i now u t d)"
  unfolding fresh_context_def by blast+

lemma insert_checked_inv:
  assumes "contexts_inv s" "job_inv c"
  shows "contexts_inv (snd (insert_checked c s))"
  using assms hm.count_put_le[of "mgr_contexts s" "\<lambda>c. is_parallel_blocking (jc_state c)" "jc_job_id c" c]
  by (auto simp: contexts_inv_def insert_checked_def parallel_count_def)

lemma allocate_memory_inv: "contexts_inv s \<Longrightarrow> contexts_inv (allocate_memory i s)"
  by (auto simp: contexts_inv_def allocate_memory_def memory_new_def conversation_inv_def
      conversation_new_def)

lemma remove_from_contexts_inv: "contexts_inv s \<Longrightarrow> contexts_inv (snd (remove_from_contexts i s))"
  using hm.count_del_le[of "mgr_contexts s" "\<lambda>c. is_parallel_blocking (jc_state c)" i]
  by (auto simp: contexts_inv_def remove_from_contexts_def parallel_count_def split: option.splits
      intro: le_trans)

lemma remove_from_memories_inv: "contexts_inv s \<Longrightarrow> contexts_inv (snd (remove_from_memories i s))"
  by (auto simp: contexts_inv_def remove_from_memories_def split: option.splits)

lemma update_context_inv:
  assumes "contexts_inv s"
  shows "contexts_inv (snd (update_context i (\<lambda>c. ((), fold job_perform ops c)) s))"
proof (cases "hm_get (mgr_contexts s) i")
  case None
  with assms show ?thesis by (simp add: update_context_def)
next
  case (Some c)
  let ?c = "fold job_perform ops c"
  have "count_entries (\<lambda>c. is_parallel_blocking (jc_state c)) (hm_put i ?c (mgr_contexts s))
      \<le> count_entries (\<lambda>c. is_parallel_blocking (jc_state c)) (mgr_contexts s)"
    using assms Some job_run_blocking
    by (intro hm.count_put_same[where ?v0.0 = c]) (auto simp: contexts_inv_def)
  moreover have "job_inv ?c \<and> jc_job_id ?c = i"
    using assms Some by (auto simp: contexts_inv_def intro: job.fold_inv)
  ultimately show ?thesis
    using assms Some by (auto simp: contexts_inv_def update_context_def parallel_count_def)
qed

lemma update_memory_inv:
  "contexts_inv s \<Longrightarrow> contexts_inv (snd (update_memory i (\<lambda>m. ((), fold memory_perform ops m)) s))"
  by (auto simp: contexts_inv_def update_memory_def split: option.splits intro: conv.fold_inv)

lemmas critical_section_inv = insert_checked_inv allocate_memory_inv remove_from_contexts_inv
  remove_from_memories_inv update_context_inv update_memory_inv

lemma insert_context_eq:
  "snd (insert_context c s) =
     (if parallel_count (mgr_contexts s) \<ge> mgr_max_jobs s then s
      else allocate_memory (jc_job_id c) (snd (insert_checked c s)))"
  by (simp add: insert_context_def insert_checked_def)

lemma insert_context_inv: "contexts_inv s \<Longrightarrow> job_inv c \<Longrightarrow> contexts_inv (snd (insert_context c s))"
  by (simp add: insert_context_eq critical_section_inv)

lemma remove_job_eq:
  "snd (remove_job i s) =
     (if hm_get (mgr_contexts s) i = None then s
      else snd (remove_from_memories i (snd (remove_from_contexts i s))))"
  by (auto simp: remove_job_def remove_from_contexts_def remove_from_memories_def split: option.splits)

lemma create_job_for_user_eq:
  "snd (create_job_for_user i now u t d s) = snd (insert_context (with_user i now u t d) s)"
  by (auto simp: create_job_for_user_def Let_def split: prod.splits sum.splits)

lemma manager_perform_contexts_inv: "contexts_inv s \<Longrightarrow> contexts_inv (manager_perform op s)"
  by (cases op)
    (auto simp: create_job_for_user_eq register_sandbox_job_def remove_job_eq
      intro!: critical_section_inv insert_context_inv fresh_context_inv)

lemma insert_context_same_keys: "same_keys s \<Longrightarrow> same_keys (snd (insert_context c s))"
  by (auto simp: same_keys_def insert_context_eq insert_checked_def allocate_memory_def)

lemma manager_perform_same_keys: "same_keys s \<Longrightarrow> same_keys (manager_perform op s)"
proof (cases op)
  case (RemoveJob i)
  then show "same_keys s \<Longrightarrow> ?thesis"
    by (auto simp: same_keys_def remove_job_def remove_from_contexts_def remove_from_memories_def
        split: option.splits)
qed (auto simp: create_job_for_user_eq register_sandbox_job_def insert_context_same_keys,
     auto simp: same_keys_def update_context_def update_memory_def split: option.splits,
     (metis option.distinct(1) not_None_eq)+)

interpretation mgr: op_invariant manager_perform manager_inv
  by unfold_locales
    (auto simp: manager_inv_def manager_perform_contexts_inv manager_perform_same_keys)

lemma manager_inv_new: "manager_inv (context_manager_new n)"
  by (simp add: manager_inv_def contexts_inv_def same_keys_def context_manager_new_def parallel_count_def)

lemma manager_step_contexts_inv:
  assumes "contexts_inv (sys_mgr s)" "manager_step s t"
  shows "contexts_inv (sys_mgr t)"
  using assms(2,1)
proof cases
  case (insert_ok c m i m' ins rem)
  then show ?thesis using assms(1) insert_checked_inv[OF _ fresh_context_inv(1), of m c] by simp
next
  case (insert_full c m e m' ins rem)
  then show ?thesis using assms(1) insert_checked_inv[OF _ fresh_context_inv(1), of m c] by simp
next
  case (insert_done i ins m rem)
  then show ?thesis using assms(1) by (simp add: critical_section_inv)
next
  case (remove_ok i m c m' ins rem)
  then show ?thesis using assms(1) remove_from_contexts_inv[of m i] by simp
next
  case (remove_done i rem m r m' ins)
  then show ?thesis using assms(1) remove_from_memories_inv[of m i] by simp
next
  case (update_ctx i ops m r m' ins rem)
  then show ?thesis using assms(1) update_context_inv[of m i ops] by simp
next
  case (update_mem i mops m r m' ins rem)
  then show ?thesis using assms(1) update_memory_inv[of m i mops] by simp
qed

lemma manager_step_max_jobs: "manager_step s t \<Longrightarrow> mgr_max_jobs (sys_mgr t) = mgr_max_jobs (sys_mgr s)"
  by (erule manager_stepE)
    (auto simp: insert_checked_def allocate_memory_def remove_from_contexts_def
      remove_from_memories_def update_context_def update_memory_def
      split: if_splits option.splits prod.splits)

interpretation sys: step_invariant "manager_init n" manager_step
    "\<lambda>s. contexts_inv (sys_mgr s) \<and> mgr_max_jobs (sys_mgr s) = n"
  for n
  using manager_inv_new[unfolded manager_inv_def]
  by unfold_locales
    (auto simp: manager_init_def manager_step_contexts_inv manager_step_max_jobs,
     simp add: context_manager_new_def)

section \<open>Queries and summaries\<close>

lemma select_jobs_iff:
  "hm_wf (mgr_contexts s) \<Longrightarrow>
   i \<in> set (select_jobs P s) \<longleftrightarrow> (\<exists>c. hm_get (mgr_contexts s) i = Some c \<and> P c)"
  by (force simp: select_jobs_def hm_get_def hm_wf_def dest: map_of_SomeD)

lemma summary_field_count:
  "summary_field st (summary_count st' m) = summary_field st m + (if st = st' then 1 else 0)"
  by (cases st; cases st') (simp_all add: summary_field_def)

lemma summary_field_fold:
  "summary_field st (fold (\<lambda>c. summary_count (jc_state c)) cs m) =
     summary_field st m + length (filter (\<lambda>c. jc_state c = st) cs)"
  by (induction cs arbitrary: m) (auto simp: summary_field_count)

lemma summary_field_tally:
  "summary_field st (tally cs) = length (filter (\<lambda>c. jc_state c = st) cs)"
  by (simp add: tally_def summary_field_fold) (simp add: summary_field_def summary_default_def split: job_state.splits)

lemma summary_sum_fold:
  "summary_sum (fold (\<lambda>c. summary_count (jc_state c)) cs m) = summary_sum m + length cs"
proof (induction cs arbitrary: m)
  case Nil
  then show ?case by simp
next
  case (Cons c cs)
  have "summary_sum (summary_count (jc_state c) m) = Suc (summary_sum m)"
    by (cases "jc_state c") (simp_all add: summary_sum_def)
  with Cons show ?case by simp
qed

lemma summary_sum_tally: "summary_sum (tally cs) = length cs"
  by (simp add: tally_def summary_sum_fold) (simp add: summary_sum_def summary_default_def)

lemma summary_field_total [simp]: "summary_field st (m\<lparr>sm_total := n\<rparr>) = summary_field st m"
  by (simp add: summary_field_def split: job_state.splits)

lemma summary_sum_total [simp]: "summary_sum (m\<lparr>sm_total := n\<rparr>) = summary_sum m"
  by (simp add: summary_sum_def)

lemma count_entries_map_snd: "count_entries P es = length (filter P (map snd es))"
  by (induction es) (auto simp: count_entries_def)

section \<open>Properties\<close>

text \<open>
  C1. However the critical sections of concurrent calls interleave, the jobs that take a parallel
  slot (pending, in progress or stuck) never exceed the configured maximum, and every stored context
  is one that the state machine allows, with a history of valid transitions.
\<close>

theorem parallel_jobs_bounded:
  assumes "reachable (manager_init n) manager_step s"
  shows "parallel_count (mgr_contexts (sys_mgr s)) \<le> n \<and>
    (\<forall>i c. hm_get (mgr_contexts (sys_mgr s)) i = Some c \<longrightarrow> jc_job_id c = i \<and> job_inv c)"
  using sys.reachable_inv[OF assms] by (auto simp: contexts_inv_def)

lemma reach_insert:
  assumes "reachable (manager_init n) manager_step \<lparr>sys_mgr = m, sys_inserting = ins, sys_removing = rem\<rparr>"
    "fresh_context c" "insert_checked c m = (Inr i, m')"
  shows "reachable (manager_init n) manager_step \<lparr>sys_mgr = m', sys_inserting = i # ins, sys_removing = rem\<rparr>"
  by (rule reachable_step[OF assms(1) manager_step.insert_ok[OF assms(2,3)]])

lemma reach_start:
  "reachable (manager_init n) manager_step
     \<lparr>sys_mgr = context_manager_new n, sys_inserting = [], sys_removing = []\<rparr>"
  by (rule reachable_init) (simp add: manager_init_def)

lemma reach_one:
  "reachable (manager_init 1) manager_step
     \<lparr>sys_mgr = \<lparr>mgr_contexts = [(7, wit_ctx 7)], mgr_memories = [], mgr_max_jobs = 1\<rparr>,
      sys_inserting = [7], sys_removing = []\<rparr>"
  by (rule reach_insert[OF reach_start, of "wit_ctx 7"])
    (simp add: wit_ctx_def, simp add: insert_checked_def context_manager_new_def parallel_count_def
      hm_put_def wit_ctx_def with_user_def)

theorem parallel_jobs_bounded_witness:
  "parallel_count [(7, wit_ctx 7)] = 1 \<and> job_inv (wit_ctx 7)"
  using parallel_jobs_bounded[OF reach_one]
  by (auto simp: hm_get_def parallel_count_def count_entries_def wit_ctx_def with_user_def
      is_parallel_blocking_def)

text \<open>
  Run one after the other, any calls of the manager keep its whole invariant: the bound, valid
  contexts stored under their own id, bounded conversations, and a memory for exactly the jobs that
  have a context.
\<close>

theorem sequential_manager_inv:
  "manager_inv (fold manager_perform ops (context_manager_new n))"
  by (rule mgr.fold_inv[OF manager_inv_new])

text \<open>
  Creating a job fails exactly when the bound is reached, with the bound in the error and nothing
  changed; otherwise it returns the new id, under which the pending context and an empty memory are
  then found, and every other job is as before.
\<close>

theorem create_job_for_user_spec:
  "create_job_for_user i now u t d s =
     (if mgr_max_jobs s \<le> parallel_count (mgr_contexts s)
      then (Inl (MaxJobsExceeded (mgr_max_jobs s)), s)
      else (Inr i, s\<lparr>mgr_contexts := hm_put i (with_user i now u t d) (mgr_contexts s),
                     mgr_memories := hm_put i (memory_new i) (mgr_memories s)\<rparr>))
   \<and> (mgr_max_jobs s > parallel_count (mgr_contexts s) \<longrightarrow>
      (let s' = snd (create_job_for_user i now u t d s)
       in get_context i s' = Inr (with_user i now u t d) \<and> get_memory i s' = Inr (memory_new i) \<and>
          (\<forall>j. j \<noteq> i \<longrightarrow> get_context j s' = get_context j s \<and> get_memory j s' = get_memory j s)))"
  by (auto simp: create_job_for_user_def insert_context_def insert_checked_def allocate_memory_def
      get_context_def get_memory_def Let_def with_user_def)

theorem create_job_for_user_spec_witness:
  "get_context 3 (snd (create_job_for_user 3 0 ''u'' ''t'' ''d'' (context_manager_new 1))) =
     Inr (with_user 3 0 ''u'' ''t'' ''d'' :: nat job_context)"
  using create_job_for_user_spec[of 3 0 "''u''" "''t''" "''d''" "context_manager_new 1 :: nat context_manager"]
  by (simp add: context_manager_new_def parallel_count_def Let_def get_context_def)

text \<open>
  The two critical sections of creation and removal are not one: a removal that runs between
  them finds no memory and fails after it removed the context, and the creation then leaves a memory
  that belongs to no job, with no call in flight.
\<close>

theorem orphan_memory_reachable:
  "\<exists>s :: nat manager_sys. reachable (manager_init 1) manager_step s \<and>
     sys_inserting s = [] \<and> sys_removing s = [] \<and>
     get_context 7 (sys_mgr s) = Inl (NotFound 7) \<and> get_memory 7 (sys_mgr s) = Inr (memory_new 7)"
proof -
  let ?m1 = "\<lparr>mgr_contexts = [(7, wit_ctx 7)], mgr_memories = [], mgr_max_jobs = 1\<rparr>"
  let ?m2 = "\<lparr>mgr_contexts = [], mgr_memories = [], mgr_max_jobs = 1\<rparr> :: nat context_manager"
  have 1: "remove_from_contexts 7 ?m1 = (Inr (wit_ctx 7), ?m2)"
    by (simp add: remove_from_contexts_def hm_get_def hm_del_def)
  have 2: "remove_from_memories 7 ?m2 = (Inl (NotFound 7), ?m2)"
    by (simp add: remove_from_memories_def)
  have "reachable (manager_init 1) manager_step
      \<lparr>sys_mgr = ?m2, sys_inserting = [7], sys_removing = [7]\<rparr>"
    by (rule reachable_step[OF reach_one manager_step.remove_ok[OF 1]])
  then have "reachable (manager_init 1) manager_step
      \<lparr>sys_mgr = ?m2, sys_inserting = [7], sys_removing = remove1 7 [7]\<rparr>"
    by (rule reachable_step) (rule manager_step.remove_done[OF _ 2], simp)
  then have "reachable (manager_init 1) manager_step
      \<lparr>sys_mgr = allocate_memory 7 ?m2, sys_inserting = remove1 7 [7], sys_removing = remove1 7 [7]\<rparr>"
    by (rule reachable_step) (rule manager_step.insert_done, simp)
  then show ?thesis
    by (intro exI[of _ "\<lparr>sys_mgr = allocate_memory 7 ?m2, sys_inserting = [], sys_removing = []\<rparr>"])
      (simp add: get_context_def get_memory_def allocate_memory_def)
qed

text \<open>
  A summary counts the jobs of each state, its total is the number of jobs, and the total is the
  sum of the counts; the per-user summary does the same for the jobs of the user.
\<close>

theorem summary_counts:
  "summary_field st (summary s) = count_entries (\<lambda>c. jc_state c = st) (mgr_contexts s) \<and>
   sm_total (summary s) = length (all_jobs s) \<and> summary_sum (summary s) = sm_total (summary s) \<and>
   summary_field st (summary_for u s) =
     count_entries (\<lambda>c. jc_user_id c = u \<and> jc_state c = st) (mgr_contexts s) \<and>
   sm_total (summary_for u s) = length (all_jobs_for u s)"
proof -
  have "length (filter (\<lambda>c. jc_user_id c = u) (map snd (mgr_contexts s))) = length (all_jobs_for u s)"
    by (simp add: all_jobs_for_def select_jobs_def filter_map comp_def case_prod_unfold)
  then show ?thesis
    by (simp add: summary_def summary_for_def Let_def summary_field_tally summary_sum_tally
        count_entries_map_snd all_jobs_def conj_commute)
qed

end
