(* ===== verification/Session.thy ===== *)
theory Session
  imports Llm_Types
begin

text \<open>
  Sessions, threads and turns, \<open>src/agent/session.rs\<close>. The text of a JSON value
  (\<open>serde_json::Value::to_string\<close>) is the parameter \<open>render\<close>. An operation that reads the clock
  several times is given one reading.
\<close>

section \<open>Turns\<close>

datatype turn_state = TurnProcessing | TurnCompleted | TurnFailed | TurnInterrupted

record turn_tool_call =
  tt_name :: string
  tt_parameters :: json
  tt_result :: "json option"
  tt_error :: "string option"
  tt_rationale :: "string option"
  tt_tool_call_id :: "string option"

record turn =
  tn_turn_number :: nat
  tn_user_input :: string
  tn_response :: "string option"
  tn_tool_calls :: "turn_tool_call list"
  tn_state :: turn_state
  tn_started_at :: utc
  tn_completed_at :: "utc option"
  tn_error :: "string option"
  tn_narrative :: "string option"
  tn_image_content_parts :: "content_part list"

definition turn_new :: "utc \<Rightarrow> nat \<Rightarrow> string \<Rightarrow> turn" where
  "turn_new now n user_input =
     \<lparr>tn_turn_number = n, tn_user_input = user_input, tn_response = None, tn_tool_calls = [],
      tn_state = TurnProcessing, tn_started_at = now, tn_completed_at = None, tn_error = None,
      tn_narrative = None, tn_image_content_parts = []\<rparr>"

definition turn_complete :: "utc \<Rightarrow> string \<Rightarrow> turn \<Rightarrow> turn" where
  "turn_complete now response t =
     t\<lparr>tn_response := Some response, tn_state := TurnCompleted, tn_completed_at := Some now,
       tn_image_content_parts := []\<rparr>"

definition turn_fail :: "utc \<Rightarrow> string \<Rightarrow> turn \<Rightarrow> turn" where
  "turn_fail now err t =
     t\<lparr>tn_error := Some err, tn_state := TurnFailed, tn_completed_at := Some now,
       tn_image_content_parts := []\<rparr>"

definition turn_interrupt :: "utc \<Rightarrow> turn \<Rightarrow> turn" where
  "turn_interrupt now t =
     t\<lparr>tn_state := TurnInterrupted, tn_completed_at := Some now, tn_image_content_parts := []\<rparr>"

definition record_tool_call_with_reasoning ::
  "string \<Rightarrow> json \<Rightarrow> string option \<Rightarrow> string option \<Rightarrow> turn \<Rightarrow> turn" where
  "record_tool_call_with_reasoning name params rationale call_id t =
     t\<lparr>tn_tool_calls := tn_tool_calls t @
        [\<lparr>tt_name = name, tt_parameters = params, tt_result = None, tt_error = None,
          tt_rationale = rationale, tt_tool_call_id = call_id\<rparr>]\<rparr>"

definition record_tool_call :: "string \<Rightarrow> json \<Rightarrow> turn \<Rightarrow> turn" where
  "record_tool_call name params t =
     t\<lparr>tn_tool_calls := tn_tool_calls t @
        [\<lparr>tt_name = name, tt_parameters = params, tt_result = None, tt_error = None,
          tt_rationale = None, tt_tool_call_id = None\<rparr>]\<rparr>"

definition record_tool_result :: "json \<Rightarrow> turn \<Rightarrow> turn" where
  "record_tool_result result t =
     t\<lparr>tn_tool_calls := map_last (\<lambda>c. c\<lparr>tt_result := Some result\<rparr>) (tn_tool_calls t)\<rparr>"

definition record_tool_error :: "string \<Rightarrow> turn \<Rightarrow> turn" where
  "record_tool_error err t =
     t\<lparr>tn_tool_calls := map_last (\<lambda>c. c\<lparr>tt_error := Some err\<rparr>) (tn_tool_calls t)\<rparr>"

text \<open>
  The call that a result or an error with an id belongs to: the first with that id, else the first
  without result and error.
\<close>

definition target_call :: "string \<Rightarrow> turn_tool_call list \<Rightarrow> nat option" where
  "target_call call_id calls =
     (case find_index (\<lambda>c. tt_tool_call_id c = Some call_id) calls of
        Some i \<Rightarrow> Some i
      | None \<Rightarrow> find_index (\<lambda>c. tt_result c = None \<and> tt_error c = None) calls)"

definition record_tool_result_for :: "string \<Rightarrow> json \<Rightarrow> turn \<Rightarrow> turn" where
  "record_tool_result_for call_id result t =
     (case target_call call_id (tn_tool_calls t) of
        Some i \<Rightarrow> t\<lparr>tn_tool_calls := (tn_tool_calls t)[i := (tn_tool_calls t ! i)\<lparr>tt_result := Some result\<rparr>]\<rparr>
      | None \<Rightarrow> t)"

definition record_tool_error_for :: "string \<Rightarrow> string \<Rightarrow> turn \<Rightarrow> turn" where
  "record_tool_error_for call_id err t =
     (case target_call call_id (tn_tool_calls t) of
        Some i \<Rightarrow> t\<lparr>tn_tool_calls := (tn_tool_calls t)[i := (tn_tool_calls t ! i)\<lparr>tt_error := Some err\<rparr>]\<rparr>
      | None \<Rightarrow> t)"

section \<open>Threads\<close>

datatype thread_state = ThIdle | ThProcessing | ThAwaitingApproval | ThCompleted | ThInterrupted

text \<open>300 seconds, in nanoseconds.\<close>

definition AUTH_MODE_TTL :: int where
  "AUTH_MODE_TTL = 300 * 1000000000"

record pending_auth =
  pa_extension_name :: string
  pa_created_at :: utc

definition pending_auth_is_expired :: "utc \<Rightarrow> pending_auth \<Rightarrow> bool" where
  "pending_auth_is_expired now p = (now - pa_created_at p > AUTH_MODE_TTL)"

record pending_approval =
  pp_request_id :: uuid
  pp_tool_name :: string
  pp_parameters :: json
  pp_display_parameters :: json
  pp_description :: string
  pp_tool_call_id :: string
  pp_context_messages :: "chat_message list"
  pp_deferred_tool_calls :: "tool_call list"
  pp_user_timezone :: "string option"
  pp_allow_always :: bool

record thread =
  th_id :: uuid
  th_session_id :: uuid
  th_state :: thread_state
  th_turns :: "turn list"
  th_created_at :: utc
  th_updated_at :: utc
  th_metadata :: json
  th_pending_approval :: "pending_approval option"
  th_pending_auth :: "pending_auth option"
  th_pending_messages :: "string list"

definition MAX_PENDING_MESSAGES :: nat where
  "MAX_PENDING_MESSAGES = 10"

definition thread_with_id :: "utc \<Rightarrow> uuid \<Rightarrow> uuid \<Rightarrow> thread" where
  "thread_with_id now i session_id =
     \<lparr>th_id = i, th_session_id = session_id, th_state = ThIdle, th_turns = [],
      th_created_at = now, th_updated_at = now, th_metadata = JNull, th_pending_approval = None,
      th_pending_auth = None, th_pending_messages = []\<rparr>"

definition thread_new :: "uuid \<Rightarrow> utc \<Rightarrow> uuid \<Rightarrow> thread" where
  "thread_new new_id now session_id =
     \<lparr>th_id = new_id, th_session_id = session_id, th_state = ThIdle, th_turns = [],
      th_created_at = now, th_updated_at = now, th_metadata = JNull, th_pending_approval = None,
      th_pending_auth = None, th_pending_messages = []\<rparr>"

definition turn_number :: "thread \<Rightarrow> nat" where
  "turn_number t = length (th_turns t) + 1"

definition last_turn :: "thread \<Rightarrow> turn option" where
  "last_turn t = (if th_turns t = [] then None else Some (last (th_turns t)))"

definition queue_message :: "utc \<Rightarrow> string \<Rightarrow> thread \<Rightarrow> bool \<times> thread" where
  "queue_message now content t =
     (if length (th_pending_messages t) \<ge> MAX_PENDING_MESSAGES then (False, t)
      else (True, t\<lparr>th_pending_messages := th_pending_messages t @ [content], th_updated_at := now\<rparr>))"

definition take_pending_message :: "thread \<Rightarrow> string option \<times> thread" where
  "take_pending_message t =
     (case th_pending_messages t of
        [] \<Rightarrow> (None, t)
      | m # ms \<Rightarrow> (Some m, t\<lparr>th_pending_messages := ms\<rparr>))"

definition drain_pending_messages :: "utc \<Rightarrow> thread \<Rightarrow> string option \<times> thread" where
  "drain_pending_messages now t =
     (if th_pending_messages t = [] then (None, t)
      else (Some (str_join ''\<newline>'' (th_pending_messages t)),
            t\<lparr>th_pending_messages := [], th_updated_at := now\<rparr>))"

definition requeue_drained :: "utc \<Rightarrow> string \<Rightarrow> thread \<Rightarrow> thread" where
  "requeue_drained now content t =
     t\<lparr>th_pending_messages := content # th_pending_messages t, th_updated_at := now\<rparr>"

definition start_turn :: "utc \<Rightarrow> string \<Rightarrow> thread \<Rightarrow> thread" where
  "start_turn now user_input t =
     t\<lparr>th_turns := th_turns t @ [turn_new now (length (th_turns t)) user_input],
       th_state := ThProcessing, th_updated_at := now\<rparr>"

definition complete_turn :: "utc \<Rightarrow> string \<Rightarrow> thread \<Rightarrow> thread" where
  "complete_turn now response t =
     t\<lparr>th_turns := map_last (turn_complete now response) (th_turns t), th_state := ThIdle,
       th_updated_at := now\<rparr>"

definition fail_turn :: "utc \<Rightarrow> string \<Rightarrow> thread \<Rightarrow> thread" where
  "fail_turn now err t =
     t\<lparr>th_turns := map_last (turn_fail now err) (th_turns t), th_state := ThIdle,
       th_updated_at := now\<rparr>"

definition await_approval :: "utc \<Rightarrow> pending_approval \<Rightarrow> thread \<Rightarrow> thread" where
  "await_approval now pending t =
     t\<lparr>th_state := ThAwaitingApproval, th_pending_approval := Some pending, th_updated_at := now\<rparr>"

definition take_pending_approval :: "thread \<Rightarrow> pending_approval option \<times> thread" where
  "take_pending_approval t = (th_pending_approval t, t\<lparr>th_pending_approval := None\<rparr>)"

definition clear_pending_approval :: "utc \<Rightarrow> thread \<Rightarrow> thread" where
  "clear_pending_approval now t =
     t\<lparr>th_pending_approval := None, th_state := ThIdle, th_updated_at := now\<rparr>"

definition enter_auth_mode :: "utc \<Rightarrow> string \<Rightarrow> thread \<Rightarrow> thread" where
  "enter_auth_mode now extension t =
     t\<lparr>th_pending_auth := Some \<lparr>pa_extension_name = extension, pa_created_at = now\<rparr>,
       th_updated_at := now\<rparr>"

definition take_pending_auth :: "thread \<Rightarrow> pending_auth option \<times> thread" where
  "take_pending_auth t = (th_pending_auth t, t\<lparr>th_pending_auth := None\<rparr>)"

definition thread_interrupt :: "utc \<Rightarrow> thread \<Rightarrow> thread" where
  "thread_interrupt now t =
     t\<lparr>th_turns := map_last (turn_interrupt now) (th_turns t), th_pending_messages := [],
       th_state := ThInterrupted, th_updated_at := now\<rparr>"

definition thread_resume :: "utc \<Rightarrow> thread \<Rightarrow> thread" where
  "thread_resume now t =
     (if th_state t = ThInterrupted then t\<lparr>th_state := ThIdle, th_updated_at := now\<rparr> else t)"

section \<open>Messages for the model\<close>

definition tool_result_text :: "(json \<Rightarrow> string) \<Rightarrow> turn_tool_call \<Rightarrow> string" where
  "tool_result_text render c =
     (case tt_error c of
        Some err \<Rightarrow> truncate_preview err 1000
      | None \<Rightarrow>
          (case tt_result c of
             Some res \<Rightarrow>
               truncate_preview (case res of JString s \<Rightarrow> s | other \<Rightarrow> render other) 1000
           | None \<Rightarrow> ''OK''))"

definition calls_with_ids :: "nat \<Rightarrow> turn_tool_call list \<Rightarrow> (string \<times> turn_tool_call) list" where
  "calls_with_ids turn_idx calls =
     map (\<lambda>(i, c). (generate_tool_call_id turn_idx i, c)) (enumerate 0 calls)"

definition declared_call :: "string \<times> turn_tool_call \<Rightarrow> tool_call" where
  "declared_call p =
     \<lparr>tc_id = fst p, tc_name = tt_name (snd p), tc_arguments = tt_parameters (snd p),
      tc_reasoning = None\<rparr>"

definition turn_messages :: "(json \<Rightarrow> string) \<Rightarrow> nat \<Rightarrow> turn \<Rightarrow> chat_message list" where
  "turn_messages render turn_idx t =
     (if tn_image_content_parts t = [] then [msg_user (tn_user_input t)]
      else [msg_user_with_parts (tn_user_input t) (tn_image_content_parts t)]) @
     (if tn_tool_calls t = [] then []
      else
        (let ids = calls_with_ids turn_idx (tn_tool_calls t)
         in msg_assistant_with_tool_calls None (map declared_call ids) #
            map (\<lambda>(call_id, c). msg_tool_result call_id (tt_name c) (tool_result_text render c)) ids)) @
     (case tn_response t of Some r \<Rightarrow> [msg_assistant r] | None \<Rightarrow> [])"

definition thread_messages :: "(json \<Rightarrow> string) \<Rightarrow> thread \<Rightarrow> chat_message list" where
  "thread_messages render t =
     concat (map (\<lambda>(i, tn). turn_messages render i tn) (enumerate 0 (th_turns t)))"

definition truncate_turns :: "nat \<Rightarrow> thread \<Rightarrow> thread" where
  "truncate_turns keep t =
     (if length (th_turns t) > keep
      then t\<lparr>th_turns :=
               map (\<lambda>(i, tn). tn\<lparr>tn_turn_number := i\<rparr>)
                 (enumerate 0 (drop (length (th_turns t) - keep) (th_turns t)))\<rparr>
      else t)"

section \<open>Restoring a thread from messages\<close>

text \<open>The three nested loops of \<open>restore_from_messages\<close>, inside out.\<close>

fun restore_results :: "nat \<Rightarrow> chat_message list \<Rightarrow> turn \<Rightarrow> turn \<times> chat_message list" where
  "restore_results idx [] t = (t, [])"
| "restore_results idx (m # ms) t =
     (if cm_role m \<noteq> Tool then (t, m # ms)
      else restore_results (Suc idx) ms
             (if idx < length (tn_tool_calls t)
              then t\<lparr>tn_tool_calls := (tn_tool_calls t)
                       [idx := (tn_tool_calls t ! idx)\<lparr>tt_result := Some (JString (cm_content m))\<rparr>]\<rparr>
              else t))"

definition restore_declared :: "tool_call list \<Rightarrow> turn \<Rightarrow> turn" where
  "restore_declared tcs t =
     fold (\<lambda>tc. record_tool_call_with_reasoning (tc_name tc) (tc_arguments tc) (tc_reasoning tc)
                  (Some (tc_id tc))) tcs t"

lemma length_restore_results: "length (snd (restore_results idx ms t)) \<le> length ms"
  by (induction idx ms t rule: restore_results.induct) auto

function restore_calls :: "chat_message list \<Rightarrow> turn \<Rightarrow> turn \<times> chat_message list" where
  "restore_calls [] t = (t, [])"
| "restore_calls (m # ms) t =
     (case cm_tool_calls m of
        Some tcs \<Rightarrow>
          if cm_role m = Assistant
          then (let r = restore_results (length (tn_tool_calls t)) ms (restore_declared tcs t)
                in restore_calls (snd r) (fst r))
          else (t, m # ms)
      | None \<Rightarrow> (t, m # ms))"
  by pat_completeness auto
termination
  by (relation "measure (\<lambda>(ms, t). length ms)") (auto simp: le_imp_less_Suc length_restore_results)

lemma length_restore_calls: "length (snd (restore_calls ms t)) \<le> length ms"
proof (induction ms t rule: restore_calls.induct)
  case (2 m ms t)
  show ?case
  proof (cases "\<exists>tcs. cm_tool_calls m = Some tcs \<and> cm_role m = Assistant")
    case True
    then obtain tcs where tcs: "cm_tool_calls m = Some tcs" "cm_role m = Assistant" by blast
    let ?r = "restore_results (length (tn_tool_calls t)) ms (restore_declared tcs t)"
    have "length (snd (restore_calls (snd ?r) (fst ?r))) \<le> length (snd ?r)"
      using 2 tcs by auto
    also have "\<dots> \<le> length ms" by (rule length_restore_results)
    finally show ?thesis using tcs by (simp add: Let_def)
  qed (auto split: option.splits)
qed simp

definition restore_response :: "utc \<Rightarrow> chat_message list \<Rightarrow> turn \<Rightarrow> turn \<times> chat_message list" where
  "restore_response now ms t =
     (case ms of
        m # ms' \<Rightarrow>
          if cm_role m = Assistant \<and> cm_tool_calls m = None
          then (turn_complete now (cm_content m) t, ms')
          else (t, ms)
      | [] \<Rightarrow> (t, ms))"

lemma length_restore_response: "length (snd (restore_response now ms t)) \<le> length ms"
  by (auto simp: restore_response_def split: list.splits)

function restore_turns :: "utc \<Rightarrow> nat \<Rightarrow> chat_message list \<Rightarrow> turn list" where
  "restore_turns now n [] = []"
| "restore_turns now n (m # ms) =
     (if cm_role m = User
      then (let r1 = restore_calls ms (turn_new now n (cm_content m));
                r2 = restore_response now (snd r1) (fst r1)
            in fst r2 # restore_turns now (Suc n) (snd r2))
      else restore_turns now n ms)"
  by pat_completeness auto
termination
  by (relation "measure (\<lambda>(now, n, ms). length ms)")
    (auto simp: less_Suc_eq_le intro: le_trans[OF length_restore_response length_restore_calls])

definition restore_from_messages :: "utc \<Rightarrow> chat_message list \<Rightarrow> thread \<Rightarrow> thread" where
  "restore_from_messages now ms t =
     t\<lparr>th_turns := restore_turns now 0 ms, th_state := ThIdle, th_updated_at := now\<rparr>"

section \<open>Sessions\<close>

record session =
  se_id :: uuid
  se_user_id :: string
  se_active_thread :: "uuid option"
  se_threads :: "(uuid \<times> thread) list"
  se_created_at :: utc
  se_last_active_at :: utc
  se_metadata :: json
  se_auto_approved_tools :: "string set"

definition session_new :: "uuid \<Rightarrow> utc \<Rightarrow> string \<Rightarrow> session" where
  "session_new new_id now user_id =
     \<lparr>se_id = new_id, se_user_id = user_id, se_active_thread = None, se_threads = [],
      se_created_at = now, se_last_active_at = now, se_metadata = JNull,
      se_auto_approved_tools = {}\<rparr>"

definition is_tool_auto_approved :: "string \<Rightarrow> session \<Rightarrow> bool" where
  "is_tool_auto_approved tool s = (tool \<in> se_auto_approved_tools s)"

definition auto_approve_tool :: "string \<Rightarrow> session \<Rightarrow> session" where
  "auto_approve_tool tool s = s\<lparr>se_auto_approved_tools := insert tool (se_auto_approved_tools s)\<rparr>"

text \<open>The operations that return a reference to a thread return its id.\<close>

definition create_thread :: "uuid \<Rightarrow> utc \<Rightarrow> session \<Rightarrow> uuid \<times> session" where
  "create_thread new_id now s =
     (let t = thread_new new_id now (se_id s); i = th_id t
      in (i, s\<lparr>se_active_thread := Some i, se_last_active_at := now,
               se_threads := (case hm_get (se_threads s) i of
                                Some _ \<Rightarrow> se_threads s
                              | None \<Rightarrow> hm_put i t (se_threads s))\<rparr>))"

definition active_thread :: "session \<Rightarrow> thread option" where
  "active_thread s = Option.bind (se_active_thread s) (hm_get (se_threads s))"

definition get_or_create_thread :: "uuid \<Rightarrow> utc \<Rightarrow> session \<Rightarrow> uuid \<times> session" where
  "get_or_create_thread new_id now s =
     (case se_active_thread s of
        None \<Rightarrow> create_thread new_id now s
      | Some i \<Rightarrow> (if hm_get (se_threads s) i \<noteq> None then (i, s) else create_thread new_id now s))"

definition switch_thread :: "utc \<Rightarrow> uuid \<Rightarrow> session \<Rightarrow> bool \<times> session" where
  "switch_thread now i s =
     (if hm_get (se_threads s) i \<noteq> None
      then (True, s\<lparr>se_active_thread := Some i, se_last_active_at := now\<rparr>)
      else (False, s))"

section \<open>Runs\<close>

datatype thread_op =
    QueueMessage utc string
  | TakePendingMessage
  | DrainPendingMessages utc
  | RequeueDrained utc string
  | StartTurn utc string "content_part list"
  | CompleteTurn utc string
  | FailTurn utc string
  | AwaitApproval utc pending_approval
  | TakePendingApproval
  | ClearPendingApproval utc
  | EnterAuthMode utc string
  | TakePendingAuth
  | Interrupt utc
  | Resume utc
  | TruncateTurns nat
  | RestoreFromMessages utc "chat_message list"
  | RecordToolCall string json "string option" "string option"
  | RecordToolResultFor string json
  | RecordToolErrorFor string string

text \<open>
  The caller of \<open>start_turn\<close> attaches the images of the message to the new turn; the tool calls are
  recorded on the last turn.
\<close>

definition attach_images :: "content_part list \<Rightarrow> thread \<Rightarrow> thread" where
  "attach_images parts t =
     t\<lparr>th_turns := map_last (\<lambda>tn. tn\<lparr>tn_image_content_parts := parts\<rparr>) (th_turns t)\<rparr>"

definition on_last_turn :: "(turn \<Rightarrow> turn) \<Rightarrow> thread \<Rightarrow> thread" where
  "on_last_turn f t = t\<lparr>th_turns := map_last f (th_turns t)\<rparr>"

fun thread_perform :: "thread_op \<Rightarrow> thread \<Rightarrow> thread" where
  "thread_perform (QueueMessage now c) t = snd (queue_message now c t)"
| "thread_perform TakePendingMessage t = snd (take_pending_message t)"
| "thread_perform (DrainPendingMessages now) t = snd (drain_pending_messages now t)"
| "thread_perform (RequeueDrained now c) t = requeue_drained now c t"
| "thread_perform (StartTurn now i ps) t = attach_images ps (start_turn now i t)"
| "thread_perform (CompleteTurn now r) t = complete_turn now r t"
| "thread_perform (FailTurn now e) t = fail_turn now e t"
| "thread_perform (AwaitApproval now p) t = await_approval now p t"
| "thread_perform TakePendingApproval t = snd (take_pending_approval t)"
| "thread_perform (ClearPendingApproval now) t = clear_pending_approval now t"
| "thread_perform (EnterAuthMode now e) t = enter_auth_mode now e t"
| "thread_perform TakePendingAuth t = snd (take_pending_auth t)"
| "thread_perform (Interrupt now) t = thread_interrupt now t"
| "thread_perform (Resume now) t = thread_resume now t"
| "thread_perform (TruncateTurns k) t = truncate_turns k t"
| "thread_perform (RestoreFromMessages now ms) t = restore_from_messages now ms t"
| "thread_perform (RecordToolCall n p r i) t = on_last_turn (record_tool_call_with_reasoning n p r i) t"
| "thread_perform (RecordToolResultFor i r) t = on_last_turn (record_tool_result_for i r) t"
| "thread_perform (RecordToolErrorFor i e) t = on_last_turn (record_tool_error_for i e) t"

definition turn_inv :: "turn \<Rightarrow> bool" where
  "turn_inv t =
     ((tn_state t = TurnProcessing \<longleftrightarrow> tn_completed_at t = None) \<and>
      (tn_state t = TurnCompleted \<longrightarrow> tn_response t \<noteq> None) \<and>
      (tn_state t = TurnFailed \<longrightarrow> tn_error t \<noteq> None) \<and>
      (tn_state t \<noteq> TurnProcessing \<longrightarrow> tn_image_content_parts t = []))"

text \<open>
  The turns of a thread: each is numbered by its position, is finished exactly when it has a
  completion time, and has kept no image data after it finished.
\<close>

definition thread_inv :: "thread \<Rightarrow> bool" where
  "thread_inv t =
     (map tn_turn_number (th_turns t) = [0..<length (th_turns t)] \<and> list_all turn_inv (th_turns t))"

text \<open>
  The bound on the queue as the agent loop uses it: content is re-queued at most once after each
  drain. The flag says that drained content is held.
\<close>

inductive queue_step :: "thread \<times> bool \<Rightarrow> thread \<times> bool \<Rightarrow> bool" where
  queue: "queue_step (t, b) (snd (queue_message now c t), b)"
| take: "queue_step (t, b) (snd (take_pending_message t), b)"
| drain: "drain_pending_messages now t = (Some c, t') \<Longrightarrow> queue_step (t, False) (t', True)"
| requeue: "queue_step (t, True) (requeue_drained now c t, False)"
| processed: "queue_step (t, True) (t, False)"
| interrupted: "queue_step (t, b) (thread_interrupt now t, b)"

inductive_cases queue_stepE: "queue_step s t"

definition queue_bound :: "thread \<times> bool \<Rightarrow> bool" where
  "queue_bound s =
     (length (th_pending_messages (fst s)) \<le> MAX_PENDING_MESSAGES + (if snd s then 0 else 1))"

definition sample_turn :: turn where
  "sample_turn = turn_complete 2 ''done'' (record_tool_result_for ''c1'' (JString ''out'')
     (record_tool_call_with_reasoning ''sh'' JNull None (Some ''c1'') (turn_new 1 0 ''hi'')))"

definition sample_thread :: thread where
  "sample_thread = (thread_new 5 0 6)\<lparr>th_turns := [sample_turn]\<rparr>"

lemma map_snd_enumerate: "map (\<lambda>p. f (snd p)) (enumerate k xs) = map f xs"
  by (rule nth_equalityI) (simp_all add: nth_enumerate_eq)

section \<open>Restoring what \<open>messages\<close> emits\<close>

text \<open>The turn that the messages of a turn are restored to.\<close>

definition restored_call :: "(json \<Rightarrow> string) \<Rightarrow> string \<times> turn_tool_call \<Rightarrow> turn_tool_call" where
  "restored_call render p =
     \<lparr>tt_name = tt_name (snd p), tt_parameters = tt_parameters (snd p),
      tt_result = Some (JString (tool_result_text render (snd p))), tt_error = None,
      tt_rationale = None, tt_tool_call_id = Some (fst p)\<rparr>"

definition restored_turn :: "(json \<Rightarrow> string) \<Rightarrow> utc \<Rightarrow> nat \<Rightarrow> turn \<Rightarrow> turn" where
  "restored_turn render now n t =
     (let t' = (turn_new now n (tn_user_input t))
                 \<lparr>tn_tool_calls := map (restored_call render) (calls_with_ids n (tn_tool_calls t))\<rparr>
      in case tn_response t of Some r \<Rightarrow> turn_complete now r t' | None \<Rightarrow> t')"

definition no_results_next :: "chat_message list \<Rightarrow> bool" where
  "no_results_next ms = (case ms of m # _ \<Rightarrow> cm_role m \<noteq> Tool | [] \<Rightarrow> True)"

definition no_calls_next :: "chat_message list \<Rightarrow> bool" where
  "no_calls_next ms =
     (case ms of m # _ \<Rightarrow> cm_role m \<noteq> Tool \<and> \<not> (cm_role m = Assistant \<and> cm_tool_calls m \<noteq> None)
      | [] \<Rightarrow> True)"

definition next_is_user :: "chat_message list \<Rightarrow> bool" where
  "next_is_user ms = (case ms of m # _ \<Rightarrow> cm_role m = User | [] \<Rightarrow> True)"

lemma restore_declared_calls:
  "restore_declared tcs t = t\<lparr>tn_tool_calls := tn_tool_calls t @
     map (\<lambda>tc. \<lparr>tt_name = tc_name tc, tt_parameters = tc_arguments tc, tt_result = None,
       tt_error = None, tt_rationale = tc_reasoning tc, tt_tool_call_id = Some (tc_id tc)\<rparr>) tcs\<rparr>"
proof (induction tcs arbitrary: t)
  case Nil
  then show ?case by (simp add: restore_declared_def)
next
  case (Cons tc tcs)
  have "restore_declared (tc # tcs) t =
      restore_declared tcs (record_tool_call_with_reasoning (tc_name tc) (tc_arguments tc)
        (tc_reasoning tc) (Some (tc_id tc)) t)"
    by (simp add: restore_declared_def)
  then show ?case
    by (simp add: Cons.IH record_tool_call_with_reasoning_def)
qed

lemma restore_results_stop: "no_results_next ms \<Longrightarrow> restore_results idx ms t = (t, ms)"
  by (cases ms) (auto simp: no_results_next_def)

lemma restore_results_batch:
  assumes "tn_tool_calls t = pre @ map f xs" "length pre = idx" "no_results_next rest"
  shows "restore_results idx (map (\<lambda>x. msg_tool_result (i x) (n x) (c x)) xs @ rest) t =
    (t\<lparr>tn_tool_calls := pre @ map (\<lambda>x. (f x)\<lparr>tt_result := Some (JString (c x))\<rparr>) xs\<rparr>, rest)"
  using assms
proof (induction xs arbitrary: pre idx t)
  case Nil
  then show ?case by (simp add: restore_results_stop)
next
  case (Cons x xs)
  let ?t = "t\<lparr>tn_tool_calls := (pre @ [(f x)\<lparr>tt_result := Some (JString (c x))\<rparr>]) @ map f xs\<rparr>"
  have step: "restore_results idx (map (\<lambda>x. msg_tool_result (i x) (n x) (c x)) (x # xs) @ rest) t =
      restore_results (Suc idx) (map (\<lambda>x. msg_tool_result (i x) (n x) (c x)) xs @ rest) ?t"
    using Cons.prems(1,2) by (auto simp: msg_tool_result_def nth_append list_update_append)
  show ?case
    unfolding step using Cons.prems(2,3)
    by (subst Cons.IH[where pre = "pre @ [(f x)\<lparr>tt_result := Some (JString (c x))\<rparr>]"]) auto
qed

lemma restore_calls_stop: "no_calls_next ms \<Longrightarrow> restore_calls ms t = (t, ms)"
  by (cases ms) (auto simp: no_calls_next_def split: option.splits)

lemma no_results_if_no_calls: "no_calls_next ms \<Longrightarrow> no_results_next ms"
  by (auto simp: no_calls_next_def no_results_next_def split: list.splits)

lemma restore_calls_turn:
  assumes "tn_tool_calls t = []" "ps \<noteq> []" "no_calls_next rest"
  shows "restore_calls (msg_assistant_with_tool_calls None (map declared_call ps) #
      map (\<lambda>(i, c). msg_tool_result i (tt_name c) (tool_result_text render c)) ps @ rest) t =
    (t\<lparr>tn_tool_calls := map (restored_call render) ps\<rparr>, rest)"
proof -
  let ?f = "\<lambda>p. \<lparr>tt_name = tt_name (snd p), tt_parameters = tt_parameters (snd p), tt_result = None,
     tt_error = None, tt_rationale = None, tt_tool_call_id = Some (fst p)\<rparr>"
  have d: "restore_declared (map declared_call ps) t = t\<lparr>tn_tool_calls := [] @ map ?f ps\<rparr>"
    using assms(1) by (simp add: restore_declared_calls declared_call_def comp_def)
  have "restore_results 0
      (map (\<lambda>p. msg_tool_result (fst p) (tt_name (snd p)) (tool_result_text render (snd p))) ps @ rest)
      (restore_declared (map declared_call ps) t) =
    ((restore_declared (map declared_call ps) t)
      \<lparr>tn_tool_calls := [] @ map (\<lambda>p. (?f p)\<lparr>tt_result := Some (JString (tool_result_text render (snd p)))\<rparr>) ps\<rparr>,
     rest)"
    by (rule restore_results_batch) (simp_all add: d no_results_if_no_calls assms(3))
  then show ?thesis
    using assms restore_calls_stop[OF assms(3)]
    by (simp add: msg_assistant_with_tool_calls_def Let_def case_prod_unfold d
        restored_call_def)
qed

lemma turn_messages_head:
  "\<exists>m ms. turn_messages render n t = m # ms \<and> cm_role m = User"
  unfolding turn_messages_def msg_user_def msg_user_with_parts_def by simp

lemma next_is_user_messages:
  "next_is_user (concat (map (\<lambda>(i, tn). turn_messages render i tn) (enumerate n ts)))"
proof (cases ts)
  case Nil
  then show ?thesis by (simp add: next_is_user_def)
next
  case (Cons a ts')
  then show ?thesis
    using turn_messages_head[of render n a] by (auto simp: next_is_user_def split: list.splits)
qed

lemma restore_one_turn:
  assumes "next_is_user rest"
  shows "restore_turns now n (turn_messages render n t @ rest) =
    restored_turn render now n t # restore_turns now (Suc n) rest"
proof -
  let ?ps = "calls_with_ids n (tn_tool_calls t)"
  let ?resp = "case tn_response t of Some r \<Rightarrow> [msg_assistant r] | None \<Rightarrow> []"
  let ?calls = "if tn_tool_calls t = [] then []
      else msg_assistant_with_tool_calls None (map declared_call ?ps) #
           map (\<lambda>(i, c). msg_tool_result i (tt_name c) (tool_result_text render c)) ?ps"
  let ?t0 = "turn_new now n (tn_user_input t)"
  let ?t1 = "?t0\<lparr>tn_tool_calls := map (restored_call render) ?ps\<rparr>"
  have nc: "no_calls_next (?resp @ rest)"
    using assms by (auto simp: no_calls_next_def next_is_user_def msg_assistant_def
        split: option.splits list.splits)
  have c: "restore_calls (?calls @ ?resp @ rest) ?t0 = (?t1, ?resp @ rest)"
  proof (cases "tn_tool_calls t = []")
    case True
    then show ?thesis
      using restore_calls_stop[OF nc] by (simp add: calls_with_ids_def turn_new_def)
  next
    case False
    then have "?ps \<noteq> []"
      by (auto simp: calls_with_ids_def dest: arg_cong[of _ _ length])
    with False show ?thesis
      using restore_calls_turn[OF _ _ nc, of ?t0 ?ps render] by (simp add: turn_new_def)
  qed
  have r: "restore_response now (?resp @ rest) ?t1 = (restored_turn render now n t, rest)"
    using assms by (auto simp: restore_response_def restored_turn_def next_is_user_def msg_assistant_def
        Let_def split: option.splits list.splits)
  obtain m where m: "turn_messages render n t = m # ?calls @ ?resp" "cm_role m = User"
      "cm_content m = tn_user_input t"
    by (cases "tn_image_content_parts t = []")
      (auto simp: turn_messages_def msg_user_def msg_user_with_parts_def Let_def)
  show ?thesis
    using c r by (simp add: m Let_def)
qed

lemma restore_turns_messages:
  "restore_turns now n (concat (map (\<lambda>(i, tn). turn_messages render i tn) (enumerate n ts))) =
     map (\<lambda>(i, tn). restored_turn render now i tn) (enumerate n ts)"
proof (induction ts arbitrary: n)
  case Nil
  then show ?case by simp
next
  case (Cons t ts)
  show ?case
    using restore_one_turn[OF next_is_user_messages[of render "Suc n" ts], of now n render t] Cons.IH[of "Suc n"]
    by simp
qed

subsection \<open>The restored turns give the same messages\<close>

definition call_text :: "(json \<Rightarrow> string) \<Rightarrow> turn_tool_call \<Rightarrow> string" where
  "call_text render c =
     (case tt_error c of Some e \<Rightarrow> e
      | None \<Rightarrow> (case tt_result c of
                   Some r \<Rightarrow> (case r of JString s \<Rightarrow> s | other \<Rightarrow> render other)
                 | None \<Rightarrow> ''OK''))"

definition replayable :: "(json \<Rightarrow> string) \<Rightarrow> turn \<Rightarrow> bool" where
  "replayable render t =
     (tn_image_content_parts t = [] \<and>
      list_all (\<lambda>c. ascii_only (call_text render c) \<or> length (call_text render c) \<le> 1000)
        (tn_tool_calls t))"

lemma tool_result_text_eq: "tool_result_text render c = truncate_preview (call_text render c) 1000"
  by (auto simp: tool_result_text_def call_text_def truncate_preview_short split: option.splits json.splits)

lemma restored_call_text:
  assumes "ascii_only (call_text render c) \<or> length (call_text render c) \<le> 1000"
  shows "tool_result_text render (restored_call render (i, c)) = tool_result_text render c"
proof -
  have "truncate_preview (truncate_preview (call_text render c) 1000) 1000 =
      truncate_preview (call_text render c) 1000"
    using assms by (auto simp: truncate_preview_short truncate_preview_idem)
  moreover have "call_text render (restored_call render (i, c)) = tool_result_text render c"
    by (simp add: call_text_def restored_call_def)
  ultimately show ?thesis
    by (simp only: tool_result_text_eq)
qed

lemma turn_messages_restored:
  assumes "replayable render t"
  shows "turn_messages render n (restored_turn render now n t) = turn_messages render n t"
proof -
  have ids: "calls_with_ids n (map (restored_call render) (calls_with_ids n cs)) =
      map (\<lambda>(i, c). (i, restored_call render (i, c))) (calls_with_ids n cs)" for cs
    by (rule nth_equalityI) (auto simp: calls_with_ids_def case_prod_unfold nth_enumerate_eq)
  have same_text: "tool_result_text render (restored_call render (i, c)) = tool_result_text render c"
    if "(i, c) \<in> set (calls_with_ids n (tn_tool_calls t))" for i c
  proof -
    have "c \<in> set (tn_tool_calls t)"
      using that by (auto simp: calls_with_ids_def in_set_enumerate_eq)
    then show ?thesis using assms restored_call_text by (auto simp: replayable_def list_all_iff)
  qed
  have f: "tn_tool_calls (restored_turn render now n t) =
        map (restored_call render) (calls_with_ids n (tn_tool_calls t))"
      "tn_user_input (restored_turn render now n t) = tn_user_input t"
      "tn_response (restored_turn render now n t) = tn_response t"
      "tn_image_content_parts (restored_turn render now n t) = []"
    by (auto simp: restored_turn_def Let_def turn_new_def turn_complete_def split: option.splits)
  have e: "calls_with_ids n (tn_tool_calls t) = [] \<longleftrightarrow> tn_tool_calls t = []"
    by (auto simp: calls_with_ids_def dest: arg_cong[of _ _ length])
  have d: "declared_call \<circ> (\<lambda>p. (fst p, restored_call render p)) = declared_call"
      "tt_name (restored_call render p) = tt_name (snd p)" for p
    by (auto simp: declared_call_def restored_call_def)
  have im: "tn_image_content_parts t = []" using assms by (simp add: replayable_def)
  show ?thesis
    unfolding turn_messages_def f ids im
    by (auto simp: e Let_def case_prod_unfold d same_text intro!: map_cong)
qed

lemma thread_messages_restored:
  assumes "list_all (replayable render) (th_turns t)"
  shows "thread_messages render (restore_from_messages now (thread_messages render t) u) =
    thread_messages render t"
proof -
  have "map (\<lambda>(i, tn). turn_messages render i tn)
        (enumerate n (map (\<lambda>(i, tn). restored_turn render now i tn) (enumerate n ts))) =
      map (\<lambda>(i, tn). turn_messages render i tn) (enumerate n ts)"
    if "list_all (replayable render) ts" for n ts
    using that
    by (induction ts arbitrary: n) (auto simp: turn_messages_restored)
  with assms show ?thesis
    unfolding thread_messages_def restore_from_messages_def
    by (simp add: restore_turns_messages)
qed

section \<open>Emitted tool results are never orphaned\<close>

lemma known_tool_ids_append [simp]: "known_tool_ids (xs @ ys) = known_tool_ids xs @ known_tool_ids ys"
  by (simp add: known_tool_ids_def)

lemma known_tool_ids_concat: "ms \<in> set mss \<Longrightarrow> set (known_tool_ids ms) \<subseteq> set (known_tool_ids (concat mss))"
  by (induction mss) auto

lemma known_declaration:
  "known_tool_ids [msg_assistant_with_tool_calls None (map declared_call ps)] = map fst ps"
  by (cases ps) (simp_all add: known_tool_ids_def msg_assistant_with_tool_calls_def declared_call_def)

lemma turn_messages_answered:
  assumes "m \<in> set (turn_messages render n t)" "cm_role m = Tool"
  shows "\<exists>i \<in> set (known_tool_ids (turn_messages render n t)). cm_tool_call_id m = Some i"
proof -
  let ?ps = "calls_with_ids n (tn_tool_calls t)"
  have ne: "tn_tool_calls t \<noteq> []" and "m \<in> (\<lambda>(i, c). msg_tool_result i (tt_name c) (tool_result_text render c)) ` set ?ps"
    using assms by (auto simp: turn_messages_def Let_def msg_user_def msg_user_with_parts_def
        msg_assistant_def msg_assistant_with_tool_calls_def split: if_splits option.splits)
  then obtain i c where ic: "(i, c) \<in> set ?ps" "cm_tool_call_id m = Some i"
    unfolding msg_tool_result_def by (auto simp: image_iff)
  let ?decl = "msg_assistant_with_tool_calls None (map declared_call ?ps)"
  obtain xs ys where "turn_messages render n t = xs @ [?decl] @ ys"
    using ne by (auto simp: turn_messages_def Let_def)
  moreover have "i \<in> set (known_tool_ids [?decl])"
    using ic(1) by (auto simp: known_declaration intro: rev_image_eqI)
  ultimately have "i \<in> set (known_tool_ids (turn_messages render n t))"
    by (metis known_tool_ids_append Un_iff set_append)
  with ic(2) show ?thesis by blast
qed

lemma sanitize_thread_messages:
  "sanitize_tool_messages (thread_messages render t) = thread_messages render t"
proof (rule sanitize_id_if)
  fix m
  let ?mss = "map (\<lambda>(i, tn). turn_messages render i tn) (enumerate 0 (th_turns t))"
  assume "m \<in> set (thread_messages render t)" and tool: "cm_role m = Tool"
  then obtain i tn where "turn_messages render i tn \<in> set ?mss" "m \<in> set (turn_messages render i tn)"
    by (auto simp: thread_messages_def)
  with tool turn_messages_answered[of m render i tn] known_tool_ids_concat[of _ ?mss]
  show "\<exists>i\<in>set (known_tool_ids (thread_messages render t)). cm_tool_call_id m = Some i"
    unfolding thread_messages_def by blast
qed

section \<open>The invariants of threads\<close>

lemma turn_inv_new [simp]: "turn_inv (turn_new now n u)"
  by (simp add: turn_inv_def turn_new_def)

lemma turn_inv_complete [simp]: "turn_inv (turn_complete now r t)"
  by (simp add: turn_inv_def turn_complete_def)

lemma turn_inv_finish [simp]: "turn_inv (turn_fail now e t)" "turn_inv (turn_interrupt now t)"
  by (simp_all add: turn_inv_def turn_fail_def turn_interrupt_def)

lemma turn_inv_calls [simp]: "turn_inv (t\<lparr>tn_tool_calls := cs\<rparr>) = turn_inv t"
  by (simp add: turn_inv_def)

lemma turn_inv_number [simp]: "turn_inv (t\<lparr>tn_turn_number := n\<rparr>) = turn_inv t"
  by (simp add: turn_inv_def)

lemma turn_inv_record [simp]:
  "turn_inv (record_tool_call_with_reasoning n p r oi t) = turn_inv t"
  "turn_inv (record_tool_result_for i res t) = turn_inv t"
  "turn_inv (record_tool_error_for i err t) = turn_inv t"
  by (auto simp: record_tool_call_with_reasoning_def record_tool_result_for_def
      record_tool_error_for_def split: option.splits)

lemma turn_number_record [simp]:
  "tn_turn_number (turn_new now k u) = k"
  "tn_turn_number (turn_complete now r t) = tn_turn_number t"
  "tn_turn_number (turn_fail now e t) = tn_turn_number t"
  "tn_turn_number (turn_interrupt now t) = tn_turn_number t"
  "tn_turn_number (record_tool_call_with_reasoning n p rs oi t) = tn_turn_number t"
  "tn_turn_number (record_tool_result_for i res t) = tn_turn_number t"
  "tn_turn_number (record_tool_error_for i err t) = tn_turn_number t"
  by (auto simp: turn_new_def turn_complete_def turn_fail_def turn_interrupt_def
      record_tool_call_with_reasoning_def record_tool_result_for_def record_tool_error_for_def
      split: option.splits)

lemma thread_inv_map_last:
  assumes "thread_inv t" "\<And>tn. tn_turn_number (f tn) = tn_turn_number tn"
    "\<And>tn. turn_inv tn \<Longrightarrow> turn_inv (f tn)"
  shows "thread_inv (t\<lparr>th_turns := map_last f (th_turns t)\<rparr>)"
proof -
  have "list_all turn_inv (map_last f (th_turns t))"
    using assms(1,3) by (cases "th_turns t" rule: rev_cases) (auto simp: thread_inv_def)
  with assms(1,2) show ?thesis by (simp add: thread_inv_def map_map_last)
qed

lemma thread_inv_fields [simp]:
  "thread_inv (t\<lparr>th_state := st\<rparr>) = thread_inv t"
  "thread_inv (t\<lparr>th_updated_at := now\<rparr>) = thread_inv t"
  "thread_inv (t\<lparr>th_pending_messages := ms\<rparr>) = thread_inv t"
  "thread_inv (t\<lparr>th_pending_approval := pa\<rparr>) = thread_inv t"
  "thread_inv (t\<lparr>th_pending_auth := au\<rparr>) = thread_inv t"
  by (simp_all add: thread_inv_def)

lemma thread_inv_start: "thread_inv t \<Longrightarrow> thread_inv (attach_images ps (start_turn now u t))"
  by (auto simp: thread_inv_def start_turn_def attach_images_def turn_new_def turn_inv_def)

lemma thread_inv_truncate: "thread_inv t \<Longrightarrow> thread_inv (truncate_turns k t)"
proof -
  assume inv: "thread_inv t"
  let ?ts = "drop (length (th_turns t) - k) (th_turns t)"
  have "map tn_turn_number (map (\<lambda>(i, tn). tn\<lparr>tn_turn_number := i\<rparr>) (enumerate 0 ?ts)) =
      map fst (enumerate 0 ?ts)"
    by (simp add: comp_def case_prod_unfold)
  moreover have "list_all turn_inv (map (\<lambda>(i, tn). tn\<lparr>tn_turn_number := i\<rparr>) (enumerate 0 ?ts))"
    using inv by (auto simp: thread_inv_def list_all_iff in_set_enumerate_eq)
  ultimately show ?thesis
    using inv by (simp add: thread_inv_def truncate_turns_def)
qed

lemma restore_results_keeps:
  "turn_inv (fst (restore_results idx ms t)) = turn_inv t \<and>
   tn_turn_number (fst (restore_results idx ms t)) = tn_turn_number t"
  by (induction idx ms t rule: restore_results.induct) simp_all

lemma restore_calls_turn_inv:
  "turn_inv t \<Longrightarrow> turn_inv (fst (restore_calls ms t)) \<and>
     tn_turn_number (fst (restore_calls ms t)) = tn_turn_number t"
proof (induction ms t rule: restore_calls.induct)
  case (2 m ms t)
  show ?case
  proof (cases "\<exists>tcs. cm_tool_calls m = Some tcs \<and> cm_role m = Assistant")
    case True
    then obtain tcs where tcs: "cm_tool_calls m = Some tcs" "cm_role m = Assistant" by blast
    let ?r = "restore_results (length (tn_tool_calls t)) ms (restore_declared tcs t)"
    have "turn_inv (fst ?r) \<and> tn_turn_number (fst ?r) = tn_turn_number t"
      using 2(2) restore_results_keeps by (simp add: restore_declared_calls)
    with 2(1)[OF tcs(1,2) refl] tcs show ?thesis by (simp add: Let_def)
  next
    case False
    with 2(2) show ?thesis by (auto split: option.splits)
  qed
qed simp

lemma restore_turns_inv:
  "map tn_turn_number (restore_turns now n ms) = [n..<n + length (restore_turns now n ms)] \<and>
   list_all turn_inv (restore_turns now n ms)"
proof (induction now n ms rule: restore_turns.induct)
  case (2 now n m ms)
  show ?case
  proof (cases "cm_role m = User")
    case True
    let ?r1 = "restore_calls ms (turn_new now n (cm_content m))"
    let ?r2 = "restore_response now (snd ?r1) (fst ?r1)"
    have r1: "turn_inv (fst ?r1) \<and> tn_turn_number (fst ?r1) = n"
      using restore_calls_turn_inv[OF turn_inv_new, of ms now n "cm_content m"] by simp
    then have r2: "turn_inv (fst ?r2) \<and> tn_turn_number (fst ?r2) = n"
      by (auto simp: restore_response_def split: list.splits)
    show ?thesis
      using 2(1)[OF True refl refl] r2 True by (simp add: Let_def upt_conv_Cons del: upt_Suc)
  next
    case False
    with 2(2) show ?thesis by simp
  qed
qed simp

lemma thread_inv_restore: "thread_inv (restore_from_messages now ms t)"
  using restore_turns_inv[of now 0 ms] by (simp add: thread_inv_def restore_from_messages_def)

lemma turn_inv_drop_images: "turn_inv t \<Longrightarrow> tn_state t = TurnProcessing \<Longrightarrow> turn_inv (t\<lparr>tn_image_content_parts := ps\<rparr>)"
  by (simp add: turn_inv_def)

lemma thread_perform_inv: "thread_inv t \<Longrightarrow> thread_inv (thread_perform op t)"
  by (cases op)
    (auto simp: queue_message_def take_pending_message_def drain_pending_messages_def
      requeue_drained_def complete_turn_def fail_turn_def await_approval_def take_pending_approval_def
      clear_pending_approval_def enter_auth_mode_def take_pending_auth_def thread_interrupt_def
      thread_resume_def on_last_turn_def thread_inv_start thread_inv_truncate thread_inv_restore
      thread_inv_map_last split: list.splits)

interpretation th: op_invariant thread_perform thread_inv
  by unfold_locales (rule thread_perform_inv)

lemma thread_inv_initial: "thread_inv (thread_new i now sid)" "thread_inv (thread_with_id now i sid)"
  by (simp_all add: thread_inv_def thread_new_def thread_with_id_def)

lemma queue_bound_step: "queue_bound s \<Longrightarrow> queue_step s t \<Longrightarrow> queue_bound t"
  by (erule queue_stepE)
    (auto simp: queue_bound_def queue_message_def take_pending_message_def drain_pending_messages_def
      requeue_drained_def thread_interrupt_def MAX_PENDING_MESSAGES_def split: list.splits if_splits)

interpretation queue: step_invariant "\<lambda>s. th_pending_messages (fst s) = []" queue_step queue_bound
  by unfold_locales (simp add: queue_bound_def, rule queue_bound_step)

section \<open>Sessions keep their active thread\<close>

datatype session_op =
    CreateThread uuid utc
  | GetOrCreateThread uuid utc
  | SwitchThread utc uuid
  | AutoApproveTool string
  | OnThread uuid thread_op

fun session_perform :: "session_op \<Rightarrow> session \<Rightarrow> session" where
  "session_perform (CreateThread i now) s = snd (create_thread i now s)"
| "session_perform (GetOrCreateThread i now) s = snd (get_or_create_thread i now s)"
| "session_perform (SwitchThread now i) s = snd (switch_thread now i s)"
| "session_perform (AutoApproveTool n) s = auto_approve_tool n s"
| "session_perform (OnThread i op) s =
     (case hm_get (se_threads s) i of
        Some t \<Rightarrow> s\<lparr>se_threads := hm_put i (thread_perform op t) (se_threads s)\<rparr>
      | None \<Rightarrow> s)"

definition session_inv :: "session \<Rightarrow> bool" where
  "session_inv s =
     (hm_wf (se_threads s) \<and>
      (\<forall>i. se_active_thread s = Some i \<longrightarrow> hm_get (se_threads s) i \<noteq> None) \<and>
      (\<forall>i t. hm_get (se_threads s) i = Some t \<longrightarrow> th_id t = i \<and> th_session_id t = se_id s \<and> thread_inv t))"

lemma thread_perform_id [simp]:
  "th_id (thread_perform op t) = th_id t" "th_session_id (thread_perform op t) = th_session_id t"
  by (cases op;
      simp add: queue_message_def take_pending_message_def drain_pending_messages_def
      requeue_drained_def complete_turn_def fail_turn_def await_approval_def take_pending_approval_def
      clear_pending_approval_def enter_auth_mode_def take_pending_auth_def thread_interrupt_def
      thread_resume_def on_last_turn_def start_turn_def attach_images_def truncate_turns_def
      restore_from_messages_def split: list.splits)+

lemma create_thread_inv: "session_inv s \<Longrightarrow> session_inv (snd (create_thread i now s))"
  by (auto simp: session_inv_def create_thread_def Let_def thread_inv_initial split: option.splits)
    (auto simp: thread_new_def)

lemma session_perform_inv: "session_inv s \<Longrightarrow> session_inv (session_perform op s)"
proof (cases op)
  case (GetOrCreateThread i now)
  then show "session_inv s \<Longrightarrow> ?thesis"
    by (auto simp: get_or_create_thread_def create_thread_inv split: option.splits)
next
  case (OnThread i op')
  then show "session_inv s \<Longrightarrow> ?thesis"
    by (auto simp: session_inv_def thread_perform_inv split: option.splits)
qed (auto simp: create_thread_inv, auto simp: session_inv_def switch_thread_def auto_approve_tool_def)

interpretation sess: op_invariant session_perform session_inv
  by unfold_locales (rule session_perform_inv)

lemma session_inv_new: "session_inv (session_new i now u)"
  by (simp add: session_inv_def session_new_def)

section \<open>Properties\<close>

text \<open>
  Restoring a thread from the messages it emits gives back its turns: the same number, with the
  same inputs, responses and tool calls (names and parameters), whatever the tool results and images
  were, with the turns numbered from 0 and the thread idle.
\<close>

theorem restore_recovers_turns:
  "let u' = restore_from_messages now (thread_messages render t) u
   in map tn_user_input (th_turns u') = map tn_user_input (th_turns t) \<and>
      map tn_response (th_turns u') = map tn_response (th_turns t) \<and>
      map (\<lambda>tn. map (\<lambda>c. (tt_name c, tt_parameters c)) (tn_tool_calls tn)) (th_turns u') =
        map (\<lambda>tn. map (\<lambda>c. (tt_name c, tt_parameters c)) (tn_tool_calls tn)) (th_turns t) \<and>
      map tn_turn_number (th_turns u') = [0..<length (th_turns t)] \<and> th_state u' = ThIdle"
proof -
  have r: "tn_user_input (restored_turn render now i tn) = tn_user_input tn"
      "tn_response (restored_turn render now i tn) = tn_response tn"
      "tn_turn_number (restored_turn render now i tn) = i"
      "map (\<lambda>c. (tt_name c, tt_parameters c)) (tn_tool_calls (restored_turn render now i tn)) =
         map (\<lambda>c. (tt_name c, tt_parameters c)) (tn_tool_calls tn)" for i tn
    by (auto simp: restored_turn_def Let_def turn_new_def turn_complete_def calls_with_ids_def
        restored_call_def case_prod_unfold comp_def split: option.splits
        intro!: nth_equalityI simp: nth_enumerate_eq)
  have n: "map fst (enumerate 0 ts) = [0..<length ts]" for ts :: "turn list"
    by simp
  have e: "th_turns (restore_from_messages now (thread_messages render t) u) =
      map (\<lambda>p. restored_turn render now (fst p) (snd p)) (enumerate 0 (th_turns t))"
    using restore_turns_messages[of now 0 render "th_turns t"]
    by (simp add: thread_messages_def restore_from_messages_def case_prod_unfold)
  have st: "th_state (restore_from_messages now (thread_messages render t) u) = ThIdle"
    by (simp add: restore_from_messages_def)
  show ?thesis
    unfolding Let_def e st map_map comp_def r n
    using map_snd_enumerate[of tn_user_input 0 "th_turns t"]
      map_snd_enumerate[of tn_response 0 "th_turns t"]
      map_snd_enumerate[of "\<lambda>tn. map (\<lambda>c. (tt_name c, tt_parameters c)) (tn_tool_calls tn)" 0 "th_turns t"]
    by simp
qed

text \<open>
  C4. The message history survives a checkpoint: when no turn holds image data and every tool text is
  ASCII or at most 1000 bytes, restoring from the emitted messages and emitting again gives the same
  messages, tool-call ids and truncated tool results included.
\<close>

theorem messages_roundtrip:
  assumes "list_all (replayable render) (th_turns t)"
  shows "thread_messages render (restore_from_messages now (thread_messages render t) u) =
    thread_messages render t"
  using assms by (rule thread_messages_restored)

theorem messages_roundtrip_witness:
  "length (thread_messages (\<lambda>_. ''j'') sample_thread) = 4 \<and>
   thread_messages (\<lambda>_. ''j'') (restore_from_messages 9
     (thread_messages (\<lambda>_. ''j'') sample_thread) (thread_new 7 0 6)) =
   thread_messages (\<lambda>_. ''j'') sample_thread"
proof -
  have "list_all (replayable (\<lambda>_. ''j'')) (th_turns sample_thread)"
    by (simp add: sample_thread_def sample_turn_def replayable_def turn_complete_def turn_new_def
        record_tool_result_for_def record_tool_call_with_reasoning_def target_call_def call_text_def)
  from messages_roundtrip[OF this, of 9 "thread_new 7 0 6"] show ?thesis
    by (simp add: thread_messages_def sample_thread_def sample_turn_def turn_messages_def Let_def
        turn_complete_def turn_new_def record_tool_result_for_def record_tool_call_with_reasoning_def
        target_call_def calls_with_ids_def)
qed

text \<open>
  Every tool result that a thread emits answers a tool call it declares: the repair that runs
  before a request leaves the emitted messages as they are.
\<close>

theorem emitted_messages_need_no_repair:
  "sanitize_tool_messages (thread_messages render t) = thread_messages render t"
  by (rule sanitize_thread_messages)

text \<open>
  Whatever operations run on a session, its active thread is one of its threads, every thread is
  stored under its own id, the turns of each are numbered by position, and a turn has a completion
  time exactly when it is finished, with its response or error set and its image data freed.
\<close>

theorem session_run_inv: "session_inv (fold session_perform ops (session_new i now u))"
  by (rule sess.fold_inv[OF session_inv_new])

text \<open>
  As the agent loop uses it, the queue of a thread never holds more than eleven messages: the
  ten of the cap and one merged message that was drained and put back.
\<close>

theorem pending_queue_bounded:
  assumes "reachable (\<lambda>s. th_pending_messages (fst s) = []) queue_step s"
  shows "length (th_pending_messages (fst s)) \<le> MAX_PENDING_MESSAGES + 1"
  using queue.reachable_inv[OF assms] by (auto simp: queue_bound_def split: if_splits)

theorem pending_queue_bounded_witness:
  "length (th_pending_messages (snd (queue_message 1 ''a'' (thread_new 5 0 6)))) \<le> 11"
proof -
  have "reachable (\<lambda>s. th_pending_messages (fst s) = []) queue_step (thread_new 5 0 6, False)"
    by (rule reachable_init) (simp add: thread_new_def)
  then have "reachable (\<lambda>s. th_pending_messages (fst s) = []) queue_step
      (snd (queue_message 1 ''a'' (thread_new 5 0 6)), False)"
    by (rule reachable_step) (rule queue_step.queue)
  from pending_queue_bounded[OF this] show ?thesis by (simp add: MAX_PENDING_MESSAGES_def)
qed

end
