(* ===== verification/Undo.thy ===== *)
theory Undo
  imports Session
begin

text \<open>
  Undo and redo of a conversation, \<open>src/agent/undo.rs\<close>: two bounded stacks of checkpoints. The undo
  stack is listed from its oldest to its newest entry, the redo stack from its bottom to its top.
\<close>

section \<open>Model\<close>

definition DEFAULT_MAX_CHECKPOINTS :: nat where
  "DEFAULT_MAX_CHECKPOINTS = 20"

record checkpoint =
  cp_id :: uuid
  cp_turn_number :: nat
  cp_messages :: "chat_message list"
  cp_description :: string

definition checkpoint_new :: "uuid \<Rightarrow> nat \<Rightarrow> chat_message list \<Rightarrow> string \<Rightarrow> checkpoint" where
  "checkpoint_new new_id n ms d =
     \<lparr>cp_id = new_id, cp_turn_number = n, cp_messages = ms, cp_description = d\<rparr>"

record undo_manager =
  um_undo_stack :: "checkpoint list"
  um_redo_stack :: "checkpoint list"
  um_max_checkpoints :: nat

definition undo_manager_new :: undo_manager where
  "undo_manager_new =
     \<lparr>um_undo_stack = [], um_redo_stack = [], um_max_checkpoints = DEFAULT_MAX_CHECKPOINTS\<rparr>"

text \<open>The \<open>while\<close> loop of \<open>push_undo\<close>.\<close>

fun pop_front_to :: "nat \<Rightarrow> 'a list \<Rightarrow> 'a list" where
  "pop_front_to n [] = []"
| "pop_front_to n (x # xs) = (if length (x # xs) > n then pop_front_to n xs else x # xs)"

definition push_undo :: "checkpoint \<Rightarrow> undo_manager \<Rightarrow> undo_manager" where
  "push_undo c m =
     m\<lparr>um_undo_stack := pop_front_to (um_max_checkpoints m) (um_undo_stack m @ [c])\<rparr>"

definition take_checkpoint ::
  "uuid \<Rightarrow> nat \<Rightarrow> chat_message list \<Rightarrow> string \<Rightarrow> undo_manager \<Rightarrow> undo_manager" where
  "take_checkpoint new_id n ms d m = push_undo (checkpoint_new new_id n ms d) (m\<lparr>um_redo_stack := []\<rparr>)"

definition undo ::
  "uuid \<Rightarrow> nat \<Rightarrow> chat_message list \<Rightarrow> undo_manager \<Rightarrow> checkpoint option \<times> undo_manager" where
  "undo new_id current_turn current_messages m =
     (if um_undo_stack m = [] then (None, m)
      else
        (let current = checkpoint_new new_id current_turn current_messages
                         (''Turn '' @ show_nat current_turn)
         in (Some (last (um_undo_stack m)),
             m\<lparr>um_redo_stack := um_redo_stack m @ [current],
               um_undo_stack := butlast (um_undo_stack m)\<rparr>)))"

definition redo ::
  "uuid \<Rightarrow> nat \<Rightarrow> chat_message list \<Rightarrow> undo_manager \<Rightarrow> checkpoint option \<times> undo_manager" where
  "redo new_id current_turn current_messages m =
     (if um_redo_stack m = [] then (None, m)
      else
        (let current = checkpoint_new new_id current_turn current_messages
                         (''Turn '' @ show_nat current_turn);
             m1 = push_undo current m
         in (Some (last (um_redo_stack m1)), m1\<lparr>um_redo_stack := butlast (um_redo_stack m1)\<rparr>)))"

definition can_undo :: "undo_manager \<Rightarrow> bool" where
  "can_undo m = (um_undo_stack m \<noteq> [])"

definition can_redo :: "undo_manager \<Rightarrow> bool" where
  "can_redo m = (um_redo_stack m \<noteq> [])"

definition undo_count :: "undo_manager \<Rightarrow> nat" where
  "undo_count m = length (um_undo_stack m)"

definition redo_count :: "undo_manager \<Rightarrow> nat" where
  "redo_count m = length (um_redo_stack m)"

definition undo_clear :: "undo_manager \<Rightarrow> undo_manager" where
  "undo_clear m = m\<lparr>um_undo_stack := [], um_redo_stack := []\<rparr>"

text \<open>The \<open>while\<close> loop of \<open>restore\<close>.\<close>

function pop_back_to :: "nat \<Rightarrow> 'a list \<Rightarrow> 'a list" where
  "pop_back_to n xs = (if length xs > n then pop_back_to n (butlast xs) else xs)"
  by pat_completeness auto
termination
  by (relation "measure (\<lambda>(n, xs). length xs)") auto

declare pop_back_to.simps [simp del]

definition undo_restore :: "uuid \<Rightarrow> undo_manager \<Rightarrow> checkpoint option \<times> undo_manager" where
  "undo_restore checkpoint_id m =
     (case find_index (\<lambda>c. cp_id c = checkpoint_id) (um_undo_stack m) of
        None \<Rightarrow> (None, m)
      | Some pos \<Rightarrow>
          (let st = pop_back_to (pos + 1) (um_undo_stack m)
           in (if st = [] then None else Some (last st),
               m\<lparr>um_redo_stack := [], um_undo_stack := butlast st\<rparr>)))"

datatype undo_op =
    TakeCheckpoint uuid nat "chat_message list" string
  | UndoOp uuid nat "chat_message list"
  | RedoOp uuid nat "chat_message list"
  | ClearOp
  | RestoreOp uuid

fun undo_perform :: "undo_op \<Rightarrow> undo_manager \<Rightarrow> undo_manager" where
  "undo_perform (TakeCheckpoint i n ms d) m = take_checkpoint i n ms d m"
| "undo_perform (UndoOp i n ms) m = snd (undo i n ms m)"
| "undo_perform (RedoOp i n ms) m = snd (redo i n ms m)"
| "undo_perform ClearOp m = undo_clear m"
| "undo_perform (RestoreOp i) m = snd (undo_restore i m)"

definition undo_inv :: "undo_manager \<Rightarrow> bool" where
  "undo_inv m = (undo_count m + redo_count m \<le> um_max_checkpoints m \<and> 0 < um_max_checkpoints m)"

section \<open>The loops\<close>

lemma pop_front_to_eq: "pop_front_to n xs = keep_last n xs"
proof (induction n xs rule: pop_front_to.induct)
  case (2 n x xs)
  then show ?case by (auto simp: keep_last_def Suc_diff_le)
qed (simp add: keep_last_def)

lemma pop_back_to_eq: "pop_back_to n xs = take n xs"
proof (induction n xs rule: pop_back_to.induct)
  case (1 n xs)
  show ?case
  proof (cases "length xs > n")
    case True
    then show ?thesis
      using 1 by (subst pop_back_to.simps) (simp add: butlast_conv_take)
  next
    case False
    then show ?thesis by (subst pop_back_to.simps) simp
  qed
qed

lemma restore_eq:
  "undo_restore i m =
     (case find_index (\<lambda>c. cp_id c = i) (um_undo_stack m) of
        None \<Rightarrow> (None, m)
      | Some pos \<Rightarrow> (Some (um_undo_stack m ! pos),
                     m\<lparr>um_redo_stack := [], um_undo_stack := take pos (um_undo_stack m)\<rparr>))"
proof (cases "find_index (\<lambda>c. cp_id c = i) (um_undo_stack m)")
  case None
  then show ?thesis by (simp add: undo_restore_def)
next
  case (Some pos)
  then have "pos < length (um_undo_stack m)" by (auto dest: find_index_Some)
  then have "take (pos + 1) (um_undo_stack m) = take pos (um_undo_stack m) @ [um_undo_stack m ! pos]"
    by (simp add: take_Suc_conv_app_nth)
  with Some show ?thesis by (simp add: undo_restore_def pop_back_to_eq Let_def)
qed

lemma undo_inv_perform: "undo_inv m \<Longrightarrow> undo_inv (undo_perform op m)"
proof (cases op)
  case (UndoOp i n ms)
  then show "undo_inv m \<Longrightarrow> ?thesis"
    by (cases "um_undo_stack m")
      (auto simp: undo_inv_def undo_count_def redo_count_def undo_def Let_def)
next
  case (RestoreOp i)
  then show "undo_inv m \<Longrightarrow> ?thesis"
    by (auto simp: undo_inv_def undo_count_def redo_count_def restore_eq split: option.splits)
qed (auto simp: undo_inv_def undo_count_def redo_count_def take_checkpoint_def undo_def redo_def
      push_undo_def pop_front_to_eq undo_clear_def Let_def)

interpretation um: op_invariant undo_perform undo_inv
  by unfold_locales (rule undo_inv_perform)

lemma undo_inv_new: "undo_inv undo_manager_new"
  by (simp add: undo_inv_def undo_count_def redo_count_def undo_manager_new_def DEFAULT_MAX_CHECKPOINTS_def)

lemma redo_no_trim:
  assumes "undo_inv m" "um_redo_stack m \<noteq> []"
  shows "um_undo_stack (push_undo c m) = um_undo_stack m @ [c]"
proof -
  have "length (um_undo_stack m @ [c]) \<le> um_max_checkpoints m"
    using assms by (cases "um_redo_stack m") (auto simp: undo_inv_def undo_count_def redo_count_def)
  then show ?thesis by (simp add: push_undo_def pop_front_to_eq)
qed

section \<open>Properties\<close>

text \<open>
  From a new manager, whatever is done, undo and redo steps together never exceed the 20
  checkpoints that are kept, and undoing or redoing keeps their sum.
\<close>

theorem undo_redo_total:
  assumes "m = fold undo_perform ops undo_manager_new"
  shows "undo_count m + redo_count m \<le> DEFAULT_MAX_CHECKPOINTS \<and>
    undo_count (snd (undo i n ms m)) + redo_count (snd (undo i n ms m)) = undo_count m + redo_count m \<and>
    undo_count (snd (redo i n ms m)) + redo_count (snd (redo i n ms m)) = undo_count m + redo_count m"
proof -
  have inv: "undo_inv m" unfolding assms by (rule um.fold_inv[OF undo_inv_new])
  have mx: "um_max_checkpoints (undo_perform op x) = um_max_checkpoints x" for op x
    by (cases op) (auto simp: take_checkpoint_def undo_def redo_def push_undo_def undo_clear_def
        restore_eq Let_def split: option.splits)
  have "um_max_checkpoints (fold undo_perform ops x) = um_max_checkpoints x" for x
    by (induction ops arbitrary: x) (simp_all add: mx)
  then have "um_max_checkpoints m = DEFAULT_MAX_CHECKPOINTS"
    by (simp add: assms undo_manager_new_def)
  with inv redo_no_trim[OF inv] show ?thesis
    by (auto simp: undo_inv_def undo_count_def redo_count_def undo_def redo_def Let_def)
      (simp_all add: push_undo_def)
qed

theorem undo_redo_total_witness:
  "undo_count (snd (undo 9 1 [] (fold undo_perform [TakeCheckpoint 1 0 [] ''d''] undo_manager_new))) +
   redo_count (snd (undo 9 1 [] (fold undo_perform [TakeCheckpoint 1 0 [] ''d''] undo_manager_new))) = 1"
  using undo_redo_total[OF refl, where i = 9 and n = 1 and ms = "[]" and ops = "[TakeCheckpoint 1 0 [] ''d'']"]
  by (simp add: undo_count_def redo_count_def take_checkpoint_def push_undo_def undo_manager_new_def
      DEFAULT_MAX_CHECKPOINTS_def)

text \<open>
  Undo gives the newest checkpoint and a redo right after it gives back the state that was
  current, with the undo stack as it was apart from the fresh copy of the checkpoint the redo was
  called with.
\<close>

theorem undo_then_redo:
  assumes "undo_inv m" "undo i n ms m = (Some c, m1)"
  shows "c = last (um_undo_stack m) \<and>
    redo j (cp_turn_number c) (cp_messages c) m1 =
      (Some (checkpoint_new i n ms (''Turn '' @ show_nat n)),
       m\<lparr>um_undo_stack := butlast (um_undo_stack m) @
          [checkpoint_new j (cp_turn_number c) (cp_messages c) (''Turn '' @ show_nat (cp_turn_number c))]\<rparr>)"
proof -
  have ne: "um_undo_stack m \<noteq> []" and c: "c = last (um_undo_stack m)"
    and m1: "m1 = m\<lparr>um_redo_stack := um_redo_stack m @ [checkpoint_new i n ms (''Turn '' @ show_nat n)],
               um_undo_stack := butlast (um_undo_stack m)\<rparr>"
    using assms(2) by (auto simp: undo_def Let_def split: if_splits)
  have inv: "undo_inv m1"
    using undo_inv_perform[OF assms(1), of "UndoOp i n ms"] assms(2) by simp
  have "um_undo_stack (push_undo x m1) = um_undo_stack m1 @ [x]" for x
    by (rule redo_no_trim[OF inv]) (simp add: m1)
  then have "push_undo x m1 = m1\<lparr>um_undo_stack := um_undo_stack m1 @ [x]\<rparr>" for x
    by (simp add: push_undo_def)
  then show ?thesis
    using ne c by (simp add: redo_def m1 Let_def)
qed

theorem undo_then_redo_witness:
  "fst (redo 8 0 [] (snd (undo 9 1 [msg_user ''x'']
     (take_checkpoint 1 0 [] ''d'' undo_manager_new)))) =
   Some (checkpoint_new 9 1 [msg_user ''x''] (''Turn '' @ show_nat 1))"
proof -
  let ?m = "take_checkpoint 1 0 [] ''d'' undo_manager_new"
  let ?c = "checkpoint_new 1 0 [] ''d''"
  have "undo_inv ?m"
    using undo_inv_perform[OF undo_inv_new, of "TakeCheckpoint 1 0 [] ''d''"] by simp
  moreover have u: "undo 9 1 [msg_user ''x''] ?m = (Some ?c, snd (undo 9 1 [msg_user ''x''] ?m))"
    by (simp add: undo_def take_checkpoint_def push_undo_def undo_manager_new_def
        DEFAULT_MAX_CHECKPOINTS_def Let_def)
  ultimately show ?thesis
    using undo_then_redo[of ?m 9 1 "[msg_user ''x'']" ?c _ 8] by (simp add: checkpoint_new_def)
qed

end
