(* ===== verification/Submission.thy ===== *)
theory Submission
  imports Json
begin

text \<open>
  Parsing user input into submissions, \<open>src/agent/submission.rs\<close>. \<open>Uuid::parse_str\<close> and the
  deserialisation of a structured approval (\<open>serde_json::from_str::<Submission>\<close>) are the
  parameters \<open>parse_uuid\<close> and \<open>from_json\<close>. The stages of \<open>parse\<close> are its blocks of tests, in order;
  each gives the submission it returns, or \<open>None\<close> where the code falls through.
\<close>

section \<open>Submissions\<close>

datatype submission =
    UserInput string
  | ExecApproval uuid bool bool
  | ApprovalResponse bool bool
  | Interrupt
  | Compact
  | Undo
  | Redo
  | Resume uuid
  | Clear
  | SwitchThread uuid
  | NewThread
  | Heartbeat
  | Summarize
  | Suggest
  | JobStatus "string option"
  | JobCancel string
  | Quit
  | SystemCommand string "string list"

datatype submission_result =
    Response string
  | NeedApproval uuid string string json bool
  | OkResult "string option"
  | ErrorResult string
  | InterruptedResult

definition is_control :: "submission \<Rightarrow> bool" where
  "is_control s =
     (case s of
        Interrupt \<Rightarrow> True | Compact \<Rightarrow> True | Undo \<Rightarrow> True | Redo \<Rightarrow> True | Clear \<Rightarrow> True
      | NewThread \<Rightarrow> True | Heartbeat \<Rightarrow> True | Summarize \<Rightarrow> True | Suggest \<Rightarrow> True
      | JobStatus _ \<Rightarrow> True | JobCancel _ \<Rightarrow> True | SystemCommand _ _ \<Rightarrow> True
      | _ \<Rightarrow> False)"

definition ok_with_message :: "string \<Rightarrow> submission_result" where
  "ok_with_message m = OkResult (Some m)"

definition error_result :: "string \<Rightarrow> submission_result" where
  "error_result m = ErrorResult m"

definition pending_result :: "string \<Rightarrow> submission_result" where
  "pending_result m = OkResult (Some m)"

section \<open>The parser\<close>

definition control_command :: "string \<Rightarrow> submission option" where
  "control_command lower =
     (if lower = ''/undo'' then Some Undo
      else if lower = ''/redo'' then Some Redo
      else if lower = ''/interrupt'' \<or> lower = ''/stop'' then Some Interrupt
      else if lower = ''/compact'' then Some Compact
      else if lower = ''/clear'' then Some Clear
      else if lower = ''/heartbeat'' then Some Heartbeat
      else if lower = ''/summarize'' \<or> lower = ''/summary'' then Some Summarize
      else if lower = ''/suggest'' then Some Suggest
      else if lower = ''/thread new'' \<or> lower = ''/new'' then Some NewThread
      else None)"

definition command_args :: "string \<Rightarrow> string list" where
  "command_args trimmed = drop 1 (split_whitespace trimmed)"

definition system_command :: "string \<Rightarrow> string \<Rightarrow> submission option" where
  "system_command lower trimmed =
     (if lower = ''/help'' \<or> lower = ''/?'' then Some (SystemCommand ''help'' [])
      else if lower = ''/version'' then Some (SystemCommand ''version'' [])
      else if lower = ''/tools'' then Some (SystemCommand ''tools'' [])
      else if lower = ''/skills'' then Some (SystemCommand ''skills'' [])
      else if starts_with ''/skills '' lower then Some (SystemCommand ''skills'' (command_args trimmed))
      else if lower = ''/ping'' then Some (SystemCommand ''ping'' [])
      else if lower = ''/debug'' then Some (SystemCommand ''debug'' [])
      else if lower = ''/reasoning'' \<or> starts_with ''/reasoning '' lower
      then Some (SystemCommand ''reasoning'' (command_args trimmed))
      else if lower = ''/restart'' then Some (SystemCommand ''restart'' [])
      else if starts_with ''/model'' lower then Some (SystemCommand ''model'' (command_args trimmed))
      else if lower = ''/quit'' \<or> lower = ''/exit'' \<or> lower = ''/shutdown'' then Some Quit
      else None)"

definition nonempty_id :: "string option \<Rightarrow> string option" where
  "nonempty_id rest =
     (case rest of Some r \<Rightarrow> (if trim r \<noteq> [] then Some (trim r) else None) | None \<Rightarrow> None)"

definition job_command :: "string \<Rightarrow> submission option" where
  "job_command lower =
     (if lower = ''/status'' \<or> lower = ''/progress'' then Some (JobStatus None)
      else
        (case nonempty_id (case strip_prefix ''/status '' lower of
                             Some r \<Rightarrow> Some r
                           | None \<Rightarrow> strip_prefix ''/progress '' lower) of
           Some i \<Rightarrow> Some (JobStatus (Some i))
         | None \<Rightarrow>
             if lower = ''/list'' then Some (JobStatus None)
             else (case nonempty_id (strip_prefix ''/cancel '' lower) of
                     Some i \<Rightarrow> Some (JobCancel i)
                   | None \<Rightarrow> None)))"

definition thread_command :: "(string \<Rightarrow> uuid option) \<Rightarrow> string \<Rightarrow> submission option" where
  "thread_command parse_uuid lower =
     (case (case strip_prefix ''/thread '' lower of
              Some r \<Rightarrow> (if trim r \<noteq> ''new'' then parse_uuid (trim r) else None)
            | None \<Rightarrow> None) of
        Some i \<Rightarrow> Some (SwitchThread i)
      | None \<Rightarrow>
          (case strip_prefix ''/resume '' lower of
             Some r \<Rightarrow> map_option Resume (parse_uuid (trim r))
           | None \<Rightarrow> None))"

definition json_approval :: "(string \<Rightarrow> submission option) \<Rightarrow> string \<Rightarrow> submission option" where
  "json_approval from_json trimmed =
     (if starts_with ''{'' trimmed
      then (case from_json trimmed of
              Some (ExecApproval r a b) \<Rightarrow> Some (ExecApproval r a b)
            | _ \<Rightarrow> None)
      else None)"

definition yes_words :: "string list" where
  "yes_words = [''yes'', ''y'', ''approve'', ''ok'', ''/approve'', ''/yes'', ''/y'']"

definition always_words :: "string list" where
  "always_words = [''always'', ''a'', ''yes always'', ''approve always'', ''/always'', ''/a'']"

definition no_words :: "string list" where
  "no_words = [''no'', ''n'', ''deny'', ''reject'', ''cancel'', ''/deny'', ''/no'', ''/n'']"

definition approval_word :: "string \<Rightarrow> submission option" where
  "approval_word lower =
     (if lower \<in> set yes_words then Some (ApprovalResponse True False)
      else if lower \<in> set always_words then Some (ApprovalResponse True True)
      else if lower \<in> set no_words then Some (ApprovalResponse False False)
      else None)"

fun first_some :: "'a option list \<Rightarrow> 'a option" where
  "first_some [] = None"
| "first_some (x # xs) = (case x of Some v \<Rightarrow> Some v | None \<Rightarrow> first_some xs)"

definition parse ::
  "(string \<Rightarrow> uuid option) \<Rightarrow> (string \<Rightarrow> submission option) \<Rightarrow> string \<Rightarrow> submission" where
  "parse parse_uuid from_json content =
     (let trimmed = trim content; lower = to_lower trimmed
      in case first_some
           [control_command lower, system_command lower trimmed, job_command lower,
            thread_command parse_uuid lower, json_approval from_json trimmed, approval_word lower] of
           Some s \<Rightarrow> s
         | None \<Rightarrow> UserInput content)"

section \<open>Which stage gives what\<close>

lemma first_some_eq: "first_some xs = Some v \<Longrightarrow> Some v \<in> set xs"
  by (induction xs) (auto split: option.splits)

lemma if_SomeE:
  assumes "(if P then Some a else x) = Some s" "a = s \<Longrightarrow> Q" "x = Some s \<Longrightarrow> Q"
  shows Q
  using assms by (cases P) auto

lemma control_command_kind: "control_command l = Some s \<Longrightarrow> is_control s"
  unfolding control_command_def by (elim if_SomeE) (simp_all add: is_control_def)

lemma system_command_kind:
  "system_command l t = Some s \<Longrightarrow> s = Quit \<or> (\<exists>c as. s = SystemCommand c as)"
  unfolding system_command_def by (elim if_SomeE) auto

lemma job_command_kind:
  "job_command l = Some s \<Longrightarrow> (\<exists>i. s = JobStatus i) \<or> (\<exists>i. s = JobCancel i)"
  by (auto simp: job_command_def split: if_splits option.splits)

lemma thread_command_kind:
  "thread_command p l = Some s \<Longrightarrow> (\<exists>i. s = SwitchThread i) \<or> (\<exists>i. s = Resume i)"
  by (auto simp: thread_command_def split: if_splits option.splits)

lemma json_approval_kind:
  "json_approval f t = Some s \<Longrightarrow> (\<exists>r a b. s = ExecApproval r a b) \<and> starts_with ''{'' t \<and> f t = Some s"
  by (auto simp: json_approval_def split: if_splits option.splits submission.splits)

lemma approval_word_kind: "approval_word l = Some s \<Longrightarrow> \<exists>a b. s = ApprovalResponse a b"
  by (auto simp: approval_word_def split: if_splits)

lemmas stage_kinds = control_command_kind system_command_kind job_command_kind thread_command_kind
  json_approval_kind approval_word_kind

text \<open>The words of an approval are none of the commands that are tried before.\<close>

lemma approval_words_no_command:
  "list_all (\<lambda>l. control_command l = None) (yes_words @ always_words @ no_words)"
  "list_all (\<lambda>l. system_command l t = None) (yes_words @ always_words @ no_words)"
  "list_all (\<lambda>l. job_command l = None) (yes_words @ always_words @ no_words)"
  "list_all (\<lambda>l. thread_command p l = None) (yes_words @ always_words @ no_words)"
  by code_simp+

lemma approval_word_first:
  assumes "approval_word l = Some s"
  shows "control_command l = None" "system_command l t = None" "job_command l = None"
    "thread_command p l = None"
proof -
  have "l \<in> set (yes_words @ always_words @ no_words)"
    using assms by (auto simp: approval_word_def split: if_splits)
  then show "control_command l = None" "system_command l t = None" "job_command l = None"
    "thread_command p l = None"
    using approval_words_no_command(1) approval_words_no_command(2)[of t] approval_words_no_command(3)
      approval_words_no_command(4)[of p]
    unfolding list_all_iff by blast+
qed

lemma parse_stage:
  "parse p f c = UserInput c \<or>
   Some (parse p f c) \<in> {control_command (to_lower (trim c)), system_command (to_lower (trim c)) (trim c),
     job_command (to_lower (trim c)), thread_command p (to_lower (trim c)),
     json_approval f (trim c), approval_word (to_lower (trim c))}"
  by (auto simp: parse_def Let_def simp del: first_some.simps split: option.splits dest!: first_some_eq)

section \<open>Properties\<close>

text \<open>
  An approval is never inferred: the input is read as an approval answer exactly when, trimmed
  and in lower case, it is one of the listed words (and not a structured approval), and as a
  structured approval only when it is a JSON object that deserialises to one.
\<close>

theorem approval_only_by_word:
  "(parse p f c = ApprovalResponse True always \<longrightarrow>
      to_lower (trim c) \<in> set (if always then always_words else yes_words)) \<and>
   (parse p f c = ExecApproval r a b \<longrightarrow>
      starts_with ''{'' (trim c) \<and> f (trim c) = Some (ExecApproval r a b)) \<and>
   (\<not> starts_with ''{'' (trim c) \<and> to_lower (trim c) \<in> set always_words \<longrightarrow>
      parse p f c = ApprovalResponse True True)"
proof (intro conjI impI)
  assume "parse p f c = ApprovalResponse True always"
  then have "approval_word (to_lower (trim c)) = Some (ApprovalResponse True always)"
    using parse_stage[of p f c] by (auto simp: is_control_def dest!: sym[of "Some _"] stage_kinds)
  then show "to_lower (trim c) \<in> set (if always then always_words else yes_words)"
    by (auto simp: approval_word_def split: if_splits)
next
  assume "parse p f c = ExecApproval r a b"
  then have "json_approval f (trim c) = Some (ExecApproval r a b)"
    using parse_stage[of p f c] by (auto simp: is_control_def dest!: sym[of "Some _"] stage_kinds)
  then show "starts_with ''{'' (trim c)" "f (trim c) = Some (ExecApproval r a b)"
    using json_approval_kind by auto
next
  assume a: "\<not> starts_with ''{'' (trim c) \<and> to_lower (trim c) \<in> set always_words"
  then have w: "approval_word (to_lower (trim c)) = Some (ApprovalResponse True True)"
    by (auto simp: approval_word_def yes_words_def always_words_def)
  show "parse p f c = ApprovalResponse True True"
    using a w approval_word_first[OF w] by (simp add: parse_def Let_def json_approval_def)
qed

theorem approval_only_by_word_witness:
  "parse (\<lambda>_. None) (\<lambda>_. None) ''  Yes Always'' = ApprovalResponse True True"
proof -
  have "\<not> starts_with ''{'' (trim ''  Yes Always'') \<and> to_lower (trim ''  Yes Always'') \<in> set always_words"
    by code_simp
  with approval_only_by_word[of "\<lambda>_. None" "\<lambda>_. None" "''  Yes Always''"] show ?thesis by blast
qed

text \<open>
  Input that is no command keeps its text unchanged, white space included.
\<close>

theorem user_input_verbatim: "parse p f c = UserInput d \<Longrightarrow> d = c"
  using parse_stage[of p f c] by (auto simp: is_control_def dest!: sym[of "Some _"] stage_kinds)

theorem user_input_verbatim_witness:
  "parse (\<lambda>_. None) (\<lambda>_. None) '' hi'' = UserInput '' hi''"
proof -
  have "parse (\<lambda>_. None) (\<lambda>_. None) '' hi'' = UserInput '' hi''" by code_simp
  moreover from user_input_verbatim[OF this] have "'' hi'' = '' hi''" .
  ultimately show ?thesis by simp
qed

text \<open>
  The model command is matched by its bare prefix, unlike the other commands with arguments:
  every input that begins with those six characters is taken as a request to change the model.
\<close>

theorem model_prefix_captures:
  "starts_with ''/model'' (to_lower (trim c)) \<Longrightarrow>
   parse p f c = SystemCommand ''model'' (command_args (trim c))"
  by (auto simp: parse_def Let_def control_command_def system_command_def starts_with_def prefix_def)

theorem model_prefix_captures_witness:
  "parse (\<lambda>_. None) (\<lambda>_. None) ''/models are fun'' = SystemCommand ''model'' [''are'', ''fun'']"
proof -
  have "starts_with ''/model'' (to_lower (trim ''/models are fun''))" by code_simp
  moreover have "command_args (trim ''/models are fun'') = [''are'', ''fun'']" by code_simp
  ultimately show ?thesis using model_prefix_captures by metis
qed

end
