(* ===== verification/Thread_Ops.thy ===== *)
theory Thread_Ops
  imports Undo Context_Manager Submission
begin

text \<open>
  The handlers of \<open>src/agent/thread_ops.rs\<close> that move a thread through its history (undo, redo,
  interrupt, clear, resume), the checkpoint that is taken before each turn, and the rebuilding of a
  thread from database rows. They work on one session and on the undo managers that the session
  manager keeps per thread.
\<close>

section \<open>State\<close>

record agent_threads =
  ag_session :: session
  ag_undo_managers :: "(uuid \<times> undo_manager) list"

definition get_undo_manager :: "uuid \<Rightarrow> agent_threads \<Rightarrow> undo_manager \<times> agent_threads" where
  "get_undo_manager thread_id a =
     (case hm_get (ag_undo_managers a) thread_id of
        Some m \<Rightarrow> (m, a)
      | None \<Rightarrow> (undo_manager_new,
                 a\<lparr>ag_undo_managers := hm_put thread_id undo_manager_new (ag_undo_managers a)\<rparr>))"

definition find_thread :: "uuid \<Rightarrow> agent_threads \<Rightarrow> thread option" where
  "find_thread thread_id a = hm_get (se_threads (ag_session a)) thread_id"

definition set_thread :: "uuid \<Rightarrow> thread \<Rightarrow> agent_threads \<Rightarrow> agent_threads" where
  "set_thread thread_id t a =
     a\<lparr>ag_session := (ag_session a)\<lparr>se_threads := hm_put thread_id t (se_threads (ag_session a))\<rparr>\<rparr>"

definition set_undo_manager :: "uuid \<Rightarrow> undo_manager \<Rightarrow> agent_threads \<Rightarrow> agent_threads" where
  "set_undo_manager thread_id m a =
     a\<lparr>ag_undo_managers := hm_put thread_id m (ag_undo_managers a)\<rparr>"

section \<open>Handlers\<close>

definition process_undo ::
  "(json \<Rightarrow> string) \<Rightarrow> uuid \<Rightarrow> utc \<Rightarrow> uuid \<Rightarrow> agent_threads \<Rightarrow>
   (job_error, submission_result) result \<times> agent_threads" where
  "process_undo render new_id now thread_id a =
     (let (m, a1) = get_undo_manager thread_id a
      in if \<not> can_undo m then (Inr (ok_with_message ''Nothing to undo.''), a1)
         else
           (case find_thread thread_id a1 of
              None \<Rightarrow> (Inl (NotFound thread_id), a1)
            | Some t \<Rightarrow>
                (case undo new_id (turn_number t) (thread_messages render t) m of
                   (Some c, m') \<Rightarrow>
                     (Inr (ok_with_message
                        (''Undone to turn '' @ show_nat (cp_turn_number c) @ ''. '' @
                         show_nat (undo_count m') @ '' undo(s) remaining.'')),
                      set_thread thread_id (restore_from_messages now (cp_messages c) t)
                        (set_undo_manager thread_id m' a1))
                 | (None, m') \<Rightarrow>
                     (Inr (error_result ''Undo failed.''), set_undo_manager thread_id m' a1))))"

definition process_redo ::
  "(json \<Rightarrow> string) \<Rightarrow> uuid \<Rightarrow> utc \<Rightarrow> uuid \<Rightarrow> agent_threads \<Rightarrow>
   (job_error, submission_result) result \<times> agent_threads" where
  "process_redo render new_id now thread_id a =
     (let (m, a1) = get_undo_manager thread_id a
      in if \<not> can_redo m then (Inr (ok_with_message ''Nothing to redo.''), a1)
         else
           (case find_thread thread_id a1 of
              None \<Rightarrow> (Inl (NotFound thread_id), a1)
            | Some t \<Rightarrow>
                (case redo new_id (turn_number t) (thread_messages render t) m of
                   (Some c, m') \<Rightarrow>
                     (Inr (ok_with_message (''Redone to turn '' @ show_nat (cp_turn_number c) @ ''.'')),
                      set_thread thread_id (restore_from_messages now (cp_messages c) t)
                        (set_undo_manager thread_id m' a1))
                 | (None, m') \<Rightarrow>
                     (Inr (error_result ''Redo failed.''), set_undo_manager thread_id m' a1))))"

definition process_interrupt ::
  "utc \<Rightarrow> uuid \<Rightarrow> agent_threads \<Rightarrow> (job_error, submission_result) result \<times> agent_threads" where
  "process_interrupt now thread_id a =
     (case find_thread thread_id a of
        None \<Rightarrow> (Inl (NotFound thread_id), a)
      | Some t \<Rightarrow>
          if th_state t = ThProcessing \<or> th_state t = ThAwaitingApproval
          then (Inr (ok_with_message ''Interrupted.''), set_thread thread_id (thread_interrupt now t) a)
          else (Inr (ok_with_message ''Nothing to interrupt.''), a))"

definition process_clear ::
  "uuid \<Rightarrow> agent_threads \<Rightarrow> (job_error, submission_result) result \<times> agent_threads" where
  "process_clear thread_id a =
     (case find_thread thread_id a of
        None \<Rightarrow> (Inl (NotFound thread_id), a)
      | Some t \<Rightarrow>
          (let a1 = set_thread thread_id
                      (t\<lparr>th_turns := [], th_pending_messages := [], th_state := ThIdle\<rparr>) a;
               (m, a2) = get_undo_manager thread_id a1
           in (Inr (ok_with_message ''Thread cleared.''), set_undo_manager thread_id (undo_clear m) a2)))"

definition process_resume ::
  "utc \<Rightarrow> uuid \<Rightarrow> uuid \<Rightarrow> agent_threads \<Rightarrow> (job_error, submission_result) result \<times> agent_threads" where
  "process_resume now thread_id checkpoint_id a =
     (let (m, a1) = get_undo_manager thread_id a
      in case undo_restore checkpoint_id m of
           (None, m') \<Rightarrow>
             (Inr (error_result ''Checkpoint not found.''), set_undo_manager thread_id m' a1)
         | (Some c, m') \<Rightarrow>
             (let a2 = set_undo_manager thread_id m' a1
              in case find_thread thread_id a2 of
                   None \<Rightarrow> (Inl (NotFound thread_id), a2)
                 | Some t \<Rightarrow>
                     (Inr (ok_with_message (''Resumed from checkpoint: '' @ cp_description c)),
                      set_thread thread_id (restore_from_messages now (cp_messages c) t) a2)))"

text \<open>The checkpoint of \<open>process_user_input\<close>, taken before the turn starts.\<close>

definition checkpoint_before_turn ::
  "(json \<Rightarrow> string) \<Rightarrow> uuid \<Rightarrow> uuid \<Rightarrow> agent_threads \<Rightarrow> (job_error, unit) result \<times> agent_threads" where
  "checkpoint_before_turn render new_id thread_id a =
     (let (m, a1) = get_undo_manager thread_id a
      in case find_thread thread_id a1 of
           None \<Rightarrow> (Inl (NotFound thread_id), a1)
         | Some t \<Rightarrow>
             (Inr (), set_undo_manager thread_id
                (take_checkpoint new_id (turn_number t) (thread_messages render t)
                   (''Before turn '' @ show_nat (turn_number t)) m) a1))"

definition begin_turn ::
  "utc \<Rightarrow> string \<Rightarrow> content_part list \<Rightarrow> uuid \<Rightarrow> agent_threads \<Rightarrow>
   (job_error, unit) result \<times> agent_threads" where
  "begin_turn now content parts thread_id a =
     (case find_thread thread_id a of
        None \<Rightarrow> (Inl (NotFound thread_id), a)
      | Some t \<Rightarrow> (Inr (), set_thread thread_id (attach_images parts (start_turn now content t)) a))"

section \<open>Rebuilding from the database\<close>

text \<open>The columns of a stored message that the code reads.\<close>

record db_message =
  db_role :: string
  db_content :: string

definition as_str :: "json option \<Rightarrow> string option" where
  "as_str v = (case v of Some (JString s) \<Rightarrow> Some s | _ \<Rightarrow> None)"

definition as_array :: "json option \<Rightarrow> json list option" where
  "as_array v = (case v of Some (JArray xs) \<Rightarrow> Some xs | _ \<Rightarrow> None)"

definition or_else :: "'a option \<Rightarrow> 'a \<Rightarrow> 'a" where
  "or_else v d = (case v of Some x \<Rightarrow> x | None \<Rightarrow> d)"

definition stored_calls :: "(string \<Rightarrow> json option) \<Rightarrow> string \<Rightarrow> json list" where
  "stored_calls from_str content =
     (case from_str content of
        Some (JArray arr) \<Rightarrow> arr
      | Some (JObject es) \<Rightarrow> or_else (as_array (json_get ''calls'' (JObject es))) []
      | _ \<Rightarrow> [])"

definition stored_call_id :: "json \<Rightarrow> string" where
  "stored_call_id c = or_else (as_str (json_get ''call_id'' c)) ''call_0''"

definition stored_name :: "json \<Rightarrow> string" where
  "stored_name c = or_else (as_str (json_get ''name'' c)) ''unknown''"

definition stored_tool_call :: "json \<Rightarrow> tool_call" where
  "stored_tool_call c =
     \<lparr>tc_id = stored_call_id c, tc_name = stored_name c,
      tc_arguments = or_else (json_get ''parameters'' c) (JObject []),
      tc_reasoning = as_str (json_get ''rationale'' c)\<rparr>"

definition stored_content :: "json \<Rightarrow> string" where
  "stored_content c =
     (case as_str (json_get ''error'' c) of
        Some err \<Rightarrow> err
      | None \<Rightarrow>
          (case as_str (json_get ''result'' c) of
             Some res \<Rightarrow> res
           | None \<Rightarrow> or_else (as_str (json_get ''result_preview'' c)) ''OK''))"

definition rebuild_calls :: "json list \<Rightarrow> chat_message list" where
  "rebuild_calls calls =
     (if calls = [] then []
      else if as_str (json_get ''call_id'' (hd calls)) \<noteq> None
      then msg_assistant_with_tool_calls None (map stored_tool_call calls) #
           map (\<lambda>c. msg_tool_result (stored_call_id c) (stored_name c) (stored_content c)) calls
      else [])"

definition rebuild_row :: "(string \<Rightarrow> json option) \<Rightarrow> db_message \<Rightarrow> chat_message list" where
  "rebuild_row from_str m =
     (if db_role m = ''user'' then [msg_user (db_content m)]
      else if db_role m = ''assistant'' then [msg_assistant (db_content m)]
      else if db_role m = ''tool_calls'' then rebuild_calls (stored_calls from_str (db_content m))
      else [])"

definition rebuild_chat_messages_from_db ::
  "(string \<Rightarrow> json option) \<Rightarrow> db_message list \<Rightarrow> chat_message list" where
  "rebuild_chat_messages_from_db from_str ms = concat (map (rebuild_row from_str) ms)"

text \<open>A sample state: one thread with a completed turn and one checkpoint.\<close>

definition sample_agent :: agent_threads where
  "sample_agent =
     \<lparr>ag_session = (session_new 6 0 ''u'')\<lparr>se_threads := [(5, sample_thread)]\<rparr>,
      ag_undo_managers = [(5, take_checkpoint 1 1 [] ''Before turn 1'' undo_manager_new)]\<rparr>"

section \<open>Lemmas\<close>

lemma find_thread_set [simp]:
  "find_thread i (set_thread j t a) = (if i = j then Some t else find_thread i a)"
  "find_thread i (set_undo_manager j m a) = find_thread i a"
  by (simp_all add: find_thread_def set_thread_def set_undo_manager_def)

lemma get_undo_manager_set [simp]:
  "get_undo_manager i (set_undo_manager i m a) = (m, set_undo_manager i m a)"
  "get_undo_manager i (set_thread j t a) =
     (fst (get_undo_manager i a), set_thread j t (snd (get_undo_manager i a)))"
  by (auto simp: get_undo_manager_def set_undo_manager_def set_thread_def split: option.splits)

lemma find_thread_get_undo [simp]: "find_thread i (snd (get_undo_manager j a)) = find_thread i a"
  by (simp add: get_undo_manager_def find_thread_def split: option.splits)

lemma fst_get_undo_manager_set [simp]:
  "fst (get_undo_manager i (snd (get_undo_manager i a))) = fst (get_undo_manager i a)"
  by (simp add: get_undo_manager_def split: option.splits)

lemma known_tool_ids_Cons: "known_tool_ids (m # ms) = known_tool_ids [m] @ known_tool_ids ms"
  by (simp add: known_tool_ids_def)

lemma stored_declaration:
  "calls \<noteq> [] \<Longrightarrow>
   known_tool_ids [msg_assistant_with_tool_calls None (map stored_tool_call calls)] =
     map stored_call_id calls"
  by (simp add: known_tool_ids_def msg_assistant_with_tool_calls_def stored_tool_call_def)

lemma rebuild_calls_answered:
  assumes "m \<in> set (rebuild_calls calls)" "cm_role m = Tool"
  shows "\<exists>i \<in> set (known_tool_ids (rebuild_calls calls)). cm_tool_call_id m = Some i"
proof -
  let ?d = "msg_assistant_with_tool_calls None (map stored_tool_call calls)"
  let ?rs = "map (\<lambda>c. msg_tool_result (stored_call_id c) (stored_name c) (stored_content c)) calls"
  have ne: "calls \<noteq> []" and eq: "rebuild_calls calls = ?d # ?rs"
    using assms(1) by (simp_all add: rebuild_calls_def split: if_splits)
  have "m \<noteq> ?d" using assms(2) message_roles(5)[of None "map stored_tool_call calls"] by auto
  with assms(1) eq have "m \<in> set ?rs" by simp
  then obtain c where c: "c \<in> set calls" "cm_tool_call_id m = Some (stored_call_id c)"
    using tool_result_id by (metis (no_types, lifting) imageE set_map)
  from c(1) have "stored_call_id c \<in> set (known_tool_ids (rebuild_calls calls))"
    unfolding eq known_tool_ids_Cons[of ?d ?rs] stored_declaration[OF ne] by (simp only: set_append set_map) blast
  with c(2) show ?thesis by blast
qed

lemma rebuild_row_answered:
  assumes "m \<in> set (rebuild_row from_str r)" "cm_role m = Tool"
  shows "\<exists>i \<in> set (known_tool_ids (rebuild_row from_str r)). cm_tool_call_id m = Some i"
proof -
  have "rebuild_row from_str r = rebuild_calls (stored_calls from_str (db_content r))"
    using assms by (simp add: rebuild_row_def message_roles split: if_splits)
  then show ?thesis using assms rebuild_calls_answered by simp
qed

section \<open>Properties\<close>

text \<open>
  Undo followed by redo brings a thread back: when its turns hold no image data and its tool texts
  are ASCII or short, the messages of the thread after both are the messages it had, and both report
  success.
\<close>

theorem undo_redo_thread:
  assumes "find_thread i a = Some t" "list_all (replayable render) (th_turns t)"
    "undo_inv (fst (get_undo_manager i a))" "can_undo (fst (get_undo_manager i a))"
    "process_undo render n1 now1 i a = (r1, a1)" "process_redo render n2 now2 i a1 = (r2, a2)"
  shows "(\<exists>msg. r1 = Inr (OkResult msg)) \<and> (\<exists>msg. r2 = Inr (OkResult msg)) \<and>
    (\<exists>t1 t2. find_thread i a1 = Some t1 \<and> find_thread i a2 = Some t2 \<and>
       thread_messages render t2 = thread_messages render t)"
proof -
  let ?m = "fst (get_undo_manager i a)"
  obtain c m' where u: "undo n1 (turn_number t) (thread_messages render t) ?m = (Some c, m')"
    using assms(4) by (auto simp: undo_def can_undo_def Let_def)
  define t1 where "t1 = restore_from_messages now1 (cp_messages c) t"
  have a1: "a1 = set_thread i t1 (set_undo_manager i m' (snd (get_undo_manager i a)))"
      "\<exists>msg. r1 = Inr (OkResult msg)"
    using assms(1,4,5) u
    by (auto simp: process_undo_def case_prod_unfold Let_def t1_def ok_with_message_def)
  have g: "get_undo_manager i a1 = (m', a1)" by (simp add: a1)
  have m': "um_redo_stack m' \<noteq> []" "last (um_redo_stack m') =
      checkpoint_new n1 (turn_number t) (thread_messages render t) (''Turn '' @ show_nat (turn_number t))"
    using u by (auto simp: undo_def Let_def split: if_splits)
  obtain m'' where rd: "redo n2 (turn_number t1) (thread_messages render t1) m' =
      (Some (last (um_redo_stack m')), m'')"
    using m' by (auto simp: redo_def push_undo_def Let_def)
  have f: "find_thread i a1 = Some t1" by (simp add: a1)
  have a2: "a2 = set_thread i (restore_from_messages now2 (thread_messages render t) t1)
        (set_undo_manager i m'' a1)" "\<exists>msg. r2 = Inr (OkResult msg)"
    using assms(6) rd m' f
    by (auto simp: process_redo_def g can_redo_def Let_def ok_with_message_def checkpoint_new_def)
  have "find_thread i a2 = Some (restore_from_messages now2 (thread_messages render t) t1)"
    by (simp add: a2)
  with f a1(2) a2(2) thread_messages_restored[OF assms(2)] show ?thesis by blast
qed

theorem undo_redo_thread_witness:
  "\<exists>t2. find_thread 5 (snd (process_redo (\<lambda>_. ''j'') 3 9 5 (snd (process_undo (\<lambda>_. ''j'') 2 8 5 sample_agent)))) =
     Some t2 \<and> thread_messages (\<lambda>_. ''j'') t2 = thread_messages (\<lambda>_. ''j'') sample_thread"
proof -
  have 1: "find_thread 5 sample_agent = Some sample_thread"
    by (simp add: find_thread_def sample_agent_def hm_get_def)
  have 2: "list_all (replayable (\<lambda>_. ''j'')) (th_turns sample_thread)"
    by (simp add: sample_thread_def sample_turn_def replayable_def turn_complete_def turn_new_def
        record_tool_result_for_def record_tool_call_with_reasoning_def target_call_def call_text_def)
  have 3: "fst (get_undo_manager 5 sample_agent) = take_checkpoint 1 1 [] ''Before turn 1'' undo_manager_new"
    by (simp add: get_undo_manager_def sample_agent_def hm_get_def)
  have 4: "undo_inv (fst (get_undo_manager 5 sample_agent))"
    using undo_inv_perform[OF undo_inv_new, of "TakeCheckpoint 1 1 [] ''Before turn 1''"] by (simp add: 3)
  have 5: "can_undo (fst (get_undo_manager 5 sample_agent))"
    by (simp add: 3 can_undo_def take_checkpoint_def push_undo_def undo_manager_new_def
        DEFAULT_MAX_CHECKPOINTS_def)
  show ?thesis
    using undo_redo_thread[OF 1 2 4 5, of 2 8 _ _ 3 9] by (metis prod.collapse)
qed

text \<open>
  Undo takes a turn back: a checkpoint, then a turn that is started (with or without images) and
  completed, then an undo leave a thread with the messages it had before the turn.
\<close>

theorem undo_reverts_turn:
  assumes "find_thread i a = Some t" "list_all (replayable render) (th_turns t)"
    "undo_inv (fst (get_undo_manager i a))"
  shows "let a1 = snd (checkpoint_before_turn render n1 i a);
             a2 = snd (begin_turn now1 content parts i a1);
             a3 = set_thread i (complete_turn now2 response (the (find_thread i a2))) a2;
             a4 = snd (process_undo render n2 now3 i a3)
         in \<exists>t4. find_thread i a4 = Some t4 \<and> thread_messages render t4 = thread_messages render t"
proof -
  let ?m = "fst (get_undo_manager i a)"
  let ?c = "checkpoint_new n1 (turn_number t) (thread_messages render t)
      (''Before turn '' @ show_nat (turn_number t))"
  let ?m1 = "take_checkpoint n1 (turn_number t) (thread_messages render t)
      (''Before turn '' @ show_nat (turn_number t)) ?m"
  have st: "um_undo_stack ?m1 \<noteq> []" "last (um_undo_stack ?m1) = ?c"
    using assms(3) last_keep_last[of "um_max_checkpoints ?m" "um_undo_stack ?m @ [?c]"]
    by (auto simp: take_checkpoint_def push_undo_def pop_front_to_eq undo_inv_def keep_last_append1)
  have a1: "snd (checkpoint_before_turn render n1 i a) = set_undo_manager i ?m1 (snd (get_undo_manager i a))"
    using assms(1) by (simp add: checkpoint_before_turn_def case_prod_unfold Let_def)
  obtain m2 where u: "undo n2 k ms ?m1 = (Some ?c, m2 k ms)" for k ms
    using st by (simp add: undo_def Let_def)
  show ?thesis
    using assms(1,2) st u
    by (simp add: a1 begin_turn_def process_undo_def can_undo_def Let_def checkpoint_new_def
        thread_messages_restored)
qed

theorem undo_reverts_turn_witness:
  "let a1 = snd (checkpoint_before_turn (\<lambda>_. ''j'') 2 5 sample_agent);
       a2 = snd (begin_turn 3 ''more'' [] 5 a1);
       a3 = set_thread 5 (complete_turn 4 ''ok'' (the (find_thread 5 a2))) a2;
       a4 = snd (process_undo (\<lambda>_. ''j'') 3 8 5 a3)
   in \<exists>t4. find_thread 5 a4 = Some t4 \<and>
      thread_messages (\<lambda>_. ''j'') t4 = thread_messages (\<lambda>_. ''j'') sample_thread"
proof -
  have 1: "find_thread 5 sample_agent = Some sample_thread"
    by (simp add: find_thread_def sample_agent_def hm_get_def)
  have 2: "list_all (replayable (\<lambda>_. ''j'')) (th_turns sample_thread)"
    by (simp add: sample_thread_def sample_turn_def replayable_def turn_complete_def turn_new_def
        record_tool_result_for_def record_tool_call_with_reasoning_def target_call_def call_text_def)
  have 3: "undo_inv (fst (get_undo_manager 5 sample_agent))"
    using undo_inv_perform[OF undo_inv_new, of "TakeCheckpoint 1 1 [] ''Before turn 1''"]
    by (simp add: get_undo_manager_def sample_agent_def hm_get_def)
  show ?thesis by (rule undo_reverts_turn[OF 1 2 3])
qed

text \<open>
  Messages rebuilt from the database never need the repair of orphaned tool results, whatever the
  rows contain: malformed, legacy and unknown rows are dropped and every rebuilt tool result follows
  a declaration of its call.
\<close>

theorem rebuilt_messages_need_no_repair:
  "sanitize_tool_messages (rebuild_chat_messages_from_db from_str rows) =
   rebuild_chat_messages_from_db from_str rows"
proof (rule sanitize_id_if)
  fix m
  assume "m \<in> set (rebuild_chat_messages_from_db from_str rows)" and tool: "cm_role m = Tool"
  then obtain r where "rebuild_row from_str r \<in> set (map (rebuild_row from_str) rows)"
      "m \<in> set (rebuild_row from_str r)"
    by (auto simp: rebuild_chat_messages_from_db_def)
  with tool rebuild_row_answered[of m from_str r] known_tool_ids_concat[of _ "map (rebuild_row from_str) rows"]
  show "\<exists>i\<in>set (known_tool_ids (rebuild_chat_messages_from_db from_str rows)). cm_tool_call_id m = Some i"
    unfolding rebuild_chat_messages_from_db_def by blast
qed

end
