(* ===== verification/Provider.thy ===== *)
theory Provider
  imports Llm_Types
begin

text \<open>
  The interface of the decorators around a language model (\<open>LlmProvider\<close> of
  \<open>src/llm/provider.rs\<close>): a completion takes a request and a state and gives a response or an error
  and the new state. The contract is that a response which a caller receives was answered by a
  backend. It is stated as a locale; each decorator shows that it keeps the contract of the provider
  it wraps. The backends are HTTP clients outside the model: here they are an arbitrary function of
  the number of the call and the request, with a log of what they answered.
\<close>

type_synonym ('q, 'r, 'w) llm = "'q \<Rightarrow> 'w \<Rightarrow> (llm_error, 'r) result \<times> 'w"

locale provider =
  fixes complete :: "('q, 'r, 'w) llm"
    and answered :: "'w \<Rightarrow> 'q \<Rightarrow> 'r \<Rightarrow> bool"
    and inv :: "'w \<Rightarrow> bool"
  assumes complete_inv: "inv w \<Longrightarrow> inv (snd (complete q w))"
    and complete_mono: "inv w \<Longrightarrow> answered w q' r \<Longrightarrow> answered (snd (complete q w)) q' r"
    and complete_sound: "inv w \<Longrightarrow> complete q w = (Inr r, w') \<Longrightarrow> answered w' q r"

record ('q, 'r) backend_log =
  bl_calls :: nat
  bl_answers :: "('q \<times> 'r) list"

definition backend_call ::
  "(nat \<Rightarrow> 'q \<Rightarrow> (llm_error, 'r) result) \<Rightarrow> ('q, 'r, ('q, 'r) backend_log) llm" where
  "backend_call f q w =
     (case f (bl_calls w) q of
        Inl e \<Rightarrow> (Inl e, w\<lparr>bl_calls := bl_calls w + 1\<rparr>)
      | Inr r \<Rightarrow> (Inr r, w\<lparr>bl_calls := bl_calls w + 1, bl_answers := bl_answers w @ [(q, r)]\<rparr>))"

definition backend_answered :: "('q, 'r) backend_log \<Rightarrow> 'q \<Rightarrow> 'r \<Rightarrow> bool" where
  "backend_answered w q r = ((q, r) \<in> set (bl_answers w))"

definition backend_new :: "('q, 'r) backend_log" where
  "backend_new = \<lparr>bl_calls = 0, bl_answers = []\<rparr>"

interpretation backend: provider "backend_call f" backend_answered "\<lambda>_. True"
  for f
  by unfold_locales (auto simp: backend_call_def backend_answered_def split: sum.splits)

lemma backend_call_count: "bl_calls (snd (backend_call f q w)) = Suc (bl_calls w)"
  by (simp add: backend_call_def split: sum.splits)

end
