(* ===== verification/Retry.thy ===== *)
theory Retry
  imports Provider
begin

text \<open>
  The retry decorator, \<open>src/llm/retry.rs\<close>. The operation is a function on the state of the wrapped
  provider; the loop returns its result, the delays it slept and the final state. The random jitter
  of each attempt is the argument \<open>offset\<close>; \<open>DateTime::parse_from_rfc2822\<close> is the parameter
  \<open>rfc2822\<close>.
\<close>

section \<open>Classification and delays\<close>

definition MAX_RETRY_AFTER_SECS :: nat where
  "MAX_RETRY_AFTER_SECS = 3600"

definition DEFAULT_RETRY_AFTER_SECS :: nat where
  "DEFAULT_RETRY_AFTER_SECS = 60"

definition from_secs :: "nat \<Rightarrow> duration" where
  "from_secs s = s * 1000000000"

definition from_millis :: "nat \<Rightarrow> duration" where
  "from_millis ms = ms * 1000000"

fun is_retryable :: "llm_error \<Rightarrow> bool" where
  "is_retryable (RequestFailed _ _) = True"
| "is_retryable (RateLimited _ _) = True"
| "is_retryable (InvalidResponse _ _) = True"
| "is_retryable (EmptyResponse _) = True"
| "is_retryable (SessionRenewalFailed _ _) = True"
| "is_retryable (Http _) = True"
| "is_retryable (Io _) = True"
| "is_retryable _ = False"

definition saturating_u64 :: "nat \<Rightarrow> nat" where
  "saturating_u64 n = min n (2 ^ 64 - 1)"

definition backoff_base_ms :: "nat \<Rightarrow> nat" where
  "backoff_base_ms attempt = saturating_u64 (1000 * saturating_u64 (2 ^ attempt))"

text \<open>
  \<open>offset\<close> is the number drawn from \<open>0..=jitter_range * 2\<close>. The casts to \<open>i64\<close> and the addition
  are those of 64-bit words; \<open>sint\<close> reads the signed value.
\<close>

definition retry_backoff_delay :: "nat \<Rightarrow> nat \<Rightarrow> duration" where
  "retry_backoff_delay attempt offset =
     (let base_ms = backoff_base_ms attempt;
          jitter_range = base_ms div 4;
          jitter = (if jitter_range > 0 then (word_of_nat offset :: 64 word) - word_of_nat jitter_range else 0);
          delay_ms = max (sint (word_of_nat base_ms + jitter :: 64 word)) 100
      in from_millis (nat delay_ms))"

definition cap_retry_after :: "duration \<Rightarrow> duration" where
  "cap_retry_after d = min d (from_secs MAX_RETRY_AFTER_SECS)"

fun digits_value :: "nat \<Rightarrow> string \<Rightarrow> nat option" where
  "digits_value acc [] = Some acc"
| "digits_value acc (c # cs) =
     (if is_ascii_digit c
      then (let v = acc * 10 + (ascii_code c - 48) in if v < 2 ^ 64 then digits_value v cs else None)
      else None)"

text \<open>\<open>str::parse::<u64>\<close>: an optional plus sign, then at least one digit, without overflow.\<close>

definition parse_u64 :: "string \<Rightarrow> nat option" where
  "parse_u64 s =
     (let ds = (case strip_prefix ''+'' s of Some r \<Rightarrow> r | None \<Rightarrow> s)
      in if ds = [] then None else digits_value 0 ds)"

definition secs_until :: "utc \<Rightarrow> utc \<Rightarrow> nat" where
  "secs_until now target = nat ((target - now) div 1000000000)"

definition parse_retry_after :: "(string \<Rightarrow> utc option) \<Rightarrow> utc \<Rightarrow> string option \<Rightarrow> duration" where
  "parse_retry_after rfc2822 now header =
     (case header of
        None \<Rightarrow> from_secs DEFAULT_RETRY_AFTER_SECS
      | Some v \<Rightarrow>
          (case parse_u64 (trim v) of
             Some secs \<Rightarrow> cap_retry_after (from_secs secs)
           | None \<Rightarrow>
               (case rfc2822 (trim v) of
                  Some dt \<Rightarrow> cap_retry_after (from_secs (secs_until now dt))
                | None \<Rightarrow> from_secs DEFAULT_RETRY_AFTER_SECS)))"

section \<open>The loop\<close>

definition retry_delay :: "nat \<Rightarrow> (nat \<Rightarrow> nat) \<Rightarrow> llm_error \<Rightarrow> duration" where
  "retry_delay attempt offset e =
     (case e of
        RateLimited _ (Some d) \<Rightarrow> d
      | _ \<Rightarrow> retry_backoff_delay attempt (offset attempt))"

function retry_from ::
  "('w \<Rightarrow> (llm_error, 'a) result \<times> 'w) \<Rightarrow> (nat \<Rightarrow> nat) \<Rightarrow> string \<Rightarrow> nat \<Rightarrow> nat \<Rightarrow> llm_error option \<Rightarrow> 'w \<Rightarrow>
   (llm_error, 'a) result \<times> duration list \<times> 'w" where
  "retry_from op offset model max_retries attempt last_error w =
     (if attempt > max_retries
      then (Inl (case last_error of
                   Some e \<Rightarrow> e
                 | None \<Rightarrow> RequestFailed model ''retry loop exited unexpectedly''), [], w)
      else
        (case op w of
           (Inr resp, w') \<Rightarrow> (Inr resp, [], w')
         | (Inl e, w') \<Rightarrow>
             (if \<not> is_retryable e \<or> attempt = max_retries then (Inl e, [], w')
              else
                (let (r, ds, w'') = retry_from op offset model max_retries (attempt + 1) (Some e) w'
                 in (r, retry_delay attempt offset e # ds, w'')))))"
  by pat_completeness auto
termination
  by (relation "measure (\<lambda>(_, _, _, m, a, _, _). Suc m - a)") auto

declare retry_from.simps [simp del]

definition retry_loop ::
  "('w \<Rightarrow> (llm_error, 'a) result \<times> 'w) \<Rightarrow> (nat \<Rightarrow> nat) \<Rightarrow> string \<Rightarrow> nat \<Rightarrow> 'w \<Rightarrow>
   (llm_error, 'a) result \<times> duration list \<times> 'w" where
  "retry_loop op offset model max_retries w = retry_from op offset model max_retries 0 None w"

definition retry_complete ::
  "(nat \<Rightarrow> nat) \<Rightarrow> string \<Rightarrow> nat \<Rightarrow> ('q, 'r, 'w) llm \<Rightarrow> ('q, 'r, 'w) llm" where
  "retry_complete offset model max_retries inner q w =
     (case retry_loop (inner q) offset model max_retries w of (r, ds, w') \<Rightarrow> (r, w'))"

text \<open>The state after a number of calls, and the result of the next one.\<close>

definition after_calls :: "('w \<Rightarrow> (llm_error, 'a) result \<times> 'w) \<Rightarrow> nat \<Rightarrow> 'w \<Rightarrow> 'w" where
  "after_calls op k w = ((\<lambda>w. snd (op w)) ^^ k) w"

definition call_result :: "('w \<Rightarrow> (llm_error, 'a) result \<times> 'w) \<Rightarrow> nat \<Rightarrow> 'w \<Rightarrow> (llm_error, 'a) result" where
  "call_result op k w = fst (op (after_calls op k w))"

definition retryable_error :: "(llm_error, 'a) result \<Rightarrow> bool" where
  "retryable_error r = (case r of Inl e \<Rightarrow> is_retryable e | Inr _ \<Rightarrow> False)"

section \<open>What the loop does\<close>

lemma after_calls_Suc: "after_calls op (Suc k) w = after_calls op k (snd (op w))"
  by (simp add: after_calls_def funpow_Suc_right del: funpow.simps)

lemma call_result_Suc: "call_result op (Suc k) w = call_result op k (snd (op w))"
  by (simp add: call_result_def after_calls_Suc)

lemma retry_from_spec:
  assumes "attempt \<le> m"
  shows "\<exists>k \<le> m - attempt. \<exists>ds. length ds = k \<and>
    retry_from op offset model m attempt le w = (call_result op k w, ds, after_calls op (Suc k) w) \<and>
    (\<forall>j<k. retryable_error (call_result op j w)) \<and>
    (retryable_error (call_result op k w) \<longrightarrow> k = m - attempt)"
  using assms
proof (induction "m - attempt" arbitrary: attempt le w)
  case 0
  then have "attempt = m" by simp
  then show ?case
    by (subst retry_from.simps)
      (auto simp: call_result_def after_calls_def split: sum.splits prod.splits)
next
  case (Suc n)
  obtain r w' where o: "op w = (r, w')" by fastforce
  have n: "n = m - (attempt + 1)" "attempt + 1 \<le> m" using Suc(2,3) by auto
  show ?case
  proof (cases "retryable_error r")
    case False
    then have "retry_from op offset model m attempt le w = (r, [], w')"
      using o Suc(3)
      by (subst retry_from.simps) (auto simp: retryable_error_def split: sum.splits)
    then show ?thesis
      using o False by (intro exI[of _ 0]) (simp add: call_result_def after_calls_def)
  next
    case True
    then obtain e where e: "r = Inl e" "is_retryable e" by (auto simp: retryable_error_def split: sum.splits)
    obtain k ds where k: "k \<le> n" "length ds = k"
      "retry_from op offset model m (attempt + 1) (Some e) w' = (call_result op k w', ds, after_calls op (Suc k) w')"
      "\<forall>j<k. retryable_error (call_result op j w')"
      "retryable_error (call_result op k w') \<longrightarrow> k = n"
      using Suc(1)[OF n, of "Some e" w'] n(1) by auto
    have "retry_from op offset model m attempt le w =
        (call_result op (Suc k) w, retry_delay attempt offset e # ds, after_calls op (Suc (Suc k)) w)"
      using o e k n(2)
      by (subst retry_from.simps) (auto simp: call_result_Suc after_calls_Suc)
    moreover have "\<forall>j<Suc k. retryable_error (call_result op j w)"
      using k(4) True o
      by (auto simp: less_Suc_eq_0_disj call_result_Suc) (simp add: call_result_def after_calls_def)
    moreover have "retryable_error (call_result op (Suc k) w) \<longrightarrow> Suc k = m - attempt"
      using k(5) o n by (auto simp: call_result_Suc)
    ultimately show ?thesis
      using k(1,2) n by (intro exI[of _ "Suc k"]) (auto intro!: exI[of _ "retry_delay attempt offset e # ds"])
  qed
qed

text \<open>The decorator keeps the contract of the provider it wraps.\<close>

lemma retry_complete_eq:
  "\<exists>k \<le> m. retry_complete offset model m inner q w =
     (call_result (inner q) k w, after_calls (inner q) (Suc k) w)"
  using retry_from_spec[of 0 m "inner q" offset model None w]
  by (auto simp: retry_complete_def retry_loop_def)

context provider
begin

lemma after_calls_keeps:
  "inv w \<Longrightarrow> inv (after_calls (complete q) k w)"
  "inv w \<Longrightarrow> answered w q' r \<Longrightarrow> answered (after_calls (complete q) k w) q' r"
  by (induction k) (auto simp: after_calls_def complete_inv complete_mono)

lemma retry_provider: "provider (retry_complete offset model max_retries complete) answered inv"
proof
  fix w q q' r w'
  obtain k where k: "retry_complete offset model max_retries complete q w =
      (call_result (complete q) k w, after_calls (complete q) (Suc k) w)"
    using retry_complete_eq[of max_retries offset model complete q w] by blast
  show "inv w \<Longrightarrow> inv (snd (retry_complete offset model max_retries complete q w))"
    by (simp add: k after_calls_keeps)
  show "inv w \<Longrightarrow> answered w q' r \<Longrightarrow> answered (snd (retry_complete offset model max_retries complete q w)) q' r"
    by (simp add: k after_calls_keeps)
  assume "inv w" and "retry_complete offset model max_retries complete q w = (Inr r, w')"
  then have "inv (after_calls (complete q) k w)" "complete q (after_calls (complete q) k w) = (Inr r, w')"
    by (auto simp: k call_result_def after_calls_keeps prod_eq_iff) (simp add: after_calls_def)
  then show "answered w' q r" by (rule complete_sound)
qed

end

interpretation retried_backend: provider "retry_complete offset model max_retries (backend_call f)"
    backend_answered "\<lambda>_. True"
  for offset model max_retries f
  by (rule backend.retry_provider)

section \<open>Delays\<close>

lemma saturating_small: "n < 2 ^ 64 \<Longrightarrow> saturating_u64 n = n"
  by (simp add: saturating_u64_def)

lemma backoff_base_small:
  assumes "attempt \<le> 52"
  shows "backoff_base_ms attempt = 1000 * 2 ^ attempt \<and> (1000 * 2 ^ attempt :: nat) \<le> 1000 * 2 ^ 52"
proof -
  have "(2::nat) ^ attempt \<le> 2 ^ 52" using assms by (intro power_increasing) auto
  then show ?thesis by (simp add: backoff_base_ms_def saturating_small)
qed

lemma sint_of_nat_small: "n < 2 ^ 63 \<Longrightarrow> sint (word_of_nat n :: 64 word) = int n"
  by (simp add: signed_of_nat signed_take_bit_int_eq_self)

section \<open>Properties\<close>

text \<open>
  The retry loop calls the provider once and then again only after retryable errors, at most
  \<open>max_retries\<close> more times; it returns the result of the last call, which is a success, an error that
  is not retryable, or the last error when the retries are used up. It sleeps once before each
  repeated call. The error for a loop that ends without any call is never returned.
\<close>

theorem retry_loop_spec:
  "\<exists>k \<le> max_retries. \<exists>delays. length delays = k \<and>
    retry_loop op offset model max_retries w = (call_result op k w, delays, after_calls op (Suc k) w) \<and>
    (\<forall>j<k. retryable_error (call_result op j w)) \<and>
    (retryable_error (call_result op k w) \<longrightarrow> k = max_retries)"
  using retry_from_spec[of 0 max_retries op offset model None w] by (simp add: retry_loop_def)

theorem retry_loop_spec_witness:
  "\<exists>k \<le> 2. \<exists>delays. length delays = k \<and>
    retry_loop (\<lambda>n. if n < (1::nat) then (Inl (Http ''e''), n + 1) else (Inr ''ok'', n + 1)) (\<lambda>_. 0) ''m'' 2 0 =
     (call_result (\<lambda>n. if n < (1::nat) then (Inl (Http ''e''), n + 1) else (Inr ''ok'', n + 1)) k 0, delays,
      after_calls (\<lambda>n. if n < (1::nat) then (Inl (Http ''e''), n + 1) else (Inr ''ok'', n + 1)) (Suc k) 0)"
  using retry_loop_spec[of 2 "\<lambda>n. if n < (1::nat) then (Inl (Http ''e''), n + 1) else (Inr ''ok'', n + 1)"
      "\<lambda>_. 0" "''m''" 0] by blast

text \<open>
  Up to attempt 52 the backoff is the documented one: one second doubled with each attempt,
  within a quarter either way, computed without overflow of the 64-bit arithmetic.
\<close>

theorem backoff_delay_bounds:
  assumes "attempt \<le> 52" "offset \<le> 2 * (backoff_base_ms attempt div 4)"
  shows "from_millis (750 * 2 ^ attempt) \<le> retry_backoff_delay attempt offset \<and>
    retry_backoff_delay attempt offset \<le> from_millis (1250 * 2 ^ attempt)"
proof -
  let ?b = "backoff_base_ms attempt" and ?p = "2 ^ attempt :: nat"
  have b: "?b = 1000 * ?p" "1000 * ?p \<le> 1000 * 2 ^ 52" using backoff_base_small[OF assms(1)] by auto
  have p: "1 \<le> ?p" by simp
  have r: "?b div 4 = 250 * ?p" using b by simp
  have o: "offset \<le> 500 * ?p" using assms(2) r by simp
  have e: "(word_of_nat ?b + (word_of_nat offset - word_of_nat (?b div 4)) :: 64 word) =
      word_of_nat (750 * ?p + offset)"
    unfolding r b(1) by (simp add: algebra_simps)
  have s: "sint (word_of_nat (750 * ?p + offset) :: 64 word) = int (750 * ?p + offset)"
    using b(2) o by (intro sint_of_nat_small) simp
  have "retry_backoff_delay attempt offset = from_millis (750 * ?p + offset)"
  proof -
    have "0 < ?b div 4" using p r by simp
    then have "retry_backoff_delay attempt offset = from_millis (nat (max (int (750 * ?p + offset)) 100))"
      by (simp only: retry_backoff_delay_def Let_def if_True e s)
    moreover have "max (int (750 * ?p + offset)) 100 = int (750 * ?p + offset)"
      using p by (intro max_absorb1) linarith
    ultimately show ?thesis by (simp only: nat_int)
  qed
  then show ?thesis using o by (simp add: from_millis_def)
qed

theorem backoff_delay_bounds_witness:
  "from_millis 3000 \<le> retry_backoff_delay 2 1700 \<and> retry_backoff_delay 2 1700 \<le> from_millis 5000"
  using backoff_delay_bounds[of 2 1700] by (simp add: backoff_base_ms_def saturating_u64_def)

text \<open>
  Whatever a \<open>Retry-After\<close> header holds, the delay taken from it is at most an hour.
\<close>

theorem retry_after_capped: "parse_retry_after rfc2822 now header \<le> from_secs MAX_RETRY_AFTER_SECS"
  by (auto simp: parse_retry_after_def cap_retry_after_def from_secs_def DEFAULT_RETRY_AFTER_SECS_def
      MAX_RETRY_AFTER_SECS_def split: option.splits)

end
