(* ===== verification/Circuit_Breaker.thy ===== *)
theory Circuit_Breaker
  imports Provider
begin

text \<open>
  The circuit breaker, \<open>src/llm/circuit_breaker.rs\<close>. A call takes two clock readings, when it is
  checked and when its outcome is recorded; between the two the lock is free, so a step relation
  interleaves the checks and the records of concurrent calls. The remaining seconds in the error text
  are printed by the parameter \<open>show_secs\<close> (a rounded floating-point format).
\<close>

section \<open>Model\<close>

record circuit_breaker_config =
  cb_failure_threshold :: "32 word"
  cb_recovery_timeout :: duration
  cb_half_open_successes_needed :: "32 word"

definition circuit_breaker_config_default :: circuit_breaker_config where
  "circuit_breaker_config_default =
     \<lparr>cb_failure_threshold = 5, cb_recovery_timeout = 30 * 1000000000,
      cb_half_open_successes_needed = 2\<rparr>"

datatype circuit_state = Closed | Open | HalfOpen

record breaker_state =
  bs_state :: circuit_state
  bs_consecutive_failures :: "32 word"
  bs_opened_at :: "instant option"
  bs_half_open_successes :: "32 word"

definition breaker_new :: breaker_state where
  "breaker_new = \<lparr>bs_state = Closed, bs_consecutive_failures = 0, bs_opened_at = None,
     bs_half_open_successes = 0\<rparr>"

definition breaker_check ::
  "circuit_breaker_config \<Rightarrow> string \<Rightarrow> (duration \<Rightarrow> string) \<Rightarrow> instant \<Rightarrow> breaker_state \<Rightarrow>
   (llm_error, unit) result \<times> breaker_state" where
  "breaker_check cfg model show_secs now s =
     (case bs_state s of
        Closed \<Rightarrow> (Inr (), s)
      | HalfOpen \<Rightarrow> (Inr (), s)
      | Open \<Rightarrow>
          (case bs_opened_at s of
             Some opened_at \<Rightarrow>
               (if now - opened_at \<ge> cb_recovery_timeout cfg
                then (Inr (), s\<lparr>bs_state := HalfOpen, bs_half_open_successes := 0\<rparr>)
                else (Inl (RequestFailed model
                       (''Circuit breaker open ('' @ show_nat (unat (bs_consecutive_failures s)) @
                        '' consecutive failures, recovery in '' @
                        show_secs (cb_recovery_timeout cfg - (now - opened_at)) @ ''s)'')), s))
           | None \<Rightarrow> (Inr (), s\<lparr>bs_state := Closed\<rparr>)))"

definition breaker_success :: "circuit_breaker_config \<Rightarrow> breaker_state \<Rightarrow> breaker_state" where
  "breaker_success cfg s =
     (case bs_state s of
        Closed \<Rightarrow> s\<lparr>bs_consecutive_failures := 0\<rparr>
      | HalfOpen \<Rightarrow>
          (let s' = s\<lparr>bs_half_open_successes := bs_half_open_successes s + 1\<rparr>
           in if bs_half_open_successes s' \<ge> cb_half_open_successes_needed cfg
              then s'\<lparr>bs_state := Closed, bs_consecutive_failures := 0, bs_opened_at := None\<rparr>
              else s')
      | Open \<Rightarrow> s\<lparr>bs_state := Closed, bs_consecutive_failures := 0, bs_opened_at := None\<rparr>)"

fun is_transient :: "llm_error \<Rightarrow> bool" where
  "is_transient (RequestFailed _ _) = True"
| "is_transient (RateLimited _ _) = True"
| "is_transient (InvalidResponse _ _) = True"
| "is_transient (EmptyResponse _) = True"
| "is_transient (SessionExpired _) = True"
| "is_transient (SessionRenewalFailed _ _) = True"
| "is_transient (Http _) = True"
| "is_transient (Io _) = True"
| "is_transient _ = False"

definition breaker_failure ::
  "circuit_breaker_config \<Rightarrow> instant \<Rightarrow> llm_error \<Rightarrow> breaker_state \<Rightarrow> breaker_state" where
  "breaker_failure cfg now e s =
     (if \<not> is_transient e then s
      else
        (case bs_state s of
           Closed \<Rightarrow>
             (let s' = s\<lparr>bs_consecutive_failures := bs_consecutive_failures s + 1\<rparr>
              in if bs_consecutive_failures s' \<ge> cb_failure_threshold cfg
                 then s'\<lparr>bs_state := Open, bs_opened_at := Some now\<rparr> else s')
         | HalfOpen \<Rightarrow> s\<lparr>bs_state := Open, bs_opened_at := Some now, bs_half_open_successes := 0\<rparr>
         | Open \<Rightarrow> s))"

definition breaker_record ::
  "circuit_breaker_config \<Rightarrow> instant \<Rightarrow> (llm_error, 'r) result \<Rightarrow> breaker_state \<Rightarrow> breaker_state" where
  "breaker_record cfg now r s =
     (case r of Inr _ \<Rightarrow> breaker_success cfg s | Inl e \<Rightarrow> breaker_failure cfg now e s)"

definition breaker_complete ::
  "circuit_breaker_config \<Rightarrow> string \<Rightarrow> (duration \<Rightarrow> string) \<Rightarrow> instant \<Rightarrow> instant \<Rightarrow> ('q, 'r, 'w) llm \<Rightarrow>
   ('q, 'r, breaker_state \<times> 'w) llm" where
  "breaker_complete cfg model show_secs t0 t1 inner q sw =
     (case breaker_check cfg model show_secs t0 (fst sw) of
        (Inl e, s') \<Rightarrow> (Inl e, (s', snd sw))
      | (Inr _, s') \<Rightarrow>
          (case inner q (snd sw) of (r, w') \<Rightarrow> (r, (breaker_record cfg t1 r s', w'))))"

text \<open>
  Concurrent calls: the second component counts the calls that passed the check and whose outcome is
  not recorded yet.
\<close>

inductive breaker_step ::
  "circuit_breaker_config \<Rightarrow> breaker_state \<times> nat \<Rightarrow> breaker_state \<times> nat \<Rightarrow> bool"
  for cfg where
  admitted: "breaker_check cfg m ss now s = (Inr (), s') \<Longrightarrow> breaker_step cfg (s, n) (s', Suc n)"
| rejected: "breaker_check cfg m ss now s = (Inl e, s') \<Longrightarrow> breaker_step cfg (s, n) (s', n)"
| succeeded: "breaker_step cfg (s, Suc n) (breaker_success cfg s, n)"
| failed: "breaker_step cfg (s, Suc n) (breaker_failure cfg now e s, n)"

inductive_cases breaker_stepE: "breaker_step cfg s t"

definition breaker_inv :: "circuit_breaker_config \<Rightarrow> breaker_state \<Rightarrow> bool" where
  "breaker_inv cfg s =
     ((bs_state s = Closed \<longleftrightarrow> bs_opened_at s = None) \<and>
      (bs_state s = Closed \<longrightarrow>
         unat (bs_consecutive_failures s) < max 1 (unat (cb_failure_threshold cfg))) \<and>
      (bs_state s \<noteq> Closed \<longrightarrow>
         unat (bs_consecutive_failures s) \<le> max 1 (unat (cb_failure_threshold cfg))) \<and>
      (bs_state s = HalfOpen \<longrightarrow>
         unat (bs_half_open_successes s) < max 1 (unat (cb_half_open_successes_needed cfg))))"

section \<open>The invariant\<close>

lemma unat_inc_less:
  fixes x t :: "32 word"
  assumes "unat x < max 1 (unat t)"
  shows "unat (x + 1) = Suc (unat x)"
proof -
  have "unat t < 2 ^ 32" using unsigned_less[of t] by simp
  with assms have "Suc (unat x) < 2 ^ 32" by (auto simp: max_def split: if_splits)
  then show ?thesis by (simp add: unat_word_ariths)
qed

lemma breaker_failure_closed:
  "bs_state s = Closed \<Longrightarrow> is_transient e \<Longrightarrow>
   breaker_failure cfg t e s =
     (if cb_failure_threshold cfg \<le> bs_consecutive_failures s + 1
      then s\<lparr>bs_consecutive_failures := bs_consecutive_failures s + 1, bs_state := Open,
             bs_opened_at := Some t\<rparr>
      else s\<lparr>bs_consecutive_failures := bs_consecutive_failures s + 1\<rparr>)"
  by (simp add: breaker_failure_def Let_def)

lemma breaker_inv_new: "breaker_inv cfg breaker_new"
  by (simp add: breaker_inv_def breaker_new_def)

lemma breaker_inv_check: "breaker_inv cfg s \<Longrightarrow> breaker_inv cfg (snd (breaker_check cfg m ss now s))"
  by (auto simp: breaker_inv_def breaker_check_def split: circuit_state.splits option.splits)

lemma breaker_inv_success:
  assumes "breaker_inv cfg s"
  shows "breaker_inv cfg (breaker_success cfg s)"
proof (cases "bs_state s")
  case HalfOpen
  then have "unat (bs_half_open_successes s + 1) = Suc (unat (bs_half_open_successes s))"
    using assms unat_inc_less by (auto simp: breaker_inv_def)
  with HalfOpen assms show ?thesis
    by (auto simp: breaker_inv_def breaker_success_def Let_def word_le_nat_alt)
qed (use assms in \<open>auto simp: breaker_inv_def breaker_success_def\<close>)

lemma breaker_inv_failure:
  assumes "breaker_inv cfg s"
  shows "breaker_inv cfg (breaker_failure cfg now e s)"
proof (cases "bs_state s")
  case Closed
  then have "unat (bs_consecutive_failures s + 1) = Suc (unat (bs_consecutive_failures s))"
    using assms unat_inc_less by (auto simp: breaker_inv_def)
  with Closed assms show ?thesis
    by (auto simp: breaker_inv_def breaker_failure_def Let_def word_le_nat_alt)
qed (use assms in \<open>auto simp: breaker_inv_def breaker_failure_def\<close>)

lemma breaker_inv_step: "breaker_inv cfg (fst s) \<Longrightarrow> breaker_step cfg s t \<Longrightarrow> breaker_inv cfg (fst t)"
  by (erule breaker_stepE)
    (auto dest: breaker_inv_check[of cfg] simp: breaker_inv_success breaker_inv_failure,
     (metis breaker_inv_check snd_conv)+)

interpretation cb: step_invariant "\<lambda>s. s = (breaker_new, 0)" "breaker_step cfg" "\<lambda>s. breaker_inv cfg (fst s)"
  for cfg
  by unfold_locales (auto simp: breaker_inv_new intro: breaker_inv_step)

context provider
begin

lemma breaker_provider:
  "provider (breaker_complete cfg model ss t0 t1 complete) (\<lambda>sw. answered (snd sw))
     (\<lambda>sw. breaker_inv cfg (fst sw) \<and> inv (snd sw))"
proof
  fix sw q q' r sw'
  show "breaker_inv cfg (fst (snd (breaker_complete cfg model ss t0 t1 complete q sw))) \<and>
      inv (snd (snd (breaker_complete cfg model ss t0 t1 complete q sw)))"
    if "breaker_inv cfg (fst sw) \<and> inv (snd sw)"
    using that breaker_inv_check[of cfg "fst sw" model ss t0] complete_inv[of "snd sw" q]
    by (auto simp: breaker_complete_def breaker_record_def breaker_inv_success breaker_inv_failure
        split: prod.splits sum.splits)
  show "answered (snd (snd (breaker_complete cfg model ss t0 t1 complete q sw))) q' r"
    if "breaker_inv cfg (fst sw) \<and> inv (snd sw)" "answered (snd sw) q' r"
    using that complete_mono[of "snd sw" q' r q]
    by (auto simp: breaker_complete_def split: prod.splits sum.splits)
  show "answered (snd sw') q r"
    if "breaker_inv cfg (fst sw) \<and> inv (snd sw)"
      "breaker_complete cfg model ss t0 t1 complete q sw = (Inr r, sw')"
    using that complete_sound[of "snd sw" q r]
    by (auto simp: breaker_complete_def split: prod.splits sum.splits)
qed

end

interpretation guarded_backend: provider "breaker_complete cfg model ss t0 t1 (backend_call f)"
    "\<lambda>sw. backend_answered (snd sw)" "\<lambda>sw. breaker_inv cfg (fst sw) \<and> True"
  for cfg model ss t0 t1 f
  by (rule backend.breaker_provider)

section \<open>Properties\<close>

text \<open>
  However checks and records of concurrent calls interleave, an open time is stored exactly when
  the breaker is not closed (so the recovery from an open breaker without one never runs), the
  failure count of a closed breaker stays below the threshold, and neither counter overflows.
\<close>

theorem breaker_reachable_inv:
  assumes "reachable (\<lambda>s. s = (breaker_new, 0)) (breaker_step cfg) s"
  shows "breaker_inv cfg (fst s)"
  using assms by (rule cb.reachable_inv)

theorem breaker_reachable_inv_witness:
  "breaker_inv circuit_breaker_config_default
     (breaker_failure circuit_breaker_config_default 5 (Http ''e'') breaker_new)"
proof -
  let ?c = circuit_breaker_config_default
  have "reachable (\<lambda>s. s = (breaker_new, 0)) (breaker_step ?c) (breaker_new, 0)"
    by (rule reachable_init) simp
  then have "reachable (\<lambda>s. s = (breaker_new, 0)) (breaker_step ?c) (breaker_new, Suc 0)"
    by (rule reachable_step) (rule breaker_step.admitted[of _ "[]" "\<lambda>_. []" 0],
        simp add: breaker_check_def breaker_new_def)
  then have "reachable (\<lambda>s. s = (breaker_new, 0)) (breaker_step ?c)
      (breaker_failure ?c 5 (Http ''e'') breaker_new, 0)"
    by (rule reachable_step) (rule breaker_step.failed)
  from breaker_reachable_inv[OF this] show ?thesis by simp
qed

text \<open>
  An open breaker protects the backend: until the recovery timeout has passed since it opened,
  a completion fails without calling the wrapped provider and changes nothing; from then on a call is
  let through as a probe.
\<close>

theorem open_breaker_blocks:
  assumes "bs_state s = Open" "bs_opened_at s = Some t"
  shows "if t0 - t < cb_recovery_timeout cfg
    then \<exists>msg. breaker_complete cfg model ss t0 t1 inner q (s, w) = (Inl (RequestFailed model msg), (s, w))
    else fst (breaker_complete cfg model ss t0 t1 inner q (s, w)) = fst (inner q w) \<and>
      snd (snd (breaker_complete cfg model ss t0 t1 inner q (s, w))) = snd (inner q w) \<and>
      bs_state (snd (breaker_check cfg model ss t0 s)) = HalfOpen"
  using assms by (auto simp: breaker_complete_def breaker_check_def split: prod.splits)

theorem open_breaker_blocks_witness:
  "\<exists>msg. breaker_complete circuit_breaker_config_default ''m'' (\<lambda>_. ''9'') 12 13 (backend_call (\<lambda>n q. Inr n)) ()
     (breaker_new\<lparr>bs_state := Open, bs_opened_at := Some 10\<rparr>, backend_new) =
   (Inl (RequestFailed ''m'' msg), (breaker_new\<lparr>bs_state := Open, bs_opened_at := Some 10\<rparr>, backend_new))"
  using open_breaker_blocks[of "breaker_new\<lparr>bs_state := Open, bs_opened_at := Some 10\<rparr>" 10 12
      circuit_breaker_config_default "''m''" "\<lambda>_. ''9''" 13 "backend_call (\<lambda>n q. Inr n)" "()" backend_new]
  by (simp add: circuit_breaker_config_default_def)

text \<open>
  A new breaker stays closed while fewer consecutive transient failures than the threshold are
  recorded and opens with the failure that reaches it, at the time of that failure.
\<close>

theorem opens_at_threshold:
  assumes "is_transient e" "0 < cb_failure_threshold cfg"
  shows "(length ts < unat (cb_failure_threshold cfg) \<longrightarrow>
      bs_state (fold (\<lambda>t. breaker_failure cfg t e) ts breaker_new) = Closed \<and>
      unat (bs_consecutive_failures (fold (\<lambda>t. breaker_failure cfg t e) ts breaker_new)) = length ts) \<and>
    (length ts = unat (cb_failure_threshold cfg) \<longrightarrow>
      bs_state (fold (\<lambda>t. breaker_failure cfg t e) ts breaker_new) = Open \<and>
      bs_opened_at (fold (\<lambda>t. breaker_failure cfg t e) ts breaker_new) = Some (last ts))"
proof -
  let ?f = "\<lambda>ts. fold (\<lambda>t. breaker_failure cfg t e) ts breaker_new"
  let ?n = "unat (cb_failure_threshold cfg)"
  have n: "0 < ?n" using assms(2) by (simp add: word_less_nat_alt)
  have closed: "bs_state (?f ts) = Closed \<and> unat (bs_consecutive_failures (?f ts)) = length ts"
    if "length ts < ?n" for ts
    using that
  proof (induction ts rule: rev_induct)
    case Nil
    then show ?case by (simp add: breaker_new_def)
  next
    case (snoc t ts)
    then have IH: "bs_state (?f ts) = Closed" "unat (bs_consecutive_failures (?f ts)) = length ts" by auto
    then have "unat (bs_consecutive_failures (?f ts) + 1) = Suc (length ts)"
      using unat_inc_less[of "bs_consecutive_failures (?f ts)" "cb_failure_threshold cfg"] snoc.prems by auto
    with IH snoc.prems show ?case
      by (simp add: breaker_failure_closed[OF IH(1) assms(1)] word_le_nat_alt)
  qed
  have "bs_state (?f ts) = Open \<and> bs_opened_at (?f ts) = Some (last ts)" if len: "length ts = ?n"
  proof -
    obtain us t where ts: "ts = us @ [t]" using len n by (cases ts rule: rev_cases) auto
    have us: "bs_state (?f us) = Closed" "unat (bs_consecutive_failures (?f us)) = length us"
      using closed[of us] len ts by auto
    then have "unat (bs_consecutive_failures (?f us) + 1) = Suc (length us)"
      using unat_inc_less[of "bs_consecutive_failures (?f us)" "cb_failure_threshold cfg"] len ts by auto
    with us len show ?thesis
      by (simp add: ts breaker_failure_closed[OF us(1) assms(1)] word_le_nat_alt)
  qed
  with closed show ?thesis by blast
qed

theorem opens_at_threshold_witness:
  "bs_state (fold (\<lambda>t. breaker_failure circuit_breaker_config_default t (Http ''e'')) [1, 2, 3, 4, 5] breaker_new) = Open"
  using opens_at_threshold[of "Http ''e''" circuit_breaker_config_default "[1, 2, 3, 4, 5]"]
  by (simp add: circuit_breaker_config_default_def)

text \<open>
  With concurrent calls a success can be recorded while the breaker is open, although a call is
  only let through when it is not: two calls pass the check, the first fails and opens the breaker,
  and the second succeeds. The breaker then closes at once, without waiting for the recovery timeout
  and without a probe.
\<close>

theorem success_recorded_while_open:
  "\<exists>cfg s. reachable (\<lambda>s. s = (breaker_new, 0)) (breaker_step cfg) (s, 1) \<and>
     bs_state s = Open \<and> bs_opened_at s = Some 5 \<and> cb_recovery_timeout cfg = 30 * 1000000000 \<and>
     breaker_step cfg (s, 1) (breaker_success cfg s, 0) \<and> bs_state (breaker_success cfg s) = Closed"
proof -
  let ?c = "circuit_breaker_config_default\<lparr>cb_failure_threshold := 1\<rparr>"
  let ?s = "breaker_failure ?c 5 (Http ''e'') breaker_new"
  let ?R = "reachable (\<lambda>s. s = (breaker_new, 0)) (breaker_step ?c)"
  have admit: "breaker_step ?c (breaker_new, n) (breaker_new, Suc n)" for n
    by (rule breaker_step.admitted[of _ "[]" "\<lambda>_. []" 0]) (simp add: breaker_check_def breaker_new_def)
  have "?R (breaker_new, 0)" by (rule reachable_init) simp
  then have "?R (breaker_new, Suc 0)" by (rule reachable_step) (rule admit)
  then have "?R (breaker_new, Suc (Suc 0))" by (rule reachable_step) (rule admit)
  then have "?R (?s, Suc 0)" by (rule reachable_step) (rule breaker_step.failed)
  moreover have "breaker_step ?c (?s, Suc 0) (breaker_success ?c ?s, 0)" by (rule breaker_step.succeeded)
  moreover have "bs_state ?s = Open \<and> bs_opened_at ?s = Some 5 \<and> bs_state (breaker_success ?c ?s) = Closed"
    by (simp add: breaker_failure_def breaker_new_def breaker_success_def Let_def
        circuit_breaker_config_default_def)
  moreover have "cb_recovery_timeout ?c = 30 * 1000000000"
    by (simp add: circuit_breaker_config_default_def)
  ultimately show ?thesis by (metis One_nat_def)
qed

end
