(* ===== verification/Failover.thy ===== *)
theory Failover
  imports Retry
begin

text \<open>
  Failover over several providers, \<open>src/llm/failover.rs\<close>. A provider is its index; \<open>call i\<close> is the
  call of provider \<open>i\<close> on the shared state. Clock readings are the nanoseconds since the epoch of the
  provider, truncated to 64 bits: \<open>now\<close> when a request starts and \<open>later i\<close> when the failure of
  provider \<open>i\<close> is recorded. The relaxed atomics are plain fields: a request is one sequence of steps.
\<close>

section \<open>Cooldowns\<close>

record cooldown_config =
  cc_cooldown_duration :: duration
  cc_failure_threshold :: "32 word"

definition cooldown_config_default :: cooldown_config where
  "cooldown_config_default = \<lparr>cc_cooldown_duration = from_secs 300, cc_failure_threshold = 3\<rparr>"

record provider_cooldown =
  pc_failure_count :: "32 word"
  pc_activated_nanos :: "64 word"

definition provider_cooldown_new :: provider_cooldown where
  "provider_cooldown_new = \<lparr>pc_failure_count = 0, pc_activated_nanos = 0\<rparr>"

definition sat_sub :: "64 word \<Rightarrow> 64 word \<Rightarrow> 64 word" where
  "sat_sub a b = (if b \<le> a then a - b else 0)"

definition is_in_cooldown :: "64 word \<Rightarrow> 64 word \<Rightarrow> provider_cooldown \<Rightarrow> bool" where
  "is_in_cooldown now_nanos cooldown_nanos c =
     (pc_activated_nanos c \<noteq> 0 \<and> sat_sub now_nanos (pc_activated_nanos c) < cooldown_nanos)"

definition cooldown_record_failure :: "32 word \<Rightarrow> provider_cooldown \<Rightarrow> bool \<times> provider_cooldown" where
  "cooldown_record_failure threshold c =
     (pc_failure_count c + 1 \<ge> threshold, c\<lparr>pc_failure_count := pc_failure_count c + 1\<rparr>)"

definition activate_cooldown :: "64 word \<Rightarrow> provider_cooldown \<Rightarrow> provider_cooldown" where
  "activate_cooldown now_nanos c = c\<lparr>pc_activated_nanos := max now_nanos 1\<rparr>"

definition cooldown_reset :: "provider_cooldown \<Rightarrow> provider_cooldown" where
  "cooldown_reset c = c\<lparr>pc_failure_count := 0, pc_activated_nanos := 0\<rparr>"

section \<open>The provider\<close>

record failover =
  fo_last_used :: nat
  fo_cooldowns :: "provider_cooldown list"
  fo_config :: cooldown_config
  fo_provider_for_task :: "(nat \<times> nat) list"

definition failover_with_cooldown :: "nat \<Rightarrow> cooldown_config \<Rightarrow> (llm_error, failover) result" where
  "failover_with_cooldown n cfg =
     (if n = 0
      then Inl (RequestFailed ''failover'' ''FailoverProvider requires at least one provider'')
      else Inr \<lparr>fo_last_used = 0, fo_cooldowns = replicate n provider_cooldown_new, fo_config = cfg,
                fo_provider_for_task = []\<rparr>)"

definition failover_new :: "nat \<Rightarrow> (llm_error, failover) result" where
  "failover_new n = failover_with_cooldown n cooldown_config_default"

definition bind_provider :: "nat option \<Rightarrow> nat \<Rightarrow> failover \<Rightarrow> failover" where
  "bind_provider task idx f =
     (case task of
        None \<Rightarrow> f
      | Some t \<Rightarrow> f\<lparr>fo_provider_for_task := hm_put t idx (fo_provider_for_task f)\<rparr>)"

definition take_bound_provider :: "nat option \<Rightarrow> failover \<Rightarrow> nat option \<times> failover" where
  "take_bound_provider task f =
     (case task of
        None \<Rightarrow> (None, f)
      | Some t \<Rightarrow> (hm_get (fo_provider_for_task f) t,
                   f\<lparr>fo_provider_for_task := hm_del t (fo_provider_for_task f)\<rparr>))"

text \<open>The providers to try: those not in cooldown, else the one that has cooled longest.\<close>

definition available_providers :: "64 word \<Rightarrow> failover \<Rightarrow> nat list" where
  "available_providers now_nanos f =
     (let n = length (fo_cooldowns f);
          cooldown_nanos = word_of_nat (cc_cooldown_duration (fo_config f));
          av = filter (\<lambda>i. \<not> is_in_cooldown now_nanos cooldown_nanos (fo_cooldowns f ! i)) [0..<n]
      in if av = [] \<and> 0 < n
         then [arg_min_list (\<lambda>i. pc_activated_nanos (fo_cooldowns f ! i)) [0..<n]]
         else av)"

definition note_failure :: "64 word \<Rightarrow> nat \<Rightarrow> failover \<Rightarrow> failover" where
  "note_failure later_nanos i f =
     (case cooldown_record_failure (cc_failure_threshold (fo_config f)) (fo_cooldowns f ! i) of
        (reached, c) \<Rightarrow>
          f\<lparr>fo_cooldowns := (fo_cooldowns f)
              [i := if reached then activate_cooldown later_nanos c else c]\<rparr>)"

definition note_success :: "nat \<Rightarrow> failover \<Rightarrow> failover" where
  "note_success i f =
     f\<lparr>fo_last_used := i, fo_cooldowns := (fo_cooldowns f)[i := cooldown_reset (fo_cooldowns f ! i)]\<rparr>"

fun try_list ::
  "(nat \<Rightarrow> 'w \<Rightarrow> (llm_error, 'r) result \<times> 'w) \<Rightarrow> (nat \<Rightarrow> 64 word) \<Rightarrow> nat list \<Rightarrow> llm_error option \<Rightarrow>
   failover \<times> 'w \<Rightarrow> (llm_error, nat \<times> 'r) result \<times> failover \<times> 'w" where
  "try_list call later [] last_error fw =
     (Inl (case last_error of
             Some e \<Rightarrow> e
           | None \<Rightarrow> RequestFailed ''failover'' ''Invariant violated in FailoverProvider''), fw)"
| "try_list call later (i # ids) last_error fw =
     (case call i (snd fw) of
        (Inr r, w') \<Rightarrow> (Inr (i, r), (note_success i (fst fw), w'))
      | (Inl e, w') \<Rightarrow>
          (if \<not> is_retryable e then (Inl e, (fst fw, w'))
           else try_list call later ids (Some e) (note_failure (later i) i (fst fw), w')))"

definition try_providers ::
  "(nat \<Rightarrow> 'w \<Rightarrow> (llm_error, 'r) result \<times> 'w) \<Rightarrow> 64 word \<Rightarrow> (nat \<Rightarrow> 64 word) \<Rightarrow>
   failover \<times> 'w \<Rightarrow> (llm_error, nat \<times> 'r) result \<times> failover \<times> 'w" where
  "try_providers call now_nanos later fw =
     (if fo_cooldowns (fst fw) = []
      then (Inl (RequestFailed ''failover'' ''FailoverProvider requires at least one provider''), fw)
      else try_list call later (available_providers now_nanos (fst fw)) None fw)"

definition failover_complete ::
  "nat option \<Rightarrow> 64 word \<Rightarrow> (nat \<Rightarrow> 64 word) \<Rightarrow> (nat \<Rightarrow> ('q, 'r, 'w) llm) \<Rightarrow> ('q, 'r, failover \<times> 'w) llm" where
  "failover_complete task now_nanos later call q fw =
     (case try_providers (\<lambda>i. call i q) now_nanos later fw of
        (Inl e, fw') \<Rightarrow> (Inl e, fw')
      | (Inr (i, r), fw') \<Rightarrow> (Inr r, (bind_provider task i (fst fw'), snd fw')))"

definition failover_inv :: "nat \<Rightarrow> failover \<Rightarrow> bool" where
  "failover_inv n f =
     (0 < n \<and> length (fo_cooldowns f) = n \<and> fo_last_used f < n \<and>
      (\<forall>t i. hm_get (fo_provider_for_task f) t = Some i \<longrightarrow> i < n))"

text \<open>The state after a sequence of providers was called.\<close>

definition after_providers :: "(nat \<Rightarrow> 'w \<Rightarrow> (llm_error, 'r) result \<times> 'w) \<Rightarrow> nat list \<Rightarrow> 'w \<Rightarrow> 'w" where
  "after_providers call ids w = fold (\<lambda>i w. snd (call i w)) ids w"

text \<open>A sample: two providers of which the first is down.\<close>

definition sample_failover :: failover where
  "sample_failover = \<lparr>fo_last_used = 0, fo_cooldowns = replicate 2 provider_cooldown_new,
     fo_config = cooldown_config_default, fo_provider_for_task = []\<rparr>"

definition sample_call :: "nat \<Rightarrow> nat \<Rightarrow> (llm_error, string) result \<times> nat" where
  "sample_call i n = (if i = 0 then Inl (Http ''down'') else Inr ''ok'', n + 1)"

section \<open>Lemmas\<close>

lemma arg_min_list_in_set: "xs \<noteq> [] \<Longrightarrow> arg_min_list g xs \<in> set xs"
  by (rule arg_min_list_in)

lemma available_cases:
  assumes "fo_cooldowns f \<noteq> []"
  obtains (some) "available_providers now f =
      filter (\<lambda>i. \<not> is_in_cooldown now (word_of_nat (cc_cooldown_duration (fo_config f))) (fo_cooldowns f ! i))
        [0..<length (fo_cooldowns f)]" "available_providers now f \<noteq> []"
  | (oldest) "available_providers now f =
      [arg_min_list (\<lambda>i. pc_activated_nanos (fo_cooldowns f ! i)) [0..<length (fo_cooldowns f)]]"
  using assms by (cases "filter (\<lambda>i. \<not> is_in_cooldown now (word_of_nat (cc_cooldown_duration (fo_config f)))
      (fo_cooldowns f ! i)) [0..<length (fo_cooldowns f)] = []")
    (simp_all only: available_providers_def Let_def simp_thms if_True if_False length_greater_0_conv)

lemma available_nonempty: "fo_cooldowns f \<noteq> [] \<Longrightarrow> available_providers now f \<noteq> []"
  by (erule available_cases[of f now]) simp_all

lemma available_range:
  "fo_cooldowns f \<noteq> [] \<Longrightarrow> i \<in> set (available_providers now f) \<Longrightarrow> i < length (fo_cooldowns f)"
proof -
  assume ne: "fo_cooldowns f \<noteq> []" and i: "i \<in> set (available_providers now f)"
  have "arg_min_list (\<lambda>i. pc_activated_nanos (fo_cooldowns f ! i)) [0..<length (fo_cooldowns f)]
      \<in> set [0..<length (fo_cooldowns f)]"
    by (rule arg_min_list_in_set) (use ne in simp)
  with i show ?thesis by (cases rule: available_cases[OF ne, of now]) simp_all
qed

lemma map_sum_Pair: "map_sum (\<lambda>e. e) (Pair i) x = Inr (a, b) \<longleftrightarrow> a = i \<and> x = Inr b"
  by (cases x) auto

lemma available_distinct: "fo_cooldowns f \<noteq> [] \<Longrightarrow> distinct (available_providers now f)"
  by (erule available_cases[of f now]) simp_all

lemma failover_inv_notes:
  assumes "failover_inv n f" "i < n"
  shows "failover_inv n (note_failure t i f)" "failover_inv n (note_success i f)"
    "failover_inv n (bind_provider task i f)"
  using assms
  by (auto simp: failover_inv_def note_failure_def note_success_def bind_provider_def
      split: prod.splits option.splits)

lemma try_list_inv:
  assumes "failover_inv n (fst fw)" "\<forall>i\<in>set ids. i < n" "try_list call later ids le fw = (r, fw')"
  shows "failover_inv n (fst fw') \<and> (\<forall>i x. r = Inr (i, x) \<longrightarrow> i < n)"
  using assms
proof (induction call later ids le fw rule: try_list.induct)
  case (2 call later i ids le fw)
  then show ?case
    by (auto simp: failover_inv_notes split: prod.splits sum.splits if_splits)
qed auto

lemma try_list_spec:
  assumes "ids \<noteq> []"
  shows "\<exists>k < length ids. \<exists>f'.
    (\<forall>j<k. retryable_error (fst (call (ids ! j) (after_providers call (take j ids) (snd fw))))) \<and>
    (let res = fst (call (ids ! k) (after_providers call (take k ids) (snd fw)))
     in try_list call later ids le fw =
          (map_sum (\<lambda>e. e) (Pair (ids ! k)) res, (f', after_providers call (take (Suc k) ids) (snd fw))) \<and>
        (retryable_error res \<longrightarrow> Suc k = length ids))"
  using assms
proof (induction ids arbitrary: le fw)
  case Nil
  then show ?case by simp
next
  case (Cons i ids)
  obtain r w' where c: "call i (snd fw) = (r, w')" by fastforce
  show ?case
  proof (cases "retryable_error r \<and> ids \<noteq> []")
    case True
    then obtain e where e: "r = Inl e" "is_retryable e"
      by (auto simp: retryable_error_def split: sum.splits)
    let ?fw = "(note_failure (later i) i (fst fw), w')"
    obtain k f' where k: "k < length ids"
        "\<forall>j<k. retryable_error (fst (call (ids ! j) (after_providers call (take j ids) w')))"
        "try_list call later ids (Some e) ?fw =
          (map_sum (\<lambda>e. e) (Pair (ids ! k)) (fst (call (ids ! k) (after_providers call (take k ids) w'))),
           (f', after_providers call (take (Suc k) ids) w'))"
        "retryable_error (fst (call (ids ! k) (after_providers call (take k ids) w'))) \<longrightarrow> Suc k = length ids"
      using Cons.IH[of ?fw "Some e"] True by (auto simp: Let_def)
    have step: "after_providers call (i # js) (snd fw) = after_providers call js w'" for js
      by (simp add: after_providers_def c)
    have "\<forall>j<Suc k. retryable_error (fst (call ((i # ids) ! j) (after_providers call (take j (i # ids)) (snd fw))))"
      using k(2) True c step by (auto simp: less_Suc_eq_0_disj after_providers_def)
    with k(1,3,4) c e show ?thesis
      by (intro exI[of _ "Suc k"]) (auto simp: step Let_def)
  next
    case False
    then show ?thesis
      using c by (intro exI[of _ 0])
        (cases r, auto simp: after_providers_def retryable_error_def Let_def)
  qed
qed

lemma try_providers_inv:
  assumes "failover_inv n (fst fw)" "try_providers call now later fw = (r, fw')"
  shows "failover_inv n (fst fw') \<and> (\<forall>i x. r = Inr (i, x) \<longrightarrow> i < n)"
proof -
  have ne: "fo_cooldowns (fst fw) \<noteq> []" and n: "length (fo_cooldowns (fst fw)) = n"
    using assms(1) by (auto simp: failover_inv_def)
  have "\<forall>i \<in> set (available_providers now (fst fw)). i < n"
    using available_range[OF ne] n by auto
  with assms ne show ?thesis
    by (auto simp: try_providers_def dest: try_list_inv)
qed

lemma failover_complete_inv:
  assumes "failover_inv n (fst fw)"
  shows "failover_inv n (fst (snd (failover_complete task now later call q fw)))"
proof -
  obtain r fw' where t: "try_providers (\<lambda>i. call i q) now later fw = (r, fw')" by (metis surj_pair)
  show ?thesis
    using try_providers_inv[OF assms t]
    by (auto simp: failover_complete_def t failover_inv_notes split: sum.splits)
qed

lemma providers_after:
  assumes "\<And>i. provider (call i) answered I"
  shows "I w \<Longrightarrow> I (after_providers (\<lambda>i. call i q) ids w)"
    and "I w \<Longrightarrow> answered w q' r \<Longrightarrow> answered (after_providers (\<lambda>i. call i q) ids w) q' r"
proof -
  show "I w \<Longrightarrow> I (after_providers (\<lambda>i. call i q) ids w)"
    by (induction ids arbitrary: w)
      (simp_all add: after_providers_def provider.complete_inv[OF assms])
  show "I w \<Longrightarrow> answered w q' r \<Longrightarrow> answered (after_providers (\<lambda>i. call i q) ids w) q' r"
    by (induction ids arbitrary: w)
      (simp_all add: after_providers_def provider.complete_mono[OF assms] provider.complete_inv[OF assms])
qed

lemma failover_provider:
  assumes p: "\<And>i. provider (call i) answered I"
  shows "provider (failover_complete task now later call) (\<lambda>fw. answered (snd fw))
    (\<lambda>fw. failover_inv n (fst fw) \<and> I (snd fw))"
proof
  fix fw q q' r fw'
  let ?c = "failover_complete task now later call q fw"
  let ?op = "\<lambda>i. call i q"
  have spec: "\<exists>i ids. snd (snd ?c) = snd (call i q (after_providers ?op ids (snd fw))) \<and>
      (\<forall>x. fst ?c = Inr x \<longrightarrow> fst (call i q (after_providers ?op ids (snd fw))) = Inr x)"
    if "failover_inv n (fst fw)"
  proof -
    have ne: "fo_cooldowns (fst fw) \<noteq> []" using that by (auto simp: failover_inv_def)
    let ?av = "available_providers now (fst fw)"
    obtain k f' where "k < length ?av"
        and t: "try_providers ?op now later fw =
          (map_sum (\<lambda>e. e) (Pair (?av ! k)) (fst (call (?av ! k) q (after_providers ?op (take k ?av) (snd fw)))),
           (f', after_providers ?op (take (Suc k) ?av) (snd fw)))"
      using try_list_spec[OF available_nonempty[OF ne], of now ?op fw later None] ne
      by (auto simp: try_providers_def Let_def)
    then have "after_providers ?op (take (Suc k) ?av) (snd fw) =
        snd (call (?av ! k) q (after_providers ?op (take k ?av) (snd fw)))"
      by (simp add: after_providers_def take_Suc_conv_app_nth)
    with t show ?thesis
      by (intro exI[of _ "?av ! k"] exI[of _ "take k ?av"])
        (auto simp: failover_complete_def map_sum_Pair split: sum.splits)
  qed
  show "failover_inv n (fst (snd ?c)) \<and> I (snd (snd ?c))"
    if a: "failover_inv n (fst fw) \<and> I (snd fw)"
  proof -
    obtain i ids where s: "snd (snd ?c) = snd (call i q (after_providers ?op ids (snd fw)))"
      using spec a by blast
    have "I (snd (snd ?c))"
      unfolding s using a by (intro provider.complete_inv[OF p] providers_after(1)[OF p]) simp
    with a failover_complete_inv[of n fw task now later call q] show ?thesis by simp
  qed
  show "answered (snd (snd ?c)) q' r"
    if a: "failover_inv n (fst fw) \<and> I (snd fw)" and ans: "answered (snd fw) q' r"
  proof -
    obtain i ids where s: "snd (snd ?c) = snd (call i q (after_providers ?op ids (snd fw)))"
      using spec a by blast
    show ?thesis
      unfolding s using a ans
      by (intro provider.complete_mono[OF p] providers_after[OF p]) simp_all
  qed
  show "answered (snd fw') q r"
    if a: "failover_inv n (fst fw) \<and> I (snd fw)" and c: "?c = (Inr r, fw')"
  proof -
    obtain i ids where s: "snd fw' = snd (call i q (after_providers ?op ids (snd fw)))"
        "fst (call i q (after_providers ?op ids (snd fw))) = Inr r"
      using spec a c by force
    show ?thesis
      unfolding s(1) using a s(2)
      by (intro provider.complete_sound[OF p, of "after_providers ?op ids (snd fw)"] providers_after(1)[OF p])
        (simp_all add: prod_eq_iff)
  qed
qed

interpretation failover_backends: provider
    "failover_complete task now later (\<lambda>i. retry_complete offset (model i) max_retries (backend_call (f i)))"
    "\<lambda>fw. backend_answered (snd fw)" "\<lambda>fw. failover_inv n (fst fw) \<and> True"
  for task now later offset model max_retries f n
  by (rule failover_provider) (rule backend.retry_provider)

section \<open>Properties\<close>

text \<open>
  A request tries the providers that are not in cooldown in their order, or, when all are in
  cooldown, the single provider whose cooldown is oldest. It goes on only after retryable errors, each
  provider is called at most once, at least one is called, and the result is that of the last call:
  the first success, an error that is not retryable, or the last error when all were tried.
\<close>

theorem try_providers_spec:
  assumes "fo_cooldowns f \<noteq> []"
  shows "let av = available_providers now f
    in distinct av \<and> (\<exists>k < length av. \<exists>f'.
      (\<forall>j<k. retryable_error (fst (call (av ! j) (after_providers call (take j av) w)))) \<and>
      (let res = fst (call (av ! k) (after_providers call (take k av) w))
       in try_providers call now later (f, w) =
            (map_sum (\<lambda>e. e) (Pair (av ! k)) res, (f', after_providers call (take (Suc k) av) w)) \<and>
          (retryable_error res \<longrightarrow> Suc k = length av)))"
  using try_list_spec[OF available_nonempty[OF assms], of now call "(f, w)" later None]
    available_distinct[OF assms] assms
  by (simp add: try_providers_def Let_def)

theorem try_providers_spec_witness:
  "\<exists>k < 2. \<exists>f'. try_providers sample_call 9 (\<lambda>_. 9) (sample_failover, 0) =
     (map_sum (\<lambda>e. e) (Pair k) (fst (sample_call k (after_providers sample_call (take k [0, 1]) 0))),
      (f', after_providers sample_call (take (Suc k) [0, 1]) 0))"
proof -
  have u: "[0..<2] = [0, 1 :: nat]" by code_simp
  have nc: "\<not> is_in_cooldown a b provider_cooldown_new" for a b
    by (simp add: is_in_cooldown_def provider_cooldown_new_def)
  have av: "available_providers 9 sample_failover = [0, 1]"
    by (simp add: available_providers_def sample_failover_def Let_def u nc)
  have "fo_cooldowns sample_failover \<noteq> []" by (simp add: sample_failover_def)
  from try_providers_spec[OF this, of 9 sample_call 0 "\<lambda>_. 9"] show ?thesis
    unfolding av Let_def
  proof (elim conjE exE)
    fix k f'
    assume k: "k < length [0, 1 :: nat]"
      and t: "try_providers sample_call 9 (\<lambda>_. 9) (sample_failover, 0) =
        (map_sum (\<lambda>e. e) (Pair ([0, 1] ! k))
           (fst (sample_call ([0, 1] ! k) (after_providers sample_call (take k [0, 1]) 0))),
         (f', after_providers sample_call (take (Suc k) [0, 1]) 0))"
    have "[0, 1] ! k = k" using k by (auto simp: less_Suc_eq)
    with k t show ?thesis by (intro exI[of _ k] exI[of _ f']) simp
  qed
qed

text \<open>
  The provider that is reported for costs and names is always one of the providers, before and
  after every request, and so is every provider bound to a task.
\<close>

theorem failover_index_valid:
  assumes "failover_inv n (fst fw)"
  shows "failover_inv n (fst (snd (failover_complete task now later call q fw))) \<and>
    (\<forall>i. fst (take_bound_provider task (fst fw)) = Some i \<longrightarrow> i < n) \<and>
    failover_inv n (snd (take_bound_provider task (fst fw)))"
proof (intro conjI)
  show "failover_inv n (fst (snd (failover_complete task now later call q fw)))"
    by (rule failover_complete_inv[OF assms])
  show "\<forall>i. fst (take_bound_provider task (fst fw)) = Some i \<longrightarrow> i < n"
    using assms by (auto simp: take_bound_provider_def failover_inv_def split: option.splits)
  show "failover_inv n (snd (take_bound_provider task (fst fw)))"
    using assms by (auto simp: take_bound_provider_def failover_inv_def split: option.splits)
qed

theorem failover_index_valid_witness:
  "fo_last_used (fst (snd (failover_complete (Some 7) 9 (\<lambda>_. 9) (\<lambda>i (q::unit). sample_call i) ()
     (sample_failover, 0)))) < 2"
proof -
  have "failover_inv 2 (fst (sample_failover, 0::nat))"
    by (simp add: failover_inv_def sample_failover_def)
  from failover_index_valid[OF this, of "Some 7" 9 "\<lambda>_. 9" "\<lambda>i (q::unit). sample_call i" "()"]
  show ?thesis unfolding failover_inv_def by blast
qed

end
