(* ===== verification/Response_Cache.thy ===== *)
theory Response_Cache
  imports Provider
begin

text \<open>
  The response cache, \<open>src/llm/response_cache.rs\<close>. SHA-256 in hexadecimal is the parameter \<open>sha256\<close>
  and the serialisation of the messages the parameter \<open>to_json\<close>. The lock is taken twice in a
  completion, around the lookup and around the store, which are separate operations here.
\<close>

section \<open>Model\<close>

record response_cache_config =
  rcc_ttl :: duration
  rcc_max_entries :: nat

definition response_cache_config_default :: response_cache_config where
  "response_cache_config_default = \<lparr>rcc_ttl = 3600 * 1000000000, rcc_max_entries = 1000\<rparr>"

record 'r cache_entry =
  ce_response :: 'r
  ce_created_at :: instant
  ce_last_accessed :: instant
  ce_hit_count :: "64 word"

record 'r response_cache =
  rc_cache :: "(string \<times> 'r cache_entry) list"
  rc_config :: response_cache_config
  rc_request_count :: "64 word"
  rc_total_hit_count :: "64 word"

definition response_cache_new :: "response_cache_config \<Rightarrow> 'r response_cache" where
  "response_cache_new cfg =
     \<lparr>rc_cache = [], rc_config = cfg, rc_request_count = 0, rc_total_hit_count = 0\<rparr>"

definition cache_len :: "'r response_cache \<Rightarrow> nat" where
  "cache_len c = length (rc_cache c)"

definition cache_is_empty :: "'r response_cache \<Rightarrow> bool" where
  "cache_is_empty c = (rc_cache c = [])"

definition total_hits :: "'r response_cache \<Rightarrow> 64 word" where
  "total_hits c = rc_total_hit_count c"

definition cache_clear :: "'r response_cache \<Rightarrow> 'r response_cache" where
  "cache_clear c = c\<lparr>rc_cache := []\<rparr>"

definition le_bytes :: "32 word \<Rightarrow> string" where
  "le_bytes v = map (\<lambda>i. char_of (unat v div 256 ^ i mod 256)) [0, 1, 2, 3]"

text \<open>What is fed to the hash, piece by piece.\<close>

definition cache_key_input ::
  "(chat_message list \<Rightarrow> string option) \<Rightarrow> string \<Rightarrow> completion_request \<Rightarrow> string" where
  "cache_key_input to_json model req =
     model @ ''|'' @
     (case to_json (cr_messages req) of Some j \<Rightarrow> j | None \<Rightarrow> []) @ ''|'' @
     (case cr_max_tokens req of Some n \<Rightarrow> le_bytes n | None \<Rightarrow> []) @ ''|'' @
     (case cr_temperature req of Some t \<Rightarrow> le_bytes t | None \<Rightarrow> []) @ ''|'' @
     (case cr_stop_sequences req of Some stops \<Rightarrow> concat (map (\<lambda>s. s @ [CHR 0x00]) stops) | None \<Rightarrow> [])"

definition cache_key ::
  "(string \<Rightarrow> string) \<Rightarrow> (chat_message list \<Rightarrow> string option) \<Rightarrow> string \<Rightarrow> completion_request \<Rightarrow> string" where
  "cache_key sha256 to_json model req = sha256 (cache_key_input to_json model req)"

definition is_fresh :: "response_cache_config \<Rightarrow> instant \<Rightarrow> 'r cache_entry \<Rightarrow> bool" where
  "is_fresh cfg now e = (now - ce_created_at e < rcc_ttl cfg)"

definition cache_lookup :: "instant \<Rightarrow> string \<Rightarrow> 'r response_cache \<Rightarrow> 'r option \<times> 'r response_cache" where
  "cache_lookup now key c =
     (case hm_get (rc_cache c) key of
        None \<Rightarrow> (None, c)
      | Some e \<Rightarrow>
          (if is_fresh (rc_config c) now e
           then (Some (ce_response e),
                 c\<lparr>rc_cache := hm_put key (e\<lparr>ce_last_accessed := now, ce_hit_count := ce_hit_count e + 1\<rparr>)
                                 (rc_cache c),
                   rc_total_hit_count := rc_total_hit_count c + 1\<rparr>)
           else (None, c\<lparr>rc_cache := hm_del key (rc_cache c)\<rparr>)))"

lemma lru_key_in: "m \<noteq> [] \<Longrightarrow> fst (arg_min_list f m) \<in> fst ` set m"
  using arg_min_list_in[of m f] by blast

lemma length_hm_del_less: "k \<in> fst ` set m \<Longrightarrow> length (hm_del k m) < length m"
  unfolding hm_del_def AList.delete_eq by (force intro: length_filter_less)

function evict_lru :: "nat \<Rightarrow> (string \<times> 'r cache_entry) list \<Rightarrow> (string \<times> 'r cache_entry) list" where
  "evict_lru max_entries m =
     (if length m \<ge> max_entries \<and> m \<noteq> []
      then evict_lru max_entries (hm_del (fst (arg_min_list (\<lambda>(k, e). ce_last_accessed e) m)) m)
      else m)"
  by pat_completeness auto
termination
  by (relation "measure (\<lambda>(n, m). length m)") (auto intro!: length_hm_del_less lru_key_in)

declare evict_lru.simps [simp del]

definition cache_store :: "instant \<Rightarrow> string \<Rightarrow> 'r \<Rightarrow> 'r response_cache \<Rightarrow> 'r response_cache" where
  "cache_store now key response c =
     (let kept = hm_retain (\<lambda>_ e. is_fresh (rc_config c) now e) (rc_cache c);
          room = evict_lru (rcc_max_entries (rc_config c)) kept
      in c\<lparr>rc_cache := hm_put key \<lparr>ce_response = response, ce_created_at = now, ce_last_accessed = now,
                                     ce_hit_count = 0\<rparr> room\<rparr>)"

text \<open>
  A completion; the key is computed with the model name that the wrapped provider reports at the
  start of the call.
\<close>

definition cached_complete ::
  "(string \<Rightarrow> string) \<Rightarrow> (chat_message list \<Rightarrow> string option) \<Rightarrow> string \<Rightarrow> instant \<Rightarrow>
   (completion_request, 'r, 'w) llm \<Rightarrow> (completion_request, 'r, 'r response_cache \<times> 'w) llm" where
  "cached_complete sha256 to_json effective_model now inner req cw =
     (let key = cache_key sha256 to_json effective_model req;
          c0 = (fst cw)\<lparr>rc_request_count := rc_request_count (fst cw) + 1\<rparr>
      in case cache_lookup now key c0 of
           (Some r, c1) \<Rightarrow> (Inr r, (c1, snd cw))
         | (None, c1) \<Rightarrow>
             (case inner req (snd cw) of
                (Inl e, w') \<Rightarrow> (Inl e, (c1, w'))
              | (Inr r, w') \<Rightarrow> (Inr r, (cache_store now key r c1, w'))))"

datatype 'r cache_op = Lookup instant string | Store instant string 'r | ClearCache

fun cache_perform :: "'r cache_op \<Rightarrow> 'r response_cache \<Rightarrow> 'r response_cache" where
  "cache_perform (Lookup now k) c = snd (cache_lookup now k c)"
| "cache_perform (Store now k r) c = cache_store now k r c"
| "cache_perform ClearCache c = cache_clear c"

definition cache_inv :: "'r response_cache \<Rightarrow> bool" where
  "cache_inv c = (hm_wf (rc_cache c) \<and> cache_len c \<le> max 1 (rcc_max_entries (rc_config c)))"

definition sample_cache :: "string response_cache" where
  "sample_cache = (response_cache_new \<lparr>rcc_ttl = 100, rcc_max_entries = 2\<rparr>)
     \<lparr>rc_cache := [(''a'', \<lparr>ce_response = ''x'', ce_created_at = 1, ce_last_accessed = 3, ce_hit_count = 0\<rparr>),
                   (''b'', \<lparr>ce_response = ''y'', ce_created_at = 1, ce_last_accessed = 7, ce_hit_count = 0\<rparr>)]\<rparr>"

text \<open>
  Every cached response was answered by the wrapped provider, to a request with the key it is stored
  under. The key depends on the model that was in force when the request was made, so requests are
  paired with it.
\<close>

definition cache_sound ::
  "(string \<Rightarrow> completion_request \<Rightarrow> string) \<Rightarrow> (string \<times> completion_request \<Rightarrow> 'r \<Rightarrow> bool) \<Rightarrow> 'r response_cache \<Rightarrow> bool" where
  "cache_sound key ans c =
     (hm_wf (rc_cache c) \<and>
      (\<forall>k e. hm_get (rc_cache c) k = Some e \<longrightarrow> (\<exists>m q. key m q = k \<and> ans (m, q) (ce_response e))))"

definition same_key_answered ::
  "(string \<Rightarrow> completion_request \<Rightarrow> string) \<Rightarrow> (string \<times> completion_request \<Rightarrow> 'r \<Rightarrow> bool) \<Rightarrow>
   string \<Rightarrow> completion_request \<Rightarrow> 'r \<Rightarrow> bool" where
  "same_key_answered key ans m q r = (\<exists>m' q'. key m' q' = key m q \<and> ans (m', q') r)"

section \<open>Eviction\<close>

lemma le_bytes_bar:
  "le_bytes 124 = [CHR ''|'', CHR 0x00, CHR 0x00, CHR 0x00]"
  "le_bytes 0x7C000000 = [CHR 0x00, CHR 0x00, CHR 0x00, CHR ''|'']"
  by (simp_all add: le_bytes_def char_of_def bit_0)

lemma evict_lru_wf: "hm_wf m \<Longrightarrow> hm_wf (evict_lru n m)"
proof (induction n m rule: evict_lru.induct)
  case (1 n m)
  then show ?case by (subst evict_lru.simps) auto
qed

lemma evict_lru_length: "0 < n \<Longrightarrow> length (evict_lru n m) < n" "length (evict_lru 0 m) = 0"
proof -
  show "0 < n \<Longrightarrow> length (evict_lru n m) < n"
  proof (induction n m rule: evict_lru.induct)
    case (1 n m)
    then show ?case by (subst evict_lru.simps) (auto simp: not_le)
  qed
  have "evict_lru n m = [] " if "n = 0" for n using that
  proof (induction n m rule: evict_lru.induct)
    case (1 n m)
    then show ?case by (subst evict_lru.simps) auto
  qed
  then show "length (evict_lru 0 m) = 0" by simp
qed

lemma evict_lru_sub: "hm_get (evict_lru n m) k = Some e \<Longrightarrow> hm_get m k = Some e"
proof (induction n m rule: evict_lru.induct)
  case (1 n m)
  then show ?case by (subst (asm) (2) evict_lru.simps) (auto split: if_splits)
qed

text \<open>Every entry that is evicted was accessed no later than every entry that is kept.\<close>

lemma evict_lru_oldest:
  assumes "hm_wf m" "hm_get m k = Some e" "hm_get (evict_lru n m) k = None" "hm_get (evict_lru n m) k' = Some e'"
  shows "ce_last_accessed e \<le> ce_last_accessed e'"
  using assms
proof (induction n m rule: evict_lru.induct)
  case (1 n m)
  let ?g = "\<lambda>(k, e). ce_last_accessed e"
  let ?x = "arg_min_list ?g m"
  show ?case
  proof (cases "n \<le> length m \<and> m \<noteq> []")
    case False
    with 1 show ?thesis by (subst (asm) (2 3) evict_lru.simps) auto
  next
    case True
    let ?m = "hm_del (fst ?x) m"
    have ev: "evict_lru n m = evict_lru n ?m" using True by (subst evict_lru.simps) simp
    show ?thesis
    proof (cases "k = fst ?x")
      case False
      with 1 True ev show ?thesis by auto
    next
      case k: True
      have "hm_get m k' = Some e'" using 1(5) ev evict_lru_sub[of n ?m k' e'] by (auto split: if_splits)
      then have in': "(k', e') \<in> set m" by (auto simp: hm_get_def dest: map_of_SomeD)
      have "?x \<in> set m" using True by (simp add: arg_min_list_in)
      then have "hm_get m k = Some (snd ?x)"
        using 1(2) k by (simp add: hm_get_def hm_wf_def map_of_is_SomeI)
      then have "e = snd ?x" using 1(3) by simp
      moreover have "?g ?x \<le> ?g (k', e')"
        using in' True by (metis (no_types, lifting) f_arg_min_list_f Min_le finite_imageI finite_set imageI)
      ultimately show ?thesis by (simp add: case_prod_unfold)
    qed
  qed
qed

section \<open>The invariant and the entries\<close>

lemma cache_store_inv: "cache_inv c \<Longrightarrow> cache_inv (cache_store now k r c)"
proof -
  assume inv: "cache_inv c"
  let ?n = "rcc_max_entries (rc_config c)"
  let ?m = "evict_lru ?n (hm_retain (\<lambda>_ e. is_fresh (rc_config c) now e) (rc_cache c))"
  let ?e = "\<lparr>ce_response = r, ce_created_at = now, ce_last_accessed = now, ce_hit_count = 0\<rparr>"
  have wf: "hm_wf ?m" using inv by (auto simp: cache_inv_def intro: evict_lru_wf)
  have "length (hm_put k ?e ?m) \<le> Suc (length ?m)" by (rule length_hm_put[OF wf])
  also have "Suc (length ?m) \<le> max 1 ?n"
    using evict_lru_length(1)[of ?n] evict_lru_length(2) by (cases "?n = 0") (auto simp: Suc_le_eq)
  finally show ?thesis
    using wf by (auto simp: cache_inv_def cache_len_def cache_store_def Let_def)
qed

lemma cache_perform_inv: "cache_inv c \<Longrightarrow> cache_inv (cache_perform op c)"
proof (cases op)
  case (Lookup now k)
  show "cache_inv c \<Longrightarrow> ?thesis"
    using length_hm_del[of "rc_cache c" k]
      hm.count_put_same[of "rc_cache c" k _ "\<lambda>_. True"]
    by (auto simp: Lookup cache_lookup_def cache_inv_def cache_len_def count_entries_True
        intro: order.trans split: option.splits)
qed (auto simp: cache_store_inv, simp add: cache_inv_def cache_clear_def cache_len_def)

interpretation cache: op_invariant cache_perform cache_inv
  by unfold_locales (rule cache_perform_inv)

lemma cache_inv_new: "cache_inv (response_cache_new cfg)"
  by (simp add: cache_inv_def response_cache_new_def cache_len_def)

lemma cache_store_get:
  assumes "hm_wf (rc_cache c)" "hm_get (rc_cache (cache_store now k r c)) k' = Some e"
  shows "(k' = k \<and> ce_response e = r \<and> ce_created_at e = now) \<or> hm_get (rc_cache c) k' = Some e"
  using assms
  by (auto simp: cache_store_def Let_def hm_get_retain dest!: evict_lru_sub split: if_splits option.splits)

lemma cache_lookup_get:
  assumes "hm_get (rc_cache (snd (cache_lookup now k c))) k' = Some e"
  shows "\<exists>e0. hm_get (rc_cache c) k' = Some e0 \<and> ce_response e = ce_response e0"
  using assms by (auto simp: cache_lookup_def split: option.splits if_splits)

lemma cache_sound_lookup: "cache_sound key ans c \<Longrightarrow> cache_sound key ans (snd (cache_lookup now k c))"
  unfolding cache_sound_def
  by (intro conjI allI impI, simp add: cache_lookup_def split: option.splits)
    (metis cache_lookup_get)

lemma cache_sound_store:
  assumes "cache_sound key ans c" "ans (m, q) r"
  shows "cache_sound key ans (cache_store now (key m q) r c)"
  unfolding cache_sound_def
proof (intro conjI allI impI)
  have wf: "hm_wf (rc_cache c)" using assms(1) by (simp add: cache_sound_def)
  then show "hm_wf (rc_cache (cache_store now (key m q) r c))"
    by (auto simp: cache_store_def Let_def intro: evict_lru_wf)
  fix k e
  assume "hm_get (rc_cache (cache_store now (key m q) r c)) k = Some e"
  from cache_store_get[OF wf this] assms show "\<exists>m q. key m q = k \<and> ans (m, q) (ce_response e)"
    unfolding cache_sound_def by blast
qed

lemma cache_sound_mono:
  "cache_sound key ans c \<Longrightarrow> (\<And>q r. ans q r \<Longrightarrow> ans' q r) \<Longrightarrow> cache_sound key ans' c"
  unfolding cache_sound_def by blast

lemma cache_sound_count [simp]: "cache_sound key ans (c\<lparr>rc_request_count := n\<rparr>) = cache_sound key ans c"
  by (simp add: cache_sound_def)

lemma cache_hit_sound:
  assumes "cache_sound key ans c" "cache_lookup now (key m q) c = (Some r, c')"
  shows "same_key_answered key ans m q r"
  using assms unfolding cache_sound_def same_key_answered_def cache_lookup_def
  by (auto split: option.splits if_splits)

lemma cached_provider:
  fixes complete :: "(string \<times> completion_request, 'r, 'w) llm" and sha256 to_json
  assumes p: "provider complete answered I"
  defines "key \<equiv> cache_key sha256 to_json"
  shows "provider (cached_complete sha256 to_json model now (\<lambda>q. complete (model, q)))
    (\<lambda>cw. same_key_answered key (answered (snd cw)) model)
    (\<lambda>cw. cache_sound key (answered (snd cw)) (fst cw) \<and> I (snd cw))"
proof
  fix cw q q' r cw'
  let ?c = "cached_complete sha256 to_json model now (\<lambda>q. complete (model, q)) q cw"
  let ?st = "(fst cw)\<lparr>rc_request_count := rc_request_count (fst cw) + 1\<rparr>"
  let ?k = "key model q"
  obtain hit c1 where l: "cache_lookup now ?k ?st = (hit, c1)" by fastforce
  obtain res w' where i: "complete (model, q) (snd cw) = (res, w')" by fastforce
  have c: "?c = (case hit of Some x \<Rightarrow> (Inr x, (c1, snd cw))
      | None \<Rightarrow> (case res of Inl e \<Rightarrow> (Inl e, (c1, w')) | Inr x \<Rightarrow> (Inr x, (cache_store now ?k x c1, w'))))"
    using l i by (simp add: cached_complete_def key_def Let_def split: option.splits sum.splits)
  have mono: "answered (snd cw) a b \<Longrightarrow> answered w' a b" if "I (snd cw)" for a b
    using provider.complete_mono[OF p that, of a b "(model, q)"] i by simp
  have c1: "cache_sound key (answered (snd cw)) c1" if "cache_sound key (answered (snd cw)) (fst cw)"
    using cache_sound_lookup[of key "answered (snd cw)" ?st now ?k] that l by simp
  show "cache_sound key (answered (snd (snd ?c))) (fst (snd ?c)) \<and> I (snd (snd ?c))"
    if a: "cache_sound key (answered (snd cw)) (fst cw) \<and> I (snd cw)"
  proof -
    have s: "cache_sound key (answered w') c1"
      using a by (intro cache_sound_mono[OF c1]) (auto intro: mono)
    have "I w'" using provider.complete_inv[OF p, of "snd cw" "(model, q)"] a i by simp
    moreover have "cache_sound key (answered w') (cache_store now ?k x c1)" if "res = Inr x" for x
      using provider.complete_sound[OF p, of "snd cw" "(model, q)" x w'] a i that by (intro cache_sound_store[OF s]) simp
    ultimately show ?thesis using a c1 s by (simp add: c split: option.splits sum.splits)
  qed
  show "same_key_answered key (answered (snd (snd ?c))) model q' r"
    if "cache_sound key (answered (snd cw)) (fst cw) \<and> I (snd cw)"
      "same_key_answered key (answered (snd cw)) model q' r"
  proof -
    have "same_key_answered key (answered w') model q' r"
      using that mono unfolding same_key_answered_def by blast
    with that show ?thesis by (simp add: c split: option.splits sum.splits)
  qed
  show "same_key_answered key (answered (snd cw')) model q r"
    if a: "cache_sound key (answered (snd cw)) (fst cw) \<and> I (snd cw)" and r: "?c = (Inr r, cw')"
  proof (cases hit)
    case None
    then have "res = Inr r" "snd cw' = w'" using r by (auto simp: c split: sum.splits)
    then have "answered (snd cw') (model, q) r"
      using provider.complete_sound[OF p, of "snd cw" "(model, q)" r w'] a i by simp
    then show ?thesis unfolding same_key_answered_def by blast
  next
    case (Some x)
    then have "x = r" "snd cw' = snd cw" using r by (auto simp: c)
    then show ?thesis
      using cache_hit_sound[of key "answered (snd cw)" ?st now model q r c1] a l Some by simp
  qed
qed

interpretation cached_backend: provider "cached_complete sha256 to_json model now (\<lambda>q. backend_call f (model, q))"
    "\<lambda>cw. same_key_answered (cache_key sha256 to_json) (backend_answered (snd cw)) model"
    "\<lambda>cw. cache_sound (cache_key sha256 to_json) (backend_answered (snd cw)) (fst cw) \<and> True"
  for sha256 to_json model now f
  by (rule cached_provider[OF backend.provider_axioms])

section \<open>Properties\<close>

text \<open>
  The cache never holds more entries than configured (one if zero is configured), and has one
  entry per key, after any sequence of lookups, stores and clears.
\<close>

theorem cache_size_bounded:
  "cache_inv (fold cache_perform ops (response_cache_new cfg))"
  by (rule cache.fold_inv[OF cache_inv_new])

text \<open>
  A stored response is found again under its key as long as it is younger than the time to live;
  from then on a lookup misses and removes the entry. A hit never returns a response older than that.
\<close>

theorem cache_ttl:
  assumes "now \<le> later"
  shows "fst (cache_lookup later k (cache_store now k r c)) =
      (if later - now < rcc_ttl (rc_config c) then Some r else None) \<and>
    (rcc_ttl (rc_config c) \<le> later - now \<longrightarrow>
      hm_get (rc_cache (snd (cache_lookup later k (cache_store now k r c)))) k = None) \<and>
    (\<forall>x. fst (cache_lookup later k' c) = Some x \<longrightarrow>
      (\<exists>e. hm_get (rc_cache c) k' = Some e \<and> ce_response e = x \<and> later - ce_created_at e < rcc_ttl (rc_config c)))"
  by (auto simp: cache_lookup_def cache_store_def Let_def is_fresh_def split: option.splits if_splits)

theorem cache_ttl_witness:
  "fst (cache_lookup 5 ''k'' (cache_store 2 ''k'' ''r'' (response_cache_new \<lparr>rcc_ttl = 10, rcc_max_entries = 1\<rparr>))) =
   Some ''r''"
  using cache_ttl[of 2 5 "''k''" "''r''" "response_cache_new \<lparr>rcc_ttl = 10, rcc_max_entries = 1\<rparr>" "''k''"]
  by (simp add: response_cache_new_def)

text \<open>
  Eviction is least-recently-used: a fresh entry that a store evicts was last accessed no later
  than every other entry that the store keeps.
\<close>

theorem cache_evicts_lru:
  assumes "hm_wf (rc_cache c)" "hm_get (rc_cache c) k1 = Some e1" "is_fresh (rc_config c) now e1" "k1 \<noteq> k"
    "hm_get (rc_cache (cache_store now k r c)) k1 = None"
    "hm_get (rc_cache (cache_store now k r c)) k2 = Some e2" "k2 \<noteq> k"
  shows "ce_last_accessed e1 \<le> ce_last_accessed e2"
proof (rule evict_lru_oldest)
  let ?m = "hm_retain (\<lambda>_ e. is_fresh (rc_config c) now e) (rc_cache c)"
  show "hm_wf ?m" using assms(1) by simp
  show "hm_get ?m k1 = Some e1" using assms(1-3) by (simp add: hm_get_retain)
  show "hm_get (evict_lru (rcc_max_entries (rc_config c)) ?m) k1 = None"
    "hm_get (evict_lru (rcc_max_entries (rc_config c)) ?m) k2 = Some e2"
    using assms(4-7) by (simp_all add: cache_store_def Let_def)
qed

theorem cache_evicts_lru_witness:
  "(3::nat) \<le> 7 \<and> hm_get (rc_cache (cache_store 9 ''c'' ''z'' sample_cache)) ''a'' = None"
proof -
  let ?a = "\<lparr>ce_response = ''x'', ce_created_at = 1, ce_last_accessed = 3, ce_hit_count = 0\<rparr>"
  let ?b = "\<lparr>ce_response = ''y'', ce_created_at = 1, ce_last_accessed = 7, ce_hit_count = 0\<rparr>"
  have st: "rc_cache (cache_store 9 ''c'' ''z'' sample_cache) =
      [(''b'', ?b), (''c'', \<lparr>ce_response = ''z'', ce_created_at = 9, ce_last_accessed = 9, ce_hit_count = 0\<rparr>)]"
    by (simp add: cache_store_def sample_cache_def response_cache_new_def hm_retain_def is_fresh_def
        evict_lru.simps hm_del_def hm_put_def Let_def)
  have "ce_last_accessed ?a \<le> ce_last_accessed ?b"
    by (rule cache_evicts_lru[where c = sample_cache and ?k1.0 = "''a''" and ?k2.0 = "''b''" and k = "''c''"
          and now = 9 and r = "''z''"])
      (simp_all add: st, simp_all add: sample_cache_def hm_wf_def hm_get_def is_fresh_def response_cache_new_def)
  then show ?thesis by (simp add: st hm_get_def)
qed

text \<open>
  The parts of the key are joined without lengths, so requests with different parameters can be
  hashed from the same bytes, whatever the hash: a request with \<open>max_tokens\<close> 124 and no temperature
  has the key of one without \<open>max_tokens\<close> and the temperature with bit pattern \<open>0x7C000000\<close>.
\<close>

theorem cache_key_ambiguous:
  "cr_max_tokens r1 = Some 124 \<Longrightarrow> cr_temperature r1 = None \<Longrightarrow>
   r2 = r1\<lparr>cr_max_tokens := None, cr_temperature := Some 0x7C000000\<rparr> \<Longrightarrow>
   cache_key sha256 to_json model r1 = cache_key sha256 to_json model r2"
  by (simp add: cache_key_def cache_key_input_def le_bytes_bar)

theorem cache_key_ambiguous_witness:
  "cache_key id (\<lambda>_. None) ''m'' ((completion_request_new [])\<lparr>cr_max_tokens := Some 124\<rparr>) =
   cache_key id (\<lambda>_. None) ''m'' ((completion_request_new [])\<lparr>cr_temperature := Some 0x7C000000\<rparr>)"
  using cache_key_ambiguous[OF _ _ refl, of "(completion_request_new [])\<lparr>cr_max_tokens := Some 124\<rparr>" id "\<lambda>_. None" "''m''"]
  by (simp add: completion_request_new_def)

end
