(* ===== verification/Provider_Chain.thy ===== *)
theory Provider_Chain
  imports Retry Circuit_Breaker Failover Response_Cache
begin

text \<open>
  The composition of the decorators in \<open>build_provider_chain\<close> of \<open>src/llm/mod.rs\<close>: retry around each
  backend, failover over the primary and the fallback, the circuit breaker, and the response cache,
  each present only when it is configured. Smart routing, which is present when a cheap model is
  configured, and the recorder of traces are left out. The clock readings, jitter and task that one
  request meets, and the model name that the wrapped providers report for it, are its \<open>call_env\<close>. The
  model can be changed between two requests (\<open>set_model\<close>), so what a backend is asked, and what its
  log records, is a request together with the model name that was reported for it.
\<close>

record chain_config =
  ch_max_retries :: nat
  ch_fallback :: bool
  ch_breaker :: "circuit_breaker_config option"
  ch_cache_enabled :: bool

record call_env =
  env_offset :: "nat \<Rightarrow> nat"
  env_task :: "nat option"
  env_now_nanos :: "64 word"
  env_later_nanos :: "nat \<Rightarrow> 64 word"
  env_checked_at :: instant
  env_recorded_at :: instant
  env_cache_now :: instant
  env_model :: string

text \<open>The state of a disabled layer is carried along untouched.\<close>

definition skip_layer :: "('q, 'r, 'w) llm \<Rightarrow> ('q, 'r, 's \<times> 'w) llm" where
  "skip_layer inner q sw = (case inner q (snd sw) of (r, w') \<Rightarrow> (r, (fst sw, w')))"

definition retry_layer :: "chain_config \<Rightarrow> call_env \<Rightarrow> string \<Rightarrow> ('q, 'r, 'w) llm \<Rightarrow> ('q, 'r, 'w) llm" where
  "retry_layer cfg env model inner =
     (if ch_max_retries cfg > 0 then retry_complete (env_offset env) model (ch_max_retries cfg) inner
      else inner)"

definition failover_layer ::
  "chain_config \<Rightarrow> call_env \<Rightarrow> (nat \<Rightarrow> ('q, 'r, 'w) llm) \<Rightarrow> ('q, 'r, failover \<times> 'w) llm" where
  "failover_layer cfg env calls =
     (if ch_fallback cfg
      then failover_complete (env_task env) (env_now_nanos env) (env_later_nanos env) calls
      else skip_layer (calls 0))"

definition breaker_layer ::
  "chain_config \<Rightarrow> call_env \<Rightarrow> (duration \<Rightarrow> string) \<Rightarrow> ('q, 'r, 'w) llm \<Rightarrow> ('q, 'r, breaker_state \<times> 'w) llm" where
  "breaker_layer cfg env show_secs inner =
     (case ch_breaker cfg of
        Some cb \<Rightarrow> breaker_complete cb (env_model env) show_secs (env_checked_at env) (env_recorded_at env) inner
      | None \<Rightarrow> skip_layer inner)"

definition cache_layer ::
  "chain_config \<Rightarrow> call_env \<Rightarrow> (string \<Rightarrow> string) \<Rightarrow> (chat_message list \<Rightarrow> string option) \<Rightarrow>
   (completion_request, 'r, 'w) llm \<Rightarrow> (completion_request, 'r, 'r response_cache \<times> 'w) llm" where
  "cache_layer cfg env sha256 to_json inner =
     (if ch_cache_enabled cfg
      then cached_complete sha256 to_json (env_model env) (env_cache_now env) inner
      else skip_layer inner)"

type_synonym model_request = "string \<times> completion_request"

type_synonym 'r chain_state =
  "'r response_cache \<times> breaker_state \<times> failover \<times> (model_request, 'r) backend_log"

definition guarded_chain ::
  "chain_config \<Rightarrow> (duration \<Rightarrow> string) \<Rightarrow> (nat \<Rightarrow> nat \<Rightarrow> model_request \<Rightarrow> (llm_error, 'r) result) \<Rightarrow>
   call_env \<Rightarrow> (model_request, 'r, breaker_state \<times> failover \<times> (model_request, 'r) backend_log) llm" where
  "guarded_chain cfg show_secs backends env =
     breaker_layer cfg env show_secs
       (failover_layer cfg env (\<lambda>i. retry_layer cfg env (env_model env) (backend_call (backends i))))"

definition provider_chain ::
  "chain_config \<Rightarrow> (string \<Rightarrow> string) \<Rightarrow> (chat_message list \<Rightarrow> string option) \<Rightarrow> (duration \<Rightarrow> string) \<Rightarrow>
   (nat \<Rightarrow> nat \<Rightarrow> model_request \<Rightarrow> (llm_error, 'r) result) \<Rightarrow> call_env \<Rightarrow>
   (completion_request, 'r, 'r chain_state) llm" where
  "provider_chain cfg sha256 to_json show_secs backends env =
     cache_layer cfg env sha256 to_json (\<lambda>q. guarded_chain cfg show_secs backends env (env_model env, q))"

definition chain_init :: "response_cache_config \<Rightarrow> cooldown_config \<Rightarrow> 'r chain_state" where
  "chain_init rcc cc =
     (response_cache_new rcc, breaker_new,
      \<lparr>fo_last_used = 0, fo_cooldowns = replicate 2 provider_cooldown_new, fo_config = cc,
       fo_provider_for_task = []\<rparr>,
      backend_new)"

text \<open>The invariant of the chain, its runs, and a sample environment.\<close>

definition sample_env :: call_env where
  "sample_env = \<lparr>env_offset = (\<lambda>_. 0), env_task = None, env_now_nanos = 5, env_later_nanos = (\<lambda>_. 6),
     env_checked_at = 1, env_recorded_at = 2, env_cache_now = 1, env_model = ''m''\<rparr>"

definition breaker_ok :: "chain_config \<Rightarrow> breaker_state \<Rightarrow> bool" where
  "breaker_ok cfg s = (case ch_breaker cfg of Some cb \<Rightarrow> breaker_inv cb s | None \<Rightarrow> True)"

definition guarded_inv ::
  "chain_config \<Rightarrow> breaker_state \<times> failover \<times> (model_request, 'r) backend_log \<Rightarrow> bool" where
  "guarded_inv cfg s = (breaker_ok cfg (fst s) \<and> failover_inv 2 (fst (snd s)) \<and> True)"

definition guarded_answered ::
  "breaker_state \<times> failover \<times> (model_request, 'r) backend_log \<Rightarrow> model_request \<Rightarrow> 'r \<Rightarrow> bool" where
  "guarded_answered s q r = backend_answered (snd (snd s)) q r"

definition chain_inv ::
  "chain_config \<Rightarrow> (string \<Rightarrow> string) \<Rightarrow> (chat_message list \<Rightarrow> string option) \<Rightarrow> 'r chain_state \<Rightarrow> bool" where
  "chain_inv cfg sha256 to_json s =
     (cache_sound (cache_key sha256 to_json) (guarded_answered (snd s)) (fst s) \<and> guarded_inv cfg (snd s))"

definition chain_run ::
  "chain_config \<Rightarrow> (string \<Rightarrow> string) \<Rightarrow> (chat_message list \<Rightarrow> string option) \<Rightarrow> (duration \<Rightarrow> string) \<Rightarrow>
   (nat \<Rightarrow> nat \<Rightarrow> model_request \<Rightarrow> (llm_error, 'r) result) \<Rightarrow>
   (call_env \<times> completion_request) list \<Rightarrow> 'r chain_state \<Rightarrow> 'r chain_state" where
  "chain_run cfg sha256 to_json ss backends calls s =
     fold (\<lambda>(env, q) s. snd (provider_chain cfg sha256 to_json ss backends env q s)) calls s"

section \<open>The contract of the chain\<close>

lemma skip_layer_simps [simp]:
  "snd (snd (skip_layer inner q sw)) = snd (inner q (snd sw))"
  "fst (snd (skip_layer inner q sw)) = fst sw"
  "fst (skip_layer inner q sw) = fst (inner q (snd sw))"
  by (simp_all add: skip_layer_def split: prod.splits)

lemma skip_provider:
  assumes "provider complete answered I"
  shows "provider (skip_layer complete) (\<lambda>sw. answered (snd sw)) (\<lambda>sw. J (fst sw) \<and> I (snd sw))"
proof
  fix sw q q' r sw'
  show "J (fst (snd (skip_layer complete q sw))) \<and> I (snd (snd (skip_layer complete q sw)))"
    if "J (fst sw) \<and> I (snd sw)"
    using that provider.complete_inv[OF assms] by simp
  show "answered (snd (snd (skip_layer complete q sw))) q' r"
    if "J (fst sw) \<and> I (snd sw)" "answered (snd sw) q' r"
    using that provider.complete_mono[OF assms] by simp
  show "answered (snd sw') q r"
    if a: "J (fst sw) \<and> I (snd sw)" and c: "skip_layer complete q sw = (Inr r, sw')"
  proof -
    have "complete q (snd sw) = (Inr r, snd sw')"
      using skip_layer_simps(1,3)[of complete q sw] c by (simp add: prod_eq_iff)
    with a show ?thesis using provider.complete_sound[OF assms] by blast
  qed
qed

lemma retry_layer_provider:
  assumes "provider complete answered I"
  shows "provider (retry_layer cfg env model complete) answered I"
  using assms provider.retry_provider[OF assms] by (simp add: retry_layer_def)

lemma failover_layer_provider:
  assumes "\<And>i. provider (calls i) answered I"
  shows "provider (failover_layer cfg env calls) (\<lambda>fw. answered (snd fw))
    (\<lambda>fw. failover_inv 2 (fst fw) \<and> I (snd fw))"
  using failover_provider[of calls answered I, OF assms] skip_provider[OF assms[of 0], of "failover_inv 2"]
  by (cases "ch_fallback cfg") (simp_all add: failover_layer_def)

lemma breaker_layer_provider:
  assumes "provider complete answered I"
  shows "provider (breaker_layer cfg env ss complete) (\<lambda>sw. answered (snd sw))
    (\<lambda>sw. breaker_ok cfg (fst sw) \<and> I (snd sw))"
proof (cases "ch_breaker cfg")
  case None
  then show ?thesis
    using skip_provider[OF assms, of "\<lambda>_. True"] by (simp add: breaker_layer_def breaker_ok_def)
next
  case (Some cb)
  then show ?thesis
    using provider.breaker_provider[OF assms] by (simp add: breaker_layer_def breaker_ok_def)
qed

lemma guarded_chain_provider:
  "provider (guarded_chain cfg ss backends env) guarded_answered (guarded_inv cfg)"
proof -
  have "provider (\<lambda>q. retry_layer cfg env (env_model env) (backend_call (backends i)) q)
      backend_answered (\<lambda>_. True)" for i
    by (rule retry_layer_provider) (rule backend.provider_axioms)
  from breaker_layer_provider[OF failover_layer_provider[OF this]] show ?thesis
    unfolding guarded_chain_def guarded_answered_def guarded_inv_def .
qed

interpretation guarded: provider "guarded_chain cfg ss backends env" guarded_answered "guarded_inv cfg"
  for cfg ss backends env
  by (rule guarded_chain_provider)

lemma chain_inv_init: "chain_inv cfg sha256 to_json (chain_init rcc cc)"
  by (simp add: chain_inv_def chain_init_def cache_sound_def response_cache_new_def guarded_inv_def
      breaker_ok_def breaker_inv_new failover_inv_def split: option.splits)

lemma chain_inv_step:
  assumes "chain_inv cfg sha256 to_json s"
  shows "chain_inv cfg sha256 to_json (snd (provider_chain cfg sha256 to_json ss backends env q s))"
proof (cases "ch_cache_enabled cfg")
  case True
  then show ?thesis
    using assms provider.complete_inv[OF cached_provider[OF guarded_chain_provider]]
    unfolding chain_inv_def provider_chain_def cache_layer_def by simp
next
  case False
  have "guarded_inv cfg (snd s)" and "cache_sound (cache_key sha256 to_json) (guarded_answered (snd s)) (fst s)"
    using assms by (auto simp: chain_inv_def)
  with False show ?thesis
    using guarded.complete_inv[of cfg "snd s" ss backends env "(env_model env, q)"]
      guarded.complete_mono[of cfg "snd s" _ _ ss backends env "(env_model env, q)"]
    by (auto simp: chain_inv_def provider_chain_def cache_layer_def skip_layer_def split: prod.splits
        intro: cache_sound_mono)
qed

lemma chain_inv_run:
  "chain_inv cfg sha256 to_json s \<Longrightarrow> chain_inv cfg sha256 to_json (chain_run cfg sha256 to_json ss backends calls s)"
proof (induction calls arbitrary: s)
  case (Cons c calls)
  then show ?case by (cases c) (simp add: chain_run_def chain_inv_step)
qed (simp add: chain_run_def)

section \<open>Properties\<close>

text \<open>
  C2. The whole chain never makes up a response and never mixes up models: after any sequence of
  requests with any clocks, jitter, model changes and backend behaviour, a response that a request
  receives was given by a backend to a request which, with the model name reported for it, has the
  cache key that this request has with the model name reported now; and to this very request, under
  this model name, when the cache is disabled.
\<close>

theorem chain_response_answered:
  assumes "s = chain_run cfg sha256 to_json ss backends calls (chain_init rcc cc)"
    "provider_chain cfg sha256 to_json ss backends env q s = (Inr r, s')"
  shows "\<exists>m' q'. cache_key sha256 to_json m' q' = cache_key sha256 to_json (env_model env) q \<and>
      ((m', q'), r) \<in> set (bl_answers (snd (snd (snd s')))) \<and>
      (\<not> ch_cache_enabled cfg \<longrightarrow> m' = env_model env \<and> q' = q)"
proof -
  have inv: "chain_inv cfg sha256 to_json s" unfolding assms(1) by (rule chain_inv_run[OF chain_inv_init])
  show ?thesis
  proof (cases "ch_cache_enabled cfg")
    case True
    have "cached_complete sha256 to_json (env_model env) (env_cache_now env)
        (\<lambda>q. guarded_chain cfg ss backends env (env_model env, q)) q s = (Inr r, s')"
      using assms(2) True by (simp add: provider_chain_def cache_layer_def)
    from provider.complete_sound[OF cached_provider[OF guarded_chain_provider] _ this]
    have "same_key_answered (cache_key sha256 to_json) (guarded_answered (snd s')) (env_model env) q r"
      using inv by (simp add: chain_inv_def)
    with True show ?thesis
      by (auto simp: same_key_answered_def guarded_answered_def backend_answered_def)
  next
    case False
    then have "guarded_chain cfg ss backends env (env_model env, q) (snd s) = (Inr r, snd s')"
      using assms(2) by (auto simp: provider_chain_def cache_layer_def skip_layer_def split: prod.splits)
    moreover have "guarded_inv cfg (snd s)" using inv by (simp add: chain_inv_def)
    ultimately have "guarded_answered (snd s') (env_model env, q) r" by (rule guarded.complete_sound[rotated])
    then show ?thesis by (auto simp: guarded_answered_def backend_answered_def)
  qed
qed

theorem chain_response_answered_witness:
  "\<exists>m' q'. cache_key id (\<lambda>_. None) m' q' = cache_key id (\<lambda>_. None) ''m'' (completion_request_new []) \<and>
     ((m', q'), ''ok'') \<in> set (bl_answers (snd (snd (snd (snd (provider_chain
        \<lparr>ch_max_retries = 0, ch_fallback = False, ch_breaker = None, ch_cache_enabled = True\<rparr> id (\<lambda>_. None)
        (\<lambda>_. []) (\<lambda>i n q. Inr ''ok'') sample_env (completion_request_new [])
        (chain_init response_cache_config_default cooldown_config_default)))))))"
proof -
  let ?cfg = "\<lparr>ch_max_retries = 0, ch_fallback = False, ch_breaker = None, ch_cache_enabled = True\<rparr>"
  let ?s = "chain_init response_cache_config_default cooldown_config_default :: string chain_state"
  let ?c = "provider_chain ?cfg id (\<lambda>_. None) (\<lambda>_. []) (\<lambda>i n q. Inr ''ok'') sample_env (completion_request_new []) ?s"
  have s: "?s = chain_run ?cfg id (\<lambda>_. None) (\<lambda>_. []) (\<lambda>i n q. Inr ''ok'') []
      (chain_init response_cache_config_default cooldown_config_default)"
    by (simp add: chain_run_def)
  have "fst ?c = Inr ''ok''"
    by (simp add: provider_chain_def cache_layer_def cached_complete_def guarded_chain_def breaker_layer_def
        failover_layer_def retry_layer_def skip_layer_def backend_call_def chain_init_def backend_new_def
        cache_lookup_def response_cache_new_def Let_def)
  then have c: "?c = (Inr ''ok'', snd ?c)" by (simp add: prod_eq_iff)
  have "env_model sample_env = ''m''" by (simp add: sample_env_def)
  with chain_response_answered[OF s c] show ?thesis by auto
qed

end
