(* ===== verification/Rate_Limiter.thy ===== *)
theory Rate_Limiter
  imports Prelude
begin

text \<open>
  The rate limiter of tools, \<open>src/tools/rate_limiter.rs\<close>: two fixed windows per user and tool. Each
  call is given one clock reading, in nanoseconds.
\<close>

section \<open>Model\<close>

definition MINUTE :: duration where
  "MINUTE = 60 * 1000000000"

definition HOUR :: duration where
  "HOUR = 3600 * 1000000000"

record tool_rate_limit_config =
  rl_requests_per_minute :: "32 word"
  rl_requests_per_hour :: "32 word"

definition tool_rate_limit_config_default :: tool_rate_limit_config where
  "tool_rate_limit_config_default = \<lparr>rl_requests_per_minute = 60, rl_requests_per_hour = 1000\<rparr>"

datatype limit_type = PerMinute | PerHour

datatype rate_limit_result =
    Allowed "32 word" "32 word"
  | Limited duration limit_type

definition is_allowed :: "rate_limit_result \<Rightarrow> bool" where
  "is_allowed r = (case r of Allowed _ _ \<Rightarrow> True | Limited _ _ \<Rightarrow> False)"

record window_state =
  ws_window_start :: instant
  ws_count :: "32 word"

definition window_new :: "instant \<Rightarrow> window_state" where
  "window_new now = \<lparr>ws_window_start = now, ws_count = 0\<rparr>"

definition maybe_reset :: "instant \<Rightarrow> duration \<Rightarrow> window_state \<Rightarrow> window_state" where
  "maybe_reset now d w =
     (if now - ws_window_start w \<ge> d then \<lparr>ws_window_start = now, ws_count = 0\<rparr> else w)"

definition time_until_reset :: "instant \<Rightarrow> duration \<Rightarrow> window_state \<Rightarrow> duration" where
  "time_until_reset now d w =
     (let elapsed = now - ws_window_start w in if elapsed \<ge> d then 0 else d - elapsed)"

record tool_rate_limit_state =
  tr_minute_window :: window_state
  tr_hour_window :: window_state

definition tool_rate_limit_state_new :: "instant \<Rightarrow> tool_rate_limit_state" where
  "tool_rate_limit_state_new now =
     \<lparr>tr_minute_window = window_new now, tr_hour_window = window_new now\<rparr>"

type_synonym rate_limiter = "((string \<times> string) \<times> tool_rate_limit_state) list"

definition rate_limiter_new :: rate_limiter where
  "rate_limiter_new = []"

definition count_request :: "window_state \<Rightarrow> window_state" where
  "count_request w = w\<lparr>ws_count := ws_count w + 1\<rparr>"

text \<open>What happens to the entry of the key.\<close>

definition check_entry ::
  "instant \<Rightarrow> tool_rate_limit_config \<Rightarrow> bool \<Rightarrow> tool_rate_limit_state \<Rightarrow> rate_limit_result \<times> tool_rate_limit_state"
where
  "check_entry now cfg rec s =
     (let m = maybe_reset now MINUTE (tr_minute_window s);
          h = maybe_reset now HOUR (tr_hour_window s);
          s' = \<lparr>tr_minute_window = m, tr_hour_window = h\<rparr>
      in if ws_count m \<ge> rl_requests_per_minute cfg
         then (Limited (time_until_reset now MINUTE m) PerMinute, s')
         else if ws_count h \<ge> rl_requests_per_hour cfg
         then (Limited (time_until_reset now HOUR h) PerHour, s')
         else
           (let s'' = (if rec then \<lparr>tr_minute_window = count_request m, tr_hour_window = count_request h\<rparr> else s')
            in (Allowed (rl_requests_per_minute cfg - ws_count (tr_minute_window s''))
                        (rl_requests_per_hour cfg - ws_count (tr_hour_window s'')), s'')))"

definition check_internal ::
  "instant \<Rightarrow> string \<Rightarrow> string \<Rightarrow> tool_rate_limit_config \<Rightarrow> bool \<Rightarrow> rate_limiter \<Rightarrow>
   rate_limit_result \<times> rate_limiter" where
  "check_internal now user_id tool_name cfg rec l =
     (let key = (user_id, tool_name);
          entry = (case hm_get l key of Some s \<Rightarrow> s | None \<Rightarrow> tool_rate_limit_state_new now);
          (r, entry') = check_entry now cfg rec entry
      in (r, hm_put key entry' l))"

definition check_and_record ::
  "instant \<Rightarrow> string \<Rightarrow> string \<Rightarrow> tool_rate_limit_config \<Rightarrow> rate_limiter \<Rightarrow> rate_limit_result \<times> rate_limiter" where
  "check_and_record now user_id tool_name cfg l = check_internal now user_id tool_name cfg True l"

definition rate_check ::
  "instant \<Rightarrow> string \<Rightarrow> string \<Rightarrow> tool_rate_limit_config \<Rightarrow> rate_limiter \<Rightarrow> rate_limit_result \<times> rate_limiter" where
  "rate_check now user_id tool_name cfg l = check_internal now user_id tool_name cfg False l"

definition get_usage :: "string \<Rightarrow> string \<Rightarrow> rate_limiter \<Rightarrow> (32 word \<times> 32 word) option" where
  "get_usage user_id tool_name l =
     map_option (\<lambda>s. (ws_count (tr_minute_window s), ws_count (tr_hour_window s))) (hm_get l (user_id, tool_name))"

definition rate_clear :: "string \<Rightarrow> string \<Rightarrow> rate_limiter \<Rightarrow> rate_limiter" where
  "rate_clear user_id tool_name l = hm_del (user_id, tool_name) l"

definition rate_clear_all :: "rate_limiter \<Rightarrow> rate_limiter" where
  "rate_clear_all l = []"

text \<open>
  A run of recorded checks: each is for a user and a tool at a time. The result lists the times at
  which a given user and tool were allowed.
\<close>

fun allowed_times ::
  "tool_rate_limit_config \<Rightarrow> string \<times> string \<Rightarrow> (instant \<times> string \<times> string) list \<Rightarrow> rate_limiter \<Rightarrow> instant list" where
  "allowed_times cfg key [] l = []"
| "allowed_times cfg key ((t, u, n) # cs) l =
     (case check_and_record t u n cfg l of
        (r, l') \<Rightarrow>
          (if is_allowed r \<and> (u, n) = key then t # allowed_times cfg key cs l'
           else allowed_times cfg key cs l'))"

section \<open>One window against a history\<close>

text \<open>
  \<open>A\<close> is the list of the times allowed so far. A window accounts for them when the entries since its
  start are counted by it, all lie before its end, and no stretch of the length of the window that
  ends after the start holds more than the limit before the start, nor any such stretch more than
  twice the limit.
\<close>

definition count_in :: "instant \<Rightarrow> instant \<Rightarrow> instant list \<Rightarrow> nat" where
  "count_in a b A = length (filter (\<lambda>t. a \<le> t \<and> t < b) A)"

definition accounts :: "duration \<Rightarrow> nat \<Rightarrow> window_state \<Rightarrow> instant list \<Rightarrow> bool" where
  "accounts d limit w A =
     (unat (ws_count w) \<le> limit \<and>
      length (filter (\<lambda>t. ws_window_start w \<le> t) A) \<le> unat (ws_count w) \<and>
      (\<forall>t \<in> set A. t < ws_window_start w + d) \<and>
      (\<forall>s. ws_window_start w < s + d \<longrightarrow> count_in s (ws_window_start w) A \<le> limit) \<and>
      (\<forall>s. count_in s (s + d) A \<le> 2 * limit))"

text \<open>The entry of a key accounts for a history, with both windows started by the given time.\<close>

definition limiter_ok ::
  "tool_rate_limit_config \<Rightarrow> string \<times> string \<Rightarrow> instant list \<Rightarrow> instant \<Rightarrow> rate_limiter \<Rightarrow> bool" where
  "limiter_ok cfg key A t0 l =
     (case hm_get l key of
        None \<Rightarrow> A = []
      | Some s \<Rightarrow>
          accounts MINUTE (unat (rl_requests_per_minute cfg)) (tr_minute_window s) A \<and>
          accounts HOUR (unat (rl_requests_per_hour cfg)) (tr_hour_window s) A \<and>
          ws_window_start (tr_minute_window s) \<le> t0 \<and> ws_window_start (tr_hour_window s) \<le> t0)"

lemma count_in_split:
  "a \<le> c \<Longrightarrow> count_in a b A \<le> count_in a c A + length (filter (\<lambda>t. c \<le> t) A)"
  by (induction A) (auto simp: count_in_def)

lemma count_in_le: "(\<And>t. t \<in> set A \<Longrightarrow> a \<le> t \<Longrightarrow> t < b \<Longrightarrow> c \<le> t) \<Longrightarrow>
  count_in a b A \<le> length (filter (\<lambda>t. c \<le> t) A)"
  by (induction A) (auto simp: count_in_def)

lemma count_in_snoc: "count_in a b (A @ [t]) = count_in a b A + (if a \<le> t \<and> t < b then 1 else 0)"
  by (simp add: count_in_def)

lemma accounts_new: "accounts d limit (window_new now) []"
  by (simp add: accounts_def window_new_def count_in_def)

lemma accounts_reset:
  assumes "accounts d limit w A" "0 < d"
  shows "accounts d limit (maybe_reset now d w) A"
proof (cases "now - ws_window_start w \<ge> d")
  case False
  with assms show ?thesis by (simp add: maybe_reset_def)
next
  case True
  have late: "ws_window_start w + d \<le> now" using True assms(2) by simp
  have all: "\<forall>t \<in> set A. t < now" using assms(1) late by (auto simp: accounts_def)
  have "count_in s now A \<le> limit" if "now < s + d" for s
  proof -
    have "ws_window_start w \<le> t" if "s \<le> t" for t using that \<open>now < s + d\<close> late by simp
    then have "count_in s now A \<le> length (filter (\<lambda>t. ws_window_start w \<le> t) A)"
      by (intro count_in_le)
    then show ?thesis using assms(1) by (simp add: accounts_def)
  qed
  moreover have "filter (\<lambda>t. now \<le> t) A = []" using all by (auto simp: filter_empty_conv)
  moreover have "\<forall>t \<in> set A. t < now + d" using all by auto
  ultimately show ?thesis
    using assms(1) True by (simp add: accounts_def maybe_reset_def)
qed

lemma accounts_count:
  assumes "accounts d (unat limit) w A" "ws_count w < limit" "ws_window_start w \<le> t" "t < ws_window_start w + d"
  shows "accounts d (unat limit) (count_request w) (A @ [t])"
proof -
  let ?s = "ws_window_start w"
  have lt: "unat (ws_count w) < unat limit" using assms(2) by (simp add: word_less_nat_alt)
  have "unat limit < 2 ^ 32" using unsigned_less[of limit] by simp
  then have inc: "unat (ws_count w + 1) = Suc (unat (ws_count w))"
    using lt by (simp add: unat_word_ariths)
  have two: "count_in s (s + d) (A @ [t]) \<le> 2 * unat limit" for s
  proof (cases "s \<le> t \<and> t < s + d")
    case False
    with assms(1) show ?thesis by (auto simp: accounts_def count_in_snoc)
  next
    case True
    show ?thesis
    proof (cases "s \<le> ?s")
      case le: True
      have "?s < s + d" using True assms(3) by simp
      then have "count_in s ?s A \<le> unat limit" using assms(1) by (simp add: accounts_def)
      moreover have "length (filter (\<lambda>t. ?s \<le> t) A) < unat limit"
        using assms(1) lt by (simp add: accounts_def)
      ultimately show ?thesis
        using count_in_split[OF le, of "s + d" A] by (simp add: count_in_snoc)
    next
      case False
      then have "count_in s (s + d) A \<le> length (filter (\<lambda>t. ?s \<le> t) A)" by (intro count_in_le) simp
      then have "count_in s (s + d) A < unat limit" using assms(1) lt by (simp add: accounts_def)
      then show ?thesis by (simp add: count_in_snoc)
    qed
  qed
  have "\<forall>s. ?s < s + d \<longrightarrow> count_in s ?s (A @ [t]) \<le> unat limit"
    using assms(1,3) by (simp add: accounts_def count_in_snoc)
  with assms two inc lt show ?thesis
    by (simp add: accounts_def count_request_def)
qed

lemma maybe_reset_start:
  assumes "ws_window_start w \<le> t" "0 < d"
  shows "ws_window_start (maybe_reset t d w) \<le> t" "t < ws_window_start (maybe_reset t d w) + d"
  using assms by (auto simp: maybe_reset_def)

lemma window_lengths: "0 < MINUTE" "0 < HOUR"
  by (simp_all add: MINUTE_def HOUR_def)

lemma check_entry_ok:
  assumes "accounts MINUTE (unat (rl_requests_per_minute cfg)) (tr_minute_window s) A"
    "accounts HOUR (unat (rl_requests_per_hour cfg)) (tr_hour_window s) A"
    "ws_window_start (tr_minute_window s) \<le> t" "ws_window_start (tr_hour_window s) \<le> t"
    "check_entry t cfg True s = (r, s')"
  shows "accounts MINUTE (unat (rl_requests_per_minute cfg)) (tr_minute_window s')
      (if is_allowed r then A @ [t] else A) \<and>
    accounts HOUR (unat (rl_requests_per_hour cfg)) (tr_hour_window s')
      (if is_allowed r then A @ [t] else A) \<and>
    ws_window_start (tr_minute_window s') \<le> t \<and> ws_window_start (tr_hour_window s') \<le> t"
proof -
  let ?m = "maybe_reset t MINUTE (tr_minute_window s)" and ?h = "maybe_reset t HOUR (tr_hour_window s)"
  have m: "accounts MINUTE (unat (rl_requests_per_minute cfg)) ?m A" "ws_window_start ?m \<le> t"
      "t < ws_window_start ?m + MINUTE"
    using accounts_reset[OF assms(1)] maybe_reset_start[OF assms(3)] window_lengths by auto
  have h: "accounts HOUR (unat (rl_requests_per_hour cfg)) ?h A" "ws_window_start ?h \<le> t"
      "t < ws_window_start ?h + HOUR"
    using accounts_reset[OF assms(2)] maybe_reset_start[OF assms(4)] window_lengths by auto
  show ?thesis
    using assms(5) m h accounts_count[OF m(1) _ m(2,3)] accounts_count[OF h(1) _ h(2,3)]
    by (auto simp: check_entry_def Let_def is_allowed_def count_request_def not_le split: if_splits)
qed

lemma check_internal_other:
  "key \<noteq> (u, n) \<Longrightarrow> hm_get (snd (check_internal t u n cfg rec l)) key = hm_get l key"
  by (simp add: check_internal_def Let_def case_prod_unfold)

lemma limiter_ok_step:
  assumes "limiter_ok cfg key A t0 l" "t0 \<le> t" "check_and_record t u n cfg l = (r, l')"
  shows "limiter_ok cfg key (if is_allowed r \<and> (u, n) = key then A @ [t] else A) t l'"
proof (cases "(u, n) = key")
  case False
  then have "hm_get l' key = hm_get l key"
    using check_internal_other[of key u n t cfg True l] assms(3) by (auto simp: check_and_record_def)
  with False assms(1,2) show ?thesis by (auto simp: limiter_ok_def split: option.splits)
next
  case True
  let ?e = "case hm_get l key of Some s \<Rightarrow> s | None \<Rightarrow> tool_rate_limit_state_new t"
  have e: "accounts MINUTE (unat (rl_requests_per_minute cfg)) (tr_minute_window ?e) A"
      "accounts HOUR (unat (rl_requests_per_hour cfg)) (tr_hour_window ?e) A"
      "ws_window_start (tr_minute_window ?e) \<le> t" "ws_window_start (tr_hour_window ?e) \<le> t"
    using assms(1,2)
    by (auto simp: limiter_ok_def tool_rate_limit_state_new_def accounts_new window_new_def[of t]
        split: option.splits) (simp_all add: accounts_new[unfolded window_new_def])
  obtain s' where c: "check_entry t cfg True ?e = (r, s')" "l' = hm_put key s' l"
    using assms(3) True by (auto simp: check_and_record_def check_internal_def Let_def split: prod.splits)
  from check_entry_ok[OF e c(1)] True c(2) show ?thesis
    by (simp add: limiter_ok_def)
qed

lemma allowed_times_ok:
  assumes "limiter_ok cfg key A t0 l" "sorted (t0 # map fst cs)"
  shows "\<exists>t1 l'. limiter_ok cfg key (A @ allowed_times cfg key cs l) t1 l'"
  using assms
proof (induction cs arbitrary: A t0 l)
  case Nil
  then show ?case by auto
next
  case (Cons c cs)
  obtain t u n where c: "c = (t, u, n)" by (cases c) auto
  obtain r l' where r: "check_and_record t u n cfg l = (r, l')" by fastforce
  have ok: "limiter_ok cfg key (if is_allowed r \<and> (u, n) = key then A @ [t] else A) t l'"
    using limiter_ok_step[OF Cons.prems(1) _ r] Cons.prems(2) by (simp add: c)
  have eq: "A @ allowed_times cfg key (c # cs) l =
      (if is_allowed r \<and> (u, n) = key then A @ [t] else A) @ allowed_times cfg key cs l'"
    by (simp add: c r)
  show ?case unfolding eq using Cons.IH[OF ok] Cons.prems(2) by (simp add: c)
qed

lemma limiter_ok_bounds:
  "limiter_ok cfg key A t l \<Longrightarrow> count_in s (s + MINUTE) A \<le> 2 * unat (rl_requests_per_minute cfg) \<and>
     count_in s (s + HOUR) A \<le> 2 * unat (rl_requests_per_hour cfg)"
  by (auto simp: limiter_ok_def accounts_def count_in_def split: option.splits)

section \<open>Properties\<close>

text \<open>
  Whatever calls other users and tools make in between, a user is never allowed a tool more than
  twice the configured number of times within any stretch of a minute, and of an hour.
\<close>

theorem rate_limit_any_stretch:
  assumes "sorted (map fst calls)"
  shows "count_in s (s + MINUTE) (allowed_times cfg (u, n) calls rate_limiter_new)
      \<le> 2 * unat (rl_requests_per_minute cfg) \<and>
    count_in s (s + HOUR) (allowed_times cfg (u, n) calls rate_limiter_new)
      \<le> 2 * unat (rl_requests_per_hour cfg)"
proof -
  have "limiter_ok cfg (u, n) [] 0 rate_limiter_new"
    by (simp add: limiter_ok_def rate_limiter_new_def)
  moreover have "sorted (0 # map fst calls)" using assms by simp
  ultimately obtain t l where "limiter_ok cfg (u, n) (allowed_times cfg (u, n) calls rate_limiter_new) t l"
    using allowed_times_ok[of cfg "(u, n)" "[]" 0 rate_limiter_new calls] by auto
  then show ?thesis by (rule limiter_ok_bounds)
qed

theorem rate_limit_any_stretch_witness:
  "count_in 5 (5 + MINUTE) (allowed_times tool_rate_limit_config_default (''u'', ''shell'')
     [(5, ''u'', ''shell''), (6, ''v'', ''shell''), (9, ''u'', ''shell'')] rate_limiter_new) \<le> 120"
  using rate_limit_any_stretch[of "[(5, ''u'', ''shell''), (6, ''v'', ''shell''), (9, ''u'', ''shell'')]" 5
      tool_rate_limit_config_default "''u''" "''shell''"]
  by (simp add: tool_rate_limit_config_default_def)

text \<open>
  The factor is real: with a limit of two per minute, three calls at 59, 60 and 61 seconds after
  the first window started are all allowed, because the counter is reset with a fixed window and not
  with a sliding one.
\<close>

theorem burst_across_windows:
  "allowed_times \<lparr>rl_requests_per_minute = 2, rl_requests_per_hour = 100\<rparr> (''u'', ''t'')
     [(0, ''u'', ''t''), (59 * 1000000000, ''u'', ''t''), (60 * 1000000000, ''u'', ''t''),
      (61 * 1000000000, ''u'', ''t'')] rate_limiter_new =
   [0, 59 * 1000000000, 60 * 1000000000, 61 * 1000000000]"
  by (simp add: check_and_record_def check_internal_def rate_limiter_new_def check_entry_def
      tool_rate_limit_state_new_def window_new_def maybe_reset_def MINUTE_def HOUR_def count_request_def
      is_allowed_def Let_def word_le_nat_alt)

text \<open>
  Users and tools are limited independently: a check changes the entry of its own user and tool
  only, and its answer depends on that entry only; a check that is refused, or that does not record,
  counts nothing.
\<close>

theorem rate_limit_isolated:
  "((u', n') \<noteq> (u, n) \<longrightarrow> hm_get (snd (check_internal t u n cfg rec l)) (u', n') = hm_get l (u', n')) \<and>
   (hm_get l1 (u, n) = hm_get l2 (u, n) \<longrightarrow>
      fst (check_internal t u n cfg rec l1) = fst (check_internal t u n cfg rec l2)) \<and>
   (hm_get l (u, n) = Some s \<and> (\<not> rec \<or> \<not> is_allowed (fst (check_internal t u n cfg rec l))) \<longrightarrow>
      hm_get (snd (check_internal t u n cfg rec l)) (u, n) =
        Some \<lparr>tr_minute_window = maybe_reset t MINUTE (tr_minute_window s),
              tr_hour_window = maybe_reset t HOUR (tr_hour_window s)\<rparr>)"
  by (auto simp: check_internal_def check_entry_def is_allowed_def Let_def case_prod_unfold)

theorem rate_limit_isolated_witness:
  "hm_get (snd (check_internal 5 ''u'' ''t'' tool_rate_limit_config_default True rate_limiter_new)) (''v'', ''t'') = None"
  using rate_limit_isolated[of "''v''" "''t''" "''u''" "''t''" 5 tool_rate_limit_config_default True rate_limiter_new]
  by (simp add: rate_limiter_new_def)

end
