(* ===== verification/Cost_Guard.thy ===== *)
theory Cost_Guard
  imports Complex_Main Prelude
begin

text \<open>
  The cost guard, \<open>src/agent/cost_guard.rs\<close>: a daily budget, an hourly rate and a budget per user.
  Amounts (\<open>rust_decimal\<close>) are a type parameter with the operations the code uses; the rest of what it
  needs of them is the record \<open>decimal_ops\<close>: the constant 100, the conversion of a token count, and the
  parsing of the truncated amount as an unsigned integer. The price table of \<open>src/llm/costs.rs\<close> is the
  argument \<open>price\<close>: what is proved holds for every table. A day is its number; \<open>now\<close> is the monotonic
  clock in nanoseconds.
\<close>

section \<open>Model\<close>

record cost_guard_config =
  cg_max_cost_per_day_cents :: "nat option"
  cg_max_actions_per_hour :: "nat option"
  cg_max_cost_per_user_per_day_cents :: "nat option"

datatype cost_limit_exceeded =
    DailyBudget nat nat
  | HourlyRate nat nat
  | UserDailyBudget string nat nat

record 'd model_tokens =
  mt_input_tokens :: "64 word"
  mt_output_tokens :: "64 word"
  mt_cost :: 'd

record 'd daily_cost =
  dc_total :: 'd
  dc_reset_date :: int

record 'd cost_guard =
  gd_config :: cost_guard_config
  gd_daily_cost :: "'d daily_cost"
  gd_action_window :: "instant list"
  gd_budget_exceeded :: bool
  gd_model_tokens :: "(string \<times> 'd model_tokens) list"
  gd_per_user_daily_cost :: "(string \<times> 'd daily_cost) list"

definition cost_guard_new :: "int \<Rightarrow> cost_guard_config \<Rightarrow> 'd::zero cost_guard" where
  "cost_guard_new today cfg =
     \<lparr>gd_config = cfg, gd_daily_cost = \<lparr>dc_total = 0, dc_reset_date = today\<rparr>, gd_action_window = [],
      gd_budget_exceeded = False, gd_model_tokens = [], gd_per_user_daily_cost = []\<rparr>"

record 'd decimal_ops =
  dec_hundred :: 'd
  dec_from_u32 :: "32 word \<Rightarrow> 'd"
  dec_trunc_u64 :: "'d \<Rightarrow> nat option"

definition to_cents :: "'d::times decimal_ops \<Rightarrow> 'd \<Rightarrow> nat" where
  "to_cents ops usd = (case dec_trunc_u64 ops (usd * dec_hundred ops) of Some n \<Rightarrow> n | None \<Rightarrow> 0)"

definition HOUR_NANOS :: nat where
  "HOUR_NANOS = 3600 * 1000000000"

text \<open>Entries older than an hour are dropped from the front, when the clock has run for an hour.\<close>

definition drain_window :: "instant \<Rightarrow> instant list \<Rightarrow> instant list" where
  "drain_window now win =
     (if now < HOUR_NANOS then win else dropWhile (\<lambda>t. t < now - HOUR_NANOS) win)"

definition check_daily ::
  "'d::times decimal_ops \<Rightarrow> 'd cost_guard \<Rightarrow> (cost_limit_exceeded, unit) result \<times> 'd cost_guard" where
  "check_daily ops g =
     (case cg_max_cost_per_day_cents (gd_config g) of
        None \<Rightarrow> (Inr (), g)
      | Some limit \<Rightarrow>
          (let spent = to_cents ops (dc_total (gd_daily_cost g))
           in if spent \<ge> limit then (Inl (DailyBudget spent limit), g\<lparr>gd_budget_exceeded := True\<rparr>)
              else (Inr (), g)))"

definition check_hourly ::
  "instant \<Rightarrow> 'd cost_guard \<Rightarrow> (cost_limit_exceeded, unit) result \<times> 'd cost_guard" where
  "check_hourly now g =
     (case cg_max_actions_per_hour (gd_config g) of
        None \<Rightarrow> (Inr (), g)
      | Some limit \<Rightarrow>
          (let win = drain_window now (gd_action_window g); g' = g\<lparr>gd_action_window := win\<rparr>
           in if length win \<ge> limit then (Inl (HourlyRate (length win) limit), g') else (Inr (), g')))"

definition check_allowed ::
  "'d::times decimal_ops \<Rightarrow> instant \<Rightarrow> 'd cost_guard \<Rightarrow> (cost_limit_exceeded, unit) result \<times> 'd cost_guard" where
  "check_allowed ops now g =
     (if gd_budget_exceeded g
      then (Inl (DailyBudget (to_cents ops (dc_total (gd_daily_cost g)))
                  (case cg_max_cost_per_day_cents (gd_config g) of Some l \<Rightarrow> l | None \<Rightarrow> 0)), g)
      else
        (case check_daily ops g of
           (Inl e, g1) \<Rightarrow> (Inl e, g1)
         | (Inr _, g1) \<Rightarrow> check_hourly now g1))"

definition sat_add32 :: "32 word \<Rightarrow> 32 word \<Rightarrow> 32 word" where
  "sat_add32 a b = (if unat a + unat b < 2 ^ 32 then a + b else - 1)"

definition sat_sub32 :: "32 word \<Rightarrow> 32 word \<Rightarrow> 32 word" where
  "sat_sub32 a b = (if b \<le> a then a - b else 0)"

record 'd llm_usage =
  us_model :: string
  us_input_tokens :: "32 word"
  us_output_tokens :: "32 word"
  us_cache_read :: "32 word"
  us_cache_creation :: "32 word"
  us_cache_read_discount :: 'd
  us_cache_write_multiplier :: 'd
  us_cost_per_token :: "('d \<times> 'd) option"

definition call_cost ::
  "'d::{zero,one,plus,times,inverse} decimal_ops \<Rightarrow> (string \<Rightarrow> 'd \<times> 'd) \<Rightarrow> 'd llm_usage \<Rightarrow> 'd" where
  "call_cost ops price u =
     (let (input_rate, output_rate) = (case us_cost_per_token u of Some r \<Rightarrow> r | None \<Rightarrow> price (us_model u));
          cached_total = sat_add32 (us_cache_read u) (us_cache_creation u);
          uncached_input = sat_sub32 (us_input_tokens u) cached_total;
          effective_discount = (if us_cache_read_discount u = 0 then 1 else us_cache_read_discount u);
          cache_read_cost = input_rate * dec_from_u32 ops (us_cache_read u) / effective_discount;
          cache_write_cost = input_rate * dec_from_u32 ops (us_cache_creation u) * us_cache_write_multiplier u
      in input_rate * dec_from_u32 ops uncached_input + cache_read_cost + cache_write_cost +
         output_rate * dec_from_u32 ops (us_output_tokens u))"

text \<open>The block that updates the daily cost; the warnings have no effect on the state.\<close>

definition add_daily_cost ::
  "'d::{zero,plus,times} decimal_ops \<Rightarrow> int \<Rightarrow> 'd \<Rightarrow> 'd cost_guard \<Rightarrow> 'd cost_guard" where
  "add_daily_cost ops today cost g =
     (let g1 = (if today \<noteq> dc_reset_date (gd_daily_cost g)
                then g\<lparr>gd_daily_cost := \<lparr>dc_total = 0, dc_reset_date = today\<rparr>, gd_budget_exceeded := False,
                       gd_per_user_daily_cost :=
                         hm_retain (\<lambda>_ e. dc_reset_date e = today) (gd_per_user_daily_cost g)\<rparr>
                else g);
          total = dc_total (gd_daily_cost g1) + cost;
          g2 = g1\<lparr>gd_daily_cost := (gd_daily_cost g1)\<lparr>dc_total := total\<rparr>\<rparr>
      in case cg_max_cost_per_day_cents (gd_config g) of
           Some limit \<Rightarrow> (if to_cents ops total \<ge> limit then g2\<lparr>gd_budget_exceeded := True\<rparr> else g2)
         | None \<Rightarrow> g2)"

definition add_model_tokens :: "'d::{zero,plus} llm_usage \<Rightarrow> 'd \<Rightarrow> 'd cost_guard \<Rightarrow> 'd cost_guard" where
  "add_model_tokens u cost g =
     (let e = (case hm_get (gd_model_tokens g) (us_model u) of
                 Some e \<Rightarrow> e
               | None \<Rightarrow> \<lparr>mt_input_tokens = 0, mt_output_tokens = 0, mt_cost = 0\<rparr>);
          e' = \<lparr>mt_input_tokens = mt_input_tokens e + ucast (us_input_tokens u),
                mt_output_tokens = mt_output_tokens e + ucast (us_output_tokens u),
                mt_cost = mt_cost e + cost\<rparr>
      in g\<lparr>gd_model_tokens := hm_put (us_model u) e' (gd_model_tokens g)\<rparr>)"

definition record_llm_call ::
  "'d::{zero,one,plus,times,inverse} decimal_ops \<Rightarrow> (string \<Rightarrow> 'd \<times> 'd) \<Rightarrow> int \<Rightarrow> instant \<Rightarrow> 'd llm_usage \<Rightarrow>
   'd cost_guard \<Rightarrow> 'd \<times> 'd cost_guard" where
  "record_llm_call ops price today now u g =
     (let cost = call_cost ops price u;
          g1 = add_daily_cost ops today cost g;
          g2 = g1\<lparr>gd_action_window := gd_action_window g1 @ [now]\<rparr>
      in (cost, add_model_tokens u cost g2))"

definition add_user_cost :: "int \<Rightarrow> string \<Rightarrow> 'd::{zero,plus} \<Rightarrow> 'd cost_guard \<Rightarrow> 'd cost_guard" where
  "add_user_cost today user_id cost g =
     (let e = (case hm_get (gd_per_user_daily_cost g) user_id of
                 Some e \<Rightarrow> e
               | None \<Rightarrow> \<lparr>dc_total = 0, dc_reset_date = today\<rparr>);
          e' = (if today \<noteq> dc_reset_date e then \<lparr>dc_total = 0, dc_reset_date = today\<rparr> else e)
      in g\<lparr>gd_per_user_daily_cost :=
             hm_put user_id (e'\<lparr>dc_total := dc_total e' + cost\<rparr>) (gd_per_user_daily_cost g)\<rparr>)"

definition record_llm_call_for_user ::
  "'d::{zero,one,plus,times,inverse} decimal_ops \<Rightarrow> (string \<Rightarrow> 'd \<times> 'd) \<Rightarrow> int \<Rightarrow> instant \<Rightarrow> string \<Rightarrow> 'd llm_usage \<Rightarrow>
   'd cost_guard \<Rightarrow> 'd \<times> 'd cost_guard" where
  "record_llm_call_for_user ops price today now user_id u g =
     (case record_llm_call ops price today now u g of
        (cost, g1) \<Rightarrow> (cost, add_user_cost today user_id cost g1))"

definition check_allowed_for_user ::
  "'d::times decimal_ops \<Rightarrow> int \<Rightarrow> instant \<Rightarrow> string \<Rightarrow> 'd cost_guard \<Rightarrow>
   (cost_limit_exceeded, unit) result \<times> 'd cost_guard" where
  "check_allowed_for_user ops today now user_id g =
     (case check_allowed ops now g of
        (Inl e, g1) \<Rightarrow> (Inl e, g1)
      | (Inr _, g1) \<Rightarrow>
          (case (cg_max_cost_per_user_per_day_cents (gd_config g1), hm_get (gd_per_user_daily_cost g1) user_id) of
             (Some limit, Some e) \<Rightarrow>
               (if dc_reset_date e = today \<and> to_cents ops (dc_total e) \<ge> limit
                then (Inl (UserDailyBudget user_id (to_cents ops (dc_total e)) limit), g1)
                else (Inr (), g1))
           | _ \<Rightarrow> (Inr (), g1)))"

definition daily_spend :: "int \<Rightarrow> 'd::zero cost_guard \<Rightarrow> 'd" where
  "daily_spend today g =
     (if today \<noteq> dc_reset_date (gd_daily_cost g) then 0 else dc_total (gd_daily_cost g))"

definition daily_spend_for_user :: "int \<Rightarrow> string \<Rightarrow> 'd::zero cost_guard \<Rightarrow> 'd" where
  "daily_spend_for_user today user_id g =
     (case hm_get (gd_per_user_daily_cost g) user_id of
        Some e \<Rightarrow> (if dc_reset_date e = today then dc_total e else 0)
      | None \<Rightarrow> 0)"

definition actions_this_hour :: "instant \<Rightarrow> 'd cost_guard \<Rightarrow> nat \<times> 'd cost_guard" where
  "actions_this_hour now g =
     (let win = drain_window now (gd_action_window g) in (length win, g\<lparr>gd_action_window := win\<rparr>))"

definition model_usage :: "'d cost_guard \<Rightarrow> (string \<times> 'd model_tokens) list" where
  "model_usage g = gd_model_tokens g"

text \<open>
  A call as the agent makes it (\<open>call_llm\<close> of \<open>src/agent/dispatcher.rs\<close>): it is checked for the user
  first, and recorded only when it was allowed and the model answered; \<open>gc_usage\<close> is \<open>None\<close> for a call
  that fails. The result says whether the call was recorded.
\<close>

record 'd guarded_call =
  gc_today :: int
  gc_checked_at :: instant
  gc_recorded_at :: instant
  gc_user :: string
  gc_usage :: "'d llm_usage option"

definition guarded_llm_call ::
  "'d::{zero,one,plus,times,inverse} decimal_ops \<Rightarrow> (string \<Rightarrow> 'd \<times> 'd) \<Rightarrow> 'd guarded_call \<Rightarrow> 'd cost_guard \<Rightarrow>
   bool \<times> 'd cost_guard" where
  "guarded_llm_call ops price c g =
     (case check_allowed_for_user ops (gc_today c) (gc_checked_at c) (gc_user c) g of
        (Inl e, g1) \<Rightarrow> (False, g1)
      | (Inr _, g1) \<Rightarrow>
          (case gc_usage c of
             None \<Rightarrow> (False, g1)
           | Some u \<Rightarrow>
               (True, snd (record_llm_call_for_user ops price (gc_today c) (gc_recorded_at c) (gc_user c) u g1))))"

fun guarded_run ::
  "'d::{zero,one,plus,times,inverse} decimal_ops \<Rightarrow> (string \<Rightarrow> 'd \<times> 'd) \<Rightarrow> 'd guarded_call list \<Rightarrow> 'd cost_guard \<Rightarrow>
   instant list \<times> 'd cost_guard" where
  "guarded_run ops price [] g = ([], g)"
| "guarded_run ops price (c # cs) g =
     (case guarded_llm_call ops price c g of
        (made, g1) \<Rightarrow>
          (case guarded_run ops price cs g1 of
             (ts, g2) \<Rightarrow> (if made then gc_recorded_at c # ts else ts, g2)))"

definition in_hour :: "instant \<Rightarrow> instant list \<Rightarrow> nat" where
  "in_hour a ts = length (filter (\<lambda>t. a \<le> t \<and> t \<le> a + HOUR_NANOS) ts)"

fun calls_ordered :: "instant \<Rightarrow> 'd guarded_call list \<Rightarrow> bool" where
  "calls_ordered t0 [] = True"
| "calls_ordered t0 (c # cs) =
     (t0 \<le> gc_checked_at c \<and> gc_checked_at c \<le> gc_recorded_at c \<and> calls_ordered (gc_recorded_at c) cs)"

text \<open>
  The window is what is left of the history of recorded calls when entries more than an hour older
  than the last reading of the clock are dropped, and no hour of the history has more than \<open>limit\<close>
  calls.
\<close>

definition window_inv :: "nat \<Rightarrow> instant \<Rightarrow> instant list \<Rightarrow> 'd cost_guard \<Rightarrow> bool" where
  "window_inv limit t0 hist g =
     (cg_max_actions_per_hour (gd_config g) = Some limit \<and> sorted hist \<and> (\<forall>t\<in>set hist. t \<le> t0) \<and>
      (\<exists>old. hist = old @ gd_action_window g \<and> (\<forall>t\<in>set old. t + HOUR_NANOS < t0)) \<and>
      (\<forall>a. in_hour a hist \<le> limit))"

text \<open>The operations of the guard that change it.\<close>

datatype 'd guard_op =
    CheckFor int instant string
  | RecordFor int instant string "'d llm_usage"
  | CountActions instant

definition guard_op ::
  "'d::{zero,one,plus,times,inverse} decimal_ops \<Rightarrow> (string \<Rightarrow> 'd \<times> 'd) \<Rightarrow> 'd guard_op \<Rightarrow> 'd cost_guard \<Rightarrow> 'd cost_guard" where
  "guard_op ops price op g =
     (case op of
        CheckFor today now user \<Rightarrow> snd (check_allowed_for_user ops today now user g)
      | RecordFor today now user u \<Rightarrow> snd (record_llm_call_for_user ops price today now user u g)
      | CountActions now \<Rightarrow> snd (actions_this_hour now g))"

text \<open>Amounts as rationals, and calls of one token at one cent each with this arithmetic.\<close>

definition sample_dec :: "rat decimal_ops" where
  "sample_dec = \<lparr>dec_hundred = 100, dec_from_u32 = (\<lambda>w. of_nat (unat w)),
     dec_trunc_u64 = (\<lambda>d. if d < 0 then None else Some (nat \<lfloor>d\<rfloor>))\<rparr>"

definition sample_usage :: "rat llm_usage" where
  "sample_usage = \<lparr>us_model = ''m'', us_input_tokens = 0, us_output_tokens = 1, us_cache_read = 0,
     us_cache_creation = 0, us_cache_read_discount = 1, us_cache_write_multiplier = 1,
     us_cost_per_token = Some (1, 1 / 100)\<rparr>"

definition sample_call :: "int \<Rightarrow> instant \<Rightarrow> string \<Rightarrow> rat guarded_call" where
  "sample_call today t user = \<lparr>gc_today = today, gc_checked_at = t, gc_recorded_at = t + 1,
     gc_user = user, gc_usage = Some sample_usage\<rparr>"

definition sample_config :: cost_guard_config where
  "sample_config = \<lparr>cg_max_cost_per_day_cents = Some 2, cg_max_actions_per_hour = Some 1,
     cg_max_cost_per_user_per_day_cents = None\<rparr>"

section \<open>Allowed and refused calls\<close>

lemmas check_defs = check_allowed_for_user_def check_allowed_def check_daily_def check_hourly_def Let_def

lemma record_state:
  "gd_config (snd (record_llm_call_for_user ops price today now user u g)) = gd_config g"
  "gd_action_window (snd (record_llm_call_for_user ops price today now user u g)) = gd_action_window g @ [now]"
  by (auto simp: record_llm_call_for_user_def record_llm_call_def add_user_cost_def add_model_tokens_def
        add_daily_cost_def Let_def split: option.split)

lemma check_state:
  "gd_config (snd (check_allowed_for_user ops today now user g)) = gd_config g"
  "gd_action_window (snd (check_allowed_for_user ops today now user g)) = gd_action_window g \<or>
   gd_action_window (snd (check_allowed_for_user ops today now user g)) = drain_window now (gd_action_window g)"
  by (auto simp: check_defs split: option.split)

lemma check_ok_window:
  assumes "check_allowed_for_user ops today now user g = (Inr r, g1)"
    and "cg_max_actions_per_hour (gd_config g) = Some limit"
  shows "gd_action_window g1 = drain_window now (gd_action_window g)"
    and "length (drain_window now (gd_action_window g)) < limit"
  using assms by (auto simp: check_defs split: option.splits if_splits)

text \<open>
  A check for a user passes exactly when the budget flag is not set, the recorded daily spend in cents is
  below the daily limit, fewer calls than the hourly limit are left in the window once it is drained,
  and the user's spend of today is below the user limit; a limit that is not configured is never
  reached.
\<close>

theorem check_allowed_iff:
  "fst (check_allowed_for_user ops today now user g) = Inr () \<longleftrightarrow>
     \<not> gd_budget_exceeded g \<and>
     pred_option (\<lambda>limit. to_cents ops (dc_total (gd_daily_cost g)) < limit)
       (cg_max_cost_per_day_cents (gd_config g)) \<and>
     pred_option (\<lambda>limit. length (drain_window now (gd_action_window g)) < limit)
       (cg_max_actions_per_hour (gd_config g)) \<and>
     pred_option (\<lambda>limit. pred_option (\<lambda>e. \<not> (dc_reset_date e = today \<and> limit \<le> to_cents ops (dc_total e)))
        (hm_get (gd_per_user_daily_cost g) user))
       (cg_max_cost_per_user_per_day_cents (gd_config g))"
  by (auto simp: check_defs not_less split: option.splits if_splits)

section \<open>The hourly rate\<close>

lemma drain_window_split:
  "\<exists>old. win = old @ drain_window now win \<and> (\<forall>t\<in>set old. t + HOUR_NANOS < now)"
proof (cases "now < HOUR_NANOS")
  case True
  then show ?thesis by (simp add: drain_window_def)
next
  case False
  let ?p = "\<lambda>t. t < now - HOUR_NANOS"
  have "win = takeWhile ?p win @ drain_window now win"
    using False by (simp add: drain_window_def)
  moreover have "\<forall>t\<in>set (takeWhile ?p win). t + HOUR_NANOS < now"
    using False by (auto dest: set_takeWhileD)
  ultimately show ?thesis by blast
qed

lemma window_inv_drain:
  assumes "window_inv limit t0 hist g" "t0 \<le> now" "gd_config g1 = gd_config g"
    and "gd_action_window g1 = gd_action_window g \<or> gd_action_window g1 = drain_window now (gd_action_window g)"
  shows "window_inv limit now hist g1"
proof -
  obtain old where old: "hist = old @ gd_action_window g" "\<forall>t\<in>set old. t + HOUR_NANOS < t0"
    using assms(1) by (auto simp: window_inv_def)
  obtain dropped where dr: "gd_action_window g = dropped @ drain_window now (gd_action_window g)"
    "\<forall>t\<in>set dropped. t + HOUR_NANOS < now" using drain_window_split by blast
  have "\<exists>old. hist = old @ gd_action_window g1 \<and> (\<forall>t\<in>set old. t + HOUR_NANOS < now)"
    using assms(4)
  proof
    assume "gd_action_window g1 = gd_action_window g"
    then show ?thesis using old assms(2) by (intro exI[of _ old]) auto
  next
    assume w: "gd_action_window g1 = drain_window now (gd_action_window g)"
    have "hist = (old @ dropped) @ gd_action_window g1" using old(1) dr(1) w by simp
    moreover have "\<forall>t\<in>set (old @ dropped). t + HOUR_NANOS < now" using old(2) dr(2) assms(2) by auto
    ultimately show ?thesis by blast
  qed
  moreover have "\<forall>t\<in>set hist. t \<le> now" using assms(1,2) by (auto simp: window_inv_def)
  ultimately show ?thesis using assms(1,3) by (simp add: window_inv_def)
qed

text \<open>The hour that ends with a new call holds at most the calls left in the window.\<close>

lemma in_hour_snoc:
  assumes "hist = old @ win" "\<forall>t\<in>set old. t + HOUR_NANOS < now" "length win < limit" "now \<le> r"
    and "\<forall>a. in_hour a hist \<le> limit"
  shows "in_hour a (hist @ [r]) \<le> limit"
proof (cases "r \<le> a + HOUR_NANOS")
  case True
  then have "filter (\<lambda>t. a \<le> t \<and> t \<le> a + HOUR_NANOS) old = []"
    using assms(2,4) by (fastforce simp: filter_empty_conv)
  then have "in_hour a (hist @ [r]) \<le> length win + 1"
    by (simp add: assms(1) in_hour_def le_SucI)
  then show ?thesis using assms(3) by simp
next
  case False
  then show ?thesis using assms(5) by (simp add: in_hour_def)
qed

lemma window_inv_record:
  assumes "window_inv limit now hist g" "length (gd_action_window g) < limit" "now \<le> r"
    and "gd_config g1 = gd_config g" "gd_action_window g1 = gd_action_window g @ [r]"
  shows "window_inv limit r (hist @ [r]) g1"
proof -
  obtain old where old: "hist = old @ gd_action_window g" "\<forall>t\<in>set old. t + HOUR_NANOS < now"
    using assms(1) by (auto simp: window_inv_def)
  have "\<forall>a. in_hour a (hist @ [r]) \<le> limit"
    using in_hour_snoc[OF old assms(2,3)] assms(1) by (simp add: window_inv_def)
  moreover have "hist @ [r] = old @ gd_action_window g1" "\<forall>t\<in>set old. t + HOUR_NANOS < r"
    using old assms(3,5) by auto
  moreover have "sorted (hist @ [r])" "\<forall>t\<in>set (hist @ [r]). t \<le> r"
    using assms(1,3) by (fastforce simp: window_inv_def sorted_append)+
  ultimately show ?thesis using assms(1,4) unfolding window_inv_def by metis
qed

lemma window_inv_call:
  assumes "window_inv limit t0 hist g" "t0 \<le> gc_checked_at c" "gc_checked_at c \<le> gc_recorded_at c"
    and "guarded_llm_call ops price c g = (made, g1)"
  shows "window_inv limit (gc_recorded_at c) (hist @ (if made then [gc_recorded_at c] else [])) g1"
proof -
  obtain r gx where chk: "check_allowed_for_user ops (gc_today c) (gc_checked_at c) (gc_user c) g = (r, gx)"
    by fastforce
  then have inv: "window_inv limit (gc_checked_at c) hist gx"
    using window_inv_drain[OF assms(1,2)] check_state by (metis snd_conv)
  show ?thesis
  proof (cases r)
    case (Inl e)
    then have "made = False" "g1 = gx" using assms(4) chk by (simp_all add: guarded_llm_call_def)
    then show ?thesis using window_inv_drain[OF inv assms(3), of gx] by simp
  next
    case (Inr x)
    have len: "length (gd_action_window gx) < limit"
      using check_ok_window[OF chk[unfolded Inr]] assms(1) by (simp add: window_inv_def)
    show ?thesis
    proof (cases "gc_usage c")
      case None
      then have "made = False" "g1 = gx" using Inr assms(4) chk by (simp_all add: guarded_llm_call_def)
      then show ?thesis using window_inv_drain[OF inv assms(3), of gx] by simp
    next
      case (Some u)
      then have "made" "g1 = snd (record_llm_call_for_user ops price (gc_today c) (gc_recorded_at c) (gc_user c) u gx)"
        using Inr assms(4) chk by (simp_all add: guarded_llm_call_def)
      then show ?thesis
        using window_inv_record[OF inv len assms(3), of g1] by (simp add: record_state)
    qed
  qed
qed

lemma window_inv_run:
  assumes "window_inv limit t0 hist g" "calls_ordered t0 cs" "guarded_run ops price cs g = (ts, g')"
  shows "\<exists>t1. window_inv limit t1 (hist @ ts) g'"
  using assms
proof (induction cs arbitrary: t0 hist g ts)
  case Nil
  then show ?case by auto
next
  case (Cons c cs)
  obtain made g1 where call: "guarded_llm_call ops price c g = (made, g1)" by fastforce
  obtain ts1 where run: "guarded_run ops price cs g1 = (ts1, g')" "ts = (if made then [gc_recorded_at c] else []) @ ts1"
    using Cons.prems(3) call by (auto split: prod.splits if_splits)
  have "window_inv limit (gc_recorded_at c) (hist @ (if made then [gc_recorded_at c] else [])) g1"
    using window_inv_call[OF Cons.prems(1) _ _ call] Cons.prems(2) by simp
  from Cons.IH[OF this _ run(1)] show ?case using Cons.prems(2) run(2) by simp
qed

text \<open>
  When every call is checked before it is made and recorded after it, one after the other, no stretch of
  an hour, wherever it starts, holds more recorded calls than the hourly limit.
\<close>

theorem hourly_rate_bounded:
  assumes "cg_max_actions_per_hour cfg = Some limit" "calls_ordered 0 cs"
  shows "in_hour a (fst (guarded_run ops price cs (cost_guard_new today cfg))) \<le> limit"
proof -
  have "window_inv limit 0 [] (cost_guard_new today cfg)"
    using assms(1) by (simp add: window_inv_def cost_guard_new_def in_hour_def)
  from window_inv_run[OF this assms(2)] show ?thesis
    by (metis append_Nil prod.collapse window_inv_def)
qed

theorem hourly_rate_bounded_witness:
  "in_hour 0 (fst (guarded_run sample_dec (\<lambda>_. (0, 0)) [sample_call 0 1 ''a'', sample_call 0 5 ''b'']
     (cost_guard_new 0 sample_config))) \<le> 1"
  by (rule hourly_rate_bounded) (simp_all add: sample_config_def sample_call_def)

section \<open>Budgets\<close>

text \<open>There is one entry per user and per model, whatever is recorded or checked.\<close>

interpretation guard: op_invariant "guard_op ops price" "\<lambda>g. hm_wf (gd_per_user_daily_cost g) \<and> hm_wf (gd_model_tokens g)"
  for ops price
  by unfold_locales
    (auto simp: guard_op_def check_defs actions_this_hour_def record_llm_call_for_user_def record_llm_call_def
      add_user_cost_def add_model_tokens_def add_daily_cost_def split: guard_op.split option.split)

lemma user_spend_record:
  assumes "hm_wf (gd_per_user_daily_cost g)"
  shows "daily_spend_for_user today user (snd (record_llm_call_for_user ops price today now caller u g)) =
    (if user = caller then daily_spend_for_user today user g + call_cost ops price u
     else daily_spend_for_user today user g)"
  using assms
  by (auto simp: daily_spend_for_user_def record_llm_call_for_user_def record_llm_call_def add_user_cost_def
        add_model_tokens_def add_daily_cost_def hm_get_retain Let_def split: option.splits if_splits)

text \<open>
  The spend recorded for a user is that user's alone. After any history of checks and recorded calls,
  recording a call adds its cost to the caller's spend of the day and leaves the spend of every other
  user as it was, also when the call is the first of a new day and the entries of earlier days are
  dropped.
\<close>

theorem user_spend_ledger:
  "let g = fold (guard_op ops price) history (cost_guard_new start cfg) in
   daily_spend_for_user today user (snd (record_llm_call_for_user ops price today now caller u g)) =
     (if user = caller then daily_spend_for_user today user g + call_cost ops price u
      else daily_spend_for_user today user g)"
  using guard.fold_inv[of "cost_guard_new start cfg" ops price history]
  by (simp add: user_spend_record cost_guard_new_def Let_def)

lemma guarded_call_latched:
  assumes "gd_budget_exceeded g"
  shows "guarded_llm_call ops price c g = (False, g)"
  using assms by (simp add: guarded_llm_call_def check_allowed_for_user_def check_allowed_def)

text \<open>
  Once the flag of an exceeded budget is set, every later call is refused, whatever its day, and the guard
  never changes again: only the recording of a call clears the flag, and no call is recorded because
  none is allowed. From the next day on the guard reports a daily spend of zero and still refuses.
\<close>

theorem budget_latched:
  assumes "gd_budget_exceeded g" "tomorrow > dc_reset_date (gd_daily_cost g)"
  shows "guarded_run ops price cs g = ([], g) \<and> daily_spend tomorrow g = 0 \<and>
    fst (check_allowed_for_user ops tomorrow now user g) \<noteq> Inr ()"
proof -
  have "guarded_run ops price cs g = ([], g)"
    using guarded_call_latched[OF assms(1)] by (induction cs) simp_all
  then show ?thesis
    using assms by (simp add: daily_spend_def check_allowed_for_user_def check_allowed_def)
qed

lemma sample_latched:
  "gd_budget_exceeded (snd (guarded_run sample_dec (\<lambda>_. (0, 0)) [sample_call 0 1 ''a'', sample_call 0 (2 * HOUR_NANOS) ''a'']
     (cost_guard_new 0 sample_config))) \<and>
   dc_reset_date (gd_daily_cost (snd (guarded_run sample_dec (\<lambda>_. (0, 0)) [sample_call 0 1 ''a'', sample_call 0 (2 * HOUR_NANOS) ''a'']
     (cost_guard_new 0 sample_config)))) = 0"
  by (simp add: guarded_llm_call_def check_defs record_llm_call_for_user_def record_llm_call_def add_user_cost_def
      add_model_tokens_def add_daily_cost_def call_cost_def sample_call_def sample_usage_def sample_config_def
      sample_dec_def cost_guard_new_def to_cents_def drain_window_def HOUR_NANOS_def sat_add32_def sat_sub32_def)

theorem budget_latched_witness:
  "guarded_run sample_dec (\<lambda>_. (0, 0)) [sample_call 1 (48 * HOUR_NANOS) ''b'']
     (snd (guarded_run sample_dec (\<lambda>_. (0, 0)) [sample_call 0 1 ''a'', sample_call 0 (2 * HOUR_NANOS) ''a'']
       (cost_guard_new 0 sample_config))) =
   ([], snd (guarded_run sample_dec (\<lambda>_. (0, 0)) [sample_call 0 1 ''a'', sample_call 0 (2 * HOUR_NANOS) ''a'']
       (cost_guard_new 0 sample_config)))"
  using budget_latched[OF conjunct1[OF sample_latched], of 1] sample_latched by simp

end
