(* ===== verification/Host_Policy.thy ===== *)
theory Host_Policy
  imports Prelude
begin

text \<open>
  The network policy of the sandbox proxy: \<open>src/sandbox/proxy/allowlist.rs\<close> and
  \<open>src/sandbox/proxy/policy.rs\<close>. The \<open>url\<close> crate is a parameter: a function from the text of a
  URL to what the code reads of the parsed URL.

  The sources have three matchers of a host against a pattern with an optional leading wildcard. What
  a client may rely on in each of them is the locale \<open>host_matcher\<close>; two of the matchers are here,
  the third is in \<open>Endpoint_Allowlist\<close>.
\<close>

section \<open>Model\<close>

subsection \<open>The allowlist of domains\<close>

record domain_pattern =
  dp_pattern :: string
  dp_is_wildcard :: bool
  dp_base_domain :: string

definition domain_pattern_new :: "string \<Rightarrow> domain_pattern" where
  "domain_pattern_new pattern =
     (let is_wildcard = starts_with ''*.'' pattern
      in \<lparr>dp_pattern = pattern, dp_is_wildcard = is_wildcard,
          dp_base_domain = (if is_wildcard then to_lower (drop 2 pattern) else to_lower pattern)\<rparr>)"

definition domain_matches :: "domain_pattern \<Rightarrow> string \<Rightarrow> bool" where
  "domain_matches p host =
     (let host_lower = to_lower host
      in if dp_is_wildcard p
         then host_lower = dp_base_domain p \<or> ends_with (''.'' @ dp_base_domain p) host_lower
         else host_lower = dp_base_domain p)"

datatype domain_validation_result = DomainAllowed | DomainDenied string

definition domain_is_allowed :: "domain_validation_result \<Rightarrow> bool" where
  "domain_is_allowed r = (case r of DomainAllowed \<Rightarrow> True | DomainDenied _ \<Rightarrow> False)"

type_synonym domain_allowlist = "domain_pattern list"

definition allowlist_new :: "string list \<Rightarrow> domain_allowlist" where
  "allowlist_new domains = map domain_pattern_new domains"

definition allowlist_empty :: domain_allowlist where
  "allowlist_empty = []"

definition allowlist_add :: "string \<Rightarrow> domain_allowlist \<Rightarrow> domain_allowlist" where
  "allowlist_add pattern l = l @ [domain_pattern_new pattern]"

definition not_in_allowlist :: "string \<Rightarrow> domain_allowlist \<Rightarrow> string" where
  "not_in_allowlist host l =
     ''host '' @ [CHR 0x27] @ host @ [CHR 0x27] @ '' not in allowlist: ['' @ str_join '', '' (map dp_pattern l) @ '']''"

definition allowlist_is_allowed :: "domain_allowlist \<Rightarrow> string \<Rightarrow> domain_validation_result" where
  "allowlist_is_allowed l host =
     (if l = [] then DomainDenied ''empty allowlist''
      else if list_ex (\<lambda>p. domain_matches p host) l then DomainAllowed
      else DomainDenied (not_in_allowlist host l))"

text \<open>What the code reads of a parsed URL.\<close>

record url_view =
  uv_scheme :: string
  uv_username :: string
  uv_password :: "string option"
  uv_host_str :: "string option"
  uv_path :: string

text \<open>The brackets of an IPv6 literal are removed; otherwise the host is taken as it is.\<close>

definition bare_host :: "string \<Rightarrow> string" where
  "bare_host h =
     to_lower (case Option.bind (strip_prefix ''['' h) (strip_suffix '']'') of Some v \<Rightarrow> v | None \<Rightarrow> h)"

definition extract_host :: "(string \<Rightarrow> url_view option) \<Rightarrow> string \<Rightarrow> string option" where
  "extract_host parse url =
     (case parse url of
        None \<Rightarrow> None
      | Some u \<Rightarrow> (if uv_scheme u \<noteq> ''http'' \<and> uv_scheme u \<noteq> ''https'' then None
                 else map_option bare_host (uv_host_str u)))"

subsection \<open>The policy\<close>

record network_request =
  nr_method :: string
  nr_url :: string
  nr_host :: string
  nr_path :: string

definition request_from_url :: "(string \<Rightarrow> url_view option) \<Rightarrow> string \<Rightarrow> string \<Rightarrow> network_request option" where
  "request_from_url parse method url =
     (case parse url of
        None \<Rightarrow> None
      | Some u \<Rightarrow>
          (if uv_scheme u \<noteq> ''http'' \<and> uv_scheme u \<noteq> ''https'' then None
           else (case uv_host_str u of
                   None \<Rightarrow> None
                 | Some h \<Rightarrow> Some \<lparr>nr_method = to_upper method, nr_url = url, nr_host = bare_host h,
                                  nr_path = uv_path u\<rparr>)))"

datatype credential_location =
    AuthorizationBearer
  | AuthorizationBasic string
  | HeaderLocation string "string option"
  | QueryParam string
  | UrlPath string

record credential_mapping =
  cm_secret_name :: string
  cm_location :: credential_location
  cm_host_patterns :: "string list"

definition mapping_bearer :: "string \<Rightarrow> string \<Rightarrow> credential_mapping" where
  "mapping_bearer secret_name host_pattern =
     \<lparr>cm_secret_name = secret_name, cm_location = AuthorizationBearer, cm_host_patterns = [host_pattern]\<rparr>"

definition mapping_header :: "string \<Rightarrow> string \<Rightarrow> string \<Rightarrow> credential_mapping" where
  "mapping_header secret_name header_name host_pattern =
     \<lparr>cm_secret_name = secret_name, cm_location = HeaderLocation header_name None,
      cm_host_patterns = [host_pattern]\<rparr>"

datatype network_decision = Allow | AllowWithCredentials string credential_location | Deny string

definition decision_is_allowed :: "network_decision \<Rightarrow> bool" where
  "decision_is_allowed d = (case d of Deny _ \<Rightarrow> False | _ \<Rightarrow> True)"

definition host_matches_pattern :: "string \<Rightarrow> string \<Rightarrow> bool" where
  "host_matches_pattern host pattern =
     (let pattern_lower = to_lower pattern
      in if pattern_lower = host then True
         else (case strip_prefix ''*.'' pattern_lower of
                 None \<Rightarrow> False
               | Some sfx \<Rightarrow>
                   ends_with sfx host \<and> length host > length sfx \<and>
                   (let pre = take (length host - length sfx) host in ends_with ''.'' pre \<or> pre = [])))"

record default_policy_decider =
  pd_allowlist :: domain_allowlist
  pd_credential_mappings :: "credential_mapping list"

definition find_credential :: "default_policy_decider \<Rightarrow> string \<Rightarrow> credential_mapping option" where
  "find_credential d host =
     (let host_lower = to_lower host
      in find (\<lambda>m. list_ex (host_matches_pattern host_lower) (cm_host_patterns m)) (pd_credential_mappings d))"

definition decide :: "default_policy_decider \<Rightarrow> network_request \<Rightarrow> network_decision" where
  "decide d request =
     (case allowlist_is_allowed (pd_allowlist d) (nr_host request) of
        DomainDenied reason \<Rightarrow> Deny reason
      | DomainAllowed \<Rightarrow>
          (case find_credential d (nr_host request) of
             Some m \<Rightarrow> AllowWithCredentials (cm_secret_name m) (cm_location m)
           | None \<Rightarrow> Allow))"

definition allow_all_decide :: "network_request \<Rightarrow> network_decision" where
  "allow_all_decide request = Allow"

definition deny_all_decide :: "string \<Rightarrow> network_request \<Rightarrow> network_decision" where
  "deny_all_decide reason request = Deny reason"

section \<open>What a pattern covers\<close>

text \<open>
  The hosts a pattern may ever cover: the pattern itself, or, for a pattern with a leading wildcard, its
  base domain and the names that end in a dot and the base domain.
\<close>

definition covered_by :: "string \<Rightarrow> string \<Rightarrow> bool" where
  "covered_by pattern host =
     (to_lower host = to_lower pattern \<or>
      starts_with ''*.'' pattern \<and>
        (to_lower host = to_lower (drop 2 pattern) \<or> ends_with (''.'' @ to_lower (drop 2 pattern)) (to_lower host)))"

text \<open>A small policy: one wildcard and one exact domain, with a credential for a host of the first.\<close>

definition sample_decider :: default_policy_decider where
  "sample_decider = \<lparr>pd_allowlist = allowlist_new [''*.example.com'', ''crates.io''],
     pd_credential_mappings = [mapping_bearer ''tok'' ''api.example.com'', mapping_bearer ''evil'' ''*.io'']\<rparr>"

definition sample_request :: "string \<Rightarrow> network_request" where
  "sample_request host = \<lparr>nr_method = ''GET'', nr_url = [], nr_host = host, nr_path = ''/''\<rparr>"

locale host_matcher =
  fixes matches :: "string \<Rightarrow> string \<Rightarrow> bool"
  assumes matches_covered: "matches pattern host \<Longrightarrow> covered_by pattern host"
    and matches_exact: "to_lower pattern = pattern \<Longrightarrow> \<not> starts_with ''*.'' pattern \<Longrightarrow> matches pattern pattern"
    and matches_subdomain:
      "to_lower base = base \<Longrightarrow> to_lower l = l \<Longrightarrow> matches (''*.'' @ base) (l @ ''.'' @ base)"
begin

text \<open>No list of patterns matches a host that none of them covers.\<close>

lemma list_covered: "list_ex (\<lambda>p. matches p host) ps \<Longrightarrow> \<exists>p\<in>set ps. covered_by p host"
  by (auto simp: list_ex_iff intro: matches_covered)

text \<open>A wildcard never matches a host that merely ends in the letters of its base domain.\<close>

lemma no_suffix_confusion:
  assumes "to_lower host = l @ to_lower base" "l \<noteq> []" "last l \<noteq> CHR ''.''" "to_lower host \<noteq> to_lower (''*.'' @ base)"
  shows "\<not> matches (''*.'' @ base) host"
proof
  assume "matches (''*.'' @ base) host"
  then have "covered_by (''*.'' @ base) host" by (rule matches_covered)
  then have "ends_with (''.'' @ to_lower base) (l @ to_lower base) \<or> l @ to_lower base = to_lower base"
    using assms(1,4) by (auto simp: covered_by_def)
  then have "ends_with ''.'' l" using assms(2) by (auto simp: ends_with_def suffix_def)
  then show False using assms(3) by (auto simp: ends_with_def suffix_def)
qed

end

lemma starts_with_wildcard: "starts_with ''*.'' p \<longleftrightarrow> p = ''*.'' @ drop 2 p"
  by (auto simp: starts_with_def prefix_def)

lemma lower_char_other:
  assumes "\<not> is_ascii_lower d" "\<not> is_ascii_upper d"
  shows "lower_char c = d \<longleftrightarrow> c = d"
proof
  assume d: "lower_char c = d"
  have "\<not> is_ascii_upper c"
  proof
    assume "is_ascii_upper c"
    then have "is_ascii_lower (lower_char c)"
      by (auto simp: lower_char_def is_ascii_upper_def is_ascii_lower_def ascii_code_char_of)
    then show False using assms(1) d by simp
  qed
  then show "c = d" using d by (simp add: lower_char_def)
next
  assume "c = d"
  then show "lower_char c = d" using assms by (simp add: lower_char_def)
qed

lemma lower_char_punct [simp]:
  "lower_char c = CHR ''*'' \<longleftrightarrow> c = CHR ''*''"
  "lower_char c = CHR ''.'' \<longleftrightarrow> c = CHR ''.''"
  by (rule lower_char_other; simp add: is_ascii_lower_def is_ascii_upper_def ascii_code_def)+

declare to_lower_simps [simp]

lemma lower_dot [simp]: "lower_char CHR ''.'' = CHR ''.''" "lower_char CHR ''*'' = CHR ''*''"
  by simp_all

lemma to_lower_wildcard: "to_lower p = ''*.'' @ b \<longleftrightarrow> starts_with ''*.'' p \<and> b = to_lower (drop 2 p)"
proof (cases p)
  case Nil
  then show ?thesis by (simp add: to_lower_def starts_with_def)
next
  case (Cons a q)
  then show ?thesis by (cases q) (auto simp: to_lower_def starts_with_def)
qed

text \<open>The matcher of the allowlist covers all the hosts a pattern may cover, except that an exact
  pattern has no wildcard.\<close>

lemma domain_matches_covered: "domain_matches (domain_pattern_new p) h \<Longrightarrow> covered_by p h"
  by (auto simp: domain_matches_def domain_pattern_new_def covered_by_def Let_def split: if_splits)

interpretation allow: host_matcher "\<lambda>p. domain_matches (domain_pattern_new p)"
  by unfold_locales
    (auto simp: domain_matches_covered domain_matches_def domain_pattern_new_def to_lower_append starts_with_def
      ends_with_def suffix_def)

text \<open>The way the code checks for a dot before the suffix.\<close>

lemma dotted_suffix:
  "ends_with sfx h \<and> length sfx < length h \<and>
     (ends_with ''.'' (take (length h - length sfx) h) \<or> take (length h - length sfx) h = []) \<longleftrightarrow>
   ends_with (''.'' @ sfx) h"
  by (auto simp: ends_with_def suffix_def)

lemma host_matches_pattern_iff:
  "host_matches_pattern h p \<longleftrightarrow>
     h = to_lower p \<or> starts_with ''*.'' p \<and> ends_with (''.'' @ to_lower (drop 2 p)) h"
proof (cases "strip_prefix ''*.'' (to_lower p)")
  case None
  then have "\<not> starts_with ''*.'' p"
    using to_lower_wildcard[of p "to_lower (drop 2 p)"] by (auto simp: strip_prefix_def)
  with None show ?thesis by (auto simp: host_matches_pattern_def Let_def)
next
  case (Some sfx)
  then have "starts_with ''*.'' p" "sfx = to_lower (drop 2 p)"
    using to_lower_wildcard[of p sfx] by (simp_all add: strip_prefix_Some)
  with Some show ?thesis using dotted_suffix[of sfx h] by (auto simp: host_matches_pattern_def Let_def)
qed

interpretation cred: host_matcher "\<lambda>p h. host_matches_pattern (to_lower h) p"
  by unfold_locales
    (auto simp: host_matches_pattern_iff covered_by_def to_lower_append starts_with_def ends_with_def suffix_def)

section \<open>Properties\<close>

lemma allowlist_allowed_iff:
  "allowlist_is_allowed (allowlist_new domains) host = DomainAllowed \<longleftrightarrow>
     list_ex (\<lambda>p. domain_matches (domain_pattern_new p) host) domains"
  by (auto simp: allowlist_is_allowed_def allowlist_new_def list_ex_iff)

lemma find_credential_covered:
  assumes "find_credential d host = Some m"
  shows "m \<in> set (pd_credential_mappings d) \<and> (\<exists>p\<in>set (cm_host_patterns m). covered_by p host)"
  using assms cred.list_covered[of host "cm_host_patterns m"]
  by (auto simp: find_credential_def Let_def find_Some_iff)

text \<open>
  C5. A request the proxy lets through goes to a host that one of the configured domains covers, and a
  credential is added only when, besides, a pattern of that very credential covers the host: a secret
  never goes to a host that is not on the allowlist, nor to one its mapping does not name.
\<close>

theorem proxy_confined:
  assumes "pd_allowlist d = allowlist_new domains"
  shows "(decision_is_allowed (decide d request) \<longrightarrow> (\<exists>p\<in>set domains. covered_by p (nr_host request))) \<and>
    (decide d request = AllowWithCredentials secret loc \<longrightarrow>
       (\<exists>m\<in>set (pd_credential_mappings d). cm_secret_name m = secret \<and> cm_location m = loc \<and>
          (\<exists>p\<in>set (cm_host_patterns m). covered_by p (nr_host request))))"
proof (cases "allowlist_is_allowed (allowlist_new domains) (nr_host request)")
  case (DomainDenied r)
  then show ?thesis by (simp add: decide_def assms decision_is_allowed_def)
next
  case DomainAllowed
  then have "\<exists>p\<in>set domains. covered_by p (nr_host request)"
    using allow.list_covered by (simp add: allowlist_allowed_iff)
  then show ?thesis
    using DomainAllowed find_credential_covered[of d "nr_host request"]
    by (cases "find_credential d (nr_host request)") (auto simp: decide_def assms)
qed

theorem proxy_confined_witness:
  "decide sample_decider (sample_request ''api.example.com'') = AllowWithCredentials ''tok'' AuthorizationBearer \<and>
   (\<exists>p\<in>set [''*.example.com'', ''crates.io'']. covered_by p ''api.example.com'')"
proof -
  have "decide sample_decider (sample_request ''api.example.com'') = AllowWithCredentials ''tok'' AuthorizationBearer"
    by code_simp
  then show ?thesis
    using proxy_confined[of sample_decider "[''*.example.com'', ''crates.io'']" "sample_request ''api.example.com''"]
    by (simp add: sample_decider_def decision_is_allowed_def sample_request_def)
qed

text \<open>
  The two matchers of the proxy differ in one point only: the allowlist lets a wildcard also match its
  base domain, while the pattern of a credential does not.
\<close>

theorem allowlist_vs_credential_pattern:
  "domain_matches (domain_pattern_new p) host \<longleftrightarrow>
     (if starts_with ''*.'' p
      then to_lower host = to_lower (drop 2 p) \<or> host_matches_pattern (to_lower host) p
      else host_matches_pattern (to_lower host) p)"
proof (cases "starts_with ''*.'' p")
  case True
  then have "ends_with (''.'' @ to_lower (drop 2 p)) (to_lower p)"
    using to_lower_wildcard[of p "to_lower (drop 2 p)"] by (simp add: ends_with_def suffix_def)
  with True show ?thesis
    by (auto simp: domain_matches_def domain_pattern_new_def host_matches_pattern_iff Let_def)
next
  case False
  then show ?thesis
    by (simp add: domain_matches_def domain_pattern_new_def host_matches_pattern_iff Let_def)
qed

end
