(* ===== verification/Endpoint_Allowlist.thy ===== *)
theory Endpoint_Allowlist
  imports Host_Policy
begin

text \<open>
  The endpoint allowlist of WebAssembly tools: the patterns of \<open>src/tools/wasm/capabilities.rs\<close> and the
  validator of \<open>src/tools/wasm/allowlist.rs\<close>. Parsing a URL (crate \<open>url\<close>) and decoding a path
  segment (crate \<open>urlencoding\<close>) are parameters; nothing is assumed of them.
\<close>

section \<open>Model\<close>

subsection \<open>Patterns and capabilities\<close>

record endpoint_pattern =
  ep_host :: string
  ep_path_prefix :: "string option"
  ep_methods :: "string list"

definition endpoint_host :: "string \<Rightarrow> endpoint_pattern" where
  "endpoint_host host = \<lparr>ep_host = host, ep_path_prefix = None, ep_methods = []\<rparr>"

definition with_path_prefix :: "string \<Rightarrow> endpoint_pattern \<Rightarrow> endpoint_pattern" where
  "with_path_prefix p e = e\<lparr>ep_path_prefix := Some p\<rparr>"

definition with_methods :: "string list \<Rightarrow> endpoint_pattern \<Rightarrow> endpoint_pattern" where
  "with_methods ms e = e\<lparr>ep_methods := ms\<rparr>"

definition host_matches :: "endpoint_pattern \<Rightarrow> string \<Rightarrow> bool" where
  "host_matches e url_host =
     (if ep_host e = url_host then True
      else (case strip_prefix ''*.'' (ep_host e) of
              None \<Rightarrow> False
            | Some sfx \<Rightarrow>
                ends_with sfx url_host \<and> length url_host > length sfx \<and>
                (let pre = take (length url_host - length sfx) url_host in ends_with ''.'' pre \<or> pre = [])))"

definition endpoint_matches :: "endpoint_pattern \<Rightarrow> string \<Rightarrow> string \<Rightarrow> string \<Rightarrow> bool" where
  "endpoint_matches e url_host url_path method =
     (if \<not> host_matches e url_host then False
      else if (case ep_path_prefix e of Some p \<Rightarrow> \<not> starts_with p url_path | None \<Rightarrow> False) then False
      else if ep_methods e \<noteq> [] \<and> \<not> list_ex (\<lambda>m. to_upper m = to_upper method) (ep_methods e) then False
      else True)"

definition resolve_alias :: "(string \<rightharpoonup> string) \<Rightarrow> string \<Rightarrow> string option" where
  "resolve_alias aliases alias = aliases alias"

fun secret_is_allowed :: "string list \<Rightarrow> string \<Rightarrow> bool" where
  "secret_is_allowed [] name = False"
| "secret_is_allowed (pattern # ps) name =
     (if pattern = name then True
      else (case strip_suffix ''*'' pattern of
              Some p \<Rightarrow> if starts_with p name then True else secret_is_allowed ps name
            | None \<Rightarrow> secret_is_allowed ps name))"

subsection \<open>Parsing and normalising\<close>

datatype deny_reason =
    InvalidUrl string
  | HostNotAllowed string
  | PathNotAllowed string string
  | MethodNotAllowed string string
  | EmptyAllowlist
  | InsecureScheme string

datatype allowlist_result = EndpointAllowed | EndpointDenied deny_reason

definition endpoint_is_allowed :: "allowlist_result \<Rightarrow> bool" where
  "endpoint_is_allowed r = (case r of EndpointAllowed \<Rightarrow> True | EndpointDenied _ \<Rightarrow> False)"

record allowlist_validator =
  av_patterns :: "endpoint_pattern list"
  av_require_https :: bool

definition validator_new :: "endpoint_pattern list \<Rightarrow> allowlist_validator" where
  "validator_new ps = \<lparr>av_patterns = ps, av_require_https = True\<rparr>"

definition allow_http :: "allowlist_validator \<Rightarrow> allowlist_validator" where
  "allow_http v = v\<lparr>av_require_https := False\<rparr>"

record parsed_url =
  pu_scheme :: string
  pu_host :: string
  pu_path :: string

definition is_hex_digit :: "char \<Rightarrow> bool" where
  "is_hex_digit c =
     (is_ascii_digit c \<or> (65 \<le> ascii_code c \<and> ascii_code c \<le> 70) \<or> (97 \<le> ascii_code c \<and> ascii_code c \<le> 102))"

function percent_ok_from :: "string \<Rightarrow> nat \<Rightarrow> bool" where
  "percent_ok_from bytes i =
     (if i < length bytes
      then if bytes ! i = CHR ''%''
           then if length bytes \<le> i + 2 \<or> \<not> is_hex_digit (bytes ! (i + 1)) \<or> \<not> is_hex_digit (bytes ! (i + 2))
                then False
                else percent_ok_from bytes (i + 3)
           else percent_ok_from bytes (i + 1)
      else True)"
  by pat_completeness auto
termination
  by (relation "measure (\<lambda>(bytes, i). length bytes - i)") auto

declare percent_ok_from.simps [simp del]

definition has_valid_percent_encoding :: "string \<Rightarrow> bool" where
  "has_valid_percent_encoding segment = percent_ok_from segment 0"

definition SEP :: char where
  "SEP = CHR ''/''"

text \<open>The loop over the raw segments; \<open>decode\<close> is \<open>urlencoding::decode\<close>, \<open>None\<close> its error.\<close>

fun normalize_segments :: "(string \<Rightarrow> string option) \<Rightarrow> string list \<Rightarrow> string list \<Rightarrow> (string, string list) result" where
  "normalize_segments decode segments [] = Inr segments"
| "normalize_segments decode segments (raw # rest) =
     (if \<not> has_valid_percent_encoding raw then Inl (''Invalid percent-encoding in path segment: '' @ raw)
      else (case decode raw of
              None \<Rightarrow> Inl (''Invalid percent-encoding in path segment: '' @ raw)
            | Some segment \<Rightarrow>
                if SEP \<in> set segment \<or> CHR 0x5C \<in> set segment
                then Inl ''Path segment contains encoded path separator''
                else if segment = [] \<or> segment = ''.'' then normalize_segments decode segments rest
                else if segment = ''..'' then normalize_segments decode (butlast segments) rest
                else normalize_segments decode (segments @ [segment]) rest))"

definition normalize_path :: "(string \<Rightarrow> string option) \<Rightarrow> string \<Rightarrow> (string, string) result" where
  "normalize_path decode path =
     (case normalize_segments decode [] (split_on (\<lambda>c. c = SEP) path) of
        Inl e \<Rightarrow> Inl e
      | Inr segments \<Rightarrow>
          (let r = SEP # str_join [SEP] segments
           in Inr (if length path > 1 \<and> ends_with [SEP] path \<and> \<not> ends_with [SEP] r then r @ [SEP] else r)))"

definition parse_url ::
  "(string \<Rightarrow> (string, url_view) result) \<Rightarrow> (string \<Rightarrow> string option) \<Rightarrow> string \<Rightarrow> (string, parsed_url) result" where
  "parse_url parse decode url =
     (case parse url of
        Inl e \<Rightarrow> Inl (''URL parse failed: '' @ e)
      | Inr u \<Rightarrow>
          (let scheme = to_lower (uv_scheme u)
           in if scheme \<noteq> ''http'' \<and> scheme \<noteq> ''https'' then Inl (''Unsupported scheme: '' @ scheme)
              else if uv_username u \<noteq> [] \<or> uv_password u \<noteq> None
              then Inl ''URL contains userinfo (@) which is not allowed''
              else (case uv_host_str u of
                      None \<Rightarrow> Inl ''Empty host''
                    | Some h \<Rightarrow>
                        (case normalize_path decode (uv_path u) of
                           Inl e \<Rightarrow> Inl e
                         | Inr p \<Rightarrow> Inr \<lparr>pu_scheme = scheme, pu_host = bare_host h, pu_path = p\<rparr>))))"

subsection \<open>The validator\<close>

definition path_matches :: "endpoint_pattern \<Rightarrow> string \<Rightarrow> bool" where
  "path_matches e path = (case ep_path_prefix e of None \<Rightarrow> True | Some p \<Rightarrow> starts_with p path)"

definition deny_reason_for :: "endpoint_pattern list \<Rightarrow> parsed_url \<Rightarrow> string \<Rightarrow> deny_reason" where
  "deny_reason_for ps u method =
     (let by_host = filter (\<lambda>p. host_matches p (pu_host u)) ps
      in if by_host = [] then HostNotAllowed (pu_host u)
         else if filter (\<lambda>p. path_matches p (pu_path u)) by_host = []
         then PathNotAllowed (pu_host u) (pu_path u)
         else MethodNotAllowed method (pu_host u))"

definition validate ::
  "(string \<Rightarrow> (string, url_view) result) \<Rightarrow> (string \<Rightarrow> string option) \<Rightarrow> allowlist_validator \<Rightarrow>
   string \<Rightarrow> string \<Rightarrow> allowlist_result" where
  "validate parse decode v url method =
     (if av_patterns v = [] then EndpointDenied EmptyAllowlist
      else (case parse_url parse decode url of
              Inl e \<Rightarrow> EndpointDenied (InvalidUrl e)
            | Inr u \<Rightarrow>
                if av_require_https v \<and> pu_scheme u \<noteq> ''https'' then EndpointDenied (InsecureScheme (pu_scheme u))
                else if list_ex (\<lambda>p. endpoint_matches p (pu_host u) (pu_path u) method) (av_patterns v)
                then EndpointAllowed
                else EndpointDenied (deny_reason_for (av_patterns v) u method)))"

definition host_allowed :: "allowlist_validator \<Rightarrow> string \<Rightarrow> bool" where
  "host_allowed v host = list_ex (\<lambda>p. host_matches p host) (av_patterns v)"

definition allowed_hosts :: "allowlist_validator \<Rightarrow> string list" where
  "allowed_hosts v = map ep_host (av_patterns v)"

subsection \<open>Notions of the statements\<close>

text \<open>A percent sign is followed by two hexadecimal digits, read from left to right.\<close>

fun percent_ok :: "string \<Rightarrow> bool" where
  "percent_ok [] = True"
| "percent_ok (c # s) =
     (if c = CHR ''%''
      then (case s of a # b # r \<Rightarrow> is_hex_digit a \<and> is_hex_digit b \<and> percent_ok r | _ \<Rightarrow> False)
      else percent_ok s)"

definition clean_segment :: "string \<Rightarrow> bool" where
  "clean_segment w = (w \<noteq> [] \<and> w \<noteq> ''.'' \<and> w \<noteq> ''..'' \<and> SEP \<notin> set w \<and> CHR 0x5C \<notin> set w)"

definition path_segments :: "string \<Rightarrow> string list" where
  "path_segments path = split_on (\<lambda>c. c = SEP) path"

text \<open>A URL parser and a decoder for the examples: one host, and segments without percent signs.\<close>

definition sample_parse :: "string \<Rightarrow> string \<Rightarrow> (string, url_view) result" where
  "sample_parse path url =
     Inr \<lparr>uv_scheme = ''https'', uv_username = [], uv_password = None, uv_host_str = Some ''api.openai.com'',
          uv_path = path\<rparr>"

definition sample_validator :: allowlist_validator where
  "sample_validator = validator_new [with_path_prefix ''/v1/'' (endpoint_host ''api.openai.com'')]"

section \<open>Percent encoding\<close>

lemma short_drop: "length xs \<le> n + 1 \<Longrightarrow> drop n xs \<noteq> a # b # r"
  by (auto dest!: arg_cong[of _ _ length])

lemma percent_ok_from_drop: "percent_ok_from bytes i = percent_ok (drop i bytes)"
proof (induction bytes i rule: percent_ok_from.induct)
  case (1 bytes i)
  show ?case
  proof (cases "i + 2 < length bytes")
    case True
    then have "drop (i + 1) bytes = bytes ! (i + 1) # bytes ! (i + 2) # drop (i + 3) bytes"
      by (simp add: Cons_nth_drop_Suc numeral_3_eq_3)
    moreover have "drop i bytes = bytes ! i # drop (i + 1) bytes"
      using True by (simp add: Cons_nth_drop_Suc)
    ultimately have "percent_ok (drop i bytes) \<longleftrightarrow>
        (if bytes ! i = CHR ''%''
         then is_hex_digit (bytes ! (i + 1)) \<and> is_hex_digit (bytes ! (i + 2)) \<and> percent_ok (drop (i + 3) bytes)
         else percent_ok (drop (i + 1) bytes))"
      by (simp split: if_splits)
    with True 1 show ?thesis by (subst percent_ok_from.simps) auto
  next
    case short: False
    show ?thesis
    proof (cases "i < length bytes")
      case True
      then have "drop i bytes = bytes ! i # drop (i + 1) bytes" "\<forall>a b r. drop (i + 1) bytes \<noteq> a # b # r"
        using short by (simp_all add: Cons_nth_drop_Suc short_drop)
      then have "percent_ok (drop i bytes) \<longleftrightarrow> bytes ! i \<noteq> CHR ''%'' \<and> percent_ok (drop (i + 1) bytes)"
        by (auto split: list.splits)
      with True short 1 show ?thesis by (subst percent_ok_from.simps) auto
    next
      case False
      then show ?thesis by (subst percent_ok_from.simps) simp
    qed
  qed
qed

text \<open>
  The index loop that checks percent encoding never reads past the end of the segment and decides exactly
  whether every percent sign starts a group with two hexadecimal digits.
\<close>

theorem percent_encoding_iff: "has_valid_percent_encoding segment = percent_ok segment"
  by (simp add: has_valid_percent_encoding_def percent_ok_from_drop)

section \<open>The matcher of hosts\<close>

lemma host_matches_iff:
  "host_matches e h \<longleftrightarrow>
     h = ep_host e \<or> starts_with ''*.'' (ep_host e) \<and> ends_with (''.'' @ drop 2 (ep_host e)) h"
proof (cases "strip_prefix ''*.'' (ep_host e)")
  case None
  then show ?thesis by (auto simp: host_matches_def strip_prefix_def starts_with_def)
next
  case (Some sfx)
  then have "ep_host e = ''*.'' @ sfx" by (simp add: strip_prefix_Some)
  with Some show ?thesis
    using dotted_suffix[of sfx h] by (auto simp: host_matches_def starts_with_def Let_def)
qed

interpretation endpoint: host_matcher "\<lambda>p. host_matches (endpoint_host p)"
  by unfold_locales
    (auto simp: host_matches_iff endpoint_host_def covered_by_def starts_with_def ends_with_def suffix_def to_lower_append)

lemma host_matches_endpoint: "host_matches e = host_matches (endpoint_host (ep_host e))"
  by (simp add: fun_eq_iff host_matches_def endpoint_host_def)

lemma host_matches_covered: "host_matches e h \<Longrightarrow> covered_by (ep_host e) h"
  using endpoint.matches_covered host_matches_endpoint by metis

section \<open>Normalised paths\<close>

lemma normalize_segments_clean:
  "normalize_segments decode segments raws = Inr r \<Longrightarrow> \<forall>w\<in>set segments. clean_segment w \<Longrightarrow>
   \<forall>w\<in>set r. clean_segment w"
proof (induction decode segments raws rule: normalize_segments.induct)
  case (1 decode segments)
  then show ?case by simp
next
  case (2 decode segments raw rest)
  then obtain seg where seg: "has_valid_percent_encoding raw" "decode raw = Some seg" "SEP \<notin> set seg" "CHR 0x5C \<notin> set seg"
    by (auto split: if_splits option.splits)
  show ?case
  proof (cases "seg = [] \<or> seg = ''.'' \<or> seg = ''..''")
    case True
    with 2 seg show ?thesis by (auto split: if_splits dest: in_set_butlastD)
  next
    case False
    then have "clean_segment seg" using seg by (simp add: clean_segment_def)
    with 2 seg False show ?thesis by auto
  qed
qed

lemma segments_of_joined:
  assumes "\<forall>w\<in>set ws. clean_segment w"
  shows "path_segments (SEP # str_join [SEP] ws) = [] # (if ws = [] then [[]] else ws)"
proof (cases "ws = []")
  case False
  then show ?thesis
    using split_on_join[of ws SEP] assms by (simp add: path_segments_def clean_segment_def)
qed (simp add: path_segments_def)

lemma normalize_path_segments:
  assumes "normalize_path decode path = Inr r"
  shows "\<exists>ws. (\<forall>w\<in>set ws. clean_segment w) \<and>
    (path_segments r = [] # ws \<or> path_segments r = [] # ws @ [[]])"
proof -
  obtain ws where ws: "normalize_segments decode [] (split_on (\<lambda>c. c = SEP) path) = Inr ws"
    and r: "r = SEP # str_join [SEP] ws \<or> r = (SEP # str_join [SEP] ws) @ [SEP] \<and> \<not> ends_with [SEP] (SEP # str_join [SEP] ws)"
    using assms by (auto simp: normalize_path_def Let_def split: sum.splits if_splits)
  have clean: "\<forall>w\<in>set ws. clean_segment w" using normalize_segments_clean[OF ws] by simp
  from r show ?thesis
  proof
    assume "r = SEP # str_join [SEP] ws"
    then show ?thesis using segments_of_joined[OF clean] clean
      by (cases "ws = []") (auto intro: exI[of _ "[]"] exI[of _ ws])
  next
    assume a: "r = (SEP # str_join [SEP] ws) @ [SEP] \<and> \<not> ends_with [SEP] (SEP # str_join [SEP] ws)"
    then have "ws \<noteq> []" by (auto simp: ends_with_def)
    moreover have "path_segments r = path_segments (SEP # str_join [SEP] ws) @ [[]]"
      using a unfolding path_segments_def by (simp only: split_on_snoc_sep)
    ultimately show ?thesis using segments_of_joined[OF clean] clean by auto
  qed
qed

text \<open>
  A normalised path is absolute and canonical: between its separators there are only proper names,
  with no empty, \<open>.\<close> or \<open>..\<close> segment and no backslash, apart from the empty segment of one trailing
  slash. This holds whatever the decoder returns, so a path that is written with encoded dots or
  separators has the same form or is refused.
\<close>

theorem normalize_path_canonical:
  assumes "normalize_path decode path = Inr r"
  shows "\<exists>ws. (\<forall>w\<in>set ws. clean_segment w) \<and>
    (path_segments r = [] # ws \<or> path_segments r = [] # ws @ [[]])"
  using assms by (rule normalize_path_segments)

theorem normalize_path_canonical_witness:
  "\<exists>ws. (\<forall>w\<in>set ws. clean_segment w) \<and>
    (path_segments ''/v1/b'' = [] # ws \<or> path_segments ''/v1/b'' = [] # ws @ [[]])"
proof (rule normalize_path_canonical)
  show "normalize_path Some ''/x/../v1/./a/..//b'' = Inr ''/v1/b''" by code_simp
qed

section \<open>The validator\<close>

lemma endpoint_matches_iff:
  "endpoint_matches e h path method \<longleftrightarrow>
     host_matches e h \<and> path_matches e path \<and>
     (ep_methods e = [] \<or> to_upper method \<in> to_upper ` set (ep_methods e))"
  by (force simp: endpoint_matches_def path_matches_def list_ex_iff image_iff split: option.splits)

lemma parse_url_Inr:
  "parse_url parse decode url = Inr u \<longleftrightarrow>
     (\<exists>uv h path. parse url = Inr uv \<and> to_lower (uv_scheme uv) \<in> {''http'', ''https''} \<and>
        uv_username uv = [] \<and> uv_password uv = None \<and> uv_host_str uv = Some h \<and>
        normalize_path decode (uv_path uv) = Inr path \<and>
        u = \<lparr>pu_scheme = to_lower (uv_scheme uv), pu_host = bare_host h, pu_path = path\<rparr>)"
  by (auto simp: parse_url_def Let_def split: sum.splits option.splits if_splits)

text \<open>
  C8. A request that the validator allows goes, over HTTPS unless that was switched off and without
  credentials in the URL, to a host that the pattern of some entry covers; for the same entry the
  method is listed and the path begins with the prefix, where the path is canonical and so cannot leave
  the prefix again through dot segments.
\<close>

theorem validate_confined:
  assumes "validate parse decode v url method = EndpointAllowed"
  shows "\<exists>uv h path e. parse url = Inr uv \<and> uv_username uv = [] \<and> uv_password uv = None \<and>
    uv_host_str uv = Some h \<and> normalize_path decode (uv_path uv) = Inr path \<and>
    (to_lower (uv_scheme uv) = ''https'' \<or> to_lower (uv_scheme uv) = ''http'' \<and> av_require_https v = False) \<and>
    e \<in> set (av_patterns v) \<and> covered_by (ep_host e) (bare_host h) \<and> path_matches e path \<and>
    ''..'' \<notin> set (path_segments path) \<and>
    (ep_methods e = [] \<or> to_upper method \<in> to_upper ` set (ep_methods e))"
proof -
  obtain u e where u: "parse_url parse decode url = Inr u" "av_require_https v = False \<or> pu_scheme u = ''https''"
    and e: "e \<in> set (av_patterns v)" "endpoint_matches e (pu_host u) (pu_path u) method"
    using assms by (auto simp: validate_def list_ex_iff split: sum.splits if_splits)
  obtain uv h path where uv: "parse url = Inr uv" "to_lower (uv_scheme uv) \<in> {''http'', ''https''}"
    "uv_username uv = []" "uv_password uv = None" "uv_host_str uv = Some h" "normalize_path decode (uv_path uv) = Inr path"
    "u = \<lparr>pu_scheme = to_lower (uv_scheme uv), pu_host = bare_host h, pu_path = path\<rparr>"
    using u(1) by (auto simp: parse_url_Inr)
  obtain ws where "\<forall>w\<in>set ws. clean_segment w" "path_segments path = [] # ws \<or> path_segments path = [] # ws @ [[]]"
    using normalize_path_segments[OF uv(6)] by blast
  then have "''..'' \<notin> set (path_segments path)"
    using clean_segment_def[of "''..''"] by auto
  moreover have "host_matches e (bare_host h)" "path_matches e path"
    "ep_methods e = [] \<or> to_upper method \<in> to_upper ` set (ep_methods e)"
    using e(2) uv(7) by (simp_all add: endpoint_matches_iff)
  moreover have "to_lower (uv_scheme uv) = ''https'' \<or> to_lower (uv_scheme uv) = ''http'' \<and> av_require_https v = False"
    using u(2) uv(2,7) by auto
  ultimately show ?thesis using e(1) uv(1,3-6) host_matches_covered by blast
qed

theorem validate_confined_witness:
  "\<exists>path e. normalize_path Some ''/v1/x/../chat'' = Inr path \<and> e \<in> set (av_patterns sample_validator) \<and>
     path_matches e path \<and> ''..'' \<notin> set (path_segments path)"
proof -
  have "validate (sample_parse ''/v1/x/../chat'') Some sample_validator [] ''GET'' = EndpointAllowed"
    by code_simp
  from validate_confined[OF this] show ?thesis
    by (auto simp: sample_parse_def)
qed

text \<open>The same prefix with a path that leaves it is refused.\<close>

lemma dot_segments_refused:
  "validate (sample_parse ''/v1/../admin'') Some sample_validator [] ''GET'' =
     EndpointDenied (PathNotAllowed ''api.openai.com'' ''/admin'')"
  by code_simp

text \<open>
  A refusal names the first check that fails: the host when no entry covers it, the path when some entry
  has the host but none of these the path, and the method only when some entry has both.
\<close>

theorem deny_reason_exact:
  assumes "validate parse decode v url method = EndpointDenied reason" "parse_url parse decode url = Inr u"
    and "av_require_https v \<longrightarrow> pu_scheme u = ''https''" "av_patterns v \<noteq> []"
  shows "reason =
    (if host_allowed v (pu_host u) = False then HostNotAllowed (pu_host u)
     else if list_ex (\<lambda>e. host_matches e (pu_host u) \<and> path_matches e (pu_path u)) (av_patterns v)
     then MethodNotAllowed method (pu_host u)
     else PathNotAllowed (pu_host u) (pu_path u))"
  using assms
  by (auto simp: validate_def deny_reason_for_def host_allowed_def list_ex_iff filter_empty_conv Let_def split: if_splits)

theorem deny_reason_exact_witness:
  "PathNotAllowed ''api.openai.com'' ''/admin'' =
    (if host_allowed sample_validator ''api.openai.com'' = False then HostNotAllowed ''api.openai.com''
     else if list_ex (\<lambda>e. host_matches e ''api.openai.com'' \<and> path_matches e ''/admin'') (av_patterns sample_validator)
     then MethodNotAllowed ''GET'' ''api.openai.com''
     else PathNotAllowed ''api.openai.com'' ''/admin'')"
proof -
  have "parse_url (sample_parse ''/v1/../admin'') Some [] =
      Inr \<lparr>pu_scheme = ''https'', pu_host = ''api.openai.com'', pu_path = ''/admin''\<rparr>"
    by code_simp
  from deny_reason_exact[OF dot_segments_refused this] show ?thesis
    by (simp add: sample_validator_def validator_new_def)
qed

end
