(* ===== verification/Redaction.thy ===== *)
theory Redaction
  imports Json
begin

text \<open>
  The redaction of sensitive values in JSON before it is logged or shown, \<open>src/tools/redaction.rs\<close>.
  Keys are split at characters that are no ASCII letters or digits, so the words are ASCII and the
  bytes of the model are the characters of the code.
\<close>

section \<open>Model\<close>

definition REDACTED :: string where
  "REDACTED = ''[REDACTED]''"

definition SENSITIVE_EXACT :: "string list" where
  "SENSITIVE_EXACT =
     [''authorization'', ''proxy-authorization'', ''cookie'', ''set-cookie'', ''x-api-key'', ''api-key'', ''api_key'',
      ''access_token'', ''refresh_token'', ''session_token'', ''id_token'', ''token'', ''password'', ''passwd'',
      ''secret'', ''client_secret'', ''private_key'', ''apikey'', ''apisecret'']"

definition SENSITIVE_PARTS :: "string list" where
  "SENSITIVE_PARTS =
     [''password'', ''passwd'', ''secret'', ''credential'', ''authorization'', ''cookie'', ''apikey'', ''apisecret'']"

definition TOKEN_PARTS :: "string list" where
  "TOKEN_PARTS = [''token'', ''jwt'']"

definition KEY_PARTS :: "string list" where
  "KEY_PARTS = [''key'']"

definition CONTEXT_PARTS :: "string list" where
  "CONTEXT_PARTS =
     [''auth'', ''oauth'', ''authorization'', ''api'', ''access'', ''refresh'', ''session'', ''bearer'', ''private'',
      ''client'', ''id'', ''app'', ''user'', ''application'', ''account'']"

definition camel_boundary :: "string \<Rightarrow> nat \<Rightarrow> bool" where
  "camel_boundary chars i =
     (let prev = chars ! (i - 1); cur = chars ! i;
          nxt = (if i + 1 < length chars then Some (chars ! (i + 1)) else None)
      in (is_ascii_lower prev \<and> is_ascii_upper cur)
         \<or> (is_ascii_alpha prev \<and> is_ascii_digit cur)
         \<or> (is_ascii_digit prev \<and> is_ascii_alpha cur)
         \<or> (is_ascii_upper prev \<and> is_ascii_upper cur \<and>
            (case nxt of Some n \<Rightarrow> is_ascii_lower n | None \<Rightarrow> False)))"

definition camel_step :: "string \<Rightarrow> nat \<Rightarrow> string list \<times> nat \<Rightarrow> string list \<times> nat" where
  "camel_step chars i = (\<lambda>(parts, start).
     if camel_boundary chars i then (parts @ [take (i - start) (drop start chars)], i) else (parts, start))"

definition split_camel_case_key_parts :: "string \<Rightarrow> string list" where
  "split_camel_case_key_parts key =
     (if key = [] then []
      else (let (parts, start) = fold (camel_step key) [1..<length key] ([], 0)
            in parts @ [drop start key]))"

definition tokenize_key_parts :: "string \<Rightarrow> string list" where
  "tokenize_key_parts key =
     map to_lower (concat (map split_camel_case_key_parts
       (filter (\<lambda>seg. seg \<noteq> []) (split_on (\<lambda>c. \<not> is_ascii_alnum c) key))))"

definition has_exact :: "string list \<Rightarrow> string list \<Rightarrow> bool" where
  "has_exact parts candidates = list_ex (\<lambda>part. list_ex (\<lambda>candidate. part = candidate) candidates) parts"

definition has_candidate_or_numbered_variant :: "string list \<Rightarrow> string list \<Rightarrow> bool" where
  "has_candidate_or_numbered_variant parts candidates =
     list_ex (\<lambda>part. list_ex (\<lambda>candidate.
        if part = candidate then True
        else (case strip_prefix candidate part of
                None \<Rightarrow> False
              | Some sfx \<Rightarrow> sfx \<noteq> [] \<and> list_all is_ascii_digit sfx)) candidates) parts"

definition has_contextual_suffix :: "string list \<Rightarrow> string list \<Rightarrow> bool" where
  "has_contextual_suffix parts candidates =
     list_ex (\<lambda>part. list_ex (\<lambda>candidate.
        (case strip_suffix candidate part of
           None \<Rightarrow> False
         | Some pre \<Rightarrow> pre \<noteq> [] \<and> List.member CONTEXT_PARTS pre)) candidates) parts"

definition is_sensitive_key :: "string \<Rightarrow> bool" where
  "is_sensitive_key key =
     (if List.member SENSITIVE_EXACT (to_lower key) then True
      else
        (let parts = tokenize_key_parts key
         in if parts = [] then False
            else if has_candidate_or_numbered_variant parts SENSITIVE_PARTS then True
            else
              (let has_token = has_candidate_or_numbered_variant parts TOKEN_PARTS;
                   has_key = has_candidate_or_numbered_variant parts KEY_PARTS
               in if has_token \<and> has_key then True
                  else if has_contextual_suffix parts TOKEN_PARTS \<or> has_contextual_suffix parts KEY_PARTS then True
                  else has_exact parts CONTEXT_PARTS \<and> (has_token \<or> has_key))))"

fun redact_in_place :: "json \<Rightarrow> json" where
  "redact_in_place (JObject es) =
     JObject (map (\<lambda>(k, v). (k, if is_sensitive_key k then JString REDACTED else redact_in_place v)) es)"
| "redact_in_place (JArray items) = JArray (map redact_in_place items)"
| "redact_in_place v = v"

definition redact_sensitive_json :: "json \<Rightarrow> json" where
  "redact_sensitive_json v = redact_in_place v"

section \<open>Notions of the statements\<close>

text \<open>
  Two values that differ at most in what stands at sensitive keys.
\<close>

inductive same_public :: "json \<Rightarrow> json \<Rightarrow> bool" where
  sp_refl: "same_public v v"
| sp_array: "list_all2 same_public xs ys \<Longrightarrow> same_public (JArray xs) (JArray ys)"
| sp_object:
    "list_all2 (\<lambda>e e'. fst e = fst e' \<and> (is_sensitive_key (fst e) \<or> same_public (snd e) (snd e'))) es es' \<Longrightarrow>
     same_public (JObject es) (JObject es')"
monos list_all2_mono

text \<open>Where a value stands: the keys on the way to it.\<close>

inductive json_at :: "json \<Rightarrow> string list \<Rightarrow> json \<Rightarrow> bool" where
  at_root: "json_at v [] v"
| at_key: "(k, w) \<in> set es \<Longrightarrow> json_at w ks v \<Longrightarrow> json_at (JObject es) (k # ks) v"
| at_item: "w \<in> set xs \<Longrightarrow> json_at w ks v \<Longrightarrow> json_at (JArray xs) ks v"

definition sample_json :: json where
  "sample_json = JObject [(''user'', JString ''ann''),
     (''auth'', JArray [JObject [(''accessToken'', JString ''s3cr3t''), (''ttl'', JNumber (PosInt 60))]])]"

section \<open>Words of a key\<close>

lemma camel_fold:
  "m \<le> length key \<Longrightarrow> 0 < m \<Longrightarrow> fold (camel_step key) [1..<m] ([], 0) = (parts, start) \<Longrightarrow>
   concat parts = take start key \<and> start < m"
proof (induction m arbitrary: parts start)
  case 0
  then show ?case by simp
next
  case (Suc m)
  show ?case
  proof (cases "m = 0")
    case True
    with Suc.prems show ?thesis by simp
  next
    case False
    obtain ps st where prev: "fold (camel_step key) [1..<m] ([], 0) = (ps, st)" by fastforce
    with Suc False have "concat ps = take st key \<and> st < m" by simp
    moreover have "(parts, start) = camel_step key m (ps, st)"
      using Suc.prems(3) False prev by (simp add: upt_Suc_append)
    ultimately show ?thesis
      by (auto simp: camel_step_def take_add[symmetric] split: if_splits)
  qed
qed

text \<open>The words of a segment are its consecutive pieces: nothing is lost or reordered.\<close>

lemma camel_parts_concat: "concat (split_camel_case_key_parts key) = key"
proof (cases "key = []")
  case False
  obtain parts start where f: "fold (camel_step key) [1..<length key] ([], 0) = (parts, start)" by fastforce
  with camel_fold[of "length key" key parts start] False show ?thesis
    by (simp add: split_camel_case_key_parts_def)
qed (simp add: split_camel_case_key_parts_def)

text \<open>The keys of the unit tests of the source.\<close>

lemma sensitive_key_examples:
  "list_all is_sensitive_key [''auth_token'', ''oauth_token'', ''accessToken'', ''apiKey'', ''token_key'', ''appTokenKey'',
     ''userJwt'', ''password123'', ''secret99'', ''accounttoken2'', ''clientSecret'', ''X-Api-Key'', ''Authorization'']"
  "list_all (\<lambda>k. \<not> is_sensitive_key k)
     [''author'', ''authorize_user'', ''token_count'', ''tokenize'', ''oauth_redirect_uri'', ''content-type'', ''query'']"
  by code_simp+

section \<open>Properties\<close>

lemma redact_entry:
  "json_entry (redact_in_place v) k w \<Longrightarrow> is_sensitive_key k \<Longrightarrow> w = JString REDACTED"
proof (induction v rule: redact_in_place.induct)
  case (1 es)
  from 1(2) consider v where "(k, v) \<in> set es" "w = JString REDACTED"
    | k' v where "(k', v) \<in> set es" "\<not> is_sensitive_key k'" "json_entry (redact_in_place v) k w"
    using 1(3) by (auto split: if_splits)
  then show ?case
  proof cases
    case 2
    with 1(1)[OF 2(1) refl 2(2)] 1(3) show ?thesis by blast
  qed
next
  case (2 items)
  then show ?case by auto
qed simp_all

text \<open>
  After redaction every value that stands at a sensitive key, at any depth below objects and arrays, is
  the placeholder.
\<close>

theorem redaction_complete:
  assumes "json_entry (redact_sensitive_json v) k w" "is_sensitive_key k"
  shows "w = JString REDACTED"
  using redact_entry assms by (simp add: redact_sensitive_json_def)

theorem redaction_complete_witness:
  "\<exists>w. json_entry (redact_sensitive_json sample_json) ''accessToken'' w \<and> w = JString REDACTED"
proof -
  have "json_entry (redact_sensitive_json sample_json) ''accessToken'' (JString REDACTED)"
  proof -
    have "redact_sensitive_json sample_json = JObject [(''user'', JString ''ann''),
        (''auth'', JArray [JObject [(''accessToken'', JString REDACTED), (''ttl'', JNumber (PosInt 60))]])]"
      by code_simp
    moreover have "json_entry \<dots> ''accessToken'' (JString REDACTED)"
      by (rule json_entry.in_object[OF _ json_entry.in_array[OF _ json_entry.here], of "''auth''"]) auto
    ultimately show ?thesis by simp
  qed
  moreover have "is_sensitive_key ''accessToken''" by code_simp
  ultimately show ?thesis using redaction_complete by blast
qed

lemma same_public_redact: "same_public v w \<Longrightarrow> redact_in_place v = redact_in_place w"
proof (induction rule: same_public.induct)
  case (sp_array xs ys)
  then show ?case by (auto simp: list_all2_conv_all_nth intro!: nth_equalityI)
next
  case (sp_object es es')
  then show ?case by (auto simp: list_all2_conv_all_nth case_prod_unfold intro!: nth_equalityI)
qed simp

text \<open>
  What redaction returns does not depend on the sensitive values at all: two values with the same keys that
  differ only in what stands at sensitive keys are redacted to the same result.
\<close>

theorem redaction_noninterference:
  assumes "same_public v w"
  shows "redact_sensitive_json v = redact_sensitive_json w"
  using same_public_redact[OF assms] by (simp add: redact_sensitive_json_def)

theorem redaction_noninterference_witness:
  "redact_sensitive_json (JObject [(''api_key'', JString ''one''), (''n'', JNull)]) =
   redact_sensitive_json (JObject [(''api_key'', JArray [JNull]), (''n'', JNull)])"
proof (rule redaction_noninterference)
  have "is_sensitive_key ''api_key''" by code_simp
  then show "same_public (JObject [(''api_key'', JString ''one''), (''n'', JNull)])
      (JObject [(''api_key'', JArray [JNull]), (''n'', JNull)])"
    by (intro sp_object) (simp add: sp_refl)
qed

text \<open>
  Redaction keeps everything else: a value that is reached through keys none of which is sensitive is
  still there, itself redacted, and a string, number, boolean or null there is unchanged.
\<close>

theorem redaction_preserves_public:
  assumes "json_at v ks u" "\<forall>k\<in>set ks. \<not> is_sensitive_key k"
  shows "json_at (redact_sensitive_json v) ks (redact_sensitive_json u)"
  using assms unfolding redact_sensitive_json_def
proof (induction rule: json_at.induct)
  case (at_root v)
  show ?case by (rule json_at.at_root)
next
  case (at_key k w es ks v)
  then have "(k, redact_in_place w) \<in> set (map (\<lambda>(k, v). (k, if is_sensitive_key k then JString REDACTED else redact_in_place v)) es)"
    by force
  with at_key show ?case by (auto intro: json_at.at_key simp del: set_map)
next
  case (at_item w xs ks v)
  then show ?case by (auto intro!: json_at.at_item[of "redact_in_place w"])
qed

theorem redaction_preserves_public_witness:
  "json_at (redact_sensitive_json sample_json) [''user''] (redact_sensitive_json (JString ''ann''))"
proof (rule redaction_preserves_public)
  show "json_at sample_json [''user''] (JString ''ann'')"
    unfolding sample_json_def by (rule json_at.at_key[OF _ json_at.at_root]) simp
  have "\<not> is_sensitive_key ''user''" by code_simp
  then show "\<forall>k\<in>set [''user'']. \<not> is_sensitive_key k" by simp
qed

end
