(* ===== verification/Token_Store.thy ===== *)
theory Token_Store
  imports Prelude
begin

text \<open>
  The authentication of workers, \<open>src/orchestrator/auth.rs\<close>: a bearer token and credential grants for each
  job, and the middleware that admits a request. The random bytes of a token are an argument, the parser
  of UUIDs (crate \<open>uuid\<close>) is a parameter, and the constant-time comparison is equality of bytes.
\<close>

section \<open>Model\<close>

record credential_grant =
  cgr_secret_name :: string
  cgr_env_var :: string

record token_store =
  ts_tokens :: "(uuid \<times> string) list"
  ts_grants :: "(uuid \<times> credential_grant list) list"

definition token_store_new :: token_store where
  "token_store_new = \<lparr>ts_tokens = [], ts_grants = []\<rparr>"

definition hex_char :: "nat \<Rightarrow> char" where
  "hex_char n = (if n < 10 then char_of (48 + n) else char_of (87 + n))"

definition hex_byte :: "8 word \<Rightarrow> string" where
  "hex_byte b = [hex_char (unat b div 16), hex_char (unat b mod 16)]"

definition generate_token :: "8 word list \<Rightarrow> string" where
  "generate_token bytes = fold (\<lambda>b s. s @ hex_byte b) bytes []"

definition create_token :: "8 word list \<Rightarrow> uuid \<Rightarrow> token_store \<Rightarrow> string \<times> token_store" where
  "create_token bytes job_id s =
     (let token = generate_token bytes in (token, s\<lparr>ts_tokens := hm_put job_id token (ts_tokens s)\<rparr>))"

definition validate_token :: "uuid \<Rightarrow> string \<Rightarrow> token_store \<Rightarrow> bool" where
  "validate_token job_id token s =
     (case hm_get (ts_tokens s) job_id of Some stored \<Rightarrow> stored = token | None \<Rightarrow> False)"

definition revoke :: "uuid \<Rightarrow> token_store \<Rightarrow> token_store" where
  "revoke job_id s = s\<lparr>ts_tokens := hm_del job_id (ts_tokens s), ts_grants := hm_del job_id (ts_grants s)\<rparr>"

definition active_token_count :: "token_store \<Rightarrow> nat" where
  "active_token_count s = length (ts_tokens s)"

definition store_grants :: "uuid \<Rightarrow> credential_grant list \<Rightarrow> token_store \<Rightarrow> token_store" where
  "store_grants job_id grants s =
     (if grants \<noteq> [] then s\<lparr>ts_grants := hm_put job_id grants (ts_grants s)\<rparr> else s)"

definition get_grants :: "uuid \<Rightarrow> token_store \<Rightarrow> credential_grant list option" where
  "get_grants job_id s = hm_get (ts_grants s) job_id"

definition extract_job_id_from_path :: "(string \<Rightarrow> uuid option) \<Rightarrow> string \<Rightarrow> uuid option" where
  "extract_job_id_from_path parse_uuid path =
     (let parts = split_on (\<lambda>c. c = CHR ''/'') (dropWhile (\<lambda>c. c = CHR ''/'') path)
      in if length parts \<ge> 2 \<and> parts ! 0 = ''worker'' then parse_uuid (parts ! 1) else None)"

datatype status_code = BAD_REQUEST | UNAUTHORIZED

text \<open>
  The middleware up to the call of the next handler, which is the result \<open>Inr\<close>; \<open>header\<close> is the
  \<open>Authorization\<close> header when it is present and readable as text.
\<close>

definition worker_auth_middleware ::
  "(string \<Rightarrow> uuid option) \<Rightarrow> token_store \<Rightarrow> string \<Rightarrow> string option \<Rightarrow> (status_code, unit) result" where
  "worker_auth_middleware parse_uuid s path header =
     (case extract_job_id_from_path parse_uuid path of
        None \<Rightarrow> Inl BAD_REQUEST
      | Some job_id \<Rightarrow>
          (case Option.bind header (strip_prefix ''Bearer '') of
             None \<Rightarrow> Inl UNAUTHORIZED
           | Some token \<Rightarrow> if \<not> validate_token job_id token s then Inl UNAUTHORIZED else Inr ()))"

subsection \<open>Histories\<close>

datatype token_op =
    Create "8 word list" uuid
  | Revoke uuid
  | Grant uuid "credential_grant list"

definition token_op :: "token_op \<Rightarrow> token_store \<Rightarrow> token_store" where
  "token_op op s =
     (case op of
        Create bytes job_id \<Rightarrow> snd (create_token bytes job_id s)
      | Revoke job_id \<Rightarrow> revoke job_id s
      | Grant job_id grants \<Rightarrow> store_grants job_id grants s)"

text \<open>The random bytes of a job's current token, read off the history alone.\<close>

definition live_step :: "uuid \<Rightarrow> token_op \<Rightarrow> 8 word list option \<Rightarrow> 8 word list option" where
  "live_step job_id op cur =
     (case op of
        Create bytes j \<Rightarrow> if j = job_id then Some bytes else cur
      | Revoke j \<Rightarrow> if j = job_id then None else cur
      | Grant _ _ \<Rightarrow> cur)"

definition live_bytes :: "token_op list \<Rightarrow> uuid \<Rightarrow> 8 word list option" where
  "live_bytes ops job_id = fold (live_step job_id) ops None"

definition created_bytes :: "token_op list \<Rightarrow> 8 word list list" where
  "created_bytes ops = concat (map (\<lambda>op. case op of Create bytes _ \<Rightarrow> [bytes] | _ \<Rightarrow> []) ops)"

text \<open>A parser for the examples: the identifier is one digit.\<close>

definition sample_uuid :: "string \<Rightarrow> uuid option" where
  "sample_uuid s = (case s of [c] \<Rightarrow> if is_ascii_digit c then Some (ascii_code c - 48) else None | _ \<Rightarrow> None)"

definition sample_ops :: "token_op list" where
  "sample_ops = [Create (replicate 32 1) 1, Create (replicate 32 2) 2, Grant 1 []]"

section \<open>Tokens\<close>

lemma hex_char_inj: "m < 16 \<Longrightarrow> n < 16 \<Longrightarrow> hex_char m = hex_char n \<Longrightarrow> m = n"
  by (auto simp: hex_char_def dest!: arg_cong[of _ _ ascii_code] simp: ascii_code_char_of split: if_splits)

lemma hex_byte_inj: "hex_byte a = hex_byte b \<Longrightarrow> a = b"
proof -
  assume h: "hex_byte a = hex_byte b"
  have "unat x div 16 < 16" for x :: "8 word"
    using unsigned_less[where 'a = nat, of x] by simp
  then have "unat a div 16 = unat b div 16" "unat a mod 16 = unat b mod 16"
    using h hex_char_inj by (auto simp: hex_byte_def)
  then have "unat a = unat b" by (metis div_mult_mod_eq)
  then show "a = b" by (simp add: unsigned_word_eqI)
qed

lemma generate_token_concat: "generate_token bytes = concat (map hex_byte bytes)"
proof -
  have "fold (\<lambda>b s. s @ hex_byte b) bytes acc = acc @ concat (map hex_byte bytes)" for acc
    by (induction bytes arbitrary: acc) simp_all
  then show ?thesis by (simp add: generate_token_def)
qed

lemma length_generate_token: "length (generate_token bytes) = 2 * length bytes"
  by (induction bytes) (simp_all add: generate_token_concat hex_byte_def)

lemma generate_token_inj: "generate_token a = generate_token b \<Longrightarrow> a = b"
proof (induction a arbitrary: b)
  case Nil
  then show ?case using length_generate_token[of b] length_generate_token[of "[]"] by simp
next
  case (Cons x a)
  then obtain y b' where b: "b = y # b'"
    using length_generate_token[of "x # a"] length_generate_token[of b] by (cases b) auto
  then have "hex_byte x = hex_byte y" "generate_token a = generate_token b'"
    using Cons.prems by (simp_all add: generate_token_concat hex_byte_def)
  with Cons.IH b show ?case by (simp add: hex_byte_inj)
qed

lemma tokens_from_history:
  "hm_get (ts_tokens (fold token_op ops token_store_new)) job_id = map_option generate_token (live_bytes ops job_id)"
proof -
  have "hm_get (ts_tokens s) job_id = map_option generate_token cur \<Longrightarrow>
    hm_get (ts_tokens (fold token_op ops s)) job_id = map_option generate_token (fold (live_step job_id) ops cur)" for s cur
    by (induction ops arbitrary: s cur)
       (simp_all add: token_op_def live_step_def create_token_def revoke_def store_grants_def Let_def split: token_op.split)
  then show ?thesis by (simp add: live_bytes_def token_store_new_def)
qed

lemma live_bytes_created: "live_bytes ops job_id = Some bytes \<Longrightarrow> Create bytes job_id \<in> set ops"
proof -
  have "fold (live_step job_id) ops cur = Some bytes \<Longrightarrow> cur = Some bytes \<or> Create bytes job_id \<in> set ops" for cur
    by (induction ops arbitrary: cur) (auto simp: live_step_def split: token_op.splits if_splits)
  then show "live_bytes ops job_id = Some bytes \<Longrightarrow> Create bytes job_id \<in> set ops"
    by (auto simp: live_bytes_def)
qed

lemma created_twice:
  assumes "distinct (created_bytes ops)" "Create bytes i \<in> set ops" "Create bytes j \<in> set ops"
  shows "i = j"
  using assms
proof (induction ops)
  case (Cons op ops)
  then show ?case by (cases op) (force simp: created_bytes_def)+
qed simp

lemma bearer_header:
  "Option.bind header (strip_prefix ''Bearer '') = Some token \<longleftrightarrow> header = Some (''Bearer '' @ token)"
  by (cases header) (simp_all add: strip_prefix_Some)

lemma worker_admitted:
  "worker_auth_middleware parse_uuid s path header = Inr () \<longleftrightarrow>
     (\<exists>job_id token. extract_job_id_from_path parse_uuid path = Some job_id \<and>
        header = Some (''Bearer '' @ token) \<and> hm_get (ts_tokens s) job_id = Some token)"
proof (cases "Option.bind header (strip_prefix ''Bearer '')")
  case None
  then have "header \<noteq> Some (''Bearer '' @ token)" for token
    using bearer_header[of header token] by simp
  with None show ?thesis by (auto simp: worker_auth_middleware_def split: option.split)
next
  case (Some token)
  then show ?thesis using bearer_header[of header token]
    by (auto simp: worker_auth_middleware_def validate_token_def split: option.splits)
qed

section \<open>Properties\<close>

text \<open>
  The middleware admits a request exactly when its path names a job and the bearer token is the one that
  was last created for this job, and not revoked since, in the history of the store.
\<close>

theorem worker_admitted_iff:
  "worker_auth_middleware parse_uuid (fold token_op ops token_store_new) path header = Inr () \<longleftrightarrow>
     (\<exists>job_id bytes. extract_job_id_from_path parse_uuid path = Some job_id \<and>
        live_bytes ops job_id = Some bytes \<and> header = Some (''Bearer '' @ generate_token bytes))"
  by (auto simp: worker_admitted tokens_from_history)

text \<open>
  C9. A token for one job does not open another: when the random bytes of all tokens created so far differ,
  a worker that presents the token of its job is admitted only to paths of this job, and only until it
  is revoked; a revoked job also has no credential grants.
\<close>

theorem token_scoped_to_job:
  assumes "distinct (created_bytes ops)" "Create bytes mine \<in> set ops"
    and "worker_auth_middleware parse_uuid (fold token_op ops token_store_new) path
           (Some (''Bearer '' @ generate_token bytes)) = Inr ()"
  shows "extract_job_id_from_path parse_uuid path = Some mine \<and> live_bytes ops mine = Some bytes \<and>
    get_grants mine (revoke mine (fold token_op ops token_store_new)) = None"
proof -
  obtain job_id stored where "extract_job_id_from_path parse_uuid path = Some job_id"
    "hm_get (ts_tokens (fold token_op ops token_store_new)) job_id = Some stored" "stored = generate_token bytes"
    using assms(3) by (auto simp: worker_admitted)
  moreover from this obtain other where "live_bytes ops job_id = Some other" "generate_token other = generate_token bytes"
    by (auto simp: tokens_from_history)
  moreover from this have "other = bytes" by (simp add: generate_token_inj)
  moreover from calculation have "job_id = mine"
    using created_twice[OF assms(1)] assms(2) live_bytes_created by blast
  ultimately show ?thesis by (simp add: get_grants_def revoke_def)
qed

theorem token_scoped_to_job_witness:
  "extract_job_id_from_path sample_uuid ''/worker/2/llm'' = Some 2 \<and>
   live_bytes sample_ops 2 = Some (replicate 32 2) \<and>
   get_grants 2 (revoke 2 (fold token_op sample_ops token_store_new)) = None"
proof (rule token_scoped_to_job)
  show "distinct (created_bytes sample_ops)" by code_simp
  show "Create (replicate 32 2) 2 \<in> set sample_ops" by (simp add: sample_ops_def)
  show "worker_auth_middleware sample_uuid (fold token_op sample_ops token_store_new) ''/worker/2/llm''
      (Some (''Bearer '' @ generate_token (replicate 32 2))) = Inr ()"
    by code_simp
qed

text \<open>
  A generated token is 64 lower-case hexadecimal digits, and different random bytes give different tokens.
\<close>

theorem token_encoding:
  assumes "length a = 32"
  shows "length (generate_token a) = 64 \<and> (generate_token a = generate_token b \<longleftrightarrow> a = b)"
  using length_generate_token[of a] generate_token_inj[of a b] assms by auto

theorem token_encoding_witness:
  "length (generate_token (replicate 32 255)) = 64 \<and>
   (generate_token (replicate 32 255) = generate_token [1] \<longleftrightarrow> replicate 32 255 = [1 :: 8 word])"
  by (rule token_encoding) simp

end
