(* ===== verification/Skills.thy ===== *)
theory Skills
  imports Llm_Types
begin

text \<open>
  Skills: the limits, names and escaping of \<open>src/skills/mod.rs\<close>, the deterministic selection of
  \<open>src/skills/selector.rs\<close> and the attenuation of tools of \<open>src/skills/attenuation.rs\<close>.

  A compiled regular expression is a predicate on the message; compiling one (crate \<open>regex\<close>) is a
  parameter. The two fixed expressions of the source are written out as what they match. Scores are
  natural numbers: the capped parts add up to at most 85. An estimate of a quarter token per byte is
  the length divided by four, which is exact in double precision below \<open>2\<^sup>5\<^sup>3\<close> bytes.
\<close>

section \<open>Model\<close>

subsection \<open>Skills\<close>

definition MAX_KEYWORDS_PER_SKILL :: nat where "MAX_KEYWORDS_PER_SKILL = 20"
definition MAX_PATTERNS_PER_SKILL :: nat where "MAX_PATTERNS_PER_SKILL = 5"
definition MAX_TAGS_PER_SKILL :: nat where "MAX_TAGS_PER_SKILL = 10"
definition MIN_KEYWORD_TAG_LENGTH :: nat where "MIN_KEYWORD_TAG_LENGTH = 3"

definition name_char :: "char \<Rightarrow> bool" where
  "name_char c = (is_ascii_alnum c \<or> c = CHR ''.'' \<or> c = CHR ''_'' \<or> c = CHR ''-'')"

definition validate_skill_name :: "string \<Rightarrow> bool" where
  "validate_skill_name name =
     (case name of [] \<Rightarrow> False | c # cs \<Rightarrow> is_ascii_alnum c \<and> length cs \<le> 63 \<and> list_all name_char cs)"

datatype skill_trust = Installed | Trusted

text \<open>The derived order: \<open>Installed\<close> is below \<open>Trusted\<close>.\<close>

instantiation skill_trust :: linorder
begin
definition less_eq_skill_trust :: "skill_trust \<Rightarrow> skill_trust \<Rightarrow> bool" where
  "less_eq_skill_trust a b = (a = Installed \<or> b = Trusted)"
definition less_skill_trust :: "skill_trust \<Rightarrow> skill_trust \<Rightarrow> bool" where
  "less_skill_trust a b = (a = Installed \<and> b = Trusted)"
instance
proof
  fix x y z :: skill_trust
  show "(x < y) = (x \<le> y \<and> \<not> y \<le> x)" by (cases x; cases y) (simp_all add: less_eq_skill_trust_def less_skill_trust_def)
  show "x \<le> x" by (cases x) (simp_all add: less_eq_skill_trust_def)
  show "x \<le> z" if "x \<le> y" "y \<le> z" using that by (cases x; cases y; cases z) (simp_all add: less_eq_skill_trust_def)
  show "x = y" if "x \<le> y" "y \<le> x" using that by (cases x; cases y) (simp_all add: less_eq_skill_trust_def)
  show "x \<le> y \<or> y \<le> x" by (cases x; cases y) (simp_all add: less_eq_skill_trust_def)
qed
end

datatype skill_source = Workspace string | User string | Bundled string

record activation_criteria =
  ac_keywords :: "string list"
  ac_exclude_keywords :: "string list"
  ac_patterns :: "string list"
  ac_tags :: "string list"
  ac_max_context_tokens :: nat

definition enforce_limits :: "activation_criteria \<Rightarrow> activation_criteria" where
  "enforce_limits a =
     \<lparr>ac_keywords = take MAX_KEYWORDS_PER_SKILL (filter (\<lambda>k. length k \<ge> MIN_KEYWORD_TAG_LENGTH) (ac_keywords a)),
      ac_exclude_keywords =
        take MAX_KEYWORDS_PER_SKILL (filter (\<lambda>k. length k \<ge> MIN_KEYWORD_TAG_LENGTH) (ac_exclude_keywords a)),
      ac_patterns = take MAX_PATTERNS_PER_SKILL (ac_patterns a),
      ac_tags = take MAX_TAGS_PER_SKILL (filter (\<lambda>t. length t \<ge> MIN_KEYWORD_TAG_LENGTH) (ac_tags a)),
      ac_max_context_tokens = ac_max_context_tokens a\<rparr>"

record gating_requirements =
  gr_bins :: "string list"
  gr_env :: "string list"
  gr_config :: "string list"

record skill_manifest =
  sm_name :: string
  sm_version :: string
  sm_description :: string
  sm_activation :: activation_criteria
  sm_metadata :: "gating_requirements option option"

type_synonym regex = "string \<Rightarrow> bool"

record loaded_skill =
  sk_manifest :: skill_manifest
  sk_prompt_content :: string
  sk_trust :: skill_trust
  sk_source :: skill_source
  sk_content_hash :: string
  sk_compiled_patterns :: "regex list"
  sk_lowercased_keywords :: "string list"
  sk_lowercased_exclude_keywords :: "string list"
  sk_lowercased_tags :: "string list"

definition compile_patterns :: "(string \<Rightarrow> regex option) \<Rightarrow> string list \<Rightarrow> regex list" where
  "compile_patterns build patterns = List.map_filter build patterns"

subsection \<open>Escaping\<close>

definition replace_char :: "char \<Rightarrow> string \<Rightarrow> string \<Rightarrow> string" where
  "replace_char c r s = concat (map (\<lambda>x. if x = c then r else [x]) s)"

definition escape_xml_attr :: "string \<Rightarrow> string" where
  "escape_xml_attr s =
     replace_char CHR ''>'' ''&gt;'' (replace_char CHR ''<'' ''&lt;''
       (replace_char CHR 0x27 ''&apos;'' (replace_char CHR 0x22 ''&quot;'' (replace_char CHR ''&'' ''&amp;'' s))))"

definition is_ws_or_nul :: "char \<Rightarrow> bool" where
  "is_ws_or_nul c = (is_ascii_ws c \<or> ascii_code c = 0)"

text \<open>
  What follows the \<open><\<close> of a match of \<open>(?i)</?[\s\x00]*skill\<close>: an optional slash, blanks, the word.
\<close>

definition tag_rest :: "string \<Rightarrow> bool" where
  "tag_rest s =
     starts_with ''skill'' (to_lower (dropWhile is_ws_or_nul (case s of c # t \<Rightarrow> if c = CHR ''/'' then t else s | [] \<Rightarrow> [])))"

text \<open>
  The replacement changes only the first character of a match, and no match begins inside another, so
  it is the replacement of every \<open><\<close> at which a match begins. Letters and blanks are the ASCII ones.
\<close>

fun escape_skill_content :: "string \<Rightarrow> string" where
  "escape_skill_content [] = []"
| "escape_skill_content (c # s) =
     (if c = CHR ''<'' \<and> tag_rest s then ''&lt;'' @ escape_skill_content s else c # escape_skill_content s)"

fun replace_crlf :: "string \<Rightarrow> string" where
  "replace_crlf (a # b # s) =
     (if ascii_code a = 13 \<and> ascii_code b = 10 then b # replace_crlf s else a # replace_crlf (b # s))"
| "replace_crlf s = s"

definition normalize_line_endings :: "string \<Rightarrow> string" where
  "normalize_line_endings content = replace_char (char_of (13::nat)) [char_of (10::nat)] (replace_crlf content)"

subsection \<open>Selection\<close>

definition MAX_KEYWORD_SCORE :: nat where "MAX_KEYWORD_SCORE = 30"
definition MAX_TAG_SCORE :: nat where "MAX_TAG_SCORE = 15"
definition MAX_REGEX_SCORE :: nat where "MAX_REGEX_SCORE = 40"

definition trim_matches :: "(char \<Rightarrow> bool) \<Rightarrow> string \<Rightarrow> string" where
  "trim_matches p s = rev (dropWhile p (rev (dropWhile p s)))"

definition keyword_points :: "string \<Rightarrow> string \<Rightarrow> nat" where
  "keyword_points message_lower kw =
     (if list_ex (\<lambda>word. trim_matches (\<lambda>c. \<not> is_ascii_alnum c) word = kw) (split_whitespace message_lower) then 10
      else if str_contains kw message_lower then 5
      else 0)"

definition score_skill :: "loaded_skill \<Rightarrow> string \<Rightarrow> string \<Rightarrow> nat" where
  "score_skill skill message_lower message_original =
     (if list_ex (\<lambda>excl. str_contains excl message_lower) (sk_lowercased_exclude_keywords skill) then 0
      else
        (let keyword_score = sum_list (map (keyword_points message_lower) (sk_lowercased_keywords skill));
             tag_score = sum_list (map (\<lambda>tag. if str_contains tag message_lower then 3 else 0) (sk_lowercased_tags skill));
             regex_score = sum_list (map (\<lambda>re. if re message_original then 20 else 0) (sk_compiled_patterns skill))
         in min keyword_score MAX_KEYWORD_SCORE + min tag_score MAX_TAG_SCORE + min regex_score MAX_REGEX_SCORE))"

text \<open>The doubling is on \<open>usize\<close> and wraps around.\<close>

definition skill_token_cost :: "loaded_skill \<Rightarrow> nat" where
  "skill_token_cost skill =
     (let declared_tokens = ac_max_context_tokens (sm_activation (sk_manifest skill));
          approx_tokens = length (sk_prompt_content skill) div 4;
          raw_cost = (if approx_tokens > declared_tokens * 2 mod 2 ^ 64 then approx_tokens else declared_tokens)
      in max raw_cost 1)"

fun take_within :: "nat \<Rightarrow> nat \<Rightarrow> loaded_skill list \<Rightarrow> loaded_skill list \<Rightarrow> loaded_skill list" where
  "take_within max_candidates budget taken [] = taken"
| "take_within max_candidates budget taken (s # rest) =
     (if length taken \<ge> max_candidates then taken
      else if skill_token_cost s \<le> budget
      then take_within max_candidates (budget - skill_token_cost s) (taken @ [s]) rest
      else take_within max_candidates budget taken rest)"

definition prefilter_skills :: "string \<Rightarrow> loaded_skill list \<Rightarrow> nat \<Rightarrow> nat \<Rightarrow> loaded_skill list" where
  "prefilter_skills message available_skills max_candidates max_context_tokens =
     (if available_skills = [] \<or> message = [] then []
      else
        (let score = (\<lambda>s. score_skill s (to_lower message) message);
             scored = filter (\<lambda>s. score s > 0) available_skills;
             sorted_skills = sort_key (\<lambda>s. - int (score s)) scored
         in take_within max_candidates max_context_tokens [] sorted_skills))"

subsection \<open>Attenuation\<close>

definition READ_ONLY_TOOLS :: "string list" where
  "READ_ONLY_TOOLS =
     [''memory_search'', ''memory_read'', ''memory_tree'', ''time'', ''echo'', ''json'', ''skill_list'', ''skill_search'']"

record attenuation_result =
  ar_tools :: "tool_definition list"
  ar_min_trust :: skill_trust
  ar_explanation :: string
  ar_removed_tools :: "string list"

definition is_read_only :: "tool_definition \<Rightarrow> bool" where
  "is_read_only t = List.member READ_ONLY_TOOLS (td_name t)"

definition attenuate_tools :: "tool_definition list \<Rightarrow> loaded_skill list \<Rightarrow> attenuation_result" where
  "attenuate_tools tools active_skills =
     (case active_skills of
        [] \<Rightarrow> \<lparr>ar_tools = tools, ar_min_trust = Trusted,
              ar_explanation = ''No skills active, all tools available'', ar_removed_tools = []\<rparr>
      | s # ss \<Rightarrow>
          (let min_trust = fold min (map sk_trust ss) (sk_trust s)
           in case min_trust of
                Trusted \<Rightarrow>
                  \<lparr>ar_tools = tools, ar_min_trust = min_trust,
                   ar_explanation = ''All active skills are trusted (full trust), all tools available'',
                   ar_removed_tools = []\<rparr>
              | Installed \<Rightarrow>
                  (let kept = filter is_read_only tools;
                       removed = map td_name (filter (\<lambda>t. \<not> is_read_only t) tools)
                   in \<lparr>ar_tools = kept, ar_min_trust = min_trust,
                       ar_explanation =
                         ''Installed skill present: restricted to read-only tools, removed '' @
                         show_nat (length removed) @ '' tool(s): '' @ str_join '', '' removed,
                       ar_removed_tools = removed\<rparr>)))"

section \<open>Notions of the statements\<close>

text \<open>A delimiter of a skill block somewhere in the text.\<close>

fun has_skill_tag :: "string \<Rightarrow> bool" where
  "has_skill_tag [] = False"
| "has_skill_tag (c # s) = (c = CHR ''<'' \<and> tag_rest s \<or> has_skill_tag s)"

definition xml_entity :: "char \<Rightarrow> string" where
  "xml_entity c =
     (if c = CHR ''&'' then ''&amp;'' else if c = CHR 0x22 then ''&quot;'' else if c = CHR 0x27 then ''&apos;''
      else if c = CHR ''<'' then ''&lt;'' else if c = CHR ''>'' then ''&gt;'' else [c])"

section \<open>Attenuation\<close>

lemma fold_min_trust: "fold min ts (t::skill_trust) = (if Installed \<in> insert t (set ts) then Installed else Trusted)"
proof (induction ts arbitrary: t)
  case Nil
  then show ?case by (cases t) simp_all
next
  case (Cons u ts)
  then show ?case by (cases t; cases u) (simp_all add: min_def less_eq_skill_trust_def)
qed

text \<open>
  C22. As soon as one installed skill is active, exactly the tools of the read-only list are passed on, in their
  order, and the others are reported as removed; when every active skill is trusted, or none is
  active, all tools are passed on.
\<close>

theorem attenuation_ceiling:
  "let r = attenuate_tools tools skills in
   (if Installed \<in> sk_trust ` set skills
    then ar_tools r = filter is_read_only tools \<and>
         ar_removed_tools r = map td_name (filter (\<lambda>t. \<not> is_read_only t) tools) \<and> ar_min_trust r = Installed
    else ar_tools r = tools \<and> ar_removed_tools r = [] \<and> ar_min_trust r = Trusted)"
  by (cases skills) (auto simp: attenuate_tools_def fold_min_trust Let_def)

section \<open>Selection\<close>

lemma take_within_cost:
  "sum_list (map skill_token_cost (take_within n b taken ss)) \<le> sum_list (map skill_token_cost taken) + b"
  by (induction n b taken ss rule: take_within.induct) force+

lemma take_within_length: "length taken \<le> n \<Longrightarrow> length (take_within n b taken ss) \<le> n"
  by (induction n b taken ss rule: take_within.induct) auto

lemma take_within_subseq: "\<exists>more. subseq more ss \<and> take_within n b taken ss = taken @ more"
proof (induction n b taken ss rule: take_within.induct)
  case (2 n b taken s rest)
  then show ?case
    by (cases "length taken \<ge> n"; cases "skill_token_cost s \<le> b") (force intro: list_emb_Cons)+
qed simp

lemma length_le_cost: "length ss \<le> sum_list (map skill_token_cost ss)"
proof (induction ss)
  case (Cons s ss)
  have "1 \<le> skill_token_cost s" by (simp add: skill_token_cost_def Let_def)
  with Cons show ?case by simp
qed simp

lemma score_positive_not_excluded:
  "0 < score_skill s ml m \<Longrightarrow> \<not> list_ex (\<lambda>excl. str_contains excl ml) (sk_lowercased_exclude_keywords s)"
  by (simp add: score_skill_def split: if_splits)

lemma score_at_most: "score_skill s ml m \<le> 85"
proof -
  have "min a 30 + min b 15 + min c 40 \<le> (85::nat)" for a b c by (simp add: min_def)
  then show ?thesis
    by (auto simp: score_skill_def MAX_KEYWORD_SCORE_def MAX_TAG_SCORE_def MAX_REGEX_SCORE_def Let_def)
qed

lemma set_of_subseq: "subseq xs ys \<Longrightarrow> set xs \<subseteq> set ys"
  by (induction rule: list_emb.induct) auto

lemma sorted_wrt_of_subseq: "subseq xs ys \<Longrightarrow> sorted_wrt P ys \<Longrightarrow> sorted_wrt P xs"
  by (induction rule: list_emb.induct) (auto dest: set_of_subseq)

lemma prefilter_subseq:
  "subseq (prefilter_skills message skills n b)
     (sort_key (\<lambda>s. - int (score_skill s (to_lower message) message))
       (filter (\<lambda>s. score_skill s (to_lower message) message > 0) skills))"
  using take_within_subseq[where taken = "[]"] by (fastforce simp: prefilter_skills_def Let_def)

text \<open>
  The selection returns at most the allowed number of skills, whose token costs together stay within the
  budget, each counting at least one token; every selected skill is one of the available ones with a
  positive score, so none with an excluded keyword in the message, and scores never increase along the
  result.
\<close>

theorem prefilter_bounds:
  "let r = prefilter_skills message skills max_candidates budget; score = (\<lambda>s. score_skill s (to_lower message) message) in
     length r \<le> max_candidates \<and> sum_list (map skill_token_cost r) \<le> budget \<and> length r \<le> budget \<and>
     set r \<subseteq> {s \<in> set skills. 0 < score s \<and>
       \<not> list_ex (\<lambda>excl. str_contains excl (to_lower message)) (sk_lowercased_exclude_keywords s)} \<and>
     sorted_wrt (\<lambda>a b. score a \<ge> score b) r"
proof -
  let ?r = "prefilter_skills message skills max_candidates budget"
  let ?score = "\<lambda>s. score_skill s (to_lower message) message"
  let ?sorted = "sort_key (\<lambda>s. - int (?score s)) (filter (\<lambda>s. ?score s > 0) skills)"
  have sub: "subseq ?r ?sorted" by (rule prefilter_subseq)
  have "set ?r \<subseteq> set (filter (\<lambda>s. ?score s > 0) skills)"
    using set_of_subseq[OF sub] by simp
  moreover have cost: "sum_list (map skill_token_cost ?r) \<le> budget"
    using take_within_cost[where taken = "[]"] by (simp add: prefilter_skills_def Let_def)
  moreover have "length ?r \<le> max_candidates"
    by (simp add: prefilter_skills_def take_within_length Let_def)
  moreover have "sorted_wrt (\<lambda>a b. ?score a \<ge> ?score b) ?sorted"
    using sorted_sort_key[of "\<lambda>s. - int (?score s)"] by (simp add: sorted_map)
  then have "sorted_wrt (\<lambda>a b. ?score a \<ge> ?score b) ?r"
    by (rule sorted_wrt_of_subseq[OF sub])
  ultimately show ?thesis
    using length_le_cost[of ?r] score_positive_not_excluded by (auto simp: Let_def)
qed

section \<open>Escaping\<close>

lemma escape_starts:
  "CHR ''&'' \<notin> set w \<Longrightarrow> prefix w (to_lower (escape_skill_content s)) \<Longrightarrow> prefix w (to_lower s)"
proof (induction w arbitrary: s)
  case (Cons a w)
  then show ?case
    by (cases s) (auto simp: to_lower_def lower_char_def is_ascii_upper_def ascii_code_def split: if_splits)
qed simp

lemma escape_dropWhile:
  "dropWhile is_ws_or_nul (escape_skill_content s) = escape_skill_content (dropWhile is_ws_or_nul s)"
  by (induction s) (auto simp: is_ws_or_nul_def is_ascii_ws_def ascii_code_def)

lemma tag_rest_escape: "tag_rest (escape_skill_content s) \<Longrightarrow> tag_rest s"
proof -
  assume t: "tag_rest (escape_skill_content s)"
  let ?skip = "\<lambda>s. case s of c # t \<Rightarrow> if c = CHR ''/'' then t else s | [] \<Rightarrow> []"
  have "?skip (escape_skill_content s) = escape_skill_content (?skip s)"
    by (cases s) auto
  with t show "tag_rest s"
    using escape_starts[of "''skill''" "dropWhile is_ws_or_nul (?skip s)"]
    by (simp add: tag_rest_def starts_with_def escape_dropWhile)
qed

text \<open>
  Escaped prompt content contains no opening or closing delimiter of a skill block, in any letter case and
  with any blanks after the bracket, so a skill cannot close its own block or open another one.
\<close>

theorem escaped_content_has_no_tag: "\<not> has_skill_tag (escape_skill_content s)"
  by (induction s) (auto dest: tag_rest_escape)

lemma escape_xml_attr_single_pass: "escape_xml_attr s = concat (map xml_entity s)"
  by (induction s) (simp_all add: escape_xml_attr_def replace_char_def xml_entity_def)

lemma xml_entity_prefix_free: "xml_entity a @ s = xml_entity b @ t \<Longrightarrow> a = b \<and> s = t"
  by (simp add: xml_entity_def split: if_splits)

lemma xml_entity_nonempty: "xml_entity a \<noteq> []"
  by (simp add: xml_entity_def)

lemma escape_xml_attr_inj: "escape_xml_attr s = escape_xml_attr t \<Longrightarrow> s = t"
  unfolding escape_xml_attr_single_pass
proof (induction s arbitrary: t)
  case Nil
  then show ?case by (cases t) (auto simp: xml_entity_nonempty)
next
  case (Cons a s)
  then show ?case
    by (cases t) (auto simp: xml_entity_nonempty dest!: xml_entity_prefix_free)
qed

text \<open>
  An escaped attribute value contains no quote and no angle bracket, so it cannot end the attribute or the
  tag; escaping is the replacement of each special character by its entity, and loses nothing.
\<close>

theorem escaped_attr_safe:
  "set (escape_xml_attr s) \<inter> {CHR 0x22, CHR 0x27, CHR ''<'', CHR ''>''} = {} \<and>
   (escape_xml_attr s = escape_xml_attr t \<longleftrightarrow> s = t)"
proof -
  have "set (xml_entity c) \<inter> {CHR 0x22, CHR 0x27, CHR ''<'', CHR ''>''} = {}" for c
    by (simp add: xml_entity_def)
  then show ?thesis using escape_xml_attr_inj by (auto simp: escape_xml_attr_single_pass)
qed

end
