(* ===== verification/Reasoning_Text.thy ===== *)
theory Reasoning_Text
  imports Llm_Types Strings
begin

text \<open>
  What \<open>src/llm/reasoning.rs\<close> does with the text of a model: the context of a request, the detection
  of an announced tool call and of a silent reply, the code regions of a Markdown text, the recovery of
  tool calls written as text, and the removal of tool markup. Parsing JSON
  (\<open>serde_json::from_str\<close>) is the parameter \<open>from_json\<close>. The removal of reasoning tags rests on regular
  expressions and is left out. A position is a byte index; the loops over bytes are functions of the
  index, each with its termination proof.
\<close>

section \<open>The context of a request\<close>

record reasoning_context =
  rx_messages :: "chat_message list"
  rx_available_tools :: "tool_definition list"
  rx_job_description :: "string option"
  rx_current_state :: "string option"
  rx_metadata :: "(string \<times> string) list"
  rx_force_text :: bool
  rx_system_prompt :: "string option"
  rx_model_override :: "string option"

definition reasoning_context_new :: reasoning_context where
  "reasoning_context_new = \<lparr>rx_messages = [], rx_available_tools = [], rx_job_description = None,
     rx_current_state = None, rx_metadata = [], rx_force_text = False, rx_system_prompt = None,
     rx_model_override = None\<rparr>"

definition with_message :: "chat_message \<Rightarrow> reasoning_context \<Rightarrow> reasoning_context" where
  "with_message m x = x\<lparr>rx_messages := rx_messages x @ [m]\<rparr>"

definition with_tools :: "tool_definition list \<Rightarrow> reasoning_context \<Rightarrow> reasoning_context" where
  "with_tools ts x = x\<lparr>rx_available_tools := ts\<rparr>"

record token_usage =
  tu_input_tokens :: "32 word"
  tu_output_tokens :: "32 word"
  tu_cache_read_input_tokens :: "32 word"
  tu_cache_creation_input_tokens :: "32 word"

definition token_usage_total :: "token_usage \<Rightarrow> 32 word" where
  "token_usage_total u = tu_input_tokens u + tu_output_tokens u"

datatype response_anomaly = EmptyToolCompletion | EmptyTextResponse

datatype respond_result = Text string | ToolCalls "tool_call list" "string option"

record respond_output =
  ro_result :: respond_result
  ro_usage :: token_usage
  ro_finish_reason :: finish_reason
  ro_metadata :: "response_anomaly option"

definition SILENT_REPLY_TOKEN :: string where
  "SILENT_REPLY_TOKEN = ''NO_REPLY''"

definition em_dash :: string where
  "em_dash = [CHR 0xE2, CHR 0x80, CHR 0x94]"

definition TOOL_INTENT_NUDGE :: string where
  "TOOL_INTENT_NUDGE =
     ''You said you would perform an action, but you did not include any tool calls.'' @ [newline] @
     ''Do NOT describe what you intend to do '' @ em_dash @ '' actually call the tool now.'' @ [newline] @
     ''Use the tool_calls mechanism to invoke the appropriate tool.''"

definition TRUNCATED_TOOL_CALL_NOTICE :: string where
  "TRUNCATED_TOOL_CALL_NOTICE =
     ''Your previous response was truncated while generating tool call parameters. '' @
     ''The tool calls were discarded. Please try a different approach '' @ em_dash @
     '' summarize or transform the data instead of echoing it verbatim in a tool call.''"

definition RECOVERED_TOOL_CALL_SEED :: nat where
  "RECOVERED_TOOL_CALL_SEED = 99"

section \<open>Announced tool calls and silent replies\<close>

fun strip_quoted :: "bool \<Rightarrow> char \<Rightarrow> string \<Rightarrow> string" where
  "strip_quoted in_quote prev [] = []"
| "strip_quoted in_quote prev (ch # s) =
     (if ch = CHR 0x22 \<and> prev \<noteq> CHR 0x5C then strip_quoted (\<not> in_quote) prev s
      else if in_quote then strip_quoted in_quote ch s
      else ch # strip_quoted in_quote ch s)"

definition strip_quoted_strings :: "string \<Rightarrow> string" where
  "strip_quoted_strings line = strip_quoted False (CHR 0x00) line"

fun strip_code_lines :: "bool \<Rightarrow> string list \<Rightarrow> string" where
  "strip_code_lines in_fence [] = []"
| "strip_code_lines in_fence (line # ls) =
     (if starts_with ''```'' (trim_start line) then strip_code_lines (\<not> in_fence) ls
      else if in_fence then strip_code_lines in_fence ls
      else if starts_with ''    '' line \<or> starts_with [CHR 0x09] line then strip_code_lines in_fence ls
      else strip_quoted_strings line @ [newline] @ strip_code_lines in_fence ls)"

definition strip_code_blocks :: "string \<Rightarrow> string" where
  "strip_code_blocks tx = strip_code_lines False (str_lines tx)"

definition EXCLUSIONS :: "string list" where
  "EXCLUSIONS = [''let me explain'', ''let me know'', ''let me think'', ''let me summarize'', ''let me clarify'',
     ''let me describe'', ''let me help'', ''let me understand'', ''let me break'', ''let me outline'',
     ''let me walk you'', ''let me provide'', ''let me suggest'', ''let me elaborate'', ''let me start by'']"

definition PREFIXES :: "string list" where
  "PREFIXES = [''let me '', ''i'' @ [CHR 0x27] @ ''ll '', ''i will '', ''i'' @ [CHR 0x27] @ ''m going to '']"

definition ACTION_VERBS :: "string list" where
  "ACTION_VERBS = [''search'', ''look up'', ''check'', ''fetch'', ''find'', ''read the'', ''write the'', ''create'',
     ''run the'', ''execute'', ''query'', ''retrieve'', ''add it'', ''add the'', ''add this'', ''add that'',
     ''update the'', ''delete'', ''remove the'', ''look into'']"

definition llm_signals_tool_intent :: "string \<Rightarrow> bool" where
  "llm_signals_tool_intent response =
     (let lower = to_lower (strip_code_blocks response)
      in if list_ex (\<lambda>e. str_contains e lower) EXCLUSIONS then False
         else list_ex (\<lambda>p. list_ex (\<lambda>after. list_ex (\<lambda>verb.
                starts_with verb after \<or> str_contains ('' '' @ verb) after) ACTION_VERBS)
                (match_suffixes p lower)) PREFIXES)"

definition is_ascii_punct :: "char \<Rightarrow> bool" where
  "is_ascii_punct c = (33 \<le> ascii_code c \<and> ascii_code c \<le> 126 \<and> \<not> is_ascii_alnum c)"

definition is_silent_reply :: "string \<Rightarrow> bool" where
  "is_silent_reply tx =
     (let trimmed = trim tx
      in trimmed = SILENT_REPLY_TOKEN \<or>
         starts_with SILENT_REPLY_TOKEN trimmed \<and> length trimmed \<le> length SILENT_REPLY_TOKEN + 4 \<and>
         list_all (\<lambda>c. is_ascii_ws c \<or> is_ascii_punct c) (drop (length SILENT_REPLY_TOKEN) trimmed))"

definition merge_system_messages :: "string \<Rightarrow> chat_message list \<Rightarrow> string" where
  "merge_system_messages primary context_messages =
     (let extra = map cm_content (filter (\<lambda>m. cm_role m = System) context_messages)
      in if extra = [] then primary
         else primary @ [newline, newline] @ ''---'' @ [newline, newline] @ str_join [newline, newline] extra)"

definition extract_json :: "string \<Rightarrow> string option" where
  "extract_json tx =
     (case find_char CHR ''{'' tx of
        None \<Rightarrow> None
      | Some start \<Rightarrow>
          (case rfind_char CHR ''}'' tx of
             None \<Rightarrow> None
           | Some e \<Rightarrow> if start < e then Some (take (Suc e - start) (drop start tx)) else None))"

section \<open>Code regions\<close>

type_synonym code_region = "nat \<times> nat"

definition skip_while :: "(char \<Rightarrow> bool) \<Rightarrow> string \<Rightarrow> nat \<Rightarrow> nat" where
  "skip_while p tx i = i + length (takeWhile p (drop i tx))"

definition is_blank :: "char \<Rightarrow> bool" where
  "is_blank c = (c = CHR '' '' \<or> c = CHR 0x09)"

definition next_line :: "string \<Rightarrow> nat \<Rightarrow> nat option" where
  "next_line tx i = map_option (\<lambda>nl. i + nl + 1) (find_char newline (drop i tx))"

lemma next_line_bounds: "next_line tx i = Some j \<Longrightarrow> i < j \<and> j \<le> length tx"
  by (auto simp: next_line_def dest: find_char_Some)

lemma skip_while_ge: "i \<le> skip_while p tx i"
  by (simp add: skip_while_def)

lemma skip_while_le: "i \<le> length tx \<Longrightarrow> skip_while p tx i \<le> length tx"
  using length_takeWhile_le[of p "drop i tx"] by (simp add: skip_while_def)

text \<open>The end of the line of a closing fence at this line, if it is one.\<close>

definition closing_fence_at :: "string \<Rightarrow> char \<Rightarrow> nat \<Rightarrow> nat \<Rightarrow> nat option" where
  "closing_fence_at tx fence_char fence_len cl_start =
     (let i = skip_while is_blank tx cl_start
      in if i < length tx \<and> tx ! i = fence_char
         then (let j = skip_while (\<lambda>c. c = fence_char) tx i
               in if j - i \<ge> fence_len
                  then (let e = skip_while is_blank tx j
                        in if e \<ge> length tx then Some e
                           else if tx ! e = newline then Some (e + 1)
                           else None)
                  else None)
         else None)"

function find_closing_fence :: "string \<Rightarrow> char \<Rightarrow> nat \<Rightarrow> nat \<Rightarrow> nat option" where
  "find_closing_fence tx fence_char fence_len i =
     (if i < length tx
      then (case closing_fence_at tx fence_char fence_len i of
              Some e \<Rightarrow> Some e
            | None \<Rightarrow>
                (case next_line tx i of
                   Some j \<Rightarrow> find_closing_fence tx fence_char fence_len j
                 | None \<Rightarrow> None))
      else None)"
  by pat_completeness auto
termination
  by (relation "measure (\<lambda>(tx, c, n, i). length tx - i)") (auto dest: next_line_bounds)

declare find_closing_fence.simps [simp del]

lemma closing_fence_at_bounds:
  assumes "closing_fence_at tx c n i = Some e" "0 < n"
  shows "i < e \<and> e \<le> length tx"
proof -
  let ?i = "skip_while is_blank tx i"
  let ?j = "skip_while (\<lambda>x. x = c) tx ?i"
  let ?e = "skip_while is_blank tx ?j"
  from assms have "?i < length tx" "n \<le> ?j - ?i" and e: "e = ?e \<or> ?e < length tx \<and> e = Suc ?e"
    by (auto simp: closing_fence_at_def Let_def split: if_splits)
  moreover have "?i \<ge> i" "?j \<ge> ?i" "?e \<ge> ?j" by (simp_all add: skip_while_ge)
  moreover have "?e \<le> length tx" using calculation by (intro skip_while_le) (simp add: skip_while_le)
  ultimately show ?thesis using assms(2) by linarith
qed

lemma find_closing_fence_bounds:
  "find_closing_fence tx c n i = Some e \<Longrightarrow> 0 < n \<Longrightarrow> i < e \<and> e \<le> length tx"
proof (induction tx c n i rule: find_closing_fence.induct)
  case (1 tx c n i)
  from 1(2) have il: "i < length tx" by (subst (asm) find_closing_fence.simps) (simp split: if_splits)
  show ?case
  proof (cases "closing_fence_at tx c n i")
    case None
    with 1(2) il obtain j where "next_line tx i = Some j" "find_closing_fence tx c n j = Some e"
      by (subst (asm) find_closing_fence.simps) (auto split: option.splits)
    with 1(1)[OF il None] 1(3) show ?thesis by (auto dest: next_line_bounds)
  next
    case (Some e')
    with 1(2) il have "e' = e" by (subst (asm) find_closing_fence.simps) simp
    with Some 1(3) show ?thesis using closing_fence_at_bounds by blast
  qed
qed

function find_fences :: "string \<Rightarrow> nat \<Rightarrow> code_region list \<Rightarrow> code_region list" where
  "find_fences tx i regions =
     (if \<not> i < length tx then regions
      else if 0 < i \<and> tx ! (i - 1) \<noteq> newline
      then (case next_line tx i of Some j \<Rightarrow> find_fences tx j regions | None \<Rightarrow> regions)
      else
        (let k = skip_while is_blank tx i
         in if \<not> (k < length tx \<and> (tx ! k = CHR ''`'' \<or> tx ! k = CHR ''~''))
            then (case next_line tx k of Some j \<Rightarrow> find_fences tx j regions | None \<Rightarrow> regions)
            else
              (let fence_char = tx ! k; m = skip_while (\<lambda>c. c = fence_char) tx k
               in if m - k < 3
                  then (case next_line tx m of Some j \<Rightarrow> find_fences tx j regions | None \<Rightarrow> regions)
                  else
                    (case next_line tx m of
                       None \<Rightarrow> regions @ [(i, length tx)]
                     | Some content_start \<Rightarrow>
                         (case find_closing_fence tx fence_char (m - k) content_start of
                            Some e \<Rightarrow> find_fences tx e (regions @ [(i, e)])
                          | None \<Rightarrow> regions @ [(i, length tx)])))))"
  by pat_completeness auto

lemma find_fences_step:
  "next_line tx (skip_while p tx i) = Some j \<Longrightarrow> i < j"
  "next_line tx (skip_while q tx (skip_while p tx i)) = Some j \<Longrightarrow> i < j"
  using skip_while_ge[of i p tx] skip_while_ge[of "skip_while p tx i" q tx]
  by (auto dest!: next_line_bounds)

lemma find_fences_close:
  assumes "next_line tx (skip_while q tx (skip_while p tx i)) = Some j"
    and "find_closing_fence tx c n j = Some e" "\<not> n < 3"
  shows "i < e \<and> e \<le> length tx"
  using find_fences_step(2)[OF assms(1)] find_closing_fence_bounds[OF assms(2)] assms(3) by linarith

termination find_fences
  by (relation "measure (\<lambda>(tx, i, regions). length tx - i)")
    (auto dest: next_line_bounds find_fences_step find_fences_close intro!: diff_less_mono2)

declare find_fences.simps [simp del]

text \<open>The end of the next run of exactly \<open>n\<close> backticks.\<close>

function find_closing_run :: "string \<Rightarrow> nat \<Rightarrow> nat \<Rightarrow> nat option" where
  "find_closing_run tx n k =
     (if \<not> k < length tx then None
      else if tx ! k \<noteq> CHR ''`'' then find_closing_run tx n (k + 1)
      else (let e = skip_while (\<lambda>c. c = CHR ''`'') tx k
            in if e - k = n then Some e else find_closing_run tx n e))"
  by pat_completeness auto

lemma skip_run: "k < length tx \<Longrightarrow> tx ! k = c \<Longrightarrow> k < skip_while (\<lambda>x. x = c) tx k"
  by (cases "drop k tx") (auto simp: skip_while_def hd_drop_conv_nth[symmetric])

termination find_closing_run
  by (relation "measure (\<lambda>(tx, n, k). length tx - k)") (auto intro!: diff_less_mono2 skip_run)

declare find_closing_run.simps [simp del]

definition is_inside_code :: "nat \<Rightarrow> code_region list \<Rightarrow> bool" where
  "is_inside_code pos regions = list_ex (\<lambda>r. fst r \<le> pos \<and> pos < snd r) regions"

definition overlaps_code_region :: "nat \<Rightarrow> nat \<Rightarrow> code_region list \<Rightarrow> bool" where
  "overlaps_code_region start e regions = list_ex (\<lambda>r. start < snd r \<and> e > fst r) regions"

lemma find_closing_run_bounds:
  "find_closing_run tx n k = Some e \<Longrightarrow> k < e \<and> e \<le> length tx"
proof (induction tx n k rule: find_closing_run.induct)
  case (1 tx n k)
  from 1(3) have k: "k < length tx" by (subst (asm) find_closing_run.simps) (simp split: if_splits)
  show ?case
  proof (cases "tx ! k = CHR ''`''")
    case True
    let ?e = "skip_while (\<lambda>c. c = CHR ''`'') tx k"
    have "k < ?e" "?e \<le> length tx" using k True by (simp_all add: skip_run skip_while_le)
    moreover have "e = ?e \<or> ?e - k \<noteq> n \<and> find_closing_run tx n ?e = Some e"
      using 1(3) k True by (subst (asm) find_closing_run.simps) (auto simp: Let_def split: if_splits)
    ultimately show ?thesis using 1(2) k True by auto
  next
    case False
    then have "find_closing_run tx n (k + 1) = Some e"
      using 1(3) k by (subst (asm) find_closing_run.simps) simp
    with 1(1) k False show ?thesis by auto
  qed
qed

lemma closing_run_after:
  "find_closing_run tx n (skip_while (\<lambda>x. x = c) tx j) = Some e \<Longrightarrow> j < length tx \<Longrightarrow> tx ! j = c \<Longrightarrow> j < e"
  using skip_run[of j tx c] find_closing_run_bounds[of tx n "skip_while (\<lambda>x. x = c) tx j" e] by simp

function inline_spans :: "string \<Rightarrow> nat \<Rightarrow> code_region list \<Rightarrow> code_region list" where
  "inline_spans tx j regions =
     (if \<not> j < length tx then regions
      else if tx ! j \<noteq> CHR ''`'' then inline_spans tx (j + 1) regions
      else if is_inside_code j regions then inline_spans tx (j + 1) regions
      else
        (let m = skip_while (\<lambda>c. c = CHR ''`'') tx j
         in case find_closing_run tx (m - j) m of
              Some e \<Rightarrow> inline_spans tx e (regions @ [(j, e)])
            | None \<Rightarrow> inline_spans tx m regions))"
  by pat_completeness auto
termination
  by (relation "measure (\<lambda>(tx, j, regions). length tx - j)")
    (auto intro!: diff_less_mono2 skip_run dest: closing_run_after)

declare inline_spans.simps [simp del]

definition find_code_regions :: "string \<Rightarrow> code_region list" where
  "find_code_regions tx = sort_key fst (inline_spans tx 0 (find_fences tx 0 []))"

section \<open>Tool calls written as text\<close>

definition line_bounds :: "string \<Rightarrow> nat \<Rightarrow> nat \<times> nat" where
  "line_bounds tx pos =
     (let safe = boundary_before tx (min pos (length tx));
          start = (case rfind_char newline (take safe tx) of Some i \<Rightarrow> i + 1 | None \<Rightarrow> 0);
          e = (case find_char newline (drop safe tx) of Some i \<Rightarrow> safe + i | None \<Rightarrow> length tx)
      in (start, e))"

definition slice :: "string \<Rightarrow> nat \<Rightarrow> nat \<Rightarrow> string" where
  "slice tx a b = take (b - a) (drop a tx)"

definition is_recoverable_tool_call_segment :: "string \<Rightarrow> nat \<Rightarrow> nat \<Rightarrow> code_region list \<Rightarrow> bool" where
  "is_recoverable_tool_call_segment tx start e regions =
     (if overlaps_code_region start e regions then False
      else
        (let (first_line_start, first_line_end) = line_bounds tx start;
             first_line = slice tx first_line_start first_line_end
         in if starts_with ''>'' (trim_start first_line) then False
            else
              (let (_, last_line_end) = line_bounds tx (e - 1)
               in trim (slice tx first_line_start start) = [] \<and> trim (slice tx e last_line_end) = [])))"

definition recovered_call :: "nat \<Rightarrow> string \<Rightarrow> json \<Rightarrow> tool_call" where
  "recovered_call n name arguments =
     \<lparr>tc_id = generate_tool_call_id n RECOVERED_TOOL_CALL_SEED, tc_name = name, tc_arguments = arguments,
      tc_reasoning = None\<rparr>"

text \<open>What one element between an opening and a closing tag adds to the calls.\<close>

definition recover_inner ::
  "(string \<Rightarrow> json option) \<Rightarrow> string list \<Rightarrow> string \<Rightarrow> tool_call list \<Rightarrow> tool_call list" where
  "recover_inner from_json tool_names inner calls =
     (if inner = [] then calls
      else
        (case from_json inner of
           Some v \<Rightarrow>
             (case json_get ''name'' v of
                Some (JString name) \<Rightarrow>
                  if List.member tool_names name
                  then calls @ [recovered_call (length calls) name
                         (case json_get ''arguments'' v of Some a \<Rightarrow> a | None \<Rightarrow> JObject [])]
                  else if List.member tool_names inner then calls @ [recovered_call (length calls) inner (JObject [])]
                  else calls
              | _ \<Rightarrow> if List.member tool_names inner then calls @ [recovered_call (length calls) inner (JObject [])]
                     else calls)
         | None \<Rightarrow> if List.member tool_names inner then calls @ [recovered_call (length calls) inner (JObject [])]
                   else calls))"

lemma find_sub_in_rest: "find_sub p (drop k s) = Some i \<Longrightarrow> p \<noteq> [] \<Longrightarrow> k < length s"
  using find_sub_Some[of p "drop k s" i] by (cases p) auto

function recover_tagged ::
  "(string \<Rightarrow> json option) \<Rightarrow> string list \<Rightarrow> code_region list \<Rightarrow> string \<Rightarrow> string \<Rightarrow> string \<Rightarrow> nat \<Rightarrow>
   tool_call list \<Rightarrow> tool_call list" where
  "recover_tagged from_json tool_names regions content begin_tag end_tag search_from calls =
     (if begin_tag = [] then calls
      else
        (case find_sub begin_tag (drop search_from content) of
           None \<Rightarrow> calls
         | Some offset \<Rightarrow>
             (let start = search_from + offset; inner_start = start + length begin_tag
              in case find_sub end_tag (drop inner_start content) of
                   None \<Rightarrow> calls
                 | Some end_offset \<Rightarrow>
                     (let e = inner_start + end_offset; segment_end = e + length end_tag
                      in recover_tagged from_json tool_names regions content begin_tag end_tag segment_end
                           (if is_recoverable_tool_call_segment content start segment_end regions
                            then recover_inner from_json tool_names (trim (slice content inner_start e)) calls
                            else calls)))))"
  by pat_completeness auto
termination
  by (relation "measure (\<lambda>(f, ns, rs, content, a, b, i, calls). length content - i)")
    (auto intro!: diff_less_mono2 dest: find_sub_in_rest)

declare recover_tagged.simps [simp del]

definition CALLED_TOOL :: string where
  "CALLED_TOOL = ''[Called tool `''"

function recover_brackets ::
  "(string \<Rightarrow> json option) \<Rightarrow> string list \<Rightarrow> string \<Rightarrow> tool_call list \<Rightarrow> tool_call list" where
  "recover_brackets from_json tool_names remaining calls =
     (case find_sub CALLED_TOOL remaining of
        None \<Rightarrow> calls
      | Some start \<Rightarrow>
          (let after_prefix = drop (start + length CALLED_TOOL) remaining
           in case find_char CHR ''`'' after_prefix of
                None \<Rightarrow> calls
              | Some backtick_end \<Rightarrow>
                  (let name = take backtick_end after_prefix; after_name = drop (backtick_end + 1) after_prefix
                   in if \<not> List.member tool_names name then recover_brackets from_json tool_names after_name calls
                      else
                        (case strip_prefix '' with arguments: '' after_name of
                           Some args_start \<Rightarrow>
                             (case rfind_char CHR '']'' args_start of
                                Some bracket_end \<Rightarrow>
                                  recover_brackets from_json tool_names (drop (bracket_end + 1) args_start)
                                    (calls @ [recovered_call (length calls) name
                                       (case from_json (take bracket_end args_start) of Some a \<Rightarrow> a | None \<Rightarrow> JObject [])])
                              | None \<Rightarrow>
                                  recover_brackets from_json tool_names after_name
                                    (calls @ [recovered_call (length calls) name (JObject [])]))
                         | None \<Rightarrow>
                             recover_brackets from_json tool_names after_name
                               (calls @ [recovered_call (length calls) name (JObject [])])))))"
  by pat_completeness auto

lemma recover_brackets_shrinks:
  assumes "find_sub CALLED_TOOL r = Some i" "find_char CHR ''`'' (drop (i + length CALLED_TOOL) r) = Some b"
  shows "length (drop (b + 1) (drop (i + length CALLED_TOOL) r)) < length r"
  using find_sub_Some[OF assms(1)] find_char_Some[OF assms(2)] by auto

lemma strip_prefix_shrinks: "strip_prefix p s = Some r \<Longrightarrow> length (drop n r) \<le> length s"
  by (auto simp: strip_prefix_Some)

lemma recover_brackets_args:
  assumes "find_sub CALLED_TOOL r = Some i" "find_char CHR ''`'' (drop (i + length CALLED_TOOL) r) = Some b"
    and "strip_prefix p (drop (b + 1) (drop (i + length CALLED_TOOL) r)) = Some a"
  shows "length (drop n a) < length r"
  using recover_brackets_shrinks[OF assms(1,2)] strip_prefix_shrinks[OF assms(3), of n] by linarith

termination recover_brackets
  by (relation "measure (\<lambda>(f, ns, r, calls). length r)")
    (use recover_brackets_shrinks recover_brackets_args in \<open>auto simp del: length_drop drop_drop\<close>)

declare recover_brackets.simps [simp del]

definition TOOL_CALL_TAGS :: "(string \<times> string) list" where
  "TOOL_CALL_TAGS = [(''<tool_call>'', ''</tool_call>''), (''<|tool_call|>'', ''<|/tool_call|>''),
     (''<function_call>'', ''</function_call>''), (''<|function_call|>'', ''<|/function_call|>'')]"

definition recover_tool_calls_from_content ::
  "(string \<Rightarrow> json option) \<Rightarrow> string \<Rightarrow> tool_definition list \<Rightarrow> tool_call list" where
  "recover_tool_calls_from_content from_json content available_tools =
     (let tool_names = map td_name available_tools;
          regions = find_code_regions content;
          calls = fold (\<lambda>(a, b). recover_tagged from_json tool_names regions content a b 0) TOOL_CALL_TAGS []
      in recover_brackets from_json tool_names content calls)"

section \<open>Removing tool markup\<close>

definition TOOL_TAGS :: "string list" where
  "TOOL_TAGS = [''tool_call'', ''function_call'', ''tool_calls'']"

definition TOOL_TAG_PATTERNS :: "string list" where
  "TOOL_TAG_PATTERNS = [''<tool_call>'', ''<tool_call '', ''<function_call>'', ''<function_call '', ''<tool_calls>'',
     ''<tool_calls '', ''<|tool_call|>'', ''<|function_call|>'', ''<|tool_calls|>'']"

definition closing_tag_for :: "string \<Rightarrow> string option" where
  "closing_tag_for open_pattern =
     (case Option.bind (strip_prefix ''<|'' open_pattern) (strip_suffix ''|>'') of
        Some name \<Rightarrow> Some (''<|/'' @ name @ ''|>'')
      | None \<Rightarrow>
          (case strip_prefix ''<'' open_pattern of
             Some rest \<Rightarrow> Some (''</'' @ trim (trim_end_char CHR ''>'' rest) @ ''>'')
           | None \<Rightarrow> None))"

definition is_closed_after :: "string \<Rightarrow> string \<Rightarrow> nat \<Rightarrow> bool" where
  "is_closed_after lower p after_open =
     (case closing_tag_for p of Some c \<Rightarrow> str_contains c (drop after_open lower) | None \<Rightarrow> False)"

function first_unclosed :: "string \<Rightarrow> code_region list \<Rightarrow> string \<Rightarrow> nat \<Rightarrow> nat option" where
  "first_unclosed lower regions p search_from =
     (if p = [] then None
      else
        (case find_sub p (drop search_from lower) of
           None \<Rightarrow> None
         | Some offset \<Rightarrow>
             (let pos = search_from + offset
              in if is_inside_code pos regions then first_unclosed lower regions p (pos + 1)
                 else if is_closed_after lower p (pos + length p)
                 then first_unclosed lower regions p (pos + length p)
                 else Some pos)))"
  by pat_completeness auto
termination
  by (relation "measure (\<lambda>(lower, rs, p, i). length lower - i)")
    (auto intro!: diff_less_mono2 dest: find_sub_in_rest)

declare first_unclosed.simps [simp del]

definition truncate_at_tool_tags :: "string \<Rightarrow> string" where
  "truncate_at_tool_tags tx =
     (let regions = find_code_regions tx; lower = to_lower tx
      in case List.map_filter (\<lambda>p. first_unclosed lower regions p 0) TOOL_TAG_PATTERNS of
           [] \<Rightarrow> tx
         | pos # ps \<Rightarrow> take (fold min ps pos) tx)"

definition option_min :: "nat option \<Rightarrow> nat option \<Rightarrow> nat option" where
  "option_min a b =
     (case (a, b) of
        (Some x, Some y) \<Rightarrow> Some (min x y)
      | (Some x, None) \<Rightarrow> Some x
      | (None, Some y) \<Rightarrow> Some y
      | (None, None) \<Rightarrow> None)"

text \<open>
  The loop of \<open>strip_xml_tag\<close> from the current rest; what it has appended so far is the first argument.
  A loop that ends without a match, or with an opening tag that has no bracket, appends the whole rest.
\<close>

function strip_xml_loop :: "string \<Rightarrow> string \<Rightarrow> string \<Rightarrow> string" where
  "strip_xml_loop tag result remaining =
     (case option_min (find_sub (''<'' @ tag @ ''>'') remaining) (find_sub (''<'' @ tag @ '' '') remaining) of
        None \<Rightarrow> result @ remaining
      | Some start \<Rightarrow>
          (case find_char CHR ''>'' (drop start remaining) of
             None \<Rightarrow> (result @ take start remaining) @ remaining
           | Some pos \<Rightarrow>
               (case find_sub (''</'' @ tag @ ''>'') (drop (start + pos + 1) remaining) of
                  Some close_offset \<Rightarrow>
                    strip_xml_loop tag (result @ take start remaining)
                      (drop (start + pos + 1 + close_offset + length (''</'' @ tag @ ''>'')) remaining)
                | None \<Rightarrow> result @ take start remaining)))"
  by pat_completeness auto

termination strip_xml_loop
  by (relation "measure (\<lambda>(tag, result, r). length r)") (auto dest!: find_sub_in_rest)

declare strip_xml_loop.simps [simp del]

definition strip_xml_tag :: "string \<Rightarrow> string \<Rightarrow> string" where
  "strip_xml_tag tx tag = strip_xml_loop tag [] tx"

function strip_pipe_loop :: "string \<Rightarrow> string \<Rightarrow> string \<Rightarrow> string" where
  "strip_pipe_loop tag result remaining =
     (case find_sub (''<|'' @ tag @ ''|>'') remaining of
        None \<Rightarrow> result @ remaining
      | Some start \<Rightarrow>
          (case find_sub (''<|/'' @ tag @ ''|>'') (drop start remaining) of
             Some close_offset \<Rightarrow>
               strip_pipe_loop tag (result @ take start remaining)
                 (drop (start + close_offset + length (''<|/'' @ tag @ ''|>'')) remaining)
           | None \<Rightarrow> result @ take start remaining))"
  by pat_completeness auto
termination
  by (relation "measure (\<lambda>(tag, result, r). length r)") (auto dest!: find_sub_Some)

declare strip_pipe_loop.simps [simp del]

definition strip_pipe_tag :: "string \<Rightarrow> string \<Rightarrow> string" where
  "strip_pipe_tag tx tag = strip_pipe_loop tag [] tx"

function strip_bracket_loop :: "string \<Rightarrow> string \<Rightarrow> string" where
  "strip_bracket_loop result remaining =
     (case find_sub CALLED_TOOL remaining of
        None \<Rightarrow> result @ remaining
      | Some start \<Rightarrow>
          (let after = drop start remaining
           in case (case find_sub ('']'' @ [newline]) after of
                      Some i \<Rightarrow> Some (i + 2)
                    | None \<Rightarrow> map_option (\<lambda>i. i + 1) (rfind_char CHR '']'' after)) of
                Some e \<Rightarrow> strip_bracket_loop (result @ take start remaining) (drop e after)
              | None \<Rightarrow> result @ take start remaining @ after))"
  by pat_completeness auto

lemma strip_bracket_shrinks: "find_sub CALLED_TOOL r = Some i \<Longrightarrow> 0 < e \<Longrightarrow> length (drop e (drop i r)) < length r"
  using find_sub_Some[of CALLED_TOOL r i] by (auto simp: CALLED_TOOL_def)

termination strip_bracket_loop
  by (relation "measure (\<lambda>(result, r). length r)")
    (use strip_bracket_shrinks in \<open>auto simp del: length_drop drop_drop split: option.splits\<close>)

declare strip_bracket_loop.simps [simp del]

definition strip_bracket_tool_calls :: "string \<Rightarrow> string" where
  "strip_bracket_tool_calls tx = strip_bracket_loop [] tx"

text \<open>One pass of \<open>replace\<close> of three line feeds by two, from left to right.\<close>

fun replace_triple :: "string \<Rightarrow> string" where
  "replace_triple (a # b # c # s) =
     (if a = newline \<and> b = newline \<and> c = newline then newline # newline # replace_triple s
      else a # replace_triple (b # c # s))"
| "replace_triple s = s"

definition triple :: string where
  "triple = [newline, newline, newline]"

lemma length_replace_triple: "length (replace_triple s) \<le> length s"
  by (induction s rule: replace_triple.induct) auto

lemma replace_triple_less: "sublist triple s \<Longrightarrow> length (replace_triple s) < length s"
proof (induction s rule: replace_triple.induct)
  case (1 a b c s)
  show ?case
  proof (cases "a = newline \<and> b = newline \<and> c = newline")
    case True
    then show ?thesis using length_replace_triple[of s] by simp
  next
    case False
    then have "sublist triple (b # c # s)" using 1(3) by (auto simp: sublist_Cons_right triple_def)
    then show ?thesis using 1(2) False by auto
  qed
qed (auto simp: triple_def sublist_Cons_right)

function collapse_loop :: "string \<Rightarrow> string" where
  "collapse_loop s = (if str_contains triple s then collapse_loop (replace_triple s) else s)"
  by pat_completeness auto
termination
  by (relation "measure length") (auto simp: str_contains_def replace_triple_less)

declare collapse_loop.simps [simp del]

definition collapse_newlines :: "string \<Rightarrow> string" where
  "collapse_newlines tx = trim (collapse_loop tx)"

text \<open>The last steps of \<open>clean_response\<close>, after the reasoning tags.\<close>

definition clean_tool_markup :: "string \<Rightarrow> string" where
  "clean_tool_markup tx =
     collapse_newlines (strip_bracket_tool_calls
       (fold (\<lambda>tag r. strip_pipe_tag (strip_xml_tag r tag) tag) TOOL_TAGS tx))"

section \<open>Code regions are well formed\<close>

definition region_ok :: "string \<Rightarrow> code_region \<Rightarrow> bool" where
  "region_ok tx r = (fst r < snd r \<and> snd r \<le> length tx)"

definition regions_ok :: "string \<Rightarrow> code_region list \<Rightarrow> bool" where
  "regions_ok tx rs = list_all (region_ok tx) rs"

lemma regions_ok_snoc: "regions_ok tx (rs @ [(i, e)]) \<longleftrightarrow> regions_ok tx rs \<and> i < e \<and> e \<le> length tx"
  by (simp add: regions_ok_def region_ok_def)

lemma find_fences_ok: "regions_ok tx regions \<Longrightarrow> regions_ok tx (find_fences tx i regions)"
proof (induction tx i regions rule: find_fences.induct)
  case (1 tx i regions)
  show ?case
  proof (cases "i < length tx \<and> \<not> (0 < i \<and> tx ! (i - 1) \<noteq> newline)")
    case False
    then show ?thesis using 1(1,5) by (subst find_fences.simps) (auto split: option.split)
  next
    case line: True
    let ?k = "skip_while is_blank tx i"
    let ?m = "skip_while (\<lambda>c. c = tx ! ?k) tx ?k"
    show ?thesis
    proof (cases "?k < length tx \<and> (tx ! ?k = CHR ''`'' \<or> tx ! ?k = CHR ''~'') \<and> \<not> ?m - ?k < 3")
      case False
      then show ?thesis using 1(2,3,5) line
        by (subst find_fences.simps) (simp add: Let_def split: option.split; blast)
    next
      case True
      then show ?thesis using 1(4,5) line find_fences_close[of tx "\<lambda>c. c = tx ! ?k" is_blank i]
        by (subst find_fences.simps) (auto simp: Let_def regions_ok_snoc split: option.split)
    qed
  qed
qed

lemma inline_spans_ok: "regions_ok tx regions \<Longrightarrow> regions_ok tx (inline_spans tx j regions)"
proof (induction tx j regions rule: inline_spans.induct)
  case (1 tx j regions)
  then show ?case
    by (subst inline_spans.simps)
      (auto simp: Let_def regions_ok_snoc split: option.split dest: closing_run_after find_closing_run_bounds)
qed

text \<open>
  The scanner of code regions ends on every text, and the regions it returns are non-empty byte ranges within
  the text, ordered by their start.
\<close>

theorem code_regions_well_formed:
  "sorted (map fst (find_code_regions tx)) \<and>
   set (find_code_regions tx) \<subseteq> {r. fst r < snd r \<and> snd r \<le> length tx}"
  using inline_spans_ok[of tx "find_fences tx 0 []" 0] find_fences_ok[of tx "[]" 0]
  by (auto simp: find_code_regions_def regions_ok_def region_ok_def list_all_iff)

section \<open>Recovered calls\<close>

definition recovered_ok :: "string list \<Rightarrow> tool_call list \<Rightarrow> bool" where
  "recovered_ok names calls =
     (map tc_id calls = map (\<lambda>n. generate_tool_call_id n RECOVERED_TOOL_CALL_SEED) [0..<length calls] \<and>
      tc_name ` set calls \<subseteq> set names)"

lemma recovered_ok_Nil [simp]: "recovered_ok names []"
  by (simp add: recovered_ok_def)

lemma recovered_ok_snoc:
  "recovered_ok names calls \<Longrightarrow> name \<in> set names \<Longrightarrow>
   recovered_ok names (calls @ [recovered_call (length calls) name args])"
  by (simp add: recovered_ok_def recovered_call_def)

lemma recover_inner_ok: "recovered_ok names calls \<Longrightarrow> recovered_ok names (recover_inner f names inner calls)"
  by (auto simp: recover_inner_def intro!: recovered_ok_snoc split: option.split json.split)

lemma recover_tagged_ok:
  "recovered_ok names calls \<Longrightarrow> recovered_ok names (recover_tagged f names rs content a b i calls)"
proof (induction f names rs content a b i calls rule: recover_tagged.induct)
  case (1 f names rs content a b i calls)
  show ?case
    using 1 by (subst recover_tagged.simps) (auto simp: Let_def recover_inner_ok split: option.split)
qed

lemma recover_brackets_ok: "recovered_ok names calls \<Longrightarrow> recovered_ok names (recover_brackets f names r calls)"
proof (induction f names r calls rule: recover_brackets.induct)
  case (1 f names r calls)
  show ?case
    using 1 by (subst recover_brackets.simps) (auto simp: Let_def recovered_ok_snoc split: option.split)
qed

text \<open>
  Whatever the text of the model contains and however its JSON parses, every tool call recovered from it names
  an available tool, and the calls carry the generated ids of their positions.
\<close>

theorem recovered_calls_known:
  "let calls = recover_tool_calls_from_content from_json content tools in
   tc_name ` set calls \<subseteq> td_name ` set tools \<and>
   map tc_id calls = map (\<lambda>n. generate_tool_call_id n RECOVERED_TOOL_CALL_SEED) [0..<length calls]"
proof -
  let ?names = "map td_name tools"
  have "recovered_ok ?names (fold (\<lambda>(a, b). recover_tagged from_json ?names rs content a b 0) tags calls)"
    if "recovered_ok ?names calls" for rs tags calls
    using that by (induction tags arbitrary: calls) (auto simp: recover_tagged_ok)
  then have "recovered_ok ?names (recover_tool_calls_from_content from_json content tools)"
    by (simp add: recover_tool_calls_from_content_def recover_brackets_ok Let_def)
  then show ?thesis by (simp add: recovered_ok_def)
qed

section \<open>Removed markup\<close>

lemma collapse_loop_no_triple: "\<not> sublist triple (collapse_loop s)"
proof (induction s rule: collapse_loop.induct)
  case (1 s)
  then show ?case by (subst collapse_loop.simps) (simp add: str_contains_def)
qed

lemma sublist_trim: "sublist (trim s) s"
proof -
  let ?t = "dropWhile is_ascii_ws s"
  have "suffix ?t s" by (rule suffix_dropWhile)
  moreover have "prefix (rev (dropWhile is_ascii_ws (rev ?t))) ?t"
    using suffix_dropWhile[of is_ascii_ws "rev ?t"] by (simp add: suffix_to_prefix)
  ultimately show ?thesis unfolding trim_def by (meson prefix_imp_sublist suffix_imp_sublist sublist_order.order_trans)
qed

text \<open>
  The loop that collapses empty lines ends, and its result contains no run of three line feeds.
\<close>

theorem collapse_newlines_no_triple: "\<not> str_contains triple (collapse_newlines tx)"
  using collapse_loop_no_triple[of tx] sublist_trim[of "collapse_loop tx"]
  by (auto simp: collapse_newlines_def str_contains_def intro: sublist_order.order_trans)

lemma first_unclosed_Some:
  "first_unclosed lower rs p i = Some pos \<Longrightarrow>
   prefix p (drop pos lower) \<and> \<not> is_inside_code pos rs \<and> \<not> is_closed_after lower p (pos + length p)"
proof (induction lower rs p i rule: first_unclosed.induct)
  case (1 lower rs p i)
  from 1(3) obtain k where k: "p \<noteq> []" "find_sub p (drop i lower) = Some k"
    by (subst (asm) first_unclosed.simps) (auto split: if_splits option.splits)
  consider (code) "is_inside_code (i + k) rs" "first_unclosed lower rs p (i + k + 1) = Some pos"
    | (closed) "\<not> is_inside_code (i + k) rs" "is_closed_after lower p (i + k + length p)"
        "first_unclosed lower rs p (i + k + length p) = Some pos"
    | (here) "pos = i + k" "\<not> is_inside_code pos rs" "\<not> is_closed_after lower p (pos + length p)"
    using 1(3) k by (subst (asm) first_unclosed.simps) (auto simp: Let_def split: if_splits)
  then show ?case
  proof cases
    case code
    then show ?thesis using 1(1) k by blast
  next
    case closed
    then show ?thesis using 1(2) k by blast
  next
    case here
    then show ?thesis using find_sub_Some[OF k(2)] by (simp add: add.commute)
  qed
qed

lemma fold_min_in: "fold min ps (p::nat) \<in> set (p # ps)"
  by (induction ps arbitrary: p) (auto simp: min_def)

text \<open>
  Truncation keeps a prefix of the text. When it removes something, the removed part begins, up to letter
  case, with a tool tag that stands outside code and has no closing tag after it.
\<close>

theorem truncation_at_unclosed_tag:
  assumes "truncate_at_tool_tags tx \<noteq> tx"
  shows "\<exists>pos p. truncate_at_tool_tags tx = take pos tx \<and> p \<in> set TOOL_TAG_PATTERNS \<and>
    prefix p (to_lower (drop pos tx)) \<and> \<not> is_inside_code pos (find_code_regions tx) \<and>
    \<not> is_closed_after (to_lower tx) p (pos + length p)"
proof -
  let ?f = "\<lambda>p. first_unclosed (to_lower tx) (find_code_regions tx) p 0"
  obtain pos ps where ps: "List.map_filter ?f TOOL_TAG_PATTERNS = pos # ps"
    "truncate_at_tool_tags tx = take (fold min ps pos) tx"
    using assms by (auto simp: truncate_at_tool_tags_def Let_def split: list.splits)
  then have "fold min ps pos \<in> set (List.map_filter ?f TOOL_TAG_PATTERNS)"
    using fold_min_in[of ps pos] by simp
  then obtain p where p: "p \<in> set TOOL_TAG_PATTERNS" "?f p = Some (fold min ps pos)"
    by (auto simp: List.map_filter_def)
  with ps(2) first_unclosed_Some[OF p(2)] show ?thesis
    by (intro exI[of _ "fold min ps pos"] exI[of _ p]) (simp add: to_lower_def drop_map)
qed

theorem truncation_at_unclosed_tag_witness:
  "\<exists>pos p. truncate_at_tool_tags ''Hi <TOOL_CALL>{'' = take pos ''Hi <TOOL_CALL>{'' \<and> p \<in> set TOOL_TAG_PATTERNS \<and>
    prefix p (to_lower (drop pos ''Hi <TOOL_CALL>{''))"
proof -
  have "truncate_at_tool_tags ''Hi <TOOL_CALL>{'' = ''Hi ''" by code_simp
  then show ?thesis using truncation_at_unclosed_tag[of "''Hi <TOOL_CALL>{''"] by auto
qed

text \<open>
  An opening tool tag with attributes in a text without a closing angle bracket is not removed: the text before
  it is repeated.
\<close>

theorem strip_xml_tag_duplicates:
  assumes "find_sub (''<'' @ tag @ '' '') tx = Some i" "CHR ''>'' \<notin> set tx"
  shows "strip_xml_tag tx tag = take i tx @ tx"
proof -
  have "find_sub (''<'' @ tag @ ''>'') tx = None"
    using assms(2) by (auto simp: find_sub_None dest: set_mono_sublist)
  moreover have "find_char CHR ''>'' (drop i tx) = None"
    using assms(2) by (auto simp: find_char_None dest: in_set_dropD)
  ultimately show ?thesis
    using assms(1) unfolding strip_xml_tag_def
    by (subst strip_xml_loop.simps) (simp add: option_min_def)
qed

theorem strip_xml_tag_duplicates_witness:
  "strip_xml_tag ''Hi `<tool_call x`'' ''tool_call'' = ''Hi `Hi `<tool_call x`''"
  using strip_xml_tag_duplicates[of "''tool_call''" "''Hi `<tool_call x`''" 4] by simp

end
