(* ===== verification/Agentic_Loop.thy ===== *)
theory Agentic_Loop
  imports Reasoning_Text
begin

text \<open>
  The agentic loop, \<open>src/agent/agentic_loop.rs\<close>: ask the model, execute its tool calls or handle its text,
  repeat. The consumer of the loop (chat, job worker or container) implements the trait \<open>LoopDelegate\<close>;
  here a delegate is a record of functions on a state of its own, the request context being passed
  where the code passes \<open>&mut ReasoningContext\<close>. The content of a pending approval and of an error of
  the delegate are type parameters.
\<close>

section \<open>Model\<close>

datatype loop_signal = SigContinue | SigStop | SigInjectMessage string

datatype 'a loop_outcome =
    Response string
  | Stopped
  | MaxIterations
  | Failure string
  | NeedApproval 'a

datatype 'a text_action = TextReturn "'a loop_outcome" | TextContinue

record agentic_loop_config =
  al_max_iterations :: nat
  al_enable_tool_intent_nudge :: bool
  al_max_tool_intent_nudges :: nat

definition agentic_loop_config_default :: agentic_loop_config where
  "agentic_loop_config_default =
     \<lparr>al_max_iterations = 50, al_enable_tool_intent_nudge = True, al_max_tool_intent_nudges = 2\<rparr>"

record ('d, 'e, 'a) loop_delegate =
  dl_check_signals :: "'d \<Rightarrow> loop_signal \<times> 'd"
  dl_before_llm_call :: "nat \<Rightarrow> reasoning_context \<times> 'd \<Rightarrow> 'a loop_outcome option \<times> reasoning_context \<times> 'd"
  dl_call_llm :: "nat \<Rightarrow> reasoning_context \<times> 'd \<Rightarrow> ('e, respond_output) result \<times> reasoning_context \<times> 'd"
  dl_handle_text_response ::
    "string \<Rightarrow> response_anomaly option \<Rightarrow> reasoning_context \<times> 'd \<Rightarrow> 'a text_action \<times> reasoning_context \<times> 'd"
  dl_execute_tool_calls ::
    "tool_call list \<Rightarrow> string option \<Rightarrow> reasoning_context \<times> 'd \<Rightarrow>
     ('e, 'a loop_outcome option) result \<times> reasoning_context \<times> 'd"
  dl_on_tool_intent_nudge :: "string \<Rightarrow> reasoning_context \<times> 'd \<Rightarrow> reasoning_context \<times> 'd"
  dl_after_iteration :: "nat \<Rightarrow> 'd \<Rightarrow> 'd"

text \<open>
  The counters of the loop and what it works on; \<open>ls_calls\<close> counts the calls of the model and
  \<open>ls_executed\<close> collects the tool calls given to the delegate.
\<close>

record 'd loop_state =
  ls_nudges :: nat
  ls_truncations :: nat
  ls_ctx :: reasoning_context
  ls_delegate :: 'd
  ls_calls :: nat
  ls_executed :: "tool_call list list"

definition push_messages :: "chat_message list \<Rightarrow> reasoning_context \<Rightarrow> reasoning_context" where
  "push_messages ms x = x\<lparr>rx_messages := rx_messages x @ ms\<rparr>"

definition set_ctx :: "reasoning_context \<times> 'd \<Rightarrow> 'd loop_state \<Rightarrow> 'd loop_state" where
  "set_ctx xd s = s\<lparr>ls_ctx := fst xd, ls_delegate := snd xd\<rparr>"

text \<open>What an iteration does: the loop goes on, or it ends with an outcome or an error.\<close>

datatype ('e, 'a) step_result = Next | Done "('e, 'a loop_outcome) result"

definition after_iteration :: "('d, 'e, 'a) loop_delegate \<Rightarrow> nat \<Rightarrow> 'd loop_state \<Rightarrow> 'd loop_state" where
  "after_iteration dl iteration s = s\<lparr>ls_delegate := dl_after_iteration dl iteration (ls_delegate s)\<rparr>"

definition should_nudge :: "agentic_loop_config \<Rightarrow> string \<Rightarrow> 'd loop_state \<Rightarrow> bool" where
  "should_nudge cfg tx s =
     (al_enable_tool_intent_nudge cfg \<and> rx_available_tools (ls_ctx s) \<noteq> [] \<and> \<not> rx_force_text (ls_ctx s) \<and>
      ls_nudges s < al_max_tool_intent_nudges cfg \<and> llm_signals_tool_intent tx)"

definition handle_text ::
  "('d, 'e, 'a) loop_delegate \<Rightarrow> agentic_loop_config \<Rightarrow> nat \<Rightarrow> string \<Rightarrow> response_anomaly option \<Rightarrow>
   'd loop_state \<Rightarrow> ('e, 'a) step_result \<times> 'd loop_state" where
  "handle_text dl cfg iteration tx metadata s =
     (if should_nudge cfg tx s
      then
        (let s1 = set_ctx (dl_on_tool_intent_nudge dl tx (ls_ctx s, ls_delegate s)) (s\<lparr>ls_nudges := ls_nudges s + 1\<rparr>);
             s2 = s1\<lparr>ls_ctx := push_messages [msg_assistant tx, msg_user TOOL_INTENT_NUDGE] (ls_ctx s1)\<rparr>
         in (Next, after_iteration dl iteration s2))
      else
        (let s1 = (if \<not> llm_signals_tool_intent tx then s\<lparr>ls_nudges := 0\<rparr> else s)
         in case dl_handle_text_response dl tx metadata (ls_ctx s1, ls_delegate s1) of
              (TextReturn outcome, xd) \<Rightarrow> (Done (Inr outcome), set_ctx xd s1)
            | (TextContinue, xd) \<Rightarrow> (Next, after_iteration dl iteration (set_ctx xd s1))))"

definition discard_truncated ::
  "('d, 'e, 'a) loop_delegate \<Rightarrow> nat \<Rightarrow> string option \<Rightarrow> 'd loop_state \<Rightarrow> 'd loop_state" where
  "discard_truncated dl iteration content s =
     (let n = ls_truncations s + 1;
          ms = (case content of Some tx \<Rightarrow> [msg_assistant tx] | None \<Rightarrow> []) @ [msg_user TRUNCATED_TOOL_CALL_NOTICE];
          x = push_messages ms (ls_ctx s);
          x' = (if n \<ge> 3 then x\<lparr>rx_force_text := True\<rparr> else x)
      in after_iteration dl iteration (s\<lparr>ls_truncations := n, ls_ctx := x'\<rparr>))"

definition handle_tool_calls ::
  "('d, 'e, 'a) loop_delegate \<Rightarrow> nat \<Rightarrow> tool_call list \<Rightarrow> string option \<Rightarrow> finish_reason \<Rightarrow>
   'd loop_state \<Rightarrow> ('e, 'a) step_result \<times> 'd loop_state" where
  "handle_tool_calls dl iteration tool_calls content finish s =
     (if finish = Length then (Next, discard_truncated dl iteration content s)
      else
        (let s1 = s\<lparr>ls_nudges := 0, ls_truncations := 0, ls_executed := ls_executed s @ [tool_calls]\<rparr>
         in case dl_execute_tool_calls dl tool_calls content (ls_ctx s1, ls_delegate s1) of
              (Inl e, xd) \<Rightarrow> (Done (Inl e), set_ctx xd s1)
            | (Inr (Some outcome), xd) \<Rightarrow> (Done (Inr outcome), set_ctx xd s1)
            | (Inr None, xd) \<Rightarrow> (Next, after_iteration dl iteration (set_ctx xd s1))))"

definition ask_model ::
  "('d, 'e, 'a) loop_delegate \<Rightarrow> agentic_loop_config \<Rightarrow> nat \<Rightarrow> 'd loop_state \<Rightarrow> ('e, 'a) step_result \<times> 'd loop_state" where
  "ask_model dl cfg iteration s =
     (case dl_before_llm_call dl iteration (ls_ctx s, ls_delegate s) of
        (Some outcome, xd) \<Rightarrow> (Done (Inr outcome), set_ctx xd s)
      | (None, xd) \<Rightarrow>
          (let s1 = (set_ctx xd s)\<lparr>ls_calls := ls_calls s + 1\<rparr>
           in case dl_call_llm dl iteration (ls_ctx s1, ls_delegate s1) of
                (Inl e, xd') \<Rightarrow> (Done (Inl e), set_ctx xd' s1)
              | (Inr output, xd') \<Rightarrow>
                  (case ro_result output of
                     Text tx \<Rightarrow> handle_text dl cfg iteration tx (ro_metadata output) (set_ctx xd' s1)
                   | ToolCalls tool_calls content \<Rightarrow>
                       handle_tool_calls dl iteration tool_calls content (ro_finish_reason output) (set_ctx xd' s1))))"

definition loop_iteration ::
  "('d, 'e, 'a) loop_delegate \<Rightarrow> agentic_loop_config \<Rightarrow> nat \<Rightarrow> 'd loop_state \<Rightarrow> ('e, 'a) step_result \<times> 'd loop_state" where
  "loop_iteration dl cfg iteration s =
     (case dl_check_signals dl (ls_delegate s) of
        (SigStop, d) \<Rightarrow> (Done (Inr Stopped), s\<lparr>ls_delegate := d\<rparr>)
      | (SigContinue, d) \<Rightarrow> ask_model dl cfg iteration (s\<lparr>ls_delegate := d\<rparr>)
      | (SigInjectMessage msg, d) \<Rightarrow>
          ask_model dl cfg iteration (s\<lparr>ls_delegate := d, ls_ctx := push_messages [msg_user msg] (ls_ctx s)\<rparr>))"

text \<open>The loop over the iterations from \<open>iteration\<close> on, \<open>left\<close> of them at most.\<close>

fun run_from ::
  "('d, 'e, 'a) loop_delegate \<Rightarrow> agentic_loop_config \<Rightarrow> nat \<Rightarrow> nat \<Rightarrow> 'd loop_state \<Rightarrow>
   ('e, 'a loop_outcome) result \<times> 'd loop_state" where
  "run_from dl cfg iteration 0 s = (Inr MaxIterations, s)"
| "run_from dl cfg iteration (Suc n) s =
     (case loop_iteration dl cfg iteration s of
        (Done r, s') \<Rightarrow> (r, s')
      | (Next, s') \<Rightarrow> run_from dl cfg (iteration + 1) n s')"

definition loop_start :: "reasoning_context \<Rightarrow> 'd \<Rightarrow> 'd loop_state" where
  "loop_start x d = \<lparr>ls_nudges = 0, ls_truncations = 0, ls_ctx = x, ls_delegate = d, ls_calls = 0, ls_executed = []\<rparr>"

definition run_agentic_loop ::
  "('d, 'e, 'a) loop_delegate \<Rightarrow> agentic_loop_config \<Rightarrow> reasoning_context \<Rightarrow> 'd \<Rightarrow>
   ('e, 'a loop_outcome) result \<times> 'd loop_state" where
  "run_agentic_loop dl cfg x d = run_from dl cfg 1 (al_max_iterations cfg) (loop_start x d)"

section \<open>Notions of the statements\<close>

text \<open>
  A delegate that never stops the loop by itself, whose model only ever gives truncated tool calls unless
  it is forced to answer in text, and that ends the loop with a text answer.
\<close>

definition truncating_delegate :: "('d, 'e, 'a) loop_delegate \<Rightarrow> bool" where
  "truncating_delegate dl =
     ((\<forall>d. fst (dl_check_signals dl d) = SigContinue) \<and>
      (\<forall>i x d. \<exists>x' d'. dl_before_llm_call dl i (x, d) = (None, x', d') \<and> rx_force_text x' = rx_force_text x) \<and>
      (\<forall>i x d. \<exists>out x' d'. dl_call_llm dl i (x, d) = (Inr out, x', d') \<and> rx_force_text x' = rx_force_text x \<and>
         (if rx_force_text x then (\<exists>tx. ro_result out = Text tx)
          else (\<exists>cs c. ro_result out = ToolCalls cs c) \<and> ro_finish_reason out = Length)) \<and>
      (\<forall>tx m x d. \<exists>outcome x' d'. dl_handle_text_response dl tx m (x, d) = (TextReturn outcome, x', d')))"

definition sample_output :: "respond_result \<Rightarrow> finish_reason \<Rightarrow> respond_output" where
  "sample_output r f = \<lparr>ro_result = r, ro_usage = \<lparr>tu_input_tokens = 0, tu_output_tokens = 0,
     tu_cache_read_input_tokens = 0, tu_cache_creation_input_tokens = 0\<rparr>, ro_finish_reason = f, ro_metadata = None\<rparr>"

definition sample_delegate :: "(unit, unit, unit) loop_delegate" where
  "sample_delegate = \<lparr>dl_check_signals = Pair SigContinue, dl_before_llm_call = (\<lambda>_. Pair None),
     dl_call_llm = (\<lambda>_ xd. (Inr (if rx_force_text (fst xd) then sample_output (Text ''done'') Stop
        else sample_output (ToolCalls [] None) Length), xd)),
     dl_handle_text_response = (\<lambda>tx _. Pair (TextReturn (Response tx))),
     dl_execute_tool_calls = (\<lambda>_ _. Pair (Inr None)), dl_on_tool_intent_nudge = (\<lambda>_ xd. xd),
     dl_after_iteration = (\<lambda>_ d. d)\<rparr>"

section \<open>Bounds of the loop\<close>

lemmas step_defs = after_iteration_def set_ctx_def Let_def

lemma handle_text_bounds:
  assumes "handle_text dl cfg i tx m s = (r, s')" "ls_nudges s \<le> al_max_tool_intent_nudges cfg"
  shows "ls_calls s' = ls_calls s \<and> ls_executed s' = ls_executed s \<and> ls_nudges s' \<le> al_max_tool_intent_nudges cfg"
  using assms
  by (auto simp: handle_text_def should_nudge_def step_defs split: if_splits prod.splits text_action.splits)

lemma handle_tool_calls_bounds:
  assumes "handle_tool_calls dl i cs c f s = (r, s')" "ls_nudges s \<le> n"
  shows "ls_calls s' = ls_calls s \<and> ls_nudges s' \<le> n \<and>
    (if f = Length then ls_executed s' = ls_executed s else ls_executed s' = ls_executed s @ [cs])"
  using assms
  by (auto simp: handle_tool_calls_def discard_truncated_def step_defs split: if_splits prod.splits sum.splits option.splits)

lemma ask_model_bounds:
  assumes "ask_model dl cfg i s = (r, s')" "ls_nudges s \<le> al_max_tool_intent_nudges cfg"
  shows "ls_calls s' \<le> ls_calls s + 1 \<and> ls_nudges s' \<le> al_max_tool_intent_nudges cfg \<and>
    length (ls_executed s') + ls_calls s \<le> length (ls_executed s) + ls_calls s'"
proof -
  obtain b xd where b: "dl_before_llm_call dl i (ls_ctx s, ls_delegate s) = (b, xd)" by (metis surj_pair)
  let ?s = "(set_ctx xd s)\<lparr>ls_calls := ls_calls s + 1\<rparr>"
  obtain o' xd' where o': "dl_call_llm dl i (ls_ctx ?s, ls_delegate ?s) = (o', xd')" by (metis surj_pair)
  show ?thesis
  proof (cases b)
    case (Some x)
    with assms b show ?thesis by (auto simp: ask_model_def set_ctx_def)
  next
    case None
    show ?thesis
    proof (cases o')
      case (Inl e)
      with None assms b o' show ?thesis by (auto simp: ask_model_def set_ctx_def Let_def)
    next
      case (Inr out)
      let ?t = "set_ctx xd' ?s"
      have n: "ls_nudges ?t \<le> al_max_tool_intent_nudges cfg" using assms(2) by (simp add: set_ctx_def)
      have t: "ls_calls ?t = ls_calls s + 1" "ls_executed ?t = ls_executed s" by (simp_all add: set_ctx_def)
      show ?thesis
      proof (cases "ro_result out")
        case (Text tx)
        then have "handle_text dl cfg i tx (ro_metadata out) ?t = (r, s')"
          using assms(1) b None o' Inr by (simp add: ask_model_def Let_def)
        from handle_text_bounds[OF this n] t show ?thesis by simp
      next
        case (ToolCalls cs c)
        then have "handle_tool_calls dl i cs c (ro_finish_reason out) ?t = (r, s')"
          using assms(1) b None o' Inr by (simp add: ask_model_def Let_def)
        from handle_tool_calls_bounds[OF this n] t show ?thesis by (auto split: if_splits)
      qed
    qed
  qed
qed

lemma loop_iteration_bounds:
  assumes "loop_iteration dl cfg i s = (r, s')" "ls_nudges s \<le> al_max_tool_intent_nudges cfg"
  shows "ls_calls s' \<le> ls_calls s + 1 \<and> ls_nudges s' \<le> al_max_tool_intent_nudges cfg \<and>
    length (ls_executed s') + ls_calls s \<le> length (ls_executed s) + ls_calls s'"
proof -
  obtain sig d where sig: "dl_check_signals dl (ls_delegate s) = (sig, d)" by fastforce
  let ?s = "s\<lparr>ls_delegate := d\<rparr>"
  show ?thesis
  proof (cases sig)
    case SigContinue
    then show ?thesis using assms sig ask_model_bounds[of dl cfg i ?s r s'] by (simp add: loop_iteration_def)
  next
    case SigStop
    then show ?thesis using assms sig by (auto simp: loop_iteration_def)
  next
    case (SigInjectMessage m)
    then show ?thesis
      using assms sig ask_model_bounds[of dl cfg i "?s\<lparr>ls_ctx := push_messages [msg_user m] (ls_ctx s)\<rparr>" r s']
      by (simp add: loop_iteration_def)
  qed
qed

lemma run_from_bounds:
  "run_from dl cfg i n s = (r, s') \<Longrightarrow> ls_nudges s \<le> al_max_tool_intent_nudges cfg \<Longrightarrow>
   ls_calls s' \<le> ls_calls s + n \<and> ls_nudges s' \<le> al_max_tool_intent_nudges cfg \<and>
   length (ls_executed s') + ls_calls s \<le> length (ls_executed s) + ls_calls s'"
proof (induction n arbitrary: i s)
  case 0
  then show ?case by simp
next
  case (Suc n)
  obtain q t where it: "loop_iteration dl cfg i s = (q, t)" by fastforce
  note b = loop_iteration_bounds[OF it Suc.prems(2)]
  show ?case
  proof (cases q)
    case Next
    then have "run_from dl cfg (i + 1) n t = (r, s')" using Suc.prems(1) it by simp
    from Suc.IH[OF this] b show ?thesis by fastforce
  next
    case (Done x)
    with Suc.prems(1) it b show ?thesis by auto
  qed
qed

text \<open>
  C30. The loop ends, whatever the answers of the delegate are: it invokes the delegate's \<open>call_llm\<close> at most once per
  iteration and so at most as often as configured, it has tool calls executed at most once per such
  invocation, and the nudges in a row never exceed their limit. What is counted are the invocations by
  the loop; a delegate may ask its model more than once in one of them, as that of the chat does when the
  context is too long.
\<close>

theorem agentic_loop_bounded:
  "let s = snd (run_agentic_loop dl cfg x d) in
   ls_calls s \<le> al_max_iterations cfg \<and> length (ls_executed s) \<le> ls_calls s \<and>
   ls_nudges s \<le> al_max_tool_intent_nudges cfg"
  using run_from_bounds[of dl cfg 1 "al_max_iterations cfg" "loop_start x d"]
  by (auto simp: run_agentic_loop_def loop_start_def Let_def prod_eq_iff)

section \<open>Truncated tool calls\<close>

lemma truncating_ask:
  assumes "truncating_delegate dl"
  obtains x d out x' d' where
    "dl_before_llm_call dl i (ls_ctx s, ls_delegate s) = (None, x, d)"
    "dl_call_llm dl i (x, d) = (Inr out, x', d')"
    "rx_force_text x' = rx_force_text (ls_ctx s)"
    "if rx_force_text (ls_ctx s) then \<exists>tx. ro_result out = Text tx
     else (\<exists>cs c. ro_result out = ToolCalls cs c) \<and> ro_finish_reason out = Length"
proof -
  obtain x d where b: "dl_before_llm_call dl i (ls_ctx s, ls_delegate s) = (None, x, d)" "rx_force_text x = rx_force_text (ls_ctx s)"
    using assms unfolding truncating_delegate_def by meson
  obtain out x' d' where "dl_call_llm dl i (x, d) = (Inr out, x', d')" "rx_force_text x' = rx_force_text x"
    "if rx_force_text x then \<exists>tx. ro_result out = Text tx
     else (\<exists>cs c. ro_result out = ToolCalls cs c) \<and> ro_finish_reason out = Length"
    using assms unfolding truncating_delegate_def by meson
  with b that show ?thesis by simp
qed

lemma truncating_signal:
  assumes "truncating_delegate dl"
  shows "loop_iteration dl cfg i s = ask_model dl cfg i (s\<lparr>ls_delegate := snd (dl_check_signals dl (ls_delegate s))\<rparr>)"
proof -
  have "fst (dl_check_signals dl (ls_delegate s)) = SigContinue"
    using assms unfolding truncating_delegate_def by blast
  then show ?thesis by (cases "dl_check_signals dl (ls_delegate s)") (simp add: loop_iteration_def)
qed

lemma truncated_iteration:
  assumes "truncating_delegate dl" "\<not> rx_force_text (ls_ctx s)"
  shows "\<exists>s'. loop_iteration dl cfg i s = (Next, s') \<and> ls_truncations s' = ls_truncations s + 1 \<and>
    ls_calls s' = ls_calls s + 1 \<and> ls_executed s' = ls_executed s \<and>
    rx_force_text (ls_ctx s') = (ls_truncations s + 1 \<ge> 3)"
proof -
  let ?s = "s\<lparr>ls_delegate := snd (dl_check_signals dl (ls_delegate s))\<rparr>"
  obtain x d out x' d' where *: "dl_before_llm_call dl i (ls_ctx ?s, ls_delegate ?s) = (None, x, d)"
    "dl_call_llm dl i (x, d) = (Inr out, x', d')" "rx_force_text x' = rx_force_text (ls_ctx ?s)"
    "if rx_force_text (ls_ctx ?s) then \<exists>tx. ro_result out = Text tx
     else (\<exists>cs c. ro_result out = ToolCalls cs c) \<and> ro_finish_reason out = Length"
    using truncating_ask[OF assms(1)] by blast
  then obtain cs c where "ro_result out = ToolCalls cs c" "ro_finish_reason out = Length" using assms(2) by auto
  with * assms show ?thesis
    by (simp add: truncating_signal ask_model_def handle_tool_calls_def discard_truncated_def push_messages_def step_defs)
qed

lemma forced_iteration:
  assumes "truncating_delegate dl" "rx_force_text (ls_ctx s)"
  shows "\<exists>outcome s'. loop_iteration dl cfg i s = (Done (Inr outcome), s') \<and> ls_calls s' = ls_calls s + 1 \<and>
    ls_executed s' = ls_executed s"
proof -
  let ?s = "s\<lparr>ls_delegate := snd (dl_check_signals dl (ls_delegate s))\<rparr>"
  obtain x d out x' d' where *: "dl_before_llm_call dl i (ls_ctx ?s, ls_delegate ?s) = (None, x, d)"
    "dl_call_llm dl i (x, d) = (Inr out, x', d')" "rx_force_text x' = rx_force_text (ls_ctx ?s)"
    "if rx_force_text (ls_ctx ?s) then \<exists>tx. ro_result out = Text tx
     else (\<exists>cs c. ro_result out = ToolCalls cs c) \<and> ro_finish_reason out = Length"
    using truncating_ask[OF assms(1)] by blast
  then obtain tx where "ro_result out = Text tx" using assms(2) by auto
  moreover obtain outcome x'' d'' where "dl_handle_text_response dl tx (ro_metadata out) (x', d') = (TextReturn outcome, x'', d'')"
    using assms(1) unfolding truncating_delegate_def by meson
  ultimately show ?thesis using * assms
    by (simp add: truncating_signal ask_model_def handle_text_def should_nudge_def step_defs)
qed

text \<open>
  C31. Truncation cannot keep the loop busy: when the model keeps returning truncated tool calls, the third time
  forces text mode, so with at least four iterations allowed the loop ends with an outcome of the text
  handler after four calls of the model, and no truncated tool call was executed.
\<close>

theorem truncation_forces_text:
  assumes "truncating_delegate dl" "\<not> rx_force_text x" "4 \<le> al_max_iterations cfg"
  shows "\<exists>outcome s. run_agentic_loop dl cfg x d = (Inr outcome, s) \<and> ls_calls s = 4 \<and> ls_executed s = []"
proof -
  obtain n where n: "al_max_iterations cfg = Suc (Suc (Suc (Suc n)))"
    using assms(3) le_Suc_ex[of 4 "al_max_iterations cfg"] by (auto simp: eval_nat_numeral)
  let ?s0 = "loop_start x d"
  obtain s1 where s1: "loop_iteration dl cfg 1 ?s0 = (Next, s1)" "ls_truncations s1 = 1" "ls_calls s1 = 1"
    "ls_executed s1 = []" "\<not> rx_force_text (ls_ctx s1)"
    using truncated_iteration[OF assms(1), of ?s0 cfg 1] assms(2) by (auto simp: loop_start_def)
  obtain s2 where s2: "loop_iteration dl cfg 2 s1 = (Next, s2)" "ls_truncations s2 = 2" "ls_calls s2 = 2"
    "ls_executed s2 = []" "\<not> rx_force_text (ls_ctx s2)"
    using truncated_iteration[OF assms(1) s1(5), of cfg 2] s1 by auto
  obtain s3 where s3: "loop_iteration dl cfg 3 s2 = (Next, s3)" "ls_calls s3 = 3" "ls_executed s3 = []"
    "rx_force_text (ls_ctx s3)"
    using truncated_iteration[OF assms(1) s2(5), of cfg 3] s2 by auto
  obtain outcome s4 where "loop_iteration dl cfg 4 s3 = (Done (Inr outcome), s4)" "ls_calls s4 = 4" "ls_executed s4 = []"
    using forced_iteration[OF assms(1) s3(4), of cfg 4] s3 by auto
  with s1(1) s2(1) s3(1) show ?thesis by (simp add: run_agentic_loop_def n eval_nat_numeral)
qed

theorem truncation_forces_text_witness:
  "\<exists>outcome s. run_agentic_loop sample_delegate agentic_loop_config_default reasoning_context_new () =
     (Inr outcome, s) \<and> ls_calls s = 4 \<and> ls_executed s = []"
proof (rule truncation_forces_text)
  show "truncating_delegate sample_delegate"
    by (simp add: truncating_delegate_def sample_delegate_def sample_output_def)
qed (simp_all add: reasoning_context_new_def agentic_loop_config_default_def)

end
