(* ===== verification/Session_Manager.thy ===== *)
theory Session_Manager
  imports Session Undo
begin

text \<open>
  The session manager, \<open>src/agent/session_manager.rs\<close>: the sessions of the users, the map from the threads
  of a channel to the threads of a session, and the undo managers. A session that the code shares
  through \<open>Arc\<close> is the value in the map; every operation is one step. New identifiers and the clock are
  arguments, \<open>Uuid::parse_str\<close> and the printing of a UUID are parameters. A session that is in use when
  the pruning tries to lock it is in the set \<open>busy\<close> of the first pass or \<open>busy2\<close> of the second. Hooks
  are started in the background and do not change the manager.
\<close>

section \<open>Model\<close>

record thread_key =
  tk_user_id :: string
  tk_channel :: string
  tk_external_thread_id :: "string option"

record session_manager =
  sm_sessions :: "(string \<times> session) list"
  sm_thread_map :: "(thread_key \<times> uuid) list"
  sm_undo_managers :: "(uuid \<times> undo_manager) list"

definition session_manager_new :: session_manager where
  "session_manager_new = \<lparr>sm_sessions = [], sm_thread_map = [], sm_undo_managers = []\<rparr>"

definition get_or_create_session :: "uuid \<Rightarrow> utc \<Rightarrow> string \<Rightarrow> session_manager \<Rightarrow> session \<times> session_manager" where
  "get_or_create_session new_id now user_id m =
     (case hm_get (sm_sessions m) user_id of
        Some s \<Rightarrow> (s, m)
      | None \<Rightarrow>
          (let s = session_new new_id now user_id
           in (s, m\<lparr>sm_sessions := hm_put user_id s (sm_sessions m)\<rparr>)))"

text \<open>\<open>entry(..).or_insert_with(UndoManager::new)\<close>.\<close>

definition ensure_undo_manager :: "uuid \<Rightarrow> session_manager \<Rightarrow> session_manager" where
  "ensure_undo_manager thread_id m =
     (case hm_get (sm_undo_managers m) thread_id of
        Some _ \<Rightarrow> m
      | None \<Rightarrow> m\<lparr>sm_undo_managers := hm_put thread_id undo_manager_new (sm_undo_managers m)\<rparr>)"

definition has_thread :: "uuid \<Rightarrow> session \<Rightarrow> bool" where
  "has_thread thread_id s = (hm_get (se_threads s) thread_id \<noteq> None)"

definition is_mapped :: "uuid \<Rightarrow> session_manager \<Rightarrow> bool" where
  "is_mapped thread_id m = list_ex (\<lambda>(_, v). v = thread_id) (sm_thread_map m)"

definition create_mapped_thread ::
  "uuid \<Rightarrow> utc \<Rightarrow> thread_key \<Rightarrow> session \<Rightarrow> session_manager \<Rightarrow> uuid \<times> session_manager" where
  "create_mapped_thread new_thread now key s m =
     (case create_thread new_thread now s of
        (thread_id, s') \<Rightarrow>
          (thread_id,
           m\<lparr>sm_sessions := hm_put (tk_user_id key) s' (sm_sessions m),
             sm_thread_map := hm_put key thread_id (sm_thread_map m),
             sm_undo_managers := hm_put thread_id undo_manager_new (sm_undo_managers m)\<rparr>))"

definition resolve_thread_with_parsed_uuid ::
  "(string \<Rightarrow> uuid option) \<Rightarrow> uuid \<Rightarrow> uuid \<Rightarrow> utc \<Rightarrow> string \<Rightarrow> string \<Rightarrow> string option \<Rightarrow> uuid option \<Rightarrow>
   session_manager \<Rightarrow> uuid \<times> session_manager" where
  "resolve_thread_with_parsed_uuid parse_uuid new_session new_thread now user_id channel ext parsed m =
     (let (s, m1) = get_or_create_session new_session now user_id m;
          key = \<lparr>tk_user_id = user_id, tk_channel = channel, tk_external_thread_id = ext\<rparr>;
          ext_uuid = (case parsed of Some u \<Rightarrow> Some u | None \<Rightarrow> Option.bind ext parse_uuid);
          adoptable = (case ext of
                         None \<Rightarrow> None
                       | Some _ \<Rightarrow> (case ext_uuid of
                                     Some u \<Rightarrow> if is_mapped u m1 then None else Some u
                                   | None \<Rightarrow> None));
          mapped = (case hm_get (sm_thread_map m1) key of
                      Some t \<Rightarrow> if has_thread t s then Some t else None
                    | None \<Rightarrow> None)
      in case mapped of
           Some t \<Rightarrow> (t, m1)
         | None \<Rightarrow>
             (case adoptable of
                Some u \<Rightarrow>
                  if has_thread u s
                  then (u, ensure_undo_manager u (m1\<lparr>sm_thread_map := hm_put key u (sm_thread_map m1)\<rparr>))
                  else create_mapped_thread new_thread now key s m1
              | None \<Rightarrow> create_mapped_thread new_thread now key s m1))"

definition resolve_thread ::
  "(string \<Rightarrow> uuid option) \<Rightarrow> uuid \<Rightarrow> uuid \<Rightarrow> utc \<Rightarrow> string \<Rightarrow> string \<Rightarrow> string option \<Rightarrow>
   session_manager \<Rightarrow> uuid \<times> session_manager" where
  "resolve_thread parse_uuid new_session new_thread now user_id channel ext m =
     resolve_thread_with_parsed_uuid parse_uuid new_session new_thread now user_id channel ext None m"

definition register_thread ::
  "(uuid \<Rightarrow> string) \<Rightarrow> string \<Rightarrow> string \<Rightarrow> uuid \<Rightarrow> session \<Rightarrow> session_manager \<Rightarrow> session_manager" where
  "register_thread show_uuid user_id channel thread_id s m =
     (let key = \<lparr>tk_user_id = user_id, tk_channel = channel, tk_external_thread_id = Some (show_uuid thread_id)\<rparr>;
          m1 = ensure_undo_manager thread_id (m\<lparr>sm_thread_map := hm_put key thread_id (sm_thread_map m)\<rparr>)
      in case hm_get (sm_sessions m1) user_id of
           Some _ \<Rightarrow> m1
         | None \<Rightarrow> m1\<lparr>sm_sessions := hm_put user_id s (sm_sessions m1)\<rparr>)"

definition manager_get_undo :: "uuid \<Rightarrow> session_manager \<Rightarrow> undo_manager \<times> session_manager" where
  "manager_get_undo thread_id m =
     (case hm_get (sm_undo_managers m) thread_id of
        Some u \<Rightarrow> (u, m)
      | None \<Rightarrow>
          (undo_manager_new, m\<lparr>sm_undo_managers := hm_put thread_id undo_manager_new (sm_undo_managers m)\<rparr>))"

definition SECOND :: int where
  "SECOND = 1000000000"

definition stale_users :: "utc \<Rightarrow> int \<Rightarrow> string set \<Rightarrow> session_manager \<Rightarrow> string list" where
  "stale_users now max_idle_secs busy m =
     map fst (filter (\<lambda>(u, s). u \<notin> busy \<and> se_last_active_at s < now - max_idle_secs * SECOND) (sm_sessions m))"

definition stale_thread_ids :: "string list \<Rightarrow> string set \<Rightarrow> session_manager \<Rightarrow> uuid list" where
  "stale_thread_ids users busy2 m =
     concat (map (\<lambda>u. case hm_get (sm_sessions m) u of
                        Some s \<Rightarrow> if u \<in> busy2 then [] else map fst (se_threads s)
                      | None \<Rightarrow> []) users)"

definition prune_stale_sessions ::
  "utc \<Rightarrow> int \<Rightarrow> string set \<Rightarrow> string set \<Rightarrow> session_manager \<Rightarrow> nat \<times> session_manager" where
  "prune_stale_sessions now max_idle_secs busy busy2 m =
     (let users = stale_users now max_idle_secs busy m
      in if users = [] then (0, m)
         else
           (let ids = stale_thread_ids users busy2 m;
                sessions = fold hm_del users (sm_sessions m)
            in (length (sm_sessions m) - length sessions,
                m\<lparr>sm_sessions := sessions,
                  sm_thread_map := hm_retain (\<lambda>k _. \<not> List.member users (tk_user_id k)) (sm_thread_map m),
                  sm_undo_managers := fold hm_del ids (sm_undo_managers m)\<rparr>)))"

section \<open>Histories\<close>

text \<open>
  What changes the manager: a message arrives, the web gateway makes a thread in a session, sessions are
  pruned.
\<close>

datatype manager_op =
    Resolve uuid uuid utc string string "string option" "uuid option"
  | NewThread uuid uuid utc string
  | Prune utc int "string set" "string set"

definition manager_op :: "(string \<Rightarrow> uuid option) \<Rightarrow> manager_op \<Rightarrow> session_manager \<Rightarrow> session_manager" where
  "manager_op parse_uuid op m =
     (case op of
        Resolve sid tid now user channel ext parsed \<Rightarrow>
          snd (resolve_thread_with_parsed_uuid parse_uuid sid tid now user channel ext parsed m)
      | NewThread sid tid now user \<Rightarrow>
          (let (s, m1) = get_or_create_session sid now user m
           in m1\<lparr>sm_sessions := hm_put user (snd (create_thread tid now s)) (sm_sessions m1)\<rparr>)
      | Prune now secs busy busy2 \<Rightarrow> snd (prune_stale_sessions now secs busy busy2 m))"

text \<open>The thread that an operation may create, with the user it is created for.\<close>

definition op_thread :: "manager_op \<Rightarrow> (uuid \<times> string) list" where
  "op_thread op =
     (case op of
        Resolve _ tid _ user _ _ _ \<Rightarrow> [(tid, user)]
      | NewThread _ tid _ user \<Rightarrow> [(tid, user)]
      | Prune _ _ _ _ \<Rightarrow> [])"

definition op_threads :: "manager_op list \<Rightarrow> (uuid \<times> string) list" where
  "op_threads ops = concat (map op_thread ops)"

definition user_has_thread :: "string \<Rightarrow> uuid \<Rightarrow> session_manager \<Rightarrow> bool" where
  "user_has_thread user thread_id m =
     (case hm_get (sm_sessions m) user of Some s \<Rightarrow> has_thread thread_id s | None \<Rightarrow> False)"

definition is_stale :: "utc \<Rightarrow> int \<Rightarrow> string set \<Rightarrow> session_manager \<Rightarrow> string \<Rightarrow> bool" where
  "is_stale now secs busy m u =
     (case hm_get (sm_sessions m) u of
        Some s \<Rightarrow> u \<notin> busy \<and> se_last_active_at s < now - secs * SECOND
      | None \<Rightarrow> False)"

definition sample_manager_ops :: "manager_op list" where
  "sample_manager_ops = [Resolve 1 10 0 ''ann'' ''web'' None None, Resolve 2 20 0 ''bob'' ''web'' (Some ''x'') (Some 10)]"

section \<open>Resolving a thread\<close>

lemma has_thread_create: "has_thread t (snd (create_thread i now s)) \<longleftrightarrow> t = i \<or> has_thread t s"
  by (auto simp: has_thread_def create_thread_def thread_new_def Let_def split: option.splits)

lemma fst_create_thread [simp]: "fst (create_thread i now s) = i"
  by (simp add: create_thread_def thread_new_def Let_def)

lemma sessions_ensure_undo [simp]:
  "sm_sessions (ensure_undo_manager t m) = sm_sessions m" "sm_thread_map (ensure_undo_manager t m) = sm_thread_map m"
  by (simp_all add: ensure_undo_manager_def split: option.split)

lemmas resolve_defs = resolve_thread_with_parsed_uuid_def get_or_create_session_def create_mapped_thread_def
  user_has_thread_def Let_def case_prod_unfold

lemma resolve_in_session:
  "user_has_thread user (fst (resolve_thread_with_parsed_uuid pu sid tid now user ch ext parsed m))
     (snd (resolve_thread_with_parsed_uuid pu sid tid now user ch ext parsed m))"
  by (auto simp: resolve_defs has_thread_create split: option.splits)

lemma resolve_maps:
  "hm_get (sm_thread_map (snd (resolve_thread_with_parsed_uuid pu sid tid now user ch ext parsed m)))
     \<lparr>tk_user_id = user, tk_channel = ch, tk_external_thread_id = ext\<rparr> =
   Some (fst (resolve_thread_with_parsed_uuid pu sid tid now user ch ext parsed m))"
  by (auto simp: resolve_defs split: option.splits)

lemma resolve_mapped:
  assumes "hm_get (sm_thread_map m) \<lparr>tk_user_id = user, tk_channel = ch, tk_external_thread_id = ext\<rparr> = Some t"
    and "user_has_thread user t m"
  shows "resolve_thread_with_parsed_uuid pu sid tid now user ch ext parsed m = (t, m)"
proof -
  obtain s where "hm_get (sm_sessions m) user = Some s" "has_thread t s"
    using assms(2) by (auto simp: user_has_thread_def split: option.splits)
  with assms(1) show ?thesis by (simp add: resolve_thread_with_parsed_uuid_def get_or_create_session_def)
qed

text \<open>
  In every state of the manager, resolving an external thread gives a thread of that user's own session, and
  resolving it again, at any later time and with any other fresh identifiers, gives the same thread and
  changes nothing.
\<close>

theorem resolve_stable:
  "let (t, m') = resolve_thread_with_parsed_uuid pu sid tid now user ch ext parsed m in
   user_has_thread user t m' \<and>
   resolve_thread_with_parsed_uuid pu' sid' tid' now' user ch ext parsed' m' = (t, m')"
  using resolve_in_session[of user pu sid tid now ch ext parsed m] resolve_maps[of pu sid tid now user ch ext parsed m]
  by (simp add: case_prod_unfold resolve_mapped)

section \<open>Isolation of users\<close>

text \<open>Every thread in a session was created for the user of the session.\<close>

definition threads_owned :: "(uuid \<times> string) list \<Rightarrow> session_manager \<Rightarrow> bool" where
  "threads_owned created m = (\<forall>u t. user_has_thread u t m \<longrightarrow> (t, u) \<in> set created)"

lemma hm_get_fold_del: "hm_get (fold hm_del ks m) k = (if k \<in> set ks then None else hm_get m k)"
  by (induction ks arbitrary: m) auto

lemma resolve_threads:
  "user_has_thread u t (snd (resolve_thread_with_parsed_uuid pu sid tid now user ch ext parsed m)) \<Longrightarrow>
   user_has_thread u t m \<or> (t, u) = (tid, user)"
  by (auto simp: resolve_defs has_thread_create split: option.splits if_splits)
     (auto simp: has_thread_def session_new_def)

lemma prune_threads: "user_has_thread u t (snd (prune_stale_sessions now secs b b2 m)) \<Longrightarrow> user_has_thread u t m"
  by (auto simp: prune_stale_sessions_def user_has_thread_def hm_get_fold_del Let_def split: option.splits if_splits)

lemma manager_op_owned:
  assumes "threads_owned created m"
  shows "threads_owned (created @ op_thread op) (manager_op pu op m)"
proof (cases op)
  case (Resolve sid tid now user ch ext parsed)
  then show ?thesis
    using assms resolve_threads by (fastforce simp: threads_owned_def manager_op_def op_thread_def)
next
  case (NewThread sid tid now user)
  have "user_has_thread u t (manager_op pu op m) \<Longrightarrow> user_has_thread u t m \<or> (t, u) = (tid, user)" for u t
    by (auto simp: NewThread manager_op_def get_or_create_session_def user_has_thread_def has_thread_create Let_def
        split: option.splits if_splits) (auto simp: has_thread_def session_new_def)
  with assms show ?thesis by (fastforce simp: threads_owned_def NewThread op_thread_def)
next
  case (Prune now secs b b2)
  then show ?thesis using assms prune_threads by (fastforce simp: threads_owned_def manager_op_def op_thread_def)
qed

lemma manager_run_owned:
  "threads_owned created m \<Longrightarrow> threads_owned (created @ op_threads ops) (fold (manager_op pu) ops m)"
proof (induction ops arbitrary: created m)
  case (Cons op ops)
  from Cons.IH[OF manager_op_owned[OF Cons.prems]] show ?case by (simp add: op_threads_def)
qed (simp add: op_threads_def)

text \<open>
  Users never see each other's threads: after any history in which the identifiers of new threads differ,
  however users, channels and external identifiers are chosen and whenever sessions are pruned, a thread
  is in the session of at most one user.
\<close>

theorem threads_isolated:
  assumes "distinct (map fst (op_threads ops))"
    and "user_has_thread u t (fold (manager_op pu) ops session_manager_new)"
    and "user_has_thread v t (fold (manager_op pu) ops session_manager_new)"
  shows "u = v"
proof -
  have "threads_owned [] session_manager_new"
    by (simp add: threads_owned_def user_has_thread_def session_manager_new_def)
  from manager_run_owned[OF this, of ops pu] have "(t, u) \<in> set (op_threads ops)" "(t, v) \<in> set (op_threads ops)"
    using assms(2,3) by (auto simp: threads_owned_def)
  then show ?thesis using assms(1) by (meson eq_key_imp_eq_value)
qed

theorem threads_isolated_witness:
  "user_has_thread ''ann'' 10 (fold (manager_op (\<lambda>_. None)) sample_manager_ops session_manager_new) \<and>
   \<not> user_has_thread ''bob'' 10 (fold (manager_op (\<lambda>_. None)) sample_manager_ops session_manager_new)"
proof -
  have "user_has_thread ''ann'' 10 (fold (manager_op (\<lambda>_. None)) sample_manager_ops session_manager_new)"
    by code_simp
  moreover have "distinct (map fst (op_threads sample_manager_ops))" by code_simp
  ultimately show ?thesis using threads_isolated[of sample_manager_ops "''ann''" 10 "\<lambda>_. None" "''bob''"] by blast
qed

section \<open>Pruning\<close>

lemma stale_users_iff: "hm_wf (sm_sessions m) \<Longrightarrow> u \<in> set (stale_users now secs busy m) \<longleftrightarrow> is_stale now secs busy m u"
  unfolding hm_wf_def
  by (auto simp: stale_users_def is_stale_def hm_get_def map_of_eq_Some_iff image_iff split: option.splits
      dest: map_of_SomeD eq_key_imp_eq_value)

text \<open>
  Pruning removes exactly the sessions that were idle for longer than the limit and were not in use; it also
  removes every mapping of the users of these sessions and of no other user.
\<close>

theorem prune_exact:
  assumes "hm_wf (sm_sessions m)" "hm_wf (sm_thread_map m)"
  shows "let m' = snd (prune_stale_sessions now secs busy busy2 m); stale = is_stale now secs busy m in
    (\<forall>u. hm_get (sm_sessions m') u = (if stale u then None else hm_get (sm_sessions m) u)) \<and>
    (\<forall>k. hm_get (sm_thread_map m') k = (if stale (tk_user_id k) then None else hm_get (sm_thread_map m) k))"
proof (cases "stale_users now secs busy m = []")
  case True
  then have "\<not> is_stale now secs busy m u" for u using stale_users_iff[OF assms(1), of u now secs busy] by simp
  with True show ?thesis by (simp add: prune_stale_sessions_def)
next
  case False
  then show ?thesis
    using stale_users_iff[OF assms(1), of _ now secs busy]
    by (simp add: prune_stale_sessions_def hm_get_fold_del hm_get_retain[OF assms(2)] Let_def split: option.split)
qed

theorem prune_exact_witness:
  "hm_get (sm_sessions (snd (prune_stale_sessions 5000000000 3 {} {}
     (fold (manager_op (\<lambda>_. None)) sample_manager_ops session_manager_new)))) ''ann'' = None"
proof -
  let ?m = "fold (manager_op (\<lambda>_. None)) sample_manager_ops session_manager_new"
  have wf: "hm_wf (sm_sessions ?m)" "hm_wf (sm_thread_map ?m)" by code_simp+
  have "is_stale 5000000000 3 {} ?m ''ann''" by code_simp
  then show ?thesis using prune_exact[OF wf, of 5000000000 3 "{}" "{}"] by (simp add: Let_def)
qed

end
