(* ===== verification/Ip_Guard.thy ===== *)
theory Ip_Guard
  imports Prelude
begin

unbundle bit_operations_syntax

text \<open>
  The address filters that keep server-side requests away from internal networks. The sources have
  one of their own in each place that sends a request: the HTTP tool (\<open>tools/builtin/http.rs\<close>), the
  base URLs of the configuration (\<open>config/helpers.rs\<close>), the validation endpoints of the channel setup
  (\<open>setup/channels.rs\<close>), the webhooks of hook bundles (\<open>hooks/bundled.rs\<close>), the OAuth discovery of MCP
  servers (\<open>tools/mcp/auth.rs\<close>), the download of skills (\<open>tools/builtin/skill_tools.rs\<close>) and the host
  function of WASM tools (\<open>tools/wasm/wrapper.rs\<close>). All of them are here, over the same model of
  \<open>std::net\<close>, with the contract a client of a filter relies on as the locale \<open>ip_filter\<close>.
\<close>

section \<open>Model\<close>

subsection \<open>Addresses of \<open>std::net\<close>\<close>

datatype ipv4_addr = Ipv4 "8 word" "8 word" "8 word" "8 word"

datatype ipv6_addr = Ipv6 "16 word" "16 word" "16 word" "16 word" "16 word" "16 word" "16 word" "16 word"

datatype ip_addr = V4 ipv4_addr | V6 ipv6_addr

fun v4_octet :: "ipv4_addr \<Rightarrow> nat \<Rightarrow> 8 word" where
  "v4_octet (Ipv4 a b c d) i = (if i = 0 then a else if i = 1 then b else if i = 2 then c else d)"

fun v4_is_private :: "ipv4_addr \<Rightarrow> bool" where
  "v4_is_private (Ipv4 a b c d) =
     (a = 10 \<or> a = 172 \<and> 16 \<le> b \<and> b \<le> 31 \<or> a = 192 \<and> b = 168)"

fun v4_is_loopback :: "ipv4_addr \<Rightarrow> bool" where
  "v4_is_loopback (Ipv4 a b c d) = (a = 127)"

fun v4_is_link_local :: "ipv4_addr \<Rightarrow> bool" where
  "v4_is_link_local (Ipv4 a b c d) = (a = 169 \<and> b = 254)"

fun v4_is_broadcast :: "ipv4_addr \<Rightarrow> bool" where
  "v4_is_broadcast (Ipv4 a b c d) = (a = 255 \<and> b = 255 \<and> c = 255 \<and> d = 255)"

fun v4_is_documentation :: "ipv4_addr \<Rightarrow> bool" where
  "v4_is_documentation (Ipv4 a b c d) =
     (a = 192 \<and> b = 0 \<and> c = 2 \<or> a = 198 \<and> b = 51 \<and> c = 100 \<or> a = 203 \<and> b = 0 \<and> c = 113)"

fun v4_is_unspecified :: "ipv4_addr \<Rightarrow> bool" where
  "v4_is_unspecified (Ipv4 a b c d) = (a = 0 \<and> b = 0 \<and> c = 0 \<and> d = 0)"

fun v4_is_multicast :: "ipv4_addr \<Rightarrow> bool" where
  "v4_is_multicast (Ipv4 a b c d) = (224 \<le> a \<and> a \<le> 239)"

fun v6_segment0 :: "ipv6_addr \<Rightarrow> 16 word" where
  "v6_segment0 (Ipv6 a b c d e f g h) = a"

fun v6_segment1 :: "ipv6_addr \<Rightarrow> 16 word" where
  "v6_segment1 (Ipv6 a b c d e f g h) = b"

definition v6_octet0 :: "ipv6_addr \<Rightarrow> 8 word" where
  "v6_octet0 v = ucast (drop_bit 8 (v6_segment0 v))"

definition v6_is_loopback :: "ipv6_addr \<Rightarrow> bool" where
  "v6_is_loopback v = (v = Ipv6 0 0 0 0 0 0 0 1)"

definition v6_is_unspecified :: "ipv6_addr \<Rightarrow> bool" where
  "v6_is_unspecified v = (v = Ipv6 0 0 0 0 0 0 0 0)"

definition v6_is_unique_local :: "ipv6_addr \<Rightarrow> bool" where
  "v6_is_unique_local v = (v6_segment0 v AND 0xfe00 = 0xfc00)"

definition v6_is_unicast_link_local :: "ipv6_addr \<Rightarrow> bool" where
  "v6_is_unicast_link_local v = (v6_segment0 v AND 0xffc0 = 0xfe80)"

definition v6_is_multicast :: "ipv6_addr \<Rightarrow> bool" where
  "v6_is_multicast v = (v6_segment0 v AND 0xff00 = 0xff00)"

fun to_ipv4_mapped :: "ipv6_addr \<Rightarrow> ipv4_addr option" where
  "to_ipv4_mapped (Ipv6 a b c d e f g h) =
     (if a = 0 \<and> b = 0 \<and> c = 0 \<and> d = 0 \<and> e = 0 \<and> f = 0xffff
      then Some (Ipv4 (ucast (drop_bit 8 g)) (ucast g) (ucast (drop_bit 8 h)) (ucast h))
      else None)"

fun to_ipv6_mapped :: "ipv4_addr \<Rightarrow> ipv6_addr" where
  "to_ipv6_mapped (Ipv4 a b c d) =
     Ipv6 0 0 0 0 0 0xffff (push_bit 8 (ucast a) OR ucast b) (push_bit 8 (ucast c) OR ucast d)"

definition ip_is_loopback :: "ip_addr \<Rightarrow> bool" where
  "ip_is_loopback ip = (case ip of V4 v \<Rightarrow> v4_is_loopback v | V6 v \<Rightarrow> v6_is_loopback v)"

definition ip_is_unspecified :: "ip_addr \<Rightarrow> bool" where
  "ip_is_unspecified ip = (case ip of V4 v \<Rightarrow> v4_is_unspecified v | V6 v \<Rightarrow> v6_is_unspecified v)"

subsection \<open>The HTTP tool\<close>

definition http_is_disallowed_ipv4 :: "ipv4_addr \<Rightarrow> bool" where
  "http_is_disallowed_ipv4 v4 =
     (v4_is_private v4 \<or> v4_is_loopback v4 \<or> v4_is_link_local v4 \<or> v4_is_multicast v4
      \<or> v4_is_unspecified v4 \<or> v4 = Ipv4 169 254 169 254
      \<or> (v4_octet v4 0 = 100 \<and> (v4_octet v4 1 AND 0xC0) = 64))"

definition http_is_disallowed_ip :: "ip_addr \<Rightarrow> bool" where
  "http_is_disallowed_ip ip =
     (case ip of
        V4 v4 \<Rightarrow> http_is_disallowed_ipv4 v4
      | V6 v6 \<Rightarrow>
          if (case to_ipv4_mapped v6 of Some v4 \<Rightarrow> http_is_disallowed_ipv4 v4 | None \<Rightarrow> False) then True
          else v6_is_loopback v6 \<or> v6_is_unique_local v6 \<or> v6_is_unicast_link_local v6
               \<or> v6_is_multicast v6 \<or> v6_is_unspecified v6)"

subsection \<open>The configuration's base URLs\<close>

definition config_is_dangerous_ip :: "ip_addr \<Rightarrow> bool" where
  "config_is_dangerous_ip ip =
     (case ip of
        V4 v4 \<Rightarrow>
          v4_is_private v4 \<or> v4_is_loopback v4 \<or> v4_is_link_local v4 \<or> v4_is_multicast v4
          \<or> v4_is_unspecified v4 \<or> v4 = Ipv4 169 254 169 254
          \<or> (v4_octet v4 0 = 100 \<and> (v4_octet v4 1 AND 0xC0) = 64)
      | V6 v6 \<Rightarrow>
          (case to_ipv4_mapped v6 of
             Some v4 \<Rightarrow>
               v4_is_private v4 \<or> v4_is_loopback v4 \<or> v4_is_link_local v4 \<or> v4_is_multicast v4
               \<or> v4_is_unspecified v4 \<or> v4 = Ipv4 169 254 169 254
               \<or> (v4_octet v4 0 = 100 \<and> (v4_octet v4 1 AND 0xC0) = 64)
           | None \<Rightarrow>
               v6_is_loopback v6 \<or> v6_is_unspecified v6
               \<or> (v6_octet0 v6 AND 0xfe) = 0xfc
               \<or> (v6_segment0 v6 AND 0xffc0) = 0xfe80
               \<or> v6_octet0 v6 = 0xff))"

subsection \<open>The channel setup, and the normalisation it shares with the download of skills\<close>

definition normalize_ip :: "ip_addr \<Rightarrow> ip_addr" where
  "normalize_ip ip =
     (case ip of
        V6 v6 \<Rightarrow> (case to_ipv4_mapped v6 of Some v4 \<Rightarrow> V4 v4 | None \<Rightarrow> V6 v6)
      | other \<Rightarrow> other)"

definition setup_is_disallowed_ip :: "ip_addr \<Rightarrow> bool" where
  "setup_is_disallowed_ip ip =
     (case normalize_ip ip of
        V4 v4 \<Rightarrow>
          v4_is_private v4 \<or> v4_is_loopback v4 \<or> v4_is_link_local v4 \<or> v4_is_multicast v4
          \<or> v4_is_unspecified v4 \<or> v4 = Ipv4 169 254 169 254
          \<or> (v4_octet v4 0 = 100 \<and> (v4_octet v4 1 AND 0xC0) = 64)
      | V6 v6 \<Rightarrow>
          v6_is_loopback v6 \<or> v6_is_unique_local v6 \<or> v6_is_unicast_link_local v6
          \<or> v6_is_multicast v6 \<or> v6_is_unspecified v6)"

subsection \<open>The webhooks of hook bundles\<close>

fun ipv6_mapped_ipv4 :: "ipv6_addr \<Rightarrow> ipv4_addr option" where
  "ipv6_mapped_ipv4 (Ipv6 s0 s1 s2 s3 s4 s5 s6 s7) =
     (if s0 = 0 \<and> s1 = 0 \<and> s2 = 0 \<and> s3 = 0 \<and> s4 = 0 \<and> s5 = 0xffff
      then Some (Ipv4 (ucast (drop_bit 8 s6)) (ucast s6) (ucast (drop_bit 8 s7)) (ucast s7))
      else None)"

definition is_forbidden_ipv4 :: "ipv4_addr \<Rightarrow> bool" where
  "is_forbidden_ipv4 v4 =
     (if v4_is_private v4 \<or> v4_is_loopback v4 \<or> v4_is_link_local v4 \<or> v4_is_broadcast v4
         \<or> v4_is_documentation v4 \<or> v4_is_unspecified v4 \<or> v4_is_multicast v4 then True
      else if v4_octet v4 0 = 100 \<and> 64 \<le> v4_octet v4 1 \<and> v4_octet v4 1 \<le> 127 then True
      else if v4_octet v4 0 = 198 \<and> (v4_octet v4 1 = 18 \<or> v4_octet v4 1 = 19) then True
      else False)"

definition is_forbidden_ip :: "ip_addr \<Rightarrow> bool" where
  "is_forbidden_ip ip =
     (case ip of
        V4 v4 \<Rightarrow> is_forbidden_ipv4 v4
      | V6 v6 \<Rightarrow>
          (case ipv6_mapped_ipv4 v6 of
             Some mapped \<Rightarrow> is_forbidden_ipv4 mapped
           | None \<Rightarrow>
               if v6_is_loopback v6 \<or> v6_is_unspecified v6 \<or> v6_is_unique_local v6
                  \<or> v6_is_unicast_link_local v6 \<or> v6_is_multicast v6 then True
               else v6_segment0 v6 = 0x2001 \<and> v6_segment1 v6 = 0x0db8))"

subsection \<open>The OAuth discovery of MCP servers\<close>

definition mcp_is_dangerous_v4 :: "ipv4_addr \<Rightarrow> bool" where
  "mcp_is_dangerous_v4 v4 =
     (v4_is_loopback v4 \<or> v4_is_private v4 \<or> v4_is_link_local v4 \<or> v4_is_broadcast v4
      \<or> v4_is_unspecified v4
      \<or> (v4_octet v4 0 = 169 \<and> v4_octet v4 1 = 254)
      \<or> (v4_octet v4 0 = 100 \<and> (v4_octet v4 1 AND 0xC0) = 64))"

definition mcp_is_dangerous_ip :: "ip_addr \<Rightarrow> bool" where
  "mcp_is_dangerous_ip ip =
     (case ip of
        V4 v4 \<Rightarrow> mcp_is_dangerous_v4 v4
      | V6 v6 \<Rightarrow>
          v6_is_loopback v6 \<or> v6_is_unspecified v6
          \<or> (v6_segment0 v6 AND 0xffc0) = 0xfe80
          \<or> (v6_segment0 v6 AND 0xffc0) = 0xfec0
          \<or> (v6_segment0 v6 AND 0xfe00) = 0xfc00
          \<or> (v6_segment0 v6 = 0x2001 \<and> v6_segment1 v6 = 0x0db8)
          \<or> (case to_ipv4_mapped v6 of Some v4 \<Rightarrow> mcp_is_dangerous_v4 v4 | None \<Rightarrow> False))"

subsection \<open>The download of skills\<close>

definition skill_is_private_ip :: "ip_addr \<Rightarrow> bool" where
  "skill_is_private_ip ip =
     (case ip of
        V4 v4 \<Rightarrow> v4_is_private v4 \<or> v4_is_link_local v4
      | V6 v6 \<Rightarrow> (v6_segment0 v6 AND 0xfe00) = 0xfc00)"

definition skill_is_link_local_ip :: "ip_addr \<Rightarrow> bool" where
  "skill_is_link_local_ip ip =
     (case ip of
        V4 v4 \<Rightarrow> v4_is_link_local v4
      | V6 v6 \<Rightarrow> (v6_segment0 v6 AND 0xffc0) = 0xfe80)"

definition fetch_ip_rejected :: "ip_addr \<Rightarrow> bool" where
  "fetch_ip_rejected ip =
     (ip_is_loopback ip \<or> ip_is_unspecified ip \<or> skill_is_private_ip ip \<or> skill_is_link_local_ip ip)"

subsection \<open>The HTTP host function of WASM tools\<close>

definition wasm_is_private_ip :: "ip_addr \<Rightarrow> bool" where
  "wasm_is_private_ip ip =
     (case ip of
        V4 v4 \<Rightarrow>
          v4_is_loopback v4 \<or> v4_is_private v4 \<or> v4_is_link_local v4 \<or> v4_is_unspecified v4
          \<or> (v4_octet v4 0 = 100 \<and> (v4_octet v4 1 AND 0xC0) = 64)
      | V6 v6 \<Rightarrow>
          v6_is_loopback v6 \<or> v6_is_unspecified v6
          \<or> (v6_segment0 v6 AND 0xFE00) = 0xFC00
          \<or> (v6_segment0 v6 AND 0xFFC0) = 0xFE80)"

subsection \<open>The contract\<close>

text \<open>
  The addresses of the host itself and of the networks it is in: loopback, unspecified, private,
  link-local, and the unique local addresses of IPv6.
\<close>

definition internal_v4 :: "ipv4_addr \<Rightarrow> bool" where
  "internal_v4 v = (v4_is_loopback v \<or> v4_is_unspecified v \<or> v4_is_private v \<or> v4_is_link_local v)"

definition internal_v6 :: "ipv6_addr \<Rightarrow> bool" where
  "internal_v6 v =
     (v6_is_loopback v \<or> v6_is_unspecified v \<or> v6_is_unique_local v \<or> v6_is_unicast_link_local v)"

text \<open>An IPv4-mapped address reaches the host of the IPv4 address that it carries.\<close>

definition reaches_internal :: "ip_addr \<Rightarrow> bool" where
  "reaches_internal ip =
     (case ip of
        V4 v \<Rightarrow> internal_v4 v
      | V6 v \<Rightarrow> (case to_ipv4_mapped v of Some w \<Rightarrow> internal_v4 w | None \<Rightarrow> internal_v6 v))"

definition is_cgnat :: "ipv4_addr \<Rightarrow> bool" where
  "is_cgnat v = (v4_octet v 0 = 100 \<and> 64 \<le> v4_octet v 1 \<and> v4_octet v 1 \<le> 127)"

section \<open>Lemmas\<close>

lemma cgnat_mask: "(b AND 0xC0) = (64::8 word) \<longleftrightarrow> 64 \<le> b \<and> b \<le> 127"
proof -
  have "\<forall>b::8 word. (b AND 0xC0) = 64 \<longleftrightarrow> 64 \<le> b \<and> b \<le> 127"
    unfolding all_octets_iff by code_simp
  then show ?thesis by blast
qed

lemma high_octet_push: "push_bit 8 (ucast (ucast (drop_bit 8 s) :: 8 word)) = (s::16 word) AND 0xff00"
proof (rule bit_word_eqI)
  fix n assume "n < LENGTH(16)"
  then have n: "n < 16" by simp
  have m: "(0xff00::16 word) = push_bit 8 (mask 8)" by (simp add: mask_eq_exp_minus_1)
  show "bit (push_bit 8 (ucast (ucast (drop_bit 8 s) :: 8 word)) :: 16 word) n = bit (s AND 0xff00) n"
    unfolding m using n by (auto simp: bit_simps)
qed

lemma push_octet_inject: "push_bit 8 (ucast x :: 16 word) = push_bit 8 (ucast (y :: 8 word)) \<longleftrightarrow> x = y"
proof
  assume e: "push_bit 8 (ucast x :: 16 word) = push_bit 8 (ucast y)"
  show "x = y"
  proof (rule bit_word_eqI)
    fix n assume n: "n < LENGTH(8)"
    have "bit (push_bit 8 (ucast x :: 16 word)) (n + 8) = bit (push_bit 8 (ucast y :: 16 word)) (n + 8)"
      by (simp only: e)
    then show "bit x n = bit y n" using n by (simp add: bit_simps)
  qed
qed simp

lemma octet0_mask:
  "(v6_octet0 v AND m) = c \<longleftrightarrow> (v6_segment0 v AND push_bit 8 (ucast m)) = push_bit 8 (ucast (c :: 8 word))"
proof -
  have "(v6_segment0 v AND push_bit 8 (ucast m)) = push_bit 8 (ucast (v6_octet0 v AND m))"
    unfolding v6_octet0_def by (rule bit_word_eqI) (auto simp: bit_simps)
  then show ?thesis by (simp only: push_octet_inject)
qed

lemma octet0_unique_local: "(v6_octet0 v AND 0xfe) = 0xfc \<longleftrightarrow> v6_is_unique_local v"
  by (simp add: octet0_mask v6_is_unique_local_def)

lemma octet0_multicast: "v6_octet0 v = 0xff \<longleftrightarrow> v6_is_multicast v"
proof -
  have "v6_octet0 v = 0xff \<longleftrightarrow> (v6_octet0 v AND 0xff) = 0xff"
  proof -
    have "(w AND 0xff) = w" for w :: "8 word"
    proof -
      have "(0xff :: 8 word) = - 1" by simp
      then show ?thesis by (simp only: bit.conj_one_right)
    qed
    then show ?thesis by simp
  qed
  then show ?thesis by (simp add: octet0_mask v6_is_multicast_def)
qed

lemma mapped_segment0: "to_ipv4_mapped v = Some w \<Longrightarrow> v6_segment0 v = 0"
  by (cases v) (auto split: if_splits)

lemma mapped_not_special:
  assumes "to_ipv4_mapped v = Some w"
  shows "\<not> v6_is_loopback v" "\<not> v6_is_unspecified v" "\<not> v6_is_unique_local v"
    "\<not> v6_is_unicast_link_local v" "\<not> v6_is_multicast v"
  using assms
  by (auto simp: v6_is_loopback_def v6_is_unspecified_def v6_is_unique_local_def v6_is_unicast_link_local_def
      v6_is_multicast_def mapped_segment0)

lemma to_ipv4_mapped_inverse [simp]: "to_ipv4_mapped (to_ipv6_mapped v) = Some v"
proof (cases v)
  case (Ipv4 a b c d)
  have hi: "ucast (drop_bit 8 (push_bit 8 (ucast x) OR ucast y :: 16 word)) = (x :: 8 word)" for x y :: "8 word"
    by (rule bit_word_eqI) (auto simp: bit_simps dest: bit_imp_le_length)
  have lo: "ucast (push_bit 8 (ucast x) OR ucast y :: 16 word) = (y :: 8 word)" for x y :: "8 word"
    by (rule bit_word_eqI) (auto simp: bit_simps)
  show ?thesis by (simp add: Ipv4 hi lo del: drop_bit_or)
qed

lemma ipv6_mapped_ipv4_std: "ipv6_mapped_ipv4 v = to_ipv4_mapped v"
  by (cases v) simp

lemma metadata_link_local: "v4 = Ipv4 169 254 169 254 \<Longrightarrow> v4_is_link_local v4"
  by simp

subsection \<open>The contract of a filter, and its clients\<close>

locale ip_filter =
  fixes blocked :: "ip_addr \<Rightarrow> bool"
  assumes blocks_v4: "internal_v4 v \<Longrightarrow> blocked (V4 v)"
    and blocks_v6: "to_ipv4_mapped w = None \<Longrightarrow> internal_v6 w \<Longrightarrow> blocked (V6 w)"
    and sees_through: "to_ipv4_mapped w = Some v \<Longrightarrow> blocked (V6 w) = blocked (V4 v)"
begin

lemma blocks_internal: "reaches_internal ip \<Longrightarrow> blocked ip"
  by (auto simp: reaches_internal_def blocks_v4 blocks_v6 sees_through split: ip_addr.splits option.splits)

lemma blocked_normalize: "blocked (normalize_ip ip) = blocked ip"
  by (auto simp: normalize_ip_def sees_through split: ip_addr.splits option.splits)

lemma screened_addresses: "\<not> list_ex blocked ips \<Longrightarrow> list_all (\<lambda>ip. \<not> reaches_internal ip) ips"
  by (auto simp: list_ex_iff list_all_iff dest: blocks_internal)

end

lemmas filter_defs = internal_v4_def internal_v6_def http_is_disallowed_ipv4_def http_is_disallowed_ip_def
  config_is_dangerous_ip_def setup_is_disallowed_ip_def is_forbidden_ipv4_def is_forbidden_ip_def
  mcp_is_dangerous_v4_def mcp_is_dangerous_ip_def normalize_ip_def

interpretation http: ip_filter http_is_disallowed_ip
  by unfold_locales (auto simp: filter_defs mapped_not_special)

interpretation config: ip_filter config_is_dangerous_ip
  by unfold_locales (auto simp: filter_defs octet0_unique_local v6_is_unicast_link_local_def)

interpretation channel_setup: ip_filter setup_is_disallowed_ip
  by unfold_locales (auto simp: filter_defs)

interpretation webhook: ip_filter is_forbidden_ip
  by unfold_locales (auto simp: filter_defs ipv6_mapped_ipv4_std)

lemma mcp_sees_through: "to_ipv4_mapped w = Some v \<Longrightarrow> mcp_is_dangerous_ip (V6 w) = mcp_is_dangerous_ip (V4 v)"
  by (simp add: mcp_is_dangerous_ip_def mapped_not_special mapped_segment0)

interpretation mcp: ip_filter mcp_is_dangerous_ip
  by unfold_locales
    (auto simp: mcp_sees_through, auto simp: filter_defs v6_is_unique_local_def v6_is_unicast_link_local_def)

interpretation skill: ip_filter "\<lambda>ip. fetch_ip_rejected (normalize_ip ip)"
  by unfold_locales
    (auto simp: filter_defs fetch_ip_rejected_def ip_is_loopback_def ip_is_unspecified_def
      skill_is_private_ip_def skill_is_link_local_ip_def v6_is_unique_local_def v6_is_unicast_link_local_def)

section \<open>Properties\<close>

text \<open>
  C28. The filters of the HTTP tool, of the configuration's base URLs and of the channel setup are the
  same predicate, although they are written three times: with tests of octets or of segments, with
  the library's predicates, and with or without the normalisation of IPv4-mapped addresses.
\<close>

theorem ssrf_filters_agree:
  "http_is_disallowed_ip ip = config_is_dangerous_ip ip \<and> config_is_dangerous_ip ip = setup_is_disallowed_ip ip"
proof (cases ip)
  case (V4 v)
  then show ?thesis by (auto simp: filter_defs)
next
  case (V6 w)
  show ?thesis
  proof (cases "to_ipv4_mapped w")
    case None
    then show ?thesis
      by (auto simp: V6 filter_defs octet0_unique_local octet0_multicast v6_is_unicast_link_local_def)
  next
    case (Some v)
    then show ?thesis by (auto simp: V6 filter_defs mapped_not_special)
  qed
qed

text \<open>
  An address that reaches the host itself or a network it is in, directly or as an IPv4-mapped
  IPv6 address, is refused by the filters of the HTTP tool, the configuration, the channel setup, the
  webhooks, the MCP discovery and the download of skills.
\<close>

theorem ssrf_filters_block_internal:
  assumes "reaches_internal ip"
  shows "http_is_disallowed_ip ip \<and> config_is_dangerous_ip ip \<and> setup_is_disallowed_ip ip
    \<and> is_forbidden_ip ip \<and> mcp_is_dangerous_ip ip \<and> fetch_ip_rejected (normalize_ip ip)"
  using assms
  by (intro conjI http.blocks_internal config.blocks_internal channel_setup.blocks_internal webhook.blocks_internal
      mcp.blocks_internal skill.blocks_internal)

theorem ssrf_filters_block_internal_witness:
  "reaches_internal (V6 (Ipv6 0 0 0 0 0 0xffff 0xa9fe 0xa9fe))
   \<and> mcp_is_dangerous_ip (V6 (Ipv6 0 0 0 0 0 0xffff 0xa9fe 0xa9fe))"
proof -
  have "reaches_internal (V6 (Ipv6 0 0 0 0 0 0xffff 0xa9fe 0xa9fe))"
    by code_simp
  then show ?thesis
    using ssrf_filters_block_internal [of "V6 (Ipv6 0 0 0 0 0 0xffff 0xa9fe 0xa9fe)"] by blast
qed

text \<open>
  The filter of the WASM host function does not look through IPv4-mapped addresses: it lets every
  one of them pass, although it refuses the internal IPv4 addresses that they carry, the loopback and
  the metadata address among them.
\<close>

theorem wasm_filter_misses_mapped:
  "\<not> wasm_is_private_ip (V6 (to_ipv6_mapped v))
   \<and> reaches_internal (V6 (to_ipv6_mapped v)) = internal_v4 v
   \<and> wasm_is_private_ip (V4 v) = (internal_v4 v \<or> is_cgnat v)"
proof -
  have "to_ipv4_mapped (to_ipv6_mapped v) = Some v"
    by (rule to_ipv4_mapped_inverse)
  then show ?thesis
    by (auto simp: wasm_is_private_ip_def mapped_not_special mapped_segment0 reaches_internal_def
        internal_v4_def is_cgnat_def cgnat_mask)
qed

end
