(* ===== verification/Url_Guard.thy ===== *)
theory Url_Guard
  imports Ip_Guard Strings
begin

text \<open>
  The checks of a URL before a server-side request, around the address filters of \<open>Ip_Guard\<close>: the
  HTTP tool (\<open>tools/builtin/http.rs\<close>), the base URLs of the configuration
  (\<open>config/helpers.rs\<close>), the OAuth discovery of MCP servers (\<open>tools/mcp/auth.rs\<close>), the channel setup
  (\<open>setup/channels.rs\<close>), the download of skills (\<open>tools/builtin/skill_tools.rs\<close>), the webhooks of hook
  bundles (\<open>hooks/bundled.rs\<close>) and the host function of WASM tools (\<open>tools/wasm/wrapper.rs\<close>).

  The URL library and the resolver are parameters, the fields of \<open>net\<close>. The answer of a resolver may
  change from one query to the next (DNS rebinding), so a query has a number. \<open>host_str()\<close> and
  \<open>host()\<close> of a parsed URL are two fields: the first writes an IPv6 address in brackets. A client
  connects to an address that stands in the URL; it connects to a domain through a query of its own,
  made later than those of the checks, unless it was built with \<open>resolve_to_addrs\<close> for that domain:
  then it connects to the given addresses and makes no query.
\<close>

section \<open>Model\<close>

subsection \<open>The URL library, the resolver and the network\<close>

datatype url_host = UrlDomain string | UrlIpv4 ipv4_addr | UrlIpv6 ipv6_addr

record url =
  ur_text :: string
  ur_scheme :: string
  ur_username :: string
  ur_password :: "string option"
  ur_host_str :: "string option"
  ur_host :: "url_host option"
  ur_port :: "nat option"
  ur_port_or_known_default :: "nat option"

record net =
  nt_parse :: "string \<Rightarrow> (string, url) result"
  nt_join :: "url \<Rightarrow> string \<Rightarrow> (string, url) result"
  nt_parse_ip :: "string \<Rightarrow> ip_addr option"
  nt_show_ip :: "ip_addr \<Rightarrow> string"
  nt_show_host :: "url_host \<Rightarrow> string"
  nt_lookup :: "nat \<Rightarrow> string \<Rightarrow> (string, ip_addr list) result"
  nt_lookup_pair :: "nat \<Rightarrow> string \<Rightarrow> nat \<Rightarrow> (string, ip_addr list) result"

definition has_userinfo :: "url \<Rightarrow> bool" where
  "has_userinfo u = (ur_username u \<noteq> [] \<or> ur_password u \<noteq> None)"

datatype tool_error =
    InvalidParameters string
  | ExecutionFailed string
  | ToolTimeout duration
  | NotAuthorized string
  | ToolRateLimited "duration option"
  | ExternalService string
  | ToolSandbox string

text \<open>A client without overrides, and one with \<open>resolve_to_addrs\<close> for a domain; the addresses that the
  client connects to when it requests a URL, with \<open>later\<close> the number of its own query.\<close>

datatype http_client = DirectClient | PinnedClient string "ip_addr list"

definition resolve_later :: "net \<Rightarrow> nat \<Rightarrow> url \<Rightarrow> string \<Rightarrow> ip_addr list" where
  "resolve_later net later u d =
     (case nt_lookup_pair net later d (case ur_port_or_known_default u of Some p \<Rightarrow> p | None \<Rightarrow> 443) of
        Inr addrs \<Rightarrow> addrs
      | Inl _ \<Rightarrow> [])"

definition connect_targets :: "net \<Rightarrow> nat \<Rightarrow> url \<Rightarrow> http_client \<Rightarrow> ip_addr list" where
  "connect_targets net later u client =
     (case ur_host u of
        None \<Rightarrow> []
      | Some (UrlIpv4 v) \<Rightarrow> [V4 v]
      | Some (UrlIpv6 v) \<Rightarrow> [V6 v]
      | Some (UrlDomain d) \<Rightarrow>
          (case client of
             PinnedClient name addrs \<Rightarrow> if name = d then addrs else resolve_later net later u d
           | DirectClient \<Rightarrow> resolve_later net later u d))"

definition first_blocked :: "(ip_addr \<Rightarrow> bool) \<Rightarrow> ip_addr list \<Rightarrow> ip_addr option" where
  "first_blocked blocked ips = List.find blocked ips"

subsection \<open>The HTTP tool\<close>

definition validate_url :: "net \<Rightarrow> string \<Rightarrow> (tool_error, url) result" where
  "validate_url net s =
     (case nt_parse net s of
        Inl e \<Rightarrow> Inl (InvalidParameters (''invalid URL: '' @ e))
      | Inr parsed \<Rightarrow>
          if ur_scheme parsed \<noteq> ''https'' then Inl (NotAuthorized ''only https URLs are allowed'')
          else
            (case ur_host_str parsed of
               None \<Rightarrow> Inl (InvalidParameters ''URL missing host'')
             | Some host \<Rightarrow>
                 let host_lower = to_lower host
                 in if host_lower = ''localhost'' \<or> ends_with ''.localhost'' host_lower
                    then Inl (NotAuthorized ''localhost is not allowed'')
                    else
                      (case nt_parse_ip net host of
                         Some ip \<Rightarrow>
                           if http_is_disallowed_ip ip
                           then Inl (NotAuthorized ''private or local IPs are not allowed'')
                           else Inr parsed
                       | None \<Rightarrow> Inr parsed)))"

definition validate_and_resolve_url :: "net \<Rightarrow> nat \<Rightarrow> url \<Rightarrow> (tool_error, ip_addr list) result" where
  "validate_and_resolve_url net q u =
     (case ur_host_str u of
        None \<Rightarrow> Inl (InvalidParameters ''URL missing host'')
      | Some host \<Rightarrow>
          let port = (case ur_port_or_known_default u of Some p \<Rightarrow> p | None \<Rightarrow> 443)
          in (case nt_lookup net q (host @ '':'' @ show_nat port) of
                Inl e \<Rightarrow> Inl (ExternalService (''DNS resolution failed for '' @ quoted host @ '': '' @ e))
              | Inr addrs \<Rightarrow>
                  if addrs = []
                  then Inl (ExternalService (''DNS resolution for '' @ quoted host @ '' returned no addresses''))
                  else
                    (case first_blocked http_is_disallowed_ip addrs of
                       Some ip \<Rightarrow>
                         Inl (NotAuthorized (''hostname '' @ quoted host @ '' resolves to disallowed IP '' @ nt_show_ip net ip))
                     | None \<Rightarrow> Inr addrs)))"

definition build_pinned_client :: "string \<Rightarrow> ip_addr list \<Rightarrow> http_client" where
  "build_pinned_client host resolved_addrs = PinnedClient host resolved_addrs"

subsection \<open>The configuration's base URLs\<close>

text \<open>The value of \<open>ConfigError::InvalidValue\<close>: the key and the message.\<close>

datatype config_error = InvalidValue string string

definition is_http_localhost :: "string \<Rightarrow> bool" where
  "is_http_localhost host_lower =
     (host_lower = ''localhost'' \<or> host_lower = ''127.0.0.1'' \<or> host_lower = ''::1'' \<or> host_lower = ''[::1]''
      \<or> ends_with ''.localhost'' host_lower)"

definition validate_base_url :: "net \<Rightarrow> nat \<Rightarrow> string \<Rightarrow> string \<Rightarrow> (config_error, unit) result" where
  "validate_base_url net q s field_name =
     (case nt_parse net s of
        Inl e \<Rightarrow> Inl (InvalidValue field_name (''invalid URL '' @ quoted s @ '': '' @ e))
      | Inr parsed \<Rightarrow>
          if ur_scheme parsed \<noteq> ''http'' \<and> ur_scheme parsed \<noteq> ''https''
          then Inl (InvalidValue field_name (''only http/https URLs are allowed, got '' @ quoted (ur_scheme parsed)))
          else
            (case ur_host_str parsed of
               None \<Rightarrow> Inl (InvalidValue field_name ''URL is missing a host'')
             | Some host \<Rightarrow>
                 if ur_scheme parsed = ''http''
                 then (if is_http_localhost (to_lower host) then Inr ()
                       else Inl (InvalidValue field_name
                              (''HTTP (non-TLS) is only allowed for localhost, got '' @ quoted host @
                               ''. Use HTTPS for remote endpoints.'')))
                 else
                   (case nt_parse_ip net host of
                      Some ip \<Rightarrow>
                        if config_is_dangerous_ip ip
                        then Inl (InvalidValue field_name
                               (''URL points to a private/internal IP '' @ quoted (nt_show_ip net ip) @
                                ''. This is blocked to prevent SSRF attacks.''))
                        else Inr ()
                    | None \<Rightarrow>
                        (case nt_lookup_pair net q host (case ur_port parsed of Some p \<Rightarrow> p | None \<Rightarrow> 443) of
                           Inr addrs \<Rightarrow>
                             (case first_blocked config_is_dangerous_ip addrs of
                                Some ip \<Rightarrow> Inl (InvalidValue field_name
                                  (''hostname '' @ quoted host @ '' resolves to private/internal IP '' @
                                   quoted (nt_show_ip net ip) @ ''. This is blocked to prevent SSRF attacks.''))
                              | None \<Rightarrow> Inr ())
                         | Inl e \<Rightarrow> Inl (InvalidValue field_name
                             (''failed to resolve hostname '' @ quoted host @ '': '' @ e @
                              ''. Base URLs must be resolvable at config time.''))))))"

subsection \<open>The OAuth discovery of MCP servers\<close>

definition is_localhost_url :: "net \<Rightarrow> string \<Rightarrow> bool" where
  "is_localhost_url net s =
     (case nt_parse net s of
        Inl _ \<Rightarrow> False
      | Inr parsed \<Rightarrow>
          (case ur_host parsed of
             Some (UrlDomain d) \<Rightarrow> to_lower d = ''localhost''
           | Some (UrlIpv4 ip) \<Rightarrow> v4_is_loopback ip
           | Some (UrlIpv6 ip) \<Rightarrow> v6_is_loopback ip
           | None \<Rightarrow> False))"

text \<open>The text of \<open>AuthError::DiscoveryFailed\<close>.\<close>

definition validate_url_safe :: "net \<Rightarrow> nat \<Rightarrow> string \<Rightarrow> (string, unit) result" where
  "validate_url_safe net q s =
     (case nt_parse net s of
        Inl e \<Rightarrow> Inl (''Invalid URL: '' @ e)
      | Inr parsed \<Rightarrow>
          if ur_scheme parsed \<noteq> ''https'' \<and> ur_scheme parsed \<noteq> ''http''
          then Inl (''Unsupported scheme: '' @ ur_scheme parsed)
          else if ur_scheme parsed = ''http''
          then (if \<not> is_localhost_url net s
                then Inl (''HTTP is only allowed for localhost; use HTTPS for '' @
                          quoted (case ur_host_str parsed of Some h \<Rightarrow> h | None \<Rightarrow> []))
                else Inr ())
          else
            (case ur_host_str parsed of
               None \<Rightarrow> Inl ''URL has no host''
             | Some host \<Rightarrow>
                 (case nt_parse_ip net host of
                    Some ip \<Rightarrow>
                      if mcp_is_dangerous_ip ip then Inl (''URL points to a restricted IP address: '' @ host) else Inr ()
                  | None \<Rightarrow>
                      (case nt_lookup net q (host @ '':'' @ show_nat (case ur_port_or_known_default parsed of Some p \<Rightarrow> p | None \<Rightarrow> 443)) of
                         Inr addrs \<Rightarrow>
                           (case first_blocked mcp_is_dangerous_ip addrs of
                              Some ip \<Rightarrow> Inl (''URL hostname '' @ quoted host @ '' resolves to restricted IP address: '' @ nt_show_ip net ip)
                            | None \<Rightarrow> Inr ())
                       | Inl e \<Rightarrow> Inl (''DNS resolution failed for '' @ quoted host @ '': '' @ e)))))"

subsection \<open>The validation endpoints of the channel setup\<close>

definition normalize_domain :: "string \<Rightarrow> string" where
  "normalize_domain host = trim_end_char CHR ''.'' host"

text \<open>The text of \<open>ChannelSetupError::Validation\<close>, or the URL and the addresses for the client.\<close>

definition validate_public_https_url :: "net \<Rightarrow> nat \<Rightarrow> string \<Rightarrow> (string, url \<times> ip_addr list) result" where
  "validate_public_https_url net q s =
     (case nt_parse net s of
        Inl e \<Rightarrow> Inl (''Invalid URL: '' @ e)
      | Inr parsed \<Rightarrow>
          if ur_scheme parsed \<noteq> ''https'' then Inl ''Validation endpoint must use https''
          else if has_userinfo parsed then Inl ''Validation endpoint cannot contain userinfo''
          else
            (case ur_host_str parsed of
               None \<Rightarrow> Inl ''Validation URL missing host''
             | Some host \<Rightarrow>
                 let normalized_host = normalize_domain host;
                     host_lower = to_lower normalized_host;
                     port = (case ur_port_or_known_default parsed of Some p \<Rightarrow> p | None \<Rightarrow> 443)
                 in if host_lower = ''localhost'' \<or> ends_with ''.localhost'' host_lower
                    then Inl ''Validation endpoint cannot target localhost''
                    else
                      (case ur_host parsed of
                         None \<Rightarrow> Inl ''Validation URL missing host''
                       | Some (UrlIpv4 v4) \<Rightarrow>
                           if setup_is_disallowed_ip (V4 v4)
                           then Inl (''Validation endpoint cannot target private or local IP '' @ nt_show_ip net (V4 v4))
                           else Inr (parsed, [V4 v4])
                       | Some (UrlIpv6 v6) \<Rightarrow>
                           if setup_is_disallowed_ip (normalize_ip (V6 v6))
                           then Inl (''Validation endpoint cannot target private or local IP '' @ nt_show_ip net (normalize_ip (V6 v6)))
                           else Inr (parsed, [normalize_ip (V6 v6)])
                       | Some (UrlDomain d) \<Rightarrow>
                           (case nt_lookup_pair net q normalized_host port of
                              Inl e \<Rightarrow> Inl (''DNS resolution failed for '' @ normalized_host @ '': '' @ e)
                            | Inr resolved \<Rightarrow>
                                let addrs = map normalize_ip resolved
                                in if addrs = []
                                   then Inl (''Validation hostname '' @ quoted d @ '' did not resolve to any IP addresses'')
                                   else
                                     (case first_blocked setup_is_disallowed_ip addrs of
                                        Some ip \<Rightarrow> Inl (''Validation hostname '' @ quoted d @ '' resolves to disallowed IP '' @ nt_show_ip net ip)
                                      | None \<Rightarrow> Inr (parsed, addrs))))))"

definition validation_client :: "url \<Rightarrow> ip_addr list \<Rightarrow> http_client" where
  "validation_client parsed resolved_addrs =
     (case (ur_host parsed, ur_host_str parsed) of
        (Some (UrlDomain _), Some host) \<Rightarrow> PinnedClient host resolved_addrs
      | _ \<Rightarrow> DirectClient)"

subsection \<open>The download of skills\<close>

definition host_ip_addr :: "url_host \<Rightarrow> ip_addr option" where
  "host_ip_addr host =
     (case host of
        UrlIpv4 v4 \<Rightarrow> Some (V4 v4)
      | UrlIpv6 v6 \<Rightarrow> Some (normalize_ip (V6 v6))
      | UrlDomain _ \<Rightarrow> None)"

definition validate_fetch_ip :: "ip_addr \<Rightarrow> string \<Rightarrow> tool_error option" where
  "validate_fetch_ip ip display_host =
     (if fetch_ip_rejected ip
      then Some (ExecutionFailed (''URL points to a private/loopback/link-local address: '' @ display_host))
      else None)"

definition is_internal_hostname :: "string \<Rightarrow> bool" where
  "is_internal_hostname host_lower =
     (host_lower = ''localhost'' \<or> host_lower = ''metadata.google.internal'' \<or> ends_with ''.internal'' host_lower
      \<or> ends_with ''.local'' host_lower)"

definition validate_fetch_url :: "net \<Rightarrow> string \<Rightarrow> (tool_error, url) result" where
  "validate_fetch_url net s =
     (case nt_parse net s of
        Inl e \<Rightarrow> Inl (ExecutionFailed (''Invalid URL '' @ quoted s @ '': '' @ e))
      | Inr parsed \<Rightarrow>
          if ur_scheme parsed \<noteq> ''https''
          then Inl (ExecutionFailed (''Only HTTPS URLs are allowed for skill fetching, got scheme '' @ quoted (ur_scheme parsed)))
          else
            (case ur_host parsed of
               None \<Rightarrow> Inl (ExecutionFailed ''URL has no host'')
             | Some host \<Rightarrow>
                 (case (case host_ip_addr host of
                          Some ip \<Rightarrow> validate_fetch_ip ip (nt_show_host net host)
                        | None \<Rightarrow> None) of
                    Some e \<Rightarrow> Inl e
                  | None \<Rightarrow>
                      if is_internal_hostname (to_lower (normalize_domain (nt_show_host net host)))
                      then Inl (ExecutionFailed (''URL points to an internal hostname: '' @ nt_show_host net host))
                      else Inr parsed)))"

fun validate_addrs :: "string \<Rightarrow> ip_addr list \<Rightarrow> tool_error option" where
  "validate_addrs host [] = None"
| "validate_addrs host (ip # ips) =
     (case validate_fetch_ip (normalize_ip ip) host of Some e \<Rightarrow> Some e | None \<Rightarrow> validate_addrs host ips)"

definition validate_resolved_addrs :: "string \<Rightarrow> ip_addr list \<Rightarrow> tool_error option" where
  "validate_resolved_addrs host addrs =
     (if addrs = [] then Some (ExecutionFailed (''DNS resolution returned no addresses for '' @ host))
      else validate_addrs host addrs)"

definition build_safe_fetch_client :: "net \<Rightarrow> nat \<Rightarrow> url \<Rightarrow> (tool_error, http_client) result" where
  "build_safe_fetch_client net q parsed =
     (case ur_host parsed of
        None \<Rightarrow> Inl (ExecutionFailed ''URL has no host'')
      | Some (UrlDomain d) \<Rightarrow>
          (case ur_port_or_known_default parsed of
             None \<Rightarrow> Inl (ExecutionFailed ''URL has no valid port'')
           | Some port \<Rightarrow>
               (case nt_lookup_pair net q (normalize_domain d) port of
                  Inl e \<Rightarrow> Inl (ExecutionFailed (''DNS resolution failed for '' @ normalize_domain d @ '': '' @ e))
                | Inr addrs \<Rightarrow>
                    (case validate_resolved_addrs d addrs of
                       Some e \<Rightarrow> Inl e
                     | None \<Rightarrow> Inr (PinnedClient d addrs))))
      | Some _ \<Rightarrow> Inr DirectClient)"

subsection \<open>The webhooks of hook bundles\<close>

datatype hook_bundle_error =
    InvalidFormat string
  | MissingHookPoints string
  | InvalidRegex string string string
  | InvalidTimeout string nat
  | InvalidWebhookUrl string string
  | InvalidWebhookScheme string string
  | ForbiddenWebhookHost string string
  | InvalidWebhookHeader string string string
  | ForbiddenWebhookHeader string string
  | InvalidWebhookMaxInFlight string

definition normalize_host :: "string \<Rightarrow> string" where
  "normalize_host host = trim_end_char CHR '']'' (trim_start_char CHR ''['' host)"

definition is_forbidden_webhook_host :: "string \<Rightarrow> bool" where
  "is_forbidden_webhook_host host =
     (let lower = to_lower host
      in lower = ''localhost'' \<or> ends_with ''.localhost'' lower \<or> lower = ''host.docker.internal''
         \<or> lower = ''metadata.google.internal'' \<or> lower = ''metadata.aws.internal'')"

definition validate_webhook_url :: "net \<Rightarrow> string \<Rightarrow> string \<Rightarrow> (hook_bundle_error, url) result" where
  "validate_webhook_url net hook_name s =
     (case nt_parse net s of
        Inl _ \<Rightarrow> Inl (InvalidWebhookUrl hook_name s)
      | Inr parsed \<Rightarrow>
          if ur_scheme parsed \<noteq> ''https'' then Inl (InvalidWebhookScheme hook_name (ur_scheme parsed))
          else if has_userinfo parsed then Inl (InvalidWebhookUrl hook_name s)
          else
            (case ur_host_str parsed of
               None \<Rightarrow> Inr parsed
             | Some host \<Rightarrow>
                 let normalized_host = normalize_host host
                 in (case nt_parse_ip net normalized_host of
                       Some ip \<Rightarrow>
                         if is_forbidden_ip ip then Inl (ForbiddenWebhookHost hook_name normalized_host) else Inr parsed
                     | None \<Rightarrow>
                         if is_forbidden_webhook_host normalized_host
                         then Inl (ForbiddenWebhookHost hook_name normalized_host)
                         else Inr parsed)))"

definition dispatch_client_for_target :: "net \<Rightarrow> nat \<Rightarrow> string \<Rightarrow> (string, http_client) result" where
  "dispatch_client_for_target net q s =
     (case nt_parse net s of
        Inl e \<Rightarrow> Inl (''Invalid URL: '' @ e)
      | Inr parsed \<Rightarrow>
          (case ur_host_str parsed of
             None \<Rightarrow> Inl ''Webhook URL has no host''
           | Some host \<Rightarrow>
               let normalized_host = normalize_host host
               in (case nt_parse_ip net normalized_host of
                     Some ip \<Rightarrow>
                       if is_forbidden_ip ip then Inl (''Webhook target resolves to blocked IP '' @ nt_show_ip net ip)
                       else Inr DirectClient
                   | None \<Rightarrow>
                       (case ur_port_or_known_default parsed of
                          None \<Rightarrow> Inl ''Webhook URL has no valid port''
                        | Some port \<Rightarrow>
                            (case nt_lookup_pair net q normalized_host port of
                               Inl e \<Rightarrow> Inl (''DNS resolution failed: '' @ e)
                             | Inr addrs \<Rightarrow>
                                 if addrs = [] then Inl ''DNS resolution returned no addresses''
                                 else
                                   (case first_blocked is_forbidden_ip addrs of
                                      Some ip \<Rightarrow> Inl (''Webhook target resolves to blocked IP '' @ nt_show_ip net ip)
                                    | None \<Rightarrow> Inr (PinnedClient normalized_host addrs)))))))"

subsection \<open>The HTTP host function of WASM tools\<close>

definition strip_brackets :: "string \<Rightarrow> string" where
  "strip_brackets h =
     (case strip_prefix ''['' h of
        Some v \<Rightarrow> (case strip_suffix '']'' v of Some w \<Rightarrow> w | None \<Rightarrow> h)
      | None \<Rightarrow> h)"

definition extract_host_from_url :: "net \<Rightarrow> string \<Rightarrow> string option" where
  "extract_host_from_url net s =
     (case nt_parse net s of
        Inl _ \<Rightarrow> None
      | Inr parsed \<Rightarrow>
          if ur_scheme parsed \<noteq> ''http'' \<and> ur_scheme parsed \<noteq> ''https'' then None
          else map_option (\<lambda>h. to_lower (strip_brackets h)) (ur_host_str parsed))"

definition reject_private_ip :: "net \<Rightarrow> nat \<Rightarrow> string \<Rightarrow> (string, unit) result" where
  "reject_private_ip net q s =
     (case nt_parse net s of
        Inl e \<Rightarrow> Inl (''Failed to parse URL: '' @ e)
      | Inr parsed \<Rightarrow>
          if ur_scheme parsed \<noteq> ''http'' \<and> ur_scheme parsed \<noteq> ''https''
          then Inl (''Unsupported URL scheme: '' @ ur_scheme parsed)
          else if has_userinfo parsed then Inl ''URL contains userinfo (@) which is not allowed''
          else
            (case map_option strip_brackets (ur_host_str parsed) of
               None \<Rightarrow> Inl ''Failed to parse host from URL''
             | Some host \<Rightarrow>
                 (case nt_parse_ip net host of
                    Some ip \<Rightarrow>
                      if wasm_is_private_ip ip
                      then Inl (''HTTP request to private/internal IP '' @ nt_show_ip net ip @ '' is not allowed'')
                      else Inr ()
                  | None \<Rightarrow>
                      (case nt_lookup net q (host @ '':0'') of
                         Inl e \<Rightarrow> Inl (''DNS resolution failed for '' @ host @ '': '' @ e)
                       | Inr addrs \<Rightarrow>
                           if addrs = [] then Inl (''DNS resolution returned no addresses for '' @ host)
                           else
                             (case first_blocked wasm_is_private_ip addrs of
                                Some ip \<Rightarrow> Inl (''DNS rebinding detected: '' @ host @ '' resolved to private IP '' @ nt_show_ip net ip)
                              | None \<Rightarrow> Inr ())))))"

subsection \<open>The addresses a request may go to\<close>

text \<open>The addresses that the client of each place connects to, for the text of a URL: none when the
  URL is refused. The check makes the query \<open>q\<close>, the client the query \<open>later\<close>.\<close>

definition http_targets :: "net \<Rightarrow> nat \<Rightarrow> nat \<Rightarrow> string \<Rightarrow> ip_addr list" where
  "http_targets net q later s =
     (case validate_url net s of
        Inl _ \<Rightarrow> []
      | Inr u \<Rightarrow>
          (case (validate_and_resolve_url net q u, ur_host_str u) of
             (Inr addrs, Some host) \<Rightarrow> connect_targets net later u (build_pinned_client host addrs)
           | _ \<Rightarrow> []))"

definition setup_targets :: "net \<Rightarrow> nat \<Rightarrow> nat \<Rightarrow> string \<Rightarrow> ip_addr list" where
  "setup_targets net q later s =
     (case validate_public_https_url net q s of
        Inr (u, addrs) \<Rightarrow> connect_targets net later u (validation_client u addrs)
      | Inl _ \<Rightarrow> [])"

definition skill_targets :: "net \<Rightarrow> nat \<Rightarrow> nat \<Rightarrow> string \<Rightarrow> ip_addr list" where
  "skill_targets net q later s =
     (case validate_fetch_url net s of
        Inl _ \<Rightarrow> []
      | Inr u \<Rightarrow>
          (case build_safe_fetch_client net q u of
             Inl _ \<Rightarrow> []
           | Inr client \<Rightarrow> connect_targets net later u client))"

definition webhook_targets :: "net \<Rightarrow> nat \<Rightarrow> nat \<Rightarrow> string \<Rightarrow> ip_addr list" where
  "webhook_targets net q later s =
     (case (validate_webhook_url net [] s, dispatch_client_for_target net q s) of
        (Inr u, Inr client) \<Rightarrow> connect_targets net later u client
      | _ \<Rightarrow> [])"

text \<open>
  What the URL library and the resolver promise for an \<open>https\<close> URL: a host that is a domain is written
  as such and is no literal address; the text of a literal address, without the brackets of IPv6, is
  parsed to the address; a query for a bracketed IPv6 literal with a port gives that address.
\<close>

definition unbracketed :: "string \<Rightarrow> bool" where
  "unbracketed h = (CHR ''['' \<notin> set h \<and> CHR '']'' \<notin> set h)"

definition host_law :: "net \<Rightarrow> url \<Rightarrow> bool" where
  "host_law net u =
     (case ur_host u of
        None \<Rightarrow> True
      | Some (UrlDomain d) \<Rightarrow> ur_host_str u = Some d \<and> unbracketed d \<and> nt_parse_ip net d = None
      | Some (UrlIpv4 v) \<Rightarrow> (\<exists>h. ur_host_str u = Some h \<and> unbracketed h \<and> nt_parse_ip net h = Some (V4 v))
      | Some (UrlIpv6 v) \<Rightarrow> (\<exists>h. ur_host_str u = Some (''['' @ h @ '']'') \<and> unbracketed h \<and>
          nt_parse_ip net h = Some (V6 v) \<and>
          (\<forall>q p. nt_lookup net q (''['' @ h @ '']:'' @ show_nat p) = Inr [V6 v])))"

definition url_laws :: "net \<Rightarrow> bool" where
  "url_laws net = (\<forall>s u. nt_parse net s = Inr u \<and> ur_scheme u = ''https'' \<longrightarrow> host_law net u)"

definition sample_net :: "string \<Rightarrow> ip_addr \<Rightarrow> net" where
  "sample_net host ip =
     \<lparr>nt_parse = (\<lambda>s. Inr \<lparr>ur_text = s, ur_scheme = ''https'', ur_username = [], ur_password = None,
        ur_host_str = Some host, ur_host = (case ip of V4 v \<Rightarrow> Some (UrlIpv4 v) | V6 v \<Rightarrow> Some (UrlIpv6 v)),
        ur_port = None, ur_port_or_known_default = Some 443\<rparr>),
      nt_join = (\<lambda>_ _. Inl []), nt_parse_ip = (\<lambda>s. if s = strip_brackets host then Some ip else None),
      nt_show_ip = (\<lambda>_. host), nt_show_host = (\<lambda>_. host), nt_lookup = (\<lambda>_ _. Inr [ip]),
      nt_lookup_pair = (\<lambda>_ _ _. Inr [ip])\<rparr>"

text \<open>A domain whose first query gives a public address and every later one the loopback address.\<close>

definition rebinding_net :: net where
  "rebinding_net =
     (let answer = (\<lambda>q. Inr [if q = 0 then V4 (Ipv4 93 184 216 34) else V4 (Ipv4 127 0 0 1)])
      in \<lparr>nt_parse = (\<lambda>s. Inr \<lparr>ur_text = s, ur_scheme = ''https'', ur_username = [], ur_password = None,
             ur_host_str = Some ''example.com'', ur_host = Some (UrlDomain ''example.com''), ur_port = None,
             ur_port_or_known_default = Some 443\<rparr>),
          nt_join = (\<lambda>_ _. Inl []), nt_parse_ip = (\<lambda>_. None), nt_show_ip = (\<lambda>_. []),
          nt_show_host = (\<lambda>_. ''example.com''), nt_lookup = (\<lambda>q _. answer q), nt_lookup_pair = (\<lambda>q _ _. answer q)\<rparr>)"

section \<open>Lemmas\<close>

lemma first_blocked_None: "first_blocked b ips = None \<longleftrightarrow> \<not> list_ex b ips"
  by (auto simp: first_blocked_def find_None_iff list_ex_iff)

lemma validate_addrs_None: "validate_addrs host ips = None \<longleftrightarrow> \<not> list_ex (\<lambda>ip. fetch_ip_rejected (normalize_ip ip)) ips"
  by (induction ips) (auto simp: validate_fetch_ip_def split: option.splits)

lemma normalize_host_unbracketed:
  assumes "unbracketed h"
  shows "normalize_host h = h" "normalize_host (''['' @ h @ '']'') = h"
proof -
  have same: "dropWhile (\<lambda>x. x = c) xs = xs" if "c \<notin> set xs" for c and xs :: string
    using that by (cases xs) auto
  show "normalize_host h = h"
    using assms by (simp add: normalize_host_def trim_start_char_def trim_end_char_def unbracketed_def same)
  have "dropWhile (\<lambda>x. x = CHR ''['') (h @ '']'') = h @ '']''"
    using assms by (cases h) (auto simp: unbracketed_def)
  then show "normalize_host (''['' @ h @ '']'') = h"
    using assms by (simp add: normalize_host_def trim_start_char_def trim_end_char_def unbracketed_def same)
qed

lemma normalize_ip_internal: "reaches_internal (normalize_ip ip) = reaches_internal ip"
  by (auto simp: normalize_ip_def reaches_internal_def split: ip_addr.splits option.splits)

text \<open>
  A client reaches nothing internal when a literal address in the URL was screened, and when it is
  pinned to screened addresses under the very name of a domain.
\<close>

lemma connect_targets_safe:
  assumes "\<And>v. ur_host u = Some (UrlIpv4 v) \<Longrightarrow> \<not> reaches_internal (V4 v)"
    and "\<And>v. ur_host u = Some (UrlIpv6 v) \<Longrightarrow> \<not> reaches_internal (V6 v)"
    and "\<And>d. ur_host u = Some (UrlDomain d) \<Longrightarrow>
      \<exists>addrs. client = PinnedClient d addrs \<and> list_all (\<lambda>ip. \<not> reaches_internal ip) addrs"
  shows "list_all (\<lambda>ip. \<not> reaches_internal ip) (connect_targets net later u client)"
  using assms by (auto simp: connect_targets_def split: option.splits url_host.splits)

lemma url_lawsD: "url_laws net \<Longrightarrow> nt_parse net s = Inr u \<Longrightarrow> ur_scheme u = ''https'' \<Longrightarrow> host_law net u"
  by (simp add: url_laws_def)

lemma http_targets_safe:
  assumes "url_laws net"
  shows "list_all (\<lambda>ip. \<not> reaches_internal ip) (http_targets net q later s)"
proof (cases "validate_url net s")
  case (Inr u)
  then have p: "nt_parse net s = Inr u" "ur_scheme u = ''https''"
    and lit: "\<And>h ip. ur_host_str u = Some h \<Longrightarrow> nt_parse_ip net h = Some ip \<Longrightarrow> \<not> http_is_disallowed_ip ip"
    by (auto simp: validate_url_def Let_def split: sum.splits option.splits if_splits)
  note law = url_lawsD[OF assms p]
  show ?thesis
  proof (cases "validate_and_resolve_url net q u")
    case res: (Inr addrs)
    then obtain host where host: "ur_host_str u = Some host"
      and addrs: "\<not> list_ex http_is_disallowed_ip addrs"
      and look: "nt_lookup net q (host @ '':'' @ show_nat (case ur_port_or_known_default u of Some p \<Rightarrow> p | None \<Rightarrow> 443)) = Inr addrs"
      by (auto simp: validate_and_resolve_url_def Let_def first_blocked_None split: option.splits sum.splits if_splits)
    have safe: "list_all (\<lambda>ip. \<not> reaches_internal ip) addrs" using addrs by (rule http.screened_addresses)
    show ?thesis
      unfolding http_targets_def Inr res host sum.case prod.case option.case build_pinned_client_def
    proof (rule connect_targets_safe)
      show "\<not> reaches_internal (V4 v)" if "ur_host u = Some (UrlIpv4 v)" for v
        using law lit that by (auto simp: host_law_def dest: http.blocks_internal)
      show "\<not> reaches_internal (V6 v)" if "ur_host u = Some (UrlIpv6 v)" for v
        using law that host look safe by (auto simp: host_law_def)
      show "\<exists>addrs'. PinnedClient host addrs = PinnedClient d addrs' \<and> list_all (\<lambda>ip. \<not> reaches_internal ip) addrs'"
        if "ur_host u = Some (UrlDomain d)" for d
        using law that host safe by (auto simp: host_law_def)
    qed
  qed (simp add: http_targets_def Inr)
qed (simp add: http_targets_def)

lemma setup_targets_safe:
  assumes "url_laws net"
  shows "list_all (\<lambda>ip. \<not> reaches_internal ip) (setup_targets net q later s)"
proof (cases "validate_public_https_url net q s")
  case (Inr ua)
  obtain u addrs where ua: "ua = (u, addrs)" by fastforce
  note ok = Inr[unfolded ua]
  have p: "nt_parse net s = Inr u" "ur_scheme u = ''https''"
    using ok by (auto simp: validate_public_https_url_def Let_def split: sum.splits option.splits url_host.splits if_splits)
  note law = url_lawsD[OF assms p]
  show ?thesis
    unfolding setup_targets_def Inr ua sum.case prod.case
  proof (rule connect_targets_safe)
    show "\<not> reaches_internal (V4 v)" if "ur_host u = Some (UrlIpv4 v)" for v
      using ok that p
      by (auto simp: validate_public_https_url_def Let_def dest: channel_setup.blocks_internal split: option.splits if_splits)
    show "\<not> reaches_internal (V6 v)" if "ur_host u = Some (UrlIpv6 v)" for v
      using ok that p normalize_ip_internal[of "V6 v"]
      by (auto simp: validate_public_https_url_def Let_def dest: channel_setup.blocks_internal split: option.splits if_splits)
    show "\<exists>addrs'. validation_client u addrs = PinnedClient d addrs' \<and> list_all (\<lambda>ip. \<not> reaches_internal ip) addrs'"
      if "ur_host u = Some (UrlDomain d)" for d
      using ok that p law
      by (auto simp: validate_public_https_url_def Let_def first_blocked_None validation_client_def host_law_def
          intro: channel_setup.screened_addresses split: option.splits if_splits sum.splits)
  qed
qed (simp add: setup_targets_def)

lemma skill_targets_safe: "list_all (\<lambda>ip. \<not> reaches_internal ip) (skill_targets net q later s)"
proof (cases "validate_fetch_url net s")
  case (Inr u)
  have v4: "normalize_ip (V4 v) = V4 v" for v by (simp add: normalize_ip_def)
  show ?thesis
  proof (cases "build_safe_fetch_client net q u")
    case client: (Inr client)
    show ?thesis
      unfolding skill_targets_def Inr client sum.case
    proof (rule connect_targets_safe)
      show "\<not> reaches_internal (V4 v)" if "ur_host u = Some (UrlIpv4 v)" for v
        using Inr that v4[of v]
        by (auto simp: validate_fetch_url_def host_ip_addr_def validate_fetch_ip_def dest: skill.blocks_internal
            split: sum.splits option.splits if_splits)
      show "\<not> reaches_internal (V6 v)" if "ur_host u = Some (UrlIpv6 v)" for v
        using Inr that
        by (auto simp: validate_fetch_url_def host_ip_addr_def validate_fetch_ip_def dest: skill.blocks_internal
            split: sum.splits option.splits if_splits)
      show "\<exists>addrs. client = PinnedClient d addrs \<and> list_all (\<lambda>ip. \<not> reaches_internal ip) addrs"
        if "ur_host u = Some (UrlDomain d)" for d
        using client that
        by (auto simp: build_safe_fetch_client_def validate_resolved_addrs_def validate_addrs_None
            intro: skill.screened_addresses split: sum.splits option.splits if_splits)
    qed
  qed (simp add: skill_targets_def Inr)
qed (simp add: skill_targets_def)

lemma webhook_targets_safe:
  assumes "url_laws net"
  shows "list_all (\<lambda>ip. \<not> reaches_internal ip) (webhook_targets net q later s)"
proof (cases "(validate_webhook_url net [] s, dispatch_client_for_target net q s)")
  case (Pair v c)
  show ?thesis
  proof (cases "\<exists>u client. v = Inr u \<and> c = Inr client")
    case True
    then obtain u client where vc: "v = Inr u" "c = Inr client" by blast
    have p: "nt_parse net s = Inr u" "ur_scheme u = ''https''"
      using Pair vc by (auto simp: validate_webhook_url_def Let_def split: sum.splits option.splits if_splits)
    note law = url_lawsD[OF assms p]
    show ?thesis
      unfolding webhook_targets_def Pair vc sum.case prod.case
    proof (rule connect_targets_safe)
      show "\<not> reaches_internal (V4 v)" if "ur_host u = Some (UrlIpv4 v)" for v
        using Pair vc that p law
        by (auto simp: dispatch_client_for_target_def host_law_def Let_def normalize_host_unbracketed
            dest: webhook.blocks_internal split: if_splits)
      show "\<not> reaches_internal (V6 v)" if "ur_host u = Some (UrlIpv6 v)" for v
        using Pair vc that p law normalize_host_unbracketed(2)
        by (auto simp: dispatch_client_for_target_def host_law_def Let_def
            dest: webhook.blocks_internal split: if_splits)
      show "\<exists>addrs. client = PinnedClient d addrs \<and> list_all (\<lambda>ip. \<not> reaches_internal ip) addrs"
        if "ur_host u = Some (UrlDomain d)" for d
        using Pair vc that p law
        by (auto simp: dispatch_client_for_target_def host_law_def Let_def normalize_host_unbracketed
            first_blocked_None intro: webhook.screened_addresses split: if_splits sum.splits option.splits)
    qed
  qed (auto simp: webhook_targets_def Pair split: sum.splits)
qed

section \<open>Properties\<close>

text \<open>
  C7. None of the addresses that the clients of the HTTP tool, the channel setup, the download of skills
  and the webhooks connect to reaches the host itself or a network it is in, whatever the resolver
  answers to the query of the check and whatever it would answer to a later query of the client: each
  of these clients connects to an address that stands in the URL and was screened, or is pinned, under
  the name in the URL, to addresses that were. The URL library and the resolver are assumed to treat
  literal addresses and domains as documented (\<open>url_laws\<close>).
\<close>

theorem guarded_clients_confined:
  assumes "url_laws net"
  shows "list_all (\<lambda>ip. \<not> reaches_internal ip)
     (http_targets net q later s @ setup_targets net q later s @
      skill_targets net q later s @ webhook_targets net q later s)"
  using assms by (simp add: http_targets_safe setup_targets_safe skill_targets_safe webhook_targets_safe)

theorem guarded_clients_confined_witness:
  "reaches_internal (V4 (Ipv4 127 0 0 1)) \<and>
   nt_lookup_pair rebinding_net 1 ''example.com'' 443 = Inr [V4 (Ipv4 127 0 0 1)] \<and>
   skill_targets rebinding_net 0 1 ''https://example.com'' = [V4 (Ipv4 93 184 216 34)] \<and>
   list_all (\<lambda>ip. \<not> reaches_internal ip)
     (http_targets rebinding_net 0 1 ''https://example.com'' @ setup_targets rebinding_net 0 1 ''https://example.com'' @
      skill_targets rebinding_net 0 1 ''https://example.com'' @ webhook_targets rebinding_net 0 1 ''https://example.com'')"
proof -
  have "url_laws rebinding_net"
    by (auto simp: url_laws_def rebinding_net_def host_law_def unbracketed_def Let_def)
  note guarded_clients_confined[OF this, of 0 1 "''https://example.com''"]
  moreover have "skill_targets rebinding_net 0 1 ''https://example.com'' = [V4 (Ipv4 93 184 216 34)]"
    by code_simp
  moreover have "reaches_internal (V4 (Ipv4 127 0 0 1))" by code_simp
  moreover have "nt_lookup_pair rebinding_net 1 ''example.com'' 443 = Inr [V4 (Ipv4 127 0 0 1)]"
    by (simp add: rebinding_net_def Let_def)
  ultimately show ?thesis by blast
qed

text \<open>
  The check of the WASM host function accepts a URL whose host is an IPv4-mapped IPv6 address,
  whichever IPv4 address it carries.
\<close>

theorem wasm_guard_accepts_mapped:
  assumes "nt_parse net s = Inr u" "ur_scheme u = ''https'' \<or> ur_scheme u = ''http''" "\<not> has_userinfo u"
    and "ur_host_str u = Some host" "nt_parse_ip net (strip_brackets host) = Some (V6 (to_ipv6_mapped v))"
  shows "reject_private_ip net q s = Inr ()"
proof -
  have "\<not> wasm_is_private_ip (V6 (to_ipv6_mapped v))"
    using to_ipv4_mapped_inverse [of v] by (simp add: wasm_is_private_ip_def mapped_not_special mapped_segment0)
  then show ?thesis using assms by (auto simp: reject_private_ip_def)
qed

theorem wasm_guard_accepts_mapped_witness:
  "reject_private_ip (sample_net ''[::ffff:127.0.0.1]'' (V6 (to_ipv6_mapped (Ipv4 127 0 0 1)))) 0
     ''https://[::ffff:127.0.0.1]/'' = Inr ()"
  by (rule wasm_guard_accepts_mapped [where v = "Ipv4 127 0 0 1"])
    (auto simp: sample_net_def has_userinfo_def)

end
