(* ===== verification/Leak_Detector.thy ===== *)
theory Leak_Detector
  imports Strings "HOL-Library.Multiset"
begin

text \<open>
  The leak detector of the safety crate, \<open>crates/ironclaw_safety/src/leak_detector.rs\<close>. A pattern keeps
  the text of its regular expression. The regex engine and the Aho-Corasick automaton are parameters,
  the fields of \<open>matchers\<close>: all matches of an expression in a text, as spans; whether an automaton can
  be built from a list of words; and the matches it reports, as the index of the word and its span.
\<close>

section \<open>Model\<close>

datatype leak_action = LeakBlock | LeakRedact | LeakWarn

datatype leak_severity = SeverityLow | SeverityMedium | SeverityHigh | SeverityCritical

fun severity_rank :: "leak_severity \<Rightarrow> nat" where
  "severity_rank SeverityLow = 0"
| "severity_rank SeverityMedium = 1"
| "severity_rank SeverityHigh = 2"
| "severity_rank SeverityCritical = 3"

instantiation leak_severity :: linorder
begin

definition less_eq_leak_severity :: "leak_severity \<Rightarrow> leak_severity \<Rightarrow> bool" where
  "less_eq_leak_severity a b = (severity_rank a \<le> severity_rank b)"

definition less_leak_severity :: "leak_severity \<Rightarrow> leak_severity \<Rightarrow> bool" where
  "less_leak_severity a b = (severity_rank a < severity_rank b)"

instance
proof
  fix a b c :: leak_severity
  show "(a < b) = (a \<le> b \<and> \<not> b \<le> a)"
    by (auto simp: less_eq_leak_severity_def less_leak_severity_def)
  show "a \<le> a" by (simp add: less_eq_leak_severity_def)
  show "a \<le> b \<Longrightarrow> b \<le> c \<Longrightarrow> a \<le> c" by (simp add: less_eq_leak_severity_def)
  show "a \<le> b \<Longrightarrow> b \<le> a \<Longrightarrow> a = b" by (cases a; cases b) (auto simp: less_eq_leak_severity_def)
  show "a \<le> b \<or> b \<le> a" by (auto simp: less_eq_leak_severity_def)
qed

end

record leak_pattern =
  lp_name :: string
  lp_regex :: string
  lp_severity :: leak_severity
  lp_action :: leak_action

type_synonym span = "nat \<times> nat"

record leak_match =
  lm_pattern_name :: string
  lm_severity :: leak_severity
  lm_action :: leak_action
  lm_location :: span
  lm_masked_preview :: string

record leak_scan_result =
  sr_matches :: "leak_match list"
  sr_should_block :: bool
  sr_redacted_content :: "string option"

definition is_clean :: "leak_scan_result \<Rightarrow> bool" where
  "is_clean r = (sr_matches r = [])"

definition max_severity :: "leak_scan_result \<Rightarrow> leak_severity option" where
  "max_severity r = (if sr_matches r = [] then None else Some (Max (set (map lm_severity (sr_matches r)))))"

record matchers =
  mt_find_iter :: "string \<Rightarrow> string \<Rightarrow> span list"
  mt_build :: "string list \<Rightarrow> bool"
  mt_ac_find_iter :: "string list \<Rightarrow> string \<Rightarrow> (nat \<times> span) list"

text \<open>The automaton is the list of the words it was built from.\<close>

record leak_detector =
  ld_patterns :: "leak_pattern list"
  ld_prefix_matcher :: "string list option"
  ld_known_prefixes :: "(string \<times> nat) list"

definition is_regex_special :: "char \<Rightarrow> bool" where
  "is_regex_special c =
     (c \<in> {CHR ''['', CHR ''('', CHR ''.'', CHR ''*'', CHR ''+'', CHR ''?'', CHR ''{'', CHR ''|'', CHR ''^'',
            CHR ''$'', CHR 0x5C})"

definition extract_literal_prefix :: "string \<Rightarrow> string option" where
  "extract_literal_prefix pattern =
     (let p = takeWhile (\<lambda>c. \<not> is_regex_special c) pattern
      in if length p \<ge> 3 then Some p else None)"

definition literal_prefixes :: "leak_pattern list \<Rightarrow> (string \<times> nat) list" where
  "literal_prefixes patterns =
     List.map_filter
       (\<lambda>(idx, pattern). case extract_literal_prefix (lp_regex pattern) of
          Some p \<Rightarrow> if length p \<ge> 3 then Some (p, idx) else None
        | None \<Rightarrow> None)
       (enumerate 0 patterns)"

definition with_patterns :: "matchers \<Rightarrow> leak_pattern list \<Rightarrow> leak_detector" where
  "with_patterns mt patterns =
     (let prefixes = literal_prefixes patterns
      in \<lparr>ld_patterns = patterns,
          ld_prefix_matcher =
            (if prefixes \<noteq> [] \<and> mt_build mt (map fst prefixes) then Some (map fst prefixes) else None),
          ld_known_prefixes = prefixes\<rparr>)"

definition add_pattern :: "leak_pattern \<Rightarrow> leak_detector \<Rightarrow> leak_detector" where
  "add_pattern p d = d\<lparr>ld_patterns := ld_patterns d @ [p]\<rparr>"

definition related :: "string \<Rightarrow> string \<Rightarrow> bool" where
  "related p q = (starts_with q p \<or> starts_with p q)"

definition push_index :: "nat \<Rightarrow> nat list \<Rightarrow> nat list" where
  "push_index i indices = (if i \<in> set indices then indices else indices @ [i])"

definition push_related :: "(string \<times> nat) list \<Rightarrow> string \<Rightarrow> nat list \<Rightarrow> nat list" where
  "push_related known found indices =
     fold (\<lambda>(p, i) acc. if related p found then push_index i acc else acc) known indices"

definition candidate_indices :: "matchers \<Rightarrow> leak_detector \<Rightarrow> string \<Rightarrow> nat list" where
  "candidate_indices mt d content =
     (case ld_prefix_matcher d of
        Some words \<Rightarrow>
          (let found = fold (\<lambda>(k, _). push_related (ld_known_prefixes d) (fst (ld_known_prefixes d ! k)))
                         (mt_ac_find_iter mt words content) []
           in fold (\<lambda>i acc. if i \<in> snd ` set (ld_known_prefixes d) then acc else push_index i acc)
                [0..<length (ld_patterns d)] found)
      | None \<Rightarrow> [0..<length (ld_patterns d)])"

definition mask_secret :: "string \<Rightarrow> string" where
  "mask_secret secret =
     (let len = length secret
      in if len \<le> 8 then replicate len CHR ''*''
         else take 4 secret @ replicate (min (len - 8) 8) CHR ''*'' @ drop (len - 4) secret)"

definition span_of :: "string \<Rightarrow> span \<Rightarrow> string" where
  "span_of content r = take (snd r - fst r) (drop (fst r) content)"

definition pattern_matches :: "matchers \<Rightarrow> string \<Rightarrow> leak_pattern \<Rightarrow> leak_match list" where
  "pattern_matches mt content p =
     map (\<lambda>r. \<lparr>lm_pattern_name = lp_name p, lm_severity = lp_severity p, lm_action = lp_action p,
                lm_location = r, lm_masked_preview = mask_secret (span_of content r)\<rparr>)
       (mt_find_iter mt (lp_regex p) content)"

fun redact_from :: "string \<Rightarrow> nat \<Rightarrow> span list \<Rightarrow> string" where
  "redact_from content last_end [] = (if last_end < length content then drop last_end content else [])"
| "redact_from content last_end (r # rs) =
     (if fst r > last_end then span_of content (last_end, fst r) else []) @ ''[REDACTED]'' @
     redact_from content (snd r) rs"

definition apply_redactions :: "string \<Rightarrow> span list \<Rightarrow> string" where
  "apply_redactions content ranges = (if ranges = [] then content else redact_from content 0 ranges)"

definition scan_indices :: "matchers \<Rightarrow> leak_detector \<Rightarrow> string \<Rightarrow> nat list \<Rightarrow> leak_scan_result" where
  "scan_indices mt d content indices =
     (let matches = concat (map (\<lambda>i. pattern_matches mt content (ld_patterns d ! i)) indices);
          redact_ranges = map lm_location (filter (\<lambda>m. lm_action m = LeakRedact) matches);
          sorted_ranges = sort_key fst redact_ranges
      in \<lparr>sr_matches = sort_key (\<lambda>m. fst (lm_location m)) matches,
          sr_should_block = list_ex (\<lambda>m. lm_action m = LeakBlock) matches,
          sr_redacted_content = (if sorted_ranges \<noteq> [] then Some (apply_redactions content sorted_ranges) else None)\<rparr>)"

definition leak_scan :: "matchers \<Rightarrow> leak_detector \<Rightarrow> string \<Rightarrow> leak_scan_result" where
  "leak_scan mt d content = scan_indices mt d content (candidate_indices mt d content)"

text \<open>Pattern and preview.\<close>

datatype leak_detection_error = SecretLeakBlocked string string

definition show_leak_error :: "leak_detection_error \<Rightarrow> string" where
  "show_leak_error e =
     (case e of SecretLeakBlocked pattern preview \<Rightarrow>
        ''Secret leak blocked: pattern '' @ quoted pattern @ '' matched '' @ quoted preview)"

definition scan_and_clean :: "matchers \<Rightarrow> leak_detector \<Rightarrow> string \<Rightarrow> (leak_detection_error, string) result" where
  "scan_and_clean mt d content =
     (let r = leak_scan mt d content
      in if sr_should_block r
         then (case List.find (\<lambda>m. lm_action m = LeakBlock) (sr_matches r) of
                 Some m \<Rightarrow> Inl (SecretLeakBlocked (lm_pattern_name m) (lm_masked_preview m))
               | None \<Rightarrow> Inl (SecretLeakBlocked [] []))
         else Inr (case sr_redacted_content r of Some c \<Rightarrow> c | None \<Rightarrow> content))"

fun scan_headers :: "matchers \<Rightarrow> leak_detector \<Rightarrow> (string \<times> string) list \<Rightarrow> leak_detection_error option" where
  "scan_headers mt d [] = None"
| "scan_headers mt d ((name, v) # hs) =
     (case scan_and_clean mt d v of
        Inl e \<Rightarrow> Some (SecretLeakBlocked (''header:'' @ name) (show_leak_error e))
      | Inr _ \<Rightarrow> scan_headers mt d hs)"

text \<open>The lossy conversion to UTF-8 is the parameter \<open>lossy\<close>.\<close>

definition scan_http_request ::
  "matchers \<Rightarrow> (string \<Rightarrow> string) \<Rightarrow> leak_detector \<Rightarrow> string \<Rightarrow> (string \<times> string) list \<Rightarrow> string option \<Rightarrow>
   leak_detection_error option"
where
  "scan_http_request mt lossy d url headers body =
     (case scan_and_clean mt d url of
        Inl e \<Rightarrow> Some e
      | Inr _ \<Rightarrow>
          (case scan_headers mt d headers of
             Some e \<Rightarrow> Some e
           | None \<Rightarrow>
               (case body of
                  None \<Rightarrow> None
                | Some b \<Rightarrow> (case scan_and_clean mt d (lossy b) of Inl e \<Rightarrow> Some e | Inr _ \<Rightarrow> None))))"

definition leak_pattern_of :: "string \<Rightarrow> string \<Rightarrow> leak_severity \<Rightarrow> leak_action \<Rightarrow> leak_pattern" where
  "leak_pattern_of name regex severity act =
     \<lparr>lp_name = name, lp_regex = regex, lp_severity = severity, lp_action = act\<rparr>"

abbreviation bs :: string where
  "bs \<equiv> [CHR 0x5C]"

definition default_patterns :: "leak_pattern list" where
  "default_patterns =
     [leak_pattern_of ''openai_api_key'' ''sk-(?:proj-)?[a-zA-Z0-9]{20,}(?:T3BlbkFJ[a-zA-Z0-9_-]*)?'' SeverityCritical LeakBlock,
      leak_pattern_of ''anthropic_api_key'' ''sk-ant-api[a-zA-Z0-9_-]{90,}'' SeverityCritical LeakBlock,
      leak_pattern_of ''aws_access_key'' ''AKIA[0-9A-Z]{16}'' SeverityCritical LeakBlock,
      leak_pattern_of ''github_token'' ''gh[pousr]_[A-Za-z0-9_]{36,}'' SeverityCritical LeakBlock,
      leak_pattern_of ''github_fine_grained_pat'' ''github_pat_[a-zA-Z0-9]{22}_[a-zA-Z0-9]{59}'' SeverityCritical LeakBlock,
      leak_pattern_of ''stripe_api_key'' ''sk_(?:live|test)_[a-zA-Z0-9]{24,}'' SeverityCritical LeakBlock,
      leak_pattern_of ''nearai_session'' ''sess_[a-zA-Z0-9]{32,}'' SeverityCritical LeakBlock,
      leak_pattern_of ''pem_private_key''
        (''-----BEGIN'' @ bs @ ''s+(?:RSA'' @ bs @ ''s+)?PRIVATE'' @ bs @ ''s+KEY-----'') SeverityCritical LeakBlock,
      leak_pattern_of ''ssh_private_key''
        (''-----BEGIN'' @ bs @ ''s+(?:OPENSSH|EC|DSA)'' @ bs @ ''s+PRIVATE'' @ bs @ ''s+KEY-----'') SeverityCritical LeakBlock,
      leak_pattern_of ''google_api_key'' ''AIza[0-9A-Za-z_-]{35}'' SeverityHigh LeakBlock,
      leak_pattern_of ''slack_token'' ''xox[baprs]-[0-9a-zA-Z-]{10,}'' SeverityHigh LeakBlock,
      leak_pattern_of ''twilio_api_key'' ''SK[a-fA-F0-9]{32}'' SeverityHigh LeakBlock,
      leak_pattern_of ''sendgrid_api_key'' (''SG'' @ bs @ ''.[a-zA-Z0-9_-]{22}'' @ bs @ ''.[a-zA-Z0-9_-]{43}'') SeverityHigh LeakBlock,
      leak_pattern_of ''bearer_token'' (''Bearer'' @ bs @ ''s+[a-zA-Z0-9_-]{20,}'') SeverityHigh LeakRedact,
      leak_pattern_of ''auth_header''
        (''(?i)authorization:'' @ bs @ ''s*[a-zA-Z]+'' @ bs @ ''s+[a-zA-Z0-9_-]{20,}'') SeverityHigh LeakRedact,
      leak_pattern_of ''high_entropy_hex'' (bs @ ''b[a-fA-F0-9]{64}'' @ bs @ ''b'') SeverityMedium LeakWarn]"

definition leak_detector_new :: "matchers \<Rightarrow> leak_detector" where
  "leak_detector_new mt = with_patterns mt default_patterns"

subsection \<open>Reference definitions\<close>

text \<open>The scan without the prefix filter: every pattern is run.\<close>

definition all_matches :: "matchers \<Rightarrow> leak_pattern list \<Rightarrow> string \<Rightarrow> leak_match list" where
  "all_matches mt patterns content = concat (map (pattern_matches mt content) patterns)"

definition blocks :: "matchers \<Rightarrow> leak_pattern list \<Rightarrow> string \<Rightarrow> bool" where
  "blocks mt patterns content = list_ex (\<lambda>m. lm_action m = LeakBlock) (all_matches mt patterns content)"

definition word_at :: "string list \<Rightarrow> string \<Rightarrow> nat \<Rightarrow> span \<Rightarrow> bool" where
  "word_at words content k r =
     (k < length words \<and> words ! k \<noteq> [] \<and> snd r = fst r + length (words ! k) \<and> prefix (words ! k) (drop (fst r) content))"

text \<open>
  What the automaton's documentation promises of \<open>find_iter\<close> with the standard match kind: matches are
  reported as soon as they are seen, the one that ends first next, and do not overlap.
\<close>

inductive standard_reports :: "string list \<Rightarrow> string \<Rightarrow> nat \<Rightarrow> (nat \<times> span) list \<Rightarrow> bool" for words content where
  no_more: "(\<And>k r. word_at words content k r \<Longrightarrow> fst r < pos) \<Longrightarrow> standard_reports words content pos []"
| next_match: "word_at words content k r \<Longrightarrow> pos \<le> fst r \<Longrightarrow>
    (\<And>k' r'. word_at words content k' r' \<Longrightarrow> pos \<le> fst r' \<Longrightarrow> snd r \<le> snd r') \<Longrightarrow>
    standard_reports words content (snd r) reports \<Longrightarrow>
    standard_reports words content pos ((k, r) # reports)"

text \<open>
  What the documentation of the regex engine promises of an expression that begins with a literal: a
  character that is not a metacharacter matches itself, a repetition operator applies to what stands
  directly before it, and only an alternative outside all groups gives a choice against the literal. So
  when the literal is not followed by an operator that allows zero repetitions and there is no such
  alternative, every match starts with the literal. Comments, which can hold brackets, are left out.
\<close>

definition plain_char :: "char \<Rightarrow> bool" where
  "plain_char c = (c \<notin> {CHR 0x5C, CHR ''.'', CHR ''+'', CHR ''*'', CHR ''?'', CHR ''('', CHR '')'', CHR ''|'', CHR ''['',
     CHR '']'', CHR ''{'', CHR ''}'', CHR ''^'', CHR ''$''})"

fun top_bar :: "nat \<Rightarrow> bool \<Rightarrow> string \<Rightarrow> bool" where
  "top_bar depth in_class [] = False"
| "top_bar depth in_class (c # s) =
     (if c = CHR 0x5C then (case s of [] \<Rightarrow> False | _ # s' \<Rightarrow> top_bar depth in_class s')
      else if in_class then top_bar depth (c \<noteq> CHR '']'') s
      else if c = CHR ''['' then top_bar depth True s
      else if c = CHR ''('' then top_bar (Suc depth) False s
      else if c = CHR '')'' then top_bar (depth - 1) False s
      else if c = CHR ''|'' \<and> depth = 0 then True
      else top_bar depth False s)"

definition follows_literal :: "string \<Rightarrow> bool" where
  "follows_literal rest =
     (\<not> top_bar 0 False rest \<and> CHR ''#'' \<notin> set rest \<and>
      (rest = [] \<or> hd rest \<in> {CHR ''['', CHR ''('', CHR ''.'', CHR ''+'', CHR ''^'', CHR ''$'', CHR 0x5C}))"

definition regex_law :: "matchers \<Rightarrow> string \<Rightarrow> bool" where
  "regex_law mt content =
     (\<forall>lit rest. list_all plain_char lit \<longrightarrow> follows_literal rest \<longrightarrow>
        list_all (\<lambda>r. prefix lit (drop (fst r) content)) (mt_find_iter mt (lit @ rest) content))"

text \<open>The expressions that consist of a literal, which may be empty, and such a rest.\<close>

definition literal_first :: "string \<Rightarrow> bool" where
  "literal_first re = follows_literal (dropWhile plain_char re)"

text \<open>The extracted prefixes are right: a match of an expression starts with its prefix.\<close>

definition literal_matches :: "matchers \<Rightarrow> leak_pattern list \<Rightarrow> string \<Rightarrow> bool" where
  "literal_matches mt patterns content =
     list_all (\<lambda>(p, i). list_all (\<lambda>r. prefix p (drop (fst r) content)) (mt_find_iter mt (lp_regex (patterns ! i)) content))
       (literal_prefixes patterns)"

definition may_overlap :: "string \<Rightarrow> string \<Rightarrow> bool" where
  "may_overlap p q = list_ex (\<lambda>d. prefix (drop d p) q \<or> prefix q (drop d p)) [0..<length p]"

definition overlap_free :: "string list \<Rightarrow> bool" where
  "overlap_free words = list_all (\<lambda>p. list_all (\<lambda>q. related p q \<or> \<not> may_overlap p q) words) words"

text \<open>No occurrence of a word in the text overlaps one of an unrelated word.\<close>

definition unmixed :: "string list \<Rightarrow> string \<Rightarrow> bool" where
  "unmixed words content =
     (\<forall>k r k' r'. word_at words content k r \<longrightarrow> word_at words content k' r' \<longrightarrow> fst r' < snd r \<longrightarrow> fst r < snd r' \<longrightarrow>
        related (words ! k) (words ! k'))"

text \<open>All occurrences of the words, and a check that a list of reports is what is promised.\<close>

definition occurrences :: "string list \<Rightarrow> string \<Rightarrow> (nat \<times> span) list" where
  "occurrences words content =
     concat (map (\<lambda>s. map (\<lambda>(k, w). (k, (s, s + length w)))
                       (filter (\<lambda>(k, w). w \<noteq> [] \<and> prefix w (drop s content)) (enumerate 0 words)))
               [0..<length content])"

fun check_reports :: "(nat \<times> span) list \<Rightarrow> nat \<Rightarrow> (nat \<times> span) list \<Rightarrow> bool" where
  "check_reports occs pos [] = list_all (\<lambda>(k, r). fst r < pos) occs"
| "check_reports occs pos ((k, r) # rs) =
     ((k, r) \<in> set occs \<and> pos \<le> fst r \<and> list_all (\<lambda>(k', r'). pos \<le> fst r' \<longrightarrow> snd r \<le> snd r') occs \<and>
      check_reports occs (snd r) rs)"

definition in_span :: "nat \<Rightarrow> span \<Rightarrow> bool" where
  "in_span i r = (fst r \<le> i \<and> i < snd r)"

text \<open>
  Two patterns of the default list, a text with a Slack token, and what the engines find there, with
  these two patterns and with the default ones.
\<close>

definition sample_leak_patterns :: "leak_pattern list" where
  "sample_leak_patterns =
     [leak_pattern_of ''slack_token'' ''xox[baprs]-[0-9a-zA-Z-]{10,}'' SeverityHigh LeakBlock,
      leak_pattern_of ''aws_access_key'' ''AKIA[0-9A-Z]{16}'' SeverityCritical LeakBlock]"

definition sample_matchers :: matchers where
  "sample_matchers =
     \<lparr>mt_find_iter = (\<lambda>re c. if re = ''xox[baprs]-[0-9a-zA-Z-]{10,}'' then [(3, 18)] else []),
      mt_build = (\<lambda>_. True), mt_ac_find_iter = (\<lambda>_ _. [(0, (3, 6))])\<rparr>"

definition slack_matchers :: matchers where
  "slack_matchers = sample_matchers\<lparr>mt_ac_find_iter := (\<lambda>_ _. [(9, (3, 6))])\<rparr>"

text \<open>A Google key after the first letters of an AWS key.\<close>

definition hidden_google_key :: string where
  "hidden_google_key = ''AKIAIzaSyA0b1c2d3e4f5g6h7i8j9k0l1m2n3o4p5q''"

section \<open>Lemmas\<close>

subsection \<open>Candidates\<close>

lemma push_index_simps [simp]:
  "set (push_index i xs) = insert i (set xs)"
  "distinct xs \<Longrightarrow> distinct (push_index i xs)"
  by (auto simp: push_index_def)

lemma push_related_set:
  "set (push_related known found xs) = set xs \<union> {i. \<exists>p. (p, i) \<in> set known \<and> related p found}"
  by (induction known arbitrary: xs) (auto simp: push_related_def split: if_splits)

lemma push_related_distinct: "distinct xs \<Longrightarrow> distinct (push_related known found xs)"
  by (induction known arbitrary: xs) (auto simp: push_related_def)

lemma push_all_related_set:
  "set (fold (\<lambda>(k, _). push_related known (fst (known ! k))) reports xs) =
     set xs \<union> {i. \<exists>k r p. (k, r) \<in> set reports \<and> (p, i) \<in> set known \<and> related p (fst (known ! k))}"
  by (induction reports arbitrary: xs) (auto simp: push_related_set)

lemma push_all_related_distinct:
  "distinct xs \<Longrightarrow> distinct (fold (\<lambda>(k, _). push_related known (fst (known ! k))) reports xs)"
  by (induction reports arbitrary: xs) (auto simp: push_related_distinct)

lemma push_rest_set:
  "set (fold (\<lambda>i acc. if i \<in> A then acc else push_index i acc) is xs) = set xs \<union> {i \<in> set is. i \<notin> A}"
  by (induction "is" arbitrary: xs) auto

lemma push_rest_distinct:
  "distinct xs \<Longrightarrow> distinct (fold (\<lambda>i acc. if i \<in> A then acc else push_index i acc) is xs)"
  by (induction "is" arbitrary: xs) auto

lemma literal_prefixes_mem:
  "(p, i) \<in> set (literal_prefixes patterns) \<longleftrightarrow>
     i < length patterns \<and> extract_literal_prefix (lp_regex (patterns ! i)) = Some p"
proof -
  have "length q \<ge> 3" if "extract_literal_prefix r = Some q" for r q
    using that by (auto simp: extract_literal_prefix_def Let_def split: if_splits)
  then show ?thesis
    by (force simp: literal_prefixes_def map_filter_def in_set_enumerate_eq image_iff split: option.splits)
qed

lemma candidate_indices_distinct: "distinct (candidate_indices mt d content)"
  by (auto simp: candidate_indices_def Let_def push_rest_distinct push_all_related_distinct split: option.splits)

lemma candidate_indices_set:
  assumes "d = with_patterns mt patterns"
  shows "set (candidate_indices mt d content) =
    (case ld_prefix_matcher d of
       None \<Rightarrow> {..<length patterns}
     | Some words \<Rightarrow>
         {i. i < length patterns \<and>
           (\<forall>p. (p, i) \<in> set (literal_prefixes patterns) \<longrightarrow>
              (\<exists>k r. (k, r) \<in> set (mt_ac_find_iter mt words content) \<and> related p (fst (literal_prefixes patterns ! k))))})"
proof (cases "ld_prefix_matcher d")
  case None
  then show ?thesis using assms
    by (simp add: candidate_indices_def with_patterns_def Let_def lessThan_atLeast0)
next
  case (Some words)
  let ?lp = "literal_prefixes patterns" and ?ms = "mt_ac_find_iter mt words content"
  have d: "ld_known_prefixes d = ?lp" "ld_patterns d = patterns"
    using assms by (simp_all add: with_patterns_def Let_def)
  have "set (candidate_indices mt d content) =
      {i. \<exists>k r p. (k, r) \<in> set ?ms \<and> (p, i) \<in> set ?lp \<and> related p (fst (?lp ! k))} \<union>
      {i \<in> {..<length patterns}. i \<notin> snd ` set ?lp}"
    unfolding candidate_indices_def Some option.case Let_def push_rest_set push_all_related_set d by auto
  also have "\<dots> = {i. i < length patterns \<and> (\<forall>p. (p, i) \<in> set ?lp \<longrightarrow>
      (\<exists>k r. (k, r) \<in> set ?ms \<and> related p (fst (?lp ! k))))}"
    (is "?L = ?R")
  proof (intro set_eqI)
    fix i
    have uniq: "p = q" "i < length patterns" if "(p, i) \<in> set ?lp" "(q, i) \<in> set ?lp" for p q
      using that by (simp_all add: literal_prefixes_mem)
    have "i \<in> snd ` set ?lp \<longleftrightarrow> (\<exists>p. (p, i) \<in> set ?lp)" by force
    then show "i \<in> ?L \<longleftrightarrow> i \<in> ?R" using uniq by blast
  qed
  finally show ?thesis by (simp add: Some)
qed

subsection \<open>Reports of the automaton cover every occurrence\<close>

lemma standard_reports_sound:
  "standard_reports words content pos reports \<Longrightarrow> (k, r) \<in> set reports \<Longrightarrow> word_at words content k r"
  by (induction rule: standard_reports.induct) auto

lemma standard_reports_cover:
  assumes "standard_reports words content pos reports" "word_at words content k r" "pos \<le> fst r"
  shows "\<exists>k' r'. (k', r') \<in> set reports \<and> fst r' < snd r \<and> fst r < snd r'"
  using assms
proof (induction rule: standard_reports.induct)
  case (no_more pos)
  then show ?case by fastforce
next
  case (next_match k0 r0 pos reports)
  show ?case
  proof (cases "snd r0 \<le> fst r")
    case True
    then show ?thesis using next_match by auto
  next
    case False
    have "fst r0 < snd r0" using next_match.hyps(1) by (auto simp: word_at_def)
    moreover have "snd r0 \<le> snd r" using next_match by blast
    ultimately show ?thesis using False by (intro exI [of _ k0] exI [of _ r0]) auto
  qed
qed

lemma occurrences_iff: "(k, r) \<in> set (occurrences words content) \<longleftrightarrow> word_at words content k r"
proof -
  have "fst r < length content" if "w \<noteq> []" "prefix w (drop (fst r) content)" for w
    using that by (cases "fst r < length content") auto
  then show ?thesis
    by (cases r) (force simp: occurrences_def word_at_def in_set_enumerate_eq image_iff)
qed

lemma check_reports_sound:
  "check_reports (occurrences words content) pos rs \<Longrightarrow> standard_reports words content pos rs"
proof (induction "occurrences words content" pos rs rule: check_reports.induct)
  case (1 pos)
  then show ?case by (intro no_more) (auto simp: list_all_iff occurrences_iff [symmetric])
next
  case (2 pos k r rs)
  then show ?case by (intro next_match) (auto simp: list_all_iff occurrences_iff [symmetric])
qed

inductive_cases standard_reports_E: "standard_reports words content pos reports"

lemma overlapping_words:
  assumes "prefix p (drop s content)" "prefix q (drop i content)" "s \<le> i" "i < s + length p"
  shows "may_overlap p q"
proof -
  let ?d = "i - s"
  obtain rest where "drop s content = p @ rest" using assms(1) by (auto simp: prefix_def)
  then have "drop ?d (drop s content) = drop ?d p @ rest" using assms(3,4) by simp
  then have "drop i content = drop ?d p @ rest" using assms(3) by simp
  then have "prefix (drop ?d p) (drop i content)" by simp
  then have "prefix (drop ?d p) q \<or> prefix q (drop ?d p)"
    using assms(2) by (meson prefix_same_cases)
  then show ?thesis using assms(3,4) by (auto simp: may_overlap_def list_ex_iff intro!: bexI [of _ ?d])
qed

lemma overlap_free_related:
  assumes "overlap_free words" "word_at words content k r" "word_at words content k' r'"
    "fst r' < snd r" "fst r < snd r'"
  shows "related (words ! k) (words ! k')"
proof -
  have mem: "words ! k \<in> set words" "words ! k' \<in> set words" using assms(2,3) by (auto simp: word_at_def)
  have "may_overlap (words ! k) (words ! k') \<or> may_overlap (words ! k') (words ! k)"
    using assms(2-5) overlapping_words [of "words ! k" "fst r" content "words ! k'" "fst r'"]
      overlapping_words [of "words ! k'" "fst r'" content "words ! k" "fst r"]
    by (cases "fst r \<le> fst r'") (auto simp: word_at_def)
  then show ?thesis using assms(1) mem by (auto simp: overlap_free_def list_all_iff related_def)
qed

lemma overlap_free_unmixed: "overlap_free words \<Longrightarrow> unmixed words content"
  unfolding unmixed_def using overlap_free_related by blast

lemma unmixed_occurrences:
  "unmixed words content \<longleftrightarrow>
     list_all (\<lambda>(k, r). list_all (\<lambda>(k', r'). fst r' < snd r \<longrightarrow> fst r < snd r' \<longrightarrow> related (words ! k) (words ! k'))
       (occurrences words content)) (occurrences words content)"
  unfolding unmixed_def occurrences_iff[symmetric] list_all_iff by fast

text \<open>The extracted prefix of an expression that is a literal and a rest is the literal.\<close>

lemma extract_is_literal:
  assumes "literal_first re" "extract_literal_prefix re = Some p"
  shows "list_all plain_char p \<and> (\<exists>rest. re = p @ rest \<and> follows_literal rest)"
proof -
  have special: "is_regex_special c \<Longrightarrow> \<not> plain_char c" for c by (auto simp: is_regex_special_def plain_char_def)
  let ?rest = "dropWhile plain_char re"
  have split: "re = takeWhile plain_char re @ ?rest" by simp
  have "takeWhile (\<lambda>c. \<not> is_regex_special c) rest = []" if "follows_literal rest" for rest
    using that by (cases rest) (auto simp: follows_literal_def is_regex_special_def)
  then have "takeWhile (\<lambda>c. \<not> is_regex_special c) ?rest = []" using assms(1) by (simp add: literal_first_def)
  moreover have "takeWhile (\<lambda>c. \<not> is_regex_special c) (takeWhile plain_char re @ ?rest) =
      takeWhile plain_char re @ takeWhile (\<lambda>c. \<not> is_regex_special c) ?rest"
    using special by (intro takeWhile_append2) (auto dest: set_takeWhileD)
  ultimately have "takeWhile (\<lambda>c. \<not> is_regex_special c) re = takeWhile plain_char re"
    using split by simp
  then have "p = takeWhile plain_char re"
    using assms(2) by (auto simp: extract_literal_prefix_def Let_def split: if_splits)
  moreover have "list_all plain_char (takeWhile plain_char re)" by (auto simp: list_all_iff dest: set_takeWhileD)
  ultimately show ?thesis
    using assms(1) split unfolding literal_first_def by metis
qed

lemma prefixes_right:
  assumes "list_all (\<lambda>p. literal_first (lp_regex p)) patterns" "regex_law mt content"
  shows "literal_matches mt patterns content"
proof -
  have "list_all (\<lambda>r. prefix p (drop (fst r) content)) (mt_find_iter mt (lp_regex (patterns ! i)) content)"
    if "(p, i) \<in> set (literal_prefixes patterns)" for p i
  proof -
    have i: "i < length patterns" "extract_literal_prefix (lp_regex (patterns ! i)) = Some p"
      using that by (simp_all add: literal_prefixes_mem)
    then have "literal_first (lp_regex (patterns ! i))" using assms(1) by (simp add: list_all_length)
    from extract_is_literal[OF this i(2)] assms(2) show ?thesis unfolding regex_law_def by metis
  qed
  then show ?thesis by (auto simp: literal_matches_def list_all_iff)
qed

lemma candidates_complete:
  assumes d: "d = with_patterns mt patterns"
    and free: "unmixed (map fst (literal_prefixes patterns)) content"
    and ac: "standard_reports (map fst (literal_prefixes patterns)) content 0
               (mt_ac_find_iter mt (map fst (literal_prefixes patterns)) content)"
    and lit: "literal_matches mt patterns content"
    and i: "i < length patterns" "mt_find_iter mt (lp_regex (patterns ! i)) content \<noteq> []"
  shows "i \<in> set (candidate_indices mt d content)"
proof (cases "ld_prefix_matcher d")
  case None
  then show ?thesis using i by (simp add: candidate_indices_set [OF d])
next
  case (Some words)
  let ?lp = "literal_prefixes patterns"
  have words: "words = map fst ?lp" using Some d by (auto simp: with_patterns_def Let_def split: if_splits)
  have "\<exists>k r. (k, r) \<in> set (mt_ac_find_iter mt words content) \<and> related p (fst (?lp ! k))"
    if p: "(p, i) \<in> set ?lp" for p
  proof -
    obtain n where n: "n < length ?lp" "?lp ! n = (p, i)" using p by (auto simp: in_set_conv_nth)
    obtain r where r: "r \<in> set (mt_find_iter mt (lp_regex (patterns ! i)) content)" using i(2) by (cases "mt_find_iter mt (lp_regex (patterns ! i)) content") auto
    have "prefix p (drop (fst r) content)"
      using lit p r by (fastforce simp: literal_matches_def list_all_iff)
    moreover have "p \<noteq> []"
      using p by (auto simp: literal_prefixes_mem extract_literal_prefix_def Let_def split: if_splits)
    ultimately have at: "word_at words content n (fst r, fst r + length p)"
      using n by (simp add: word_at_def words)
    then obtain k' r' where rep: "(k', r') \<in> set (mt_ac_find_iter mt words content)"
      "fst r' < fst r + length p" "fst r < snd r'"
      using standard_reports_cover [OF ac [folded words] at] by auto
    have at': "word_at words content k' r'" using standard_reports_sound [OF ac [folded words] rep(1)] .
    have "related (words ! n) (words ! k')"
      using free [folded words] at at' rep(2,3) unfolding unmixed_def by fastforce
    moreover have "k' < length ?lp" using at' by (simp add: word_at_def words)
    ultimately have "related p (fst (?lp ! k'))" using n by (simp add: words)
    then show ?thesis using rep(1) by blast
  qed
  then show ?thesis using i by (simp add: candidate_indices_set [OF d] Some)
qed

subsection \<open>The result of a scan\<close>

lemma mset_concat_distinct:
  "distinct is \<Longrightarrow> mset (concat (map f is)) = (\<Sum>i\<in>set is. mset (f i))"
  by (induction "is") auto

lemma mset_sort_key_fst: "mset (sort_key k xs) = mset xs"
  by simp

lemma scan_matches_mset:
  assumes d: "d = with_patterns mt patterns" and "is = candidate_indices mt d content"
    and cover: "\<And>i. i < length patterns \<Longrightarrow> mt_find_iter mt (lp_regex (patterns ! i)) content \<noteq> [] \<Longrightarrow> i \<in> set is"
  shows "mset (concat (map (\<lambda>i. pattern_matches mt content (patterns ! i)) is)) = mset (all_matches mt patterns content)"
proof -
  let ?f = "\<lambda>i. pattern_matches mt content (patterns ! i)"
  have dist: "distinct is" using assms(2) candidate_indices_distinct by simp
  have sub: "set is \<subseteq> {..<length patterns}"
    using assms(2) by (auto simp: candidate_indices_set [OF d] split: option.splits)
  have "(\<Sum>i\<in>set is. mset (?f i)) = (\<Sum>i\<in>{..<length patterns}. mset (?f i))"
    using sub cover by (intro sum.mono_neutral_left) (auto simp: pattern_matches_def)
  also have "\<dots> = mset (concat (map ?f [0..<length patterns]))"
    by (simp add: mset_concat_distinct lessThan_atLeast0)
  also have "map ?f [0..<length patterns] = map (pattern_matches mt content) patterns"
    by (rule nth_equalityI) auto
  finally show ?thesis using dist by (simp add: mset_concat_distinct all_matches_def)
qed

lemma with_patterns_patterns [simp]: "ld_patterns (with_patterns mt patterns) = patterns"
  by (simp add: with_patterns_def Let_def)

lemma list_ex_mset: "mset xs = mset ys \<Longrightarrow> list_ex P xs = list_ex P ys"
  by (metis list_ex_iff set_mset_mset)

lemma scan_and_clean_blocked_iff:
  "(\<exists>e. scan_and_clean mt d content = Inl e) \<longleftrightarrow> sr_should_block (leak_scan mt d content)"
  by (auto simp: scan_and_clean_def Let_def split: option.splits)

lemma redact_from_agree:
  assumes "length c = length c'" "sorted_wrt (\<le>) (l # map snd rs)" "sorted_wrt (\<le>) (map fst rs)"
    and "\<And>i. l \<le> i \<Longrightarrow> i < length c \<Longrightarrow> \<not> list_ex (in_span i) rs \<Longrightarrow> c ! i = c' ! i"
  shows "redact_from c l rs = redact_from c' l rs"
  using assms(2-4)
proof (induction rs arbitrary: l)
  case Nil
  then show ?case using assms(1) by (auto intro!: nth_equalityI)
next
  case (Cons r rs)
  have "redact_from c (snd r) rs = redact_from c' (snd r) rs"
  proof (rule Cons.IH)
    fix i assume i: "snd r \<le> i" "i < length c" "\<not> list_ex (in_span i) rs"
    have "l \<le> snd r" using Cons.prems(1) by simp
    moreover have "\<not> in_span i r" using i(1) by (simp add: in_span_def)
    ultimately show "c ! i = c' ! i" using i by (intro Cons.prems(3)) auto
  qed (use Cons.prems in auto)
  moreover have "span_of c (l, fst r) = span_of c' (l, fst r)"
  proof (rule nth_equalityI)
    fix i assume "i < length (span_of c (l, fst r))"
    then have i: "l + i < fst r" "l + i < length c" by (auto simp: span_of_def)
    have "\<not> list_ex (in_span (l + i)) (r # rs)"
      using i(1) Cons.prems(2) by (auto simp: in_span_def list_ex_iff)
    then show "span_of c (l, fst r) ! i = span_of c' (l, fst r) ! i"
      using Cons.prems(3) [of "l + i"] i assms(1) by (auto simp: span_of_def)
  qed (simp add: span_of_def assms(1))
  ultimately show ?case by simp
qed

subsection \<open>The default patterns\<close>

lemma default_literal_prefixes:
  "literal_prefixes default_patterns =
     [(''sk-'', 0), (''sk-ant-api'', 1), (''AKIA'', 2), (''github_pat_'', 4), (''sk_'', 5), (''sess_'', 6),
      (''-----BEGIN'', 7), (''-----BEGIN'', 8), (''AIza'', 9), (''xox'', 10), (''Bearer'', 13)]"
  by code_simp

lemma default_words:
  "map fst (literal_prefixes default_patterns) =
     [''sk-'', ''sk-ant-api'', ''AKIA'', ''github_pat_'', ''sk_'', ''sess_'', ''-----BEGIN'', ''-----BEGIN'',
      ''AIza'', ''xox'', ''Bearer'']"
  by (simp add: default_literal_prefixes)

lemma hidden_occurrences:
  "occurrences (map fst (literal_prefixes default_patterns)) hidden_google_key = [(2, (0, 4)), (8, (3, 7))]"
  unfolding default_words by code_simp

lemma hidden_reports:
  assumes "standard_reports (map fst (literal_prefixes default_patterns)) hidden_google_key 0 reports"
  shows "reports = [(2, (0, 4))]"
proof -
  let ?w = "map fst (literal_prefixes default_patterns)"
  have at: "word_at ?w hidden_google_key k r \<longleftrightarrow> (k = 2 \<and> r = (0, 4)) \<or> (k = 8 \<and> r = (3, 7))" for k r
    using occurrences_iff [of k r ?w hidden_google_key] by (auto simp: hidden_occurrences)
  have last: "rest = []" if "standard_reports ?w hidden_google_key 4 rest" for rest
    using that by (rule standard_reports_E) (auto simp: at)
  show ?thesis using assms by (rule standard_reports_E) (fastforce simp: at dest: last)+
qed

section \<open>Properties\<close>



text \<open>
  The default patterns are not free of such overlaps: the prefix of an AWS key ends with the first
  letter of a Google key. A Google key after the letters \<open>AKI\<close> is not found, and the text is let
  through, although the pattern for Google keys matches it; this for every automaton that reports the
  matches its documentation promises.
\<close>

theorem google_key_evades_scan:
  assumes "standard_reports (map fst (literal_prefixes default_patterns)) hidden_google_key 0
      (mt_ac_find_iter mt (map fst (literal_prefixes default_patterns)) hidden_google_key)"
    and "mt_build mt (map fst (literal_prefixes default_patterns))"
    and "mt_find_iter mt ''AIza[0-9A-Za-z_-]{35}'' hidden_google_key = [(3, 42)]"
    and "list_all (\<lambda>p. lp_name p = ''google_api_key'' \<or> mt_find_iter mt (lp_regex p) hidden_google_key = []) default_patterns"
  shows "blocks mt default_patterns hidden_google_key
    \<and> scan_and_clean mt (leak_detector_new mt) hidden_google_key = Inr hidden_google_key"
proof -
  let ?d = "leak_detector_new mt"
  have d: "?d = with_patterns mt default_patterns" by (simp add: leak_detector_new_def)
  have ac: "mt_ac_find_iter mt (map fst (literal_prefixes default_patterns)) hidden_google_key = [(2, (0, 4))]"
    using hidden_reports [OF assms(1)] .
  have pm: "ld_prefix_matcher ?d = Some (map fst (literal_prefixes default_patterns))"
    using assms(2) by (simp add: d with_patterns_def Let_def default_literal_prefixes)
  have cand: "9 \<notin> set (candidate_indices mt ?d hidden_google_key)"
    unfolding candidate_indices_set [OF d] pm option.case ac
    unfolding default_literal_prefixes
    by (auto simp: related_def starts_with_def)
  have len: "length default_patterns = 16" by code_simp
  have others: "mt_find_iter mt (lp_regex (default_patterns ! i)) hidden_google_key = []"
    if "i < 16" "i \<noteq> 9" for i
  proof -
    have "list_all (\<lambda>i. i = 9 \<or> lp_name (default_patterns ! i) \<noteq> ''google_api_key'') [0..<16]" by code_simp
    then show ?thesis using assms(4) that len by (auto simp: list_all_length list_all_iff)
  qed
  have "pattern_matches mt hidden_google_key (default_patterns ! i) = []"
    if "i \<in> set (candidate_indices mt ?d hidden_google_key)" for i
  proof -
    have "i < 16" using that len by (auto simp: candidate_indices_set [OF d] split: option.splits)
    moreover have "i \<noteq> 9" using that cand by blast
    ultimately show ?thesis by (simp add: pattern_matches_def others)
  qed
  then have none: "concat (map (\<lambda>i. pattern_matches mt hidden_google_key (ld_patterns ?d ! i))
      (candidate_indices mt ?d hidden_google_key)) = []"
    by (simp add: d)
  have clean: "scan_and_clean mt ?d hidden_google_key = Inr hidden_google_key"
    unfolding scan_and_clean_def leak_scan_def scan_indices_def Let_def none by simp
  let ?g = "leak_pattern_of ''google_api_key'' ''AIza[0-9A-Za-z_-]{35}'' SeverityHigh LeakBlock"
  have "?g \<in> set default_patterns" by (simp add: default_patterns_def)
  moreover have "list_ex (\<lambda>m. lm_action m = LeakBlock) (pattern_matches mt hidden_google_key ?g)"
    using assms(3) by (simp add: pattern_matches_def leak_pattern_of_def)
  ultimately have "blocks mt default_patterns hidden_google_key"
    by (auto simp: blocks_def all_matches_def list_ex_iff)
  with clean show ?thesis by blast
qed

text \<open>Engines that find what the real ones find in the text.\<close>

theorem google_key_evades_scan_witness:
  "\<exists>mt. blocks mt default_patterns hidden_google_key
    \<and> scan_and_clean mt (leak_detector_new mt) hidden_google_key = Inr hidden_google_key"
proof -
  let ?mt = "\<lparr>mt_find_iter = (\<lambda>re c. if re = ''AIza[0-9A-Za-z_-]{35}'' then [(3, 42)] else []),
      mt_build = (\<lambda>_. True), mt_ac_find_iter = (\<lambda>_ _. [(2, (0, 4))])\<rparr> :: matchers"
  have "check_reports (occurrences (map fst (literal_prefixes default_patterns)) hidden_google_key) 0 [(2, (0, 4))]"
    unfolding hidden_occurrences by simp
  then have "standard_reports (map fst (literal_prefixes default_patterns)) hidden_google_key 0 [(2, (0, 4))]"
    by (rule check_reports_sound)
  moreover have "list_all (\<lambda>p. lp_name p = ''google_api_key'' \<or> lp_regex p \<noteq> ''AIza[0-9A-Za-z_-]{35}'') default_patterns"
    by code_simp
  ultimately have "blocks ?mt default_patterns hidden_google_key
      \<and> scan_and_clean ?mt (leak_detector_new ?mt) hidden_google_key = Inr hidden_google_key"
    by (intro google_key_evades_scan) (auto simp: list_all_iff)
  then show ?thesis by blast
qed


text \<open>
  Two texts of the same length that differ only inside the redacted ranges become the same text:
  nothing of what the ranges cover is left, when the ends of the ranges come in the order of their
  starts.
\<close>

theorem redactions_hide_ranges:
  assumes "length c = length c'" "sorted_wrt (\<le>) (map fst rs)" "sorted_wrt (\<le>) (map snd rs)" "rs \<noteq> []"
    and "\<And>i. i < length c \<Longrightarrow> \<not> list_ex (in_span i) rs \<Longrightarrow> c ! i = c' ! i"
  shows "apply_redactions c rs = apply_redactions c' rs"
  using assms redact_from_agree [of c c' 0 rs] by (simp add: apply_redactions_def)

theorem redactions_hide_ranges_witness:
  "apply_redactions ''key=secret1;'' [(4, 11)] = apply_redactions ''key=secret2;'' [(4, 11)]"
proof (rule redactions_hide_ranges)
  fix i assume "i < length ''key=secret1;''" "\<not> list_ex (in_span i) [(4, 11)]"
  then have "i \<in> {0, 1, 2, 3, 11}" by (auto simp: in_span_def)
  then show "''key=secret1;'' ! i = ''key=secret2;'' ! i" by auto
qed simp_all

text \<open>
  A range inside an earlier one brings the end of the earlier one back into the text: what follows
  the inner range, up to the end of the outer one and beyond, is copied although it was to be redacted.
\<close>

theorem nested_redaction_leaks:
  assumes "s1 \<le> s2" "s2 \<le> e2" "e2 < e1" "e1 \<le> length content"
  shows "suffix (span_of content (e2, e1) @ drop e1 content) (apply_redactions content [(s1, e1), (s2, e2)])
    \<and> list_all (\<lambda>i. in_span i (s1, e1)) [e2..<e1]"
proof -
  have "drop e2 content = span_of content (e2, e1) @ drop e1 content"
    using assms by (simp add: span_of_def) (metis append_take_drop_id drop_drop le_add_diff_inverse2 less_imp_le)
  then show ?thesis
    using assms by (auto simp: apply_redactions_def suffix_def in_span_def list_all_iff)
qed

theorem nested_redaction_leaks_witness:
  "suffix (span_of ''key=abcdef'' (7, 10) @ drop 10 ''key=abcdef'')
     (apply_redactions ''key=abcdef'' [(0, 10), (4, 7)]) \<and> list_all (\<lambda>i. in_span i (0, 10)) [7..<10]"
  by (rule nested_redaction_leaks) simp_all

end
