(* ===== verification/Credential_Injector.thy ===== *)
theory Credential_Injector
  imports Host_Policy
begin

unbundle bit_operations_syntax

text \<open>
  The injection of credentials at the host boundary, \<open>src/tools/wasm/credential_injector.rs\<close>: the
  shared registry of credential mappings, the injector of a tool, and the encoder for Basic
  authentication. The secrets store is an argument, from a user and the name of a secret to the secret
  or an error.
\<close>

section \<open>Model\<close>

datatype secret_error =
    SecretNotFound string
  | SecretExpired
  | SecretDecryptionFailed string
  | SecretEncryptionFailed string
  | SecretInvalidMasterKey
  | SecretInvalidUtf8
  | SecretDatabase string
  | SecretAccessDenied
  | SecretKeychain string

definition show_secret_error :: "secret_error \<Rightarrow> string" where
  "show_secret_error e =
     (case e of
        SecretNotFound n \<Rightarrow> ''Secret not found: '' @ n
      | SecretExpired \<Rightarrow> ''Secret has expired''
      | SecretDecryptionFailed m \<Rightarrow> ''Decryption failed: '' @ m
      | SecretEncryptionFailed m \<Rightarrow> ''Encryption failed: '' @ m
      | SecretInvalidMasterKey \<Rightarrow> ''Invalid master key''
      | SecretInvalidUtf8 \<Rightarrow> ''Secret value is not valid UTF-8''
      | SecretDatabase m \<Rightarrow> ''Database error: '' @ m
      | SecretAccessDenied \<Rightarrow> ''Secret access denied for tool''
      | SecretKeychain m \<Rightarrow> ''Keychain error: '' @ m)"

datatype injection_error =
    InjectSecretNotFound string
  | InjectAccessDenied string
  | InjectSecretExpired string
  | InjectDecryptionFailed string
  | InjectNoMatchingCredential string

definition injection_error_from :: "secret_error \<Rightarrow> injection_error" where
  "injection_error_from e =
     (case e of
        SecretNotFound name \<Rightarrow> InjectSecretNotFound name
      | SecretExpired \<Rightarrow> InjectSecretExpired ''unknown''
      | SecretAccessDenied \<Rightarrow> InjectAccessDenied ''unknown''
      | SecretDecryptionFailed msg \<Rightarrow> InjectDecryptionFailed msg
      | _ \<Rightarrow> InjectDecryptionFailed (show_secret_error e))"

type_synonym secrets_store = "string \<Rightarrow> string \<Rightarrow> (secret_error, string) result"

definition cred_host_matches :: "string \<Rightarrow> string \<Rightarrow> bool" where
  "cred_host_matches host pattern =
     (if pattern = host then True
      else (case strip_prefix ''*.'' pattern of
              None \<Rightarrow> False
            | Some sfx \<Rightarrow>
                ends_with sfx host \<and> length host > length sfx \<and>
                (let pre = take (length host - length sfx) host in ends_with ''.'' pre \<or> pre = [])))"

definition mapping_matches :: "string \<Rightarrow> credential_mapping \<Rightarrow> bool" where
  "mapping_matches host m = list_ex (cred_host_matches host) (cm_host_patterns m)"

subsection \<open>The shared registry\<close>

type_synonym credential_registry = "credential_mapping list"

definition credential_registry_new :: credential_registry where
  "credential_registry_new = []"

definition add_mappings :: "credential_mapping list \<Rightarrow> credential_registry \<Rightarrow> credential_registry" where
  "add_mappings ms r = r @ ms"

definition remove_mappings_for_secrets :: "string list \<Rightarrow> credential_registry \<Rightarrow> credential_registry" where
  "remove_mappings_for_secrets secret_names r = filter (\<lambda>m. cm_secret_name m \<notin> set secret_names) r"

definition has_credentials_for_host :: "string \<Rightarrow> credential_registry \<Rightarrow> bool" where
  "has_credentials_for_host host r = list_ex (mapping_matches host) r"

definition find_for_host :: "string \<Rightarrow> credential_registry \<Rightarrow> credential_mapping list" where
  "find_for_host host r = filter (mapping_matches host) r"

subsection \<open>Base64\<close>

definition base64_alphabet :: string where
  "base64_alphabet = ''ABCDEFGHIJKLMNOPQRSTUVWXYZabcdefghijklmnopqrstuvwxyz0123456789+/''"

definition sextet :: "8 word \<Rightarrow> char" where
  "sextet w = base64_alphabet ! unat w"

fun base64_encode :: "8 word list \<Rightarrow> string" where
  "base64_encode [] = []"
| "base64_encode (b0 # r) =
     (let b1 = (if length r > 0 then r ! 0 else 0);
          b2 = (if length r > 1 then r ! 1 else 0)
      in [sextet (drop_bit 2 b0),
          sextet (push_bit 4 (b0 AND 0x03) OR drop_bit 4 b1),
          if length r > 0 then sextet (push_bit 2 (b1 AND 0x0f) OR drop_bit 6 b2) else CHR ''='',
          if length r > 1 then sextet (b2 AND 0x3f) else CHR ''=''] @ base64_encode (drop 2 r))"

definition as_bytes :: "string \<Rightarrow> 8 word list" where
  "as_bytes s = map of_char s"

subsection \<open>The injector\<close>

record injected_credentials =
  ic_headers :: "(string \<times> string) list"
  ic_query_params :: "(string \<times> string) list"

definition injected_empty :: injected_credentials where
  "injected_empty = \<lparr>ic_headers = [], ic_query_params = []\<rparr>"

definition injected_is_empty :: "injected_credentials \<Rightarrow> bool" where
  "injected_is_empty c = (ic_headers c = [] \<and> ic_query_params c = [])"

definition inject_credential :: "credential_location \<Rightarrow> string \<Rightarrow> injected_credentials \<Rightarrow> injected_credentials" where
  "inject_credential location secret res =
     (case location of
        AuthorizationBearer \<Rightarrow>
          res\<lparr>ic_headers := hm_put ''Authorization'' (''Bearer '' @ secret) (ic_headers res)\<rparr>
      | AuthorizationBasic username \<Rightarrow>
          res\<lparr>ic_headers := hm_put ''Authorization''
                (''Basic '' @ base64_encode (as_bytes (username @ '':'' @ secret))) (ic_headers res)\<rparr>
      | HeaderLocation name pre \<Rightarrow>
          res\<lparr>ic_headers := hm_put name (case pre of Some p \<Rightarrow> p @ secret | None \<Rightarrow> secret) (ic_headers res)\<rparr>
      | QueryParam name \<Rightarrow> res\<lparr>ic_query_params := hm_put name secret (ic_query_params res)\<rparr>
      | UrlPath _ \<Rightarrow> res)"

record credential_injector =
  ci_mappings :: "(string \<times> credential_mapping) list"
  ci_allowed_secrets :: "string list"

definition credential_injector_new :: "(string \<times> credential_mapping) list \<Rightarrow> string list \<Rightarrow> credential_injector" where
  "credential_injector_new mappings allowed = \<lparr>ci_mappings = mappings, ci_allowed_secrets = allowed\<rparr>"

definition find_credentials_for_host :: "credential_injector \<Rightarrow> string \<Rightarrow> credential_mapping list" where
  "find_credentials_for_host ci host = filter (mapping_matches host) (map snd (ci_mappings ci))"

definition is_secret_allowed :: "credential_injector \<Rightarrow> string \<Rightarrow> bool" where
  "is_secret_allowed ci name =
     (let name_lower = to_lower name
      in list_ex
           (\<lambda>pattern.
              let pattern_lower = to_lower pattern
              in pattern_lower = name_lower \<or>
                 (case strip_suffix ''*'' pattern_lower of Some p \<Rightarrow> starts_with p name_lower | None \<Rightarrow> False))
           (ci_allowed_secrets ci))"

definition injection_failure :: "string \<Rightarrow> secret_error \<Rightarrow> injection_error" where
  "injection_failure secret_name e =
     (case e of
        SecretNotFound name \<Rightarrow> InjectSecretNotFound name
      | SecretExpired \<Rightarrow> InjectSecretExpired secret_name
      | _ \<Rightarrow> InjectDecryptionFailed (show_secret_error e))"

fun inject_all ::
  "credential_injector \<Rightarrow> string \<Rightarrow> secrets_store \<Rightarrow> credential_mapping list \<Rightarrow> injected_credentials \<Rightarrow>
   (injection_error, injected_credentials) result"
where
  "inject_all ci user_id store [] res = Inr res"
| "inject_all ci user_id store (m # ms) res =
     (if \<not> is_secret_allowed ci (cm_secret_name m) then Inl (InjectAccessDenied (cm_secret_name m))
      else (case store user_id (cm_secret_name m) of
              Inl e \<Rightarrow> Inl (injection_failure (cm_secret_name m) e)
            | Inr secret \<Rightarrow> inject_all ci user_id store ms (inject_credential (cm_location m) secret res)))"

definition inject ::
  "credential_injector \<Rightarrow> string \<Rightarrow> string \<Rightarrow> secrets_store \<Rightarrow> (injection_error, injected_credentials) result"
where
  "inject ci user_id host store =
     (let matching = find_credentials_for_host ci host
      in if matching = [] then Inr injected_empty
         else inject_all ci user_id store matching injected_empty)"

subsection \<open>Reference definitions\<close>

text \<open>Decoding of Base64, by groups of four characters.\<close>

definition sextet_value :: "char \<Rightarrow> 8 word option" where
  "sextet_value c = map_option of_nat (find_index (\<lambda>x. x = c) base64_alphabet)"

definition join0 :: "8 word \<Rightarrow> 8 word \<Rightarrow> 8 word" where
  "join0 a b = push_bit 2 a OR drop_bit 4 b"

definition join1 :: "8 word \<Rightarrow> 8 word \<Rightarrow> 8 word" where
  "join1 b c = push_bit 4 b OR drop_bit 2 c"

definition join2 :: "8 word \<Rightarrow> 8 word \<Rightarrow> 8 word" where
  "join2 c d = push_bit 6 c OR d"

fun base64_decode :: "string \<Rightarrow> 8 word list option" where
  "base64_decode [] = Some []"
| "base64_decode (c0 # c1 # c2 # c3 # r) =
     (case (sextet_value c0, sextet_value c1) of
        (Some a, Some b) \<Rightarrow>
          if c2 = CHR ''='' then (if c3 = CHR ''='' \<and> r = [] then Some [join0 a b] else None)
          else
            (case sextet_value c2 of
               None \<Rightarrow> None
             | Some c \<Rightarrow>
                 if c3 = CHR ''='' then (if r = [] then Some [join0 a b, join1 b c] else None)
                 else (case sextet_value c3 of
                         None \<Rightarrow> None
                       | Some d \<Rightarrow> map_option (\<lambda>bs. join0 a b # join1 b c # join2 c d # bs) (base64_decode r)))
      | _ \<Rightarrow> None)"
| "base64_decode _ = None"

definition allowed_name :: "string list \<Rightarrow> string \<Rightarrow> bool" where
  "allowed_name allowed name =
     list_ex (\<lambda>p. to_lower p = to_lower name \<or> (ends_with ''*'' p \<and> starts_with (to_lower (butlast p)) (to_lower name))) allowed"

definition sample_injector :: credential_injector where
  "sample_injector =
     credential_injector_new
       [(''a'', mapping_bearer ''gh_token'' ''api.github.com''),
        (''b'', mapping_header ''slack_token'' ''X-Key'' ''*.slack.com'')] [''gh_*'']"

section \<open>Lemmas\<close>

lemma cred_host_matches_iff:
  "cred_host_matches h p \<longleftrightarrow> h = p \<or> starts_with ''*.'' p \<and> ends_with (''.'' @ drop 2 p) h"
proof (cases "strip_prefix ''*.'' p")
  case None
  then show ?thesis by (auto simp: cred_host_matches_def strip_prefix_def starts_with_def)
next
  case (Some sfx)
  then have "p = ''*.'' @ sfx" by (simp add: strip_prefix_Some)
  with Some show ?thesis
    using dotted_suffix [of sfx h] by (auto simp: cred_host_matches_def starts_with_def Let_def)
qed

interpretation injector: host_matcher "\<lambda>p h. cred_host_matches h p"
  by unfold_locales
    (auto simp: cred_host_matches_iff covered_by_def starts_with_def ends_with_def suffix_def to_lower_append)

subsection \<open>Base64\<close>

lemma sextet_table:
  "list_all (\<lambda>n. sextet_value (sextet (of_nat n)) = Some (of_nat n) \<and> sextet (of_nat n) \<noteq> CHR ''='') [0..<64]"
  by code_simp

lemma sextet_inverse:
  assumes "unat w < 64"
  shows "sextet_value (sextet w) = Some w" "sextet w \<noteq> CHR ''=''"
proof -
  have "unat w \<in> set [0..<64]" using assms by simp
  then have "sextet_value (sextet (of_nat (unat w))) = Some (of_nat (unat w)) \<and> sextet (of_nat (unat w)) \<noteq> CHR ''=''"
    using sextet_table unfolding list_all_iff by (rule bspec [rotated])
  then show "sextet_value (sextet w) = Some w" "sextet w \<noteq> CHR ''=''" by simp_all
qed

lemma sextet_small:
  assumes "\<And>n. 6 \<le> n \<Longrightarrow> \<not> bit (w :: 8 word) n"
  shows "unat w < 64"
proof -
  have "take_bit 6 w = w" using assms by (intro bit_word_eqI) (auto simp: bit_simps, meson not_le)
  then have "unat w = take_bit 6 (unat w)" by (metis unsigned_take_bit_eq)
  moreover have "take_bit 6 (unat w) < 2 ^ 6" by (rule take_bit_nat_less_exp)
  ultimately show ?thesis by simp
qed

lemma octet_masks:
  "(b AND 0x03) = take_bit 2 b" "(b AND 0x0f) = take_bit 4 b" "(b AND 0x3f) = take_bit 6 b" for b :: "8 word"
  by (simp_all add: take_bit_eq_mask mask_eq_exp_minus_1)

lemma octet_bit: "bit (b :: 8 word) n \<Longrightarrow> n < 8"
  using bit_imp_le_length by fastforce

lemma sextets_small:
  "unat (drop_bit 2 (b0 :: 8 word)) < 64"
  "unat (push_bit 4 (b0 AND 0x03) OR drop_bit 4 b1) < 64"
  "unat (push_bit 2 (b1 AND 0x0f) OR drop_bit 6 b2) < 64"
  "unat ((b2 :: 8 word) AND 0x3f) < 64"
  unfolding octet_masks by (rule sextet_small; auto simp: bit_simps dest: octet_bit)+

lemma joined_octets:
  "join0 (drop_bit 2 b0) (push_bit 4 (b0 AND 0x03) OR drop_bit 4 b1) = b0"
  "join1 (push_bit 4 (b0 AND 0x03) OR drop_bit 4 b1) (push_bit 2 (b1 AND 0x0f) OR drop_bit 6 b2) = b1"
  "join2 (push_bit 2 (b1 AND 0x0f) OR drop_bit 6 b2) (b2 AND 0x3f) = b2"
proof -
  have upto8: "n \<in> {0, 1, 2, 3, 4, 5, 6, 7}" if "n < LENGTH(8)" for n
    using that by auto
  show "join0 (drop_bit 2 b0) (push_bit 4 (b0 AND 0x03) OR drop_bit 4 b1) = b0"
    unfolding octet_masks join0_def
    by (rule bit_word_eqI, drule upto8) (auto simp: bit_simps dest: octet_bit, simp_all add: numeral_2_eq_2 numeral_3_eq_3)
  show "join1 (push_bit 4 (b0 AND 0x03) OR drop_bit 4 b1) (push_bit 2 (b1 AND 0x0f) OR drop_bit 6 b2) = b1"
    unfolding octet_masks join1_def
    by (rule bit_word_eqI, drule upto8) (auto simp: bit_simps dest: octet_bit)
  show "join2 (push_bit 2 (b1 AND 0x0f) OR drop_bit 6 b2) (b2 AND 0x3f) = b2"
    unfolding octet_masks join2_def
    by (rule bit_word_eqI, drule upto8) (auto simp: bit_simps dest: octet_bit)
qed

lemma base64_decode_encode: "base64_decode (base64_encode bs) = Some bs"
proof (induction bs rule: base64_encode.induct)
  case 1
  then show ?case by simp
next
  case (2 b0 r)
  consider "r = []" | b1 where "r = [b1]" | b1 b2 r' where "r = b1 # b2 # r'"
    by (metis list.exhaust)
  then show ?case
  proof cases
    case 1
    then show ?thesis
      using joined_octets(1) [of b0 0] sextets_small(2) [of b0 0]
      by (simp add: Let_def sextet_inverse sextets_small del: push_bit_and)
  next
    case 2
    then show ?thesis
      using joined_octets(1) [of b0 b1] joined_octets(2) [of b0 b1 0] sextets_small(3) [of b1 0]
      by (simp add: Let_def sextet_inverse sextets_small del: push_bit_and)
  next
    case 3
    then show ?thesis
      using "2" joined_octets by (simp add: Let_def sextet_inverse sextets_small del: push_bit_and)
  qed
qed

lemma base64_encode_length: "length (base64_encode bs) = 4 * ((length bs + 2) div 3)"
proof (induction bs rule: base64_encode.induct)
  case (2 b0 r)
  have "(length (b0 # r) + 2) div 3 = Suc ((length (drop 2 r) + 2) div 3)"
    by (cases "length r < 2") (auto simp: le_div_geq)
  then show ?case using 2 by (simp add: Let_def)
qed simp

subsection \<open>Injection\<close>

lemma inject_all_cong:
  assumes "\<And>m. m \<in> set ms \<Longrightarrow> is_secret_allowed ci (cm_secret_name m) \<Longrightarrow>
    store user_id (cm_secret_name m) = store' user_id (cm_secret_name m)"
  shows "inject_all ci user_id store ms res = inject_all ci user_id store' ms res"
  using assms by (induction ms arbitrary: res) (auto split: sum.splits)

lemma inject_all_ok_iff:
  "(\<exists>res'. inject_all ci user_id store ms res = Inr res') \<longleftrightarrow>
     list_all (\<lambda>m. is_secret_allowed ci (cm_secret_name m) \<and> (\<exists>s. store user_id (cm_secret_name m) = Inr s)) ms"
  by (induction ms arbitrary: res) (auto split: sum.splits)

lemma is_secret_allowed_iff: "is_secret_allowed ci name = allowed_name (ci_allowed_secrets ci) name"
proof -
  have "(case strip_suffix ''*'' (to_lower p) of Some q \<Rightarrow> starts_with q n | None \<Rightarrow> False) \<longleftrightarrow>
      ends_with ''*'' p \<and> starts_with (to_lower (butlast p)) n" for p n
  proof (cases p rule: rev_cases)
    case Nil
    then show ?thesis by (simp add: strip_suffix_def ends_with_def to_lower_def)
  next
    case (snoc q c)
    then show ?thesis by (auto simp: strip_suffix_def ends_with_def to_lower_def eq_commute [of "CHR ''*''"])
  qed
  then show ?thesis by (simp add: is_secret_allowed_def allowed_name_def Let_def)
qed

section \<open>Properties\<close>

text \<open>
  The encoder for Basic authentication is Base64: decoding by groups of four characters gives the
  bytes back, with one or two characters of padding at the end, and the length is four characters for
  every three bytes begun.
\<close>

theorem base64_roundtrip:
  "base64_decode (base64_encode bs) = Some bs \<and> length (base64_encode bs) = 4 * ((length bs + 2) div 3)"
  by (simp add: base64_decode_encode base64_encode_length)

text \<open>
  C25. What is injected into a request depends on no other secret than those of the calling user whose
  mapping has a pattern that covers the host and whose name the tool's capabilities allow: stores that
  agree on these give the same credentials, or the same error.
\<close>

theorem injection_confined:
  assumes "\<And>m. m \<in> snd ` set (ci_mappings ci) \<Longrightarrow> list_ex (\<lambda>p. covered_by p host) (cm_host_patterns m) \<Longrightarrow>
      allowed_name (ci_allowed_secrets ci) (cm_secret_name m) \<Longrightarrow>
      store user_id (cm_secret_name m) = store' user_id (cm_secret_name m)"
  shows "inject ci user_id host store = inject ci user_id host store'"
proof -
  have "inject_all ci user_id store (find_credentials_for_host ci host) injected_empty =
      inject_all ci user_id store' (find_credentials_for_host ci host) injected_empty"
  proof (rule inject_all_cong)
    fix m assume m: "m \<in> set (find_credentials_for_host ci host)" "is_secret_allowed ci (cm_secret_name m)"
    have "list_ex (\<lambda>p. covered_by p host) (cm_host_patterns m)"
      using m(1) injector.list_covered [of host "cm_host_patterns m"]
      by (auto simp: find_credentials_for_host_def mapping_matches_def list_ex_iff)
    then show "store user_id (cm_secret_name m) = store' user_id (cm_secret_name m)"
      using m by (intro assms) (auto simp: find_credentials_for_host_def is_secret_allowed_iff)
  qed
  then show ?thesis by (simp add: inject_def Let_def)
qed

theorem injection_confined_witness:
  "inject sample_injector ''u'' ''api.github.com'' (\<lambda>u n. if n = ''gh_token'' \<and> u = ''u'' then Inr ''T'' else Inr ''other'') =
   inject sample_injector ''u'' ''api.github.com'' (\<lambda>u n. if n = ''gh_token'' \<and> u = ''u'' then Inr ''T'' else Inl SecretExpired)"
proof (rule injection_confined)
  fix m assume m: "m \<in> snd ` set (ci_mappings sample_injector)"
    "allowed_name (ci_allowed_secrets sample_injector) (cm_secret_name m)"
  have "\<not> allowed_name (ci_allowed_secrets sample_injector) ''slack_token''" by code_simp
  then have "cm_secret_name m = ''gh_token''"
    using m by (auto simp: sample_injector_def credential_injector_new_def mapping_bearer_def mapping_header_def)
  then show "(if cm_secret_name m = ''gh_token'' \<and> ''u'' = ''u'' then Inr ''T'' else Inr ''other'') =
      (if cm_secret_name m = ''gh_token'' \<and> ''u'' = ''u'' then Inr ''T'' else Inl SecretExpired)" by simp
qed

text \<open>
  The injection succeeds exactly when every mapping for the host is allowed and its secret can be
  read; one mapping that is not allowed makes the whole request fail instead of being left out.
\<close>

theorem injection_succeeds_iff:
  "(\<exists>res. inject ci user_id host store = Inr res) =
     list_all (\<lambda>m. allowed_name (ci_allowed_secrets ci) (cm_secret_name m) \<and> (\<exists>s. store user_id (cm_secret_name m) = Inr s))
       (find_credentials_for_host ci host)"
  using inject_all_ok_iff [of ci user_id store "find_credentials_for_host ci host" injected_empty]
  by (auto simp: inject_def Let_def is_secret_allowed_iff)

text \<open>
  After the mappings of an extension's secrets are removed from the shared registry, none of these
  secrets is found for any host, and every other mapping is found as before.
\<close>

theorem removed_secrets_not_found:
  "find_for_host host (remove_mappings_for_secrets names r) =
     filter (\<lambda>m. cm_secret_name m \<notin> set names) (find_for_host host r)
   \<and> has_credentials_for_host host r = (find_for_host host r \<noteq> [])"
  by (auto simp: find_for_host_def remove_mappings_for_secrets_def has_credentials_for_host_def filter_empty_conv
      list_ex_iff intro: filter_cong)

end
