(* ===== verification/Hooks.thy ===== *)
theory Hooks
  imports Url_Guard Json
begin

text \<open>
  Lifecycle hooks, \<open>src/hooks/hook.rs\<close>, \<open>registry.rs\<close> and \<open>bundled.rs\<close>: the events, the registry with
  its priorities, the chain of hooks that runs on an event, and the hooks that bundles declare (rules
  on the content, outbound webhooks). A hook is a record of the trait's methods; its execution gives
  the time that it took and its result, so a hook that took longer than its timeout is one that
  \<open>tokio::time::timeout\<close> cut off. The regex engine, \<open>serde_json\<close> and the header types are parameters. A
  webhook's delivery runs in the background and does not change the outcome of its hook.
\<close>

section \<open>Model\<close>

subsection \<open>Events and outcomes\<close>

datatype hook_point =
    BeforeInbound | BeforeToolCall | BeforeOutbound | OnSessionStart | OnSessionEnd | TransformResponse

fun point_as_str :: "hook_point \<Rightarrow> string" where
  "point_as_str BeforeInbound = ''beforeInbound''"
| "point_as_str BeforeToolCall = ''beforeToolCall''"
| "point_as_str BeforeOutbound = ''beforeOutbound''"
| "point_as_str OnSessionStart = ''onSessionStart''"
| "point_as_str OnSessionEnd = ''onSessionEnd''"
| "point_as_str TransformResponse = ''transformResponse''"

text \<open>The fields in the order of the source: user, channel, content, thread; tool, parameters, user,
  context; user, session; user, thread, response.\<close>

datatype hook_event =
    EvInbound string string string "string option"
  | EvToolCall string json string string
  | EvOutbound string string string "string option"
  | EvSessionStart string string
  | EvSessionEnd string string
  | EvResponseTransform string string string

fun event_point :: "hook_event \<Rightarrow> hook_point" where
  "event_point (EvInbound _ _ _ _) = BeforeInbound"
| "event_point (EvToolCall _ _ _ _) = BeforeToolCall"
| "event_point (EvOutbound _ _ _ _) = BeforeOutbound"
| "event_point (EvSessionStart _ _) = OnSessionStart"
| "event_point (EvSessionEnd _ _) = OnSessionEnd"
| "event_point (EvResponseTransform _ _ _) = TransformResponse"

text \<open>\<open>serde_json\<close>: parsing a text, and printing a value.\<close>

record json_lib =
  jl_from_str :: "string \<Rightarrow> json option"
  jl_to_string :: "json \<Rightarrow> string"

fun apply_modification :: "json_lib \<Rightarrow> string \<Rightarrow> hook_event \<Rightarrow> hook_event" where
  "apply_modification jl modified (EvInbound u c _ t) = EvInbound u c modified t"
| "apply_modification jl modified (EvOutbound u c _ t) = EvOutbound u c modified t"
| "apply_modification jl modified (EvToolCall n p u c) =
     (case jl_from_str jl modified of Some parsed \<Rightarrow> EvToolCall n parsed u c | None \<Rightarrow> EvToolCall n p u c)"
| "apply_modification jl modified (EvResponseTransform u t _) = EvResponseTransform u t modified"
| "apply_modification jl modified (EvSessionStart u s) = EvSessionStart u s"
| "apply_modification jl modified (EvSessionEnd u s) = EvSessionEnd u s"

fun extract_content :: "json_lib \<Rightarrow> hook_event \<Rightarrow> string" where
  "extract_content jl (EvInbound _ _ content _) = content"
| "extract_content jl (EvOutbound _ _ content _) = content"
| "extract_content jl (EvToolCall _ parameters _ _) = jl_to_string jl parameters"
| "extract_content jl (EvResponseTransform _ _ response) = response"
| "extract_content jl (EvSessionStart _ session_id) = session_id"
| "extract_content jl (EvSessionEnd _ session_id) = session_id"

fun event_user_id :: "hook_event \<Rightarrow> string" where
  "event_user_id (EvInbound u _ _ _) = u"
| "event_user_id (EvToolCall _ _ u _) = u"
| "event_user_id (EvOutbound u _ _ _) = u"
| "event_user_id (EvSessionStart u _) = u"
| "event_user_id (EvSessionEnd u _) = u"
| "event_user_id (EvResponseTransform u _ _) = u"

datatype hook_outcome = Continue "string option" | Reject string

definition outcome_ok :: hook_outcome where
  "outcome_ok = Continue None"

definition outcome_modify :: "string \<Rightarrow> hook_outcome" where
  "outcome_modify v = Continue (Some v)"

datatype failure_mode = FailOpen | FailClosed

datatype hook_error = HookExecutionFailed string | HookTimeout duration | HookRejected string

subsection \<open>The registry\<close>

record hook =
  hk_name :: string
  hk_points :: "hook_point list"
  hk_failure_mode :: failure_mode
  hk_timeout :: duration
  hk_execute :: "hook_event \<Rightarrow> json \<Rightarrow> duration \<times> (hook_error, hook_outcome) result"

record hook_entry =
  hn_hook :: hook
  hn_priority :: "32 word"

type_synonym hook_registry = "hook_entry list"

definition hook_registry_new :: hook_registry where
  "hook_registry_new = []"

definition entry_name :: "hook_entry \<Rightarrow> string" where
  "entry_name e = hk_name (hn_hook e)"

fun replace_first :: "hook \<Rightarrow> 32 word \<Rightarrow> hook_registry \<Rightarrow> hook_registry" where
  "replace_first h p [] = []"
| "replace_first h p (e # es) =
     (if entry_name e = hk_name h then \<lparr>hn_hook = h, hn_priority = p\<rparr> # es else e # replace_first h p es)"

definition register_with_priority :: "hook \<Rightarrow> 32 word \<Rightarrow> hook_registry \<Rightarrow> hook_registry" where
  "register_with_priority h priority r =
     sort_key hn_priority
       (if list_ex (\<lambda>e. entry_name e = hk_name h) r then replace_first h priority r
        else r @ [\<lparr>hn_hook = h, hn_priority = priority\<rparr>])"

definition register :: "hook \<Rightarrow> hook_registry \<Rightarrow> hook_registry" where
  "register h r = register_with_priority h 100 r"

definition unregister :: "string \<Rightarrow> hook_registry \<Rightarrow> bool \<times> hook_registry" where
  "unregister name r =
     (let r' = filter (\<lambda>e. entry_name e \<noteq> name) r in (length r' < length r, r'))"

definition list_hooks :: "hook_registry \<Rightarrow> string list" where
  "list_hooks r = map entry_name r"

definition matching_hooks :: "hook_registry \<Rightarrow> hook_event \<Rightarrow> hook list" where
  "matching_hooks r ev = map hn_hook (filter (\<lambda>e. event_point ev \<in> set (hk_points (hn_hook e))) r)"

definition default_context :: json where
  "default_context = JNull"

text \<open>What one hook makes of the event: the event it leaves, or the error that ends the chain. The
  text of an error is the parameter \<open>show_error\<close>.\<close>

definition run_hook :: "json_lib \<Rightarrow> (hook_error \<Rightarrow> string) \<Rightarrow> hook \<Rightarrow> hook_event \<Rightarrow> (hook_error, hook_event) result" where
  "run_hook jl show_error h ev =
     (let (took, res) = hk_execute h ev default_context
      in if took > hk_timeout h
         then (case hk_failure_mode h of
                 FailOpen \<Rightarrow> Inr ev
               | FailClosed \<Rightarrow> Inl (HookTimeout (hk_timeout h)))
         else
           (case res of
              Inr (Reject reason) \<Rightarrow> Inl (HookRejected reason)
            | Inr (Continue (Some v)) \<Rightarrow> Inr (apply_modification jl v ev)
            | Inr (Continue None) \<Rightarrow> Inr ev
            | Inl err \<Rightarrow>
                (case hk_failure_mode h of
                   FailOpen \<Rightarrow> Inr ev
                 | FailClosed \<Rightarrow>
                     Inl (HookExecutionFailed (''Hook '' @ quoted (hk_name h) @ '' failed: '' @ show_error err)))))"

fun run_chain :: "json_lib \<Rightarrow> (hook_error \<Rightarrow> string) \<Rightarrow> hook list \<Rightarrow> hook_event \<Rightarrow> (hook_error, hook_event) result" where
  "run_chain jl show_error [] ev = Inr ev"
| "run_chain jl show_error (h # hs) ev =
     (case run_hook jl show_error h ev of Inl e \<Rightarrow> Inl e | Inr ev' \<Rightarrow> run_chain jl show_error hs ev')"

definition run_hooks :: "json_lib \<Rightarrow> (hook_error \<Rightarrow> string) \<Rightarrow> hook_registry \<Rightarrow> hook_event \<Rightarrow> (hook_error, hook_outcome) result" where
  "run_hooks jl show_error r ev =
     (let matching = matching_hooks r ev
      in if matching = [] then Inr outcome_ok
         else
           (case run_chain jl show_error matching ev of
              Inl e \<Rightarrow> Inl e
            | Inr current \<Rightarrow>
                if extract_content jl current \<noteq> extract_content jl ev
                then Inr (outcome_modify (extract_content jl current))
                else Inr outcome_ok))"

subsection \<open>Bundles\<close>

definition DEFAULT_RULE_PRIORITY :: "32 word" where "DEFAULT_RULE_PRIORITY = 100"
definition DEFAULT_WEBHOOK_PRIORITY :: "32 word" where "DEFAULT_WEBHOOK_PRIORITY = 300"
definition DEFAULT_WEBHOOK_TIMEOUT_MS :: nat where "DEFAULT_WEBHOOK_TIMEOUT_MS = 2000"
definition DEFAULT_WEBHOOK_MAX_IN_FLIGHT :: nat where "DEFAULT_WEBHOOK_MAX_IN_FLIGHT = 32"
definition MAX_HOOK_TIMEOUT_MS :: nat where "MAX_HOOK_TIMEOUT_MS = 30000"

definition ALL_HOOK_POINTS :: "hook_point list" where
  "ALL_HOOK_POINTS = [BeforeInbound, BeforeToolCall, BeforeOutbound, OnSessionStart, OnSessionEnd, TransformResponse]"

record hook_rule_config =
  rc_name :: string
  rc_points :: "hook_point list"
  rc_priority :: "32 word option"
  rc_failure_mode :: "failure_mode option"
  rc_timeout_ms :: "nat option"
  rc_when_regex :: "string option"
  rc_reject_reason :: "string option"
  rc_replacements :: "(string \<times> string) list"
  rc_prepend :: "string option"
  rc_append :: "string option"

record outbound_webhook_config =
  wc_name :: string
  wc_points :: "hook_point list"
  wc_url :: string
  wc_headers :: "(string \<times> string) list"
  wc_timeout_ms :: "nat option"
  wc_priority :: "32 word option"
  wc_max_in_flight :: "nat option"

record hook_bundle_config =
  bc_rules :: "hook_rule_config list"
  bc_outbound_webhooks :: "outbound_webhook_config list"

record registration_summary =
  rs_hooks :: nat
  rs_outbound_webhooks :: nat
  rs_errors :: nat

definition summary_default :: registration_summary where
  "summary_default = \<lparr>rs_hooks = 0, rs_outbound_webhooks = 0, rs_errors = 0\<rparr>"

definition total_registered :: "registration_summary \<Rightarrow> nat" where
  "total_registered s = rs_hooks s + rs_outbound_webhooks s"

definition summary_merge :: "registration_summary \<Rightarrow> registration_summary \<Rightarrow> registration_summary" where
  "summary_merge a b =
     \<lparr>rs_hooks = rs_hooks a + rs_hooks b, rs_outbound_webhooks = rs_outbound_webhooks a + rs_outbound_webhooks b,
      rs_errors = rs_errors a + rs_errors b\<rparr>"

text \<open>The libraries a bundle rests on: the regex engine (compiling, matching, replacing), the checks of
  header names and values (the canonical name, or an error), and the time a hook takes.\<close>

record bundle_env =
  be_net :: net
  be_json :: json_lib
  be_regex_new :: "string \<Rightarrow> string option"
  be_is_match :: "string \<Rightarrow> string \<Rightarrow> bool"
  be_replace_all :: "string \<Rightarrow> string \<Rightarrow> string \<Rightarrow> string"
  be_header_name :: "string \<Rightarrow> (string, string) result"
  be_header_value :: "string \<Rightarrow> (string, string) result"
  be_took :: "string \<Rightarrow> hook_event \<Rightarrow> duration"

definition MILLISECOND :: duration where
  "MILLISECOND = 1000000"

definition timeout_from_ms :: "nat option \<Rightarrow> string \<Rightarrow> (hook_bundle_error, duration) result" where
  "timeout_from_ms timeout_ms hook_name =
     (case timeout_ms of
        Some ms \<Rightarrow>
          if ms = 0 \<or> ms > MAX_HOOK_TIMEOUT_MS then Inl (InvalidTimeout hook_name MAX_HOOK_TIMEOUT_MS)
          else Inr (ms * MILLISECOND)
      | None \<Rightarrow> Inr (5000 * MILLISECOND))"

definition is_forbidden_header :: "string \<Rightarrow> bool" where
  "is_forbidden_header name =
     (let lower = to_lower name
      in lower = ''host'' \<or> lower = ''authorization'' \<or> lower = ''cookie'' \<or> lower = ''proxy-authorization''
         \<or> lower = ''forwarded'' \<or> lower = ''x-real-ip'' \<or> lower = ''transfer-encoding'' \<or> lower = ''connection''
         \<or> starts_with ''x-forwarded-'' lower)"

fun validate_webhook_headers ::
  "bundle_env \<Rightarrow> string \<Rightarrow> (string \<times> string) list \<Rightarrow> (hook_bundle_error, (string \<times> string) list) result"
where
  "validate_webhook_headers env hook_name [] = Inr []"
| "validate_webhook_headers env hook_name ((name, v) # hs) =
     (case be_header_name env name of
        Inl e \<Rightarrow> Inl (InvalidWebhookHeader hook_name name e)
      | Inr header_name \<Rightarrow>
          if is_forbidden_header header_name then Inl (ForbiddenWebhookHeader hook_name name)
          else
            (case be_header_value env v of
               Inl e \<Rightarrow> Inl (InvalidWebhookHeader hook_name name e)
             | Inr header_value \<Rightarrow>
                 (case validate_webhook_headers env hook_name hs of
                    Inl e \<Rightarrow> Inl e
                  | Inr rest \<Rightarrow> Inr ((header_name, header_value) # rest))))"

definition scoped_name :: "string \<Rightarrow> string \<Rightarrow> string" where
  "scoped_name source name = source @ ''::'' @ name"

fun compile_all :: "bundle_env \<Rightarrow> string \<Rightarrow> string list \<Rightarrow> hook_bundle_error option" where
  "compile_all env hook_name [] = None"
| "compile_all env hook_name (p # ps) =
     (case be_regex_new env p of
        Some e \<Rightarrow> Some (InvalidRegex hook_name p e)
      | None \<Rightarrow> compile_all env hook_name ps)"

definition rule_execute :: "bundle_env \<Rightarrow> hook_rule_config \<Rightarrow> hook_event \<Rightarrow> hook_outcome" where
  "rule_execute env c ev =
     (let content = extract_content (be_json env) ev
      in if (case rc_when_regex c of Some guard \<Rightarrow> \<not> be_is_match env guard content | None \<Rightarrow> False)
         then outcome_ok
         else
           (case rc_reject_reason c of
              Some reason \<Rightarrow> Reject reason
            | None \<Rightarrow>
                (let replaced = fold (\<lambda>(p, rep) m. be_replace_all env p m rep) (rc_replacements c) content;
                     prepended = (case rc_prepend c of Some pre \<Rightarrow> pre @ replaced | None \<Rightarrow> replaced);
                     modified = (case rc_append c of Some sfx \<Rightarrow> prepended @ sfx | None \<Rightarrow> prepended)
                 in if modified \<noteq> content then outcome_modify modified else outcome_ok)))"

definition rule_from_config :: "bundle_env \<Rightarrow> string \<Rightarrow> hook_rule_config \<Rightarrow> (hook_bundle_error, hook \<times> 32 word) result" where
  "rule_from_config env source c =
     (let name = scoped_name source (rc_name c)
      in if rc_points c = [] then Inl (MissingHookPoints name)
         else
           (case timeout_from_ms (rc_timeout_ms c) name of
              Inl e \<Rightarrow> Inl e
            | Inr timeout \<Rightarrow>
                (case compile_all env name ((case rc_when_regex c of Some p \<Rightarrow> [p] | None \<Rightarrow> []) @ map fst (rc_replacements c)) of
                   Some e \<Rightarrow> Inl e
                 | None \<Rightarrow>
                     Inr (\<lparr>hk_name = name, hk_points = rc_points c,
                           hk_failure_mode = (case rc_failure_mode c of Some m \<Rightarrow> m | None \<Rightarrow> FailOpen),
                           hk_timeout = timeout,
                           hk_execute = (\<lambda>ev _. (be_took env name ev, Inr (rule_execute env c ev)))\<rparr>,
                          case rc_priority c of Some p \<Rightarrow> p | None \<Rightarrow> DEFAULT_RULE_PRIORITY))))"

definition webhook_from_config ::
  "bundle_env \<Rightarrow> string \<Rightarrow> outbound_webhook_config \<Rightarrow> (hook_bundle_error, hook \<times> 32 word) result"
where
  "webhook_from_config env source c =
     (let name = scoped_name source (wc_name c)
      in if wc_points c = [] then Inl (MissingHookPoints name)
         else
           (case validate_webhook_url (be_net env) name (wc_url c) of
              Inl e \<Rightarrow> Inl e
            | Inr u \<Rightarrow>
                (case validate_webhook_headers env name (wc_headers c) of
                   Inl e \<Rightarrow> Inl e
                 | Inr headers \<Rightarrow>
                     (case timeout_from_ms
                             (case wc_timeout_ms c of Some ms \<Rightarrow> Some ms | None \<Rightarrow> Some DEFAULT_WEBHOOK_TIMEOUT_MS) name of
                        Inl e \<Rightarrow> Inl e
                      | Inr timeout \<Rightarrow>
                          if (case wc_max_in_flight c of Some n \<Rightarrow> n | None \<Rightarrow> DEFAULT_WEBHOOK_MAX_IN_FLIGHT) = 0
                          then Inl (InvalidWebhookMaxInFlight name)
                          else Inr (\<lparr>hk_name = name, hk_points = wc_points c, hk_failure_mode = FailOpen,
                                     hk_timeout = timeout,
                                     hk_execute = (\<lambda>ev _. (be_took env name ev, Inr outcome_ok))\<rparr>,
                                    case wc_priority c of Some p \<Rightarrow> p | None \<Rightarrow> DEFAULT_WEBHOOK_PRIORITY)))))"

definition audit_log_hook :: hook where
  "audit_log_hook =
     \<lparr>hk_name = ''builtin.audit_log'', hk_points = ALL_HOOK_POINTS, hk_failure_mode = FailOpen,
      hk_timeout = 5000 * MILLISECOND, hk_execute = (\<lambda>_ _. (0, Inr outcome_ok))\<rparr>"

definition register_bundled_hooks :: "hook_registry \<Rightarrow> registration_summary \<times> hook_registry" where
  "register_bundled_hooks r =
     (\<lparr>rs_hooks = 1, rs_outbound_webhooks = 0, rs_errors = 0\<rparr>, register_with_priority audit_log_hook 25 r)"

definition register_rule ::
  "bundle_env \<Rightarrow> string \<Rightarrow> hook_rule_config \<Rightarrow> registration_summary \<times> hook_registry \<Rightarrow> registration_summary \<times> hook_registry"
where
  "register_rule env source c sr =
     (case rule_from_config env source c of
        Inr (h, priority) \<Rightarrow> ((fst sr)\<lparr>rs_hooks := Suc (rs_hooks (fst sr))\<rparr>, register_with_priority h priority (snd sr))
      | Inl _ \<Rightarrow> ((fst sr)\<lparr>rs_errors := Suc (rs_errors (fst sr))\<rparr>, snd sr))"

definition register_webhook ::
  "bundle_env \<Rightarrow> string \<Rightarrow> outbound_webhook_config \<Rightarrow> registration_summary \<times> hook_registry \<Rightarrow> registration_summary \<times> hook_registry"
where
  "register_webhook env source c sr =
     (case webhook_from_config env source c of
        Inr (h, priority) \<Rightarrow>
          ((fst sr)\<lparr>rs_outbound_webhooks := Suc (rs_outbound_webhooks (fst sr))\<rparr>, register_with_priority h priority (snd sr))
      | Inl _ \<Rightarrow> ((fst sr)\<lparr>rs_errors := Suc (rs_errors (fst sr))\<rparr>, snd sr))"

definition register_bundle ::
  "bundle_env \<Rightarrow> string \<Rightarrow> hook_bundle_config \<Rightarrow> hook_registry \<Rightarrow> registration_summary \<times> hook_registry"
where
  "register_bundle env source b r =
     fold (register_webhook env source) (bc_outbound_webhooks b)
       (fold (register_rule env source) (bc_rules b) (summary_default, r))"

subsection \<open>The specification of the registry\<close>

text \<open>A registry is a map from names to hooks with their priorities; a registration updates it at the
  hook's name, an unregistration removes a name.\<close>

datatype registry_op = RegisterOp hook "32 word" | UnregisterOp string

type_synonym registry_spec = "string \<Rightarrow> (hook \<times> 32 word) option"

fun registry_perform :: "registry_op \<Rightarrow> hook_registry \<Rightarrow> hook_registry" where
  "registry_perform (RegisterOp h p) r = register_with_priority h p r"
| "registry_perform (UnregisterOp n) r = snd (unregister n r)"

fun spec_perform :: "registry_op \<Rightarrow> registry_spec \<Rightarrow> registry_spec" where
  "spec_perform (RegisterOp h p) m = m(hk_name h \<mapsto> (h, p))"
| "spec_perform (UnregisterOp n) m = m(n := None)"

definition named_entry :: "hook_entry \<Rightarrow> string \<times> hook \<times> 32 word" where
  "named_entry e = (entry_name e, hn_hook e, hn_priority e)"

definition registry_abs :: "hook_registry \<Rightarrow> registry_spec" where
  "registry_abs r = map_of (map named_entry r)"

definition registry_inv :: "hook_registry \<Rightarrow> bool" where
  "registry_inv r = (distinct (map entry_name r) \<and> sorted (map hn_priority r))"

text \<open>The part of an event that says whose it is and where it goes.\<close>

fun event_routing :: "hook_event \<Rightarrow> string list \<times> string option" where
  "event_routing (EvInbound u c _ t) = ([u, c], t)"
| "event_routing (EvOutbound u c _ t) = ([u, c], t)"
| "event_routing (EvToolCall n _ u c) = ([n, u, c], None)"
| "event_routing (EvResponseTransform u t _) = ([u, t], None)"
| "event_routing (EvSessionStart u s) = ([u, s], None)"
| "event_routing (EvSessionEnd u s) = ([u, s], None)"

text \<open>A hook that ran in time and let the event pass.\<close>

definition passed :: "hook \<Rightarrow> hook_event \<Rightarrow> bool" where
  "passed h ev =
     (case hk_execute h ev default_context of
        (took, Inr (Continue _)) \<Rightarrow> took \<le> hk_timeout h
      | _ \<Rightarrow> False)"

definition sample_hook :: "string \<Rightarrow> failure_mode \<Rightarrow> (hook_error, hook_outcome) result \<Rightarrow> hook" where
  "sample_hook name mode res =
     \<lparr>hk_name = name, hk_points = [BeforeInbound], hk_failure_mode = mode, hk_timeout = 10,
      hk_execute = (\<lambda>_ _. (1, res))\<rparr>"

text \<open>A hook that a bundle of the source may declare.\<close>

definition from_source :: "string \<Rightarrow> hook \<Rightarrow> bool" where
  "from_source source h =
     (starts_with (source @ ''::'') (hk_name h) \<and> hk_points h \<noteq> [] \<and> 0 < hk_timeout h \<and>
      hk_timeout h \<le> MAX_HOOK_TIMEOUT_MS * MILLISECOND)"

text \<open>What a registration of a source does to the map: it changes names of the source only, to hooks
  of the source.\<close>

definition source_update :: "string \<Rightarrow> hook_registry \<Rightarrow> hook_registry \<Rightarrow> bool" where
  "source_update source r r' =
     (registry_inv r' \<and>
      (\<forall>n. registry_abs r' n = registry_abs r n \<or>
           (\<exists>h p. registry_abs r' n = Some (h, p) \<and> hk_name h = n \<and> from_source source h)))"

section \<open>Lemmas\<close>

subsection \<open>The registry\<close>

lemma fst_named_entry [simp]: "fst (named_entry e) = entry_name e"
  by (simp add: named_entry_def)

lemma map_fst_named [simp]: "map fst (map named_entry r) = map entry_name r"
  by simp

lemma replace_first_names [simp]: "map entry_name (replace_first h p r) = map entry_name r"
  by (induction h p r rule: replace_first.induct) (auto simp: entry_name_def)

lemma replace_first_abs:
  "list_ex (\<lambda>e. entry_name e = hk_name h) r \<Longrightarrow>
   registry_abs (replace_first h p r) = (registry_abs r)(hk_name h \<mapsto> (h, p))"
proof (induction h p r rule: replace_first.induct)
  case (2 h p e es)
  then show ?case
    by (cases "entry_name e = hk_name h") (auto simp: registry_abs_def named_entry_def entry_name_def fun_eq_iff)
qed simp

lemma append_abs:
  "\<not> list_ex (\<lambda>e. entry_name e = hk_name h) r \<Longrightarrow>
   registry_abs (r @ [\<lparr>hn_hook = h, hn_priority = p\<rparr>]) = (registry_abs r)(hk_name h \<mapsto> (h, p))"
proof -
  assume "\<not> list_ex (\<lambda>e. entry_name e = hk_name h) r"
  then have "registry_abs r (hk_name h) = None"
    by (auto simp: registry_abs_def map_of_eq_None_iff list_ex_iff)
  then show ?thesis
    by (auto simp: registry_abs_def named_entry_def entry_name_def fun_eq_iff map_add_def split: option.splits)
qed

lemma distinct_names_sort [simp]: "distinct (map entry_name (sort_key f r)) = distinct (map entry_name r)"
  by (simp add: distinct_map)

lemma sort_abs:
  assumes "distinct (map entry_name r)"
  shows "registry_abs (sort_key f r) = registry_abs r"
  unfolding registry_abs_def using assms by (intro map_of_inject_set [THEN iffD2]) (simp_all add: o_def)

lemma register_refines:
  assumes "registry_inv r"
  shows "registry_inv (register_with_priority h p r)"
    "registry_abs (register_with_priority h p r) = (registry_abs r)(hk_name h \<mapsto> (h, p))"
proof -
  let ?r = "if list_ex (\<lambda>e. entry_name e = hk_name h) r then replace_first h p r
    else r @ [\<lparr>hn_hook = h, hn_priority = p\<rparr>]"
  have d: "distinct (map entry_name ?r)"
    using assms by (auto simp: registry_inv_def list_ex_iff entry_name_def)
  then show "registry_inv (register_with_priority h p r)"
    by (simp add: registry_inv_def register_with_priority_def)
  show "registry_abs (register_with_priority h p r) = (registry_abs r)(hk_name h \<mapsto> (h, p))"
    unfolding register_with_priority_def sort_abs [OF d] by (simp add: replace_first_abs append_abs)
qed

lemma filter_abs: "registry_abs (filter (\<lambda>e. entry_name e \<noteq> n) r) = (registry_abs r)(n := None)"
  by (induction r) (auto simp: registry_abs_def named_entry_def fun_eq_iff)

lemma registry_perform_refines:
  assumes "registry_inv r"
  shows "registry_inv (registry_perform op r) \<and> registry_abs (registry_perform op r) = spec_perform op (registry_abs r)"
proof (cases op)
  case (RegisterOp h p)
  then show ?thesis using register_refines [OF assms] by simp
next
  case (UnregisterOp n)
  then show ?thesis
    using assms by (auto simp: unregister_def Let_def filter_abs registry_inv_def sorted_filter distinct_map_filter)
qed

interpretation registry: op_refinement registry_perform registry_inv registry_abs spec_perform
  by unfold_locales (use registry_perform_refines in blast)+

subsection \<open>The chain\<close>

lemma apply_modification_routing [simp]:
  "event_routing (apply_modification jl v ev) = event_routing ev"
  "event_point (apply_modification jl v ev) = event_point ev"
  by (cases ev; auto split: option.splits)+

lemma run_hook_routing:
  "run_hook jl se h ev = Inr ev' \<Longrightarrow> event_routing ev' = event_routing ev \<and> event_point ev' = event_point ev"
  by (auto simp: run_hook_def split: prod.splits if_splits failure_mode.splits sum.splits hook_outcome.splits option.splits)

lemma run_chain_routing:
  "run_chain jl se hs ev = Inr ev' \<Longrightarrow> event_routing ev' = event_routing ev \<and> event_point ev' = event_point ev"
  by (induction jl se hs ev rule: run_chain.induct) (auto dest!: run_hook_routing split: sum.splits)

lemma run_hook_closed:
  "run_hook jl se h ev = Inr ev' \<Longrightarrow> hk_failure_mode h = FailClosed \<Longrightarrow> passed h ev"
  by (auto simp: run_hook_def passed_def split: prod.splits if_splits sum.splits hook_outcome.splits option.splits)

lemma run_chain_closed:
  assumes "run_chain jl se hs ev = Inr ev'" "h \<in> set hs" "hk_failure_mode h = FailClosed"
  shows "\<exists>ev''. passed h ev'' \<and> event_routing ev'' = event_routing ev \<and> event_point ev'' = event_point ev"
  using assms
proof (induction jl se hs ev rule: run_chain.induct)
  case (2 jl se g hs ev)
  then obtain ev1 where g: "run_hook jl se g ev = Inr ev1" "run_chain jl se hs ev1 = Inr ev'"
    by (auto split: sum.splits)
  show ?case
  proof (cases "h = g")
    case True
    then show ?thesis using run_hook_closed [OF g(1)] 2(4) by blast
  next
    case False
    then show ?thesis using 2(1) [OF g(1,2)] 2(3,4) run_hook_routing [OF g(1)] by auto
  qed
qed simp

lemma run_chain_append:
  "run_chain jl se (hs @ gs) ev = (case run_chain jl se hs ev of Inl e \<Rightarrow> Inl e | Inr ev' \<Rightarrow> run_chain jl se gs ev')"
  by (induction jl se hs ev rule: run_chain.induct) (auto split: sum.splits)

lemma session_event_fixed:
  "event_routing ev' = event_routing ev \<Longrightarrow> event_point ev' = event_point ev \<Longrightarrow>
   event_point ev \<in> {OnSessionStart, OnSessionEnd} \<Longrightarrow> ev' = ev"
  by (cases ev; cases ev') auto

subsection \<open>Bundles\<close>

lemma timeout_from_ms_bounds:
  "timeout_from_ms t n = Inr d \<Longrightarrow> 0 < d \<and> d \<le> MAX_HOOK_TIMEOUT_MS * MILLISECOND"
  by (auto simp: timeout_from_ms_def MAX_HOOK_TIMEOUT_MS_def MILLISECOND_def split: option.splits if_splits)

lemma rule_from_source: "rule_from_config env source c = Inr (h, p) \<Longrightarrow> from_source source h"
  by (auto simp: rule_from_config_def from_source_def Let_def scoped_name_def starts_with_def
      dest: timeout_from_ms_bounds split: if_splits sum.splits option.splits)

lemma webhook_from_source: "webhook_from_config env source c = Inr (h, p) \<Longrightarrow> from_source source h"
  by (auto simp: webhook_from_config_def from_source_def Let_def scoped_name_def starts_with_def
      dest: timeout_from_ms_bounds split: if_splits sum.splits option.splits)

lemma source_update_register:
  assumes "source_update source r r'" "from_source source h"
  shows "source_update source r (register_with_priority h p r')"
  using assms register_refines [of r' h p] by (auto simp: source_update_def)

lemma register_rule_update:
  "source_update source r (snd sr) \<Longrightarrow> source_update source r (snd (register_rule env source c sr))"
  by (auto simp: register_rule_def intro: source_update_register rule_from_source split: sum.splits)

lemma register_webhook_update:
  "source_update source r (snd sr) \<Longrightarrow> source_update source r (snd (register_webhook env source c sr))"
  by (auto simp: register_webhook_def intro: source_update_register webhook_from_source split: sum.splits)

lemma register_bundle_update:
  assumes "registry_inv r"
  shows "source_update source r (snd (register_bundle env source b r))"
proof -
  have rules: "source_update source r (snd sr) \<Longrightarrow> source_update source r (snd (fold (register_rule env source) cs sr))" for cs sr
    by (induction cs arbitrary: sr) (simp_all add: register_rule_update)
  have hooks: "source_update source r (snd sr) \<Longrightarrow> source_update source r (snd (fold (register_webhook env source) cs sr))" for cs sr
    by (induction cs arbitrary: sr) (simp_all add: register_webhook_update)
  show ?thesis
    unfolding register_bundle_def using assms by (intro hooks rules) (simp add: source_update_def)
qed

lemma register_bundle_counts:
  "rs_hooks (fst (register_bundle env source b r)) + rs_outbound_webhooks (fst (register_bundle env source b r))
     + rs_errors (fst (register_bundle env source b r)) = length (bc_rules b) + length (bc_outbound_webhooks b)"
proof -
  let ?n = "\<lambda>s. rs_hooks s + rs_outbound_webhooks s + rs_errors s"
  have "?n (fst (fold (register_rule env source) cs sr)) = ?n (fst sr) + length cs" for cs sr
    by (induction cs arbitrary: sr) (auto simp: register_rule_def split: sum.splits)
  moreover have "?n (fst (fold (register_webhook env source) cs sr)) = ?n (fst sr) + length cs" for cs sr
    by (induction cs arbitrary: sr) (auto simp: register_webhook_def split: sum.splits)
  ultimately show ?thesis by (simp add: register_bundle_def summary_default_def)
qed

section \<open>Properties\<close>

text \<open>
  C29. The registry implements a map from names to hooks: after any sequence of registrations and
  unregistrations, starting from the empty registry, it holds exactly the hooks of the map, each name
  once, in the order of the priorities.
\<close>

theorem hook_registry_refines:
  "registry_abs (fold registry_perform ops hook_registry_new) = fold spec_perform ops (\<lambda>_. None)
   \<and> registry_inv (fold registry_perform ops hook_registry_new)"
proof -
  have "registry_inv hook_registry_new" "registry_abs hook_registry_new = (\<lambda>_. None)"
    by (auto simp: registry_inv_def registry_abs_def hook_registry_new_def)
  then show ?thesis using registry.fold_refines registry.fold_inv by metis
qed

text \<open>
  When the hooks let an event pass, every hook for its point that must not fail open ran in time
  and returned without an error and without a rejection, on an event with the same routing: an error
  or a timeout of such a hook always stops the event.
\<close>

theorem fail_closed_enforced:
  assumes "run_hooks jl se r ev = Inr outcome" "e \<in> set r" "event_point ev \<in> set (hk_points (hn_hook e))"
    and "hk_failure_mode (hn_hook e) = FailClosed"
  shows "\<exists>ev'. passed (hn_hook e) ev' \<and> event_routing ev' = event_routing ev \<and> event_point ev' = event_point ev"
proof -
  have h: "hn_hook e \<in> set (matching_hooks r ev)" using assms(2,3) by (auto simp: matching_hooks_def)
  then have ne: "matching_hooks r ev \<noteq> []" by auto
  obtain ev' where "run_chain jl se (matching_hooks r ev) ev = Inr ev'"
    using assms(1) ne by (auto simp: run_hooks_def Let_def split: sum.splits)
  then show ?thesis using run_chain_closed h assms(4) by blast
qed

theorem fail_closed_enforced_witness:
  "\<exists>ev'. passed (sample_hook ''guard'' FailClosed (Inr (Continue None))) ev' \<and>
     event_routing ev' = event_routing (EvInbound ''u'' ''web'' ''hi'' None) \<and>
     event_point ev' = event_point (EvInbound ''u'' ''web'' ''hi'' None)"
proof -
  let ?e = "\<lparr>hn_hook = sample_hook ''guard'' FailClosed (Inr (Continue None)), hn_priority = 1\<rparr>"
  have "run_hooks \<lparr>jl_from_str = \<lambda>_. None, jl_to_string = \<lambda>_. []\<rparr> (\<lambda>_. []) [?e] (EvInbound ''u'' ''web'' ''hi'' None) =
      Inr outcome_ok"
    by (simp add: run_hooks_def Let_def matching_hooks_def sample_hook_def run_hook_def)
  from fail_closed_enforced [OF this, of ?e] show ?thesis by (simp add: sample_hook_def)
qed

text \<open>
  Hooks change the content of an event and nothing else: the event that the chain leaves has the
  user, channel, thread, tool and session of the one it got, and for a session event the outcome is
  never a modification.
\<close>

theorem hooks_keep_routing:
  "(case run_chain jl se hs ev of
      Inr ev' \<Rightarrow> event_routing ev' = event_routing ev \<and> event_point ev' = event_point ev
    | Inl _ \<Rightarrow> True)
   \<and> run_hooks jl se r (EvSessionStart u sid) \<noteq> Inr (outcome_modify v)
   \<and> run_hooks jl se r (EvSessionEnd u sid) \<noteq> Inr (outcome_modify v)"
proof -
  have sess: "run_hooks jl se r ev \<noteq> Inr (outcome_modify v)" if "event_point ev \<in> {OnSessionStart, OnSessionEnd}" for ev
  proof -
    have "ev' = ev" if "run_chain jl se (matching_hooks r ev) ev = Inr ev'" for ev'
      using run_chain_routing [OF that] session_event_fixed \<open>event_point ev \<in> _\<close> by blast
    then show ?thesis
      by (auto simp: run_hooks_def Let_def outcome_ok_def outcome_modify_def split: sum.splits)
  qed
  show ?thesis
    using sess [of "EvSessionStart u sid"] sess [of "EvSessionEnd u sid"]
    by (auto split: sum.splits dest: run_chain_routing)
qed

text \<open>
  A bundle registers hooks under names of its own source only, each with a hook point and a timeout
  of at most thirty seconds: it cannot replace a hook of another source or the built-in one, and every
  rule and webhook of it is either registered or counted as an error.
\<close>

theorem bundle_confined:
  assumes "registry_inv r" "\<not> starts_with (source @ ''::'') n"
  shows "registry_abs (snd (register_bundle env source b r)) n = registry_abs r n
    \<and> (let s = fst (register_bundle env source b r)
       in total_registered s + rs_errors s = length (bc_rules b) + length (bc_outbound_webhooks b))"
  using register_bundle_update [OF assms(1), of source env b] assms(2) register_bundle_counts [of env source b r]
  by (auto simp: source_update_def from_source_def Let_def total_registered_def)

theorem bundle_confined_witness:
  "\<forall>env b. registry_abs (snd (register_bundle env ''workspace:hooks/hooks.json'' b (snd (register_bundled_hooks [])))) ''builtin.audit_log''
     = Some (audit_log_hook, 25)"
proof (intro allI)
  fix env b
  have inv: "registry_inv (snd (register_bundled_hooks []))" and abs: "registry_abs (snd (register_bundled_hooks [])) ''builtin.audit_log'' = Some (audit_log_hook, 25)"
    using register_refines [of "[]" audit_log_hook 25]
    by (simp_all add: register_bundled_hooks_def registry_inv_def audit_log_hook_def)
  have "\<not> starts_with (''workspace:hooks/hooks.json'' @ ''::'') ''builtin.audit_log''" by (simp add: starts_with_def)
  from bundle_confined [OF inv this, of env b]
  show "registry_abs (snd (register_bundle env ''workspace:hooks/hooks.json'' b (snd (register_bundled_hooks [])))) ''builtin.audit_log''
     = Some (audit_log_hook, 25)" by (simp add: abs)
qed

end
