(* ===== verification/Coercion.thy ===== *)
theory Coercion
  imports Json Strings
begin

unbundle bit_operations_syntax

text \<open>
  The coercion of tool parameters to the tool's JSON schema, \<open>src/tools/coercion.rs\<close>: the references of
  the schema are inlined up to a depth, then strings that stand for numbers, booleans, arrays or objects
  are replaced where the schema does not allow a string. \<open>serde_json::from_str\<close> and the parser of
  floating-point numbers are parameters. The recursion on the value follows the schema: every step goes
  to a smaller schema, except the one from a string to the array or object that it parses to.
\<close>

section \<open>Model\<close>

text \<open>A double is its bit pattern; a result \<open>None\<close> is an error.\<close>

record coerce_lib =
  cl_from_str :: "string \<Rightarrow> json option"
  cl_parse_f64 :: "string \<Rightarrow> 64 word option"

definition get_object :: "string \<Rightarrow> json \<Rightarrow> (string \<times> json) list option" where
  "get_object k v = (case json_get k v of Some (JObject es) \<Rightarrow> Some es | _ \<Rightarrow> None)"

definition get_array :: "string \<Rightarrow> json \<Rightarrow> json list option" where
  "get_array k v = (case json_get k v of Some (JArray xs) \<Rightarrow> Some xs | _ \<Rightarrow> None)"

definition is_object :: "json \<Rightarrow> bool" where
  "is_object v = (case v of JObject _ \<Rightarrow> True | _ \<Rightarrow> False)"

subsection \<open>References\<close>

definition MAX_REF_DEPTH :: nat where
  "MAX_REF_DEPTH = 16"

definition resolve_ref_pointer :: "string \<Rightarrow> json \<Rightarrow> json option" where
  "resolve_ref_pointer ref_str definitions =
     (case strip_prefix ''#/'' ref_str of
        None \<Rightarrow> None
      | Some path \<Rightarrow>
          (let parts = split_on (\<lambda>c. c = CHR ''/'') path
           in if length parts = 2 \<and> (parts ! 0 = ''definitions'' \<or> parts ! 0 = ''$defs'')
              then json_get (parts ! 1) definitions
              else None))"

function resolve_refs_inner :: "json \<Rightarrow> json \<Rightarrow> nat \<Rightarrow> json" where
  "resolve_refs_inner schema definitions depth =
     (if depth > MAX_REF_DEPTH then schema
      else
        (case schema of
           JObject obj \<Rightarrow>
             (case map_of obj ''$ref'' of
                Some (JString ref_str) \<Rightarrow>
                  (case resolve_ref_pointer ref_str definitions of
                     Some target \<Rightarrow> resolve_refs_inner target definitions (depth + 1)
                   | None \<Rightarrow> schema)
              | _ \<Rightarrow>
                  JObject (map (\<lambda>(k, v). if k = ''definitions'' \<or> k = ''$defs'' then (k, v)
                                        else (k, resolve_refs_inner v definitions (depth + 1))) obj))
         | JArray arr \<Rightarrow> JArray (map (\<lambda>v. resolve_refs_inner v definitions (depth + 1)) arr)
         | _ \<Rightarrow> schema))"
  by pat_completeness auto

termination resolve_refs_inner
  by (relation "measure (\<lambda>(_, _, depth). Suc MAX_REF_DEPTH - depth)") auto

declare resolve_refs_inner.simps [simp del]

definition resolve_refs :: "json \<Rightarrow> json" where
  "resolve_refs schema =
     resolve_refs_inner schema
       (case json_get ''definitions'' schema of
          Some d \<Rightarrow> d
        | None \<Rightarrow> (case json_get ''$defs'' schema of Some d \<Rightarrow> d | None \<Rightarrow> JNull)) 0"

subsection \<open>Types and combinators of a schema\<close>

definition schema_allows_type :: "json \<Rightarrow> string \<Rightarrow> bool" where
  "schema_allows_type schema expected =
     (case json_get ''type'' schema of
        Some (JString t) \<Rightarrow> t = expected
      | Some (JArray types) \<Rightarrow> list_ex (\<lambda>t. t = JString expected) types
      | _ \<Rightarrow>
          if expected = ''object''
          then get_object ''properties'' schema \<noteq> None \<or> json_get ''oneOf'' schema \<noteq> None
               \<or> json_get ''anyOf'' schema \<noteq> None \<or> json_get ''allOf'' schema \<noteq> None
          else if expected = ''array'' then json_get ''items'' schema \<noteq> None
          else False)"

text \<open>What one property of a variant says: nothing, that it matches, or that it does not.\<close>

definition discriminator :: "(string \<times> json) list \<Rightarrow> string \<times> json \<Rightarrow> bool option" where
  "discriminator obj kp =
     (case json_get ''const'' (snd kp) of
        Some const_val \<Rightarrow> Some (map_of obj (fst kp) = Some const_val)
      | None \<Rightarrow>
          (case get_array ''enum'' (snd kp) of
             Some [e] \<Rightarrow> Some (map_of obj (fst kp) = Some e)
           | _ \<Rightarrow> None))"

definition variant_matches :: "(string \<times> json) list \<Rightarrow> json \<Rightarrow> bool" where
  "variant_matches obj variant =
     (case get_object ''properties'' variant of
        None \<Rightarrow> False
      | Some props \<Rightarrow>
          list_all (\<lambda>kp. discriminator obj kp \<noteq> Some False) props \<and>
          list_ex (\<lambda>kp. discriminator obj kp \<noteq> None) props)"

definition find_discriminated_variant :: "json list \<Rightarrow> (string \<times> json) list \<Rightarrow> json option" where
  "find_discriminated_variant variants obj = List.find (variant_matches obj) variants"

definition map_extend :: "(string \<times> json) list \<Rightarrow> (string \<times> json) list \<Rightarrow> (string \<times> json) list" where
  "map_extend new merged = fold (\<lambda>(k, v). hm_put k v) new merged"

definition extend_properties :: "json \<Rightarrow> (string \<times> json) list \<Rightarrow> (string \<times> json) list" where
  "extend_properties variant merged =
     (case get_object ''properties'' variant of Some props \<Rightarrow> map_extend props merged | None \<Rightarrow> merged)"

definition extend_nested :: "(string \<times> json) list option \<Rightarrow> (string \<times> json) list \<Rightarrow> (string \<times> json) list" where
  "extend_nested nested merged = (case nested of Some n \<Rightarrow> map_extend n merged | None \<Rightarrow> merged)"

definition has_combinators :: "json \<Rightarrow> bool" where
  "has_combinators schema =
     (json_get ''allOf'' schema \<noteq> None \<or> json_get ''oneOf'' schema \<noteq> None \<or> json_get ''anyOf'' schema \<noteq> None)"

definition selected_variants :: "json \<Rightarrow> (string \<times> json) list \<Rightarrow> json list" where
  "selected_variants schema obj =
     (case get_array ''allOf'' schema of Some vs \<Rightarrow> vs | None \<Rightarrow> []) @
     concat (map (\<lambda>key. case get_array key schema of
                      Some vs \<Rightarrow> (case find_discriminated_variant vs obj of Some v \<Rightarrow> [v] | None \<Rightarrow> [])
                    | None \<Rightarrow> []) [''oneOf'', ''anyOf''])"

definition MAX_COMBINATOR_DEPTH :: nat where
  "MAX_COMBINATOR_DEPTH = 4"

function collect_properties :: "json \<Rightarrow> (string \<times> json) list \<Rightarrow> nat \<Rightarrow> (string \<times> json) list option" where
  "collect_properties schema obj depth =
     (if depth > MAX_COMBINATOR_DEPTH then None
      else if \<not> has_combinators schema then None
      else
        (let merged =
               fold (\<lambda>variant merged. extend_nested (collect_properties variant obj (depth + 1)) (extend_properties variant merged))
                 (selected_variants schema obj) (extend_properties schema [])
         in if merged = [] then None else Some merged))"
  by pat_completeness auto

termination collect_properties
  by (relation "measure (\<lambda>(_, _, depth). Suc MAX_COMBINATOR_DEPTH - depth)") auto

declare collect_properties.simps [simp del]

definition resolve_effective_properties :: "json \<Rightarrow> (string \<times> json) list \<Rightarrow> (string \<times> json) list option" where
  "resolve_effective_properties schema obj = collect_properties schema obj 0"

definition additional_of :: "json \<Rightarrow> json option" where
  "additional_of variant =
     (case json_get ''additionalProperties'' variant of Some ap \<Rightarrow> if is_object ap then Some ap else None | None \<Rightarrow> None)"

fun first_some :: "'a option list \<Rightarrow> 'a option" where
  "first_some [] = None"
| "first_some (Some x # xs) = Some x"
| "first_some (None # xs) = first_some xs"

definition variant_additional :: "json \<Rightarrow> (string \<times> json) list \<Rightarrow> string \<Rightarrow> json option" where
  "variant_additional schema obj key =
     (case get_array key schema of
        Some vs \<Rightarrow> Option.bind (find_discriminated_variant vs obj) additional_of
      | None \<Rightarrow> None)"

definition resolve_additional_properties :: "json \<Rightarrow> (string \<times> json) list \<Rightarrow> json option" where
  "resolve_additional_properties schema obj =
     (case first_some (map additional_of (rev (case get_array ''allOf'' schema of Some vs \<Rightarrow> vs | None \<Rightarrow> []))) of
        Some ap \<Rightarrow> Some ap
      | None \<Rightarrow> first_some (map (variant_additional schema obj) [''oneOf'', ''anyOf'']))"

subsection \<open>Scalars\<close>

fun decimal_value :: "int \<Rightarrow> string \<Rightarrow> int option" where
  "decimal_value acc [] = Some acc"
| "decimal_value acc (c # s) =
     (if is_ascii_digit c then decimal_value (acc * 10 + int (ascii_code c - 48)) s else None)"

text \<open>\<open>str::parse::<i64>\<close>: an optional sign and at least one digit, in the range of 64 bits.\<close>

definition parse_i64 :: "string \<Rightarrow> int option" where
  "parse_i64 s =
     (let (neg, ds) = (case s of
                         c # r \<Rightarrow> if c = CHR ''-'' then (True, r) else if c = CHR ''+'' then (False, r) else (False, s)
                       | [] \<Rightarrow> (False, []))
      in if ds = [] then None
         else (case decimal_value 0 ds of
                 None \<Rightarrow> None
               | Some n \<Rightarrow>
                   let v = (if neg then - n else n)
                   in if - (2 ^ 63) \<le> v \<and> v < 2 ^ 63 then Some v else None))"

definition json_of_i64 :: "int \<Rightarrow> json" where
  "json_of_i64 v = JNumber (if v < 0 then NegInt (of_int v) else PosInt (of_int v))"

definition f64_is_finite :: "64 word \<Rightarrow> bool" where
  "f64_is_finite bits = ((drop_bit 52 bits AND 0x7ff) \<noteq> 0x7ff)"

text \<open>\<open>Value::from(f64)\<close> of \<open>serde_json\<close>: infinities and not-a-number become null.\<close>

definition json_of_f64 :: "64 word \<Rightarrow> json" where
  "json_of_f64 bits = (if f64_is_finite bits then JNumber (Float bits) else JNull)"

definition scalar_of_string :: "coerce_lib \<Rightarrow> string \<Rightarrow> json \<Rightarrow> json option" where
  "scalar_of_string cl s schema =
     (case (if schema_allows_type schema ''integer'' then parse_i64 s else None) of
        Some v \<Rightarrow> Some (json_of_i64 v)
      | None \<Rightarrow>
          (case (if schema_allows_type schema ''number'' then cl_parse_f64 cl s else None) of
             Some v \<Rightarrow> Some (json_of_f64 v)
           | None \<Rightarrow>
               if schema_allows_type schema ''boolean'' \<and> to_lower s = ''true'' then Some (JBool True)
               else if schema_allows_type schema ''boolean'' \<and> to_lower s = ''false'' then Some (JBool False)
               else None))"

definition container_of_string :: "coerce_lib \<Rightarrow> string \<Rightarrow> json \<Rightarrow> json option" where
  "container_of_string cl s schema =
     (if schema_allows_type schema ''array'' \<or> schema_allows_type schema ''object''
      then (case cl_from_str cl s of
              Some (JArray xs) \<Rightarrow> if schema_allows_type schema ''array'' then Some (JArray xs) else None
            | Some (JObject es) \<Rightarrow> if schema_allows_type schema ''object'' then Some (JObject es) else None
            | _ \<Rightarrow> None)
      else None)"

subsection \<open>Values\<close>

definition object_properties :: "json \<Rightarrow> (string \<times> json) list \<Rightarrow> (string \<times> json) list option" where
  "object_properties schema obj =
     (case resolve_effective_properties schema obj of
        Some ps \<Rightarrow> Some ps
      | None \<Rightarrow> get_object ''properties'' schema)"

definition object_additional :: "json \<Rightarrow> (string \<times> json) list \<Rightarrow> json option" where
  "object_additional schema obj =
     (case additional_of schema of Some ap \<Rightarrow> Some ap | None \<Rightarrow> resolve_additional_properties schema obj)"

definition required_keys :: "json \<Rightarrow> string list" where
  "required_keys schema =
     (case get_array ''required'' schema of
        Some arr \<Rightarrow> List.map_filter (\<lambda>v. case v of JString s \<Rightarrow> Some s | _ \<Rightarrow> None) arr
      | None \<Rightarrow> [])"

definition property_schema :: "json \<Rightarrow> (string \<times> json) list \<Rightarrow> string \<Rightarrow> json option" where
  "property_schema schema obj key = Option.bind (object_properties schema obj) (\<lambda>ps. map_of ps key)"

definition blank_optional :: "json \<Rightarrow> json \<Rightarrow> string \<Rightarrow> json \<Rightarrow> bool" where
  "blank_optional schema prop_schema key current =
     (current = JString [] \<and> key \<notin> set (required_keys schema) \<and>
      (schema_allows_type prop_schema ''null'' \<or> \<not> schema_allows_type prop_schema ''string''))"

text \<open>What becomes of a string: it stays, it is replaced, or it is parsed and the container is coerced.\<close>

datatype string_step = KeepString | ReplaceBy json | CoerceParsed json

definition coerce_string_value :: "coerce_lib \<Rightarrow> string \<Rightarrow> json \<Rightarrow> string_step" where
  "coerce_string_value cl s schema =
     (if s = [] \<and> schema_allows_type schema ''null'' \<and> \<not> schema_allows_type schema ''string'' then ReplaceBy JNull
      else if schema_allows_type schema ''string'' then KeepString
      else if s = [] then KeepString
      else
        (case scalar_of_string cl s schema of
           Some v \<Rightarrow> ReplaceBy v
         | None \<Rightarrow>
             (case container_of_string cl s schema of
                Some parsed \<Rightarrow> CoerceParsed parsed
              | None \<Rightarrow> KeepString)))"

definition is_string :: "json \<Rightarrow> bool" where
  "is_string v = (case v of JString _ \<Rightarrow> True | _ \<Rightarrow> False)"

function coerce_value :: "coerce_lib \<Rightarrow> json \<Rightarrow> json \<Rightarrow> json" where
  "coerce_value cl value schema =
     (case value of
        JNull \<Rightarrow> value
      | JString s \<Rightarrow>
          (case coerce_string_value cl s schema of
             KeepString \<Rightarrow> value
           | ReplaceBy v \<Rightarrow> v
           | CoerceParsed parsed \<Rightarrow> coerce_value cl parsed schema)
      | JArray items \<Rightarrow>
          if \<not> schema_allows_type schema ''array'' then value
          else (case json_get ''items'' schema of
                  None \<Rightarrow> value
                | Some item_schema \<Rightarrow> JArray (map (\<lambda>item. coerce_value cl item item_schema) items))
      | JObject obj \<Rightarrow>
          if \<not> schema_allows_type schema ''object'' then value
          else JObject (map (\<lambda>(key, current).
                 (key,
                  case property_schema schema obj key of
                    Some prop_schema \<Rightarrow>
                      if blank_optional schema prop_schema key current then JNull
                      else coerce_value cl current prop_schema
                  | None \<Rightarrow>
                      (case object_additional schema obj of
                         Some additional_schema \<Rightarrow> coerce_value cl current additional_schema
                       | None \<Rightarrow> current))) obj)
      | _ \<Rightarrow> value)"
  by pat_completeness auto

section \<open>Termination\<close>

lemma size_entry: "(k, v) \<in> set es \<Longrightarrow> size v < size (JObject es)"
proof (induction es)
  case (Cons e es)
  then show ?case by (cases e) auto
qed simp

lemma size_elem: "v \<in> set xs \<Longrightarrow> size v < size (JArray xs)"
  by (induction xs) auto

lemma json_get_size: "json_get k schema = Some v \<Longrightarrow> size v < size schema"
proof (cases schema)
  case (JObject es)
  assume "json_get k schema = Some v"
  then have "(k, v) \<in> set es" by (auto simp: json_get_def JObject dest: map_of_SomeD)
  then show ?thesis unfolding JObject by (rule size_entry)
qed (simp_all add: json_get_def)

lemma get_array_size:
  assumes "get_array k schema = Some vs" "v \<in> set vs"
  shows "size v < size schema"
proof -
  have "json_get k schema = Some (JArray vs)"
    using assms(1) by (auto simp: get_array_def split: option.splits json.splits)
  then show ?thesis using json_get_size size_elem [OF assms(2)] by fastforce
qed

lemma get_object_size:
  assumes "get_object k schema = Some es" "(key, v) \<in> set es"
  shows "size v < size schema"
proof -
  have "json_get k schema = Some (JObject es)"
    using assms(1) by (auto simp: get_object_def split: option.splits json.splits)
  then show ?thesis using json_get_size size_entry [OF assms(2)] by fastforce
qed

lemma discriminated_size:
  "get_array k schema = Some vs \<Longrightarrow> find_discriminated_variant vs obj = Some v \<Longrightarrow> size v < size schema"
  by (auto simp: find_discriminated_variant_def find_Some_iff intro: get_array_size)

lemma hm_put_set: "set (hm_put k v m) \<subseteq> insert (k, v) (set m)"
  unfolding hm_put_def by (induction m) auto

lemma map_extend_set: "set (map_extend new merged) \<subseteq> set new \<union> set merged"
  unfolding map_extend_def
proof (induction new arbitrary: merged)
  case (Cons e new)
  then show ?case using hm_put_set [of "fst e" "snd e" merged] by (cases e) fastforce
qed simp

lemma selected_variants_size: "v \<in> set (selected_variants schema obj) \<Longrightarrow> size v < size schema"
  by (auto simp: selected_variants_def split: option.splits
      intro: get_array_size [OF sym] discriminated_size [OF sym sym])

lemma extend_properties_size:
  "(k, v) \<in> set (extend_properties variant merged) \<Longrightarrow> size v < size variant \<or> (k, v) \<in> set merged"
  by (auto simp: extend_properties_def split: option.splits dest!: subsetD [OF map_extend_set] dest: get_object_size)

lemma collect_properties_size:
  "collect_properties schema obj depth = Some ps \<Longrightarrow> (k, v) \<in> set ps \<Longrightarrow> size v < size schema"
proof (induction schema obj depth arbitrary: ps k v rule: collect_properties.induct)
  case (1 schema obj depth)
  have c: "\<not> depth > MAX_COMBINATOR_DEPTH" "has_combinators schema"
    using 1(2) by (auto simp: collect_properties.simps [of schema obj depth] split: if_splits)
  let ?step = "\<lambda>variant merged. extend_nested (collect_properties variant obj (depth + 1)) (extend_properties variant merged)"
  have "(k', v') \<in> set (fold ?step vs m) \<Longrightarrow> set vs \<subseteq> set (selected_variants schema obj) \<Longrightarrow>
      (\<And>k v. (k, v) \<in> set m \<Longrightarrow> size v < size schema) \<Longrightarrow> size v' < size schema" for vs m k' v'
  proof (induction vs arbitrary: m)
    case (Cons w ws)
    have w: "size w < size schema" using Cons.prems(2) selected_variants_size by auto
    have "size y < size schema" if "(x, y) \<in> set (?step w m)" for x y
    proof (cases "collect_properties w obj (depth + 1)")
      case None
      then show ?thesis using that extend_properties_size Cons.prems(3) w
        by (fastforce simp: extend_nested_def)
    next
      case (Some n)
      then have "(x, y) \<in> set n \<or> (x, y) \<in> set (extend_properties w m)"
        using that subsetD [OF map_extend_set] by (fastforce simp: extend_nested_def)
      then show ?thesis
      proof
        assume "(x, y) \<in> set n"
        then have "size y < size w" using 1(1) [OF c(1), of w] c(2) Some Cons.prems(2) by auto
        then show ?thesis using w by simp
      next
        assume "(x, y) \<in> set (extend_properties w m)"
        then show ?thesis using extend_properties_size Cons.prems(3) w by fastforce
      qed
    qed
    then show ?case using Cons.IH [of "?step w m"] Cons.prems by auto
  qed simp
  moreover have "size y < size schema" if "(x, y) \<in> set (extend_properties schema [])" for x y
    using extend_properties_size [OF that] by simp
  moreover have "(k, v) \<in> set (fold ?step (selected_variants schema obj) (extend_properties schema []))"
    using 1(2,3) c by (simp add: collect_properties.simps [of schema obj depth] Let_def split: if_splits)
  ultimately show ?case by blast
qed

lemma additional_of_size: "additional_of w = Some ap \<Longrightarrow> size ap < size w"
  by (auto simp: additional_of_def split: option.splits if_splits dest: json_get_size)

lemma first_some_SomeD: "first_some xs = Some x \<Longrightarrow> Some x \<in> set xs"
  by (induction xs rule: first_some.induct) auto

lemma object_additional_size:
  assumes "object_additional schema obj = Some ap"
  shows "size ap < size schema"
proof -
  let ?all = "case get_array ''allOf'' schema of Some vs \<Rightarrow> vs | None \<Rightarrow> []"
  have "additional_of schema = Some ap \<or> Some ap \<in> additional_of ` set ?all \<or>
      (\<exists>key. variant_additional schema obj key = Some ap)"
    using assms
    by (auto simp: object_additional_def resolve_additional_properties_def simp del: first_some.simps
        split: option.splits dest!: first_some_SomeD) blast+
  then consider "additional_of schema = Some ap"
    | w where "w \<in> set ?all" "additional_of w = Some ap"
    | key vs w where "get_array key schema = Some vs" "find_discriminated_variant vs obj = Some w" "additional_of w = Some ap"
  proof (elim disjE)
    assume "Some ap \<in> additional_of ` set ?all"
    then obtain w where w: "Some ap = additional_of w" "w \<in> set ?all" by (rule imageE)
    show thesis by (rule that(2) [OF w(2) w(1) [symmetric]])
  next
    assume "\<exists>key. variant_additional schema obj key = Some ap"
    then show thesis using that(3) by (auto simp: variant_additional_def bind_eq_Some_conv split: option.splits)
  qed (use that(1) in blast)
  then have "\<exists>w. additional_of w = Some ap \<and> size w \<le> size schema"
  proof cases
    case 2
    then have "size w < size schema" by (auto intro: get_array_size [OF sym] split: option.splits)
    then show ?thesis using 2 by (intro exI [of _ w]) simp
  next
    case 3
    then have "size w < size schema" by (intro discriminated_size)
    then show ?thesis using 3 by (intro exI [of _ w]) simp
  qed blast
  then show ?thesis using additional_of_size by fastforce
qed

lemma property_schema_size: "property_schema schema obj key = Some p \<Longrightarrow> size p < size schema"
  by (auto simp: property_schema_def object_properties_def resolve_effective_properties_def bind_eq_Some_conv
      split: option.splits dest!: map_of_SomeD dest: collect_properties_size get_object_size)

lemma container_not_string: "container_of_string cl s schema = Some v \<Longrightarrow> \<not> is_string v"
  by (auto simp: container_of_string_def is_string_def split: if_splits option.splits json.splits)

lemma parsed_not_string: "coerce_string_value cl s schema = CoerceParsed v \<Longrightarrow> \<not> is_string v"
  by (auto simp: coerce_string_value_def split: if_splits option.splits dest: container_not_string)

termination coerce_value
  by (relation "measures [\<lambda>(cl, v, s). size s, \<lambda>(cl, v, s). if is_string v then 1 else 0]")
    (auto simp: is_string_def dest: json_get_size property_schema_size object_additional_size parsed_not_string
      split: json.splits)

declare coerce_value.simps [simp del]

section \<open>The coercion of parameters\<close>

definition prepare_params_for_schema :: "coerce_lib \<Rightarrow> json \<Rightarrow> json \<Rightarrow> json" where
  "prepare_params_for_schema cl params schema = coerce_value cl params (resolve_refs schema)"

text \<open>The type of a value in the vocabulary of JSON schema.\<close>

definition value_allowed :: "json \<Rightarrow> json \<Rightarrow> bool" where
  "value_allowed schema v =
     (case v of
        JNull \<Rightarrow> schema_allows_type schema ''null''
      | JBool _ \<Rightarrow> schema_allows_type schema ''boolean''
      | JNumber (Float _) \<Rightarrow> schema_allows_type schema ''number''
      | JNumber _ \<Rightarrow> schema_allows_type schema ''integer''
      | JString _ \<Rightarrow> schema_allows_type schema ''string''
      | JArray _ \<Rightarrow> schema_allows_type schema ''array''
      | JObject _ \<Rightarrow> schema_allows_type schema ''object'')"

text \<open>A string stays, or is replaced where the schema does not allow a string: by a value of an allowed type, or by
  null when it is a number that is not finite.\<close>

definition string_typed :: "coerce_lib \<Rightarrow> json \<Rightarrow> string \<Rightarrow> json \<Rightarrow> bool" where
  "string_typed cl schema s v =
     (v = JString s \<or>
      (\<not> schema_allows_type schema ''string'' \<and>
       (value_allowed schema v \<or>
        (v = JNull \<and> (\<exists>bits. cl_parse_f64 cl s = Some bits \<and> \<not> f64_is_finite bits \<and> schema_allows_type schema ''number'')))))"

definition same_shape :: "json \<Rightarrow> json \<Rightarrow> bool" where
  "same_shape v w =
     (case v of
        JString _ \<Rightarrow> True
      | JArray xs \<Rightarrow> (case w of JArray ys \<Rightarrow> length xs = length ys | _ \<Rightarrow> False)
      | JObject es \<Rightarrow> (case w of JObject fs \<Rightarrow> map fst es = map fst fs | _ \<Rightarrow> False)
      | _ \<Rightarrow> v = w)"

section \<open>Lemmas\<close>

lemma scalar_allowed:
  assumes "scalar_of_string cl s schema = Some v"
  shows "value_allowed schema v \<or>
    (v = JNull \<and> (\<exists>bits. cl_parse_f64 cl s = Some bits \<and> \<not> f64_is_finite bits \<and> schema_allows_type schema ''number''))"
  using assms
  by (auto simp: scalar_of_string_def value_allowed_def json_of_i64_def json_of_f64_def split: option.splits if_splits)

lemma coerce_container:
  "\<not> is_string v \<Longrightarrow> same_shape v (coerce_value cl v schema)"
  unfolding coerce_value.simps [of cl v schema]
  by (cases v) (auto simp: is_string_def same_shape_def comp_def split: option.splits)

lemma coerce_container_allowed:
  "container_of_string cl s schema = Some v \<Longrightarrow> value_allowed schema (coerce_value cl v schema)"
  unfolding coerce_value.simps [of cl v schema]
  by (auto simp: container_of_string_def value_allowed_def split: option.splits json.splits if_splits)

lemma coerce_string_typed: "string_typed cl schema s (coerce_value cl (JString s) schema)"
proof -
  note unf = coerce_value.simps [of cl "JString s" schema]
  show ?thesis
  proof (cases "coerce_string_value cl s schema")
    case KeepString
    then show ?thesis by (simp add: unf string_typed_def)
  next
    case (ReplaceBy v)
    then have "\<not> schema_allows_type schema ''string''" "v = JNull \<and> schema_allows_type schema ''null'' \<or> scalar_of_string cl s schema = Some v"
      by (auto simp: coerce_string_value_def split: if_splits option.splits)
    then show ?thesis using ReplaceBy scalar_allowed [of cl s schema v] by (auto simp: unf string_typed_def value_allowed_def)
  next
    case (CoerceParsed v)
    then have "\<not> schema_allows_type schema ''string''" "container_of_string cl s schema = Some v"
      by (auto simp: coerce_string_value_def split: if_splits option.splits)
    then show ?thesis using CoerceParsed coerce_container_allowed by (auto simp: unf string_typed_def)
  qed
qed

section \<open>Properties\<close>



text \<open>
  The coercion keeps what is not a string: null, booleans and numbers are unchanged, an array keeps
  its length and an object its keys in their order, whatever the schema says.
\<close>

theorem coercion_keeps_shape:
  "same_shape v (prepare_params_for_schema cl v schema)"
  using coerce_container [of v cl "resolve_refs schema"]
  by (cases "is_string v") (auto simp: prepare_params_for_schema_def same_shape_def is_string_def split: json.splits)

text \<open>
  A text such as \<open>NaN\<close> or \<open>inf\<close>, which parses as a double that is not finite, is replaced by null where
  the schema asks for a number and does not allow null.
\<close>

theorem non_finite_becomes_null:
  assumes "json_get ''type'' schema = Some (JString ''number'')" "cl_parse_f64 cl s = Some bits" "\<not> f64_is_finite bits" "s \<noteq> []"
  shows "coerce_value cl (JString s) schema = JNull \<and> \<not> value_allowed schema JNull"
proof -
  have t: "schema_allows_type schema x = (x = ''number'')" for x
    using assms(1) by (auto simp: schema_allows_type_def)
  have "coerce_string_value cl s schema = ReplaceBy JNull"
    using assms by (simp add: coerce_string_value_def scalar_of_string_def json_of_f64_def t)
  then show ?thesis by (simp add: coerce_value.simps [of cl "JString s" schema] value_allowed_def t)
qed

theorem non_finite_becomes_null_witness:
  "coerce_value \<lparr>cl_from_str = \<lambda>_. None, cl_parse_f64 = \<lambda>s. if s = ''inf'' then Some 0x7ff0000000000000 else None\<rparr>
     (JString ''inf'') (JObject [(''type'', JString ''number'')]) = JNull
   \<and> \<not> value_allowed (JObject [(''type'', JString ''number'')]) JNull"
proof -
  have "\<not> f64_is_finite 0x7ff0000000000000" by code_simp
  then show ?thesis
    by (intro non_finite_becomes_null [where bits = "0x7ff0000000000000"]) (simp_all add: json_get_def)
qed

end
