(* ===== verification/Validator.thy ===== *)
theory Validator
  imports String_Edit Json
begin

text \<open>
  The validator of the safety crate, \<open>crates/ironclaw_safety/src/validator.rs\<close>: the checks of one text
  and of all texts in the parameters of a tool. The set of forbidden patterns is the list of its
  members in the order of iteration.
\<close>

section \<open>Model\<close>

datatype validation_error_code =
    EmptyInput | TooLong | TooShort | InvalidFormat | ForbiddenContent | InvalidEncoding | SuspiciousPattern

record validation_error =
  ve_field :: string
  ve_message :: string
  ve_code :: validation_error_code

record validation_result =
  vr_is_valid :: bool
  vr_errors :: "validation_error list"
  vr_warnings :: "string list"

definition validation_ok :: validation_result where
  "validation_ok = \<lparr>vr_is_valid = True, vr_errors = [], vr_warnings = []\<rparr>"

definition validation_failed :: "validation_error \<Rightarrow> validation_result" where
  "validation_failed e = \<lparr>vr_is_valid = False, vr_errors = [e], vr_warnings = []\<rparr>"

definition with_warning :: "string \<Rightarrow> validation_result \<Rightarrow> validation_result" where
  "with_warning w r = r\<lparr>vr_warnings := vr_warnings r @ [w]\<rparr>"

definition merge_result :: "validation_result \<Rightarrow> validation_result \<Rightarrow> validation_result" where
  "merge_result r other =
     \<lparr>vr_is_valid = vr_is_valid r \<and> vr_is_valid other,
      vr_errors = vr_errors r @ vr_errors other,
      vr_warnings = vr_warnings r @ vr_warnings other\<rparr>"

record validator =
  vd_max_length :: nat
  vd_min_length :: nat
  vd_forbidden_patterns :: "string list"

definition input_validator_new :: validator where
  "input_validator_new = \<lparr>vd_max_length = 100000, vd_min_length = 1, vd_forbidden_patterns = []\<rparr>"

definition with_max_length :: "nat \<Rightarrow> validator \<Rightarrow> validator" where
  "with_max_length n v = v\<lparr>vd_max_length := n\<rparr>"

definition with_min_length :: "nat \<Rightarrow> validator \<Rightarrow> validator" where
  "with_min_length n v = v\<lparr>vd_min_length := n\<rparr>"

definition forbid_pattern :: "string \<Rightarrow> validator \<Rightarrow> validator" where
  "forbid_pattern p v = v\<lparr>vd_forbidden_patterns := List.insert (to_lower p) (vd_forbidden_patterns v)\<rparr>"

text \<open>The longest run of one character, counted as the loop over neighbours does.\<close>

fun longest_run :: "string \<Rightarrow> string list \<Rightarrow> nat \<Rightarrow> nat \<Rightarrow> nat" where
  "longest_run prev [] current longest = longest"
| "longest_run prev (c # cs) current longest =
     (if c = prev then longest_run c cs (current + 1) (max longest (current + 1))
      else longest_run c cs 1 longest)"

definition has_excessive_repetition :: "string \<Rightarrow> bool" where
  "has_excessive_repetition s =
     (if length s < 50 then False
      else (case str_chars s of [] \<Rightarrow> False | c # cs \<Rightarrow> longest_run c cs 1 1 > 20))"

text \<open>
  The ratio of white space to bytes is compared with 0.9 by cross multiplication: for texts below
  \<open>2^49\<close> bytes the quotient of doubles exceeds the double 0.9 in the same cases.
\<close>

definition high_whitespace_ratio :: "string \<Rightarrow> bool" where
  "high_whitespace_ratio s = (10 * length (filter is_ascii_ws s) > 9 * length s)"

definition failed_if :: "bool \<Rightarrow> validation_error \<Rightarrow> validation_result \<Rightarrow> validation_result" where
  "failed_if b e r = (if b then merge_result r (validation_failed e) else r)"

definition warned_if :: "bool \<Rightarrow> string \<Rightarrow> validation_result \<Rightarrow> validation_result" where
  "warned_if b w r = (if b then with_warning w r else r)"

definition validate_non_empty_input :: "validator \<Rightarrow> string \<Rightarrow> string \<Rightarrow> validation_result" where
  "validate_non_empty_input v input field =
     (let r1 = failed_if (length input > vd_max_length v)
                 \<lparr>ve_field = field,
                  ve_message = ''Input too long: '' @ show_nat (length input) @ '' bytes (max '' @ show_nat (vd_max_length v) @ '')'',
                  ve_code = TooLong\<rparr> validation_ok;
          r2 = failed_if (length input < vd_min_length v)
                 \<lparr>ve_field = field,
                  ve_message = ''Input too short: '' @ show_nat (length input) @ '' bytes (min '' @ show_nat (vd_min_length v) @ '')'',
                  ve_code = TooShort\<rparr> r1;
          r3 = failed_if (CHR 0x00 \<in> set input)
                 \<lparr>ve_field = field, ve_message = ''Input contains null bytes'', ve_code = InvalidEncoding\<rparr> r2;
          lower_input = to_lower input;
          r4 = fold (\<lambda>p. failed_if (str_contains p lower_input)
                 \<lparr>ve_field = field, ve_message = ''Input contains forbidden pattern: '' @ p, ve_code = ForbiddenContent\<rparr>)
                 (vd_forbidden_patterns v) r3;
          r5 = warned_if (high_whitespace_ratio input \<and> length input > 100)
                 ''Input has unusually high whitespace ratio'' r4
      in warned_if (has_excessive_repetition input) ''Input has excessive character repetition'' r5)"

definition validate_text :: "validator \<Rightarrow> string \<Rightarrow> validation_result" where
  "validate_text v input =
     (if input = []
      then validation_failed \<lparr>ve_field = ''input'', ve_message = ''Input cannot be empty'', ve_code = EmptyInput\<rparr>
      else validate_non_empty_input v input ''input'')"

definition MAX_DEPTH :: nat where
  "MAX_DEPTH = 32"

definition item_path :: "string \<Rightarrow> nat \<Rightarrow> string" where
  "item_path path i = path @ ''['' @ show_nat i @ '']''"

definition field_path :: "string \<Rightarrow> string \<Rightarrow> string" where
  "field_path path k = (if path = [] then k else path @ ''.'' @ k)"

fun check_strings :: "validator \<Rightarrow> nat \<Rightarrow> string \<Rightarrow> json \<Rightarrow> validation_result \<Rightarrow> validation_result"
  and check_items :: "validator \<Rightarrow> nat \<Rightarrow> string \<Rightarrow> nat \<Rightarrow> json list \<Rightarrow> validation_result \<Rightarrow> validation_result"
  and check_fields :: "validator \<Rightarrow> nat \<Rightarrow> string \<Rightarrow> (string \<times> json) list \<Rightarrow> validation_result \<Rightarrow> validation_result"
where
  "check_strings v depth path value r =
     (if depth > MAX_DEPTH then r
      else (case value of
              JString s \<Rightarrow> merge_result r (if s = [] then validation_ok else validate_non_empty_input v s path)
            | JArray items \<Rightarrow> check_items v (depth + 1) path 0 items r
            | JObject es \<Rightarrow> check_fields v (depth + 1) path es r
            | _ \<Rightarrow> r))"
| "check_items v depth path i [] r = r"
| "check_items v depth path i (item # items) r =
     check_items v depth path (Suc i) items (check_strings v depth (item_path path i) item r)"
| "check_fields v depth path [] r = r"
| "check_fields v depth path ((k, value) # es) r =
     check_fields v depth path es (check_strings v depth (field_path path k) value r)"

declare check_strings.simps [simp del]

definition validate_tool_params :: "validator \<Rightarrow> json \<Rightarrow> validation_result" where
  "validate_tool_params v params = check_strings v 0 [] params validation_ok"

subsection \<open>Reference definitions\<close>

text \<open>The texts in a value, with the number of containers around them.\<close>

inductive string_at :: "json \<Rightarrow> nat \<Rightarrow> string \<Rightarrow> bool" where
  here: "string_at (JString s) 0 s"
| in_array: "v \<in> set vs \<Longrightarrow> string_at v d s \<Longrightarrow> string_at (JArray vs) (Suc d) s"
| in_object: "(k, v) \<in> set es \<Longrightarrow> string_at v d s \<Longrightarrow> string_at (JObject es) (Suc d) s"

inductive_simps string_at_simps [simp]:
  "string_at JNull d s"
  "string_at (JBool b) d s"
  "string_at (JNumber n) d s"
  "string_at (JString t) d s"
  "string_at (JArray vs) d s"
  "string_at (JObject es) d s"

definition acceptable :: "validator \<Rightarrow> string \<Rightarrow> bool" where
  "acceptable v s =
     (length s \<le> vd_max_length v \<and> vd_min_length v \<le> length s \<and> CHR 0x00 \<notin> set s \<and>
      list_all (\<lambda>p. \<not> str_contains p (to_lower s)) (vd_forbidden_patterns v))"

text \<open>A result is consistent when it is valid exactly without errors.\<close>

definition consistent :: "validation_result \<Rightarrow> bool" where
  "consistent r = (vr_is_valid r = (vr_errors r = []))"

section \<open>Lemmas\<close>

lemmas result_defs = validation_ok_def validation_failed_def with_warning_def merge_result_def failed_if_def warned_if_def

lemma failed_if_valid [simp]: "vr_is_valid (failed_if b e r) = (vr_is_valid r \<and> \<not> b)"
  by (simp add: result_defs)

lemma warned_if_valid [simp]: "vr_is_valid (warned_if b w r) = vr_is_valid r"
  by (simp add: result_defs)

lemma merge_valid [simp]: "vr_is_valid (merge_result r q) = (vr_is_valid r \<and> vr_is_valid q)"
  by (simp add: merge_result_def)

lemma ok_valid [simp]: "vr_is_valid validation_ok"
  by (simp add: validation_ok_def)

lemma fold_failed_valid:
  "vr_is_valid (fold (\<lambda>p. failed_if (P p) (e p)) ps r) = (vr_is_valid r \<and> list_all (\<lambda>p. \<not> P p) ps)"
  by (induction ps arbitrary: r) auto

lemma consistent_steps [simp]:
  "consistent validation_ok"
  "consistent (validation_failed e)"
  "consistent r \<Longrightarrow> consistent q \<Longrightarrow> consistent (merge_result r q)"
  "consistent r \<Longrightarrow> consistent (failed_if b e r)"
  "consistent r \<Longrightarrow> consistent (warned_if b w r)"
  by (auto simp: consistent_def result_defs)

lemma fold_failed_consistent: "consistent r \<Longrightarrow> consistent (fold (\<lambda>p. failed_if (P p) (e p)) ps r)"
  by (induction ps arbitrary: r) auto

lemma validate_non_empty_valid [simp]: "vr_is_valid (validate_non_empty_input v s field) = acceptable v s"
  by (auto simp: validate_non_empty_input_def acceptable_def Let_def fold_failed_valid)

lemma validate_non_empty_consistent [simp]: "consistent (validate_non_empty_input v s field)"
  by (simp add: validate_non_empty_input_def Let_def fold_failed_consistent)

text \<open>What the texts of a value, of a list of values and of the entries of an object have to satisfy.\<close>

definition texts_ok :: "validator \<Rightarrow> nat \<Rightarrow> json \<Rightarrow> bool" where
  "texts_ok v depth value = (\<forall>d s. string_at value d s \<longrightarrow> depth + d \<le> MAX_DEPTH \<longrightarrow> s = [] \<or> acceptable v s)"

lemma texts_ok_deep: "MAX_DEPTH < depth \<Longrightarrow> texts_ok v depth value"
  by (simp add: texts_ok_def)

lemma all_depths: "(\<forall>d::nat. P d) = (P 0 \<and> (\<forall>d. P (Suc d)))"
  by (metis not0_implies_Suc)

lemma texts_ok_array: "texts_ok v depth (JArray vs) = (\<forall>w\<in>set vs. texts_ok v (Suc depth) w)"
  unfolding texts_ok_def by (subst all_depths) (simp, blast)

lemma texts_ok_object: "texts_ok v depth (JObject es) = (\<forall>(k, w)\<in>set es. texts_ok v (Suc depth) w)"
  unfolding texts_ok_def by (subst all_depths) (simp, blast)

lemma check_valid:
  "vr_is_valid (check_strings v depth path val r) = (vr_is_valid r \<and> texts_ok v depth val)"
  "vr_is_valid (check_items v depth path i items r) = (vr_is_valid r \<and> (\<forall>w\<in>set items. texts_ok v depth w))"
  "vr_is_valid (check_fields v depth path es r) = (vr_is_valid r \<and> (\<forall>(k, w)\<in>set es. texts_ok v depth w))"
proof (induction v depth path val r and v depth path i items r and v depth path es r
       rule: check_strings_check_items_check_fields.induct)
  case (1 v depth path val r)
  show ?case
  proof (cases "MAX_DEPTH < depth")
    case True
    then show ?thesis by (simp add: check_strings.simps texts_ok_deep)
  next
    case False
    then show ?thesis using 1
      by (cases val) (simp_all add: check_strings.simps texts_ok_array texts_ok_object, auto simp: texts_ok_def)
  qed
qed auto

lemma check_consistent:
  "consistent r \<Longrightarrow> consistent (check_strings v depth path val r)"
  "consistent r \<Longrightarrow> consistent (check_items v depth path i items r)"
  "consistent r \<Longrightarrow> consistent (check_fields v depth path es r)"
proof (induction v depth path val r and v depth path i items r and v depth path es r
       rule: check_strings_check_items_check_fields.induct)
  case (1 v depth path val r)
  then show ?case by (cases val) (auto simp: check_strings.simps)
qed auto

section \<open>Properties\<close>

text \<open>
  The parameters of a tool are valid exactly when every text in them that has at most 32 containers
  around it is empty or of an allowed length, without a null byte and without a forbidden pattern;
  a result is valid exactly when it lists no error.
\<close>

theorem validate_tool_params_iff:
  "vr_is_valid (validate_tool_params v params) =
     ({s. \<exists>d. d \<le> 32 \<and> string_at params d s} \<subseteq> {s. s = [] \<or> acceptable v s}) \<and>
   (vr_is_valid (validate_tool_params v params) = (vr_errors (validate_tool_params v params) = []))"
proof
  show "vr_is_valid (validate_tool_params v params) =
     ({s. \<exists>d. d \<le> 32 \<and> string_at params d s} \<subseteq> {s. s = [] \<or> acceptable v s})"
    by (auto simp: validate_tool_params_def check_valid texts_ok_def MAX_DEPTH_def)
  have "consistent (validate_tool_params v params)"
    by (simp add: validate_tool_params_def check_consistent)
  then show "vr_is_valid (validate_tool_params v params) = (vr_errors (validate_tool_params v params) = [])"
    by (simp add: consistent_def)
qed

end
