(* ===== verification/Tool_Registry.thy ===== *)
theory Tool_Registry
  imports Credential_Injector Url_Guard Llm_Types "HOL-Library.Multiset" "HOL-Library.List_Lexorder" "HOL-Library.Char_ord"
begin

text \<open>
  Tools and their registry: \<open>src/tools/tool.rs\<close> (what a tool offers, approval, redaction of parameters),
  \<open>src/tools/registry.rs\<close> (registration at startup and at run time) and \<open>src/tools/autonomy.rs\<close> (what may
  run without a user). A tool, an object behind a trait, is the record of what its methods return; its
  execution ends by the timeout, with an error or with a result. The constructors of the built-in tools
  are not part of the model: a registration takes the tool.
\<close>

section \<open>Model\<close>

subsection \<open>Tools\<close>

datatype approval_requirement = ApprovalNever | UnlessAutoApproved | ApprovalAlways

definition is_required :: "approval_requirement \<Rightarrow> bool" where
  "is_required r = (r \<noteq> ApprovalNever)"

text \<open>A set of allowed tools; the type has one constructor.\<close>

datatype approval_context = Autonomous (allowed_tools: "string set")

definition autonomous :: approval_context where
  "autonomous = Autonomous {}"

definition autonomous_with_tools :: "string set \<Rightarrow> approval_context" where
  "autonomous_with_tools tools = Autonomous tools"

definition context_is_blocked :: "approval_context \<Rightarrow> string \<Rightarrow> approval_requirement \<Rightarrow> bool" where
  "context_is_blocked ctx tool_name requirement = (tool_name \<notin> allowed_tools ctx)"

definition is_blocked_or_default :: "approval_context option \<Rightarrow> string \<Rightarrow> approval_requirement \<Rightarrow> bool" where
  "is_blocked_or_default context tool_name requirement =
     (case context of
        Some ctx \<Rightarrow> context_is_blocked ctx tool_name requirement
      | None \<Rightarrow> is_required requirement)"

datatype risk_level = RiskLow | RiskMedium | RiskHigh

datatype tool_domain = Orchestrator | Container

datatype tool_outcome = TimedOut | ToolFailed tool_error | ToolDone json

record tool =
  tl_name :: string
  tl_description :: string
  tl_parameters_schema :: json
  tl_discovery_schema :: json
  tl_has_discovery_summary :: bool
  tl_requires_approval :: "json \<Rightarrow> approval_requirement"
  tl_execution_timeout :: duration
  tl_domain :: tool_domain
  tl_sensitive_params :: "string list"
  tl_execute :: "json \<Rightarrow> tool_outcome"

definition dq :: "string \<Rightarrow> string" where
  "dq s = [CHR 0x22] @ s @ [CHR 0x22]"

text \<open>The schema that is sent to the model, and the definition of the tool made from it.\<close>

definition tool_definition_of :: "tool \<Rightarrow> tool_definition" where
  "tool_definition_of t =
     (let parameters = tl_parameters_schema t;
          has_discovery_hint = (tl_has_discovery_summary t \<or> tl_discovery_schema t \<noteq> parameters);
          description =
            (if has_discovery_hint
             then tl_description t @ '' (call tool_info(name: '' @ dq (tl_name t) @ '', detail: '' @ dq ''summary'' @
                  '') for rules/examples or detail: '' @ dq ''schema'' @ '' for the full discovery schema)''
             else tl_description t)
      in \<lparr>td_name = tl_name t, td_description = description, td_parameters = parameters\<rparr>)"

definition require_param :: "json \<Rightarrow> string \<Rightarrow> (tool_error, json) result" where
  "require_param params name =
     (case json_get name params of
        Some v \<Rightarrow> Inr v
      | None \<Rightarrow> Inl (InvalidParameters (''missing '' @ quoted name @ '' parameter'')))"

definition json_insert :: "string \<Rightarrow> json \<Rightarrow> (string \<times> json) list \<Rightarrow> (string \<times> json) list" where
  "json_insert k v es =
     (if k \<in> fst ` set es then map (\<lambda>(k', w). if k' = k then (k', v) else (k', w)) es else es @ [(k, v)])"

definition redact_params :: "json \<Rightarrow> string list \<Rightarrow> json" where
  "redact_params params sensitive =
     (if sensitive = [] then params
      else (case params of
              JObject es \<Rightarrow>
                JObject (fold (\<lambda>key obj. if key \<in> fst ` set obj then json_insert key (JString ''[REDACTED]'') obj else obj)
                           sensitive es)
            | _ \<Rightarrow> params))"

subsection \<open>Registry\<close>

definition PROTECTED_TOOL_NAMES :: "string list" where
  "PROTECTED_TOOL_NAMES =
     [''echo'', ''time'', ''json'', ''http'', ''shell'', ''read_file'', ''write_file'', ''list_dir'', ''apply_patch'',
      ''memory_search'', ''memory_write'', ''memory_read'', ''memory_tree'', ''create_job'', ''list_jobs'', ''job_status'',
      ''cancel_job'', ''build_software'', ''tool_search'', ''tool_install'', ''tool_auth'', ''tool_activate'', ''tool_list'',
      ''tool_remove'', ''routine_create'', ''routine_list'', ''routine_update'', ''routine_delete'', ''routine_fire'',
      ''routine_history'', ''event_emit'', ''skill_list'', ''skill_search'', ''skill_install'', ''skill_remove'', ''message'',
      ''web_fetch'', ''restart'', ''image_generate'', ''image_edit'', ''image_analyze'', ''tool_info'']"

record tool_registry =
  tg_tools :: "(string \<times> tool) list"
  tg_builtin_names :: "string list"
  tg_credentials :: "credential_registry option"

definition tool_registry_new :: tool_registry where
  "tool_registry_new = \<lparr>tg_tools = [], tg_builtin_names = [], tg_credentials = None\<rparr>"

definition registry_with_credentials :: "credential_registry \<Rightarrow> tool_registry \<Rightarrow> tool_registry" where
  "registry_with_credentials cr r = r\<lparr>tg_credentials := Some cr\<rparr>"

definition shadows :: "tool \<Rightarrow> tool_registry \<Rightarrow> bool" where
  "shadows t r = (tl_name t \<in> set PROTECTED_TOOL_NAMES \<and> tl_name t \<in> set (tg_builtin_names r))"

definition tool_register :: "tool \<Rightarrow> tool_registry \<Rightarrow> tool_registry" where
  "tool_register t r = (if shadows t r then r else r\<lparr>tg_tools := hm_put (tl_name t) t (tg_tools r)\<rparr>)"

text \<open>The two flags say whether the locks of the tools and of the names could be taken.\<close>

definition register_sync :: "bool \<Rightarrow> bool \<Rightarrow> tool \<Rightarrow> tool_registry \<Rightarrow> tool_registry" where
  "register_sync tools_free names_free t r =
     (if tools_free
      then (let r' = r\<lparr>tg_tools := hm_put (tl_name t) t (tg_tools r)\<rparr>
            in if names_free then r'\<lparr>tg_builtin_names := List.insert (tl_name t) (tg_builtin_names r')\<rparr> else r')
      else r)"

definition tool_unregister :: "string \<Rightarrow> tool_registry \<Rightarrow> tool option \<times> tool_registry" where
  "tool_unregister name r = (hm_get (tg_tools r) name, r\<lparr>tg_tools := hm_del name (tg_tools r)\<rparr>)"

definition registry_get :: "string \<Rightarrow> tool_registry \<Rightarrow> tool option" where
  "registry_get name r = hm_get (tg_tools r) name"

definition registry_has :: "string \<Rightarrow> tool_registry \<Rightarrow> bool" where
  "registry_has name r = (hm_get (tg_tools r) name \<noteq> None)"

definition registry_list :: "tool_registry \<Rightarrow> string list" where
  "registry_list r = map fst (tg_tools r)"

definition retain_only :: "string list \<Rightarrow> tool_registry \<Rightarrow> tool_registry" where
  "retain_only names r =
     (if names = [] then r else r\<lparr>tg_tools := hm_retain (\<lambda>k _. k \<in> set names) (tg_tools r)\<rparr>)"

definition registry_count :: "tool_registry \<Rightarrow> nat" where
  "registry_count r = length (tg_tools r)"

definition registry_all :: "tool_registry \<Rightarrow> tool list" where
  "registry_all r = map snd (tg_tools r)"

definition builtin_tool_names :: "tool_registry \<Rightarrow> string list" where
  "builtin_tool_names r = tg_builtin_names r"

definition tool_definitions :: "tool_registry \<Rightarrow> tool_definition list" where
  "tool_definitions r = sort_key td_name (map (\<lambda>(_, t). tool_definition_of t) (tg_tools r))"

definition tool_definitions_for :: "string list \<Rightarrow> tool_registry \<Rightarrow> tool_definition list" where
  "tool_definitions_for names r =
     List.map_filter (\<lambda>name. map_option tool_definition_of (registry_get name r)) names"

definition tool_definitions_for_domain :: "tool_domain \<Rightarrow> tool_registry \<Rightarrow> tool_definition list" where
  "tool_definitions_for_domain d r = map tool_definition_of (filter (\<lambda>t. tl_domain t = d) (registry_all r))"

definition tool_definitions_excluding :: "string list \<Rightarrow> tool_registry \<Rightarrow> tool_definition list" where
  "tool_definitions_excluding deny r =
     sort_key td_name (map tool_definition_of
       (filter (\<lambda>t. tl_name t \<notin> set deny \<and> tl_requires_approval t (JObject []) = ApprovalNever) (registry_all r)))"

definition register_dev_tools :: "tool \<Rightarrow> tool \<Rightarrow> tool \<Rightarrow> tool \<Rightarrow> tool \<Rightarrow> tool_registry \<Rightarrow> tool_registry" where
  "register_dev_tools shell read_file write_file list_dir apply_patch r =
     fold (register_sync True True) [shell, read_file, write_file, list_dir, apply_patch] r"

definition register_builder_tool ::
  "tool \<Rightarrow> tool \<Rightarrow> tool \<Rightarrow> tool \<Rightarrow> tool \<Rightarrow> tool \<Rightarrow> tool_registry \<Rightarrow> tool_registry"
where
  "register_builder_tool shell read_file write_file list_dir apply_patch build_software r =
     tool_register build_software (register_dev_tools shell read_file write_file list_dir apply_patch r)"

definition register_message_tools :: "tool \<Rightarrow> tool_registry \<Rightarrow> tool_registry" where
  "register_message_tools t r =
     r\<lparr>tg_tools := hm_put (tl_name t) t (tg_tools r), tg_builtin_names := List.insert ''message'' (tg_builtin_names r)\<rparr>"

text \<open>
  A module that compiles is wrapped as a tool; the wrapper, with the overrides of the registration applied,
  and the credentials of its HTTP capability are the arguments.
\<close>

definition register_wasm ::
  "('e, tool) result \<Rightarrow> credential_mapping list \<Rightarrow> tool_registry \<Rightarrow> ('e, unit) result \<times> tool_registry"
where
  "register_wasm prepared credential_mappings r =
     (case prepared of
        Inl e \<Rightarrow> (Inl e, r)
      | Inr wrapper \<Rightarrow>
          (let r' = tool_register wrapper r
           in (Inr (),
               case tg_credentials r' of
                 Some cr \<Rightarrow>
                   if credential_mappings \<noteq> [] then r'\<lparr>tg_credentials := Some (add_mappings credential_mappings cr)\<rparr> else r'
               | None \<Rightarrow> r')))"

subsection \<open>Autonomous jobs\<close>

definition AUTONOMOUS_TOOL_DENYLIST :: "string list" where
  "AUTONOMOUS_TOOL_DENYLIST =
     [''routine_create'', ''routine_update'', ''routine_delete'', ''routine_fire'', ''event_emit'', ''create_job'',
      ''job_prompt'', ''restart'', ''tool_install'', ''tool_auth'', ''tool_activate'', ''tool_remove'', ''tool_upgrade'',
      ''skill_install'', ''skill_remove'', ''secret_list'', ''secret_delete'']"

definition is_autonomous_tool_denylisted :: "string \<Rightarrow> bool" where
  "is_autonomous_tool_denylisted tool_name = (tool_name \<in> set AUTONOMOUS_TOOL_DENYLIST)"

definition autonomous_unavailable_message :: "string \<Rightarrow> string \<Rightarrow> string" where
  "autonomous_unavailable_message tool_name owner_id =
     (if is_autonomous_tool_denylisted tool_name
      then ''Tool '' @ quoted tool_name @ '' is not available in autonomous jobs or routines''
      else ''Tool '' @ quoted tool_name @ '' is not currently available for owner '' @ quoted owner_id)"

text \<open>The extension manager is its owner and the names of its active tools.\<close>

definition autonomous_allowed_tool_names :: "tool_registry \<Rightarrow> (string \<times> string list) option \<Rightarrow> string \<Rightarrow> string set" where
  "autonomous_allowed_tool_names r extension_manager owner_id =
     (let allowed = Set.filter (\<lambda>name. \<not> is_autonomous_tool_denylisted name) (set (builtin_tool_names r))
      in case extension_manager of
           Some (owner, active) \<Rightarrow>
             if owner = owner_id
             then allowed \<union> set (filter (\<lambda>name. \<not> is_autonomous_tool_denylisted name) active)
             else allowed
         | None \<Rightarrow> allowed)"

subsection \<open>Operations at run time\<close>

datatype tool_registry_op =
    OpRegister tool
  | OpUnregister string
  | OpRetainOnly "string list"
  | OpRegisterWasm "(string, tool) result" "credential_mapping list"

fun run_op :: "tool_registry_op \<Rightarrow> tool_registry \<Rightarrow> tool_registry" where
  "run_op (OpRegister t) r = tool_register t r"
| "run_op (OpUnregister name) r = snd (tool_unregister name r)"
| "run_op (OpRetainOnly names) r = retain_only names r"
| "run_op (OpRegisterWasm p ms) r = snd (register_wasm p ms r)"

text \<open>What every registry keeps: one entry for a name, and the name is that of the tool.\<close>

definition registry_wf :: "tool_registry \<Rightarrow> bool" where
  "registry_wf r = (hm_wf (tg_tools r) \<and> list_all (\<lambda>(k, t). k = tl_name t) (tg_tools r))"

text \<open>A protected name that a tool was given at startup.\<close>

definition holds_only :: "string \<Rightarrow> tool \<Rightarrow> tool_registry \<Rightarrow> bool" where
  "holds_only name t r =
     (registry_wf r \<and> name \<in> set (tg_builtin_names r) \<and> (registry_get name r = Some t \<or> registry_get name r = None))"

definition sample_tool :: "string \<Rightarrow> string \<Rightarrow> tool" where
  "sample_tool name descr =
     \<lparr>tl_name = name, tl_description = descr, tl_parameters_schema = JObject [], tl_discovery_schema = JObject [],
      tl_has_discovery_summary = False, tl_requires_approval = (\<lambda>_. ApprovalNever), tl_execution_timeout = 60,
      tl_domain = Orchestrator, tl_sensitive_params = [], tl_execute = (\<lambda>p. ToolDone p)\<rparr>"

section \<open>Lemmas\<close>

lemma registry_get_register:
  "registry_get n (tool_register t r) = (if n = tl_name t \<and> \<not> shadows t r then Some t else registry_get n r)"
  by (simp add: registry_get_def tool_register_def)

lemma registry_get_unregister: "registry_get n (snd (tool_unregister m r)) = (if n = m then None else registry_get n r)"
  by (simp add: registry_get_def tool_unregister_def)

lemma registry_get_retain: "hm_wf (tg_tools r) \<Longrightarrow> registry_get n (retain_only ns r) \<in> {registry_get n r, None}"
  by (auto simp: registry_get_def retain_only_def hm_get_retain split: option.splits)

lemma register_wasm_tools [simp]:
  "registry_get n (snd (register_wasm p ms r)) =
     (case p of Inl _ \<Rightarrow> registry_get n r | Inr t \<Rightarrow> registry_get n (tool_register t r))"
  by (auto simp: register_wasm_def registry_get_def Let_def split: sum.split option.split)

lemma run_op_names [simp]: "tg_builtin_names (run_op op r) = tg_builtin_names r"
  by (cases op) (auto simp: tool_register_def tool_unregister_def retain_only_def register_wasm_def Let_def
      split: sum.split option.split)

lemma registry_wf_iff:
  "registry_wf r \<longleftrightarrow> hm_wf (tg_tools r) \<and> (\<forall>k t. registry_get k r = Some t \<longrightarrow> k = tl_name t)"
  by (auto simp: registry_wf_def registry_get_def hm_get_def hm_wf_def list_all_iff map_of_eq_Some_iff)

lemma tool_register_wf: "registry_wf r \<Longrightarrow> registry_wf (tool_register t r)"
  unfolding registry_wf_iff registry_get_register by (auto simp: tool_register_def)

interpretation registry: op_invariant run_op registry_wf
proof unfold_locales
  fix r op assume wf: "registry_wf r"
  then have t: "hm_wf (tg_tools r)" by (simp add: registry_wf_def)
  show "registry_wf (run_op op r)"
  proof (cases op)
    case (OpUnregister n)
    then show ?thesis using wf
      by (auto simp: registry_wf_iff registry_get_unregister) (simp add: tool_unregister_def)
  next
    case (OpRetainOnly ns)
    then show ?thesis using wf registry_get_retain[OF t, of _ ns]
      by (auto simp: registry_wf_iff) (auto simp: retain_only_def, metis option.distinct(1))
  next
    case (OpRegisterWasm p ms)
    moreover have "registry_wf (c\<lparr>tg_credentials := x\<rparr>) = registry_wf c" for c x by (simp add: registry_wf_def)
    ultimately show ?thesis using wf tool_register_wf
      by (auto simp: register_wasm_def Let_def split: sum.split option.split)
  qed (use wf tool_register_wf in auto)
qed

lemma run_op_holds_only:
  assumes "name \<in> set PROTECTED_TOOL_NAMES" "holds_only name t r"
  shows "holds_only name t (run_op op r)"
proof -
  have wf: "registry_wf r" "hm_wf (tg_tools r)" using assms(2) by (auto simp: holds_only_def registry_wf_def)
  have "registry_get name (tool_register u r) = registry_get name r" for u
    using assms by (auto simp: holds_only_def registry_get_register shadows_def)
  moreover have "registry_get name (retain_only ns r) \<in> {registry_get name r, None}" for ns
    using registry_get_retain[OF wf(2)] .
  ultimately have "registry_get name (run_op op r) \<in> {registry_get name r, None}"
    by (cases op) (auto simp: registry_get_unregister split: sum.split)
  then show ?thesis using assms(2) registry.perform_inv[OF wf(1), of op] by (auto simp: holds_only_def)
qed

lemma definitions_names:
  "registry_wf r \<Longrightarrow> map td_name (tool_definitions r) = sort (map fst (tg_tools r))"
proof -
  assume "registry_wf r"
  then have "map (\<lambda>(_, t). td_name (tool_definition_of t)) (tg_tools r) = map fst (tg_tools r)"
    by (auto simp: registry_wf_def list_all_iff tool_definition_of_def Let_def)
  moreover have "map f (sort_key f xs) = sort (map f xs)" for f :: "tool_definition \<Rightarrow> string" and xs
    by (rule properties_for_sort[symmetric]) simp_all
  ultimately show ?thesis unfolding tool_definitions_def by (simp add: case_prod_unfold comp_def cong: map_cong)
qed

lemma map_of_redact_step:
  "map_of (if key \<in> fst ` set obj then json_insert key v obj else obj) k =
     (if k = key \<and> map_of obj k \<noteq> None then Some v else map_of obj k)"
proof -
  have "map_of (map (\<lambda>(k', w). if k' = key then (k', v) else (k', w)) obj) k =
      (if k = key \<and> map_of obj k \<noteq> None then Some v else map_of obj k)"
    by (induction obj) auto
  moreover have "key \<in> fst ` set obj \<longleftrightarrow> map_of obj key \<noteq> None" by (metis map_of_eq_None_iff)
  ultimately show ?thesis by (auto simp: json_insert_def simp del: map_of_eq_None_iff)
qed

lemma map_of_redact_fold:
  "map_of (fold (\<lambda>key obj. if key \<in> fst ` set obj then json_insert key v obj else obj) keys obj) k =
     (if k \<in> set keys \<and> map_of obj k \<noteq> None then Some v else map_of obj k)"
  by (induction keys arbitrary: obj) (auto simp: map_of_redact_step)

section \<open>Properties\<close>

text \<open>
  C16. A tool that was registered at startup under a protected name is not replaced at run time: after any
  sequence of registrations, removals, filters and registrations of WASM tools the name stands for
  that tool or for none.
\<close>

theorem protected_tool_not_replaced:
  assumes "registry_wf r" and "tl_name t \<in> set PROTECTED_TOOL_NAMES"
  shows "registry_get (tl_name t) (fold run_op ops (register_sync True True t r)) \<in> {Some t, None}"
proof -
  let ?r = "register_sync True True t r"
  have "registry_wf ?r"
    using assms(1) by (auto simp: registry_wf_iff register_sync_def Let_def registry_get_def)
  then have "holds_only (tl_name t) t ?r"
    by (auto simp: holds_only_def register_sync_def Let_def registry_get_def)
  then have "holds_only (tl_name t) t (fold run_op ops ?r)"
    by (induction ops arbitrary: r rule: rev_induct) (auto intro: run_op_holds_only[OF assms(2)])
  then show ?thesis by (simp add: holds_only_def)
qed

theorem protected_tool_not_replaced_witness:
  "registry_get ''shell'' (fold run_op [OpRegister (sample_tool ''shell'' ''evil'')]
     (register_sync True True (sample_tool ''shell'' ''runs commands'') tool_registry_new))
   \<in> {Some (sample_tool ''shell'' ''runs commands''), None}"
  using protected_tool_not_replaced[of tool_registry_new "sample_tool ''shell'' ''runs commands''"
      "[OpRegister (sample_tool ''shell'' ''evil'')]"]
  by (simp add: registry_wf_def tool_registry_new_def sample_tool_def PROTECTED_TOOL_NAMES_def)

text \<open>
  The definitions that are sent to the model are sorted by name and no name occurs twice, after any
  sequence of operations on the registry.
\<close>

theorem definitions_sorted_distinct:
  assumes "registry_wf r"
  shows "sorted (map td_name (tool_definitions (fold run_op ops r))) \<and>
    distinct (map td_name (tool_definitions (fold run_op ops r)))"
proof
  have wf: "registry_wf (fold run_op ops r)" using assms by (rule registry.fold_inv)
  show "sorted (map td_name (tool_definitions (fold run_op ops r)))"
    unfolding definitions_names[OF wf] by simp
  show "distinct (map td_name (tool_definitions (fold run_op ops r)))"
    unfolding definitions_names[OF wf] using wf by (simp add: registry_wf_def hm_wf_def)
qed

theorem definitions_sorted_distinct_witness:
  "sorted (map td_name (tool_definitions
     (fold run_op [OpRegister (sample_tool ''time'' []), OpRegister (sample_tool ''echo'' [])] tool_registry_new)))"
  by (rule definitions_sorted_distinct[THEN conjunct1]) (simp add: registry_wf_def tool_registry_new_def)

text \<open>
  A WASM tool whose registration is rejected because it would shadow a built-in tool reports success
  and leaves the tools as they are, but its credential mappings are added to the shared registry: from
  then on the hosts they name have credentials that the HTTP tool injects.
\<close>

theorem rejected_tool_adds_credentials:
  assumes "shadows wrapper r" and "tg_credentials r = Some cr" and "mapping_matches host m"
  shows "register_wasm (Inr wrapper) [m] r = (Inr (), r\<lparr>tg_credentials := Some (cr @ [m])\<rparr>) \<and>
    m \<in> set (find_for_host host (cr @ [m]))"
  using assms by (simp_all add: register_wasm_def tool_register_def add_mappings_def find_for_host_def)

theorem rejected_tool_adds_credentials_witness:
  "register_wasm (Inr (sample_tool ''http'' []) :: (string, tool) result) [mapping_bearer ''gh'' ''evil.test'']
     (register_sync True True (sample_tool ''http'' []) (registry_with_credentials [] tool_registry_new)) =
   (Inr (), (register_sync True True (sample_tool ''http'' []) (registry_with_credentials [] tool_registry_new))
     \<lparr>tg_credentials := Some [mapping_bearer ''gh'' ''evil.test'']\<rparr>)"
proof -
  let ?r = "register_sync True True (sample_tool ''http'' []) (registry_with_credentials [] tool_registry_new)"
  have "shadows (sample_tool ''http'' []) ?r" "tg_credentials ?r = Some []"
    by (simp_all add: shadows_def sample_tool_def PROTECTED_TOOL_NAMES_def register_sync_def Let_def
        registry_with_credentials_def)
  moreover have "mapping_matches ''evil.test'' (mapping_bearer ''gh'' ''evil.test'')" by code_simp
  ultimately show ?thesis
    using rejected_tool_adds_credentials[of "sample_tool ''http'' []" ?r "[]" "''evil.test''" "mapping_bearer ''gh'' ''evil.test''"]
    unfolding append_Nil by blast
qed

text \<open>
  The software builder is registered under a protected name, but not as a built-in tool: the next
  registration of that name replaces it.
\<close>

theorem builder_tool_replaced:
  assumes "''build_software'' \<notin> set (tg_builtin_names r)"
    and "map tl_name [shell, rd, wr, ls, patch] = [''shell'', ''read_file'', ''write_file'', ''list_dir'', ''apply_patch'']"
    and "tl_name build_software = ''build_software''" and "tl_name other = ''build_software''"
  shows "tl_name build_software \<in> set PROTECTED_TOOL_NAMES \<and>
    registry_get ''build_software'' (tool_register other (register_builder_tool shell rd wr ls patch build_software r)) = Some other"
  using assms
  by (simp_all add: PROTECTED_TOOL_NAMES_def registry_get_register shadows_def register_builder_tool_def
      register_dev_tools_def register_sync_def tool_register_def registry_get_def Let_def)

theorem builder_tool_replaced_witness:
  "registry_get ''build_software'' (tool_register (sample_tool ''build_software'' ''other'')
     (register_builder_tool (sample_tool ''shell'' []) (sample_tool ''read_file'' []) (sample_tool ''write_file'' [])
        (sample_tool ''list_dir'' []) (sample_tool ''apply_patch'' []) (sample_tool ''build_software'' []) tool_registry_new)) =
   Some (sample_tool ''build_software'' ''other'')"
  by (rule builder_tool_replaced[THEN conjunct2]) (simp_all add: sample_tool_def tool_registry_new_def)

text \<open>
  Redaction replaces the values of the sensitive parameters that are given, keeps the others, and
  adds none.
\<close>

theorem redact_params_get:
  "json_get k (redact_params (JObject es) sensitive) =
     (if k \<in> set sensitive \<and> json_get k (JObject es) \<noteq> None then Some (JString ''[REDACTED]'') else json_get k (JObject es))"
  by (simp add: redact_params_def json_get_def map_of_redact_fold)

text \<open>
  No tool on the denylist may run in an autonomous job, and every other built-in tool may.
\<close>

theorem autonomous_allowed:
  "autonomous_allowed_tool_names r em owner \<inter> set AUTONOMOUS_TOOL_DENYLIST = {} \<and>
   set (builtin_tool_names r) - set AUTONOMOUS_TOOL_DENYLIST \<subseteq> autonomous_allowed_tool_names r em owner"
  by (auto simp: autonomous_allowed_tool_names_def is_autonomous_tool_denylisted_def Let_def split: option.splits)

end
