(* ===== verification/Tool_Schema.thy ===== *)
theory Tool_Schema
  imports Coercion Http_Tool Tool_Registry
begin

text \<open>
  The two checks of the parameter schema of a tool: the lenient one, \<open>validate_tool_schema\<close> of
  \<open>src/tools/tool.rs\<close>, and the strict one, \<open>validate_strict_schema\<close> of \<open>src/tools/schema_validator.rs\<close>. Both
  collect messages. The text of a JSON value in a message is the parameter \<open>disp\<close>. The two files repeat
  the same helpers, which are one group of definitions here.
\<close>

section \<open>Model\<close>

subsection \<open>Helpers of both checks\<close>

definition type_str :: "json \<Rightarrow> string option" where
  "type_str schema = Option.bind (json_get ''type'' schema) as_str"

definition is_object_variant :: "json \<Rightarrow> bool" where
  "is_object_variant v = (type_str v = Some ''object'' \<or> json_get ''properties'' v \<noteq> None)"

definition variants_of :: "string \<Rightarrow> json \<Rightarrow> json list" where
  "variants_of key schema = (case get_array key schema of Some vs \<Rightarrow> vs | None \<Rightarrow> [])"

definition has_object_combinator_variants :: "json \<Rightarrow> bool" where
  "has_object_combinator_variants schema =
     list_ex (\<lambda>key. list_ex is_object_variant (variants_of key schema)) [''oneOf'', ''anyOf'', ''allOf'']"

definition combinator_errors :: "json \<Rightarrow> string \<Rightarrow> string list" where
  "combinator_errors schema path =
     concat (map (\<lambda>key.
        case json_get key schema of
          Some (JArray _) \<Rightarrow> []
        | Some _ \<Rightarrow> [path @ '': '' @ dq key @ '' must be an array'']
        | None \<Rightarrow> []) [''oneOf'', ''anyOf'', ''allOf''])"

definition type_error :: "json \<Rightarrow> string \<Rightarrow> string option" where
  "type_error schema path =
     (case type_str schema of
        Some ty \<Rightarrow>
          if ty = ''object'' then None
          else Some (path @ '': expected type '' @ dq ''object'' @ '', got '' @ dq ty)
      | None \<Rightarrow>
          if has_object_combinator_variants schema then None
          else Some (path @ '': missing '' @ dq ''type'' @ '': '' @ dq ''object''))"

definition variant_path :: "string \<Rightarrow> string \<Rightarrow> nat \<Rightarrow> string" where
  "variant_path path key i = path @ ''.'' @ key @ ''['' @ show_nat i @ '']''"

definition required_strings :: "json \<Rightarrow> string list" where
  "required_strings schema =
     (case get_array ''required'' schema of Some rs \<Rightarrow> List.map_filter as_str rs | None \<Rightarrow> [])"

definition property_keys :: "json \<Rightarrow> string list" where
  "property_keys v = (case get_object ''properties'' v of Some ps \<Rightarrow> map fst ps | None \<Rightarrow> [])"

definition merged_keys :: "json \<Rightarrow> string list" where
  "merged_keys schema =
     concat (map (\<lambda>key. concat (map property_keys (variants_of key schema))) [''allOf'', ''oneOf'', ''anyOf''])"

definition required_in_variants :: "json \<Rightarrow> string \<Rightarrow> string list" where
  "required_in_variants schema path =
     map (\<lambda>key. path @ '': required key '' @ dq key @ '' not found in any combinator variant properties'')
       (filter (\<lambda>key. key \<notin> set (merged_keys schema)) (required_strings schema))"

definition required_in_properties :: "json \<Rightarrow> (string \<times> json) list \<Rightarrow> string \<Rightarrow> string list" where
  "required_in_properties schema ps path =
     map (\<lambda>key. path @ '': required key '' @ dq key @ '' not found in properties'')
       (filter (\<lambda>key. key \<notin> fst ` set ps) (required_strings schema))"

definition no_properties :: "json \<Rightarrow> string \<Rightarrow> string list" where
  "no_properties schema path =
     (if has_object_combinator_variants schema then required_in_variants schema path
      else [path @ '': missing or non-object '' @ dq ''properties''])"

definition missing_items :: "string \<Rightarrow> string list" where
  "missing_items prop_path = [prop_path @ '': array property missing '' @ dq ''items'']"

subsection \<open>The lenient check\<close>

definition MAX_SCHEMA_DEPTH :: nat where
  "MAX_SCHEMA_DEPTH = 16"

function validate_tool_schema_inner :: "json \<Rightarrow> string \<Rightarrow> nat \<Rightarrow> string list" where
  "validate_tool_schema_inner schema path depth =
     (if depth > MAX_SCHEMA_DEPTH
      then [path @ '': schema nesting exceeds maximum depth of '' @ show_nat MAX_SCHEMA_DEPTH]
      else
        combinator_errors schema path @
        (case type_error schema path of
           Some e \<Rightarrow> [e]
         | None \<Rightarrow>
             concat (map (\<lambda>key.
               concat (map (\<lambda>(i, variant).
                 if is_object_variant variant
                 then validate_tool_schema_inner variant (variant_path path key i) (depth + 1) else [])
                 (enumerate 0 (variants_of key schema)))) [''allOf'', ''oneOf'', ''anyOf'']) @
             (case get_object ''properties'' schema of
                None \<Rightarrow> no_properties schema path
              | Some ps \<Rightarrow>
                  required_in_properties schema ps path @
                  concat (map (\<lambda>(key, prop).
                    (let prop_path = path @ ''.'' @ key
                     in if type_str prop = Some ''object''
                        then validate_tool_schema_inner prop prop_path (depth + 1)
                        else if type_str prop = Some ''array''
                        then (case json_get ''items'' prop of
                                None \<Rightarrow> missing_items prop_path
                              | Some items \<Rightarrow>
                                  if type_str items = Some ''object''
                                  then validate_tool_schema_inner items (prop_path @ ''.items'') (depth + 1) else [])
                        else [])) ps))))"
  by pat_completeness auto

lemma enumerate_elem: "(i, x) \<in> set (enumerate n xs) \<Longrightarrow> x \<in> set xs"
  by (auto simp: in_set_enumerate_eq)

lemma variants_of_size: "v \<in> set (variants_of key schema) \<Longrightarrow> size v < size schema"
  by (cases "get_array key schema") (auto simp: variants_of_def intro: get_array_size)

lemma property_items_size:
  assumes "get_object ''properties'' schema = Some ps" "(key, prop) \<in> set ps" "json_get ''items'' prop = Some items"
  shows "size items < size schema"
  using get_object_size[OF assms(1,2)] json_get_size[OF assms(3)] by simp

lemmas schema_sizes = variants_of_size get_object_size property_items_size

termination validate_tool_schema_inner
  by (relation "measure (\<lambda>(schema, path, depth). size schema)")
    (auto dest: enumerate_elem intro: schema_sizes)

declare validate_tool_schema_inner.simps [simp del]

definition validate_tool_schema :: "json \<Rightarrow> string \<Rightarrow> string list" where
  "validate_tool_schema schema path = validate_tool_schema_inner schema path 0"

subsection \<open>The strict check\<close>

definition additional_not_strict :: "json \<Rightarrow> bool" where
  "additional_not_strict v =
     (case json_get ''additionalProperties'' v of
        Some additional \<Rightarrow> additional \<noteq> JBool False \<and> json_get ''type'' additional = None
      | None \<Rightarrow> False)"

definition matches_type :: "string \<Rightarrow> json \<Rightarrow> bool" where
  "matches_type ty v =
     (if ty = ''string'' then (case v of JString _ \<Rightarrow> True | _ \<Rightarrow> False)
      else if ty = ''integer'' \<or> ty = ''number'' then (case v of JNumber _ \<Rightarrow> True | _ \<Rightarrow> False)
      else if ty = ''boolean'' then (case v of JBool _ \<Rightarrow> True | _ \<Rightarrow> False)
      else True)"

definition enum_errors :: "(json \<Rightarrow> string) \<Rightarrow> json \<Rightarrow> string \<Rightarrow> string \<Rightarrow> string list" where
  "enum_errors disp prop prop_type prop_path =
     map (\<lambda>(i, v). prop_path @ '': enum['' @ show_nat i @ ''] value '' @ disp v @ '' does not match declared type '' @ dq prop_type)
       (filter (\<lambda>(i, v). \<not> matches_type prop_type v)
         (enumerate 0 (case get_array ''enum'' prop of Some vs \<Rightarrow> vs | None \<Rightarrow> [])))"

definition is_map_type :: "json \<Rightarrow> bool" where
  "is_map_type prop = (json_get ''additionalProperties'' prop \<noteq> None \<and> json_get ''properties'' prop = None)"

function check_object_schema :: "(json \<Rightarrow> string) \<Rightarrow> json \<Rightarrow> string \<Rightarrow> string list" where
  "check_object_schema disp schema path =
     combinator_errors schema path @
     (case type_error schema path of
        Some e \<Rightarrow> [e]
      | None \<Rightarrow>
          concat (map (\<lambda>key.
            concat (map (\<lambda>(i, variant).
              if is_object_variant variant
              then check_object_schema disp variant (variant_path path key i) else [])
              (enumerate 0 (variants_of key schema)))) [''allOf'', ''oneOf'', ''anyOf'']) @
          (case get_object ''properties'' schema of
             None \<Rightarrow> no_properties schema path
           | Some ps \<Rightarrow>
               required_in_properties schema ps path @
               concat (map (\<lambda>(key, prop).
                 (let prop_path = path @ ''.'' @ key;
                      prop_type = (case type_str prop of Some t \<Rightarrow> t | None \<Rightarrow> [])
                  in if json_get ''type'' prop = None then []
                     else
                       (if additional_not_strict prop
                        then [prop_path @ '': '' @ dq ''additionalProperties'' @ '' should be false or a type schema''] else []) @
                       enum_errors disp prop prop_type prop_path @
                       (if prop_type = ''object'' \<and> \<not> is_map_type prop
                        then check_object_schema disp prop prop_path else []) @
                       (if prop_type = ''array''
                        then (case json_get ''items'' prop of
                                None \<Rightarrow> missing_items prop_path
                              | Some items \<Rightarrow>
                                  if type_str items = Some ''object''
                                  then check_object_schema disp items (prop_path @ ''.items'') else [])
                        else []))) ps) @
               (if additional_not_strict schema
                then [path @ '': top-level '' @ dq ''additionalProperties'' @ '' should be false or a type schema'']
                else [])))"
  by pat_completeness auto
termination
  by (relation "measure (\<lambda>(disp, schema, path). size schema)")
    (auto dest: enumerate_elem intro: schema_sizes)

declare check_object_schema.simps [simp del]

definition validate_strict_schema :: "(json \<Rightarrow> string) \<Rightarrow> json \<Rightarrow> string \<Rightarrow> (string list, unit) result" where
  "validate_strict_schema disp schema tool_name =
     (let errors = check_object_schema disp schema tool_name in if errors = [] then Inr () else Inl errors)"

subsection \<open>Reference definitions\<close>

text \<open>The schemas that a check of a schema goes on to.\<close>

inductive sub_schema :: "json \<Rightarrow> json \<Rightarrow> bool" where
  variant: "v \<in> set (variants_of key schema) \<Longrightarrow> sub_schema schema v"
| property: "get_object ''properties'' schema = Some ps \<Longrightarrow> (k, v) \<in> set ps \<Longrightarrow> sub_schema schema v"
| items: "get_object ''properties'' schema = Some ps \<Longrightarrow> (k, prop) \<in> set ps \<Longrightarrow> json_get ''items'' prop = Some v \<Longrightarrow>
    sub_schema schema v"

text \<open>A map as a property, which only the strict check lets pass, does not occur within \<open>n\<close> steps, and the chain ends.\<close>

inductive map_free :: "nat \<Rightarrow> json \<Rightarrow> bool" where
  "(\<And>v. sub_schema schema v \<Longrightarrow> \<not> is_map_type v \<and> map_free n v) \<Longrightarrow> map_free (Suc n) schema"

text \<open>The parts of the two checks that recur, with the recursive call as an argument.\<close>

definition walk_variants :: "(json \<Rightarrow> string \<Rightarrow> string list) \<Rightarrow> json \<Rightarrow> string \<Rightarrow> string list" where
  "walk_variants rec schema path =
     concat (map (\<lambda>key.
       concat (map (\<lambda>(i, variant).
         if is_object_variant variant then rec variant (variant_path path key i) else [])
         (enumerate 0 (variants_of key schema)))) [''allOf'', ''oneOf'', ''anyOf''])"

definition walk_lenient :: "(json \<Rightarrow> string \<Rightarrow> string list) \<Rightarrow> string \<Rightarrow> string \<times> json \<Rightarrow> string list" where
  "walk_lenient rec path =
     (\<lambda>(key, prop).
       (let prop_path = path @ ''.'' @ key
        in if type_str prop = Some ''object'' then rec prop prop_path
           else if type_str prop = Some ''array''
           then (case json_get ''items'' prop of
                   None \<Rightarrow> missing_items prop_path
                 | Some items \<Rightarrow>
                     if type_str items = Some ''object'' then rec items (prop_path @ ''.items'') else [])
           else []))"

definition walk_strict :: "(json \<Rightarrow> string) \<Rightarrow> (json \<Rightarrow> string \<Rightarrow> string list) \<Rightarrow> string \<Rightarrow> string \<times> json \<Rightarrow> string list" where
  "walk_strict disp rec path =
     (\<lambda>(key, prop).
       (let prop_path = path @ ''.'' @ key;
            prop_type = (case type_str prop of Some t \<Rightarrow> t | None \<Rightarrow> [])
        in if json_get ''type'' prop = None then []
           else
             (if additional_not_strict prop
              then [prop_path @ '': '' @ dq ''additionalProperties'' @ '' should be false or a type schema''] else []) @
             enum_errors disp prop prop_type prop_path @
             (if prop_type = ''object'' \<and> \<not> is_map_type prop then rec prop prop_path else []) @
             (if prop_type = ''array''
              then (case json_get ''items'' prop of
                      None \<Rightarrow> missing_items prop_path
                    | Some items \<Rightarrow>
                        if type_str items = Some ''object'' then rec items (prop_path @ ''.items'') else [])
              else [])))"

definition object_schema :: "(string \<times> json) list \<Rightarrow> json" where
  "object_schema ps = JObject [(''type'', JString ''object''), (''properties'', JObject ps)]"

definition string_map_schema :: json where
  "string_map_schema = JObject [(''type'', JString ''object''), (''additionalProperties'', JObject [(''type'', JString ''string'')])]"

section \<open>Lemmas\<close>

inductive_cases map_freeE: "map_free n schema"

lemma concat_map_Nil: "concat (map f xs) = [] \<longleftrightarrow> (\<forall>x\<in>set xs. f x = [])"
  by auto

lemma lenient_step:
  "validate_tool_schema_inner schema path depth =
     (if depth > MAX_SCHEMA_DEPTH
      then [path @ '': schema nesting exceeds maximum depth of '' @ show_nat MAX_SCHEMA_DEPTH]
      else
        combinator_errors schema path @
        (case type_error schema path of
           Some e \<Rightarrow> [e]
         | None \<Rightarrow>
             walk_variants (\<lambda>v p. validate_tool_schema_inner v p (depth + 1)) schema path @
             (case get_object ''properties'' schema of
                None \<Rightarrow> no_properties schema path
              | Some ps \<Rightarrow>
                  required_in_properties schema ps path @
                  concat (map (walk_lenient (\<lambda>v p. validate_tool_schema_inner v p (depth + 1)) path) ps))))"
  unfolding walk_variants_def walk_lenient_def by (rule validate_tool_schema_inner.simps)

lemma strict_step:
  "check_object_schema disp schema path =
     combinator_errors schema path @
     (case type_error schema path of
        Some e \<Rightarrow> [e]
      | None \<Rightarrow>
          walk_variants (check_object_schema disp) schema path @
          (case get_object ''properties'' schema of
             None \<Rightarrow> no_properties schema path
           | Some ps \<Rightarrow>
               required_in_properties schema ps path @
               concat (map (walk_strict disp (check_object_schema disp) path) ps) @
               (if additional_not_strict schema
                then [path @ '': top-level '' @ dq ''additionalProperties'' @ '' should be false or a type schema'']
                else [])))"
  unfolding walk_variants_def walk_strict_def by (rule check_object_schema.simps)

lemma walk_variants_mono:
  assumes "walk_variants rec schema path = []"
    and "\<And>v p. sub_schema schema v \<Longrightarrow> rec v p = [] \<Longrightarrow> rec' v p = []"
  shows "walk_variants rec' schema path = []"
  using assms unfolding walk_variants_def concat_map_Nil
  by (fastforce dest: enumerate_elem intro: variant)

lemma typed: "type_str v = Some t \<Longrightarrow> json_get ''type'' v \<noteq> None"
  by (cases "json_get ''type'' v") (auto simp: type_str_def)

lemma walk_strict_lenient:
  assumes "walk_strict disp rec path (key, v) = []" and "\<not> is_map_type v"
    and "rec v (path @ ''.'' @ key) = [] \<Longrightarrow> rec' v (path @ ''.'' @ key) = []"
    and "\<And>items p. json_get ''items'' v = Some items \<Longrightarrow> rec items p = [] \<Longrightarrow> rec' items p = []"
  shows "walk_lenient rec' path (key, v) = []"
  using assms typed[of v]
  by (cases "type_str v") (auto simp: walk_strict_def walk_lenient_def Let_def missing_items_def split: option.splits if_splits)

lemma lenient_of_strict:
  assumes "map_free n schema" "check_object_schema disp schema path = []" "depth + n \<le> Suc MAX_SCHEMA_DEPTH"
  shows "validate_tool_schema_inner schema path depth = []"
  using assms
proof (induction n schema arbitrary: path depth rule: map_free.induct)
  case (1 schema n)
  let ?rec' = "\<lambda>v p. validate_tool_schema_inner v p (depth + 1)"
  have sub: "?rec' v p = []" if "sub_schema schema v" "check_object_schema disp v p = []" for v p
    using 1 that by auto
  have strict: "check_object_schema disp schema path = []" by fact
  have ty: "type_error schema path = None" and comb: "combinator_errors schema path = []"
    and var: "walk_variants (check_object_schema disp) schema path = []"
    using strict by (auto simp: strict_step[of disp schema] split: option.splits)
  have var': "walk_variants ?rec' schema path = []" using var sub by (rule walk_variants_mono)
  have props: "walk_lenient ?rec' path e = []"
    if ps: "get_object ''properties'' schema = Some ps" "e \<in> set ps" for ps e
  proof -
    obtain k v where e: "e = (k, v)" by fastforce
    have "walk_strict disp (check_object_schema disp) path (k, v) = []"
      using strict ps by (simp add: strict_step[of disp schema] ty comb e)
    moreover have "sub_schema schema v" "\<And>items. json_get ''items'' v = Some items \<Longrightarrow> sub_schema schema items"
      using ps e by (auto intro: property items)
    ultimately show ?thesis unfolding e using 1(1) sub by (intro walk_strict_lenient[of disp "check_object_schema disp"]) auto
  qed
  show ?case
    using strict props 1(3) by (cases "get_object ''properties'' schema")
      (auto simp: lenient_step[of schema] strict_step[of disp schema] ty comb var'[simplified])
qed

section \<open>Properties\<close>

text \<open>
  A schema that passes the strict check passes the lenient one, unless it is nested deeper than the lenient
  check goes or has a property that is a map.
\<close>

theorem strict_implies_lenient:
  assumes "validate_strict_schema disp schema path = Inr ()" and "map_free 17 schema"
  shows "validate_tool_schema schema path = []"
  using assms lenient_of_strict[of 17 schema disp path 0]
  by (auto simp: validate_strict_schema_def validate_tool_schema_def MAX_SCHEMA_DEPTH_def Let_def split: if_splits)

theorem strict_implies_lenient_witness:
  "validate_tool_schema (object_schema [(''name'', JObject [(''type'', JString ''string'')])]) ''echo'' = []"
proof (rule strict_implies_lenient)
  show "validate_strict_schema (\<lambda>_. []) (object_schema [(''name'', JObject [(''type'', JString ''string'')])]) ''echo'' = Inr ()"
    by code_simp
  let ?leaf = "JObject [(''type'', JString ''string'')]"
  note unfold = variants_of_def get_array_def get_object_def json_get_def
  have "\<not> sub_schema ?leaf v" for v
    by (auto elim!: sub_schema.cases simp: unfold split: if_splits)
  then have "map_free (Suc 15) ?leaf" by (blast intro: map_free.intros)
  moreover have "v = ?leaf" if "sub_schema (object_schema [(''name'', ?leaf)]) v" for v
    using that by (auto elim!: sub_schema.cases simp: unfold object_schema_def split: if_splits)
  moreover have "\<not> is_map_type ?leaf" by (simp add: is_map_type_def json_get_def)
  ultimately have "map_free (Suc 16) (object_schema [(''name'', ?leaf)])"
    by (intro map_free.intros) auto
  then show "map_free 17 (object_schema [(''name'', ?leaf)])" by simp
qed

text \<open>
  A property that is a map from strings to strings passes the strict check and fails the lenient one.
\<close>

theorem map_schema_only_strict:
  "validate_strict_schema disp (object_schema [(''credentials'', string_map_schema)]) ''create_job'' = Inr () \<and>
   validate_tool_schema (object_schema [(''credentials'', string_map_schema)]) ''create_job'' \<noteq> []"
  by code_simp

end
