(* ===== verification/Tool_Execution.thy ===== *)
theory Tool_Execution
  imports Safety_Layer Http_Tool Coercion Tool_Registry
begin

text \<open>
  The execution of a tool, \<open>src/tools/execute.rs\<close>, from the lookup to the text of the result, and the
  approval of HTTP calls: the detection of credentials in the parameters,
  \<open>crates/ironclaw_safety/src/credential_detect.rs\<close>, and \<open>requires_approval\<close> of \<open>src/tools/builtin/http.rs\<close>.
  The URL library, \<open>serde_json\<close> and the texts of errors are parameters.
\<close>

section \<open>Model\<close>

subsection \<open>Credentials in the parameters\<close>

definition AUTH_HEADER_EXACT :: "string list" where
  "AUTH_HEADER_EXACT =
     [''authorization'', ''proxy-authorization'', ''cookie'', ''x-api-key'', ''api-key'', ''x-auth-token'', ''x-token'',
      ''x-access-token'', ''x-session-token'', ''x-csrf-token'', ''x-secret'', ''x-api-secret'']"

definition AUTH_HEADER_SUBSTRINGS :: "string list" where
  "AUTH_HEADER_SUBSTRINGS = [''auth'', ''token'', ''secret'', ''credential'', ''password'']"

definition AUTH_VALUE_PREFIXES :: "string list" where
  "AUTH_VALUE_PREFIXES =
     [''bearer '', ''basic '', ''token '', ''digest '', ''hoba '', ''mutual '', ''aws4-hmac-sha256 '']"

definition AUTH_QUERY_EXACT :: "string list" where
  "AUTH_QUERY_EXACT =
     [''api_key'', ''apikey'', ''api-key'', ''access_token'', ''token'', ''key'', ''secret'', ''password'', ''auth'',
      ''auth_token'', ''session_token'', ''client_secret'', ''client_id'', ''app_key'', ''app_secret'', ''sig'', ''signature'']"

definition AUTH_QUERY_SUBSTRINGS :: "string list" where
  "AUTH_QUERY_SUBSTRINGS = [''token'', ''secret'', ''auth'', ''password'', ''credential'']"

definition header_name_is_credential :: "string \<Rightarrow> bool" where
  "header_name_is_credential name =
     (let lower = to_lower name
      in lower \<in> set AUTH_HEADER_EXACT \<or> list_ex (\<lambda>sub. str_contains sub lower) AUTH_HEADER_SUBSTRINGS)"

definition header_value_is_credential :: "string \<Rightarrow> bool" where
  "header_value_is_credential v = list_ex (\<lambda>pfx. starts_with pfx (to_lower v)) AUTH_VALUE_PREFIXES"

definition some_and :: "'a option \<Rightarrow> ('a \<Rightarrow> bool) \<Rightarrow> bool" where
  "some_and opt P = (case opt of Some x \<Rightarrow> P x | None \<Rightarrow> False)"

definition headers_contain_credentials :: "json \<Rightarrow> bool" where
  "headers_contain_credentials params =
     (case json_get ''headers'' params of
        Some (JObject es) \<Rightarrow>
          list_ex (\<lambda>(k, v). header_name_is_credential k \<or> some_and (as_str v) header_value_is_credential) es
      | Some (JArray items) \<Rightarrow>
          list_ex (\<lambda>item.
            some_and (Option.bind (json_get ''name'' item) as_str) header_name_is_credential \<or>
            some_and (Option.bind (json_get ''value'' item) as_str) header_value_is_credential) items
      | _ \<Rightarrow> False)"

definition query_param_is_credential :: "string \<Rightarrow> bool" where
  "query_param_is_credential name =
     (let lower = to_lower name
      in lower \<in> set AUTH_QUERY_EXACT \<or> list_ex (\<lambda>sub. str_contains sub lower) AUTH_QUERY_SUBSTRINGS)"

definition parsed_url_param :: "net \<Rightarrow> json \<Rightarrow> url option" where
  "parsed_url_param net params =
     (case Option.bind (json_get ''url'' params) as_str of
        None \<Rightarrow> None
      | Some s \<Rightarrow> (case nt_parse net s of Inr u \<Rightarrow> Some u | Inl _ \<Rightarrow> None))"

definition url_contains_credential_params :: "net \<Rightarrow> (url \<Rightarrow> (string \<times> string) list) \<Rightarrow> json \<Rightarrow> bool" where
  "url_contains_credential_params net query_pairs params =
     some_and (parsed_url_param net params) (\<lambda>u. list_ex (\<lambda>(name, _). query_param_is_credential name) (query_pairs u))"

definition url_contains_userinfo :: "net \<Rightarrow> json \<Rightarrow> bool" where
  "url_contains_userinfo net params =
     some_and (parsed_url_param net params) (\<lambda>u. ur_username u \<noteq> [] \<or> ur_password u \<noteq> None)"

definition params_contain_manual_credentials :: "net \<Rightarrow> (url \<Rightarrow> (string \<times> string) list) \<Rightarrow> json \<Rightarrow> bool" where
  "params_contain_manual_credentials net query_pairs params =
     (headers_contain_credentials params \<or> url_contains_credential_params net query_pairs params \<or>
      url_contains_userinfo net params)"

definition extract_host_from_params :: "net \<Rightarrow> json \<Rightarrow> string option" where
  "extract_host_from_params net params = Option.bind (parsed_url_param net params) ur_host_str"

definition http_requires_approval ::
  "net \<Rightarrow> (url \<Rightarrow> (string \<times> string) list) \<Rightarrow> credential_registry option \<Rightarrow> json \<Rightarrow> approval_requirement"
where
  "http_requires_approval net query_pairs registry params =
     (let has_credentials =
            (params_contain_manual_credentials net query_pairs params \<or>
             some_and registry (\<lambda>r. some_and (extract_host_from_params net params) (\<lambda>host. has_credentials_for_host host r)));
          meth = (case Option.bind (json_get ''method'' params) as_str of Some m \<Rightarrow> m | None \<Rightarrow> ''GET'')
      in if has_credentials then UnlessAutoApproved
         else if to_lower meth = to_lower ''GET'' then ApprovalNever
         else UnlessAutoApproved)"

subsection \<open>Execution\<close>

datatype exec_error =
    ExecNotFound string
  | ExecInvalidParameters string string
  | ExecTimeout string duration
  | ExecFailed string string

definition prepare_tool_params :: "coerce_lib \<Rightarrow> tool \<Rightarrow> json \<Rightarrow> json" where
  "prepare_tool_params cl t params = prepare_params_for_schema cl params (tl_discovery_schema t)"

definition validation_details :: "validation_result \<Rightarrow> string" where
  "validation_details r = str_join ''; '' (map (\<lambda>e. ve_field e @ '': '' @ ve_message e) (vr_errors r))"

text \<open>
  The printer of JSON may fail, and the texts of the errors of tools are given by \<open>show_error\<close>.
\<close>

definition execute_tool_with_safety ::
  "coerce_lib \<Rightarrow> (json \<Rightarrow> (string, string) result) \<Rightarrow> (tool_error \<Rightarrow> string) \<Rightarrow> tool_registry \<Rightarrow> safety_layer \<Rightarrow>
   string \<Rightarrow> json \<Rightarrow> (exec_error, string) result"
where
  "execute_tool_with_safety cl pretty show_error tools safety tool_name params =
     (if tool_name = [] then Inl (ExecNotFound tool_name)
      else
        (case registry_get tool_name tools of
           None \<Rightarrow> Inl (ExecNotFound tool_name)
         | Some t \<Rightarrow>
             (let normalized_params = prepare_tool_params cl t params;
                  validation = validate_tool_params (sl_validator safety) normalized_params
              in if \<not> vr_is_valid validation
                 then Inl (ExecInvalidParameters tool_name
                             (''Invalid tool parameters: '' @ validation_details validation))
                 else
                   (case tl_execute t normalized_params of
                      TimedOut \<Rightarrow> Inl (ExecTimeout tool_name (tl_execution_timeout t))
                    | ToolFailed e \<Rightarrow> Inl (ExecFailed tool_name (show_error e))
                    | ToolDone result \<Rightarrow>
                        (case pretty result of
                           Inr s \<Rightarrow> Inr s
                         | Inl e \<Rightarrow> Inl (ExecFailed tool_name (''Failed to serialize result: '' @ e)))))))"

definition execute_tool_simple ::
  "coerce_lib \<Rightarrow> (json \<Rightarrow> (string, string) result) \<Rightarrow> (tool_error \<Rightarrow> string) \<Rightarrow> (exec_error \<Rightarrow> string) \<Rightarrow>
   tool_registry \<Rightarrow> safety_layer \<Rightarrow> string \<Rightarrow> json \<Rightarrow> (string, string) result"
where
  "execute_tool_simple cl pretty show_error show_exec_error tools safety tool_name params =
     map_sum show_exec_error id (execute_tool_with_safety cl pretty show_error tools safety tool_name params)"

subsection \<open>Auxiliary definitions\<close>

text \<open>A GET request with the given headers.\<close>

definition get_params :: "string \<Rightarrow> json \<Rightarrow> json" where
  "get_params url_text headers =
     JObject [(''headers'', headers), (''method'', JString ''GET''), (''url'', JString url_text)]"

text \<open>An environment in which a text of headers parses to an object with a credential.\<close>

definition string_headers_env :: http_env where
  "string_headers_env = (sample_http_env [] [])
     \<lparr>he_credentials := None, he_from_str := (\<lambda>_. Inr (JObject [(''Authorization'', JString ''Bearer t'')]))\<rparr>"

text \<open>
  The texts within 32 containers of a value are empty or acceptable to the validator: of an allowed
  length, without a null byte and without a forbidden pattern.
\<close>

definition clean_params :: "validator \<Rightarrow> json \<Rightarrow> bool" where
  "clean_params v p = ({s. \<exists>d. d \<le> 32 \<and> string_at p d s} \<subseteq> {s. s = [] \<or> acceptable v s})"

section \<open>Lemmas\<close>

lemma params_valid_iff: "vr_is_valid (validate_tool_params v p) = clean_params v p"
  using validate_tool_params_iff[of v p] by (simp add: clean_params_def)

lemma prepare_other_execute [simp]: "prepare_tool_params cl (t\<lparr>tl_execute := f\<rparr>) params = prepare_tool_params cl t params"
  by (simp add: prepare_tool_params_def)

lemma get_params_get [simp]:
  "json_get ''headers'' (get_params u h) = Some h"
  "json_get ''method'' (get_params u h) = Some (JString ''GET'')"
  "json_get ''url'' (get_params u h) = Some (JString u)"
  by (simp_all add: get_params_def json_get_def)

lemma parse_header_object_all:
  "list_all (\<lambda>(k, v). as_str v \<noteq> None) es \<Longrightarrow>
   parse_header_object es = Inr (map (\<lambda>(k, v). (k, the (as_str v))) es)"
  by (induction es rule: parse_header_object.induct) auto

section \<open>Properties\<close>





end
