(* ===== verification/Shell_Tool.thy ===== *)
theory Shell_Tool
  imports Tool_Registry Http_Tool
begin

text \<open>
  The shell tool, \<open>src/tools/builtin/shell.rs\<close>: the lists of commands, the classification of risk, the
  detection of injections, the approval, and the run of a command in the sandbox or as a process. The
  sandbox, the processes, the environment of the program and its current directory are the fields of
  \<open>shell_env\<close>; a function that runs commands returns the runs that were started.
\<close>

section \<open>Model\<close>

definition MAX_OUTPUT_SIZE :: nat where
  "MAX_OUTPUT_SIZE = 64 * 1024"

definition DEFAULT_TIMEOUT :: nat where
  "DEFAULT_TIMEOUT = 120"

definition BLOCKED_COMMANDS :: "string list" where
  "BLOCKED_COMMANDS =
     [''rm -rf /'', ''rm -rf /*'', '':(){ :|:& };:'', ''dd if=/dev/zero'', ''mkfs'', ''chmod -R 777 /'',
      ''> /dev/sda'', ''curl | sh'', ''wget | sh'', ''curl | bash'', ''wget | bash'']"

definition DANGEROUS_PATTERNS :: "string list" where
  "DANGEROUS_PATTERNS =
     [''sudo '', ''doas '', '' | sh'', '' | bash'', '' | zsh'', ''eval '', ''$(curl'', ''$(wget'',
      ''/etc/passwd'', ''/etc/shadow'', ''~/.ssh'', ''.bash_history'', ''id_rsa'']"

definition NEVER_AUTO_APPROVE_PATTERNS :: "string list" where
  "NEVER_AUTO_APPROVE_PATTERNS =
     [''rm -rf'', ''rm -fr'', ''chmod -r 777'', ''chmod 777'', ''chown -r'', ''shutdown'', ''reboot'',
      ''poweroff'', ''init 0'', ''init 6'', ''iptables'', ''nft'', ''useradd'', ''userdel'', ''passwd'',
      ''visudo'', ''crontab'', ''systemctl disable'', ''launchctl unload'', ''kill -9'', ''killall'', ''pkill'',
      ''docker rm'', ''docker rmi'', ''docker system prune'', ''git push --force'',
      ''git push --force-with-lease'', ''git push -f'', ''git reset --hard'', ''git clean -f'', ''DROP TABLE'',
      ''DROP DATABASE'', ''TRUNCATE'', ''DELETE FROM'', ''sudo'']"

definition SAFE_ENV_VARS :: "string list" where
  "SAFE_ENV_VARS =
     [''PATH'', ''HOME'', ''USER'', ''LOGNAME'', ''SHELL'', ''TERM'', ''COLORTERM'', ''LANG'', ''LC_ALL'',
      ''LC_CTYPE'', ''LC_MESSAGES'', ''PWD'', ''TMPDIR'', ''TMP'', ''TEMP'', ''XDG_RUNTIME_DIR'',
      ''XDG_DATA_HOME'', ''XDG_CONFIG_HOME'', ''XDG_CACHE_HOME'', ''CARGO_HOME'', ''RUSTUP_HOME'', ''NODE_PATH'',
      ''NPM_CONFIG_PREFIX'', ''EDITOR'', ''VISUAL'', ''SystemRoot'', ''SYSTEMROOT'', ''ComSpec'', ''PATHEXT'',
      ''APPDATA'', ''LOCALAPPDATA'', ''USERPROFILE'', ''ProgramFiles'', ''ProgramFiles(x86)'', ''WINDIR'']"

definition LOW_RISK_PATTERNS :: "string list" where
  "LOW_RISK_PATTERNS =
     [''ls'', ''ll'', ''la'', ''dir'', ''cat'', ''less'', ''more'', ''head'', ''tail'', ''grep'', ''rg'', ''ag'',
      ''fd'', ''locate'', ''echo'', ''printf'', ''pwd'', ''cd'', ''env'', ''printenv'', ''which'', ''whereis'',
      ''type'', ''date'', ''cal'', ''uptime'', ''uname'', ''df'', ''du'', ''free'', ''top'', ''htop'', ''ps'',
      ''git status'', ''git log'', ''git diff'', ''git show'', ''git branch'', ''git remote'', ''git fetch'',
      ''cargo check'', ''cargo clippy'', ''curl --head'', ''curl -I'', ''ping'', ''wc'', ''sort'', ''uniq'',
      ''tr'', ''cut'', ''jq'', ''yq'', ''file'', ''stat'', ''man'']"

definition MEDIUM_RISK_PATTERNS :: "string list" where
  "MEDIUM_RISK_PATTERNS =
     [''awk'', ''sed'', ''find'', ''mkdir'', ''rmdir'', ''touch'', ''cp'', ''copy'', ''mv'', ''move'',
      ''git commit'', ''git add'', ''git push'', ''git checkout'', ''git switch'', ''git merge'', ''git rebase'',
      ''git stash'', ''git tag'', ''cargo build'', ''cargo run'', ''cargo test'', ''npm test'', ''npm run test'',
      ''yarn test'', ''npm install'', ''npm ci'', ''npm update'', ''pip install'', ''pip uninstall'',
      ''brew install'', ''brew uninstall'', ''apt install'', ''apt remove'', ''make'', ''cmake'', ''tar'',
      ''zip'', ''unzip'', ''gzip'', ''gunzip'', ''ssh'', ''scp'', ''rsync'', ''curl'', ''wget'', ''docker build'',
      ''docker pull'', ''docker run'', ''kubectl apply'', ''kubectl create'']"

subsection \<open>Risk\<close>

fun risk_rank :: "risk_level \<Rightarrow> nat" where
  "risk_rank RiskLow = 0"
| "risk_rank RiskMedium = 1"
| "risk_rank RiskHigh = 2"

instantiation risk_level :: linorder
begin

definition less_eq_risk_level :: "risk_level \<Rightarrow> risk_level \<Rightarrow> bool" where
  "less_eq_risk_level a b = (risk_rank a \<le> risk_rank b)"

definition less_risk_level :: "risk_level \<Rightarrow> risk_level \<Rightarrow> bool" where
  "less_risk_level a b = (risk_rank a < risk_rank b)"

instance
proof
  fix a b c :: risk_level
  show "(a < b) = (a \<le> b \<and> \<not> b \<le> a)" by (auto simp: less_eq_risk_level_def less_risk_level_def)
  show "a \<le> a" by (simp add: less_eq_risk_level_def)
  show "a \<le> b \<Longrightarrow> b \<le> c \<Longrightarrow> a \<le> c" by (simp add: less_eq_risk_level_def)
  show "a \<le> b \<Longrightarrow> b \<le> a \<Longrightarrow> a = b" by (cases a; cases b) (auto simp: less_eq_risk_level_def)
  show "a \<le> b \<or> b \<le> a" by (auto simp: less_eq_risk_level_def)
qed

end

definition matches_command_pattern :: "string \<Rightarrow> string \<Rightarrow> bool" where
  "matches_command_pattern segment pattern =
     (if CHR '' '' \<in> set pattern then segment = pattern \<or> starts_with (pattern @ '' '') segment
      else (case split_whitespace segment of [] \<Rightarrow> [] | w # _ \<Rightarrow> w) = pattern)"

definition segment_risk :: "string \<Rightarrow> risk_level" where
  "segment_risk segment =
     (let seg_lower = to_lower segment
      in if list_ex (\<lambda>p. matches_command_pattern seg_lower (to_lower p)) NEVER_AUTO_APPROVE_PATTERNS then RiskHigh
         else if list_ex (matches_command_pattern seg_lower) LOW_RISK_PATTERNS then RiskLow
         else if list_ex (matches_command_pattern seg_lower) MEDIUM_RISK_PATTERNS then RiskMedium
         else RiskMedium)"

definition is_separator :: "char \<Rightarrow> bool" where
  "is_separator c = (c = CHR ''|'' \<or> c = CHR ''&'' \<or> c = CHR '';'')"

definition command_segments :: "string \<Rightarrow> string list" where
  "command_segments command = filter (\<lambda>s. s \<noteq> []) (map trim (split_on is_separator command))"

definition classify_command_risk :: "string \<Rightarrow> risk_level" where
  "classify_command_risk command =
     (let risks = map segment_risk (command_segments command)
      in if risks = [] then RiskMedium else Max (set risks))"

definition extract_command_param :: "json_parser \<Rightarrow> json \<Rightarrow> string option" where
  "extract_command_param from_str params =
     (case Option.bind (json_get ''command'' params) as_str of
        Some c \<Rightarrow> Some c
      | None \<Rightarrow>
          (case as_str params of
             None \<Rightarrow> None
           | Some s \<Rightarrow>
               (case from_str s of
                  Inl _ \<Rightarrow> None
                | Inr v \<Rightarrow> Option.bind (json_get ''command'' v) as_str)))"

subsection \<open>Injection\<close>

definition ends_word :: "string \<Rightarrow> bool" where
  "ends_word rest =
     (case rest of
        [] \<Rightarrow> True
      | c # _ \<Rightarrow> c \<in> {CHR '' '', CHR 0x09, CHR 0x0A, CHR '';'', CHR ''|'', CHR ''&'', CHR '')''})"

definition has_pipe_to :: "string \<Rightarrow> string \<Rightarrow> bool" where
  "has_pipe_to lower sh =
     list_ex (\<lambda>pre. list_ex ends_word (match_suffixes (pre @ sh) lower)) [''| '', ''|'']"

definition contains_shell_pipe :: "string \<Rightarrow> bool" where
  "contains_shell_pipe lower =
     list_ex (has_pipe_to lower) [''sh'', ''bash'', ''zsh'', ''dash'', ''/bin/sh'', ''/bin/bash'']"

definition has_command_substitution :: "string \<Rightarrow> bool" where
  "has_command_substitution s = (str_contains ''$('' s \<or> CHR 0x60 \<in> set s)"

definition has_command_token :: "string \<Rightarrow> string \<Rightarrow> bool" where
  "has_command_token lower token =
     list_ex (\<lambda>rest.
       (let i = length lower - length rest - length token
        in i = 0 \<or> lower ! (i - 1) \<in> {CHR '' '', CHR 0x09, CHR ''|'', CHR '';'', CHR ''&'', CHR 0x0A, CHR ''(''}))
       (match_suffixes token lower)"

definition detect_command_injection :: "string \<Rightarrow> string option" where
  "detect_command_injection cmd =
     (if CHR 0x00 \<in> set cmd then Some ''null byte in command''
      else
        (let lower = to_lower cmd; has = (\<lambda>p. str_contains p lower)
         in if (has ''base64 -d'' \<or> has ''base64 --decode'') \<and> contains_shell_pipe lower
            then Some ''base64 decode piped to shell''
            else if (has ''printf'' \<or> has ''echo -e'' \<or> has (''echo $'' @ [CHR 0x27])) \<and>
                    (has ([CHR 0x5C] @ ''x'') \<or> has ([CHR 0x5C] @ ''0'')) \<and> contains_shell_pipe lower
            then Some ''encoded escape sequences piped to shell''
            else if (has ''xxd -r'' \<or> has_command_token lower ''od '') \<and> contains_shell_pipe lower
            then Some ''binary decode piped to shell''
            else if (has_command_token lower ''dig '' \<or> has_command_token lower ''nslookup '' \<or> has_command_token lower ''host '') \<and>
                    has_command_substitution lower
            then Some ''potential DNS exfiltration via command substitution''
            else if (has_command_token lower ''nc '' \<or> has_command_token lower ''ncat '' \<or> has_command_token lower ''netcat '') \<and>
                    (CHR ''|'' \<in> set lower \<or> CHR ''<'' \<in> set lower)
            then Some ''netcat with data piping''
            else if has ''curl'' \<and>
                    (has ''-d @'' \<or> has ''-d@'' \<or> has ''--data @'' \<or> has ''--data-binary @'' \<or> has ''--upload-file'')
            then Some ''curl posting file contents''
            else if has ''wget'' \<and> has ''--post-file'' then Some ''wget posting file contents''
            else if (has ''| rev'' \<or> has ''|rev'') \<and> contains_shell_pipe lower
            then Some ''string reversal piped to shell''
            else None))"

subsection \<open>Running commands\<close>

text \<open>Whether the sandbox is initialized or enabled; \<open>None\<close> when there is no manager.\<close>

record shell_tool =
  st_working_dir :: "string option"
  st_timeout :: nat
  st_allow_dangerous :: bool
  st_sandbox :: "bool option"

definition shell_tool_new :: shell_tool where
  "shell_tool_new = \<lparr>st_working_dir = None, st_timeout = DEFAULT_TIMEOUT, st_allow_dangerous = False, st_sandbox = None\<rparr>"

datatype shell_run =
    SandboxRun (run_cmd: string) (run_dir: string) nat
  | DirectRun (run_cmd: string) (run_dir: string) nat (run_vars: "(string \<times> string) list")

datatype 'a timed = Elapsed | Finished 'a

record process_output =
  po_stdout :: string
  po_stderr :: string
  po_code :: "int option"

record shell_env =
  sh_sandbox :: "string \<Rightarrow> string \<Rightarrow> nat \<Rightarrow> (string, string \<times> int) result timed"
  sh_spawn :: "string \<Rightarrow> string \<Rightarrow> (string \<times> string) list \<Rightarrow> string option"
  sh_process :: "string \<Rightarrow> string \<Rightarrow> nat \<Rightarrow> (string \<times> string) list \<Rightarrow> (string, process_output) result timed"
  sh_lossy :: "string \<Rightarrow> string"
  sh_var :: "string \<Rightarrow> string option"
  sh_current_dir :: "string option"

definition shell_is_blocked :: "shell_tool \<Rightarrow> string \<Rightarrow> string option" where
  "shell_is_blocked t cmd =
     (let normalized = to_lower cmd
      in if list_ex (\<lambda>b. str_contains b normalized) BLOCKED_COMMANDS then Some ''Command contains blocked pattern''
         else if \<not> st_allow_dangerous t \<and> list_ex (\<lambda>p. str_contains p normalized) DANGEROUS_PATTERNS
         then Some ''Command contains potentially dangerous pattern''
         else None)"

definition truncate_output :: "string \<Rightarrow> string" where
  "truncate_output s =
     (if length s \<le> MAX_OUTPUT_SIZE then s
      else
        (let half = MAX_OUTPUT_SIZE div 2;
             head_end = boundary_before s half;
             tail_start = boundary_before s (length s - half)
         in take head_end s @ [newline, newline] @ ''... [truncated '' @ show_nat (length s - MAX_OUTPUT_SIZE) @ '' bytes] ...'' @
            [newline, newline] @ drop tail_start s))"

definition truncate_for_error :: "string \<Rightarrow> string" where
  "truncate_for_error s =
     (if length (str_chars s) \<le> 100 then s else concat (take 100 (str_chars s)) @ ''...'')"

definition execute_sandboxed ::
  "shell_env \<Rightarrow> string \<Rightarrow> string \<Rightarrow> nat \<Rightarrow> shell_run list \<times> (tool_error, string \<times> int) result"
where
  "execute_sandboxed env cmd workdir timeout =
     ([SandboxRun cmd workdir timeout],
      case sh_sandbox env cmd workdir timeout of
        Finished (Inr (output, exit_code)) \<Rightarrow> Inr (truncate_output output, exit_code)
      | Finished (Inl e) \<Rightarrow> Inl (ExecutionFailed (''Sandbox error: '' @ e))
      | Elapsed \<Rightarrow> Inl (ToolTimeout timeout))"

text \<open>The variables that a process is given: the safe ones that are set, then the extra ones, which win.\<close>

definition process_vars :: "shell_env \<Rightarrow> (string \<times> string) list \<Rightarrow> (string \<times> string) list" where
  "process_vars env extra_env =
     fold (\<lambda>(k, v). hm_put k v) extra_env
       (fold (\<lambda>var vars. case sh_var env var of Some val \<Rightarrow> hm_put var val vars | None \<Rightarrow> vars) SAFE_ENV_VARS [])"

text \<open>At most the first bytes of each stream are kept; the rest is drained.\<close>

definition combine_output :: "shell_env \<Rightarrow> process_output \<Rightarrow> string" where
  "combine_output env p =
     (let out = sh_lossy env (take MAX_OUTPUT_SIZE (po_stdout p));
          err = sh_lossy env (take MAX_OUTPUT_SIZE (po_stderr p))
      in if err = [] then out
         else if out = [] then err
         else out @ [newline, newline] @ ''--- stderr ---'' @ [newline] @ err)"

definition execute_direct ::
  "shell_env \<Rightarrow> string \<Rightarrow> string \<Rightarrow> nat \<Rightarrow> (string \<times> string) list \<Rightarrow>
   shell_run list \<times> (tool_error, string \<times> int) result"
where
  "execute_direct env cmd workdir timeout extra_env =
     (let vars = process_vars env extra_env
      in case sh_spawn env cmd workdir vars of
           Some e \<Rightarrow> ([], Inl (ExecutionFailed (''Failed to spawn command: '' @ e)))
         | None \<Rightarrow>
             ([DirectRun cmd workdir timeout vars],
              case sh_process env cmd workdir timeout vars of
                Finished (Inr p) \<Rightarrow>
                  Inr (truncate_output (combine_output env p), case po_code p of Some c \<Rightarrow> c | None \<Rightarrow> -1)
              | Finished (Inl e) \<Rightarrow> Inl (ExecutionFailed (''Command execution failed: '' @ e))
              | Elapsed \<Rightarrow> Inl (ToolTimeout timeout)))"

definition execute_command ::
  "shell_env \<Rightarrow> shell_tool \<Rightarrow> string \<Rightarrow> string option \<Rightarrow> nat option \<Rightarrow> (string \<times> string) list \<Rightarrow>
   shell_run list \<times> (tool_error, string \<times> int) result"
where
  "execute_command env t cmd workdir timeout extra_env =
     (case shell_is_blocked t cmd of
        Some reason \<Rightarrow> ([], Inl (NotAuthorized (reason @ '': '' @ truncate_for_error cmd)))
      | None \<Rightarrow>
          (case detect_command_injection cmd of
             Some reason \<Rightarrow>
               ([], Inl (NotAuthorized (''Command injection detected ('' @ reason @ ''): '' @ truncate_for_error cmd)))
           | None \<Rightarrow>
               (let cwd = (case workdir of
                      Some d \<Rightarrow> d
                    | None \<Rightarrow> (case st_working_dir t of
                                 Some d \<Rightarrow> d
                               | None \<Rightarrow> (case sh_current_dir env of Some d \<Rightarrow> d | None \<Rightarrow> ''.'')));
                    timeout_duration = (case timeout of Some s \<Rightarrow> s | None \<Rightarrow> st_timeout t)
                in if st_sandbox t = Some True then execute_sandboxed env cmd cwd timeout_duration
                   else execute_direct env cmd cwd timeout_duration extra_env)))"

definition shell_execute ::
  "shell_env \<Rightarrow> (int \<Rightarrow> json) \<Rightarrow> shell_tool \<Rightarrow> json \<Rightarrow> (string \<times> string) list \<Rightarrow> shell_run list \<times> (tool_error, json) result"
where
  "shell_execute env json_of_int t params extra_env =
     (case require_str params ''command'' of
        Inl e \<Rightarrow> ([], Inl e)
      | Inr command \<Rightarrow>
          (let workdir = Option.bind (json_get ''workdir'' params) as_str;
               timeout = Option.bind (json_get ''timeout'' params) as_u64
           in case execute_command env t command workdir timeout extra_env of
                (runs, Inl e) \<Rightarrow> (runs, Inl e)
              | (runs, Inr (output, exit_code)) \<Rightarrow>
                  (runs, Inr (JObject [(''exit_code'', json_of_int exit_code), (''output'', JString output),
                                (''sandboxed'', JBool (st_sandbox t \<noteq> None)), (''success'', JBool (exit_code = 0))]))))"

definition shell_risk_level_for :: "json_parser \<Rightarrow> json \<Rightarrow> risk_level" where
  "shell_risk_level_for from_str params =
     (case extract_command_param from_str params of Some cmd \<Rightarrow> classify_command_risk cmd | None \<Rightarrow> RiskMedium)"

definition shell_requires_approval :: "json_parser \<Rightarrow> json \<Rightarrow> approval_requirement" where
  "shell_requires_approval from_str params =
     (case shell_risk_level_for from_str params of
        RiskLow \<Rightarrow> UnlessAutoApproved
      | RiskMedium \<Rightarrow> UnlessAutoApproved
      | RiskHigh \<Rightarrow> ApprovalAlways)"

subsection \<open>Reference definitions\<close>

fun is_sandbox_run :: "shell_run \<Rightarrow> bool" where
  "is_sandbox_run (SandboxRun _ _ _) = True"
| "is_sandbox_run (DirectRun _ _ _ _) = False"

fun run_variables :: "shell_run \<Rightarrow> string set" where
  "run_variables (SandboxRun _ _ _) = {}"
| "run_variables (DirectRun _ _ _ vars) = fst ` set vars"

definition shell_params :: "string \<Rightarrow> json" where
  "shell_params cmd = JObject [(''command'', JString cmd)]"

definition sample_shell_env :: shell_env where
  "sample_shell_env =
     \<lparr>sh_sandbox = (\<lambda>_ _ _. Elapsed), sh_spawn = (\<lambda>_ _ _. None),
      sh_process = (\<lambda>_ _ _ _. Finished (Inr \<lparr>po_stdout = ''ok'', po_stderr = [], po_code = Some 0\<rparr>)),
      sh_lossy = id, sh_var = (\<lambda>_. None), sh_current_dir = None\<rparr>"

section \<open>Lemmas\<close>

lemma risk_high_greatest: "r \<le> RiskHigh"
  by (cases r) (simp_all add: less_eq_risk_level_def)

lemma max_is_high: "xs \<noteq> [] \<Longrightarrow> Max (set xs) = RiskHigh \<longleftrightarrow> RiskHigh \<in> set xs"
  by (metis List.finite_set Max_in Max_ge risk_high_greatest order_antisym set_empty)

lemma split_on_append: "p c \<Longrightarrow> split_on p (a @ c # b) = split_on p a @ split_on p b"
proof (induction a)
  case (Cons x a)
  then show ?case by (cases "split_on p a") (auto split: list.splits)
qed simp

lemma command_segments_append:
  "is_separator c \<Longrightarrow> command_segments (a @ c # b) = command_segments a @ command_segments b"
  by (simp add: command_segments_def split_on_append)

lemma classify_high_iff: "classify_command_risk cmd = RiskHigh \<longleftrightarrow> RiskHigh \<in> segment_risk ` set (command_segments cmd)"
  by (auto simp: classify_command_risk_def Let_def max_is_high simp flip: set_map)

lemma lower_char_not_upper: "CHR ''R'' \<noteq> lower_char c"
  using lower_char_fixed[of "CHR ''R''" c] by (auto simp: is_ascii_lower_def is_ascii_upper_def ascii_code_def)

lemma keys_hm_put: "fst ` set (hm_put k v m) = insert k (fst ` set m)"
  by (auto simp: hm_put_def dom_update)

lemma process_vars_keys: "fst ` set (process_vars env extra) \<subseteq> set SAFE_ENV_VARS \<union> fst ` set extra"
proof -
  have 1: "fst ` set (fold (\<lambda>(k, v). hm_put k v) es m) = fst ` set m \<union> fst ` set es" for es :: "(string \<times> string) list" and m
    by (induction es arbitrary: m) (simp_all add: keys_hm_put case_prod_unfold)
  have 2: "fst ` set (fold (\<lambda>var vars. case sh_var env var of Some val \<Rightarrow> hm_put var val vars | None \<Rightarrow> vars) vs m)
      \<subseteq> fst ` set m \<union> set vs" for vs m
  proof (induction vs arbitrary: m)
    case (Cons v vs)
    show ?case
    proof (cases "sh_var env v")
      case None
      then show ?thesis using Cons.IH[of m] by auto
    next
      case (Some w)
      then show ?thesis using Cons.IH[of "hm_put v w m"] by (auto simp: keys_hm_put)
    qed
  qed simp
  show ?thesis using 2[of SAFE_ENV_VARS "[]"] by (auto simp: process_vars_def 1)
qed

lemma trim_kept_start:
  "\<not> is_ascii_ws c \<Longrightarrow> \<exists>r. trim (c # s) = c # r \<and> prefix r s"
proof -
  assume c: "\<not> is_ascii_ws c"
  then have "trim (c # s) = rev (dropWhile is_ascii_ws (rev s @ [c]))" by (simp add: trim_def)
  also have "\<dots> = c # rev (dropWhile is_ascii_ws (rev s))"
    using c by (simp add: dropWhile_append)
  finally show ?thesis
    by (metis append_Nil2 prefix_def rev_append rev_rev_ident takeWhile_dropWhile_id)
qed

lemma trim_ls: "\<exists>r. trim (''ls'' @ newline # rest) = ''ls'' @ r \<and> (r = [] \<or> hd r = newline)"
proof -
  obtain r where r: "trim (''ls'' @ newline # rest) = CHR ''l'' # r" "prefix r (CHR ''s'' # newline # rest)"
    using trim_kept_start[of "CHR ''l''" "CHR ''s'' # newline # rest"] by (auto simp: is_ascii_ws_def ascii_code_def)
  have "r \<noteq> []"
  proof
    assume "r = []"
    have "dropWhile is_ascii_ws (rev (newline # rest) @ [CHR ''s'', CHR ''l'']) \<noteq> [CHR ''l'']"
      by (auto simp: dropWhile_append is_ascii_ws_def ascii_code_def)
    then show False using r(1) \<open>r = []\<close> by (auto simp: trim_def is_ascii_ws_def ascii_code_def)
  qed
  then show ?thesis using r by (cases r) (auto simp: prefix_Cons)
qed

lemma first_word_ls:
  assumes "r = [] \<or> hd r = newline"
  shows "(case split_whitespace (''ls'' @ r) of [] \<Rightarrow> [] | w # _ \<Rightarrow> w) = ''ls''"
proof (cases r)
  case Nil
  then show ?thesis by (simp add: split_whitespace_def is_ascii_ws_def ascii_code_def)
next
  case (Cons c t)
  then have "split_on is_ascii_ws (''ls'' @ r) = ''ls'' # split_on is_ascii_ws t"
    using assms split_on_sep[of "''ls''" is_ascii_ws newline t] by (simp add: is_ascii_ws_def ascii_code_def)
  then show ?thesis by (simp add: split_whitespace_def)
qed

lemma segment_risk_ls:
  assumes "r = [] \<or> hd r = newline"
  shows "segment_risk (''ls'' @ r) = RiskLow"
proof -
  have low: "to_lower (''ls'' @ r) = ''ls'' @ to_lower r"
    by (simp add: to_lower_append to_lower_simps lower_char_def is_ascii_upper_def ascii_code_def)
  have r': "to_lower r = [] \<or> hd (to_lower r) = newline"
    using assms by (cases r) (auto simp: to_lower_simps lower_char_def is_ascii_upper_def ascii_code_def)
  have single: "matches_command_pattern (''ls'' @ to_lower r) p = (p = ''ls'')" if "CHR '' '' \<notin> set p" for p
    using that first_word_ls[OF r'] by (auto simp: matches_command_pattern_def)
  have multi: "\<not> matches_command_pattern (''ls'' @ to_lower r) p" if "CHR '' '' \<in> set p" "\<not> prefix ''ls'' p" "length p > 2" for p
    using that by (cases p; cases "tl p") (auto simp: matches_command_pattern_def starts_with_def)
  have "\<not> list_ex (\<lambda>p. matches_command_pattern (''ls'' @ to_lower r) (to_lower p)) NEVER_AUTO_APPROVE_PATTERNS"
  proof -
    have "list_all (\<lambda>p. if CHR '' '' \<in> set (to_lower p) then \<not> prefix ''ls'' (to_lower p) \<and> length (to_lower p) > 2 else to_lower p \<noteq> ''ls'')
        NEVER_AUTO_APPROVE_PATTERNS" by code_simp
    then show ?thesis unfolding list_ex_iff list_all_iff using single multi by metis
  qed
  moreover have "''ls'' \<in> set LOW_RISK_PATTERNS" by (simp add: LOW_RISK_PATTERNS_def)
  then have "list_ex (matches_command_pattern (''ls'' @ to_lower r)) LOW_RISK_PATTERNS"
    using single[of "''ls''"] by (auto simp: list_ex_iff)
  ultimately show ?thesis unfolding segment_risk_def low Let_def by simp
qed

lemma process_vars_cong:
  assumes "list_all (\<lambda>x. sh_var env' x = sh_var env x) SAFE_ENV_VARS"
  shows "process_vars env' extra_env = process_vars env extra_env"
proof -
  have "fold (\<lambda>var vars. case sh_var env' var of Some val \<Rightarrow> hm_put var val vars | None \<Rightarrow> vars) SAFE_ENV_VARS [] =
      fold (\<lambda>var vars. case sh_var env var of Some val \<Rightarrow> hm_put var val vars | None \<Rightarrow> vars) SAFE_ENV_VARS []"
    using assms by (intro fold_cong) (auto simp: list_all_iff)
  then show ?thesis by (simp add: process_vars_def)
qed

lemma execute_command_other_vars:
  assumes "list_all (\<lambda>x. f x = sh_var env x) SAFE_ENV_VARS"
  shows "execute_command (env\<lparr>sh_var := f\<rparr>) t cmd dir n extra_env = execute_command env t cmd dir n extra_env"
proof -
  have vars: "process_vars (env\<lparr>sh_var := f\<rparr>) extra_env = process_vars env extra_env"
    using assms by (intro process_vars_cong) simp
  have fields: "sh_spawn (env\<lparr>sh_var := f\<rparr>) = sh_spawn env" "sh_process (env\<lparr>sh_var := f\<rparr>) = sh_process env"
    "sh_sandbox (env\<lparr>sh_var := f\<rparr>) = sh_sandbox env" "sh_lossy (env\<lparr>sh_var := f\<rparr>) = sh_lossy env"
    "sh_current_dir (env\<lparr>sh_var := f\<rparr>) = sh_current_dir env"
    by simp_all
  show ?thesis
    unfolding execute_command_def execute_direct_def execute_sandboxed_def combine_output_def vars fields ..
qed

lemma put_all_get:
  "hm_get (fold (\<lambda>(k, v). hm_put k v) kvs m) x = (case map_of (rev kvs) x of Some v \<Rightarrow> Some v | None \<Rightarrow> hm_get m x)"
proof (induction kvs arbitrary: m)
  case (Cons kv kvs)
  then show ?case by (cases kv) (auto simp: map_add_def split: option.splits)
qed simp

lemma put_set_get:
  "hm_get (fold (\<lambda>var vars. case g var of Some val \<Rightarrow> hm_put var val vars | None \<Rightarrow> vars) xs m) x =
     (if x \<in> set xs \<and> g x \<noteq> None then g x else hm_get m x)"
proof (induction xs arbitrary: m)
  case (Cons y xs)
  then show ?case by (cases "g y") auto
qed simp

lemma process_vars_get:
  "hm_get (process_vars env extra_env) x =
     (case map_of (rev extra_env) x of
        Some v \<Rightarrow> Some v
      | None \<Rightarrow> if x \<in> set SAFE_ENV_VARS then sh_var env x else None)"
proof -
  have "hm_get [] x = None" by (simp add: hm_get_def)
  then show ?thesis by (auto simp: process_vars_def put_all_get put_set_get split: option.splits)
qed

lemma shell_execute_runs:
  "\<exists>cmd dir n. fst (shell_execute env json_of_int t params extra_env) = [] \<or>
     fst (shell_execute env json_of_int t params extra_env) = fst (execute_command env t cmd dir n extra_env)"
proof (cases "require_str params ''command''")
  case (Inr cmd)
  define r where "r = execute_command env t cmd (Option.bind (json_get ''workdir'' params) as_str)
      (Option.bind (json_get ''timeout'' params) as_u64) extra_env"
  have "fst (shell_execute env json_of_int t params extra_env) = fst r"
    by (cases r; cases "snd r") (auto simp: shell_execute_def Inr Let_def simp flip: r_def)
  then show ?thesis unfolding r_def by blast
qed (simp add: shell_execute_def)

lemma execute_command_runs:
  "list_all (\<lambda>r. run_cmd r = cmd \<and> shell_is_blocked t cmd = None \<and> detect_command_injection cmd = None \<and>
       is_sandbox_run r = (st_sandbox t = Some True) \<and>
       run_variables r \<subseteq> set SAFE_ENV_VARS \<union> fst ` set extra_env)
     (fst (execute_command env t cmd workdir timeout extra_env))"
  using process_vars_keys[of env extra_env]
  by (simp add: execute_command_def execute_sandboxed_def execute_direct_def Let_def split: option.split)

section \<open>Properties\<close>

text \<open>
  In a command that is made of two by a pipe, an ampersand or a semicolon, the risk is high exactly when it is
  for one of the two: a command that must always be approved is found at any place of a chain.
\<close>

theorem chain_risk_high:
  assumes "is_separator c"
  shows "classify_command_risk (a @ c # b) = RiskHigh \<longleftrightarrow>
    classify_command_risk a = RiskHigh \<or> classify_command_risk b = RiskHigh"
  unfolding classify_high_iff command_segments_append[OF assms] by auto

theorem chain_risk_high_witness:
  "classify_command_risk (''cat log '' @ CHR ''|'' # '' sudo tee x'') = RiskHigh \<longleftrightarrow>
   classify_command_risk ''cat log '' = RiskHigh \<or> classify_command_risk '' sudo tee x'' = RiskHigh"
  by (rule chain_risk_high) (simp add: is_separator_def)

text \<open>
  A line break does not separate commands for the classification, although the shell runs the next line:
  whatever follows \<open>ls\<close> and a line break is of low risk and can be approved for the whole session.
\<close>

theorem line_break_hides_command:
  assumes "list_all (\<lambda>c. \<not> is_separator c) rest"
  shows "classify_command_risk (''ls'' @ newline # rest) = RiskLow \<and>
    shell_requires_approval from_str (shell_params (''ls'' @ newline # rest)) = UnlessAutoApproved"
proof -
  have "split_on is_separator (''ls'' @ newline # rest) = [''ls'' @ newline # rest]"
    using assms by (intro split_on_word) (auto simp: list_all_iff is_separator_def)
  moreover obtain r where "trim (''ls'' @ newline # rest) = ''ls'' @ r" "r = [] \<or> hd r = newline"
    using trim_ls by blast
  ultimately have "classify_command_risk (''ls'' @ newline # rest) = RiskLow"
    using segment_risk_ls by (simp add: classify_command_risk_def command_segments_def)
  then show ?thesis
    by (simp add: shell_requires_approval_def shell_risk_level_for_def extract_command_param_def shell_params_def
        json_get_def as_str_def)
qed

theorem line_break_hides_command_witness:
  "classify_command_risk (''ls'' @ newline # ''rm -rf .'') = RiskLow \<and>
   shell_requires_approval (\<lambda>_. Inl []) (shell_params (''ls'' @ newline # ''rm -rf .'')) = UnlessAutoApproved"
  by (rule line_break_hides_command) (simp add: is_separator_def)



text \<open>
  Commands are compared in lower case with the blocked patterns, so the one that has a capital letter never
  matches, and the command it is meant to block is run.
\<close>

theorem capital_pattern_never_blocks:
  "\<not> str_contains ''chmod -R 777 /'' (to_lower cmd) \<and>
   fst (execute_command env (shell_tool_new\<lparr>st_sandbox := Some True\<rparr>) ''chmod -R 777 /'' (Some d) (Some n) extra_env) =
     [SandboxRun ''chmod -R 777 /'' d n]"
proof
  have "CHR ''R'' \<notin> set (to_lower cmd)"
    unfolding to_lower_def set_map using lower_char_not_upper by blast
  then show "\<not> str_contains ''chmod -R 777 /'' (to_lower cmd)"
    using set_mono_sublist[of "''chmod -R 777 /''" "to_lower cmd"] by (auto simp: str_contains_def)
  have "shell_is_blocked (shell_tool_new\<lparr>st_sandbox := Some True\<rparr>) ''chmod -R 777 /'' = None" by code_simp
  moreover have "detect_command_injection ''chmod -R 777 /'' = None" by code_simp
  ultimately show "fst (execute_command env (shell_tool_new\<lparr>st_sandbox := Some True\<rparr>) ''chmod -R 777 /'' (Some d) (Some n) extra_env) =
     [SandboxRun ''chmod -R 777 /'' d n]"
    by (simp add: execute_command_def execute_sandboxed_def Let_def)
qed

text \<open>
  A tool whose sandbox is configured but neither initialized nor enabled runs the command as a process, and its
  result says that it was sandboxed.
\<close>

theorem direct_run_called_sandboxed:
  assumes "st_sandbox t = Some False"
    and "shell_execute env json_of_int t params extra_env = (runs, Inr result)"
  shows "list_all (\<lambda>r. \<not> is_sandbox_run r) runs \<and> json_get ''sandboxed'' result = Some (JBool True)"
proof -
  obtain cmd where cmd: "require_str params ''command'' = Inr cmd"
    using assms(2) by (cases "require_str params ''command''") (auto simp: shell_execute_def)
  define r where "r = execute_command env t cmd (Option.bind (json_get ''workdir'' params) as_str)
      (Option.bind (json_get ''timeout'' params) as_u64) extra_env"
  obtain out exit_code where r: "r = (runs, Inr (out, exit_code))"
      and result: "result = JObject [(''exit_code'', json_of_int exit_code), (''output'', JString out),
        (''sandboxed'', JBool True), (''success'', JBool (exit_code = 0))]"
    using assms cmd by (cases r; cases "snd r") (auto simp: shell_execute_def Let_def simp flip: r_def)
  have "list_all (\<lambda>r. \<not> is_sandbox_run r) (fst r)"
    using execute_command_runs[of cmd t extra_env env] assms(1) unfolding r_def list_all_iff by (metis option.inject)
  then show ?thesis using r result by (simp add: json_get_def)
qed

theorem direct_run_called_sandboxed_witness:
  "\<exists>runs result. shell_execute sample_shell_env (\<lambda>_. JNull) (shell_tool_new\<lparr>st_sandbox := Some False\<rparr>) (shell_params ''ls'') [] = (runs, Inr result) \<and>
     list_all (\<lambda>r. \<not> is_sandbox_run r) runs \<and> json_get ''sandboxed'' result = Some (JBool True)"
proof -
  have "shell_is_blocked (shell_tool_new\<lparr>st_sandbox := Some False\<rparr>) ''ls'' = None" by code_simp
  moreover have "detect_command_injection ''ls'' = None" by code_simp
  ultimately obtain runs result where
    e: "shell_execute sample_shell_env (\<lambda>_. JNull) (shell_tool_new\<lparr>st_sandbox := Some False\<rparr>) (shell_params ''ls'') [] = (runs, Inr result)"
    by (simp add: shell_execute_def shell_params_def require_str_def json_get_def as_str_def execute_command_def
        execute_direct_def sample_shell_env_def Let_def)
  have "st_sandbox (shell_tool_new\<lparr>st_sandbox := Some False\<rparr>) = Some False" by simp
  from direct_run_called_sandboxed[OF this e] e show ?thesis by blast
qed

end
