(* ===== verification/Path_Utils.thy ===== *)
theory Path_Utils
  imports Tool_Registry
begin

text \<open>
  The check of paths, \<open>src/tools/builtin/path_utils.rs\<close>, on the paths of \<open>std::path\<close> for Unix. A path is its
  bytes; \<open>path_components\<close> reads it as the iterator \<open>components\<close> does, and paths are compared by their
  components. What the operating system answers is the record \<open>file_system\<close>.
\<close>

section \<open>Paths\<close>

datatype component = RootDir | CurDir | ParentDir | Normal string

definition path_is_absolute :: "string \<Rightarrow> bool" where
  "path_is_absolute p = starts_with ''/'' p"

definition path_parts :: "string \<Rightarrow> string list" where
  "path_parts p = filter (\<lambda>w. w \<noteq> []) (split_on (\<lambda>c. c = CHR ''/'') p)"

fun part_component :: "string \<Rightarrow> component list" where
  "part_component w = (if w = ''.'' then [] else if w = ''..'' then [ParentDir] else [Normal w])"

text \<open>A dot is a component only at the start of a relative path.\<close>

definition path_components :: "string \<Rightarrow> component list" where
  "path_components p =
     (if path_is_absolute p then [RootDir]
      else (case path_parts p of w # _ \<Rightarrow> if w = ''.'' then [CurDir] else [] | [] \<Rightarrow> [])) @
     concat (map part_component (path_parts p))"

fun component_str :: "component \<Rightarrow> string" where
  "component_str RootDir = ''/''"
| "component_str CurDir = ''.''"
| "component_str ParentDir = ''..''"
| "component_str (Normal n) = n"

definition path_join :: "string \<Rightarrow> string \<Rightarrow> string" where
  "path_join base p =
     (if path_is_absolute p then p
      else if base = [] \<or> last base = CHR ''/'' then base @ p
      else base @ ''/'' @ p)"

definition path_collect :: "component list \<Rightarrow> string" where
  "path_collect cs = foldl path_join [] (map component_str cs)"

definition path_file_name :: "string \<Rightarrow> string option" where
  "path_file_name p =
     (case rev (path_components p) of Normal n # _ \<Rightarrow> Some n | _ \<Rightarrow> None)"

text \<open>The parent, for a path without empty or dot parts: the text without its last component.\<close>

definition path_parent :: "string \<Rightarrow> string option" where
  "path_parent p =
     (case rev (path_components p) of
        [] \<Rightarrow> None
      | RootDir # _ \<Rightarrow> None
      | _ # cs \<Rightarrow> Some (path_collect (rev cs)))"

definition path_starts_with :: "string \<Rightarrow> string \<Rightarrow> bool" where
  "path_starts_with base p = prefix (path_components base) (path_components p)"

section \<open>The check\<close>

record file_system =
  fs_canonicalize :: "string \<Rightarrow> string option"
  fs_exists :: "string \<Rightarrow> bool"
  fs_current_dir :: "string option"

fun normalize_step :: "component list \<Rightarrow> component \<Rightarrow> component list" where
  "normalize_step cs ParentDir =
     (case rev cs of Normal _ # _ \<Rightarrow> butlast cs | _ \<Rightarrow> cs)"
| "normalize_step cs CurDir = cs"
| "normalize_step cs c = cs @ [c]"

definition normalize_lexical :: "string \<Rightarrow> string" where
  "normalize_lexical p = path_collect (foldl normalize_step [] (path_components p))"

definition has_encoded_separator :: "string \<Rightarrow> bool" where
  "has_encoded_separator path =
     (let lower = to_lower path
      in str_contains ''%2e'' lower \<or> str_contains ''%2f'' lower \<or> str_contains ''%5c'' lower)"

definition is_path_safe_basic :: "string \<Rightarrow> bool" where
  "is_path_safe_basic path =
     (\<not> str_contains ''..'' path \<and> CHR 0x00 \<notin> set path \<and> \<not> has_encoded_separator path)"

definition is_path_safe_minimal :: "string \<Rightarrow> bool" where
  "is_path_safe_minimal path = (CHR 0x00 \<notin> set path \<and> \<not> has_encoded_separator path)"

definition canonical_or :: "'a file_system_scheme \<Rightarrow> string \<Rightarrow> string \<Rightarrow> string" where
  "canonical_or fs p alt = (case fs_canonicalize fs p of Some q \<Rightarrow> q | None \<Rightarrow> alt)"

definition resolve_path :: "'a file_system_scheme \<Rightarrow> string \<Rightarrow> string option \<Rightarrow> string" where
  "resolve_path fs path base_dir =
     (if path_is_absolute path then canonical_or fs path (normalize_lexical path)
      else
        (case base_dir of
           Some base \<Rightarrow>
             (let joined = path_join base path in canonical_or fs joined (normalize_lexical joined))
         | None \<Rightarrow>
             normalize_lexical (path_join (case fs_current_dir fs of Some d \<Rightarrow> d | None \<Rightarrow> ''.'') path)))"

text \<open>
  The walk to the nearest ancestor that exists, with the names that were passed. An ancestor is given by the
  reverse of its components.
\<close>

fun check_ancestor :: "'a file_system_scheme \<Rightarrow> string \<Rightarrow> component list \<Rightarrow> string list \<Rightarrow> string" where
  "check_ancestor fs resolved rcs tail_parts =
     (let ancestor = path_collect (rev rcs)
      in if fs_exists fs ancestor
         then foldl path_join (canonical_or fs ancestor ancestor) (rev tail_parts)
         else
           (case rcs of
              [] \<Rightarrow> resolved
            | RootDir # _ \<Rightarrow> resolved
            | Normal n # rcs' \<Rightarrow> check_ancestor fs resolved rcs' (tail_parts @ [n])
            | _ # rcs' \<Rightarrow> check_ancestor fs resolved rcs' tail_parts))"

definition check_path :: "'a file_system_scheme \<Rightarrow> string \<Rightarrow> string" where
  "check_path fs resolved =
     (if fs_exists fs resolved then canonical_or fs resolved resolved
      else check_ancestor fs resolved (rev (path_components resolved)) [])"

definition base_canonical :: "'a file_system_scheme \<Rightarrow> string \<Rightarrow> string" where
  "base_canonical fs base = canonical_or fs base (normalize_lexical base)"

definition validate_path :: "'a file_system_scheme \<Rightarrow> string \<Rightarrow> string option \<Rightarrow> (tool_error, string) result" where
  "validate_path fs path_str base_dir =
     (if \<not> is_path_safe_minimal path_str
      then Inl (NotAuthorized (''Path contains forbidden characters or sequences: '' @ path_str))
      else
        (let resolved = resolve_path fs path_str base_dir
         in case base_dir of
              Some base \<Rightarrow>
                (if \<not> path_starts_with (base_canonical fs base) (check_path fs resolved)
                 then Inl (NotAuthorized (''Path escapes sandbox: '' @ path_str))
                 else Inr resolved)
            | None \<Rightarrow> Inr resolved))"

subsection \<open>A sample file system\<close>

text \<open>One empty directory.\<close>

definition sample_fs :: "string \<Rightarrow> file_system" where
  "sample_fs d =
     \<lparr>fs_canonicalize = (\<lambda>p. if p = d then Some d else None), fs_exists = (\<lambda>p. p = d), fs_current_dir = None\<rparr>"

section \<open>Lemmas\<close>

subsection \<open>Texts and components\<close>

fun is_normal :: "component \<Rightarrow> bool" where
  "is_normal (Normal n) = (n \<noteq> [] \<and> CHR ''/'' \<notin> set n \<and> n \<noteq> ''.'' \<and> n \<noteq> ''..'')"
| "is_normal _ = False"

text \<open>Paths that \<open>normalize_lexical\<close> builds: a root perhaps, then names.\<close>

definition lexical :: "component list \<Rightarrow> bool" where
  "lexical cs = list_all is_normal (case cs of RootDir # r \<Rightarrow> r | _ \<Rightarrow> cs)"


definition plain_name :: "string \<Rightarrow> bool" where
  "plain_name n = (n \<noteq> [] \<and> CHR ''/'' \<notin> set n \<and> n \<noteq> ''.'' \<and> n \<noteq> ''..'')"

lemma is_normal_iff: "is_normal c \<longleftrightarrow> (\<exists>n. c = Normal n \<and> plain_name n)"
  by (cases c) (auto simp: plain_name_def)

lemma lexical_cases:
  "lexical cs \<longleftrightarrow> (\<exists>ns. list_all plain_name ns \<and> (cs = map Normal ns \<or> cs = RootDir # map Normal ns))"
proof -
  have "r = map Normal (map component_str r) \<and> list_all plain_name (map component_str r)" if "list_all is_normal r" for r
    using that by (induction r) (auto simp: is_normal_iff)
  moreover have "list_all is_normal (map Normal ns)" if "list_all plain_name ns" for ns
    using that by (induction ns) (auto simp: is_normal_iff)
  ultimately have "list_all is_normal r \<longleftrightarrow> (\<exists>ns. list_all plain_name ns \<and> r = map Normal ns)" for r by metis
  then show ?thesis unfolding lexical_def by (auto split: list.splits component.splits)
qed

lemma join_names:
  assumes "list_all plain_name ns" "acc \<noteq> []" "last acc \<noteq> CHR ''/''"
  shows "foldl path_join acc ns = acc @ concat (map (\<lambda>n. ''/'' @ n) ns)"
  using assms
proof (induction ns arbitrary: acc)
  case (Cons n ns)
  have n: "n \<noteq> []" "CHR ''/'' \<notin> set n" using Cons.prems(1) by (auto simp: plain_name_def)
  then have "path_join acc n = acc @ ''/'' @ n"
    using Cons.prems by (cases n) (auto simp: path_join_def path_is_absolute_def starts_with_def)
  moreover have "last (acc @ ''/'' @ n) \<noteq> CHR ''/''" using n by (metis append_is_Nil_conv last_appendR last_in_set)
  ultimately show ?case using Cons.IH[of "acc @ ''/'' @ n"] Cons.prems(1) by simp
qed simp

lemma str_join_names: "str_join ''/'' (n # ns) = n @ concat (map (\<lambda>n. ''/'' @ n) ns)"
  by (induction ns arbitrary: n) auto

lemma plain_not_absolute: "plain_name n \<Longrightarrow> \<not> path_is_absolute n"
  by (cases n) (auto simp: plain_name_def path_is_absolute_def starts_with_def)

lemma plain_last: "plain_name n \<Longrightarrow> last n \<noteq> CHR ''/''"
  unfolding plain_name_def by (metis last_in_set)

lemma collect_relative: "list_all plain_name ns \<Longrightarrow> path_collect (map Normal ns) = str_join ''/'' ns"
proof (cases ns)
  case (Cons n r)
  assume *: "list_all plain_name ns"
  then have "path_join [] n = n" using Cons by (simp add: path_join_def plain_not_absolute)
  then show ?thesis
    using * Cons join_names[of r n] by (simp add: path_collect_def str_join_names plain_last comp_def plain_name_def)
qed (simp add: path_collect_def)

lemma collect_absolute: "list_all plain_name ns \<Longrightarrow> path_collect (RootDir # map Normal ns) = ''/'' @ str_join ''/'' ns"
proof (cases ns)
  case (Cons n r)
  assume *: "list_all plain_name ns"
  then have "path_join ''/'' n = ''/'' @ n" using Cons by (simp add: path_join_def plain_not_absolute)
  moreover have "path_join [] ''/'' = ''/''" by (simp add: path_join_def path_is_absolute_def starts_with_def)
  moreover have "last (''/'' @ n) \<noteq> CHR ''/''" using * Cons plain_last[of n] by (simp add: plain_name_def)
  ultimately show ?thesis
    using * Cons join_names[of r "''/'' @ n"] by (simp add: path_collect_def str_join_names comp_def)
qed (simp add: path_collect_def path_join_def path_is_absolute_def starts_with_def)

lemma path_parts_names: "list_all plain_name ns \<Longrightarrow> path_parts (str_join ''/'' ns) = ns"
proof (cases "ns = []")
  case False
  assume *: "list_all plain_name ns"
  then have "split_on (\<lambda>c. c = CHR ''/'') (str_join ''/'' ns) = ns"
    using False by (intro split_on_join) (auto simp: list_all_iff plain_name_def)
  then show ?thesis using * by (simp add: path_parts_def list_all_iff plain_name_def)
qed (simp add: path_parts_def)

lemma part_components_plain: "list_all plain_name ns \<Longrightarrow> concat (map part_component ns) = map Normal ns"
  by (induction ns) (auto simp: plain_name_def)

text \<open>The text of normal components is read back as the same components.\<close>

lemma components_collect: "lexical cs \<Longrightarrow> path_components (path_collect cs) = cs"
proof -
  assume "lexical cs"
  then obtain ns where ns: "list_all plain_name ns" and "cs = map Normal ns \<or> cs = RootDir # map Normal ns"
    unfolding lexical_cases by blast
  then consider (rel) "cs = map Normal ns" | (abs) "cs = RootDir # map Normal ns" by blast
  then show ?thesis
  proof cases
    case rel
    have "\<not> path_is_absolute (str_join ''/'' ns)"
      using ns by (cases ns; cases "hd ns")
        (auto simp: path_is_absolute_def starts_with_def str_join_names plain_name_def)
    moreover have "(case ns of w # _ \<Rightarrow> if w = ''.'' then [CurDir] else [] | [] \<Rightarrow> []) = []"
      using ns by (cases ns) (auto simp: plain_name_def)
    ultimately show ?thesis
      using ns rel by (simp add: path_components_def collect_relative path_parts_names part_components_plain)
  next
    case abs
    have "path_parts (''/'' @ str_join ''/'' ns) = ns"
      using path_parts_names[OF ns] by (simp add: path_parts_def)
    then show ?thesis
      using ns abs by (simp add: path_components_def collect_absolute part_components_plain path_is_absolute_def starts_with_def)
  qed
qed

subsection \<open>Normalization\<close>

lemma part_components_kinds:
  assumes "c \<in> set (concat (map part_component (path_parts p)))"
  shows "is_normal c \<or> c = ParentDir"
proof -
  obtain w where w: "w \<in> set (path_parts p)" "c \<in> set (part_component w)" using assms
    by (auto simp del: part_component.simps)
  then have "w \<noteq> []" "CHR ''/'' \<notin> set w"
    using split_on_pieces[of w "\<lambda>c. c = CHR ''/''" p "CHR ''/''"] by (auto simp: path_parts_def)
  then show ?thesis using w(2) by (auto split: if_splits)
qed

lemma lexical_snoc: "lexical cs \<Longrightarrow> is_normal c \<Longrightarrow> lexical (cs @ [c])"
  by (cases cs) (auto simp: lexical_def split: component.splits list.splits)

lemma lexical_butlast: "lexical (cs @ [c]) \<Longrightarrow> is_normal c \<Longrightarrow> lexical cs"
  by (cases cs) (auto simp: lexical_def split: component.splits list.splits)

lemma lexical_step: "lexical cs \<Longrightarrow> is_normal c \<or> c = ParentDir \<Longrightarrow> lexical (normalize_step cs c)"
proof (cases c)
  case ParentDir
  assume lex: "lexical cs"
  show ?thesis
  proof (cases "rev cs")
    case (Cons d r)
    then have cs: "cs = rev r @ [d]" by (metis rev.simps(2) rev_swap)
    then have "is_normal d" if "d = Normal n" for n
      using lex that cs by (cases "rev r"; cases "hd (rev r)") (auto simp: lexical_def)
    then show ?thesis using lex ParentDir cs lexical_butlast[of "rev r" d] by (cases d) auto
  qed (use ParentDir lex in simp)
qed (auto simp: lexical_snoc)

lemma lexical_fold:
  "list_all (\<lambda>c. is_normal c \<or> c = ParentDir) cs \<Longrightarrow> lexical acc \<Longrightarrow> lexical (foldl normalize_step acc cs)"
  by (induction cs arbitrary: acc) (auto simp: lexical_step)

lemma lexical_normalize: "lexical (foldl normalize_step [] (path_components p))"
proof -
  have k: "list_all (\<lambda>c. is_normal c \<or> c = ParentDir) (concat (map part_component (path_parts p)))"
    using part_components_kinds by (auto simp: list_all_iff)
  have "lexical []" "lexical [RootDir]" by (simp_all add: lexical_def)
  then show ?thesis
    using lexical_fold[OF k, of "[]"] lexical_fold[OF k, of "[RootDir]"]
    by (auto simp: path_components_def split: list.splits)
qed

lemma normalize_names: "list_all plain_name ns \<Longrightarrow> foldl normalize_step acc (map Normal ns) = acc @ map Normal ns"
  by (induction ns arbitrary: acc) auto

lemma normalize_fold_lexical: "lexical cs \<Longrightarrow> foldl normalize_step [] cs = cs"
  by (auto simp: lexical_cases normalize_names)

lemma root_kept: "\<exists>ys. foldl normalize_step (RootDir # xs) cs = RootDir # ys"
proof (induction cs arbitrary: xs)
  case (Cons c cs)
  have "\<exists>zs. normalize_step (RootDir # xs) c = RootDir # zs"
    by (cases c; cases xs rule: rev_cases) (auto split: component.splits list.splits)
  then show ?case using Cons by auto
qed simp

lemma absolute_lexical:
  assumes "path_is_absolute p"
  obtains ns where "foldl normalize_step [] (path_components p) = RootDir # map Normal ns" "list_all plain_name ns"
proof -
  obtain ys where "foldl normalize_step [] (path_components p) = RootDir # ys"
    using assms root_kept[of "[]"] by (auto simp: path_components_def)
  then show ?thesis using lexical_normalize[of p] that by (auto simp: lexical_cases)
qed

lemma components_normalize: "path_components (normalize_lexical p) = foldl normalize_step [] (path_components p)"
  by (simp add: normalize_lexical_def components_collect lexical_normalize)

lemma normalize_collect: "lexical cs \<Longrightarrow> normalize_lexical (path_collect cs) = path_collect cs"
  by (simp add: normalize_lexical_def components_collect normalize_fold_lexical)


lemma lexical_components: "lexical (path_components (normalize_lexical p))"
  by (simp add: components_normalize lexical_normalize)

lemma normalize_idem: "normalize_lexical (normalize_lexical p) = normalize_lexical p"
  using normalize_collect[OF lexical_normalize, of p] by (simp add: normalize_lexical_def)

subsection \<open>The check\<close>

lemma canonical_or_lexical:
  assumes "\<And>q r. path_is_absolute q \<Longrightarrow> fs_canonicalize fs q = Some r \<Longrightarrow> r = normalize_lexical q"
    and "path_is_absolute q"
  shows "canonical_or fs q (normalize_lexical q) = normalize_lexical q"
  using assms by (simp add: canonical_or_def split: option.splits)

lemma collect_is_absolute: "list_all plain_name ns \<Longrightarrow> path_is_absolute (path_collect (RootDir # map Normal ns))"
  by (simp add: collect_absolute path_is_absolute_def starts_with_def)

lemma check_ancestor_lexical:
  assumes canon: "\<And>q r. path_is_absolute q \<Longrightarrow> fs_canonicalize fs q = Some r \<Longrightarrow> r = normalize_lexical q"
    and "list_all plain_name (ns @ rev ts)"
  shows "check_ancestor fs (path_collect (RootDir # map Normal (ns @ rev ts))) (rev (map Normal ns) @ [RootDir]) ts =
    path_collect (RootDir # map Normal (ns @ rev ts))"
  using assms(2)
proof (induction "length ns" arbitrary: ns ts)
  case 0
  have "canonical_or fs ''/'' ''/'' = ''/''"
    using canon[of "''/''"] normalize_collect[of "[RootDir]"]
    by (auto simp: canonical_or_def path_collect_def path_join_def path_is_absolute_def starts_with_def lexical_def
        split: option.splits)
  then show ?case using 0 by (simp add: path_collect_def path_join_def path_is_absolute_def starts_with_def Let_def comp_def)
next
  case (Suc k)
  then obtain ms n where ns: "ns = ms @ [n]" by (metis length_Suc_conv_rev)
  let ?a = "path_collect (RootDir # map Normal ns)"
  have abs: "path_is_absolute ?a" "lexical (RootDir # map Normal ns)"
    using Suc.prems collect_is_absolute[of ns] by (auto simp: lexical_cases)
  then have "canonical_or fs ?a ?a = ?a"
    using canonical_or_lexical[of fs ?a] canon by (simp add: normalize_collect)
  then have hit: "foldl path_join (canonical_or fs ?a ?a) (rev ts) = path_collect (RootDir # map Normal (ns @ rev ts))"
    by (simp add: path_collect_def comp_def)
  have "check_ancestor fs (path_collect (RootDir # map Normal (ms @ rev (ts @ [n])))) (rev (map Normal ms) @ [RootDir]) (ts @ [n]) =
      path_collect (RootDir # map Normal (ms @ rev (ts @ [n])))"
    using Suc ns by (intro Suc.hyps(1)) auto
  then show ?case
    using hit ns by (subst check_ancestor.simps) (simp add: Let_def del: check_ancestor.simps)
qed

section \<open>Properties\<close>

text \<open>
  Lexical normalization leaves no component for the current or the parent directory, whatever the path is,
  and changes nothing when it is done again.
\<close>

theorem normalize_lexical_normal:
  "lexical (path_components (normalize_lexical p)) \<and> normalize_lexical (normalize_lexical p) = normalize_lexical p"
  by (simp add: lexical_components normalize_idem)

text \<open>
  C21. On a file system without links, where the canonical form of an absolute path is its lexical
  normalization, a path that is accepted for an absolute base directory lies in that directory.
\<close>

theorem validated_path_in_base:
  assumes canon: "\<And>q r. path_is_absolute q \<Longrightarrow> fs_canonicalize fs q = Some r \<Longrightarrow> r = normalize_lexical q"
    and base: "path_is_absolute base"
    and ok: "validate_path fs path (Some base) = Inr p"
  shows "path_starts_with (normalize_lexical base) p \<and> lexical (path_components p)"
proof -
  define j where "j = (if path_is_absolute path then path else path_join base path)"
  have j: "path_is_absolute j"
    using base by (cases base) (auto simp: j_def path_join_def path_is_absolute_def starts_with_def)
  have p: "p = normalize_lexical j"
    using ok canonical_or_lexical[OF canon j]
    by (auto simp: validate_path_def resolve_path_def j_def Let_def split: if_splits)
  have lex: "lexical (path_components p)" using p lexical_components by blast
  obtain ns where ns: "path_components p = RootDir # map Normal ns" "list_all plain_name ns"
    using absolute_lexical[OF j] p by (auto simp: components_normalize)
  have pc: "p = path_collect (RootDir # map Normal ns)"
    using ns p by (metis components_normalize normalize_lexical_def)
  have "check_path fs p = p"
    using check_ancestor_lexical[OF canon, of fs ns "[]"] canonical_or_lexical[OF canon, of fs p] ns pc collect_is_absolute[of ns]
      normalize_idem[of j] p
    by (simp add: check_path_def del: check_ancestor.simps)
  moreover have "base_canonical fs base = normalize_lexical base"
    using canonical_or_lexical[OF canon base] by (simp add: base_canonical_def)
  ultimately show ?thesis
    using ok lex p unfolding validate_path_def Let_def by (auto split: if_splits)
qed


theorem validated_path_in_base_witness:
  "path_starts_with (normalize_lexical ''/w'') ''/w/b.txt'' \<and> lexical (path_components ''/w/b.txt'')"
proof -
  have canon: "r = normalize_lexical q" if "fs_canonicalize (sample_fs ''/w'') q = Some r" for q r
  proof -
    have "normalize_lexical ''/w'' = ''/w''" by code_simp
    then show ?thesis using that by (auto simp: sample_fs_def split: if_splits)
  qed
  have ok: "validate_path (sample_fs ''/w'') ''a/../b.txt'' (Some ''/w'') = Inr ''/w/b.txt''" by code_simp
  have "path_is_absolute ''/w''" by code_simp
  from validated_path_in_base[OF _ this ok] canon show ?thesis by blast
qed

text \<open>
  A name in an existing canonical base directory is accepted when the path has no canonical form and does not
  exist. Both are asked with links followed, so a link whose target is missing is accepted too,
  wherever it points.
\<close>

theorem missing_target_accepted:
  assumes base: "lexical (path_components base)" "base = path_collect (path_components base)"
    and exists: "fs_canonicalize fs base = Some base" "fs_exists fs base"
    and missing: "fs_canonicalize fs (path_join base n) = None" "\<not> fs_exists fs (path_join base n)"
    and n: "plain_name n" "is_path_safe_minimal n"
  shows "validate_path fs n (Some base) = Inr (path_join base n)"
proof -
  let ?cs = "path_components base"
  have lex: "lexical (?cs @ [Normal n])" using base n by (auto simp: is_normal_iff intro: lexical_snoc)
  have j: "path_join base n = path_collect (?cs @ [Normal n])"
    by (subst base(2)) (simp add: path_collect_def)
  have comps: "path_components (path_join base n) = ?cs @ [Normal n]" using lex j by (simp add: components_collect)
  have "normalize_lexical (path_join base n) = path_join base n" using lex j by (simp add: normalize_collect)
  then have r: "resolve_path fs n (Some base) = path_join base n"
    using n missing by (simp add: resolve_path_def plain_not_absolute canonical_or_def Let_def)
  have miss: "\<not> fs_exists fs (path_collect (rev (Normal n # rev ?cs)))" using missing(2) j by simp
  have "check_ancestor fs (path_join base n) (rev ?cs) [n] = path_join base n"
    using exists base(2)[symmetric] by (subst check_ancestor.simps) (simp add: canonical_or_def Let_def)
  then have "check_path fs (path_join base n) = path_join base n"
    using missing(2) comps miss unfolding check_path_def
    by (subst check_ancestor.simps) (simp add: Let_def del: check_ancestor.simps)
  then show ?thesis
    using n r comps exists by (simp add: validate_path_def path_starts_with_def base_canonical_def canonical_or_def)
qed

theorem missing_target_accepted_witness:
  "validate_path (sample_fs ''/w'') ''new.txt'' (Some ''/w'') = Inr (path_join ''/w'' ''new.txt'')"
  by (rule missing_target_accepted) code_simp+

end
