(* ===== verification/File_Tools.thy ===== *)
theory File_Tools
  imports Path_Utils Http_Tool "HOL-Library.Product_Lexorder"
begin

text \<open>
  The file tools, \<open>src/tools/builtin/file.rs\<close>: reading, writing, listing and patching. Each call returns the
  accesses to files that it tried, and its result; a slice of lines that is out of range panics, which is
  the outcome \<open>None\<close>.
\<close>

section \<open>Model\<close>

definition WORKSPACE_FILES :: "string list" where
  "WORKSPACE_FILES = [''HEARTBEAT.md'', ''MEMORY.md'', ''IDENTITY.md'', ''SOUL.md'', ''AGENTS.md'', ''USER.md'', ''README.md'']"

definition is_workspace_path :: "string \<Rightarrow> bool" where
  "is_workspace_path path =
     (let filename = (case path_file_name path of Some n \<Rightarrow> n | None \<Rightarrow> path)
      in filename \<in> set WORKSPACE_FILES \<or> starts_with ''daily/'' path \<or> starts_with ''context/'' path)"

definition MAX_READ_SIZE :: nat where
  "MAX_READ_SIZE = 1024 * 1024"

definition MAX_WRITE_SIZE :: nat where
  "MAX_WRITE_SIZE = 5 * 1024 * 1024"

definition MAX_DIR_ENTRIES :: nat where
  "MAX_DIR_ENTRIES = 500"

record dir_entry =
  de_path :: string
  de_name :: string
  de_metadata :: "(bool \<times> nat) option"

record file_ops = file_system +
  fs_len :: "string \<Rightarrow> (string, nat) result"
  fs_read_to_string :: "string \<Rightarrow> (string, string) result"
  fs_create_dir_all :: "string \<Rightarrow> string option"
  fs_write :: "string \<Rightarrow> string \<Rightarrow> string option"
  fs_read_dir :: "string \<Rightarrow> (string, (string, dir_entry) result list) result"

datatype file_access =
    AccessLen string
  | AccessRead string
  | AccessCreateDirs string
  | AccessWrite string string

definition json_usize :: "nat \<Rightarrow> json" where
  "json_usize n = JNumber (PosInt (of_nat n))"

subsection \<open>Reading\<close>

text \<open>The slice \<open>lines[a..b]\<close>.\<close>

definition slice_lines :: "string list \<Rightarrow> nat \<Rightarrow> nat \<Rightarrow> string list option" where
  "slice_lines ls a b = (if a \<le> b \<and> b \<le> length ls then Some (take (b - a) (drop a ls)) else None)"

definition pad_left :: "nat \<Rightarrow> string \<Rightarrow> string" where
  "pad_left n s = replicate (n - length s) (CHR '' '') @ s"

definition numbered_line :: "nat \<Rightarrow> nat \<Rightarrow> string \<Rightarrow> string" where
  "numbered_line start_line i line =
     pad_left 6 (show_nat (start_line + i + 1)) @ [CHR 0xE2, CHR 0x94, CHR 0x82, CHR '' ''] @ line"

text \<open>The lines that are selected; the sum of two machine words wraps around.\<close>

definition first_line :: "nat \<Rightarrow> nat" where
  "first_line offset = (if offset > 0 then offset - 1 else 0)"

definition end_line :: "nat \<Rightarrow> nat option \<Rightarrow> nat \<Rightarrow> nat" where
  "end_line start_line limit total_lines =
     (case limit of Some lim \<Rightarrow> min ((start_line + lim) mod 2 ^ 64) total_lines | None \<Rightarrow> total_lines)"

definition read_file ::
  "file_ops \<Rightarrow> string option \<Rightarrow> json \<Rightarrow> file_access list \<times> (tool_error, json) result option"
where
  "read_file fs base_dir params =
     (case require_str params ''path'' of
        Inl e \<Rightarrow> ([], Some (Inl e))
      | Inr path_str \<Rightarrow>
          (let offset = (case Option.bind (json_get ''offset'' params) as_u64 of Some n \<Rightarrow> n | None \<Rightarrow> 0);
               limit = Option.bind (json_get ''limit'' params) as_u64
           in case validate_path fs path_str base_dir of
                Inl e \<Rightarrow> ([], Some (Inl e))
              | Inr path \<Rightarrow>
                  (case fs_len fs path of
                     Inl e \<Rightarrow> ([AccessLen path], Some (Inl (ExecutionFailed (''Cannot access file: '' @ e))))
                   | Inr len \<Rightarrow>
                       if len > MAX_READ_SIZE
                       then ([AccessLen path],
                             Some (Inl (ExecutionFailed (''File too large ('' @ show_nat len @ '' bytes). Maximum is '' @
                               show_nat MAX_READ_SIZE @ '' bytes. Use offset/limit for partial reads.''))))
                       else
                         ([AccessLen path, AccessRead path],
                          case fs_read_to_string fs path of
                            Inl e \<Rightarrow> Some (Inl (ExecutionFailed (''Failed to read file: '' @ e)))
                          | Inr content \<Rightarrow>
                              (let lines = str_lines content; total_lines = length lines;
                                   a = first_line offset; b = end_line a limit total_lines
                               in case slice_lines lines a b of
                                    None \<Rightarrow> None
                                  | Some ls \<Rightarrow>
                                      Some (Inr (JObject
                                        [(''content'', JString (str_join [newline] (map (\<lambda>(i, l). numbered_line a i l) (enumerate 0 ls)))),
                                         (''lines_shown'', json_usize (b - a)), (''path'', JString path),
                                         (''total_lines'', json_usize total_lines)])))))))"

subsection \<open>Writing\<close>

definition workspace_refusal :: "string \<Rightarrow> string" where
  "workspace_refusal path_str =
     quoted path_str @ '' is a workspace memory file. Use the memory_write tool instead of write_file. '' @
     ''For HEARTBEAT.md use target='' @ quoted ''heartbeat'' @ '', for MEMORY.md use target='' @ quoted ''memory'' @ ''.''"

definition write_file :: "file_ops \<Rightarrow> string option \<Rightarrow> json \<Rightarrow> file_access list \<times> (tool_error, json) result" where
  "write_file fs base_dir params =
     (case require_str params ''path'' of
        Inl e \<Rightarrow> ([], Inl e)
      | Inr path_str \<Rightarrow>
          if is_workspace_path path_str then ([], Inl (InvalidParameters (workspace_refusal path_str)))
          else
            (case require_str params ''content'' of
               Inl e \<Rightarrow> ([], Inl e)
             | Inr content \<Rightarrow>
                 if length content > MAX_WRITE_SIZE
                 then ([], Inl (InvalidParameters (''Content too large ('' @ show_nat (length content) @
                        '' bytes). Maximum is '' @ show_nat MAX_WRITE_SIZE @ '' bytes.'')))
                 else
                   (case validate_path fs path_str base_dir of
                      Inl e \<Rightarrow> ([], Inl e)
                    | Inr path \<Rightarrow>
                        (let dirs = (case path_parent path of Some d \<Rightarrow> [AccessCreateDirs d] | None \<Rightarrow> []);
                             failed = Option.bind (path_parent path) (fs_create_dir_all fs)
                         in case failed of
                              Some e \<Rightarrow> (dirs, Inl (ExecutionFailed (''Failed to create directories: '' @ e)))
                            | None \<Rightarrow>
                                (dirs @ [AccessWrite path content],
                                 case fs_write fs path content of
                                   Some e \<Rightarrow> Inl (ExecutionFailed (''Failed to write file: '' @ e))
                                 | None \<Rightarrow>
                                     Inr (JObject [(''bytes_written'', json_usize (length content)),
                                       (''path'', JString path), (''success'', JBool True)]))))))"

subsection \<open>Listing\<close>

definition skipped_dirs :: "string list" where
  "skipped_dirs = [''node_modules'', ''target'', ''.git'', ''__pycache__'', ''venv'', ''.venv'']"

text \<open>The division with one decimal, \<open>{:.1}\<close>, of a number of bytes by a unit is a parameter.\<close>

definition format_size :: "(nat \<Rightarrow> nat \<Rightarrow> string) \<Rightarrow> nat \<Rightarrow> string" where
  "format_size ratio bytes =
     (let kb = 1024; mb = kb * 1024; gb = mb * 1024
      in if bytes \<ge> gb then ratio bytes gb @ ''GB''
         else if bytes \<ge> mb then ratio bytes mb @ ''MB''
         else if bytes \<ge> kb then ratio bytes kb @ ''KB''
         else show_nat bytes @ ''B'')"

definition entry_relative :: "string \<Rightarrow> string \<Rightarrow> string" where
  "entry_relative base p =
     (if path_starts_with base p
      then path_collect (drop (length (path_components base)) (path_components p))
      else p)"

definition entry_is_dir :: "dir_entry \<Rightarrow> bool" where
  "entry_is_dir d = (case de_metadata d of Some (is_dir, _) \<Rightarrow> is_dir | None \<Rightarrow> False)"

definition entry_display :: "(nat \<Rightarrow> nat \<Rightarrow> string) \<Rightarrow> string \<Rightarrow> dir_entry \<Rightarrow> string" where
  "entry_display ratio base d =
     (if entry_is_dir d then entry_relative base (de_path d) @ ''/''
      else entry_relative base (de_path d) @ '' ('' @
        format_size ratio (case de_metadata d of Some (_, n) \<Rightarrow> n | None \<Rightarrow> 0) @ '')'')"

text \<open>
  The loop over the entries of a directory. \<open>descend\<close> lists a directory one level deeper; it is missing when
  the listing is not recursive or the depth is used up.
\<close>

fun list_entries ::
  "(dir_entry \<Rightarrow> string) \<Rightarrow> (string \<Rightarrow> string list \<Rightarrow> (tool_error, string list) result) option \<Rightarrow>
   (string, dir_entry) result list \<Rightarrow> string list \<Rightarrow> (tool_error, string list) result"
where
  "list_entries display descend [] entries = Inr entries"
| "list_entries display descend (Inl e # ds) entries = Inl (ExecutionFailed (''Failed to read entry: '' @ e))"
| "list_entries display descend (Inr d # ds) entries =
     (if length entries \<ge> MAX_DIR_ENTRIES then Inr entries
      else
        (let entries1 = entries @ [display d]
         in case descend of
              Some f \<Rightarrow>
                if entry_is_dir d \<and> de_name d \<notin> set skipped_dirs
                then (case f (de_path d) entries1 of
                        Inl e \<Rightarrow> Inl e
                      | Inr entries2 \<Rightarrow> list_entries display descend ds entries2)
                else list_entries display descend ds entries1
            | None \<Rightarrow> list_entries display descend ds entries1))"

definition list_dir_level ::
  "file_ops \<Rightarrow> (dir_entry \<Rightarrow> string) \<Rightarrow> (string \<Rightarrow> string list \<Rightarrow> (tool_error, string list) result) option \<Rightarrow>
   string \<Rightarrow> string list \<Rightarrow> (tool_error, string list) result"
where
  "list_dir_level fs display descend path entries =
     (if length entries \<ge> MAX_DIR_ENTRIES then Inr entries
      else
        (case fs_read_dir fs path of
           Inl e \<Rightarrow> Inl (ExecutionFailed (''Failed to read directory: '' @ e))
         | Inr ds \<Rightarrow> list_entries display descend ds entries))"

text \<open>The first argument is the depth that is left, \<open>max_depth - current_depth\<close>.\<close>

primrec list_dir_inner ::
  "nat \<Rightarrow> file_ops \<Rightarrow> (dir_entry \<Rightarrow> string) \<Rightarrow> bool \<Rightarrow> string \<Rightarrow> string list \<Rightarrow> (tool_error, string list) result"
where
  "list_dir_inner 0 fs display recursive = list_dir_level fs display None"
| "list_dir_inner (Suc n) fs display recursive =
     list_dir_level fs display (if recursive then Some (list_dir_inner n fs display recursive) else None)"

definition entry_order :: "string \<Rightarrow> bool \<times> string" where
  "entry_order s = (\<not> ends_with ''/'' s, s)"

definition list_dir ::
  "file_ops \<Rightarrow> (nat \<Rightarrow> nat \<Rightarrow> string) \<Rightarrow> string option \<Rightarrow> json \<Rightarrow> (tool_error, json) result"
where
  "list_dir fs ratio base_dir params =
     (let path_str = (case Option.bind (json_get ''path'' params) as_str of Some s \<Rightarrow> s | None \<Rightarrow> ''.'');
          recursive = (case json_get ''recursive'' params of Some (JBool b) \<Rightarrow> b | _ \<Rightarrow> False);
          max_depth = (case Option.bind (json_get ''max_depth'' params) as_u64 of Some n \<Rightarrow> n | None \<Rightarrow> 3)
      in case validate_path fs path_str base_dir of
           Inl e \<Rightarrow> Inl e
         | Inr path \<Rightarrow>
             (case list_dir_inner max_depth fs (entry_display ratio path) recursive path [] of
                Inl e \<Rightarrow> Inl e
              | Inr entries \<Rightarrow>
                  (let sorted_entries = sort_key entry_order entries;
                       truncated = length sorted_entries > MAX_DIR_ENTRIES;
                       shown = (if truncated then take MAX_DIR_ENTRIES sorted_entries else sorted_entries)
                   in Inr (JObject [(''count'', json_usize (length shown)), (''entries'', JArray (map JString shown)),
                        (''path'', JString path), (''truncated'', JBool truncated)]))))"

subsection \<open>Patching\<close>

definition replace_all_matches :: "string \<Rightarrow> string \<Rightarrow> string \<Rightarrow> string" where
  "replace_all_matches old new content =
     (if old = [] then new @ concat (map (\<lambda>c. c @ new) (str_chars content)) else str_replace old new content)"

definition count_matches :: "string \<Rightarrow> string \<Rightarrow> nat" where
  "count_matches old content =
     (if old = [] then length (str_chars content) + 1 else length (match_suffixes old content))"

definition replace_one_match :: "string \<Rightarrow> string \<Rightarrow> string \<Rightarrow> string" where
  "replace_one_match old new content =
     (case find_sub old content of
        Some i \<Rightarrow> take i content @ new @ drop (i + length old) content
      | None \<Rightarrow> content)"

definition apply_patch :: "file_ops \<Rightarrow> string option \<Rightarrow> json \<Rightarrow> file_access list \<times> (tool_error, json) result" where
  "apply_patch fs base_dir params =
     (case require_str params ''path'' of
        Inl e \<Rightarrow> ([], Inl e)
      | Inr path_str \<Rightarrow>
          (case require_str params ''old_string'' of
             Inl e \<Rightarrow> ([], Inl e)
           | Inr old_string \<Rightarrow>
               (case require_str params ''new_string'' of
                  Inl e \<Rightarrow> ([], Inl e)
                | Inr new_string \<Rightarrow>
                    (let replace_all = (case json_get ''replace_all'' params of Some (JBool b) \<Rightarrow> b | _ \<Rightarrow> False)
                     in case validate_path fs path_str base_dir of
                          Inl e \<Rightarrow> ([], Inl e)
                        | Inr path \<Rightarrow>
                            (case fs_read_to_string fs path of
                               Inl e \<Rightarrow> ([AccessRead path], Inl (ExecutionFailed (''Failed to read file: '' @ e)))
                             | Inr content \<Rightarrow>
                                 if \<not> str_contains old_string content
                                 then ([AccessRead path],
                                       Inl (ExecutionFailed (''Could not find the specified text in '' @ path @
                                         ''. Make sure old_string matches exactly.'')))
                                 else
                                   (let new_content = (if replace_all then replace_all_matches old_string new_string content
                                                       else replace_one_match old_string new_string content);
                                        replacements = (if replace_all then count_matches old_string content else 1)
                                    in ([AccessRead path, AccessWrite path new_content],
                                        case fs_write fs path new_content of
                                          Some e \<Rightarrow> Inl (ExecutionFailed (''Failed to write file: '' @ e))
                                        | None \<Rightarrow>
                                            Inr (JObject [(''path'', JString path),
                                              (''replacements'', json_usize replacements), (''success'', JBool True)]))))))))"


subsection \<open>Reference definitions\<close>

text \<open>An access whose path was checked against the base directory.\<close>

fun access_confined :: "file_ops \<Rightarrow> string \<Rightarrow> file_access \<Rightarrow> bool" where
  "access_confined fs base (AccessLen p) = path_starts_with (base_canonical fs base) (check_path fs p)"
| "access_confined fs base (AccessRead p) = path_starts_with (base_canonical fs base) (check_path fs p)"
| "access_confined fs base (AccessWrite p content) = path_starts_with (base_canonical fs base) (check_path fs p)"
| "access_confined fs base (AccessCreateDirs d) =
     (\<exists>p. path_parent p = Some d \<and> path_starts_with (base_canonical fs base) (check_path fs p))"

definition read_params :: "string \<Rightarrow> nat \<Rightarrow> json" where
  "read_params path offset = JObject [(''offset'', json_usize offset), (''path'', JString path)]"

text \<open>A file system with a file of two lines and a directory below the root.\<close>

definition sample_file_ops :: file_ops where
  "sample_file_ops =
     \<lparr>fs_canonicalize = (\<lambda>p. if p = ''/f'' \<or> p = ''/'' then Some p else None), fs_exists = (\<lambda>p. p = ''/f'' \<or> p = ''/''),
      fs_current_dir = None,
      fs_len = (\<lambda>p. if p = ''/f'' then Inr 3 else Inl ''not found''),
      fs_read_to_string = (\<lambda>p. if p = ''/f'' then Inr (''a'' @ [newline] @ ''b'') else Inl ''not found''),
      fs_create_dir_all = (\<lambda>_. None), fs_write = (\<lambda>_ _. None),
      fs_read_dir = (\<lambda>p. if p = ''/'' then Inr [Inr \<lparr>de_path = ''/d'', de_name = ''d'', de_metadata = Some (True, 0)\<rparr>]
                        else Inl ''not found'')\<rparr>"

section \<open>Lemmas\<close>

lemma validate_path_checked:
  "validate_path fs path (Some base) = Inr p \<Longrightarrow> path_starts_with (base_canonical fs base) (check_path fs p)"
  by (auto simp: validate_path_def Let_def split: if_splits)

lemma read_file_confined: "list_all (access_confined fs base) (fst (read_file fs (Some base) params))"
  by (auto simp: read_file_def Let_def validate_path_checked split: sum.split)

lemma write_file_confined: "list_all (access_confined fs base) (fst (write_file fs (Some base) params))"
  by (auto simp: write_file_def Let_def validate_path_checked split: sum.split option.split)

lemma apply_patch_confined: "list_all (access_confined fs base) (fst (apply_patch fs (Some base) params))"
  by (simp add: apply_patch_def Let_def validate_path_checked split: sum.split)

text \<open>Every level of a listing keeps the bound on the entries.\<close>

definition bounded_result :: "(tool_error, string list) result \<Rightarrow> bool" where
  "bounded_result r = (case r of Inl _ \<Rightarrow> True | Inr es \<Rightarrow> length es \<le> MAX_DIR_ENTRIES)"

lemma list_entries_bounded:
  assumes "length entries \<le> MAX_DIR_ENTRIES"
    and "\<And>f p es. descend = Some f \<Longrightarrow> length es \<le> MAX_DIR_ENTRIES \<Longrightarrow> bounded_result (f p es)"
  shows "bounded_result (list_entries display descend ds entries)"
  using assms(1)
proof (induction ds arbitrary: entries)
  case (Cons r ds)
  show ?case
  proof (cases r)
    case (Inr d)
    let ?es = "entries @ [display d]"
    show ?thesis
    proof (cases "length entries \<ge> MAX_DIR_ENTRIES")
      case False
      then have es: "length ?es \<le> MAX_DIR_ENTRIES" by simp
      show ?thesis
      proof (cases descend)
        case (Some f)
        have "bounded_result (f (de_path d) ?es)" using assms(2)[OF Some es] .
        then show ?thesis using Cons.IH[OF es] Cons.IH Inr Some False
          by (cases "f (de_path d) ?es") (auto simp: Let_def bounded_result_def[of "Inr _"] bounded_result_def[of "Inl _"])
      qed (use Cons.IH[OF es] Inr False in \<open>simp add: Let_def\<close>)
    qed (use Inr Cons.prems in \<open>simp add: bounded_result_def\<close>)
  qed (simp add: bounded_result_def)
qed (simp add: bounded_result_def)

lemma list_dir_level_bounded:
  assumes "length entries \<le> MAX_DIR_ENTRIES"
    and "\<And>f p es. descend = Some f \<Longrightarrow> length es \<le> MAX_DIR_ENTRIES \<Longrightarrow> bounded_result (f p es)"
  shows "bounded_result (list_dir_level fs display descend path entries)"
  using list_entries_bounded[of entries descend] assms
  by (auto simp: list_dir_level_def bounded_result_def[of "Inl _"] bounded_result_def[of "Inr entries"] split: sum.split)

lemma list_dir_inner_bounded:
  "length entries \<le> MAX_DIR_ENTRIES \<Longrightarrow> bounded_result (list_dir_inner n fs display recursive path entries)"
  by (induction n arbitrary: path entries) (auto intro!: list_dir_level_bounded split: if_splits)

section \<open>Properties\<close>

text \<open>
  C20. With a base directory, whatever the parameters are, the tools that read, write and patch files access only
  paths that were found to be in it after links were resolved; directories are created only above such a path.
\<close>

theorem file_tools_confined:
  "list_all (access_confined fs base)
     (fst (read_file fs (Some base) params) @ fst (write_file fs (Some base) params) @ fst (apply_patch fs (Some base) params))"
  by (simp add: read_file_confined write_file_confined apply_patch_confined)

text \<open>
  Reading from an offset more than one line after the last line of a file panics.
\<close>

theorem read_offset_panics:
  assumes "validate_path fs path base_dir = Inr p" "fs_len fs p = Inr n" "n \<le> MAX_READ_SIZE"
    and "fs_read_to_string fs p = Inr content" "length (str_lines content) + 1 < offset" "offset < 2 ^ 64"
  shows "snd (read_file fs base_dir (read_params path offset)) = None"
  using assms
  by (simp add: read_file_def read_params_def require_str_def json_get_def as_str_def as_u64_def json_usize_def
      unat_of_nat first_line_def end_line_def slice_lines_def Let_def)

theorem read_offset_panics_witness:
  "snd (read_file sample_file_ops (Some ''/'') (read_params ''/f'' 4)) = None"
  by (rule read_offset_panics[where p = "''/f''" and n = 3 and content = "''a'' @ [newline] @ ''b''"])
    (code_simp, simp add: sample_file_ops_def, simp add: MAX_READ_SIZE_def, simp add: sample_file_ops_def, code_simp, simp)

text \<open>
  A listing has at most five hundred entries and never says that it was truncated: the walk stops at the bound
  that the flag compares with.
\<close>

theorem list_dir_never_truncated:
  assumes "list_dir fs ratio base_dir params = Inr v"
  shows "json_get ''truncated'' v = Some (JBool False) \<and>
    (\<exists>es. json_get ''entries'' v = Some (JArray es) \<and> length es \<le> MAX_DIR_ENTRIES)"
proof -
  obtain path entries max_depth recursive where
      run: "list_dir_inner max_depth fs (entry_display ratio path) recursive path [] = Inr entries"
    and v: "v = JObject
        (let sorted_entries = sort_key entry_order entries; truncated = length sorted_entries > MAX_DIR_ENTRIES;
             shown = (if truncated then take MAX_DIR_ENTRIES sorted_entries else sorted_entries)
         in [(''count'', json_usize (length shown)), (''entries'', JArray (map JString shown)),
             (''path'', JString path), (''truncated'', JBool truncated)])"
    using assms by (auto simp: list_dir_def Let_def split: sum.splits)
  have "bounded_result (Inr entries)"
    using list_dir_inner_bounded[of "[]" max_depth fs "entry_display ratio path" recursive path] run by simp
  then show ?thesis using v by (auto simp: bounded_result_def json_get_def)
qed

theorem list_dir_never_truncated_witness:
  "\<exists>v. list_dir sample_file_ops (\<lambda>_ _. []) (Some ''/'') (JObject []) = Inr v \<and> json_get ''truncated'' v = Some (JBool False) \<and>
    (\<exists>es. json_get ''entries'' v = Some (JArray es) \<and> length es \<le> MAX_DIR_ENTRIES)"
proof -
  have "case list_dir sample_file_ops (\<lambda>_ _. []) (Some ''/'') (JObject []) of Inr _ \<Rightarrow> True | Inl _ \<Rightarrow> False" by code_simp
  then obtain v where v: "list_dir sample_file_ops (\<lambda>_ _. []) (Some ''/'') (JObject []) = Inr v" by (auto split: sum.splits)
  from list_dir_never_truncated[OF v] v show ?thesis by blast
qed

text \<open>
  A file of the directory of daily notes is refused by its plain path and written when the path starts with
  a dot, although both name the same file.
\<close>

theorem dot_path_not_workspace:
  assumes "plain_name n" "n \<notin> set WORKSPACE_FILES"
  shows "is_workspace_path (''daily/'' @ n) \<and> \<not> is_workspace_path (''./daily/'' @ n) \<and>
    normalize_lexical (''./daily/'' @ n) = normalize_lexical (''daily/'' @ n)"
proof -
  have word: "split_on (\<lambda>c. c = CHR ''/'') n = [n]" using assms(1) by (intro split_on_word) (auto simp: plain_name_def)
  have parts: "path_parts (''./daily/'' @ n) = [''.'', ''daily'', n]" "path_parts (''daily/'' @ n) = [''daily'', n]"
    using assms(1) word by (simp_all add: path_parts_def plain_name_def)
  then have comps: "path_components (''./daily/'' @ n) = [CurDir, Normal ''daily'', Normal n]"
      "path_components (''daily/'' @ n) = [Normal ''daily'', Normal n]"
    using assms(1) by (simp_all add: path_components_def path_is_absolute_def starts_with_def plain_name_def)
  then show ?thesis
    using assms(2) by (simp add: is_workspace_path_def path_file_name_def starts_with_def normalize_lexical_def)
qed

theorem dot_path_not_workspace_witness:
  "is_workspace_path (''daily/'' @ ''x.md'') \<and> \<not> is_workspace_path (''./daily/'' @ ''x.md'') \<and>
   normalize_lexical (''./daily/'' @ ''x.md'') = normalize_lexical (''daily/'' @ ''x.md'')"
  by (rule dot_path_not_workspace) (simp_all add: plain_name_def WORKSPACE_FILES_def)

end
