(* ===== verification/Chunker.thy ===== *)
theory Chunker
  imports Strings
begin

text \<open>
  Chunking of documents for the search index, \<open>src/workspace/chunker.rs\<close>. The loop may not end for some
  configurations, so it is a partial function whose value is \<open>None\<close> when it does not return.
\<close>

section \<open>Model\<close>

text \<open>The overlap in words, \<open>overlap_size\<close>, is the product of the size and a fraction, both as 32-bit floats.\<close>

record chunk_config =
  cc_size :: nat
  cc_overlap :: nat
  cc_min :: nat

definition default_chunk_config :: chunk_config where
  "default_chunk_config = \<lparr>cc_size = 800, cc_overlap = 120, cc_min = 50\<rparr>"

definition step_size :: "chunk_config \<Rightarrow> nat" where
  "step_size cfg = cc_size cfg - cc_overlap cfg"

text \<open>The words of a document from one position to another.\<close>

definition word_span :: "string list \<Rightarrow> nat \<Rightarrow> nat \<Rightarrow> string list" where
  "word_span ws a b = take (b - a) (drop a ws)"

partial_function (option) chunk_loop :: "chunk_config \<Rightarrow> string list \<Rightarrow> nat \<Rightarrow> string list \<Rightarrow> string list option" where
  "chunk_loop cfg ws start chunks =
     (if \<not> start < length ws then Some chunks
      else
        (let end_pos = min (start + cc_size cfg) (length ws);
             chunk_words = word_span ws start end_pos
         in if length chunk_words < cc_min cfg \<and> chunks \<noteq> []
            then Some (butlast chunks @ [last chunks @ '' '' @ str_join '' '' chunk_words])
            else
              (let chunks1 = chunks @ [str_join '' '' chunk_words];
                   start1 = start + step_size cfg
               in if start1 + cc_min cfg \<ge> length ws \<and> end_pos = length ws then Some chunks1
                  else chunk_loop cfg ws start1 chunks1)))"

definition chunk_document :: "string \<Rightarrow> chunk_config \<Rightarrow> string list option" where
  "chunk_document content cfg =
     (if content = [] then Some []
      else
        (let words = split_whitespace content
         in if words = [] then Some []
            else if length words \<le> cc_size cfg then Some [content]
            else chunk_loop cfg words 0 []))"

section \<open>Lemmas\<close>

lemma split_whitespace_words: "w \<in> set (split_whitespace s) \<Longrightarrow> w \<noteq> [] \<and> list_all (\<lambda>c. \<not> is_ascii_ws c) w"
  using split_on_pieces[of w is_ascii_ws s] by (auto simp: split_whitespace_def list_all_iff)

definition plain_words :: "string list \<Rightarrow> bool" where
  "plain_words ws = list_all (\<lambda>w. w \<noteq> [] \<and> list_all (\<lambda>c. \<not> is_ascii_ws c) w) ws"

lemma plain_split: "plain_words (split_whitespace s)"
  unfolding plain_words_def list_all_iff using split_whitespace_words[unfolded list_all_iff] by blast

lemma space_is_ws: "is_ascii_ws (CHR '' '')"
  by (simp add: is_ascii_ws_def ascii_code_def)

lemma split_whitespace_append: "split_whitespace (a @ '' '' @ b) = split_whitespace a @ split_whitespace b"
proof -
  have "split_on is_ascii_ws (a @ CHR '' '' # b) = split_on is_ascii_ws a @ split_on is_ascii_ws b"
  proof (induction a)
    case (Cons x a)
    then show ?case by (cases "split_on is_ascii_ws a") auto
  qed (simp add: space_is_ws)
  then show ?thesis by (simp add: split_whitespace_def)
qed

lemma split_join_words: "plain_words ws \<Longrightarrow> split_whitespace (str_join '' '' ws) = ws"
proof (induction ws)
  case (Cons w ws)
  have w: "split_whitespace w = [w]"
    using Cons.prems split_on_word[of w is_ascii_ws] by (auto simp: split_whitespace_def plain_words_def list_all_iff)
  show ?case
  proof (cases ws)
    case (Cons v vs)
    then show ?thesis using Cons.IH Cons.prems w split_whitespace_append[of w "str_join '' '' ws"]
      by (simp add: plain_words_def)
  qed (use w in simp)
qed (simp add: split_whitespace_def)

lemma plain_span: "plain_words ws \<Longrightarrow> plain_words (word_span ws a b)"
  unfolding plain_words_def word_span_def list_all_iff by (meson in_set_dropD in_set_takeD)

definition words_before :: "string list \<Rightarrow> nat \<Rightarrow> string set" where
  "words_before ws n = set (take n ws)"

lemma words_before_all: "length ws \<le> n \<Longrightarrow> words_before ws n = set ws"
  by (simp add: words_before_def)

lemma words_before_span: "words_before ws a \<union> set (word_span ws a b) = words_before ws (max a b)"
proof (cases "a \<le> b")
  case True
  have "take b ws = take a ws @ take (b - a) (drop a ws)" using True take_add[of a "b - a" ws] by simp
  then show ?thesis using True by (simp add: words_before_def word_span_def max_def)
qed (simp add: words_before_def word_span_def)

definition chunk_words_of :: "string list \<Rightarrow> string set" where
  "chunk_words_of cs = (\<Union>c\<in>set cs. set (split_whitespace c))"

lemma chunk_words_snoc: "chunk_words_of (cs @ [c]) = chunk_words_of cs \<union> set (split_whitespace c)"
  by (auto simp: chunk_words_of_def)

lemma chunk_words_merge:
  assumes "cs \<noteq> []"
  shows "chunk_words_of (butlast cs @ [last cs @ '' '' @ s]) = chunk_words_of cs \<union> set (split_whitespace s)"
proof -
  have "chunk_words_of cs = chunk_words_of (butlast cs) \<union> set (split_whitespace (last cs))"
    using chunk_words_snoc[of "butlast cs" "last cs"] assms by simp
  then show ?thesis using split_whitespace_append[of "last cs" s] by (auto simp: chunk_words_snoc)
qed

lemma span_chunk: "plain_words ws \<Longrightarrow> set (split_whitespace (str_join '' '' (word_span ws a b))) = set (word_span ws a b)"
  by (simp add: split_join_words plain_span)

lemma words_before_mono: "m \<le> n \<Longrightarrow> words_before ws m \<subseteq> words_before ws n"
  unfolding words_before_def by (rule set_take_subset_set_take)

text \<open>The words before the current position are in the chunks; at the end all of them are.\<close>

lemma chunk_loop_covers:
  assumes step: "0 < step_size cfg" and min: "cc_min cfg \<le> cc_size cfg" and plain: "plain_words ws"
    and inv: "words_before ws start \<subseteq> chunk_words_of chunks" "chunk_words_of chunks \<subseteq> set ws"
  shows "\<exists>cs. chunk_loop cfg ws start chunks = Some cs \<and> chunk_words_of cs = set ws"
  using inv
proof (induction "length ws - start" arbitrary: start chunks rule: less_induct)
  case less
  let ?e = "min (start + cc_size cfg) (length ws)"
  let ?s = "word_span ws start ?e"
  show ?case
  proof (cases "start < length ws")
    case False
    then show ?thesis
      using less.prems words_before_all[of ws start] by (subst chunk_loop.simps) auto
  next
    case True
    have sub: "set ?s \<subseteq> set ws" by (simp add: word_span_def) (meson in_set_dropD in_set_takeD subsetI)
    have cov: "words_before ws ?e \<subseteq> chunk_words_of chunks \<union> set ?s"
      using words_before_span[of ws start ?e] less.prems(1) words_before_mono[of ?e "max start ?e" ws] by auto
    have len: "length ?s = ?e - start" using True by (simp add: word_span_def)
    show ?thesis
    proof (cases "length ?s < cc_min cfg \<and> chunks \<noteq> []")
      case merge: True
      then have "?e = length ws" using len min True by (auto split: if_splits simp: min_def)
      then have "set ws = chunk_words_of chunks \<union> set ?s"
        using cov words_before_all[of ws "length ws"] sub less.prems(2) by auto
      then show ?thesis
        using True merge chunk_words_merge[of chunks "str_join '' '' ?s"] span_chunk[OF plain, of start ?e]
        by (subst chunk_loop.simps) (simp add: Let_def)
    next
      case push: False
      let ?c = "chunks @ [str_join '' '' ?s]"
      have cw: "chunk_words_of ?c = chunk_words_of chunks \<union> set ?s"
        using span_chunk[OF plain, of start ?e] by (simp add: chunk_words_snoc)
      show ?thesis
      proof (cases "start + step_size cfg + cc_min cfg \<ge> length ws \<and> ?e = length ws")
        case stop: True
        then have "set ws = chunk_words_of ?c"
          using cov cw words_before_all[of ws "length ws"] sub less.prems(2) by auto
        moreover have "chunk_loop cfg ws start chunks = Some ?c"
          using True push stop by (subst chunk_loop.simps) (simp only: Let_def if_False if_True not_True_eq_False simp_thms)
        ultimately show ?thesis by simp
      next
        case go: False
        have "start + step_size cfg \<le> start + cc_size cfg" by (simp add: step_size_def)
        then have "words_before ws (start + step_size cfg) \<subseteq> words_before ws ?e"
          unfolding words_before_def by (metis min.absorb_iff2 min.commute set_take_subset_set_take take_all_iff take_take linorder_le_cases)
        then have "\<exists>cs. chunk_loop cfg ws (start + step_size cfg) ?c = Some cs \<and> chunk_words_of cs = set ws"
          using less.hyps[of "start + step_size cfg" ?c] cov cw sub less.prems(2) step True by auto
        moreover have "chunk_loop cfg ws start chunks = chunk_loop cfg ws (start + step_size cfg) ?c"
          using True push go by (subst chunk_loop.simps) (simp only: Let_def if_False if_True not_True_eq_False simp_thms)
        ultimately show ?thesis by simp
      qed
    qed
  qed
qed

section \<open>Properties\<close>

text \<open>
  When the overlap is less than the size of a chunk and the smallest chunk not larger than the size, chunking
  ends, and the words of the chunks are exactly the words of the document.
\<close>

theorem chunks_cover_document:
  assumes "cc_overlap cfg < cc_size cfg" "cc_min cfg \<le> cc_size cfg"
  shows "\<exists>cs. chunk_document content cfg = Some cs \<and>
    (\<Union>c\<in>set cs. set (split_whitespace c)) = set (split_whitespace content)"
proof -
  have "\<exists>cs. chunk_loop cfg (split_whitespace content) 0 [] = Some cs \<and> chunk_words_of cs = set (split_whitespace content)"
    using assms by (intro chunk_loop_covers) (auto simp: step_size_def plain_split words_before_def chunk_words_of_def)
  then show ?thesis
    by (cases "content = []"; cases "split_whitespace content = []")
      (auto simp: chunk_document_def chunk_words_of_def Let_def simp: split_whitespace_def[of "[]"])
qed

theorem chunks_cover_document_witness:
  "\<exists>cs. chunk_document ''a b c d'' \<lparr>cc_size = 2, cc_overlap = 1, cc_min = 1\<rparr> = Some cs \<and>
    (\<Union>c\<in>set cs. set (split_whitespace c)) = set (split_whitespace ''a b c d'')"
  by (rule chunks_cover_document) simp_all

text \<open>
  When the smallest chunk is larger than the size of a chunk, the second chunk is merged into the first and
  the loop ends: what comes after the two is not in the index.
\<close>

theorem small_chunks_drop_words:
  assumes "0 < cc_size cfg" "cc_size cfg < cc_min cfg" "0 < step_size cfg" "step_size cfg + cc_size cfg < length (split_whitespace content)"
  shows "chunk_document content cfg =
    Some [str_join '' '' (take (cc_size cfg) (split_whitespace content)) @ '' '' @
      str_join '' '' (take (cc_size cfg) (drop (step_size cfg) (split_whitespace content)))]"
proof -
  let ?ws = "split_whitespace content"
  have c: "content \<noteq> []" "?ws \<noteq> []" using assms by (auto simp: split_whitespace_def)
  have n: "cc_size cfg < length ?ws" using assms by linarith
  have "chunk_loop cfg ?ws 0 [] = chunk_loop cfg ?ws (step_size cfg) [str_join '' '' (take (cc_size cfg) ?ws)]"
    using assms n c by (subst chunk_loop.simps) (simp add: Let_def word_span_def)
  also have "\<dots> = Some [str_join '' '' (take (cc_size cfg) ?ws) @ '' '' @ str_join '' '' (take (cc_size cfg) (drop (step_size cfg) ?ws))]"
    using assms n by (subst chunk_loop.simps) (simp add: Let_def word_span_def)
  finally show ?thesis using c n by (simp add: chunk_document_def Let_def)
qed

theorem small_chunks_drop_words_witness:
  "chunk_document ''a b c d e'' \<lparr>cc_size = 2, cc_overlap = 0, cc_min = 3\<rparr> = Some [''a b c d'']"
  using small_chunks_drop_words[of "\<lparr>cc_size = 2, cc_overlap = 0, cc_min = 3\<rparr>" "''a b c d e''"]
  by (simp add: step_size_def split_whitespace_def is_ascii_ws_def ascii_code_def)

text \<open>
  When the second chunk reaches the end of the document and the overlap is larger than the smallest chunk, a third
  chunk is made of the overlap alone, all of whose words are in the second one.
\<close>

theorem last_chunk_redundant:
  assumes "cc_min cfg < cc_overlap cfg" "cc_overlap cfg \<le> step_size cfg"
    and "length (split_whitespace content) = step_size cfg + cc_size cfg"
  shows "\<exists>a b. chunk_document content cfg =
    Some [a, str_join '' '' (b @ drop (2 * step_size cfg) (split_whitespace content)),
      str_join '' '' (drop (2 * step_size cfg) (split_whitespace content))]"
proof -
  let ?ws = "split_whitespace content" and ?p = "step_size cfg" and ?z = "cc_size cfg" and ?o = "cc_overlap cfg"
  have z: "?z = ?p + ?o" "0 < ?o" "0 < ?p" "?o \<le> ?p" using assms by (auto simp: step_size_def)
  have n: "length ?ws = 2 * ?p + ?o" using assms(3) z by simp
  have c: "content \<noteq> []" "?ws \<noteq> []" using n z by (auto simp: split_whitespace_def)
  define a where "a = str_join '' '' (take ?z ?ws)"
  define m where "m = str_join '' '' (drop ?p ?ws)"
  have "chunk_loop cfg ?ws 0 [] = chunk_loop cfg ?ws ?p [a]"
    using assms z n by (subst chunk_loop.simps) (auto simp: Let_def word_span_def a_def)
  also have "\<dots> = chunk_loop cfg ?ws (?p + ?p) [a, m]"
    using assms z n by (subst chunk_loop.simps) (auto simp: Let_def word_span_def m_def)
  also have "\<dots> = Some [a, m, str_join '' '' (drop (2 * ?p) ?ws)]"
    using assms z n by (subst chunk_loop.simps) (auto simp: Let_def word_span_def mult_2)
  finally have run: "chunk_document content cfg = Some [a, m, str_join '' '' (drop (2 * ?p) ?ws)]"
    using c n z by (simp add: chunk_document_def Let_def)
  have "drop ?p ?ws = take ?p (drop ?p ?ws) @ drop (2 * ?p) ?ws"
    by (metis append_take_drop_id drop_drop mult_2)
  then show ?thesis using run unfolding m_def by metis
qed

theorem last_chunk_redundant_witness:
  "\<exists>a b. chunk_document ''a b c d e f'' \<lparr>cc_size = 4, cc_overlap = 2, cc_min = 1\<rparr> =
    Some [a, str_join '' '' (b @ drop (2 * step_size \<lparr>cc_size = 4, cc_overlap = 2, cc_min = 1\<rparr>) (split_whitespace ''a b c d e f'')),
      str_join '' '' (drop (2 * step_size \<lparr>cc_size = 4, cc_overlap = 2, cc_min = 1\<rparr>) (split_whitespace ''a b c d e f''))]"
  by (rule last_chunk_redundant)
    (simp_all add: step_size_def split_whitespace_def is_ascii_ws_def ascii_code_def)

end
