(* ===== verification/Memory_Store.thy ===== *)
theory Memory_Store
  imports Chunker "HOL-Library.Word" "HOL-Library.List_Lexorder" "HOL-Library.Char_ord"
begin

text \<open>
  Documents, layers and storage of the workspace: \<open>src/workspace/document.rs\<close>, \<open>src/workspace/layer.rs\<close>
  and the document and chunk operations of \<open>src/workspace/repository.rs\<close>, with the two tables as lists of rows.
  A failing database and the time stamps are left out; a fresh identifier is the next number.
\<close>

section \<open>Model\<close>

subsection \<open>Documents\<close>

definition p_MEMORY :: string where "p_MEMORY = ''MEMORY.md''"
definition p_IDENTITY :: string where "p_IDENTITY = ''IDENTITY.md''"
definition p_SOUL :: string where "p_SOUL = ''SOUL.md''"
definition p_AGENTS :: string where "p_AGENTS = ''AGENTS.md''"
definition p_USER :: string where "p_USER = ''USER.md''"
definition p_HEARTBEAT :: string where "p_HEARTBEAT = ''HEARTBEAT.md''"
definition p_README :: string where "p_README = ''README.md''"
definition p_TOOLS :: string where "p_TOOLS = ''TOOLS.md''"
definition p_BOOTSTRAP :: string where "p_BOOTSTRAP = ''BOOTSTRAP.md''"
definition p_PROFILE :: string where "p_PROFILE = ''context/profile.json''"
definition p_ASSISTANT_DIRECTIVES :: string where "p_ASSISTANT_DIRECTIVES = ''context/assistant-directives.md''"

lemmas path_defs = p_MEMORY_def p_IDENTITY_def p_SOUL_def p_AGENTS_def p_USER_def p_HEARTBEAT_def p_README_def
  p_TOOLS_def p_BOOTSTRAP_def p_PROFILE_def p_ASSISTANT_DIRECTIVES_def

definition IDENTITY_PATHS :: "string list" where
  "IDENTITY_PATHS = [p_IDENTITY, p_SOUL, p_AGENTS, p_USER, p_TOOLS, p_BOOTSTRAP]"

definition is_identity_path :: "string \<Rightarrow> bool" where
  "is_identity_path path = (path \<in> set IDENTITY_PATHS)"

record memory_document =
  md_id :: nat
  md_user :: string
  md_agent :: "nat option"
  md_path :: string
  md_content :: string

type_synonym doc_key = "string \<times> nat option \<times> string"

definition doc_key :: "memory_document \<Rightarrow> doc_key" where
  "doc_key d = (md_user d, md_agent d, md_path d)"

record memory_chunk =
  mc_id :: nat
  mc_document :: nat
  mc_index :: nat
  mc_content :: string
  mc_embedding :: "32 word list option"

subsection \<open>Layers\<close>

datatype layer_sensitivity = Private | Shared

record memory_layer =
  ly_name :: string
  ly_scope :: string
  ly_writable :: bool
  ly_sensitivity :: layer_sensitivity

definition layers_default_for_user :: "string \<Rightarrow> memory_layer list" where
  "layers_default_for_user user =
     [\<lparr>ly_name = ''private'', ly_scope = user, ly_writable = True, ly_sensitivity = Private\<rparr>]"

definition read_scopes :: "memory_layer list \<Rightarrow> string list" where
  "read_scopes layers = map ly_scope layers"

definition writable_scopes :: "memory_layer list \<Rightarrow> string list" where
  "writable_scopes layers = map ly_scope (filter ly_writable layers)"

definition find_layer :: "memory_layer list \<Rightarrow> string \<Rightarrow> memory_layer option" where
  "find_layer layers name = List.find (\<lambda>l. ly_name l = name) layers"

definition private_layer :: "memory_layer list \<Rightarrow> memory_layer option" where
  "private_layer layers = List.find (\<lambda>l. ly_sensitivity l = Private) layers"

subsection \<open>Storage\<close>

datatype workspace_error =
    DocumentNotFound string string
  | EmbeddingFailed string
  | IoError string
  | LayerNotFound string
  | LayerReadOnly string
  | PrivacyRedirectFailed
  | InjectionRejected string string

record memory_store =
  ms_documents :: "memory_document list"
  ms_chunks :: "memory_chunk list"
  ms_next :: nat

definition find_key :: "memory_store \<Rightarrow> doc_key \<Rightarrow> memory_document option" where
  "find_key st k = List.find (\<lambda>d. doc_key d = k) (ms_documents st)"

definition get_document_by_path ::
  "memory_store \<Rightarrow> string \<Rightarrow> nat option \<Rightarrow> string \<Rightarrow> (workspace_error, memory_document) result"
where
  "get_document_by_path st user agent path =
     (case find_key st (user, agent, path) of
        Some d \<Rightarrow> Inr d
      | None \<Rightarrow> Inl (DocumentNotFound path user))"

definition get_document_by_id :: "memory_store \<Rightarrow> nat \<Rightarrow> (workspace_error, memory_document) result" where
  "get_document_by_id st i =
     (case List.find (\<lambda>d. md_id d = i) (ms_documents st) of
        Some d \<Rightarrow> Inr d
      | None \<Rightarrow> Inl (DocumentNotFound ''unknown'' ''unknown''))"

definition get_or_create_document_by_path ::
  "memory_store \<Rightarrow> string \<Rightarrow> nat option \<Rightarrow> string \<Rightarrow> memory_store \<times> memory_document"
where
  "get_or_create_document_by_path st user agent path =
     (case find_key st (user, agent, path) of
        Some d \<Rightarrow> (st, d)
      | None \<Rightarrow>
          (let d = \<lparr>md_id = ms_next st, md_user = user, md_agent = agent, md_path = path, md_content = []\<rparr>
           in (st\<lparr>ms_documents := ms_documents st @ [d], ms_next := Suc (ms_next st)\<rparr>, d)))"

definition update_document :: "nat \<Rightarrow> string \<Rightarrow> memory_store \<Rightarrow> memory_store" where
  "update_document i content st =
     st\<lparr>ms_documents := map (\<lambda>d. if md_id d = i then d\<lparr>md_content := content\<rparr> else d) (ms_documents st)\<rparr>"

definition delete_chunks :: "nat \<Rightarrow> memory_store \<Rightarrow> memory_store" where
  "delete_chunks i st = st\<lparr>ms_chunks := filter (\<lambda>c. mc_document c \<noteq> i) (ms_chunks st)\<rparr>"

definition insert_chunk :: "nat \<Rightarrow> nat \<Rightarrow> string \<Rightarrow> 32 word list option \<Rightarrow> memory_store \<Rightarrow> memory_store" where
  "insert_chunk i index content embedding st =
     st\<lparr>ms_chunks := ms_chunks st @
          [\<lparr>mc_id = ms_next st, mc_document = i, mc_index = index, mc_content = content, mc_embedding = embedding\<rparr>],
        ms_next := Suc (ms_next st)\<rparr>"

definition update_chunk_embedding :: "nat \<Rightarrow> 32 word list \<Rightarrow> memory_store \<Rightarrow> memory_store" where
  "update_chunk_embedding i e st =
     st\<lparr>ms_chunks := map (\<lambda>c. if mc_id c = i then c\<lparr>mc_embedding := Some e\<rparr> else c) (ms_chunks st)\<rparr>"

definition get_chunks_without_embeddings :: "memory_store \<Rightarrow> string \<Rightarrow> nat option \<Rightarrow> nat \<Rightarrow> memory_chunk list" where
  "get_chunks_without_embeddings st user agent limit =
     take limit (filter (\<lambda>c. mc_embedding c = None \<and>
       list_ex (\<lambda>d. md_id d = mc_document c \<and> md_user d = user \<and> md_agent d = agent) (ms_documents st)) (ms_chunks st))"

definition delete_document_by_path ::
  "memory_store \<Rightarrow> string \<Rightarrow> nat option \<Rightarrow> string \<Rightarrow> memory_store \<times> (workspace_error, unit) result"
where
  "delete_document_by_path st user agent path =
     (case get_document_by_path st user agent path of
        Inl e \<Rightarrow> (st, Inl e)
      | Inr d \<Rightarrow>
          (let st1 = delete_chunks (md_id d) st
           in (st1\<lparr>ms_documents := filter (\<lambda>d. doc_key d \<noteq> (user, agent, path)) (ms_documents st1)\<rparr>, Inr ())))"

definition list_all_paths :: "memory_store \<Rightarrow> string \<Rightarrow> nat option \<Rightarrow> string list" where
  "list_all_paths st user agent =
     sort (map md_path (filter (\<lambda>d. md_user d = user \<and> md_agent d = agent) (ms_documents st)))"

definition get_document_by_path_multi ::
  "memory_store \<Rightarrow> string list \<Rightarrow> nat option \<Rightarrow> string \<Rightarrow> (workspace_error, memory_document) result"
where
  "get_document_by_path_multi st users agent path =
     (case List.find (\<lambda>u. find_key st (u, agent, path) \<noteq> None) users of
        Some u \<Rightarrow> get_document_by_path st u agent path
      | None \<Rightarrow> Inl (DocumentNotFound path (''['' @ str_join '', '' users @ '']'')))"

subsection \<open>Reference definitions\<close>

definition store_wf :: "memory_store \<Rightarrow> bool" where
  "store_wf st \<longleftrightarrow>
     distinct (map md_id (ms_documents st)) \<and> distinct (map doc_key (ms_documents st)) \<and>
     (\<forall>d\<in>set (ms_documents st). md_id d < ms_next st)"

definition content_of :: "memory_store \<Rightarrow> doc_key \<Rightarrow> string option" where
  "content_of st k = map_option md_content (find_key st k)"

section \<open>Lemmas\<close>

lemma find_key_Some: "find_key st k = Some d \<Longrightarrow> d \<in> set (ms_documents st) \<and> doc_key d = k"
  by (auto simp: find_key_def find_Some_iff)

lemma find_key_None: "find_key st k = None \<longleftrightarrow> (\<forall>d\<in>set (ms_documents st). doc_key d \<noteq> k)"
  by (auto simp: find_key_def find_None_iff)

lemma find_key_eq: "store_wf st \<Longrightarrow> d \<in> set (ms_documents st) \<Longrightarrow> find_key st (doc_key d) = Some d"
proof -
  assume *: "store_wf st" "d \<in> set (ms_documents st)"
  then obtain d' where "find_key st (doc_key d) = Some d'" using find_key_None[of st "doc_key d"] by fastforce
  then show ?thesis using * find_key_Some[of st "doc_key d" d'] by (auto simp: store_wf_def distinct_map inj_on_def)
qed

lemma find_id_eq: "store_wf st \<Longrightarrow> d \<in> set (ms_documents st) \<Longrightarrow> get_document_by_id st (md_id d) = Inr d"
proof -
  assume *: "store_wf st" "d \<in> set (ms_documents st)"
  then obtain d' where f: "List.find (\<lambda>x. md_id x = md_id d) (ms_documents st) = Some d'"
    by (metis (mono_tags, lifting) find_None_iff not_None_eq)
  then have "d' \<in> set (ms_documents st)" "md_id d' = md_id d" by (auto simp: find_Some_iff)
  then show ?thesis using * f by (auto simp: get_document_by_id_def store_wf_def distinct_map inj_on_def)
qed

text \<open>The document that is found or made is a row of the new store with that key.\<close>

lemma get_or_create:
  assumes "get_or_create_document_by_path st user agent path = (st', d)" "store_wf st"
  shows "store_wf st' \<and> d \<in> set (ms_documents st') \<and> doc_key d = (user, agent, path) \<and>
    md_content d = (case content_of st (user, agent, path) of Some c \<Rightarrow> c | None \<Rightarrow> []) \<and>
    (\<forall>k. k \<noteq> (user, agent, path) \<longrightarrow> find_key st' k = find_key st k)"
proof (cases "find_key st (user, agent, path)")
  case None
  let ?d = "\<lparr>md_id = ms_next st, md_user = user, md_agent = agent, md_path = path, md_content = []\<rparr>"
  have "st' = st\<lparr>ms_documents := ms_documents st @ [?d], ms_next := Suc (ms_next st)\<rparr>" "d = ?d"
    using assms(1) None by (auto simp: get_or_create_document_by_path_def Let_def)
  moreover have "doc_key ?d = (user, agent, path)" by (simp add: doc_key_def)
  ultimately show ?thesis
    using assms(2) None find_key_None[of st "(user, agent, path)"]
    by (auto simp: store_wf_def content_of_def find_key_def less_Suc_eq find_append split: option.splits)
next
  case (Some d0)
  then show ?thesis using assms find_key_Some[OF Some] by (auto simp: get_or_create_document_by_path_def content_of_def)
qed


lemma update_wf: "store_wf st \<Longrightarrow> store_wf (update_document i c st)"
proof -
  have "map doc_key (ms_documents (update_document i c st)) = map doc_key (ms_documents st)"
    "map md_id (ms_documents (update_document i c st)) = map md_id (ms_documents st)"
    by (simp_all add: update_document_def doc_key_def)
  moreover have "\<forall>d\<in>set (ms_documents (update_document i c st)). md_id d < ms_next (update_document i c st)"
    if "\<forall>d\<in>set (ms_documents st). md_id d < ms_next st"
    using that by (auto simp: update_document_def)
  ultimately show "store_wf st \<Longrightarrow> store_wf (update_document i c st)"
    unfolding store_wf_def by metis
qed

lemma find_key_update:
  assumes "store_wf st" "d \<in> set (ms_documents st)"
  shows "find_key (update_document (md_id d) c st) k = (if k = doc_key d then Some (d\<lparr>md_content := c\<rparr>) else find_key st k)"
proof -
  let ?f = "\<lambda>x. if md_id x = md_id d then x\<lparr>md_content := c\<rparr> else x"
  have key: "doc_key (?f x) = doc_key x" for x by (simp add: doc_key_def)
  have "List.find (\<lambda>x. doc_key x = k) (map ?f xs) = map_option ?f (List.find (\<lambda>x. doc_key x = k) xs)" for xs
    by (induction xs) (auto simp: key)
  then have "find_key (update_document (md_id d) c st) k = map_option ?f (find_key st k)"
    by (simp add: find_key_def update_document_def)
  moreover have "md_id x \<noteq> md_id d" if "find_key st k = Some x" "k \<noteq> doc_key d" for x
    using that assms find_key_Some[OF that(1)] by (auto simp: store_wf_def distinct_map inj_on_def)
  ultimately show ?thesis using find_key_eq[OF assms] by (cases "find_key st k") auto
qed

lemma chunk_ops_documents [simp]:
  "ms_documents (delete_chunks i st) = ms_documents st"
  "ms_documents (insert_chunk i n c e st) = ms_documents st"
  "ms_documents (update_chunk_embedding i v st) = ms_documents st"
  by (simp_all add: delete_chunks_def insert_chunk_def update_chunk_embedding_def)

lemma find_key_documents: "ms_documents st = ms_documents st' \<Longrightarrow> find_key st = find_key st'"
  by (rule ext) (simp add: find_key_def)

lemma chunk_ops_wf:
  "store_wf st \<Longrightarrow> store_wf (delete_chunks i st)"
  "store_wf st \<Longrightarrow> store_wf (insert_chunk i n c e st)"
  "store_wf st \<Longrightarrow> store_wf (update_chunk_embedding i v st)"
  by (auto simp: store_wf_def delete_chunks_def insert_chunk_def update_chunk_embedding_def less_Suc_eq)

lemma find_key_filter:
  "find_key (st\<lparr>ms_documents := filter (\<lambda>d. doc_key d \<noteq> key) (ms_documents st)\<rparr>) k = (if k = key then None else find_key st k)"
proof -
  have "List.find (\<lambda>x. doc_key x = k) (filter (\<lambda>d. doc_key d \<noteq> key) xs) =
      (if k = key then None else List.find (\<lambda>x. doc_key x = k) xs)" for xs
    by (induction xs) auto
  then show ?thesis by (simp add: find_key_def)
qed

lemma delete_document:
  assumes "delete_document_by_path st user agent path = (st', r)" "store_wf st"
  shows "store_wf st' \<and> find_key st' (user, agent, path) = None \<and> (\<forall>k. k \<noteq> (user, agent, path) \<longrightarrow> find_key st' k = find_key st k)"
proof (cases "find_key st (user, agent, path)")
  case None
  then show ?thesis using assms by (auto simp: delete_document_by_path_def get_document_by_path_def)
next
  case (Some d)
  then have st': "st' = (delete_chunks (md_id d) st)\<lparr>ms_documents :=
      filter (\<lambda>d. doc_key d \<noteq> (user, agent, path)) (ms_documents (delete_chunks (md_id d) st))\<rparr>"
    using assms(1) by (auto simp: delete_document_by_path_def get_document_by_path_def Let_def)
  moreover have "store_wf st'"
    using assms(2) st' by (auto simp: store_wf_def distinct_map_filter delete_chunks_def)
  ultimately show ?thesis
    using find_key_filter[where st = "delete_chunks (md_id d) st" and key = "(user, agent, path)"]
      find_key_documents[of "delete_chunks (md_id d) st" st] by auto
qed

lemma get_document_key:
  "get_document_by_path st user agent path = Inr d \<longleftrightarrow> find_key st (user, agent, path) = Some d"
  by (simp add: get_document_by_path_def split: option.splits)

lemma get_document_owner: "get_document_by_path st user agent path = Inr d \<Longrightarrow> md_user d = user \<and> md_path d = path"
  using find_key_Some by (fastforce simp: get_document_key doc_key_def)

lemma get_document_multi_first:
  "find_key st (u, agent, path) = Some d \<Longrightarrow> get_document_by_path_multi st (u # us) agent path = Inr d"
  by (simp add: get_document_by_path_multi_def get_document_key)

lemma get_document_multi_owner:
  "get_document_by_path_multi st us agent path = Inr d \<Longrightarrow> md_user d \<in> set us \<and> md_path d = path"
  by (auto simp: get_document_by_path_multi_def find_Some_iff dest!: get_document_owner split: option.splits)

end
