(* ===== verification/Workspace.thy ===== *)
theory Workspace
  imports Memory_Store Safety_Layer
begin

text \<open>
  The workspace, \<open>src/workspace/mod.rs\<close>: reading and writing of memory documents in the scope of a user, memory
  layers with a privacy check, the scan of files that go into the system prompt, the system prompt itself, the
  documents derived from a profile, seeding and import. Each operation takes the store and returns it.
\<close>

section \<open>Model\<close>

subsection \<open>Paths and the scan of prompt files\<close>

fun collapse_slashes :: "bool \<Rightarrow> string \<Rightarrow> string" where
  "collapse_slashes last_was_slash [] = []"
| "collapse_slashes last_was_slash (c # s) =
     (if c = CHR ''/'' then (if last_was_slash then collapse_slashes True s else c # collapse_slashes True s)
      else c # collapse_slashes False s)"

definition ws_normalize_path :: "string \<Rightarrow> string" where
  "ws_normalize_path path = collapse_slashes False (trim_end_char (CHR ''/'') (trim_start_char (CHR ''/'') (trim path)))"

definition normalize_directory :: "string \<Rightarrow> string" where
  "normalize_directory path = trim_end_char (CHR ''/'') (ws_normalize_path path)"

definition SYSTEM_PROMPT_FILES :: "string list" where
  "SYSTEM_PROMPT_FILES =
     [p_SOUL, p_AGENTS, p_USER, p_IDENTITY, p_MEMORY, p_TOOLS, p_HEARTBEAT, p_BOOTSTRAP, p_ASSISTANT_DIRECTIVES, p_PROFILE]"

definition is_system_prompt_file :: "string \<Rightarrow> bool" where
  "is_system_prompt_file path = list_ex (\<lambda>p. to_lower path = to_lower p) SYSTEM_PROMPT_FILES"

definition reject_if_injected :: "safety_env \<Rightarrow> string \<Rightarrow> string \<Rightarrow> workspace_error option" where
  "reject_if_injected env path content =
     (let high = filter (\<lambda>w. severity_value (iw_severity w) \<ge> severity_value SevHigh) (detect env sanitizer_new content)
      in if high \<noteq> [] then Some (InjectionRejected path (str_join ''; '' (map iw_description high))) else None)"

subsection \<open>The workspace\<close>

record workspace =
  ws_user :: string
  ws_read_users :: "string list"
  ws_agent :: "nat option"
  ws_embed :: "(string \<Rightarrow> 32 word list option) option"
  ws_bootstrap_pending :: bool
  ws_bootstrap_completed :: bool
  ws_layers :: "memory_layer list"
  ws_classifier :: "(string \<Rightarrow> bool) option"

definition workspace_new :: "string \<Rightarrow> workspace" where
  "workspace_new user =
     \<lparr>ws_user = user, ws_read_users = [user], ws_agent = None, ws_embed = None, ws_bootstrap_pending = False,
      ws_bootstrap_completed = False, ws_layers = layers_default_for_user user, ws_classifier = None\<rparr>"

definition push_scope :: "string \<Rightarrow> string list \<Rightarrow> string list" where
  "push_scope scope scopes = (if scope \<in> set scopes then scopes else scopes @ [scope])"

definition with_memory_layers :: "memory_layer list \<Rightarrow> workspace \<Rightarrow> workspace" where
  "with_memory_layers layers ws =
     ws\<lparr>ws_read_users := fold (\<lambda>l. push_scope (ly_scope l)) layers (ws_read_users ws), ws_layers := layers\<rparr>"

definition with_additional_read_scopes :: "string list \<Rightarrow> workspace \<Rightarrow> workspace" where
  "with_additional_read_scopes scopes ws = ws\<lparr>ws_read_users := fold push_scope scopes (ws_read_users ws)\<rparr>"

definition scoped_to_user :: "string \<Rightarrow> workspace \<Rightarrow> workspace" where
  "scoped_to_user user ws =
     (let layers = map (\<lambda>l. if ly_sensitivity l = Private \<and> ly_scope l = ws_user ws then l\<lparr>ly_scope := user\<rparr> else l)
            (ws_layers ws);
          users1 = fold (\<lambda>s us. if s \<noteq> ws_user ws then push_scope s us else us) (ws_read_users ws) [user];
          users2 = fold push_scope (read_scopes layers) users1;
          preserve_flags = (user = ws_user ws)
      in ws\<lparr>ws_user := user, ws_read_users := users2, ws_layers := layers,
            ws_bootstrap_pending := (preserve_flags \<and> ws_bootstrap_pending ws),
            ws_bootstrap_completed := (preserve_flags \<and> ws_bootstrap_completed ws)\<rparr>)"

definition is_multi_scope :: "workspace \<Rightarrow> bool" where
  "is_multi_scope ws = (length (ws_read_users ws) > 1)"

subsection \<open>Reading and writing\<close>

definition ws_read :: "workspace \<Rightarrow> string \<Rightarrow> memory_store \<Rightarrow> (workspace_error, memory_document) result" where
  "ws_read ws p st =
     (let path = ws_normalize_path p
      in if is_multi_scope ws \<and> is_identity_path path then get_document_by_path st (ws_user ws) (ws_agent ws) path
         else if is_multi_scope ws then get_document_by_path_multi st (ws_read_users ws) (ws_agent ws) path
         else get_document_by_path st (ws_user ws) (ws_agent ws) path)"

definition read_primary :: "workspace \<Rightarrow> string \<Rightarrow> memory_store \<Rightarrow> (workspace_error, memory_document) result" where
  "read_primary ws p st = get_document_by_path st (ws_user ws) (ws_agent ws) (ws_normalize_path p)"

text \<open>Chunking with the default configuration always returns.\<close>

definition reindex_document :: "workspace \<Rightarrow> nat \<Rightarrow> memory_store \<Rightarrow> memory_store \<times> (workspace_error, unit) result" where
  "reindex_document ws i st =
     (case get_document_by_id st i of
        Inl e \<Rightarrow> (st, Inl e)
      | Inr d \<Rightarrow>
          (let chunks = (case chunk_document (md_content d) default_chunk_config of Some cs \<Rightarrow> cs | None \<Rightarrow> [])
           in (fold (\<lambda>(n, c). insert_chunk i n c (case ws_embed ws of Some f \<Rightarrow> f c | None \<Rightarrow> None))
                 (enumerate 0 chunks) (delete_chunks i st),
               Inr ())))"

text \<open>The document of a path is found or made, its content set, its chunks made anew, and it is read back.\<close>

definition put_document ::
  "workspace \<Rightarrow> string \<Rightarrow> string \<Rightarrow> (string \<Rightarrow> string) \<Rightarrow> memory_store \<Rightarrow> memory_store \<times> (workspace_error, memory_document) result"
where
  "put_document ws user path change st =
     (case get_or_create_document_by_path st user (ws_agent ws) path of
        (st1, d) \<Rightarrow>
          (case reindex_document ws (md_id d) (update_document (md_id d) (change (md_content d)) st1) of
             (st2, Inl e) \<Rightarrow> (st2, Inl e)
           | (st2, Inr _) \<Rightarrow> (st2, get_document_by_id st2 (md_id d))))"

definition appended :: "string \<Rightarrow> string \<Rightarrow> string \<Rightarrow> string" where
  "appended sep content old = (if old = [] then content else old @ sep @ content)"

definition scan_prompt_file :: "safety_env \<Rightarrow> string \<Rightarrow> string \<Rightarrow> workspace_error option" where
  "scan_prompt_file env path content =
     (if is_system_prompt_file path \<and> content \<noteq> [] then reject_if_injected env path content else None)"

definition ws_write ::
  "safety_env \<Rightarrow> workspace \<Rightarrow> string \<Rightarrow> string \<Rightarrow> memory_store \<Rightarrow> memory_store \<times> (workspace_error, memory_document) result"
where
  "ws_write env ws p content st =
     (let path = ws_normalize_path p
      in case scan_prompt_file env path content of
           Some e \<Rightarrow> (st, Inl e)
         | None \<Rightarrow> put_document ws (ws_user ws) path (\<lambda>_. content) st)"

definition ws_append ::
  "safety_env \<Rightarrow> workspace \<Rightarrow> string \<Rightarrow> string \<Rightarrow> memory_store \<Rightarrow> memory_store \<times> (workspace_error, unit) result"
where
  "ws_append env ws p content st =
     (let path = ws_normalize_path p
      in case scan_prompt_file env path content of
           Some e \<Rightarrow> (st, Inl e)
         | None \<Rightarrow>
             (case get_or_create_document_by_path st (ws_user ws) (ws_agent ws) path of
                (st1, d) \<Rightarrow>
                  (let new_content = appended [newline] content (md_content d)
                   in case scan_prompt_file env path new_content of
                        Some e \<Rightarrow> (st1, Inl e)
                      | None \<Rightarrow> reindex_document ws (md_id d) (update_document (md_id d) new_content st1))))"

definition ws_exists :: "workspace \<Rightarrow> string \<Rightarrow> memory_store \<Rightarrow> (workspace_error, bool) result" where
  "ws_exists ws p st =
     (case ws_read ws p st of
        Inr _ \<Rightarrow> Inr True
      | Inl (DocumentNotFound _ _) \<Rightarrow> Inr False
      | Inl e \<Rightarrow> Inl e)"

definition ws_delete :: "workspace \<Rightarrow> string \<Rightarrow> memory_store \<Rightarrow> memory_store \<times> (workspace_error, unit) result" where
  "ws_delete ws p st = delete_document_by_path st (ws_user ws) (ws_agent ws) (ws_normalize_path p)"

definition ws_list_all :: "workspace \<Rightarrow> memory_store \<Rightarrow> string list" where
  "ws_list_all ws st =
     (if is_multi_scope ws
      then remdups_adj (sort (list_all_paths st (ws_user ws) (ws_agent ws) @
             concat (map (\<lambda>s. filter (\<lambda>p. \<not> is_identity_path p) (list_all_paths st s (ws_agent ws))) (tl (ws_read_users ws)))))
      else list_all_paths st (ws_user ws) (ws_agent ws))"

subsection \<open>Layers\<close>

definition resolve_layer_target ::
  "workspace \<Rightarrow> string \<Rightarrow> string \<Rightarrow> bool \<Rightarrow> (workspace_error, string \<times> string \<times> bool) result"
where
  "resolve_layer_target ws layer_name content force =
     (case find_layer (ws_layers ws) layer_name of
        None \<Rightarrow> Inl (LayerNotFound layer_name)
      | Some layer \<Rightarrow>
          if \<not> ly_writable layer then Inl (LayerReadOnly layer_name)
          else if \<not> force \<and> ly_sensitivity layer = Shared \<and>
            (case ws_classifier ws of Some classify \<Rightarrow> classify content | None \<Rightarrow> False)
          then (case private_layer (ws_layers ws) of
                  None \<Rightarrow> Inl PrivacyRedirectFailed
                | Some p \<Rightarrow> if \<not> ly_writable p then Inl PrivacyRedirectFailed else Inr (ly_scope p, ly_name p, True))
          else Inr (ly_scope layer, layer_name, False))"

record write_result =
  wr_document :: memory_document
  wr_redirected :: bool
  wr_actual_layer :: string

definition layer_put ::
  "workspace \<Rightarrow> string \<Rightarrow> string \<Rightarrow> string \<Rightarrow> bool \<Rightarrow> (string \<Rightarrow> string) \<Rightarrow> memory_store \<Rightarrow>
   memory_store \<times> (workspace_error, write_result) result"
where
  "layer_put ws layer_name p content force change st =
     (case resolve_layer_target ws layer_name content force of
        Inl e \<Rightarrow> (st, Inl e)
      | Inr (scope, actual_layer, redirected) \<Rightarrow>
          (case put_document ws scope (ws_normalize_path p) change st of
             (st1, Inl e) \<Rightarrow> (st1, Inl e)
           | (st1, Inr d) \<Rightarrow>
               (st1, Inr \<lparr>wr_document = d, wr_redirected = redirected, wr_actual_layer = actual_layer\<rparr>)))"

definition write_to_layer ::
  "workspace \<Rightarrow> string \<Rightarrow> string \<Rightarrow> string \<Rightarrow> bool \<Rightarrow> memory_store \<Rightarrow> memory_store \<times> (workspace_error, write_result) result"
where
  "write_to_layer ws layer_name p content force = layer_put ws layer_name p content force (\<lambda>_. content)"

definition append_to_layer ::
  "workspace \<Rightarrow> string \<Rightarrow> string \<Rightarrow> string \<Rightarrow> bool \<Rightarrow> memory_store \<Rightarrow> memory_store \<times> (workspace_error, write_result) result"
where
  "append_to_layer ws layer_name p content force =
     layer_put ws layer_name p content force (appended [newline, newline] content)"

subsection \<open>Memory and daily logs\<close>

definition read_or_create ::
  "workspace \<Rightarrow> string \<Rightarrow> memory_store \<Rightarrow> memory_store \<times> memory_document"
where
  "read_or_create ws path st =
     (case (if is_multi_scope ws then get_document_by_path_multi st (ws_read_users ws) (ws_agent ws) path
            else Inl (DocumentNotFound path (ws_user ws))) of
        Inr d \<Rightarrow> (st, d)
      | Inl _ \<Rightarrow> get_or_create_document_by_path st (ws_user ws) (ws_agent ws) path)"

definition append_memory :: "workspace \<Rightarrow> string \<Rightarrow> memory_store \<Rightarrow> memory_store \<times> (workspace_error, unit) result" where
  "append_memory ws entry st =
     (case get_or_create_document_by_path st (ws_user ws) (ws_agent ws) p_MEMORY of
        (st1, d) \<Rightarrow>
          reindex_document ws (md_id d) (update_document (md_id d) (appended [newline, newline] entry (md_content d)) st1))"

definition daily_path :: "string \<Rightarrow> string" where
  "daily_path date = ''daily/'' @ date @ ''.md''"

text \<open>The date and the time of day in the time zone are arguments.\<close>

definition append_daily_log_tz ::
  "safety_env \<Rightarrow> workspace \<Rightarrow> string \<Rightarrow> string \<Rightarrow> string \<Rightarrow> memory_store \<Rightarrow> memory_store \<times> (workspace_error, string) result"
where
  "append_daily_log_tz env ws date time entry st =
     (case ws_append env ws (daily_path date) (''['' @ time @ ''] '' @ entry) st of
        (st1, Inl e) \<Rightarrow> (st1, Inl e)
      | (st1, Inr _) \<Rightarrow> (st1, Inr (daily_path date)))"

definition heartbeat_checklist :: "string \<Rightarrow> workspace \<Rightarrow> memory_store \<Rightarrow> (workspace_error, string option) result" where
  "heartbeat_checklist seed ws st =
     (case read_primary ws p_HEARTBEAT st of
        Inr d \<Rightarrow> Inr (Some (md_content d))
      | Inl (DocumentNotFound _ _) \<Rightarrow> Inr (Some seed)
      | Inl e \<Rightarrow> Inl e)"


subsection \<open>Sequences of operations\<close>

datatype ws_op =
    OpWrite string string
  | OpAppend string string
  | OpDelete string
  | OpAppendMemory string
  | OpAppendDaily string string string
  | OpWriteLayer string string string bool
  | OpAppendLayer string string string bool

fun ws_perform :: "safety_env \<Rightarrow> workspace \<Rightarrow> ws_op \<Rightarrow> memory_store \<Rightarrow> memory_store" where
  "ws_perform env ws (OpWrite p c) st = fst (ws_write env ws p c st)"
| "ws_perform env ws (OpAppend p c) st = fst (ws_append env ws p c st)"
| "ws_perform env ws (OpDelete p) st = fst (ws_delete ws p st)"
| "ws_perform env ws (OpAppendMemory c) st = fst (append_memory ws c st)"
| "ws_perform env ws (OpAppendDaily date time c) st = fst (append_daily_log_tz env ws date time c st)"
| "ws_perform env ws (OpWriteLayer l p c force) st = fst (write_to_layer ws l p c force st)"
| "ws_perform env ws (OpAppendLayer l p c force) st = fst (append_to_layer ws l p c force st)"

subsection \<open>Reference definitions\<close>

text \<open>The user is the first of the scopes that are read.\<close>

definition ws_wf :: "workspace \<Rightarrow> bool" where
  "ws_wf ws = (ws_read_users ws \<noteq> [] \<and> hd (ws_read_users ws) = ws_user ws)"

definition write_scopes :: "workspace \<Rightarrow> string set" where
  "write_scopes ws = insert (ws_user ws) (set (writable_scopes (ws_layers ws)))"

definition kept_outside :: "string set \<Rightarrow> memory_store \<Rightarrow> memory_store \<Rightarrow> bool" where
  "kept_outside scopes st0 st \<longleftrightarrow> store_wf st \<and> (\<forall>k. fst k \<notin> scopes \<longrightarrow> find_key st k = find_key st0 k)"

text \<open>An automaton that reports the first pattern of the sanitizer.\<close>

definition injecting_env :: safety_env where
  "injecting_env =
     sample_safety_env\<lparr>se_ac_find_iter_ci := (\<lambda>_ c. if str_contains ''ignore previous'' c then [(0, (0, 15))] else [])\<rparr>"

definition empty_store :: memory_store where
  "empty_store = \<lparr>ms_documents = [], ms_chunks = [], ms_next = 0\<rparr>"

section \<open>Lemmas\<close>

lemma insert_chunks_documents:
  "ms_documents (fold (\<lambda>(n, c). insert_chunk i n c (f c)) cs st) = ms_documents st"
  by (induction cs arbitrary: st) auto

lemma insert_chunks_wf: "store_wf st \<Longrightarrow> store_wf (fold (\<lambda>(n, c). insert_chunk i n c (f c)) cs st)"
  by (induction cs arbitrary: st) (auto simp: chunk_ops_wf)

lemma reindex:
  assumes "store_wf st" "d \<in> set (ms_documents st)"
  shows "\<exists>st'. reindex_document ws (md_id d) st = (st', Inr ()) \<and> store_wf st' \<and> ms_documents st' = ms_documents st"
  using assms by (simp add: reindex_document_def find_id_eq Let_def insert_chunks_documents insert_chunks_wf chunk_ops_wf)

text \<open>A document is set to the changed content and no other is touched.\<close>

lemma set_content:
  assumes gc: "get_or_create_document_by_path st user (ws_agent ws) path = (st1, d)" and wf: "store_wf st"
  obtains st2 where "reindex_document ws (md_id d) (update_document (md_id d) c st1) = (st2, Inr ())" "store_wf st2"
    "\<And>k. find_key st2 k = (if k = (user, ws_agent ws, path) then Some (d\<lparr>md_content := c\<rparr>) else find_key st k)"
    "get_document_by_id st2 (md_id d) = Inr (d\<lparr>md_content := c\<rparr>)"
proof -
  have g: "store_wf st1" "d \<in> set (ms_documents st1)" "doc_key d = (user, ws_agent ws, path)"
    "\<And>k. k \<noteq> (user, ws_agent ws, path) \<Longrightarrow> find_key st1 k = find_key st k"
    using get_or_create[OF gc wf] by blast+
  let ?u = "update_document (md_id d) c st1"
  have u: "d\<lparr>md_content := c\<rparr> \<in> set (ms_documents ?u)" "store_wf ?u"
    using g update_wf by (force simp: update_document_def)+
  obtain st2 where st2: "reindex_document ws (md_id d) ?u = (st2, Inr ())" "store_wf st2" "ms_documents st2 = ms_documents ?u"
    using reindex[OF u(2,1), of ws] by auto
  have "find_key st2 k = (if k = (user, ws_agent ws, path) then Some (d\<lparr>md_content := c\<rparr>) else find_key st k)" for k
    using find_key_documents[OF st2(3)] find_key_update[OF g(1,2), of c k] g(3,4) by simp
  moreover have "get_document_by_id st2 (md_id d) = Inr (d\<lparr>md_content := c\<rparr>)"
    using find_id_eq[OF st2(2), of "d\<lparr>md_content := c\<rparr>"] u(1) st2(3) by simp
  ultimately show ?thesis using that st2(1,2) by blast
qed

lemma put_document:
  assumes wf: "store_wf st"
  obtains st' d where "put_document ws user path f st = (st', Inr d)" "store_wf st'"
    "doc_key d = (user, ws_agent ws, path)"
    "md_content d = f (case content_of st (user, ws_agent ws, path) of Some c \<Rightarrow> c | None \<Rightarrow> [])"
    "\<And>k. find_key st' k = (if k = (user, ws_agent ws, path) then Some d else find_key st k)"
proof -
  obtain st1 d where gc: "get_or_create_document_by_path st user (ws_agent ws) path = (st1, d)" by fastforce
  have d: "doc_key d = (user, ws_agent ws, path)"
    "md_content d = (case content_of st (user, ws_agent ws, path) of Some c \<Rightarrow> c | None \<Rightarrow> [])"
    using get_or_create[OF gc wf] by blast+
  obtain st2 where st2: "reindex_document ws (md_id d) (update_document (md_id d) (f (md_content d)) st1) = (st2, Inr ())" "store_wf st2"
    "\<And>k. find_key st2 k = (if k = (user, ws_agent ws, path) then Some (d\<lparr>md_content := f (md_content d)\<rparr>) else find_key st k)"
    "get_document_by_id st2 (md_id d) = Inr (d\<lparr>md_content := f (md_content d)\<rparr>)"
    using set_content[OF gc wf] by blast
  show ?thesis
  proof (rule that)
    show "put_document ws user path f st = (st2, Inr (d\<lparr>md_content := f (md_content d)\<rparr>))"
      using gc st2(1,4) by (simp add: put_document_def)
    show "store_wf st2" by (rule st2(2))
    show "doc_key (d\<lparr>md_content := f (md_content d)\<rparr>) = (user, ws_agent ws, path)" using d(1) by (simp add: doc_key_def)
    show "md_content (d\<lparr>md_content := f (md_content d)\<rparr>) = f (case content_of st (user, ws_agent ws, path) of Some c \<Rightarrow> c | None \<Rightarrow> [])"
      using d(2) by simp
    show "find_key st2 k = (if k = (user, ws_agent ws, path) then Some (d\<lparr>md_content := f (md_content d)\<rparr>) else find_key st k)" for k
      by (rule st2(3))
  qed
qed


lemma find_Some_in: "List.find P xs = Some x \<Longrightarrow> x \<in> set xs \<and> P x"
  by (auto simp: find_Some_iff)

lemma kept_step:
  assumes "kept_outside scopes st0 st" "user \<in> scopes" "store_wf st'"
    and "\<And>k. k \<noteq> (user, agent, path) \<Longrightarrow> find_key st' k = find_key st k"
  shows "kept_outside scopes st0 st'"
  unfolding kept_outside_def
proof (intro conjI allI impI)
  fix k :: doc_key
  assume "fst k \<notin> scopes"
  then have "k \<noteq> (user, agent, path)" using assms(2) by auto
  then show "find_key st' k = find_key st0 k"
    using assms(1,4) \<open>fst k \<notin> scopes\<close> by (simp only: kept_outside_def simp_thms)
qed (rule assms(3))

lemma put_kept:
  assumes "kept_outside scopes st0 st" "user \<in> scopes"
  shows "kept_outside scopes st0 (fst (put_document ws user path f st))"
proof -
  have "store_wf st" using assms(1) by (simp add: kept_outside_def)
  then obtain st' d where "put_document ws user path f st = (st', Inr d)" "store_wf st'"
    "\<And>k. find_key st' k = (if k = (user, ws_agent ws, path) then Some d else find_key st k)"
    using put_document[where ws = ws and user = user and path = path and f = f] by blast
  then show ?thesis using assms by (auto simp: kept_outside_def)
qed

lemma set_content_kept:
  assumes "get_or_create_document_by_path st user (ws_agent ws) path = (st1, d)" "kept_outside scopes st0 st" "user \<in> scopes"
  shows "kept_outside scopes st0 (fst (reindex_document ws (md_id d) (update_document (md_id d) c st1)))"
proof -
  have "store_wf st" using assms(2) by (simp add: kept_outside_def)
  with assms(1) obtain st2 where "reindex_document ws (md_id d) (update_document (md_id d) c st1) = (st2, Inr ())" "store_wf st2"
    "\<And>k. find_key st2 k = (if k = (user, ws_agent ws, path) then Some (d\<lparr>md_content := c\<rparr>) else find_key st k)"
    using set_content[where c = c] by blast
  then show ?thesis using assms by (auto simp: kept_outside_def)
qed

lemma created_kept:
  assumes "get_or_create_document_by_path st user agent path = (st1, d)" "kept_outside scopes st0 st" "user \<in> scopes"
  shows "kept_outside scopes st0 st1"
proof -
  have "store_wf st" using assms(2) by (simp add: kept_outside_def)
  then show ?thesis using get_or_create[OF assms(1)] kept_step[OF assms(2,3)] by blast
qed

lemma resolved_scope:
  "resolve_layer_target ws l c force = Inr (scope, name, r) \<Longrightarrow> scope \<in> set (writable_scopes (ws_layers ws))"
  by (auto simp: resolve_layer_target_def find_layer_def private_layer_def writable_scopes_def find_Some_iff
      split: option.splits if_splits)

lemma layer_put_kept:
  assumes "kept_outside (write_scopes ws) st0 st"
  shows "kept_outside (write_scopes ws) st0 (fst (layer_put ws l p c force f st))"
proof (cases "resolve_layer_target ws l c force")
  case (Inr t)
  obtain scope name r where t: "t = (scope, name, r)" by (cases t)
  then have "scope \<in> write_scopes ws" using Inr resolved_scope by (auto simp: write_scopes_def)
  then have "kept_outside (write_scopes ws) st0 (fst (put_document ws scope (ws_normalize_path p) f st))"
    using put_kept[OF assms] by blast
  then show ?thesis using Inr t by (auto simp: layer_put_def split: prod.split sum.split)
qed (use assms in \<open>simp add: layer_put_def\<close>)

lemma ws_append_kept:
  assumes "kept_outside scopes st0 st" "ws_user ws \<in> scopes"
  shows "kept_outside scopes st0 (fst (ws_append env ws p c st))"
proof -
  obtain st1 d where "get_or_create_document_by_path st (ws_user ws) (ws_agent ws) (ws_normalize_path p) = (st1, d)" by fastforce
  then show ?thesis using assms created_kept set_content_kept
    by (auto simp: ws_append_def Let_def split: option.split)
qed

lemma ws_perform_kept:
  assumes "kept_outside (write_scopes ws) st0 st"
  shows "kept_outside (write_scopes ws) st0 (ws_perform env ws oper st)"
proof -
  have u: "ws_user ws \<in> write_scopes ws" by (simp add: write_scopes_def)
  show ?thesis
  proof (cases oper)
    case (OpWrite p c)
    then show ?thesis using assms put_kept[OF assms u] by (auto simp: ws_write_def Let_def split: option.split)
  next
    case (OpDelete p)
    obtain st' r where "delete_document_by_path st (ws_user ws) (ws_agent ws) (ws_normalize_path p) = (st', r)" by fastforce
    moreover have "store_wf st" using assms by (simp add: kept_outside_def)
    ultimately have "kept_outside (write_scopes ws) st0 st'" using delete_document kept_step[OF assms u] by metis
    then show ?thesis using OpDelete \<open>delete_document_by_path st _ _ _ = (st', r)\<close> by (simp add: ws_delete_def)
  next
    case (OpAppendMemory c)
    obtain st1 d where "get_or_create_document_by_path st (ws_user ws) (ws_agent ws) p_MEMORY = (st1, d)" by fastforce
    then show ?thesis using OpAppendMemory set_content_kept[OF _ assms u] by (simp add: append_memory_def)
  next
    case (OpAppendDaily date time c)
    then show ?thesis using ws_append_kept[OF assms u, of env "daily_path date" "''['' @ time @ ''] '' @ c"]
      by (auto simp: append_daily_log_tz_def split: prod.split sum.split)
  next
    case (OpAppend p c)
    then show ?thesis using ws_append_kept[OF assms u] by simp
  qed (simp_all add: write_to_layer_def append_to_layer_def layer_put_kept[OF assms])
qed

interpretation ws_ops: op_invariant "ws_perform env ws" "kept_outside (write_scopes ws) st0"
  by unfold_locales (rule ws_perform_kept)

section \<open>Properties\<close>

text \<open>
  C23. Whatever a sequence of writes, appends and deletions does, to the workspace or to its layers, the
  documents of every scope other than the user and the writable layers stay as they were.
\<close>

theorem writes_stay_in_scope:
  assumes "store_wf st" "user \<noteq> ws_user ws" "user \<notin> set (writable_scopes (ws_layers ws))"
  shows "find_key (fold (ws_perform env ws) ops st) (user, agent, path) = find_key st (user, agent, path)"
proof -
  have "kept_outside (write_scopes ws) st st" using assms(1) by (simp add: kept_outside_def)
  then have "kept_outside (write_scopes ws) st (fold (ws_perform env ws) ops st)" by (rule ws_ops.fold_inv)
  then show ?thesis using assms by (simp add: kept_outside_def write_scopes_def)
qed

theorem writes_stay_in_scope_witness:
  "find_key (fold (ws_perform sample_safety_env (workspace_new ''alice'')) [OpWrite ''n.md'' ''x'', OpDelete ''n.md''] empty_store) (''bob'', None, ''n.md'') =
   find_key empty_store (''bob'', None, ''n.md'')"
  by (rule writes_stay_in_scope)
    (simp_all add: store_wf_def empty_store_def workspace_new_def layers_default_for_user_def writable_scopes_def)

text \<open>
  C24. A document that was written is read back by the same path with the same content, in the scope of the user, also
  when several scopes are read; no other document is changed.
\<close>

theorem write_then_read:
  assumes "store_wf st" "ws_wf ws" "scan_prompt_file env (ws_normalize_path p) c = None"
  shows "\<exists>st' d. ws_write env ws p c st = (st', Inr d) \<and> ws_read ws p st' = Inr d \<and> read_primary ws p st' = Inr d \<and>
    md_content d = c \<and> md_user d = ws_user ws \<and>
    (\<forall>k. k \<noteq> (ws_user ws, ws_agent ws, ws_normalize_path p) \<longrightarrow> find_key st' k = find_key st k)"
proof -
  obtain st' d where put: "put_document ws (ws_user ws) (ws_normalize_path p) (\<lambda>_. c) st = (st', Inr d)"
    "doc_key d = (ws_user ws, ws_agent ws, ws_normalize_path p)" "md_content d = c"
    "\<And>k. find_key st' k = (if k = (ws_user ws, ws_agent ws, ws_normalize_path p) then Some d else find_key st k)"
    using put_document[OF assms(1), where ws = ws and user = "ws_user ws" and path = "ws_normalize_path p" and f = "\<lambda>_. c"] by blast
  have own: "get_document_by_path st' (ws_user ws) (ws_agent ws) (ws_normalize_path p) = Inr d"
    using put(4) by (simp add: get_document_key)
  have "get_document_by_path_multi st' (ws_read_users ws) (ws_agent ws) (ws_normalize_path p) = Inr d"
    using assms(2) put(4) get_document_multi_first[of st' "ws_user ws" "ws_agent ws" "ws_normalize_path p" d "tl (ws_read_users ws)"]
    by (cases "ws_read_users ws") (auto simp: ws_wf_def)
  then show ?thesis
    using own put assms(3) by (auto simp: ws_write_def ws_read_def read_primary_def Let_def doc_key_def)
qed

theorem write_then_read_witness:
  "\<exists>st' d. ws_write sample_safety_env (workspace_new ''alice'') ''n.md'' ''x'' empty_store = (st', Inr d) \<and>
    ws_read (workspace_new ''alice'') ''n.md'' st' = Inr d \<and> read_primary (workspace_new ''alice'') ''n.md'' st' = Inr d \<and>
    md_content d = ''x'' \<and> md_user d = ws_user (workspace_new ''alice'') \<and>
    (\<forall>k. k \<noteq> (ws_user (workspace_new ''alice''), ws_agent (workspace_new ''alice''), ws_normalize_path ''n.md'') \<longrightarrow>
      find_key st' k = find_key empty_store k)"
proof (rule write_then_read)
  show "store_wf empty_store" by (simp add: store_wf_def empty_store_def)
  show "ws_wf (workspace_new ''alice'')" by (simp add: ws_wf_def workspace_new_def)
  have "\<not> is_system_prompt_file (ws_normalize_path ''n.md'')" by code_simp
  then show "scan_prompt_file sample_safety_env (ws_normalize_path ''n.md'') ''x'' = None" by (simp add: scan_prompt_file_def)
qed

text \<open>
  When content is refused as an injection for a file of the system prompt, a write to the private layer of the
  same workspace stores it in that file all the same, and so does an append to the memory.
\<close>

theorem layer_write_skips_scan:
  assumes "store_wf st" "is_system_prompt_file (ws_normalize_path p)" "c \<noteq> []"
    and "reject_if_injected env (ws_normalize_path p) c = Some e"
  shows "ws_write env (workspace_new user) p c st = (st, Inl e) \<and>
    content_of (fst (write_to_layer (workspace_new user) ''private'' p c force st)) (user, None, ws_normalize_path p) = Some c \<and>
    content_of (fst (append_memory (workspace_new user) c st)) (user, None, p_MEMORY) =
      Some (appended [newline, newline] c (case content_of st (user, None, p_MEMORY) of Some m \<Rightarrow> m | None \<Rightarrow> []))"
proof -
  let ?ws = "workspace_new user"
  have ag: "ws_agent ?ws = None" by (simp add: workspace_new_def)
  have target: "resolve_layer_target ?ws ''private'' c force = Inr (user, ''private'', False)"
    by (simp add: resolve_layer_target_def find_layer_def workspace_new_def layers_default_for_user_def)
  obtain st1 d1 where put1: "put_document ?ws user (ws_normalize_path p) (\<lambda>_. c) st = (st1, Inr d1)"
    "md_content d1 = c" "find_key st1 (user, ws_agent ?ws, ws_normalize_path p) = Some d1"
    using put_document[OF assms(1), where ws = ?ws and user = user and path = "ws_normalize_path p" and f = "\<lambda>_. c"] by metis
  obtain st2 d2 where gc: "get_or_create_document_by_path st user (ws_agent ?ws) p_MEMORY = (st2, d2)" by fastforce
  have m: "md_content d2 = (case content_of st (user, ws_agent ?ws, p_MEMORY) of Some m \<Rightarrow> m | None \<Rightarrow> [])"
    using get_or_create[OF gc assms(1)] by blast
  let ?n = "appended [newline, newline] c (md_content d2)"
  obtain st3 where st3: "reindex_document ?ws (md_id d2) (update_document (md_id d2) ?n st2) = (st3, Inr ())"
    "find_key st3 (user, ws_agent ?ws, p_MEMORY) = Some (d2\<lparr>md_content := ?n\<rparr>)"
    using set_content[OF gc assms(1), where c = ?n] by metis
  have "fst (append_memory ?ws c st) = st3"
    using gc st3(1) by (simp add: append_memory_def workspace_new_def)
  then show ?thesis
    using assms target put1 st3(2) m ag
    by (simp add: ws_write_def scan_prompt_file_def write_to_layer_def layer_put_def content_of_def)
qed


theorem layer_write_skips_scan_witness:
  "\<exists>e. ws_write injecting_env (workspace_new ''alice'') ''SOUL.md'' ''ignore previous'' empty_store = (empty_store, Inl e) \<and>
    content_of (fst (write_to_layer (workspace_new ''alice'') ''private'' ''SOUL.md'' ''ignore previous'' False empty_store))
      (''alice'', None, ws_normalize_path ''SOUL.md'') = Some ''ignore previous'' \<and>
    content_of (fst (append_memory (workspace_new ''alice'') ''ignore previous'' empty_store)) (''alice'', None, p_MEMORY) =
      Some (appended [newline, newline] ''ignore previous''
        (case content_of empty_store (''alice'', None, p_MEMORY) of Some m \<Rightarrow> m | None \<Rightarrow> []))"
proof -
  have "reject_if_injected injecting_env (ws_normalize_path ''SOUL.md'') ''ignore previous'' \<noteq> None" by code_simp
  then obtain e where "reject_if_injected injecting_env (ws_normalize_path ''SOUL.md'') ''ignore previous'' = Some e" by auto
  moreover have "is_system_prompt_file (ws_normalize_path ''SOUL.md'')" by code_simp
  moreover have "store_wf empty_store" by (simp add: store_wf_def empty_store_def)
  ultimately show ?thesis using layer_write_skips_scan[of empty_store "''SOUL.md''" "''ignore previous''" injecting_env e "''alice''" False] by auto
qed

text \<open>
  A write to a layer goes to a writable layer. Content that the classifier finds sensitive goes to a private one,
  unless the write is forced, and the result says when it was redirected.
\<close>

theorem sensitive_content_private:
  assumes "resolve_layer_target ws layer_name content force = Inr (scope, actual_layer, redirected)"
  shows "\<exists>l\<in>set (ws_layers ws). ly_scope l = scope \<and> ly_name l = actual_layer \<and> ly_writable l \<and>
    (\<not> force \<and> ws_classifier ws = Some classify \<and> classify content \<longrightarrow> ly_sensitivity l = Private) \<and>
    (redirected \<longrightarrow> ly_sensitivity l = Private) \<and> (\<not> redirected \<longrightarrow> actual_layer = layer_name)"
proof -
  obtain l where l: "find_layer (ws_layers ws) layer_name = Some l" "ly_writable l"
    using assms by (auto simp: resolve_layer_target_def split: option.splits if_splits)
  have in_l: "l \<in> set (ws_layers ws)" "ly_name l = layer_name" using l(1) find_Some_in unfolding find_layer_def by fast+
  show ?thesis
  proof (cases redirected)
    case True
    then obtain q where q: "private_layer (ws_layers ws) = Some q" "ly_writable q" "scope = ly_scope q" "actual_layer = ly_name q"
      using assms l by (auto simp: resolve_layer_target_def split: option.splits if_splits)
    then have "q \<in> set (ws_layers ws)" "ly_sensitivity q = Private" using q(1) find_Some_in unfolding private_layer_def by fast+
    then show ?thesis using q True by blast
  next
    case False
    then have "scope = ly_scope l" "actual_layer = layer_name"
      "force \<or> ly_sensitivity l \<noteq> Shared \<or> \<not> (case ws_classifier ws of Some f \<Rightarrow> f content | None \<Rightarrow> False)"
      using assms l by (auto simp: resolve_layer_target_def split: option.splits if_splits)
    then show ?thesis using in_l l(2) False by (intro bexI[of _ l]) (auto, metis layer_sensitivity.exhaust)
  qed
qed

theorem sensitive_content_private_witness:
  "\<exists>l\<in>set (ws_layers (workspace_new ''alice'')). ly_scope l = ''alice'' \<and> ly_name l = ''private'' \<and> ly_writable l \<and>
    (\<not> False \<and> ws_classifier (workspace_new ''alice'') = Some (\<lambda>_. True) \<and> (\<lambda>_. True) ''x'' \<longrightarrow> ly_sensitivity l = Private) \<and>
    (False \<longrightarrow> ly_sensitivity l = Private) \<and> (\<not> False \<longrightarrow> ''private'' = ''private'')"
  by (rule sensitive_content_private)
    (simp add: resolve_layer_target_def find_layer_def workspace_new_def layers_default_for_user_def)

text \<open>
  An identity document is read from the scope of the user alone, and every other document from one of
  the scopes that are read.
\<close>

theorem identity_read_from_user:
  assumes "ws_wf ws" "ws_read ws p st = Inr d"
  shows "md_user d \<in> set (ws_read_users ws) \<and> (is_identity_path (ws_normalize_path p) \<longrightarrow> md_user d = ws_user ws)"
proof -
  have "ws_user ws \<in> set (ws_read_users ws)" using assms(1) by (cases "ws_read_users ws") (auto simp: ws_wf_def)
  then show ?thesis
    using assms(2) get_document_owner get_document_multi_owner
    by (auto simp: ws_read_def Let_def split: if_splits)
qed

theorem identity_read_from_user_witness:
  "md_user \<lparr>md_id = 0, md_user = ''alice'', md_agent = None, md_path = ''SOUL.md'', md_content = ''x''\<rparr> \<in> set (ws_read_users (workspace_new ''alice'')) \<and>
   (is_identity_path (ws_normalize_path ''SOUL.md'') \<longrightarrow>
     md_user \<lparr>md_id = 0, md_user = ''alice'', md_agent = None, md_path = ''SOUL.md'', md_content = ''x''\<rparr> = ws_user (workspace_new ''alice''))"
proof (rule identity_read_from_user)
  show "ws_wf (workspace_new ''alice'')" by (simp add: ws_wf_def workspace_new_def)
  show "ws_read (workspace_new ''alice'') ''SOUL.md''
     \<lparr>ms_documents = [\<lparr>md_id = 0, md_user = ''alice'', md_agent = None, md_path = ''SOUL.md'', md_content = ''x''\<rparr>], ms_chunks = [], ms_next = 1\<rparr> =
    Inr \<lparr>md_id = 0, md_user = ''alice'', md_agent = None, md_path = ''SOUL.md'', md_content = ''x''\<rparr>"
    by code_simp
qed

text \<open>
  The path that a document gets is not always a path by which it is found: with a blank after the leading slash, the
  stored path starts with the blank and its normalization does not.
\<close>

theorem stored_path_not_found:
  "\<exists>st' d. ws_write env (workspace_new user) ''/ notes'' c empty_store = (st', Inr d) \<and>
    ws_list_all (workspace_new user) st' = [md_path d] \<and>
    ws_read (workspace_new user) (md_path d) st' = Inl (DocumentNotFound ''notes'' user)"
proof -
  let ?ws = "workspace_new user"
  have wf: "store_wf empty_store" by (simp add: store_wf_def empty_store_def)
  have n: "ws_normalize_path ''/ notes'' = '' notes''" "ws_normalize_path '' notes'' = ''notes''" by code_simp+
  have "\<not> is_system_prompt_file '' notes''" by code_simp
  then have w: "ws_write env ?ws ''/ notes'' c empty_store = put_document ?ws user '' notes'' (\<lambda>_. c) empty_store"
    by (simp add: ws_write_def n scan_prompt_file_def) (simp add: workspace_new_def)
  obtain st' d where put: "put_document ?ws user '' notes'' (\<lambda>_. c) empty_store = (st', Inr d)" "store_wf st'"
    "doc_key d = (user, ws_agent ?ws, '' notes'')"
    "\<And>k. find_key st' k = (if k = (user, ws_agent ?ws, '' notes'') then Some d else find_key empty_store k)"
    using put_document[OF wf, where ws = ?ws and user = user and path = "'' notes''" and f = "\<lambda>_. c"] by blast
  have only: "ms_documents st' = [d]"
  proof -
    have "x = d" if "x \<in> set (ms_documents st')" for x
      using find_key_eq[OF put(2) that] put(4)[of "doc_key x"] by (simp add: find_key_def empty_store_def split: if_splits)
    moreover have "d \<in> set (ms_documents st')" using put(3) find_key_Some[of st' "doc_key d" d] put(4)[of "doc_key d"] by simp
    moreover have "distinct (ms_documents st')" using put(2) by (simp add: store_wf_def distinct_map)
    ultimately show ?thesis by (metis distinct_length_2_or_more list.set_intros neq_Nil_conv set_empty2 empty_iff empty_set list.set_cases)
  qed
  then show ?thesis
    using w put(1,3) n
    by (auto simp: ws_list_all_def is_multi_scope_def list_all_paths_def ws_read_def get_document_by_path_def find_key_def
        workspace_new_def doc_key_def)
qed

end
