(* ===== verification/Workspace_Prompt.thy ===== *)
theory Workspace_Prompt
  imports Workspace Http_Tool
begin

text \<open>
  The system prompt of a workspace, the documents that are derived from the profile of a user, seeding and import
  (\<open>src/workspace/mod.rs\<close>), and the tool that writes to the memory (\<open>src/tools/builtin/memory.rs\<close>). A
  profile has the fields that the prompt uses; how it is parsed and rendered are the fields of \<open>profile_env\<close>.
\<close>

section \<open>Model\<close>

subsection \<open>Profile sections\<close>

definition PROFILE_SECTION_BEGIN :: string where
  "PROFILE_SECTION_BEGIN = ''<!-- BEGIN:profile-sync -->''"

definition PROFILE_SECTION_END :: string where
  "PROFILE_SECTION_END = ''<!-- END:profile-sync -->''"

definition trim_end :: "string \<Rightarrow> string" where
  "trim_end s = rev (dropWhile is_ascii_ws (rev s))"

definition wrap_profile_section :: "string \<Rightarrow> string" where
  "wrap_profile_section content = PROFILE_SECTION_BEGIN @ [newline] @ content @ [newline] @ PROFILE_SECTION_END"

definition is_seed_template :: "string \<Rightarrow> bool" where
  "is_seed_template content =
     (let trimmed = trim content in starts_with ''# User Context'' trimmed \<and> str_contains ''- **Name:**'' trimmed)"

text \<open>The positions of a section: where its first marker starts and where the end marker after it ends.\<close>

definition profile_section :: "string \<Rightarrow> (nat \<times> nat) option" where
  "profile_section existing =
     (case find_sub PROFILE_SECTION_BEGIN existing of
        None \<Rightarrow> None
      | Some b \<Rightarrow>
          (case find_sub PROFILE_SECTION_END (drop b existing) of
             None \<Rightarrow> None
           | Some e \<Rightarrow> Some (b, b + e + length PROFILE_SECTION_END)))"

definition merge_profile_section :: "string \<Rightarrow> string \<Rightarrow> string" where
  "merge_profile_section existing new_content =
     (let delimited = wrap_profile_section new_content
      in case profile_section existing of
           Some (b, e) \<Rightarrow> take b existing @ delimited @ drop e existing
         | None \<Rightarrow>
             if starts_with ''<!-- Auto-generated from context/profile.json'' existing then delimited
             else if is_seed_template existing then delimited
             else
               (let trimmed = trim_end existing
                in if trimmed = [] then delimited else trimmed @ [newline, newline] @ delimited))"

record profile =
  pf_cohort :: string
  pf_tone :: string
  pf_detail_level :: string
  pf_formality :: string
  pf_pace :: string
  pf_response_speed :: string
  pf_decision_making :: string
  pf_proactivity :: string
  pf_feedback_style :: string
  pf_proactivity_style :: string
  pf_notification_preferences :: string
  pf_goals :: "string list"
  pf_pain_points :: "string list"
  pf_updated_at :: string
  pf_confident :: bool
  pf_populated :: bool

text \<open>
  \<open>pe_age\<close> is the age in seconds of a time stamp, when it can be parsed; \<open>pf_confident\<close> is the comparison of the
  confidence with \<open>0.6\<close>.
\<close>

record profile_env =
  pe_parse :: "string \<Rightarrow> profile option"
  pe_age :: "string \<Rightarrow> int option"
  pe_framework :: string
  pe_schema :: string
  pe_user_md :: "profile \<Rightarrow> string"
  pe_directives :: "profile \<Rightarrow> string"
  pe_heartbeat :: "profile \<Rightarrow> string"

definition is_profile_recent :: "profile_env \<Rightarrow> string \<Rightarrow> int \<Rightarrow> bool" where
  "is_profile_recent pe updated_at max_days =
     (case pe_age pe updated_at of
        None \<Rightarrow> False
      | Some age \<Rightarrow> \<not> age < 0 \<and> age div 86400 \<le> max_days)"

definition profile_tier1 :: "profile \<Rightarrow> string" where
  "profile_tier1 p =
     ''## Interaction Style'' @ [newline, newline] @ pf_cohort p @ '' | '' @ pf_tone p @ '' tone | '' @ pf_detail_level p @
     '' detail | '' @ pf_proactivity p @ '' proactivity''"

definition optional_part :: "bool \<Rightarrow> string \<Rightarrow> string" where
  "optional_part b s = (if b then s else [])"

definition profile_tier2 :: "profile \<Rightarrow> string" where
  "profile_tier2 p =
     ''## Personalization'' @ [newline, newline] @
     ''Communication: '' @ pf_tone p @ '' tone, '' @ pf_formality p @ '' formality, '' @ pf_detail_level p @ '' detail, '' @
     pf_pace p @ '' pace'' @
     optional_part (pf_response_speed p \<noteq> ''unknown'') ('', '' @ pf_response_speed p @ '' response speed'') @
     optional_part (pf_decision_making p \<noteq> ''unknown'') ('', '' @ pf_decision_making p @ '' decision-making'') @ ''.'' @
     optional_part (pf_feedback_style p \<noteq> ''direct'') ([newline] @ ''Feedback style: '' @ pf_feedback_style p @ ''.'') @
     optional_part (pf_proactivity_style p \<noteq> ''reactive'') ([newline] @ ''Proactivity style: '' @ pf_proactivity_style p @ ''.'') @
     optional_part (pf_notification_preferences p \<noteq> ''moderate'' \<and> pf_notification_preferences p \<noteq> ''unknown'')
       ([newline] @ ''Notification preference: '' @ pf_notification_preferences p @ ''.'') @
     optional_part (pf_goals p \<noteq> []) ([newline] @ ''Active goals: '' @ str_join '', '' (pf_goals p) @ ''.'') @
     optional_part (pf_pain_points p \<noteq> []) ([newline] @ ''Known pain points: '' @ str_join '', '' (pf_pain_points p) @ ''.'')"

subsection \<open>The system prompt\<close>

definition section_of :: "string \<Rightarrow> (workspace_error, memory_document) result \<Rightarrow> string list" where
  "section_of header r =
     (case r of
        Inr d \<Rightarrow> if md_content d \<noteq> [] then [header @ [newline, newline] @ md_content d] else []
      | Inl _ \<Rightarrow> [])"

definition bootstrap_parts :: "workspace \<Rightarrow> memory_store \<Rightarrow> string list" where
  "bootstrap_parts ws st =
     (if ws_bootstrap_completed ws then [] else section_of ''## First-Run Bootstrap'' (read_primary ws p_BOOTSTRAP st))"

definition identity_parts :: "workspace \<Rightarrow> memory_store \<Rightarrow> string list" where
  "identity_parts ws st =
     concat (map (\<lambda>(path, header). section_of header (read_primary ws path st))
       [(p_AGENTS, ''## Agent Instructions''), (p_SOUL, ''## Core Values''), (p_USER, ''## User Context''),
        (p_IDENTITY, ''## Identity'')])"

text \<open>A daily log is made when there is none.\<close>

fun daily_parts :: "workspace \<Rightarrow> string \<Rightarrow> string list \<Rightarrow> memory_store \<Rightarrow> memory_store \<times> string list" where
  "daily_parts ws today [] st = (st, [])"
| "daily_parts ws today (date # dates) st =
     (case read_or_create ws (daily_path date) st of
        (st1, d) \<Rightarrow>
          (case daily_parts ws today dates st1 of
             (st2, parts) \<Rightarrow>
               (st2, section_of (if date = today then ''## Today'' @ [CHR 0x27] @ ''s Notes'' else ''## Yesterday'' @ [CHR 0x27] @ ''s Notes'')
                       (Inr d) @ parts)))"

definition read_profile :: "profile_env \<Rightarrow> workspace \<Rightarrow> memory_store \<Rightarrow> profile option" where
  "read_profile pe ws st =
     (case ws_read ws p_PROFILE st of
        Inr d \<Rightarrow> if md_content d \<noteq> [] then pe_parse pe (md_content d) else None
      | Inl _ \<Rightarrow> None)"

definition profile_parts :: "profile_env \<Rightarrow> profile option \<Rightarrow> string list" where
  "profile_parts pe prof =
     (case prof of
        Some p \<Rightarrow>
          if pf_populated p
          then [profile_tier1 p] @
            (if pf_confident p \<and> is_profile_recent pe (pf_updated_at p) 7 then [profile_tier2 p] else [])
          else []
      | None \<Rightarrow> [])"

definition onboarding_part :: "profile_env \<Rightarrow> string" where
  "onboarding_part pe =
     ''PROFILE ANALYSIS FRAMEWORK:'' @ [newline] @ pe_framework pe @ [newline, newline] @
     ''PROFILE JSON SCHEMA:'' @ [newline] @ ''Write to `context/profile.json` using `memory_write` with this exact structure:'' @
     [newline] @ pe_schema pe @ [newline, newline] @
     ''If the conversation doesn'' @ [CHR 0x27] @ ''t reveal enough about a dimension, use defaults/unknown.'' @ [newline] @
     ''For personality trait scores: 40-60 is average range. Default to 50 if unclear.'' @ [newline] @
     ''Only score above 70 or below 30 with strong evidence.''"

definition directives_parts :: "workspace \<Rightarrow> memory_store \<Rightarrow> string list" where
  "directives_parts ws st =
     (case ws_read ws p_ASSISTANT_DIRECTIVES st of
        Inr d \<Rightarrow> if md_content d \<noteq> [] then [md_content d] else []
      | Inl _ \<Rightarrow> [])"

definition system_prompt_parts ::
  "profile_env \<Rightarrow> workspace \<Rightarrow> bool \<Rightarrow> string \<Rightarrow> string \<Rightarrow> memory_store \<Rightarrow> memory_store \<times> string list"
where
  "system_prompt_parts pe ws is_group_chat today yesterday st =
     (let boot = bootstrap_parts ws st;
          before = boot @ identity_parts ws st @ section_of ''## Tool Notes'' (read_primary ws p_TOOLS st) @
            (if \<not> is_group_chat then section_of ''## Long-Term Memory'' (ws_read ws p_MEMORY st) else [])
      in case daily_parts ws today [today, yesterday] st of
           (st1, daily) \<Rightarrow>
             (st1, before @ daily @
               (if \<not> is_group_chat
                then profile_parts pe (read_profile pe ws st1) @
                  (if boot \<noteq> [] \<and> read_profile pe ws st1 = None then [onboarding_part pe] else []) @
                  directives_parts ws st1
                else [])))"

definition system_prompt_for_context_inner ::
  "profile_env \<Rightarrow> workspace \<Rightarrow> bool \<Rightarrow> string \<Rightarrow> string \<Rightarrow> memory_store \<Rightarrow> memory_store \<times> string"
where
  "system_prompt_for_context_inner pe ws is_group_chat today yesterday st =
     (case system_prompt_parts pe ws is_group_chat today yesterday st of
        (st1, parts) \<Rightarrow> (st1, str_join ([newline, newline] @ ''---'' @ [newline, newline]) parts))"

subsection \<open>Derived documents\<close>

definition sync_profile_documents ::
  "safety_env \<Rightarrow> profile_env \<Rightarrow> workspace \<Rightarrow> memory_store \<Rightarrow> memory_store \<times> (workspace_error, bool) result"
where
  "sync_profile_documents env pe ws st =
     (case read_profile pe ws st of
        None \<Rightarrow> (st, Inr False)
      | Some p \<Rightarrow>
          if \<not> pf_populated p then (st, Inr False)
          else
            (let merged = (case ws_read ws p_USER st of
                   Inr d \<Rightarrow> merge_profile_section (md_content d) (pe_user_md pe p)
                 | Inl _ \<Rightarrow> wrap_profile_section (pe_user_md pe p))
             in case ws_write env ws p_USER merged st of
                  (st1, Inl e) \<Rightarrow> (st1, Inl e)
                | (st1, Inr _) \<Rightarrow>
                    (case ws_write env ws p_ASSISTANT_DIRECTIVES (pe_directives pe p) st1 of
                       (st2, Inl e) \<Rightarrow> (st2, Inl e)
                     | (st2, Inr _) \<Rightarrow>
                         (case ws_read ws p_HEARTBEAT st2 of
                            Inr _ \<Rightarrow> (st2, Inr True)
                          | Inl _ \<Rightarrow>
                              (case ws_write env ws p_HEARTBEAT (pe_heartbeat pe p) st2 of
                                 (st3, Inl e) \<Rightarrow> (st3, Inl e)
                               | (st3, Inr _) \<Rightarrow> (st3, Inr True))))))"

subsection \<open>Seeding and import\<close>

definition seed_file ::
  "safety_env \<Rightarrow> workspace \<Rightarrow> string \<times> string \<Rightarrow> memory_store \<times> nat \<Rightarrow> memory_store \<times> nat"
where
  "seed_file env ws f s =
     (case (f, s) of
        ((path, content), (st, n)) \<Rightarrow>
          (case read_primary ws path st of
             Inr _ \<Rightarrow> (st, n)
           | Inl (DocumentNotFound _ _) \<Rightarrow>
               (case ws_write env ws path content st of
                  (st1, Inl _) \<Rightarrow> (st1, n)
                | (st1, Inr _) \<Rightarrow> (st1, Suc n))
           | Inl _ \<Rightarrow> (st, n)))"

definition not_found :: "(workspace_error, memory_document) result \<Rightarrow> bool" where
  "not_found r = (case r of Inl (DocumentNotFound _ _) \<Rightarrow> True | _ \<Rightarrow> False)"

definition is_fresh_workspace :: "workspace \<Rightarrow> memory_store \<Rightarrow> bool" where
  "is_fresh_workspace ws st =
     (case read_primary ws p_BOOTSTRAP st of
        Inr _ \<Rightarrow> False
      | Inl _ \<Rightarrow> not_found (read_primary ws p_AGENTS st) \<and> not_found (read_primary ws p_SOUL st) \<and>
                 not_found (read_primary ws p_USER st))"

definition has_profile :: "profile_env \<Rightarrow> workspace \<Rightarrow> memory_store \<Rightarrow> bool" where
  "has_profile pe ws st =
     (case read_primary ws p_PROFILE st of
        Inr d \<Rightarrow> trim (md_content d) \<noteq> [] \<and> pe_parse pe (md_content d) \<noteq> None
      | Inl _ \<Rightarrow> False)"

text \<open>The texts of the seeds are files of the source, given by their paths. The flag for the greeting is set in the workspace.\<close>

definition seed_if_empty ::
  "safety_env \<Rightarrow> profile_env \<Rightarrow> (string \<Rightarrow> string) \<Rightarrow> workspace \<Rightarrow> memory_store \<Rightarrow> workspace \<times> memory_store \<times> nat"
where
  "seed_if_empty env pe seeds ws st =
     (let fresh = is_fresh_workspace ws st;
          files = map (\<lambda>p. (p, seeds p)) [p_README, p_MEMORY, p_IDENTITY, p_SOUL, p_AGENTS, p_USER, p_HEARTBEAT, p_TOOLS]
      in case fold (seed_file env ws) files (st, 0) of
           (st1, n) \<Rightarrow>
             if fresh \<and> \<not> has_profile pe ws st1
             then (case ws_write env ws p_BOOTSTRAP (seeds p_BOOTSTRAP) st1 of
                     (st2, Inl _) \<Rightarrow> (ws, st2, n)
                   | (st2, Inr _) \<Rightarrow> (ws\<lparr>ws_bootstrap_pending := True\<rparr>, st2, Suc n))
             else (ws, st1, n))"

text \<open>The entries of the directory: the name, and the text when it can be read.\<close>

definition has_md_extension :: "string \<Rightarrow> bool" where
  "has_md_extension name = (ends_with ''.md'' name \<and> length name > 3)"

definition import_file ::
  "safety_env \<Rightarrow> workspace \<Rightarrow> string \<times> string option \<Rightarrow> memory_store \<times> nat \<Rightarrow> memory_store \<times> nat"
where
  "import_file env ws f s =
     (case (f, s) of
        ((name, text_of), (st, n)) \<Rightarrow>
          if \<not> has_md_extension name then (st, n)
          else if \<not> not_found (ws_read ws name st) then (st, n)
          else
            (case text_of of
               None \<Rightarrow> (st, n)
             | Some content \<Rightarrow>
                 if trim content = [] then (st, n)
                 else
                   (case ws_write env ws name content st of
                      (st1, Inl _) \<Rightarrow> (st1, n)
                    | (st1, Inr _) \<Rightarrow> (st1, Suc n))))"

definition import_from_directory ::
  "safety_env \<Rightarrow> workspace \<Rightarrow> (workspace_error, (string \<times> string option) list) result option \<Rightarrow> memory_store \<Rightarrow>
   memory_store \<times> (workspace_error, nat) result"
where
  "import_from_directory env ws dir st =
     (case dir of
        None \<Rightarrow> (st, Inr 0)
      | Some (Inl e) \<Rightarrow> (st, Inl e)
      | Some (Inr entries) \<Rightarrow> (case fold (import_file env ws) entries (st, 0) of (st1, n) \<Rightarrow> (st1, Inr n)))"


subsection \<open>The memory tool\<close>

definition looks_like_filesystem_path :: "string \<Rightarrow> bool" where
  "looks_like_filesystem_path path =
     (starts_with ''/'' path \<or> starts_with ''~/'' path \<or>
      (length path \<ge> 3 \<and> (is_ascii_upper (path ! 0) \<or> is_ascii_lower (path ! 0)) \<and> path ! 1 = CHR '':'' \<and>
       (path ! 2 = CHR 0x5C \<or> path ! 2 = CHR ''/'')))"

fun workspace_error_str :: "workspace_error \<Rightarrow> string" where
  "workspace_error_str (DocumentNotFound doc user) = ''Document not found: '' @ doc @ '' for user '' @ user"
| "workspace_error_str (EmbeddingFailed reason) = ''Embedding generation failed: '' @ reason"
| "workspace_error_str (IoError reason) = ''I/O error: '' @ reason"
| "workspace_error_str (LayerNotFound name) = ''Layer not found: '' @ name"
| "workspace_error_str (LayerReadOnly name) = ''Layer '' @ quoted name @ '' is read-only''"
| "workspace_error_str PrivacyRedirectFailed = ''Cannot write sensitive content: no private layer available for redirect''"
| "workspace_error_str (InjectionRejected path reason) =
     ''Write rejected for '' @ quoted path @ '': prompt injection detected ('' @ reason @ '')''"

fun map_write_err :: "workspace_error \<Rightarrow> tool_error" where
  "map_write_err (InjectionRejected path reason) =
     NotAuthorized (''content rejected for '' @ quoted path @ '': prompt injection detected ('' @ reason @ '')'')"
| "map_write_err e = ExecutionFailed (''Write failed: '' @ workspace_error_str e)"

definition memory_target :: "string \<Rightarrow> string \<Rightarrow> string" where
  "memory_target date target =
     (if target = ''memory'' then p_MEMORY
      else if target = ''daily_log'' then daily_path date
      else if target = ''heartbeat'' then p_HEARTBEAT
      else target)"

definition unit_result :: "memory_store \<times> ('e, 'a) result \<Rightarrow> memory_store \<times> ('e, unit) result" where
  "unit_result r = (fst r, case snd r of Inl e \<Rightarrow> Inl e | Inr _ \<Rightarrow> Inr ())"

text \<open>The write without a layer.\<close>

definition memory_write_default ::
  "safety_env \<Rightarrow> workspace \<Rightarrow> string \<Rightarrow> string \<Rightarrow> string \<Rightarrow> bool \<Rightarrow> string \<Rightarrow> memory_store \<Rightarrow>
   memory_store \<times> (workspace_error, unit) result"
where
  "memory_write_default env ws date time target is_append content st =
     (if target = ''memory''
      then (if is_append then append_memory ws content st else unit_result (ws_write env ws p_MEMORY content st))
      else if target = ''daily_log'' then unit_result (append_daily_log_tz env ws date time content st)
      else if is_append then ws_append env ws (memory_target date target) content st
      else unit_result (ws_write env ws (memory_target date target) content st))"

definition memory_write_layer ::
  "workspace \<Rightarrow> string \<Rightarrow> string \<Rightarrow> bool \<Rightarrow> bool \<Rightarrow> string \<Rightarrow> memory_store \<Rightarrow> memory_store \<times> (workspace_error, write_result) result"
where
  "memory_write_layer ws layer_name path is_append force content st =
     (if is_append then append_to_layer ws layer_name path content force st
      else write_to_layer ws layer_name path content force st)"

text \<open>The layer that was written and whether the write was redirected, when a layer was given.\<close>

definition memory_store_content ::
  "safety_env \<Rightarrow> workspace \<Rightarrow> string \<Rightarrow> string \<Rightarrow> json \<Rightarrow> string \<Rightarrow> bool \<Rightarrow> string \<Rightarrow> memory_store \<Rightarrow>
   memory_store \<times> (workspace_error, (string \<times> bool) option) result"
where
  "memory_store_content env ws date time params target is_append content st =
     (case Option.bind (json_get ''layer'' params) as_str of
        Some layer_name \<Rightarrow>
          (case memory_write_layer ws layer_name (memory_target date target) is_append
                  (json_get ''force'' params = Some (JBool True)) content st of
             (st1, Inl e) \<Rightarrow> (st1, Inl e)
           | (st1, Inr r) \<Rightarrow> (st1, Inr (Some (wr_actual_layer r, wr_redirected r))))
      | None \<Rightarrow>
          (case memory_write_default env ws date time target is_append content st of
             (st1, Inl e) \<Rightarrow> (st1, Inl e)
           | (st1, Inr _) \<Rightarrow> (st1, Inr None)))"

text \<open>Persisting the flag of the onboarding in the settings is left out.\<close>

definition memory_write ::
  "safety_env \<Rightarrow> profile_env \<Rightarrow> string \<Rightarrow> string \<Rightarrow> json \<Rightarrow> workspace \<Rightarrow> memory_store \<Rightarrow>
   workspace \<times> memory_store \<times> (tool_error, json) result"
where
  "memory_write env pe date time params ws st =
     (case require_str params ''content'' of
        Inl e \<Rightarrow> (ws, st, Inl e)
      | Inr content \<Rightarrow>
          (let target = (case Option.bind (json_get ''target'' params) as_str of Some t \<Rightarrow> t | None \<Rightarrow> ''daily_log'')
           in if looks_like_filesystem_path target
              then (ws, st, Inl (InvalidParameters (quoted target @
                     '' looks like a local filesystem path. memory_write only works with workspace-memory paths. '' @
                     ''Use write_file for filesystem writes. For opening files in an editor, use shell with: open '' @
                     [CHR 0x22] @ ''<absolute_path>'' @ [CHR 0x22] @ ''.'')))
              else if target = ''bootstrap''
              then (case ws_write env ws p_BOOTSTRAP [] st of
                      (st1, Inl e) \<Rightarrow> (ws, st1, Inl (map_write_err e))
                    | (st1, Inr _) \<Rightarrow>
                        (ws\<lparr>ws_bootstrap_completed := True\<rparr>, st1,
                         Inr (JObject [(''message'', JString ''BOOTSTRAP.md cleared. First-run ritual will not repeat.''),
                           (''path'', JString p_BOOTSTRAP), (''status'', JString ''cleared'')])))
              else if trim content = [] then (ws, st, Inl (InvalidParameters ''content cannot be empty''))
              else
                (let is_append = (case json_get ''append'' params of Some (JBool b) \<Rightarrow> b | _ \<Rightarrow> True);
                     path = memory_target date target
                 in case memory_store_content env ws date time params target is_append content st of
                      (st1, Inl e) \<Rightarrow> (ws, st1, Inl (map_write_err e))
                    | (st1, Inr layer_result) \<Rightarrow>
                        (let synced = (if ws_normalize_path path = p_PROFILE then sync_profile_documents env pe ws st1
                                       else (st1, Inr False));
                             done = (snd synced = Inr True)
                         in (if done then ws\<lparr>ws_bootstrap_completed := True\<rparr> else ws, fst synced,
                             Inr (JObject
                               ([(''append'', JBool is_append), (''content_length'', JNumber (PosInt (of_nat (length content))))] @
                                (case layer_result of Some (l, _) \<Rightarrow> [(''layer'', JString l)] | None \<Rightarrow> []) @
                                [(''path'', JString path)] @
                                (case layer_result of Some (_, r) \<Rightarrow> [(''redirected'', JBool r)] | None \<Rightarrow> []) @
                                [(''status'', JString ''written'')] @
                                (if done then [(''synced'', JArray [JString p_USER, JString p_ASSISTANT_DIRECTIVES])] else []))))))))"

text \<open>The time of the last change, which the result also has, is an argument.\<close>

definition memory_read :: "string \<Rightarrow> json \<Rightarrow> workspace \<Rightarrow> memory_store \<Rightarrow> (tool_error, json) result" where
  "memory_read updated_at params ws st =
     (case require_str params ''path'' of
        Inl e \<Rightarrow> Inl e
      | Inr path \<Rightarrow>
          if looks_like_filesystem_path path
          then Inl (InvalidParameters (quoted path @
                 '' looks like a local filesystem path. memory_read only works with workspace-memory paths. '' @
                 ''Use read_file for filesystem reads. For opening files in an editor, use shell with: open '' @
                 [CHR 0x22] @ ''<absolute_path>'' @ [CHR 0x22] @ ''.''))
          else
            (case ws_read ws path st of
               Inl e \<Rightarrow> Inl (ExecutionFailed (''Read failed: '' @ workspace_error_str e))
             | Inr d \<Rightarrow>
                 Inr (JObject [(''content'', JString (md_content d)), (''path'', JString (md_path d)),
                   (''updated_at'', JString updated_at),
                   (''word_count'', JNumber (PosInt (of_nat (length (split_whitespace (md_content d))))))])))"

subsection \<open>Samples\<close>

definition sample_profile :: profile where
  "sample_profile =
     \<lparr>pf_cohort = ''other'', pf_tone = ''calm'', pf_detail_level = ''low'', pf_formality = ''low'', pf_pace = ''slow'',
      pf_response_speed = ''unknown'', pf_decision_making = ''unknown'', pf_proactivity = ''low'',
      pf_feedback_style = ''direct'', pf_proactivity_style = ''reactive'', pf_notification_preferences = ''unknown'',
      pf_goals = [''rest''], pf_pain_points = [], pf_updated_at = [], pf_confident = False, pf_populated = True\<rparr>"

definition sample_profile_env :: profile_env where
  "sample_profile_env =
     \<lparr>pe_parse = (\<lambda>c. if c = ''{}'' then Some sample_profile else None), pe_age = (\<lambda>_. None), pe_framework = [], pe_schema = [],
      pe_user_md = (\<lambda>_. ''# Bob''), pe_directives = (\<lambda>_. ''Be calm''), pe_heartbeat = (\<lambda>_. [])\<rparr>"

definition bobs_profile :: memory_document where
  "bobs_profile = \<lparr>md_id = 0, md_user = ''bob'', md_agent = None, md_path = p_PROFILE, md_content = ''{}''\<rparr>"

section \<open>Lemmas\<close>

subsection \<open>Profile sections\<close>

lemma find_sub_skip:
  assumes "c \<notin> set p" "p \<noteq> []" "\<not> sublist p q"
  shows "find_sub p (q @ c # r) = map_option (\<lambda>i. length q + 1 + i) (find_sub p r)"
  using assms(3)
proof (induction q)
  case Nil
  have "\<not> prefix p (c # r)" using assms(1,2) by (cases p) auto
  then show ?case by (cases "find_sub p r") simp_all
next
  case (Cons x q)
  have "\<not> prefix p (x # q @ c # r)"
  proof
    assume "prefix p (x # q @ c # r)"
    then have "prefix p ((x # q) @ c # r)" by simp
    then have "prefix p (x # q) \<or> (\<exists>us. p = (x # q) @ us \<and> prefix us (c # r))" unfolding prefix_append .
    moreover have "us = []" if "p = (x # q) @ us" "prefix us (c # r)" for us using that assms(1) by (cases us) auto
    ultimately have "prefix p (x # q)" by auto
    then show False using Cons.prems by auto
  qed
  moreover have "\<not> sublist p q" using Cons.prems by (simp add: sublist_Cons_right)
  ultimately show ?case using Cons.IH by (cases "find_sub p r") simp_all
qed

lemma find_sub_first_at: "(\<And>j. j < i \<Longrightarrow> \<not> prefix p (drop j s)) \<Longrightarrow> prefix p (drop i s) \<Longrightarrow> i \<le> length s \<Longrightarrow> find_sub p s = Some i"
proof (induction s arbitrary: i)
  case (Cons c s)
  show ?case
  proof (cases i)
    case (Suc k)
    have "\<not> prefix p (c # s)" using Cons.prems(1)[of 0] Suc by simp
    moreover have "find_sub p s = Some k"
    proof (rule Cons.IH)
      show "\<not> prefix p (drop j s)" if "j < k" for j using Cons.prems(1)[of "Suc j"] Suc that by simp
    qed (use Cons.prems(2,3) Suc in auto)
    ultimately show ?thesis using Suc by simp
  qed (use Cons.prems in simp)
qed simp

lemma find_sub_replaced: "find_sub p s = Some i \<Longrightarrow> find_sub p (take i s @ p @ r) = Some i"
proof (rule find_sub_first_at)
  assume f: "find_sub p s = Some i"
  have s: "s = take i s @ p @ drop (i + length p) s" using find_sub_split[OF f] .
  have len: "length (take i s) = i" using find_sub_Some[OF f] by simp
  show "\<not> prefix p (drop j (take i s @ p @ r))" if "j < i" for j
  proof
    assume "prefix p (drop j (take i s @ p @ r))"
    then have "take (length p) (drop j (take i s @ p @ r)) = p" by (metis append_eq_conv_conj prefix_def)
    moreover have "take (length p) (drop j (take i s @ p @ x)) = take (length p) (drop j (take i s @ p))" for x
      using that len by (simp add: drop_append take_append)
    ultimately have "take (length p) (drop j s) = p" using s by metis
    then show False using find_sub_first[OF f that] by (metis take_is_prefix)
  qed
  show "prefix p (drop i (take i s @ p @ r))" using len by simp
  show "i \<le> length (take i s @ p @ r)" using len by simp
qed

lemma section_found:
  assumes "find_sub PROFILE_SECTION_BEGIN (x @ wrap_profile_section n @ r) = Some (length x)" "\<not> sublist PROFILE_SECTION_END n"
  shows "profile_section (x @ wrap_profile_section n @ r) = Some (length x, length x + length (wrap_profile_section n))"
proof -
  have nl: "newline \<notin> set PROFILE_SECTION_END" "PROFILE_SECTION_END \<noteq> []" "\<not> sublist PROFILE_SECTION_END PROFILE_SECTION_BEGIN"
    by code_simp+
  have "find_sub PROFILE_SECTION_END (PROFILE_SECTION_END @ r) = Some 0"
    by (rule find_sub_first_at) simp_all
  then have "find_sub PROFILE_SECTION_END (wrap_profile_section n @ r) =
      Some (length PROFILE_SECTION_BEGIN + 1 + (length n + 1))"
    using find_sub_skip[OF nl, of "n @ newline # PROFILE_SECTION_END @ r"] find_sub_skip[OF nl(1,2) assms(2), of "PROFILE_SECTION_END @ r"]
    by (simp add: wrap_profile_section_def)
  then show ?thesis using assms(1) by (simp add: profile_section_def wrap_profile_section_def)
qed


lemma wrap_begins: "\<exists>t. wrap_profile_section n = PROFILE_SECTION_BEGIN @ t"
  by (simp add: wrap_profile_section_def)

lemma merge_found:
  assumes "profile_section (x @ wrap_profile_section n @ r) = Some (length x, length x + length (wrap_profile_section n))"
  shows "merge_profile_section (x @ wrap_profile_section n @ r) m = x @ wrap_profile_section m @ r"
  using assms by (simp add: merge_profile_section_def)

lemma begin_after_newline:
  assumes "\<not> sublist PROFILE_SECTION_BEGIN q"
  shows "find_sub PROFILE_SECTION_BEGIN (q @ [newline, newline] @ wrap_profile_section n @ r) = Some (length (q @ [newline, newline]))"
proof -
  have nl: "newline \<notin> set PROFILE_SECTION_BEGIN" "PROFILE_SECTION_BEGIN \<noteq> []" "\<not> sublist PROFILE_SECTION_BEGIN []" by code_simp+
  have "find_sub PROFILE_SECTION_BEGIN (wrap_profile_section n @ r) = Some 0"
    using wrap_begins[of n] by (intro find_sub_first_at) auto
  then show ?thesis
    using find_sub_skip[OF nl(1,2) assms, of "newline # wrap_profile_section n @ r"]
      find_sub_skip[OF nl, of "wrap_profile_section n @ r"] by simp
qed

lemma sublist_trim_end: "sublist (trim_end s) s"
proof -
  have "suffix (dropWhile is_ascii_ws (rev s)) (rev s)" by (rule suffix_dropWhile)
  then have "prefix (trim_end s) s" unfolding trim_end_def suffix_to_prefix by simp
  then show ?thesis by auto
qed

subsection \<open>The prompt\<close>

definition private_prompt_paths :: "string set" where
  "private_prompt_paths = {p_MEMORY, p_PROFILE, p_ASSISTANT_DIRECTIVES}"

text \<open>Two stores with the same contents, except at some paths.\<close>

definition same_but :: "string set \<Rightarrow> memory_store \<Rightarrow> memory_store \<Rightarrow> bool" where
  "same_but ps st st' \<longleftrightarrow> (\<forall>u a p. p \<notin> ps \<longrightarrow> content_of st (u, a, p) = content_of st' (u, a, p))"

lemma read_primary_content:
  "(case read_primary ws p st of Inr d \<Rightarrow> Some (md_content d) | Inl _ \<Rightarrow> None) =
   content_of st (ws_user ws, ws_agent ws, ws_normalize_path p)"
  by (simp add: read_primary_def get_document_by_path_def content_of_def split: option.splits)

lemma section_of_content:
  "section_of h r = (case (case r of Inr d \<Rightarrow> Some (md_content d) | Inl _ \<Rightarrow> None) of
     Some c \<Rightarrow> if c \<noteq> [] then [h @ [newline, newline] @ c] else [] | None \<Rightarrow> [])"
  by (simp add: section_of_def split: sum.split)

lemma section_primary_same:
  "same_but ps st st' \<Longrightarrow> ws_normalize_path p \<notin> ps \<Longrightarrow> section_of h (read_primary ws p st) = section_of h (read_primary ws p st')"
  unfolding section_of_content read_primary_content by (simp add: same_but_def)

lemma content_created:
  "content_of (fst (get_or_create_document_by_path st u a p)) k =
     (if k = (u, a, p) then Some (case content_of st k of Some c \<Rightarrow> c | None \<Rightarrow> []) else content_of st k)"
proof (cases "find_key st (u, a, p)")
  case None
  let ?d = "\<lparr>md_id = ms_next st, md_user = u, md_agent = a, md_path = p, md_content = []\<rparr>"
  have "find_key (fst (get_or_create_document_by_path st u a p)) k =
      (case find_key st k of Some d \<Rightarrow> Some d | None \<Rightarrow> if (u, a, p) = k then Some ?d else None)"
    using None by (simp add: get_or_create_document_by_path_def Let_def find_key_def find_append doc_key_def split: option.split)
  then show ?thesis using None by (auto simp: content_of_def split: option.split)
qed (auto simp: get_or_create_document_by_path_def content_of_def)

lemma created_content:
  "md_content (snd (get_or_create_document_by_path st u a p)) = (case content_of st (u, a, p) of Some c \<Rightarrow> c | None \<Rightarrow> [])"
  by (simp add: get_or_create_document_by_path_def Let_def content_of_def split: option.split)

text \<open>Reading or making a document gives the same content in two stores that agree on its path, and keeps them alike.\<close>

lemma read_or_create_same:
  assumes same: "same_but ps st st'" and p: "path \<notin> ps"
  shows "md_content (snd (read_or_create ws path st)) = md_content (snd (read_or_create ws path st')) \<and>
    same_but ps (fst (read_or_create ws path st)) (fst (read_or_create ws path st'))"
proof -
  have c: "content_of st (u, a, path) = content_of st' (u, a, path)" for u a using assms by (simp add: same_but_def)
  have none: "(find_key st (u, a, path) = None) = (find_key st' (u, a, path) = None)" for u a
    using c[of u a] unfolding content_of_def by (metis option.map_disc_iff)
  then have f: "List.find (\<lambda>u. find_key st (u, a, path) \<noteq> None) us = List.find (\<lambda>u. find_key st' (u, a, path) \<noteq> None) us" for us a
    by (induction us) auto
  show ?thesis
  proof (cases "is_multi_scope ws \<and> List.find (\<lambda>u. find_key st (u, ws_agent ws, path) \<noteq> None) (ws_read_users ws) \<noteq> None")
    case True
    then obtain u where u: "List.find (\<lambda>u. find_key st (u, ws_agent ws, path) \<noteq> None) (ws_read_users ws) = Some u" by auto
    then obtain d where d: "find_key st (u, ws_agent ws, path) = Some d" using find_Some_in[OF u] by auto
    then obtain d' where d': "find_key st' (u, ws_agent ws, path) = Some d'" using none[of u "ws_agent ws"] by (cases "find_key st' (u, ws_agent ws, path)") auto
    have "md_content d = md_content d'" using c[of u "ws_agent ws"] d d' by (simp add: content_of_def)
    then show ?thesis
      using True u d d' f same by (simp add: read_or_create_def get_document_by_path_multi_def get_document_by_path_def)
  next
    case False
    then have "read_or_create ws path s = get_or_create_document_by_path s (ws_user ws) (ws_agent ws) path"
      if "s = st \<or> s = st'" for s
      using that f by (auto simp: read_or_create_def get_document_by_path_multi_def)
    moreover have "same_but ps (fst (get_or_create_document_by_path st u a path)) (fst (get_or_create_document_by_path st' u a path))" for u a
      using same c by (auto simp: same_but_def content_created)
    ultimately show ?thesis using c by (simp add: created_content)
  qed
qed

lemma daily_parts_same:
  assumes "same_but ps st st'" "\<forall>date\<in>set dates. daily_path date \<notin> ps"
  shows "snd (daily_parts ws today dates st) = snd (daily_parts ws today dates st')"
  using assms
proof (induction dates arbitrary: st st')
  case (Cons date dates)
  have r: "md_content (snd (read_or_create ws (daily_path date) st)) = md_content (snd (read_or_create ws (daily_path date) st'))"
    "same_but ps (fst (read_or_create ws (daily_path date) st)) (fst (read_or_create ws (daily_path date) st'))"
    using read_or_create_same[OF Cons.prems(1), of "daily_path date" ws] Cons.prems(2) by auto
  then show ?case
    using Cons.IH[OF r(2)] Cons.prems(2) by (auto simp: section_of_def split: prod.split)
qed simp

lemma daily_not_private: "daily_path date \<notin> private_prompt_paths"
  by (simp add: daily_path_def private_prompt_paths_def path_defs)

lemma primary_not_private:
  "p \<in> {p_BOOTSTRAP, p_AGENTS, p_SOUL, p_USER, p_IDENTITY, p_TOOLS} \<Longrightarrow> ws_normalize_path p \<notin> private_prompt_paths"
proof -
  have "list_all (\<lambda>p. ws_normalize_path p \<notin> private_prompt_paths) [p_BOOTSTRAP, p_AGENTS, p_SOUL, p_USER, p_IDENTITY, p_TOOLS]"
    by code_simp
  then show "p \<in> {p_BOOTSTRAP, p_AGENTS, p_SOUL, p_USER, p_IDENTITY, p_TOOLS} \<Longrightarrow> ws_normalize_path p \<notin> private_prompt_paths"
    by (auto simp: list_all_iff)
qed

lemma normalize_constants:
  "ws_normalize_path p_PROFILE = p_PROFILE" "ws_normalize_path p_USER = p_USER"
  "ws_normalize_path p_ASSISTANT_DIRECTIVES = p_ASSISTANT_DIRECTIVES" "ws_normalize_path p_HEARTBEAT = p_HEARTBEAT"
  by code_simp+

lemma ws_write_ok:
  assumes "store_wf st" "scan_prompt_file env (ws_normalize_path p) c = None"
  obtains st' d where "ws_write env ws p c st = (st', Inr d)" "store_wf st'" "md_content d = c"
    "\<And>k. find_key st' k = (if k = (ws_user ws, ws_agent ws, ws_normalize_path p) then Some d else find_key st k)"
  using put_document[OF assms(1), where ws = ws and user = "ws_user ws" and path = "ws_normalize_path p" and f = "\<lambda>_. c"]
    assms(2) that by (auto simp: ws_write_def Let_def)

lemma ws_write_keeps:
  assumes "store_wf st" "k \<noteq> (ws_user ws, ws_agent ws, ws_normalize_path p)"
  shows "find_key (fst (ws_write env ws p c st)) k = find_key st k"
proof (cases "scan_prompt_file env (ws_normalize_path p) c")
  case None
  then show ?thesis using assms by (metis fst_conv ws_write_ok)
qed (simp add: ws_write_def Let_def)

lemma two_scopes:
  assumes "other \<noteq> user" "ws = with_additional_read_scopes [other] (workspace_new user)"
  shows "ws_user ws = user" "ws_agent ws = None" "ws_read_users ws = [user, other]" "is_multi_scope ws"
  using assms by (simp_all add: with_additional_read_scopes_def workspace_new_def push_scope_def is_multi_scope_def)

section \<open>Properties\<close>

text \<open>
  The system prompt of a group chat does not depend on the long-term memory, on the profile or on the directives
  derived from it, in any scope.
\<close>

theorem group_prompt_hides_memory:
  assumes "same_but private_prompt_paths st st'"
  shows "snd (system_prompt_for_context_inner pe ws True today yesterday st) =
    snd (system_prompt_for_context_inner pe ws True today yesterday st')"
proof -
  note sec = section_primary_same[OF assms primary_not_private]
  have "snd (daily_parts ws today [today, yesterday] st) = snd (daily_parts ws today [today, yesterday] st')"
    using daily_parts_same[OF assms] daily_not_private by blast
  moreover have "bootstrap_parts ws st = bootstrap_parts ws st'" "identity_parts ws st = identity_parts ws st'"
    "section_of h (read_primary ws p_TOOLS st) = section_of h (read_primary ws p_TOOLS st')" for h
    using sec by (simp_all add: bootstrap_parts_def identity_parts_def)
  ultimately show ?thesis
    unfolding system_prompt_for_context_inner_def system_prompt_parts_def Let_def
    by (cases "daily_parts ws today [today, yesterday] st"; cases "daily_parts ws today [today, yesterday] st'")
      (simp del: daily_parts.simps)
qed


theorem group_prompt_hides_memory_witness:
  "snd (system_prompt_for_context_inner sample_profile_env (workspace_new ''alice'') True ''d1'' ''d0''
     \<lparr>ms_documents = [\<lparr>md_id = 0, md_user = ''alice'', md_agent = None, md_path = p_MEMORY, md_content = ''secret''\<rparr>], ms_chunks = [], ms_next = 1\<rparr>) =
   snd (system_prompt_for_context_inner sample_profile_env (workspace_new ''alice'') True ''d1'' ''d0'' empty_store)"
  by (rule group_prompt_hides_memory)
    (auto simp: same_but_def content_of_def find_key_def doc_key_def empty_store_def private_prompt_paths_def)

text \<open>
  Merging a new profile into a text keeps the text around the section: a second merge gives what a merge of
  the second profile into the original text gives, unless the text has a begin marker without an end marker.
\<close>

theorem merge_profile_stable:
  assumes "\<not> sublist PROFILE_SECTION_END n" "profile_section existing \<noteq> None \<or> \<not> sublist PROFILE_SECTION_BEGIN existing"
  shows "merge_profile_section (merge_profile_section existing n) m = merge_profile_section existing m"
proof (cases "profile_section existing")
  case (Some be)
  obtain b e where be: "be = (b, e)" by (cases be)
  then have f: "find_sub PROFILE_SECTION_BEGIN existing = Some b"
    using Some by (auto simp: profile_section_def split: option.splits)
  have len: "length (take b existing) = b" using find_sub_Some[OF f] by simp
  obtain t where t: "wrap_profile_section n = PROFILE_SECTION_BEGIN @ t" using wrap_begins by blast
  have "find_sub PROFILE_SECTION_BEGIN (take b existing @ wrap_profile_section n @ drop e existing) = Some (length (take b existing))"
    using find_sub_replaced[OF f, of "t @ drop e existing"] t len by simp
  from merge_found[OF section_found[OF this assms(1)], of m] show ?thesis
    using Some be by (simp add: merge_profile_section_def[of existing])
next
  case None
  have alone: "merge_profile_section (wrap_profile_section n) m = wrap_profile_section m"
  proof -
    obtain t where t: "wrap_profile_section n = PROFILE_SECTION_BEGIN @ t" using wrap_begins by blast
    have "find_sub PROFILE_SECTION_BEGIN ([] @ wrap_profile_section n @ []) = Some (length ([] :: string))"
      unfolding t by (rule find_sub_first_at) auto
    from merge_found[OF section_found[OF this assms(1)], of m] show ?thesis by simp
  qed
  have "\<not> sublist PROFILE_SECTION_BEGIN (trim_end existing)"
    using assms(2) None sublist_trim_end sublist_order.order.trans by blast
  then have "find_sub PROFILE_SECTION_BEGIN ((trim_end existing @ [newline, newline]) @ wrap_profile_section n @ []) =
      Some (length (trim_end existing @ [newline, newline]))"
    using begin_after_newline[of "trim_end existing" n "[]"] by simp
  from merge_found[OF section_found[OF this assms(1)], of m]
  have "merge_profile_section (trim_end existing @ [newline, newline] @ wrap_profile_section n) m =
      trim_end existing @ [newline, newline] @ wrap_profile_section m" by simp
  then show ?thesis using None alone by (auto simp: merge_profile_section_def[of existing] Let_def)
qed

theorem merge_profile_stable_witness:
  "merge_profile_section (merge_profile_section ''My notes'' ''old'') ''new'' = merge_profile_section ''My notes'' ''new''"
  by (rule merge_profile_stable) code_simp+

text \<open>
  When the text has a begin marker and no end marker, the first merge appends a section, and the
  second one takes everything from the old marker on as the section: the user's text after it is lost.
\<close>

theorem stray_marker_loses_text:
  assumes "find_sub PROFILE_SECTION_BEGIN (a @ PROFILE_SECTION_BEGIN @ t) = Some (length a)"
    and "\<not> sublist PROFILE_SECTION_END (a @ PROFILE_SECTION_BEGIN @ t)" "\<not> sublist PROFILE_SECTION_END n"
    and "\<not> starts_with ''<!-- Auto-generated from context/profile.json'' (a @ PROFILE_SECTION_BEGIN @ t)"
    and "\<not> is_seed_template (a @ PROFILE_SECTION_BEGIN @ t)" "trim_end (a @ PROFILE_SECTION_BEGIN @ t) = a @ PROFILE_SECTION_BEGIN @ t"
  shows "merge_profile_section (a @ PROFILE_SECTION_BEGIN @ t) n = a @ PROFILE_SECTION_BEGIN @ t @ [newline, newline] @ wrap_profile_section n \<and>
    merge_profile_section (merge_profile_section (a @ PROFILE_SECTION_BEGIN @ t) n) m = a @ wrap_profile_section m"
proof -
  let ?B = PROFILE_SECTION_BEGIN and ?E = PROFILE_SECTION_END
  have nl: "newline \<notin> set ?E" "?E \<noteq> []" "\<not> sublist ?E []" "\<not> sublist ?E ?B" by code_simp+
  have noE: "\<not> sublist ?E (?B @ t)" using assms(2) by (meson sublist_appendI sublist_append_leftI sublist_order.order.trans)
  then have "profile_section (a @ ?B @ t) = None"
    using assms(1) by (simp add: profile_section_def find_sub_None[THEN iffD2])
  then have first: "merge_profile_section (a @ ?B @ t) n = a @ ?B @ t @ [newline, newline] @ wrap_profile_section n"
    using assms(4,5,6) nl(2) by (simp add: merge_profile_section_def Let_def PROFILE_SECTION_BEGIN_def)
  let ?s = "a @ ?B @ t @ [newline, newline] @ wrap_profile_section n"
  have b: "find_sub ?B ?s = Some (length a)"
    using find_sub_replaced[OF assms(1), of "t @ [newline, newline] @ wrap_profile_section n"] by simp
  have "find_sub ?E (?E @ []) = Some 0" by (rule find_sub_first_at) simp_all
  then have "find_sub ?E ((?B @ t) @ newline # [] @ newline # ?B @ newline # n @ newline # ?E) =
      Some (length (?B @ t) + 1 + (1 + (length ?B + 1 + (length n + 1))))"
    using find_sub_skip[OF nl(1,2) noE, of "[] @ newline # ?B @ newline # n @ newline # ?E"]
      find_sub_skip[OF nl(1,2,3), of "?B @ newline # n @ newline # ?E"]
      find_sub_skip[OF nl(1,2,4), of "n @ newline # ?E"] find_sub_skip[OF nl(1,2) assms(3), of ?E] by simp
  then have "find_sub ?E (drop (length a) ?s) = Some (length (?B @ t) + 1 + (1 + (length ?B + 1 + (length n + 1))))"
    by (simp add: wrap_profile_section_def)
  then have "profile_section ?s = Some (length a, length ?s)"
    using b by (simp add: profile_section_def wrap_profile_section_def)
  then have "merge_profile_section ?s m = a @ wrap_profile_section m" by (simp add: merge_profile_section_def)
  then show ?thesis using first by simp
qed

theorem stray_marker_loses_text_witness:
  "merge_profile_section (''a'' @ PROFILE_SECTION_BEGIN @ ''My notes'') ''old'' =
     ''a'' @ PROFILE_SECTION_BEGIN @ ''My notes'' @ [newline, newline] @ wrap_profile_section ''old'' \<and>
   merge_profile_section (merge_profile_section (''a'' @ PROFILE_SECTION_BEGIN @ ''My notes'') ''old'') ''new'' =
     ''a'' @ wrap_profile_section ''new''"
  by (rule stray_marker_loses_text) code_simp+


text \<open>
  When a user has no profile and another scope that is read has one, the synchronization writes that other profile
  into the user's own identity document and directives, although an identity must never come from another scope.
\<close>

theorem foreign_profile_becomes_identity:
  assumes wf: "store_wf st" and scopes: "other \<noteq> user" "ws = with_additional_read_scopes [other] (workspace_new user)"
    and none: "find_key st (user, None, p_PROFILE) = None" "find_key st (user, None, p_USER) = None"
    and theirs: "find_key st (other, None, p_PROFILE) = Some d" "md_content d \<noteq> []" "pe_parse pe (md_content d) = Some p" "pf_populated p"
    and clean: "scan_prompt_file env p_USER (wrap_profile_section (pe_user_md pe p)) = None"
      "scan_prompt_file env p_ASSISTANT_DIRECTIVES (pe_directives pe p) = None"
  shows "content_of (fst (sync_profile_documents env pe ws st)) (user, None, p_USER) = Some (wrap_profile_section (pe_user_md pe p)) \<and>
    content_of (fst (sync_profile_documents env pe ws st)) (user, None, p_ASSISTANT_DIRECTIVES) = Some (pe_directives pe p)"
proof -
  note sc = two_scopes[OF scopes]
  have ne: "p_USER \<noteq> p_ASSISTANT_DIRECTIVES" "p_USER \<noteq> p_HEARTBEAT" "p_ASSISTANT_DIRECTIVES \<noteq> p_HEARTBEAT" by code_simp+
  have ident: "\<not> is_identity_path p_PROFILE" "is_identity_path p_USER" by code_simp+
  have prof: "read_profile pe ws st = Some p"
    using none theirs sc ident
    by (simp add: read_profile_def ws_read_def normalize_constants get_document_by_path_multi_def get_document_by_path_def)
  have user: "ws_read ws p_USER st = Inl (DocumentNotFound p_USER user)"
    using none sc ident by (simp add: ws_read_def normalize_constants get_document_by_path_def)
  obtain st1 d1 where w1: "ws_write env ws p_USER (wrap_profile_section (pe_user_md pe p)) st = (st1, Inr d1)" "store_wf st1"
    "md_content d1 = wrap_profile_section (pe_user_md pe p)"
    "\<And>k. find_key st1 k = (if k = (ws_user ws, ws_agent ws, ws_normalize_path p_USER) then Some d1 else find_key st k)"
    using ws_write_ok[OF wf, of env p_USER "wrap_profile_section (pe_user_md pe p)" ws] clean(1) by (auto simp: normalize_constants)
  obtain st2 d2 where w2: "ws_write env ws p_ASSISTANT_DIRECTIVES (pe_directives pe p) st1 = (st2, Inr d2)" "store_wf st2"
    "md_content d2 = pe_directives pe p"
    "\<And>k. find_key st2 k = (if k = (ws_user ws, ws_agent ws, ws_normalize_path p_ASSISTANT_DIRECTIVES) then Some d2 else find_key st1 k)"
    using ws_write_ok[OF w1(2), of env p_ASSISTANT_DIRECTIVES "pe_directives pe p" ws] clean(2) by (auto simp: normalize_constants)
  define r where "r = sync_profile_documents env pe ws st"
  have "fst r = st2 \<or> fst r = fst (ws_write env ws p_HEARTBEAT (pe_heartbeat pe p) st2)"
    using prof user theirs(4) w1(1) w2(1) unfolding r_def sync_profile_documents_def
    by (simp split: sum.split prod.split)
  then have "find_key (fst r) (user, None, q) = find_key st2 (user, None, q)" if "q \<noteq> p_HEARTBEAT" for q
    using ws_write_keeps[OF w2(2), of "(user, None, q)" ws p_HEARTBEAT env "pe_heartbeat pe p"] that by (auto simp: normalize_constants)
  then show ?thesis
    using w1(3,4) w2(3,4) sc ne unfolding r_def by (simp add: content_of_def normalize_constants)
qed

theorem foreign_profile_becomes_identity_witness:
  "content_of (fst (sync_profile_documents sample_safety_env sample_profile_env
       (with_additional_read_scopes [''bob''] (workspace_new ''alice'')) \<lparr>ms_documents = [bobs_profile], ms_chunks = [], ms_next = 1\<rparr>))
     (''alice'', None, p_USER) = Some (wrap_profile_section (pe_user_md sample_profile_env sample_profile)) \<and>
   content_of (fst (sync_profile_documents sample_safety_env sample_profile_env
       (with_additional_read_scopes [''bob''] (workspace_new ''alice'')) \<lparr>ms_documents = [bobs_profile], ms_chunks = [], ms_next = 1\<rparr>))
     (''alice'', None, p_ASSISTANT_DIRECTIVES) = Some (pe_directives sample_profile_env sample_profile)"
proof (rule foreign_profile_becomes_identity[where d = bobs_profile])
  show "store_wf \<lparr>ms_documents = [bobs_profile], ms_chunks = [], ms_next = 1\<rparr>" by (simp add: store_wf_def bobs_profile_def)
  show "''bob'' \<noteq> ''alice''" by simp
  show "with_additional_read_scopes [''bob''] (workspace_new ''alice'') = with_additional_read_scopes [''bob''] (workspace_new ''alice'')" ..
qed (code_simp+)

end
