(* ===== verification/Routine.thy ===== *)
theory Routine
  imports Http_Tool Coercion Chunker Safety_Layer
begin

text \<open>
  The types of the routines system, \<open>src/agent/routine.rs\<close>: triggers and actions with their forms in the
  database, guardrails, notification settings, runs, and the treatment of cron expressions. The time zone
  table and the evaluation of a schedule are parameters (\<open>valid_tz\<close>, \<open>upcoming\<close>), like the text of a
  double. Hash maps of filters are association lists; the entries of a JSON object are looked up by key.
\<close>

section \<open>Model\<close>

subsection \<open>Triggers\<close>

datatype routine_error =
    UnknownTriggerType string
  | UnknownActionType string
  | MissingField string string
  | InvalidCron string
  | UnknownRunStatus string
  | RoutineDisabled string
  | RoutineNotFound uuid
  | RoutineNotAuthorized uuid
  | RoutineCooldown string
  | RoutineMaxConcurrent string
  | RoutineDatabase string
  | RoutineLlmFailed string
  | JobDispatchFailed string
  | EmptyResponse
  | TruncatedResponse

datatype trigger =
    Cron string "string option"
  | Event "string option" string
  | SystemEvent string string "(string \<times> string) list"
  | Webhook "string option" "string option"
  | Manual

fun trigger_type_tag :: "trigger \<Rightarrow> string" where
  "trigger_type_tag (Cron schedule timezone) = ''cron''"
| "trigger_type_tag (Event channel pattern) = ''event''"
| "trigger_type_tag (SystemEvent source event_type filters) = ''system_event''"
| "trigger_type_tag (Webhook path secret) = ''webhook''"
| "trigger_type_tag Manual = ''manual''"

definition json_value_as_filter_string :: "(number \<Rightarrow> string) \<Rightarrow> json \<Rightarrow> string option" where
  "json_value_as_filter_string show_num v =
     (case v of
        JString s \<Rightarrow> Some s
      | JNumber n \<Rightarrow> Some (show_num n)
      | JBool b \<Rightarrow> Some (if b then ''true'' else ''false'')
      | _ \<Rightarrow> None)"

definition str_field :: "json \<Rightarrow> string \<Rightarrow> string option" where
  "str_field config k = Option.bind (json_get k config) as_str"

definition required_field :: "json \<Rightarrow> string \<Rightarrow> string \<Rightarrow> (routine_error, string) result" where
  "required_field config context field =
     (case str_field config field of Some s \<Rightarrow> Inr s | None \<Rightarrow> Inl (MissingField context field))"

definition filters_of :: "(number \<Rightarrow> string) \<Rightarrow> json \<Rightarrow> (string \<times> string) list" where
  "filters_of show_num config =
     (case get_object ''filters'' config of
        Some m \<Rightarrow> List.map_filter (\<lambda>(k, v). map_option (Pair k) (json_value_as_filter_string show_num v)) m
      | None \<Rightarrow> [])"

definition trigger_from_db ::
  "(number \<Rightarrow> string) \<Rightarrow> (string \<Rightarrow> bool) \<Rightarrow> string \<Rightarrow> json \<Rightarrow> (routine_error, trigger) result"
where
  "trigger_from_db show_num valid_tz trigger_type config =
     (if trigger_type = ''cron'' then
        (case required_field config ''cron trigger'' ''schedule'' of
           Inl e \<Rightarrow> Inl e
         | Inr schedule \<Rightarrow>
             Inr (Cron schedule (Option.bind (str_field config ''timezone'')
               (\<lambda>tz. if valid_tz tz then Some tz else None))))
      else if trigger_type = ''event'' then
        (case required_field config ''event trigger'' ''pattern'' of
           Inl e \<Rightarrow> Inl e
         | Inr pat \<Rightarrow> Inr (Event (str_field config ''channel'') pat))
      else if trigger_type = ''system_event'' then
        (case required_field config ''system_event trigger'' ''source'' of
           Inl e \<Rightarrow> Inl e
         | Inr source \<Rightarrow>
             (case required_field config ''system_event trigger'' ''event_type'' of
                Inl e \<Rightarrow> Inl e
              | Inr event_type \<Rightarrow> Inr (SystemEvent source event_type (filters_of show_num config))))
      else if trigger_type = ''webhook'' then
        Inr (Webhook (str_field config ''path'') (str_field config ''secret''))
      else if trigger_type = ''manual'' then Inr Manual
      else Inl (UnknownTriggerType trigger_type))"

definition json_opt :: "string option \<Rightarrow> json" where
  "json_opt v = (case v of Some s \<Rightarrow> JString s | None \<Rightarrow> JNull)"

fun trigger_to_config_json :: "trigger \<Rightarrow> json" where
  "trigger_to_config_json (Cron schedule timezone) =
     JObject [(''schedule'', JString schedule), (''timezone'', json_opt timezone)]"
| "trigger_to_config_json (Event channel pat) =
     JObject [(''pattern'', JString pat), (''channel'', json_opt channel)]"
| "trigger_to_config_json (SystemEvent source event_type filters) =
     JObject [(''source'', JString source), (''event_type'', JString event_type),
              (''filters'', JObject (map (\<lambda>(k, v). (k, JString v)) filters))]"
| "trigger_to_config_json (Webhook path secret) =
     JObject [(''path'', json_opt path), (''secret'', json_opt secret)]"
| "trigger_to_config_json Manual = JObject []"

subsection \<open>Actions\<close>

datatype routine_action =
    Lightweight (la_prompt: string) (la_context_paths: "string list") (la_max_tokens: "32 word") (la_use_tools: bool)
      (la_max_tool_rounds: "32 word")
  | FullJob (fj_title: string) (fj_description: string) (fj_max_iterations: "32 word")

definition default_max_tokens :: nat where "default_max_tokens = 4096"
definition default_max_iterations :: nat where "default_max_iterations = 25"
definition default_max_tool_rounds :: nat where "default_max_tool_rounds = 3"
definition MAX_TOOL_ROUNDS_LIMIT :: nat where "MAX_TOOL_ROUNDS_LIMIT = 20"

definition clamp_max_tool_rounds :: "nat \<Rightarrow> 32 word" where
  "clamp_max_tool_rounds v = of_nat (min MAX_TOOL_ROUNDS_LIMIT (max 1 v))"

fun action_type_tag :: "routine_action \<Rightarrow> string" where
  "action_type_tag (Lightweight prompt paths tokens tools rounds) = ''lightweight''"
| "action_type_tag (FullJob title description iterations) = ''full_job''"

definition u64_field :: "json \<Rightarrow> string \<Rightarrow> nat \<Rightarrow> nat" where
  "u64_field config k d = (case Option.bind (json_get k config) as_u64 of Some n \<Rightarrow> n | None \<Rightarrow> d)"

definition action_from_db :: "string \<Rightarrow> json \<Rightarrow> (routine_error, routine_action) result" where
  "action_from_db action_type config =
     (if action_type = ''lightweight'' then
        (case required_field config ''lightweight action'' ''prompt'' of
           Inl e \<Rightarrow> Inl e
         | Inr prompt \<Rightarrow>
             Inr (Lightweight prompt
               (case get_array ''context_paths'' config of Some xs \<Rightarrow> List.map_filter as_str xs | None \<Rightarrow> [])
               (of_nat (u64_field config ''max_tokens'' default_max_tokens))
               (json_get ''use_tools'' config = Some (JBool True))
               (clamp_max_tool_rounds (u64_field config ''max_tool_rounds'' default_max_tool_rounds))))
      else if action_type = ''full_job'' then
        (case required_field config ''full_job action'' ''title'' of
           Inl e \<Rightarrow> Inl e
         | Inr title \<Rightarrow>
             (case required_field config ''full_job action'' ''description'' of
                Inl e \<Rightarrow> Inl e
              | Inr description \<Rightarrow>
                  Inr (FullJob title description
                    (of_nat (u64_field config ''max_iterations'' default_max_iterations)))))
      else Inl (UnknownActionType action_type))"

definition json_u32 :: "32 word \<Rightarrow> json" where
  "json_u32 v = JNumber (PosInt (ucast v))"

fun action_to_config_json :: "routine_action \<Rightarrow> json" where
  "action_to_config_json (Lightweight prompt paths tokens tools rounds) =
     JObject [(''prompt'', JString prompt), (''context_paths'', JArray (map JString paths)),
              (''max_tokens'', json_u32 tokens), (''use_tools'', JBool tools), (''max_tool_rounds'', json_u32 rounds)]"
| "action_to_config_json (FullJob title description iterations) =
     JObject [(''title'', JString title), (''description'', JString description),
              (''max_iterations'', json_u32 iterations)]"

subsection \<open>Guardrails, notifications and runs\<close>

record routine_guardrails =
  gr_cooldown :: nat
  gr_max_concurrent :: "32 word"
  gr_dedup_window :: "nat option"

definition guardrails_default :: routine_guardrails where
  "guardrails_default = \<lparr>gr_cooldown = 300 * 10 ^ 9, gr_max_concurrent = 1, gr_dedup_window = None\<rparr>"

record notify_config =
  nc_channel :: "string option"
  nc_user :: "string option"
  nc_on_attention :: bool
  nc_on_failure :: bool
  nc_on_success :: bool

definition notify_default :: notify_config where
  "notify_default = \<lparr>nc_channel = None, nc_user = None, nc_on_attention = True, nc_on_failure = True,
     nc_on_success = False\<rparr>"

record routine =
  rt_id :: uuid
  rt_name :: string
  rt_description :: string
  rt_user_id :: string
  rt_enabled :: bool
  rt_trigger :: trigger
  rt_action :: routine_action
  rt_guardrails :: routine_guardrails
  rt_notify :: notify_config
  rt_last_run_at :: "utc option"
  rt_next_fire_at :: "utc option"
  rt_run_count :: "64 word"
  rt_consecutive_failures :: "32 word"
  rt_state :: json
  rt_created_at :: utc
  rt_updated_at :: utc

datatype run_status = RunRunning | RunOk | RunAttention | RunFailed

fun run_status_display :: "run_status \<Rightarrow> string" where
  "run_status_display RunRunning = ''running''"
| "run_status_display RunOk = ''ok''"
| "run_status_display RunAttention = ''attention''"
| "run_status_display RunFailed = ''failed''"

definition run_status_from_str :: "string \<Rightarrow> (routine_error, run_status) result" where
  "run_status_from_str s =
     (if s = ''running'' then Inr RunRunning
      else if s = ''ok'' then Inr RunOk
      else if s = ''attention'' then Inr RunAttention
      else if s = ''failed'' then Inr RunFailed
      else Inl (UnknownRunStatus s))"

record routine_run =
  rr_id :: uuid
  rr_routine_id :: uuid
  rr_trigger_type :: string
  rr_trigger_detail :: "string option"
  rr_started_at :: utc
  rr_completed_at :: "utc option"
  rr_status :: run_status
  rr_result_summary :: "string option"
  rr_tokens_used :: "32 word option"
  rr_job_id :: "uuid option"
  rr_created_at :: utc

subsection \<open>Cron expressions\<close>

definition normalize_cron_expression :: "string \<Rightarrow> string" where
  "normalize_cron_expression schedule =
     (let trimmed = trim schedule; fields = split_whitespace trimmed
      in if length fields = 5 then ''0 '' @ str_join '' '' fields @ '' *''
         else if length fields = 6 then str_join '' '' fields @ '' *''
         else trimmed)"

definition next_cron_fire ::
  "(string \<Rightarrow> (string, string option \<Rightarrow> utc option) result) \<Rightarrow> (string \<Rightarrow> bool) \<Rightarrow> string \<Rightarrow> string option \<Rightarrow>
     (routine_error, utc option) result"
where
  "next_cron_fire upcoming valid_tz schedule timezone =
     (case upcoming (normalize_cron_expression schedule) of
        Inl e \<Rightarrow> Inl (InvalidCron e)
      | Inr next_in \<Rightarrow> Inr (next_in (Option.bind timezone (\<lambda>tz. if valid_tz tz then Some tz else None))))"

definition cron_fallback :: "string \<Rightarrow> string" where
  "cron_fallback raw = (if trim raw = [] then ''cron: (empty)'' else ''cron: '' @ trim raw)"

text \<open>\<open>str::parse::<u8>\<close>: an optional plus sign and at least one digit, at most 255.\<close>

definition parse_u8_token :: "string \<Rightarrow> nat option" where
  "parse_u8_token token =
     (let ds = (case token of c # r \<Rightarrow> if c = CHR ''+'' then r else token | [] \<Rightarrow> [])
      in if ds = [] then None
         else (case decimal_value 0 ds of
                 Some n \<Rightarrow> if n \<le> 255 then Some (nat n) else None
               | None \<Rightarrow> None))"

definition opt_filter :: "('a \<Rightarrow> bool) \<Rightarrow> 'a option \<Rightarrow> 'a option" where
  "opt_filter P v = Option.bind v (\<lambda>x. if P x then Some x else None)"

definition parse_step :: "string \<Rightarrow> nat option" where
  "parse_step token = opt_filter (\<lambda>n. n > 0) (Option.bind (strip_prefix ''*/'' token) parse_u8_token)"

definition weekday_name :: "string \<Rightarrow> string option" where
  "weekday_name dow =
     (let d = to_upper (trim dow)
      in if d \<in> set [''MON'', ''1''] then Some ''Monday''
         else if d \<in> set [''TUE'', ''2''] then Some ''Tuesday''
         else if d \<in> set [''WED'', ''3''] then Some ''Wednesday''
         else if d \<in> set [''THU'', ''4''] then Some ''Thursday''
         else if d \<in> set [''FRI'', ''5''] then Some ''Friday''
         else if d \<in> set [''SAT'', ''6''] then Some ''Saturday''
         else if d \<in> set [''SUN'', ''0'', ''7''] then Some ''Sunday''
         else None)"

definition pad2 :: "nat \<Rightarrow> string" where
  "pad2 n = (if n < 10 then ''0'' @ show_nat n else show_nat n)"

definition format_time :: "nat \<Rightarrow> nat \<Rightarrow> string" where
  "format_time hour minute =
     (if hour = 0 \<and> minute = 0 then ''midnight''
      else
        (let (display_hour, am_pm) =
               (if hour = 0 then (12, ''AM'')
                else if hour \<le> 11 then (hour, ''AM'')
                else if hour = 12 then (12, ''PM'')
                else (hour - 12, ''PM''))
         in show_nat display_hour @ '':'' @ pad2 minute @ '' '' @ am_pm))"

definition ordinal_text :: "nat \<Rightarrow> string" where
  "ordinal_text n =
     show_nat n @
       (if 11 \<le> n mod 100 \<and> n mod 100 \<le> 13 then ''th''
        else if n mod 10 = 1 then ''st''
        else if n mod 10 = 2 then ''nd''
        else if n mod 10 = 3 then ''rd''
        else ''th'')"

definition eq_ignore_ascii_case :: "string \<Rightarrow> string \<Rightarrow> bool" where
  "eq_ignore_ascii_case a b = (to_lower a = to_lower b)"

definition every_text :: "nat \<Rightarrow> string \<Rightarrow> string" where
  "every_text step unit = (if step = 1 then ''Every '' @ unit else ''Every '' @ show_nat step @ '' '' @ unit @ ''s'')"

definition describe_fields ::
  "string \<Rightarrow> string \<Rightarrow> string \<Rightarrow> string \<Rightarrow> string \<Rightarrow> string \<Rightarrow> string option \<Rightarrow> string option"
where
  "describe_fields sec mins hour dayom month dow year =
     (if year \<noteq> None \<and> year \<noteq> Some ''*'' then None
      else if sec = ''0'' \<and> hour = ''*'' \<and> dayom = ''*'' \<and> month = ''*'' \<and> dow = ''*'' \<and> parse_step mins \<noteq> None
      then Some (every_text (the (parse_step mins)) ''minute'')
      else if sec = ''0'' \<and> mins = ''0'' \<and> dayom = ''*'' \<and> month = ''*'' \<and> dow = ''*'' \<and> parse_step hour \<noteq> None
      then Some (every_text (the (parse_step hour)) ''hour'')
      else
        (case (opt_filter (\<lambda>h. h \<le> 23) (parse_u8_token hour), opt_filter (\<lambda>m. m \<le> 59) (parse_u8_token mins)) of
           (Some h, Some m) \<Rightarrow>
             (let time = format_time h m;
                  time_phrase = (if time = ''midnight'' then ''at midnight'' else ''at '' @ time)
              in if sec = ''0'' \<and> dayom = ''*'' \<and> month = ''*'' \<and> dow = ''*'' then Some (''Daily '' @ time_phrase)
                 else if sec = ''0'' \<and> dayom = ''*'' \<and> month = ''*'' \<and> eq_ignore_ascii_case dow ''MON-FRI''
                 then Some (''Weekdays '' @ time_phrase)
                 else if sec = ''0'' \<and> dayom = ''*'' \<and> month = ''*'' \<and> weekday_name dow \<noteq> None
                 then Some (''Every '' @ the (weekday_name dow) @ '' '' @ time_phrase)
                 else if sec = ''0'' \<and> month = ''*'' \<and> dow = ''*''
                      \<and> opt_filter (\<lambda>d. 1 \<le> d \<and> d \<le> 31) (parse_u8_token dayom) \<noteq> None
                 then Some (ordinal_text (the (parse_u8_token dayom)) @ '' of every month '' @ time_phrase)
                 else None)
         | _ \<Rightarrow> None))"

definition describe_inner :: "string \<Rightarrow> string option" where
  "describe_inner raw =
     (case split_whitespace raw of
        [a, b, c, d, e] \<Rightarrow> describe_fields ''0'' a b c d e None
      | [s, a, b, c, d, e] \<Rightarrow> describe_fields s a b c d e None
      | [s, a, b, c, d, e, y] \<Rightarrow> describe_fields s a b c d e (Some y)
      | _ \<Rightarrow> None)"

definition describe_cron :: "string \<Rightarrow> string option \<Rightarrow> string" where
  "describe_cron schedule timezone =
     (let description = (case describe_inner schedule of Some d \<Rightarrow> d | None \<Rightarrow> cron_fallback schedule)
      in case opt_filter (\<lambda>tz. tz \<noteq> []) (map_option trim timezone) of
           Some tz \<Rightarrow> description @ '' ('' @ tz @ '')''
         | None \<Rightarrow> description)"

section \<open>Lemmas\<close>

definition with_valid_timezone :: "(string \<Rightarrow> bool) \<Rightarrow> trigger \<Rightarrow> trigger" where
  "with_valid_timezone valid_tz t =
     (case t of Cron s tz \<Rightarrow> Cron s (opt_filter valid_tz tz) | _ \<Rightarrow> t)"

lemmas routine_fields = str_field_def required_field_def json_get_def json_opt_def as_str_def as_u64_def

lemma str_field_opt: "map_of es k = Some (json_opt v) \<Longrightarrow> str_field (JObject es) k = v"
  by (cases v) (simp_all add: routine_fields)

lemma filters_back: "filters_of show_num (trigger_to_config_json (SystemEvent s e fs)) = fs"
  by (induction fs) (auto simp: filters_of_def get_object_def json_get_def json_value_as_filter_string_def List.map_filter_def)

text \<open>A trigger written to the database is read back as it was, save that a time zone that is not known is dropped.\<close>

lemma trigger_from_to:
  "trigger_from_db show_num valid_tz (trigger_type_tag t) (trigger_to_config_json t) = Inr (with_valid_timezone valid_tz t)"
proof (cases t)
  case (SystemEvent s e fs)
  then show ?thesis using filters_back[of show_num s e fs]
    by (simp add: trigger_from_db_def required_field_def str_field_def json_get_def as_str_def with_valid_timezone_def)
qed (auto simp: trigger_from_db_def required_field_def with_valid_timezone_def opt_filter_def str_field_opt
      intro!: str_field_opt simp: str_field_def json_get_def as_str_def json_opt_def split: option.splits)

definition with_clamped_rounds :: "routine_action \<Rightarrow> routine_action" where
  "with_clamped_rounds a =
     (case a of
        Lightweight p cs t u r \<Rightarrow> Lightweight p cs t u (clamp_max_tool_rounds (unat r))
      | _ \<Rightarrow> a)"

lemma u64_field_u32: "map_of es k = Some (json_u32 v) \<Longrightarrow> u64_field (JObject es) k d = unat v"
proof -
  have "unat (ucast v :: 64 word) = unat v"
    using unsigned_less[where ?'a = nat and w = v] by (simp add: unsigned_ucast_eq take_bit_nat_eq_self_iff)
  then show "map_of es k = Some (json_u32 v) \<Longrightarrow> ?thesis" by (simp add: u64_field_def json_get_def json_u32_def as_u64_def)
qed

lemma strings_back: "List.map_filter as_str (map JString xs) = xs"
  by (induction xs) (simp_all add: List.map_filter_def as_str_def)

text \<open>
  An action written to the database is read back as it was, save that the tool rounds of a lightweight action
  are brought into the range from 1 to 20.
\<close>

lemma action_from_to: "action_from_db (action_type_tag a) (action_to_config_json a) = Inr (with_clamped_rounds a)"
  by (cases a)
    (simp_all add: action_from_db_def required_field_def str_field_def json_get_def[of "''prompt''"] json_get_def[of "''title''"]
      json_get_def[of "''description''"] json_get_def[of "''use_tools''"] get_array_def json_get_def[of "''context_paths''"]
      as_str_def strings_back u64_field_u32 with_clamped_rounds_def)

lemma clamp_range: "1 \<le> unat (clamp_max_tool_rounds v) \<and> unat (clamp_max_tool_rounds v) \<le> MAX_TOOL_ROUNDS_LIMIT"
proof -
  have "unat (of_nat n :: 32 word) = n" if "n \<le> 20" for n
    using that by (simp add: unat_of_nat)
  then show ?thesis by (simp add: clamp_max_tool_rounds_def MAX_TOOL_ROUNDS_LIMIT_def)
qed

lemma clamp_id: "1 \<le> unat r \<Longrightarrow> unat r \<le> MAX_TOOL_ROUNDS_LIMIT \<Longrightarrow> clamp_max_tool_rounds (unat r) = r"
  by (simp add: clamp_max_tool_rounds_def min_absorb2 max_absorb2)

text \<open>
  Whatever the database holds, an action that is read has between 1 and 20 tool rounds: a number beyond 32 bits
  is brought into the range before it is narrowed.
\<close>

theorem rounds_in_range:
  assumes "action_from_db ty config = Inr (Lightweight p cs t u r)"
  shows "1 \<le> unat r \<and> unat r \<le> MAX_TOOL_ROUNDS_LIMIT"
  using assms clamp_range by (auto simp: action_from_db_def split: if_splits sum.splits)

theorem rounds_in_range_witness:
  "1 \<le> unat (clamp_max_tool_rounds (2 ^ 33)) \<and> unat (clamp_max_tool_rounds (2 ^ 33)) \<le> MAX_TOOL_ROUNDS_LIMIT"
proof -
  have "action_from_db ''lightweight''
      (JObject [(''prompt'', JString []), (''max_tool_rounds'', JNumber (PosInt (2 ^ 33)))])
    = Inr (Lightweight [] [] 4096 False (clamp_max_tool_rounds (2 ^ 33)))"
    by (simp add: action_from_db_def routine_fields get_array_def u64_field_def default_max_tokens_def)
  then show ?thesis by (rule rounds_in_range)
qed

text \<open>
  The limit of iterations of a full job is narrowed to 32 bits without a test: a multiple of two to the 32 in the
  database is read as no iterations at all.
\<close>

theorem iterations_wrap:
  assumes "json_get ''max_iterations'' config = Some (JNumber (PosInt n))"
    and "str_field config ''title'' = Some t" and "str_field config ''description'' = Some d"
  shows "action_from_db ''full_job'' config = Inr (FullJob t d (of_nat (unat n mod 2 ^ 32)))"
proof -
  have "(of_nat (unat n) :: 32 word) = of_nat (unat n mod 2 ^ 32)"
    by (simp add: word_unat_eq_iff unsigned_ucast_eq take_bit_eq_mod unat_of_nat)
  then show ?thesis using assms by (simp add: action_from_db_def required_field_def u64_field_def as_u64_def)
qed

theorem iterations_wrap_witness:
  "action_from_db ''full_job''
      (JObject [(''title'', JString ''t''), (''description'', JString ''d''), (''max_iterations'', JNumber (PosInt (2 ^ 32)))])
    = Inr (FullJob ''t'' ''d'' 0)"
  using iterations_wrap[of "JObject [(''title'', JString ''t''), (''description'', JString ''d''),
      (''max_iterations'', JNumber (PosInt (2 ^ 32)))]" "2 ^ 32" "''t''" "''d''"]
  by (simp add: routine_fields)

text \<open>The text of the status of a run is read back as the status, and no other text is read.\<close>

theorem run_status_round_trip: "run_status_from_str s = Inr st \<longleftrightarrow> s = run_status_display st"
  by (cases st) (auto simp: run_status_from_str_def)

subsection \<open>Cron text\<close>

lemma ws_dropWhile: "split_whitespace (dropWhile is_ascii_ws s) = split_whitespace s"
  by (induction s) (simp_all add: split_whitespace_def)

lemma ws_trailing: "split_whitespace (rev (dropWhile is_ascii_ws s)) = split_whitespace (rev s)"
  by (induction s) (simp_all add: split_whitespace_def split_on_snoc_sep)

lemma split_whitespace_trim [simp]: "split_whitespace (trim s) = split_whitespace s"
  by (simp add: trim_def ws_trailing ws_dropWhile)

lemma normalized_fields:
  "split_whitespace (normalize_cron_expression s) =
     (if length (split_whitespace s) = 5 then ''0'' # split_whitespace s @ [''*'']
      else if length (split_whitespace s) = 6 then split_whitespace s @ [''*'']
      else split_whitespace s)"
proof -
  let ?ws = "split_whitespace s"
  have star: "split_whitespace (str_join '' '' ?ws @ '' *'') = ?ws @ [''*'']"
    using split_whitespace_append[of "str_join '' '' ?ws" "''*''"] split_join_words[OF plain_split[of s]]
    by (simp add: split_whitespace_def is_ascii_ws_def ascii_code_def)
  have zero: "split_whitespace (''0 '' @ t) = ''0'' # split_whitespace t" for t
    using split_whitespace_append[of "''0''" t] by (simp add: split_whitespace_def is_ascii_ws_def ascii_code_def)
  show ?thesis by (simp add: normalize_cron_expression_def Let_def star zero[simplified])
qed

lemma cron_field_cases:
  obtains (five) a b c d e where "split_whitespace s = [a, b, c, d, e]"
    | (six) a b c d e f where "split_whitespace s = [a, b, c, d, e, f]"
    | (other) "length (split_whitespace s) \<noteq> 5" "length (split_whitespace s) \<noteq> 6"
proof -
  consider "length (split_whitespace s) = 5" | "length (split_whitespace s) = 6"
    | "length (split_whitespace s) \<noteq> 5" "length (split_whitespace s) \<noteq> 6" by blast
  then show thesis
  proof cases
    case 1
    then show thesis by (auto simp: length_Suc_conv eval_nat_numeral intro: five)
  next
    case 2
    then show thesis by (auto simp: length_Suc_conv eval_nat_numeral intro: six)
  qed (rule other)
qed

text \<open>
  A cron expression and its normal form have the same description, so what a user is shown does not depend on
  which of the accepted forms is stored.
\<close>

theorem description_of_normal_form: "describe_inner (normalize_cron_expression s) = describe_inner s"
  by (cases s rule: cron_field_cases) (simp_all add: describe_inner_def normalized_fields describe_fields_def)

lemma hd_join: "ws \<noteq> [] \<Longrightarrow> hd ws \<noteq> [] \<Longrightarrow> hd (str_join sep ws @ t) = hd (hd ws)"
  by (induction sep ws rule: str_join.induct) auto

text \<open>The normal form of a cron expression is its own normal form.\<close>

theorem normal_form_idempotent:
  "normalize_cron_expression (normalize_cron_expression s) = normalize_cron_expression s"
proof -
  let ?n = "normalize_cron_expression s" and ?ws = "split_whitespace s"
  have trim: "trim ?n = ?n"
  proof (cases "length ?ws = 5 \<or> length ?ws = 6")
    case True
    then have "?ws \<noteq> []" by auto
    then have "\<not> is_ascii_ws (hd (hd ?ws))" "hd ?ws \<noteq> []"
      using split_whitespace_words[of "hd ?ws" s] by (auto simp: list_all_iff)
    then show ?thesis using True \<open>?ws \<noteq> []\<close>
      by (intro trim_fixed) (auto simp: normalize_cron_expression_def Let_def hd_join is_ascii_ws_def ascii_code_def)
  qed (auto simp: normalize_cron_expression_def Let_def trim_trim)
  have "length (split_whitespace ?n) \<noteq> 5" "length (split_whitespace ?n) \<noteq> 6" by (auto simp: normalized_fields)
  then show ?thesis by (subst normalize_cron_expression_def) (simp add: Let_def trim)
qed

end
