(* ===== verification/Routine_Store.thy ===== *)
theory Routine_Store
  imports Routine "HOL-Library.List_Lexorder" "HOL-Library.Char_ord"
begin

text \<open>
  The tables of routines and of their runs, \<open>src/history/store.rs\<close>: a routine and a run as rows, the reading of a
  row, and the queries and updates with the tables as lists of rows. Columns keep their width: a cooldown is a
  number of seconds in 32 signed bits. A connection that fails and the rounding of time stamps are left out; a text
  column compares byte by byte.
\<close>

section \<open>Model\<close>

subsection \<open>Rows\<close>

record routine_row =
  ro_id :: uuid
  ro_name :: string
  ro_description :: string
  ro_user_id :: string
  ro_enabled :: bool
  ro_trigger_type :: string
  ro_trigger_config :: json
  ro_action_type :: string
  ro_action_config :: json
  ro_cooldown_secs :: "32 word"
  ro_max_concurrent :: "32 word"
  ro_dedup_window_secs :: "32 word option"
  ro_notify :: notify_config
  ro_state :: json
  ro_last_run_at :: "utc option"
  ro_next_fire_at :: "utc option"
  ro_run_count :: "64 word"
  ro_consecutive_failures :: "32 word"
  ro_created_at :: utc
  ro_updated_at :: utc

record run_row =
  rn_id :: uuid
  rn_routine_id :: uuid
  rn_trigger_type :: string
  rn_trigger_detail :: "string option"
  rn_started_at :: utc
  rn_completed_at :: "utc option"
  rn_status :: string
  rn_result_summary :: "string option"
  rn_tokens_used :: "32 word option"
  rn_job_id :: "uuid option"
  rn_created_at :: utc

record routine_db =
  rb_routines :: "routine_row list"
  rb_runs :: "run_row list"

definition NANOS :: nat where "NANOS = 10 ^ 9"

definition as_secs_i32 :: "nat \<Rightarrow> 32 word" where
  "as_secs_i32 d = of_nat (d div NANOS)"

definition secs_of_i32 :: "32 word \<Rightarrow> nat" where
  "secs_of_i32 s = unat (scast s :: 64 word) * NANOS"

text \<open>Reading a row. The time zone table and the text of numbers are those of \<open>Trigger::from_db\<close>.\<close>

definition row_to_routine ::
  "(number \<Rightarrow> string) \<Rightarrow> (string \<Rightarrow> bool) \<Rightarrow> routine_row \<Rightarrow> (routine_error, routine) result"
where
  "row_to_routine show_num valid_tz row =
     (case trigger_from_db show_num valid_tz (ro_trigger_type row) (ro_trigger_config row) of
        Inl e \<Rightarrow> Inl e
      | Inr trig \<Rightarrow>
          (case action_from_db (ro_action_type row) (ro_action_config row) of
             Inl e \<Rightarrow> Inl e
           | Inr act \<Rightarrow>
               Inr \<lparr>rt_id = ro_id row, rt_name = ro_name row, rt_description = ro_description row,
                    rt_user_id = ro_user_id row, rt_enabled = ro_enabled row, rt_trigger = trig, rt_action = act,
                    rt_guardrails =
                      \<lparr>gr_cooldown = secs_of_i32 (ro_cooldown_secs row), gr_max_concurrent = ro_max_concurrent row,
                       gr_dedup_window = map_option secs_of_i32 (ro_dedup_window_secs row)\<rparr>,
                    rt_notify = ro_notify row, rt_last_run_at = ro_last_run_at row, rt_next_fire_at = ro_next_fire_at row,
                    rt_run_count = ro_run_count row, rt_consecutive_failures = ro_consecutive_failures row,
                    rt_state = ro_state row, rt_created_at = ro_created_at row, rt_updated_at = ro_updated_at row\<rparr>))"

definition row_to_routine_run :: "run_row \<Rightarrow> (routine_error, routine_run) result" where
  "row_to_routine_run row =
     (case run_status_from_str (rn_status row) of
        Inl e \<Rightarrow> Inl e
      | Inr status \<Rightarrow>
          Inr \<lparr>rr_id = rn_id row, rr_routine_id = rn_routine_id row, rr_trigger_type = rn_trigger_type row,
               rr_trigger_detail = rn_trigger_detail row, rr_started_at = rn_started_at row,
               rr_completed_at = rn_completed_at row, rr_status = status, rr_result_summary = rn_result_summary row,
               rr_tokens_used = rn_tokens_used row, rr_job_id = rn_job_id row, rr_created_at = rn_created_at row\<rparr>)"

fun sequence_results :: "('e, 'a) result list \<Rightarrow> ('e, 'a list) result" where
  "sequence_results [] = Inr []"
| "sequence_results (Inl e # rs) = Inl e"
| "sequence_results (Inr x # rs) = (case sequence_results rs of Inl e \<Rightarrow> Inl e | Inr xs \<Rightarrow> Inr (x # xs))"

subsection \<open>Routines\<close>

datatype store_error = DuplicateKey | SeveralRows | NoRow | RowInvalid routine_error

definition into_row :: "routine \<Rightarrow> routine_row \<Rightarrow> routine_row" where
  "into_row r row =
     row\<lparr>ro_name := rt_name r, ro_description := rt_description r, ro_enabled := rt_enabled r,
         ro_trigger_type := trigger_type_tag (rt_trigger r), ro_trigger_config := trigger_to_config_json (rt_trigger r),
         ro_action_type := action_type_tag (rt_action r), ro_action_config := action_to_config_json (rt_action r),
         ro_cooldown_secs := as_secs_i32 (gr_cooldown (rt_guardrails r)),
         ro_max_concurrent := gr_max_concurrent (rt_guardrails r),
         ro_dedup_window_secs := map_option as_secs_i32 (gr_dedup_window (rt_guardrails r)),
         ro_notify := rt_notify r, ro_state := rt_state r, ro_next_fire_at := rt_next_fire_at r\<rparr>"

definition new_row :: "routine \<Rightarrow> routine_row" where
  "new_row r =
     into_row r \<lparr>ro_id = rt_id r, ro_name = [], ro_description = [], ro_user_id = rt_user_id r, ro_enabled = True,
        ro_trigger_type = [], ro_trigger_config = JNull, ro_action_type = [], ro_action_config = JNull,
        ro_cooldown_secs = 300, ro_max_concurrent = 1, ro_dedup_window_secs = None, ro_notify = rt_notify r,
        ro_state = JNull, ro_last_run_at = None, ro_next_fire_at = None, ro_run_count = 0, ro_consecutive_failures = 0,
        ro_created_at = rt_created_at r, ro_updated_at = rt_updated_at r\<rparr>"

definition same_key :: "routine_row \<Rightarrow> routine_row \<Rightarrow> bool" where
  "same_key a b = (ro_id a = ro_id b \<or> (ro_user_id a = ro_user_id b \<and> ro_name a = ro_name b))"

definition create_routine :: "routine \<Rightarrow> routine_db \<Rightarrow> (store_error, unit) result \<times> routine_db" where
  "create_routine r db =
     (if list_ex (same_key (new_row r)) (rb_routines db) then (Inl DuplicateKey, db)
      else (Inr (), db\<lparr>rb_routines := rb_routines db @ [new_row r]\<rparr>))"

text \<open>\<open>query_opt\<close> of the client: no row, one row, or an error when there are several.\<close>

definition query_opt :: "('a \<Rightarrow> bool) \<Rightarrow> 'a list \<Rightarrow> (store_error, 'a option) result" where
  "query_opt P rows =
     (case filter P rows of [] \<Rightarrow> Inr None | [x] \<Rightarrow> Inr (Some x) | _ \<Rightarrow> Inl SeveralRows)"

definition read_opt ::
  "(number \<Rightarrow> string) \<Rightarrow> (string \<Rightarrow> bool) \<Rightarrow> (store_error, routine_row option) result \<Rightarrow> (store_error, routine option) result"
where
  "read_opt show_num valid_tz q =
     (case q of
        Inl e \<Rightarrow> Inl e
      | Inr None \<Rightarrow> Inr None
      | Inr (Some row) \<Rightarrow>
          (case row_to_routine show_num valid_tz row of Inl e \<Rightarrow> Inl (RowInvalid e) | Inr r \<Rightarrow> Inr (Some r)))"

definition read_all ::
  "(number \<Rightarrow> string) \<Rightarrow> (string \<Rightarrow> bool) \<Rightarrow> routine_row list \<Rightarrow> (store_error, routine list) result"
where
  "read_all show_num valid_tz rows =
     (case sequence_results (map (row_to_routine show_num valid_tz) rows) of
        Inl e \<Rightarrow> Inl (RowInvalid e)
      | Inr rs \<Rightarrow> Inr rs)"

definition get_routine where
  "get_routine show_num valid_tz i db = read_opt show_num valid_tz (query_opt (\<lambda>r. ro_id r = i) (rb_routines db))"

definition get_routine_by_name where
  "get_routine_by_name show_num valid_tz user name db =
     read_opt show_num valid_tz (query_opt (\<lambda>r. ro_user_id r = user \<and> ro_name r = name) (rb_routines db))"

definition list_routines where
  "list_routines show_num valid_tz user db =
     read_all show_num valid_tz (sort_key ro_name (filter (\<lambda>r. ro_user_id r = user) (rb_routines db)))"

definition list_all_routines where
  "list_all_routines show_num valid_tz db = read_all show_num valid_tz (sort_key ro_name (rb_routines db))"

definition is_event_row :: "routine_row \<Rightarrow> bool" where
  "is_event_row r = (ro_enabled r \<and> ro_trigger_type r \<in> set [''event'', ''system_event''])"

definition list_event_routines where
  "list_event_routines show_num valid_tz db = read_all show_num valid_tz (filter is_event_row (rb_routines db))"

text \<open>The operator \<open>->>\<close>: the text of an entry, and null for an entry that is null or missing.\<close>

definition json_text :: "(json \<Rightarrow> string) \<Rightarrow> string \<Rightarrow> json \<Rightarrow> string option" where
  "json_text text_of k v =
     (case json_get k v of
        None \<Rightarrow> None | Some JNull \<Rightarrow> None | Some (JString s) \<Rightarrow> Some s | Some v \<Rightarrow> Some (text_of v))"

definition webhook_row :: "(json \<Rightarrow> string) \<Rightarrow> (uuid \<Rightarrow> string) \<Rightarrow> string \<Rightarrow> string option \<Rightarrow> routine_row \<Rightarrow> bool" where
  "webhook_row text_of uuid_text path user r =
     (ro_enabled r \<and> ro_trigger_type r = ''webhook'' \<and> (\<forall>u\<in>set_option user. ro_user_id r = u) \<and>
      (case json_text text_of ''path'' (ro_trigger_config r) of Some p \<Rightarrow> p = path | None \<Rightarrow> uuid_text (ro_id r) = path))"

definition get_webhook_routine_by_path where
  "get_webhook_routine_by_path show_num valid_tz text_of uuid_text path user db =
     read_opt show_num valid_tz (query_opt (webhook_row text_of uuid_text path user) (rb_routines db))"

definition is_due_cron_row :: "utc \<Rightarrow> routine_row \<Rightarrow> bool" where
  "is_due_cron_row now r =
     (ro_enabled r \<and> ro_trigger_type r = ''cron'' \<and> (case ro_next_fire_at r of None \<Rightarrow> False | Some t \<Rightarrow> t \<le> now))"

definition list_due_cron_routines where
  "list_due_cron_routines show_num valid_tz now db =
     read_all show_num valid_tz (filter (is_due_cron_row now) (rb_routines db))"

definition update_routine :: "utc \<Rightarrow> routine \<Rightarrow> routine_db \<Rightarrow> (store_error, unit) result \<times> routine_db" where
  "update_routine now r db =
     (if list_ex (\<lambda>row. ro_id row = rt_id r \<and>
           list_ex (\<lambda>o'. ro_id o' \<noteq> rt_id r \<and> ro_user_id o' = ro_user_id row \<and> ro_name o' = rt_name r) (rb_routines db))
         (rb_routines db)
      then (Inl DuplicateKey, db)
      else (Inr (), db\<lparr>rb_routines := map (\<lambda>row. if ro_id row = rt_id r then (into_row r row)\<lparr>ro_updated_at := now\<rparr> else row)
                         (rb_routines db)\<rparr>))"

definition update_routine_runtime ::
  "utc \<Rightarrow> uuid \<Rightarrow> utc \<Rightarrow> utc option \<Rightarrow> 64 word \<Rightarrow> 32 word \<Rightarrow> json \<Rightarrow> routine_db \<Rightarrow> routine_db"
where
  "update_routine_runtime now i last_run next_fire runs failures state db =
     db\<lparr>rb_routines := map (\<lambda>row. if ro_id row = i
          then row\<lparr>ro_last_run_at := Some last_run, ro_next_fire_at := next_fire, ro_run_count := runs,
                   ro_consecutive_failures := failures, ro_state := state, ro_updated_at := now\<rparr>
          else row) (rb_routines db)\<rparr>"

text \<open>Deleting a routine deletes its runs: the foreign key cascades.\<close>

definition delete_routine :: "uuid \<Rightarrow> routine_db \<Rightarrow> bool \<times> routine_db" where
  "delete_routine i db =
     (list_ex (\<lambda>r. ro_id r = i) (rb_routines db),
      db\<lparr>rb_routines := filter (\<lambda>r. ro_id r \<noteq> i) (rb_routines db),
         rb_runs := filter (\<lambda>r. rn_routine_id r \<noteq> i) (rb_runs db)\<rparr>)"

subsection \<open>Runs\<close>

definition run_row_of :: "utc \<Rightarrow> routine_run \<Rightarrow> run_row" where
  "run_row_of now run =
     \<lparr>rn_id = rr_id run, rn_routine_id = rr_routine_id run, rn_trigger_type = rr_trigger_type run,
      rn_trigger_detail = rr_trigger_detail run, rn_started_at = rr_started_at run, rn_completed_at = None,
      rn_status = run_status_display (rr_status run), rn_result_summary = None, rn_tokens_used = None,
      rn_job_id = rr_job_id run, rn_created_at = now\<rparr>"

text \<open>The row must refer to a routine and its identifier must be new.\<close>

definition create_routine_run :: "utc \<Rightarrow> routine_run \<Rightarrow> routine_db \<Rightarrow> (store_error, unit) result \<times> routine_db" where
  "create_routine_run now run db =
     (if list_ex (\<lambda>r. rn_id r = rr_id run) (rb_runs db) then (Inl DuplicateKey, db)
      else if \<not> list_ex (\<lambda>r. ro_id r = rr_routine_id run) (rb_routines db) then (Inl NoRow, db)
      else (Inr (), db\<lparr>rb_runs := rb_runs db @ [run_row_of now run]\<rparr>))"

definition complete_routine_run ::
  "utc \<Rightarrow> uuid \<Rightarrow> run_status \<Rightarrow> string option \<Rightarrow> 32 word option \<Rightarrow> routine_db \<Rightarrow> routine_db"
where
  "complete_routine_run now i status summary tokens db =
     db\<lparr>rb_runs := map (\<lambda>r. if rn_id r = i
          then r\<lparr>rn_completed_at := Some now, rn_status := run_status_display status, rn_result_summary := summary,
                 rn_tokens_used := tokens\<rparr>
          else r) (rb_runs db)\<rparr>"

definition list_routine_runs :: "uuid \<Rightarrow> nat \<Rightarrow> routine_db \<Rightarrow> (routine_error, routine_run list) result" where
  "list_routine_runs i limit db =
     sequence_results (map row_to_routine_run
       (take limit (sort_key (\<lambda>r. - rn_started_at r) (filter (\<lambda>r. rn_routine_id r = i) (rb_runs db)))))"

definition is_running :: "run_row \<Rightarrow> bool" where
  "is_running r = (rn_status r = ''running'')"

definition count_running_routine_runs :: "uuid \<Rightarrow> routine_db \<Rightarrow> nat" where
  "count_running_routine_runs i db = length (filter (\<lambda>r. rn_routine_id r = i \<and> is_running r) (rb_runs db))"

text \<open>The batch query: the groups that occur, then zero for each identifier asked for that has none.\<close>

definition running_groups :: "uuid list \<Rightarrow> routine_db \<Rightarrow> (uuid \<times> nat) list" where
  "running_groups ids db =
     map (\<lambda>i. (i, count_running_routine_runs i db))
       (remdups (map rn_routine_id (filter (\<lambda>r. rn_routine_id r \<in> set ids \<and> is_running r) (rb_runs db))))"

definition count_running_routine_runs_batch :: "uuid list \<Rightarrow> routine_db \<Rightarrow> (uuid \<times> nat) list" where
  "count_running_routine_runs_batch ids db =
     (if ids = [] then []
      else fold (\<lambda>i m. if hm_get m i = None then hm_put i 0 m else m) ids
             (fold (\<lambda>(i, n). hm_put i n) (running_groups ids db) []))"

definition latest_run :: "uuid \<Rightarrow> routine_db \<Rightarrow> run_row option" where
  "latest_run i db =
     (case sort_key (\<lambda>r. - rn_started_at r) (filter (\<lambda>r. rn_routine_id r = i) (rb_runs db)) of
        [] \<Rightarrow> None | r # _ \<Rightarrow> Some r)"

definition batch_get_last_run_status :: "uuid list \<Rightarrow> routine_db \<Rightarrow> (uuid \<times> run_status) list" where
  "batch_get_last_run_status ids db =
     fold (\<lambda>i m.
        case latest_run i db of
          None \<Rightarrow> m
        | Some r \<Rightarrow> (case run_status_from_str (rn_status r) of Inl _ \<Rightarrow> m | Inr st \<Rightarrow> hm_put i st m)) ids []"

definition link_routine_run_to_job :: "uuid \<Rightarrow> uuid \<Rightarrow> routine_db \<Rightarrow> routine_db" where
  "link_routine_run_to_job run_id job_id db =
     db\<lparr>rb_runs := map (\<lambda>r. if rn_id r = run_id then r\<lparr>rn_job_id := Some job_id\<rparr> else r) (rb_runs db)\<rparr>"

definition list_dispatched_routine_runs :: "routine_db \<Rightarrow> (routine_error, routine_run list) result" where
  "list_dispatched_routine_runs db =
     sequence_results (map row_to_routine_run (filter (\<lambda>r. is_running r \<and> rn_job_id r \<noteq> None) (rb_runs db)))"

section \<open>Lemmas\<close>

subsection \<open>Keys\<close>

text \<open>What the constraints of the two tables say: keys are unique and a run belongs to a routine.\<close>

definition db_wf :: "routine_db \<Rightarrow> bool" where
  "db_wf db =
     (distinct (map ro_id (rb_routines db)) \<and> distinct (map (\<lambda>r. (ro_user_id r, ro_name r)) (rb_routines db)) \<and>
      distinct (map rn_id (rb_runs db)) \<and> set (map rn_routine_id (rb_runs db)) \<subseteq> set (map ro_id (rb_routines db)))"

lemma into_row_keys [simp]: "ro_id (into_row r row) = ro_id row" "ro_user_id (into_row r row) = ro_user_id row"
    "ro_name (into_row r row) = rt_name r"
  by (simp_all add: into_row_def)

lemma new_row_keys [simp]: "ro_id (new_row r) = rt_id r" "ro_user_id (new_row r) = rt_user_id r" "ro_name (new_row r) = rt_name r"
  by (simp_all add: new_row_def)

lemma create_routine_wf: "db_wf db \<Longrightarrow> db_wf (snd (create_routine r db))"
  by (auto simp: create_routine_def db_wf_def list_ex_iff same_key_def)

lemma update_routine_wf:
  assumes "db_wf db" shows "db_wf (snd (update_routine now r db))"
proof (cases "fst (update_routine now r db)")
  case (Inr u)
  let ?f = "\<lambda>row. if ro_id row = rt_id r then (into_row r row)\<lparr>ro_updated_at := now\<rparr> else row"
  let ?key = "\<lambda>r. (ro_user_id r, ro_name r)"
  have db: "snd (update_routine now r db) = db\<lparr>rb_routines := map ?f (rb_routines db)\<rparr>"
    and fresh: "\<And>row o'. row \<in> set (rb_routines db) \<Longrightarrow> o' \<in> set (rb_routines db) \<Longrightarrow> ro_id row = rt_id r \<Longrightarrow>
        ro_id o' \<noteq> rt_id r \<Longrightarrow> ro_user_id o' = ro_user_id row \<Longrightarrow> ro_name o' \<noteq> rt_name r"
    using Inr by (auto simp: update_routine_def list_ex_iff split: if_splits)
  have ids: "map ro_id (map ?f (rb_routines db)) = map ro_id (rb_routines db)" by simp
  have inj: "inj_on ro_id (set (rb_routines db))" "inj_on ?key (set (rb_routines db))" "distinct (rb_routines db)"
    using assms by (auto simp: db_wf_def distinct_map)
  have "inj_on (?key \<circ> ?f) (set (rb_routines db))"
  proof (rule inj_onI)
    fix a b assume ab: "a \<in> set (rb_routines db)" "b \<in> set (rb_routines db)" "(?key \<circ> ?f) a = (?key \<circ> ?f) b"
    show "a = b"
    proof (cases "ro_id a = rt_id r \<longleftrightarrow> ro_id b = rt_id r")
      case True
      then show ?thesis using ab inj_onD[OF inj(1), of a b] inj_onD[OF inj(2), of a b] by (auto split: if_splits)
    next
      case False
      then show ?thesis using ab fresh[of a b] fresh[of b a] by (auto split: if_splits)
    qed
  qed
  then have "distinct (map ?key (map ?f (rb_routines db)))"
    using inj(3) by (simp add: distinct_map)
  then show ?thesis using assms unfolding db db_wf_def by (simp add: ids del: map_map set_map)
next
  case (Inl e)
  then show ?thesis using assms by (auto simp: update_routine_def split: if_splits)
qed

datatype routine_op =
    CreateRoutine routine
  | UpdateRoutine utc routine
  | UpdateRuntime utc uuid utc "utc option" "64 word" "32 word" json
  | DeleteRoutine uuid
  | CreateRun utc routine_run
  | CompleteRun utc uuid run_status "string option" "32 word option"
  | LinkRun uuid uuid

fun routine_perform :: "routine_op \<Rightarrow> routine_db \<Rightarrow> routine_db" where
  "routine_perform (CreateRoutine r) db = snd (create_routine r db)"
| "routine_perform (UpdateRoutine now r) db = snd (update_routine now r db)"
| "routine_perform (UpdateRuntime now i l n c f s) db = update_routine_runtime now i l n c f s db"
| "routine_perform (DeleteRoutine i) db = snd (delete_routine i db)"
| "routine_perform (CreateRun now run) db = snd (create_routine_run now run db)"
| "routine_perform (CompleteRun now i st sm tk) db = complete_routine_run now i st sm tk db"
| "routine_perform (LinkRun i j) db = link_routine_run_to_job i j db"

lemma map_if_same: "(\<And>x. g (f x) = g x) \<Longrightarrow> map g (map (\<lambda>x. if P x then f x else x) xs) = map g xs"
  by simp

lemma runtime_wf: "db_wf db \<Longrightarrow> db_wf (update_routine_runtime now i l n c f s db)"
  by (simp add: db_wf_def update_routine_runtime_def map_if_same del: map_map)

lemma delete_wf: "db_wf db \<Longrightarrow> db_wf (snd (delete_routine i db))"
  by (auto simp: db_wf_def delete_routine_def distinct_map inj_on_def)

lemma create_run_wf: "db_wf db \<Longrightarrow> db_wf (snd (create_routine_run now run db))"
  by (force simp: db_wf_def create_routine_run_def run_row_of_def list_ex_iff)

lemma complete_wf: "db_wf db \<Longrightarrow> db_wf (complete_routine_run now i st sm tk db)"
  by (simp add: db_wf_def complete_routine_run_def map_if_same del: map_map set_map)

lemma link_wf: "db_wf db \<Longrightarrow> db_wf (link_routine_run_to_job i j db)"
  by (simp add: db_wf_def link_routine_run_to_job_def map_if_same del: map_map set_map)

lemmas routine_wf = create_routine_wf update_routine_wf runtime_wf delete_wf create_run_wf complete_wf link_wf

interpretation routine_tables: op_invariant routine_perform db_wf
proof
  show "db_wf (routine_perform op db)" if "db_wf db" for op db using that by (cases op) (simp_all add: routine_wf)
qed

lemma query_opt_unique:
  assumes "distinct (map key rows)"
  shows "query_opt (\<lambda>r. key r = k) rows = Inr (List.find (\<lambda>r. key r = k) rows)"
  using assms
proof (induction rows)
  case (Cons r rows)
  show ?case
  proof (cases "key r = k")
    case True
    then have "filter (\<lambda>r. key r = k) rows = []" using Cons.prems by (fastforce simp: filter_empty_conv image_iff)
    then show ?thesis using True by (simp add: query_opt_def)
  qed (use Cons in \<open>simp add: query_opt_def\<close>)
qed (simp add: query_opt_def)

text \<open>
  Whatever is done to the tables, the keys stay unique: a look-up of a routine by its identifier or by user and
  name finds the one row there is, or none, and never fails for finding several.
\<close>

theorem routine_lookup_unambiguous:
  fixes ops :: "routine_op list"
  defines "db \<equiv> fold routine_perform ops \<lparr>rb_routines = [], rb_runs = []\<rparr>"
  shows "get_routine show_num valid_tz i db \<noteq> Inl SeveralRows \<and>
    get_routine_by_name show_num valid_tz user name db \<noteq> Inl SeveralRows"
proof -
  have wf: "db_wf db" unfolding db_def by (rule routine_tables.fold_inv) (simp add: db_wf_def)
  have "query_opt (\<lambda>r. (ro_user_id r, ro_name r) = (user, name)) (rb_routines db) \<noteq> Inl SeveralRows"
    using wf by (subst query_opt_unique) (simp_all add: db_wf_def)
  moreover have "query_opt (\<lambda>r. ro_id r = i) (rb_routines db) \<noteq> Inl SeveralRows"
    using wf by (subst query_opt_unique) (simp_all add: db_wf_def)
  ultimately show ?thesis
    by (auto simp: get_routine_def get_routine_by_name_def read_opt_def split: sum.splits option.splits)
qed

subsection \<open>Webhook paths\<close>

text \<open>
  The path of a webhook is not a key: as soon as two enabled routines have the same path, of one user or of two,
  the look-up by that path fails, and neither of them can be triggered by it.
\<close>

theorem shared_path_blocks_webhook:
  assumes "webhook_row text_of uuid_text path user a" "webhook_row text_of uuid_text path user b"
    and "rb_routines db = xs @ a # ys @ b # zs"
  shows "get_webhook_routine_by_path show_num valid_tz text_of uuid_text path user db = Inl SeveralRows"
proof -
  have "query_opt (webhook_row text_of uuid_text path user) (rb_routines db) = Inl SeveralRows"
    using assms by (cases "filter (webhook_row text_of uuid_text path user) xs"; cases "tl (filter (webhook_row text_of uuid_text path user) xs)")
      (auto simp: query_opt_def split: list.splits)
  then show ?thesis by (simp add: get_webhook_routine_by_path_def read_opt_def)
qed

subsection \<open>Counts\<close>

lemma hm_get_fold_put:
  "distinct (map fst ps) \<Longrightarrow> hm_get (fold (\<lambda>(i, n). hm_put i n) ps m) i = (case map_of ps i of Some n \<Rightarrow> Some n | None \<Rightarrow> hm_get m i)"
  by (induction ps arbitrary: m) (auto split: option.splits dest: map_of_SomeD simp: image_iff)

lemma hm_get_fold_default:
  "hm_get (fold (\<lambda>i m. if hm_get m i = None then hm_put i 0 m else m) ids m) j =
     (case hm_get m j of Some n \<Rightarrow> Some n | None \<Rightarrow> if j \<in> set ids then Some 0 else None)"
  by (induction ids arbitrary: m) (auto split: option.splits)

lemma count_zero: "count_running_routine_runs i db = 0 \<longleftrightarrow> (\<forall>r\<in>set (rb_runs db). rn_routine_id r = i \<longrightarrow> \<not> is_running r)"
  by (simp add: count_running_routine_runs_def filter_empty_conv)

text \<open>
  The one query for many routines gives the counts that a query for each would give, and an entry exactly for the
  routines that were asked for.
\<close>

lemma batch_counts:
  "hm_get (count_running_routine_runs_batch ids db) i =
     (if i \<in> set ids then Some (count_running_routine_runs i db) else None)"
proof -
  let ?g = "running_groups ids db"
  have d: "distinct (map fst ?g)" by (simp add: running_groups_def comp_def)
  have "map_of ?g i = (if i \<in> set ids \<and> count_running_routine_runs i db \<noteq> 0 then Some (count_running_routine_runs i db) else None)"
    unfolding running_groups_def by (subst map_of_map_restrict[unfolded comp_def]) (auto simp: restrict_map_def count_zero)
  then show ?thesis
    by (auto simp: count_running_routine_runs_batch_def hm_get_fold_put[OF d] hm_get_fold_default split: option.splits)
qed

subsection \<open>Round trips\<close>

definition stored_guardrails :: "routine_guardrails \<Rightarrow> bool" where
  "stored_guardrails g =
     ((\<exists>n < 2 ^ 31. gr_cooldown g = n * NANOS) \<and> (\<forall>d\<in>set_option (gr_dedup_window g). \<exists>n < 2 ^ 31. d = n * NANOS))"

lemma secs_stored: "as_secs_i32 (n * NANOS) = of_nat n"
  by (simp add: as_secs_i32_def NANOS_def)

lemma scast_secs: "unat (scast (w :: 32 word) :: 64 word) = nat (sint w mod 2 ^ 64)"
  unfolding scast_eq nat_uint_eq[symmetric] uint_word_of_int by simp

lemma secs_round_trip:
  assumes "n < 2 ^ 31" shows "secs_of_i32 (as_secs_i32 (n * NANOS)) = n * NANOS"
proof -
  have "take_bit 32 n = n" using assms by (simp add: take_bit_nat_eq_self_iff)
  then have "sint (of_nat n :: 32 word) = int n"
    using assms by (simp add: sint_uint unsigned_of_nat signed_take_bit_int_eq_self)
  then show ?thesis using assms by (simp add: secs_of_i32_def secs_stored scast_secs)
qed

lemma secs_negative:
  assumes "2 ^ 31 \<le> n" "n < 2 ^ 32"
  shows "secs_of_i32 (as_secs_i32 (n * NANOS)) = (2 ^ 64 - 2 ^ 32 + n) * NANOS"
proof -
  have t: "take_bit 32 n = n" using assms by (simp add: take_bit_nat_eq_self_iff)
  have "sint (of_nat n :: 32 word) = int n - 2 ^ 32"
  proof -
    have "signed_take_bit 31 (int n) = signed_take_bit 31 (int n - 2 ^ 32)"
      by (simp add: signed_take_bit_eq_iff_take_bit_eq take_bit_eq_mod mod_diff_eq[symmetric])
    also have "\<dots> = int n - 2 ^ 32" using assms by (intro signed_take_bit_int_eq_self) simp_all
    finally show ?thesis using t by (simp add: sint_uint unsigned_of_nat)
  qed
  moreover have "(int n - 2 ^ 32) mod 2 ^ 64 = int n - 2 ^ 32 + 2 ^ 64"
    using assms mod_add_self2[of "int n - 2 ^ 32" "2 ^ 64"] mod_pos_pos_trivial[of "int n - 2 ^ 32 + 2 ^ 64" "2 ^ 64"]
    by simp
  ultimately show ?thesis using assms by (simp add: secs_of_i32_def secs_stored scast_secs nat_add_distrib)
qed

lemma guardrails_back:
  assumes "stored_guardrails g"
  shows "\<lparr>gr_cooldown = secs_of_i32 (as_secs_i32 (gr_cooldown g)), gr_max_concurrent = gr_max_concurrent g,
      gr_dedup_window = map_option secs_of_i32 (map_option as_secs_i32 (gr_dedup_window g))\<rparr> = g"
proof -
  have "map_option secs_of_i32 (map_option as_secs_i32 (gr_dedup_window g)) = gr_dedup_window g"
    using assms secs_round_trip by (cases "gr_dedup_window g") (auto simp: stored_guardrails_def)
  moreover have "secs_of_i32 (as_secs_i32 (gr_cooldown g)) = gr_cooldown g"
    using assms secs_round_trip by (auto simp: stored_guardrails_def)
  ultimately show ?thesis by simp
qed

lemma routine_from_to:
  assumes "stored_guardrails (rt_guardrails r)"
  shows "row_to_routine show_num valid_tz (new_row r) =
    Inr (r\<lparr>rt_trigger := with_valid_timezone valid_tz (rt_trigger r), rt_action := with_clamped_rounds (rt_action r),
           rt_last_run_at := None, rt_run_count := 0, rt_consecutive_failures := 0\<rparr>)"
  using guardrails_back[OF assms]
  by (simp add: row_to_routine_def new_row_def into_row_def trigger_from_to action_from_to)

text \<open>
  A routine that is created and read back is the routine that was given, as long as its cooldown and its window
  are whole seconds below two to the 31: only a time zone that is not known is dropped, the tool rounds are brought
  into range, and the counters of runs start at zero.
\<close>

theorem routine_round_trip:
  assumes "stored_guardrails (rt_guardrails r)"
  shows "row_to_routine show_num valid_tz (new_row r) =
    Inr (r\<lparr>rt_trigger := with_valid_timezone valid_tz (rt_trigger r), rt_action := with_clamped_rounds (rt_action r),
           rt_last_run_at := None, rt_run_count := 0, rt_consecutive_failures := 0\<rparr>)"
  using assms by (rule routine_from_to)

definition sample_routine :: routine where
  "sample_routine =
     \<lparr>rt_id = 1, rt_name = ''daily'', rt_description = [], rt_user_id = ''ann'', rt_enabled = True,
      rt_trigger = Webhook (Some ''hook'') (Some ''s''), rt_action = FullJob ''t'' ''d'' 5,
      rt_guardrails = \<lparr>gr_cooldown = 300 * NANOS, gr_max_concurrent = 1, gr_dedup_window = None\<rparr>,
      rt_notify = notify_default, rt_last_run_at = Some 7, rt_next_fire_at = None, rt_run_count = 9,
      rt_consecutive_failures = 2, rt_state = JObject [], rt_created_at = 0, rt_updated_at = 0\<rparr>"

theorem routine_round_trip_witness:
  "stored_guardrails (rt_guardrails sample_routine) \<and>
    row_to_routine (\<lambda>_. []) (\<lambda>_. True) (new_row sample_routine) =
      Inr (sample_routine\<lparr>rt_last_run_at := None, rt_run_count := 0, rt_consecutive_failures := 0\<rparr>)"
proof -
  have g: "stored_guardrails (rt_guardrails sample_routine)"
    by (auto simp: stored_guardrails_def sample_routine_def intro!: exI[of _ 300])
  show ?thesis using g routine_round_trip[OF g, of "\<lambda>_. []" "\<lambda>_. True"]
    by (simp add: sample_routine_def with_valid_timezone_def with_clamped_rounds_def)
qed

theorem shared_path_blocks_webhook_witness:
  "get_webhook_routine_by_path (\<lambda>_. []) (\<lambda>_. True) (\<lambda>_. []) (\<lambda>_. []) ''hook'' None
     (snd (create_routine (sample_routine\<lparr>rt_id := 2, rt_user_id := ''bob''\<rparr>)
       (snd (create_routine sample_routine \<lparr>rb_routines = [], rb_runs = []\<rparr>)))) = Inl SeveralRows"
proof -
  let ?b = "sample_routine\<lparr>rt_id := 2, rt_user_id := ''bob''\<rparr>"
  have rows: "webhook_row (\<lambda>_. []) (\<lambda>_. []) ''hook'' None (new_row sample_routine)"
      "webhook_row (\<lambda>_. []) (\<lambda>_. []) ''hook'' None (new_row ?b)"
    by (simp_all add: webhook_row_def new_row_def into_row_def sample_routine_def json_text_def json_get_def json_opt_def)
  have "rb_routines (snd (create_routine ?b (snd (create_routine sample_routine \<lparr>rb_routines = [], rb_runs = []\<rparr>))))
      = [] @ new_row sample_routine # [] @ new_row ?b # []"
    by (simp add: create_routine_def same_key_def) (simp add: sample_routine_def)
  then show ?thesis by (rule shared_path_blocks_webhook[OF rows])
qed

end
