(* ===== verification/Conversation_Store.thy ===== *)
theory Conversation_Store
  imports Routine_Store Tool_Registry
begin

text \<open>
  The tables of conversations and messages, \<open>src/history/store.rs\<close>, with the unique indexes of the migrations: one
  conversation per user and routine, one heartbeat conversation per user. A new identifier and the time are
  arguments. \<open>LIMIT 1\<close> without an order takes the first row in the order of insertion.
\<close>

section \<open>Model\<close>

record conversation_row =
  cv_id :: uuid
  cv_channel :: string
  cv_user_id :: string
  cv_thread_id :: "string option"
  cv_started_at :: utc
  cv_last_activity :: utc
  cv_metadata :: json

record message_row =
  cm_row_id :: uuid
  cm_conversation_id :: uuid
  cm_row_role :: string
  cm_row_content :: string
  cm_created_at :: utc

record conversation_db =
  cd_conversations :: "conversation_row list"
  cd_messages :: "message_row list"

definition routine_key :: "(json \<Rightarrow> string) \<Rightarrow> conversation_row \<Rightarrow> (string \<times> string) option" where
  "routine_key text_of c = map_option (Pair (cv_user_id c)) (json_text text_of ''routine_id'' (cv_metadata c))"

definition heartbeat_key :: "(json \<Rightarrow> string) \<Rightarrow> conversation_row \<Rightarrow> string option" where
  "heartbeat_key text_of c =
     (if json_text text_of ''thread_type'' (cv_metadata c) = Some ''heartbeat'' then Some (cv_user_id c) else None)"

definition clashes :: "(conversation_row \<Rightarrow> 'k option) \<Rightarrow> conversation_row \<Rightarrow> conversation_row list \<Rightarrow> bool" where
  "clashes key c rows = (key c \<noteq> None \<and> list_ex (\<lambda>o'. key o' = key c) rows)"

definition violates_index :: "(json \<Rightarrow> string) \<Rightarrow> conversation_row \<Rightarrow> conversation_row list \<Rightarrow> bool" where
  "violates_index text_of c rows =
     (list_ex (\<lambda>o'. cv_id o' = cv_id c) rows \<or> clashes (routine_key text_of) c rows \<or> clashes (heartbeat_key text_of) c rows)"

definition conversation_row_new :: "uuid \<Rightarrow> utc \<Rightarrow> string \<Rightarrow> string \<Rightarrow> string option \<Rightarrow> json \<Rightarrow> conversation_row" where
  "conversation_row_new i now channel user thread metadata =
     \<lparr>cv_id = i, cv_channel = channel, cv_user_id = user, cv_thread_id = thread, cv_started_at = now,
      cv_last_activity = now, cv_metadata = metadata\<rparr>"

definition insert_conversation ::
  "(json \<Rightarrow> string) \<Rightarrow> conversation_row \<Rightarrow> conversation_db \<Rightarrow> (store_error, uuid) result \<times> conversation_db"
where
  "insert_conversation text_of c db =
     (if violates_index text_of c (cd_conversations db) then (Inl DuplicateKey, db)
      else (Inr (cv_id c), db\<lparr>cd_conversations := cd_conversations db @ [c]\<rparr>))"

definition create_conversation where
  "create_conversation text_of i now channel user thread db =
     insert_conversation text_of (conversation_row_new i now channel user thread (JObject [])) db"

definition touch_conversation :: "utc \<Rightarrow> uuid \<Rightarrow> conversation_db \<Rightarrow> conversation_db" where
  "touch_conversation now i db =
     db\<lparr>cd_conversations := map (\<lambda>c. if cv_id c = i then c\<lparr>cv_last_activity := now\<rparr> else c) (cd_conversations db)\<rparr>"

definition add_conversation_message ::
  "uuid \<Rightarrow> utc \<Rightarrow> uuid \<Rightarrow> string \<Rightarrow> string \<Rightarrow> conversation_db \<Rightarrow> (store_error, uuid) result \<times> conversation_db"
where
  "add_conversation_message i now conv role content db =
     (if list_ex (\<lambda>m. cm_row_id m = i) (cd_messages db) then (Inl DuplicateKey, db)
      else if \<not> list_ex (\<lambda>c. cv_id c = conv) (cd_conversations db) then (Inl NoRow, db)
      else (Inr i, touch_conversation now conv (db\<lparr>cd_messages := cd_messages db @
              [\<lparr>cm_row_id = i, cm_conversation_id = conv, cm_row_role = role, cm_row_content = content,
                cm_created_at = now\<rparr>]\<rparr>)))"

text \<open>
  \<open>ensure_conversation\<close>: insert the row, or refresh it when the identifier exists with the same user and channel;
  the answer is whether a row was written.
\<close>

definition ensure_conversation ::
  "utc \<Rightarrow> uuid \<Rightarrow> string \<Rightarrow> string \<Rightarrow> string option \<Rightarrow> conversation_db \<Rightarrow> bool \<times> conversation_db"
where
  "ensure_conversation now i channel user thread db =
     (case List.find (\<lambda>c. cv_id c = i) (cd_conversations db) of
        None \<Rightarrow> (True, db\<lparr>cd_conversations := cd_conversations db @
                    [conversation_row_new i now channel user thread (JObject [])]\<rparr>)
      | Some c \<Rightarrow>
          if cv_user_id c = user \<and> cv_channel c = channel then (True, touch_conversation now i db) else (False, db))"

record conversation_summary =
  sm_id :: uuid
  sm_title :: "string option"
  sm_message_count :: nat
  sm_started_at :: utc
  sm_last_activity :: utc
  sm_thread_type :: "string option"
  sm_channel :: string

definition left_chars :: "nat \<Rightarrow> string \<Rightarrow> string" where
  "left_chars n s = concat (take n (str_chars s))"

definition user_messages :: "uuid \<Rightarrow> conversation_db \<Rightarrow> message_row list" where
  "user_messages conv db = filter (\<lambda>m. cm_conversation_id m = conv \<and> cm_row_role m = ''user'') (cd_messages db)"

definition conversation_title :: "conversation_row \<Rightarrow> conversation_db \<Rightarrow> string option" where
  "conversation_title c db =
     (case sort_key cm_created_at (user_messages (cv_id c) db) of
        m # _ \<Rightarrow> Some (left_chars 100 (cm_row_content m))
      | [] \<Rightarrow> str_field (cv_metadata c) ''routine_name'')"

definition summary_of :: "conversation_db \<Rightarrow> conversation_row \<Rightarrow> conversation_summary" where
  "summary_of db c =
     \<lparr>sm_id = cv_id c, sm_title = conversation_title c db, sm_message_count = length (user_messages (cv_id c) db),
      sm_started_at = cv_started_at c, sm_last_activity = cv_last_activity c,
      sm_thread_type = str_field (cv_metadata c) ''thread_type'', sm_channel = cv_channel c\<rparr>"

definition list_conversations_with_preview :: "string \<Rightarrow> string \<Rightarrow> nat \<Rightarrow> conversation_db \<Rightarrow> conversation_summary list" where
  "list_conversations_with_preview user channel limit db =
     map (summary_of db) (take limit (sort_key (\<lambda>c. - cv_last_activity c)
       (filter (\<lambda>c. cv_user_id c = user \<and> cv_channel c = channel) (cd_conversations db))))"

definition list_conversations_all_channels :: "string \<Rightarrow> nat \<Rightarrow> conversation_db \<Rightarrow> conversation_summary list" where
  "list_conversations_all_channels user limit db =
     map (summary_of db) (take limit (sort_key (\<lambda>c. - cv_last_activity c)
       (filter (\<lambda>c. cv_user_id c = user) (cd_conversations db))))"

definition find_routine_conversation :: "(json \<Rightarrow> string) \<Rightarrow> string \<Rightarrow> string \<Rightarrow> conversation_db \<Rightarrow> uuid option" where
  "find_routine_conversation text_of rid user db =
     map_option cv_id (List.find (\<lambda>c. cv_user_id c = user \<and> json_text text_of ''routine_id'' (cv_metadata c) = Some rid)
       (cd_conversations db))"

definition insert_on_conflict ::
  "(json \<Rightarrow> string) \<Rightarrow> (conversation_row \<Rightarrow> 'k option) \<Rightarrow> conversation_row \<Rightarrow> conversation_db \<Rightarrow>
     (store_error, unit) result \<times> conversation_db"
where
  "insert_on_conflict text_of key c db =
     (if clashes key c (cd_conversations db) then (Inr (), db)
      else (case insert_conversation text_of c db of (Inl e, db') \<Rightarrow> (Inl e, db') | (Inr _, db') \<Rightarrow> (Inr (), db')))"

definition get_or_create_routine_conversation ::
  "(json \<Rightarrow> string) \<Rightarrow> (uuid \<Rightarrow> string) \<Rightarrow> uuid \<Rightarrow> utc \<Rightarrow> uuid \<Rightarrow> string \<Rightarrow> string \<Rightarrow> conversation_db \<Rightarrow>
     (store_error, uuid) result \<times> conversation_db"
where
  "get_or_create_routine_conversation text_of uuid_text new_id now routine_id routine_name user db =
     (let rid = uuid_text routine_id;
          metadata = JObject [(''thread_type'', JString ''routine''), (''routine_id'', JString rid),
                              (''routine_name'', JString routine_name)]
      in case insert_on_conflict text_of (routine_key text_of)
                (conversation_row_new new_id now ''routine'' user None metadata) db of
           (Inl e, db') \<Rightarrow> (Inl e, db')
         | (Inr _, db') \<Rightarrow>
             (case find_routine_conversation text_of rid user db' of Some i \<Rightarrow> (Inr i, db') | None \<Rightarrow> (Inl NoRow, db')))"

definition get_or_create_heartbeat_conversation ::
  "(json \<Rightarrow> string) \<Rightarrow> uuid \<Rightarrow> utc \<Rightarrow> string \<Rightarrow> conversation_db \<Rightarrow> (store_error, uuid) result \<times> conversation_db"
where
  "get_or_create_heartbeat_conversation text_of new_id now user db =
     (case insert_on_conflict text_of (heartbeat_key text_of)
             (conversation_row_new new_id now ''heartbeat'' user None (JObject [(''thread_type'', JString ''heartbeat'')])) db of
        (Inl e, db') \<Rightarrow> (Inl e, db')
      | (Inr _, db') \<Rightarrow>
          (case List.find (\<lambda>c. heartbeat_key text_of c = Some user) (cd_conversations db') of
             Some c \<Rightarrow> (Inr (cv_id c), db') | None \<Rightarrow> (Inl NoRow, db')))"

definition get_or_create_assistant_conversation ::
  "(json \<Rightarrow> string) \<Rightarrow> uuid \<Rightarrow> utc \<Rightarrow> string \<Rightarrow> string \<Rightarrow> conversation_db \<Rightarrow> (store_error, uuid) result \<times> conversation_db"
where
  "get_or_create_assistant_conversation text_of new_id now user channel db =
     (case List.find (\<lambda>c. cv_user_id c = user \<and> cv_channel c = channel \<and>
             json_text text_of ''thread_type'' (cv_metadata c) = Some ''assistant'') (cd_conversations db) of
        Some c \<Rightarrow> (Inr (cv_id c), db)
      | None \<Rightarrow>
          insert_conversation text_of (conversation_row_new new_id now channel user None
            (JObject [(''thread_type'', JString ''assistant''), (''title'', JString ''Assistant'')])) db)"

definition create_conversation_with_metadata where
  "create_conversation_with_metadata text_of i now channel user metadata db =
     insert_conversation text_of (conversation_row_new i now channel user None metadata) db"

definition conversation_belongs_to_user :: "uuid \<Rightarrow> string \<Rightarrow> conversation_db \<Rightarrow> bool" where
  "conversation_belongs_to_user i user db = list_ex (\<lambda>c. cv_id c = i \<and> cv_user_id c = user) (cd_conversations db)"

definition conversation_page :: "uuid \<Rightarrow> utc option \<Rightarrow> conversation_db \<Rightarrow> message_row list" where
  "conversation_page conv before db =
     sort_key (\<lambda>m. - cm_created_at m)
       (filter (\<lambda>m. cm_conversation_id m = conv \<and> (\<forall>t\<in>set_option before. cm_created_at m < t)) (cd_messages db))"

definition list_conversation_messages_paginated ::
  "uuid \<Rightarrow> utc option \<Rightarrow> nat \<Rightarrow> conversation_db \<Rightarrow> message_row list \<times> bool"
where
  "list_conversation_messages_paginated conv before limit db =
     (let rows = take (limit + 1) (conversation_page conv before db)
      in (rev (take (min (length rows) limit) rows), length rows > limit))"

text \<open>The operator \<open>||\<close> of binary JSON with an object on the right.\<close>

definition json_concat :: "json \<Rightarrow> string \<Rightarrow> json \<Rightarrow> json" where
  "json_concat metadata k v =
     (case metadata of
        JObject es \<Rightarrow> JObject (json_insert k v es)
      | JArray xs \<Rightarrow> JArray (xs @ [JObject [(k, v)]])
      | w \<Rightarrow> JArray [w, JObject [(k, v)]])"

definition update_conversation_metadata_field ::
  "(json \<Rightarrow> string) \<Rightarrow> uuid \<Rightarrow> string \<Rightarrow> json \<Rightarrow> conversation_db \<Rightarrow> (store_error, unit) result \<times> conversation_db"
where
  "update_conversation_metadata_field text_of i k v db =
     (let patch = (\<lambda>c. c\<lparr>cv_metadata := json_concat (cv_metadata c) k v\<rparr>);
          others = filter (\<lambda>c. cv_id c \<noteq> i) (cd_conversations db)
      in if list_ex (\<lambda>c. cv_id c = i \<and> violates_index text_of (patch c) others) (cd_conversations db)
         then (Inl DuplicateKey, db)
         else (Inr (), db\<lparr>cd_conversations := map (\<lambda>c. if cv_id c = i then patch c else c) (cd_conversations db)\<rparr>))"

definition get_conversation_metadata :: "uuid \<Rightarrow> conversation_db \<Rightarrow> json option" where
  "get_conversation_metadata i db = map_option cv_metadata (List.find (\<lambda>c. cv_id c = i) (cd_conversations db))"

definition list_conversation_messages :: "uuid \<Rightarrow> conversation_db \<Rightarrow> message_row list" where
  "list_conversation_messages conv db =
     sort_key cm_created_at (filter (\<lambda>m. cm_conversation_id m = conv) (cd_messages db))"

section \<open>Lemmas\<close>

subsection \<open>Owners\<close>

definition conversation_owner :: "uuid \<Rightarrow> conversation_db \<Rightarrow> (string \<times> string) option" where
  "conversation_owner i db =
     map_option (\<lambda>c. (cv_user_id c, cv_channel c)) (List.find (\<lambda>c. cv_id c = i) (cd_conversations db))"

datatype conversation_op =
    CreateConversation uuid utc string string "string option"
  | EnsureConversation utc uuid string string "string option"
  | AddMessage uuid utc uuid string string
  | RoutineConversation uuid utc uuid string string
  | HeartbeatConversation uuid utc string
  | AssistantConversation uuid utc string string
  | MetadataConversation uuid utc string string json
  | PatchMetadata uuid string json

fun conversation_perform :: "(json \<Rightarrow> string) \<Rightarrow> (uuid \<Rightarrow> string) \<Rightarrow> conversation_op \<Rightarrow> conversation_db \<Rightarrow> conversation_db" where
  "conversation_perform tx ut (CreateConversation i now ch u th) db = snd (create_conversation tx i now ch u th db)"
| "conversation_perform tx ut (EnsureConversation now i ch u th) db = snd (ensure_conversation now i ch u th db)"
| "conversation_perform tx ut (AddMessage i now cv r ct) db = snd (add_conversation_message i now cv r ct db)"
| "conversation_perform tx ut (RoutineConversation i now r nm u) db =
     snd (get_or_create_routine_conversation tx ut i now r nm u db)"
| "conversation_perform tx ut (HeartbeatConversation i now u) db = snd (get_or_create_heartbeat_conversation tx i now u db)"
| "conversation_perform tx ut (AssistantConversation i now u ch) db =
     snd (get_or_create_assistant_conversation tx i now u ch db)"
| "conversation_perform tx ut (MetadataConversation i now ch u md) db =
     snd (create_conversation_with_metadata tx i now ch u md db)"
| "conversation_perform tx ut (PatchMetadata i k v) db = snd (update_conversation_metadata_field tx i k v db)"

lemma owner_map:
  assumes "\<And>c. cv_id (f c) = cv_id c" "\<And>c. cv_user_id (f c) = cv_user_id c" "\<And>c. cv_channel (f c) = cv_channel c"
  shows "conversation_owner i (db\<lparr>cd_conversations := map (\<lambda>c. if P c then f c else c) (cd_conversations db)\<rparr>) = conversation_owner i db"
proof -
  have "map_option (\<lambda>c. (cv_user_id c, cv_channel c)) (List.find (\<lambda>c. cv_id c = i) (map (\<lambda>c. if P c then f c else c) cs)) =
      map_option (\<lambda>c. (cv_user_id c, cv_channel c)) (List.find (\<lambda>c. cv_id c = i) cs)" for cs
    by (induction cs) (auto simp: assms)
  then show ?thesis by (simp add: conversation_owner_def)
qed

lemma owner_touch [simp]: "conversation_owner i (touch_conversation now j db) = conversation_owner i db"
  unfolding touch_conversation_def by (rule owner_map) simp_all

lemma owner_messages [simp]: "conversation_owner i (db\<lparr>cd_messages := ms\<rparr>) = conversation_owner i db"
  by (simp add: conversation_owner_def)

lemma owner_new:
  "conversation_owner i (db\<lparr>cd_conversations := cd_conversations db @ [c]\<rparr>) =
     (case conversation_owner i db of
        Some o' \<Rightarrow> Some o' | None \<Rightarrow> if cv_id c = i then Some (cv_user_id c, cv_channel c) else None)"
  by (auto simp: conversation_owner_def find_append split: option.splits)

lemma owner_insert: "conversation_owner i db = Some o' \<Longrightarrow> conversation_owner i (snd (insert_conversation tx c db)) = Some o'"
  by (simp add: insert_conversation_def owner_new)

lemma owner_on_conflict: "conversation_owner i db = Some o' \<Longrightarrow> conversation_owner i (snd (insert_on_conflict tx key c db)) = Some o'"
  using owner_insert[of i db o' tx c] by (auto simp: insert_on_conflict_def split: prod.splits sum.splits)

lemma owner_patch [simp]: "conversation_owner i (snd (update_conversation_metadata_field tx j k v db)) = conversation_owner i db"
proof (cases "fst (update_conversation_metadata_field tx j k v db)")
  case (Inr u)
  then have "snd (update_conversation_metadata_field tx j k v db) = db\<lparr>cd_conversations :=
      map (\<lambda>c. if cv_id c = j then c\<lparr>cv_metadata := json_concat (cv_metadata c) k v\<rparr> else c) (cd_conversations db)\<rparr>"
    by (auto simp: update_conversation_metadata_field_def Let_def split: if_splits)
  then show ?thesis by (simp add: owner_map[of "\<lambda>c. c\<lparr>cv_metadata := json_concat (cv_metadata c) k v\<rparr>"])
qed (auto simp: update_conversation_metadata_field_def Let_def split: if_splits)

lemma snd_then_select:
  "snd (case x of (Inl e, db) \<Rightarrow> (Inl e, db) | (Inr u, db) \<Rightarrow> (case f db of Some i \<Rightarrow> (Inr (g i), db) | None \<Rightarrow> (Inl e', db))) = snd x"
  by (auto split: prod.splits sum.splits option.splits)

lemma snd_routine_conversation:
  "\<exists>c. snd (get_or_create_routine_conversation tx ut j now r nm u db) = snd (insert_on_conflict tx (routine_key tx) c db)"
  unfolding get_or_create_routine_conversation_def Let_def snd_then_select[where g = id, unfolded id_def] by blast

lemma snd_heartbeat_conversation:
  "\<exists>c. snd (get_or_create_heartbeat_conversation tx j now u db) = snd (insert_on_conflict tx (heartbeat_key tx) c db)"
  unfolding get_or_create_heartbeat_conversation_def snd_then_select by blast

lemma owner_perform:
  "conversation_owner i db = Some o' \<Longrightarrow> conversation_owner i (conversation_perform tx ut op db) = Some o'"
proof (cases op)
  case (EnsureConversation now j ch u th)
  then show "conversation_owner i db = Some o' \<Longrightarrow> ?thesis"
    by (auto simp: ensure_conversation_def owner_new split: option.splits)
next
  case (RoutineConversation j now r nm u)
  then show "conversation_owner i db = Some o' \<Longrightarrow> ?thesis"
    using snd_routine_conversation[of tx ut j now r nm u db] owner_on_conflict[of i db o' tx "routine_key tx"] by auto
next
  case (HeartbeatConversation j now u)
  then show "conversation_owner i db = Some o' \<Longrightarrow> ?thesis"
    using snd_heartbeat_conversation[of tx j now u db] owner_on_conflict[of i db o' tx "heartbeat_key tx"] by auto
qed (auto simp: create_conversation_def owner_insert add_conversation_message_def get_or_create_assistant_conversation_def
      create_conversation_with_metadata_def split: option.splits)

interpretation conversations: op_invariant "conversation_perform tx ut" "\<lambda>db. conversation_owner i db = Some o'"
  for tx ut i o'
  by unfold_locales (rule owner_perform)

text \<open>
  Whatever is done to conversations afterwards, one that exists stays with its user and its channel: no look-up,
  no repeated creation with the same identifier and no change of metadata moves it to another owner.
\<close>

theorem conversation_owner_fixed:
  assumes "conversation_owner i db = Some (user, channel)"
  shows "conversation_owner i (fold (conversation_perform tx ut) ops db) = Some (user, channel)"
  using assms by (rule conversations.fold_inv)

theorem conversation_owner_fixed_witness:
  "conversation_owner 1 (fold (conversation_perform (\<lambda>_. []) (\<lambda>_. []))
       [EnsureConversation 5 1 ''web'' ''bob'' None, MetadataConversation 1 6 ''web'' ''bob'' JNull]
       (snd (ensure_conversation 0 1 ''web'' ''ann'' None \<lparr>cd_conversations = [], cd_messages = []\<rparr>)))
     = Some (''ann'', ''web'')"
  by (rule conversation_owner_fixed) (simp add: conversation_owner_def ensure_conversation_def conversation_row_new_def)

text \<open>Claiming a conversation is answered with yes exactly when it is then the claimant's, on the claimed channel.\<close>

theorem ensure_means_owned:
  "fst (ensure_conversation now i channel user thread db) \<longleftrightarrow>
     conversation_owner i (snd (ensure_conversation now i channel user thread db)) = Some (user, channel)"
proof (cases "List.find (\<lambda>c. cv_id c = i) (cd_conversations db)")
  case None
  then show ?thesis by (simp add: ensure_conversation_def owner_new conversation_row_new_def) (simp add: conversation_owner_def)
next
  case (Some c)
  then have "conversation_owner i db = Some (cv_user_id c, cv_channel c)" by (simp add: conversation_owner_def)
  with Some show ?thesis by (simp add: ensure_conversation_def)
qed

subsection \<open>The conversation of a routine\<close>

lemma routine_key_new:
  "routine_key tx (conversation_row_new i now ch u th (JObject [(''thread_type'', t), (''routine_id'', JString rid), x])) = Some (u, rid)"
  by (simp add: routine_key_def conversation_row_new_def json_text_def json_get_def)

lemma routine_key_iff:
  "routine_key tx c = Some (u, rid) \<longleftrightarrow> cv_user_id c = u \<and> json_text tx ''routine_id'' (cv_metadata c) = Some rid"
  by (auto simp: routine_key_def)

lemma find_key_iff: "find_routine_conversation tx rid u db = map_option cv_id (List.find (\<lambda>c. routine_key tx c = Some (u, rid)) (cd_conversations db))"
  by (simp add: find_routine_conversation_def routine_key_iff)

lemma find_None_ex: "List.find P xs = None \<longleftrightarrow> \<not> list_ex P xs"
  by (induction xs) auto

lemma routine_conversation_cases:
  assumes "cv_id c \<notin> cv_id ` set (cd_conversations db)"
    and "c = conversation_row_new i now ch u th (JObject [(''thread_type'', JString ''routine''), (''routine_id'', JString rid), x])"
  shows "insert_on_conflict tx (routine_key tx) c db =
    (Inr (), if list_ex (\<lambda>o'. routine_key tx o' = Some (u, rid)) (cd_conversations db) then db
             else db\<lparr>cd_conversations := cd_conversations db @ [c]\<rparr>)"
proof -
  have "heartbeat_key tx c = None" by (simp add: assms(2) heartbeat_key_def conversation_row_new_def json_text_def json_get_def)
  moreover have "\<not> list_ex (\<lambda>o'. cv_id o' = cv_id c) (cd_conversations db)" using assms(1) by (auto simp: list_ex_iff image_iff)
  moreover have "routine_key tx c = Some (u, rid)" using routine_key_new assms(2) by simp
  ultimately show ?thesis
    by (simp add: insert_on_conflict_def insert_conversation_def violates_index_def clashes_def)
qed

text \<open>
  With a new identifier at hand, asking for the conversation of a routine always gives one; it belongs to the
  user, and asking again, under any name of the routine, gives the same one and changes nothing.
\<close>

theorem routine_conversation_stable:
  assumes "new_id \<notin> cv_id ` set (cd_conversations db)" "new_id' \<notin> cv_id ` set (cd_conversations db)" "new_id' \<noteq> new_id"
  shows "\<exists>i db'. get_or_create_routine_conversation tx ut new_id now rid name user db = (Inr i, db') \<and>
    conversation_belongs_to_user i user db' \<and>
    get_or_create_routine_conversation tx ut new_id' now' rid name' user db' = (Inr i, db')"
proof -
  let ?c = "\<lambda>i now nm. conversation_row_new i now ''routine'' user None (JObject [(''thread_type'', JString ''routine''),
      (''routine_id'', JString (ut rid)), (''routine_name'', JString nm)])"
  let ?P = "\<lambda>c. routine_key tx c = Some (user, ut rid)"
  define db' where "db' = (if list_ex ?P (cd_conversations db) then db
      else db\<lparr>cd_conversations := cd_conversations db @ [?c new_id now name]\<rparr>)"
  have id_new: "cv_id (?c i t nm) = i" for i t nm by (simp add: conversation_row_new_def)
  have ins: "insert_on_conflict tx (routine_key tx) (?c new_id now name) db = (Inr (), db')"
    unfolding db'_def by (rule routine_conversation_cases) (use assms id_new in auto)
  have ex: "list_ex ?P (cd_conversations db')" by (auto simp: db'_def routine_key_new)
  then obtain c where c: "List.find ?P (cd_conversations db') = Some c" by (cases "List.find ?P (cd_conversations db')") (auto simp: find_None_ex)
  have "new_id' \<notin> cv_id ` set (cd_conversations db')" using assms id_new by (auto simp: db'_def)
  then have ins': "insert_on_conflict tx (routine_key tx) (?c new_id' now' name') db' = (Inr (), db')"
    using ex by (subst routine_conversation_cases[OF _ refl]) (auto simp: id_new)
  have "conversation_belongs_to_user (cv_id c) user db'"
    using c by (auto simp: conversation_belongs_to_user_def list_ex_iff find_Some_iff routine_key_iff)
  then show ?thesis
    using ins ins' c by (auto simp: get_or_create_routine_conversation_def Let_def find_key_iff)
qed

theorem routine_conversation_stable_witness:
  "\<exists>i db'. get_or_create_routine_conversation (\<lambda>_. []) show_nat 1 0 7 ''daily'' ''ann''
      \<lparr>cd_conversations = [], cd_messages = []\<rparr> = (Inr i, db') \<and> conversation_belongs_to_user i ''ann'' db' \<and>
    get_or_create_routine_conversation (\<lambda>_. []) show_nat 2 9 7 ''renamed'' ''ann'' db' = (Inr i, db')"
  by (rule routine_conversation_stable) simp_all

subsection \<open>Pages\<close>

lemma later_than_page:
  assumes "sorted_wrt (\<lambda>a b. f b < f a) (xs @ x # ys)"
  shows "filter (\<lambda>m. f m < (f x :: int)) (xs @ x # ys) = ys"
  using assms by (auto simp: sorted_wrt_append filter_empty_conv intro!: filter_True)

lemma take_last:
  assumes "take n xs \<noteq> []"
  obtains k where "take n xs = take k xs @ [xs ! k]" "k < length xs" "drop n xs = drop (Suc k) xs"
proof
  let ?k = "min n (length xs) - 1"
  have n: "Suc ?k = min n (length xs)" "?k < length xs" using assms by (auto simp: min_def)
  have "take n xs = take (Suc ?k) xs" "drop n xs = drop (Suc ?k) xs" unfolding n by (simp_all add: min_def)
  with n(2) show "take n xs = take ?k xs @ [xs ! ?k]" "drop n xs = drop (Suc ?k) xs" "?k < length xs"
    by (simp_all only: take_Suc_conv_app_nth)
qed

lemma page_descending:
  assumes "inj_on cm_created_at {m \<in> set (cd_messages db). cm_conversation_id m = conv}" "distinct (cd_messages db)"
  shows "sorted_wrt (\<lambda>a b. cm_created_at b < cm_created_at a) (conversation_page conv before db)"
proof -
  let ?p = "conversation_page conv before db"
  have "sorted (map (\<lambda>m. - cm_created_at m) ?p)" by (simp add: conversation_page_def)
  moreover have "distinct (map (\<lambda>m. - cm_created_at m) ?p)"
    using assms by (auto simp: conversation_page_def distinct_map inj_on_def)
  ultimately have "sorted_wrt (<) (map (\<lambda>m. - cm_created_at m) ?p)" by (simp add: strict_sorted_iff)
  then show ?thesis by (simp add: sorted_wrt_map)
qed

lemma narrow_page:
  assumes "\<And>t. before = Some t \<Longrightarrow> c < t"
  shows "conversation_page conv (Some c) db = filter (\<lambda>m. cm_created_at m < c) (conversation_page conv before db)"
  unfolding conversation_page_def filter_sort
  by (rule arg_cong[where f = "sort_key _"]) (use assms in \<open>force intro: filter_cong\<close>)

text \<open>
  Paging backwards through a conversation whose messages have different times loses nothing and repeats nothing:
  the messages up to a cursor are those of the page followed backwards by the messages before its oldest one, and the
  page says that there is more exactly when that rest is not empty.
\<close>

theorem pages_cover_conversation:
  assumes "inj_on cm_created_at {m \<in> set (cd_messages db). cm_conversation_id m = conv}" "distinct (cd_messages db)"
    and "list_conversation_messages_paginated conv before limit db = (ms, has_more)" "ms \<noteq> []"
  shows "rev (conversation_page conv before db) = rev (conversation_page conv (Some (cm_created_at (hd ms))) db) @ ms \<and>
    (has_more \<longleftrightarrow> conversation_page conv (Some (cm_created_at (hd ms))) db \<noteq> [])"
proof -
  let ?p = "conversation_page conv before db"
  have ms: "ms = rev (take limit ?p)" and has_more: "has_more \<longleftrightarrow> limit < length ?p"
    using assms(3) by (auto simp: list_conversation_messages_paginated_def Let_def min_def split: if_splits)
  then obtain k where k: "take limit ?p = take k ?p @ [?p ! k]" "k < length ?p" "drop limit ?p = drop (Suc k) ?p"
    using assms(4) by (metis take_last rev_is_Nil_conv)
  have split: "?p = take k ?p @ ?p ! k # drop (Suc k) ?p" using k(2) by (rule id_take_nth_drop)
  have hd: "hd ms = ?p ! k" using ms k(1) by simp
  have "?p ! k \<in> set ?p" using k(2) by simp
  then have c: "\<And>t. before = Some t \<Longrightarrow> cm_created_at (?p ! k) < t" by (auto simp: conversation_page_def)
  have "conversation_page conv (Some (cm_created_at (?p ! k))) db = drop limit ?p"
    using later_than_page[of cm_created_at "take k ?p" "?p ! k" "drop (Suc k) ?p"] page_descending[OF assms(1,2), of before]
      narrow_page[of before _ conv db, OF c] split k(3) by simp
  then show ?thesis using hd ms has_more by (simp add: rev_append[symmetric] not_le del: rev_append)
qed

theorem pages_cover_conversation_witness:
  "let db = \<lparr>cd_conversations = [], cd_messages = map (\<lambda>i. \<lparr>cm_row_id = i, cm_conversation_id = 1, cm_row_role = ''user'',
        cm_row_content = [], cm_created_at = int i\<rparr>) [0, 1, 2]\<rparr>;
       ms = fst (list_conversation_messages_paginated 1 None 2 db)
   in map cm_row_id ms = [1, 2] \<and> snd (list_conversation_messages_paginated 1 None 2 db) \<and>
      rev (conversation_page 1 None db) = rev (conversation_page 1 (Some (cm_created_at (hd ms))) db) @ ms"
proof -
  define db where "db = \<lparr>cd_conversations = [], cd_messages = map (\<lambda>i. \<lparr>cm_row_id = i, cm_conversation_id = 1,
      cm_row_role = ''user'', cm_row_content = [], cm_created_at = int i\<rparr>) [0, 1, 2]\<rparr>"
  define ms where "ms = fst (list_conversation_messages_paginated 1 None 2 db)"
  have p: "list_conversation_messages_paginated 1 None 2 db = (ms, True)" "map cm_row_id ms = [1, 2]"
    by (simp_all add: ms_def db_def list_conversation_messages_paginated_def conversation_page_def)
  then have "ms \<noteq> []" by auto
  have "inj_on cm_created_at {m \<in> set (cd_messages db). cm_conversation_id m = 1}" "distinct (cd_messages db)"
    by (auto simp: db_def inj_on_def)
  then have "rev (conversation_page 1 None db) = rev (conversation_page 1 (Some (cm_created_at (hd ms))) db) @ ms"
    using pages_cover_conversation[OF _ _ p(1) \<open>ms \<noteq> []\<close>] by blast
  then show ?thesis using p unfolding Let_def db_def[symmetric] by simp
qed

end
