(* ===== verification/Routine_Engine.thy ===== *)
theory Routine_Engine
  imports Conversation_Store Workspace Job_State
begin

text \<open>
  The routine engine, \<open>src/agent/routine_engine.rs\<close>: the cache of event matchers, the checks of messages, system
  events, the schedule, manual and webhook requests, the recovery of runs left by an earlier process, and the life of
  a spawned run. A run that \<open>tokio::spawn\<close> has created is an element of \<open>re_tasks\<close> until it ends: it is recorded and
  counted when it starts (\<open>task_start\<close>) and written back when its action has a result (\<open>task_finish\<close>, the rest of
  \<open>execute_routine\<close>). The steps of different tasks and the calls of the engine interleave in any order.

  Regular expressions, the time zone table and the evaluation of schedules are parameters. Each call of the database
  may fail: \<open>en_fails\<close> says which calls of an operation do, and a call that fails changes nothing. A handler that
  reads the count of running tasks sees one value of it.
\<close>

section \<open>Model\<close>

subsection \<open>Parameters and state\<close>

datatype db_op =
    OpListEvent | OpListDue | OpListDispatched | OpCountBatch | OpCount uuid | OpCreateRun uuid | OpCompleteRun uuid
  | OpUpdateRuntime uuid | OpGetRoutine uuid | OpGetJob uuid | OpFailureReason uuid | OpConversation uuid | OpAddMessage uuid

record engine_env =
  en_show_num :: "number \<Rightarrow> string"
  en_valid_tz :: "string \<Rightarrow> bool"
  en_upcoming :: "string \<Rightarrow> (string, string option \<Rightarrow> utc option) result"
  en_regex :: "string \<Rightarrow> (string \<Rightarrow> bool) option"
  en_text_of :: "json \<Rightarrow> string"
  en_uuid_text :: "uuid \<Rightarrow> string"
  en_error_text :: "routine_error \<Rightarrow> string"
  en_store_error_text :: "store_error \<Rightarrow> string"
  en_fails :: "db_op \<Rightarrow> string option"
  en_now :: utc

record routine_config =
  rc_enabled :: bool
  rc_cron_check_interval_secs :: nat
  rc_max_concurrent_routines :: nat
  rc_default_cooldown_secs :: nat
  rc_max_lightweight_tokens :: "32 word"
  rc_lightweight_tools_enabled :: bool
  rc_lightweight_max_iterations :: nat

datatype sandbox_readiness = SandboxAvailable | DisabledByConfig | DockerUnavailable

datatype event_matcher = MessageMatcher (em_routine: routine) "string \<Rightarrow> bool" | SystemMatcher (em_routine: routine)

record incoming_message =
  im_user_id :: string
  im_channel :: string

record triggered_routine =
  tr_routine :: routine
  tr_detail :: string

datatype task_phase = TaskSpawned | TaskRecorded | TaskExecuting

record routine_task =
  tk_phase :: task_phase
  tk_workspace :: workspace
  tk_routine :: routine
  tk_run :: routine_run

record outgoing_response =
  og_content :: string
  og_thread_id :: "string option"
  og_metadata :: json

record routine_engine =
  re_config :: routine_config
  re_workspace :: workspace
  re_running_count :: nat
  re_event_cache :: "event_matcher list"
  re_sandbox_readiness :: sandbox_readiness
  re_boot_time :: utc
  re_db :: routine_db
  re_conversations :: conversation_db
  re_jobs :: "uuid \<Rightarrow> job_state option"
  re_failure_reason :: "uuid \<Rightarrow> string option"
  re_tasks :: "routine_task list"
  re_notifications :: "outgoing_response list"
  re_next_id :: nat

definition db_result :: "engine_env \<Rightarrow> db_op \<Rightarrow> (store_error, 'a) result \<Rightarrow> (string, 'a) result" where
  "db_result env op r =
     (case en_fails env op of
        Some e \<Rightarrow> Inl e
      | None \<Rightarrow> (case r of Inl e \<Rightarrow> Inl (en_store_error_text env e) | Inr x \<Rightarrow> Inr x))"

subsection \<open>Matching\<close>

definition routine_matches_message :: "routine \<Rightarrow> incoming_message \<Rightarrow> bool" where
  "routine_matches_message r msg =
     (case rt_trigger r of
        Event channel pattern \<Rightarrow>
          rt_user_id r = im_user_id msg \<and>
          (case channel of None \<Rightarrow> True | Some ch \<Rightarrow> eq_ignore_ascii_case ch (im_channel msg))
      | _ \<Rightarrow> False)"

definition matcher_of :: "engine_env \<Rightarrow> routine \<Rightarrow> event_matcher option" where
  "matcher_of env r =
     (case rt_trigger r of
        Event channel pattern \<Rightarrow> map_option (MessageMatcher r) (en_regex env pattern)
      | SystemEvent source event_type filters \<Rightarrow> Some (SystemMatcher r)
      | _ \<Rightarrow> None)"

definition refresh_event_cache :: "engine_env \<Rightarrow> routine_engine \<Rightarrow> routine_engine" where
  "refresh_event_cache env e =
     (case db_result env OpListEvent (list_event_routines (en_show_num env) (en_valid_tz env) (re_db e)) of
        Inl _ \<Rightarrow> e
      | Inr rs \<Rightarrow> e\<lparr>re_event_cache := List.map_filter (matcher_of env) rs\<rparr>)"

text \<open>A cooldown that \<open>chrono\<close> cannot hold is taken to be five minutes.\<close>

definition cooldown_of :: "routine \<Rightarrow> int" where
  "cooldown_of r =
     (if int (gr_cooldown (rt_guardrails r)) \<le> (2 ^ 63 - 1) * 10 ^ 6 then int (gr_cooldown (rt_guardrails r))
      else 300 * int NANOS)"

definition check_cooldown :: "utc \<Rightarrow> routine \<Rightarrow> bool" where
  "check_cooldown now r = (case rt_last_run_at r of None \<Rightarrow> True | Some t \<Rightarrow> \<not> now - t < cooldown_of r)"

definition check_concurrent :: "engine_env \<Rightarrow> routine \<Rightarrow> routine_engine \<Rightarrow> bool" where
  "check_concurrent env r e =
     (en_fails env (OpCount (rt_id r)) = None \<and>
      count_running_routine_runs (rt_id r) (re_db e) < unat (gr_max_concurrent (rt_guardrails r)))"

definition batch_concurrent_counts :: "engine_env \<Rightarrow> uuid list \<Rightarrow> routine_engine \<Rightarrow> (uuid \<times> nat) list option" where
  "batch_concurrent_counts env ids e =
     (if en_fails env OpCountBatch = None then Some (count_running_routine_runs_batch ids (re_db e)) else None)"

definition has_capacity :: "routine_engine \<Rightarrow> bool" where
  "has_capacity e = (re_running_count e < rc_max_concurrent_routines (re_config e))"

definition under_limit :: "(uuid \<times> nat) list \<Rightarrow> routine \<Rightarrow> bool" where
  "under_limit counts r =
     ((case hm_get counts (rt_id r) of Some n \<Rightarrow> n | None \<Rightarrow> 0) < unat (gr_max_concurrent (rt_guardrails r)))"

definition truncate_text :: "string \<Rightarrow> nat \<Rightarrow> string" where
  "truncate_text s n = (if length s \<le> n then s else take (boundary_before s n) s @ ''...'')"

definition message_fires ::
  "engine_env \<Rightarrow> (uuid \<times> nat) list \<Rightarrow> incoming_message \<Rightarrow> string \<Rightarrow> routine_engine \<Rightarrow> event_matcher \<Rightarrow> bool"
where
  "message_fires env counts msg content e m =
     (case m of
        MessageMatcher r is_match \<Rightarrow>
          routine_matches_message r msg \<and> is_match content \<and> check_cooldown (en_now env) r \<and> under_limit counts r \<and>
          has_capacity e
      | SystemMatcher r \<Rightarrow> False)"

definition is_message_matcher :: "event_matcher \<Rightarrow> bool" where
  "is_message_matcher m = (case m of MessageMatcher _ _ \<Rightarrow> True | SystemMatcher _ \<Rightarrow> False)"

definition matching_event_triggers ::
  "engine_env \<Rightarrow> incoming_message \<Rightarrow> string \<Rightarrow> routine_engine \<Rightarrow> triggered_routine list"
where
  "matching_event_triggers env msg content e =
     (let ids = map (rt_id \<circ> em_routine) (filter is_message_matcher (re_event_cache e))
      in if ids = [] then []
         else (case batch_concurrent_counts env ids e of
                 None \<Rightarrow> []
               | Some counts \<Rightarrow>
                   map (\<lambda>m. \<lparr>tr_routine = em_routine m, tr_detail = truncate_text content 200\<rparr>)
                     (filter (message_fires env counts msg content e) (re_event_cache e))))"

subsection \<open>Spawning\<close>

definition routine_workspace :: "routine \<Rightarrow> routine_engine \<Rightarrow> workspace" where
  "routine_workspace r e =
     (if rt_user_id r = ws_user (re_workspace e) then re_workspace e else workspace_new (rt_user_id r))"

definition new_run :: "engine_env \<Rightarrow> routine \<Rightarrow> string \<Rightarrow> string option \<Rightarrow> routine_engine \<Rightarrow> routine_run" where
  "new_run env r trigger_type detail e =
     \<lparr>rr_id = re_next_id e, rr_routine_id = rt_id r, rr_trigger_type = trigger_type, rr_trigger_detail = detail,
      rr_started_at = en_now env, rr_completed_at = None, rr_status = RunRunning, rr_result_summary = None,
      rr_tokens_used = None, rr_job_id = None, rr_created_at = en_now env\<rparr>"

definition spawn_fire :: "engine_env \<Rightarrow> routine \<Rightarrow> string \<Rightarrow> string option \<Rightarrow> routine_engine \<Rightarrow> routine_engine" where
  "spawn_fire env r trigger_type detail e =
     e\<lparr>re_tasks := re_tasks e @
         [\<lparr>tk_phase = TaskSpawned, tk_workspace = routine_workspace r e, tk_routine = r,
           tk_run = new_run env r trigger_type detail e\<rparr>],
       re_next_id := Suc (re_next_id e)\<rparr>"

definition check_event_triggers :: "engine_env \<Rightarrow> incoming_message \<Rightarrow> string \<Rightarrow> routine_engine \<Rightarrow> nat \<times> routine_engine" where
  "check_event_triggers env msg content e =
     (let triggered = matching_event_triggers env msg content e
      in (length triggered, fold (\<lambda>t. spawn_fire env (tr_routine t) ''event'' (Some (tr_detail t))) triggered e))"

definition filters_match :: "engine_env \<Rightarrow> (string \<times> string) list \<Rightarrow> json \<Rightarrow> bool" where
  "filters_match env filters payload =
     list_all (\<lambda>(key, expected).
        case Option.bind (json_get key payload) (json_value_as_filter_string (en_show_num env)) of
          None \<Rightarrow> False
        | Some actual \<Rightarrow> eq_ignore_ascii_case actual expected) filters"

definition system_fires ::
  "engine_env \<Rightarrow> (uuid \<times> nat) list \<Rightarrow> string \<Rightarrow> string \<Rightarrow> json \<Rightarrow> string option \<Rightarrow> routine_engine \<Rightarrow> event_matcher \<Rightarrow> bool"
where
  "system_fires env counts source event_type payload user e m =
     (case m of
        MessageMatcher _ _ \<Rightarrow> False
      | SystemMatcher r \<Rightarrow>
          (case rt_trigger r of
             SystemEvent expected_source expected_event filters \<Rightarrow>
               eq_ignore_ascii_case expected_source source \<and> eq_ignore_ascii_case expected_event event_type \<and>
               (\<forall>uid\<in>set_option user. rt_user_id r = uid) \<and> filters_match env filters payload \<and>
               check_cooldown (en_now env) r \<and> under_limit counts r \<and> has_capacity e
           | _ \<Rightarrow> False))"

definition emit_system_event ::
  "engine_env \<Rightarrow> string \<Rightarrow> string \<Rightarrow> json \<Rightarrow> string option \<Rightarrow> routine_engine \<Rightarrow> nat \<times> routine_engine"
where
  "emit_system_event env source event_type payload user e =
     (let ids = map (rt_id \<circ> em_routine) (filter (\<lambda>m. \<not> is_message_matcher m) (re_event_cache e))
      in if ids = [] then (0, e)
         else (case batch_concurrent_counts env ids e of
                 None \<Rightarrow> (0, e)
               | Some counts \<Rightarrow>
                   (let fired = filter (system_fires env counts source event_type payload user e) (re_event_cache e)
                    in (length fired,
                        fold (\<lambda>m. spawn_fire env (em_routine m) ''system_event''
                                     (Some (truncate_text (source @ '':'' @ event_type) 200))) fired e))))"

definition cron_detail :: "routine \<Rightarrow> string option" where
  "cron_detail r = (case rt_trigger r of Cron schedule timezone \<Rightarrow> Some schedule | _ \<Rightarrow> None)"

fun fire_due :: "engine_env \<Rightarrow> routine list \<Rightarrow> routine_engine \<Rightarrow> routine_engine" where
  "fire_due env [] e = e"
| "fire_due env (r # rs) e =
     (if \<not> has_capacity e then e
      else if \<not> check_cooldown (en_now env) r then fire_due env rs e
      else if \<not> check_concurrent env r e then fire_due env rs e
      else fire_due env rs (spawn_fire env r ''cron'' (cron_detail r) e))"

definition check_cron_triggers :: "engine_env \<Rightarrow> routine_engine \<Rightarrow> routine_engine" where
  "check_cron_triggers env e =
     (case db_result env OpListDue (list_due_cron_routines (en_show_num env) (en_valid_tz env) (en_now env) (re_db e)) of
        Inl _ \<Rightarrow> e
      | Inr rs \<Rightarrow> fire_due env rs e)"

definition load_routine :: "engine_env \<Rightarrow> uuid \<Rightarrow> routine_engine \<Rightarrow> (routine_error, routine) result" where
  "load_routine env i e =
     (case db_result env (OpGetRoutine i) (get_routine (en_show_num env) (en_valid_tz env) i (re_db e)) of
        Inl err \<Rightarrow> Inl (RoutineDatabase err)
      | Inr None \<Rightarrow> Inl (RoutineNotFound i)
      | Inr (Some r) \<Rightarrow> Inr r)"

definition record_run :: "engine_env \<Rightarrow> routine_run \<Rightarrow> routine_engine \<Rightarrow> (string, unit) result \<times> routine_engine" where
  "record_run env run e =
     (case en_fails env (OpCreateRun (rr_id run)) of
        Some err \<Rightarrow> (Inl err, e)
      | None \<Rightarrow>
          (case create_routine_run (en_now env) run (re_db e) of
             (Inl err, db) \<Rightarrow> (Inl (en_store_error_text env err), e\<lparr>re_db := db\<rparr>)
           | (Inr _, db) \<Rightarrow> (Inr (), e\<lparr>re_db := db\<rparr>)))"

definition start_recorded ::
  "engine_env \<Rightarrow> routine \<Rightarrow> workspace \<Rightarrow> string \<Rightarrow> string option \<Rightarrow> routine_engine \<Rightarrow> (routine_error, uuid) result \<times> routine_engine"
where
  "start_recorded env r ws trigger_type detail e =
     (let run = new_run env r trigger_type detail e; e1 = e\<lparr>re_next_id := Suc (re_next_id e)\<rparr>
      in case record_run env run e1 of
           (Inl err, e2) \<Rightarrow> (Inl (RoutineDatabase (''failed to create run record: '' @ err)), e2)
         | (Inr _, e2) \<Rightarrow>
             (Inr (rr_id run), e2\<lparr>re_tasks := re_tasks e2 @
                [\<lparr>tk_phase = TaskRecorded, tk_workspace = ws, tk_routine = r, tk_run = run\<rparr>]\<rparr>))"

definition fire_manual :: "engine_env \<Rightarrow> uuid \<Rightarrow> string option \<Rightarrow> routine_engine \<Rightarrow> (routine_error, uuid) result \<times> routine_engine" where
  "fire_manual env i user e =
     (case load_routine env i e of
        Inl err \<Rightarrow> (Inl err, e)
      | Inr r \<Rightarrow>
          if user \<noteq> None \<and> user \<noteq> Some (rt_user_id r) then (Inl (RoutineNotAuthorized i), e)
          else if \<not> rt_enabled r then (Inl (RoutineDisabled (rt_name r)), e)
          else if \<not> check_concurrent env r e then (Inl (RoutineMaxConcurrent (rt_name r)), e)
          else start_recorded env r (routine_workspace r e) ''manual'' None e)"

definition fire_webhook :: "engine_env \<Rightarrow> uuid \<Rightarrow> string \<Rightarrow> routine_engine \<Rightarrow> (routine_error, uuid) result \<times> routine_engine" where
  "fire_webhook env i path e =
     (case load_routine env i e of
        Inl err \<Rightarrow> (Inl err, e)
      | Inr r \<Rightarrow>
          if \<not> rt_enabled r then (Inl (RoutineDisabled (rt_name r)), e)
          else if \<not> check_cooldown (en_now env) r then (Inl (RoutineCooldown (rt_name r)), e)
          else if \<not> check_concurrent env r e then (Inl (RoutineMaxConcurrent (rt_name r)), e)
          else if \<not> has_capacity e then (Inl (RoutineMaxConcurrent (rt_name r)), e)
          else start_recorded env r (re_workspace e) ''webhook'' (Some path) e)"

subsection \<open>Results of runs\<close>

definition should_notify :: "notify_config \<Rightarrow> run_status \<Rightarrow> bool" where
  "should_notify n status =
     (case status of
        RunOk \<Rightarrow> nc_on_success n | RunAttention \<Rightarrow> nc_on_attention n | RunFailed \<Rightarrow> nc_on_failure n | RunRunning \<Rightarrow> False)"

text \<open>The icons are the bytes of a check mark, a bell, a cross and an hourglass.\<close>

definition status_icon :: "run_status \<Rightarrow> string" where
  "status_icon status =
     (case status of
        RunOk \<Rightarrow> [CHR 0xE2, CHR 0x9C, CHR 0x85]
      | RunAttention \<Rightarrow> [CHR 0xF0, CHR 0x9F, CHR 0x94, CHR 0x94]
      | RunFailed \<Rightarrow> [CHR 0xE2, CHR 0x9D, CHR 0x8C]
      | RunRunning \<Rightarrow> [CHR 0xE2, CHR 0x8F, CHR 0xB3])"

definition send_notification ::
  "notify_config \<Rightarrow> string \<Rightarrow> string \<Rightarrow> run_status \<Rightarrow> string option \<Rightarrow> string option \<Rightarrow> routine_engine \<Rightarrow> routine_engine"
where
  "send_notification n owner name status summary thread e =
     (if \<not> should_notify n status then e
      else
        (let headline = status_icon status @ '' *Routine '' @ quoted name @ ''*: '' @ run_status_display status;
             message = (case summary of Some s \<Rightarrow> headline @ [newline, newline] @ s | None \<Rightarrow> headline)
         in e\<lparr>re_notifications := re_notifications e @
              [\<lparr>og_content = message, og_thread_id = thread,
                og_metadata = JObject [(''source'', JString ''routine''), (''routine_name'', JString name),
                  (''status'', JString (run_status_display status)), (''owner_id'', JString owner),
                  (''notify_user'', json_opt (nc_user n)), (''notify_channel'', json_opt (nc_channel n))]\<rparr>]\<rparr>))"

definition next_fire_of :: "engine_env \<Rightarrow> routine \<Rightarrow> utc option" where
  "next_fire_of env r =
     (case rt_trigger r of
        Cron schedule timezone \<Rightarrow>
          (case next_cron_fire (en_upcoming env) (en_valid_tz env) schedule timezone of Inl _ \<Rightarrow> None | Inr t \<Rightarrow> t)
      | _ \<Rightarrow> None)"

definition failures_after :: "routine \<Rightarrow> run_status \<Rightarrow> 32 word" where
  "failures_after r status = (if status = RunFailed then rt_consecutive_failures r + 1 else 0)"

definition write_runtime :: "engine_env \<Rightarrow> routine \<Rightarrow> run_status \<Rightarrow> routine_engine \<Rightarrow> routine_engine" where
  "write_runtime env r status e =
     (if en_fails env (OpUpdateRuntime (rt_id r)) \<noteq> None then e
      else e\<lparr>re_db := update_routine_runtime (en_now env) (rt_id r) (en_now env) (next_fire_of env r)
               (rt_run_count r + 1) (failures_after r status) (rt_state r) (re_db e)\<rparr>)"

definition write_message :: "engine_env \<Rightarrow> routine \<Rightarrow> string \<Rightarrow> routine_engine \<Rightarrow> string option \<times> routine_engine" where
  "write_message env r text e =
     (if en_fails env (OpConversation (rt_id r)) \<noteq> None then (None, e)
      else
        (case get_or_create_routine_conversation (en_text_of env) (en_uuid_text env) (re_next_id e) (en_now env) (rt_id r)
                (rt_name r) (rt_user_id r) (re_conversations e) of
           (Inl _, cdb) \<Rightarrow> (None, e\<lparr>re_conversations := cdb, re_next_id := Suc (re_next_id e)\<rparr>)
         | (Inr conv, cdb) \<Rightarrow>
             (Some (en_uuid_text env conv),
              e\<lparr>re_conversations :=
                  (if en_fails env (OpAddMessage conv) \<noteq> None then cdb
                   else snd (add_conversation_message (Suc (re_next_id e)) (en_now env) conv ''assistant'' text cdb)),
                re_next_id := re_next_id e + 2\<rparr>)))"

subsection \<open>Tasks\<close>

type_synonym execution = "run_status \<times> string option \<times> 32 word option"

text \<open>The first part of a spawned task: the run is recorded, if it is not yet, and counted.\<close>

definition remove_nth :: "nat \<Rightarrow> 'a list \<Rightarrow> 'a list" where
  "remove_nth k xs = take k xs @ drop (Suc k) xs"

definition task_start :: "engine_env \<Rightarrow> nat \<Rightarrow> routine_engine \<Rightarrow> routine_engine" where
  "task_start env k e =
     (let t = re_tasks e ! k;
          counted = (\<lambda>e. e\<lparr>re_running_count := Suc (re_running_count e),
                             re_tasks := (re_tasks e)[k := t\<lparr>tk_phase := TaskExecuting\<rparr>]\<rparr>)
      in case tk_phase t of
           TaskExecuting \<Rightarrow> e
         | TaskRecorded \<Rightarrow> counted e
         | TaskSpawned \<Rightarrow>
             (case record_run env (tk_run t) e of
                (Inl _, e1) \<Rightarrow> e1\<lparr>re_tasks := remove_nth k (re_tasks e1)\<rparr>
              | (Inr _, e1) \<Rightarrow> counted e1))"

definition outcome_of :: "engine_env \<Rightarrow> (routine_error, execution) result \<Rightarrow> execution" where
  "outcome_of env res = (case res of Inr x \<Rightarrow> x | Inl err \<Rightarrow> (RunFailed, Some (en_error_text env err), None))"

definition run_message :: "routine_run \<Rightarrow> run_status \<Rightarrow> string option \<Rightarrow> string" where
  "run_message run status summary =
     ''['' @ rr_trigger_type run @ ''] '' @ run_status_display status @
       (case summary of Some s \<Rightarrow> '': '' @ s | None \<Rightarrow> [])"

text \<open>The second part, once the action has a result.\<close>

definition task_finish :: "engine_env \<Rightarrow> nat \<Rightarrow> (routine_error, execution) result \<Rightarrow> routine_engine \<Rightarrow> routine_engine" where
  "task_finish env k res e =
     (let t = re_tasks e ! k; r = tk_routine t; run = tk_run t
      in if tk_phase t \<noteq> TaskExecuting then e
         else
           (let e1 = e\<lparr>re_running_count := re_running_count e - 1, re_tasks := remove_nth k (re_tasks e)\<rparr>;
                (status, summary, tokens) = outcome_of env res;
                e2 = (if en_fails env (OpCompleteRun (rr_id run)) \<noteq> None then e1
                      else e1\<lparr>re_db := complete_routine_run (en_now env) (rr_id run) status summary tokens (re_db e1)\<rparr>);
                e3 = write_runtime env r status e2;
                (thread, e4) = write_message env r (run_message run status summary) e3
            in send_notification (rt_notify r) (rt_user_id r) (rt_name r) status summary thread e4))"

subsection \<open>Full jobs\<close>

definition POLL_INTERVAL_SECS :: nat where "POLL_INTERVAL_SECS = 5"
definition MAX_POLLS :: nat where "MAX_POLLS = (24 * 60 * 60) div POLL_INTERVAL_SECS"

definition map_job_state :: "job_state \<Rightarrow> run_status" where
  "map_job_state s = (if s \<in> {Failed, Cancelled} then RunFailed else RunOk)"

text \<open>
  The watcher: \<open>answer n\<close> is what the database says at the poll with number \<open>n\<close>. The result is the status and the
  number of times it slept.
\<close>

function watch_job :: "(nat \<Rightarrow> (string, job_state option) result) \<Rightarrow> nat \<Rightarrow> run_status \<times> nat" where
  "watch_job answer polls =
     (case answer polls of
        Inl _ \<Rightarrow> (RunFailed, polls)
      | Inr None \<Rightarrow> (RunFailed, polls)
      | Inr (Some s) \<Rightarrow>
          if \<not> is_parallel_blocking s then (map_job_state s, polls)
          else if Suc polls \<ge> MAX_POLLS then (RunFailed, polls)
          else watch_job answer (Suc polls))"
  by pat_completeness auto
termination by (relation "measure (\<lambda>(_, n). MAX_POLLS - n)") auto

definition wait_for_completion :: "(uuid \<Rightarrow> string) \<Rightarrow> uuid \<Rightarrow> (nat \<Rightarrow> (string, job_state option) result) \<Rightarrow> execution" where
  "wait_for_completion uuid_text job answer =
     (let status = fst (watch_job answer 0)
      in (status, Some (''Job '' @ uuid_text job @ '' finished ('' @ run_status_display status @ '')''), None))"

record dispatched_job =
  dj_user :: string
  dj_title :: string
  dj_description :: string
  dj_metadata :: json

definition full_job_metadata :: "routine \<Rightarrow> 32 word \<Rightarrow> json" where
  "full_job_metadata r max_iterations =
     JObject ([(''max_iterations'', json_u32 max_iterations), (''owner_id'', JString (rt_user_id r))] @
       (case nc_channel (rt_notify r) of Some ch \<Rightarrow> [(''notify_channel'', JString ch)] | None \<Rightarrow> []) @
       [(''notify_user'', json_opt (nc_user (rt_notify r)))])"

definition full_job_preamble :: "string \<Rightarrow> string" where
  "full_job_preamble name =
     ''IMPORTANT: You are executing inside routine '' @ dq name @ ''. The routine and its schedule are already configured. '' @
     ''Tools and credentials are already set up. '' @
     ''Do NOT create routines, jobs, or try to discover/install/authenticate tools. '' @
     ''Execute the task directly.'' @ [newline, newline]"

text \<open>
  Dispatching a full job. The scheduler is a parameter, absent or a function from the job to its identifier or an
  error; the result is what is dispatched, the identifier, and the link to write.
\<close>

definition execute_full_job ::
  "(uuid \<Rightarrow> string) \<Rightarrow> sandbox_readiness \<Rightarrow> (dispatched_job \<Rightarrow> (string, uuid) result) option \<Rightarrow>
     (uuid \<Rightarrow> string option) \<Rightarrow> (uuid \<Rightarrow> nat \<Rightarrow> (string, job_state option) result) \<Rightarrow>
     routine \<Rightarrow> routine_run \<Rightarrow> string \<Rightarrow> string \<Rightarrow> 32 word \<Rightarrow> routine_db \<Rightarrow>
     (routine_error, execution) result \<times> routine_db"
where
  "execute_full_job uuid_text ready scheduler link_fails answer r run title description max_iterations db =
     (if ready = DockerUnavailable
      then (Inl (JobDispatchFailed (''Sandbox is enabled but Docker is not available. '' @
              ''Install Docker or set SANDBOX_ENABLED=false.'')), db)
      else
        (case scheduler of
           None \<Rightarrow> (Inl (JobDispatchFailed ''scheduler not available''), db)
         | Some dispatch \<Rightarrow>
             (case dispatch \<lparr>dj_user = rt_user_id r, dj_title = title,
                            dj_description = full_job_preamble (rt_name r) @ description,
                            dj_metadata = full_job_metadata r max_iterations\<rparr> of
                Inl e \<Rightarrow> (Inl (JobDispatchFailed (''failed to dispatch job: '' @ e)), db)
              | Inr job \<Rightarrow>
                  (case link_fails job of
                     Some e \<Rightarrow> (Inl (RoutineDatabase (''failed to link run to job: '' @ e)), db)
                   | None \<Rightarrow>
                       (Inr (wait_for_completion uuid_text job (answer job)),
                        link_routine_run_to_job (rr_id run) job db)))))"

subsection \<open>Recovery\<close>

definition final_status :: "job_state \<Rightarrow> run_status option" where
  "final_status s =
     (if s \<in> {Completed, Submitted, Accepted} then Some RunOk
      else if s \<in> {Failed, Cancelled} then Some RunFailed
      else None)"

definition complete_dispatched_run :: "engine_env \<Rightarrow> routine_run \<Rightarrow> run_status \<Rightarrow> string \<Rightarrow> routine_engine \<Rightarrow> routine_engine" where
  "complete_dispatched_run env run status summary e =
     (if en_fails env (OpCompleteRun (rr_id run)) \<noteq> None then e
      else
        (let e1 = e\<lparr>re_db := complete_routine_run (en_now env) (rr_id run) status (Some summary) None (re_db e)\<rparr>
         in case load_routine env (rr_routine_id run) e1 of
              Inl _ \<Rightarrow> e1
            | Inr r \<Rightarrow>
                (let e2 = write_runtime env r status e1;
                     (thread, e3) = write_message env r
                       (''[dispatched] '' @ run_status_display status @ '': '' @ summary) e2
                 in send_notification (rt_notify r) (rt_user_id r) (rt_name r) status (Some summary) thread e3)))"

definition recovery_summary :: "engine_env \<Rightarrow> uuid \<Rightarrow> job_state \<Rightarrow> run_status \<Rightarrow> routine_engine \<Rightarrow> string" where
  "recovery_summary env job s status e =
     (if status = RunFailed then
        (case (if en_fails env (OpFailureReason job) = None then re_failure_reason e job else None) of
           Some reason \<Rightarrow> ''Job '' @ en_uuid_text env job @ '' failed: '' @ reason
         | None \<Rightarrow> ''Job '' @ en_uuid_text env job @ '' '' @ show_job_state s)
      else ''Job '' @ en_uuid_text env job @ '' completed successfully'')"

definition recover_run :: "engine_env \<Rightarrow> routine_run \<Rightarrow> routine_engine \<Rightarrow> routine_engine" where
  "recover_run env run e =
     (case rr_job_id run of
        None \<Rightarrow> e
      | Some job \<Rightarrow>
          if en_fails env (OpGetJob job) \<noteq> None then e
          else (case re_jobs e job of
                  None \<Rightarrow> complete_dispatched_run env run RunFailed
                            (''Linked job '' @ en_uuid_text env job @ '' not found (orphaned)'') e
                | Some s \<Rightarrow>
                    (case final_status s of
                       None \<Rightarrow> e
                     | Some status \<Rightarrow>
                         complete_dispatched_run env run status (recovery_summary env job s status e) e)))"

definition sync_dispatched_runs :: "engine_env \<Rightarrow> routine_engine \<Rightarrow> routine_engine" where
  "sync_dispatched_runs env e =
     (if en_fails env OpListDispatched \<noteq> None then e
      else (case list_dispatched_routine_runs (re_db e) of
              Inl _ \<Rightarrow> e
            | Inr runs \<Rightarrow> fold (recover_run env) (filter (\<lambda>r. rr_started_at r < re_boot_time e) runs) e))"

subsection \<open>Steps\<close>

text \<open>
  What can happen to the engine, with any parameters: a call of it, or a step of one of its tasks. An action never
  ends with the status of a run that is still going on.
\<close>

inductive engine_step :: "(engine_env \<Rightarrow> bool) \<Rightarrow> routine_engine \<Rightarrow> routine_engine \<Rightarrow> bool" for ok where
  refresh: "ok env \<Longrightarrow> engine_step ok e (refresh_event_cache env e)"
| message: "ok env \<Longrightarrow> engine_step ok e (snd (check_event_triggers env msg content e))"
| system: "ok env \<Longrightarrow> engine_step ok e (snd (emit_system_event env source event_type payload user e))"
| cron: "ok env \<Longrightarrow> engine_step ok e (check_cron_triggers env e)"
| manual: "ok env \<Longrightarrow> engine_step ok e (snd (fire_manual env i user e))"
| webhook: "ok env \<Longrightarrow> engine_step ok e (snd (fire_webhook env i path e))"
| recover: "ok env \<Longrightarrow> engine_step ok e (sync_dispatched_runs env e)"
| start: "ok env \<Longrightarrow> k < length (re_tasks e) \<Longrightarrow> engine_step ok e (task_start env k e)"
| finish: "ok env \<Longrightarrow> k < length (re_tasks e) \<Longrightarrow> fst (outcome_of env res) \<noteq> RunRunning \<Longrightarrow>
    engine_step ok e (task_finish env k res e)"

section \<open>Lemmas\<close>

subsection \<open>What the operations leave alone\<close>

lemma spawn_simps [simp]:
  "re_running_count (spawn_fire env r ty d e) = re_running_count e" "re_db (spawn_fire env r ty d e) = re_db e"
  "re_event_cache (spawn_fire env r ty d e) = re_event_cache e" "re_config (spawn_fire env r ty d e) = re_config e"
  "re_workspace (spawn_fire env r ty d e) = re_workspace e" "re_boot_time (spawn_fire env r ty d e) = re_boot_time e"
  by (simp_all add: spawn_fire_def)

lemma fold_spawn_simps [simp]:
  "re_running_count (fold (\<lambda>x. spawn_fire env (r x) (ty x) (d x)) xs e) = re_running_count e"
  "re_db (fold (\<lambda>x. spawn_fire env (r x) (ty x) (d x)) xs e) = re_db e"
  "re_event_cache (fold (\<lambda>x. spawn_fire env (r x) (ty x) (d x)) xs e) = re_event_cache e"
  "re_config (fold (\<lambda>x. spawn_fire env (r x) (ty x) (d x)) xs e) = re_config e"
  "re_workspace (fold (\<lambda>x. spawn_fire env (r x) (ty x) (d x)) xs e) = re_workspace e"
  by (induction xs arbitrary: e) simp_all

text \<open>Tasks that are spawned: not recorded yet, each in a workspace of the user of its routine.\<close>

definition spawned_for :: "routine set \<Rightarrow> routine_task \<Rightarrow> bool" where
  "spawned_for R t = (tk_phase t = TaskSpawned \<and> tk_routine t \<in> R \<and> ws_user (tk_workspace t) = rt_user_id (tk_routine t))"

lemma spawn_tasks: "\<exists>t. re_tasks (spawn_fire env r ty d e) = re_tasks e @ [t] \<and> spawned_for {r} t"
  by (simp add: spawn_fire_def spawned_for_def routine_workspace_def workspace_new_def)

lemma fold_spawn_tasks:
  "\<exists>new. re_tasks (fold (\<lambda>x. spawn_fire env (r x) (ty x) (d x)) xs e) = re_tasks e @ new \<and> length new = length xs \<and>
     list_all (spawned_for (r ` set xs)) new"
proof (induction xs arbitrary: e)
  case (Cons x xs)
  obtain t where t: "re_tasks (spawn_fire env (r x) (ty x) (d x) e) = re_tasks e @ [t]" "spawned_for {r x} t"
    using spawn_tasks by blast
  obtain new where "re_tasks (fold (\<lambda>x. spawn_fire env (r x) (ty x) (d x)) xs (spawn_fire env (r x) (ty x) (d x) e)) =
      re_tasks e @ [t] @ new" "length new = length xs" "list_all (spawned_for (r ` set xs)) new"
    using Cons[of "spawn_fire env (r x) (ty x) (d x) e"] t(1) by auto
  then show ?case using t(2) by (intro exI[of _ "t # new"]) (auto simp: list_all_iff spawned_for_def)
qed simp

lemma fire_due_simps [simp]:
  "re_running_count (fire_due env rs e) = re_running_count e" "re_db (fire_due env rs e) = re_db e"
  "re_event_cache (fire_due env rs e) = re_event_cache e" "re_config (fire_due env rs e) = re_config e"
  by (induction env rs e rule: fire_due.induct) simp_all

lemma fire_due_tasks: "\<exists>new. re_tasks (fire_due env rs e) = re_tasks e @ new \<and> list_all (spawned_for (set rs)) new"
proof (induction env rs e rule: fire_due.induct)
  case (2 env r rs e)
  obtain t where t: "re_tasks (spawn_fire env r ''cron'' (cron_detail r) e) = re_tasks e @ [t]" "spawned_for {r} t"
    using spawn_tasks by blast
  show ?case
  proof (cases "has_capacity e \<and> check_cooldown (en_now env) r \<and> check_concurrent env r e")
    case True
    then obtain new where "re_tasks (fire_due env (r # rs) e) = re_tasks e @ t # new" "list_all (spawned_for (set rs)) new"
      using 2(3) t(1) by auto
    then show ?thesis using t(2) by (intro exI[of _ "t # new"]) (auto simp: list_all_iff spawned_for_def)
  next
    case False
    then have "fire_due env (r # rs) e = e \<or> has_capacity e \<and> fire_due env (r # rs) e = fire_due env rs e" by auto
    then show ?thesis using 2(1,2) False by (auto simp: list_all_iff spawned_for_def)
  qed
qed simp

lemma record_run_cases:
  obtains (failed) err where "record_run env run e = (Inl err, e)"
    | (recorded) "record_run env run e =
        (Inr (), e\<lparr>re_db := (re_db e)\<lparr>rb_runs := rb_runs (re_db e) @ [run_row_of (en_now env) run]\<rparr>\<rparr>)"
proof (cases "en_fails env (OpCreateRun (rr_id run)) = None \<and> fst (create_routine_run (en_now env) run (re_db e)) = Inr ()")
  case True
  then show thesis by (intro recorded) (auto simp: record_run_def create_routine_run_def split: if_splits)
next
  case False
  have "e\<lparr>re_db := re_db e\<rparr> = e" by simp
  with False have "\<exists>err. record_run env run e = (Inl err, e)"
    by (cases "en_fails env (OpCreateRun (rr_id run))") (auto simp: record_run_def create_routine_run_def split: if_splits)
  then show thesis using failed by blast
qed

lemma run_row_of_simps [simp]: "rn_id (run_row_of now run) = rr_id run" "rn_routine_id (run_row_of now run) = rr_routine_id run"
    "rn_started_at (run_row_of now run) = rr_started_at run"
  by (simp_all add: run_row_of_def)

text \<open>What a request that starts a run does: nothing, or a recorded run with its task.\<close>

definition starts :: "engine_env \<Rightarrow> routine \<Rightarrow> workspace \<Rightarrow> routine_engine \<Rightarrow> routine_engine \<Rightarrow> bool" where
  "starts env r ws e e' =
     (\<exists>run. rr_id run = re_next_id e \<and> rr_routine_id run = rt_id r \<and>
        e' = e\<lparr>re_db := (re_db e)\<lparr>rb_runs := rb_runs (re_db e) @ [run_row_of (en_now env) run]\<rparr>,
               re_tasks := re_tasks e @ [\<lparr>tk_phase = TaskRecorded, tk_workspace = ws, tk_routine = r, tk_run = run\<rparr>],
               re_next_id := Suc (re_next_id e)\<rparr>)"

lemma start_recorded_cases:
  obtains (failed) err e' where "start_recorded env r ws ty d e = (Inl err, e')" "re_tasks e' = re_tasks e"
      "re_db e' = re_db e" "re_running_count e' = re_running_count e"
    | (started) i e' where "start_recorded env r ws ty d e = (Inr i, e')" "starts env r ws e e'"
proof (cases "new_run env r ty d e" "e\<lparr>re_next_id := Suc (re_next_id e)\<rparr>" rule: record_run_cases[of env])
  case (failed err)
  then show thesis by (intro that(1)[of _ "e\<lparr>re_next_id := Suc (re_next_id e)\<rparr>"]) (auto simp: start_recorded_def Let_def)
next
  case recorded
  then show thesis
    by (intro that(2)) (auto simp: start_recorded_def Let_def starts_def new_run_def intro!: exI[of _ "new_run env r ty d e"])
qed

lemma fire_manual_cases:
  obtains (failed) err e' where "fire_manual env i user e = (Inl err, e')" "re_tasks e' = re_tasks e"
      "re_db e' = re_db e" "re_running_count e' = re_running_count e"
    | (started) j e' r where "fire_manual env i user e = (Inr j, e')" "load_routine env i e = Inr r"
      "starts env r (routine_workspace r e) e e'" "rt_enabled r" "\<forall>u\<in>set_option user. rt_user_id r = u" "check_concurrent env r e"
proof (cases "load_routine env i e")
  case (Inl err)
  then show thesis by (intro that(1)) (auto simp: fire_manual_def)
next
  case (Inr r)
  show thesis
  proof (cases "(user \<noteq> None \<and> user \<noteq> Some (rt_user_id r)) \<or> \<not> rt_enabled r \<or> \<not> check_concurrent env r e")
    case True
    then have "\<exists>err. fire_manual env i user e = (Inl err, e)" using Inr by (auto simp: fire_manual_def)
    then show thesis using that(1) by blast
  next
    case False
    then have f: "fire_manual env i user e = start_recorded env r (routine_workspace r e) ''manual'' None e"
      using Inr by (auto simp: fire_manual_def)
    show thesis
    proof (cases rule: start_recorded_cases[of env r "routine_workspace r e" "''manual''" None e])
      case (failed err e')
      then show thesis using f by (intro that(1)[of err e']) simp_all
    next
      case (started j e')
      then show thesis using f False Inr by (intro that(2)) auto
    qed
  qed
qed

lemma fire_webhook_cases:
  obtains (failed) err e' where "fire_webhook env i path e = (Inl err, e')" "re_tasks e' = re_tasks e"
      "re_db e' = re_db e" "re_running_count e' = re_running_count e"
    | (started) j e' r where "fire_webhook env i path e = (Inr j, e')" "load_routine env i e = Inr r"
      "starts env r (re_workspace e) e e'" "rt_enabled r" "check_cooldown (en_now env) r" "check_concurrent env r e" "has_capacity e"
proof (cases "load_routine env i e")
  case (Inl err)
  then show thesis by (intro that(1)) (auto simp: fire_webhook_def)
next
  case (Inr r)
  show thesis
  proof (cases "rt_enabled r \<and> check_cooldown (en_now env) r \<and> check_concurrent env r e \<and> has_capacity e")
    case False
    then have "\<exists>err. fire_webhook env i path e = (Inl err, e)" using Inr by (auto simp: fire_webhook_def)
    then show thesis using that(1) by blast
  next
    case True
    then have f: "fire_webhook env i path e = start_recorded env r (re_workspace e) ''webhook'' (Some path) e"
      using Inr by (auto simp: fire_webhook_def)
    show thesis
    proof (cases rule: start_recorded_cases[of env r "re_workspace e" "''webhook''" "Some path" e])
      case (failed err e')
      then show thesis using f by (intro that(1)[of err e']) simp_all
    next
      case (started j e')
      then show thesis using f True Inr by (intro that(2)) auto
    qed
  qed
qed

lemma write_runtime_simps [simp]:
  "re_running_count (write_runtime env r st e) = re_running_count e" "re_tasks (write_runtime env r st e) = re_tasks e"
  "rb_runs (re_db (write_runtime env r st e)) = rb_runs (re_db e)" "re_event_cache (write_runtime env r st e) = re_event_cache e"
  "re_config (write_runtime env r st e) = re_config e" "re_jobs (write_runtime env r st e) = re_jobs e"
  by (simp_all add: write_runtime_def update_routine_runtime_def)

lemma write_message_simps [simp]:
  "re_running_count (snd (write_message env r txt e)) = re_running_count e"
  "re_tasks (snd (write_message env r txt e)) = re_tasks e" "re_db (snd (write_message env r txt e)) = re_db e"
  "re_event_cache (snd (write_message env r txt e)) = re_event_cache e" "re_config (snd (write_message env r txt e)) = re_config e"
  "re_jobs (snd (write_message env r txt e)) = re_jobs e"
  by (auto simp: write_message_def split: prod.splits sum.splits)

lemma send_notification_simps [simp]:
  "re_running_count (send_notification n ow nm st sm th e) = re_running_count e"
  "re_tasks (send_notification n ow nm st sm th e) = re_tasks e" "re_db (send_notification n ow nm st sm th e) = re_db e"
  "re_event_cache (send_notification n ow nm st sm th e) = re_event_cache e"
  "re_config (send_notification n ow nm st sm th e) = re_config e" "re_jobs (send_notification n ow nm st sm th e) = re_jobs e"
  by (simp_all add: send_notification_def Let_def)

definition completed_row :: "utc \<Rightarrow> uuid \<Rightarrow> run_status \<Rightarrow> string option \<Rightarrow> 32 word option \<Rightarrow> run_row \<Rightarrow> run_row" where
  "completed_row now i st sm tk r =
     (if rn_id r = i then r\<lparr>rn_completed_at := Some now, rn_status := run_status_display st, rn_result_summary := sm, rn_tokens_used := tk\<rparr>
      else r)"

lemma runs_complete [simp]:
  "rb_runs (complete_routine_run now i st sm tk db) = map (completed_row now i st sm tk) (rb_runs db)"
  by (simp add: complete_routine_run_def completed_row_def[abs_def])

lemma completed_row_simps [simp]: "rn_id (completed_row now i st sm tk r) = rn_id r"
    "rn_routine_id (completed_row now i st sm tk r) = rn_routine_id r" "rn_started_at (completed_row now i st sm tk r) = rn_started_at r"
    "rn_job_id (completed_row now i st sm tk r) = rn_job_id r"
  by (simp_all add: completed_row_def)

lemma display_running [simp]: "run_status_display st = ''running'' \<longleftrightarrow> st = RunRunning"
  by (cases st) simp_all

lemma is_running_completed: "st \<noteq> RunRunning \<Longrightarrow> is_running (completed_row now i st sm tk r) \<longleftrightarrow> is_running r \<and> rn_id r \<noteq> i"
  by (simp add: completed_row_def is_running_def)

lemma task_finish_effect:
  assumes "tk_phase (re_tasks e ! k) = TaskExecuting"
  defines "run \<equiv> tk_run (re_tasks e ! k)"
  shows "re_running_count (task_finish env k res e) = re_running_count e - 1"
    "re_tasks (task_finish env k res e) = remove_nth k (re_tasks e)"
    "re_event_cache (task_finish env k res e) = re_event_cache e"
    "re_config (task_finish env k res e) = re_config e"
    "rb_runs (re_db (task_finish env k res e)) =
       (if en_fails env (OpCompleteRun (rr_id run)) \<noteq> None then rb_runs (re_db e)
        else map (case outcome_of env res of (st, sm, tk) \<Rightarrow> completed_row (en_now env) (rr_id run) st sm tk) (rb_runs (re_db e)))"
  using assms(1) unfolding task_finish_def Let_def run_def
  by (auto split: prod.splits dest!: arg_cong[of _ _ snd])

lemma complete_dispatched_simps [simp]:
  "re_running_count (complete_dispatched_run env run st sm e) = re_running_count e"
  "re_tasks (complete_dispatched_run env run st sm e) = re_tasks e"
  "re_jobs (complete_dispatched_run env run st sm e) = re_jobs e"
  "rb_runs (re_db (complete_dispatched_run env run st sm e)) =
     (if en_fails env (OpCompleteRun (rr_id run)) \<noteq> None then rb_runs (re_db e)
      else map (completed_row (en_now env) (rr_id run) st (Some sm) None) (rb_runs (re_db e)))"
  by (auto simp: complete_dispatched_run_def Let_def split: sum.splits prod.splits dest!: arg_cong[of _ _ snd])

lemma recover_run_simps [simp]:
  "re_running_count (recover_run env run e) = re_running_count e" "re_tasks (recover_run env run e) = re_tasks e"
  "re_jobs (recover_run env run e) = re_jobs e"
  by (auto simp: recover_run_def split: option.splits)

lemma fold_recover_simps [simp]:
  "re_running_count (fold (recover_run env) runs e) = re_running_count e" "re_tasks (fold (recover_run env) runs e) = re_tasks e"
  by (induction runs arbitrary: e) simp_all

lemma sync_simps [simp]:
  "re_running_count (sync_dispatched_runs env e) = re_running_count e" "re_tasks (sync_dispatched_runs env e) = re_tasks e"
  by (auto simp: sync_dispatched_runs_def split: sum.splits)

lemma refresh_simps [simp]:
  "re_running_count (refresh_event_cache env e) = re_running_count e" "re_tasks (refresh_event_cache env e) = re_tasks e"
  "re_db (refresh_event_cache env e) = re_db e"
  by (auto simp: refresh_event_cache_def split: sum.splits)

lemma check_event_simps [simp]:
  "re_running_count (snd (check_event_triggers env msg c e)) = re_running_count e" "re_db (snd (check_event_triggers env msg c e)) = re_db e"
  "re_event_cache (snd (check_event_triggers env msg c e)) = re_event_cache e" "re_config (snd (check_event_triggers env msg c e)) = re_config e"
  by (simp_all add: check_event_triggers_def Let_def)

lemma emit_simps [simp]:
  "re_running_count (snd (emit_system_event env so ev pl u e)) = re_running_count e" "re_db (snd (emit_system_event env so ev pl u e)) = re_db e"
  by (auto simp: emit_system_event_def Let_def split: option.splits)

lemma cron_simps [simp]:
  "re_running_count (check_cron_triggers env e) = re_running_count e" "re_db (check_cron_triggers env e) = re_db e"
  by (auto simp: check_cron_triggers_def split: sum.splits)

text \<open>The three calls that spawn tasks only add tasks that are not recorded yet.\<close>

lemma check_event_tasks:
  "\<exists>new. re_tasks (snd (check_event_triggers env msg c e)) = re_tasks e @ new \<and>
     list_all (spawned_for (tr_routine ` set (matching_event_triggers env msg c e))) new"
  using fold_spawn_tasks[of env tr_routine "\<lambda>_. ''event''" "\<lambda>t. Some (tr_detail t)" "matching_event_triggers env msg c e" e]
  by (auto simp: check_event_triggers_def Let_def)

lemma emit_tasks:
  "\<exists>new. re_tasks (snd (emit_system_event env so ev pl u e)) = re_tasks e @ new \<and> list_all (spawned_for UNIV) new"
proof -
  have "\<exists>new. re_tasks (fold (\<lambda>m. spawn_fire env (em_routine m) ty d) ms e) = re_tasks e @ new \<and> list_all (spawned_for UNIV) new" for ty d ms
    using fold_spawn_tasks[of env em_routine "\<lambda>_. ty" "\<lambda>_. d" ms e] by (auto simp: list_all_iff spawned_for_def)
  then show ?thesis by (auto simp: emit_system_event_def Let_def split: option.splits)
qed

lemma cron_tasks: "\<exists>new. re_tasks (check_cron_triggers env e) = re_tasks e @ new \<and> list_all (spawned_for UNIV) new"
  using fire_due_tasks[of env _ e] by (fastforce simp: check_cron_triggers_def list_all_iff spawned_for_def split: sum.splits)

subsection \<open>The count of running tasks\<close>

definition executing :: "routine_task list \<Rightarrow> nat" where
  "executing ts = length (filter (\<lambda>t. tk_phase t = TaskExecuting) ts)"

definition count_inv :: "routine_engine \<Rightarrow> bool" where
  "count_inv e = (re_running_count e = executing (re_tasks e))"

lemma executing_simps [simp]: "executing [] = 0" "executing (xs @ ys) = executing xs + executing ys"
    "executing (t # ts) = (if tk_phase t = TaskExecuting then Suc (executing ts) else executing ts)"
  by (simp_all add: executing_def)

lemma executing_spawned: "list_all (spawned_for R) ts \<Longrightarrow> executing ts = 0"
  by (simp add: executing_def filter_empty_conv list_all_iff spawned_for_def)

lemma executing_split:
  assumes "k < length ts"
  shows "executing ts = executing (remove_nth k ts) + (if tk_phase (ts ! k) = TaskExecuting then 1 else 0)"
  by (subst id_take_nth_drop[OF assms]) (simp add: remove_nth_def)

lemma executing_update:
  assumes "k < length ts"
  shows "executing (ts[k := t]) = executing (remove_nth k ts) + (if tk_phase t = TaskExecuting then 1 else 0)"
  using assms by (simp add: upd_conv_take_nth_drop remove_nth_def)

lemma task_start_cases:
  obtains (nothing) "tk_phase (re_tasks e ! k) = TaskExecuting" "task_start env k e = e"
    | (dropped) "tk_phase (re_tasks e ! k) = TaskSpawned" "task_start env k e = e\<lparr>re_tasks := remove_nth k (re_tasks e)\<rparr>"
    | (begun) db where "tk_phase (re_tasks e ! k) \<noteq> TaskExecuting"
      "task_start env k e = e\<lparr>re_db := db, re_running_count := Suc (re_running_count e),
         re_tasks := (re_tasks e)[k := (re_tasks e ! k)\<lparr>tk_phase := TaskExecuting\<rparr>]\<rparr>"
      "db = (if tk_phase (re_tasks e ! k) = TaskRecorded then re_db e
             else (re_db e)\<lparr>rb_runs := rb_runs (re_db e) @ [run_row_of (en_now env) (tk_run (re_tasks e ! k))]\<rparr>)"
proof (cases "tk_phase (re_tasks e ! k)")
  case TaskSpawned
  then show thesis
    by (cases rule: record_run_cases[of env "tk_run (re_tasks e ! k)" e]) (auto simp: task_start_def Let_def intro: that(2,3))
qed (auto simp: task_start_def Let_def intro: that(1,3))

lemma count_start: "count_inv e \<Longrightarrow> k < length (re_tasks e) \<Longrightarrow> count_inv (task_start env k e)"
  by (cases rule: task_start_cases[of e k env])
    (auto simp: count_inv_def executing_update executing_split[of k "re_tasks e"])

lemma count_finish: "count_inv e \<Longrightarrow> k < length (re_tasks e) \<Longrightarrow> count_inv (task_finish env k res e)"
proof (cases "tk_phase (re_tasks e ! k) = TaskExecuting")
  case True
  then show "count_inv e \<Longrightarrow> k < length (re_tasks e) \<Longrightarrow> ?thesis"
    by (simp add: count_inv_def task_finish_effect executing_split[of k "re_tasks e"])
qed (simp add: task_finish_def Let_def)

lemma count_added:
  assumes "count_inv e" "\<exists>new. re_tasks e' = re_tasks e @ new \<and> list_all (spawned_for R) new" "re_running_count e' = re_running_count e"
  shows "count_inv e'"
  using assms executing_spawned by (auto simp: count_inv_def)

lemma count_step:
  assumes "count_inv e" "engine_step ok e e'" shows "count_inv e'"
  using assms(2,1)
proof cases
  case (message env msg content)
  then show ?thesis using assms(1) count_added[OF _ check_event_tasks] by simp
next
  case (system env source event_type payload user)
  then show ?thesis using assms(1) count_added[OF _ emit_tasks] by simp
next
  case (cron env)
  then show ?thesis using assms(1) count_added[OF _ cron_tasks] by simp
next
  case (manual env i user)
  then show ?thesis using assms(1)
    by (cases rule: fire_manual_cases[of env i user e]) (auto simp: count_inv_def starts_def)
next
  case (webhook env i path)
  then show ?thesis using assms(1)
    by (cases rule: fire_webhook_cases[of env i path e]) (auto simp: count_inv_def starts_def)
qed (auto simp: count_start count_finish, auto simp: count_inv_def)

definition engine_boot :: "routine_engine \<Rightarrow> bool" where
  "engine_boot e = (re_tasks e = [] \<and> re_running_count e = 0)"

interpretation task_count: step_invariant engine_boot "engine_step ok" count_inv for ok
  by unfold_locales (simp add: engine_boot_def count_inv_def, rule count_step)

text \<open>
  In every state the engine can reach, whatever calls of the database fail, the count of running routines is the
  number of tasks that execute: it is neither left too high by an error nor ever below zero.
\<close>

theorem running_count_exact:
  assumes "reachable engine_boot (engine_step ok) e"
  shows "re_running_count e = executing (re_tasks e)"
  using task_count.reachable_inv[OF assms] by (simp add: count_inv_def)

subsection \<open>Runs and their tasks\<close>

definition tracked :: "uuid \<Rightarrow> routine_task list \<Rightarrow> bool" where
  "tracked i ts = (\<exists>t\<in>set ts. tk_phase t \<noteq> TaskSpawned \<and> rr_id (tk_run t) = i)"

definition rows_inv :: "uuid set \<Rightarrow> routine_engine \<Rightarrow> bool" where
  "rows_inv old e =
     (\<forall>row\<in>set (rb_runs (re_db e)). is_running row \<longrightarrow> rn_id row \<in> old \<or> tracked (rn_id row) (re_tasks e))"

lemma tracked_append [simp]: "tracked i (xs @ ys) \<longleftrightarrow> tracked i xs \<or> tracked i ys"
  by (auto simp: tracked_def)

definition completes :: "engine_env \<Rightarrow> bool" where
  "completes env = (\<forall>i. en_fails env (OpCompleteRun i) = None)"

lemma in_remove_nth: "k < length xs \<Longrightarrow> x \<in> set xs \<Longrightarrow> x \<noteq> xs ! k \<Longrightarrow> x \<in> set (remove_nth k xs)"
  by (subst (asm) (2) id_take_nth_drop[of k]) (auto simp: remove_nth_def)

lemma in_update: "k < length xs \<Longrightarrow> x \<in> set xs \<Longrightarrow> x \<noteq> xs ! k \<Longrightarrow> x \<in> set (xs[k := y])"
  by (subst (asm) (2) id_take_nth_drop[of k]) (auto simp: upd_conv_take_nth_drop)

lemma rows_more_tasks:
  assumes "rows_inv old e" "\<exists>new. re_tasks e' = re_tasks e @ new \<and> P new" "re_db e' = re_db e"
  shows "rows_inv old e'"
  using assms by (auto simp: rows_inv_def)

lemma rows_starts: "rows_inv old e \<Longrightarrow> starts env r ws e e' \<Longrightarrow> rows_inv old e'"
  by (auto simp: rows_inv_def starts_def tracked_def[of _ "[t]" for t])

lemma rows_same: "rows_inv old e \<Longrightarrow> re_tasks e' = re_tasks e \<Longrightarrow> re_db e' = re_db e \<Longrightarrow> rows_inv old e'"
  by (simp add: rows_inv_def)

lemma rows_complete:
  assumes "rows_inv old e" "re_tasks e' = re_tasks e" "st \<noteq> RunRunning"
    "rb_runs (re_db e') = map (completed_row now i st sm tk) (rb_runs (re_db e))"
  shows "rows_inv old e'"
  using assms by (auto simp: rows_inv_def is_running_completed)

lemma rows_recover: "completes env \<Longrightarrow> rows_inv old e \<Longrightarrow> rows_inv old (recover_run env run e)"
proof -
  assume "completes env" "rows_inv old e"
  then have "rows_inv old (complete_dispatched_run env run st sm e)" if "st \<noteq> RunRunning" for st sm
    using that by (intro rows_complete[OF \<open>rows_inv old e\<close>]) (auto simp: completes_def)
  then show ?thesis using \<open>rows_inv old e\<close>
    by (auto simp: recover_run_def final_status_def split: option.splits if_splits)
qed

lemma rows_sync: "completes env \<Longrightarrow> rows_inv old e \<Longrightarrow> rows_inv old (sync_dispatched_runs env e)"
proof -
  assume env: "completes env" and "rows_inv old e"
  moreover have "rows_inv old e \<Longrightarrow> rows_inv old (fold (recover_run env) runs e)" for runs e
    by (induction runs arbitrary: e) (simp_all add: rows_recover[OF env])
  ultimately show ?thesis by (auto simp: sync_dispatched_runs_def split: sum.splits)
qed

lemma rows_start:
  assumes "rows_inv old e" "k < length (re_tasks e)" shows "rows_inv old (task_start env k e)"
proof (cases rule: task_start_cases[of e k env])
  case dropped
  have "tracked i (remove_nth k (re_tasks e))" if "tracked i (re_tasks e)" for i
    using that dropped(1) in_remove_nth[OF assms(2)] unfolding tracked_def by metis
  with dropped show ?thesis using assms(1) by (auto simp: rows_inv_def)
next
  case (begun db)
  let ?t = "re_tasks e ! k" and ?ts = "(re_tasks e)[k := (re_tasks e ! k)\<lparr>tk_phase := TaskExecuting\<rparr>]"
  have new: "?t\<lparr>tk_phase := TaskExecuting\<rparr> \<in> set ?ts" using assms(2) by (simp add: set_update_memI)
  have mono: "tracked i ?ts" if "tracked i (re_tasks e)" for i
  proof (cases "rr_id (tk_run ?t) = i")
    case True
    then show ?thesis unfolding tracked_def by (intro bexI[OF _ new]) simp
  next
    case False
    then show ?thesis using that in_update[OF assms(2)] unfolding tracked_def by metis
  qed
  have "tracked (rr_id (tk_run ?t)) ?ts" unfolding tracked_def by (rule bexI[OF _ new]) simp
  then show ?thesis using assms(1) begun mono by (auto simp: rows_inv_def split: if_splits)
qed (use assms in simp)

lemma rows_finish:
  assumes "rows_inv old e" "k < length (re_tasks e)" "completes env" "fst (outcome_of env res) \<noteq> RunRunning"
  shows "rows_inv old (task_finish env k res e)"
proof (cases "tk_phase (re_tasks e ! k) = TaskExecuting")
  case True
  obtain st sm tk where o: "outcome_of env res = (st, sm, tk)" by (cases "outcome_of env res")
  have "tracked i (remove_nth k (re_tasks e))" if "tracked i (re_tasks e)" "i \<noteq> rr_id (tk_run (re_tasks e ! k))" for i
    using that in_remove_nth[OF assms(2)] unfolding tracked_def by metis
  then show ?thesis using assms o True by (auto simp: rows_inv_def task_finish_effect completes_def is_running_completed)
qed (use assms in \<open>simp add: task_finish_def Let_def\<close>)

lemma rows_step:
  assumes "rows_inv old e" "engine_step completes e e'" shows "rows_inv old e'"
  using assms(2,1)
proof cases
  case (message env msg content)
  then show ?thesis using assms(1) rows_more_tasks[OF _ check_event_tasks] by simp
next
  case (system env source event_type payload user)
  then show ?thesis using assms(1) rows_more_tasks[OF _ emit_tasks] by simp
next
  case (cron env)
  then show ?thesis using assms(1) rows_more_tasks[OF _ cron_tasks] by simp
next
  case (manual env i user)
  then show ?thesis using assms(1)
    by (cases rule: fire_manual_cases[of env i user e]) (auto intro: rows_starts rows_same)
next
  case (webhook env i path)
  then show ?thesis using assms(1)
    by (cases rule: fire_webhook_cases[of env i path e]) (auto intro: rows_starts rows_same)
qed (auto intro: rows_start rows_finish rows_sync rows_same)

interpretation run_rows: step_invariant "\<lambda>e. engine_boot e \<and> rn_id ` set (rb_runs (re_db e)) \<subseteq> old" "engine_step completes" "rows_inv old"
  for old
proof
  show "rows_inv old e" if "engine_boot e \<and> rn_id ` set (rb_runs (re_db e)) \<subseteq> old" for e
    using that by (auto simp: rows_inv_def)
qed (rule rows_step)

text \<open>
  C35. As long as the database accepts the completion of runs, a run that the table calls running is one that was there
  when the engine started or one of which a task is under way; so when the tasks have ended, no run of this process is
  left running, and none blocks the next. Tasks end by returning: a task that panics is not modelled.
\<close>

theorem no_run_left_running:
  assumes "reachable (\<lambda>e. engine_boot e \<and> rn_id ` set (rb_runs (re_db e)) \<subseteq> old) (engine_step completes) e"
    and "row \<in> set (rb_runs (re_db e))" "is_running row" "rn_id row \<notin> old"
  shows "\<exists>t\<in>set (re_tasks e). tk_phase t \<noteq> TaskSpawned \<and> rr_id (tk_run t) = rn_id row"
  using run_rows.reachable_inv[OF assms(1)] assms(2-4) by (auto simp: rows_inv_def tracked_def)

subsection \<open>Whose routines fire\<close>

lemma matching_triggers:
  assumes "t \<in> set (matching_event_triggers env msg c e)"
  obtains r is_match where "MessageMatcher r is_match \<in> set (re_event_cache e)" "tr_routine t = r" "routine_matches_message r msg"
    "is_match c" "check_cooldown (en_now env) r" "has_capacity e" "count_running_routine_runs (rt_id r) (re_db e) < unat (gr_max_concurrent (rt_guardrails r))"
proof -
  from assms obtain counts m where m: "m \<in> set (re_event_cache e)" "message_fires env counts msg c e m" "tr_routine t = em_routine m"
      "counts = count_running_routine_runs_batch (map (rt_id \<circ> em_routine) (filter is_message_matcher (re_event_cache e))) (re_db e)"
    by (auto simp: matching_event_triggers_def Let_def batch_concurrent_counts_def split: if_splits option.splits)
  then obtain r is_match where r: "m = MessageMatcher r is_match" by (auto simp: message_fires_def split: event_matcher.splits)
  have "rt_id r \<in> set (map (rt_id \<circ> em_routine) (filter is_message_matcher (re_event_cache e)))"
    using m(1) r by (force simp: is_message_matcher_def)
  then have "hm_get counts (rt_id r) = Some (count_running_routine_runs (rt_id r) (re_db e))"
    using batch_counts m(4) by simp
  then show thesis using m r by (intro that[of r is_match]) (auto simp: message_fires_def under_limit_def)
qed

text \<open>
  A message starts only routines of the user who sent it, on the channel the routine names if it names one, with a
  pattern that matches, below the limit of the routine's own runs; each is run in a workspace of that user.
\<close>

theorem message_fires_own_routines:
  assumes "t \<in> set (re_tasks (snd (check_event_triggers env msg content e)))" "t \<notin> set (re_tasks e)"
  shows "rt_user_id (tk_routine t) = im_user_id msg \<and> ws_user (tk_workspace t) = im_user_id msg \<and>
    (\<exists>channel pattern is_match. rt_trigger (tk_routine t) = Event channel pattern \<and>
       (\<forall>ch\<in>set_option channel. eq_ignore_ascii_case ch (im_channel msg)) \<and>
       MessageMatcher (tk_routine t) is_match \<in> set (re_event_cache e) \<and> is_match content) \<and>
    count_running_routine_runs (rt_id (tk_routine t)) (re_db e) < unat (gr_max_concurrent (rt_guardrails (tk_routine t)))"
proof -
  obtain new where "t \<in> set new" "list_all (spawned_for (tr_routine ` set (matching_event_triggers env msg content e))) new"
    using assms check_event_tasks[of env msg content e] by auto
  then obtain x where x: "x \<in> set (matching_event_triggers env msg content e)" "tk_routine t = tr_routine x"
      "ws_user (tk_workspace t) = rt_user_id (tk_routine t)"
    by (auto simp: list_all_iff spawned_for_def)
  from x(1) show ?thesis
  proof (rule matching_triggers)
    fix r is_match
    assume "MessageMatcher r is_match \<in> set (re_event_cache e)" "tr_routine x = r" "routine_matches_message r msg" "is_match content"
      "count_running_routine_runs (rt_id r) (re_db e) < unat (gr_max_concurrent (rt_guardrails r))"
    then show ?thesis using x by (cases "rt_trigger r") (auto simp: routine_matches_message_def split: option.splits)
  qed
qed

text \<open>
  A manual request that names a user starts a routine only if it is that user's, enabled and below its limit of
  runs; the run is recorded as running before the request is answered, and its task works in that user's workspace.
\<close>

theorem manual_run_authorized:
  assumes "fire_manual env i (Some user) e = (Inr run_id, e')"
  shows "\<exists>r t. load_routine env i e = Inr r \<and> rt_user_id r = user \<and> rt_enabled r \<and> check_concurrent env r e \<and>
    re_tasks e' = re_tasks e @ [t] \<and> tk_routine t = r \<and> ws_user (tk_workspace t) = user \<and>
    (\<exists>row. rb_runs (re_db e') = rb_runs (re_db e) @ [row] \<and> rn_id row = rr_id (tk_run t))"
  using assms
proof (cases rule: fire_manual_cases[of env i "Some user" e])
  case (started j e'' r)
  then show ?thesis using assms
    by (auto simp: starts_def routine_workspace_def workspace_new_def)
qed auto

text \<open>
  A webhook starts the routine in the workspace of the engine, whoever the routine belongs to: the run of another
  user's routine reads and writes the documents of the engine's user.
\<close>

theorem webhook_runs_in_engine_workspace:
  assumes "fire_webhook env i path e = (Inr run_id, e')"
  shows "\<exists>r t. load_routine env i e = Inr r \<and> re_tasks e' = re_tasks e @ [t] \<and> tk_routine t = r \<and>
    tk_workspace t = re_workspace e"
  using assms
proof (cases rule: fire_webhook_cases[of env i path e])
  case (started j e'' r)
  then show ?thesis using assms by (auto simp: starts_def)
qed auto

subsection \<open>Limits that are not seen\<close>

text \<open>
  A task that is spawned but has not started is not counted: after any message, a second message fires what it
  would have fired without the first, so that two messages in a row start the same routine twice whatever its limit of
  concurrent runs, and start more routines than the engine's limit allows.
\<close>

theorem spawned_runs_not_counted:
  "matching_event_triggers env msg content (snd (check_event_triggers env' msg' content' e)) = matching_event_triggers env msg content e"
  by (simp add: matching_event_triggers_def batch_concurrent_counts_def message_fires_def[abs_def] has_capacity_def Let_def)

lemma fire_due_all:
  assumes "has_capacity e" "list_all (\<lambda>r. check_cooldown (en_now env) r \<and> check_concurrent env r e) rs"
  shows "length (re_tasks (fire_due env rs e)) = length (re_tasks e) + length rs"
  using assms
proof (induction rs arbitrary: e)
  case (Cons r rs)
  have "has_capacity (spawn_fire env r ty d e) = has_capacity e" "check_concurrent env x (spawn_fire env r ty d e) = check_concurrent env x e"
    for x ty d by (simp_all add: has_capacity_def check_concurrent_def)
  then show ?case using Cons spawn_tasks[of env r "''cron''" "cron_detail r" e] by (auto simp: list_all_iff)
qed simp

text \<open>
  One check of the schedule starts every routine that is due and passes its own checks, however many there are, as
  soon as there is room for one.
\<close>

theorem due_routines_exceed_limit:
  assumes "\<And>op. en_fails env op = None" "has_capacity e"
    and "list_due_cron_routines (en_show_num env) (en_valid_tz env) (en_now env) (re_db e) = Inr rs"
    and "\<And>r. r \<in> set rs \<Longrightarrow> check_cooldown (en_now env) r \<and> check_concurrent env r e"
  shows "length (re_tasks (check_cron_triggers env e)) = length (re_tasks e) + length rs"
  using assms fire_due_all[of e env rs] by (simp add: check_cron_triggers_def db_result_def list_all_iff)

subsection \<open>A cooldown that is not seen\<close>

lemma task_finish_routines:
  assumes "tk_phase (re_tasks e ! k) = TaskExecuting" "en_fails env (OpUpdateRuntime (rt_id (tk_routine (re_tasks e ! k)))) = None"
    and "row \<in> set (rb_routines (re_db (task_finish env k res e)))" "ro_id row = rt_id (tk_routine (re_tasks e ! k))"
  shows "ro_last_run_at row = Some (en_now env)"
proof -
  have stamp: "ro_last_run_at row = Some (en_now env)"
    if "row \<in> set (rb_routines (re_db (write_runtime env r st e')))" "ro_id row = rt_id r"
      "en_fails env (OpUpdateRuntime (rt_id r)) = None" for r st e'
    using that by (auto simp: write_runtime_def update_routine_runtime_def split: if_splits)
  have "\<exists>st e'. re_db (task_finish env k res e) = re_db (write_runtime env (tk_routine (re_tasks e ! k)) st e')"
    using assms(1) unfolding task_finish_def Let_def
    by (auto split: prod.splits dest!: arg_cong[of _ _ "re_db \<circ> snd"]) metis+
  then show ?thesis using stamp assms by metis
qed

text \<open>
  The cooldown of an event routine is checked against the routine as it was when the cache was last refreshed. A
  routine that had not run by then fires again as soon as its run has ended, at any time, although the table says that
  it has just run.
\<close>

theorem cooldown_ignored_until_refresh:
  assumes "MessageMatcher r is_match \<in> set (re_event_cache e)" "rt_last_run_at r = None" "routine_matches_message r msg" "is_match content"
    and "tk_phase (re_tasks e ! k) = TaskExecuting" "tk_routine (re_tasks e ! k) = r"
    and "\<And>op. en_fails env op = None" "\<And>op. en_fails env' op = None"
    and "count_running_routine_runs (rt_id r) (re_db (task_finish env k res e)) < unat (gr_max_concurrent (rt_guardrails r))"
    and "has_capacity (task_finish env k res e)"
  shows "(\<exists>t\<in>set (matching_event_triggers env' msg content (task_finish env k res e)). tr_routine t = r) \<and>
    (\<forall>row\<in>set (rb_routines (re_db (task_finish env k res e))). ro_id row = rt_id r \<longrightarrow> ro_last_run_at row = Some (en_now env))"
proof -
  let ?e = "task_finish env k res e"
  let ?ids = "map (rt_id \<circ> em_routine) (filter is_message_matcher (re_event_cache ?e))"
  let ?counts = "count_running_routine_runs_batch ?ids (re_db ?e)"
  have cache: "re_event_cache ?e = re_event_cache e" using assms(5) by (rule task_finish_effect)
  then have id: "rt_id r \<in> set ?ids" using assms(1) by (force simp: is_message_matcher_def)
  then have "message_fires env' ?counts msg content ?e (MessageMatcher r is_match)"
    using assms batch_counts[of ?ids "re_db ?e" "rt_id r"] by (simp add: message_fires_def check_cooldown_def under_limit_def)
  moreover have "matching_event_triggers env' msg content ?e =
      map (\<lambda>m. \<lparr>tr_routine = em_routine m, tr_detail = truncate_text content 200\<rparr>)
        (filter (message_fires env' ?counts msg content ?e) (re_event_cache ?e))"
    using id assms(8) by (auto simp: matching_event_triggers_def Let_def batch_concurrent_counts_def filter_empty_conv)
  ultimately have "\<lparr>tr_routine = r, tr_detail = truncate_text content 200\<rparr> \<in> set (matching_event_triggers env' msg content ?e)"
    using assms(1) cache by (auto simp: image_iff intro!: bexI[of _ "MessageMatcher r is_match"])
  moreover have "ro_last_run_at row = Some (en_now env)" if "row \<in> set (rb_routines (re_db ?e))" "ro_id row = rt_id r" for row
    using task_finish_routines[OF assms(5)] that assms(6,7) by simp
  ultimately show ?thesis by (metis triggered_routine.select_convs(1))
qed

text \<open>
  A cooldown of two to the 31 seconds or more, up to the largest number the column holds unsigned, is written as a
  negative number of seconds and read back as one beyond every date: the engine then uses five minutes.
\<close>

theorem overlong_cooldown_is_five_minutes:
  assumes "2 ^ 31 \<le> n" "n < 2 ^ 32" "gr_cooldown (rt_guardrails r) = n * NANOS"
    and "row_to_routine show_num valid_tz (new_row r) = Inr r'"
  shows "cooldown_of r' = 300 * int NANOS"
proof -
  have "gr_cooldown (rt_guardrails r') = secs_of_i32 (as_secs_i32 (n * NANOS))"
    using assms(3,4) by (auto simp: row_to_routine_def new_row_def into_row_def trigger_from_to action_from_to)
  then have c: "int (gr_cooldown (rt_guardrails r')) = int (2 ^ 64 - 2 ^ 32 + n) * int NANOS"
    using secs_negative[OF assms(1,2)] by simp
  have "(2 ^ 63 - 1) * 10 ^ 6 < int (2 ^ 64 - 2 ^ 32 + n) * int NANOS" using assms(1) by (simp add: NANOS_def)
  with c show ?thesis by (simp add: cooldown_of_def)
qed

subsection \<open>Watching a job\<close>

lemma watch_job_slept: "polls < MAX_POLLS \<Longrightarrow> snd (watch_job answer polls) < MAX_POLLS"
proof (induction answer polls rule: watch_job.induct)
  case (1 answer polls)
  show ?case
  proof (cases "answer polls")
    case (Inr s)
    with 1 show ?thesis
      by (cases s) (subst watch_job.simps, auto)+
  qed (use 1 in \<open>subst watch_job.simps, simp\<close>)
qed

declare watch_job.simps [simp del]

lemma watch_job_first:
  assumes "\<And>m. polls \<le> m \<Longrightarrow> m < n \<Longrightarrow> \<exists>s. answer m = Inr (Some s) \<and> is_parallel_blocking s"
    and "polls \<le> n" "n < MAX_POLLS" "answer n = Inr (Some s)" "\<not> is_parallel_blocking s"
  shows "watch_job answer polls = (map_job_state s, n)"
  using assms(1,2)
proof (induction "n - polls" arbitrary: polls)
  case 0
  then show ?case using assms(4,5) by (subst watch_job.simps) simp
next
  case (Suc d)
  then obtain s' where "answer polls = Inr (Some s')" "is_parallel_blocking s'" by (metis Suc_diff_le diff_is_0_eq' not_less_eq_eq nat.distinct(1) not_le order_refl)
  moreover have "watch_job answer (Suc polls) = (map_job_state s, n)" using Suc by auto
  ultimately show ?case using Suc assms(3) by (subst watch_job.simps) auto
qed

text \<open>
  Watching a job always ends, after fewer than 17280 waits of five seconds; and when the job leaves its active
  states at a poll before that, with no error on the way, the run gets the status of that state.
\<close>

theorem watch_ends_with_job:
  "snd (watch_job answer 0) < 17280 \<and>
   ((\<forall>m<n. \<exists>s. answer m = Inr (Some s) \<and> is_parallel_blocking s) \<and> n < 17280 \<and> answer n = Inr (Some s) \<and>
      \<not> is_parallel_blocking s \<longrightarrow> watch_job answer 0 = (map_job_state s, n))"
proof -
  have "MAX_POLLS = 17280" by (simp add: MAX_POLLS_def POLL_INTERVAL_SECS_def)
  then show ?thesis using watch_job_slept[of 0 answer] watch_job_first[of 0 n answer s] by auto
qed

subsection \<open>Recovery\<close>

lemma recover_run_runs:
  assumes "completes env"
  shows "(\<exists>now st sm tk. st \<noteq> RunRunning \<and>
      rb_runs (re_db (recover_run env run e)) = map (completed_row now (rr_id run) st sm tk) (rb_runs (re_db e))) \<or>
    rb_runs (re_db (recover_run env run e)) = rb_runs (re_db e)"
proof (cases "recover_run env run e = e")
  case False
  then obtain st sm where "recover_run env run e = complete_dispatched_run env run st sm e" "st \<noteq> RunRunning"
    by (auto simp: recover_run_def final_status_def split: option.splits if_splits)
  then show ?thesis using assms by (auto simp: completes_def)
qed simp

lemma recover_run_row:
  assumes "completes env" "row' \<in> set (rb_runs (re_db (recover_run env run e)))"
  shows "\<exists>row\<in>set (rb_runs (re_db e)). rn_id row' = rn_id row \<and> (is_running row' \<longrightarrow> is_running row) \<and>
    (rn_id row \<noteq> rr_id run \<longrightarrow> row' = row)"
  using recover_run_runs[OF assms(1), of run e]
proof
  assume "\<exists>now st sm tk. st \<noteq> RunRunning \<and>
      rb_runs (re_db (recover_run env run e)) = map (completed_row now (rr_id run) st sm tk) (rb_runs (re_db e))"
  then obtain now st sm tk x where x: "x \<in> set (rb_runs (re_db e))" "row' = completed_row now (rr_id run) st sm tk x" "st \<noteq> RunRunning"
    using assms(2) by auto
  then have "is_running row' \<longrightarrow> is_running x" "rn_id x \<noteq> rr_id run \<longrightarrow> row' = x"
    by (simp_all add: is_running_completed) (simp add: completed_row_def)
  then show ?thesis using x by (intro bexI[of _ x]) simp_all
qed (use assms(2) in auto)

lemma fold_recover_row:
  assumes "completes env" "row' \<in> set (rb_runs (re_db (fold (recover_run env) runs e)))"
  shows "\<exists>row\<in>set (rb_runs (re_db e)). rn_id row' = rn_id row \<and> (is_running row' \<longrightarrow> is_running row) \<and>
    (rn_id row \<notin> rr_id ` set runs \<longrightarrow> row' = row)"
  using assms(2)
proof (induction runs arbitrary: e)
  case (Cons run runs)
  then obtain row where row: "row \<in> set (rb_runs (re_db (recover_run env run e)))" "rn_id row' = rn_id row"
      "is_running row' \<longrightarrow> is_running row" "rn_id row \<notin> rr_id ` set runs \<longrightarrow> row' = row" by auto
  then obtain row0 where row0: "row0 \<in> set (rb_runs (re_db e))" "rn_id row = rn_id row0" "is_running row \<longrightarrow> is_running row0"
      "rn_id row0 \<noteq> rr_id run \<longrightarrow> row = row0"
    using recover_run_row[OF assms(1)] by blast
  show ?case by (rule bexI[OF _ row0(1)]) (use row(2-) row0(2-) in auto)
qed auto

lemma sequence_results_Inr: "sequence_results rs = Inr ys \<Longrightarrow> rs = map Inr ys"
  by (induction rs arbitrary: ys rule: sequence_results.induct) (auto split: sum.splits)

lemma dispatched_rows:
  assumes "list_dispatched_routine_runs db = Inr runs" "run \<in> set runs"
  shows "\<exists>row\<in>set (rb_runs db). rn_id row = rr_id run \<and> rn_started_at row = rr_started_at run"
proof -
  let ?rows = "filter (\<lambda>r. is_running r \<and> rn_job_id r \<noteq> None) (rb_runs db)"
  have "Inr run \<in> set (map row_to_routine_run ?rows)"
    unfolding sequence_results_Inr[OF assms(1)[unfolded list_dispatched_routine_runs_def]] using assms(2) by simp
  then show ?thesis by (auto simp: row_to_routine_run_def split: sum.splits)
qed

text \<open>
  The recovery of runs left by an earlier process leaves every run alone that was started since the engine was
  created: those have tasks of their own that will write their result.
\<close>

theorem recovery_spares_own_runs:
  assumes "completes env" "distinct (map rn_id (rb_runs (re_db e)))"
    and "row \<in> set (rb_runs (re_db e))" "re_boot_time e \<le> rn_started_at row"
    and "row' \<in> set (rb_runs (re_db (sync_dispatched_runs env e)))" "rn_id row' = rn_id row"
  shows "row' = row"
proof -
  have same: "x = y" if "x \<in> set (rb_runs (re_db e))" "y \<in> set (rb_runs (re_db e))" "rn_id x = rn_id y" for x y
    using assms(2) that by (auto simp: distinct_map inj_on_def)
  consider "sync_dispatched_runs env e = e"
    | runs where "list_dispatched_routine_runs (re_db e) = Inr runs"
      "sync_dispatched_runs env e = fold (recover_run env) (filter (\<lambda>r. rr_started_at r < re_boot_time e) runs) e"
    by (cases "list_dispatched_routine_runs (re_db e)"; cases "en_fails env OpListDispatched")
      (auto simp: sync_dispatched_runs_def)
  then show ?thesis
  proof cases
    case 1
    then show ?thesis using assms same by simp
  next
    case (2 runs)
    let ?old = "filter (\<lambda>r. rr_started_at r < re_boot_time e) runs"
    have "rn_id row \<notin> rr_id ` set ?old"
    proof
      assume "rn_id row \<in> rr_id ` set ?old"
      then obtain run where "run \<in> set runs" "rr_started_at run < re_boot_time e" "rn_id row = rr_id run" by auto
      then show False using dispatched_rows[OF 2(1)] same[OF assms(3)] assms(4) by fastforce
    qed
    then show ?thesis using fold_recover_row[OF assms(1), of row' ?old e] 2 assms same[OF assms(3)] by metis
  qed
qed

lemma recover_finishes:
  assumes "\<And>op. en_fails env op = None" "rr_job_id run = Some j" "re_jobs e j = None \<or> (\<exists>s. re_jobs e j = Some s \<and> final_status s \<noteq> None)"
    and "row' \<in> set (rb_runs (re_db (recover_run env run e)))" "rn_id row' = rr_id run"
  shows "\<not> is_running row'"
proof -
  obtain st sm where "recover_run env run e = complete_dispatched_run env run st sm e" "st \<noteq> RunRunning"
  proof (cases "re_jobs e j")
    case None
    then show thesis using that assms(1,2) by (auto simp: recover_run_def)
  next
    case (Some s)
    then obtain st where "final_status s = Some st" using assms(3) by auto
    moreover have "st \<noteq> RunRunning" using \<open>final_status s = Some st\<close> by (auto simp: final_status_def split: if_splits)
    ultimately show thesis using that assms(1,2) Some by (auto simp: recover_run_def)
  qed
  then show ?thesis using assms(1,4,5) by (auto simp: is_running_completed)
qed

lemma fold_recover_finishes:
  assumes "\<And>op. en_fails env op = None" "run \<in> set runs" "rr_job_id run = Some j"
    and "re_jobs e j = None \<or> (\<exists>s. re_jobs e j = Some s \<and> final_status s \<noteq> None)"
    and "row' \<in> set (rb_runs (re_db (fold (recover_run env) runs e)))" "rn_id row' = rr_id run"
  shows "\<not> is_running row'"
  using assms(2,4,5)
proof (induction runs arbitrary: e)
  case (Cons r runs)
  have ok: "completes env" using assms(1) by (simp add: completes_def)
  show ?case
  proof (cases "run \<in> set runs")
    case True
    then show ?thesis using Cons.IH[OF True, of "recover_run env r e"] Cons.prems by simp
  next
    case False
    then have "r = run" using Cons.prems(1) by simp
    then obtain row where "row \<in> set (rb_runs (re_db (recover_run env run e)))" "rn_id row' = rn_id row" "is_running row' \<longrightarrow> is_running row"
      using fold_recover_row[OF ok, of row' runs "recover_run env run e"] Cons.prems(3) by auto
    then show ?thesis using recover_finishes[OF assms(1,3) Cons.prems(2)] assms(6) by auto
  qed
qed simp

text \<open>
  When no call of the database fails, recovery ends every run of an earlier process whose job is gone or has
  finished: it is not called running any more.
\<close>

theorem recovery_ends_orphans:
  assumes "\<And>op. en_fails env op = None" "list_dispatched_routine_runs (re_db e) = Inr runs"
    and "run \<in> set runs" "rr_started_at run < re_boot_time e" "rr_job_id run = Some j"
    and "re_jobs e j = None \<or> (\<exists>s. re_jobs e j = Some s \<and> final_status s \<noteq> None)"
    and "row' \<in> set (rb_runs (re_db (sync_dispatched_runs env e)))" "rn_id row' = rr_id run"
  shows "\<not> is_running row'"
proof (rule fold_recover_finishes[OF assms(1) _ assms(5,6)])
  show "run \<in> set (filter (\<lambda>r. rr_started_at r < re_boot_time e) runs)" using assms(3,4) by simp
  show "row' \<in> set (rb_runs (re_db (fold (recover_run env) (filter (\<lambda>r. rr_started_at r < re_boot_time e) runs) e)))"
    using assms(1,2,7) by (simp add: sync_dispatched_runs_def)
  show "rn_id row' = rr_id run" by (rule assms(8))
qed

section \<open>Witnesses\<close>

definition sample_env :: engine_env where
  "sample_env =
     \<lparr>en_show_num = (\<lambda>_. []), en_valid_tz = (\<lambda>_. True), en_upcoming = (\<lambda>_. Inl []), en_regex = (\<lambda>_. Some (\<lambda>_. True)),
      en_text_of = (\<lambda>_. []), en_uuid_text = show_nat, en_error_text = (\<lambda>_. []), en_store_error_text = (\<lambda>_. []),
      en_fails = (\<lambda>_. None), en_now = 10\<rparr>"

definition sample_engine :: "routine list \<Rightarrow> routine_engine" where
  "sample_engine rs =
     \<lparr>re_config = \<lparr>rc_enabled = True, rc_cron_check_interval_secs = 15, rc_max_concurrent_routines = 1,
        rc_default_cooldown_secs = 300, rc_max_lightweight_tokens = 4096, rc_lightweight_tools_enabled = True,
        rc_lightweight_max_iterations = 3\<rparr>,
      re_workspace = workspace_new ''eve'', re_running_count = 0,
      re_event_cache = map (\<lambda>r. MessageMatcher r (\<lambda>_. True)) rs, re_sandbox_readiness = SandboxAvailable, re_boot_time = 5,
      re_db = \<lparr>rb_routines = map new_row rs, rb_runs = []\<rparr>, re_conversations = \<lparr>cd_conversations = [], cd_messages = []\<rparr>,
      re_jobs = (\<lambda>_. None), re_failure_reason = (\<lambda>_. None), re_tasks = [], re_notifications = [], re_next_id = 100\<rparr>"

definition hook_routine :: routine where
  "hook_routine = sample_routine\<lparr>rt_last_run_at := None, rt_run_count := 0, rt_consecutive_failures := 0\<rparr>"

definition event_routine :: routine where
  "event_routine = hook_routine\<lparr>rt_trigger := Event None ''x''\<rparr>"

definition due_routine :: "nat \<Rightarrow> routine" where
  "due_routine i = hook_routine\<lparr>rt_id := i, rt_name := show_nat i, rt_trigger := Cron ''0 9 * * *'' None, rt_next_fire_at := Some 1\<rparr>"

lemma env_ok [simp]: "en_fails sample_env op = None" "completes sample_env"
  by (simp_all add: sample_env_def completes_def)

lemma hook_row: "row_to_routine sn tz (new_row hook_routine) = Inr hook_routine"
proof -
  have "stored_guardrails (rt_guardrails hook_routine)"
    by (auto simp: stored_guardrails_def hook_routine_def sample_routine_def intro!: exI[of _ 300])
  from routine_from_to[OF this] show ?thesis
    by (simp add: hook_routine_def sample_routine_def with_valid_timezone_def with_clamped_rounds_def)
qed

definition started_engine :: routine_engine where
  "started_engine = snd (fire_manual sample_env 1 (Some ''ann'') (sample_engine [hook_routine]))"

lemma hook_id: "rt_id hook_routine = 1" "rt_user_id hook_routine = ''ann''" "rt_enabled hook_routine"
    "gr_max_concurrent (rt_guardrails hook_routine) = 1" "rt_last_run_at hook_routine = None"
  by (simp_all add: hook_routine_def sample_routine_def)

lemma hook_loaded: "load_routine sample_env 1 (sample_engine [hook_routine]) = Inr hook_routine"
  by (simp add: load_routine_def db_result_def get_routine_def sample_engine_def query_opt_def read_opt_def hook_row hook_id)

lemma hook_free: "check_concurrent sample_env hook_routine (sample_engine [hook_routine])"
  by (simp add: check_concurrent_def sample_engine_def count_running_routine_runs_def hook_id)

lemma manual_started:
  "fst (fire_manual sample_env 1 (Some ''ann'') (sample_engine [hook_routine])) = Inr 100"
  "map tk_phase (re_tasks started_engine) = [TaskRecorded]" "map rn_id (filter is_running (rb_runs (re_db started_engine))) = [100]"
  "map (rr_id \<circ> tk_run) (re_tasks started_engine) = [100]"
  using hook_loaded hook_free
  by (simp_all add: started_engine_def fire_manual_def hook_id start_recorded_def Let_def record_run_def create_routine_run_def
      new_run_def sample_engine_def is_running_def run_row_of_def)

theorem running_count_exact_witness:
  "re_running_count (task_start sample_env 0 started_engine) = 1 \<and>
   re_running_count (task_start sample_env 0 started_engine) = executing (re_tasks (task_start sample_env 0 started_engine))"
proof -
  have boot: "reachable engine_boot (engine_step (\<lambda>_. True)) (sample_engine [hook_routine])"
    by (rule reachable_init) (simp add: engine_boot_def sample_engine_def)
  have "reachable engine_boot (engine_step (\<lambda>_. True)) started_engine"
    unfolding started_engine_def by (rule reachable_step[OF boot]) (rule manual, simp)
  then have r: "reachable engine_boot (engine_step (\<lambda>_. True)) (task_start sample_env 0 started_engine)"
    by (rule reachable_step) (rule start, use arg_cong[OF manual_started(2), of length] in simp_all)
  obtain t where "re_tasks started_engine = [t]" "tk_phase t = TaskRecorded" using manual_started(2) by auto
  then have "executing (re_tasks (task_start sample_env 0 started_engine)) = 1" by (simp add: task_start_def Let_def)
  then show ?thesis using running_count_exact[OF r] by simp
qed

theorem no_run_left_running_witness:
  "\<exists>row\<in>set (rb_runs (re_db started_engine)). is_running row \<and>
     (\<exists>t\<in>set (re_tasks started_engine). tk_phase t \<noteq> TaskSpawned \<and> rr_id (tk_run t) = rn_id row)"
proof -
  have boot: "reachable (\<lambda>e. engine_boot e \<and> rn_id ` set (rb_runs (re_db e)) \<subseteq> {}) (engine_step completes) (sample_engine [hook_routine])"
    by (rule reachable_init) (simp add: engine_boot_def sample_engine_def)
  have "reachable (\<lambda>e. engine_boot e \<and> rn_id ` set (rb_runs (re_db e)) \<subseteq> {}) (engine_step completes) started_engine"
    unfolding started_engine_def by (rule reachable_step[OF boot]) (rule manual, simp)
  moreover obtain row where "row \<in> set (rb_runs (re_db started_engine))" "is_running row"
    using arg_cong[OF manual_started(3), of set] by auto
  ultimately show ?thesis using no_run_left_running[of "{}" started_engine row] by blast
qed

theorem manual_run_authorized_witness:
  "\<exists>r t. load_routine sample_env 1 (sample_engine [hook_routine]) = Inr r \<and> rt_user_id r = ''ann'' \<and> rt_enabled r \<and>
    check_concurrent sample_env r (sample_engine [hook_routine]) \<and> re_tasks started_engine = re_tasks (sample_engine [hook_routine]) @ [t] \<and>
    tk_routine t = r \<and> ws_user (tk_workspace t) = ''ann'' \<and>
    (\<exists>row. rb_runs (re_db started_engine) = rb_runs (re_db (sample_engine [hook_routine])) @ [row] \<and> rn_id row = rr_id (tk_run t))"
  by (rule manual_run_authorized[of _ _ _ _ 100]) (simp add: started_engine_def manual_started(1)[symmetric])

lemma sample_engine_simps [simp]:
  "re_tasks (sample_engine rs) = []" "re_running_count (sample_engine rs) = 0" "re_workspace (sample_engine rs) = workspace_new ''eve''"
  "rc_max_concurrent_routines (re_config (sample_engine rs)) = 1" "re_next_id (sample_engine rs) = 100"
  "re_event_cache (sample_engine rs) = map (\<lambda>r. MessageMatcher r (\<lambda>_. True)) rs"
  "re_db (sample_engine rs) = \<lparr>rb_routines = map new_row rs, rb_runs = []\<rparr>" "re_boot_time (sample_engine rs) = 5"
  "re_jobs (sample_engine rs) = (\<lambda>_. None)"
  by (simp_all add: sample_engine_def)

lemma event_fires:
  "matching_event_triggers sample_env \<lparr>im_user_id = ''ann'', im_channel = ''web''\<rparr> ''hi'' (sample_engine [event_routine]) =
     [\<lparr>tr_routine = event_routine, tr_detail = ''hi''\<rparr>]"
  by (simp add: matching_event_triggers_def Let_def is_message_matcher_def batch_concurrent_counts_def
      message_fires_def routine_matches_message_def event_routine_def hook_id check_cooldown_def under_limit_def has_capacity_def
      truncate_text_def count_running_routine_runs_batch_def running_groups_def)

lemma event_user: "rt_user_id event_routine = ''ann''"
  by (simp add: event_routine_def hook_id)

definition spawned_engine :: routine_engine where
  "spawned_engine = snd (check_event_triggers sample_env \<lparr>im_user_id = ''ann'', im_channel = ''web''\<rparr> ''hi'' (sample_engine [event_routine]))"

lemma spawned_tasks: "map tk_routine (re_tasks spawned_engine) = [event_routine]"
  by (simp add: spawned_engine_def check_event_triggers_def event_fires Let_def spawn_fire_def)

theorem message_fires_own_routines_witness:
  "\<exists>t\<in>set (re_tasks spawned_engine). rt_user_id (tk_routine t) = ''ann'' \<and> ws_user (tk_workspace t) = ''ann''"
proof -
  obtain t where t: "t \<in> set (re_tasks spawned_engine)" using spawned_tasks by (cases "re_tasks spawned_engine") auto
  moreover have "t \<notin> set (re_tasks (sample_engine [event_routine]))" by simp
  ultimately show ?thesis
    using message_fires_own_routines[of t sample_env "\<lparr>im_user_id = ''ann'', im_channel = ''web''\<rparr>" "''hi''" "sample_engine [event_routine]"]
    unfolding spawned_engine_def by auto
qed

lemma webhook_starts: "\<exists>e'. fire_webhook sample_env 1 ''hook'' (sample_engine [hook_routine]) = (Inr 100, e')"
proof -
  have "fst (fire_webhook sample_env 1 ''hook'' (sample_engine [hook_routine])) = Inr 100"
    using hook_loaded hook_free
    by (simp add: fire_webhook_def hook_id check_cooldown_def start_recorded_def Let_def record_run_def create_routine_run_def
        new_run_def has_capacity_def)
  then show ?thesis by (metis prod.collapse)
qed

theorem webhook_runs_in_engine_workspace_witness:
  "\<exists>e' r t. fire_webhook sample_env 1 ''hook'' (sample_engine [hook_routine]) = (Inr 100, e') \<and>
    re_tasks e' = re_tasks (sample_engine [hook_routine]) @ [t] \<and> tk_routine t = r \<and> rt_user_id r = ''ann'' \<and>
    ws_user (tk_workspace t) = ''eve''"
proof -
  let ?e = "sample_engine [hook_routine]"
  obtain e' where e': "fire_webhook sample_env 1 ''hook'' ?e = (Inr 100, e')" using webhook_starts by blast
  from webhook_runs_in_engine_workspace[OF e'] hook_loaded show ?thesis
    using e' by (auto simp: hook_id workspace_new_def)
qed

lemma due_row: "row_to_routine sn (\<lambda>_. True) (new_row (due_routine i)) = Inr (due_routine i)"
proof -
  have "stored_guardrails (rt_guardrails (due_routine i))"
    by (auto simp: stored_guardrails_def due_routine_def hook_routine_def sample_routine_def intro!: exI[of _ 300])
  from routine_from_to[OF this] show ?thesis
    by (simp add: due_routine_def hook_routine_def sample_routine_def with_valid_timezone_def with_clamped_rounds_def opt_filter_def)
qed

theorem due_routines_exceed_limit_witness:
  "length (re_tasks (check_cron_triggers sample_env (sample_engine [due_routine 1, due_routine 2, due_routine 3]))) = 3 \<and>
   rc_max_concurrent_routines (re_config (sample_engine [due_routine 1, due_routine 2, due_routine 3])) = 1"
proof -
  let ?rs = "[due_routine 1, due_routine 2, due_routine 3]"
  let ?e = "sample_engine ?rs"
  have due: "is_due_cron_row 10 (new_row (due_routine i))" for i
    by (simp add: is_due_cron_row_def new_row_def into_row_def due_routine_def hook_routine_def sample_routine_def)
  have "list_due_cron_routines (en_show_num sample_env) (en_valid_tz sample_env) (en_now sample_env) (re_db ?e) = Inr ?rs"
    by (simp add: list_due_cron_routines_def sample_env_def due read_all_def due_row)
  moreover have "check_cooldown (en_now sample_env) (due_routine i) \<and> check_concurrent sample_env (due_routine i) ?e" for i
    by (simp add: due_routine_def check_cooldown_def hook_id check_concurrent_def count_running_routine_runs_def)
  ultimately have "length (re_tasks (check_cron_triggers sample_env ?e)) = length (re_tasks ?e) + length ?rs"
    by (intro due_routines_exceed_limit) (auto simp: has_capacity_def)
  then show ?thesis by simp
qed

definition ended_engine :: routine_engine where
  "ended_engine = task_finish sample_env 0 (Inr (RunOk, None, None)) (task_start sample_env 0 spawned_engine)"

theorem cooldown_ignored_until_refresh_witness:
  "\<exists>t\<in>set (matching_event_triggers sample_env \<lparr>im_user_id = ''ann'', im_channel = ''web''\<rparr> ''hi'' ended_engine).
     tr_routine t = event_routine \<and> gr_cooldown (rt_guardrails event_routine) = 300 * NANOS"
proof -
  let ?e = "task_start sample_env 0 spawned_engine"
  have run: "re_tasks spawned_engine = [\<lparr>tk_phase = TaskSpawned, tk_workspace = workspace_new ''ann'', tk_routine = event_routine,
      tk_run = new_run sample_env event_routine ''event'' (Some ''hi'') (sample_engine [event_routine])\<rparr>]"
    by (simp add: spawned_engine_def check_event_triggers_def event_fires Let_def spawn_fire_def routine_workspace_def event_user)
      (simp add: workspace_new_def)
  have db: "re_db spawned_engine = \<lparr>rb_routines = [new_row event_routine], rb_runs = []\<rparr>"
      "re_event_cache spawned_engine = [MessageMatcher event_routine (\<lambda>_. True)]" "re_running_count spawned_engine = 0"
      "rc_max_concurrent_routines (re_config spawned_engine) = 1"
    unfolding spawned_engine_def check_event_simps by simp_all
  have started: "map tk_phase (re_tasks ?e) = [TaskExecuting]" "map tk_routine (re_tasks ?e) = [event_routine]"
      "re_event_cache ?e = [MessageMatcher event_routine (\<lambda>_. True)]" "re_running_count ?e = 1" "rc_max_concurrent_routines (re_config ?e) = 1"
      "map rn_id (rb_runs (re_db ?e)) = [rr_id (tk_run (re_tasks ?e ! 0))]"
    by (simp_all add: task_start_def run record_run_def create_routine_run_def db Let_def new_run_def)
  then have ex: "tk_phase (re_tasks ?e ! 0) = TaskExecuting" "tk_routine (re_tasks ?e ! 0) = event_routine" by auto
  have fin: "rb_runs (re_db ended_engine) = map (completed_row 10 (rr_id (tk_run (re_tasks ?e ! 0))) RunOk None None) (rb_runs (re_db ?e))"
      "re_running_count ended_engine = 0" "re_config ended_engine = re_config ?e"
    using ex(1) started(4) by (simp_all add: ended_engine_def task_finish_effect outcome_of_def) (simp add: sample_env_def)
  have "\<not> is_running row" if "row \<in> set (rb_runs (re_db ended_engine))" for row
    using that started(6) by (auto simp: fin is_running_completed)
  then have "count_running_routine_runs i (re_db ended_engine) = 0" for i by (simp add: count_zero)
  then have "(\<exists>t\<in>set (matching_event_triggers sample_env \<lparr>im_user_id = ''ann'', im_channel = ''web''\<rparr> ''hi'' ended_engine). tr_routine t = event_routine) \<and>
      (\<forall>row\<in>set (rb_routines (re_db ended_engine)). ro_id row = rt_id event_routine \<longrightarrow> ro_last_run_at row = Some (en_now sample_env))"
    using started(3,5) ex fin(2,3) unfolding ended_engine_def
    by (intro cooldown_ignored_until_refresh[of event_routine "\<lambda>_. True"])
      (auto simp: routine_matches_message_def has_capacity_def event_routine_def hook_id)
  then show ?thesis by (auto simp: event_routine_def hook_routine_def sample_routine_def)
qed

theorem overlong_cooldown_is_five_minutes_witness:
  "\<exists>r'. row_to_routine (\<lambda>_. []) (\<lambda>_. True)
      (new_row (hook_routine\<lparr>rt_guardrails := \<lparr>gr_cooldown = 2 ^ 31 * NANOS, gr_max_concurrent = 1, gr_dedup_window = None\<rparr>\<rparr>)) = Inr r' \<and>
    cooldown_of r' = 300 * int NANOS"
proof -
  let ?r = "hook_routine\<lparr>rt_guardrails := \<lparr>gr_cooldown = 2 ^ 31 * NANOS, gr_max_concurrent = 1, gr_dedup_window = None\<rparr>\<rparr>"
  obtain r' where "row_to_routine (\<lambda>_. []) (\<lambda>_. True) (new_row ?r) = Inr r'"
    by (simp add: row_to_routine_def new_row_def into_row_def trigger_from_to action_from_to)
  then show ?thesis using overlong_cooldown_is_five_minutes[of "2 ^ 31" ?r "\<lambda>_. []" "\<lambda>_. True" r'] by auto
qed

theorem watch_ends_with_job_witness:
  "watch_job (\<lambda>n. Inr (Some (if n < 2 then InProgress else Completed))) 0 = (RunOk, 2)"
  using watch_ends_with_job[of "\<lambda>n. Inr (Some (if n < 2 then InProgress else Completed))" 2 Completed]
  by (simp add: is_parallel_blocking_def map_job_state_def)

definition orphan_row :: "utc \<Rightarrow> run_row" where
  "orphan_row started = \<lparr>rn_id = 7, rn_routine_id = 1, rn_trigger_type = ''cron'', rn_trigger_detail = None, rn_started_at = started,
     rn_completed_at = None, rn_status = ''running'', rn_result_summary = None, rn_tokens_used = None, rn_job_id = Some 3, rn_created_at = 0\<rparr>"

definition orphan_engine :: "utc \<Rightarrow> routine_engine" where
  "orphan_engine started = (sample_engine [hook_routine])\<lparr>re_db := \<lparr>rb_routines = [new_row hook_routine], rb_runs = [orphan_row started]\<rparr>\<rparr>"

lemma orphan_runs: "\<exists>run. list_dispatched_routine_runs (re_db (orphan_engine t)) = Inr [run] \<and> rr_started_at run = t \<and> rr_job_id run = Some 3 \<and> rr_id run = 7"
  by (simp add: list_dispatched_routine_runs_def orphan_engine_def orphan_row_def is_running_def row_to_routine_run_def run_status_from_str_def)

theorem recovery_ends_orphans_witness:
  "\<forall>row\<in>set (rb_runs (re_db (sync_dispatched_runs sample_env (orphan_engine 1)))). rn_id row = 7 \<longrightarrow> \<not> is_running row"
proof -
  obtain run where "list_dispatched_routine_runs (re_db (orphan_engine 1)) = Inr [run]" "rr_started_at run = 1" "rr_job_id run = Some 3" "rr_id run = 7"
    using orphan_runs by blast
  then show ?thesis using recovery_ends_orphans[of sample_env "orphan_engine 1" "[run]" run 3]
    by (auto simp: orphan_engine_def)
qed

theorem recovery_spares_own_runs_witness:
  "\<forall>row\<in>set (rb_runs (re_db (sync_dispatched_runs sample_env (orphan_engine 6)))). rn_id row = 7 \<longrightarrow> row = orphan_row 6"
proof -
  have "rn_id (orphan_row 6) = 7" by (simp add: orphan_row_def)
  then show ?thesis using recovery_spares_own_runs[of sample_env "orphan_engine 6" "orphan_row 6"]
    by (auto simp: orphan_engine_def orphan_row_def)
qed

end
