(* ===== verification/Routine_Run.thy ===== *)
theory Routine_Run
  imports Routine_Engine Tool_Execution Workspace_Prompt Provider
begin

text \<open>
  What a run does, \<open>execute_lightweight\<close> and its helpers in \<open>src/agent/routine_engine.rs\<close>: the context read from the
  workspace, the prompt, one call of the model without tools or a bounded loop with them, and the reading of the
  answer. The model is a parameter with a state of its own, once for plain completions and once for completions with
  tools; token counts are 32-bit words and sums of them wrap.
\<close>

section \<open>Model\<close>

subsection \<open>Prompt\<close>

definition sanitize_prompt_field :: "string \<Rightarrow> string" where
  "sanitize_prompt_field v =
     map (\<lambda>c. if c = CHR 0x60 then CHR 0x27 else c)
       (concat (take 128 (str_chars (filter (\<lambda>c. c \<noteq> newline \<and> c \<noteq> CHR 0x0D) v))))"

definition rule_line :: string where
  "rule_line = [newline, newline] @ ''---'' @ [newline, newline]"

definition backquoted :: "string \<Rightarrow> string" where
  "backquoted s = [CHR 0x60] @ s @ [CHR 0x60]"

definition delivery_part :: "notify_config \<Rightarrow> string" where
  "delivery_part n =
     (if nc_on_attention n then
        rule_line @ ''# Delivery'' @ [newline, newline] @
        ''If you reply with anything other than ROUTINE_OK, the host will deliver your '' @
        ''reply as the routine notification. Return the message exactly as it should be sent.'' @ [newline] @
        (case nc_channel n of
           Some ch \<Rightarrow> ''The configured delivery channel for this routine is '' @ backquoted (sanitize_prompt_field ch) @ ''.'' @ [newline]
         | None \<Rightarrow> []) @
        (case nc_user n of
           Some u \<Rightarrow> ''The configured delivery target for this routine is '' @ backquoted (sanitize_prompt_field u) @ ''.'' @ [newline]
         | None \<Rightarrow> []) @
        ''Do not claim you lack messaging integrations or ask the user to set one up when '' @
        ''a plain reply is sufficient.'' @ [newline]
      else [])"

definition build_lightweight_prompt :: "string \<Rightarrow> string list \<Rightarrow> string option \<Rightarrow> notify_config \<Rightarrow> bool \<Rightarrow> string" where
  "build_lightweight_prompt prompt context_parts state_content n use_tools =
     prompt @ delivery_part n @
     (if \<not> use_tools
      then [newline] @ ''Tools are disabled for this routine run. Do not ask to call tools or describe tool limitations '' @
           ''unless they prevent a necessary external action.'' @ [newline]
      else []) @
     (if context_parts \<noteq> [] then rule_line @ ''# Context'' @ [newline, newline] @ str_join [newline, newline] context_parts else []) @
     (case state_content of Some st \<Rightarrow> rule_line @ ''# Previous State'' @ [newline, newline] @ st | None \<Rightarrow> []) @
     rule_line @ ''If nothing needs attention, reply EXACTLY with: ROUTINE_OK'' @ [newline] @
     ''If something needs attention, provide a concise summary.''"

definition sanitize_routine_name :: "string \<Rightarrow> string" where
  "sanitize_routine_name name =
     map (\<lambda>c. if is_ascii_alnum (hd c) \<and> length c = 1 \<or> c = ''-'' \<or> c = ''_'' then hd c else CHR ''_'') (str_chars name)"

definition state_path :: "string \<Rightarrow> string" where
  "state_path name = ''routines/'' @ sanitize_routine_name name @ ''/state.md''"

subsection \<open>Answers\<close>

definition handle_text_response ::
  "string \<Rightarrow> finish_reason \<Rightarrow> 32 word \<Rightarrow> 32 word \<Rightarrow> (routine_error, execution) result"
where
  "handle_text_response content finish total_in total_out =
     (let content = trim content
      in if content = [] then Inl (if finish = Length then TruncatedResponse else routine_error.EmptyResponse)
         else if content = ''ROUTINE_OK'' then Inr (RunOk, None, Some (total_in + total_out))
         else Inr (RunAttention, Some content, Some (total_in + total_out)))"

definition ensure_ends_with_user_message :: "chat_message list \<Rightarrow> chat_message list" where
  "ensure_ends_with_user_message msgs =
     (if msgs \<noteq> [] \<and> cm_role (last msgs) = User then msgs else msgs @ [msg_user ''Continue.''])"

definition MAX_TOOL_LOOP_MESSAGES :: nat where "MAX_TOOL_LOOP_MESSAGES = 32"

definition snapshot_messages_for_tool_iteration :: "chat_message list \<Rightarrow> chat_message list" where
  "snapshot_messages_for_tool_iteration msgs =
     (if length msgs \<le> MAX_TOOL_LOOP_MESSAGES then msgs
      else if cm_role (hd msgs) = System
      then hd msgs # drop (max (length msgs - (MAX_TOOL_LOOP_MESSAGES - 1)) 1) msgs
      else drop (length msgs - MAX_TOOL_LOOP_MESSAGES) msgs)"

subsection \<open>Tools\<close>

record tool_completion_request =
  tq_messages :: "chat_message list"
  tq_tools :: "tool_definition list"
  tq_model :: "string option"
  tq_max_tokens :: "32 word option"
  tq_temperature :: "32 word option"
  tq_stop_sequences :: "string list option"
  tq_tool_choice :: "string option"
  tq_metadata :: "(string \<times> string) list"

definition tool_completion_request_new :: "chat_message list \<Rightarrow> tool_definition list \<Rightarrow> tool_completion_request" where
  "tool_completion_request_new msgs tools =
     \<lparr>tq_messages = msgs, tq_tools = tools, tq_model = None, tq_max_tokens = None, tq_temperature = None,
      tq_stop_sequences = None, tq_tool_choice = None, tq_metadata = []\<rparr>"

record tool_completion_response =
  tp_content :: "string option"
  tp_tool_calls :: "tool_call list"
  tp_input_tokens :: "32 word"
  tp_output_tokens :: "32 word"
  tp_finish_reason :: finish_reason
  tp_cache_read_input_tokens :: "32 word"
  tp_cache_creation_input_tokens :: "32 word"

record 'w run_context =
  rx_config :: routine_config
  rx_workspace :: workspace
  rx_store :: memory_store
  rx_profile_env :: profile_env
  rx_today :: string
  rx_yesterday :: string
  rx_context_length :: "(llm_error, 32 word option) result"
  rx_complete :: "(completion_request, completion_response, 'w) llm"
  rx_complete_with_tools :: "(tool_completion_request, tool_completion_response, 'w) llm"
  rx_llm_error_text :: "llm_error \<Rightarrow> string"
  rx_tools :: tool_registry
  rx_extensions :: "(string \<times> string list) option"
  rx_coerce :: coerce_lib
  rx_safety_env :: safety_env
  rx_safety :: safety_layer
  rx_tool_error_text :: "tool_error \<Rightarrow> string"
  rx_json_text :: "json \<Rightarrow> string option"

text \<open>The temperature 0.3 as a single-precision number.\<close>

definition TEMPERATURE :: "32 word" where "TEMPERATURE = 0x3e99999a"

definition execute_routine_tool :: "'w run_context \<Rightarrow> string \<Rightarrow> string set \<Rightarrow> tool_call \<Rightarrow> (string, string) result" where
  "execute_routine_tool ctx user allowed tc =
     (if tc_name tc \<notin> allowed then Inl (autonomous_unavailable_message (tc_name tc) user)
      else
        (case registry_get (tc_name tc) (rx_tools ctx) of
           None \<Rightarrow> Inl (''Tool '' @ quoted (tc_name tc) @ '' not found'')
         | Some t \<Rightarrow>
             (let params = prepare_tool_params (rx_coerce ctx) t (tc_arguments tc);
                  validation = validate_tool_params (sl_validator (rx_safety ctx)) params
              in if \<not> vr_is_valid validation then Inl (''Invalid tool parameters: '' @ validation_details validation)
                 else
                   (case tl_execute t params of
                      TimedOut \<Rightarrow> Inl (rx_tool_error_text ctx (ToolTimeout (tl_execution_timeout t)))
                    | ToolFailed e \<Rightarrow> Inl (rx_tool_error_text ctx e)
                    | ToolDone result \<Rightarrow>
                        Inr (case rx_json_text ctx result of Some s \<Rightarrow> s | None \<Rightarrow> ''<serialize error>'')))))"

definition MAX_TOOL_OUTPUT_CHARS :: nat where "MAX_TOOL_OUTPUT_CHARS = 8192"

definition truncate_tool_output :: "string \<Rightarrow> string" where
  "truncate_tool_output s =
     (if length s > MAX_TOOL_OUTPUT_CHARS
      then take (boundary_before s MAX_TOOL_OUTPUT_CHARS) s @ [newline] @ ''... [output truncated to '' @
           show_nat MAX_TOOL_OUTPUT_CHARS @ '' chars]''
      else s)"

definition tool_result_message :: "'w run_context \<Rightarrow> string \<Rightarrow> string set \<Rightarrow> tool_call \<Rightarrow> chat_message" where
  "tool_result_message ctx user allowed tc =
     (let raw = (case execute_routine_tool ctx user allowed tc of
                   Inr output \<Rightarrow> output
                 | Inl e \<Rightarrow> ''Tool '' @ quoted (tc_name tc) @ '' failed: '' @ e);
          sanitized = sanitize_tool_output (rx_safety_env ctx) (rx_safety ctx) (tc_name tc) raw
      in msg_tool_result (tc_id tc) (tc_name tc) (truncate_tool_output (wrap_for_llm (tc_name tc) (so_content sanitized))))"

subsection \<open>Lightweight runs\<close>

definition first_messages :: "string \<Rightarrow> string \<Rightarrow> chat_message list" where
  "first_messages system_prompt full_prompt =
     (if system_prompt = [] then [msg_user full_prompt] else [msg_system system_prompt, msg_user full_prompt])"

definition plain_request :: "chat_message list \<Rightarrow> 32 word \<Rightarrow> completion_request" where
  "plain_request msgs max_tokens =
     (completion_request_new msgs)\<lparr>cr_max_tokens := Some max_tokens, cr_temperature := Some TEMPERATURE\<rparr>"

definition execute_lightweight_no_tools ::
  "'w run_context \<Rightarrow> string \<Rightarrow> string \<Rightarrow> 32 word \<Rightarrow> 'w \<Rightarrow> (routine_error, execution) result \<times> 'w"
where
  "execute_lightweight_no_tools ctx system_prompt full_prompt max_tokens w =
     (case rx_complete ctx (plain_request (first_messages system_prompt full_prompt) max_tokens) w of
        (Inl e, w') \<Rightarrow> (Inl (RoutineLlmFailed (rx_llm_error_text ctx e)), w')
      | (Inr r, w') \<Rightarrow>
          (handle_text_response (cs_content r) (cs_finish_reason r) (cs_input_tokens r) (cs_output_tokens r), w'))"

definition tool_request :: "'w run_context \<Rightarrow> string set \<Rightarrow> 32 word \<Rightarrow> chat_message list \<Rightarrow> tool_completion_request" where
  "tool_request ctx allowed max_tokens msgs =
     (tool_completion_request_new (snapshot_messages_for_tool_iteration msgs)
        (filter (\<lambda>d. td_name d \<in> allowed) (tool_definitions (rx_tools ctx))))
       \<lparr>tq_max_tokens := Some max_tokens, tq_temperature := Some TEMPERATURE\<rparr>"

text \<open>The loop; the number counts the iterations with tools that are left.\<close>

fun tool_loop ::
  "'w run_context \<Rightarrow> string \<Rightarrow> string set \<Rightarrow> 32 word \<Rightarrow> nat \<Rightarrow> chat_message list \<Rightarrow> 32 word \<Rightarrow> 32 word \<Rightarrow> 'w \<Rightarrow>
     (routine_error, execution) result \<times> 'w"
where
  "tool_loop ctx user allowed max_tokens 0 msgs tin tout w =
     (case rx_complete ctx (plain_request (ensure_ends_with_user_message msgs) max_tokens) w of
        (Inl e, w') \<Rightarrow> (Inl (RoutineLlmFailed (rx_llm_error_text ctx e)), w')
      | (Inr r, w') \<Rightarrow>
          (handle_text_response (cs_content r) (cs_finish_reason r) (tin + cs_input_tokens r) (tout + cs_output_tokens r), w'))"
| "tool_loop ctx user allowed max_tokens (Suc left) msgs tin tout w =
     (case rx_complete_with_tools ctx (tool_request ctx allowed max_tokens msgs) w of
        (Inl e, w') \<Rightarrow> (Inl (RoutineLlmFailed (rx_llm_error_text ctx e)), w')
      | (Inr r, w') \<Rightarrow>
          (let tin' = tin + tp_input_tokens r; tout' = tout + tp_output_tokens r
           in if tp_tool_calls r = []
              then (handle_text_response (case tp_content r of Some s \<Rightarrow> s | None \<Rightarrow> []) (tp_finish_reason r) tin' tout', w')
              else tool_loop ctx user allowed max_tokens left
                     (msgs @ [msg_assistant_with_tool_calls (tp_content r) (tp_tool_calls r)] @
                      map (tool_result_message ctx user allowed) (tp_tool_calls r)) tin' tout' w'))"

definition max_iterations_of :: "'w run_context \<Rightarrow> 32 word \<Rightarrow> nat" where
  "max_iterations_of ctx rounds = min (min (unat rounds) (rc_lightweight_max_iterations (rx_config ctx))) 5"

definition execute_lightweight_with_tools ::
  "'w run_context \<Rightarrow> routine \<Rightarrow> string \<Rightarrow> string \<Rightarrow> 32 word \<Rightarrow> 32 word \<Rightarrow> 'w \<Rightarrow> (routine_error, execution) result \<times> 'w"
where
  "execute_lightweight_with_tools ctx r system_prompt full_prompt max_tokens rounds w =
     tool_loop ctx (rt_user_id r) (autonomous_allowed_tool_names (rx_tools ctx) (rx_extensions ctx) (rt_user_id r)) max_tokens
       (max_iterations_of ctx rounds - 1) (first_messages system_prompt full_prompt) 0 0 w"

definition context_parts_of :: "'w run_context \<Rightarrow> string list \<Rightarrow> string list" where
  "context_parts_of ctx paths =
     List.map_filter (\<lambda>path. case ws_read (rx_workspace ctx) path (rx_store ctx) of
        Inr d \<Rightarrow> Some (''## '' @ path @ [newline, newline] @ md_content d) | Inl _ \<Rightarrow> None) paths"

definition effective_max_tokens :: "'w run_context \<Rightarrow> 32 word \<Rightarrow> 32 word" where
  "effective_max_tokens ctx max_tokens =
     (case rx_context_length ctx of
        Inr None \<Rightarrow> max max_tokens max_tokens
      | Inr (Some len) \<Rightarrow> max (len div 2) max_tokens
      | Inl _ \<Rightarrow> max_tokens)"

definition execute_lightweight ::
  "'w run_context \<Rightarrow> routine \<Rightarrow> string \<Rightarrow> string list \<Rightarrow> 32 word \<Rightarrow> bool \<Rightarrow> 32 word \<Rightarrow> 'w \<Rightarrow>
     (routine_error, execution) result \<times> 'w"
where
  "execute_lightweight ctx r prompt paths max_tokens use_tools rounds w =
     (let state_content = (case ws_read (rx_workspace ctx) (state_path (rt_name r)) (rx_store ctx) of
                             Inr d \<Rightarrow> Some (md_content d) | Inl _ \<Rightarrow> None);
          full_prompt = build_lightweight_prompt prompt (context_parts_of ctx paths) state_content (rt_notify r) use_tools;
          system_prompt = snd (system_prompt_for_context_inner (rx_profile_env ctx) (rx_workspace ctx) False (rx_today ctx)
                                 (rx_yesterday ctx) (rx_store ctx));
          tokens = effective_max_tokens ctx max_tokens
      in if use_tools \<and> rc_lightweight_tools_enabled (rx_config ctx)
         then execute_lightweight_with_tools ctx r system_prompt full_prompt tokens rounds w
         else execute_lightweight_no_tools ctx system_prompt full_prompt tokens w)"

subsection \<open>Actions\<close>

definition execute_action ::
  "'w run_context \<Rightarrow> (uuid \<Rightarrow> string) \<Rightarrow> sandbox_readiness \<Rightarrow> (dispatched_job \<Rightarrow> (string, uuid) result) option \<Rightarrow>
     (uuid \<Rightarrow> string option) \<Rightarrow> (uuid \<Rightarrow> nat \<Rightarrow> (string, job_state option) result) \<Rightarrow>
     routine \<Rightarrow> routine_run \<Rightarrow> 'w \<Rightarrow> routine_db \<Rightarrow> (routine_error, execution) result \<times> 'w \<times> routine_db"
where
  "execute_action ctx uuid_text ready scheduler link_fails answer r run w db =
     (case rt_action r of
        Lightweight prompt paths max_tokens use_tools rounds \<Rightarrow>
          (case execute_lightweight ctx r prompt paths max_tokens use_tools rounds w of (res, w') \<Rightarrow> (res, w', db))
      | FullJob title description max_iterations \<Rightarrow>
          (case execute_full_job uuid_text ready scheduler link_fails answer r run title description max_iterations db of
             (res, db') \<Rightarrow> (res, w, db')))"

subsection \<open>Auxiliary definitions\<close>

text \<open>A registry in which every tool is replaced by what \<open>g\<close> makes of it.\<close>

definition retool :: "(string \<Rightarrow> tool \<Rightarrow> tool) \<Rightarrow> tool_registry \<Rightarrow> tool_registry" where
  "retool g r = r\<lparr>tg_tools := map (\<lambda>(n, t). (n, g n t)) (tg_tools r)\<rparr>"

definition ends_with_user :: "chat_message list \<Rightarrow> bool" where
  "ends_with_user msgs = (msgs \<noteq> [] \<and> cm_role (last msgs) = User)"

section \<open>Lemmas\<close>

lemma ensure_ends_with_user: "ends_with_user (ensure_ends_with_user_message msgs)"
  by (simp add: ends_with_user_def ensure_ends_with_user_message_def msg_user_def)

lemma first_messages_end_with_user: "ends_with_user (first_messages sys prompt)"
  by (simp add: ends_with_user_def first_messages_def msg_user_def)

lemma map_of_keyed: "map_of (map (\<lambda>(n, t). (n, g n t)) xs) k = map_option (g k) (map_of xs k)"
  by (induction xs) auto

lemma registry_get_retool: "registry_get n (retool g r) = map_option (g n) (registry_get n r)"
  by (simp add: registry_get_def retool_def hm_get_def map_of_keyed)

lemma builtin_names_retool [simp]: "builtin_tool_names (retool g r) = builtin_tool_names r"
  by (simp add: builtin_tool_names_def retool_def)

lemma allowed_names_retool [simp]:
  "autonomous_allowed_tool_names (retool g r) em owner = autonomous_allowed_tool_names r em owner"
  by (simp add: autonomous_allowed_tool_names_def)

lemma tool_definitions_retool:
  assumes "\<And>n t. tool_definition_of (g n t) = tool_definition_of t"
  shows "tool_definitions (retool g r) = tool_definitions r"
  by (simp add: tool_definitions_def retool_def assms case_prod_unfold comp_def)

lemma tool_result_llm [simp]:
  "tool_result_message (ctx\<lparr>rx_complete := c\<rparr>) = tool_result_message ctx"
  by (intro ext) (simp add: tool_result_message_def execute_routine_tool_def
        cong: option.case_cong sum.case_cong tool_outcome.case_cong if_cong)

lemma tool_request_llm [simp]: "tool_request (ctx\<lparr>rx_complete := c\<rparr>) = tool_request ctx"
  by (intro ext) (simp add: tool_request_def)

lemma tool_loop_requests:
  assumes "\<And>q w. ends_with_user (cr_messages q) \<Longrightarrow> c q w = rx_complete ctx q w"
  shows "tool_loop (ctx\<lparr>rx_complete := c\<rparr>) user allowed mt n msgs tin tout w = tool_loop ctx user allowed mt n msgs tin tout w"
proof (induction n arbitrary: msgs tin tout w)
  case 0
  have "c (plain_request (ensure_ends_with_user_message msgs) mt) w =
    rx_complete ctx (plain_request (ensure_ends_with_user_message msgs) mt) w"
    by (rule assms) (simp add: plain_request_def completion_request_new_def ensure_ends_with_user)
  then show ?case by (simp cong: prod.case_cong sum.case_cong)
next
  case (Suc n)
  then show ?case by (simp add: Let_def cong: prod.case_cong sum.case_cong if_cong)
qed

lemma tool_result_retool:
  assumes "\<And>n t. n \<in> allowed \<Longrightarrow> tl_discovery_schema (g n t) = tl_discovery_schema t \<and> tl_execute (g n t) = tl_execute t \<and>
             tl_execution_timeout (g n t) = tl_execution_timeout t"
  shows "tool_result_message (ctx\<lparr>rx_tools := retool g (rx_tools ctx)\<rparr>) user allowed tc = tool_result_message ctx user allowed tc"
proof -
  have "execute_routine_tool (ctx\<lparr>rx_tools := retool g (rx_tools ctx)\<rparr>) user allowed tc = execute_routine_tool ctx user allowed tc"
    using assms[of "tc_name tc"]
    by (simp add: execute_routine_tool_def registry_get_retool prepare_tool_params_def Let_def
          cong: tool_outcome.case_cong if_cong split: option.splits)
  then show ?thesis by (simp add: tool_result_message_def)
qed

lemma tool_loop_retool:
  assumes defs: "\<And>n t. tool_definition_of (g n t) = tool_definition_of t"
    and same: "\<And>n t. n \<in> allowed \<Longrightarrow> tl_discovery_schema (g n t) = tl_discovery_schema t \<and> tl_execute (g n t) = tl_execute t \<and>
             tl_execution_timeout (g n t) = tl_execution_timeout t"
  shows "tool_loop (ctx\<lparr>rx_tools := retool g (rx_tools ctx)\<rparr>) user allowed mt n msgs tin tout w =
    tool_loop ctx user allowed mt n msgs tin tout w"
proof -
  have q: "tool_request (ctx\<lparr>rx_tools := retool g (rx_tools ctx)\<rparr>) allowed mt = tool_request ctx allowed mt"
    by (intro ext) (simp add: tool_request_def tool_definitions_retool[OF defs])
  have res: "tool_result_message (ctx\<lparr>rx_tools := retool g (rx_tools ctx)\<rparr>) user allowed = tool_result_message ctx user allowed"
    by (intro ext tool_result_retool same)
  show ?thesis
    by (induction n arbitrary: msgs tin tout w) (simp_all add: q res Let_def split: prod.splits sum.splits)
qed

lemma execute_lightweight_retool:
  assumes "\<And>n t. tool_definition_of (g n t) = tool_definition_of t"
    and "\<And>n t. \<not> is_autonomous_tool_denylisted n \<Longrightarrow> tl_discovery_schema (g n t) = tl_discovery_schema t \<and>
          tl_execute (g n t) = tl_execute t \<and> tl_execution_timeout (g n t) = tl_execution_timeout t"
  shows "execute_lightweight (ctx\<lparr>rx_tools := retool g (rx_tools ctx)\<rparr>) r = execute_lightweight ctx r"
proof (intro ext)
  fix prompt paths mt use_tools rounds w
  let ?allowed = "autonomous_allowed_tool_names (rx_tools ctx) (rx_extensions ctx) (rt_user_id r)"
  have "\<And>n. n \<in> ?allowed \<Longrightarrow> \<not> is_autonomous_tool_denylisted n"
    by (auto simp: autonomous_allowed_tool_names_def Let_def split: option.splits if_splits)
  then show "execute_lightweight (ctx\<lparr>rx_tools := retool g (rx_tools ctx)\<rparr>) r prompt paths mt use_tools rounds w =
      execute_lightweight ctx r prompt paths mt use_tools rounds w"
    using tool_loop_retool[of g ?allowed ctx] assms
    by (simp add: execute_lightweight_def Let_def context_parts_of_def effective_max_tokens_def execute_lightweight_no_tools_def
          execute_lightweight_with_tools_def max_iterations_of_def cong: prod.case_cong sum.case_cong)
qed

lemma tool_loop_calls:
  assumes plain: "\<And>q w. calls (snd (rx_complete ctx q w)) \<le> Suc (calls w)"
    and tools: "\<And>q w. calls (snd (rx_complete_with_tools ctx q w)) \<le> Suc (calls w)"
  shows "calls (snd (tool_loop ctx user allowed mt n msgs tin tout w)) \<le> calls w + Suc n"
proof (induction n arbitrary: msgs tin tout w)
  case 0
  show ?case using plain[of "plain_request (ensure_ends_with_user_message msgs) mt" w]
    by (auto split: prod.splits sum.splits)
next
  case (Suc n)
  obtain x w' where q: "rx_complete_with_tools ctx (tool_request ctx allowed mt msgs) w = (x, w')" by force
  have w': "calls w' \<le> Suc (calls w)" using tools[of "tool_request ctx allowed mt msgs" w] q by simp
  have "calls (snd (tool_loop ctx user allowed mt n m' i o' w')) \<le> calls w + Suc (Suc n)" for m' i o'
    using Suc[of m' i o' w'] w' by simp
  then show ?case using w' by (simp add: q Let_def split: sum.splits)
qed

lemma handled_not_running: "handle_text_response s f i o' = Inr (st, sm, tk) \<Longrightarrow> st \<noteq> RunRunning"
  by (auto simp: handle_text_response_def Let_def split: if_splits)

lemma tool_loop_not_running:
  "fst (tool_loop ctx user allowed mt n msgs tin tout w) = Inr (st, sm, tk) \<Longrightarrow> st \<noteq> RunRunning"
proof (induction n arbitrary: msgs tin tout w)
  case 0
  then show ?case by (auto split: prod.splits sum.splits dest: handled_not_running)
next
  case (Suc n)
  then show ?case
    by (auto simp: Let_def split: prod.splits sum.splits if_splits option.splits dest: handled_not_running)
qed

lemma execute_lightweight_not_running:
  "fst (execute_lightweight ctx r prompt paths mt use_tools rounds w) = Inr (st, sm, tk) \<Longrightarrow> st \<noteq> RunRunning"
  by (auto simp: execute_lightweight_def execute_lightweight_with_tools_def execute_lightweight_no_tools_def Let_def
        split: prod.splits sum.splits if_splits dest: tool_loop_not_running handled_not_running)

lemma watch_not_running: "fst (watch_job answer n) \<noteq> RunRunning"
  by (induction answer n rule: watch_job.induct)
     (subst watch_job.simps, auto simp: map_job_state_def split: sum.splits option.splits)

lemma ends_with_last: "ends_with suf s \<Longrightarrow> suf \<noteq> [] \<Longrightarrow> s \<noteq> [] \<and> last s = last suf"
  by (auto simp: ends_with_def suffix_def)

section \<open>Properties\<close>

text \<open>
  C40. A lightweight run answers after at most five calls of the model, whatever the routine, the configuration and the
  answers are: no measure of the state that a call raises by at most one is raised by more than five.
\<close>

theorem lightweight_calls_bounded:
  assumes "\<And>q w. calls (snd (rx_complete ctx q w)) \<le> Suc (calls w)"
    and "\<And>q w. calls (snd (rx_complete_with_tools ctx q w)) \<le> Suc (calls w)"
  shows "calls (snd (execute_lightweight ctx r prompt paths max_tokens use_tools rounds w)) \<le> calls w + 5"
proof (cases "use_tools \<and> rc_lightweight_tools_enabled (rx_config ctx)")
  case True
  have "max_iterations_of ctx rounds - 1 \<le> 4" by (simp add: max_iterations_of_def)
  then show ?thesis
    using True unfolding execute_lightweight_def execute_lightweight_with_tools_def Let_def
    by (simp, intro order.trans[OF tool_loop_calls[of calls ctx, OF assms]]) simp
next
  case False
  have "calls (snd (execute_lightweight_no_tools ctx sys p t w)) \<le> calls w + 5" for sys p t
    using assms(1)[of "plain_request (first_messages sys p) t" w]
    by (auto simp: execute_lightweight_no_tools_def split: prod.splits sum.splits)
  then show ?thesis using False by (auto simp: execute_lightweight_def Let_def)
qed

text \<open>
  C36. A tool that is denied to autonomous runs is never executed by a lightweight run: with any other behaviour of these
  tools the run is the same, the requests to the model and the answer included.
\<close>

theorem denied_tools_never_run:
  "execute_lightweight
     (ctx\<lparr>rx_tools := retool (\<lambda>n t. if is_autonomous_tool_denylisted n then t\<lparr>tl_execute := f n\<rparr> else t) (rx_tools ctx)\<rparr>) r =
   execute_lightweight ctx r"
  by (rule execute_lightweight_retool) (auto simp: tool_definition_of_def Let_def)

text \<open>
  Approval has no part in a lightweight run: whatever approval the tools ask for, the same calls run. The comments
  say that tools requiring approval are filtered out, and that only tools that do not always need it are approved.
\<close>

theorem approval_ignored_in_routines:
  "execute_lightweight (ctx\<lparr>rx_tools := retool (\<lambda>n t. t\<lparr>tl_requires_approval := f n\<rparr>) (rx_tools ctx)\<rparr>) r = execute_lightweight ctx r"
  by (rule execute_lightweight_retool) (auto simp: tool_definition_of_def Let_def)

text \<open>
  Every request without tools ends with a message of the user: what the model would answer to other requests does
  not matter.
\<close>

theorem plain_requests_end_with_user:
  assumes "\<And>q w. ends_with_user (cr_messages q) \<Longrightarrow> c q w = rx_complete ctx q w"
  shows "execute_lightweight (ctx\<lparr>rx_complete := c\<rparr>) r = execute_lightweight ctx r"
proof (intro ext)
  fix prompt paths mt use_tools rounds w
  have "c (plain_request (first_messages sys p) t) v = rx_complete ctx (plain_request (first_messages sys p) t) v" for sys p t v
    by (rule assms) (simp add: plain_request_def completion_request_new_def first_messages_end_with_user)
  then show "execute_lightweight (ctx\<lparr>rx_complete := c\<rparr>) r prompt paths mt use_tools rounds w =
      execute_lightweight ctx r prompt paths mt use_tools rounds w"
    by (simp add: execute_lightweight_def Let_def context_parts_of_def effective_max_tokens_def execute_lightweight_no_tools_def
          execute_lightweight_with_tools_def max_iterations_of_def tool_loop_requests[OF assms] cong: prod.case_cong sum.case_cong)
qed

text \<open>
  A run that ends without an error ends: its status is one of the final ones, for lightweight runs and for jobs.
\<close>

theorem action_never_leaves_running:
  assumes "fst (execute_action ctx uuid_text ready scheduler link_fails answer r run w db) = Inr (st, sm, tk)"
  shows "st \<noteq> RunRunning"
  using assms watch_not_running
  by (auto simp: execute_action_def execute_full_job_def wait_for_completion_def Let_def
        split: routine_action.splits prod.splits if_splits option.splits sum.splits
        dest!: arg_cong[of "execute_lightweight _ _ _ _ _ _ _ _" _ fst] dest: execute_lightweight_not_running)

text \<open>
  A request with tools carries at most 32 messages: the system message, where there is one, and the latest others in
  their order.
\<close>

theorem snapshot_bounded:
  "length (snapshot_messages_for_tool_iteration msgs) \<le> 32 \<and>
   (\<exists>k. snapshot_messages_for_tool_iteration msgs = drop k msgs \<or>
      msgs \<noteq> [] \<and> cm_role (hd msgs) = System \<and> snapshot_messages_for_tool_iteration msgs = hd msgs # drop k msgs) \<and>
   (length msgs \<ge> 32 \<longrightarrow> length (snapshot_messages_for_tool_iteration msgs) = 32)"
  by (cases msgs) (auto simp: snapshot_messages_for_tool_iteration_def MAX_TOOL_LOOP_MESSAGES_def intro: exI[of _ 0])

text \<open>
  After 31 messages of tools the prompt of the routine itself is no longer sent: of the two messages that a run
  begins with only the system message stays.
\<close>

theorem snapshot_drops_prompt:
  assumes "system_prompt \<noteq> []" and "31 \<le> length rest"
  shows "snapshot_messages_for_tool_iteration (first_messages system_prompt full_prompt @ rest) =
    msg_system system_prompt # drop (length rest - 31) rest"
  using assms by (simp add: snapshot_messages_for_tool_iteration_def first_messages_def MAX_TOOL_LOOP_MESSAGES_def msg_system_def
      drop_Cons' numeral_eq_Suc)

text \<open>
  The output of a tool that is too long loses the tag that closes it: the wrapper is cut, and the text of the model's
  message ends inside the output. The message stays under 8240 bytes.
\<close>

theorem long_output_not_closed:
  assumes "MAX_TOOL_OUTPUT_CHARS < length (wrap_for_llm name content)"
  shows "\<not> ends_with ''</tool_output>'' (truncate_tool_output (wrap_for_llm name content)) \<and>
    length (truncate_tool_output (wrap_for_llm name content)) < 8240"
proof -
  have "length (show_nat MAX_TOOL_OUTPUT_CHARS) = 4" by (simp add: MAX_TOOL_OUTPUT_CHARS_def show_nat.simps)
  then show ?thesis
    using assms boundary_before_le[of "wrap_for_llm name content" MAX_TOOL_OUTPUT_CHARS]
    by (auto simp: truncate_tool_output_def MAX_TOOL_OUTPUT_CHARS_def dest: ends_with_last)
qed

text \<open>
  The tokens asked for are never fewer than the routine says, and with a known model at least half of its context:
  the setting is a lower bound.
\<close>

theorem max_tokens_is_minimum:
  "max_tokens \<le> effective_max_tokens ctx max_tokens \<and>
   (\<forall>len. rx_context_length ctx = Inr (Some len) \<longrightarrow> len div 2 \<le> effective_max_tokens ctx max_tokens)"
  by (auto simp: effective_max_tokens_def split: sum.splits option.splits)

text \<open>
  The state of a routine is read below \<open>routines/\<close>, one directory down: the name adds no separator and no dot.
\<close>

theorem state_path_confined:
  "\<exists>n. state_path name = ''routines/'' @ n @ ''/state.md'' \<and>
     list_all (\<lambda>c. is_ascii_alnum c \<or> c = CHR ''-'' \<or> c = CHR ''_'') n"
  by (rule exI[of _ "sanitize_routine_name name"]) (auto simp: state_path_def sanitize_routine_name_def list_all_iff)

text \<open>
  What is put between the backquotes of the delivery notes has no line break and no backquote, and at most 128
  characters are taken.
\<close>

theorem prompt_field_stays_quoted:
  "newline \<notin> set (sanitize_prompt_field v) \<and> CHR 0x0D \<notin> set (sanitize_prompt_field v) \<and>
   CHR 0x60 \<notin> set (sanitize_prompt_field v)"
proof -
  let ?f = "filter (\<lambda>c. c \<noteq> newline \<and> c \<noteq> CHR 0x0D) v"
  have "set (concat (take 128 (str_chars ?f))) \<subseteq> set ?f" by (rule set_take_chars)
  then show ?thesis by (auto simp: sanitize_prompt_field_def)
qed

section \<open>Witnesses\<close>

text \<open>A model that never answers and counts its calls, and one that always says that nothing needs attention.\<close>

definition sample_run_context :: "nat run_context" where
  "sample_run_context =
     \<lparr>rx_config = \<lparr>rc_enabled = True, rc_cron_check_interval_secs = 15, rc_max_concurrent_routines = 10,
        rc_default_cooldown_secs = 300, rc_max_lightweight_tokens = 4096, rc_lightweight_tools_enabled = True,
        rc_lightweight_max_iterations = 3\<rparr>,
      rx_workspace = workspace_new ''ann'', rx_store = empty_store, rx_profile_env = sample_profile_env,
      rx_today = ''2026-01-02'', rx_yesterday = ''2026-01-01'', rx_context_length = Inr (Some 8000),
      rx_complete = (\<lambda>q w. (Inl (RequestFailed [] []), Suc w)), rx_complete_with_tools = (\<lambda>q w. (Inl (RequestFailed [] []), Suc w)),
      rx_llm_error_text = (\<lambda>_. []), rx_tools = tool_registry_new, rx_extensions = None,
      rx_coerce = \<lparr>cl_from_str = \<lambda>_. None, cl_parse_f64 = \<lambda>_. None\<rparr>,
      rx_safety_env = sample_safety_env, rx_safety = sample_safety_layer, rx_tool_error_text = (\<lambda>_. []), rx_json_text = (\<lambda>_. Some [])\<rparr>"

definition quiet_run_context :: "nat run_context" where
  "quiet_run_context = sample_run_context\<lparr>rx_complete := (\<lambda>q w.
     (Inr \<lparr>cs_content = ''ROUTINE_OK'', cs_input_tokens = 3, cs_output_tokens = 2, cs_finish_reason = Stop,
           cs_cache_read_input_tokens = 0, cs_cache_creation_input_tokens = 0\<rparr>, Suc w))\<rparr>"

theorem lightweight_calls_bounded_witness:
  "snd (execute_lightweight sample_run_context sample_routine ''check'' [] 100 True 20 0) \<le> 5"
  using lightweight_calls_bounded[of "\<lambda>w. w" sample_run_context sample_routine "''check''" "[]" 100 True 20 0]
  by (simp add: sample_run_context_def)

theorem plain_requests_end_with_user_witness:
  "execute_lightweight (quiet_run_context\<lparr>rx_complete := (\<lambda>q w.
       if ends_with_user (cr_messages q) then rx_complete quiet_run_context q w else (Inl (RequestFailed [] []), w))\<rparr>) sample_routine =
   execute_lightweight quiet_run_context sample_routine"
  by (rule plain_requests_end_with_user) simp

theorem action_never_leaves_running_witness:
  "\<exists>st sm tk. fst (execute_action quiet_run_context (\<lambda>_. []) SandboxAvailable None (\<lambda>_. None) (\<lambda>_ _. Inr None)
      (sample_routine\<lparr>rt_action := Lightweight ''check'' [] 100 False 3\<rparr>) (new_run Routine_Engine.sample_env sample_routine ''manual'' None (sample_engine [])) 0
      \<lparr>rb_routines = [], rb_runs = []\<rparr>) = Inr (st, sm, tk) \<and> st \<noteq> RunRunning"
proof -
  have "fst (execute_action quiet_run_context (\<lambda>_. []) SandboxAvailable None (\<lambda>_. None) (\<lambda>_ _. Inr None)
      (sample_routine\<lparr>rt_action := Lightweight ''check'' [] 100 False 3\<rparr>)
      (new_run Routine_Engine.sample_env sample_routine ''manual'' None (sample_engine [])) 0
      \<lparr>rb_routines = [], rb_runs = []\<rparr>) = Inr (RunOk, None, Some 5)"
    by (simp add: execute_action_def execute_lightweight_def Let_def execute_lightweight_no_tools_def quiet_run_context_def)
       (simp add: handle_text_response_def trim_def is_ascii_ws_def ascii_code_def Let_def)
  then show ?thesis using action_never_leaves_running by blast
qed

theorem snapshot_bounded_witness:
  "length (snapshot_messages_for_tool_iteration (replicate 40 (msg_user ''a''))) = 32"
  using snapshot_bounded[of "replicate 40 (msg_user ''a'')"] by simp

theorem snapshot_drops_prompt_witness:
  "snapshot_messages_for_tool_iteration (first_messages ''s'' ''p'' @ replicate 31 (msg_user ''a'')) =
     msg_system ''s'' # replicate 31 (msg_user ''a'')"
  using snapshot_drops_prompt[of "''s''" "replicate 31 (msg_user ''a'')" "''p''"] by simp

lemma escape_plain: "escape_tool_output_close (replicate n CHR ''a'') = replicate n CHR ''a''"
  by (induction n) (simp_all add: escape_Cons)

theorem long_output_not_closed_witness:
  "\<not> ends_with ''</tool_output>'' (truncate_tool_output (wrap_for_llm ''http'' (replicate 9000 CHR ''a'')))"
proof -
  have "MAX_TOOL_OUTPUT_CHARS < length (wrap_for_llm ''http'' (replicate 9000 CHR ''a''))"
    by (simp add: wrap_for_llm_def escape_plain MAX_TOOL_OUTPUT_CHARS_def)
  then show ?thesis using long_output_not_closed by blast
qed

theorem max_tokens_is_minimum_witness:
  "100 \<le> effective_max_tokens sample_run_context 100 \<and> 4000 \<le> effective_max_tokens sample_run_context 100"
  using max_tokens_is_minimum[of 100 sample_run_context] by (simp add: sample_run_context_def)

end
