(* ===== verification/Webhook_Trigger.thy ===== *)
theory Webhook_Trigger
  imports Routine_Engine
begin

text \<open>
  The public endpoint of webhook routines, \<open>src/channels/web/handlers/webhooks.rs\<close>: the look-up by path, the check of
  the secret and the start through the engine. The rate limiter and the texts of errors are parameters; a response is
  a status code with a message, or the triggered run.
\<close>

section \<open>Model\<close>

type_synonym http_error = "nat \<times> string"

definition no_secret_message :: string where
  "no_secret_message =
     ''Webhook secret not configured for this routine. '' @
     ''Set a secret with: ironclaw routine update <id> --webhook-secret <secret>''"

definition validate_webhook_secret :: "trigger \<Rightarrow> string \<Rightarrow> (http_error, unit) result" where
  "validate_webhook_secret trig provided =
     (case trig of
        Webhook path (Some expected) \<Rightarrow>
          if provided = expected then Inr () else Inl (401, ''Invalid webhook secret'')
      | _ \<Rightarrow> Inl (403, no_secret_message))"

record gateway_state =
  gs_multi_tenant :: bool
  gs_rate_ok :: bool
  gs_has_store :: bool
  gs_has_engine :: bool

definition fire_status :: "routine_error \<Rightarrow> nat" where
  "fire_status err =
     (case err of
        RoutineNotFound _ \<Rightarrow> 404
      | RoutineDisabled _ \<Rightarrow> 409 | RoutineCooldown _ \<Rightarrow> 409 | RoutineMaxConcurrent _ \<Rightarrow> 409
      | _ \<Rightarrow> 500)"

definition webhook_lookup :: "engine_env \<Rightarrow> string \<Rightarrow> string option \<Rightarrow> routine_engine \<Rightarrow> (store_error, routine option) result" where
  "webhook_lookup env path user e =
     get_webhook_routine_by_path (en_show_num env) (en_valid_tz env) (en_text_of env) (en_uuid_text env) path user (re_db e)"

definition fire_webhook_inner ::
  "engine_env \<Rightarrow> gateway_state \<Rightarrow> string \<Rightarrow> string option \<Rightarrow> string option \<Rightarrow> routine_engine \<Rightarrow>
     (http_error, routine \<times> uuid) result \<times> routine_engine"
where
  "fire_webhook_inner env g path user header e =
     (if \<not> gs_rate_ok g then (Inl (429, ''Rate limit exceeded. Try again shortly.''), e)
      else if \<not> gs_has_store g then (Inl (503, ''Database not available''), e)
      else
        (case webhook_lookup env path user e of
           Inl err \<Rightarrow> (Inl (500, en_store_error_text env err), e)
         | Inr None \<Rightarrow> (Inl (404, ''No routine matches this webhook path''), e)
         | Inr (Some r) \<Rightarrow>
             (case validate_webhook_secret (rt_trigger r) (case header of Some h \<Rightarrow> h | None \<Rightarrow> []) of
                Inl err \<Rightarrow> (Inl err, e)
              | Inr _ \<Rightarrow>
                  if \<not> gs_has_engine g then (Inl (503, ''Routine engine not available''), e)
                  else (case fire_webhook env (rt_id r) path e of
                          (Inl err, e') \<Rightarrow> (Inl (fire_status err, en_error_text env err), e')
                        | (Inr run, e') \<Rightarrow> (Inr (r, run), e')))))"

definition webhook_trigger_handler where
  "webhook_trigger_handler env g path header e =
     (if gs_multi_tenant g
      then (Inl (410, ''Unscoped webhooks disabled in multi-tenant mode. Use /api/webhooks/u/{user_id}/{path} instead.''), e)
      else fire_webhook_inner env g path None header e)"

definition webhook_trigger_user_scoped_handler where
  "webhook_trigger_user_scoped_handler env g user path header e = fire_webhook_inner env g path (Some user) header e"

section \<open>Lemmas\<close>

lemma validate_ok: "validate_webhook_secret trig s = Inr () \<longleftrightarrow> (\<exists>path. trig = Webhook path (Some s))"
  by (auto simp: validate_webhook_secret_def split: trigger.splits option.splits)

lemma read_opt_Some:
  assumes "read_opt show_num valid_tz (query_opt P rows) = Inr (Some r)"
  obtains row where "row \<in> set rows" "P row" "row_to_routine show_num valid_tz row = Inr r"
proof -
  obtain row where q: "query_opt P rows = Inr (Some row)" "row_to_routine show_num valid_tz row = Inr r"
    using assms by (auto simp: read_opt_def split: sum.splits option.splits)
  then have "filter P rows = [row]" by (auto simp: query_opt_def split: list.splits)
  then have "row \<in> set (filter P rows)" by simp
  with q show thesis by (intro that[of row]) auto
qed

lemma row_to_routine_fields:
  "row_to_routine show_num valid_tz row = Inr r \<Longrightarrow> rt_user_id r = ro_user_id row \<and> rt_enabled r = ro_enabled row \<and> rt_id r = ro_id row"
  by (auto simp: row_to_routine_def split: sum.splits)

text \<open>
  A request to a user's webhook endpoint starts a run only of an enabled routine of that user with a webhook
  trigger, and only with the secret of that routine in its header; every other request changes nothing.
\<close>

theorem webhook_needs_secret:
  assumes "webhook_trigger_user_scoped_handler env g user path header e = (Inr (r, run), e')"
  shows "rt_user_id r = user \<and> rt_enabled r \<and> (\<exists>p s. rt_trigger r = Webhook p (Some s) \<and> (case header of Some h \<Rightarrow> h | None \<Rightarrow> []) = s)"
proof -
  have look: "webhook_lookup env path (Some user) e = Inr (Some r)"
    and val: "validate_webhook_secret (rt_trigger r) (case header of Some h \<Rightarrow> h | None \<Rightarrow> []) = Inr ()"
    using assms by (auto simp: webhook_trigger_user_scoped_handler_def fire_webhook_inner_def
        split: if_splits sum.splits option.splits prod.splits)
  obtain row where "row \<in> set (rb_routines (re_db e))" "webhook_row (en_text_of env) (en_uuid_text env) path (Some user) row"
      "row_to_routine (en_show_num env) (en_valid_tz env) row = Inr r"
    using read_opt_Some look unfolding webhook_lookup_def get_webhook_routine_by_path_def by metis
  then show ?thesis using row_to_routine_fields val by (auto simp: webhook_row_def validate_ok)
qed

text \<open>A request that is refused leaves the tasks and the tables of the engine as they were.\<close>

theorem refused_webhook_changes_nothing:
  assumes "fire_webhook_inner env g path user header e = (Inl err, e')"
  shows "re_tasks e' = re_tasks e \<and> re_db e' = re_db e"
proof -
  have "re_tasks e'' = re_tasks e \<and> re_db e'' = re_db e" if "fire_webhook env i path e = (Inl x, e'')" for i x e''
    using that by (cases rule: fire_webhook_cases[of env i path e]) auto
  then show ?thesis using assms
    by (auto simp: fire_webhook_inner_def split: if_splits sum.splits option.splits prod.splits)
qed

text \<open>
  A routine whose secret is the empty text is as good as public: a request without the header is handed to the
  engine.
\<close>

theorem empty_secret_is_public:
  assumes "webhook_lookup env path user e = Inr (Some r)" "rt_trigger r = Webhook p (Some [])"
    and "gs_rate_ok g" "gs_has_store g" "gs_has_engine g"
  shows "snd (fire_webhook_inner env g path user None e) = snd (fire_webhook env (rt_id r) path e)"
  using assms by (auto simp: fire_webhook_inner_def validate_webhook_secret_def split: prod.splits sum.splits)

section \<open>Witnesses\<close>

definition open_gateway :: gateway_state where
  "open_gateway = \<lparr>gs_multi_tenant = True, gs_rate_ok = True, gs_has_store = True, gs_has_engine = True\<rparr>"

lemma hook_found:
  assumes "rt_trigger r = Webhook (Some ''hook'') sec" "row_to_routine (\<lambda>_. []) (\<lambda>_. True) (new_row r) = Inr r" "rt_enabled r"
  shows "webhook_lookup sample_env ''hook'' (Some (rt_user_id r)) (sample_engine [r]) = Inr (Some r)"
  using assms
  by (simp add: webhook_lookup_def get_webhook_routine_by_path_def sample_env_def query_opt_def webhook_row_def new_row_def[of r]
      into_row_def json_text_def json_get_def json_opt_def read_opt_def flip: new_row_def)

theorem webhook_needs_secret_witness:
  "\<exists>run e'. webhook_trigger_user_scoped_handler sample_env open_gateway ''ann'' ''hook'' (Some ''s'') (sample_engine [hook_routine])
      = (Inr (hook_routine, run), e') \<and> rt_user_id hook_routine = ''ann'' \<and> rt_enabled hook_routine"
proof -
  have trig: "rt_trigger hook_routine = Webhook (Some ''hook'') (Some ''s'')" by (simp add: hook_routine_def sample_routine_def)
  have look: "webhook_lookup sample_env ''hook'' (Some ''ann'') (sample_engine [hook_routine]) = Inr (Some hook_routine)"
    using hook_found[OF trig hook_row] hook_id by simp
  obtain run e' where "fire_webhook sample_env 1 ''hook'' (sample_engine [hook_routine]) = (Inr run, e')"
    using webhook_starts by blast
  then have "webhook_trigger_user_scoped_handler sample_env open_gateway ''ann'' ''hook'' (Some ''s'') (sample_engine [hook_routine])
      = (Inr (hook_routine, run), e')"
    by (simp add: webhook_trigger_user_scoped_handler_def fire_webhook_inner_def open_gateway_def look trig validate_webhook_secret_def hook_id)
  with webhook_needs_secret[OF this] show ?thesis by blast
qed

theorem refused_webhook_changes_nothing_witness:
  "\<exists>e'. fire_webhook_inner sample_env open_gateway ''none'' None None (sample_engine []) = (Inl (404, ''No routine matches this webhook path''), e') \<and>
    re_tasks e' = [] \<and> re_db e' = re_db (sample_engine [])"
proof -
  let ?r = "fire_webhook_inner sample_env open_gateway ''none'' None None (sample_engine [])"
  have "fst ?r = Inl (404, ''No routine matches this webhook path'')"
    by (simp add: fire_webhook_inner_def open_gateway_def webhook_lookup_def get_webhook_routine_by_path_def query_opt_def read_opt_def)
  then obtain e' where e': "?r = (Inl (404, ''No routine matches this webhook path''), e')" by (metis prod.collapse)
  with refused_webhook_changes_nothing[OF e'] show ?thesis by auto
qed

theorem empty_secret_is_public_witness:
  "snd (fire_webhook_inner sample_env open_gateway ''hook'' (Some ''ann'') None
      (sample_engine [hook_routine\<lparr>rt_trigger := Webhook (Some ''hook'') (Some [])\<rparr>])) =
   snd (fire_webhook sample_env 1 ''hook'' (sample_engine [hook_routine\<lparr>rt_trigger := Webhook (Some ''hook'') (Some [])\<rparr>]))"
proof -
  let ?r = "hook_routine\<lparr>rt_trigger := Webhook (Some ''hook'') (Some [])\<rparr>"
  have "stored_guardrails (rt_guardrails ?r)"
    by (auto simp: stored_guardrails_def hook_routine_def sample_routine_def intro!: exI[of _ 300])
  from routine_from_to[OF this] have "row_to_routine (\<lambda>_. []) (\<lambda>_. True) (new_row ?r) = Inr ?r"
    by (simp add: hook_routine_def sample_routine_def with_valid_timezone_def with_clamped_rounds_def)
  then have "webhook_lookup sample_env ''hook'' (Some ''ann'') (sample_engine [?r]) = Inr (Some ?r)"
    using hook_found[of ?r "Some []"] by (simp add: hook_id)
  from empty_secret_is_public[OF this] show ?thesis by (simp add: open_gateway_def hook_id)
qed

end
