(* ===== verification/Pairing_Store.thy ===== *)
theory Pairing_Store
  imports String_Edit Json Retry "HOL-Library.List_Lexorder" "HOL-Library.Char_ord"
begin

text \<open>
  Pairing of unknown senders, \<open>src/pairing/store.rs\<close>: pending requests with codes, their approval, the list of allowed
  senders and the limit on failed approvals, kept in three files for each channel. A file is absent, holds a text that
  the parser of JSON refuses, such as the empty text, or holds what the parser reads from it; a file that was written is
  read back. Time, random draws and faults of the file system are parameters of each call.
\<close>

section \<open>Model\<close>

subsection \<open>Data\<close>

definition PAIRING_CODE_LENGTH :: nat where "PAIRING_CODE_LENGTH = 8"
definition PAIRING_ALPHABET :: string where "PAIRING_ALPHABET = ''ABCDEFGHJKLMNPQRSTUVWXYZ23456789''"
definition PAIRING_PENDING_TTL_SECS :: nat where "PAIRING_PENDING_TTL_SECS = 15 * 60"
definition PAIRING_PENDING_MAX :: nat where "PAIRING_PENDING_MAX = 3"
definition PAIRING_APPROVE_RATE_LIMIT :: nat where "PAIRING_APPROVE_RATE_LIMIT = 10"
definition PAIRING_APPROVE_RATE_WINDOW_SECS :: nat where "PAIRING_APPROVE_RATE_WINDOW_SECS = 5 * 60"

datatype pairing_store_error =
    InvalidChannel string
  | InvalidPath string
  | PairingIo string
  | PairingJson string
  | ApproveRateLimited

record upsert_result =
  ur_code :: string
  ur_created :: bool

record pairing_request =
  pq_id :: string
  pq_code :: string
  pq_created_at :: string
  pq_last_seen_at :: string
  pq_meta :: "json option"

datatype 'a file_state = Absent | Refused | Holds 'a

record pairing_files =
  pf_pairing :: "string \<Rightarrow> pairing_request list file_state"
  pf_allow_from :: "string \<Rightarrow> string list file_state"
  pf_attempts :: "string \<Rightarrow> nat list file_state"

datatype file_op = FCreateDir | FOpen | FLock | FRead | FSetLen | FWrite | FSync | FUnlock

record pairing_env =
  pe_base_dir :: string
  pe_now_secs :: nat
  pe_now_iso :: string
  pe_parse_rfc3339 :: "string \<Rightarrow> int option"
  pe_draw :: "nat \<Rightarrow> nat list"
  pe_suffix :: string
  pe_fails :: "file_op \<Rightarrow> string \<Rightarrow> string option"

definition first_fault :: "pairing_env \<Rightarrow> file_op list \<Rightarrow> string \<Rightarrow> string option" where
  "first_fault env ops path = List.find (\<lambda>_. True) (List.map_filter (\<lambda>op. pe_fails env op path) ops)"

definition stored :: "'a list file_state \<Rightarrow> 'a list" where
  "stored f = (case f of Holds xs \<Rightarrow> xs | _ \<Rightarrow> [])"

text \<open>Opening a file with the option that creates it, and with the one that empties it too.\<close>

definition opened_create :: "'a file_state \<Rightarrow> 'a file_state" where
  "opened_create f = (case f of Absent \<Rightarrow> Refused | _ \<Rightarrow> f)"

definition opened_truncate :: "'a file_state \<Rightarrow> 'a file_state" where
  "opened_truncate f = Refused"

subsection \<open>Names and times\<close>

definition safe_channel_char :: "char \<Rightarrow> char" where
  "safe_channel_char c = (if c \<in> {CHR 0x5C, CHR ''/'', CHR '':'', CHR ''*'', CHR ''?'', CHR 0x22, CHR ''<'', CHR ''>'', CHR ''|''} then CHR ''_'' else c)"

definition safe_channel_key :: "string \<Rightarrow> (pairing_store_error, string) result" where
  "safe_channel_key channel =
     (let raw = to_lower (trim channel)
      in if raw = [] then Inl (InvalidChannel ''empty'')
         else
           (let safe = str_replace ''..'' ''_'' (map safe_channel_char raw)
            in if safe = [] \<or> safe = ''_'' then Inl (InvalidChannel channel) else Inr safe))"

definition channel_path :: "string \<Rightarrow> string \<Rightarrow> string \<Rightarrow> (pairing_store_error, string) result" where
  "channel_path suf base channel = map_sum id (\<lambda>key. base @ ''/'' @ key @ suf) (safe_channel_key channel)"

definition pairing_path :: "string \<Rightarrow> string \<Rightarrow> (pairing_store_error, string) result" where
  "pairing_path = channel_path ''-pairing.json''"

definition allow_from_path :: "string \<Rightarrow> string \<Rightarrow> (pairing_store_error, string) result" where
  "allow_from_path = channel_path ''-allowFrom.json''"

definition approve_attempts_path :: "string \<Rightarrow> string \<Rightarrow> (pairing_store_error, string) result" where
  "approve_attempts_path = channel_path ''-approve-attempts.json''"

text \<open>Seconds are read as unsigned 64-bit numbers; a time before 1970 becomes a large one.\<close>

definition parse_timestamp :: "pairing_env \<Rightarrow> string \<Rightarrow> nat option" where
  "parse_timestamp env v =
     (case pe_parse_rfc3339 env v of
        Some t \<Rightarrow> Some (nat (t mod 2 ^ 64))
      | None \<Rightarrow> Retry.parse_u64 v)"

definition is_expired :: "pairing_env \<Rightarrow> pairing_request \<Rightarrow> bool" where
  "is_expired env req =
     (let created = (case parse_timestamp env (pq_created_at req) of Some t \<Rightarrow> t | None \<Rightarrow> 0)
      in pe_now_secs env - created > PAIRING_PENDING_TTL_SECS)"

definition live_requests :: "pairing_env \<Rightarrow> pairing_request list \<Rightarrow> pairing_request list" where
  "live_requests env = filter (\<lambda>r. \<not> is_expired env r)"

subsection \<open>Codes\<close>

text \<open>The draws of an index below 32 are parameters.\<close>

definition random_code :: "pairing_env \<Rightarrow> nat \<Rightarrow> string" where
  "random_code env k = map (\<lambda>i. PAIRING_ALPHABET ! i) (take PAIRING_CODE_LENGTH (pe_draw env k))"

fun first_free_code :: "pairing_env \<Rightarrow> string list \<Rightarrow> nat \<Rightarrow> nat \<Rightarrow> string option" where
  "first_free_code env existing k 0 = None"
| "first_free_code env existing k (Suc left) =
     (let code = random_code env k
      in if code \<notin> set existing then Some code else first_free_code env existing (Suc k) left)"

definition generate_unique_code :: "pairing_env \<Rightarrow> string list \<Rightarrow> string" where
  "generate_unique_code env existing =
     (case first_free_code env existing 0 500 of
        Some code \<Rightarrow> code
      | None \<Rightarrow> random_code env 500 @ pe_suffix env)"

subsection \<open>Pending requests\<close>

definition write_pairing_file_locked ::
  "pairing_env \<Rightarrow> string \<Rightarrow> pairing_request list \<Rightarrow> pairing_files \<Rightarrow> (pairing_store_error, unit) result \<times> pairing_files"
where
  "write_pairing_file_locked env path requests s =
     (case pe_fails env FSetLen path of
        Some m \<Rightarrow> (Inl (PairingIo m), s)
      | None \<Rightarrow>
          (case pe_fails env FWrite path of
             Some m \<Rightarrow> (Inl (PairingIo m), s\<lparr>pf_pairing := (pf_pairing s)(path := Refused)\<rparr>)
           | None \<Rightarrow>
               (let s' = s\<lparr>pf_pairing := (pf_pairing s)(path := Holds requests)\<rparr>
                in case pe_fails env FSync path of Some m \<Rightarrow> (Inl (PairingIo m), s') | None \<Rightarrow> (Inr (), s'))))"

definition unlock :: "pairing_env \<Rightarrow> string \<Rightarrow> 'a \<Rightarrow> (pairing_store_error, 'a) result" where
  "unlock env path x = (case pe_fails env FUnlock path of Some m \<Rightarrow> Inl (PairingIo m) | None \<Rightarrow> Inr x)"

definition write_pairing_file ::
  "pairing_env \<Rightarrow> string \<Rightarrow> pairing_request list \<Rightarrow> pairing_files \<Rightarrow> (pairing_store_error, unit) result \<times> pairing_files"
where
  "write_pairing_file env channel requests s =
     (case pairing_path (pe_base_dir env) channel of
        Inl e \<Rightarrow> (Inl e, s)
      | Inr path \<Rightarrow>
          (case pe_fails env FOpen path of
             Some m \<Rightarrow> (Inl (PairingIo m), s)
           | None \<Rightarrow>
               (let s1 = s\<lparr>pf_pairing := (pf_pairing s)(path := opened_truncate (pf_pairing s path))\<rparr>
                in case pe_fails env FLock path of
                     Some m \<Rightarrow> (Inl (PairingIo m), s1)
                   | None \<Rightarrow>
                       (case write_pairing_file_locked env path requests s1 of
                          (Inl e, s2) \<Rightarrow> (Inl e, s2)
                        | (Inr _, s2) \<Rightarrow> (unlock env path (), s2)))))"

text \<open>Listing reads the file without a lock, and writes it again when requests have expired.\<close>

definition list_pending_read ::
  "pairing_env \<Rightarrow> string \<Rightarrow> pairing_files \<Rightarrow> (pairing_store_error, pairing_request list) result"
where
  "list_pending_read env channel s =
     (case pairing_path (pe_base_dir env) channel of
        Inl e \<Rightarrow> Inl e
      | Inr path \<Rightarrow>
          (case pe_fails env FRead path of
             Some m \<Rightarrow> Inl (PairingIo m)
           | None \<Rightarrow> Inr (stored (pf_pairing s path))))"

definition list_pending_finish ::
  "pairing_env \<Rightarrow> string \<Rightarrow> pairing_request list \<Rightarrow> pairing_files \<Rightarrow>
     (pairing_store_error, pairing_request list) result \<times> pairing_files"
where
  "list_pending_finish env channel read s =
     (let requests = live_requests env read;
          answer = Inr (sort_key pq_created_at requests)
      in if length requests \<noteq> length read
         then (case write_pairing_file env channel requests s of
                 (Inl e, s') \<Rightarrow> (Inl e, s')
               | (Inr _, s') \<Rightarrow> (answer, s'))
         else (answer, s))"

definition list_pending ::
  "pairing_env \<Rightarrow> string \<Rightarrow> pairing_files \<Rightarrow> (pairing_store_error, pairing_request list) result \<times> pairing_files"
where
  "list_pending env channel s =
     (case list_pending_read env channel s of
        Inl e \<Rightarrow> (Inl e, s)
      | Inr read \<Rightarrow> list_pending_finish env channel read s)"

definition refresh_request :: "pairing_env \<Rightarrow> string \<Rightarrow> json option \<Rightarrow> pairing_request \<Rightarrow> pairing_request" where
  "refresh_request env code meta req =
     req\<lparr>pq_last_seen_at := pe_now_iso env, pq_code := code, pq_meta := (case meta of Some m \<Rightarrow> Some m | None \<Rightarrow> pq_meta req)\<rparr>"

definition write_then_answer ::
  "pairing_env \<Rightarrow> string \<Rightarrow> pairing_request list \<Rightarrow> 'a \<Rightarrow> pairing_files \<Rightarrow> (pairing_store_error, 'a) result \<times> pairing_files"
where
  "write_then_answer env path requests x s =
     (case write_pairing_file_locked env path requests s of
        (Inl e, s') \<Rightarrow> (Inl e, s')
      | (Inr _, s') \<Rightarrow> (unlock env path x, s'))"

text \<open>What is done under the lock, with the requests read from the file.\<close>

definition upsert_locked ::
  "pairing_env \<Rightarrow> string \<Rightarrow> string \<Rightarrow> json option \<Rightarrow> pairing_request list \<Rightarrow> pairing_files \<Rightarrow>
     (pairing_store_error, upsert_result) result \<times> pairing_files"
where
  "upsert_locked env path ident meta read s =
     (let requests = live_requests env read;
          existing_codes = map (\<lambda>r. to_upper (pq_code r)) requests
      in case find_index (\<lambda>r. pq_id r = ident) requests of
           Some idx \<Rightarrow>
             (let req = requests ! idx;
                  code = (if pq_code req = [] then generate_unique_code env existing_codes else pq_code req)
              in write_then_answer env path (requests[idx := refresh_request env code meta req])
                   \<lparr>ur_code = code, ur_created = False\<rparr> s)
         | None \<Rightarrow>
             if length requests \<ge> PAIRING_PENDING_MAX then (unlock env path \<lparr>ur_code = [], ur_created = False\<rparr>, s)
             else
               (let code = generate_unique_code env existing_codes
                in write_then_answer env path
                     (requests @ [\<lparr>pq_id = ident, pq_code = code, pq_created_at = pe_now_iso env,
                                   pq_last_seen_at = pe_now_iso env, pq_meta = meta\<rparr>])
                     \<lparr>ur_code = code, ur_created = True\<rparr> s))"

definition read_or_default :: "pairing_env \<Rightarrow> string \<Rightarrow> 'a list file_state \<Rightarrow> 'a list" where
  "read_or_default env path f = (if pe_fails env FRead path = None then stored f else [])"

definition upsert_request ::
  "pairing_env \<Rightarrow> string \<Rightarrow> string \<Rightarrow> json option \<Rightarrow> pairing_files \<Rightarrow>
     (pairing_store_error, upsert_result) result \<times> pairing_files"
where
  "upsert_request env channel ident meta s =
     (case pairing_path (pe_base_dir env) channel of
        Inl e \<Rightarrow> (Inl e, s)
      | Inr path \<Rightarrow>
          (case first_fault env [FCreateDir, FOpen] path of
             Some m \<Rightarrow> (Inl (PairingIo m), s)
           | None \<Rightarrow>
               (let s1 = s\<lparr>pf_pairing := (pf_pairing s)(path := opened_create (pf_pairing s path))\<rparr>
                in case pe_fails env FLock path of
                     Some m \<Rightarrow> (Inl (PairingIo m), s1)
                   | None \<Rightarrow>
                       if trim ident = []
                       then (case unlock env path () of Inl e \<Rightarrow> (Inl e, s1) | Inr _ \<Rightarrow> (Inl (InvalidChannel ''empty id''), s1))
                       else upsert_locked env path (trim ident) meta (read_or_default env path (pf_pairing s1 path)) s1)))"

subsection \<open>Approval\<close>

definition recent :: "nat \<Rightarrow> nat list \<Rightarrow> nat list" where
  "recent now ts = filter (\<lambda>t. t \<ge> now - PAIRING_APPROVE_RATE_WINDOW_SECS) ts"

definition is_approve_rate_limited :: "pairing_env \<Rightarrow> string \<Rightarrow> pairing_files \<Rightarrow> (pairing_store_error, bool) result" where
  "is_approve_rate_limited env channel s =
     (case approve_attempts_path (pe_base_dir env) channel of
        Inl e \<Rightarrow> Inl e
      | Inr path \<Rightarrow>
          (case pe_fails env FRead path of
             Some m \<Rightarrow> Inl (PairingIo m)
           | None \<Rightarrow> Inr (length (recent (pe_now_secs env) (stored (pf_attempts s path))) \<ge> PAIRING_APPROVE_RATE_LIMIT)))"

definition record_failed_approve ::
  "pairing_env \<Rightarrow> string \<Rightarrow> pairing_files \<Rightarrow> (pairing_store_error, unit) result \<times> pairing_files"
where
  "record_failed_approve env channel s =
     (case approve_attempts_path (pe_base_dir env) channel of
        Inl e \<Rightarrow> (Inl e, s)
      | Inr path \<Rightarrow>
          (case first_fault env [FCreateDir, FOpen] path of
             Some m \<Rightarrow> (Inl (PairingIo m), s)
           | None \<Rightarrow>
               (let s1 = s\<lparr>pf_attempts := (pf_attempts s)(path := opened_create (pf_attempts s path))\<rparr>
                in case pe_fails env FLock path of
                     Some m \<Rightarrow> (Inl (PairingIo m), s1)
                   | None \<Rightarrow>
                       (let failed_at = recent (pe_now_secs env)
                              (read_or_default env path (pf_attempts s1 path) @ [pe_now_secs env])
                        in case pe_fails env FWrite path of
                             Some m \<Rightarrow> (Inl (PairingIo m), s1\<lparr>pf_attempts := (pf_attempts s1)(path := Refused)\<rparr>)
                           | None \<Rightarrow> (unlock env path (), s1\<lparr>pf_attempts := (pf_attempts s1)(path := Holds failed_at)\<rparr>)))))"

definition add_allow_from ::
  "pairing_env \<Rightarrow> string \<Rightarrow> string \<Rightarrow> pairing_files \<Rightarrow> (pairing_store_error, unit) result \<times> pairing_files"
where
  "add_allow_from env channel entry s =
     (let entry = trim entry
      in if entry = [] then (Inr (), s)
         else
           (case allow_from_path (pe_base_dir env) channel of
              Inl e \<Rightarrow> (Inl e, s)
            | Inr path \<Rightarrow>
                (case first_fault env [FCreateDir, FOpen] path of
                   Some m \<Rightarrow> (Inl (PairingIo m), s)
                 | None \<Rightarrow>
                     (let s1 = s\<lparr>pf_allow_from := (pf_allow_from s)(path := opened_truncate (pf_allow_from s path))\<rparr>
                      in case pe_fails env FLock path of
                           Some m \<Rightarrow> (Inl (PairingIo m), s1)
                         | None \<Rightarrow>
                             (let allow_from = read_or_default env path (pf_allow_from s1 path)
                              in if to_lower entry \<in> set (map to_lower allow_from) then (unlock env path (), s1)
                                 else
                                   (case pe_fails env FWrite path of
                                      Some m \<Rightarrow> (Inl (PairingIo m), s1\<lparr>pf_allow_from := (pf_allow_from s1)(path := Refused)\<rparr>)
                                    | None \<Rightarrow>
                                        (unlock env path (),
                                         s1\<lparr>pf_allow_from := (pf_allow_from s1)(path := Holds (allow_from @ [entry]))\<rparr>)))))))"

definition approve_locked ::
  "pairing_env \<Rightarrow> string \<Rightarrow> string \<Rightarrow> string \<Rightarrow> pairing_request list \<Rightarrow> pairing_files \<Rightarrow>
     (pairing_store_error, pairing_request option) result \<times> pairing_files"
where
  "approve_locked env channel path code read s =
     (let requests = live_requests env read
      in case find_index (\<lambda>r. to_upper (pq_code r) = code) requests of
           None \<Rightarrow>
             (case unlock env path () of
                Inl e \<Rightarrow> (Inl e, s)
              | Inr _ \<Rightarrow>
                  (case record_failed_approve env channel s of (Inl e, s') \<Rightarrow> (Inl e, s') | (Inr _, s') \<Rightarrow> (Inr None, s')))
         | Some i \<Rightarrow>
             (case write_then_answer env path (take i requests @ drop (Suc i) requests) () s of
                (Inl e, s') \<Rightarrow> (Inl e, s')
              | (Inr _, s') \<Rightarrow>
                  (case add_allow_from env channel (pq_id (requests ! i)) s' of
                     (Inl e, s'') \<Rightarrow> (Inl e, s'')
                   | (Inr _, s'') \<Rightarrow> (Inr (Some (requests ! i)), s''))))"

definition approve ::
  "pairing_env \<Rightarrow> string \<Rightarrow> string \<Rightarrow> pairing_files \<Rightarrow>
     (pairing_store_error, pairing_request option) result \<times> pairing_files"
where
  "approve env channel code s =
     (let code = to_upper (trim code)
      in if code = [] then (Inr None, s)
         else
           (case is_approve_rate_limited env channel s of
              Inl e \<Rightarrow> (Inl e, s)
            | Inr True \<Rightarrow> (Inl ApproveRateLimited, s)
            | Inr False \<Rightarrow>
                (case pairing_path (pe_base_dir env) channel of
                   Inl e \<Rightarrow> (Inl e, s)
                 | Inr path \<Rightarrow>
                     if pf_pairing s path = Absent then (Inl (InvalidChannel ''no pairing file''), s)
                     else
                       (case first_fault env [FOpen, FLock] path of
                          Some m \<Rightarrow> (Inl (PairingIo m), s)
                        | None \<Rightarrow> approve_locked env channel path code (read_or_default env path (pf_pairing s path)) s))))"

subsection \<open>Allowed senders\<close>

definition has_allow_from_file :: "pairing_env \<Rightarrow> string \<Rightarrow> pairing_files \<Rightarrow> (pairing_store_error, bool) result" where
  "has_allow_from_file env channel s =
     map_sum id (\<lambda>path. pf_allow_from s path \<noteq> Absent) (allow_from_path (pe_base_dir env) channel)"

definition read_allow_from :: "pairing_env \<Rightarrow> string \<Rightarrow> pairing_files \<Rightarrow> (pairing_store_error, string list) result" where
  "read_allow_from env channel s =
     (case allow_from_path (pe_base_dir env) channel of
        Inl e \<Rightarrow> Inl e
      | Inr path \<Rightarrow>
          (case pe_fails env FRead path of Some m \<Rightarrow> Inl (PairingIo m) | None \<Rightarrow> Inr (stored (pf_allow_from s path))))"

definition username_listed :: "string list \<Rightarrow> string \<Rightarrow> bool" where
  "username_listed allow username =
     (let u = to_lower (trim username);
          u_norm = (case strip_prefix ''@'' u of Some v \<Rightarrow> v | None \<Rightarrow> u)
      in list_ex (\<lambda>e. to_lower (trim e) = u \<or> to_lower (trim e) = ''@'' @ u_norm) allow)"

definition is_sender_allowed ::
  "pairing_env \<Rightarrow> string \<Rightarrow> string \<Rightarrow> string option \<Rightarrow> pairing_files \<Rightarrow> (pairing_store_error, bool) result"
where
  "is_sender_allowed env channel ident username s =
     (case read_allow_from env channel s of
        Inl e \<Rightarrow> Inl e
      | Inr allow \<Rightarrow>
          Inr (list_ex (\<lambda>e. trim e = trim ident) allow \<or>
               (case username of Some u \<Rightarrow> username_listed allow u | None \<Rightarrow> False)))"

subsection \<open>Sequences of calls\<close>

datatype pairing_call =
    ListPending string
  | Upsert string string "json option"
  | Approve string string

datatype pairing_answer =
    Listed "(pairing_store_error, pairing_request list) result"
  | Upserted "(pairing_store_error, upsert_result) result"
  | Approved "(pairing_store_error, pairing_request option) result"

fun pairing_step :: "pairing_env \<Rightarrow> pairing_call \<Rightarrow> pairing_files \<Rightarrow> pairing_answer \<times> pairing_files" where
  "pairing_step env (ListPending ch) s = map_prod Listed id (list_pending env ch s)"
| "pairing_step env (Upsert ch ident meta) s = map_prod Upserted id (upsert_request env ch ident meta s)"
| "pairing_step env (Approve ch code) s = map_prod Approved id (approve env ch code s)"

fun pairing_run :: "(pairing_env \<times> pairing_call) list \<Rightarrow> pairing_files \<Rightarrow> pairing_answer list \<times> pairing_files" where
  "pairing_run [] s = ([], s)"
| "pairing_run ((env, c) # cs) s =
     (case pairing_step env c s of (a, s') \<Rightarrow> (case pairing_run cs s' of (as, s'') \<Rightarrow> (a # as, s'')))"

definition no_files :: pairing_files where
  "no_files = \<lparr>pf_pairing = (\<lambda>_. Absent), pf_allow_from = (\<lambda>_. Absent), pf_attempts = (\<lambda>_. Absent)\<rparr>"

subsection \<open>Auxiliary definitions\<close>

definition pairing_code :: "string \<Rightarrow> bool" where
  "pairing_code c = (length c = PAIRING_CODE_LENGTH \<and> set c \<subseteq> set PAIRING_ALPHABET)"

text \<open>Draws stay below 32, and they are not all the same three codes.\<close>

definition draws_ok :: "pairing_env \<Rightarrow> bool" where
  "draws_ok env =
     ((\<forall>k. length (pe_draw env k) = PAIRING_CODE_LENGTH \<and> (\<forall>i\<in>set (pe_draw env k). i < length PAIRING_ALPHABET)) \<and>
      card (random_code env ` {..<500}) \<ge> PAIRING_PENDING_MAX)"

definition pending_ok :: "pairing_request list \<Rightarrow> bool" where
  "pending_ok rs =
     (length rs \<le> PAIRING_PENDING_MAX \<and> distinct (map pq_id rs) \<and> distinct (map pq_code rs) \<and>
      list_all (\<lambda>r. pairing_code (pq_code r) \<and> pq_id r \<noteq> [] \<and> trim (pq_id r) = pq_id r) rs)"

definition files_ok :: "pairing_files \<Rightarrow> bool" where
  "files_ok s = (\<forall>path. pending_ok (stored (pf_pairing s path)))"

definition faultless :: "pairing_env \<Rightarrow> bool" where
  "faultless env = (pe_fails env = (\<lambda>_ _. None))"

text \<open>The attempts that found no request, counted in the file with the given path, and their times.\<close>

fun refused_attempt :: "string \<Rightarrow> pairing_env \<Rightarrow> pairing_call \<Rightarrow> pairing_answer \<Rightarrow> bool" where
  "refused_attempt path env (Approve ch code) (Approved (Inr None)) =
     (trim code \<noteq> [] \<and> approve_attempts_path (pe_base_dir env) ch = Inr path)"
| "refused_attempt path env c a = False"

fun refused_times :: "string \<Rightarrow> (pairing_env \<times> pairing_call) list \<Rightarrow> pairing_files \<Rightarrow> nat list" where
  "refused_times path [] s = []"
| "refused_times path ((env, c) # cs) s =
     (case pairing_step env c s of (a, s') \<Rightarrow>
        (if refused_attempt path env c a then [pe_now_secs env] else []) @ refused_times path cs s')"

definition in_window :: "nat \<Rightarrow> nat list \<Rightarrow> nat list" where
  "in_window start ts = filter (\<lambda>t. start \<le> t \<and> t \<le> start + PAIRING_APPROVE_RATE_WINDOW_SECS) ts"

section \<open>Lemmas\<close>

lemma stored_simps [simp]:
  "stored Absent = []" "stored Refused = []" "stored (Holds xs) = xs" "stored (opened_create f) = stored f"
  "opened_truncate f = Refused"
  by (auto simp: stored_def opened_create_def opened_truncate_def split: file_state.splits)

lemma first_fault_None [simp]: "first_fault env ops path = None \<longleftrightarrow> (\<forall>op\<in>set ops. pe_fails env op path = None)"
  by (induction ops) (auto simp: first_fault_def List.map_filter_def split: option.splits)

subsection \<open>Codes\<close>

lemma alphabet_upper: "c \<in> set PAIRING_ALPHABET \<Longrightarrow> upper_char c = c"
  by (auto simp: PAIRING_ALPHABET_def upper_char_def is_ascii_lower_def ascii_code_def)

lemma pairing_code_upper: "pairing_code c \<Longrightarrow> to_upper c = c"
  unfolding to_upper_def pairing_code_def by (intro map_idI) (auto intro: alphabet_upper)

lemma random_code_ok: "draws_ok env \<Longrightarrow> pairing_code (random_code env k)"
  by (auto simp: draws_ok_def pairing_code_def random_code_def)

lemma first_free_find:
  "first_free_code env existing k n = List.find (\<lambda>c. c \<notin> set existing) (map (random_code env) [k..<k + n])"
proof (induction n arbitrary: k)
  case (Suc n)
  have "[k..<k + Suc n] = k # [Suc k..<Suc k + n]" by (simp add: upt_conv_Cons)
  then show ?case using Suc[of "Suc k"] by (simp add: Let_def)
qed simp

lemma generate_fresh:
  assumes "draws_ok env" "length existing < PAIRING_PENDING_MAX"
  shows "pairing_code (generate_unique_code env existing) \<and> generate_unique_code env existing \<notin> set existing"
proof -
  have "card (set existing) < card (random_code env ` {..<500})"
    using assms card_length[of existing] by (auto simp: draws_ok_def)
  then have "\<not> random_code env ` {..<500} \<subseteq> set existing" by (meson List.finite_set card_mono leD)
  then obtain k where "k < 500" "random_code env k \<notin> set existing" by blast
  then obtain c where "List.find (\<lambda>c. c \<notin> set existing) (map (random_code env) [0..<500]) = Some c"
    by (cases "List.find (\<lambda>c. c \<notin> set existing) (map (random_code env) [0..<500])") (auto simp: find_None_iff)
  then show ?thesis using random_code_ok[OF assms(1)]
    by (simp add: generate_unique_code_def first_free_find) (auto simp: find_Some_iff)
qed

subsection \<open>The invariant of pending requests\<close>

lemma pending_ok_Nil [simp]: "pending_ok []"
  by (simp add: pending_ok_def)

lemma pending_ok_filter: "pending_ok rs \<Longrightarrow> pending_ok (filter P rs)"
  by (auto simp: pending_ok_def distinct_map_filter list_all_iff intro: le_trans[OF length_filter_le])

lemma pending_ok_live: "pending_ok rs \<Longrightarrow> pending_ok (live_requests env rs)"
  by (simp add: live_requests_def pending_ok_filter)

lemma pending_ok_remove: "pending_ok rs \<Longrightarrow> pending_ok (take i rs @ drop (Suc i) rs)"
  unfolding pending_ok_def
  by (auto simp: take_map[symmetric] drop_map[symmetric] list_all_iff min_def dest: in_set_takeD in_set_dropD
      intro: distinct_take distinct_drop)
     (use set_take_disj_set_drop_if_distinct[of _ i "Suc i"] in fastforce)+

lemma pending_ok_refresh:
  assumes "pending_ok rs" "i < length rs"
  shows "pending_ok (rs[i := refresh_request env (pq_code (rs ! i)) meta (rs ! i)])"
proof -
  have "map pq_id (rs[i := refresh_request env (pq_code (rs ! i)) meta (rs ! i)]) = map pq_id rs"
    "map pq_code (rs[i := refresh_request env (pq_code (rs ! i)) meta (rs ! i)]) = map pq_code rs"
    using assms(2) by (simp_all add: map_update refresh_request_def list_update_same_conv)
  then show ?thesis using assms
    by (auto simp: pending_ok_def list_all_length nth_list_update refresh_request_def)
qed

lemma write_files_ok:
  "files_ok s \<Longrightarrow> pending_ok rs \<Longrightarrow> files_ok (snd (write_pairing_file_locked env path rs s))"
  by (auto simp: files_ok_def write_pairing_file_locked_def Let_def split: option.splits)

lemma write_then_answer_ok:
  "files_ok s \<Longrightarrow> pending_ok rs \<Longrightarrow> files_ok (snd (write_then_answer env path rs x s))"
  using write_files_ok[of s rs env path] by (auto simp: write_then_answer_def split: prod.splits sum.splits)

lemma opened_files_ok:
  "files_ok s \<Longrightarrow> files_ok (s\<lparr>pf_pairing := (pf_pairing s)(path := opened_create (pf_pairing s path))\<rparr>)"
  "files_ok s \<Longrightarrow> files_ok (s\<lparr>pf_pairing := (pf_pairing s)(path := Refused)\<rparr>)"
  by (auto simp: files_ok_def)

lemma files_ok_other [simp]:
  "files_ok (s\<lparr>pf_attempts := x\<rparr>) = files_ok s" "files_ok (s\<lparr>pf_allow_from := y\<rparr>) = files_ok s"
  by (simp_all add: files_ok_def)

lemma read_pending_ok: "files_ok s \<Longrightarrow> pending_ok (read_or_default env path (pf_pairing s path))"
  by (simp add: files_ok_def read_or_default_def)

lemma list_pending_ok:
  assumes "files_ok s"
  shows "files_ok (snd (list_pending env ch s))"
proof -
  have "pending_ok read \<Longrightarrow> files_ok (snd (list_pending_finish env ch read s))" for read
    using opened_files_ok(2)[OF assms] assms
    by (auto simp: list_pending_finish_def write_pairing_file_def Let_def pending_ok_live
          split: sum.splits option.splits prod.splits dest!: arg_cong[of "write_pairing_file_locked _ _ _ _" _ snd]
          intro: write_files_ok)
       (metis pending_ok_live snd_conv write_files_ok)+
  then show ?thesis using assms
    by (auto simp: list_pending_def list_pending_read_def files_ok_def split: sum.splits option.splits)
qed

lemma upsert_locked_ok:
  assumes ok: "files_ok s" and rd: "pending_ok read" and draws: "draws_ok env" and ident: "ident \<noteq> []" "trim ident = ident"
  shows "files_ok (snd (upsert_locked env path ident meta read s))"
proof -
  let ?rs = "live_requests env read"
  have rs: "pending_ok ?rs" using rd by (rule pending_ok_live)
  have up: "map (\<lambda>r. to_upper (pq_code r)) ?rs = map pq_code ?rs"
    using rs by (auto simp: pending_ok_def list_all_iff pairing_code_upper)
  show ?thesis
  proof (cases "find_index (\<lambda>r. pq_id r = ident) ?rs")
    case (Some i)
    then have i: "i < length ?rs" by (simp add: find_index_Some)
    then have "pq_code (?rs ! i) \<noteq> []"
      using rs by (auto simp: pending_ok_def list_all_length pairing_code_def PAIRING_CODE_LENGTH_def)
    then show ?thesis
      using Some write_then_answer_ok[OF ok pending_ok_refresh[OF rs i]] by (simp add: upsert_locked_def Let_def)
  next
    case None
    show ?thesis
    proof (cases "length ?rs \<ge> PAIRING_PENDING_MAX")
      case False
      let ?c = "generate_unique_code env (map pq_code ?rs)"
      have "pairing_code ?c \<and> ?c \<notin> set (map pq_code ?rs)" using generate_fresh[OF draws, of "map pq_code ?rs"] False by simp
      then have "pending_ok (?rs @ [\<lparr>pq_id = ident, pq_code = ?c, pq_created_at = pe_now_iso env,
                                   pq_last_seen_at = pe_now_iso env, pq_meta = meta\<rparr>])"
        using rs None False ident by (auto simp: pending_ok_def find_index_None)
      then show ?thesis using None False write_then_answer_ok[OF ok] by (simp add: upsert_locked_def Let_def up)
    qed (use None ok in \<open>simp add: upsert_locked_def Let_def\<close>)
  qed
qed

lemma upsert_request_ok:
  assumes "files_ok s" "draws_ok env"
  shows "files_ok (snd (upsert_request env ch ident meta s))"
proof (cases "pairing_path (pe_base_dir env) ch")
  case (Inr path)
  let ?s1 = "s\<lparr>pf_pairing := (pf_pairing s)(path := opened_create (pf_pairing s path))\<rparr>"
  have s1: "files_ok ?s1" using assms(1) by (rule opened_files_ok)
  have "pending_ok (read_or_default env path (pf_pairing ?s1 path))" by (rule read_pending_ok[OF s1])
  then have "trim ident \<noteq> [] \<Longrightarrow>
      files_ok (snd (upsert_locked env path (trim ident) meta (read_or_default env path (pf_pairing ?s1 path)) ?s1))"
    using s1 assms(2) by (intro upsert_locked_ok) (simp_all add: trim_trim)
  then show ?thesis using assms(1) s1 Inr
    by (simp add: upsert_request_def Let_def split: option.splits sum.splits)
qed (use assms in \<open>simp add: upsert_request_def\<close>)

lemma record_failed_pairing [simp]: "pf_pairing (snd (record_failed_approve env ch s)) = pf_pairing s"
  by (simp add: record_failed_approve_def Let_def split: sum.splits option.splits)

lemma add_allow_pairing [simp]: "pf_pairing (snd (add_allow_from env ch entry s)) = pf_pairing s"
  by (simp add: add_allow_from_def Let_def split: sum.splits option.splits)

lemma files_ok_cong: "pf_pairing s = pf_pairing t \<Longrightarrow> files_ok s = files_ok t"
  by (simp add: files_ok_def)

lemma approve_locked_ok:
  assumes "files_ok s" "pending_ok read"
  shows "files_ok (snd (approve_locked env ch path code read s))"
proof (cases "find_index (\<lambda>r. to_upper (pq_code r) = code) (live_requests env read)")
  case None
  then show ?thesis using assms files_ok_cong[OF record_failed_pairing, of env ch s]
    by (auto simp: approve_locked_def Let_def split: sum.splits prod.splits)
next
  case (Some i)
  let ?w = "write_then_answer env path (take i (live_requests env read) @ drop (Suc i) (live_requests env read)) () s"
  have "files_ok (snd ?w)" using assms by (intro write_then_answer_ok pending_ok_remove pending_ok_live)
  then show ?thesis
    using Some files_ok_cong[OF add_allow_pairing, of env ch "pq_id (live_requests env read ! i)" "snd ?w"]
    by (auto simp: approve_locked_def Let_def split: sum.splits prod.splits)
qed

lemma approve_ok: "files_ok s \<Longrightarrow> files_ok (snd (approve env ch code s))"
  by (simp add: approve_def Let_def read_pending_ok approve_locked_ok split: sum.splits option.splits bool.splits)

lemma pairing_step_ok: "files_ok s \<Longrightarrow> draws_ok env \<Longrightarrow> files_ok (snd (pairing_step env c s))"
  by (cases c) (simp_all add: list_pending_ok upsert_request_ok approve_ok)

subsection \<open>What a call leaves alone\<close>

lemma write_locked_frame [simp]:
  "pf_allow_from (snd (write_pairing_file_locked env path rs s)) = pf_allow_from s"
  "pf_attempts (snd (write_pairing_file_locked env path rs s)) = pf_attempts s"
  by (simp_all add: write_pairing_file_locked_def Let_def split: option.splits)

lemma write_then_answer_frame [simp]:
  "pf_allow_from (snd (write_then_answer env path rs x s)) = pf_allow_from s"
  "pf_attempts (snd (write_then_answer env path rs x s)) = pf_attempts s"
  by (simp_all add: write_then_answer_def case_prod_unfold split: sum.splits)

lemma list_pending_frame [simp]:
  "pf_allow_from (snd (list_pending env ch s)) = pf_allow_from s"
  "pf_attempts (snd (list_pending env ch s)) = pf_attempts s"
proof -
  have w: "pf_allow_from (snd (write_pairing_file env ch rs s)) = pf_allow_from s \<and>
           pf_attempts (snd (write_pairing_file env ch rs s)) = pf_attempts s" for rs
  proof (cases "pairing_path (pe_base_dir env) ch")
    case (Inr path)
    then show ?thesis
      by (simp add: write_pairing_file_def Let_def case_prod_unfold split: option.splits sum.splits)
  qed (simp add: write_pairing_file_def)
  then show "pf_allow_from (snd (list_pending env ch s)) = pf_allow_from s"
    "pf_attempts (snd (list_pending env ch s)) = pf_attempts s"
    by (simp_all add: list_pending_def list_pending_finish_def Let_def case_prod_unfold split: sum.splits)
qed

lemma upsert_frame [simp]:
  "pf_allow_from (snd (upsert_request env ch ident meta s)) = pf_allow_from s"
  "pf_attempts (snd (upsert_request env ch ident meta s)) = pf_attempts s"
  by (simp_all add: upsert_request_def upsert_locked_def Let_def split: sum.splits option.splits)

lemma record_failed_allow [simp]: "pf_allow_from (snd (record_failed_approve env ch s)) = pf_allow_from s"
  by (simp add: record_failed_approve_def Let_def split: sum.splits option.splits)

lemma add_allow_attempts [simp]: "pf_attempts (snd (add_allow_from env ch entry s)) = pf_attempts s"
  by (simp add: add_allow_from_def Let_def split: sum.splits option.splits)

lemma add_allow_entries:
  "e \<in> set (stored (pf_allow_from (snd (add_allow_from env ch entry s)) path)) \<Longrightarrow>
   e \<in> set (stored (pf_allow_from s path)) \<or> allow_from_path (pe_base_dir env) ch = Inr path \<and> e = trim entry"
  by (auto simp: add_allow_from_def Let_def read_or_default_def split: sum.splits option.splits if_splits)

lemma approve_locked_allow:
  assumes "e \<in> set (stored (pf_allow_from (snd (approve_locked env ch path code read s)) p))"
  shows "e \<in> set (stored (pf_allow_from s p)) \<or>
    (\<exists>r\<in>set (live_requests env read). to_upper (pq_code r) = code \<and> e = trim (pq_id r) \<and>
       allow_from_path (pe_base_dir env) ch = Inr p)"
proof (cases "find_index (\<lambda>r. to_upper (pq_code r) = code) (live_requests env read)")
  case None
  then show ?thesis using assms
    by (simp add: approve_locked_def Let_def case_prod_unfold split: sum.splits)
next
  case (Some i)
  let ?r = "live_requests env read ! i"
  let ?w = "write_then_answer env path (take i (live_requests env read) @ drop (Suc i) (live_requests env read)) () s"
  have r: "?r \<in> set (live_requests env read)" "to_upper (pq_code ?r) = code" using find_index_Some[OF Some] by auto
  have fr: "pf_allow_from (snd ?w) = pf_allow_from s" by simp
  have "e \<in> set (stored (pf_allow_from s p)) \<or> e \<in> set (stored (pf_allow_from (snd (add_allow_from env ch (pq_id ?r) (snd ?w))) p))"
    using assms Some by (simp add: approve_locked_def Let_def case_prod_unfold split: sum.splits)
  then show ?thesis using add_allow_entries[of e env ch "pq_id ?r" "snd ?w" p] r fr by auto
qed

subsection \<open>The limit on failed approvals\<close>

lemma recent_Nil [simp]: "recent n [] = []"
  by (simp add: recent_def)

lemma recent_recent: "m \<le> n \<Longrightarrow> recent n (recent m ts) = recent n ts"
  by (simp add: recent_def) (rule filter_cong, auto)

lemma recent_append: "recent n (xs @ ys) = recent n xs @ recent n ys"
  by (simp add: recent_def)

lemma attempts_path_None: "approve_attempts_path base ch = Inl e \<longleftrightarrow> pairing_path base ch = Inl e"
  by (cases "safe_channel_key ch") (simp_all add: approve_attempts_path_def pairing_path_def channel_path_def)

lemma approve_attempts:
  assumes "faultless env" "approve env ch code s = (a, s')"
  shows "stored (pf_attempts s' path) =
      (if refused_attempt path env (Approve ch code) (Approved a)
       then recent (pe_now_secs env) (stored (pf_attempts s path) @ [pe_now_secs env]) else stored (pf_attempts s path)) \<and>
    (refused_attempt path env (Approve ch code) (Approved a) \<longrightarrow>
       length (recent (pe_now_secs env) (stored (pf_attempts s path))) < PAIRING_APPROVE_RATE_LIMIT)"
proof (cases "pairing_path (pe_base_dir env) ch")
  case (Inl e)
  then have "approve_attempts_path (pe_base_dir env) ch = Inl e" by (simp add: attempts_path_None)
  then show ?thesis using assms
    by (auto simp: approve_def is_approve_rate_limited_def to_upper_def Let_def split: if_splits)
next
  case (Inr q)
  then obtain p where p: "approve_attempts_path (pe_base_dir env) ch = Inr p"
    by (cases "approve_attempts_path (pe_base_dir env) ch") (auto simp: attempts_path_None)
  have nf: "pe_fails env op x = None" for op x using assms(1) by (simp add: faultless_def)
  have ff: "first_fault env ops x = None" for ops x by (simp add: nf)
  show ?thesis
  proof (cases "trim code = [] \<or> pf_pairing s q = Absent \<or>
      PAIRING_APPROVE_RATE_LIMIT \<le> length (recent (pe_now_secs env) (stored (pf_attempts s p)))")
    case True
    then show ?thesis using assms(2) Inr p
      by (auto simp: approve_def is_approve_rate_limited_def to_upper_def Let_def nf split: if_splits bool.splits)
  next
    case False
    then have ap: "approve_locked env ch q (to_upper (trim code)) (stored (pf_pairing s q)) s = (a, s')"
      using assms(2) Inr p
      by (simp add: approve_def is_approve_rate_limited_def to_upper_def Let_def nf ff read_or_default_def split: bool.splits)
    show ?thesis
    proof (cases "find_index (\<lambda>r. to_upper (pq_code r) = to_upper (trim code)) (live_requests env (stored (pf_pairing s q)))")
      case None
      then show ?thesis using ap p False
        by (auto simp: approve_locked_def Let_def unlock_def nf ff record_failed_approve_def read_or_default_def)
    next
      case (Some i)
      then have "pf_attempts s' = pf_attempts s \<and> a \<noteq> Inr None"
        using ap by (auto simp: approve_locked_def Let_def case_prod_unfold split: sum.splits)
      then show ?thesis by (cases a) (auto split: option.splits elim: refused_attempt.elims)
    qed
  qed
qed

lemma step_attempts:
  assumes "faultless env" "pairing_step env c s = (a, s')"
  shows "stored (pf_attempts s' path) =
      (if refused_attempt path env c a
       then recent (pe_now_secs env) (stored (pf_attempts s path) @ [pe_now_secs env]) else stored (pf_attempts s path)) \<and>
    (refused_attempt path env c a \<longrightarrow>
       length (recent (pe_now_secs env) (stored (pf_attempts s path))) < PAIRING_APPROVE_RATE_LIMIT)"
proof (cases c)
  case (ListPending ch)
  then show ?thesis using assms(2) list_pending_frame(2)[of env ch s] by (cases "list_pending env ch s") auto
next
  case (Upsert ch ident meta)
  then show ?thesis using assms(2) upsert_frame(2)[of env ch ident meta s] by (cases "upsert_request env ch ident meta s") auto
next
  case (Approve ch code)
  then show ?thesis using assms approve_attempts[OF assms(1), of ch code s _ s' path] by (cases "approve env ch code s") auto
qed

lemma window_step:
  assumes "\<forall>T. length (in_window T H) \<le> PAIRING_APPROVE_RATE_LIMIT"
    and "length (recent t H) < PAIRING_APPROVE_RATE_LIMIT"
  shows "length (in_window T (H @ [t])) \<le> PAIRING_APPROVE_RATE_LIMIT"
proof (cases "T \<le> t \<and> t \<le> T + PAIRING_APPROVE_RATE_WINDOW_SECS")
  case True
  then have "in_window T H = in_window T (recent t H)"
    by (auto simp: in_window_def recent_def intro!: filter_cong)
  then have "length (in_window T H) \<le> length (recent t H)" by (simp add: in_window_def)
  then show ?thesis using True assms(2) by (simp add: in_window_def)
next
  case False
  then have "in_window T (H @ [t]) = in_window T H" by (auto simp: in_window_def)
  then show ?thesis using assms(1) by simp
qed

lemma refused_times_bounded:
  assumes "\<forall>(env, c)\<in>set cs. faultless env \<and> now \<le> pe_now_secs env" "sorted (map (pe_now_secs \<circ> fst) cs)"
    and "\<forall>n\<ge>now. recent n (stored (pf_attempts s path)) = recent n H"
    and "\<forall>T. length (in_window T H) \<le> PAIRING_APPROVE_RATE_LIMIT"
  shows "length (in_window T (H @ refused_times path cs s)) \<le> PAIRING_APPROVE_RATE_LIMIT"
  using assms
proof (induction cs arbitrary: s H now)
  case Nil
  then show ?case by simp
next
  case (Cons ec cs)
  obtain env c where ec: "ec = (env, c)" by force
  obtain a s' where st: "pairing_step env c s = (a, s')" by force
  let ?t = "pe_now_secs env"
  let ?H = "H @ (if refused_attempt path env c a then [?t] else [])"
  have t: "now \<le> ?t" "faultless env" and rest: "\<forall>(env, c)\<in>set cs. faultless env \<and> ?t \<le> pe_now_secs env"
    using Cons.prems(1,2) ec by auto
  note at = step_attempts[OF t(2) st, of path]
  have "recent n (stored (pf_attempts s' path)) = recent n ?H" if "n \<ge> ?t" for n
    using at that Cons.prems(3) t(1) by (auto simp: recent_recent recent_append)
  moreover have "\<forall>T. length (in_window T ?H) \<le> PAIRING_APPROVE_RATE_LIMIT"
    using at Cons.prems(3,4) t(1) window_step[of H ?t] by auto
  ultimately have "length (in_window T (?H @ refused_times path cs s')) \<le> PAIRING_APPROVE_RATE_LIMIT"
    using Cons.IH[OF rest, of s' ?H] Cons.prems(2) by (simp add: ec)
  then show ?case by (simp add: ec st)
qed

subsection \<open>Names of channels\<close>

lemma dots_replaced:
  "\<not> sublist ''..'' (str_replace ''..'' ''_'' s) \<and> (prefix ''.'' (str_replace ''..'' ''_'' s) \<longrightarrow> prefix ''.'' s)"
proof (induction s rule: length_induct)
  case (1 s)
  show ?case
  proof (cases s)
    case (Cons c t)
    show ?thesis
    proof (cases "prefix ''..'' (c # t)")
      case True
      then have "length (drop 2 s) < length s" using Cons by simp
      then show ?thesis using 1 Cons True by (auto simp: sublist_Cons_right)
    next
      case False
      then have "length t < length s" using Cons by simp
      with 1 have t: "\<not> sublist ''..'' (str_replace ''..'' ''_'' t)" "prefix ''.'' (str_replace ''..'' ''_'' t) \<Longrightarrow> prefix ''.'' t"
        by blast+
      have "\<not> prefix ''..'' (c # str_replace ''..'' ''_'' t)" using False t(2) by auto
      then show ?thesis using False t(1) by (auto simp: Cons sublist_Cons_right)
    qed
  qed simp
qed

subsection \<open>Calls without faults\<close>

lemma write_faultless:
  "faultless env \<Longrightarrow> write_then_answer env path rs x s = (Inr x, s\<lparr>pf_pairing := (pf_pairing s)(path := Holds rs)\<rparr>)"
  by (simp add: write_then_answer_def write_pairing_file_locked_def faultless_def unlock_def Let_def)

lemma add_allow_faultless:
  assumes "faultless env" "allow_from_path (pe_base_dir env) ch = Inr p" "trim e \<noteq> []"
  shows "add_allow_from env ch e s = (Inr (), s\<lparr>pf_allow_from := (pf_allow_from s)(p := Holds [trim e])\<rparr>)"
proof -
  have nf: "pe_fails env op x = None" for op x using assms(1) by (simp add: faultless_def)
  have ff: "first_fault env ops x = None" for ops x by (simp add: nf)
  show ?thesis using assms(2,3) by (simp add: add_allow_from_def Let_def nf ff read_or_default_def unlock_def)
qed

lemma approve_locked_faultless:
  assumes "faultless env" "allow_from_path (pe_base_dir env) ch = Inr p"
    and "find_index (\<lambda>r. to_upper (pq_code r) = code) (live_requests env read) = Some i"
    and "trim (pq_id (live_requests env read ! i)) \<noteq> []"
  shows "\<exists>s'. approve_locked env ch path code read s = (Inr (Some (live_requests env read ! i)), s') \<and>
    pf_allow_from s' p = Holds [trim (pq_id (live_requests env read ! i))]"
  using assms by (simp add: approve_locked_def Let_def write_faultless add_allow_faultless)

lemma approve_unlimited:
  assumes "faultless env" "is_approve_rate_limited env ch s = Inr False" "pairing_path (pe_base_dir env) ch = Inr path"
    and "pf_pairing s path = Holds rs" "trim code \<noteq> []"
  shows "approve env ch code s = approve_locked env ch path (to_upper (trim code)) rs s"
proof -
  have nf: "pe_fails env op x = None" for op x using assms(1) by (simp add: faultless_def)
  have ff: "first_fault env ops x = None" for ops x by (simp add: nf)
  show ?thesis using assms(2-) by (simp add: approve_def Let_def to_upper_def nf ff read_or_default_def)
qed

lemma upsert_created:
  assumes "faultless env" "upsert_request env ch ident meta s = (Inr \<lparr>ur_code = code, ur_created = True\<rparr>, s')"
  obtains path rs where "pairing_path (pe_base_dir env) ch = Inr path" "trim ident \<noteq> []"
    "pf_pairing s' path = Holds (rs @ [\<lparr>pq_id = trim ident, pq_code = code, pq_created_at = pe_now_iso env,
       pq_last_seen_at = pe_now_iso env, pq_meta = meta\<rparr>])"
proof -
  have nf: "pe_fails env op x = None" for op x using assms(1) by (simp add: faultless_def)
  have ff: "first_fault env ops x = None" for ops x by (simp add: nf)
  obtain path where path: "pairing_path (pe_base_dir env) ch = Inr path"
    using assms(2) by (cases "pairing_path (pe_base_dir env) ch") (auto simp: upsert_request_def)
  have i: "trim ident \<noteq> []" using assms(2) path by (auto simp: upsert_request_def Let_def nf ff unlock_def)
  show thesis
    using assms(2) path i that
    by (auto simp: upsert_request_def upsert_locked_def Let_def nf ff write_faultless[OF assms(1)] unlock_def
          split: option.splits if_splits)
qed

lemma no_ws_trim: "\<forall>c\<in>set s. \<not> is_ascii_ws c \<Longrightarrow> trim s = s"
proof -
  assume ws: "\<forall>c\<in>set s. \<not> is_ascii_ws c"
  have "dropWhile is_ascii_ws t = t" if "set t = set s" for t using ws that by (cases t) (auto simp: dropWhile_eq_self_iff)
  then show ?thesis by (simp add: trim_def)
qed

lemma pairing_code_trim: "pairing_code c \<Longrightarrow> trim c = c"
proof -
  have "\<forall>c\<in>set PAIRING_ALPHABET. \<not> is_ascii_ws c" by (simp add: PAIRING_ALPHABET_def is_ascii_ws_def ascii_code_def)
  then show "pairing_code c \<Longrightarrow> trim c = c" by (intro no_ws_trim) (auto simp: pairing_code_def)
qed

lemma pending_ok_found:
  assumes "pending_ok rs" "r \<in> set rs"
  obtains i where "find_index (\<lambda>q. to_upper (pq_code q) = pq_code r) rs = Some i" "rs ! i = r"
proof -
  have up: "to_upper (pq_code q) = pq_code q" if "q \<in> set rs" for q
    using assms(1) that by (auto simp: pending_ok_def list_all_iff pairing_code_upper)
  then obtain i where i: "find_index (\<lambda>q. to_upper (pq_code q) = pq_code r) rs = Some i"
    using assms(2) by (cases "find_index (\<lambda>q. to_upper (pq_code q) = pq_code r) rs") (auto simp: find_index_None)
  then have "i < length rs" "pq_code (rs ! i) = pq_code r" using find_index_Some[OF i] up[of "rs ! i"] by auto
  moreover have "inj_on pq_code (set rs)" using assms(1) by (simp add: pending_ok_def distinct_map)
  ultimately have "rs ! i = r" using assms(2) by (auto dest: inj_onD)
  then show thesis using i that by blast
qed

section \<open>Properties\<close>

text \<open>
  C37. In every state that calls reach, faults of the file system included, each channel has at most three pending
  requests, of distinct senders and with distinct codes of eight letters of the alphabet.
\<close>

theorem pending_requests_inv:
  assumes "\<forall>(env, c)\<in>set cs. draws_ok env"
  shows "files_ok (snd (pairing_run cs no_files))"
proof -
  have "files_ok s \<Longrightarrow> \<forall>(env, c)\<in>set cs. draws_ok env \<Longrightarrow> files_ok (snd (pairing_run cs s))" for s
  proof (induction cs arbitrary: s)
    case (Cons ec cs)
    then show ?case using pairing_step_ok[of s "fst ec" "snd ec"] by (cases ec) (auto simp: case_prod_unfold)
  qed simp
  then show ?thesis using assms by (auto simp: files_ok_def no_files_def)
qed

text \<open>
  A sender enters the list of a channel only by an approval: the call gave the code of a request that is pending
  on that channel and has not expired, and the entry is the sender of that request.
\<close>

theorem allowed_only_by_code:
  assumes "e \<in> set (stored (pf_allow_from (snd (pairing_step env c s)) p))"
  shows "e \<in> set (stored (pf_allow_from s p)) \<or>
    (\<exists>ch code path. c = Approve ch code \<and> allow_from_path (pe_base_dir env) ch = Inr p \<and>
       pairing_path (pe_base_dir env) ch = Inr path \<and>
       (\<exists>r\<in>set (live_requests env (stored (pf_pairing s path))).
          to_upper (pq_code r) = to_upper (trim code) \<and> e = trim (pq_id r)))"
proof (cases c)
  case (Approve ch code)
  show ?thesis
  proof (cases "pairing_path (pe_base_dir env) ch")
    case (Inr path)
    have rd: "set (live_requests env (read_or_default env path (pf_pairing s path))) \<subseteq> set (live_requests env (stored (pf_pairing s path)))"
      by (auto simp: read_or_default_def live_requests_def)
    have "e \<in> set (stored (pf_allow_from s p)) \<or> e \<in> set (stored (pf_allow_from (snd (approve_locked env ch path
        (to_upper (trim code)) (read_or_default env path (pf_pairing s path)) s)) p))"
      using assms Inr Approve by (auto simp: approve_def Let_def split: sum.splits bool.splits option.splits if_splits)
    then show ?thesis
    proof
      assume "e \<in> set (stored (pf_allow_from (snd (approve_locked env ch path (to_upper (trim code))
          (read_or_default env path (pf_pairing s path)) s)) p))"
      from approve_locked_allow[OF this] show ?thesis
      proof
        assume "\<exists>r\<in>set (live_requests env (read_or_default env path (pf_pairing s path))). to_upper (pq_code r) = to_upper (trim code) \<and>
            e = trim (pq_id r) \<and> allow_from_path (pe_base_dir env) ch = Inr p"
        then show ?thesis using rd Inr Approve by (intro disjI2 exI[of _ ch] exI[of _ code] exI[of _ path]) auto
      qed simp
    qed simp
  qed (use assms Approve in \<open>auto simp: approve_def Let_def split: sum.splits bool.splits if_splits\<close>)
qed (use assms in auto)

text \<open>
  C38. At most ten codes are refused on a channel in any five minutes: calls one after the other, at times that do not go
  back and without faults, and any stretch of 300 seconds.
\<close>

theorem refused_codes_bounded:
  assumes "\<forall>(env, c)\<in>set cs. faultless env" and "sorted (map (pe_now_secs \<circ> fst) cs)"
  shows "length (in_window start (refused_times path cs no_files)) \<le> 10"
  using refused_times_bounded[of cs 0 no_files path "[]" start] assms
  by (auto simp: no_files_def in_window_def PAIRING_APPROVE_RATE_LIMIT_def)

text \<open>
  The code that a sender was given approves that sender, as long as it is not older than fifteen minutes and the
  channel is not limited: the approval returns the request of the sender, who is allowed from then on.
\<close>

theorem code_approves_sender:
  assumes ok: "files_ok s" "draws_ok env" and nf: "faultless env" "faultless env'"
    and base: "pe_base_dir env' = pe_base_dir env"
    and up: "upsert_request env ch ident meta s = (Inr \<lparr>ur_code = code, ur_created = True\<rparr>, s')"
    and clock: "parse_timestamp env' (pe_now_iso env) = Some (pe_now_secs env)"
      "pe_now_secs env' \<le> pe_now_secs env + PAIRING_PENDING_TTL_SECS"
    and free: "is_approve_rate_limited env' ch s' = Inr False"
  shows "\<exists>r s''. approve env' ch code s' = (Inr (Some r), s'') \<and> pq_id r = trim ident \<and>
    is_sender_allowed env' ch ident None s'' = Inr True"
proof -
  obtain path rs where path: "pairing_path (pe_base_dir env) ch = Inr path" and id: "trim ident \<noteq> []"
    and s': "pf_pairing s' path = Holds (rs @ [\<lparr>pq_id = trim ident, pq_code = code, pq_created_at = pe_now_iso env,
       pq_last_seen_at = pe_now_iso env, pq_meta = meta\<rparr>])" (is "_ = Holds (rs @ [?r])")
    by (rule upsert_created[OF nf(1) up])
  have "files_ok s'" using upsert_request_ok[OF ok, of ch ident meta] up by simp
  then have p: "pending_ok (rs @ [?r])" using s' unfolding files_ok_def by (metis stored_simps(3))
  then have code: "pairing_code code" by (simp add: pending_ok_def)
  have "\<not> is_expired env' ?r" using clock by (simp add: is_expired_def)
  then have "?r \<in> set (live_requests env' (rs @ [?r]))" by (simp add: live_requests_def)
  then obtain i where i: "find_index (\<lambda>q. to_upper (pq_code q) = code) (live_requests env' (rs @ [?r])) = Some i"
      "live_requests env' (rs @ [?r]) ! i = ?r"
    by (rule pending_ok_found[OF pending_ok_live[OF p]]) simp
  obtain q where q: "allow_from_path (pe_base_dir env') ch = Inr q"
    using path base by (cases "safe_channel_key ch") (simp_all add: allow_from_path_def pairing_path_def channel_path_def)
  have c: "trim code \<noteq> []" "to_upper (trim code) = code"
    using code pairing_code_trim[OF code] pairing_code_upper[OF code] by (auto simp: pairing_code_def PAIRING_CODE_LENGTH_def)
  have "approve env' ch code s' = approve_locked env' ch path code (rs @ [?r]) s'"
    using approve_unlimited[OF nf(2) free, of path] path base s' c by simp
  moreover have "trim (pq_id (live_requests env' (rs @ [?r]) ! i)) \<noteq> []" using i(2) id by (simp add: trim_trim)
  ultimately obtain s'' where "approve env' ch code s' = (Inr (Some ?r), s'')" "pf_allow_from s'' q = Holds [trim ident]"
    using approve_locked_faultless[OF nf(2) q i(1)] i(2) by (auto simp: trim_trim)
  then show ?thesis using q nf(2) by (auto simp: is_sender_allowed_def read_allow_from_def faultless_def trim_trim)
qed

text \<open>
  An approval forgets every sender that was approved before: the file is emptied when it is opened, before it is
  read, so that the list of the channel afterwards is the new sender alone.
\<close>

theorem approval_forgets_others:
  assumes "approve env ch code s = (Inr (Some r), s')" and "faultless env" and "trim (pq_id r) \<noteq> []"
  shows "read_allow_from env ch s' = Inr [trim (pq_id r)]"
proof -
  have nf: "pe_fails env op x = None" for op x using assms(2) by (simp add: faultless_def)
  obtain path code' where path: "pairing_path (pe_base_dir env) ch = Inr path"
    and ap: "approve_locked env ch path code' (read_or_default env path (pf_pairing s path)) s = (Inr (Some r), s')"
    using assms(1) by (auto simp: approve_def Let_def split: if_splits sum.splits bool.splits option.splits)
  obtain q where q: "allow_from_path (pe_base_dir env) ch = Inr q"
    using path by (cases "safe_channel_key ch") (simp_all add: allow_from_path_def pairing_path_def channel_path_def)
  have "pf_allow_from s' q = Holds [trim (pq_id r)]"
    using ap assms(3)
    by (auto simp: approve_locked_def Let_def write_faultless[OF assms(2)] add_allow_faultless[OF assms(2) q] case_prod_unfold
          split: option.splits sum.splits)
  then show ?thesis using q by (simp add: read_allow_from_def nf)
qed

text \<open>
  Listing the requests can lose one: when some have expired, the list that was read is written back, whatever was
  stored in between.
\<close>

theorem listing_overwrites:
  assumes "list_pending_read env ch s = Inr read" and "length (live_requests env read) \<noteq> length read"
    and "pairing_path (pe_base_dir env) ch = Inr path" and "faultless env"
  shows "stored (pf_pairing (snd (list_pending_finish env ch read s')) path) = live_requests env read"
  using assms
  by (simp add: list_pending_finish_def Let_def write_pairing_file_def faultless_def write_pairing_file_locked_def unlock_def)

text \<open>
  A sender is allowed by a user name that equals an entry of the list, and the entries are identifiers of approved
  senders: whoever takes such an identifier as a name is allowed.
\<close>

theorem username_matches_identifier:
  assumes "read_allow_from env ch s = Inr allow" and "e \<in> set allow"
  shows "is_sender_allowed env ch other (Some e) s = Inr True"
  using assms by (auto simp: is_sender_allowed_def username_listed_def Let_def list_ex_iff)

text \<open>
  The name of a channel cannot lead out of the directory: the key has no separator and no two dots in a row.
\<close>

theorem channel_key_confined:
  assumes "safe_channel_key ch = Inr key"
  shows "key \<noteq> [] \<and> CHR ''/'' \<notin> set key \<and> CHR 0x5C \<notin> set key \<and> \<not> sublist ''..'' key"
proof -
  let ?m = "map safe_channel_char (to_lower (trim ch))"
  have key: "key = str_replace ''..'' ''_'' ?m" "key \<noteq> []" using assms by (auto simp: safe_channel_key_def Let_def split: if_splits)
  have "CHR ''/'' \<notin> set ?m" "CHR 0x5C \<notin> set ?m" by (auto simp: safe_channel_char_def split: if_splits)
  then have "CHR ''/'' \<notin> set key" "CHR 0x5C \<notin> set key"
    using set_str_replace[of "''..''" "''_''" ?m] unfolding key(1) by auto
  then show ?thesis using dots_replaced key by blast
qed

section \<open>Witnesses\<close>

text \<open>A host without faults whose draws count up, at a given time, and the state after two requests.\<close>

definition sample_pairing_env :: "nat \<Rightarrow> pairing_env" where
  "sample_pairing_env now =
     \<lparr>pe_base_dir = ''d'', pe_now_secs = now, pe_now_iso = replicate now CHR ''x'', pe_parse_rfc3339 = (\<lambda>v. Some (int (length v))),
      pe_draw = (\<lambda>k. [0, 0, 0, 0, 0, 0, now mod 32, k mod 32]), pe_suffix = ''0000'', pe_fails = (\<lambda>_ _. None)\<rparr>"

definition after_requests :: pairing_files where
  "after_requests = no_files\<lparr>pf_pairing := (\<lambda>_. Absent)(''d/t-pairing.json'' := Holds
     [\<lparr>pq_id = ''ann'', pq_code = ''AAAAAAAA'', pq_created_at = [], pq_last_seen_at = [], pq_meta = None\<rparr>,
      \<lparr>pq_id = ''bob'', pq_code = ''AAAAAABA'', pq_created_at = ''x'', pq_last_seen_at = ''x'', pq_meta = None\<rparr>])\<rparr>"

lemma sample_faultless [simp]: "faultless (sample_pairing_env now)"
  by (simp add: faultless_def sample_pairing_env_def)

lemma sample_draws [simp]: "draws_ok (sample_pairing_env now)"
proof -
  let ?c = "random_code (sample_pairing_env now)"
  have "?c 0 \<noteq> ?c 1" "?c 0 \<noteq> ?c 2" "?c 1 \<noteq> ?c 2"
    by (simp_all add: random_code_def sample_pairing_env_def PAIRING_CODE_LENGTH_def PAIRING_ALPHABET_def)
  then have "card (?c ` {0, 1, 2}) = 3" by simp
  moreover have "card (?c ` {0, 1, 2}) \<le> card (?c ` {..<500})" by (intro card_mono) auto
  ultimately have "3 \<le> card (?c ` {..<500})" by simp
  moreover have "length PAIRING_ALPHABET = 32" by (simp add: PAIRING_ALPHABET_def)
  ultimately show ?thesis
    by (auto simp: draws_ok_def sample_pairing_env_def PAIRING_CODE_LENGTH_def PAIRING_PENDING_MAX_def)
qed

theorem pending_requests_inv_witness:
  "files_ok (snd (pairing_run [(sample_pairing_env 0, Upsert ''t'' ''ann'' None), (sample_pairing_env 1, Upsert ''t'' ''bob'' None),
     (sample_pairing_env 2, Approve ''t'' ''aaaaaaaa'')] no_files))"
  by (rule pending_requests_inv) simp

theorem allowed_only_by_code_witness:
  "\<exists>ch code path. Approve ''t'' ''aaaaaaba'' = Approve ch code \<and> pairing_path ''d'' ch = Inr path \<and>
     (\<exists>r\<in>set (live_requests (sample_pairing_env 2) (stored (pf_pairing after_requests path))).
        to_upper (pq_code r) = to_upper (trim code) \<and> ''bob'' = trim (pq_id r))"
proof -
  have "''bob'' \<in> set (stored (pf_allow_from
      (snd (pairing_step (sample_pairing_env 2) (Approve ''t'' ''aaaaaaba'') after_requests)) ''d/t-allowFrom.json''))"
    by code_simp
  from allowed_only_by_code[OF this] show ?thesis
    by (auto simp: after_requests_def no_files_def sample_pairing_env_def)
qed

theorem refused_codes_bounded_witness:
  "length (in_window 0 (refused_times ''d/t-approve-attempts.json''
     ((sample_pairing_env 0, Upsert ''t'' ''ann'' None) # replicate 12 (sample_pairing_env 1, Approve ''t'' ''x'')) no_files)) \<le> 10"
proof (rule refused_codes_bounded)
  show "sorted (map (pe_now_secs \<circ> fst)
      ((sample_pairing_env 0, Upsert ''t'' ''ann'' None) # replicate 12 (sample_pairing_env 1, Approve ''t'' ''x'')))"
    by (simp add: sample_pairing_env_def)
qed auto

theorem code_approves_sender_witness:
  "\<exists>code r s''. approve (sample_pairing_env 900) ''t'' code
      (snd (upsert_request (sample_pairing_env 0) ''t'' '' ann '' None no_files)) = (Inr (Some r), s'') \<and> pq_id r = trim '' ann '' \<and>
    is_sender_allowed (sample_pairing_env 900) ''t'' '' ann '' None s'' = Inr True"
proof -
  let ?s = "snd (upsert_request (sample_pairing_env 0) ''t'' '' ann '' None no_files)"
  have up: "upsert_request (sample_pairing_env 0) ''t'' '' ann '' None no_files =
      (Inr \<lparr>ur_code = ''AAAAAAAA'', ur_created = True\<rparr>, ?s)" by (rule prod_eqI) (simp, code_simp, simp)
  have ok: "files_ok no_files" by (simp add: files_ok_def no_files_def)
  have clock: "parse_timestamp (sample_pairing_env 900) (pe_now_iso (sample_pairing_env 0)) = Some (pe_now_secs (sample_pairing_env 0))"
    by code_simp
  have late: "pe_now_secs (sample_pairing_env 900) \<le> pe_now_secs (sample_pairing_env 0) + PAIRING_PENDING_TTL_SECS"
    by (simp add: sample_pairing_env_def PAIRING_PENDING_TTL_SECS_def)
  have base: "pe_base_dir (sample_pairing_env 900) = pe_base_dir (sample_pairing_env 0)" by (simp add: sample_pairing_env_def)
  have free: "is_approve_rate_limited (sample_pairing_env 900) ''t'' ?s = Inr False" by code_simp
  show ?thesis
    using code_approves_sender[OF ok sample_draws sample_faultless sample_faultless base up clock late free] by blast
qed

theorem approval_forgets_others_witness:
  "read_allow_from (sample_pairing_env 2) ''t'' (snd (approve (sample_pairing_env 2) ''t'' ''aaaaaaba''
     (after_requests\<lparr>pf_allow_from := (\<lambda>_. Holds [''ann''])\<rparr>))) = Inr [''bob'']"
proof -
  let ?s = "after_requests\<lparr>pf_allow_from := (\<lambda>_. Holds [''ann''])\<rparr>"
  let ?r = "\<lparr>pq_id = ''bob'', pq_code = ''AAAAAABA'', pq_created_at = ''x'', pq_last_seen_at = ''x'', pq_meta = None\<rparr>"
  have "approve (sample_pairing_env 2) ''t'' ''aaaaaaba'' ?s = (Inr (Some ?r), snd (approve (sample_pairing_env 2) ''t'' ''aaaaaaba'' ?s))"
    by (rule prod_eqI) (simp, code_simp, simp)
  moreover have "trim (pq_id ?r) = ''bob''" by code_simp
  ultimately show ?thesis using approval_forgets_others[of "sample_pairing_env 2" "''t''" _ ?s ?r] by simp
qed

theorem listing_overwrites_witness:
  "stored (pf_pairing (snd (list_pending_finish (sample_pairing_env 901) ''t'' (stored (pf_pairing after_requests ''d/t-pairing.json''))
      (snd (upsert_request (sample_pairing_env 901) ''t'' ''eve'' None after_requests)))) ''d/t-pairing.json'') =
   live_requests (sample_pairing_env 901) (stored (pf_pairing after_requests ''d/t-pairing.json''))"
proof (rule listing_overwrites)
  let ?e = "sample_pairing_env 901" and ?read = "stored (pf_pairing after_requests ''d/t-pairing.json'')"
  show path: "pairing_path (pe_base_dir ?e) ''t'' = Inr ''d/t-pairing.json''" by code_simp
  show "list_pending_read ?e ''t'' after_requests = Inr ?read" using path by (simp add: list_pending_read_def sample_pairing_env_def)
  show "length (live_requests ?e ?read) \<noteq> length ?read" by code_simp
qed simp

theorem username_matches_identifier_witness:
  "is_sender_allowed (sample_pairing_env 0) ''t'' ''eve'' (Some ''17'')
     (no_files\<lparr>pf_allow_from := (\<lambda>_. Holds [''17''])\<rparr>) = Inr True"
proof -
  have "read_allow_from (sample_pairing_env 0) ''t'' (no_files\<lparr>pf_allow_from := (\<lambda>_. Holds [''17''])\<rparr>) = Inr [''17'']" by code_simp
  then show ?thesis by (rule username_matches_identifier) simp
qed

theorem channel_key_confined_witness:
  "\<exists>key. safe_channel_key ''../../etc'' = Inr key \<and> CHR ''/'' \<notin> set key \<and> \<not> sublist ''..'' key"
proof -
  have k: "safe_channel_key ''../../etc'' = Inr ''____etc''" by code_simp
  show ?thesis using channel_key_confined[OF k] k by blast
qed

end
