(* ===== verification/Scheduler.thy ===== *)
theory Scheduler
  imports Context_Manager Tool_Execution
begin

text \<open>
  The scheduler of jobs, \<open>src/agent/scheduler.rs\<close>, with the tasks of
  \<open>src/agent/task.rs\<close>. A worker is what the scheduler sees of it: the queue of its channel, whether it has finished, and
  the approval context it was given; what it does to its job are operations of the context manager. Scheduling holds
  the lock of the running jobs and is one step; an operation that has to wait for room in a channel has no result.
\<close>

section \<open>Model\<close>

subsection \<open>Data\<close>

datatype worker_message = WStart | WStop | WPing | WUserMessage string

record scheduled_job =
  sj_queue :: "worker_message list"
  sj_finished :: bool
  sj_approval :: "approval_context option"

record agent_config =
  ag_max_parallel_jobs :: nat
  ag_max_jobs_per_user :: "nat option"
  ag_max_tokens_per_job :: "64 word"

text \<open>
  The registry and the extension manager are what \<open>autonomous_allowed_tool_names\<close> reads. \<open>sd_saved\<close> are the jobs saved in
  the database, \<open>sd_status_writes\<close> the changes of status that tasks of their own write.
\<close>

record 'd scheduler =
  sd_config :: agent_config
  sd_manager :: "'d context_manager"
  sd_tools :: tool_registry
  sd_extensions :: "(string \<times> string list) option"
  sd_has_store :: bool
  sd_saved :: "'d job_context list"
  sd_status_writes :: "(uuid \<times> job_state \<times> string) list"
  sd_jobs :: "(uuid \<times> scheduled_job) list"
  sd_subtasks :: "(uuid \<times> bool) list"

definition scheduler_new :: "agent_config \<Rightarrow> 'd context_manager \<Rightarrow> tool_registry \<Rightarrow> (string \<times> string list) option \<Rightarrow> bool \<Rightarrow> 'd scheduler" where
  "scheduler_new config manager tools extensions has_store =
     \<lparr>sd_config = config, sd_manager = manager, sd_tools = tools, sd_extensions = extensions, sd_has_store = has_store,
      sd_saved = [], sd_status_writes = [], sd_jobs = [], sd_subtasks = []\<rparr>"

subsection \<open>Scheduling\<close>

definition WORKER_QUEUE :: nat where "WORKER_QUEUE = 16"

definition user_limit_reached :: "uuid \<Rightarrow> 'd scheduler \<Rightarrow> nat option" where
  "user_limit_reached job_id s =
     (case ag_max_jobs_per_user (sd_config s) of
        None \<Rightarrow> None
      | Some max_per_user \<Rightarrow>
          (case get_context job_id (sd_manager s) of
             Inl _ \<Rightarrow> None
           | Inr ctx \<Rightarrow>
               if parallel_blocking_count_for (jc_user_id ctx) (sd_manager s) \<ge> max_per_user then Some max_per_user else None))"

definition schedule_with_context ::
  "utc \<Rightarrow> uuid \<Rightarrow> approval_context option \<Rightarrow> 'd scheduler \<Rightarrow> (job_error, unit) result \<times> 'd scheduler"
where
  "schedule_with_context now job_id approval s =
     (if hm_get (sd_jobs s) job_id \<noteq> None then (Inr (), s)
      else if length (sd_jobs s) \<ge> ag_max_parallel_jobs (sd_config s)
      then (Inl (MaxJobsExceeded (ag_max_parallel_jobs (sd_config s))), s)
      else
        (case user_limit_reached job_id s of
           Some m \<Rightarrow> (Inl (MaxJobsExceeded m), s)
         | None \<Rightarrow>
             (case update_context job_id (transition_to now InProgress (Some ''Scheduled for execution'')) (sd_manager s) of
                (Inl e, m) \<Rightarrow> (Inl e, s\<lparr>sd_manager := m\<rparr>)
              | (Inr (Inl reason), m) \<Rightarrow> (Inl (ContextError job_id reason), s\<lparr>sd_manager := m\<rparr>)
              | (Inr (Inr _), m) \<Rightarrow>
                  (Inr (), s\<lparr>sd_manager := m,
                     sd_jobs := hm_put job_id \<lparr>sj_queue = [WStart], sj_finished = False, sj_approval = approval\<rparr> (sd_jobs s)\<rparr>))))"

definition schedule :: "utc \<Rightarrow> uuid \<Rightarrow> 'd scheduler \<Rightarrow> (job_error, unit) result \<times> 'd scheduler" where
  "schedule now job_id s = schedule_with_context now job_id None s"

text \<open>One look of the cleanup task of a job.\<close>

definition cleanup_job :: "uuid \<Rightarrow> 'd scheduler \<Rightarrow> 'd scheduler" where
  "cleanup_job job_id s =
     (case hm_get (sd_jobs s) job_id of
        Some j \<Rightarrow> if sj_finished j then s\<lparr>sd_jobs := hm_del job_id (sd_jobs s)\<rparr> else s
      | None \<Rightarrow> s)"

subsection \<open>Dispatch\<close>

definition user_max_tokens :: "json option \<Rightarrow> nat option" where
  "user_max_tokens metadata = Option.bind metadata (\<lambda>m. Option.bind (json_get ''max_tokens'' m) as_u64)"

definition job_max_tokens :: "agent_config \<Rightarrow> json option \<Rightarrow> 64 word" where
  "job_max_tokens config metadata =
     (case user_max_tokens metadata of
        Some user_val \<Rightarrow>
          if ag_max_tokens_per_job config = 0 then of_nat user_val
          else min (of_nat user_val) (ag_max_tokens_per_job config)
      | None \<Rightarrow> ag_max_tokens_per_job config)"

definition apply_metadata ::
  "agent_config \<Rightarrow> uuid \<Rightarrow> json option \<Rightarrow> 'd context_manager \<Rightarrow> (job_error, 'd job_context) result \<times> 'd context_manager"
where
  "apply_metadata config job_id metadata m =
     (let max_tokens = job_max_tokens config metadata
      in case metadata of
           Some meta \<Rightarrow>
             update_context_and_get job_id
               (\<lambda>ctx. (if max_tokens > 0 then ctx\<lparr>jc_metadata := meta, jc_max_tokens := max_tokens\<rparr> else ctx\<lparr>jc_metadata := meta\<rparr>)) m
         | None \<Rightarrow>
             if max_tokens > 0 then update_context_and_get job_id (\<lambda>ctx. ctx\<lparr>jc_max_tokens := max_tokens\<rparr>) m
             else (get_context job_id m, m))"

text \<open>The parameter \<open>save\<close> is the answer of the database: an error text when the job was not saved.\<close>

definition save_and_schedule ::
  "utc \<Rightarrow> ('d job_context \<Rightarrow> string option) \<Rightarrow> approval_context option \<Rightarrow> uuid \<Rightarrow> 'd job_context \<Rightarrow> 'd scheduler \<Rightarrow>
     (job_error, uuid) result \<times> 'd scheduler"
where
  "save_and_schedule now save approval job_id ctx s =
     (let saved = (if sd_has_store s then save ctx else None)
      in case saved of
           Some e \<Rightarrow> (Inl (JobFailed job_id (''failed to persist job: '' @ e)), s)
         | None \<Rightarrow>
             (case schedule_with_context now job_id approval
                     (if sd_has_store s then s\<lparr>sd_saved := sd_saved s @ [ctx]\<rparr> else s) of
                (Inl e, s') \<Rightarrow> (Inl e, s')
              | (Inr _, s') \<Rightarrow> (Inr job_id, s')))"

definition dispatch_job_inner ::
  "uuid \<Rightarrow> utc \<Rightarrow> ('d job_context \<Rightarrow> string option) \<Rightarrow> string \<Rightarrow> string \<Rightarrow> string \<Rightarrow> json option \<Rightarrow> approval_context option \<Rightarrow>
     'd::zero scheduler \<Rightarrow> (job_error, uuid) result \<times> 'd scheduler"
where
  "dispatch_job_inner new_id now save user_id title description metadata approval s =
     (case create_job_for_user new_id now user_id title description (sd_manager s) of
        (Inl e, m) \<Rightarrow> (Inl e, s\<lparr>sd_manager := m\<rparr>)
      | (Inr job_id, m) \<Rightarrow>
          (case apply_metadata (sd_config s) job_id metadata m of
             (Inl e, m') \<Rightarrow> (Inl e, s\<lparr>sd_manager := m'\<rparr>)
           | (Inr ctx, m') \<Rightarrow> save_and_schedule now save approval job_id ctx (s\<lparr>sd_manager := m'\<rparr>)))"

definition autonomous_approval_context :: "string \<Rightarrow> 'd scheduler \<Rightarrow> approval_context" where
  "autonomous_approval_context user_id s =
     autonomous_with_tools (autonomous_allowed_tool_names (sd_tools s) (sd_extensions s) user_id)"

definition dispatch_job ::
  "uuid \<Rightarrow> utc \<Rightarrow> ('d job_context \<Rightarrow> string option) \<Rightarrow> string \<Rightarrow> string \<Rightarrow> string \<Rightarrow> json option \<Rightarrow>
     'd::zero scheduler \<Rightarrow> (job_error, uuid) result \<times> 'd scheduler"
where
  "dispatch_job new_id now save user_id title description metadata s =
     dispatch_job_inner new_id now save user_id title description metadata (Some (autonomous_approval_context user_id s)) s"

definition dispatch_job_with_context ::
  "uuid \<Rightarrow> utc \<Rightarrow> ('d job_context \<Rightarrow> string option) \<Rightarrow> string \<Rightarrow> string \<Rightarrow> string \<Rightarrow> json option \<Rightarrow> approval_context \<Rightarrow>
     'd::zero scheduler \<Rightarrow> (job_error, uuid) result \<times> 'd scheduler"
where
  "dispatch_job_with_context new_id now save user_id title description metadata approval s =
     dispatch_job_inner new_id now save user_id title description metadata (Some approval) s"

subsection \<open>Running jobs\<close>

text \<open>Sending waits while the queue is full and the worker has not dropped its end.\<close>

definition send_to_worker :: "worker_message \<Rightarrow> scheduled_job \<Rightarrow> (unit, scheduled_job) result option" where
  "send_to_worker msg j =
     (if sj_finished j then Some (Inl ())
      else if length (sj_queue j) < WORKER_QUEUE then Some (Inr (j\<lparr>sj_queue := sj_queue j @ [msg]\<rparr>))
      else None)"

definition send_message :: "uuid \<Rightarrow> string \<Rightarrow> 'd scheduler \<Rightarrow> ((job_error, unit) result \<times> 'd scheduler) option" where
  "send_message job_id content s =
     (case hm_get (sd_jobs s) job_id of
        None \<Rightarrow> Some (Inl (NotFound job_id), s)
      | Some j \<Rightarrow>
          (case send_to_worker (WUserMessage content) j of
             None \<Rightarrow> None
           | Some (Inl _) \<Rightarrow> Some (Inl (JobFailed job_id ''Worker channel closed''), s)
           | Some (Inr j') \<Rightarrow> Some (Inr (), s\<lparr>sd_jobs := hm_put job_id j' (sd_jobs s)\<rparr>)))"

definition stop :: "utc \<Rightarrow> uuid \<Rightarrow> 'd scheduler \<Rightarrow> ((job_error, unit) result \<times> 'd scheduler) option" where
  "stop now job_id s =
     (case hm_get (sd_jobs s) job_id of
        None \<Rightarrow> Some (Inr (), s)
      | Some j \<Rightarrow>
          (case send_to_worker WStop j of
             None \<Rightarrow> None
           | Some _ \<Rightarrow>
               (let s1 = s\<lparr>sd_jobs := hm_del job_id (sd_jobs s)\<rparr>
                in case update_context job_id (transition_to now Cancelled (Some ''Stopped by scheduler'')) (sd_manager s1) of
                     (Inl e, m) \<Rightarrow> Some (Inl e, s1\<lparr>sd_manager := m\<rparr>)
                   | (Inr _, m) \<Rightarrow>
                       Some (Inr (),
                         s1\<lparr>sd_manager := m,
                            sd_status_writes := (if sd_has_store s
                              then sd_status_writes s @ [(job_id, Cancelled, ''Stopped by scheduler'')] else sd_status_writes s)\<rparr>))))"

definition is_running_job :: "uuid \<Rightarrow> 'd scheduler \<Rightarrow> bool" where
  "is_running_job job_id s = (hm_get (sd_jobs s) job_id \<noteq> None)"

definition running_count :: "'d scheduler \<Rightarrow> nat" where
  "running_count s = length (sd_jobs s)"

definition subtask_count :: "'d scheduler \<Rightarrow> nat" where
  "subtask_count s = length (sd_subtasks s)"

definition running_jobs :: "'d scheduler \<Rightarrow> uuid list" where
  "running_jobs s = map fst (sd_jobs s)"

definition cleanup_finished :: "'d scheduler \<Rightarrow> 'd scheduler" where
  "cleanup_finished s =
     s\<lparr>sd_jobs := hm_retain (\<lambda>_ j. \<not> sj_finished j) (sd_jobs s), sd_subtasks := hm_retain (\<lambda>_ fin. \<not> fin) (sd_subtasks s)\<rparr>"

fun stop_each :: "utc \<Rightarrow> uuid list \<Rightarrow> 'd scheduler \<Rightarrow> 'd scheduler option" where
  "stop_each now [] s = Some s"
| "stop_each now (i # is) s = (case stop now i s of None \<Rightarrow> None | Some (_, s') \<Rightarrow> stop_each now is s')"

definition stop_all :: "utc \<Rightarrow> 'd scheduler \<Rightarrow> 'd scheduler option" where
  "stop_all now s = map_option (\<lambda>s'. s'\<lparr>sd_subtasks := []\<rparr>) (stop_each now (running_jobs s) s)"

subsection \<open>Subtasks\<close>

record task_output =
  to_result :: json
  to_duration :: duration

record task_context =
  tx_task_id :: uuid
  tx_parent_id :: "uuid option"
  tx_metadata :: json

datatype task_error = TaskJob job_error | TaskTool exec_error | TaskAutonomousUnavailable string string

text \<open>A handler that panics has no result.\<close>

datatype task =
    JobTask uuid string string
  | ToolExec uuid string json
  | Background uuid "task_context \<Rightarrow> (task_error, task_output) result option"

definition task_id :: "task \<Rightarrow> uuid option" where
  "task_id t = (case t of JobTask i _ _ \<Rightarrow> Some i | ToolExec _ _ _ \<Rightarrow> None | Background i _ \<Rightarrow> Some i)"

record task_env =
  te_coerce :: coerce_lib
  te_pretty :: "json \<Rightarrow> (string, string) result"
  te_from_str :: "string \<Rightarrow> (string, json) result"
  te_show_error :: "tool_error \<Rightarrow> string"
  te_safety :: safety_layer
  te_elapsed :: duration

definition execute_tool_task ::
  "task_env \<Rightarrow> tool_registry \<Rightarrow> 'd context_manager \<Rightarrow> approval_context option \<Rightarrow> uuid \<Rightarrow> string \<Rightarrow> json \<Rightarrow>
     (task_error, task_output) result"
where
  "execute_tool_task env tools manager approval job_id tool_name params =
     (case registry_get tool_name tools of
        None \<Rightarrow> Inl (TaskTool (ExecNotFound tool_name))
      | Some t \<Rightarrow>
          (case get_context job_id manager of
             Inl e \<Rightarrow> Inl (TaskJob e)
           | Inr job_ctx \<Rightarrow>
               if jc_state job_ctx = Cancelled then Inl (TaskTool (ExecFailed tool_name ''Job is cancelled''))
               else
                 (let requirement = tl_requires_approval t (prepare_tool_params (te_coerce env) t params)
                  in if is_blocked_or_default approval tool_name requirement
                     then Inl (TaskAutonomousUnavailable tool_name (autonomous_unavailable_message tool_name (jc_user_id job_ctx)))
                     else
                       (case execute_tool_with_safety (te_coerce env) (te_pretty env) (te_show_error env) tools (te_safety env)
                               tool_name params of
                          Inl e \<Rightarrow> Inl (TaskTool e)
                        | Inr output \<Rightarrow>
                            (case te_from_str env output of
                               Inl e \<Rightarrow> Inl (TaskTool (ExecFailed tool_name (''Failed to parse tool output as JSON: '' @ e)))
                             | Inr v \<Rightarrow> Inr \<lparr>to_result = v, to_duration = te_elapsed env\<rparr>)))))"

text \<open>
  Spawning gives the promise of a result, which is \<open>None\<close> when the task panics; the subtask is tracked. The result is
  that of the task run in the given state.
\<close>

definition spawn_subtask ::
  "task_env \<Rightarrow> uuid \<Rightarrow> uuid \<Rightarrow> task \<Rightarrow> 'd scheduler \<Rightarrow>
     (job_error, (task_error, task_output) result option) result \<times> 'd scheduler"
where
  "spawn_subtask env new_id parent_id t s =
     (let tracked = s\<lparr>sd_subtasks := hm_put new_id False (sd_subtasks s)\<rparr>
      in case t of
           JobTask _ _ _ \<Rightarrow> (Inl (ContextError parent_id ''Use schedule() for Job tasks, not spawn_subtask()''), s)
         | ToolExec tool_parent_id tool_name params \<Rightarrow>
             (Inr (Some (execute_tool_task env (sd_tools s) (sd_manager s) None tool_parent_id tool_name params)), tracked)
         | Background _ handler \<Rightarrow>
             (Inr (handler \<lparr>tx_task_id = new_id, tx_parent_id = Some parent_id, tx_metadata = JNull\<rparr>), tracked))"

fun spawn_all ::
  "task_env \<Rightarrow> (nat \<Rightarrow> uuid) \<Rightarrow> nat \<Rightarrow> uuid \<Rightarrow> task list \<Rightarrow> 'd scheduler \<Rightarrow>
     (job_error, (task_error, task_output) result option) result list \<times> 'd scheduler"
where
  "spawn_all env ids k parent_id [] s = ([], s)"
| "spawn_all env ids k parent_id (t # ts) s =
     (case spawn_subtask env (ids k) parent_id t s of (r, s1) \<Rightarrow>
        (case spawn_all env ids (Suc k) parent_id ts s1 of (rs, s2) \<Rightarrow> (r # rs, s2)))"

definition receive_result ::
  "uuid \<Rightarrow> (job_error, (task_error, task_output) result option) result \<Rightarrow> (task_error, task_output) result"
where
  "receive_result parent_id spawned =
     (case spawned of
        Inr (Some task_result) \<Rightarrow> task_result
      | Inr None \<Rightarrow> Inl (TaskJob (ContextError parent_id ''Subtask channel closed unexpectedly''))
      | Inl _ \<Rightarrow> Inl (TaskJob (ContextError parent_id ''Subtask failed to spawn'')))"

definition spawn_batch ::
  "task_env \<Rightarrow> (nat \<Rightarrow> uuid) \<Rightarrow> uuid \<Rightarrow> task list \<Rightarrow> 'd scheduler \<Rightarrow> (task_error, task_output) result list \<times> 'd scheduler"
where
  "spawn_batch env ids parent_id tasks s =
     (case spawn_all env ids 0 parent_id tasks s of (rs, s') \<Rightarrow> (map (receive_result parent_id) rs, s'))"

subsection \<open>Steps\<close>

text \<open>
  The steps of the program on a scheduler: calls of it, a worker that reads a message or finishes, the cleanup, and any
  operation on the context manager, by workers and others, between them; a job that is created has a new id.
\<close>

fun fresh_op :: "'d scheduler \<Rightarrow> 'd manager_op \<Rightarrow> bool" where
  "fresh_op s (CreateJobForUser i now u t d) = (hm_get (sd_jobs s) i = None)"
| "fresh_op s op = True"

inductive scheduler_step :: "'d::{zero,plus} scheduler \<Rightarrow> 'd scheduler \<Rightarrow> bool" where
  step_schedule: "schedule_with_context now i approval s = (r, t) \<Longrightarrow> scheduler_step s t"
| step_manager: "fresh_op s op \<Longrightarrow> scheduler_step s (s\<lparr>sd_manager := manager_perform op (sd_manager s)\<rparr>)"
| step_saved: "scheduler_step s (s\<lparr>sd_saved := sd_saved s @ [ctx]\<rparr>)"
| step_stop: "stop now i s = Some (r, t) \<Longrightarrow> scheduler_step s t"
| step_send: "send_message i content s = Some (r, t) \<Longrightarrow> scheduler_step s t"
| step_read: "hm_get (sd_jobs s) i = Some j \<Longrightarrow> sj_queue j = msg # q \<Longrightarrow>
    scheduler_step s (s\<lparr>sd_jobs := hm_put i (j\<lparr>sj_queue := q\<rparr>) (sd_jobs s)\<rparr>)"
| step_finish: "hm_get (sd_jobs s) i = Some j \<Longrightarrow>
    scheduler_step s (s\<lparr>sd_jobs := hm_put i (j\<lparr>sj_finished := True\<rparr>) (sd_jobs s)\<rparr>)"
| step_cleanup: "scheduler_step s (cleanup_job i s)"
| step_cleanup_all: "scheduler_step s (cleanup_finished s)"
| step_subtask: "spawn_subtask env i p t s = (r, s') \<Longrightarrow> scheduler_step s s'"

definition scheduler_init :: "agent_config \<Rightarrow> 'd scheduler \<Rightarrow> bool" where
  "scheduler_init config s =
     (\<exists>tools extensions has_store.
        s = scheduler_new config (context_manager_new (ag_max_parallel_jobs config)) tools extensions has_store)"

subsection \<open>Auxiliary definitions\<close>

definition scheduler_inv :: "agent_config \<Rightarrow> 'd scheduler \<Rightarrow> bool" where
  "scheduler_inv config s =
     (sd_config s = config \<and> hm_wf (sd_jobs s) \<and> length (sd_jobs s) \<le> ag_max_parallel_jobs config \<and>
      manager_inv (sd_manager s) \<and>
      (\<forall>i j. hm_get (sd_jobs s) i = Some j \<longrightarrow> length (sj_queue j) \<le> WORKER_QUEUE \<and>
         (\<forall>c. hm_get (mgr_contexts (sd_manager s)) i = Some c \<longrightarrow> jc_state c \<noteq> Pending)))"

text \<open>What the metadata does to the context of a new job.\<close>

definition with_metadata :: "agent_config \<Rightarrow> json option \<Rightarrow> 'd job_context \<Rightarrow> 'd job_context" where
  "with_metadata config metadata c =
     c\<lparr>jc_metadata := (case metadata of Some m \<Rightarrow> m | None \<Rightarrow> jc_metadata c),
       jc_max_tokens := (if job_max_tokens config metadata > 0 then job_max_tokens config metadata else jc_max_tokens c)\<rparr>"

section \<open>Lemmas\<close>

lemma never_to_pending: "\<not> can_transition_to s Pending"
  by (cases s) simp_all

lemma not_pending_perform: "jc_state c \<noteq> Pending \<Longrightarrow> jc_state (fold job_perform ops c) \<noteq> Pending"
proof (induction ops arbitrary: c)
  case (Cons op ops)
  have "jc_state (job_perform op c) \<noteq> Pending" using job_perform_state[of op c] Cons.prems by (auto simp: never_to_pending)
  then show ?case using Cons.IH by simp
qed simp

lemma transition_manager:
  "snd (update_context i (transition_to now st r) m) = manager_perform (UpdateContext i [TransitionTo now st r]) m"
  by (simp add: update_context_def case_prod_unfold Let_def split: option.splits)

lemma not_pending_manager:
  assumes "hm_get (mgr_contexts (manager_perform op m)) i = Some c'" "manager_inv m"
    and old: "\<And>c. hm_get (mgr_contexts m) i = Some c \<Longrightarrow> jc_state c \<noteq> Pending"
    and new: "\<And>now u t d. op \<noteq> CreateJobForUser i now u t d"
  shows "jc_state c' \<noteq> Pending"
proof (cases op)
  case (CreateJobForUser j now u t d)
  then show ?thesis using assms(1-3) new[of now u t d]
    by (auto simp: create_job_for_user_eq insert_context_eq insert_checked_def allocate_memory_def with_user_def split: if_splits)
next
  case (RegisterSandboxJob j k now u t d)
  then show ?thesis using assms
    by (auto simp: register_sandbox_job_def insert_context_eq sandbox_context_def insert_checked_def allocate_memory_def
          split: if_splits)
next
  case (UpdateContext j ops)
  then show ?thesis using assms not_pending_perform
    by (auto simp: update_context_def split: option.splits if_splits)
next
  case (UpdateMemory j ops)
  then show ?thesis using assms by (auto simp: update_memory_def split: option.splits)
next
  case (RemoveJob j)
  then show ?thesis using assms
    by (auto simp: remove_job_def remove_from_contexts_def remove_from_memories_def split: option.splits if_splits)
qed

subsection \<open>The invariant\<close>

lemma inv_manager:
  assumes "scheduler_inv config s" "fresh_op s op"
  shows "scheduler_inv config (s\<lparr>sd_manager := manager_perform op (sd_manager s)\<rparr>)"
proof -
  have "jc_state c \<noteq> Pending" if "hm_get (sd_jobs s) i = Some j" "hm_get (mgr_contexts (manager_perform op (sd_manager s))) i = Some c" for i j c
    by (rule not_pending_manager[OF that(2)]) (use assms that(1) in \<open>auto simp: scheduler_inv_def\<close>)
  then show ?thesis using assms(1) mgr.perform_inv[of "sd_manager s" op] by (auto simp: scheduler_inv_def)
qed

lemma inv_transition:
  fixes s :: "'d::{zero,plus} scheduler"
  shows "scheduler_inv config s \<Longrightarrow> scheduler_inv config (s\<lparr>sd_manager := snd (update_context i (transition_to now st r) (sd_manager s))\<rparr>)"
  unfolding transition_manager by (rule inv_manager) simp_all

lemma inv_jobs_del: "scheduler_inv config s \<Longrightarrow> scheduler_inv config (s\<lparr>sd_jobs := hm_del i (sd_jobs s)\<rparr>)"
  using hm.count_del_le[of "sd_jobs s" "\<lambda>_. True" i] by (auto simp: scheduler_inv_def count_entries_True split: if_splits)

lemma inv_jobs_put:
  assumes "scheduler_inv config s" "hm_get (sd_jobs s) i = Some j0" "length (sj_queue j) \<le> WORKER_QUEUE"
  shows "scheduler_inv config (s\<lparr>sd_jobs := hm_put i j (sd_jobs s)\<rparr>)"
proof -
  have "length (hm_put i j (sd_jobs s)) = length (sd_jobs s)"
    using hm.count_put_same[of "sd_jobs s" i j0 "\<lambda>_. True" j] hm.count_put[of "sd_jobs s" "\<lambda>_. True" i j]
      hm.count_del[of "sd_jobs s" "\<lambda>_. True" i] assms(1,2)
    by (auto simp: count_entries_True scheduler_inv_def)
  then show ?thesis using assms by (auto simp: scheduler_inv_def)
qed

lemma inv_other [simp]:
  "scheduler_inv config (s\<lparr>sd_saved := x\<rparr>) = scheduler_inv config s"
  "scheduler_inv config (s\<lparr>sd_status_writes := y\<rparr>) = scheduler_inv config s"
  "scheduler_inv config (s\<lparr>sd_subtasks := z\<rparr>) = scheduler_inv config s"
  by (simp_all add: scheduler_inv_def)

lemma transition_in_progress:
  "transition_to now InProgress r c = (Inr u, c') \<Longrightarrow> jc_state c' = InProgress"
  by (auto simp: transition_to_def update_timestamps_def split: if_splits)

lemma schedule_scheduled:
  assumes "schedule_with_context now i approval s = (Inr u, t)" "hm_get (sd_jobs s) i = None"
  shows "length (sd_jobs s) < ag_max_parallel_jobs (sd_config s) \<and> user_limit_reached i s = None \<and>
    t = s\<lparr>sd_manager := snd (update_context i (transition_to now InProgress (Some ''Scheduled for execution'')) (sd_manager s)),
          sd_jobs := hm_put i \<lparr>sj_queue = [WStart], sj_finished = False, sj_approval = approval\<rparr> (sd_jobs s)\<rparr> \<and>
    (\<exists>c. hm_get (mgr_contexts (sd_manager t)) i = Some c \<and> jc_state c = InProgress)"
  using assms
  by (auto simp: schedule_with_context_def update_context_def case_prod_unfold Let_def
        split: if_splits option.splits sum.splits dest: transition_in_progress[OF prod_eqI])
     (metis prod.collapse transition_in_progress)+

lemma inv_schedule:
  fixes s :: "'d::{zero,plus} scheduler"
  assumes inv: "scheduler_inv config s" and st: "schedule_with_context now i approval s = (r, t)"
  shows "scheduler_inv config t"
proof (cases "hm_get (sd_jobs s) i")
  case None
  let ?m = "snd (update_context i (transition_to now InProgress (Some ''Scheduled for execution'')) (sd_manager s))"
  have m: "scheduler_inv config (s\<lparr>sd_manager := ?m\<rparr>)" using inv by (rule inv_transition)
  show ?thesis
  proof (cases r)
    case (Inl e)
    then have "t = s \<or> t = s\<lparr>sd_manager := ?m\<rparr>"
      using st by (auto simp: schedule_with_context_def split: if_splits option.splits sum.splits prod.splits)
    then show ?thesis using inv m by auto
  next
    case (Inr u)
    let ?j = "\<lparr>sj_queue = [WStart], sj_finished = False, sj_approval = approval\<rparr>"
    note sch = schedule_scheduled[OF st[unfolded Inr] None]
    have len: "length (hm_put i ?j (sd_jobs s)) \<le> ag_max_parallel_jobs config"
      using length_hm_put[of "sd_jobs s" i ?j] sch inv by (simp add: scheduler_inv_def)
    have t: "t = s\<lparr>sd_manager := ?m, sd_jobs := hm_put i ?j (sd_jobs s)\<rparr>" using sch by blast
    have "jc_state c \<noteq> Pending" if "hm_get (mgr_contexts ?m) i = Some c" for c using sch that unfolding t by auto
    then show ?thesis using m len unfolding t by (auto simp: scheduler_inv_def WORKER_QUEUE_def)
  qed
qed (use assms in \<open>simp add: schedule_with_context_def\<close>)

lemma inv_stop:
  fixes s :: "'d::{zero,plus} scheduler"
  assumes "scheduler_inv config s" "stop now i s = Some (r, t)"
  shows "scheduler_inv config t"
proof (cases "hm_get (sd_jobs s) i")
  case (Some j)
  let ?s1 = "s\<lparr>sd_jobs := hm_del i (sd_jobs s)\<rparr>"
  have "scheduler_inv config (?s1\<lparr>sd_manager := snd (update_context i (transition_to now Cancelled (Some ''Stopped by scheduler'')) (sd_manager ?s1))\<rparr>)"
    by (intro inv_transition inv_jobs_del assms(1))
  then have "scheduler_inv config (t\<lparr>sd_status_writes := y\<rparr>)" for y
    using assms(2) Some by (auto simp: stop_def case_prod_unfold Let_def scheduler_inv_def split: option.splits sum.splits)
  then show ?thesis by simp
qed (use assms in \<open>simp add: stop_def\<close>)

lemma inv_send:
  assumes "scheduler_inv config s" "send_message i content s = Some (r, t)"
  shows "scheduler_inv config t"
  using assms
  by (auto simp: send_message_def send_to_worker_def intro!: inv_jobs_put split: option.splits sum.splits if_splits)

lemma inv_cleanup: "scheduler_inv config s \<Longrightarrow> scheduler_inv config (cleanup_job i s)"
  by (simp add: cleanup_job_def inv_jobs_del split: option.splits)

lemma inv_cleanup_finished: "scheduler_inv config s \<Longrightarrow> scheduler_inv config (cleanup_finished s)"
  using le_trans[OF length_hm_retain[of "\<lambda>_ j. \<not> sj_finished j" "sd_jobs s"]]
  by (auto simp: cleanup_finished_def scheduler_inv_def hm_get_retain split: option.splits if_splits)

lemma inv_subtask: "scheduler_inv config s \<Longrightarrow> spawn_subtask env i p t s = (r, s') \<Longrightarrow> scheduler_inv config s'"
  by (auto simp: spawn_subtask_def Let_def split: task.splits)

lemma inv_queue: "scheduler_inv config s \<Longrightarrow> hm_get (sd_jobs s) i = Some j \<Longrightarrow> length (sj_queue j) \<le> WORKER_QUEUE"
  by (simp add: scheduler_inv_def)

lemma inv_read:
  "scheduler_inv config s \<Longrightarrow> hm_get (sd_jobs s) i = Some j \<Longrightarrow> sj_queue j = msg # q \<Longrightarrow>
   scheduler_inv config (s\<lparr>sd_jobs := hm_put i (j\<lparr>sj_queue := q\<rparr>) (sd_jobs s)\<rparr>)"
  using inv_queue[of config s i j] by (intro inv_jobs_put) auto

lemma inv_finish:
  "scheduler_inv config s \<Longrightarrow> hm_get (sd_jobs s) i = Some j \<Longrightarrow>
   scheduler_inv config (s\<lparr>sd_jobs := hm_put i (j\<lparr>sj_finished := True\<rparr>) (sd_jobs s)\<rparr>)"
  using inv_queue[of config s i j] by (intro inv_jobs_put) auto

lemma scheduler_step_inv:
  fixes s :: "'d::{zero,plus} scheduler"
  assumes "scheduler_step s t" "scheduler_inv config s"
  shows "scheduler_inv config t"
  using assms
  by cases (auto intro: inv_schedule inv_manager inv_stop inv_send inv_read inv_finish inv_cleanup inv_cleanup_finished inv_subtask)

interpretation sched: step_invariant "scheduler_init config" scheduler_step "scheduler_inv config" for config
proof
  fix s :: "'d::{zero,plus} scheduler"
  assume "scheduler_init config s"
  then show "scheduler_inv config s"
    by (auto simp: scheduler_init_def scheduler_inv_def scheduler_new_def manager_inv_new)
qed (rule scheduler_step_inv)

subsection \<open>Dispatch\<close>

lemma created:
  assumes "create_job_for_user i now u t d m = (r, m')"
  shows "(parallel_count (mgr_contexts m) \<ge> mgr_max_jobs m \<and> r = Inl (MaxJobsExceeded (mgr_max_jobs m)) \<and> m' = m) \<or>
    (parallel_count (mgr_contexts m) < mgr_max_jobs m \<and> r = Inr i \<and>
     mgr_contexts m' = hm_put i (with_user i now u t d) (mgr_contexts m) \<and> mgr_max_jobs m' = mgr_max_jobs m)"
  using assms
  by (auto simp: create_job_for_user_def insert_context_def insert_checked_def allocate_memory_def with_user_def Let_def
        split: if_splits)

lemma count_put_fresh:
  "hm_wf m \<Longrightarrow> hm_get m k = None \<Longrightarrow> count_entries P (hm_put k v m) = count_entries P m + (if P v then 1 else 0)"
  using hm.count_put[of m P k v] hm.count_del[of m P k] by simp

lemma count_put_twice: "hm_wf m \<Longrightarrow> count_entries P (hm_put k w (hm_put k v m)) = count_entries P (hm_put k w m)"
  using hm.count_put[of "hm_put k v m" P k w] hm.count_put[of m P k w] hm.count_put[of m P k v] hm.count_del[of "hm_put k v m" P k]
  by (auto split: if_splits)

lemma metadata_applied:
  assumes "hm_get (mgr_contexts m) i = Some c"
  shows "\<exists>m'. apply_metadata config i metadata m = (Inr (with_metadata config metadata c), m') \<and>
    (mgr_contexts m' = hm_put i (with_metadata config metadata c) (mgr_contexts m) \<or> m' = m \<and> with_metadata config metadata c = c)"
  using assms
  by (auto simp: apply_metadata_def with_metadata_def update_context_and_get_def get_context_def Let_def split: option.splits)

lemma dispatch_created:
  assumes "hm_wf (mgr_contexts (sd_manager s))" "hm_get (mgr_contexts (sd_manager s)) new_id = None"
    and room: "parallel_count (mgr_contexts (sd_manager s)) < mgr_max_jobs (sd_manager s)"
    and c: "c = with_metadata (sd_config s) metadata (with_user new_id now user title description)"
  obtains m where "dispatch_job_inner new_id now save user title description metadata approval s =
      save_and_schedule now save approval new_id c (s\<lparr>sd_manager := m\<rparr>)"
    "hm_get (mgr_contexts m) new_id = Some c"
    "\<And>P. count_entries P (mgr_contexts m) = count_entries P (mgr_contexts (sd_manager s)) + (if P c then 1 else 0)"
proof -
  let ?u = "with_user new_id now user title description"
  obtain r m1 where cr: "create_job_for_user new_id now user title description (sd_manager s) = (r, m1)" by force
  have m1: "r = Inr new_id" "mgr_contexts m1 = hm_put new_id ?u (mgr_contexts (sd_manager s))"
    using created[OF cr] room by auto
  then obtain m where m: "apply_metadata (sd_config s) new_id metadata m1 = (Inr c, m)"
      "mgr_contexts m = hm_put new_id c (mgr_contexts m1) \<or> m = m1 \<and> c = ?u"
    using metadata_applied[of m1 new_id ?u "sd_config s" metadata] unfolding c by auto
  show thesis
  proof (rule that)
    show "dispatch_job_inner new_id now save user title description metadata approval s =
        save_and_schedule now save approval new_id c (s\<lparr>sd_manager := m\<rparr>)"
      using cr m1(1) m(1) by (simp add: dispatch_job_inner_def)
    show "hm_get (mgr_contexts m) new_id = Some c" using m(2) m1(2) by auto
    show "count_entries P (mgr_contexts m) = count_entries P (mgr_contexts (sd_manager s)) + (if P c then 1 else 0)" for P
      using m(2) m1(2) assms(1,2) by (auto simp: count_put_fresh count_put_twice)
  qed
qed

lemma with_metadata_simps [simp]:
  "jc_user_id (with_metadata config meta c) = jc_user_id c" "jc_state (with_metadata config meta c) = jc_state c"
  "jc_max_tokens (with_metadata config meta (with_user i now u t d)) = job_max_tokens config meta"
  by (auto simp: with_metadata_def with_user_def word_gt_0)

lemma with_user_simps [simp]:
  "jc_user_id (with_user i now u t d) = u" "jc_state (with_user i now u t d) = Pending"
  by (simp_all add: with_user_def)

text \<open>A new job is scheduled unless it was not saved or a limit is reached.\<close>

lemma schedule_pending:
  assumes "hm_get (sd_jobs s) i = None" "hm_get (mgr_contexts (sd_manager s)) i = Some c" "jc_state c = Pending"
  shows "schedule_with_context now i approval s =
    (if length (sd_jobs s) \<ge> ag_max_parallel_jobs (sd_config s) then (Inl (MaxJobsExceeded (ag_max_parallel_jobs (sd_config s))), s)
     else case user_limit_reached i s of Some m \<Rightarrow> (Inl (MaxJobsExceeded m), s)
       | None \<Rightarrow> (Inr (), s\<lparr>sd_manager := snd (update_context i (transition_to now InProgress (Some ''Scheduled for execution'')) (sd_manager s)),
          sd_jobs := hm_put i \<lparr>sj_queue = [WStart], sj_finished = False, sj_approval = approval\<rparr> (sd_jobs s)\<rparr>))"
  using assms
  by (auto simp: schedule_with_context_def update_context_def case_prod_unfold Let_def transition_to_def split: option.splits)

lemma user_limit_new:
  assumes "hm_get (mgr_contexts (sd_manager s)) i = Some c"
    and "count_entries (\<lambda>x. jc_user_id x = jc_user_id c \<and> is_parallel_blocking (jc_state x)) (mgr_contexts (sd_manager s)) = Suc k"
  shows "user_limit_reached i s = (case ag_max_jobs_per_user (sd_config s) of Some n \<Rightarrow> if Suc k \<ge> n then Some n else None | None \<Rightarrow> None)"
  using assms by (simp add: user_limit_reached_def get_context_def parallel_blocking_count_for_def split: option.splits)

text \<open>The answer of a dispatch for which the manager has room.\<close>

lemma dispatch_answer:
  assumes "hm_wf (mgr_contexts (sd_manager s))" "hm_get (mgr_contexts (sd_manager s)) new_id = None" "hm_get (sd_jobs s) new_id = None"
    and room: "parallel_count (mgr_contexts (sd_manager s)) < mgr_max_jobs (sd_manager s)"
    and d: "dispatch_job_inner new_id now save user title description metadata approval s = (r, s')"
  defines "c \<equiv> with_metadata (sd_config s) metadata (with_user new_id now user title description)"
  shows "(\<forall>e. r = Inl e \<longrightarrow> hm_get (mgr_contexts (sd_manager s')) new_id = Some c \<and> sd_jobs s' = sd_jobs s \<and>
      parallel_count (mgr_contexts (sd_manager s')) = Suc (parallel_count (mgr_contexts (sd_manager s)))) \<and>
    (\<forall>i. r = Inr i \<longrightarrow> i = new_id \<and> running_count s < ag_max_parallel_jobs (sd_config s) \<and>
      (\<forall>n. ag_max_jobs_per_user (sd_config s) = Some n \<longrightarrow> Suc (parallel_blocking_count_for user (sd_manager s)) < n) \<and>
      hm_get (sd_jobs s') i = Some \<lparr>sj_queue = [WStart], sj_finished = False, sj_approval = approval\<rparr> \<and>
      hm_get (mgr_contexts (sd_manager s')) i = Some (snd (transition_to now InProgress (Some ''Scheduled for execution'') c)))"
proof -
  obtain m where m: "dispatch_job_inner new_id now save user title description metadata approval s =
        save_and_schedule now save approval new_id c (s\<lparr>sd_manager := m\<rparr>)"
      and g: "hm_get (mgr_contexts m) new_id = Some c"
      and n: "\<And>P. count_entries P (mgr_contexts m) = count_entries P (mgr_contexts (sd_manager s)) + (if P c then 1 else 0)"
    by (rule dispatch_created[OF assms(1,2) room c_def[THEN meta_eq_to_obj_eq]]) blast
  have c: "jc_state c = Pending" "jc_user_id c = user" by (simp_all add: c_def)
  have pc: "parallel_count (mgr_contexts m) = Suc (parallel_count (mgr_contexts (sd_manager s)))"
    using n[of "\<lambda>x. is_parallel_blocking (jc_state x)"] c by (simp add: parallel_count_def is_parallel_blocking_def)
  have cu: "count_entries (\<lambda>x. jc_user_id x = jc_user_id c \<and> is_parallel_blocking (jc_state x)) (mgr_contexts m) =
      Suc (parallel_blocking_count_for user (sd_manager s))"
    using n[of "\<lambda>x. jc_user_id x = jc_user_id c \<and> is_parallel_blocking (jc_state x)"] c
    by (simp add: parallel_blocking_count_for_def is_parallel_blocking_def)
  let ?s = "\<lambda>saved. s\<lparr>sd_manager := m, sd_saved := saved\<rparr>"
  have sch: "schedule_with_context now new_id approval (?s saved) =
    (if length (sd_jobs s) \<ge> ag_max_parallel_jobs (sd_config s) then (Inl (MaxJobsExceeded (ag_max_parallel_jobs (sd_config s))), ?s saved)
     else case (case ag_max_jobs_per_user (sd_config s) of
           Some k \<Rightarrow> if Suc (parallel_blocking_count_for user (sd_manager s)) \<ge> k then Some k else None | None \<Rightarrow> None) of
         Some k \<Rightarrow> (Inl (MaxJobsExceeded k), ?s saved)
       | None \<Rightarrow> (Inr (), (?s saved)\<lparr>sd_manager := snd (update_context new_id (transition_to now InProgress (Some ''Scheduled for execution'')) m),
          sd_jobs := hm_put new_id \<lparr>sj_queue = [WStart], sj_finished = False, sj_approval = approval\<rparr> (sd_jobs s)\<rparr>))" for saved
    using schedule_pending[of "?s saved" new_id c now approval] user_limit_new[of "?s saved" new_id c] g c assms(3) cu
    by (simp cong: option.case_cong)
  have up: "hm_get (mgr_contexts (snd (update_context new_id (transition_to now InProgress x) m))) new_id =
      Some (snd (transition_to now InProgress x c))" for x
    using g by (simp add: update_context_def case_prod_unfold Let_def)
  have "(r, s') = save_and_schedule now save approval new_id c (?s (sd_saved s))" using d m by simp
  then show ?thesis
    using sch[of "sd_saved s"] sch[of "sd_saved s @ [c]"] g pc up
    by (auto simp: save_and_schedule_def Let_def running_count_def split: if_splits option.splits prod.splits sum.splits)
qed

lemma new_job:
  assumes "manager_inv m" "get_context i m = Inl (NotFound i)" "\<not> is_running_job i s"
  shows "hm_wf (mgr_contexts m)" "hm_get (mgr_contexts m) i = None" "hm_get (sd_jobs s) i = None"
  using assms by (auto simp: manager_inv_def contexts_inv_def get_context_def is_running_job_def split: option.splits)

lemma transition_user: "jc_user_id (snd (transition_to now st r c)) = jc_user_id c"
  by (simp add: transition_to_def update_timestamps_def)

lemma cancelled_from: "can_transition_to st Cancelled \<longleftrightarrow> is_parallel_blocking st"
  by (cases st) (simp_all add: is_parallel_blocking_def)

lemma spawn_fst_same: "fst (spawn_subtask env i p t (s\<lparr>sd_subtasks := x\<rparr>)) = fst (spawn_subtask env i p t s)"
  by (simp add: spawn_subtask_def Let_def split: task.splits)

lemma spawn_snd: "\<exists>x. snd (spawn_subtask env i p t s) = s\<lparr>sd_subtasks := x\<rparr>"
  by (cases t) (auto simp: spawn_subtask_def Let_def intro: exI[of _ "sd_subtasks s"])

lemma spawn_all_fst:
  "fst (spawn_all env ids k p ts s) = map (\<lambda>(k, t). fst (spawn_subtask env (ids k) p t s)) (List.enumerate k ts)"
proof (induction ts arbitrary: k s)
  case (Cons t ts)
  obtain x where x: "snd (spawn_subtask env (ids k) p t s) = s\<lparr>sd_subtasks := x\<rparr>" using spawn_snd by blast
  show ?case using Cons[of "Suc k" "s\<lparr>sd_subtasks := x\<rparr>"] by (simp add: case_prod_unfold x spawn_fst_same)
qed simp

section \<open>Properties\<close>

text \<open>
  C10. In every reachable state at most as many jobs run as the configuration allows, however calls, workers and
  cleanups interleave, and no job that runs is still pending.
\<close>

theorem running_jobs_bounded:
  fixes s :: "'d::{zero,plus} scheduler"
  assumes "reachable (scheduler_init config) scheduler_step s"
  shows "running_count s \<le> ag_max_parallel_jobs config \<and>
    (\<forall>i c. is_running_job i s \<and> get_context i (sd_manager s) = Inr c \<longrightarrow> jc_state c \<noteq> Pending)"
  using sched.reachable_inv[OF assms]
  by (auto simp: scheduler_inv_def running_count_def is_running_job_def get_context_def split: option.splits)

text \<open>
  C33. A job that was dispatched for a user runs: it is in progress, it belongs to the user, its worker is started, and
  the tools it may use without approval are none of those denied to autonomous runs.
\<close>

theorem dispatched_job_runs:
  assumes "dispatch_job new_id now save user title description metadata s = (Inr i, s')"
    and "manager_inv (sd_manager s)" and "get_context new_id (sd_manager s) = Inl (NotFound new_id)" and "\<not> is_running_job new_id s"
  shows "i = new_id \<and> is_running_job i s' \<and>
    (\<exists>c. get_context i (sd_manager s') = Inr c \<and> jc_state c = InProgress \<and> jc_user_id c = user) \<and>
    (\<exists>j tools. hm_get (sd_jobs s') i = Some j \<and> sj_approval j = Some (Autonomous tools) \<and> tools \<inter> set AUTONOMOUS_TOOL_DENYLIST = {})"
proof -
  let ?a = "autonomous_approval_context user s"
  have "parallel_count (mgr_contexts (sd_manager s)) < mgr_max_jobs (sd_manager s)"
    using assms(1) created[of new_id now user title description "sd_manager s"]
    by (auto simp: dispatch_job_def dispatch_job_inner_def split: prod.splits sum.splits)
  note ans = dispatch_answer[OF new_job[OF assms(2-4)] this assms(1)[unfolded dispatch_job_def]]
  have "tools \<inter> set AUTONOMOUS_TOOL_DENYLIST = {}" if "?a = Autonomous tools" for tools
    using that by (auto simp: autonomous_approval_context_def autonomous_with_tools_def autonomous_allowed_tool_names_def
        is_autonomous_tool_denylisted_def Let_def split: option.splits if_splits)
  then show ?thesis using ans by (cases ?a) (auto simp: is_running_job_def get_context_def transition_to_state transition_user)
qed

text \<open>
  C34. A dispatch that fails although the manager had room leaves the new job behind: it stays pending, no worker has it,
  and it takes one of the slots of the manager.
\<close>

theorem failed_dispatch_keeps_slot:
  assumes "dispatch_job_inner new_id now save user title description metadata approval s = (Inl e, s')"
    and "parallel_count (mgr_contexts (sd_manager s)) < mgr_max_jobs (sd_manager s)"
    and "manager_inv (sd_manager s)" and "get_context new_id (sd_manager s) = Inl (NotFound new_id)" and "\<not> is_running_job new_id s"
  shows "(\<exists>c. get_context new_id (sd_manager s') = Inr c \<and> jc_state c = Pending) \<and> \<not> is_running_job new_id s' \<and>
    parallel_count (mgr_contexts (sd_manager s')) = Suc (parallel_count (mgr_contexts (sd_manager s)))"
  using dispatch_answer[OF new_job[OF assms(3-5)] assms(2,1)] assms(5) by (auto simp: is_running_job_def get_context_def)

text \<open>
  The limit for each user counts the job that is to be scheduled: with a limit of \<open>n\<close> a dispatch succeeds only when
  the user has fewer than \<open>n - 1\<close> jobs before it, and never with a limit of one.
\<close>

theorem user_limit_counts_itself:
  assumes "dispatch_job_inner new_id now save user title description metadata approval s = (Inr i, s')"
    and "ag_max_jobs_per_user (sd_config s) = Some n"
    and "manager_inv (sd_manager s)" and "get_context new_id (sd_manager s) = Inl (NotFound new_id)" and "\<not> is_running_job new_id s"
  shows "Suc (parallel_blocking_count_for user (sd_manager s)) < n"
proof -
  have "parallel_count (mgr_contexts (sd_manager s)) < mgr_max_jobs (sd_manager s)"
    using assms(1) created[of new_id now user title description "sd_manager s"]
    by (auto simp: dispatch_job_inner_def split: prod.splits sum.splits)
  then show ?thesis using dispatch_answer[OF new_job[OF assms(3-5)] _ assms(1)] assms(2) by auto
qed

text \<open>
  The tokens of a job are capped at the limit of the configuration, whatever its metadata say; but metadata with zero
  tokens give zero, which is no limit at all.
\<close>

theorem job_tokens_capped:
  assumes "ag_max_tokens_per_job config \<noteq> 0"
  shows "job_max_tokens config metadata \<le> ag_max_tokens_per_job config \<and>
    (user_max_tokens metadata = Some 0 \<longrightarrow>
       fst (add_tokens n (with_metadata config metadata (with_user i now u t d))) = Inr ())"
  using assms by (auto simp: job_max_tokens_def add_tokens_def with_metadata_def with_user_def Let_def split: option.splits)

text \<open>
  Stopping a job takes it off the running ones, and cancels it unless it had left the states that take a slot.
\<close>

theorem stop_cancels:
  assumes "stop now i s = Some (r, s')" and "get_context i (sd_manager s) = Inr c" and "is_running_job i s"
  shows "r = Inr () \<and> \<not> is_running_job i s' \<and>
    (\<exists>c'. get_context i (sd_manager s') = Inr c' \<and>
       jc_state c' = (if is_parallel_blocking (jc_state c) then Cancelled else jc_state c))"
  using assms
  by (auto simp: stop_def is_running_job_def get_context_def update_context_def case_prod_unfold Let_def transition_to_state
        cancelled_from split: option.splits if_splits)

text \<open>
  A job whose worker does not read its messages cannot be stopped: with sixteen messages waiting, stopping waits for
  room in the channel, with the lock of the running jobs held, and never comes to the abort.
\<close>

theorem stop_waits_for_worker:
  assumes "hm_get (sd_jobs s) i = Some j" and "\<not> sj_finished j" and "length (sj_queue j) = WORKER_QUEUE"
  shows "stop now i s = None"
  using assms by (simp add: stop_def send_to_worker_def)

text \<open>
  A tool task gives an output only for a registered tool and a job that is not cancelled, and only when the approval
  context allows the tool or, without a context, the tool needs no approval.
\<close>

theorem tool_task_guarded:
  assumes "execute_tool_task env tools manager approval i tool_name params = Inr out"
  shows "\<exists>t c. registry_get tool_name tools = Some t \<and> get_context i manager = Inr c \<and> jc_state c \<noteq> Cancelled \<and>
    (case approval of Some ctx \<Rightarrow> tool_name \<in> allowed_tools ctx
     | None \<Rightarrow> tl_requires_approval t (prepare_tool_params (te_coerce env) t params) = ApprovalNever)"
  using assms
  by (auto simp: execute_tool_task_def is_blocked_or_default_def context_is_blocked_def is_required_def Let_def
        split: option.splits sum.splits if_splits)

text \<open>
  The results of a batch are those of its tasks, each spawned alone in the state at the start, in the order of the
  tasks.
\<close>

theorem batch_in_order:
  "fst (spawn_batch env ids parent tasks s) =
     map (\<lambda>(k, t). receive_result parent (fst (spawn_subtask env (ids k) parent t s))) (List.enumerate 0 tasks)"
  by (simp add: spawn_batch_def case_prod_unfold spawn_all_fst comp_def)

section \<open>Witnesses\<close>

definition sample_scheduler :: "nat option \<Rightarrow> nat scheduler" where
  "sample_scheduler per_user =
     scheduler_new \<lparr>ag_max_parallel_jobs = 3, ag_max_jobs_per_user = per_user, ag_max_tokens_per_job = 1000\<rparr>
       (context_manager_new 3) tool_registry_new None True"

lemma sample_scheduler_new:
  "manager_inv (sd_manager (sample_scheduler n))" "get_context i (sd_manager (sample_scheduler n)) = Inl (NotFound i)"
  "\<not> is_running_job i (sample_scheduler n)" "ag_max_jobs_per_user (sd_config (sample_scheduler n)) = n"
  by (simp_all add: sample_scheduler_def scheduler_new_def manager_inv_new is_running_job_def)
     (simp add: get_context_def context_manager_new_def)

lemma sample_dispatch:
  "fst (dispatch_job 7 0 (\<lambda>_. None) ''ann'' ''t'' ''d'' None (sample_scheduler None)) = Inr 7"
  "fst (dispatch_job_inner 7 0 (\<lambda>_. None) ''ann'' ''t'' ''d'' None None (sample_scheduler (Some 1))) = Inl (MaxJobsExceeded 1)"
  "fst (dispatch_job_inner 7 0 (\<lambda>_. None) ''ann'' ''t'' ''d'' None None (sample_scheduler (Some 2))) = Inr 7"
  by code_simp+

theorem running_jobs_bounded_witness:
  "running_count (snd (schedule_with_context 0 7 None (sample_scheduler None))) \<le> 3"
proof -
  let ?c = "sd_config (sample_scheduler None)"
  have "reachable (scheduler_init ?c) scheduler_step (sample_scheduler None)"
    by (intro reachable_init) (auto simp: scheduler_init_def sample_scheduler_def scheduler_new_def)
  then have "reachable (scheduler_init ?c) scheduler_step (snd (schedule_with_context 0 7 None (sample_scheduler None)))"
    by (rule reachable_step) (rule step_schedule, rule prod.collapse[symmetric])
  from running_jobs_bounded[OF this] show ?thesis by (simp add: sample_scheduler_def scheduler_new_def)
qed

theorem dispatched_job_runs_witness:
  "is_running_job 7 (snd (dispatch_job 7 0 (\<lambda>_. None) ''ann'' ''t'' ''d'' None (sample_scheduler None)))"
  using dispatched_job_runs[OF prod_eqI sample_scheduler_new(1-3), of 7 0 "\<lambda>_. None" "''ann''" "''t''" "''d''" None None 7
      "snd (dispatch_job 7 0 (\<lambda>_. None) ''ann'' ''t'' ''d'' None (sample_scheduler None))"] sample_dispatch(1) by simp

theorem failed_dispatch_keeps_slot_witness:
  "parallel_count (mgr_contexts (sd_manager (snd (dispatch_job_inner 7 0 (\<lambda>_. None) ''ann'' ''t'' ''d'' None None (sample_scheduler (Some 1)))))) = 1"
proof -
  let ?d = "dispatch_job_inner 7 0 (\<lambda>_. None) ''ann'' ''t'' ''d'' None None (sample_scheduler (Some 1))"
  have d: "?d = (Inl (MaxJobsExceeded 1), snd ?d)" using sample_dispatch(2) by (intro prod_eqI) simp_all
  have room: "parallel_count (mgr_contexts (sd_manager (sample_scheduler (Some 1)))) = 0" "mgr_max_jobs (sd_manager (sample_scheduler (Some 1))) = 3"
    by (simp_all add: sample_scheduler_def scheduler_new_def context_manager_new_def parallel_count_def)
  show ?thesis using failed_dispatch_keeps_slot[OF d _ sample_scheduler_new(1-3)] room by simp
qed

theorem user_limit_counts_itself_witness: "Suc (parallel_blocking_count_for ''ann'' (sd_manager (sample_scheduler (Some 2)))) < 2"
proof -
  let ?d = "dispatch_job_inner 7 0 (\<lambda>_. None) ''ann'' ''t'' ''d'' None None (sample_scheduler (Some 2))"
  have d: "?d = (Inr 7, snd ?d)" using sample_dispatch(3) by (intro prod_eqI) simp_all
  show ?thesis by (rule user_limit_counts_itself[OF d sample_scheduler_new(4) sample_scheduler_new(1-3)])
qed

theorem job_tokens_capped_witness:
  "fst (add_tokens 5000 (with_metadata (sd_config (sample_scheduler None)) (Some (JObject [(''max_tokens'', JNumber (PosInt 0))]))
     (with_user 7 0 ''ann'' ''t'' ''d''))) = Inr ()"
proof -
  have "ag_max_tokens_per_job (sd_config (sample_scheduler None)) \<noteq> 0" by (simp add: sample_scheduler_def scheduler_new_def)
  moreover have "user_max_tokens (Some (JObject [(''max_tokens'', JNumber (PosInt 0))])) = Some 0" by code_simp
  ultimately show ?thesis using job_tokens_capped by blast
qed

theorem stop_cancels_witness:
  "\<exists>s c'. stop 1 7 (snd (dispatch_job 7 0 (\<lambda>_. None) ''ann'' ''t'' ''d'' None (sample_scheduler None))) = Some (Inr (), s) \<and>
     get_context 7 (sd_manager s) = Inr c' \<and> jc_state c' = Cancelled"
proof -
  let ?s = "snd (dispatch_job 7 0 (\<lambda>_. None) ''ann'' ''t'' ''d'' None (sample_scheduler None))"
  have st: "map_option fst (stop 1 7 ?s) = Some (Inr ())" by code_simp
  then obtain s' where s': "stop 1 7 ?s = Some (Inr (), s')" by force
  have run: "is_running_job 7 ?s" by code_simp
  have "map_sum id jc_state (get_context 7 (sd_manager ?s)) = Inr InProgress" by code_simp
  then obtain c where c: "get_context 7 (sd_manager ?s) = Inr c" "jc_state c = InProgress"
    by (cases "get_context 7 (sd_manager ?s)") auto
  show ?thesis using stop_cancels[OF s' c(1) run] c(2) s' by (auto simp: is_parallel_blocking_def)
qed

theorem stop_waits_for_worker_witness:
  "stop 0 7 ((sample_scheduler None)\<lparr>sd_jobs := [(7, \<lparr>sj_queue = replicate 16 WPing, sj_finished = False, sj_approval = None\<rparr>)]\<rparr>) = None"
  by (rule stop_waits_for_worker) (auto simp: hm_get_def WORKER_QUEUE_def)

definition sample_task_env :: task_env where
  "sample_task_env = \<lparr>te_coerce = \<lparr>cl_from_str = \<lambda>_. None, cl_parse_f64 = \<lambda>_. None\<rparr>, te_pretty = (\<lambda>_. Inr ''{}''),
     te_from_str = (\<lambda>_. Inr (JObject [])), te_show_error = (\<lambda>_. []), te_safety = sample_safety_layer, te_elapsed = 0\<rparr>"

theorem tool_task_guarded_witness:
  "tl_requires_approval (sample_tool ''echo'' []) (prepare_tool_params (te_coerce sample_task_env) (sample_tool ''echo'' []) JNull) = ApprovalNever"
proof -
  let ?tools = "tool_register (sample_tool ''echo'' []) tool_registry_new"
  let ?m = "snd (create_job_for_user 7 0 ''ann'' ''t'' ''d'' (context_manager_new 3)) :: nat context_manager"
  have p: "prepare_params_for_schema (te_coerce sample_task_env) JNull x = JNull" for x
    unfolding prepare_params_for_schema_def sample_task_env_def by (subst coerce_value.simps) simp
  have "vr_is_valid (validate_tool_params (sl_validator sample_safety_layer) JNull)"
    by (simp add: sample_safety_layer_def safety_layer_new_def validate_tool_params_def check_strings.simps)
  moreover have "get_context 7 ?m = Inr (with_user 7 0 ''ann'' ''t'' ''d'')" by code_simp
  ultimately have "execute_tool_task sample_task_env ?tools ?m None 7 ''echo'' JNull = Inr \<lparr>to_result = JObject [], to_duration = 0\<rparr>"
    by (simp add: execute_tool_task_def execute_tool_with_safety_def registry_get_register shadows_def sample_tool_def tool_registry_new_def
          is_blocked_or_default_def is_required_def prepare_tool_params_def p Let_def) (simp add: sample_task_env_def)
  from tool_task_guarded[OF this] show ?thesis by (auto simp: registry_get_register sample_tool_def split: if_splits)
qed

end
