(* ===== verification/Compaction.thy ===== *)
theory Compaction
  imports Complex_Main Session Workspace
begin

text \<open>
  The size of a conversation and what is done when it grows too large: \<open>src/agent/context_monitor.rs\<close>,
  \<open>src/agent/compaction.rs\<close>, the command \<open>process_compact\<close> of \<open>src/agent/thread_ops.rs\<close> and the retry of
  \<open>src/agent/dispatcher.rs\<close> after a request that was too long. Floating-point numbers are a type parameter with the
  operations that the code uses; the model that writes a summary and the clock are parameters.
\<close>

section \<open>Model\<close>

subsection \<open>Monitor\<close>

record 'f float_ops =
  fo_of_usize :: "nat \<Rightarrow> 'f"
  fo_to_usize :: "'f \<Rightarrow> nat"
  fo_mul :: "'f \<Rightarrow> 'f \<Rightarrow> 'f"
  fo_div :: "'f \<Rightarrow> 'f \<Rightarrow> 'f"
  fo_less :: "'f \<Rightarrow> 'f \<Rightarrow> bool"
  fo_literal :: "rat \<Rightarrow> 'f"

definition DEFAULT_CONTEXT_LIMIT :: nat where "DEFAULT_CONTEXT_LIMIT = 100000"
definition COMPACTION_THRESHOLD :: rat where "COMPACTION_THRESHOLD = 8 / 10"
definition TOKENS_PER_WORD :: rat where "TOKENS_PER_WORD = 13 / 10"

datatype compaction_strategy = Summarize (keep_recent: nat) | Truncate (keep_recent: nat) | MoveToWorkspace

definition default_strategy :: compaction_strategy where
  "default_strategy = Summarize 5"

record 'f context_monitor =
  mo_context_limit :: nat
  mo_threshold_ratio :: 'f

definition context_monitor_new :: "'f float_ops \<Rightarrow> 'f context_monitor" where
  "context_monitor_new fo = \<lparr>mo_context_limit = DEFAULT_CONTEXT_LIMIT, mo_threshold_ratio = fo_literal fo COMPACTION_THRESHOLD\<rparr>"

definition with_limit :: "nat \<Rightarrow> 'f context_monitor \<Rightarrow> 'f context_monitor" where
  "with_limit limit m = m\<lparr>mo_context_limit := limit\<rparr>"

definition float_clamp :: "'f float_ops \<Rightarrow> 'f \<Rightarrow> 'f \<Rightarrow> 'f \<Rightarrow> 'f" where
  "float_clamp fo lo hi x = (if fo_less fo x lo then lo else if fo_less fo hi x then hi else x)"

definition with_threshold :: "'f float_ops \<Rightarrow> 'f \<Rightarrow> 'f context_monitor \<Rightarrow> 'f context_monitor" where
  "with_threshold fo ratio m = m\<lparr>mo_threshold_ratio := float_clamp fo (fo_literal fo (1 / 2)) (fo_literal fo (95 / 100)) ratio\<rparr>"

definition word_tokens :: "'f float_ops \<Rightarrow> string \<Rightarrow> nat" where
  "word_tokens fo s =
     fo_to_usize fo (fo_mul fo (fo_of_usize fo (length (split_whitespace s))) (fo_literal fo TOKENS_PER_WORD))"

definition estimate_message_tokens :: "'f float_ops \<Rightarrow> chat_message \<Rightarrow> nat" where
  "estimate_message_tokens fo msg = word_tokens fo (cm_content msg) + 4"

definition estimate_text_tokens :: "'f float_ops \<Rightarrow> string \<Rightarrow> nat" where
  "estimate_text_tokens fo s = word_tokens fo s"

definition estimate_tokens :: "'f float_ops \<Rightarrow> chat_message list \<Rightarrow> nat" where
  "estimate_tokens fo msgs = sum_list (map (estimate_message_tokens fo) msgs)"

definition monitor_threshold :: "'f float_ops \<Rightarrow> 'f context_monitor \<Rightarrow> nat" where
  "monitor_threshold fo m = fo_to_usize fo (fo_mul fo (fo_of_usize fo (mo_context_limit m)) (mo_threshold_ratio m))"

definition needs_compaction :: "'f float_ops \<Rightarrow> 'f context_monitor \<Rightarrow> chat_message list \<Rightarrow> bool" where
  "needs_compaction fo m msgs = (estimate_tokens fo msgs \<ge> monitor_threshold fo m)"

definition usage_ratio :: "'f float_ops \<Rightarrow> 'f context_monitor \<Rightarrow> chat_message list \<Rightarrow> 'f" where
  "usage_ratio fo m msgs = fo_div fo (fo_of_usize fo (estimate_tokens fo msgs)) (fo_of_usize fo (mo_context_limit m))"

definition usage_percent :: "'f float_ops \<Rightarrow> 'f context_monitor \<Rightarrow> chat_message list \<Rightarrow> 'f" where
  "usage_percent fo m msgs = fo_mul fo (usage_ratio fo m msgs) (fo_literal fo 100)"

definition suggest_compaction :: "'f float_ops \<Rightarrow> 'f context_monitor \<Rightarrow> chat_message list \<Rightarrow> compaction_strategy option" where
  "suggest_compaction fo m msgs =
     (if \<not> needs_compaction fo m msgs then None
      else if fo_less fo (fo_literal fo (95 / 100)) (usage_ratio fo m msgs) then Some (Truncate 3)
      else if fo_less fo (fo_literal fo (85 / 100)) (usage_ratio fo m msgs) then Some (Summarize 5)
      else Some MoveToWorkspace)"

record context_breakdown =
  cb_total_tokens :: nat
  cb_system_tokens :: nat
  cb_user_tokens :: nat
  cb_assistant_tokens :: nat
  cb_tool_tokens :: nat
  cb_message_count :: nat

definition count_message :: "'f float_ops \<Rightarrow> chat_message \<Rightarrow> context_breakdown \<Rightarrow> context_breakdown" where
  "count_message fo msg b =
     (let tokens = estimate_message_tokens fo msg;
          b' = b\<lparr>cb_total_tokens := cb_total_tokens b + tokens\<rparr>
      in case cm_role msg of
           System \<Rightarrow> b'\<lparr>cb_system_tokens := cb_system_tokens b + tokens\<rparr>
         | User \<Rightarrow> b'\<lparr>cb_user_tokens := cb_user_tokens b + tokens\<rparr>
         | Assistant \<Rightarrow> b'\<lparr>cb_assistant_tokens := cb_assistant_tokens b + tokens\<rparr>
         | Tool \<Rightarrow> b'\<lparr>cb_tool_tokens := cb_tool_tokens b + tokens\<rparr>)"

definition analyze :: "'f float_ops \<Rightarrow> chat_message list \<Rightarrow> context_breakdown" where
  "analyze fo msgs =
     fold (count_message fo) msgs
       \<lparr>cb_total_tokens = 0, cb_system_tokens = 0, cb_user_tokens = 0, cb_assistant_tokens = 0, cb_tool_tokens = 0,
        cb_message_count = length msgs\<rparr>"

subsection \<open>Compaction\<close>

record compaction_partial =
  cp_turns_removed :: nat
  cp_summary_written :: bool
  cp_summary :: "string option"

definition partial_empty :: compaction_partial where
  "partial_empty = \<lparr>cp_turns_removed = 0, cp_summary_written = False, cp_summary = None\<rparr>"

record compaction_result =
  cx_turns_removed :: nat
  cx_tokens_before :: nat
  cx_tokens_after :: nat
  cx_summary_written :: bool
  cx_summary :: "string option"

definition format_turn_for_storage :: "turn \<Rightarrow> string" where
  "format_turn_for_storage turn =
     ''**Turn '' @ show_nat (tn_turn_number turn + 1) @ ''**'' @ [newline] @ ''User: '' @ tn_user_input turn @ [newline] @
     (case tn_response turn of Some response \<Rightarrow> ''Agent: '' @ response @ [newline] | None \<Rightarrow> []) @
     (if tn_tool_calls turn \<noteq> [] then ''Tools: '' @ str_join '', '' (map tt_name (tn_tool_calls turn)) @ [newline] else [])"

definition format_turns_for_storage :: "turn list \<Rightarrow> string" where
  "format_turns_for_storage turns = str_join [newline] (map format_turn_for_storage turns)"

record 'f compact_env =
  ce_floats :: "'f float_ops"
  ce_render :: "json \<Rightarrow> string"
  ce_date :: string
  ce_time :: string
  ce_summarize :: "chat_message list \<Rightarrow> (string, string) result"
  ce_safety :: safety_env

definition archive_entry :: "'f compact_env \<Rightarrow> string \<Rightarrow> string \<Rightarrow> string" where
  "archive_entry env heading content =
     [newline] @ ''## '' @ heading @ '' ('' @ ce_time env @ '')'' @ [newline, newline] @ content @ [newline]"

definition write_summary_to_workspace ::
  "'f compact_env \<Rightarrow> workspace \<Rightarrow> string \<Rightarrow> memory_store \<Rightarrow> memory_store \<times> (workspace_error, unit) result"
where
  "write_summary_to_workspace env ws text st =
     ws_append (ce_safety env) ws (daily_path (ce_date env)) (archive_entry env ''Context Summary'' text) st"

definition write_context_to_workspace ::
  "'f compact_env \<Rightarrow> workspace \<Rightarrow> string \<Rightarrow> memory_store \<Rightarrow> memory_store \<times> (workspace_error, unit) result"
where
  "write_context_to_workspace env ws content st =
     ws_append (ce_safety env) ws (daily_path (ce_date env)) (archive_entry env ''Archived Context'' content) st"

definition role_line :: "chat_message \<Rightarrow> string" where
  "role_line m =
     (case cm_role m of
        User \<Rightarrow> ''User: '' @ cm_content m
      | Assistant \<Rightarrow> ''Assistant: '' @ cm_content m
      | System \<Rightarrow> ''System: '' @ cm_content m
      | Tool \<Rightarrow> ''Tool '' @ (case cm_name m of Some n \<Rightarrow> n | None \<Rightarrow> ''unknown'') @ '': '' @ cm_content m)"

definition summary_prompt :: string where
  "summary_prompt =
     ''Summarize the following conversation concisely. Focus on:'' @ [newline] @
     ''- Key decisions made'' @ [newline] @
     ''- Important information exchanged'' @ [newline] @
     ''- Actions taken'' @ [newline] @
     ''- Outcomes achieved'' @ [newline, newline] @
     ''Be brief but capture all important details. Use bullet points.''"

text \<open>The parameter answers the two messages of the request; the limit of 1024 tokens and the temperature are fixed.\<close>

definition generate_summary :: "'f compact_env \<Rightarrow> chat_message list \<Rightarrow> (string, string) result" where
  "generate_summary env msgs =
     ce_summarize env
       [msg_system summary_prompt,
        msg_user (''Please summarize this conversation:'' @ [newline, newline] @ str_join [newline, newline] (map role_line msgs))]"

definition turns_to_summarize :: "turn list \<Rightarrow> chat_message list" where
  "turns_to_summarize turns =
     concat (map (\<lambda>t. msg_user (tn_user_input t) #
       (case tn_response t of Some r \<Rightarrow> [msg_assistant r] | None \<Rightarrow> [])) turns)"

text \<open>The turns are removed once the text was written, and kept when it was not.\<close>

definition truncate_after ::
  "nat \<Rightarrow> string option \<Rightarrow> thread \<Rightarrow> memory_store \<times> (workspace_error, unit) result \<Rightarrow> compaction_partial \<times> thread \<times> memory_store"
where
  "truncate_after keep text t written =
     (case written of
        (st', Inr _) \<Rightarrow>
          (\<lparr>cp_turns_removed = length (th_turns t) - keep, cp_summary_written = True, cp_summary = text\<rparr>, truncate_turns keep t, st')
      | (st', Inl _) \<Rightarrow> (\<lparr>cp_turns_removed = 0, cp_summary_written = False, cp_summary = text\<rparr>, t, st'))"

definition compact_with_summary ::
  "'f compact_env \<Rightarrow> nat \<Rightarrow> workspace option \<Rightarrow> thread \<Rightarrow> memory_store \<Rightarrow>
     (string, compaction_partial) result \<times> thread \<times> memory_store"
where
  "compact_with_summary env keep ws t st =
     (if length (th_turns t) \<le> keep then (Inr partial_empty, t, st)
      else
        (let old_turns = take (length (th_turns t) - keep) (th_turns t)
         in case generate_summary env (turns_to_summarize old_turns) of
              Inl e \<Rightarrow> (Inl e, t, st)
            | Inr text \<Rightarrow>
                (case ws of
                   Some w \<Rightarrow>
                     (case truncate_after keep (Some text) t (write_summary_to_workspace env w text st) of (p, t', st') \<Rightarrow> (Inr p, t', st'))
                 | None \<Rightarrow>
                     (Inr \<lparr>cp_turns_removed = length (th_turns t) - keep, cp_summary_written = False, cp_summary = Some text\<rparr>,
                      truncate_turns keep t, st))))"

definition compact_truncate :: "nat \<Rightarrow> thread \<Rightarrow> compaction_partial \<times> thread" where
  "compact_truncate keep t =
     (let t' = truncate_turns keep t
      in (\<lparr>cp_turns_removed = length (th_turns t) - length (th_turns t'), cp_summary_written = False, cp_summary = None\<rparr>, t'))"

definition compact_to_workspace ::
  "'f compact_env \<Rightarrow> workspace option \<Rightarrow> thread \<Rightarrow> memory_store \<Rightarrow> compaction_partial \<times> thread \<times> memory_store"
where
  "compact_to_workspace env ws t st =
     (case ws of
        None \<Rightarrow> (case compact_truncate 5 t of (p, t') \<Rightarrow> (p, t', st))
      | Some w \<Rightarrow>
          if length (th_turns t) \<le> 10 then (partial_empty, t, st)
          else truncate_after 10 None t
                 (write_context_to_workspace env w (format_turns_for_storage (take (length (th_turns t) - 10) (th_turns t))) st))"

definition compact ::
  "'f compact_env \<Rightarrow> compaction_strategy \<Rightarrow> workspace option \<Rightarrow> thread \<Rightarrow> memory_store \<Rightarrow>
     (string, compaction_result) result \<times> thread \<times> memory_store"
where
  "compact env strategy ws t st =
     (let tokens = (\<lambda>t. cb_total_tokens (analyze (ce_floats env) (thread_messages (ce_render env) t)));
          (r, t', st') =
            (case strategy of
               Summarize keep \<Rightarrow> compact_with_summary env keep ws t st
             | Truncate keep \<Rightarrow> (case compact_truncate keep t of (p, t') \<Rightarrow> (Inr p, t', st))
             | MoveToWorkspace \<Rightarrow> (case compact_to_workspace env ws t st of (p, t', st') \<Rightarrow> (Inr p, t', st')))
      in (map_sum id (\<lambda>p. \<lparr>cx_turns_removed = cp_turns_removed p, cx_tokens_before = tokens t, cx_tokens_after = tokens t',
                           cx_summary_written = cp_summary_written p, cx_summary = cp_summary p\<rparr>) r, t', st'))"

text \<open>The command and the automatic compaction before a turn use the workspace of the agent.\<close>

definition process_compact ::
  "'f compact_env \<Rightarrow> 'f context_monitor \<Rightarrow> workspace option \<Rightarrow> thread \<Rightarrow> memory_store \<Rightarrow>
     (string, compaction_result) result \<times> thread \<times> memory_store"
where
  "process_compact env m ws t st =
     (let strategy = (case suggest_compaction (ce_floats env) m (thread_messages (ce_render env) t) of
                        Some s \<Rightarrow> s | None \<Rightarrow> Summarize 5)
      in compact env strategy ws t st)"

definition auto_compact ::
  "'f compact_env \<Rightarrow> 'f context_monitor \<Rightarrow> workspace option \<Rightarrow> thread \<Rightarrow> memory_store \<Rightarrow> thread \<times> memory_store"
where
  "auto_compact env m ws t st =
     (case suggest_compaction (ce_floats env) m (thread_messages (ce_render env) t) of
        Some s \<Rightarrow> snd (compact env s ws t st)
      | None \<Rightarrow> (t, st))"

subsection \<open>Retry of a request that was too long\<close>

definition compaction_note :: chat_message where
  "compaction_note = msg_system (''[Note: Earlier conversation history was automatically compacted '' @
     ''to fit within the context window. The most recent exchange is preserved below.]'')"

definition last_user_index :: "chat_message list \<Rightarrow> nat option" where
  "last_user_index msgs = map_option (\<lambda>i. length msgs - Suc i) (find_index (\<lambda>m. cm_role m = User) (rev msgs))"

definition compact_messages_for_retry :: "chat_message list \<Rightarrow> chat_message list" where
  "compact_messages_for_retry msgs =
     (case last_user_index msgs of
        Some idx \<Rightarrow>
          filter (\<lambda>m. cm_role m = System) (take idx msgs) @ (if idx > 0 then [compaction_note] else []) @ drop idx msgs
      | None \<Rightarrow> filter (\<lambda>m. cm_role m = System) msgs @ filter (\<lambda>m. cm_role m \<noteq> System) msgs)"

subsection \<open>Auxiliary definitions\<close>

text \<open>The turns that are left when the first are removed: the others with new numbers.\<close>

definition renumbered :: "turn list \<Rightarrow> turn list" where
  "renumbered ts = map (\<lambda>(i, tn). tn\<lparr>tn_turn_number := i\<rparr>) (enumerate 0 ts)"

text \<open>A text contains the input and the response of a turn.\<close>

definition records_turn :: "string \<Rightarrow> turn \<Rightarrow> bool" where
  "records_turn text t =
     (sublist (tn_user_input t) text \<and> (case tn_response t of Some r \<Rightarrow> sublist r text | None \<Rightarrow> True))"

subsection \<open>Sample data\<close>

definition eleven_turns :: thread where
  "eleven_turns = (thread_new 1 0 2)\<lparr>th_turns := map (\<lambda>i. turn_new 0 i (''q'' @ show_nat i)) [0..<11]\<rparr>"

definition sample_floats :: "rat float_ops" where
  "sample_floats = \<lparr>fo_of_usize = of_nat, fo_to_usize = (\<lambda>x. nat \<lfloor>x\<rfloor>), fo_mul = (*), fo_div = (/), fo_less = (<), fo_literal = id\<rparr>"

definition sample_compact_env :: "rat compact_env" where
  "sample_compact_env = \<lparr>ce_floats = sample_floats, ce_render = (\<lambda>_. []), ce_date = ''2026-01-02'', ce_time = ''10:00'',
     ce_summarize = (\<lambda>_. Inr ''summary''), ce_safety = sample_safety_env\<rparr>"

section \<open>Lemmas\<close>

lemma length_renumbered [simp]: "length (renumbered ts) = length ts"
  by (simp add: renumbered_def)

lemma truncate_turns_eq:
  "truncate_turns keep t =
     (if length (th_turns t) > keep then t\<lparr>th_turns := renumbered (drop (length (th_turns t) - keep) (th_turns t))\<rparr> else t)"
  by (simp add: truncate_turns_def renumbered_def)

lemma length_truncate: "length (th_turns (truncate_turns keep t)) = min keep (length (th_turns t))"
  by (simp add: truncate_turns_eq)

text \<open>What a compaction can do to a thread: nothing, or a truncation that is counted.\<close>

lemma compact_effect:
  assumes "compact env strategy ws t st = (r, t', st')"
  shows "t' = t \<and> (\<forall>p. r = Inr p \<longrightarrow> cx_turns_removed p = 0) \<or>
    (\<exists>keep p. t' = truncate_turns keep t \<and> r = Inr p \<and> cx_turns_removed p = length (th_turns t) - length (th_turns t') \<and>
       (case strategy of Summarize k \<Rightarrow> keep = k | Truncate k \<Rightarrow> keep = k | MoveToWorkspace \<Rightarrow> keep = (if ws = None then 5 else 10)))"
  using assms
  by (auto simp: compact_def compact_with_summary_def compact_to_workspace_def compact_truncate_def truncate_after_def partial_empty_def
        length_truncate Let_def split: compaction_strategy.splits if_splits sum.splits option.splits prod.splits)

lemma sublist_append2: "sublist x y \<Longrightarrow> sublist x (a @ y)"
  by (auto simp: sublist_def) (metis append.assoc)

lemma sublist_append1: "sublist x y \<Longrightarrow> sublist x (y @ b)"
  by (auto simp: sublist_def) blast

lemma sublist_join: "x \<in> set xs \<Longrightarrow> sublist x (str_join sep xs)"
proof (induction sep xs rule: str_join.induct)
  case (3 sep w v ws)
  then show ?case
  proof (cases "x = w")
    case False
    then have "sublist x (str_join sep (v # ws))" using 3 by simp
    then show ?thesis by (simp add: sublist_append2)
  qed (simp add: sublist_append1)
qed auto

lemma turn_recorded: "records_turn (format_turn_for_storage t) t"
proof -
  have "sublist (tn_user_input t) (format_turn_for_storage t)"
    unfolding format_turn_for_storage_def
    by (rule sublist_append2, rule sublist_append2, rule sublist_append2, rule sublist_append2, rule sublist_append2,
        rule sublist_append1, simp)
  moreover have "sublist r (format_turn_for_storage t)" if "tn_response t = Some r" for r
  proof -
    have "format_turn_for_storage t = (''**Turn '' @ show_nat (tn_turn_number t + 1) @ ''**'' @ [newline] @ ''User: '' @ tn_user_input t @
        [newline] @ ''Agent: '') @ r @ ([newline] @
        (if tn_tool_calls t \<noteq> [] then ''Tools: '' @ str_join '', '' (map tt_name (tn_tool_calls t)) @ [newline] else []))"
      using that by (simp add: format_turn_for_storage_def)
    then show ?thesis by (simp only: sublist_appendI)
  qed
  ultimately show ?thesis by (auto simp: records_turn_def split: option.splits)
qed

lemma records_mono: "records_turn text t \<Longrightarrow> sublist text text' \<Longrightarrow> records_turn text' t"
  by (auto simp: records_turn_def split: option.splits intro: sublist_order.order.trans)

lemma turns_recorded: "t \<in> set ts \<Longrightarrow> records_turn (format_turns_for_storage ts) t"
  unfolding format_turns_for_storage_def by (rule records_mono[OF turn_recorded]) (auto intro: sublist_join)

text \<open>What was appended without an error is in the document of the user of the workspace.\<close>

lemma appended_read:
  assumes "ws_append env ws p c st = (st', Inr u)" "store_wf st"
  shows "\<exists>d. read_primary ws p st' = Inr d \<and> sublist c (md_content d) \<and> md_user d = ws_user ws"
proof -
  let ?path = "ws_normalize_path p"
  obtain st1 d where gc: "get_or_create_document_by_path st (ws_user ws) (ws_agent ws) ?path = (st1, d)" by fastforce
  let ?c = "appended [newline] c (md_content d)"
  have d: "doc_key d = (ws_user ws, ws_agent ws, ?path)" using get_or_create[OF gc assms(2)] by blast
  obtain st2 where st2: "reindex_document ws (md_id d) (update_document (md_id d) ?c st1) = (st2, Inr ())"
    "\<And>k. find_key st2 k = (if k = (ws_user ws, ws_agent ws, ?path) then Some (d\<lparr>md_content := ?c\<rparr>) else find_key st k)"
    using set_content[OF gc assms(2), where c = ?c] by metis
  have "st' = st2" using assms(1) gc st2(1) by (auto simp: ws_append_def Let_def split: option.splits)
  then have "read_primary ws p st' = Inr (d\<lparr>md_content := ?c\<rparr>)"
    using st2(2) by (simp add: read_primary_def get_document_key)
  moreover have "sublist c ?c" by (auto simp: appended_def intro: sublist_append2 simp del: append_Cons append_Nil)
  ultimately show ?thesis using d by (auto simp: doc_key_def)
qed

lemma append_succeeds:
  assumes "store_wf st" "\<not> is_system_prompt_file (ws_normalize_path p)"
  shows "\<exists>st'. ws_append env ws p c st = (st', Inr ())"
proof -
  let ?path = "ws_normalize_path p"
  obtain st1 d where gc: "get_or_create_document_by_path st (ws_user ws) (ws_agent ws) ?path = (st1, d)" by fastforce
  obtain st2 where "reindex_document ws (md_id d) (update_document (md_id d) (appended [newline] c (md_content d)) st1) = (st2, Inr ())"
    using set_content[OF gc assms(1), where c = "appended [newline] c (md_content d)"] by metis
  then show ?thesis using gc assms(2) by (simp add: ws_append_def scan_prompt_file_def Let_def)
qed

text \<open>The archive of a compaction that wrote its text, and what is written.\<close>

lemma moved_turns:
  assumes "compact env MoveToWorkspace (Some w) t st = (r, t', st')" "th_turns t' \<noteq> th_turns t"
  shows "t' = truncate_turns 10 t \<and>
    (\<exists>u. write_context_to_workspace env w (format_turns_for_storage (take (length (th_turns t) - 10) (th_turns t))) st = (st', Inr u))"
  using assms
  by (auto simp: compact_def compact_to_workspace_def truncate_after_def Let_def split: if_splits sum.splits prod.splits)

lemma sample_move:
  "\<exists>r st'. compact sample_compact_env MoveToWorkspace (Some (workspace_new ''alice'')) eleven_turns empty_store =
     (r, truncate_turns 10 eleven_turns, st')"
proof -
  have "\<not> is_system_prompt_file (ws_normalize_path (daily_path ''2026-01-02''))" by code_simp
  moreover have "store_wf empty_store" by (simp add: store_wf_def empty_store_def)
  ultimately obtain st' where
    "ws_append sample_safety_env (workspace_new ''alice'') (daily_path ''2026-01-02'')
       (archive_entry sample_compact_env ''Archived Context'' (format_turns_for_storage (take 1 (th_turns eleven_turns)))) empty_store = (st', Inr ())"
    using append_succeeds by metis
  moreover have "length (th_turns eleven_turns) = 11" by (simp add: eleven_turns_def)
  ultimately show ?thesis
    by (simp add: compact_def compact_to_workspace_def truncate_after_def write_context_to_workspace_def Let_def sample_compact_env_def)
qed

lemma no_user_after: "\<forall>m\<in>set b. cm_role m \<noteq> User \<Longrightarrow> cm_role u = User \<Longrightarrow> last_user_index (a @ u # b) = Some (length a)"
proof -
  assume b: "\<forall>m\<in>set b. cm_role m \<noteq> User" and u: "cm_role u = User"
  have "find_index (\<lambda>m. cm_role m = User) (rev b @ u # rev a) = Some (length b)"
    using b
  proof (induction b rule: rev_induct)
    case (snoc x b)
    then show ?case by simp
  qed (use u in simp)
  then show ?thesis by (simp add: last_user_index_def)
qed

lemma message_count_fold: "cb_message_count (fold (count_message fo) msgs b) = cb_message_count b"
proof (induction msgs arbitrary: b)
  case (Cons m ms)
  then show ?case by (cases "cm_role m") (simp_all add: count_message_def Let_def)
qed simp

lemma analyze_fold:
  "cb_total_tokens (fold (count_message fo) msgs b) = cb_total_tokens b + estimate_tokens fo msgs \<and>
   cb_system_tokens (fold (count_message fo) msgs b) + cb_user_tokens (fold (count_message fo) msgs b) +
   cb_assistant_tokens (fold (count_message fo) msgs b) + cb_tool_tokens (fold (count_message fo) msgs b) =
   cb_system_tokens b + cb_user_tokens b + cb_assistant_tokens b + cb_tool_tokens b + estimate_tokens fo msgs"
proof (induction msgs arbitrary: b)
  case (Cons m ms)
  then show ?case using Cons[of "count_message fo m b"]
    by (cases "cm_role m") (simp_all add: count_message_def Let_def estimate_tokens_def)
qed (simp add: estimate_tokens_def)

section \<open>Properties\<close>

text \<open>
  Compaction only takes turns from the front: afterwards the thread has its latest turns, unchanged but for their
  numbers, nothing else of it differs, and the reported number is the number of turns that are gone.
\<close>

theorem compaction_keeps_latest:
  assumes "compact env strategy ws t st = (r, t', st')"
  shows "t' = t \<or> (\<exists>n p. t' = t\<lparr>th_turns := renumbered (drop n (th_turns t))\<rparr> \<and> r = Inr p \<and>
    cx_turns_removed p = n \<and> n < length (th_turns t) + 1)"
  using compact_effect[OF assms]
  by (auto simp: truncate_turns_eq length_truncate split: if_splits)

theorem compaction_keeps_latest_witness:
  "snd (compact sample_compact_env (Truncate 2) None eleven_turns empty_store) = (truncate_turns 2 eleven_turns, empty_store) \<and>
   (truncate_turns 2 eleven_turns = eleven_turns \<or>
    (\<exists>n p. truncate_turns 2 eleven_turns = eleven_turns\<lparr>th_turns := renumbered (drop n (th_turns eleven_turns))\<rparr> \<and>
       fst (compact sample_compact_env (Truncate 2) None eleven_turns empty_store) = Inr p \<and> cx_turns_removed p = n \<and>
       n < length (th_turns eleven_turns) + 1))"
proof -
  have s: "snd (compact sample_compact_env (Truncate 2) None eleven_turns empty_store) = (truncate_turns 2 eleven_turns, empty_store)"
    by (simp add: compact_def compact_truncate_def Let_def)
  have "compact sample_compact_env (Truncate 2) None eleven_turns empty_store =
      (fst (compact sample_compact_env (Truncate 2) None eleven_turns empty_store), truncate_turns 2 eleven_turns, empty_store)"
    by (simp add: prod_eq_iff s)
  from compaction_keeps_latest[OF this] s show ?thesis by blast
qed

text \<open>
  C39. When the context is moved to the workspace, no turn is removed without a record: every turn that is gone has its
  input and its response in the daily document of the workspace, which belongs to the user of the workspace.
\<close>

theorem removed_turns_archived:
  assumes "compact env MoveToWorkspace (Some w) t st = (r, t', st')" and "store_wf st" and "th_turns t' \<noteq> th_turns t"
  shows "\<exists>d. read_primary w (daily_path (ce_date env)) st' = Inr d \<and> md_user d = ws_user w \<and>
    (\<forall>turn\<in>set (take (length (th_turns t) - length (th_turns t')) (th_turns t)). records_turn (md_content d) turn)"
proof -
  let ?old = "take (length (th_turns t) - 10) (th_turns t)"
  obtain u where t': "t' = truncate_turns 10 t"
    and wr: "write_context_to_workspace env w (format_turns_for_storage ?old) st = (st', Inr u)"
    using moved_turns[OF assms(1,3)] by blast
  obtain d where d: "read_primary w (daily_path (ce_date env)) st' = Inr d" "md_user d = ws_user w"
    "sublist (archive_entry env ''Archived Context'' (format_turns_for_storage ?old)) (md_content d)"
    using appended_read[OF wr[unfolded write_context_to_workspace_def] assms(2)] by blast
  have "sublist (format_turns_for_storage ?old) (archive_entry env ''Archived Context'' (format_turns_for_storage ?old))"
    unfolding archive_entry_def append_assoc[symmetric] by (rule sublist_append1, rule sublist_append2) simp
  then have "sublist (format_turns_for_storage ?old) (md_content d)" using d(3) by (rule sublist_order.order.trans)
  moreover have "length (th_turns t) - length (th_turns t') = length (th_turns t) - 10" by (simp add: t' length_truncate)
  ultimately show ?thesis using d(1,2) turns_recorded[THEN records_mono] by auto
qed

theorem removed_turns_archived_witness:
  "\<exists>d. read_primary (workspace_new ''alice'') (daily_path ''2026-01-02'')
       (snd (snd (compact sample_compact_env MoveToWorkspace (Some (workspace_new ''alice'')) eleven_turns empty_store))) = Inr d \<and>
     md_user d = ''alice'' \<and> sublist ''q0'' (md_content d)"
proof -
  obtain r st' where c: "compact sample_compact_env MoveToWorkspace (Some (workspace_new ''alice'')) eleven_turns empty_store =
     (r, truncate_turns 10 eleven_turns, st')" using sample_move by blast
  have n: "length (th_turns (truncate_turns 10 eleven_turns)) = 10" "length (th_turns eleven_turns) = 11"
    by (simp_all add: length_truncate eleven_turns_def)
  then have "th_turns (truncate_turns 10 eleven_turns) \<noteq> th_turns eleven_turns" by auto
  from removed_turns_archived[OF c _ this] n obtain d where
    d: "read_primary (workspace_new ''alice'') (daily_path (ce_date sample_compact_env)) st' = Inr d" "md_user d = ws_user (workspace_new ''alice'')"
      "\<forall>turn\<in>set (take 1 (th_turns eleven_turns)). records_turn (md_content d) turn"
    by (auto simp: store_wf_def empty_store_def)
  moreover have "show_nat 0 = ''0''" by code_simp
  then have "take 1 (th_turns eleven_turns) = [turn_new 0 0 ''q0'']"
    by (simp add: eleven_turns_def take_map take_upt)
  ultimately have "sublist ''q0'' (md_content d)" by (simp add: records_turn_def turn_new_def)
  moreover have "ce_date sample_compact_env = ''2026-01-02''" "ws_user (workspace_new ''alice'') = ''alice''"
    by (simp_all add: sample_compact_env_def workspace_new_def)
  ultimately show ?thesis using d(1,2) by (auto simp: c)
qed

text \<open>
  When the text could not be written, the turns stay: a compaction that has a workspace and reports no written text
  leaves the thread as it was, unless it is a plain truncation.
\<close>

theorem unwritten_compaction_keeps_turns:
  assumes "compact env strategy (Some w) t st = (Inr p, t', st')" and "\<not> cx_summary_written p" and "\<forall>k. strategy \<noteq> Truncate k"
  shows "t' = t"
  using assms
  by (auto simp: compact_def compact_with_summary_def compact_to_workspace_def truncate_after_def partial_empty_def Let_def
        split: compaction_strategy.splits if_splits sum.splits option.splits prod.splits)

theorem unwritten_compaction_keeps_turns_witness:
  "fst (snd (compact sample_compact_env (Summarize 20) (Some (workspace_new ''alice'')) eleven_turns empty_store)) = eleven_turns"
proof -
  obtain p t' st' where c: "compact sample_compact_env (Summarize 20) (Some (workspace_new ''alice'')) eleven_turns empty_store = (Inr p, t', st')"
    "\<not> cx_summary_written p"
    by (simp add: compact_def compact_with_summary_def partial_empty_def eleven_turns_def Let_def)
  show ?thesis using unwritten_compaction_keeps_turns[OF c] by (simp add: c)
qed

text \<open>
  The retry keeps the system messages in their order and everything from the last message of the user on; what it
  drops are other messages before that.
\<close>

theorem retry_keeps_exchange:
  assumes "\<forall>m\<in>set later. cm_role m \<noteq> User" and "cm_role u = User"
  shows "compact_messages_for_retry (earlier @ u # later) =
    filter (\<lambda>m. cm_role m = System) earlier @ (if earlier = [] then [] else [compaction_note]) @ u # later"
  using no_user_after[OF assms] by (simp add: compact_messages_for_retry_def)

theorem retry_keeps_exchange_witness:
  "compact_messages_for_retry ([msg_system ''s'', msg_user ''a'', msg_assistant ''b''] @ msg_user ''c'' # [msg_assistant ''d'']) =
     [msg_system ''s'', compaction_note, msg_user ''c'', msg_assistant ''d'']"
  using retry_keeps_exchange[of "[msg_assistant ''d'']" "msg_user ''c''" "[msg_system ''s'', msg_user ''a'', msg_assistant ''b'']"]
  by (simp add: msg_assistant_def msg_user_def msg_system_def)

text \<open>
  The request of the retry is longer than the one that was refused when only system messages come before the last
  message of the user: nothing is dropped and the note is added.
\<close>

theorem retry_can_grow:
  assumes "\<forall>m\<in>set earlier. cm_role m = System" and "earlier \<noteq> []" and "\<forall>m\<in>set later. cm_role m \<noteq> User" and "cm_role u = User"
  shows "length (compact_messages_for_retry (earlier @ u # later)) = length (earlier @ u # later) + 1"
  using no_user_after[OF assms(3,4), of earlier] assms(1,2) by (simp add: compact_messages_for_retry_def)

theorem retry_can_grow_witness:
  "length (compact_messages_for_retry ([msg_system ''s''] @ msg_user ''c'' # [])) = 3"
  using retry_can_grow[of "[msg_system ''s'']" "[]" "msg_user ''c''"] by (simp add: msg_system_def msg_user_def)

text \<open>
  The parts of the breakdown add up to its total, which is the estimate that the monitor compares with its limit.
\<close>

theorem breakdown_adds_up:
  "cb_total_tokens (analyze fo msgs) = estimate_tokens fo msgs \<and>
   cb_system_tokens (analyze fo msgs) + cb_user_tokens (analyze fo msgs) + cb_assistant_tokens (analyze fo msgs) +
     cb_tool_tokens (analyze fo msgs) = cb_total_tokens (analyze fo msgs) \<and>
   cb_message_count (analyze fo msgs) = length msgs"
  by (simp add: analyze_def analyze_fold message_count_fold)

text \<open>
  The estimate has no relation to the size of a text: every text without white space, however long, counts as one
  word.
\<close>

theorem unspaced_text_is_one_word:
  assumes "s \<noteq> []" and "\<forall>c\<in>set s. \<not> is_ascii_ws c"
  shows "estimate_text_tokens fo s = estimate_text_tokens fo ''a''"
proof -
  have "split_whitespace s = [s]" using split_on_word[of s is_ascii_ws] assms by (simp add: split_whitespace_def)
  moreover have "length (split_whitespace ''a'') = 1" by code_simp
  ultimately show ?thesis by (simp add: estimate_text_tokens_def word_tokens_def)
qed

theorem unspaced_text_is_one_word_witness:
  "estimate_text_tokens sample_floats (replicate 100000 CHR ''x'') = estimate_text_tokens sample_floats ''a''"
  by (rule unspaced_text_is_one_word) (auto simp: is_ascii_ws_def ascii_code_def)

end
