(* ===== verification/Secrets_Store.thy ===== *)
theory Secrets_Store
  imports Credential_Injector
begin

text \<open>
  The secrets of the users: \<open>src/secrets/types.rs\<close>, \<open>src/secrets/crypto.rs\<close> and the three stores of
  \<open>src/secrets/store.rs\<close> (PostgreSQL, libSQL and memory). The authenticated cipher, the key derivation and the text
  forms of times and identifiers are arguments; random bytes, fresh identifiers and the clock are arguments of the
  operations that use them. What a store promises is the locale \<open>secrets_provider\<close>, which the three stores
  instantiate; the injector of credentials is then composed with each of them.
\<close>

section \<open>Model\<close>

type_synonym bytes = "8 word list"

subsection \<open>Types\<close>

record secret =
  sc_id :: uuid
  sc_user_id :: string
  sc_name :: string
  sc_encrypted_value :: bytes
  sc_key_salt :: bytes
  sc_provider :: "string option"
  sc_expires_at :: "utc option"
  sc_last_used_at :: "utc option"
  sc_usage_count :: "64 word"
  sc_created_at :: utc
  sc_updated_at :: utc

record secret_ref =
  sr_name :: string
  sr_provider :: "string option"

definition secret_ref_new :: "string \<Rightarrow> secret_ref" where
  "secret_ref_new name = \<lparr>sr_name = name, sr_provider = None\<rparr>"

definition ref_with_provider :: "string \<Rightarrow> secret_ref \<Rightarrow> secret_ref" where
  "ref_with_provider p r = r\<lparr>sr_provider := Some p\<rparr>"

record create_secret_params =
  cs_name :: string
  cs_value :: string
  cs_provider :: "string option"
  cs_expires_at :: "utc option"

definition create_params_new :: "string \<Rightarrow> string \<Rightarrow> create_secret_params" where
  "create_params_new name val = \<lparr>cs_name = to_lower name, cs_value = val, cs_provider = None, cs_expires_at = None\<rparr>"

definition params_with_provider :: "string \<Rightarrow> create_secret_params \<Rightarrow> create_secret_params" where
  "params_with_provider p params = params\<lparr>cs_provider := Some p\<rparr>"

definition params_with_expiry :: "utc \<Rightarrow> create_secret_params \<Rightarrow> create_secret_params" where
  "params_with_expiry e params = params\<lparr>cs_expires_at := Some e\<rparr>"

text \<open>The byte sequences that \<open>String::from_utf8\<close> accepts.\<close>

definition is_continuation :: "8 word \<Rightarrow> bool" where
  "is_continuation b = (0x80 \<le> b \<and> b \<le> 0xBF)"

fun utf8_valid :: "bytes \<Rightarrow> bool" where
  "utf8_valid [] = True"
| "utf8_valid (a # r) =
     (if a \<le> 0x7F then utf8_valid r
      else case r of
             [] \<Rightarrow> False
           | b # r1 \<Rightarrow>
               if 0xC2 \<le> a \<and> a \<le> 0xDF then is_continuation b \<and> utf8_valid r1
               else case r1 of
                      [] \<Rightarrow> False
                    | c # r2 \<Rightarrow>
                        if a = 0xE0 then 0xA0 \<le> b \<and> b \<le> 0xBF \<and> is_continuation c \<and> utf8_valid r2
                        else if a = 0xED then 0x80 \<le> b \<and> b \<le> 0x9F \<and> is_continuation c \<and> utf8_valid r2
                        else if 0xE1 \<le> a \<and> a \<le> 0xEF then is_continuation b \<and> is_continuation c \<and> utf8_valid r2
                        else case r2 of
                               [] \<Rightarrow> False
                             | d # r3 \<Rightarrow>
                                 is_continuation c \<and> is_continuation d \<and> utf8_valid r3 \<and>
                                 (if a = 0xF0 then 0x90 \<le> b \<and> b \<le> 0xBF
                                  else if a = 0xF4 then 0x80 \<le> b \<and> b \<le> 0x8F
                                  else 0xF1 \<le> a \<and> a \<le> 0xF3 \<and> is_continuation b))"

definition string_of_bytes :: "bytes \<Rightarrow> string" where
  "string_of_bytes bs = map (\<lambda>b. char_of (unat b)) bs"

definition decrypted_from_bytes :: "bytes \<Rightarrow> (secret_error, string) result" where
  "decrypted_from_bytes bs = (if utf8_valid bs then Inr (string_of_bytes bs) else Inl SecretInvalidUtf8)"

subsection \<open>Encryption\<close>

definition KEY_SIZE :: nat where "KEY_SIZE = 32"
definition NONCE_SIZE :: nat where "NONCE_SIZE = 12"
definition SALT_SIZE :: nat where "SALT_SIZE = 32"
definition TAG_SIZE :: nat where "TAG_SIZE = 16"

text \<open>HKDF with a salt, a key, the context and a length; the cipher with a key, a nonce and a text.\<close>

record crypto_ops =
  co_hkdf :: "bytes \<Rightarrow> bytes \<Rightarrow> bytes \<Rightarrow> nat \<Rightarrow> bytes option"
  co_seal :: "bytes \<Rightarrow> bytes \<Rightarrow> bytes \<Rightarrow> (string, bytes) result"
  co_open :: "bytes \<Rightarrow> bytes \<Rightarrow> bytes \<Rightarrow> (string, bytes) result"
  co_key_error :: string

record secrets_crypto =
  cr_ops :: crypto_ops
  cr_master_key :: string

definition secrets_crypto_new :: "crypto_ops \<Rightarrow> string \<Rightarrow> (secret_error, secrets_crypto) result" where
  "secrets_crypto_new ops master_key =
     (if length master_key < KEY_SIZE then Inl SecretInvalidMasterKey
      else Inr \<lparr>cr_ops = ops, cr_master_key = master_key\<rparr>)"

definition derive_key :: "secrets_crypto \<Rightarrow> bytes \<Rightarrow> (secret_error, bytes) result" where
  "derive_key cr salt =
     (case co_hkdf (cr_ops cr) salt (as_bytes (cr_master_key cr)) (as_bytes ''near-agent-secrets-v1'') KEY_SIZE of
        Some k \<Rightarrow> Inr k
      | None \<Rightarrow> Inl (SecretEncryptionFailed ''HKDF expansion failed''))"

definition cipher_key :: "(string \<Rightarrow> secret_error) \<Rightarrow> secrets_crypto \<Rightarrow> bytes \<Rightarrow> (secret_error, bytes) result" where
  "cipher_key failed cr salt =
     (case derive_key cr salt of
        Inl e \<Rightarrow> Inl e
      | Inr k \<Rightarrow>
          if length k = KEY_SIZE then Inr k
          else Inl (failed (''Failed to create cipher: '' @ co_key_error (cr_ops cr))))"

definition encrypt :: "secrets_crypto \<Rightarrow> bytes \<times> bytes \<Rightarrow> bytes \<Rightarrow> (secret_error, bytes \<times> bytes) result" where
  "encrypt cr rnd plaintext =
     (let salt = fst rnd; nonce = snd rnd
      in case cipher_key SecretEncryptionFailed cr salt of
           Inl e \<Rightarrow> Inl e
         | Inr k \<Rightarrow>
             (case co_seal (cr_ops cr) k nonce plaintext of
                Inl e \<Rightarrow> Inl (SecretEncryptionFailed (''Encryption failed: '' @ e))
              | Inr ciphertext \<Rightarrow> Inr (nonce @ ciphertext, salt)))"

definition decrypt :: "secrets_crypto \<Rightarrow> bytes \<Rightarrow> bytes \<Rightarrow> (secret_error, string) result" where
  "decrypt cr encrypted_value salt =
     (if length encrypted_value < NONCE_SIZE + TAG_SIZE then Inl (SecretDecryptionFailed ''Encrypted value too short'')
      else case cipher_key SecretDecryptionFailed cr salt of
             Inl e \<Rightarrow> Inl e
           | Inr k \<Rightarrow>
               (case co_open (cr_ops cr) k (take NONCE_SIZE encrypted_value) (drop NONCE_SIZE encrypted_value) of
                  Inl e \<Rightarrow> Inl (SecretDecryptionFailed (''Decryption failed: '' @ e))
                | Inr plaintext \<Rightarrow> decrypted_from_bytes plaintext))"

subsection \<open>What the stores have in common\<close>

text \<open>Random bytes, identifier and time of one creation.\<close>

record create_env =
  en_random :: "bytes \<times> bytes"
  en_id :: uuid
  en_now :: utc

definition check_expiry :: "utc \<Rightarrow> secret \<Rightarrow> (secret_error, secret) result" where
  "check_expiry now s =
     (case sc_expires_at s of
        Some e \<Rightarrow> if e < now then Inl SecretExpired else Inr s
      | None \<Rightarrow> Inr s)"

definition decrypt_secret :: "secrets_crypto \<Rightarrow> (secret_error, secret) result \<Rightarrow> (secret_error, string) result" where
  "decrypt_secret cr r = (case r of Inl e \<Rightarrow> Inl e | Inr s \<Rightarrow> decrypt cr (sc_encrypted_value s) (sc_key_salt s))"

definition matches_allowed :: "string list \<Rightarrow> string \<Rightarrow> bool" where
  "matches_allowed allowed name_lower =
     list_ex (\<lambda>pattern. to_lower pattern = name_lower \<or>
       (case strip_suffix ''*'' (to_lower pattern) of Some pre \<Rightarrow> starts_with pre name_lower | None \<Rightarrow> False)) allowed"

subsection \<open>PostgreSQL\<close>

text \<open>The table has a unique index on user and name.\<close>

record pg_secrets =
  pg_crypto :: secrets_crypto
  pg_rows :: "secret list"

definition row_at :: "string \<Rightarrow> string \<Rightarrow> secret \<Rightarrow> bool" where
  "row_at user name r = (sc_user_id r = user \<and> sc_name r = name)"

definition pg_upsert :: "secret \<Rightarrow> secret list \<Rightarrow> secret \<times> secret list" where
  "pg_upsert new rows =
     (case find (row_at (sc_user_id new) (sc_name new)) rows of
        None \<Rightarrow> (new, rows @ [new])
      | Some old \<Rightarrow>
          (let r = old\<lparr>sc_encrypted_value := sc_encrypted_value new, sc_key_salt := sc_key_salt new,
                        sc_provider := sc_provider new, sc_expires_at := sc_expires_at new,
                        sc_updated_at := sc_updated_at new\<rparr>
           in (r, map (\<lambda>x. if row_at (sc_user_id new) (sc_name new) x then r else x) rows)))"

text \<open>A new row, with times in the precision of the store.\<close>

definition new_row :: "(utc \<Rightarrow> utc) \<Rightarrow> create_env \<Rightarrow> string \<Rightarrow> create_secret_params \<Rightarrow> bytes \<times> bytes \<Rightarrow> secret" where
  "new_row precision env user_id params enc =
     \<lparr>sc_id = en_id env, sc_user_id = user_id, sc_name = cs_name params, sc_encrypted_value = fst enc, sc_key_salt = snd enc,
      sc_provider = cs_provider params, sc_expires_at = map_option precision (cs_expires_at params), sc_last_used_at = None,
      sc_usage_count = 0, sc_created_at = precision (en_now env), sc_updated_at = precision (en_now env)\<rparr>"

text \<open>A timestamp of PostgreSQL has microseconds, a time of the program nanoseconds.\<close>

definition pg_time :: "utc \<Rightarrow> utc" where
  "pg_time t = t - t mod 1000"

definition pg_create ::
  "create_env \<Rightarrow> string \<Rightarrow> create_secret_params \<Rightarrow> pg_secrets \<Rightarrow> (secret_error, secret) result \<times> pg_secrets"
where
  "pg_create env user_id params st =
     (case encrypt (pg_crypto st) (en_random env) (as_bytes (cs_value params)) of
        Inl e \<Rightarrow> (Inl e, st)
      | Inr enc \<Rightarrow> (case pg_upsert (new_row pg_time env user_id params enc) (pg_rows st) of (r, rows) \<Rightarrow> (Inr r, st\<lparr>pg_rows := rows\<rparr>)))"

definition pg_get :: "utc \<Rightarrow> string \<Rightarrow> string \<Rightarrow> pg_secrets \<Rightarrow> (secret_error, secret) result" where
  "pg_get now user_id name0 st =
     (let name = to_lower name0
      in case find (row_at user_id name) (pg_rows st) of
           Some s \<Rightarrow> check_expiry now s
         | None \<Rightarrow> Inl (SecretNotFound name))"

definition pg_get_decrypted :: "utc \<Rightarrow> string \<Rightarrow> string \<Rightarrow> pg_secrets \<Rightarrow> (secret_error, string) result" where
  "pg_get_decrypted now user_id name st = decrypt_secret (pg_crypto st) (pg_get now user_id name st)"

definition pg_exists :: "string \<Rightarrow> string \<Rightarrow> pg_secrets \<Rightarrow> (secret_error, bool) result" where
  "pg_exists user_id name st = Inr (list_ex (row_at user_id (to_lower name)) (pg_rows st))"

definition secret_ref_of :: "secret \<Rightarrow> secret_ref" where
  "secret_ref_of s = \<lparr>sr_name = sc_name s, sr_provider = sc_provider s\<rparr>"

text \<open>The order of names of the database is an argument.\<close>

definition pg_list :: "(string \<Rightarrow> nat) \<Rightarrow> string \<Rightarrow> pg_secrets \<Rightarrow> (secret_error, secret_ref list) result" where
  "pg_list collation user_id st =
     Inr (map secret_ref_of (sort_key (\<lambda>s. collation (sc_name s)) (filter (\<lambda>s. sc_user_id s = user_id) (pg_rows st))))"

definition pg_delete :: "string \<Rightarrow> string \<Rightarrow> pg_secrets \<Rightarrow> (secret_error, bool) result \<times> pg_secrets" where
  "pg_delete user_id name st =
     (let hit = row_at user_id (to_lower name)
      in (Inr (length (filter hit (pg_rows st)) > 0), st\<lparr>pg_rows := filter (\<lambda>r. \<not> hit r) (pg_rows st)\<rparr>))"

definition used_now :: "utc \<Rightarrow> secret \<Rightarrow> secret" where
  "used_now now s = s\<lparr>sc_last_used_at := Some (pg_time now), sc_usage_count := sc_usage_count s + 1\<rparr>"

definition pg_record_usage :: "utc \<Rightarrow> uuid \<Rightarrow> pg_secrets \<Rightarrow> (secret_error, unit) result \<times> pg_secrets" where
  "pg_record_usage now secret_id st =
     (Inr (), st\<lparr>pg_rows := map (\<lambda>r. if sc_id r = secret_id then used_now now r else r) (pg_rows st)\<rparr>)"

definition accessible :: "(string \<Rightarrow> (secret_error, bool) result) \<Rightarrow> string \<Rightarrow> string list \<Rightarrow> (secret_error, bool) result" where
  "accessible found secret_name allowed =
     (let name_lower = to_lower secret_name
      in case found name_lower of
           Inl e \<Rightarrow> Inl e
         | Inr False \<Rightarrow> Inr False
         | Inr True \<Rightarrow> Inr (matches_allowed allowed name_lower))"

definition pg_is_accessible :: "string \<Rightarrow> string \<Rightarrow> string list \<Rightarrow> pg_secrets \<Rightarrow> (secret_error, bool) result" where
  "pg_is_accessible user_id secret_name allowed st = accessible (\<lambda>n. pg_exists user_id n st) secret_name allowed"

subsection \<open>libSQL\<close>

text \<open>Identifiers and times are texts; the formats are arguments.\<close>

record text_ops =
  to_uuid_text :: "uuid \<Rightarrow> string"
  to_parse_uuid :: "string \<Rightarrow> (string, uuid) result"
  to_rfc3339_millis :: "utc \<Rightarrow> string"
  to_parse_rfc3339 :: "string \<Rightarrow> utc option"
  to_parse_naive_frac :: "string \<Rightarrow> utc option"
  to_parse_naive :: "string \<Rightarrow> utc option"
  to_debug :: "string \<Rightarrow> string"

record lib_row =
  lr_id :: string
  lr_user_id :: string
  lr_name :: string
  lr_encrypted_value :: bytes
  lr_key_salt :: bytes
  lr_provider :: "string option"
  lr_expires_at :: "string option"
  lr_last_used_at :: "string option"
  lr_usage_count :: "64 word"
  lr_created_at :: string
  lr_updated_at :: string

record lib_secrets =
  lb_ops :: text_ops
  lb_crypto :: secrets_crypto
  lb_rows :: "lib_row list"

definition libsql_parse_timestamp :: "text_ops \<Rightarrow> string \<Rightarrow> (secret_error, utc) result" where
  "libsql_parse_timestamp ops s =
     (case to_parse_rfc3339 ops s of
        Some t \<Rightarrow> Inr t
      | None \<Rightarrow>
          (case to_parse_naive_frac ops s of
             Some t \<Rightarrow> Inr t
           | None \<Rightarrow>
               (case to_parse_naive ops s of
                  Some t \<Rightarrow> Inr t
                | None \<Rightarrow> Inl (SecretDatabase (''unparseable timestamp: '' @ to_debug ops s)))))"

definition opt_time :: "text_ops \<Rightarrow> string option \<Rightarrow> utc option" where
  "opt_time ops v =
     (case v of
        None \<Rightarrow> None
      | Some s \<Rightarrow> if s = [] then None else (case libsql_parse_timestamp ops s of Inr t \<Rightarrow> Some t | Inl _ \<Rightarrow> None))"

definition libsql_row_to_secret :: "text_ops \<Rightarrow> lib_row \<Rightarrow> (secret_error, secret) result" where
  "libsql_row_to_secret ops r =
     (case to_parse_uuid ops (lr_id r) of
        Inl e \<Rightarrow> Inl (SecretDatabase e)
      | Inr i \<Rightarrow>
          (case libsql_parse_timestamp ops (lr_created_at r) of
             Inl e \<Rightarrow> Inl e
           | Inr created \<Rightarrow>
               (case libsql_parse_timestamp ops (lr_updated_at r) of
                  Inl e \<Rightarrow> Inl e
                | Inr updated \<Rightarrow>
                    Inr \<lparr>sc_id = i, sc_user_id = lr_user_id r, sc_name = lr_name r, sc_encrypted_value = lr_encrypted_value r,
                         sc_key_salt = lr_key_salt r, sc_provider = (if lr_provider r = Some [] then None else lr_provider r),
                         sc_expires_at = opt_time ops (lr_expires_at r), sc_last_used_at = opt_time ops (lr_last_used_at r),
                         sc_usage_count = lr_usage_count r, sc_created_at = created, sc_updated_at = updated\<rparr>)))"

definition lib_at :: "string \<Rightarrow> string \<Rightarrow> lib_row \<Rightarrow> bool" where
  "lib_at user name r = (lr_user_id r = user \<and> lr_name r = name)"

definition lib_upsert :: "lib_row \<Rightarrow> lib_row list \<Rightarrow> lib_row list" where
  "lib_upsert new rows =
     (if list_ex (lib_at (lr_user_id new) (lr_name new)) rows
      then map (\<lambda>x. if lib_at (lr_user_id new) (lr_name new) x
                    then x\<lparr>lr_encrypted_value := lr_encrypted_value new, lr_key_salt := lr_key_salt new, lr_provider := lr_provider new,
                           lr_expires_at := lr_expires_at new, lr_updated_at := lr_updated_at new\<rparr>
                    else x) rows
      else rows @ [new])"

definition lib_new_row :: "text_ops \<Rightarrow> create_env \<Rightarrow> string \<Rightarrow> create_secret_params \<Rightarrow> bytes \<times> bytes \<Rightarrow> lib_row" where
  "lib_new_row ops env user_id params enc =
     \<lparr>lr_id = to_uuid_text ops (en_id env), lr_user_id = user_id, lr_name = cs_name params, lr_encrypted_value = fst enc,
      lr_key_salt = snd enc, lr_provider = cs_provider params, lr_expires_at = map_option (to_rfc3339_millis ops) (cs_expires_at params),
      lr_last_used_at = None, lr_usage_count = 0, lr_created_at = to_rfc3339_millis ops (en_now env),
      lr_updated_at = to_rfc3339_millis ops (en_now env)\<rparr>"

text \<open>The row is read back before the commit, so that a row that cannot be read is not written.\<close>

definition lib_create ::
  "create_env \<Rightarrow> string \<Rightarrow> create_secret_params \<Rightarrow> lib_secrets \<Rightarrow> (secret_error, secret) result \<times> lib_secrets"
where
  "lib_create env user_id params st =
     (case encrypt (lb_crypto st) (en_random env) (as_bytes (cs_value params)) of
        Inl e \<Rightarrow> (Inl e, st)
      | Inr enc \<Rightarrow>
          (let rows = lib_upsert (lib_new_row (lb_ops st) env user_id params enc) (lb_rows st)
           in case find (lib_at user_id (cs_name params)) rows of
                None \<Rightarrow> (Inl (SecretDatabase ''Insert succeeded but row not found''), st)
              | Some row \<Rightarrow>
                  (case libsql_row_to_secret (lb_ops st) row of
                     Inl e \<Rightarrow> (Inl e, st)
                   | Inr s \<Rightarrow> (Inr s, st\<lparr>lb_rows := rows\<rparr>))))"

definition lib_get :: "utc \<Rightarrow> string \<Rightarrow> string \<Rightarrow> lib_secrets \<Rightarrow> (secret_error, secret) result" where
  "lib_get now user_id name0 st =
     (let name = to_lower name0
      in case find (lib_at user_id name) (lb_rows st) of
           Some row \<Rightarrow> (case libsql_row_to_secret (lb_ops st) row of Inl e \<Rightarrow> Inl e | Inr s \<Rightarrow> check_expiry now s)
         | None \<Rightarrow> Inl (SecretNotFound name))"

definition lib_get_decrypted :: "utc \<Rightarrow> string \<Rightarrow> string \<Rightarrow> lib_secrets \<Rightarrow> (secret_error, string) result" where
  "lib_get_decrypted now user_id name st = decrypt_secret (lb_crypto st) (lib_get now user_id name st)"

definition lib_exists :: "string \<Rightarrow> string \<Rightarrow> lib_secrets \<Rightarrow> (secret_error, bool) result" where
  "lib_exists user_id name st = Inr (list_ex (lib_at user_id (to_lower name)) (lb_rows st))"

definition lib_list :: "(string \<Rightarrow> nat) \<Rightarrow> string \<Rightarrow> lib_secrets \<Rightarrow> (secret_error, secret_ref list) result" where
  "lib_list collation user_id st =
     Inr (map (\<lambda>r. \<lparr>sr_name = lr_name r, sr_provider = lr_provider r\<rparr>)
       (sort_key (\<lambda>r. collation (lr_name r)) (filter (\<lambda>r. lr_user_id r = user_id) (lb_rows st))))"

definition lib_delete :: "string \<Rightarrow> string \<Rightarrow> lib_secrets \<Rightarrow> (secret_error, bool) result \<times> lib_secrets" where
  "lib_delete user_id name st =
     (let hit = lib_at user_id (to_lower name)
      in (Inr (length (filter hit (lb_rows st)) > 0), st\<lparr>lb_rows := filter (\<lambda>r. \<not> hit r) (lb_rows st)\<rparr>))"

definition lib_record_usage :: "utc \<Rightarrow> uuid \<Rightarrow> lib_secrets \<Rightarrow> (secret_error, unit) result \<times> lib_secrets" where
  "lib_record_usage now secret_id st =
     (Inr (), st\<lparr>lb_rows := map (\<lambda>r. if lr_id r = to_uuid_text (lb_ops st) secret_id
        then r\<lparr>lr_last_used_at := Some (to_rfc3339_millis (lb_ops st) now), lr_usage_count := lr_usage_count r + 1\<rparr> else r) (lb_rows st)\<rparr>)"

definition lib_is_accessible :: "string \<Rightarrow> string \<Rightarrow> string list \<Rightarrow> lib_secrets \<Rightarrow> (secret_error, bool) result" where
  "lib_is_accessible user_id secret_name allowed st = accessible (\<lambda>n. lib_exists user_id n st) secret_name allowed"

subsection \<open>Memory\<close>

record mem_secrets =
  mm_crypto :: secrets_crypto
  mm_secrets :: "((string \<times> string) \<times> secret) list"

definition mem_create ::
  "create_env \<Rightarrow> string \<Rightarrow> create_secret_params \<Rightarrow> mem_secrets \<Rightarrow> (secret_error, secret) result \<times> mem_secrets"
where
  "mem_create env user_id params st =
     (case encrypt (mm_crypto st) (en_random env) (as_bytes (cs_value params)) of
        Inl e \<Rightarrow> (Inl e, st)
      | Inr enc \<Rightarrow>
          (let s = new_row (\<lambda>t. t) env user_id params enc
           in (Inr s, st\<lparr>mm_secrets := hm_put (user_id, cs_name params) s (mm_secrets st)\<rparr>)))"

definition mem_get :: "utc \<Rightarrow> string \<Rightarrow> string \<Rightarrow> mem_secrets \<Rightarrow> (secret_error, secret) result" where
  "mem_get now user_id name0 st =
     (let name = to_lower name0
      in case hm_get (mm_secrets st) (user_id, name) of
           Some s \<Rightarrow> check_expiry now s
         | None \<Rightarrow> Inl (SecretNotFound name))"

definition mem_get_decrypted :: "utc \<Rightarrow> string \<Rightarrow> string \<Rightarrow> mem_secrets \<Rightarrow> (secret_error, string) result" where
  "mem_get_decrypted now user_id name st = decrypt_secret (mm_crypto st) (mem_get now user_id name st)"

definition mem_exists :: "string \<Rightarrow> string \<Rightarrow> mem_secrets \<Rightarrow> (secret_error, bool) result" where
  "mem_exists user_id name st = Inr (hm_get (mm_secrets st) (user_id, to_lower name) \<noteq> None)"

definition mem_list :: "string \<Rightarrow> mem_secrets \<Rightarrow> (secret_error, secret_ref list) result" where
  "mem_list user_id st = Inr (map (\<lambda>e. secret_ref_of (snd e)) (filter (\<lambda>e. fst (fst e) = user_id) (mm_secrets st)))"

definition mem_delete :: "string \<Rightarrow> string \<Rightarrow> mem_secrets \<Rightarrow> (secret_error, bool) result \<times> mem_secrets" where
  "mem_delete user_id name st =
     (Inr (hm_get (mm_secrets st) (user_id, to_lower name) \<noteq> None),
      st\<lparr>mm_secrets := hm_del (user_id, to_lower name) (mm_secrets st)\<rparr>)"

definition mem_record_usage :: "uuid \<Rightarrow> mem_secrets \<Rightarrow> (secret_error, unit) result \<times> mem_secrets" where
  "mem_record_usage secret_id st = (Inr (), st)"

definition mem_is_accessible :: "string \<Rightarrow> string \<Rightarrow> string list \<Rightarrow> mem_secrets \<Rightarrow> (secret_error, bool) result" where
  "mem_is_accessible user_id secret_name allowed st = accessible (\<lambda>n. mem_exists user_id n st) secret_name allowed"


section \<open>What a store promises\<close>

text \<open>The cipher opens what it sealed and adds a tag.\<close>

definition aead_law :: "crypto_ops \<Rightarrow> bool" where
  "aead_law ops = (\<forall>k n p c. co_seal ops k n p = Inr c \<longrightarrow> co_open ops k n c = Inr p \<and> length c = length p + TAG_SIZE)"

text \<open>Texts of identifiers and times are read back, times in milliseconds.\<close>

definition lib_time :: "utc \<Rightarrow> utc" where
  "lib_time t = t - t mod 1000000"

definition text_law :: "text_ops \<Rightarrow> bool" where
  "text_law ops = ((\<forall>i. to_parse_uuid ops (to_uuid_text ops i) = Inr i) \<and>
     (\<forall>t. to_parse_rfc3339 ops (to_rfc3339_millis ops t) = Some (lib_time t) \<and> to_rfc3339_millis ops t \<noteq> []))"

definition not_expired :: "utc \<Rightarrow> secret \<Rightarrow> bool" where
  "not_expired now s = (case sc_expires_at s of Some e \<Rightarrow> now \<le> e | None \<Rightarrow> True)"

lemma check_expiry_ok: "check_expiry now s = (if not_expired now s then Inr s else Inl SecretExpired)"
  by (auto simp: check_expiry_def not_expired_def split: option.splits)

lemma decrypt_secret_Inl [simp]: "decrypt_secret cr (Inl e) = Inl e"
  by (simp add: decrypt_secret_def)

lemma unat_of_char: "unat (of_char c :: 8 word) = (of_char c :: nat)"
proof -
  have "(of_char c :: nat) < 256" by simp
  moreover have "unat (of_nat (of_char c) :: 8 word) = of_char c mod 256" by (simp add: unat_of_nat)
  ultimately show ?thesis by (simp add: of_nat_of_char)
qed

lemma string_of_as_bytes [simp]: "string_of_bytes (as_bytes s) = s"
  by (simp add: string_of_bytes_def as_bytes_def comp_def unat_of_char)

lemma decrypt_encrypt:
  assumes "aead_law (cr_ops cr)" "encrypt cr rnd p = Inr enc" "length (snd rnd) = NONCE_SIZE"
  shows "decrypt cr (fst enc) (snd enc) = decrypted_from_bytes p"
proof -
  obtain k c where k: "cipher_key SecretEncryptionFailed cr (fst rnd) = Inr k" "co_seal (cr_ops cr) k (snd rnd) p = Inr c"
    "enc = (snd rnd @ c, fst rnd)"
    using assms(2) by (auto simp: encrypt_def Let_def split: sum.splits)
  have "cipher_key SecretDecryptionFailed cr (fst rnd) = Inr k"
    using k(1) by (auto simp: cipher_key_def split: sum.splits if_splits)
  moreover have "co_open (cr_ops cr) k (snd rnd) c = Inr p" "length c = length p + TAG_SIZE"
    using assms(1) k(2) by (auto simp: aead_law_def)
  ultimately show ?thesis using k(3) assms(3) by (simp add: decrypt_def)
qed

locale secrets_provider =
  fixes ok :: "'s \<Rightarrow> bool"
    and crypto_of :: "'s \<Rightarrow> secrets_crypto"
    and look :: "'s \<Rightarrow> string \<Rightarrow> string \<Rightarrow> secret option"
    and precision :: "utc \<Rightarrow> utc"
    and create :: "create_env \<Rightarrow> string \<Rightarrow> create_secret_params \<Rightarrow> 's \<Rightarrow> (secret_error, secret) result \<times> 's"
    and get :: "utc \<Rightarrow> string \<Rightarrow> string \<Rightarrow> 's \<Rightarrow> (secret_error, secret) result"
    and get_decrypted :: "utc \<Rightarrow> string \<Rightarrow> string \<Rightarrow> 's \<Rightarrow> (secret_error, string) result"
    and found :: "string \<Rightarrow> string \<Rightarrow> 's \<Rightarrow> (secret_error, bool) result"
    and delete :: "string \<Rightarrow> string \<Rightarrow> 's \<Rightarrow> (secret_error, bool) result \<times> 's"
  assumes create_ok: "ok s \<Longrightarrow> encrypt (crypto_of s) (en_random env) (as_bytes (cs_value p)) = Inr enc \<Longrightarrow>
      \<exists>r s'. create env u p s = (Inr r, s') \<and> ok s' \<and> crypto_of s' = crypto_of s \<and>
        look s' = (look s)(u := (look s u)(cs_name p \<mapsto> r)) \<and> sc_encrypted_value r = fst enc \<and> sc_key_salt r = snd enc \<and>
        sc_expires_at r = map_option precision (cs_expires_at p)"
    and create_error: "encrypt (crypto_of s) (en_random env) (as_bytes (cs_value p)) = Inl e \<Longrightarrow> create env u p s = (Inl e, s)"
    and get_look: "ok s \<Longrightarrow> get now u n s =
      (case look s u (to_lower n) of Some r \<Rightarrow> check_expiry now r | None \<Rightarrow> Inl (SecretNotFound (to_lower n)))"
    and get_decrypted_get: "get_decrypted now u n s = decrypt_secret (crypto_of s) (get now u n s)"
    and found_look: "ok s \<Longrightarrow> found u n s = Inr (look s u (to_lower n) \<noteq> None)"
    and delete_look: "ok s \<Longrightarrow> \<exists>s'. delete u n s = (Inr (look s u (to_lower n) \<noteq> None), s') \<and> ok s' \<and> crypto_of s' = crypto_of s \<and>
        look s' = (look s)(u := (look s u)(to_lower n := None))"
begin

lemma stored_then_read:
  assumes "ok s" "aead_law (cr_ops (crypto_of s))" "encrypt (crypto_of s) (en_random env) (as_bytes (cs_value p)) = Inr enc"
    "length (snd (en_random env)) = NONCE_SIZE" "utf8_valid (as_bytes (cs_value p))" "to_lower n = cs_name p"
    "\<forall>e. cs_expires_at p = Some e \<longrightarrow> now \<le> precision e"
  shows "\<exists>r s'. create env u p s = (Inr r, s') \<and> ok s' \<and> get_decrypted now u n s' = Inr (cs_value p)"
proof -
  obtain r s' where c: "create env u p s = (Inr r, s')" "ok s'" "crypto_of s' = crypto_of s"
      "look s' = (look s)(u := (look s u)(cs_name p \<mapsto> r))"
      "sc_encrypted_value r = fst enc" "sc_key_salt r = snd enc" "sc_expires_at r = map_option precision (cs_expires_at p)"
    using create_ok[OF assms(1,3), where u = u] by blast
  have "not_expired now r" using assms(7) c(7) by (auto simp: not_expired_def split: option.splits)
  then have "get now u n s' = Inr r" using c(2,4) assms(6) by (simp add: get_look check_expiry_ok)
  then show ?thesis
    using c decrypt_encrypt[OF assms(2,3,4)] assms(5) by (simp add: get_decrypted_get decrypt_secret_def decrypted_from_bytes_def)
qed

lemma others_kept:
  assumes "ok s" "create env u p s = (Inr r, s')" "u' \<noteq> u \<or> to_lower n \<noteq> cs_name p"
  shows "get_decrypted now u' n s' = get_decrypted now u' n s \<and> found u' n s' = found u' n s"
proof -
  obtain enc where e: "encrypt (crypto_of s) (en_random env) (as_bytes (cs_value p)) = Inr enc"
    using assms(2) create_error by (cases "encrypt (crypto_of s) (en_random env) (as_bytes (cs_value p))") auto
  have "ok s'" "crypto_of s' = crypto_of s" "look s' u' (to_lower n) = look s u' (to_lower n)"
    using create_ok[OF assms(1) e, where u = u] assms(2,3) by auto
  then show ?thesis using assms(1) by (simp add: get_decrypted_get get_look found_look)
qed

lemma deleted_not_found:
  assumes "ok s"
  shows "\<exists>b s'. delete u n s = (Inr b, s') \<and> ok s' \<and> get_decrypted now u n s' = Inl (SecretNotFound (to_lower n)) \<and>
    (\<forall>u' n'. u' \<noteq> u \<or> to_lower n' \<noteq> to_lower n \<longrightarrow> get_decrypted now u' n' s' = get_decrypted now u' n' s)"
proof -
  obtain b s' where d: "delete u n s = (Inr b, s')" "ok s'" "crypto_of s' = crypto_of s"
      "look s' = (look s)(u := (look s u)(to_lower n := None))"
    using delete_look[OF assms, where u = u and n = n] by blast
  then have "get now u' n' s' = get now u' n' s" if "u' \<noteq> u \<or> to_lower n' \<noteq> to_lower n" for u' n'
    using assms that by (auto simp: get_look)
  moreover have "get now u n s' = Inl (SecretNotFound (to_lower n))" using d by (simp add: get_look)
  ultimately show ?thesis using d by (simp add: get_decrypted_get)
qed

lemma same_secrets_same_injection:
  assumes "ok s" "ok s'" "crypto_of s = crypto_of s'" "look s u = look s' u"
  shows "inject ci u host (\<lambda>u n. get_decrypted now u n s) = inject ci u host (\<lambda>u n. get_decrypted now u n s')"
proof -
  have g: "get_decrypted now u n s = get_decrypted now u n s'" for n
    using assms by (simp add: get_decrypted_get get_look)
  have "inject_all ci u (\<lambda>u n. get_decrypted now u n s) ms res = inject_all ci u (\<lambda>u n. get_decrypted now u n s') ms res" for ms res
    by (induction ms arbitrary: res) (simp_all add: g split: sum.split)
  then show ?thesis by (simp add: inject_def Let_def)
qed

end

section \<open>The three stores keep the promise\<close>

lemma find_map_keeping: "(\<And>x. Q (f x) = Q x) \<Longrightarrow> find Q (map f xs) = map_option f (find Q xs)"
  by (induction xs) simp_all

lemma find_filter: "find Q (filter P xs) = find (\<lambda>x. P x \<and> Q x) xs"
  by (induction xs) simp_all

lemma list_ex_find: "list_ex P xs = (find P xs \<noteq> None)"
  by (induction xs) simp_all

subsection \<open>PostgreSQL\<close>

definition pg_look :: "pg_secrets \<Rightarrow> string \<Rightarrow> string \<Rightarrow> secret option" where
  "pg_look s u n = find (row_at u n) (pg_rows s)"

lemma row_at_unique: "row_at u n x \<Longrightarrow> row_at u' n' x = (u' = u \<and> n' = n)"
  by (auto simp: row_at_def)

lemma pg_upsert_find:
  assumes "pg_upsert new rows = (r, rows')"
  shows "find (row_at u n) rows' = (if u = sc_user_id new \<and> n = sc_name new then Some r else find (row_at u n) rows)"
    and "sc_encrypted_value r = sc_encrypted_value new" "sc_key_salt r = sc_key_salt new" "sc_expires_at r = sc_expires_at new"
proof -
  let ?at = "row_at (sc_user_id new) (sc_name new)"
  show "sc_encrypted_value r = sc_encrypted_value new" "sc_key_salt r = sc_key_salt new" "sc_expires_at r = sc_expires_at new"
    using assms by (auto simp: pg_upsert_def Let_def split: option.splits)
  show "find (row_at u n) rows' = (if u = sc_user_id new \<and> n = sc_name new then Some r else find (row_at u n) rows)"
  proof (cases "find ?at rows")
    case None
    then show ?thesis using assms by (auto simp: pg_upsert_def find_append row_at_def split: option.splits)
  next
    case (Some old)
    have "?at old" using Some by (auto simp: find_Some_iff)
    then have r: "?at r" using assms Some by (auto simp: pg_upsert_def Let_def row_at_def)
    have rows': "rows' = map (\<lambda>x. if ?at x then r else x) rows" using assms Some by (auto simp: pg_upsert_def Let_def)
    have "row_at u n (if ?at x then r else x) = row_at u n x" for x using r by (auto simp: row_at_def)
    then have f: "find (row_at u n) rows' = map_option (\<lambda>x. if ?at x then r else x) (find (row_at u n) rows)"
      unfolding rows' by (rule find_map_keeping)
    show ?thesis
    proof (cases "u = sc_user_id new \<and> n = sc_name new")
      case True
      then show ?thesis using f Some \<open>?at old\<close> by simp
    next
      case False
      then have "find (row_at u n) rows = Some x \<Longrightarrow> \<not> ?at x" for x by (auto simp: find_Some_iff row_at_def)
      then show ?thesis using f False by (cases "find (row_at u n) rows") auto
    qed
  qed
qed

interpretation pg: secrets_provider "\<lambda>_. True" pg_crypto pg_look pg_time pg_create pg_get pg_get_decrypted pg_exists pg_delete
proof
  fix s :: pg_secrets and env :: create_env and u and p :: create_secret_params and enc
  assume e: "encrypt (pg_crypto s) (en_random env) (as_bytes (cs_value p)) = Inr enc"
  obtain r rows where up: "pg_upsert (new_row pg_time env u p enc) (pg_rows s) = (r, rows)" by fastforce
  show "\<exists>r s'. pg_create env u p s = (Inr r, s') \<and> True \<and> pg_crypto s' = pg_crypto s \<and>
        pg_look s' = (pg_look s)(u := (pg_look s u)(cs_name p \<mapsto> r)) \<and> sc_encrypted_value r = fst enc \<and> sc_key_salt r = snd enc \<and>
        sc_expires_at r = map_option pg_time (cs_expires_at p)"
    using pg_upsert_find[OF up] e up by (auto simp: pg_create_def pg_look_def fun_eq_iff new_row_def)
qed (auto simp: pg_create_def pg_get_def pg_look_def pg_get_decrypted_def pg_exists_def pg_delete_def Let_def list_ex_find find_filter
      fun_eq_iff row_at_def find_None_iff filter_empty_conv intro!: arg_cong2[where f = find])

subsection \<open>libSQL\<close>

definition lib_ok :: "lib_secrets \<Rightarrow> bool" where
  "lib_ok s = (text_law (lb_ops s) \<and> (\<forall>r\<in>set (lb_rows s). \<exists>x. libsql_row_to_secret (lb_ops s) r = Inr x))"

definition lib_look :: "lib_secrets \<Rightarrow> string \<Rightarrow> string \<Rightarrow> secret option" where
  "lib_look s u n =
     (case find (lib_at u n) (lb_rows s) of
        None \<Rightarrow> None
      | Some row \<Rightarrow> (case libsql_row_to_secret (lb_ops s) row of Inr x \<Rightarrow> Some x | Inl _ \<Rightarrow> None))"

lemma find_in: "find P xs = Some x \<Longrightarrow> x \<in> set xs \<and> P x"
  by (auto simp: find_Some_iff)

lemma parse_written:
  "text_law ops \<Longrightarrow> libsql_parse_timestamp ops (to_rfc3339_millis ops t) = Inr (lib_time t)"
  by (simp add: text_law_def libsql_parse_timestamp_def)

lemma opt_time_written: "text_law ops \<Longrightarrow> opt_time ops (map_option (to_rfc3339_millis ops) t) = map_option lib_time t"
  using parse_written[of ops] by (cases t) (auto simp: opt_time_def text_law_def)

text \<open>The row of a creation can be read, whether it is new or replaces another.\<close>

definition lib_written :: "lib_row \<Rightarrow> lib_row \<Rightarrow> lib_row" where
  "lib_written new x = x\<lparr>lr_encrypted_value := lr_encrypted_value new, lr_key_salt := lr_key_salt new, lr_provider := lr_provider new,
     lr_expires_at := lr_expires_at new, lr_updated_at := lr_updated_at new\<rparr>"

lemma new_row_read:
  assumes "text_law ops"
  shows "\<exists>x. libsql_row_to_secret ops (lib_new_row ops env u p enc) = Inr x \<and> sc_encrypted_value x = fst enc \<and>
    sc_key_salt x = snd enc \<and> sc_expires_at x = map_option lib_time (cs_expires_at p)"
  using assms parse_written[OF assms] opt_time_written[OF assms]
  by (simp add: libsql_row_to_secret_def lib_new_row_def text_law_def)

lemma written_row_read:
  assumes "text_law ops" "libsql_row_to_secret ops old = Inr y"
  shows "\<exists>x. libsql_row_to_secret ops (lib_written (lib_new_row ops env u p enc) old) = Inr x \<and> sc_encrypted_value x = fst enc \<and>
    sc_key_salt x = snd enc \<and> sc_expires_at x = map_option lib_time (cs_expires_at p)"
  using assms parse_written[OF assms(1)] opt_time_written[OF assms(1)]
  by (auto simp: libsql_row_to_secret_def lib_new_row_def lib_written_def split: sum.splits)

lemma lib_upsert_find:
  shows "find (lib_at u n) (lib_upsert new rows) =
    (if u = lr_user_id new \<and> n = lr_name new
     then Some (case find (lib_at u n) rows of None \<Rightarrow> new | Some old \<Rightarrow> lib_written new old)
     else find (lib_at u n) rows)"
proof -
  let ?at = "lib_at (lr_user_id new) (lr_name new)"
  show ?thesis
  proof (cases "list_ex ?at rows")
    case False
    then have "find ?at rows = None" by (simp add: list_ex_find)
    then show ?thesis using False by (auto simp: lib_upsert_def find_append lib_at_def split: option.splits)
  next
    case True
    have up: "lib_upsert new rows = map (\<lambda>x. if ?at x then lib_written new x else x) rows"
      using True by (simp add: lib_upsert_def lib_written_def)
    have "find (lib_at u n) (lib_upsert new rows) = map_option (\<lambda>x. if ?at x then lib_written new x else x) (find (lib_at u n) rows)"
      unfolding up by (rule find_map_keeping) (simp add: lib_at_def lib_written_def)
    moreover have "find (lib_at u n) rows = Some x \<Longrightarrow> ?at x = (u = lr_user_id new \<and> n = lr_name new)" for x
      by (auto dest!: find_in simp: lib_at_def)
    ultimately show ?thesis using True by (cases "find (lib_at u n) rows") (auto simp: list_ex_find)
  qed
qed

lemma lib_upsert_readable:
  assumes "text_law ops" "\<forall>r\<in>set rows. \<exists>x. libsql_row_to_secret ops r = Inr x" "r \<in> set (lib_upsert (lib_new_row ops env u p enc) rows)"
  shows "\<exists>x. libsql_row_to_secret ops r = Inr x"
proof -
  have "r \<in> set rows \<or> r = lib_new_row ops env u p enc \<or> (\<exists>y\<in>set rows. r = lib_written (lib_new_row ops env u p enc) y)"
    using assms(3) by (auto simp: lib_upsert_def lib_written_def split: if_splits)
  then show ?thesis using assms(1,2) new_row_read[OF assms(1)] written_row_read[OF assms(1)] by metis
qed

lemma lib_create_ok:
  assumes "lib_ok s" "encrypt (lb_crypto s) (en_random env) (as_bytes (cs_value p)) = Inr enc"
  shows "\<exists>r s'. lib_create env u p s = (Inr r, s') \<and> lib_ok s' \<and> lb_crypto s' = lb_crypto s \<and>
        lib_look s' = (lib_look s)(u := (lib_look s u)(cs_name p \<mapsto> r)) \<and> sc_encrypted_value r = fst enc \<and> sc_key_salt r = snd enc \<and>
        sc_expires_at r = map_option lib_time (cs_expires_at p)"
proof -
  let ?new = "lib_new_row (lb_ops s) env u p enc"
  let ?rows = "lib_upsert ?new (lb_rows s)"
  let ?row = "case find (lib_at u (cs_name p)) (lb_rows s) of None \<Rightarrow> ?new | Some old \<Rightarrow> lib_written ?new old"
  have key: "lr_user_id ?new = u" "lr_name ?new = cs_name p" by (simp_all add: lib_new_row_def)
  have law: "text_law (lb_ops s)" and rd: "\<forall>r\<in>set (lb_rows s). \<exists>x. libsql_row_to_secret (lb_ops s) r = Inr x"
    using assms(1) by (auto simp: lib_ok_def)
  obtain x where x: "libsql_row_to_secret (lb_ops s) ?row = Inr x" "sc_encrypted_value x = fst enc" "sc_key_salt x = snd enc"
      "sc_expires_at x = map_option lib_time (cs_expires_at p)"
  proof (cases "find (lib_at u (cs_name p)) (lb_rows s)")
    case None
    then show ?thesis using that new_row_read[OF law, of env u p enc] by auto
  next
    case (Some old)
    then obtain y where "libsql_row_to_secret (lb_ops s) old = Inr y" using rd find_in by fast
    then show ?thesis using that Some written_row_read[OF law] by fastforce
  qed
  have f: "find (lib_at u (cs_name p)) ?rows = Some ?row" by (simp add: lib_upsert_find key)
  have c: "lib_create env u p s = (Inr x, s\<lparr>lb_rows := ?rows\<rparr>)"
    using assms(2) f x(1) by (simp add: lib_create_def Let_def)
  have "lib_look (s\<lparr>lb_rows := ?rows\<rparr>) = (lib_look s)(u := (lib_look s u)(cs_name p \<mapsto> x))"
    using f x(1) by (auto simp: fun_eq_iff lib_look_def lib_upsert_find key cong: option.case_cong)
  moreover have "lib_ok (s\<lparr>lb_rows := ?rows\<rparr>)" using law lib_upsert_readable[OF law rd] by (simp add: lib_ok_def)
  ultimately show ?thesis using c x by simp
qed

interpretation lib: secrets_provider lib_ok lb_crypto lib_look lib_time lib_create lib_get lib_get_decrypted lib_exists lib_delete
proof
  fix s :: lib_secrets and u n and now :: utc
  assume "lib_ok s"
  then have r: "find (lib_at u m) (lb_rows s) = Some row \<Longrightarrow> \<exists>x. libsql_row_to_secret (lb_ops s) row = Inr x" for m row
    by (auto simp: lib_ok_def dest!: find_in)
  show "lib_get now u n s =
      (case lib_look s u (to_lower n) of Some r \<Rightarrow> check_expiry now r | None \<Rightarrow> Inl (SecretNotFound (to_lower n)))"
    using r by (fastforce simp: lib_get_def lib_look_def Let_def split: option.splits sum.splits)
  show "lib_exists u n s = Inr (lib_look s u (to_lower n) \<noteq> None)"
    using r by (fastforce simp: lib_exists_def lib_look_def list_ex_find split: option.splits sum.splits)
  have hit: "(length (filter (lib_at u (to_lower n)) (lb_rows s)) > 0) = (lib_look s u (to_lower n) \<noteq> None)"
  proof (cases "find (lib_at u (to_lower n)) (lb_rows s)")
    case None
    then have "filter (lib_at u (to_lower n)) (lb_rows s) = []" by (auto simp: filter_empty_conv find_None_iff)
    then show ?thesis using None by (simp add: lib_look_def)
  next
    case (Some row)
    then have "filter (lib_at u (to_lower n)) (lb_rows s) \<noteq> []" by (auto simp: filter_empty_conv dest: find_in)
    then show ?thesis using r[OF Some] Some by (auto simp: lib_look_def)
  qed
  have "lib_look (s\<lparr>lb_rows := filter (\<lambda>r. \<not> lib_at u (to_lower n) r) (lb_rows s)\<rparr>) =
      (lib_look s)(u := (lib_look s u)(to_lower n := None))"
  proof -
    have "find (lib_at v m) (filter (\<lambda>r. \<not> lib_at u (to_lower n) r) (lb_rows s)) =
        (if v = u \<and> m = to_lower n then None else find (lib_at v m) (lb_rows s))" for v m
      by (auto simp: find_filter lib_at_def find_None_iff intro!: arg_cong2[where f = find])
    then show ?thesis by (auto simp: fun_eq_iff lib_look_def cong: option.case_cong)
  qed
  then show "\<exists>s'. lib_delete u n s = (Inr (lib_look s u (to_lower n) \<noteq> None), s') \<and> lib_ok s' \<and> lb_crypto s' = lb_crypto s \<and>
      lib_look s' = (lib_look s)(u := (lib_look s u)(to_lower n := None))"
    using hit \<open>lib_ok s\<close> by (auto simp: lib_delete_def Let_def lib_ok_def)
qed (use lib_create_ok in \<open>auto simp: lib_create_def lib_get_decrypted_def\<close>)

subsection \<open>Memory\<close>

definition mem_look :: "mem_secrets \<Rightarrow> string \<Rightarrow> string \<Rightarrow> secret option" where
  "mem_look s u n = hm_get (mm_secrets s) (u, n)"

interpretation mem: secrets_provider "\<lambda>_. True" mm_crypto mem_look "\<lambda>t. t" mem_create mem_get mem_get_decrypted mem_exists mem_delete
  by unfold_locales
    (auto simp: mem_create_def mem_get_def mem_look_def mem_get_decrypted_def mem_exists_def mem_delete_def new_row_def Let_def
      fun_eq_iff)

section \<open>Samples\<close>

text \<open>A cipher without secrecy that satisfies the law, and texts in unary.\<close>

definition sample_crypto :: secrets_crypto where
  "sample_crypto = \<lparr>cr_ops = \<lparr>co_hkdf = (\<lambda>_ _ _ n. Some (replicate n 0)), co_seal = (\<lambda>_ _ p. Inr (p @ replicate 16 0)),
     co_open = (\<lambda>_ _ c. Inr (take (length c - 16) c)), co_key_error = []\<rparr>, cr_master_key = replicate 32 CHR ''k''\<rparr>"

definition sample_create_env :: create_env where
  "sample_create_env = \<lparr>en_random = (replicate 32 0, replicate 12 0), en_id = 1, en_now = 0\<rparr>"

lemma sample_aead: "aead_law (cr_ops sample_crypto)"
  by (auto simp: aead_law_def sample_crypto_def TAG_SIZE_def)

lemma sample_encrypt: "\<exists>enc. encrypt sample_crypto (en_random sample_create_env) bs = Inr enc"
  by (simp add: encrypt_def cipher_key_def derive_key_def sample_crypto_def sample_create_env_def KEY_SIZE_def Let_def)

definition sample_pg :: pg_secrets where
  "sample_pg = \<lparr>pg_crypto = sample_crypto, pg_rows = []\<rparr>"

definition sample_mem :: mem_secrets where
  "sample_mem = \<lparr>mm_crypto = sample_crypto, mm_secrets = []\<rparr>"

definition sample_text_ops :: text_ops where
  "sample_text_ops =
     \<lparr>to_uuid_text = (\<lambda>i. replicate i CHR ''x''), to_parse_uuid = (\<lambda>s. Inr (length s)),
      to_rfc3339_millis = (\<lambda>t. (if t < 0 then CHR ''-'' else CHR ''+'') # replicate (nat \<bar>lib_time t\<bar>) CHR ''x''),
      to_parse_rfc3339 = (\<lambda>s. if hd s = CHR ''-'' then Some (- int (length s - 1)) else Some (int (length s - 1))),
      to_parse_naive_frac = (\<lambda>_. None), to_parse_naive = (\<lambda>_. None), to_debug = id\<rparr>"

definition sample_lib :: lib_secrets where
  "sample_lib = \<lparr>lb_ops = sample_text_ops, lb_crypto = sample_crypto, lb_rows = []\<rparr>"

lemma lib_time_sign: "0 \<le> t \<Longrightarrow> 0 \<le> lib_time t" "t < 0 \<Longrightarrow> lib_time t < 0"
proof -
  show "0 \<le> t \<Longrightarrow> 0 \<le> lib_time t" using zmod_le_nonneg_dividend[of t 1000000] by (simp add: lib_time_def)
  show "t < 0 \<Longrightarrow> lib_time t < 0" using pos_mod_sign[of 1000000 t] by (simp add: lib_time_def)
qed

lemma sample_text_law: "text_law sample_text_ops"
proof -
  have "- \<bar>lib_time t\<bar> = lib_time t" if "t < 0" for t using lib_time_sign(2)[OF that] by simp
  moreover have "\<bar>lib_time t\<bar> = lib_time t" if "\<not> t < 0" for t using lib_time_sign(1)[of t] that by simp
  ultimately show ?thesis by (simp add: text_law_def sample_text_ops_def)
qed

lemma sample_lib_ok: "lib_ok sample_lib"
  by (simp add: lib_ok_def sample_lib_def sample_text_law)

section \<open>Properties\<close>

text \<open>
  C11. A secret that was stored under a name in lower case is read back by its user under the name in any case until
  it expires, from each of the three stores.
\<close>

theorem secret_round_trip:
  assumes "aead_law (cr_ops cr)" "encrypt cr (en_random env) (as_bytes v) = Inr enc" "length (snd (en_random env)) = NONCE_SIZE"
    "utf8_valid (as_bytes v)" "pg_crypto s1 = cr" "lb_crypto s2 = cr" "lib_ok s2" "mm_crypto s3 = cr"
  shows "pg_get_decrypted now u n (snd (pg_create env u (create_params_new n v) s1)) = Inr v \<and>
    lib_get_decrypted now u n (snd (lib_create env u (create_params_new n v) s2)) = Inr v \<and>
    mem_get_decrypted now u n (snd (mem_create env u (create_params_new n v) s3)) = Inr v"
proof -
  let ?p = "create_params_new n v"
  have p: "cs_value ?p = v" "cs_name ?p = to_lower n" "cs_expires_at ?p = None" by (simp_all add: create_params_new_def)
  show ?thesis
    using pg.stored_then_read[of s1 env ?p enc n now u] lib.stored_then_read[of s2 env ?p enc n now u]
      mem.stored_then_read[of s3 env ?p enc n now u] assms p by auto
qed

theorem secret_round_trip_witness:
  "pg_get_decrypted 7 ''ann'' ''TOKEN'' (snd (pg_create sample_create_env ''ann'' (create_params_new ''TOKEN'' ''abc'') sample_pg)) = Inr ''abc'' \<and>
   lib_get_decrypted 7 ''ann'' ''TOKEN'' (snd (lib_create sample_create_env ''ann'' (create_params_new ''TOKEN'' ''abc'') sample_lib)) = Inr ''abc'' \<and>
   mem_get_decrypted 7 ''ann'' ''TOKEN'' (snd (mem_create sample_create_env ''ann'' (create_params_new ''TOKEN'' ''abc'') sample_mem)) = Inr ''abc''"
proof -
  obtain enc where e: "encrypt sample_crypto (en_random sample_create_env) (as_bytes ''abc'') = Inr enc" using sample_encrypt by blast
  have u: "utf8_valid (as_bytes ''abc'')" by code_simp
  have n: "length (snd (en_random sample_create_env)) = NONCE_SIZE" by (simp add: sample_create_env_def NONCE_SIZE_def)
  show ?thesis
    by (rule secret_round_trip[OF sample_aead e n u _ _ sample_lib_ok]) (simp_all add: sample_pg_def sample_lib_def sample_mem_def)
qed

text \<open>
  A secret that is stored under a name with a capital letter is never found again: reading by the same name gives
  what it gave before, and so does the question whether it exists, in each of the three stores.
\<close>

theorem capital_name_never_found:
  assumes "to_lower (cs_name p) \<noteq> cs_name p" "lib_ok s2"
    and "pg_create env u p s1 = (Inr r1, s1')" "lib_create env u p s2 = (Inr r2, s2')" "mem_create env u p s3 = (Inr r3, s3')"
  shows "pg_get_decrypted now u (cs_name p) s1' = pg_get_decrypted now u (cs_name p) s1 \<and>
    pg_exists u (cs_name p) s1' = pg_exists u (cs_name p) s1 \<and>
    lib_get_decrypted now u (cs_name p) s2' = lib_get_decrypted now u (cs_name p) s2 \<and>
    lib_exists u (cs_name p) s2' = lib_exists u (cs_name p) s2 \<and>
    mem_get_decrypted now u (cs_name p) s3' = mem_get_decrypted now u (cs_name p) s3 \<and>
    mem_exists u (cs_name p) s3' = mem_exists u (cs_name p) s3"
  using pg.others_kept[OF _ assms(3), of u "cs_name p" now] lib.others_kept[OF assms(2) assms(4), of u "cs_name p" now]
    mem.others_kept[OF _ assms(5), of u "cs_name p" now] assms(1)
  by auto

theorem capital_name_never_found_witness:
  "pg_get_decrypted 7 ''ann'' ''llm_custom_MyLLM_api_key'' (snd (pg_create sample_create_env ''ann''
     \<lparr>cs_name = ''llm_custom_MyLLM_api_key'', cs_value = ''abc'', cs_provider = None, cs_expires_at = None\<rparr> sample_pg)) =
   Inl (SecretNotFound ''llm_custom_myllm_api_key'')"
proof -
  let ?p = "\<lparr>cs_name = ''llm_custom_MyLLM_api_key'', cs_value = ''abc'', cs_provider = None, cs_expires_at = None\<rparr>"
  obtain enc where e: "encrypt sample_crypto (en_random sample_create_env) (as_bytes (cs_value ?p)) = Inr enc" using sample_encrypt by blast
  have l: "to_lower ''llm_custom_MyLLM_api_key'' = ''llm_custom_myllm_api_key''" by code_simp
  obtain r1 s1 where c1: "pg_create sample_create_env ''ann'' ?p sample_pg = (Inr r1, s1)"
    using pg.create_ok[of sample_pg sample_create_env ?p enc "''ann''"] e by (auto simp: sample_pg_def)
  obtain r2 s2 where c2: "lib_create sample_create_env ''ann'' ?p sample_lib = (Inr r2, s2)"
    using lib_create_ok[OF sample_lib_ok, of sample_create_env ?p enc "''ann''"] e by (auto simp: sample_lib_def)
  obtain r3 s3 where c3: "mem_create sample_create_env ''ann'' ?p sample_mem = (Inr r3, s3)"
    using mem.create_ok[of sample_mem sample_create_env ?p enc "''ann''"] e by (auto simp: sample_mem_def)
  have "pg_get_decrypted 7 ''ann'' (cs_name ?p) s1 = pg_get_decrypted 7 ''ann'' (cs_name ?p) sample_pg"
    using capital_name_never_found[OF _ sample_lib_ok c1 c2 c3, of 7] l by simp
  moreover have "pg_get_decrypted 7 ''ann'' (cs_name ?p) sample_pg = Inl (SecretNotFound ''llm_custom_myllm_api_key'')"
    unfolding pg_get_decrypted_def pg_get_def Let_def by (simp add: sample_pg_def l del: to_lower_simps)
  ultimately show ?thesis by (simp add: c1)
qed

text \<open>
  C13. What the injector puts into a request depends on the secrets of its user alone, for each of the three stores: two
  stores with the same secrets for the user give the same credentials or the same error.
\<close>

theorem injection_of_own_secrets:
  assumes "pg_crypto s1 = pg_crypto s1'" "pg_look s1 u = pg_look s1' u" "lib_ok s2" "lib_ok s2'" "lb_crypto s2 = lb_crypto s2'"
    "lib_look s2 u = lib_look s2' u" "mm_crypto s3 = mm_crypto s3'" "mem_look s3 u = mem_look s3' u"
  shows "inject ci u host (\<lambda>u n. pg_get_decrypted now u n s1) = inject ci u host (\<lambda>u n. pg_get_decrypted now u n s1') \<and>
    inject ci u host (\<lambda>u n. lib_get_decrypted now u n s2) = inject ci u host (\<lambda>u n. lib_get_decrypted now u n s2') \<and>
    inject ci u host (\<lambda>u n. mem_get_decrypted now u n s3) = inject ci u host (\<lambda>u n. mem_get_decrypted now u n s3')"
  using pg.same_secrets_same_injection[of s1 s1' u] lib.same_secrets_same_injection[of s2 s2' u]
    mem.same_secrets_same_injection[of s3 s3' u] assms by simp

theorem injection_of_own_secrets_witness:
  "inject sample_injector ''ann'' ''api.example.com'' (\<lambda>u n. pg_get_decrypted 7 u n sample_pg) =
   inject sample_injector ''ann'' ''api.example.com'' (\<lambda>u n. pg_get_decrypted 7 u n
     (sample_pg\<lparr>pg_rows := [new_row pg_time sample_create_env ''bob'' (create_params_new ''token'' ''x'') ([], [])]\<rparr>))"
proof -
  have "pg_look sample_pg ''ann'' = pg_look (sample_pg\<lparr>pg_rows := [new_row pg_time sample_create_env ''bob'' (create_params_new ''token'' ''x'') ([], [])]\<rparr>) ''ann''"
    by (simp add: fun_eq_iff pg_look_def sample_pg_def row_at_def new_row_def)
  then show ?thesis
    using injection_of_own_secrets[of sample_pg
        "sample_pg\<lparr>pg_rows := [new_row pg_time sample_create_env ''bob'' (create_params_new ''token'' ''x'') ([], [])]\<rparr>" "''ann''"
        sample_lib sample_lib sample_mem sample_mem sample_injector "''api.example.com''" 7] sample_lib_ok
    by simp
qed

text \<open>
  A deleted secret is not found any more, and every other secret is read as before.
\<close>

theorem deleted_secret_gone:
  assumes "lib_ok s2"
  shows "pg_get_decrypted now u n (snd (pg_delete u n s1)) = Inl (SecretNotFound (to_lower n)) \<and>
    lib_get_decrypted now u n (snd (lib_delete u n s2)) = Inl (SecretNotFound (to_lower n)) \<and>
    mem_get_decrypted now u n (snd (mem_delete u n s3)) = Inl (SecretNotFound (to_lower n)) \<and>
    (u' \<noteq> u \<or> to_lower n' \<noteq> to_lower n \<longrightarrow>
       pg_get_decrypted now u' n' (snd (pg_delete u n s1)) = pg_get_decrypted now u' n' s1 \<and>
       lib_get_decrypted now u' n' (snd (lib_delete u n s2)) = lib_get_decrypted now u' n' s2 \<and>
       mem_get_decrypted now u' n' (snd (mem_delete u n s3)) = mem_get_decrypted now u' n' s3)"
  using pg.deleted_not_found[of u n s1 now] lib.deleted_not_found[OF assms, of u n now] mem.deleted_not_found[of u n s3 now]
  by auto

theorem deleted_secret_gone_witness:
  "lib_get_decrypted 7 ''ann'' ''Token'' (snd (lib_delete ''ann'' ''Token'' sample_lib)) = Inl (SecretNotFound (to_lower ''Token''))"
  using deleted_secret_gone[OF sample_lib_ok, of 7 "''ann''" "''Token''"] by blast

text \<open>
  In the libSQL store a time of expiry that cannot be parsed counts as none: such a secret is served at any time.
\<close>

theorem unreadable_expiry_never_expires:
  assumes "find (lib_at u (to_lower n)) (lb_rows s) = Some row" "libsql_row_to_secret (lb_ops s) row = Inr x"
    and "lr_expires_at row = Some txt" "libsql_parse_timestamp (lb_ops s) txt = Inl e"
  shows "lib_get now u n s = Inr x"
proof -
  have "sc_expires_at x = None"
    using assms(2-4) by (auto simp: libsql_row_to_secret_def opt_time_def split: sum.splits)
  then show ?thesis using assms(1,2) by (simp add: lib_get_def Let_def check_expiry_ok not_expired_def)
qed

definition short_dates :: text_ops where
  "short_dates = sample_text_ops\<lparr>to_parse_rfc3339 := (\<lambda>s. if s = ''2020-01-01'' then None else Some 0)\<rparr>"

definition dated_row :: lib_row where
  "dated_row = (lib_new_row short_dates sample_create_env ''ann'' (create_params_new ''token'' ''x'') ([], []))\<lparr>lr_expires_at := Some ''2020-01-01''\<rparr>"

theorem unreadable_expiry_never_expires_witness:
  "\<exists>x. \<forall>now. lib_get now ''ann'' ''token'' \<lparr>lb_ops = short_dates, lb_crypto = sample_crypto, lb_rows = [dated_row]\<rparr> = Inr x"
proof -
  let ?s = "\<lparr>lb_ops = short_dates, lb_crypto = sample_crypto, lb_rows = [dated_row]\<rparr>"
  have l: "to_lower ''token'' = ''token''" by code_simp
  have "\<exists>x. libsql_row_to_secret short_dates dated_row = Inr x"
    by (simp add: libsql_row_to_secret_def dated_row_def lib_new_row_def short_dates_def sample_text_ops_def sample_create_env_def
        libsql_parse_timestamp_def lib_time_def)
  then obtain x where x: "libsql_row_to_secret (lb_ops ?s) dated_row = Inr x" by auto
  have f: "find (lib_at ''ann'' (to_lower ''token'')) (lb_rows ?s) = Some dated_row"
    by (simp add: lib_at_def dated_row_def lib_new_row_def create_params_new_def l)
  have r: "lr_expires_at dated_row = Some ''2020-01-01''" by (simp add: dated_row_def)
  have e: "libsql_parse_timestamp (lb_ops ?s) ''2020-01-01'' = Inl (SecretDatabase (''unparseable timestamp: '' @ ''2020-01-01''))"
    by (simp add: libsql_parse_timestamp_def short_dates_def sample_text_ops_def)
  show ?thesis using unreadable_expiry_never_expires[OF f x r e] by blast
qed

text \<open>
  The check of access agrees with the check of the injector: a tool may use a secret that exists exactly when the
  injector with the same list of names would allow it.
\<close>

theorem access_agrees_with_injector:
  "pg_is_accessible u n allowed s =
     Inr (pg_look s u (to_lower n) \<noteq> None \<and> is_secret_allowed (credential_injector_new ms allowed) n)"
  by (auto simp: pg_is_accessible_def accessible_def Let_def pg.found_look matches_allowed_def is_secret_allowed_def
        credential_injector_new_def list_ex_iff split: bool.splits)

end
