(* ===== verification/Settings_Vault.thy ===== *)
theory Settings_Vault
  imports Secrets_Store Json
begin

text \<open>
  The settings of a user and the keys of language model providers that are taken out of them:
  the table of \<open>src/history/store.rs\<close>, the handlers of \<open>src/channels/web/handlers/settings.rs\<close>, and from
  \<open>src/config/mod.rs\<close> the migration of keys that are stored in the clear and the way back into the settings at
  start. The store of secrets is any that keeps the promise of \<open>secrets_provider\<close>.
\<close>

section \<open>Model\<close>

subsection \<open>The table of settings\<close>

record setting_row =
  se_user_id :: string
  se_key :: string
  se_value :: json
  se_updated_at :: utc

type_synonym settings_table = "setting_row list"

definition setting_at :: "string \<Rightarrow> string \<Rightarrow> setting_row \<Rightarrow> bool" where
  "setting_at user key r = (se_user_id r = user \<and> se_key r = key)"

definition get_setting_full :: "string \<Rightarrow> string \<Rightarrow> settings_table \<Rightarrow> setting_row option" where
  "get_setting_full user_id key t = find (setting_at user_id key) t"

definition get_setting :: "string \<Rightarrow> string \<Rightarrow> settings_table \<Rightarrow> json option" where
  "get_setting user_id key t = map_option se_value (find (setting_at user_id key) t)"

definition set_setting :: "utc \<Rightarrow> string \<Rightarrow> string \<Rightarrow> json \<Rightarrow> settings_table \<Rightarrow> settings_table" where
  "set_setting now user_id key v t =
     (if list_ex (setting_at user_id key) t
      then map (\<lambda>r. if setting_at user_id key r then r\<lparr>se_value := v, se_updated_at := now\<rparr> else r) t
      else t @ [\<lparr>se_user_id = user_id, se_key = key, se_value = v, se_updated_at = now\<rparr>])"

definition delete_setting :: "string \<Rightarrow> string \<Rightarrow> settings_table \<Rightarrow> bool \<times> settings_table" where
  "delete_setting user_id key t =
     (length (filter (setting_at user_id key) t) > 0, filter (\<lambda>r. \<not> setting_at user_id key r) t)"

definition list_settings :: "(string \<Rightarrow> nat) \<Rightarrow> string \<Rightarrow> settings_table \<Rightarrow> setting_row list" where
  "list_settings collation user_id t = sort_key (\<lambda>r. collation (se_key r)) (filter (\<lambda>r. se_user_id r = user_id) t)"

definition get_all_settings :: "string \<Rightarrow> settings_table \<Rightarrow> (string \<times> json) list" where
  "get_all_settings user_id t = map (\<lambda>r. (se_key r, se_value r)) (filter (\<lambda>r. se_user_id r = user_id) t)"

definition set_all_settings :: "utc \<Rightarrow> string \<Rightarrow> (string \<times> json) list \<Rightarrow> settings_table \<Rightarrow> settings_table" where
  "set_all_settings now user_id settings t = fold (\<lambda>(k, v). set_setting now user_id k v) settings t"

definition has_settings :: "string \<Rightarrow> settings_table \<Rightarrow> bool" where
  "has_settings user_id t = (length (filter (\<lambda>r. se_user_id r = user_id) t) > 0)"

subsection \<open>Names of secrets\<close>

definition builtin_secret_name :: "string \<Rightarrow> string" where
  "builtin_secret_name provider_id = ''llm_builtin_'' @ provider_id @ ''_api_key''"

definition custom_secret_name :: "string \<Rightarrow> string" where
  "custom_secret_name provider_id = ''llm_custom_'' @ provider_id @ ''_api_key''"

definition API_KEY_UNCHANGED :: string where
  "API_KEY_UNCHANGED = concat (replicate 8 [CHR 0xE2, CHR 0x80, CHR 0xA2])"

definition s_api_key :: string where "s_api_key = ''api_key''"
definition s_overrides :: string where "s_overrides = ''llm_builtin_overrides''"
definition s_providers :: string where "s_providers = ''llm_custom_providers''"

definition is_real_api_key :: "string \<Rightarrow> bool" where
  "is_real_api_key key = (key \<noteq> [] \<and> key \<noteq> API_KEY_UNCHANGED)"

text \<open>The text under a key of a value, and a value without its key.\<close>

definition str_at :: "string \<Rightarrow> json \<Rightarrow> string option" where
  "str_at k v = (case json_get k v of Some (JString s) \<Rightarrow> Some s | _ \<Rightarrow> None)"

definition id_of :: "json \<Rightarrow> string" where
  "id_of v = (case str_at ''id'' v of Some s \<Rightarrow> s | None \<Rightarrow> [])"

definition strip_key :: "json \<Rightarrow> json" where
  "strip_key v = (case v of JObject es \<Rightarrow> JObject (hm_del s_api_key es) | _ \<Rightarrow> v)"

definition put_key :: "json \<Rightarrow> json" where
  "put_key v = (case v of JObject es \<Rightarrow> JObject (hm_put s_api_key (JString API_KEY_UNCHANGED) es) | _ \<Rightarrow> v)"

subsection \<open>The gateway\<close>

text \<open>The operations of the store of secrets that the handlers call.\<close>

record 's secrets_api =
  sa_create :: "create_env \<Rightarrow> string \<Rightarrow> create_secret_params \<Rightarrow> 's \<Rightarrow> (secret_error, secret) result \<times> 's"
  sa_get_decrypted :: "utc \<Rightarrow> string \<Rightarrow> string \<Rightarrow> 's \<Rightarrow> (secret_error, string) result"
  sa_exists :: "string \<Rightarrow> string \<Rightarrow> 's \<Rightarrow> (secret_error, bool) result"

record 's gateway_env =
  ge_api :: "'s secrets_api"
  ge_creations :: "nat \<Rightarrow> create_env"
  ge_now :: utc
  ge_collation :: "string \<Rightarrow> nat"
  ge_time_text :: "utc \<Rightarrow> string"

text \<open>The secrets with the number of creations so far, which selects the random bytes of the next.\<close>

type_synonym 's vault = "'s \<times> nat"

record 's gateway =
  gw_store :: "settings_table option"
  gw_vault :: "'s vault option"

definition vault_secret ::
  "'s gateway_env \<Rightarrow> string \<Rightarrow> string \<Rightarrow> string \<Rightarrow> string \<Rightarrow> 's vault \<Rightarrow> (nat, unit) result \<times> 's vault"
where
  "vault_secret env user_id secret_name api_key provider_id v =
     (case sa_create (ge_api env) (ge_creations env (snd v)) user_id
             \<lparr>cs_name = secret_name, cs_value = api_key, cs_provider = Some provider_id, cs_expires_at = None\<rparr> (fst v) of
        (Inl _, s) \<Rightarrow> (Inl 500, (s, snd v + 1))
      | (Inr _, s) \<Rightarrow> (Inr (), (s, snd v + 1)))"

text \<open>One entry: its name in the vault, the identifier of its provider and its value.\<close>

definition vault_entry ::
  "'s gateway_env \<Rightarrow> string \<Rightarrow> string \<Rightarrow> string \<Rightarrow> json \<Rightarrow> 's vault \<Rightarrow> (nat, json) result \<times> 's vault"
where
  "vault_entry env user_id secret_name provider_id v vt =
     (case str_at s_api_key v of
        None \<Rightarrow> (Inr v, vt)
      | Some api_key \<Rightarrow>
          if \<not> is_real_api_key api_key then (Inr (strip_key v), vt)
          else (case vault_secret env user_id secret_name api_key provider_id vt of
                  (Inl e, vt') \<Rightarrow> (Inl e, vt')
                | (Inr _, vt') \<Rightarrow> (Inr (strip_key v), vt')))"

fun vault_builtin ::
  "'s gateway_env \<Rightarrow> string \<Rightarrow> (string \<times> json) list \<Rightarrow> 's vault \<Rightarrow> (nat, (string \<times> json) list) result \<times> 's vault"
where
  "vault_builtin env user_id [] vt = (Inr [], vt)"
| "vault_builtin env user_id ((provider_id, v) # es) vt =
     (case vault_entry env user_id (builtin_secret_name provider_id) provider_id v vt of
        (Inl e, vt') \<Rightarrow> (Inl e, vt')
      | (Inr v', vt') \<Rightarrow>
          (case vault_builtin env user_id es vt' of
             (Inl e, vt'') \<Rightarrow> (Inl e, vt'')
           | (Inr es', vt'') \<Rightarrow> (Inr ((provider_id, v') # es'), vt'')))"

fun vault_custom ::
  "'s gateway_env \<Rightarrow> string \<Rightarrow> json list \<Rightarrow> 's vault \<Rightarrow> (nat, json list) result \<times> 's vault"
where
  "vault_custom env user_id [] vt = (Inr [], vt)"
| "vault_custom env user_id (v # vs) vt =
     (case (if id_of v = [] then (Inr v, vt)
            else vault_entry env user_id (custom_secret_name (id_of v)) (id_of v) v vt) of
        (Inl e, vt') \<Rightarrow> (Inl e, vt')
      | (Inr v', vt') \<Rightarrow>
          (case vault_custom env user_id vs vt' of
             (Inl e, vt'') \<Rightarrow> (Inl e, vt'')
           | (Inr vs', vt'') \<Rightarrow> (Inr (v' # vs'), vt'')))"

definition has_real_key :: "json \<Rightarrow> bool" where
  "has_real_key v = (case str_at s_api_key v of Some k \<Rightarrow> is_real_api_key k | None \<Rightarrow> False)"

definition require_secrets_store :: "'s vault option \<Rightarrow> bool \<Rightarrow> (nat, 's vault option) result" where
  "require_secrets_store vo has_real_keys =
     (case vo of
        Some s \<Rightarrow> Inr (Some s)
      | None \<Rightarrow> if has_real_keys then Inl 503 else Inr None)"

definition extract_builtin_override_keys ::
  "'s gateway_env \<Rightarrow> string \<Rightarrow> json \<Rightarrow> 's vault option \<Rightarrow> (nat, json) result \<times> 's vault option"
where
  "extract_builtin_override_keys env user_id v vo =
     (case v of
        JObject es \<Rightarrow>
          (case require_secrets_store vo (list_ex (\<lambda>e. has_real_key (snd e)) es) of
             Inl e \<Rightarrow> (Inl e, vo)
           | Inr None \<Rightarrow> (Inr v, vo)
           | Inr (Some vt) \<Rightarrow> (case vault_builtin env user_id es vt of (r, vt') \<Rightarrow> (map_sum id JObject r, Some vt')))
      | _ \<Rightarrow> (Inr v, vo))"

definition extract_custom_provider_keys ::
  "'s gateway_env \<Rightarrow> string \<Rightarrow> json \<Rightarrow> 's vault option \<Rightarrow> (nat, json) result \<times> 's vault option"
where
  "extract_custom_provider_keys env user_id v vo =
     (case v of
        JArray vs \<Rightarrow>
          (case require_secrets_store vo (list_ex has_real_key vs) of
             Inl e \<Rightarrow> (Inl e, vo)
           | Inr None \<Rightarrow> (Inr v, vo)
           | Inr (Some vt) \<Rightarrow> (case vault_custom env user_id vs vt of (r, vt') \<Rightarrow> (map_sum id JArray r, Some vt')))
      | _ \<Rightarrow> (Inr v, vo))"

subsection \<open>What a client sees\<close>

definition mask_value :: "json \<Rightarrow> json" where
  "mask_value v = (if json_get s_api_key v \<noteq> None then put_key v else v)"

definition on_key :: "string \<Rightarrow> (json \<Rightarrow> json) \<Rightarrow> (string \<times> json) list \<Rightarrow> (string \<times> json) list" where
  "on_key k f settings = map (\<lambda>(k', v). (k', if k' = k then f v else v)) settings"

definition each_override :: "(string \<Rightarrow> json \<Rightarrow> json) \<Rightarrow> json \<Rightarrow> json" where
  "each_override f v = (case v of JObject es \<Rightarrow> JObject (map (\<lambda>(k, w). (k, f k w)) es) | _ \<Rightarrow> v)"

definition each_provider :: "(json \<Rightarrow> json) \<Rightarrow> json \<Rightarrow> json" where
  "each_provider f v = (case v of JArray vs \<Rightarrow> JArray (map f vs) | _ \<Rightarrow> v)"

definition mask_settings_api_keys :: "(string \<times> json) list \<Rightarrow> (string \<times> json) list" where
  "mask_settings_api_keys settings =
     on_key s_providers (each_provider mask_value) (on_key s_overrides (each_override (\<lambda>_. mask_value)) settings)"

definition in_vault :: "'s gateway_env \<Rightarrow> 's vault \<Rightarrow> string \<Rightarrow> string \<Rightarrow> bool" where
  "in_vault env vt user_id name = (case sa_exists (ge_api env) user_id name (fst vt) of Inr b \<Rightarrow> b | Inl _ \<Rightarrow> False)"

definition annotate_value :: "'s gateway_env \<Rightarrow> 's vault \<Rightarrow> string \<Rightarrow> string \<Rightarrow> json \<Rightarrow> json" where
  "annotate_value env vt user_id name v =
     (if json_get s_api_key v \<noteq> None then v
      else if in_vault env vt user_id name then put_key v else v)"

definition annotate_provider :: "'s gateway_env \<Rightarrow> 's vault \<Rightarrow> string \<Rightarrow> json \<Rightarrow> json" where
  "annotate_provider env vt user_id v =
     (if id_of v = [] then v else annotate_value env vt user_id (custom_secret_name (id_of v)) v)"

definition annotate_secret_key_presence ::
  "'s gateway_env \<Rightarrow> 's vault option \<Rightarrow> string \<Rightarrow> (string \<times> json) list \<Rightarrow> (string \<times> json) list"
where
  "annotate_secret_key_presence env vo user_id settings =
     (case vo of
        None \<Rightarrow> settings
      | Some vt \<Rightarrow>
          on_key s_providers (each_provider (annotate_provider env vt user_id))
            (on_key s_overrides (each_override (\<lambda>pid. annotate_value env vt user_id (builtin_secret_name pid))) settings))"

definition shown :: "'s gateway_env \<Rightarrow> 's vault option \<Rightarrow> string \<Rightarrow> (string \<times> json) list \<Rightarrow> (string \<times> json) list" where
  "shown env vo user_id settings = mask_settings_api_keys (annotate_secret_key_presence env vo user_id settings)"

record setting_response =
  rs_key :: string
  rs_value :: json
  rs_updated_at :: string

definition settings_get_handler :: "'s gateway_env \<Rightarrow> string \<Rightarrow> string \<Rightarrow> 's gateway \<Rightarrow> (nat, setting_response) result" where
  "settings_get_handler env user_id key gw =
     (case gw_store gw of
        None \<Rightarrow> Inl 503
      | Some t \<Rightarrow>
          (case get_setting_full user_id key t of
             None \<Rightarrow> Inl 404
           | Some row \<Rightarrow>
               (let val = (if key = s_overrides \<or> key = s_providers
                           then (case map_of (shown env (gw_vault gw) user_id [(key, se_value row)]) key of
                                   Some v \<Rightarrow> v | None \<Rightarrow> se_value row)
                           else se_value row)
                in Inr \<lparr>rs_key = se_key row, rs_value = val, rs_updated_at = ge_time_text env (se_updated_at row)\<rparr>)))"

definition settings_list_handler :: "'s gateway_env \<Rightarrow> string \<Rightarrow> 's gateway \<Rightarrow> (nat, setting_response list) result" where
  "settings_list_handler env user_id gw =
     (case gw_store gw of
        None \<Rightarrow> Inl 503
      | Some t \<Rightarrow>
          (let rows = list_settings (ge_collation env) user_id t;
               keys = [s_overrides, s_providers];
               sensitive = map (\<lambda>r. (se_key r, se_value r)) (filter (\<lambda>r. se_key r \<in> set keys) rows);
               sensitive' = (if sensitive \<noteq> [] then shown env (gw_vault gw) user_id sensitive else sensitive)
           in Inr (map (\<lambda>r. \<lparr>rs_key = se_key r,
                 rs_value = (if se_key r \<in> set keys
                             then (case map_of sensitive' (se_key r) of Some v \<Rightarrow> v | None \<Rightarrow> se_value r)
                             else se_value r),
                 rs_updated_at = ge_time_text env (se_updated_at r)\<rparr>) rows)))"

definition settings_export_handler :: "'s gateway_env \<Rightarrow> string \<Rightarrow> 's gateway \<Rightarrow> (nat, (string \<times> json) list) result" where
  "settings_export_handler env user_id gw =
     (case gw_store gw of
        None \<Rightarrow> Inl 503
      | Some t \<Rightarrow> Inr (shown env (gw_vault gw) user_id (get_all_settings user_id t)))"

subsection \<open>Writing\<close>

definition is_valid_provider_id :: "string \<Rightarrow> bool" where
  "is_valid_provider_id i =
     (i \<noteq> [] \<and> length i \<le> 64 \<and>
      list_all (\<lambda>b. is_ascii_lower b \<or> is_ascii_digit b \<or> b = CHR ''-'' \<or> b = CHR ''_'') i)"

definition VALID_ADAPTERS :: "string list" where
  "VALID_ADAPTERS = [''open_ai_completions'', ''anthropic'', ''ollama'']"

definition valid_provider :: "json \<Rightarrow> bool" where
  "valid_provider p =
     (is_valid_provider_id (id_of p) \<and>
      (let adapter = (case str_at ''adapter'' p of Some a \<Rightarrow> a | None \<Rightarrow> [])
       in adapter \<noteq> [] \<and> adapter \<in> set VALID_ADAPTERS))"

definition validate_custom_providers :: "json \<Rightarrow> (nat, unit) result" where
  "validate_custom_providers v =
     (case v of JArray ps \<Rightarrow> if list_all valid_provider ps then Inr () else Inl 422 | _ \<Rightarrow> Inr ())"

definition has_provider :: "string \<Rightarrow> json list \<Rightarrow> bool" where
  "has_provider i ps = list_ex (\<lambda>p. str_at ''id'' p = Some i) ps"

definition guard_active_provider_not_removed :: "settings_table \<Rightarrow> string \<Rightarrow> json \<Rightarrow> (nat, unit) result" where
  "guard_active_provider_not_removed t user_id new_value =
     (case get_setting user_id ''llm_backend'' t of
        Some (JString active) \<Rightarrow>
          (if active = [] then Inr ()
           else case new_value of
                  JArray new_providers \<Rightarrow>
                    (case get_setting user_id s_providers t of
                       Some (JArray old_providers) \<Rightarrow>
                         if \<not> has_provider active old_providers then Inr ()
                         else if \<not> has_provider active new_providers then Inl 409
                         else Inr ()
                     | _ \<Rightarrow> Inr ())
                | _ \<Rightarrow> Inr ())
      | _ \<Rightarrow> Inr ())"

definition check_providers :: "settings_table \<Rightarrow> string \<Rightarrow> json \<Rightarrow> (nat, unit) result" where
  "check_providers t user_id v =
     (case guard_active_provider_not_removed t user_id v of Inl e \<Rightarrow> Inl e | Inr _ \<Rightarrow> validate_custom_providers v)"

definition sanitize_setting ::
  "'s gateway_env \<Rightarrow> string \<Rightarrow> string \<Rightarrow> json \<Rightarrow> 's vault option \<Rightarrow> (nat, json) result \<times> 's vault option"
where
  "sanitize_setting env user_id key v vo =
     (if key = s_overrides then extract_builtin_override_keys env user_id v vo
      else if key = s_providers then extract_custom_provider_keys env user_id v vo
      else (Inr v, vo))"

definition settings_set_handler ::
  "'s gateway_env \<Rightarrow> string \<Rightarrow> string \<Rightarrow> json \<Rightarrow> 's gateway \<Rightarrow> (nat, nat) result \<times> 's gateway"
where
  "settings_set_handler env user_id key v gw =
     (case gw_store gw of
        None \<Rightarrow> (Inl 503, gw)
      | Some t \<Rightarrow>
          (case (if key = s_providers then check_providers t user_id v else Inr ()) of
             Inl e \<Rightarrow> (Inl e, gw)
           | Inr _ \<Rightarrow>
               (case sanitize_setting env user_id key v (gw_vault gw) of
                  (Inl e, vo) \<Rightarrow> (Inl e, gw\<lparr>gw_vault := vo\<rparr>)
                | (Inr v', vo) \<Rightarrow> (Inr 204, gw\<lparr>gw_vault := vo, gw_store := Some (set_setting (ge_now env) user_id key v' t)\<rparr>))))"

definition settings_delete_handler :: "string \<Rightarrow> string \<Rightarrow> 's gateway \<Rightarrow> (nat, nat) result \<times> 's gateway" where
  "settings_delete_handler user_id key gw =
     (case gw_store gw of
        None \<Rightarrow> (Inl 503, gw)
      | Some t \<Rightarrow>
          (case (if key = s_providers then guard_active_provider_not_removed t user_id (JArray []) else Inr ()) of
             Inl e \<Rightarrow> (Inl e, gw)
           | Inr _ \<Rightarrow> (Inr 204, gw\<lparr>gw_store := Some (snd (delete_setting user_id key t))\<rparr>)))"

definition sanitize_at ::
  "'s gateway_env \<Rightarrow> string \<Rightarrow> string \<Rightarrow> (string \<times> json) list \<Rightarrow> 's vault option \<Rightarrow>
     (nat, (string \<times> json) list) result \<times> 's vault option"
where
  "sanitize_at env user_id key settings vo =
     (case hm_get settings key of
        None \<Rightarrow> (Inr settings, vo)
      | Some v \<Rightarrow>
          (case sanitize_setting env user_id key v vo of
             (Inl e, vo') \<Rightarrow> (Inl e, vo')
           | (Inr v', vo') \<Rightarrow> (Inr (hm_put key v' settings), vo')))"

definition settings_import_handler ::
  "'s gateway_env \<Rightarrow> string \<Rightarrow> (string \<times> json) list \<Rightarrow> 's gateway \<Rightarrow> (nat, nat) result \<times> 's gateway"
where
  "settings_import_handler env user_id settings gw =
     (case gw_store gw of
        None \<Rightarrow> (Inl 503, gw)
      | Some t \<Rightarrow>
          (case sanitize_at env user_id s_overrides settings (gw_vault gw) of
             (Inl e, vo) \<Rightarrow> (Inl e, gw\<lparr>gw_vault := vo\<rparr>)
           | (Inr settings1, vo) \<Rightarrow>
               (case sanitize_at env user_id s_providers settings1 vo of
                  (Inl e, vo') \<Rightarrow> (Inl e, gw\<lparr>gw_vault := vo'\<rparr>)
                | (Inr settings2, vo') \<Rightarrow>
                    (Inr 204, gw\<lparr>gw_vault := vo', gw_store := Some (set_all_settings (ge_now env) user_id settings2 t)\<rparr>))))"

subsection \<open>Start of the program\<close>

record builtin_override =
  bo_api_key :: "string option"
  bo_model :: "string option"
  bo_base_url :: "string option"

record custom_provider =
  pv_id :: string
  pv_name :: string
  pv_adapter :: string
  pv_base_url :: "string option"
  pv_default_model :: "string option"
  pv_api_key :: "string option"
  pv_builtin :: bool

record llm_settings =
  ls_builtin_overrides :: "(string \<times> builtin_override) list"
  ls_custom_providers :: "custom_provider list"

definition hydrated_key :: "'s gateway_env \<Rightarrow> 's vault \<Rightarrow> string \<Rightarrow> string \<Rightarrow> string option \<Rightarrow> string option" where
  "hydrated_key env vt user_id name old =
     (if old \<noteq> None then old
      else case sa_get_decrypted (ge_api env) (ge_now env) user_id name (fst vt) of Inr k \<Rightarrow> Some k | Inl _ \<Rightarrow> old)"

definition hydrate_llm_keys_from_secrets :: "'s gateway_env \<Rightarrow> 's vault \<Rightarrow> string \<Rightarrow> llm_settings \<Rightarrow> llm_settings" where
  "hydrate_llm_keys_from_secrets env vt user_id s =
     s\<lparr>ls_builtin_overrides :=
          map (\<lambda>(i, ov). (i, ov\<lparr>bo_api_key := hydrated_key env vt user_id (builtin_secret_name i) (bo_api_key ov)\<rparr>)) (ls_builtin_overrides s),
        ls_custom_providers :=
          map (\<lambda>p. p\<lparr>pv_api_key := hydrated_key env vt user_id (custom_secret_name (pv_id p)) (pv_api_key p)\<rparr>) (ls_custom_providers s)\<rparr>"

text \<open>One entry of the migration: whether it was migrated, its new value and the vault.\<close>

definition migrate_entry ::
  "'s gateway_env \<Rightarrow> string \<Rightarrow> string \<Rightarrow> string \<Rightarrow> json \<Rightarrow> 's vault \<Rightarrow> bool \<times> json \<times> 's vault"
where
  "migrate_entry env user_id secret_name provider_id v vt =
     (case str_at s_api_key v of
        None \<Rightarrow> (False, v, vt)
      | Some api_key \<Rightarrow>
          if api_key = [] then (False, v, vt)
          else if in_vault env vt user_id secret_name then (True, strip_key v, vt)
          else (case vault_secret env user_id secret_name api_key provider_id vt of
                  (Inl _, vt') \<Rightarrow> (False, v, vt')
                | (Inr _, vt') \<Rightarrow> (True, strip_key v, vt')))"

fun migrate_builtin ::
  "'s gateway_env \<Rightarrow> string \<Rightarrow> (string \<times> json) list \<Rightarrow> 's vault \<Rightarrow> nat \<times> (string \<times> json) list \<times> 's vault"
where
  "migrate_builtin env user_id [] vt = (0, [], vt)"
| "migrate_builtin env user_id ((i, v) # es) vt =
     (case migrate_entry env user_id (builtin_secret_name i) i v vt of
        (b, v', vt') \<Rightarrow>
          (case migrate_builtin env user_id es vt' of
             (n, es', vt'') \<Rightarrow> ((if b then n + 1 else n), (i, v') # es', vt'')))"

fun migrate_custom :: "'s gateway_env \<Rightarrow> string \<Rightarrow> json list \<Rightarrow> 's vault \<Rightarrow> nat \<times> json list \<times> 's vault" where
  "migrate_custom env user_id [] vt = (0, [], vt)"
| "migrate_custom env user_id (v # vs) vt =
     (case (if id_of v = [] then (False, v, vt)
            else migrate_entry env user_id (custom_secret_name (id_of v)) (id_of v) v vt) of
        (b, v', vt') \<Rightarrow>
          (case migrate_custom env user_id vs vt' of
             (n, vs', vt'') \<Rightarrow> ((if b then n + 1 else n), v' # vs', vt'')))"

definition migrate_overrides ::
  "'s gateway_env \<Rightarrow> string \<Rightarrow> json option \<Rightarrow> settings_table \<Rightarrow> 's vault \<Rightarrow> settings_table \<times> 's vault"
where
  "migrate_overrides env user_id v t vt =
     (case v of
        Some (JObject es) \<Rightarrow>
          (case migrate_builtin env user_id es vt of
             (n, es', vt') \<Rightarrow> (if n > 0 then set_setting (ge_now env) user_id s_overrides (JObject es') t else t, vt'))
      | _ \<Rightarrow> (t, vt))"

definition migrate_providers ::
  "'s gateway_env \<Rightarrow> string \<Rightarrow> json option \<Rightarrow> settings_table \<Rightarrow> 's vault \<Rightarrow> settings_table \<times> 's vault"
where
  "migrate_providers env user_id v t vt =
     (case v of
        Some (JArray vs) \<Rightarrow>
          (case migrate_custom env user_id vs vt of
             (n, vs', vt') \<Rightarrow> (if n > 0 then set_setting (ge_now env) user_id s_providers (JArray vs') t else t, vt'))
      | _ \<Rightarrow> (t, vt))"

definition migrate_plaintext_llm_keys ::
  "'s gateway_env \<Rightarrow> string \<Rightarrow> settings_table \<Rightarrow> 's vault \<Rightarrow> settings_table \<times> 's vault"
where
  "migrate_plaintext_llm_keys env user_id t vt =
     (let settings_map = get_all_settings user_id t;
          (t1, vt1) = migrate_overrides env user_id (hm_get settings_map s_overrides) t vt
      in migrate_providers env user_id (hm_get settings_map s_providers) t1 vt1)"


section \<open>Lemmas\<close>

text \<open>The texts are compared as wholes.\<close>

lemma setting_keys_distinct [simp]: "s_overrides \<noteq> s_providers" "s_providers \<noteq> s_overrides"
  by (simp_all add: s_overrides_def s_providers_def)

lemma secret_names_inject [simp]:
  "custom_secret_name i = custom_secret_name j \<longleftrightarrow> i = j"
  "builtin_secret_name i = builtin_secret_name j \<longleftrightarrow> i = j"
  "builtin_secret_name i \<noteq> custom_secret_name j"
  by (simp_all add: custom_secret_name_def builtin_secret_name_def)

lemma lower_secret_names:
  "to_lower (custom_secret_name i) = custom_secret_name (to_lower i)"
  "to_lower (builtin_secret_name i) = builtin_secret_name (to_lower i)"
proof -
  have "to_lower ''llm_custom_'' = ''llm_custom_''" "to_lower ''llm_builtin_'' = ''llm_builtin_''" "to_lower ''_api_key'' = ''_api_key''"
    by code_simp+
  then show "to_lower (custom_secret_name i) = custom_secret_name (to_lower i)"
    "to_lower (builtin_secret_name i) = builtin_secret_name (to_lower i)"
    by (simp_all only: custom_secret_name_def builtin_secret_name_def to_lower_append)
qed

lemma stripped_has_no_key [simp]: "json_get s_api_key (strip_key v) = None"
proof (cases v)
  case (JObject es)
  then show ?thesis using hm_get_del[of s_api_key es s_api_key] by (simp add: strip_key_def json_get_def hm_get_def)
qed (simp_all add: strip_key_def json_get_def)

lemma str_at_get: "str_at k v = Some s \<longleftrightarrow> json_get k v = Some (JString s)"
  by (auto simp: str_at_def split: option.splits json.splits)

lemma str_at_strip [simp]: "str_at s_api_key (strip_key v) = None"
  by (simp add: str_at_def)

lemma setting_after_set:
  "get_setting u k (set_setting now u' k' v t) = (if u = u' \<and> k = k' then Some v else get_setting u k t)"
proof (cases "list_ex (setting_at u' k') t")
  case True
  have "find (setting_at u k) (map (\<lambda>r. if setting_at u' k' r then r\<lparr>se_value := v, se_updated_at := now\<rparr> else r) t) =
      map_option (\<lambda>r. if setting_at u' k' r then r\<lparr>se_value := v, se_updated_at := now\<rparr> else r) (find (setting_at u k) t)"
    by (rule find_map_keeping) (simp add: setting_at_def)
  moreover have "find (setting_at u k) t = Some r \<Longrightarrow> setting_at u' k' r = (u = u' \<and> k = k')" for r
    by (auto dest!: find_in simp: setting_at_def)
  ultimately show ?thesis using True
    by (cases "find (setting_at u k) t") (auto simp: get_setting_def set_setting_def list_ex_find)
next
  case False
  then have "find (setting_at u' k') t = None" by (simp add: list_ex_find)
  then show ?thesis using False
    by (auto simp: get_setting_def set_setting_def find_append setting_at_def split: option.splits)
qed

lemma setting_of_all: "hm_get (get_all_settings u t) k = get_setting u k t"
  by (induction t) (auto simp: get_all_settings_def get_setting_def hm_get_def setting_at_def)

lemma vault_entry_value:
  "vault_entry env u name pid v vt = (Inr v', vt') \<Longrightarrow> v' = (if str_at s_api_key v = None then v else strip_key v)"
  by (auto simp: vault_entry_def split: option.splits if_splits prod.splits sum.splits)

lemma vaulted_without_keys:
  "vault_custom env u vs vt = (Inr vs', vt') \<Longrightarrow> \<forall>v\<in>set vs. id_of v \<noteq> [] \<Longrightarrow> v' \<in> set vs' \<Longrightarrow> str_at s_api_key v' = None"
proof (induction vs arbitrary: vt vs')
  case (Cons v vs)
  then show ?case by (auto split: prod.splits sum.splits if_splits dest!: vault_entry_value)
qed simp

subsection \<open>For every store of secrets\<close>

context secrets_provider
begin

lemma vault_secret_kept:
  assumes "ge_api env = \<lparr>sa_create = create, sa_get_decrypted = get_decrypted, sa_exists = found\<rparr>" "ok (fst vt)"
    "vault_secret env u name key pid vt = (Inr x, vt')"
  shows "ok (fst vt') \<and> crypto_of (fst vt') = crypto_of (fst vt) \<and>
    (\<forall>u' n. u' \<noteq> u \<or> to_lower n \<noteq> name \<longrightarrow>
       get_decrypted now u' n (fst vt') = get_decrypted now u' n (fst vt) \<and> found u' n (fst vt') = found u' n (fst vt)) \<and>
    (aead_law (cr_ops (crypto_of (fst vt))) \<and> length (snd (en_random (ge_creations env (snd vt)))) = NONCE_SIZE \<and>
       utf8_valid (as_bytes key) \<and> to_lower name = name \<longrightarrow> get_decrypted now u name (fst vt') = Inr key)"
proof -
  let ?p = "\<lparr>cs_name = name, cs_value = key, cs_provider = Some pid, cs_expires_at = None\<rparr>"
  let ?e = "ge_creations env (snd vt)"
  obtain r s' where c: "create ?e u ?p (fst vt) = (Inr r, s')" "vt' = (s', snd vt + 1)"
    using assms(1,3) by (auto simp: vault_secret_def split: prod.splits sum.splits)
  obtain enc where e: "encrypt (crypto_of (fst vt)) (en_random ?e) (as_bytes (cs_value ?p)) = Inr enc"
    using c(1) create_error[of "fst vt" ?e ?p _ u] by (cases "encrypt (crypto_of (fst vt)) (en_random ?e) (as_bytes (cs_value ?p))") auto
  have "ok s'" "crypto_of s' = crypto_of (fst vt)" using create_ok[OF assms(2) e, of u] c(1) by auto
  moreover have "get_decrypted now u' n s' = get_decrypted now u' n (fst vt) \<and> found u' n s' = found u' n (fst vt)"
    if "u' \<noteq> u \<or> to_lower n \<noteq> name" for u' n
    using others_kept[OF assms(2) c(1)] that by simp
  moreover have "get_decrypted now u name s' = Inr key"
    if "aead_law (cr_ops (crypto_of (fst vt)))" "length (snd (en_random ?e)) = NONCE_SIZE" "utf8_valid (as_bytes key)" "to_lower name = name"
    using stored_then_read[OF assms(2) that(1) e that(2), of name now u] that c(1) by auto
  ultimately show ?thesis using c(2) by simp
qed

lemma vault_entry_kept:
  assumes "ge_api env = \<lparr>sa_create = create, sa_get_decrypted = get_decrypted, sa_exists = found\<rparr>" "ok (fst vt)"
    "vault_entry env u name pid v vt = (Inr v', vt')"
  shows "ok (fst vt')" "crypto_of (fst vt') = crypto_of (fst vt)"
    "u' \<noteq> u \<or> to_lower n \<noteq> name \<Longrightarrow> get_decrypted now u' n (fst vt') = get_decrypted now u' n (fst vt)"
    "aead_law (cr_ops (crypto_of (fst vt))) \<Longrightarrow> length (snd (en_random (ge_creations env (snd vt)))) = NONCE_SIZE \<Longrightarrow>
       str_at s_api_key v = Some key \<Longrightarrow> is_real_api_key key \<Longrightarrow> utf8_valid (as_bytes key) \<Longrightarrow> to_lower name = name \<Longrightarrow>
       get_decrypted now u name (fst vt') = Inr key"
proof -
  have "vt' = vt \<and> (\<forall>k. str_at s_api_key v = Some k \<longrightarrow> \<not> is_real_api_key k) \<or>
      (\<exists>k x. str_at s_api_key v = Some k \<and> vault_secret env u name k pid vt = (Inr x, vt'))"
    using assms(3) by (auto simp: vault_entry_def split: option.splits if_splits prod.splits sum.splits)
  then show "ok (fst vt')" "crypto_of (fst vt') = crypto_of (fst vt)"
    "u' \<noteq> u \<or> to_lower n \<noteq> name \<Longrightarrow> get_decrypted now u' n (fst vt') = get_decrypted now u' n (fst vt)"
    "aead_law (cr_ops (crypto_of (fst vt))) \<Longrightarrow> length (snd (en_random (ge_creations env (snd vt)))) = NONCE_SIZE \<Longrightarrow>
       str_at s_api_key v = Some key \<Longrightarrow> is_real_api_key key \<Longrightarrow> utf8_valid (as_bytes key) \<Longrightarrow> to_lower name = name \<Longrightarrow>
       get_decrypted now u name (fst vt') = Inr key"
    using vault_secret_kept[OF assms(1,2)] assms(2) by fastforce+
qed

lemma vaulted_keys_read:
  assumes "ge_api env = \<lparr>sa_create = create, sa_get_decrypted = get_decrypted, sa_exists = found\<rparr>"
    and "\<forall>i. length (snd (en_random (ge_creations env i))) = NONCE_SIZE"
  shows "vault_custom env u vs vt = (Inr vs', vt') \<Longrightarrow> ok (fst vt) \<Longrightarrow> aead_law (cr_ops (crypto_of (fst vt))) \<Longrightarrow> distinct (map id_of vs) \<Longrightarrow>
    \<forall>v\<in>set vs. id_of v \<noteq> [] \<and> to_lower (id_of v) = id_of v \<and> (\<forall>k. str_at s_api_key v = Some k \<longrightarrow> utf8_valid (as_bytes k)) \<Longrightarrow>
    ok (fst vt') \<and> (\<forall>v\<in>set vs. \<forall>k. str_at s_api_key v = Some k \<and> is_real_api_key k \<longrightarrow>
      get_decrypted now u (custom_secret_name (id_of v)) (fst vt') = Inr k) \<and>
    (\<forall>u' n. u' \<noteq> u \<or> to_lower n \<notin> (\<lambda>v. custom_secret_name (id_of v)) ` set vs \<longrightarrow>
       get_decrypted now u' n (fst vt') = get_decrypted now u' n (fst vt))"
proof (induction vs arbitrary: vt vs')
  case (Cons v vs)
  obtain v1 vt1 vs1 where st: "vault_entry env u (custom_secret_name (id_of v)) (id_of v) v vt = (Inr v1, vt1)"
      "vault_custom env u vs vt1 = (Inr vs1, vt')"
    using Cons.prems(1,5) by (auto split: prod.splits sum.splits if_splits)
  note e = vault_entry_kept[OF assms(1) Cons.prems(2) st(1)]
  have law: "aead_law (cr_ops (crypto_of (fst vt1)))" using Cons.prems(3) e(2) by simp
  have low: "to_lower (custom_secret_name (id_of v)) = custom_secret_name (id_of v)"
    using Cons.prems(5) by (simp add: lower_secret_names)
  have IH: "ok (fst vt')"
      "\<And>w k. w \<in> set vs \<Longrightarrow> str_at s_api_key w = Some k \<Longrightarrow> is_real_api_key k \<Longrightarrow>
         get_decrypted now u (custom_secret_name (id_of w)) (fst vt') = Inr k"
      "\<And>u' n. u' \<noteq> u \<or> to_lower n \<notin> (\<lambda>v. custom_secret_name (id_of v)) ` set vs \<Longrightarrow>
         get_decrypted now u' n (fst vt') = get_decrypted now u' n (fst vt1)"
    using Cons.IH[OF st(2) e(1) law] Cons.prems(4,5) by auto
  have "get_decrypted now u (custom_secret_name (id_of v)) (fst vt') = Inr k"
    if k: "str_at s_api_key v = Some k" "is_real_api_key k" for k
  proof -
    have "get_decrypted now u (custom_secret_name (id_of v)) (fst vt1) = Inr k"
      using e(4)[OF Cons.prems(3) _ k] assms(2) Cons.prems(5) k low by simp
    moreover have "to_lower (custom_secret_name (id_of v)) \<notin> (\<lambda>v. custom_secret_name (id_of v)) ` set vs"
      using Cons.prems(4) low by auto
    ultimately show ?thesis using IH(3) by simp
  qed
  moreover have "get_decrypted now u' n (fst vt') = get_decrypted now u' n (fst vt)"
    if "u' \<noteq> u \<or> to_lower n \<notin> (\<lambda>v. custom_secret_name (id_of v)) ` set (v # vs)" for u' n
    using IH(3)[of u' n] e(3)[of u' n] that by auto
  ultimately show ?case using IH(1,2) by auto
qed simp

end

subsection \<open>Handlers\<close>

definition pg_api :: "pg_secrets secrets_api" where
  "pg_api = \<lparr>sa_create = pg_create, sa_get_decrypted = pg_get_decrypted, sa_exists = pg_exists\<rparr>"

lemma valid_id_lower: "is_valid_provider_id i \<Longrightarrow> i \<noteq> [] \<and> to_lower i = i"
proof -
  assume v: "is_valid_provider_id i"
  have "\<not> is_ascii_upper CHR ''-''" "\<not> is_ascii_upper CHR ''_''" by code_simp+
  then have "\<not> is_ascii_upper c" if "c \<in> set i" for c
    using v that by (fastforce simp: is_valid_provider_id_def list_all_iff is_ascii_lower_def is_ascii_upper_def is_ascii_digit_def)
  then have "lower_char c = c" if "c \<in> set i" for c using that by (simp add: lower_char_def)
  then show ?thesis using v by (simp add: is_valid_provider_id_def to_lower_def map_idI)
qed

lemma set_providers_steps:
  assumes "settings_set_handler env u s_providers (JArray vs) gw = (Inr c, gw')"
  shows "\<exists>t v' vo. gw_store gw = Some t \<and> check_providers t u (JArray vs) = Inr () \<and>
    extract_custom_provider_keys env u (JArray vs) (gw_vault gw) = (Inr v', vo) \<and>
    gw' = gw\<lparr>gw_vault := vo, gw_store := Some (set_setting (ge_now env) u s_providers v' t)\<rparr>"
  using assms by (auto simp: settings_set_handler_def sanitize_setting_def split: option.splits sum.splits prod.splits)

lemma extract_steps:
  assumes "extract_custom_provider_keys env u (JArray vs) vo = (Inr v', vo')"
  shows "\<exists>vs'. v' = JArray vs' \<and> (vs' = vs \<and> vo = None \<and> vo' = None \<or>
    (\<exists>vt vt'. vo = Some vt \<and> vo' = Some vt' \<and> vault_custom env u vs vt = (Inr vs', vt')))"
proof (cases vo)
  case None
  then show ?thesis using assms by (auto simp: extract_custom_provider_keys_def require_secrets_store_def split: if_splits)
next
  case (Some vt)
  obtain r vt' where r: "vault_custom env u vs vt = (r, vt')" by (metis surj_pair)
  then show ?thesis using assms Some
    by (cases r) (auto simp: extract_custom_provider_keys_def require_secrets_store_def)
qed

lemma checked_ids: "check_providers t u (JArray vs) = Inr () \<Longrightarrow> v \<in> set vs \<Longrightarrow> is_valid_provider_id (id_of v)"
  by (auto simp: check_providers_def validate_custom_providers_def valid_provider_def list_all_iff split: sum.splits if_splits)

text \<open>A write without real keys does not touch the vault.\<close>

lemma vault_custom_unreal: "\<forall>v\<in>set vs. \<not> has_real_key v \<Longrightarrow> snd (vault_custom env u vs vt) = vt"
proof (induction vs)
  case (Cons v vs)
  have "snd (vault_entry env u name i v vt) = vt" for name i
    using Cons.prems by (auto simp: vault_entry_def has_real_key_def split: option.splits)
  moreover have "fst (vault_entry env u name i v vt) = Inl e \<Longrightarrow> False" for name i e
    using Cons.prems by (auto simp: vault_entry_def has_real_key_def split: option.splits)
  ultimately show ?case using Cons by (auto split: prod.splits sum.splits) (metis fst_conv snd_conv)+
qed simp

lemma masked_has_sentinel: "json_get s_api_key (mask_value v) \<in> {None, Some (JString API_KEY_UNCHANGED)}"
proof (cases v)
  case (JObject es)
  then show ?thesis
    using hm_get_put[of s_api_key "JString API_KEY_UNCHANGED" es s_api_key]
    by (auto simp: mask_value_def put_key_def json_get_def hm_get_def)
qed (simp_all add: mask_value_def put_key_def json_get_def)

lemma sentinel_not_real: "\<not> is_real_api_key API_KEY_UNCHANGED"
  by (simp add: is_real_api_key_def)

lemma masked_not_real: "\<not> has_real_key (mask_value v)"
  using masked_has_sentinel[of v] sentinel_not_real by (auto simp: has_real_key_def str_at_def)

lemma keyed_masked: "json_get s_api_key v = Some w \<Longrightarrow> str_at s_api_key (mask_value v) = Some API_KEY_UNCHANGED"
proof (cases v)
  case (JObject es)
  moreover assume "json_get s_api_key v = Some w"
  ultimately show ?thesis
    using hm_get_put[of s_api_key "JString API_KEY_UNCHANGED" es s_api_key]
    by (simp add: mask_value_def put_key_def str_at_def json_get_def hm_get_def)
qed (simp_all add: json_get_def)

text \<open>What is shown of the two settings.\<close>

lemma shown_single:
  "map_of (shown env vo u [(s_overrides, v)]) s_overrides =
     Some (each_override (\<lambda>_. mask_value)
       (case vo of None \<Rightarrow> v | Some vt \<Rightarrow> each_override (\<lambda>i. annotate_value env vt u (builtin_secret_name i)) v))"
  "map_of (shown env vo u [(s_providers, v)]) s_providers =
     Some (each_provider mask_value (case vo of None \<Rightarrow> v | Some vt \<Rightarrow> each_provider (annotate_provider env vt u) v))"
  by (simp_all add: shown_def mask_settings_api_keys_def annotate_secret_key_presence_def on_key_def split: option.split)

text \<open>A setting in whose providers or overrides every key is the placeholder.\<close>

definition masked_setting :: "string \<Rightarrow> json \<Rightarrow> bool" where
  "masked_setting key v =
     (case v of
        JArray vs \<Rightarrow> key = s_providers \<longrightarrow> list_all (\<lambda>e. json_get s_api_key e \<in> {None, Some (JString API_KEY_UNCHANGED)}) vs
      | JObject es \<Rightarrow> key = s_overrides \<longrightarrow> list_all (\<lambda>(_, e). json_get s_api_key e \<in> {None, Some (JString API_KEY_UNCHANGED)}) es
      | _ \<Rightarrow> True)"

lemma masked_other: "key \<noteq> s_overrides \<and> key \<noteq> s_providers \<Longrightarrow> masked_setting key v"
  "\<not> (key = s_overrides \<or> key = s_providers) \<Longrightarrow> masked_setting key v"
  by (auto simp: masked_setting_def split: json.split)

lemma on_key_keys [simp]: "fst ` set (on_key k f settings) = fst ` set settings"
  by (force simp: on_key_def image_iff)

lemma shown_keys: "fst ` set (shown env vo u settings) = fst ` set settings"
  by (simp add: shown_def mask_settings_api_keys_def annotate_secret_key_presence_def split: option.split)

lemma shown_masked: "(k, v) \<in> set (shown env vo u settings) \<Longrightarrow> masked_setting k v"
proof -
  have distinct_names: "s_providers \<noteq> s_overrides" by (simp add: s_providers_def s_overrides_def)
  have "masked_setting s_providers (each_provider mask_value x)" "masked_setting s_overrides (each_override (\<lambda>_. mask_value) x)" for x
    using masked_has_sentinel distinct_names
    by (auto simp: masked_setting_def each_provider_def each_override_def list_all_iff split: json.splits)
  then show "(k, v) \<in> set (shown env vo u settings) \<Longrightarrow> masked_setting k v"
    using distinct_names masked_other[of k v]
    by (auto simp: shown_def mask_settings_api_keys_def on_key_def split: if_splits)
qed

lemma strip_keeps_id: "str_at ''id'' (strip_key v) = str_at ''id'' v"
proof (cases v)
  case (JObject es)
  then show ?thesis using hm_get_del[of s_api_key es "''id''"] by (simp add: strip_key_def str_at_def json_get_def hm_get_def s_api_key_def)
qed (simp_all add: strip_key_def)

lemma vaulted_keeps_ids: "vault_custom env u vs vt = (Inr vs', vt') \<Longrightarrow> has_provider i vs' = has_provider i vs"
proof (induction vs arbitrary: vt vs')
  case (Cons v vs)
  then show ?case
    by (auto simp: has_provider_def strip_keeps_id split: prod.splits sum.splits if_splits dest!: vault_entry_value)
qed simp

definition sample_gateway_env :: "pg_secrets gateway_env" where
  "sample_gateway_env = \<lparr>ge_api = pg_api, ge_creations = (\<lambda>_. sample_create_env), ge_now = 7, ge_collation = (\<lambda>_. 0), ge_time_text = (\<lambda>_. [])\<rparr>"

definition provider_json :: "string \<Rightarrow> string \<Rightarrow> json" where
  "provider_json i k = JObject [(''id'', JString i), (''adapter'', JString ''ollama''), (s_api_key, JString k)]"

lemma provider_json_get [simp]:
  "str_at s_api_key (provider_json i k) = Some k" "id_of (provider_json i k) = i"
  by (simp_all add: provider_json_def str_at_def id_of_def json_get_def s_api_key_def)

definition sample_gateway :: "settings_table \<Rightarrow> pg_secrets gateway" where
  "sample_gateway t = \<lparr>gw_store = Some t, gw_vault = Some (sample_pg, 0)\<rparr>"

lemma sample_nonces: "\<forall>i. length (snd (en_random (ge_creations sample_gateway_env i))) = NONCE_SIZE"
  by (simp add: sample_gateway_env_def sample_create_env_def NONCE_SIZE_def)

lemma sample_set: "\<exists>gw'. settings_set_handler sample_gateway_env u s_providers (JArray [provider_json ''mine'' ''sk-1'']) (sample_gateway t) = (Inr 204, gw')"
  if "guard_active_provider_not_removed t u (JArray [provider_json ''mine'' ''sk-1'']) = Inr ()"
proof -
  have i: "is_valid_provider_id ''mine''" by code_simp
  have a: "str_at ''adapter'' (provider_json ''mine'' ''sk-1'') = Some ''ollama''"
    by (simp add: provider_json_def str_at_def json_get_def)
  have c: "check_providers t u (JArray [provider_json ''mine'' ''sk-1'']) = Inr ()"
    using that i a by (simp add: check_providers_def validate_custom_providers_def valid_provider_def VALID_ADAPTERS_def)
  obtain enc where "encrypt sample_crypto (en_random sample_create_env) (as_bytes ''sk-1'') = Inr enc" using sample_encrypt by blast
  then obtain r s' where cr: "pg_create sample_create_env u
      \<lparr>cs_name = custom_secret_name ''mine'', cs_value = ''sk-1'', cs_provider = Some ''mine'', cs_expires_at = None\<rparr> sample_pg = (Inr r, s')"
    using pg.create_ok[of sample_pg sample_create_env
        "\<lparr>cs_name = custom_secret_name ''mine'', cs_value = ''sk-1'', cs_provider = Some ''mine'', cs_expires_at = None\<rparr>" enc u]
    by (auto simp: sample_pg_def)
  have r: "is_real_api_key ''sk-1''" by code_simp
  show ?thesis using c cr r
    by (simp add: settings_set_handler_def sample_gateway_def sanitize_setting_def extract_custom_provider_keys_def require_secrets_store_def
        vault_entry_def vault_secret_def sample_gateway_env_def pg_api_def)
qed

section \<open>Properties\<close>

text \<open>
  C12. Keys in a list of custom providers that is written through the handler are not in the settings afterwards and come back at the
  next start: the stored list has no key, and each provider of the list gets the key that was written for it.
\<close>

theorem provider_keys_round_trip:
  assumes "settings_set_handler env u s_providers (JArray vs) gw = (Inr c, gw')" "gw_vault gw = Some vt" "ge_api env = pg_api"
    and "aead_law (cr_ops (pg_crypto (fst vt)))" "\<forall>i. length (snd (en_random (ge_creations env i))) = NONCE_SIZE"
    and "distinct (map id_of vs)" "\<forall>v\<in>set vs. \<forall>k. str_at s_api_key v = Some k \<longrightarrow> utf8_valid (as_bytes k)"
  shows "\<exists>t' vs' vt'. gw_store gw' = Some t' \<and> gw_vault gw' = Some vt' \<and> get_setting u s_providers t' = Some (JArray vs') \<and>
    (\<forall>v'\<in>set vs'. str_at s_api_key v' = None) \<and>
    (\<forall>v\<in>set vs. \<forall>k p s. str_at s_api_key v = Some k \<and> is_real_api_key k \<and> p \<in> set (ls_custom_providers s) \<and>
       pv_id p = id_of v \<and> pv_api_key p = None \<longrightarrow>
       p\<lparr>pv_api_key := Some k\<rparr> \<in> set (ls_custom_providers (hydrate_llm_keys_from_secrets env vt' u s)))"
proof -
  obtain t v' vo where st: "check_providers t u (JArray vs) = Inr ()"
      "extract_custom_provider_keys env u (JArray vs) (Some vt) = (Inr v', vo)"
      "gw' = gw\<lparr>gw_vault := vo, gw_store := Some (set_setting (ge_now env) u s_providers v' t)\<rparr>"
    using set_providers_steps[OF assms(1)] assms(2) by auto
  obtain vs' vt' where v: "vault_custom env u vs vt = (Inr vs', vt')" "v' = JArray vs'" "vo = Some vt'"
    using extract_steps[OF st(2)] by auto
  have ids: "v \<in> set vs \<Longrightarrow> id_of v \<noteq> [] \<and> to_lower (id_of v) = id_of v" for v
    using valid_id_lower[OF checked_ids[OF st(1)]] by blast
  have api: "ge_api env = \<lparr>sa_create = pg_create, sa_get_decrypted = pg_get_decrypted, sa_exists = pg_exists\<rparr>"
    using assms(3) by (simp add: pg_api_def)
  have rd: "pg_get_decrypted (ge_now env) u (custom_secret_name (id_of v)) (fst vt') = Inr k"
    if "v \<in> set vs" "str_at s_api_key v = Some k" "is_real_api_key k" for v k
    using pg.vaulted_keys_read[OF api assms(5) v(1), of "ge_now env"] ids assms(4,6,7) that by auto
  have hyd: "p\<lparr>pv_api_key := Some k\<rparr> \<in> set (ls_custom_providers (hydrate_llm_keys_from_secrets env vt' u s))"
    if h: "v \<in> set vs" "str_at s_api_key v = Some k" "is_real_api_key k" "p \<in> set (ls_custom_providers s)" "pv_id p = id_of v" "pv_api_key p = None"
    for v k p s
  proof -
    have "hydrated_key env vt' u (custom_secret_name (pv_id p)) (pv_api_key p) = Some k"
      using rd[OF h(1-3)] h(5,6) by (simp add: hydrated_key_def api)
    then show ?thesis using h(4) by (force simp: hydrate_llm_keys_from_secrets_def)
  qed
  have "\<forall>v'\<in>set vs'. str_at s_api_key v' = None" using vaulted_without_keys[OF v(1)] ids by blast
  then show ?thesis using st(3) v(2,3) hyd by (simp add: setting_after_set)
qed

theorem provider_keys_round_trip_witness:
  "\<exists>gw' t' vs' vt'. settings_set_handler sample_gateway_env ''ann'' s_providers (JArray [provider_json ''mine'' ''sk-1'']) (sample_gateway []) = (Inr 204, gw') \<and>
     gw_store gw' = Some t' \<and> gw_vault gw' = Some vt' \<and> get_setting ''ann'' s_providers t' = Some (JArray vs') \<and>
     (\<forall>v'\<in>set vs'. str_at s_api_key v' = None)"
proof -
  have g: "guard_active_provider_not_removed [] ''ann'' (JArray [provider_json ''mine'' ''sk-1'']) = Inr ()"
    by (simp add: guard_active_provider_not_removed_def get_setting_def)
  obtain gw' where s: "settings_set_handler sample_gateway_env ''ann'' s_providers (JArray [provider_json ''mine'' ''sk-1'']) (sample_gateway []) = (Inr 204, gw')"
    using sample_set[OF g] by blast
  have u: "utf8_valid (as_bytes ''sk-1'')" by code_simp
  have "\<exists>t' vs' vt'. gw_store gw' = Some t' \<and> gw_vault gw' = Some vt' \<and> get_setting ''ann'' s_providers t' = Some (JArray vs') \<and>
      (\<forall>v'\<in>set vs'. str_at s_api_key v' = None)"
    using provider_keys_round_trip[OF s, of "(sample_pg, 0)"] sample_aead sample_nonces u
    by (simp add: sample_gateway_def sample_gateway_env_def sample_pg_def) blast
  then show ?thesis using s by blast
qed

text \<open>
  C15. No answer of the settings API has the key of a provider. In the answer for one setting, in the list of all
  settings and in the export, every key in a list of custom providers and in an object of overrides is the
  placeholder, whatever is stored and whether or not there is a store of secrets. The list and the object are the
  shapes in which the program keeps the two settings; a value of another shape is returned as it is stored.
\<close>

theorem answers_mask_keys:
  "(\<forall>r. settings_get_handler env u key gw = Inr r \<longrightarrow> masked_setting key (rs_value r)) \<and>
   (\<forall>rs. settings_list_handler env u gw = Inr rs \<longrightarrow> list_all (\<lambda>r. masked_setting (rs_key r) (rs_value r)) rs) \<and>
   (\<forall>es. settings_export_handler env u gw = Inr es \<longrightarrow> list_all (\<lambda>(k, v). masked_setting k v) es)"
proof (intro conjI allI impI)
  show "masked_setting key (rs_value r)" if get: "settings_get_handler env u key gw = Inr r" for r
  proof (cases "key = s_overrides \<or> key = s_providers")
    case True
    obtain t row where t: "gw_store gw = Some t" "get_setting_full u key t = Some row"
      using get by (auto simp: settings_get_handler_def split: option.splits)
    have "key \<in> fst ` set (shown env (gw_vault gw) u [(key, se_value row)])" by (simp add: shown_keys)
    then obtain v where v: "map_of (shown env (gw_vault gw) u [(key, se_value row)]) key = Some v"
      by (metis map_of_eq_None_iff not_None_eq)
    moreover have "rs_value r = v" using get t v True by (auto simp: settings_get_handler_def Let_def)
    ultimately show ?thesis using shown_masked map_of_SomeD by metis
  qed (simp add: masked_other)
  show "list_all (\<lambda>r. masked_setting (rs_key r) (rs_value r)) rs" if list: "settings_list_handler env u gw = Inr rs" for rs
  proof -
    obtain t where t: "gw_store gw = Some t" using list by (auto simp: settings_list_handler_def split: option.splits)
    define rows where "rows = list_settings (ge_collation env) u t"
    define sens where "sens = map (\<lambda>r. (se_key r, se_value r)) (filter (\<lambda>r. se_key r \<in> set [s_overrides, s_providers]) rows)"
    have "masked_setting (se_key r) (case map_of (shown env (gw_vault gw) u sens) (se_key r) of Some v \<Rightarrow> v | None \<Rightarrow> se_value r)"
      if "r \<in> set rows" "se_key r \<in> set [s_overrides, s_providers]" for r
    proof -
      have "se_key r \<in> fst ` set (shown env (gw_vault gw) u sens)" using that by (force simp: shown_keys sens_def)
      then obtain v where "map_of (shown env (gw_vault gw) u sens) (se_key r) = Some v"
        by (metis map_of_eq_None_iff not_None_eq)
      then show ?thesis using shown_masked map_of_SomeD by fastforce
    qed
    moreover have "sens \<noteq> []" if "r \<in> set rows" "se_key r \<in> set [s_overrides, s_providers]" for r
      using that by (auto simp: sens_def filter_empty_conv)
    ultimately have "masked_setting (se_key r) (if se_key r \<in> set [s_overrides, s_providers]
        then (case map_of (if sens \<noteq> [] then shown env (gw_vault gw) u sens else sens) (se_key r) of Some v \<Rightarrow> v | None \<Rightarrow> se_value r)
        else se_value r)" (is "masked_setting _ (?val r)") if "r \<in> set rows" for r
      using that masked_other[of "se_key r" "se_value r"] by (cases "se_key r \<in> set [s_overrides, s_providers]") simp_all
    moreover have "rs = map (\<lambda>r. \<lparr>rs_key = se_key r, rs_value = ?val r, rs_updated_at = ge_time_text env (se_updated_at r)\<rparr>) rows"
      using list unfolding settings_list_handler_def t option.case Let_def rows_def sens_def sum.inject by (rule sym)
    ultimately show ?thesis by (simp add: list_all_iff)
  qed
  show "list_all (\<lambda>(k, v). masked_setting k v) es" if "settings_export_handler env u gw = Inr es" for es
    using that shown_masked by (fastforce simp: settings_export_handler_def list_all_iff split: option.splits)
qed

theorem answers_mask_keys_witness:
  "\<exists>r v. settings_get_handler sample_gateway_env ''ann'' s_providers
      (sample_gateway [\<lparr>se_user_id = ''ann'', se_key = s_providers, se_value = JArray [provider_json ''mine'' ''sk-1''], se_updated_at = 0\<rparr>]) = Inr r \<and>
    rs_value r = JArray [v] \<and> json_get s_api_key v = Some (JString API_KEY_UNCHANGED)"
proof -
  let ?p = "provider_json ''mine'' ''sk-1''"
  let ?gw = "sample_gateway [\<lparr>se_user_id = ''ann'', se_key = s_providers, se_value = JArray [?p], se_updated_at = 0\<rparr>]"
  have k: "json_get s_api_key ?p = Some (JString ''sk-1'')" using str_at_get[of s_api_key ?p "''sk-1''"] by simp
  then have a: "annotate_provider sample_gateway_env vt ''ann'' ?p = ?p" for vt
    by (simp add: annotate_provider_def annotate_value_def)
  obtain r where r: "settings_get_handler sample_gateway_env ''ann'' s_providers ?gw = Inr r" "rs_value r = JArray [mask_value ?p]"
    by (simp add: settings_get_handler_def sample_gateway_def get_setting_full_def setting_at_def shown_single each_provider_def a)
  obtain w where w: "json_get s_api_key (mask_value ?p) = Some w" using keyed_masked[OF k] str_at_get by blast
  have "masked_setting s_providers (rs_value r)"
    using answers_mask_keys[of sample_gateway_env "''ann''" s_providers ?gw] r(1) by blast
  then have "w = JString API_KEY_UNCHANGED" using r(2) w by (simp add: masked_setting_def)
  then show ?thesis using r w by blast
qed

text \<open>
  With a store of secrets, a client that writes back a list of providers with placeholders leaves the store as it
  was.
\<close>

theorem placeholders_keep_vault:
  assumes "settings_set_handler env u s_providers (JArray vs) gw = (r, gw')" "\<forall>v\<in>set vs. \<not> has_real_key v"
  shows "gw_vault gw' = gw_vault gw"
proof -
  have "snd (extract_custom_provider_keys env u (JArray vs) (gw_vault gw)) = gw_vault gw"
  proof (cases "gw_vault gw")
    case (Some vt)
    then show ?thesis using vault_custom_unreal[OF assms(2), of env u vt]
      by (auto simp: extract_custom_provider_keys_def require_secrets_store_def split: prod.splits)
  qed (auto simp: extract_custom_provider_keys_def require_secrets_store_def)
  then show ?thesis using assms(1)
    by (auto simp: settings_set_handler_def sanitize_setting_def split: option.splits sum.splits prod.splits)
qed

theorem placeholders_keep_vault_witness:
  "gw_vault (snd (settings_set_handler sample_gateway_env ''ann'' s_providers (JArray [provider_json ''mine'' API_KEY_UNCHANGED]) (sample_gateway []))) =
     gw_vault (sample_gateway [])"
  by (rule placeholders_keep_vault[OF prod.collapse[symmetric]]) (simp add: has_real_key_def sentinel_not_real)

text \<open>
  Without a store of secrets, a client that writes back the overrides it has read destroys the keys that are stored
  in the clear: the placeholder takes their place.
\<close>

theorem written_back_placeholder:
  assumes "gw_vault gw = None" "gw_store gw = Some t" "get_setting u s_overrides t = Some (JObject es)"
    and "(i, v) \<in> set es" "str_at s_api_key v = Some k"
  shows "\<exists>r t' es' v'. settings_get_handler env u s_overrides gw = Inr r \<and>
    settings_set_handler env u s_overrides (rs_value r) gw = (Inr 204, gw\<lparr>gw_store := Some t'\<rparr>) \<and>
    get_setting u s_overrides t' = Some (JObject es') \<and> (i, v') \<in> set es' \<and> str_at s_api_key v' = Some API_KEY_UNCHANGED \<and>
    (\<forall>e\<in>set es'. \<not> has_real_key (snd e))"
proof -
  let ?es = "map (\<lambda>(j, w). (j, mask_value w)) es"
  obtain row where row: "get_setting_full u s_overrides t = Some row" "se_value row = JObject es"
    using assms(3) by (auto simp: get_setting_def get_setting_full_def)
  let ?r = "\<lparr>rs_key = se_key row, rs_value = JObject ?es, rs_updated_at = ge_time_text env (se_updated_at row)\<rparr>"
  have g: "settings_get_handler env u s_overrides gw = Inr ?r"
    using assms(1,2) row by (simp add: settings_get_handler_def shown_single each_override_def)
  have "\<not> list_ex (\<lambda>e. has_real_key (snd e)) ?es" using masked_not_real by (auto simp: list_ex_iff)
  then have "settings_set_handler env u s_overrides (rs_value ?r) gw =
      (Inr 204, gw\<lparr>gw_store := Some (set_setting (ge_now env) u s_overrides (JObject ?es) t)\<rparr>)"
    using assms(1,2) by (simp add: settings_set_handler_def sanitize_setting_def extract_builtin_override_keys_def require_secrets_store_def)
  moreover have "(i, mask_value v) \<in> set ?es" using assms(4) by force
  moreover have "str_at s_api_key (mask_value v) = Some API_KEY_UNCHANGED" using assms(5) keyed_masked by (simp add: str_at_get)
  moreover have "\<forall>e\<in>set ?es. \<not> has_real_key (snd e)" using masked_not_real by auto
  ultimately show ?thesis using g setting_after_set[of u s_overrides "ge_now env" u s_overrides "JObject ?es" t]
    by (intro exI[of _ ?r] exI[of _ "set_setting (ge_now env) u s_overrides (JObject ?es) t"] exI[of _ ?es] exI[of _ "mask_value v"]) simp
qed

theorem written_back_placeholder_witness:
  "\<exists>r t' es' v'. settings_get_handler sample_gateway_env ''ann'' s_overrides
      \<lparr>gw_store = Some [\<lparr>se_user_id = ''ann'', se_key = s_overrides, se_value = JObject [(''openai'', provider_json ''x'' ''sk-1'')], se_updated_at = 0\<rparr>],
       gw_vault = None\<rparr> = Inr r \<and>
    settings_set_handler sample_gateway_env ''ann'' s_overrides (rs_value r)
      \<lparr>gw_store = Some [\<lparr>se_user_id = ''ann'', se_key = s_overrides, se_value = JObject [(''openai'', provider_json ''x'' ''sk-1'')], se_updated_at = 0\<rparr>],
       gw_vault = None\<rparr> = (Inr 204, \<lparr>gw_store = Some t', gw_vault = None\<rparr>) \<and>
    get_setting ''ann'' s_overrides t' = Some (JObject es') \<and> (''openai'', v') \<in> set es' \<and> str_at s_api_key v' = Some API_KEY_UNCHANGED"
  using written_back_placeholder[of "\<lparr>gw_store = Some [\<lparr>se_user_id = ''ann'', se_key = s_overrides,
      se_value = JObject [(''openai'', provider_json ''x'' ''sk-1'')], se_updated_at = 0\<rparr>], gw_vault = None\<rparr>"
    "[\<lparr>se_user_id = ''ann'', se_key = s_overrides, se_value = JObject [(''openai'', provider_json ''x'' ''sk-1'')], se_updated_at = 0\<rparr>]"
    "''ann''" "[(''openai'', provider_json ''x'' ''sk-1'')]" "''openai''" "provider_json ''x'' ''sk-1''" "''sk-1''" sample_gateway_env]
  by (simp add: get_setting_def setting_at_def) blast

text \<open>
  An import stores the key of a provider without an identifier in the clear, and accepts what the handler for a
  single setting refuses.
\<close>

theorem import_stores_plaintext:
  assumes "gw_store gw = Some t" "gw_vault gw = Some vt" "id_of v = []"
  shows "\<exists>gw' t'. settings_import_handler env u [(s_providers, JArray [v])] gw = (Inr 204, gw') \<and> gw_store gw' = Some t' \<and>
    get_setting u s_providers t' = Some (JArray [v]) \<and>
    (\<exists>e. fst (settings_set_handler env u s_providers (JArray [v]) gw) = Inl e)"
proof -
  have "fst (settings_set_handler env u s_providers (JArray [v]) gw) \<noteq> Inr c" for c
  proof
    assume "fst (settings_set_handler env u s_providers (JArray [v]) gw) = Inr c"
    then obtain gw' where "settings_set_handler env u s_providers (JArray [v]) gw = (Inr c, gw')" by (metis prod.collapse)
    from set_providers_steps[OF this] checked_ids[of _ u "[v]" v] show False using assms(3) by (auto simp: is_valid_provider_id_def)
  qed
  then have "\<exists>e. fst (settings_set_handler env u s_providers (JArray [v]) gw) = Inl e" by (metis sumE)
  moreover have "settings_import_handler env u [(s_providers, JArray [v])] gw =
      (Inr 204, gw\<lparr>gw_vault := Some vt, gw_store := Some (set_setting (ge_now env) u s_providers (JArray [v]) t)\<rparr>)"
    using assms by (simp add: settings_import_handler_def sanitize_at_def sanitize_setting_def extract_custom_provider_keys_def
        require_secrets_store_def set_all_settings_def hm_get_def hm_put_def)
  ultimately show ?thesis by (simp add: setting_after_set)
qed

theorem import_stores_plaintext_witness:
  "\<exists>gw' t'. settings_import_handler sample_gateway_env ''ann'' [(s_providers, JArray [provider_json [] ''sk-1''])] (sample_gateway []) = (Inr 204, gw') \<and>
    gw_store gw' = Some t' \<and> get_setting ''ann'' s_providers t' = Some (JArray [provider_json [] ''sk-1''])"
  using import_stores_plaintext[of "sample_gateway []" "[]" "(sample_pg, 0)" "provider_json [] ''sk-1''" sample_gateway_env "''ann''"]
  by (auto simp: sample_gateway_def)

text \<open>
  C14. The migration of a key whose provider has a capital letter in its identifier loses the key: it is gone from the
  settings, and the secret cannot be read.
\<close>

theorem migration_loses_capital_key:
  assumes "ge_api env = pg_api" "get_setting u s_overrides t = Some (JObject [(i, v)])" "get_setting u s_providers t = None"
    and "str_at s_api_key v = Some k" "k \<noteq> []" "to_lower i \<noteq> i"
    and "encrypt (pg_crypto (fst vt)) (en_random (ge_creations env (snd vt))) (as_bytes k) = Inr enc"
    and "pg_look (fst vt) u (builtin_secret_name (to_lower i)) = None"
  shows "\<exists>t' vt'. migrate_plaintext_llm_keys env u t vt = (t', vt') \<and>
    get_setting u s_overrides t' = Some (JObject [(i, strip_key v)]) \<and>
    pg_get_decrypted now u (builtin_secret_name i) (fst vt') = Inl (SecretNotFound (builtin_secret_name (to_lower i)))"
proof -
  have api: "ge_api env = \<lparr>sa_create = pg_create, sa_get_decrypted = pg_get_decrypted, sa_exists = pg_exists\<rparr>"
    using assms(1) by (simp add: pg_api_def)
  let ?p = "\<lparr>cs_name = builtin_secret_name i, cs_value = k, cs_provider = Some i, cs_expires_at = None\<rparr>"
  obtain r s' where c: "pg_create (ge_creations env (snd vt)) u ?p (fst vt) = (Inr r, s')"
    using pg.create_ok[of "fst vt" "ge_creations env (snd vt)" ?p enc u] assms(7) by auto
  let ?vt' = "(s', snd vt + 1)"
  have v: "vault_secret env u (builtin_secret_name i) k i vt = (Inr (), ?vt')" using c by (simp add: vault_secret_def api)
  have nv: "\<not> in_vault env vt u (builtin_secret_name i)"
    using assms(8) by (simp add: in_vault_def api pg.found_look lower_secret_names)
  have "migrate_plaintext_llm_keys env u t vt = (set_setting (ge_now env) u s_overrides (JObject [(i, strip_key v)]) t, ?vt')"
    using assms(2-5) v nv
    by (simp add: migrate_plaintext_llm_keys_def setting_of_all migrate_overrides_def migrate_providers_def migrate_entry_def Let_def)
  moreover have "pg_get_decrypted now u (builtin_secret_name i) s' = pg_get_decrypted now u (builtin_secret_name i) (fst vt)"
    using pg.others_kept[OF _ c, of u "builtin_secret_name i" now] assms(6) by (simp add: lower_secret_names)
  moreover have "pg_get_decrypted now u (builtin_secret_name i) (fst vt) = Inl (SecretNotFound (builtin_secret_name (to_lower i)))"
    using assms(8) by (simp add: pg.get_decrypted_get pg.get_look lower_secret_names)
  ultimately show ?thesis by (simp add: setting_after_set)
qed

theorem migration_loses_capital_key_witness:
  "\<exists>t' vt'. migrate_plaintext_llm_keys sample_gateway_env ''ann''
      [\<lparr>se_user_id = ''ann'', se_key = s_overrides, se_value = JObject [(''MyLLM'', provider_json ''x'' ''sk-1'')], se_updated_at = 0\<rparr>] (sample_pg, 0) = (t', vt') \<and>
    get_setting ''ann'' s_overrides t' = Some (JObject [(''MyLLM'', strip_key (provider_json ''x'' ''sk-1''))]) \<and>
    (\<exists>e. pg_get_decrypted 8 ''ann'' (builtin_secret_name ''MyLLM'') (fst vt') = Inl e)"
proof -
  let ?t = "[\<lparr>se_user_id = ''ann'', se_key = s_overrides, se_value = JObject [(''MyLLM'', provider_json ''x'' ''sk-1'')], se_updated_at = 0\<rparr>]"
  obtain enc where "encrypt sample_crypto (en_random sample_create_env) (as_bytes ''sk-1'') = Inr enc" using sample_encrypt by blast
  then have e: "encrypt (pg_crypto (fst (sample_pg, 0::nat))) (en_random (ge_creations sample_gateway_env (snd (sample_pg, 0::nat)))) (as_bytes ''sk-1'') = Inr enc"
    by (simp add: sample_pg_def sample_gateway_env_def)
  have "ge_api sample_gateway_env = pg_api" by (simp add: sample_gateway_env_def)
  moreover have "get_setting ''ann'' s_overrides ?t = Some (JObject [(''MyLLM'', provider_json ''x'' ''sk-1'')])" "get_setting ''ann'' s_providers ?t = None"
    by (simp_all add: get_setting_def setting_at_def)
  moreover have "to_lower ''MyLLM'' \<noteq> ''MyLLM''" by code_simp
  moreover have "pg_look (fst (sample_pg, 0::nat)) ''ann'' (builtin_secret_name (to_lower ''MyLLM'')) = None" by (simp add: pg_look_def sample_pg_def)
  ultimately show ?thesis
    using migration_loses_capital_key[OF _ _ _ _ _ _ e, of "''ann''" ?t "''MyLLM''" "provider_json ''x'' ''sk-1''" 8] by auto
qed

text \<open>
  A write to the list of providers that succeeds does not remove the provider in use: a custom provider that is the
  active backend is in the list afterwards.
\<close>

theorem active_provider_kept:
  assumes "settings_set_handler env u s_providers (JArray vs) gw = (Inr c, gw')" "gw_store gw = Some t"
    and "get_setting u ''llm_backend'' t = Some (JString a)" "a \<noteq> []"
    and "get_setting u s_providers t = Some (JArray old)" "has_provider a old"
  shows "\<exists>t' vs'. gw_store gw' = Some t' \<and> get_setting u s_providers t' = Some (JArray vs') \<and> has_provider a vs' \<and>
    get_setting u ''llm_backend'' t' = Some (JString a)"
proof -
  obtain v' vo where st: "check_providers t u (JArray vs) = Inr ()"
      "extract_custom_provider_keys env u (JArray vs) (gw_vault gw) = (Inr v', vo)"
      "gw' = gw\<lparr>gw_vault := vo, gw_store := Some (set_setting (ge_now env) u s_providers v' t)\<rparr>"
    using set_providers_steps[OF assms(1)] assms(2) by auto
  have n: "has_provider a vs" using st(1) assms(3-6) by (auto simp: check_providers_def guard_active_provider_not_removed_def split: if_splits)
  obtain vs' where "v' = JArray vs'" "has_provider a vs'"
    using extract_steps[OF st(2)] n vaulted_keeps_ids by blast
  moreover have "''llm_backend'' \<noteq> s_providers" by (simp add: s_providers_def)
  ultimately show ?thesis using st(3) assms(3) by (simp add: setting_after_set)
qed

theorem active_provider_kept_witness:
  "\<exists>gw' t' vs'. settings_set_handler sample_gateway_env ''ann'' s_providers (JArray [provider_json ''mine'' ''sk-1''])
      (sample_gateway [\<lparr>se_user_id = ''ann'', se_key = ''llm_backend'', se_value = JString ''mine'', se_updated_at = 0\<rparr>,
        \<lparr>se_user_id = ''ann'', se_key = s_providers, se_value = JArray [provider_json ''mine'' ''old''], se_updated_at = 0\<rparr>]) = (Inr 204, gw') \<and>
    gw_store gw' = Some t' \<and> get_setting ''ann'' s_providers t' = Some (JArray vs') \<and> has_provider ''mine'' vs'"
proof -
  let ?t = "[\<lparr>se_user_id = ''ann'', se_key = ''llm_backend'', se_value = JString ''mine'', se_updated_at = 0\<rparr>,
        \<lparr>se_user_id = ''ann'', se_key = s_providers, se_value = JArray [provider_json ''mine'' ''old''], se_updated_at = 0\<rparr>]"
  have p: "s_providers \<noteq> ''llm_backend''" by (simp add: s_providers_def)
  have h: "has_provider ''mine'' [provider_json ''mine'' k]" for k
    by (simp add: has_provider_def provider_json_def str_at_def json_get_def)
  have b: "get_setting ''ann'' ''llm_backend'' ?t = Some (JString ''mine'')" and o: "get_setting ''ann'' s_providers ?t = Some (JArray [provider_json ''mine'' ''old''])"
    using p by (simp_all add: get_setting_def setting_at_def)
  have g: "guard_active_provider_not_removed ?t ''ann'' (JArray [provider_json ''mine'' ''sk-1'']) = Inr ()"
    using b o h by (simp add: guard_active_provider_not_removed_def)
  obtain gw' where s: "settings_set_handler sample_gateway_env ''ann'' s_providers (JArray [provider_json ''mine'' ''sk-1'']) (sample_gateway ?t) = (Inr 204, gw')"
    using sample_set[OF g] by blast
  have "gw_store (sample_gateway ?t) = Some ?t" by (simp add: sample_gateway_def)
  from active_provider_kept[OF s this b _ o h] s show ?thesis by auto
qed

end
