(* ===== verification/Spec2Isabelle.thy ===== *)
theory Spec2Isabelle
  imports Context_Manager Thread_Ops Submission Provider_Chain Rate_Limiter Cost_Guard Host_Policy
    Endpoint_Allowlist Redaction Token_Store Skills Agentic_Loop Session_Manager Http_Tool Hooks Coercion
    Safety_Layer Tool_Registry Tool_Schema Tool_Execution Shell_Tool File_Tools
    Workspace_Prompt Routine_Run Webhook_Trigger Pairing_Store Scheduler Compaction Settings_Vault
begin

text \<open>
  A verification library of IronClaw, a personal assistant written in Rust. This theory imports the
  whole development and describes it; paths are relative to \<open>src/\<close> of the repository.

  \<^bold>\<open>The program.\<close> A message from a channel is parsed into a submission (\<open>agent/submission.rs\<close>)
  and handled on a thread of the user's session (\<open>agent/session.rs\<close>, \<open>agent/thread_ops.rs\<close>), with a
  checkpoint before each turn (\<open>agent/undo.rs\<close>). The messages of the thread go to a language model
  through a chain of decorators: retry, failover, circuit breaker and response cache
  (\<open>llm/retry.rs\<close>, \<open>llm/failover.rs\<close>, \<open>llm/circuit_breaker.rs\<close>, \<open>llm/response_cache.rs\<close>, put
  together in \<open>llm/mod.rs\<close>). The cost guard (\<open>agent/cost_guard.rs\<close>) is asked before each call and
  told after it. The model answers with text or with tool calls; tools are limited per user
  (\<open>tools/rate_limiter.rs\<close>), and which tools the model sees depends on the trust of the active
  skills (\<open>skills/\<close>). Background jobs have a state machine, a memory and a manager with a bound on
  parallel jobs (\<open>context/\<close>). Sandboxed code reaches the network only through a policy
  (\<open>sandbox/proxy/\<close>, \<open>tools/wasm/allowlist.rs\<close>), workers authenticate with a token per job
  (\<open>orchestrator/auth.rs\<close>), and JSON that is shown or logged is redacted (\<open>tools/redaction.rs\<close>). The
  loop of model calls and tool calls is shared by the chat, the jobs and the containers
  (\<open>agent/agentic_loop.rs\<close>); parameters are coerced to the tool's schema (\<open>tools/coercion.rs\<close>), hooks
  may change or reject an event (\<open>hooks/\<close>), and the HTTP tool (\<open>tools/builtin/http.rs\<close>) checks its URL,
  injects credentials (\<open>tools/wasm/credential_injector.rs\<close>) and scans for leaks
  (\<open>crates/ironclaw_safety\<close>) before it sends.

  \<^bold>\<open>The theories.\<close> Each has the model first and its properties after.
  \<^item> \<open>Prelude\<close>: types, the parts of the standard library that are used, the contracts of a hash map
    (\<open>hash_map\<close>), of an invariant kept by operations (\<open>op_invariant\<close>) or steps (\<open>step_invariant\<close>) and of
    an implementation of a specification (\<open>op_refinement\<close>). \<open>Strings\<close>, \<open>String_Edit\<close>: searching in
    strings and changing them. \<open>Json\<close>: the
    values of \<open>serde_json\<close>.
  \<^item> \<open>Job_State\<close> (\<open>context/state.rs\<close>): job states, the transition table and every operation on a
    job context. What a context records of a run of calls, its history, state and times, is what a
    specification of the calls gives; terminal states are final, budgets and tokens are checked.
  \<^item> \<open>Job_Memory\<close> (\<open>context/memory.rs\<close>): the bounded conversation keeps its system message and the
    newest messages; actions are numbered.
  \<^item> \<open>Context_Manager\<close> (\<open>context/manager.rs\<close>): creation, update and removal in the phases given by
    the two locks. However these interleave, the jobs that take a slot never exceed the bound; run one
    after the other, contexts and memories correspond; interleaved, a memory can be left behind.
  \<^item> \<open>Llm_Types\<close> (\<open>llm/provider.rs\<close>, \<open>llm/error.rs\<close>): messages, requests, errors, tool-call ids and
    the repair of orphaned tool results.
  \<^item> \<open>Session\<close>, \<open>Undo\<close>, \<open>Thread_Ops\<close>, \<open>Submission\<close>: sessions, threads and turns with the well-formedness
    that every operation keeps; the messages of a thread restore to the same turns; what a thread emits
    never needs repair; undo followed by redo is the identity on a thread and undo takes back a turn;
    input counts as an approval only when it is one of the listed words or a structured approval.
  \<^item> \<open>Session_Manager\<close> (\<open>agent/session_manager.rs\<close>): a thread that is resolved for a user is the user's,
    resolving again gives the same thread, and pruning removes exactly the idle sessions.
  \<^item> \<open>Reasoning_Text\<close> (\<open>llm/reasoning.rs\<close>), \<open>Agentic_Loop\<close> (\<open>agent/agentic_loop.rs\<close>): the scanners of
    response texts end within bounds, recovered tool calls name available tools; the loop ends after its
    iterations, and a model whose tool calls are cut off is made to answer in text.
  \<^item> \<open>Provider\<close>, \<open>Retry\<close>, \<open>Failover\<close>, \<open>Circuit_Breaker\<close>, \<open>Response_Cache\<close>, \<open>Provider_Chain\<close>: the
    locale \<open>provider\<close> is the contract of a decorated model, that a response was given by a backend.
    In the chain it is given to a request with the same cache key, the model included. Every decorator is shown to keep it, and the chain is their composition. Besides: which attempts and
    delays retry makes, which providers failover tries, what the breaker lets through, when the cache
    answers.
  \<^item> \<open>Rate_Limiter\<close>, \<open>Cost_Guard\<close>: bounds over any stretch of time, independence of users, and what
    happens when a daily budget is reached.
  \<^item> \<open>Host_Policy\<close>, \<open>Endpoint_Allowlist\<close>: the locale \<open>host_matcher\<close> is the contract of the host
    matchers of the program; allowed requests stay within the configured hosts, methods and path
    prefixes, and credentials go only to hosts they are mapped to.
  \<^item> \<open>Ip_Guard\<close>, \<open>Url_Guard\<close>: the seven address filters and URL checks against server-side request
    forgery. The locale \<open>ip_filter\<close> is the contract of a filter; six filters keep it, three are equal, and
    the one of the WASM host function misses IPv4-mapped addresses. The clients of four places are followed to
    the addresses they connect to, also when the resolver gives another answer at the time of the connection.
  \<^item> \<open>Leak_Detector\<close> (\<open>crates/ironclaw_safety/src/leak_detector.rs\<close>): the scan with its prefix filter
    against the scan of every pattern, from what is documented of the two engines, where the two differ for the default patterns, and redaction.
  \<^item> \<open>Credential_Injector\<close> (\<open>tools/wasm/credential_injector.rs\<close>): only secrets of the user that are allowed
    and mapped to the host have an influence on a request; the Base64 encoder is inverted.
  \<^item> \<open>Http_Tool\<close> (\<open>tools/builtin/http.rs\<close>): the composition of the last four. No request of a call reaches
    an internal address, redirects carry no headers, and the size of a response is bounded.
  \<^item> \<open>Hooks\<close> (\<open>hooks/\<close>): the registry implements a map, hooks that must not fail open are enforced, a
    bundle stays within its names.
  \<^item> \<open>Coercion\<close> (\<open>tools/coercion.rs\<close>): the types of what replaces a string, and what is kept.
  \<^item> \<open>Validator\<close>, \<open>Safety_Layer\<close> (\<open>crates/ironclaw_safety/src/\<close>): what makes parameters valid; tool output
    in its wrapper has one closing tag and is given back by unwrapping; what the sanitizer leaves; and
    three ways around it: an oversized output, overlapping delimiters, and null bytes.
  \<^item> \<open>Tool_Registry\<close> (\<open>tools/tool.rs\<close>, \<open>tools/registry.rs\<close>, \<open>tools/autonomy.rs\<close>): protected tools are not
    replaced; a rejected tool still adds its credentials. \<open>Tool_Schema\<close> (\<open>tools/schema_validator.rs\<close>): how the
    two checks of schemas are related. \<open>Tool_Execution\<close> (\<open>tools/execute.rs\<close>,
    \<open>crates/ironclaw_safety/src/credential_detect.rs\<close>): the result of a call depends on the tool only through the
    coerced and valid parameters; headers given as a text evade the approval of an HTTP call and are sent.
  \<^item> \<open>Shell_Tool\<close> (\<open>tools/builtin/shell.rs\<close>): a command sees no variable of the server beyond a list of safe ones and
    runs in the sandbox whenever that is on; how the risk of a chain of commands is classified, where a line break is not
    seen as a separator.
  \<^item> \<open>Path_Utils\<close>, \<open>File_Tools\<close> (\<open>tools/builtin/path_utils.rs\<close>, \<open>tools/builtin/file.rs\<close>): paths are read back from
    their components, accepted paths lie in the base directory when there are no links, and the file tools access
    only accepted paths; where reading panics and what a listing does not tell.
  \<^item> \<open>Chunker\<close>, \<open>Memory_Store\<close>, \<open>Workspace\<close>, \<open>Workspace_Prompt\<close> (\<open>workspace/\<close>, \<open>tools/builtin/memory.rs\<close>): documents are
    chunked without loss and read back as they were written; writes stay in the scope of the user and the writable
    layers; the prompt of a group chat hides the memory; and where refused content or the profile of another scope
    gets into the prompt all the same.
  \<^item> \<open>Routine\<close>, \<open>Routine_Store\<close>, \<open>Conversation_Store\<close> (\<open>agent/routine.rs\<close>, \<open>history/store.rs\<close>): triggers, actions and guardrails
    and the columns they are kept in; a stored routine is read back, pages of a conversation cover it, and its owner
    does not change.
  \<^item> \<open>Routine_Engine\<close>, \<open>Webhook_Trigger\<close> (\<open>agent/routine_engine.rs\<close>, \<open>channels/web/handlers/webhooks.rs\<close>): which routines a
    message, an event, the clock, a user or a webhook starts; runs as tasks whose steps interleave. A run that is
    called running has a live task or is older than the engine, and the recovery ends those. Webhook runs read the
    workspace of the engine, and cooldowns are checked on a cache that runs do not update.
  \<^item> \<open>Routine_Run\<close> (\<open>agent/routine_engine.rs\<close>): the prompt and the tool loop of a lightweight run. It makes at most five
    calls of the model and never runs a denied tool; approval has no part in it, and long output loses its closing tag.
  \<^item> \<open>Pairing_Store\<close> (\<open>pairing/store.rs\<close>): pending requests with distinct codes, approval only by a live code, at most
    ten refused codes in five minutes, with faults of the file system; an approval forgets the senders before it.
  \<^item> \<open>Scheduler\<close> (\<open>agent/scheduler.rs\<close>, \<open>agent/task.rs\<close>): dispatch, stop, messages and clean-up over the context manager.
    The running jobs stay below the limit however these interleave; a dispatch that fails keeps its slot, the limit of
    a user counts the job that is dispatched, and stopping waits for a worker with a full queue. The results of a batch
    come in the order of its tasks.
  \<^item> \<open>Compaction\<close> (\<open>agent/compaction.rs\<close>, \<open>agent/context_monitor.rs\<close>): a compaction leaves the latest turns and, when it moves
    them to the workspace, a record of every turn it removes; what a request that was too long keeps when it is retried.
  \<^item> \<open>Secrets_Store\<close> (\<open>secrets/\<close>): encryption and the stores in PostgreSQL, libSQL and memory. The locale
    \<open>secrets_provider\<close> is what a store promises; the three keep it, and the credential injector is composed with each.
    \<open>Settings_Vault\<close> (\<open>channels/web/handlers/settings.rs\<close>, \<open>config/mod.rs\<close>): keys of providers leave the settings when they
    are written and come back at start; the answers for one setting, the list and the export mask them; and three ways to lose or expose a key.
  \<^item> \<open>Token_Store\<close>: a worker is admitted only to its own job, and only until its token is revoked.
  \<^item> \<open>Redaction\<close>: nothing at a sensitive key survives, nothing else is lost.
  \<^item> \<open>Skills\<close>: an installed skill restricts the tools to the read-only ones; the selection stays
    within its limits; escaped content contains no skill tag.

  \<^bold>\<open>Time, randomness and other crates.\<close> Clock readings, random bytes and fresh identifiers are
  arguments of the operations. Functions of other crates (SHA-256, URL parsing, percent decoding,
  UUID parsing, serialisation, regular expressions, the Aho-Corasick automaton, name resolution) are parameters; hypotheses about them are stated where a theorem needs
  them and are satisfied by a concrete function in its witness. Money is a type parameter with the
  operations that the code uses.

  \<^bold>\<open>Termination and bounds.\<close> No definition uses fuel: the retry loop recurses on the attempts that are
  left, the other loops on their data or on a measure. Integers have their width where the
  code can reach it: retry delays, failover counters, token ids, rate limits, token counts.

  \<^bold>\<open>Concurrency.\<close> Where an operation releases a lock between two steps (the context manager, the
  circuit breaker, the message queue of a thread, the runs of routines, the scheduler), a step relation interleaves the steps of several
  callers and the invariant is shown for all reachable states. Operations under one lock are one step.
  The cost guard and the provider chain are modelled for one call after the other.

  \<^bold>\<open>Not modelled\<close>, and why: the backends, channels, web gateway, database, command line, setup,
  containers and the WebAssembly runtime are input and output around other crates. Left for later, in
  this order: container jobs and their reaper; rank fusion of the workspace; smart routing; the rest of \<open>agent/thread_ops.rs\<close> and of
  \<open>history/store.rs\<close>.
\<close>

end
